(* ===== verification/Prelude.thy ===== *)
theory Prelude
  imports Main
begin

text \<open>
  What every component shares: Go errors as values, the result type of fallible
  functions with the sequencing of early returns, traversals of slices whose body may
  fail, slices of a list by position, and the index search of package slices.

  A Go error is kept as the format string of its \<open>errors.New\<close> or \<open>fmt.Errorf\<close> call
  with the arguments of the call, so two errors are equal exactly when they come from
  the same format with the same values.  The typed errors of package compaction keep
  their own constructors, as does the cancellation of an agent with the intent it carries
  (\<open>CancelCause\<close> of \<open>src/agent/cancellation.go\<close>, whose foreign implementations are known by
  their kind), and a run time panic is the constructor \<open>Panicked\<close>.
\<close>

section \<open>Errors and results\<close>

datatype cancel_intent =
    UserCancel
  | ParentCancel
  | DisposedCancel
  | HookCancel string
  | OtherCancel string

datatype goerr =
    Errorf string "earg list"
  | Canceled cancel_intent
  | ManualError string string "goerr option"
  | SurfaceChanged string "goerr option"
  | Joined "goerr list"
  | Panicked string
and earg = AInt int | AStr string | AErr goerr

type_synonym 'a res = "goerr + 'a"

abbreviation err :: "string \<Rightarrow> goerr" where
  "err s \<equiv> Errorf s []"

named_theorems res_iff \<open>when a sequence of fallible steps succeeds\<close>

fun bindE :: "'a res \<Rightarrow> ('a \<Rightarrow> 'b res) \<Rightarrow> 'b res" where
  "bindE (Inl e) f = Inl e"
| "bindE (Inr x) f = f x"

definition failIf :: "bool \<Rightarrow> goerr \<Rightarrow> unit res" where
  "failIf b e = (if b then Inl e else Inr ())"

fun wrapE :: "(goerr \<Rightarrow> goerr) \<Rightarrow> 'a res \<Rightarrow> 'a res" where
  "wrapE w (Inl e) = Inl (w e)"
| "wrapE w (Inr x) = Inr x"

fun isOk :: "'a res \<Rightarrow> bool" where
  "isOk (Inl e) = False"
| "isOk (Inr x) = True"

lemma bindE_cong [fundef_cong]:
  "m = m' \<Longrightarrow> (\<And>x. m' = Inr x \<Longrightarrow> f x = g x) \<Longrightarrow> bindE m f = bindE m' g"
  by (cases m') auto

lemma bindE_Inr_iff [res_iff]: "bindE m f = Inr y \<longleftrightarrow> (\<exists>x. m = Inr x \<and> f x = Inr y)"
  by (cases m) auto

lemma bindE_Inl_iff:
  "bindE m f = Inl e \<longleftrightarrow> m = Inl e \<or> (\<exists>x. m = Inr x \<and> f x = Inl e)"
  by (cases m) auto

lemma bindE_assoc: "bindE (bindE m f) g = bindE m (\<lambda>x. bindE (f x) g)"
  by (cases m) auto

lemma failIf_Inr [res_iff]: "failIf b e = Inr u \<longleftrightarrow> \<not> b"
  by (simp add: failIf_def)

lemma failIf_simps [simp]:
  "failIf True e = Inl e"
  "failIf False e = Inr ()"
  by (simp_all add: failIf_def)

lemma wrapE_Inr_iff [res_iff]: "wrapE w m = Inr x \<longleftrightarrow> m = Inr x"
  by (cases m) auto

lemma isOk_iff: "isOk m \<longleftrightarrow> (\<exists>x. m = Inr x)"
  by (cases m) auto

section \<open>Traversing a slice with a fallible body\<close>

text \<open>
  \<open>mapE\<close> is a loop over a slice whose body may return early with an error; \<open>imapE\<close>
  also passes the position, for the errors that name it.
\<close>

fun mapE :: "('a \<Rightarrow> 'b res) \<Rightarrow> 'a list \<Rightarrow> 'b list res" where
  "mapE f [] = Inr []"
| "mapE f (x # xs) = bindE (f x) (\<lambda>y. bindE (mapE f xs) (\<lambda>ys. Inr (y # ys)))"

fun imapE :: "(nat \<Rightarrow> 'a \<Rightarrow> 'b res) \<Rightarrow> nat \<Rightarrow> 'a list \<Rightarrow> 'b list res" where
  "imapE f i [] = Inr []"
| "imapE f i (x # xs) =
     bindE (f i x) (\<lambda>y. bindE (imapE f (Suc i) xs) (\<lambda>ys. Inr (y # ys)))"

lemma mapE_cong [fundef_cong]:
  "xs = ys \<Longrightarrow> (\<And>x. x \<in> set ys \<Longrightarrow> f x = g x) \<Longrightarrow> mapE f xs = mapE g ys"
  by (induction ys arbitrary: xs) auto

lemma imapE_cong [fundef_cong]:
  "xs = ys \<Longrightarrow> i = j \<Longrightarrow> (\<And>k x. x \<in> set ys \<Longrightarrow> f k x = g k x) \<Longrightarrow>
   imapE f i xs = imapE g j ys"
  by (induction ys arbitrary: xs i j) auto

lemma imapE_id:
  "(\<And>k x. x \<in> set xs \<Longrightarrow> f k x = Inr x) \<Longrightarrow> imapE f i xs = Inr xs"
  by (induction xs arbitrary: i) auto

lemma imapE_map:
  "(\<And>k x. x \<in> set xs \<Longrightarrow> f k (g x) = Inr (h x)) \<Longrightarrow> imapE f i (map g xs) = Inr (map h xs)"
  by (induction xs arbitrary: i) auto

lemma imapE_length: "imapE f i xs = Inr ys \<Longrightarrow> length ys = length xs"
  by (induction xs arbitrary: i ys) (auto simp: res_iff)

lemma imapE_nth:
  "imapE f i xs = Inr ys \<Longrightarrow> k < length xs \<Longrightarrow> f (i + k) (xs ! k) = Inr (ys ! k)"
proof (induction xs arbitrary: i ys k)
  case Nil
  then show ?case by simp
next
  case (Cons x xs)
  then obtain y zs where y: "f i x = Inr y" "imapE f (Suc i) xs = Inr zs" "ys = y # zs"
    by (auto simp: res_iff)
  then show ?case using Cons.IH [OF y(2)] Cons.prems(2) by (cases k) auto
qed

lemma imapE_iff:
  "imapE f i xs = Inr ys \<longleftrightarrow>
   length ys = length xs \<and> (\<forall>k < length xs. f (i + k) (xs ! k) = Inr (ys ! k))"
proof
  assume "length ys = length xs \<and> (\<forall>k < length xs. f (i + k) (xs ! k) = Inr (ys ! k))"
  then show "imapE f i xs = Inr ys"
  proof (induction xs arbitrary: i ys)
    case (Cons x xs)
    from Cons.prems obtain y zs where ys: "ys = y # zs" by (cases ys) auto
    have "f i x = Inr y" using Cons.prems ys by (auto dest: spec [of _ 0])
    moreover have "f (Suc i + k) (xs ! k) = Inr (zs ! k)" if "k < length xs" for k
      using Cons.prems ys that by (auto dest: spec [of _ "Suc k"])
    ultimately show ?case using Cons.IH [of zs "Suc i"] Cons.prems ys by simp
  qed simp
qed (auto dest: imapE_length imapE_nth)

lemma mapE_nth:
  "mapE f xs = Inr ys \<Longrightarrow> length ys = length xs \<and> (\<forall>k < length xs. f (xs ! k) = Inr (ys ! k))"
proof (induction xs arbitrary: ys)
  case (Cons x xs)
  then obtain y zs where y: "f x = Inr y" "mapE f xs = Inr zs" "ys = y # zs"
    by (auto simp: res_iff)
  then show ?case using Cons.IH [OF y(2)] by (auto simp: less_Suc_eq_0_disj)
qed simp

lemma mapE_map:
  "(\<And>x. x \<in> set xs \<Longrightarrow> f (g x) = Inr (h x)) \<Longrightarrow> mapE f (map g xs) = Inr (map h xs)"
  by (induction xs) auto

section \<open>Slices\<close>

definition subslice :: "'a list \<Rightarrow> nat \<Rightarrow> nat \<Rightarrow> 'a list" where
  "subslice xs i n = take n (drop i xs)"

lemma subslice_append_at [simp]: "length ys = n \<Longrightarrow> subslice (xs @ ys @ zs) (length xs) n = ys"
  by (simp add: subslice_def)

lemma subslice_end [simp]: "length ys = n \<Longrightarrow> subslice (xs @ ys) (length xs) n = ys"
  by (simp add: subslice_def)

lemma subslice_prefix: "i + n \<le> length xs \<Longrightarrow> subslice (xs @ ys) i n = subslice xs i n"
  by (simp add: subslice_def)

lemma length_subslice [simp]: "i + n \<le> length xs \<Longrightarrow> length (subslice xs i n) = n"
  by (simp add: subslice_def)

lemma set_subslice_subset: "set (subslice xs i n) \<subseteq> set xs"
  using set_take_subset [of n "drop i xs"] set_drop_subset [of i xs] by (auto simp: subslice_def)

lemma nth_subslice: "i + n \<le> length xs \<Longrightarrow> k < n \<Longrightarrow> subslice xs i n ! k = xs ! (i + k)"
  by (simp add: subslice_def)

lemma subslice_span:
  assumes "i \<le> j" "j < length xs"
  shows "subslice xs i (j + 1 - i) \<noteq> []" "hd (subslice xs i (j + 1 - i)) = xs ! i"
    "last (subslice xs i (j + 1 - i)) = xs ! j"
proof -
  have len: "length (subslice xs i (j + 1 - i)) = j + 1 - i" using assms by (intro length_subslice) simp
  then show ne: "subslice xs i (j + 1 - i) \<noteq> []" using assms(1) by auto
  show "hd (subslice xs i (j + 1 - i)) = xs ! i"
    using assms ne nth_subslice [of i "j + 1 - i" xs 0] by (simp add: hd_conv_nth)
  show "last (subslice xs i (j + 1 - i)) = xs ! j"
    using assms ne nth_subslice [of i "j + 1 - i" xs "j - i"] len by (simp add: last_conv_nth)
qed

lemma take_subslice_drop: "i + n \<le> length xs \<Longrightarrow> take i xs @ subslice xs i n @ drop (i + n) xs = xs"
  by (metis append_take_drop_id subslice_def drop_drop add.commute)

text \<open>\<open>slices.Index\<close>: the first position that holds the value, or -1.\<close>

fun index_from :: "int \<Rightarrow> 'a list \<Rightarrow> 'a \<Rightarrow> int" where
  "index_from i [] x = - 1"
| "index_from i (y # ys) x = (if y = x then i else index_from (i + 1) ys x)"

definition index_of :: "'a list \<Rightarrow> 'a \<Rightarrow> int" where
  "index_of xs x = index_from 0 xs x"

lemma index_from_notin: "x \<notin> set xs \<Longrightarrow> index_from i xs x = - 1"
  by (induction xs arbitrary: i) auto

lemma index_from_in:
  "x \<in> set xs \<Longrightarrow>
   \<exists>k < length xs. index_from i xs x = i + int k \<and> xs ! k = x \<and> x \<notin> set (take k xs)"
proof (induction xs arbitrary: i)
  case (Cons y ys)
  show ?case
  proof (cases "y = x")
    case True
    then show ?thesis by (intro exI [of _ 0]) simp
  next
    case False
    with Cons.prems have "x \<in> set ys" by simp
    from Cons.IH [OF this, of "i + 1"] obtain k where
      "k < length ys" "index_from (i + 1) ys x = i + 1 + int k" "ys ! k = x" "x \<notin> set (take k ys)"
      by blast
    with False show ?thesis by (intro exI [of _ "Suc k"]) auto
  qed
qed simp

lemma index_of_nth:
  "0 \<le> index_of xs x \<Longrightarrow> nat (index_of xs x) < length xs \<and> xs ! nat (index_of xs x) = x"
  using index_from_in [of x xs 0] index_from_notin [of x xs 0]
  by (cases "x \<in> set xs") (auto simp: index_of_def)

lemma index_of_nonneg_iff: "0 \<le> index_of xs x \<longleftrightarrow> x \<in> set xs"
  using index_from_in [of x xs 0] index_from_notin [of x xs 0]
  by (cases "x \<in> set xs") (auto simp: index_of_def)

lemma index_of_neg_iff: "index_of xs x < 0 \<longleftrightarrow> x \<notin> set xs"
  using index_of_nonneg_iff [of xs x] by linarith

lemma index_of_less: "x \<in> set xs \<Longrightarrow> nat (index_of xs x) < length xs"
  using index_of_nth index_of_nonneg_iff by fastforce

lemma index_of_at: "x \<in> set xs \<Longrightarrow> xs ! nat (index_of xs x) = x"
  using index_of_nth index_of_nonneg_iff by fastforce

lemma index_of_distinct_nth:
  "distinct xs \<Longrightarrow> k < length xs \<Longrightarrow> index_of xs (xs ! k) = int k"
  using index_of_nth [of xs "xs ! k"] index_of_nonneg_iff [of xs "xs ! k"]
  using nth_eq_iff_index_eq [of xs "nat (index_of xs (xs ! k))" k] by simp

lemma nth_append_right_simp: "i < length xs \<Longrightarrow> (xs @ ys) ! i = xs ! i"
  by (simp add: nth_append)

end
