(* ===== verification/GoJson.thy ===== *)
theory GoJson
  imports Prelude "HOL-Library.List_Lexorder" "HOL-Library.Char_ord"
begin

text \<open>
  JSON values as the program exchanges them, the lossless validation of
  \<open>src/internal/jsonvalue/value.go\<close>, and the part of Go's \<open>encoding/json\<close> that the
  decoders rely on: struct fields matched up to case folding, unknown fields refused on
  demand, \<open>null\<close> leaving a scalar field unchanged, the last duplicate winning, raw
  sub-documents, and maps with exact keys.

  A \<open>json.RawMessage\<close> is represented by the document its text denotes: \<open>Doc\<close> for a
  text that \<open>json.Valid\<close> accepts, \<open>Malformed\<close> for one it rejects and \<open>Absent\<close> for
  the empty slice.  Two texts that differ only in insignificant white space or in the
  escapes of a string are one value here.  Numbers keep their spelling: \<open>NInt n\<close> is the
  plain decimal numeral of \<open>n\<close>, and \<open>NLit\<close> holds every other literal (a fraction, an
  exponent, negative zero).  Strings are their UTF-8 bytes.
\<close>

section \<open>Values\<close>

datatype jnum = NInt int | NLit string

datatype json =
    JNull
  | JBool bool
  | JNum jnum
  | JStr string
  | JArr "json list"
  | JObj "(string \<times> json) list"

datatype raw = Absent | Malformed string | Doc json

section \<open>Lossless validation (package jsonvalue)\<close>

text \<open>The value of a number literal: sign, decimal mantissa and decimal exponent.\<close>

definition digit_val :: "char \<Rightarrow> nat option" where
  "digit_val c = (let n = of_char c in if 48 \<le> n \<and> n \<le> 57 then Some (n - 48) else None)"

fun read_digits :: "nat \<Rightarrow> nat \<Rightarrow> string \<Rightarrow> nat \<times> nat \<times> string" where
  "read_digits acc cnt [] = (acc, cnt, [])"
| "read_digits acc cnt (c # cs) =
     (case digit_val c of
        Some d \<Rightarrow> read_digits (acc * 10 + d) (Suc cnt) cs
      | None \<Rightarrow> (acc, cnt, c # cs))"

definition read_exponent :: "string \<Rightarrow> int" where
  "read_exponent s =
     (case s of
        [] \<Rightarrow> 0
      | c # r \<Rightarrow>
          if c = CHR ''e'' \<or> c = CHR ''E'' then
            (case r of
               [] \<Rightarrow> 0
             | d # q \<Rightarrow>
                 if d = CHR ''-'' then - int (fst (read_digits 0 0 q))
                 else if d = CHR ''+'' then int (fst (read_digits 0 0 q))
                 else int (fst (read_digits 0 0 r)))
          else 0)"

definition strip_sign :: "string \<Rightarrow> bool \<times> string" where
  "strip_sign s = (case s of [] \<Rightarrow> (False, []) | c # r \<Rightarrow> if c = CHR ''-'' then (True, r) else (False, s))"

fun number_parts :: "jnum \<Rightarrow> bool \<times> nat \<times> int" where
  "number_parts (NInt n) = (n < 0, nat \<bar>n\<bar>, 0)"
| "number_parts (NLit s) =
     (let (neg, s1) = strip_sign s;
          (ip, _, s2) = read_digits 0 0 s1;
          (m, fc, s3) = (if s2 \<noteq> [] \<and> hd s2 = CHR ''.'' then read_digits ip 0 (tl s2) else (ip, 0, s2))
      in (neg, m, read_exponent s3 - int fc))"

text \<open>
  \<open>strconv.ParseFloat\<close> to 64 bits: a magnitude of at least \<open>2^1024 - 2^970\<close> rounds past
  the largest float and is an error; one of at most \<open>2^(-1075)\<close> rounds to zero.
\<close>

definition float_limit :: int where
  "float_limit = 2 ^ 1024 - 2 ^ 970"

definition float_overflows :: "nat \<Rightarrow> int \<Rightarrow> bool" where
  "float_overflows m e =
     (if 0 \<le> e then float_limit \<le> int m * 10 ^ nat e else float_limit * 10 ^ nat (- e) \<le> int m)"

definition float_is_zero :: "nat \<Rightarrow> int \<Rightarrow> bool" where
  "float_is_zero m e = (if 0 \<le> e then m = 0 else int m * 2 ^ 1075 \<le> 10 ^ nat (- e))"

fun commonInteger :: "jnum \<Rightarrow> bool \<times> bool" where
  "commonInteger (NInt n) = (if \<bar>n\<bar> < 10 ^ 15 then (True, True) else (False, False))"
| "commonInteger (NLit s) =
     (let (negative, digits) = strip_sign s in
      if digits = [] \<or> 15 < length digits then (False, False)
      else if list_ex (\<lambda>c. digit_val c = None) digits then (False, False)
      else if negative \<and> digits = ''0'' then (False, True)
      else (True, True))"

definition number_error :: goerr where
  "number_error = err ''invalid JSON number''"

definition scanNumber :: "jnum \<Rightarrow> unit res" where
  "scanNumber x =
     (let (accepted, decided) = commonInteger x in
      if decided then (if accepted then Inr () else Inl number_error)
      else let (neg, m, e) = number_parts x in
        if float_overflows m e \<or> (neg \<and> float_is_zero m e) then Inl number_error else Inr ())"

text \<open>
  The validator walks the value in document order and stops at the first name repeated
  within one object or the first number it cannot represent.
\<close>

fun scanValue :: "json \<Rightarrow> unit res"
  and scanArray :: "json list \<Rightarrow> unit res"
  and scanObject :: "string list \<Rightarrow> (string \<times> json) list \<Rightarrow> unit res" where
  "scanValue JNull = Inr ()"
| "scanValue (JBool b) = Inr ()"
| "scanValue (JStr s) = Inr ()"
| "scanValue (JNum x) = scanNumber x"
| "scanValue (JArr xs) = scanArray xs"
| "scanValue (JObj fs) = scanObject [] fs"
| "scanArray [] = Inr ()"
| "scanArray (x # xs) = bindE (scanValue x) (\<lambda>_. scanArray xs)"
| "scanObject keys [] = Inr ()"
| "scanObject keys ((k, v) # fs) =
     bindE (failIf (k \<in> set keys) (Errorf ''duplicate field %q'' [AStr k])) (\<lambda>_.
     bindE (scanValue v) (\<lambda>_. scanObject (keys @ [k]) fs))"

definition syntax_error :: goerr where
  "syntax_error = err ''json: syntax error''"

definition type_error :: goerr where
  "type_error = err ''json: cannot unmarshal value into Go type''"

fun Validate :: "raw \<Rightarrow> unit res" where
  "Validate Absent = Inl syntax_error"
| "Validate (Malformed s) = Inl syntax_error"
| "Validate (Doc j) = scanValue j"

definition Clone :: "raw \<Rightarrow> raw res" where
  "Clone r = bindE (Validate r) (\<lambda>_. Inr r)"

definition IsObject :: "raw \<Rightarrow> bool" where
  "IsObject r = (isOk (Validate r) \<and> (case r of Doc (JObj fs) \<Rightarrow> True | _ \<Rightarrow> False))"

text \<open>What a lossless value is, without the order of the walk.\<close>

fun lossless :: "json \<Rightarrow> bool" where
  "lossless JNull = True"
| "lossless (JBool b) = True"
| "lossless (JStr s) = True"
| "lossless (JNum x) = isOk (scanNumber x)"
| "lossless (JArr xs) = (\<forall>x \<in> set xs. lossless x)"
| "lossless (JObj fs) = (distinct (map fst fs) \<and> (\<forall>f \<in> set fs. lossless (snd f)))"

lemma scan_iff:
  "scanValue j = Inr () \<longleftrightarrow> lossless j"
  "scanArray xs = Inr () \<longleftrightarrow> (\<forall>x \<in> set xs. lossless x)"
  "scanObject keys fs = Inr () \<longleftrightarrow>
     distinct (map fst fs) \<and> set keys \<inter> set (map fst fs) = {} \<and> (\<forall>f \<in> set fs. lossless (snd f))"
  by (induction j and xs and keys fs rule: scanValue_scanArray_scanObject.induct)
    (auto simp: res_iff isOk_iff)

lemma Validate_Doc_iff: "Validate (Doc j) = Inr () \<longleftrightarrow> lossless j"
  by (simp add: scan_iff)

lemma Validate_iff: "Validate r = Inr u \<longleftrightarrow> (\<exists>j. r = Doc j \<and> lossless j)"
  by (cases r) (auto simp: scan_iff)

lemma scanNumber_NInt: "isOk (scanNumber (NInt n)) \<longleftrightarrow> \<bar>n\<bar> < float_limit"
proof -
  have "(10::int) ^ 15 \<le> float_limit"
    by (simp add: float_limit_def)
  then show ?thesis
    by (auto simp: scanNumber_def float_overflows_def float_is_zero_def isOk_iff)
qed

lemma scanNumber_negative_zero: "scanNumber (NLit ''-0'') = Inl number_error"
  by code_simp

section \<open>Decoding structs (encoding/json)\<close>

text \<open>
  A key of an object matches a struct field when both fold to the same name.  Folding
  lowers ASCII letters and maps the two non-ASCII letters that fold to ASCII ones, the
  long s and the Kelvin sign, given here by their UTF-8 bytes.
\<close>

definition lower_char :: "char \<Rightarrow> char" where
  "lower_char c = (let n = of_char c :: nat in if 65 \<le> n \<and> n \<le> 90 then char_of (n + 32) else c)"

fun fold_key :: "string \<Rightarrow> string" where
  "fold_key [] = []"
| "fold_key [c] = [lower_char c]"
| "fold_key [c, d] =
     (if c = CHR 0xC5 \<and> d = CHR 0xBF then ''s'' else [lower_char c, lower_char d])"
| "fold_key (c # d # e # es) =
     (if c = CHR 0xC5 \<and> d = CHR 0xBF then CHR ''s'' # fold_key (e # es)
      else if c = CHR 0xE2 \<and> d = CHR 0x84 \<and> e = CHR 0xAA then CHR ''k'' # fold_key es
      else lower_char c # fold_key (d # e # es))"

definition matches :: "string \<Rightarrow> (string \<times> json) list \<Rightarrow> json list" where
  "matches name fs = map snd (filter (\<lambda>f. fold_key (fst f) = fold_key name) fs)"

definition known_fields :: "string list \<Rightarrow> (string \<times> json) list \<Rightarrow> bool" where
  "known_fields names fs = list_all (\<lambda>f. list_ex (\<lambda>n. fold_key (fst f) = fold_key n) names) fs"

fun fields_of :: "raw \<Rightarrow> (string \<times> json) list res" where
  "fields_of (Doc (JObj fs)) = Inr fs"
| "fields_of (Doc JNull) = Inr []"
| "fields_of (Doc j) = Inl type_error"
| "fields_of r = Inl syntax_error"

definition strict_fields :: "string list \<Rightarrow> raw \<Rightarrow> (string \<times> json) list res" where
  "strict_fields names r =
     bindE (fields_of r) (\<lambda>fs. bindE (failIf (\<not> known_fields names fs) (err ''json: unknown field''))
       (\<lambda>_. Inr fs))"

fun scan_scalar :: "(json \<Rightarrow> 'a option) \<Rightarrow> 'a \<Rightarrow> json list \<Rightarrow> 'a res" where
  "scan_scalar d z [] = Inr z"
| "scan_scalar d z (v # vs) =
     (if v = JNull then scan_scalar d z vs
      else case d v of None \<Rightarrow> Inl type_error | Some x \<Rightarrow> scan_scalar d x vs)"

fun as_string :: "json \<Rightarrow> string option" where
  "as_string (JStr s) = Some s"
| "as_string j = None"

fun as_bool :: "json \<Rightarrow> bool option" where
  "as_bool (JBool b) = Some b"
| "as_bool j = None"

fun as_int64 :: "json \<Rightarrow> int option" where
  "as_int64 (JNum (NInt n)) = (if - (2 ^ 63) \<le> n \<and> n < 2 ^ 63 then Some n else None)"
| "as_int64 (JNum (NLit s)) = (if s = ''-0'' then Some 0 else None)"
| "as_int64 j = None"

definition get_string :: "(string \<times> json) list \<Rightarrow> string \<Rightarrow> string res" where
  "get_string fs n = scan_scalar as_string [] (matches n fs)"

definition get_bool :: "(string \<times> json) list \<Rightarrow> string \<Rightarrow> bool res" where
  "get_bool fs n = scan_scalar as_bool False (matches n fs)"

definition get_int64 :: "(string \<times> json) list \<Rightarrow> string \<Rightarrow> int res" where
  "get_int64 fs n = scan_scalar as_int64 0 (matches n fs)"

definition get_raw :: "(string \<times> json) list \<Rightarrow> string \<Rightarrow> raw" where
  "get_raw fs n = (case matches n fs of [] \<Rightarrow> Absent | vs \<Rightarrow> Doc (last vs))"

text \<open>\<open>json.Unmarshal\<close> of one raw message into a scalar of Go type string, bool or int64.\<close>

fun unmarshal_scalar :: "(json \<Rightarrow> 'a option) \<Rightarrow> 'a \<Rightarrow> raw \<Rightarrow> 'a res" where
  "unmarshal_scalar d z (Doc j) = scan_scalar d z [j]"
| "unmarshal_scalar d z r = Inl syntax_error"

text \<open>Into a slice of raw messages, of int64 or a map of raw messages; \<open>None\<close> is nil.\<close>

fun unmarshal_array :: "raw \<Rightarrow> json list option res" where
  "unmarshal_array (Doc JNull) = Inr None"
| "unmarshal_array (Doc (JArr xs)) = Inr (Some xs)"
| "unmarshal_array (Doc j) = Inl type_error"
| "unmarshal_array r = Inl syntax_error"

fun unmarshal_int64s :: "raw \<Rightarrow> int list option res" where
  "unmarshal_int64s r =
     bindE (unmarshal_array r) (\<lambda>a. case a of
        None \<Rightarrow> Inr None
      | Some xs \<Rightarrow> bindE (mapE (\<lambda>x. scan_scalar as_int64 0 [x]) xs) (\<lambda>ys. Inr (Some ys)))"

fun unmarshal_map :: "raw \<Rightarrow> (string \<times> json) list option res" where
  "unmarshal_map (Doc JNull) = Inr None"
| "unmarshal_map (Doc (JObj fs)) = Inr (Some fs)"
| "unmarshal_map (Doc j) = Inl type_error"
| "unmarshal_map r = Inl syntax_error"

definition map_get :: "(string \<times> json) list option \<Rightarrow> string \<Rightarrow> raw" where
  "map_get m k =
     (case m of
        None \<Rightarrow> Absent
      | Some fs \<Rightarrow> (case map_of (rev fs) k of None \<Rightarrow> Absent | Some v \<Rightarrow> Doc v))"

text \<open>
  Assignment to a key of a Go map; the write to a nil map panics.  Key order is not
  observable: marshalling a map writes its keys in byte order, which \<open>map_json\<close> does.
\<close>

definition map_set :: "(string \<times> json) list option \<Rightarrow> string \<Rightarrow> json \<Rightarrow> (string \<times> json) list res" where
  "map_set m k v =
     (case m of
        None \<Rightarrow> Inl (Panicked ''assignment to entry in nil map'')
      | Some fs \<Rightarrow> Inr (filter (\<lambda>f. fst f \<noteq> k) fs @ [(k, v)]))"

definition map_json :: "(string \<times> json) list option \<Rightarrow> json" where
  "map_json m =
     (case m of
        None \<Rightarrow> JNull
      | Some fs \<Rightarrow>
          JObj (map (\<lambda>k. (k, case map_of (rev fs) k of None \<Rightarrow> JNull | Some v \<Rightarrow> v))
                 (sort (remdups (map fst fs)))))"

section \<open>Field lemmas\<close>

declare fold_key.simps [simp del]

lemma matches_simps [simp]:
  "matches n [] = []"
  "matches n ((k, v) # fs) = (if fold_key k = fold_key n then v # matches n fs else matches n fs)"
  "matches n (fs @ gs) = matches n fs @ matches n gs"
  by (simp_all add: matches_def)

lemma known_fields_simps [simp]:
  "known_fields ns []"
  "known_fields ns ((k, v) # fs) \<longleftrightarrow> list_ex (\<lambda>n. fold_key k = fold_key n) ns \<and> known_fields ns fs"
  "known_fields ns (fs @ gs) \<longleftrightarrow> known_fields ns fs \<and> known_fields ns gs"
  by (simp_all add: known_fields_def)

lemma strict_fields_obj [simp]: "known_fields ns fs \<Longrightarrow> strict_fields ns (Doc (JObj fs)) = Inr fs"
  by (simp add: strict_fields_def)

lemma as_int64_range: "as_int64 j = Some n \<Longrightarrow> - (2 ^ 63) \<le> n \<and> n < 2 ^ 63"
  by (cases j rule: as_int64.cases) (auto split: if_splits)

end
