(* ===== verification/Messages.thy ===== *)
theory Messages
  imports GoJson
begin

text \<open>
  The conversation values of \<open>src/agentmessage\<close>: content blocks, message sources and
  messages, their validation and detachment (\<open>restoreMessageValue\<close>, the Clone
  functions), their JSON encoding and the decoders that restore durable messages and
  keep unknown extensions as opaque values.

  The \<open>Type\<close> and \<open>Kind\<close> discriminants stored in the Go structs are not fields here:
  every clone resets them to the constant of the variant, and every message holds
  cloned content.  The open interfaces ContentBlock and MessageSource are given by the
  variants of this package and the checkpoint source of package compaction; \<open>NilBlock\<close>
  and \<open>NilSource\<close> are the nil interface values.
\<close>

section \<open>Values\<close>

record image_ref =
  attachmentId :: string
  mediaType :: string
  imageBytes :: int
  imageWidth :: int
  imageHeight :: int
  imageName :: string
  originalDimensions :: "(int \<times> int) option"

datatype content_block =
    NilBlock
  | TextBlock string
  | ReasoningBlock string
  | ImageBlock image_ref
  | ToolCallBlock string string string
  | ToolResultBlock string "content_block list" bool bool
  | OpaqueBlock string raw

datatype message_source =
    NilSource
  | UserSource
  | PluginSource string string "(string \<times> string) list option" string
  | ModelSource string string raw
  | ToolSource string
  | CheckpointSource string "string option"
  | OpaqueSource string raw

datatype role = RoleSystem | RoleUser | RoleAssistant | RoleOther string

record message_value =
  idValue :: string
  roleValue :: role
  content :: "content_block list"
  origin :: message_source

datatype message =
    BaseMessage message_value
  | UserMessage message_value
  | AssistantMessage message_value
  | ToolResultMessage message_value

fun message_val :: "message \<Rightarrow> message_value" where
  "message_val (BaseMessage v) = v"
| "message_val (UserMessage v) = v"
| "message_val (AssistantMessage v) = v"
| "message_val (ToolResultMessage v) = v"

abbreviation StableID :: "message \<Rightarrow> string" where
  "StableID m \<equiv> idValue (message_val m)"

section \<open>Detaching content\<close>

fun ContentType :: "content_block \<Rightarrow> string" where
  "ContentType NilBlock = []"
| "ContentType (TextBlock t) = ''text''"
| "ContentType (ReasoningBlock t) = ''reasoning''"
| "ContentType (ImageBlock r) = ''image''"
| "ContentType (ToolCallBlock i n a) = ''tool-call''"
| "ContentType (ToolResultBlock i c e p) = ''tool-result''"
| "ContentType (OpaqueBlock t r) = t"

definition NewOpaqueContentBlock :: "string \<Rightarrow> raw \<Rightarrow> content_block res" where
  "NewOpaqueContentBlock typeName rawValue =
     bindE (failIf (typeName = []) (err ''llm: opaque content type is empty'')) (\<lambda>_.
     if \<not> isOk (Clone rawValue) \<or> \<not> IsObject rawValue
     then Inl (err ''llm: opaque content must be a lossless JSON object'')
     else bindE (unmarshal_map rawValue) (\<lambda>fields.
       if unmarshal_scalar as_string [] (map_get fields ''type'') \<noteq> Inr typeName
       then Inl (err ''llm: opaque content discriminant does not match'')
       else Inr (OpaqueBlock typeName rawValue)))"

definition invalid_block :: "nat \<Rightarrow> goerr" where
  "invalid_block i = Errorf ''llm: invalid content block'' [AInt (int i)]"

fun CloneContent :: "content_block \<Rightarrow> content_block res"
  and CloneBlocksFrom :: "nat \<Rightarrow> content_block list \<Rightarrow> content_block list res" where
  "CloneContent NilBlock = Inl (Panicked ''nil content block'')"
| "CloneContent (TextBlock t) = Inr (TextBlock t)"
| "CloneContent (ReasoningBlock t) = Inr (ReasoningBlock t)"
| "CloneContent (ImageBlock r) = Inr (ImageBlock r)"
| "CloneContent (ToolCallBlock i n a) = Inr (ToolCallBlock i n a)"
| "CloneContent (ToolResultBlock i c e p) =
     bindE (CloneBlocksFrom 0 c) (\<lambda>d. Inr (ToolResultBlock i d e p))"
| "CloneContent (OpaqueBlock t r) = NewOpaqueContentBlock t r"
| "CloneBlocksFrom i [] = Inr []"
| "CloneBlocksFrom i (b # bs) =
     bindE (failIf (b = NilBlock \<or> ContentType b = []) (invalid_block i)) (\<lambda>_.
     bindE (CloneContent b) (\<lambda>d.
     bindE (failIf (d = NilBlock \<or> ContentType d \<noteq> ContentType b) (invalid_block i)) (\<lambda>_.
     bindE (CloneBlocksFrom (Suc i) bs) (\<lambda>ds. Inr (d # ds)))))"

definition CloneContentBlocks :: "content_block list \<Rightarrow> content_block list res" where
  "CloneContentBlocks source = CloneBlocksFrom 0 source"

fun ContentHasImage :: "content_block list \<Rightarrow> bool" where
  "ContentHasImage [] = False"
| "ContentHasImage (ImageBlock r # bs) = True"
| "ContentHasImage (ToolResultBlock i c e p # bs) =
     (if ContentHasImage c then True else ContentHasImage bs)"
| "ContentHasImage (b # bs) = ContentHasImage bs"

section \<open>Message sources\<close>

fun SourceKind :: "message_source \<Rightarrow> string" where
  "SourceKind NilSource = []"
| "SourceKind UserSource = ''user''"
| "SourceKind (PluginSource p f se su) = ''plugin''"
| "SourceKind (ModelSource p m r) = ''model''"
| "SourceKind (ToolSource c) = ''tool''"
| "SourceKind (CheckpointSource i c) = ''plugin''"
| "SourceKind (OpaqueSource k r) = k"

definition validateContextForm :: "string \<Rightarrow> (string \<times> string) list option \<Rightarrow> string \<Rightarrow> unit res" where
  "validateContextForm form sections summary =
     (if form \<in> {[], ''instructions'', ''catalog'', ''relay'', ''recall''} then
        failIf ((sections \<noteq> None \<and> sections \<noteq> Some []) \<or> summary \<noteq> [])
          (err ''llm: plugin context fields do not match its form'')
      else if form = ''snapshot'' then
        failIf (sections = None \<or> summary \<noteq> []) (err ''llm: snapshot context needs sections and no summary'')
      else if form = ''notice'' then
        failIf (sections \<noteq> None \<and> sections \<noteq> Some []) (err ''llm: notice context cannot contain sections'')
      else Inl (Errorf ''llm: unsupported context form %q'' [AStr form]))"

definition NewOpaqueMessageSource :: "string \<Rightarrow> raw \<Rightarrow> message_source res" where
  "NewOpaqueMessageSource kindName rawValue =
     bindE (failIf (kindName = []) (err ''llm: opaque message source kind is empty'')) (\<lambda>_.
     if \<not> isOk (Clone rawValue) \<or> \<not> IsObject rawValue
     then Inl (err ''llm: opaque message source must be a lossless JSON object'')
     else bindE (unmarshal_map rawValue) (\<lambda>fields.
       if unmarshal_scalar as_string [] (map_get fields ''kind'') \<noteq> Inr kindName
       then Inl (err ''llm: opaque message source discriminant does not match'')
       else Inr (OpaqueSource kindName rawValue)))"

definition NewCheckpointSource :: "string \<Rightarrow> string option \<Rightarrow> message_source res" where
  "NewCheckpointSource compactionID sourceCommandID =
     bindE (failIf (compactionID = []) (err ''compaction: checkpoint source needs a compactionId'')) (\<lambda>_.
     bindE (failIf (sourceCommandID = Some []) (err ''compaction: checkpoint sourceCommandId is empty'')) (\<lambda>_.
     Inr (CheckpointSource compactionID sourceCommandID)))"

fun CloneSource :: "message_source \<Rightarrow> message_source res" where
  "CloneSource NilSource = Inl (Panicked ''nil message source'')"
| "CloneSource UserSource = Inr UserSource"
| "CloneSource (PluginSource p f se su) =
     bindE (failIf (p = []) (err ''llm: plugin message source needs a plugin name'')) (\<lambda>_.
     bindE (validateContextForm f se su) (\<lambda>_. Inr (PluginSource p f se su)))"
| "CloneSource (ModelSource p m r) =
     bindE (failIf (p = [] \<or> m = []) (err ''llm: model message source needs provider and model'')) (\<lambda>_.
     if r = Absent then Inr (ModelSource p m r)
     else bindE (wrapE (\<lambda>e. Errorf ''llm: invalid model replayState: %w'' [AErr e]) (Clone r))
            (\<lambda>d. Inr (ModelSource p m d)))"
| "CloneSource (ToolSource c) =
     bindE (failIf (c = []) (err ''llm: tool message source needs a callId'')) (\<lambda>_. Inr (ToolSource c))"
| "CloneSource (CheckpointSource i c) = NewCheckpointSource i c"
| "CloneSource (OpaqueSource k r) = NewOpaqueMessageSource k r"

section \<open>Messages\<close>

definition restoreMessageValue ::
  "string \<Rightarrow> role \<Rightarrow> content_block list \<Rightarrow> message_source \<Rightarrow> message_value res" where
  "restoreMessageValue identifier rl cs src =
     bindE (failIf (identifier = []) (err ''llm: message id is empty'')) (\<lambda>_.
     bindE (case rl of
              RoleOther r \<Rightarrow> Inl (Errorf ''llm: unsupported message role %q'' [AStr r])
            | _ \<Rightarrow> Inr ()) (\<lambda>_.
     bindE (failIf (src = NilSource \<or> SourceKind src = []) (err ''llm: message source is missing'')) (\<lambda>_.
     bindE (CloneContentBlocks cs) (\<lambda>detachedContent.
     bindE (CloneSource src) (\<lambda>detachedOrigin.
     Inr \<lparr>idValue = identifier, roleValue = rl, content = detachedContent, origin = detachedOrigin\<rparr>)))))"

definition restore_copy :: "message_value \<Rightarrow> message_value res" where
  "restore_copy v = restoreMessageValue (idValue v) (roleValue v) (content v) (origin v)"

definition CloneUserMessage :: "message_value \<Rightarrow> message_value res" where
  "CloneUserMessage source =
     bindE (restore_copy source) (\<lambda>copyValue.
     bindE (failIf (roleValue copyValue \<noteq> RoleUser) (err ''llm: message is not a user message'')) (\<lambda>_.
     Inr copyValue))"

definition CloneAssistantMessage :: "message_value \<Rightarrow> message_value res" where
  "CloneAssistantMessage source =
     bindE (restore_copy source) (\<lambda>copyValue.
     bindE (failIf (roleValue copyValue \<noteq> RoleAssistant \<or> SourceKind (origin copyValue) \<noteq> ''model'')
              (err ''llm: message is not a model assistant message'')) (\<lambda>_.
     Inr copyValue))"

fun is_tool_result :: "content_block \<Rightarrow> bool" where
  "is_tool_result (ToolResultBlock i c e p) = True"
| "is_tool_result b = False"

definition CloneToolResultMessage :: "message_value \<Rightarrow> message_value res" where
  "CloneToolResultMessage source =
     bindE (restore_copy source) (\<lambda>copyValue.
     bindE (failIf (roleValue copyValue \<noteq> RoleUser \<or> SourceKind (origin copyValue) \<noteq> ''tool'' \<or>
                    length (content copyValue) \<noteq> 1)
              (err ''llm: message is not a tool-result message'')) (\<lambda>_.
     bindE (failIf (\<not> is_tool_result (hd (content copyValue)))
              (err ''llm: message is not a tool-result message'')) (\<lambda>_.
     Inr copyValue)))"

text \<open>
  \<open>CloneMessage\<close> is promoted from the embedded message value, so the copy loses the
  specialised Go type; \<open>CloneMessages\<close> detaches a conversation with it.
\<close>

definition CloneMessage :: "message \<Rightarrow> message res" where
  "CloneMessage m = bindE (restore_copy (message_val m)) (\<lambda>v. Inr (BaseMessage v))"

definition CloneMessages :: "message list \<Rightarrow> message list res" where
  "CloneMessages entries =
     imapE (\<lambda>i m. wrapE (\<lambda>e. Errorf ''llm: clone message %d: %w'' [AInt (int i), AErr e]) (CloneMessage m))
       0 entries"

text \<open>The queries return a clone and drop its error.\<close>

definition source_value :: "message_value \<Rightarrow> message_source" where
  "source_value v = (case CloneSource (origin v) of Inl e \<Rightarrow> NilSource | Inr s \<Rightarrow> s)"

definition content_value :: "message_value \<Rightarrow> content_block list" where
  "content_value v = (case CloneContentBlocks (content v) of Inl e \<Rightarrow> [] | Inr bs \<Rightarrow> bs)"

text \<open>The constructors take the generated identity as an argument (package crypto/rand).\<close>

definition NewUserMessage :: "string \<Rightarrow> content_block list \<Rightarrow> message_source \<Rightarrow> message_value res" where
  "NewUserMessage identifier cs src = restoreMessageValue identifier RoleUser cs src"

definition NewAssistantMessage :: "string \<Rightarrow> content_block list \<Rightarrow> message_source \<Rightarrow> message_value res" where
  "NewAssistantMessage identifier cs src = restoreMessageValue identifier RoleAssistant cs src"

definition NewToolResultMessage ::
  "string \<Rightarrow> string \<Rightarrow> content_block list \<Rightarrow> bool \<Rightarrow> message_value res" where
  "NewToolResultMessage identifier callId cs isError =
     bindE (failIf (callId = []) (err ''llm: tool result needs a callId'')) (\<lambda>_.
     restoreMessageValue identifier RoleUser [ToolResultBlock callId cs isError True] (ToolSource callId))"

definition ReplaceSource :: "message \<Rightarrow> message_source \<Rightarrow> message res" where
  "ReplaceSource entry src =
     bindE (restoreMessageValue (StableID entry) (roleValue (message_val entry))
              (case CloneContentBlocks (content (message_val entry)) of Inl e \<Rightarrow> [] | Inr c \<Rightarrow> c) src)
       (\<lambda>restored. case entry of
          UserMessage v \<Rightarrow> Inr (UserMessage restored)
        | AssistantMessage v \<Rightarrow>
            bindE (failIf (roleValue restored \<noteq> RoleAssistant \<or> SourceKind (origin restored) \<noteq> ''model'')
                     (err ''llm: message is not a model assistant message''))
              (\<lambda>_. Inr (AssistantMessage restored))
        | ToolResultMessage v \<Rightarrow>
            bindE (failIf (roleValue restored \<noteq> RoleUser \<or> SourceKind (origin restored) \<noteq> ''tool'')
                     (err ''llm: message is not a tool-result message''))
              (\<lambda>_. Inr (ToolResultMessage restored))
        | BaseMessage v \<Rightarrow> Inr (BaseMessage restored))"

section \<open>Clones are copies\<close>

lemma NewOpaqueContentBlock_Inr:
  "NewOpaqueContentBlock t r = Inr b \<Longrightarrow> b = OpaqueBlock t r \<and> t \<noteq> [] \<and> IsObject r"
  by (auto simp: NewOpaqueContentBlock_def res_iff split: if_splits)

lemma clone_blocks_same:
  "CloneContent b = Inr c \<Longrightarrow> c = b"
  "CloneBlocksFrom i bs = Inr cs \<Longrightarrow> cs = bs"
  by (induction b and i bs arbitrary: c and cs rule: CloneContent_CloneBlocksFrom.induct)
    (auto simp: res_iff dest: NewOpaqueContentBlock_Inr)

lemma CloneContentBlocks_same: "CloneContentBlocks bs = Inr cs \<Longrightarrow> cs = bs"
  by (auto simp: CloneContentBlocks_def dest: clone_blocks_same)

lemma clone_blocks_iff:
  "isOk (CloneBlocksFrom i bs) \<longleftrightarrow>
   (\<forall>b \<in> set bs. b \<noteq> NilBlock \<and> ContentType b \<noteq> [] \<and> isOk (CloneContent b))"
proof (induction bs arbitrary: i)
  case (Cons b bs)
  show ?case
  proof (cases "CloneContent b")
    case (Inl e)
    then show ?thesis by (auto simp: failIf_def)
  next
    case (Inr c)
    then have "c = b" by (rule clone_blocks_same)
    with Inr show ?thesis
      using Cons.IH [of "Suc i"] by (cases "CloneBlocksFrom (Suc i) bs") (auto simp: failIf_def)
  qed
qed simp

lemma CloneSource_same: "CloneSource s = Inr t \<Longrightarrow> t = s"
  by (cases s) (auto simp: res_iff NewOpaqueMessageSource_def NewCheckpointSource_def Clone_def split: if_splits)

lemma restoreMessageValue_Inr:
  "restoreMessageValue i r cs src = Inr v \<Longrightarrow>
   v = \<lparr>idValue = i, roleValue = r, content = cs, origin = src\<rparr> \<and> i \<noteq> [] \<and>
   isOk (CloneContentBlocks cs) \<and> isOk (CloneSource src) \<and> SourceKind src \<noteq> []"
  by (auto simp: restoreMessageValue_def res_iff isOk_iff
      dest: CloneSource_same CloneContentBlocks_same split: role.splits)

lemma restore_copy_same: "restore_copy v = Inr w \<Longrightarrow> w = v"
  unfolding restore_copy_def by (drule restoreMessageValue_Inr) simp

lemma CloneUserMessage_same: "CloneUserMessage v = Inr w \<Longrightarrow> w = v"
  by (auto simp: CloneUserMessage_def res_iff dest: restore_copy_same)

lemma CloneUserMessage_id: "CloneUserMessage v = Inr w \<Longrightarrow> idValue v \<noteq> [] \<and> roleValue v = RoleUser"
  by (auto simp: CloneUserMessage_def res_iff restore_copy_def dest: restoreMessageValue_Inr)

text \<open>A message value is valid when its own clone succeeds.\<close>

definition valid_value :: "message_value \<Rightarrow> bool" where
  "valid_value v = isOk (restore_copy v)"

definition valid_user :: "message_value \<Rightarrow> bool" where
  "valid_user v = isOk (CloneUserMessage v)"

lemma valid_user_clone: "valid_user v \<longleftrightarrow> CloneUserMessage v = Inr v"
  by (auto simp: valid_user_def isOk_iff dest: CloneUserMessage_same)

lemma restored_valid: "restoreMessageValue i r cs src = Inr v \<Longrightarrow> valid_value v"
  using restoreMessageValue_Inr [of i r cs src v]
  by (auto simp: valid_value_def restore_copy_def isOk_iff)

end
