(* ===== verification/MessageCodec.thy ===== *)
theory MessageCodec
  imports Messages
begin

text \<open>
  The durable JSON form of messages (\<open>src/agentmessage/content_codec.go\<close>,
  \<open>message_codec.go\<close>, the MarshalJSON methods of the content blocks and sources): the
  encoders, the strict decoders with their opaque fallbacks, and the round trip of
  messages made of core content.
\<close>

section \<open>Encoders\<close>

abbreviation jint :: "int \<Rightarrow> json" where
  "jint n \<equiv> JNum (NInt n)"

definition image_json :: "image_ref \<Rightarrow> json" where
  "image_json r =
     JObj ([(''attachmentId'', JStr (attachmentId r)), (''mediaType'', JStr (mediaType r)),
            (''bytes'', jint (imageBytes r)), (''width'', jint (imageWidth r)),
            (''height'', jint (imageHeight r))]
           @ (if imageName r = [] then [] else [(''name'', JStr (imageName r))])
           @ (case originalDimensions r of None \<Rightarrow> []
              | Some (w, h) \<Rightarrow> [(''originalDimensions'', JObj [(''width'', jint w), (''height'', jint h)])]))"

fun marshal_block :: "content_block \<Rightarrow> json res"
  and marshal_blocks :: "content_block list \<Rightarrow> json list res" where
  "marshal_block NilBlock = Inr JNull"
| "marshal_block (TextBlock t) = Inr (JObj [(''type'', JStr ''text''), (''text'', JStr t)])"
| "marshal_block (ReasoningBlock t) = Inr (JObj [(''type'', JStr ''reasoning''), (''text'', JStr t)])"
| "marshal_block (ImageBlock r) = Inr (JObj [(''type'', JStr ''image''), (''attachment'', image_json r)])"
| "marshal_block (ToolCallBlock i n a) =
     Inr (JObj [(''type'', JStr ''tool-call''), (''id'', JStr i), (''name'', JStr n), (''arguments'', JStr a)])"
| "marshal_block (ToolResultBlock i c e p) =
     bindE (CloneContentBlocks c) (\<lambda>_.
     bindE (marshal_blocks c) (\<lambda>js.
     Inr (JObj ([(''type'', JStr ''tool-result''), (''toolCallId'', JStr i), (''content'', JArr js)]
                @ (if p \<or> e then [(''isError'', JBool e)] else [])))))"
| "marshal_block (OpaqueBlock t r) =
     (if t = [] then Inl (err ''llm: invalid opaque content block'')
      else case r of Doc j \<Rightarrow> Inr j | _ \<Rightarrow> Inl (err ''llm: invalid opaque content block''))"
| "marshal_blocks [] = Inr []"
| "marshal_blocks (b # bs) = bindE (marshal_block b) (\<lambda>j. bindE (marshal_blocks bs) (\<lambda>js. Inr (j # js)))"

definition section_json :: "string \<times> string \<Rightarrow> json" where
  "section_json s = JObj [(''name'', JStr (fst s)), (''text'', JStr (snd s))]"

fun marshal_source :: "message_source \<Rightarrow> json res" where
  "marshal_source NilSource = Inr JNull"
| "marshal_source UserSource = Inr (JObj [(''kind'', JStr ''user'')])"
| "marshal_source (PluginSource p f se su) =
     bindE (CloneSource (PluginSource p f se su)) (\<lambda>_.
     Inr (JObj ([(''kind'', JStr ''plugin''), (''plugin'', JStr p)]
       @ (if f = [] then [] else [(''form'', JStr f)])
       @ (if f = ''snapshot''
          then [(''sections'', JArr (map section_json (case se of None \<Rightarrow> [] | Some xs \<Rightarrow> xs)))] else [])
       @ (if f = ''notice'' then [(''summary'', JStr su)] else []))))"
| "marshal_source (ModelSource p m r) =
     (case r of
        Malformed s \<Rightarrow> Inl syntax_error
      | Absent \<Rightarrow> Inr (JObj [(''kind'', JStr ''model''), (''provider'', JStr p), (''model'', JStr m)])
      | Doc j \<Rightarrow> Inr (JObj [(''kind'', JStr ''model''), (''provider'', JStr p), (''model'', JStr m),
                            (''replayState'', j)]))"
| "marshal_source (ToolSource c) = Inr (JObj [(''kind'', JStr ''tool''), (''callId'', JStr c)])"
| "marshal_source (CheckpointSource i c) =
     bindE (NewCheckpointSource i c) (\<lambda>_.
     Inr (JObj ([(''kind'', JStr ''plugin''), (''plugin'', JStr ''compact''), (''compactionId'', JStr i)]
       @ (case c of None \<Rightarrow> [] | Some s \<Rightarrow> [(''sourceCommandId'', JStr s)]))))"
| "marshal_source (OpaqueSource k r) =
     (if k = [] then Inl (err ''llm: invalid opaque message source'')
      else case r of Doc j \<Rightarrow> Inr j | _ \<Rightarrow> Inl (err ''llm: invalid opaque message source''))"

fun role_text :: "role \<Rightarrow> string" where
  "role_text RoleSystem = ''system''"
| "role_text RoleUser = ''user''"
| "role_text RoleAssistant = ''assistant''"
| "role_text (RoleOther s) = s"

definition role_of :: "string \<Rightarrow> role" where
  "role_of s = (if s = ''system'' then RoleSystem else if s = ''user'' then RoleUser
                else if s = ''assistant'' then RoleAssistant else RoleOther s)"

definition marshal_message :: "message_value \<Rightarrow> json res" where
  "marshal_message v =
     bindE (failIf (idValue v = [] \<or> origin v = NilSource) (err ''llm: invalid message'')) (\<lambda>_.
     bindE (marshal_blocks (content v)) (\<lambda>blocks.
     bindE (marshal_source (origin v)) (\<lambda>src.
     Inr (JObj [(''id'', JStr (idValue v)), (''role'', JStr (role_text (roleValue v))),
                (''content'', JArr blocks), (''source'', src)]))))"

section \<open>Decoders\<close>

definition decodeStrict :: "string list \<Rightarrow> raw \<Rightarrow> (string \<times> json) list res" where
  "decodeStrict names r = bindE (Validate r) (\<lambda>_. strict_fields names r)"

text \<open>
  A nested struct field: every matching value is decoded into the same struct, so the
  fields accumulate; \<open>null\<close> leaves it unchanged.  Unknown nested fields are refused too.
\<close>

definition get_struct :: "string list \<Rightarrow> (string \<times> json) list \<Rightarrow> string \<Rightarrow> (string \<times> json) list res" where
  "get_struct names fs n =
     bindE (mapE (\<lambda>v. strict_fields names (Doc v)) (matches n fs)) (\<lambda>gs. Inr (concat gs))"

fun scan_dimensions :: "(int \<times> int) option \<Rightarrow> json list \<Rightarrow> (int \<times> int) option res" where
  "scan_dimensions z [] = Inr z"
| "scan_dimensions z (v # vs) =
     (if v = JNull then scan_dimensions None vs
      else bindE (strict_fields [''width'', ''height''] (Doc v)) (\<lambda>gs.
        let (w0, h0) = (case z of None \<Rightarrow> (0, 0) | Some d \<Rightarrow> d) in
        bindE (scan_scalar as_int64 w0 (matches ''width'' gs)) (\<lambda>w.
        bindE (scan_scalar as_int64 h0 (matches ''height'' gs)) (\<lambda>h.
        scan_dimensions (Some (w, h)) vs))))"

definition decode_image :: "(string \<times> json) list \<Rightarrow> image_ref res" where
  "decode_image fs =
     bindE (get_string fs ''attachmentId'') (\<lambda>a.
     bindE (get_string fs ''mediaType'') (\<lambda>mt.
     bindE (get_int64 fs ''bytes'') (\<lambda>b.
     bindE (get_int64 fs ''width'') (\<lambda>w.
     bindE (get_int64 fs ''height'') (\<lambda>h.
     bindE (get_string fs ''name'') (\<lambda>n.
     bindE (scan_dimensions None (matches ''originalDimensions'' fs)) (\<lambda>d.
     Inr \<lparr>attachmentId = a, mediaType = mt, imageBytes = b, imageWidth = w, imageHeight = h,
          imageName = n, originalDimensions = d\<rparr>)))))))"

definition image_fields :: "string list" where
  "image_fields = [''attachmentId'', ''mediaType'', ''bytes'', ''width'', ''height'', ''name'', ''originalDimensions'']"

definition decode_text_like :: "(string \<Rightarrow> content_block) \<Rightarrow> json \<Rightarrow> content_block res" where
  "decode_text_like c j =
     bindE (decodeStrict [''type'', ''text''] (Doc j)) (\<lambda>fs.
     bindE (get_string fs ''type'') (\<lambda>_.
     bindE (get_string fs ''text'') (\<lambda>t. Inr (c t))))"

definition decode_image_block :: "json \<Rightarrow> content_block res" where
  "decode_image_block j =
     bindE (decodeStrict [''type'', ''attachment''] (Doc j)) (\<lambda>fs.
     bindE (get_string fs ''type'') (\<lambda>_.
     bindE (get_struct image_fields fs ''attachment'') (\<lambda>gs.
     bindE (decode_image gs) (\<lambda>r. Inr (ImageBlock r)))))"

definition decode_call_block :: "json \<Rightarrow> content_block res" where
  "decode_call_block j =
     bindE (decodeStrict [''type'', ''id'', ''name'', ''arguments''] (Doc j)) (\<lambda>fs.
     bindE (get_string fs ''type'') (\<lambda>_.
     bindE (get_string fs ''id'') (\<lambda>i.
     bindE (get_string fs ''name'') (\<lambda>n.
     bindE (get_string fs ''arguments'') (\<lambda>a. Inr (ToolCallBlock i n a))))))"

definition decode_isError :: "raw \<Rightarrow> (bool \<times> bool) res" where
  "decode_isError r =
     (if r = Absent then Inr (False, False)
      else if r = Doc JNull then Inl (err ''llm: tool-result isError must be a boolean'')
      else case unmarshal_scalar as_bool False r of
             Inl e \<Rightarrow> Inl (err ''llm: tool-result isError must be a boolean'')
           | Inr b \<Rightarrow> Inr (b, True))"

definition or_opaque :: "string \<Rightarrow> json \<Rightarrow> content_block res \<Rightarrow> content_block res" where
  "or_opaque ty j r = (case r of Inl e \<Rightarrow> NewOpaqueContentBlock ty (Doc j) | Inr b \<Rightarrow> Inr b)"

lemma size_get_raw: "get_raw fs n = Doc v \<Longrightarrow> size v < size (JObj fs)"
proof -
  assume "get_raw fs n = Doc v"
  then have "v \<in> set (matches n fs)"
    by (auto simp: get_raw_def split: list.splits if_splits)
  then obtain k where "(k, v) \<in> set fs"
    by (auto simp: matches_def)
  then have "size v \<le> size_list (size_prod (\<lambda>x. 0) size) fs"
    by (intro size_list_estimation') auto
  then show ?thesis by simp
qed

definition raw_size :: "raw \<Rightarrow> nat" where
  "raw_size r = (case r of Doc v \<Rightarrow> size v | _ \<Rightarrow> 0)"

lemma size_json_pos [simp]: "0 < size (JObj fs)" "0 < size (JArr xs)"
  by simp_all

lemma raw_size_get_raw: "raw_size (get_raw fs n) < size (JObj fs)"
  using size_get_raw [of fs n] by (cases "get_raw fs n") (auto simp: raw_size_def)

lemma decodeStrict_Doc: "decodeStrict ns (Doc j) = Inr fs \<Longrightarrow> (j = JObj fs) \<or> (j = JNull \<and> fs = [])"
  by (cases j) (auto simp: decodeStrict_def strict_fields_def res_iff)

lemma unmarshal_array_size:
  "unmarshal_array r = Inr (Some xs) \<Longrightarrow> x \<in> set xs \<Longrightarrow> size x < raw_size r"
  by (cases r rule: unmarshal_array.cases)
    (auto simp: raw_size_def less_Suc_eq_le intro: size_list_estimation')

function DecodeContentBlock :: "json \<Rightarrow> content_block res"
  and DecodeContentBlocks :: "raw \<Rightarrow> content_block list res" where
  "DecodeContentBlock j =
     (if \<not> IsObject (Doc j) then Inl (err ''content block must be an object'')
      else case bindE (fields_of (Doc j)) (\<lambda>fs. get_string fs ''type'') of
        Inl e \<Rightarrow> Inl (err ''content block type is missing'')
      | Inr ty \<Rightarrow>
          if ty = [] then Inl (err ''content block type is missing'')
          else if ty = ''text'' then or_opaque ty j (decode_text_like TextBlock j)
          else if ty = ''reasoning'' then or_opaque ty j (decode_text_like ReasoningBlock j)
          else if ty = ''image'' then or_opaque ty j (decode_image_block j)
          else if ty = ''tool-call'' then or_opaque ty j (decode_call_block j)
          else if ty = ''tool-result'' then or_opaque ty j
            (case j of
               JObj fs \<Rightarrow>
                 bindE (decodeStrict [''type'', ''toolCallId'', ''content'', ''isError''] (Doc j)) (\<lambda>_.
                 bindE (get_string fs ''type'') (\<lambda>t.
                 bindE (get_string fs ''toolCallId'') (\<lambda>cid.
                 bindE (failIf (t \<noteq> ''tool-result'') (err ''llm: invalid tool-result discriminant'')) (\<lambda>_.
                 bindE (DecodeContentBlocks (get_raw fs ''content'')) (\<lambda>nested.
                 bindE (decode_isError (get_raw fs ''isError'')) (\<lambda>ep.
                 Inr (ToolResultBlock cid nested (fst ep) (snd ep))))))))
             | _ \<Rightarrow> Inl type_error)
          else NewOpaqueContentBlock ty (Doc j))"
| "DecodeContentBlocks r =
     bindE (wrapE (\<lambda>e. Errorf ''llm: invalid content JSON: %w'' [AErr e]) (Validate r)) (\<lambda>_.
     case unmarshal_array r of
       Inl e \<Rightarrow> Inl (err ''llm: content must be an array'')
     | Inr None \<Rightarrow> Inr []
     | Inr (Some xs) \<Rightarrow>
         imapE (\<lambda>i x. wrapE (\<lambda>e. Errorf ''llm: content block %d: %w'' [AInt (int i), AErr e])
                        (DecodeContentBlock x)) 0 xs)"
  by pat_completeness auto
termination
  by (relation "measure (case_sum size raw_size)")
    (simp_all add: raw_size_get_raw unmarshal_array_size del: unmarshal_array.simps json.size)

declare DecodeContentBlock.simps [simp del] DecodeContentBlocks.simps [simp del]


definition decode_section :: "json \<Rightarrow> (string \<times> string) res" where
  "decode_section j =
     bindE (strict_fields [''name'', ''text''] (Doc j)) (\<lambda>fs.
     bindE (get_string fs ''name'') (\<lambda>n.
     bindE (get_string fs ''text'') (\<lambda>t. Inr (n, t))))"

definition decode_sections :: "raw \<Rightarrow> (string \<times> string) list option res" where
  "decode_sections r =
     (if r = Absent then Inr None
      else bindE (unmarshal_array r) (\<lambda>a. case a of
             None \<Rightarrow> Inr None
           | Some xs \<Rightarrow> bindE (mapE decode_section xs) (\<lambda>ss. Inr (Some ss))))"

definition decode_plugin_source :: "raw \<Rightarrow> message_source res" where
  "decode_plugin_source r =
     bindE (decodeStrict [''kind'', ''plugin'', ''form'', ''sections'', ''summary''] r) (\<lambda>fs.
     bindE (get_string fs ''kind'') (\<lambda>_.
     bindE (get_string fs ''plugin'') (\<lambda>p.
     bindE (get_string fs ''form'') (\<lambda>f.
     bindE (decode_sections (get_raw fs ''sections'')) (\<lambda>se.
     bindE (get_string fs ''summary'') (\<lambda>su. Inr (PluginSource p f se su)))))))"

definition restore_plugin_extension :: "raw \<Rightarrow> message_source res" where
  "restore_plugin_extension r =
     bindE (unmarshal_map r) (\<lambda>fields.
     case unmarshal_scalar as_string [] (map_get fields ''plugin'') of
       Inl e \<Rightarrow> Inl (err ''llm: plugin message source needs a plugin name'')
     | Inr pluginName \<Rightarrow>
         bindE (failIf (pluginName = []) (err ''llm: plugin message source needs a plugin name'')) (\<lambda>_.
         case filter (\<lambda>k. map_get fields k \<noteq> Absent) [''form'', ''sections'', ''summary''] of
           k # _ \<Rightarrow> Inl (Errorf ''llm: invalid plugin message source field %q'' [AStr k])
         | [] \<Rightarrow> NewOpaqueMessageSource ''plugin'' r))"

definition decodeMessageSource :: "raw \<Rightarrow> message_source res" where
  "decodeMessageSource r =
     (if \<not> IsObject r then Inl (err ''llm: message source must be an object'')
      else case bindE (fields_of r) (\<lambda>fs. get_string fs ''kind'') of
        Inl e \<Rightarrow> Inl (err ''llm: message source kind is missing'')
      | Inr kd \<Rightarrow>
          if kd = [] then Inl (err ''llm: message source kind is missing'')
          else if kd = ''user'' then
            (case bindE (decodeStrict [''kind''] r) (\<lambda>fs. get_string fs ''kind'') of
               Inr k \<Rightarrow> CloneSource UserSource
             | Inl e \<Rightarrow> NewOpaqueMessageSource kd r)
          else if kd = ''plugin'' then
            (case decode_plugin_source r of
               Inr s \<Rightarrow> CloneSource s
             | Inl e \<Rightarrow> restore_plugin_extension r)
          else if kd = ''model'' then
            bindE (decodeStrict [''kind'', ''provider'', ''model'', ''replayState''] r) (\<lambda>fs.
            bindE (get_string fs ''kind'') (\<lambda>_.
            bindE (get_string fs ''provider'') (\<lambda>p.
            bindE (get_string fs ''model'') (\<lambda>m.
            CloneSource (ModelSource p m (get_raw fs ''replayState''))))))
          else if kd = ''tool'' then
            bindE (decodeStrict [''kind'', ''callId''] r) (\<lambda>fs.
            bindE (get_string fs ''kind'') (\<lambda>_.
            bindE (get_string fs ''callId'') (\<lambda>c. CloneSource (ToolSource c))))
          else NewOpaqueMessageSource kd r)"

definition classify :: "message_value \<Rightarrow> message" where
  "classify v =
     (if roleValue v = RoleAssistant \<and> SourceKind (origin v) = ''model'' then AssistantMessage v
      else if roleValue v = RoleUser \<and> SourceKind (origin v) = ''tool'' \<and> length (content v) = 1 \<and>
              is_tool_result (hd (content v)) then ToolResultMessage v
      else if roleValue v = RoleUser then UserMessage v
      else BaseMessage v)"

definition DecodeMessage :: "raw \<Rightarrow> message res" where
  "DecodeMessage r =
     bindE (wrapE (\<lambda>e. Errorf ''llm: invalid message JSON: %w'' [AErr e]) (Validate r)) (\<lambda>_.
     bindE (decodeStrict [''id'', ''role'', ''content'', ''source''] r) (\<lambda>fs.
     bindE (get_string fs ''id'') (\<lambda>i.
     bindE (get_string fs ''role'') (\<lambda>ro.
     bindE (DecodeContentBlocks (get_raw fs ''content'')) (\<lambda>detachedContent.
     bindE (decodeMessageSource (get_raw fs ''source'')) (\<lambda>detachedOrigin.
     bindE (restoreMessageValue i (role_of ro) detachedContent detachedOrigin) (\<lambda>entry.
     Inr (classify entry))))))))"

definition DecodeUserMessage :: "raw \<Rightarrow> message_value res" where
  "DecodeUserMessage r =
     bindE (DecodeMessage r) (\<lambda>restored. case restored of
        UserMessage v \<Rightarrow> CloneUserMessage v
      | _ \<Rightarrow> Inl (err ''llm: durable message is not a user message''))"

section \<open>Round trip\<close>

text \<open>
  Content and sources in canonical form: the variants this package constructs, with
  integers that fit their Go types, optional fields only where their form has them and
  replay state that passed validation.
\<close>

definition int64 :: "int \<Rightarrow> bool" where
  "int64 n = (- (2 ^ 63) \<le> n \<and> n < 2 ^ 63)"

definition canonical_image :: "image_ref \<Rightarrow> bool" where
  "canonical_image r =
     (int64 (imageBytes r) \<and> int64 (imageWidth r) \<and> int64 (imageHeight r) \<and>
      (case originalDimensions r of None \<Rightarrow> True | Some (w, h) \<Rightarrow> int64 w \<and> int64 h))"

fun canonical_block :: "content_block \<Rightarrow> bool" where
  "canonical_block NilBlock = False"
| "canonical_block (TextBlock t) = True"
| "canonical_block (ReasoningBlock t) = True"
| "canonical_block (ImageBlock r) = canonical_image r"
| "canonical_block (ToolCallBlock i n a) = True"
| "canonical_block (ToolResultBlock i c e p) = ((\<forall>b \<in> set c. canonical_block b) \<and> (e \<longrightarrow> p))"
| "canonical_block (OpaqueBlock t r) = False"

fun canonical_source :: "message_source \<Rightarrow> bool" where
  "canonical_source NilSource = False"
| "canonical_source UserSource = True"
| "canonical_source (PluginSource p f se su) =
     (p \<noteq> [] \<and> validateContextForm f se su = Inr () \<and> (f \<noteq> ''snapshot'' \<longrightarrow> se = None))"
| "canonical_source (ModelSource p m r) =
     (p \<noteq> [] \<and> m \<noteq> [] \<and> (case r of Absent \<Rightarrow> True | Malformed s \<Rightarrow> False | Doc j \<Rightarrow> lossless j))"
| "canonical_source (ToolSource c) = (c \<noteq> [])"
| "canonical_source (CheckpointSource i c) = False"
| "canonical_source (OpaqueSource k r) = False"

definition canonical_value :: "message_value \<Rightarrow> bool" where
  "canonical_value v =
     (idValue v \<noteq> [] \<and> roleValue v \<in> {RoleSystem, RoleUser, RoleAssistant} \<and>
      (\<forall>b \<in> set (content v). canonical_block b) \<and> canonical_source (origin v))"

lemma fold_message_fields [simp]:
  "fold_key ''type'' = ''type''"
  "fold_key ''text'' = ''text''"
  "fold_key ''attachment'' = ''attachment''"
  "fold_key ''attachmentId'' = ''attachmentid''"
  "fold_key ''mediaType'' = ''mediatype''"
  "fold_key ''bytes'' = ''bytes''"
  "fold_key ''width'' = ''width''"
  "fold_key ''height'' = ''height''"
  "fold_key ''name'' = ''name''"
  "fold_key ''originalDimensions'' = ''originaldimensions''"
  "fold_key ''id'' = ''id''"
  "fold_key ''arguments'' = ''arguments''"
  "fold_key ''toolCallId'' = ''toolcallid''"
  "fold_key ''content'' = ''content''"
  "fold_key ''isError'' = ''iserror''"
  "fold_key ''role'' = ''role''"
  "fold_key ''source'' = ''source''"
  "fold_key ''kind'' = ''kind''"
  "fold_key ''plugin'' = ''plugin''"
  "fold_key ''form'' = ''form''"
  "fold_key ''sections'' = ''sections''"
  "fold_key ''summary'' = ''summary''"
  "fold_key ''provider'' = ''provider''"
  "fold_key ''model'' = ''model''"
  "fold_key ''replayState'' = ''replaystate''"
  "fold_key ''callId'' = ''callid''"
  by code_simp+


lemma int64_lossless: "int64 n \<Longrightarrow> lossless (jint n)"
proof -
  have "(2::int) ^ 63 < float_limit" by (simp add: float_limit_def)
  moreover assume "int64 n"
  ultimately show ?thesis by (auto simp: scanNumber_NInt int64_def)
qed

lemma int64_decode: "int64 n \<Longrightarrow> as_int64 (jint n) = Some n"
  by (simp add: int64_def)

lemma block_object_known:
  "lossless (JObj fs) \<Longrightarrow> IsObject (Doc (JObj fs)) \<and> Validate (Doc (JObj fs)) = Inr ()"
  using scan_iff(1) [of "JObj fs"] by (simp add: IsObject_def isOk_iff)

lemmas codec_unfold =
  decodeStrict_def strict_fields_def known_fields_def get_string_def get_int64_def get_raw_def
  matches_def or_opaque_def

definition image_tail :: "image_ref \<Rightarrow> (string \<times> json) list" where
  "image_tail r =
     (if imageName r = [] then [] else [(''name'', JStr (imageName r))])
     @ (case originalDimensions r of None \<Rightarrow> []
        | Some (w, h) \<Rightarrow> [(''originalDimensions'', JObj [(''width'', jint w), (''height'', jint h)])])"

lemma image_tail_fields:
  assumes "canonical_image r"
  shows "known_fields image_fields (image_tail r)"
    and "matches ''attachmentId'' (image_tail r) = []" "matches ''mediaType'' (image_tail r) = []"
    and "matches ''bytes'' (image_tail r) = []" "matches ''width'' (image_tail r) = []"
    and "matches ''height'' (image_tail r) = []"
    and "scan_scalar as_string [] (matches ''name'' (image_tail r)) = Inr (imageName r)"
    and "scan_dimensions None (matches ''originalDimensions'' (image_tail r)) = Inr (originalDimensions r)"
  using assms
  by (auto simp: image_tail_def image_fields_def canonical_image_def int64_decode
      simp del: as_int64.simps split: option.splits)

lemma image_tail_lossless:
  assumes "canonical_image r"
  shows "distinct (map fst (image_tail r))" "set (map fst (image_tail r)) \<subseteq> {''name'', ''originalDimensions''}"
    "f \<in> set (image_tail r) \<Longrightarrow> lossless (snd f)"
  using assms
  by (auto simp: image_tail_def canonical_image_def int64_lossless
      simp del: lossless.simps(4) split: option.splits if_splits)

lemma decode_image_json:
  assumes r: "canonical_image r"
  shows "\<exists>gs. image_json r = JObj gs \<and> lossless (JObj gs) \<and>
     strict_fields image_fields (Doc (JObj gs)) = Inr gs \<and> decode_image gs = Inr r"
proof -
  define gs where "gs =
    [(''attachmentId'', JStr (attachmentId r)), (''mediaType'', JStr (mediaType r)),
     (''bytes'', jint (imageBytes r)), (''width'', jint (imageWidth r)),
     (''height'', jint (imageHeight r))] @ image_tail r"
  have ints: "int64 (imageBytes r)" "int64 (imageWidth r)" "int64 (imageHeight r)"
    using r by (auto simp: canonical_image_def)
  have "image_json r = JObj gs"
    by (simp add: image_json_def gs_def image_tail_def)
  moreover have "lossless (JObj gs)"
    using image_tail_lossless [OF r] ints
    by (auto simp: gs_def int64_lossless simp del: lossless.simps(4))
  moreover have "strict_fields image_fields (Doc (JObj gs)) = Inr gs"
    using image_tail_fields(1) [OF r] by (simp add: gs_def) (simp add: image_fields_def)
  moreover have "decode_image gs = Inr r"
    by (simp add: decode_image_def gs_def get_string_def get_int64_def image_tail_fields [OF r] ints
        int64_decode del: as_int64.simps)
  ultimately show ?thesis by blast
qed

lemma canonical_clone:
  "canonical_block b \<Longrightarrow> isOk (CloneContent b)"
  "(\<forall>b \<in> set bs. canonical_block b) \<Longrightarrow> isOk (CloneBlocksFrom i bs)"
proof (induction b and i bs rule: CloneContent_CloneBlocksFrom.induct)
  case (9 i b bs)
  then have "isOk (CloneContent b)" "b \<noteq> NilBlock" "ContentType b \<noteq> []"
    by (cases b; simp)+
  moreover from this have "CloneContent b = Inr b"
    using clone_blocks_same(1) by (auto simp: isOk_iff)
  ultimately show ?case
    using 9 by (auto simp: isOk_iff)
qed (auto simp: isOk_iff)

lemma decode_blocks_list:
  assumes "list_all2 (\<lambda>b j. DecodeContentBlock j = Inr b) bs js" and "\<forall>j \<in> set js. lossless j"
  shows "DecodeContentBlocks (Doc (JArr js)) = Inr bs"
proof -
  have "imapE (\<lambda>i x. wrapE (\<lambda>e. Errorf ''llm: content block %d: %w'' [AInt (int i), AErr e])
          (DecodeContentBlock x)) k js = Inr bs" for k
    using assms(1) by (induction arbitrary: k rule: list_all2_induct) auto
  moreover have "Validate (Doc (JArr js)) = Inr ()"
    using assms(2) by (simp add: scan_iff)
  ultimately show ?thesis by (simp add: DecodeContentBlocks.simps)
qed

lemma decode_block_typed:
  assumes "lossless (JObj fs)" and "get_string fs ''type'' = Inr ty" and "ty \<noteq> []"
  shows "DecodeContentBlock (JObj fs) =
    (if ty = ''text'' then or_opaque ty (JObj fs) (decode_text_like TextBlock (JObj fs))
     else if ty = ''reasoning'' then or_opaque ty (JObj fs) (decode_text_like ReasoningBlock (JObj fs))
     else if ty = ''image'' then or_opaque ty (JObj fs) (decode_image_block (JObj fs))
     else if ty = ''tool-call'' then or_opaque ty (JObj fs) (decode_call_block (JObj fs))
     else if ty = ''tool-result'' then or_opaque ty (JObj fs)
       (bindE (decodeStrict [''type'', ''toolCallId'', ''content'', ''isError''] (Doc (JObj fs))) (\<lambda>_.
        bindE (get_string fs ''type'') (\<lambda>t.
        bindE (get_string fs ''toolCallId'') (\<lambda>cid.
        bindE (failIf (t \<noteq> ''tool-result'') (err ''llm: invalid tool-result discriminant'')) (\<lambda>_.
        bindE (DecodeContentBlocks (get_raw fs ''content'')) (\<lambda>nested.
        bindE (decode_isError (get_raw fs ''isError'')) (\<lambda>ep.
        Inr (ToolResultBlock cid nested (fst ep) (snd ep)))))))))
     else NewOpaqueContentBlock ty (Doc (JObj fs)))"
  using assms block_object_known [of fs] by (simp add: DecodeContentBlock.simps)

lemma decodeStrict_obj:
  "lossless (JObj fs) \<Longrightarrow> known_fields ns fs \<Longrightarrow> decodeStrict ns (Doc (JObj fs)) = Inr fs"
  using block_object_known [of fs] by (simp add: decodeStrict_def)

lemma marshal_canonical:
  "canonical_block b \<Longrightarrow> \<exists>fs. marshal_block b = Inr (JObj fs) \<and> lossless (JObj fs) \<and>
     DecodeContentBlock (JObj fs) = Inr b"
  "\<forall>b \<in> set bs. canonical_block b \<Longrightarrow> \<exists>js. marshal_blocks bs = Inr js \<and> (\<forall>j \<in> set js. lossless j) \<and>
     list_all2 (\<lambda>b j. DecodeContentBlock j = Inr b) bs js"
proof (induction b and bs rule: marshal_block_marshal_blocks.induct)
  case (2 t)
  then show ?case
    by (simp add: decode_block_typed get_string_def decode_text_like_def decodeStrict_obj or_opaque_def)
next
  case (3 t)
  then show ?case
    by (simp add: decode_block_typed get_string_def decode_text_like_def decodeStrict_obj or_opaque_def)
next
  case (4 r)
  then obtain gs where gs: "image_json r = JObj gs" "lossless (JObj gs)"
    "strict_fields image_fields (Doc (JObj gs)) = Inr gs" "decode_image gs = Inr r"
    using decode_image_json [of r] by auto
  have "lossless (JObj [(''type'', JStr ''image''), (''attachment'', JObj gs)])"
    using gs(2) by simp
  with gs show ?case
    by (simp add: decode_block_typed get_string_def decode_image_block_def decodeStrict_obj or_opaque_def
        get_struct_def del: lossless.simps(6))
next
  case (5 i n a)
  then show ?case
    by (simp add: decode_block_typed get_string_def decode_call_block_def decodeStrict_obj or_opaque_def)
next
  case (6 i c e p)
  then have clone: "isOk (CloneContentBlocks c)"
    by (simp add: CloneContentBlocks_def canonical_clone(2))
  from 6 obtain js where js: "marshal_blocks c = Inr js" "\<forall>j \<in> set js. lossless j"
    "list_all2 (\<lambda>b j. DecodeContentBlock j = Inr b) c js"
    using clone by (auto simp: isOk_iff)
  have nested: "DecodeContentBlocks (Doc (JArr js)) = Inr c"
    by (rule decode_blocks_list [OF js(3,2)])
  define fs where "fs = [(''type'', JStr ''tool-result''), (''toolCallId'', JStr i), (''content'', JArr js)]
                @ (if p \<or> e then [(''isError'', JBool e)] else [])"
  have ll: "lossless (JObj fs)"
    using js(2) by (auto simp: fs_def)
  have strict: "decodeStrict [''type'', ''toolCallId'', ''content'', ''isError''] (Doc (JObj fs)) = Inr fs"
    by (rule decodeStrict_obj [OF ll]) (simp add: fs_def)
  have ty: "get_string fs ''type'' = Inr ''tool-result''" and tc: "get_string fs ''toolCallId'' = Inr i"
    and co: "get_raw fs ''content'' = Doc (JArr js)"
    by (simp_all add: fs_def get_string_def get_raw_def)
  have ie: "decode_isError (get_raw fs ''isError'') = Inr (e, p)"
    using 6 by (auto simp: fs_def get_raw_def decode_isError_def)
  have "DecodeContentBlock (JObj fs) = Inr (ToolResultBlock i c e p)"
    by (simp add: decode_block_typed [OF ll ty] strict ty tc co nested ie or_opaque_def)
  moreover have "marshal_block (ToolResultBlock i c e p) = Inr (JObj fs)"
    using clone js(1) by (auto simp: isOk_iff fs_def)
  ultimately show ?case using ll by blast
next
  case (9 b bs)
  then show ?case by fastforce
qed simp_all

lemma decode_source_typed:
  assumes "lossless (JObj fs)" and "get_string fs ''kind'' = Inr kd" and "kd \<noteq> []"
  shows "decodeMessageSource (Doc (JObj fs)) =
    (if kd = ''user'' then
       (case bindE (decodeStrict [''kind''] (Doc (JObj fs))) (\<lambda>fs. get_string fs ''kind'') of
          Inr k \<Rightarrow> CloneSource UserSource
        | Inl e \<Rightarrow> NewOpaqueMessageSource kd (Doc (JObj fs)))
     else if kd = ''plugin'' then
       (case decode_plugin_source (Doc (JObj fs)) of
          Inr s \<Rightarrow> CloneSource s
        | Inl e \<Rightarrow> restore_plugin_extension (Doc (JObj fs)))
     else if kd = ''model'' then
       bindE (decodeStrict [''kind'', ''provider'', ''model'', ''replayState''] (Doc (JObj fs))) (\<lambda>fs.
       bindE (get_string fs ''kind'') (\<lambda>_.
       bindE (get_string fs ''provider'') (\<lambda>p.
       bindE (get_string fs ''model'') (\<lambda>m.
       CloneSource (ModelSource p m (get_raw fs ''replayState''))))))
     else if kd = ''tool'' then
       bindE (decodeStrict [''kind'', ''callId''] (Doc (JObj fs))) (\<lambda>fs.
       bindE (get_string fs ''kind'') (\<lambda>_.
       bindE (get_string fs ''callId'') (\<lambda>c. CloneSource (ToolSource c))))
     else NewOpaqueMessageSource kd (Doc (JObj fs)))"
  using assms block_object_known [of fs] by (simp add: decodeMessageSource_def)

lemma decode_section_json: "decode_section (section_json s) = Inr s"
  by (cases s) (simp add: section_json_def decode_section_def get_string_def)

lemma decode_section_list: "mapE decode_section (map section_json xs) = Inr xs"
  using mapE_map [of xs decode_section section_json id] decode_section_json by simp

lemma lossless_sections: "lossless (JArr (map section_json xs))"
  by (auto simp: section_json_def)

lemma decode_plugin_json:
  assumes "canonical_source (PluginSource p f se su)"
  shows "\<exists>fs. marshal_source (PluginSource p f se su) = Inr (JObj fs) \<and> lossless (JObj fs) \<and>
    get_string fs ''kind'' = Inr ''plugin'' \<and>
    decode_plugin_source (Doc (JObj fs)) = Inr (PluginSource p f se su)"
proof -
  define secs where "secs = (case se of None \<Rightarrow> [] | Some xs \<Rightarrow> xs)"
  define fs where "fs = [(''kind'', JStr ''plugin''), (''plugin'', JStr p)]
       @ (if f = [] then [] else [(''form'', JStr f)])
       @ (if f = ''snapshot'' then [(''sections'', JArr (map section_json secs))] else [])
       @ (if f = ''notice'' then [(''summary'', JStr su)] else [])"
  have valid: "p \<noteq> []" "validateContextForm f se su = Inr ()" "f \<noteq> ''snapshot'' \<longrightarrow> se = None"
    using assms by auto
  have se: "f = ''snapshot'' \<Longrightarrow> se = Some secs" and su: "f \<noteq> ''notice'' \<Longrightarrow> su = []"
    using valid by (auto simp: secs_def validateContextForm_def res_iff split: if_splits)
  have ll: "lossless (JObj fs)"
    using lossless_sections [of secs] by (auto simp: fs_def)
  have strict: "decodeStrict [''kind'', ''plugin'', ''form'', ''sections'', ''summary''] (Doc (JObj fs)) = Inr fs"
    by (rule decodeStrict_obj [OF ll]) (simp add: fs_def)
  have fields: "get_string fs ''kind'' = Inr ''plugin''" "get_string fs ''plugin'' = Inr p"
    "get_string fs ''form'' = Inr f"
    by (simp_all add: fs_def get_string_def)
  have sections: "decode_sections (get_raw fs ''sections'') = Inr se"
    using se valid(3) by (auto simp: fs_def get_raw_def decode_sections_def decode_section_list)
  have summary: "get_string fs ''summary'' = Inr su"
    using su by (auto simp: fs_def get_string_def)
  have "marshal_source (PluginSource p f se su) = Inr (JObj fs)"
    using valid by (simp add: fs_def secs_def)
  moreover have "decode_plugin_source (Doc (JObj fs)) = Inr (PluginSource p f se su)"
    by (simp add: decode_plugin_source_def strict fields sections summary)
  ultimately show ?thesis using ll fields(1) by blast
qed

lemma marshal_source_canonical:
  assumes "canonical_source s"
  shows "\<exists>fs. marshal_source s = Inr (JObj fs) \<and> lossless (JObj fs) \<and>
    decodeMessageSource (Doc (JObj fs)) = Inr s \<and> CloneSource s = Inr s \<and> SourceKind s \<noteq> []"
proof (cases s)
  case UserSource
  then show ?thesis
    by (simp add: decode_source_typed get_string_def decodeStrict_obj)
next
  case (PluginSource p f se su)
  from decode_plugin_json [OF assms [unfolded PluginSource]] obtain fs where
    fs: "marshal_source s = Inr (JObj fs)" "lossless (JObj fs)" "get_string fs ''kind'' = Inr ''plugin''"
      "decode_plugin_source (Doc (JObj fs)) = Inr s"
    using PluginSource by blast
  then show ?thesis
    using assms PluginSource by (simp add: decode_source_typed [OF fs(2,3)])
next
  case (ModelSource p m r)
  show ?thesis
  proof (cases r)
    case Absent
    with assms ModelSource show ?thesis
      by (simp add: decode_source_typed get_string_def decodeStrict_obj get_raw_def)
  next
    case (Malformed x)
    with assms ModelSource show ?thesis by simp
  next
    case (Doc j)
    with assms ModelSource have "lossless j" "Clone r = Inr r"
      using scan_iff(1) [of j] by (simp_all add: Clone_def)
    with assms ModelSource Doc show ?thesis
      by (simp add: decode_source_typed get_string_def decodeStrict_obj get_raw_def)
  qed
next
  case (ToolSource c)
  with assms show ?thesis
    by (simp add: decode_source_typed get_string_def decodeStrict_obj)
qed (use assms in auto)

lemma role_of_text: "r \<in> {RoleSystem, RoleUser, RoleAssistant} \<Longrightarrow> role_of (role_text r) = r"
  by (auto simp: role_of_def)

lemma canonical_restores:
  "canonical_value v \<Longrightarrow> restore_copy v = Inr v"
proof -
  assume v: "canonical_value v"
  then have "isOk (CloneContentBlocks (content v))"
    by (simp add: canonical_value_def CloneContentBlocks_def canonical_clone(2))
  then have "CloneContentBlocks (content v) = Inr (content v)"
    using CloneContentBlocks_same by (auto simp: isOk_iff)
  moreover obtain fs where "CloneSource (origin v) = Inr (origin v)" "SourceKind (origin v) \<noteq> []"
    using marshal_source_canonical v by (auto simp: canonical_value_def)
  moreover have "origin v \<noteq> NilSource"
    using v by (auto simp: canonical_value_def)
  ultimately show ?thesis
    using v by (auto simp: restore_copy_def restoreMessageValue_def canonical_value_def)
qed

lemma message_round_trip:
  assumes v: "canonical_value v"
  shows "\<exists>j. marshal_message v = Inr j \<and> lossless j \<and> DecodeMessage (Doc j) = Inr (classify v)"
proof -
  from v marshal_canonical(2) [of "content v"] obtain js where
    js: "marshal_blocks (content v) = Inr js" "\<forall>j \<in> set js. lossless j"
      "list_all2 (\<lambda>b j. DecodeContentBlock j = Inr b) (content v) js"
    by (auto simp: canonical_value_def)
  from v marshal_source_canonical [of "origin v"] obtain gs where
    gs: "marshal_source (origin v) = Inr (JObj gs)" "lossless (JObj gs)"
      "decodeMessageSource (Doc (JObj gs)) = Inr (origin v)"
    by (auto simp: canonical_value_def)
  define fs where "fs = [(''id'', JStr (idValue v)), (''role'', JStr (role_text (roleValue v))),
                (''content'', JArr js), (''source'', JObj gs)]"
  have ll: "lossless (JObj fs)"
    using js(2) gs(2) by (simp add: fs_def del: lossless.simps(6)) (simp add: fs_def)
  have valid: "Validate (Doc (JObj fs)) = Inr ()"
    using ll block_object_known by blast
  have strict: "decodeStrict [''id'', ''role'', ''content'', ''source''] (Doc (JObj fs)) = Inr fs"
    by (rule decodeStrict_obj [OF ll]) (simp add: fs_def)
  have fields: "get_string fs ''id'' = Inr (idValue v)" "get_string fs ''role'' = Inr (role_text (roleValue v))"
    "get_raw fs ''content'' = Doc (JArr js)" "get_raw fs ''source'' = Doc (JObj gs)"
    by (simp_all add: fs_def get_string_def get_raw_def)
  have "DecodeMessage (Doc (JObj fs)) = Inr (classify v)"
    using canonical_restores [OF v] role_of_text [of "roleValue v"] v
    by (simp add: DecodeMessage_def valid strict fields decode_blocks_list [OF js(3,2)] gs(3)
        restore_copy_def canonical_value_def del: Validate.simps)
  moreover have "idValue v \<noteq> []" "origin v \<noteq> NilSource"
    using v by (auto simp: canonical_value_def)
  then have "marshal_message v = Inr (JObj fs)"
    by (simp add: marshal_message_def js gs fs_def)
  ultimately show ?thesis using ll by blast
qed

end
