(* ===== verification/SessionTypes.thy ===== *)
theory SessionTypes
  imports MessageCodec "HOL-Library.Word"
begin

text \<open>
  The values of package session (\<open>src/session/types.go\<close>, \<open>events.go\<close>, \<open>write.go\<close>,
  \<open>event_codec.go\<close>, \<open>message_projection.go\<close>): the immutable header with its
  validation, the surface operations with their wire union, events, event drafts and
  the check that a committed event is the one a draft asked for, and the projection of
  an event to the message it shows to the model.

  Go int64 and int values are unbounded integers here; every place where the code guards
  a range keeps its guard.
\<close>

section \<open>Integers, headers\<close>

definition maxSafeInteger :: int where
  "maxSafeInteger = 2 ^ 53 - 1"

definition isSafeNonNegative :: "int \<Rightarrow> bool" where
  "isSafeNonNegative value = (0 \<le> value \<and> value \<le> maxSafeInteger)"

definition isSafeInteger :: "int \<Rightarrow> bool" where
  "isSafeInteger value = (- maxSafeInteger \<le> value \<and> value \<le> maxSafeInteger)"

record header =
  headerVersion :: int
  headerID :: string
  createdAt :: int
  cwd :: "string option"
  parentSession :: "string option"
  seedLength :: "int option"
  headerOrigin :: string
  delegationDepth :: "int option"
  agentPreset :: "string option"

record metadata =
  metaCreatedAt :: "int option"
  metaCWD :: "string option"
  metaParentSession :: "string option"
  metaSeedLength :: "int option"
  metaOrigin :: string
  metaDelegationDepth :: "int option"
  metaAgentPreset :: "string option"

definition is_abs :: "string \<Rightarrow> bool" where
  "is_abs p = (p \<noteq> [] \<and> hd p = CHR ''/'')"

definition validateHeader :: "string \<Rightarrow> header \<Rightarrow> unit res" where
  "validateHeader identifier candidate =
     bindE (failIf (headerVersion candidate \<noteq> 0)
              (Errorf ''session: header version must be %d, got %d'' [AInt 0, AInt (headerVersion candidate)])) (\<lambda>_.
     bindE (failIf (headerID candidate \<noteq> identifier)
              (Errorf ''session: header id %q does not match session id %q''
                 [AStr (headerID candidate), AStr identifier])) (\<lambda>_.
     bindE (failIf (\<not> isSafeNonNegative (createdAt candidate))
              (err ''session: header createdAt must be a non-negative safe integer'')) (\<lambda>_.
     bindE (failIf (case cwd candidate of None \<Rightarrow> False | Some p \<Rightarrow> \<not> is_abs p)
              (Errorf ''session: header cwd must be an absolute path, got %q''
                 (case cwd candidate of None \<Rightarrow> [] | Some p \<Rightarrow> [AStr p]))) (\<lambda>_.
     bindE (failIf (case seedLength candidate of None \<Rightarrow> False | Some n \<Rightarrow> \<not> isSafeNonNegative n)
              (err ''session: header seedLength must be a non-negative safe integer'')) (\<lambda>_.
     bindE (failIf (headerOrigin candidate \<noteq> [] \<and> headerOrigin candidate \<noteq> ''subagent'')
              (err ''session: header origin must be \"subagent\"'')) (\<lambda>_.
     failIf (case delegationDepth candidate of None \<Rightarrow> False | Some n \<Rightarrow> \<not> isSafeNonNegative n)
              (err ''session: header delegationDepth must be a non-negative safe integer'')))))))"

definition buildHeader :: "string \<Rightarrow> metadata \<Rightarrow> int \<Rightarrow> header res" where
  "buildHeader identifier md now =
     (let candidate =
        \<lparr>headerVersion = 0, headerID = identifier,
         createdAt = (case metaCreatedAt md of None \<Rightarrow> now | Some t \<Rightarrow> t),
         cwd = metaCWD md, parentSession = metaParentSession md, seedLength = metaSeedLength md,
         headerOrigin = metaOrigin md, delegationDepth = metaDelegationDepth md,
         agentPreset = metaAgentPreset md\<rparr>
      in bindE (validateHeader identifier candidate) (\<lambda>_. Inr candidate))"

section \<open>Surface operations, events and drafts\<close>

record surface_operation =
  opKind :: string
  opStart :: int
  opEnd :: int

definition SurfaceAppend :: surface_operation where
  "SurfaceAppend = \<lparr>opKind = ''append'', opStart = 0, opEnd = 0\<rparr>"

definition SurfaceReplace :: "int \<Rightarrow> int \<Rightarrow> surface_operation" where
  "SurfaceReplace s e = \<lparr>opKind = ''replace'', opStart = s, opEnd = e\<rparr>"

definition surface_op_json :: "surface_operation \<Rightarrow> json res" where
  "surface_op_json operation =
     (if opKind operation = ''append'' then Inr (JStr ''append'')
      else if opKind operation = ''replace'' then
        bindE (failIf (\<not> isSafeNonNegative (opStart operation) \<or> \<not> isSafeNonNegative (opEnd operation))
                 (err ''session: surface replace bounds must be non-negative safe integers'')) (\<lambda>_.
        Inr (JObj [(''op'', JStr ''replace''), (''start'', jint (opStart operation)), (''end'', jint (opEnd operation))]))
      else Inl (Errorf ''session: unsupported surface operation %q'' [AStr (opKind operation)]))"

definition surface_op_of_json :: "raw \<Rightarrow> surface_operation res" where
  "surface_op_of_json r =
     (if r = Doc (JStr ''append'') then Inr SurfaceAppend
      else
        bindE (wrapE (\<lambda>e. Errorf ''session: invalid surface operation: %w'' [AErr e]) (Validate r)) (\<lambda>_.
        bindE (wrapE (\<lambda>e. Errorf ''session: invalid surface operation: %w'' [AErr e])
                 (bindE (strict_fields [''op'', ''start'', ''end''] r) (\<lambda>fs.
                  bindE (get_string fs ''op'') (\<lambda>ov.
                  bindE (get_int64 fs ''start'') (\<lambda>s.
                  bindE (get_int64 fs ''end'') (\<lambda>e. Inr (ov, s, e))))))) (\<lambda>(ov, s, e).
        bindE (failIf (ov \<noteq> ''replace'' \<or> \<not> isSafeNonNegative s \<or> \<not> isSafeNonNegative e)
                 (err ''session: invalid surface replace operation'')) (\<lambda>_.
        Inr (SurfaceReplace s e)))))"

record event =
  evType :: string
  evSeq :: int
  evTime :: int
  evData :: raw
  evSources :: "int list option"
  evSurfaceOp :: "surface_operation option"
  evIgnorable :: bool

record event_draft =
  draftType :: string
  draftData :: raw
  draftSources :: "int list option"
  draftSurfaceOp :: "surface_operation option"
  draftIgnorable :: bool

definition validateEventDraft :: "event_draft \<Rightarrow> unit res" where
  "validateEventDraft draft =
     bindE (failIf (draftType draft = []) (err ''session: invalid EventDraft'')) (\<lambda>_.
     bindE (failIf (draftData draft = Absent) (err ''session: EventDraft data is absent'')) (\<lambda>_.
     wrapE (\<lambda>e. Errorf ''session: EventDraft data is not lossless JSON: %w'' [AErr e])
       (Validate (draftData draft))))"

definition ValidateEvent :: "event_draft \<Rightarrow> event \<Rightarrow> unit res" where
  "ValidateEvent draft entry =
     bindE (validateEventDraft draft) (\<lambda>_.
     bindE (failIf (\<not> isSafeNonNegative (evSeq entry) \<or> \<not> isSafeInteger (evTime entry))
              (err ''session: committed event has invalid sequence or time'')) (\<lambda>_.
     failIf (evType entry \<noteq> draftType draft \<or> evData entry \<noteq> draftData draft \<or>
             evIgnorable entry \<noteq> draftIgnorable draft \<or> evSources entry \<noteq> draftSources draft \<or>
             evSurfaceOp entry \<noteq> draftSurfaceOp draft)
       (err ''session: committed event does not match its draft'')))"

text \<open>
  \<open>NewEventDraft\<close> and \<open>NewSurfaceEventDraft\<close> take the marshalled payload: the result of
  \<open>json.Marshal\<close> on the typed value, which the callers' models compute.
\<close>

definition snapshotPayload :: "json res \<Rightarrow> raw res" where
  "snapshotPayload marshalled =
     bindE (wrapE (\<lambda>e. Errorf ''session: event data is not JSON-serializable: %w'' [AErr e]) marshalled) (\<lambda>j.
     bindE (wrapE (\<lambda>e. Errorf ''session: event data is not lossless JSON: %w'' [AErr e]) (Validate (Doc j))) (\<lambda>_.
     Inr (Doc j)))"

definition NewEventDraft :: "string \<Rightarrow> json res \<Rightarrow> bool \<Rightarrow> event_draft res" where
  "NewEventDraft name marshalled ignorable =
     bindE (failIf (name = []) (err ''session: draft has invalid event key'')) (\<lambda>_.
     bindE (snapshotPayload marshalled) (\<lambda>rawValue.
     Inr \<lparr>draftType = name, draftData = rawValue, draftSources = None, draftSurfaceOp = None,
          draftIgnorable = ignorable\<rparr>))"

definition NewSurfaceEventDraft ::
  "string \<Rightarrow> json res \<Rightarrow> surface_operation \<Rightarrow> int list option \<Rightarrow> bool \<Rightarrow> event_draft res" where
  "NewSurfaceEventDraft name marshalled operation sources ignorable =
     bindE (failIf (name = []) (err ''session: draft has invalid surface event key'')) (\<lambda>_.
     bindE (surface_op_json operation) (\<lambda>_.
     bindE (snapshotPayload marshalled) (\<lambda>rawValue.
     Inr \<lparr>draftType = name, draftData = rawValue, draftSources = sources,
          draftSurfaceOp = Some operation, draftIgnorable = ignorable\<rparr>)))"

section \<open>Snapshots and write results\<close>

record surface_state =
  nodes :: "int list"
  replaceGeneration :: "64 word"

record write_barrier =
  barrierSession :: string
  barrierNext :: int

record snapshot =
  snapEvents :: "event list"
  snapSurface :: surface_state
  snapBarrier :: write_barrier

record write_result =
  firstSeq :: int
  nextSeq :: int
  resultBarrier :: write_barrier
  resultEvents :: "event list"

section \<open>Messages of events\<close>

definition decodeDerivedMessage :: "event \<Rightarrow> message option res" where
  "decodeDerivedMessage entry =
     (if evType entry = ''user/message'' then
        bindE (DecodeUserMessage (evData entry)) (\<lambda>v. Inr (Some (UserMessage v)))
      else if evType entry = ''assistant/message'' then
        bindE (strict_fields [''turn'', ''step'', ''message'', ''usage''] (evData entry)) (\<lambda>fs.
        bindE (get_int64 fs ''turn'') (\<lambda>_.
        bindE (get_int64 fs ''step'') (\<lambda>_.
        bindE (DecodeMessage (get_raw fs ''message'')) (\<lambda>m.
        case m of
          AssistantMessage v \<Rightarrow>
            (case CloneContentBlocks (content v) of
               Inr (b # bs) \<Rightarrow> Inr (Some m)
             | _ \<Rightarrow> Inr None)
        | _ \<Rightarrow> Inl (err ''session: assistant/message contains a non-assistant message'')))))
      else if evType entry = ''tool/result'' then
        bindE (fields_of (evData entry)) (\<lambda>fs.
        bindE (DecodeMessage (get_raw fs ''message'')) (\<lambda>m.
        case m of
          ToolResultMessage v \<Rightarrow> Inr (Some m)
        | _ \<Rightarrow> Inl (err ''session: tool/result contains a non-tool-result message'')))
      else Inr None)"

section \<open>Lemmas\<close>

lemma fold_session_fields [simp]:
  "fold_key ''op'' = ''op''" "fold_key ''start'' = ''start''" "fold_key ''end'' = ''end''"
  "fold_key ''turn'' = ''turn''" "fold_key ''step'' = ''step''" "fold_key ''message'' = ''message''"
  "fold_key ''usage'' = ''usage''"
  by code_simp+

lemma isSafeNonNegative_int64: "isSafeNonNegative n \<Longrightarrow> int64 n"
  by (simp add: isSafeNonNegative_def maxSafeInteger_def int64_def)

lemma surface_op_json_round_trip:
  assumes "surface_op_json operation = Inr j"
    and "opKind operation = ''append'' \<Longrightarrow> opStart operation = 0 \<and> opEnd operation = 0"
  shows "lossless j \<and> surface_op_of_json (Doc j) = Inr operation"
proof (cases "opKind operation = ''append''")
  case True
  with assms show ?thesis
    by (cases operation) (auto simp: surface_op_json_def surface_op_of_json_def SurfaceAppend_def)
next
  case False
  then have k: "opKind operation = ''replace''" and
    safe: "isSafeNonNegative (opStart operation)" "isSafeNonNegative (opEnd operation)" and
    j: "j = JObj [(''op'', JStr ''replace''), (''start'', jint (opStart operation)), (''end'', jint (opEnd operation))]"
    using assms(1) by (auto simp: surface_op_json_def res_iff split: if_splits)
  have ll: "lossless j"
    using safe by (simp add: j isSafeNonNegative_int64 int64_lossless del: lossless.simps(4))
  moreover have "as_int64 (jint (opStart operation)) = Some (opStart operation)"
    "as_int64 (jint (opEnd operation)) = Some (opEnd operation)"
    using safe by (simp_all add: isSafeNonNegative_int64 int64_decode del: as_int64.simps)
  moreover have "Validate (Doc j) = Inr ()"
    using ll scan_iff(1) by simp
  ultimately show ?thesis
    using k safe by (cases operation)
      (simp add: surface_op_of_json_def j get_string_def get_int64_def SurfaceReplace_def
        del: as_int64.simps Validate.simps)
qed

lemma validateEventDraft_iff:
  "validateEventDraft d = Inr u \<longleftrightarrow> draftType d \<noteq> [] \<and> (\<exists>j. draftData d = Doc j \<and> lossless j)"
  by (auto simp: validateEventDraft_def res_iff Validate_iff)

lemma NewEventDraft_Inr:
  "NewEventDraft n m ig = Inr d \<longleftrightarrow>
   n \<noteq> [] \<and> (\<exists>j. m = Inr j \<and> lossless j \<and>
     d = \<lparr>draftType = n, draftData = Doc j, draftSources = None, draftSurfaceOp = None, draftIgnorable = ig\<rparr>)"
  by (auto simp: NewEventDraft_def snapshotPayload_def res_iff scan_iff)

lemma NewSurfaceEventDraft_Inr:
  "NewSurfaceEventDraft n m op so ig = Inr d \<longleftrightarrow>
   n \<noteq> [] \<and> isOk (surface_op_json op) \<and> (\<exists>j. m = Inr j \<and> lossless j \<and>
     d = \<lparr>draftType = n, draftData = Doc j, draftSources = so, draftSurfaceOp = Some op, draftIgnorable = ig\<rparr>)"
  by (auto simp: NewSurfaceEventDraft_def snapshotPayload_def res_iff scan_iff isOk_iff)

lemma ValidateEvent_Inr:
  "ValidateEvent d e = Inr u \<longleftrightarrow>
   isOk (validateEventDraft d) \<and> isSafeNonNegative (evSeq e) \<and> isSafeInteger (evTime e) \<and>
   evType e = draftType d \<and> evData e = draftData d \<and> evIgnorable e = draftIgnorable d \<and>
   evSources e = draftSources d \<and> evSurfaceOp e = draftSurfaceOp d"
  by (auto simp: ValidateEvent_def res_iff isOk_iff)

end
