(* ===== verification/SessionSurface.thy ===== *)
theory SessionSurface
  imports SessionTypes
begin

text \<open>
  The ordered model-visible surface of a session (\<open>src/session/surface.go\<close>): planning
  and applying the change one event makes, the provenance check of a replacement, the
  rule that a replaced tool result may change only its content, and the view of a whole
  history as the fold of these transitions.
\<close>

section \<open>Rewriting tool results\<close>

definition shape_error :: goerr where
  "shape_error = err ''session: tool/result message must contain one result block''"

text \<open>\<open>json.Unmarshal\<close> into \<open>[]map[string]json.RawMessage\<close>; \<open>None\<close> entries are nil maps.\<close>

definition unmarshal_maps :: "raw \<Rightarrow> (string \<times> json) list option list res" where
  "unmarshal_maps r =
     bindE (unmarshal_array r) (\<lambda>a. case a of
        None \<Rightarrow> Inr []
      | Some xs \<Rightarrow> mapE (\<lambda>x. unmarshal_map (Doc x)) xs)"

definition toolResultShape :: "raw \<Rightarrow> json res" where
  "toolResultShape rawValue =
     (case unmarshal_map rawValue of
        Inl e \<Rightarrow> Inl (err ''session: tool/result data must be an object'')
      | Inr payload \<Rightarrow>
          (case unmarshal_map (map_get payload ''message'') of
             Inl e \<Rightarrow> Inl (err ''session: tool/result message must be an object'')
           | Inr message \<Rightarrow>
               (case unmarshal_maps (map_get message ''content'') of
                  Inr [block] \<Rightarrow>
                    bindE (map_set block ''content'' JNull) (\<lambda>block0.
                    bindE (map_set message ''content'' (JArr [map_json (Some block0)])) (\<lambda>message0.
                    bindE (map_set payload ''message'' (map_json (Some message0))) (\<lambda>payload0.
                    Inr (map_json (Some payload0)))))
                | _ \<Rightarrow> Inl shape_error)))"

definition replaceToolResultContentData :: "raw \<Rightarrow> json \<Rightarrow> json res" where
  "replaceToolResultContentData rawValue encodedContent =
     (case unmarshal_map rawValue of
        Inl e \<Rightarrow> Inl (err ''session: tool/result data must be an object'')
      | Inr payload \<Rightarrow>
          (case unmarshal_map (map_get payload ''message'') of
             Inl e \<Rightarrow> Inl (err ''session: tool/result message must be an object'')
           | Inr message \<Rightarrow>
               (case unmarshal_array (map_get message ''content'') of
                  Inr (Some [blockJSON]) \<Rightarrow>
                    (case unmarshal_map (Doc blockJSON) of
                       Inl e \<Rightarrow> Inl (err ''session: tool/result block must be an object'')
                     | Inr block \<Rightarrow>
                         bindE (map_set block ''content'' encodedContent) (\<lambda>block1.
                         bindE (map_set message ''content'' (JArr [map_json (Some block1)])) (\<lambda>message1.
                         bindE (map_set payload ''message'' (map_json (Some message1))) (\<lambda>payload1.
                         Inr (map_json (Some payload1))))))
                | _ \<Rightarrow> Inl shape_error)))"

definition NewToolResultContentReplacementDraft ::
  "event \<Rightarrow> content_block list \<Rightarrow> event_draft res" where
  "NewToolResultContentReplacementDraft original cs =
     bindE (failIf (evType original \<noteq> ''tool/result'')
              (err ''session: tool/result content replacement must target tool/result'')) (\<lambda>_.
     bindE (CloneContentBlocks cs) (\<lambda>detachedContent.
     bindE (marshal_blocks detachedContent) (\<lambda>encoded.
     bindE (replaceToolResultContentData (evData original) (JArr encoded)) (\<lambda>rewrittenData.
     Inr \<lparr>draftType = ''tool/result'', draftData = Doc rewrittenData,
          draftSources = Some [evSeq original],
          draftSurfaceOp = Some (SurfaceReplace (evSeq original) (evSeq original)),
          draftIgnorable = False\<rparr>))))"

section \<open>Planning and applying one transition\<close>

definition surfaceEventTypes :: "string list" where
  "surfaceEventTypes = [''user/message'', ''assistant/message'', ''tool/result'']"

record surface_transition =
  appendNode :: int
  replacing :: bool
  startIndex :: int
  endIndex :: int

definition no_transition :: surface_transition where
  "no_transition = \<lparr>appendNode = - 1, replacing = False, startIndex = 0, endIndex = 0\<rparr>"

text \<open>The loop over the cited sequences, with the set of those already seen.\<close>

fun check_sources :: "int \<Rightarrow> int list \<Rightarrow> int list \<Rightarrow> unit res" where
  "check_sources seq seen [] = Inr ()"
| "check_sources seq seen (s # ss) =
     bindE (failIf (\<not> isSafeNonNegative s \<or> seq \<le> s)
              (Errorf ''session: sourceEventSeqs must reference earlier safe sequences, got %d'' [AInt s])) (\<lambda>_.
     bindE (failIf (s \<in> set seen) (err ''session: sourceEventSeqs must not contain duplicates'')) (\<lambda>_.
     check_sources seq (s # seen) ss))"

fun check_shadowed :: "int list \<Rightarrow> int list \<Rightarrow> unit res" where
  "check_shadowed sources [] = Inr ()"
| "check_shadowed sources (s # ss) =
     bindE (failIf (s \<notin> set sources)
              (Errorf ''session: surface replace is missing shadowed seq %d'' [AInt s])) (\<lambda>_.
     check_shadowed sources ss)"

definition validateProvenance :: "event \<Rightarrow> int list \<Rightarrow> unit res" where
  "validateProvenance candidate shadowed =
     (case evSources candidate of
        None \<Rightarrow>
          if shadowed = [] then Inr ()
          else Inl (err ''session: surface replace must cite every shadowed node'')
      | Some sources \<Rightarrow>
          bindE (failIf (sources = [] \<and> evType candidate \<noteq> ''assistant/message'')
                   (err ''session: sourceEventSeqs must not be empty for this event'')) (\<lambda>_.
          bindE (check_sources (evSeq candidate) [] sources) (\<lambda>_.
          check_shadowed sources shadowed)))"

definition priorEvent :: "event list \<Rightarrow> event list \<Rightarrow> int \<Rightarrow> event option" where
  "priorEvent entries pending sequence =
     (if sequence < 0 then None
      else if sequence < int (length entries) then Some (entries ! nat sequence)
      else let pendingIndex = sequence - int (length entries) in
        if pendingIndex < 0 \<or> int (length pending) \<le> pendingIndex then None
        else Some (pending ! nat pendingIndex))"

definition validateToolResultRewrite :: "event \<Rightarrow> int list \<Rightarrow> event list \<Rightarrow> event list \<Rightarrow> unit res" where
  "validateToolResultRewrite candidate shadowed entries pending =
     (if evType candidate \<noteq> ''tool/result'' \<or>
         (case evSurfaceOp candidate of None \<Rightarrow> True | Some sop \<Rightarrow> opKind sop \<noteq> ''replace'')
      then Inr ()
      else
        bindE (failIf (length shadowed \<noteq> 1)
                 (err ''session: tool/result replacement must rewrite exactly one surface node'')) (\<lambda>_.
        case priorEvent entries pending (hd shadowed) of
          None \<Rightarrow> Inl (err ''session: tool/result replacement must target tool/result'')
        | Some original \<Rightarrow>
            bindE (failIf (evType original \<noteq> ''tool/result'')
                     (err ''session: tool/result replacement must target tool/result'')) (\<lambda>_.
            bindE (toolResultShape (evData original)) (\<lambda>originalShape.
            bindE (toolResultShape (evData candidate)) (\<lambda>replacementShape.
            failIf (originalShape \<noteq> replacementShape)
              (err ''session: tool/result replacement may change only result content''))))))"

definition planSurface ::
  "surface_state \<Rightarrow> event \<Rightarrow> event list \<Rightarrow> event list \<Rightarrow> surface_transition res" where
  "planSurface state candidate entries pending =
     (if evType candidate \<notin> set surfaceEventTypes then
        bindE (failIf (evSurfaceOp candidate \<noteq> None \<or> evSources candidate \<noteq> None)
                 (Errorf ''session: event %q is not surface-eligible'' [AStr (evType candidate)]))
          (\<lambda>_. Inr no_transition)
      else case evSurfaceOp candidate of
        None \<Rightarrow> Inl (Errorf ''session: event %q requires surfaceOp'' [AStr (evType candidate)])
      | Some operation \<Rightarrow>
          if opKind operation = ''append'' then
            bindE (validateProvenance candidate []) (\<lambda>_.
            Inr (no_transition\<lparr>appendNode := evSeq candidate\<rparr>))
          else if opKind operation = ''replace'' then
            (let startIdx = index_of (nodes state) (opStart operation);
                 endIdx = index_of (nodes state) (opEnd operation) in
             bindE (failIf (startIdx < 0)
                      (Errorf ''session: surface replace start seq %d not found'' [AInt (opStart operation)])) (\<lambda>_.
             bindE (failIf (endIdx < 0)
                      (Errorf ''session: surface replace end seq %d not found'' [AInt (opEnd operation)])) (\<lambda>_.
             bindE (failIf (startIdx > endIdx) (err ''session: surface replace start is after end'')) (\<lambda>_.
             let shadowed = subslice (nodes state) (nat startIdx) (nat (endIdx + 1 - startIdx)) in
             bindE (validateProvenance candidate shadowed) (\<lambda>_.
             bindE (validateToolResultRewrite candidate shadowed entries pending) (\<lambda>_.
             Inr \<lparr>appendNode = evSeq candidate, replacing = True,
                  startIndex = startIdx, endIndex = endIdx\<rparr>))))))
          else Inl (Errorf ''session: unsupported surface operation %q'' [AStr (opKind operation)]))"

definition applySurface :: "surface_state \<Rightarrow> surface_transition \<Rightarrow> surface_state" where
  "applySurface state transition =
     (if appendNode transition < 0 then state
      else if \<not> replacing transition then state\<lparr>nodes := nodes state @ [appendNode transition]\<rparr>
      else state\<lparr>nodes := take (nat (startIndex transition)) (nodes state) @ [appendNode transition]
                          @ drop (nat (endIndex transition + 1)) (nodes state),
                 replaceGeneration := replaceGeneration state + 1\<rparr>)"

section \<open>The surface of a history\<close>

definition empty_surface :: surface_state where
  "empty_surface = \<lparr>nodes = [], replaceGeneration = 0\<rparr>"

text \<open>
  \<open>extend_surface view prior es\<close> is the surface after the events \<open>es\<close> follow the history
  \<open>prior\<close> whose surface is \<open>view\<close>: the reference that the log's batches are compared with.
\<close>

fun extend_surface :: "surface_state \<Rightarrow> event list \<Rightarrow> event list \<Rightarrow> surface_state res" where
  "extend_surface view prior [] = Inr view"
| "extend_surface view prior (e # es) =
     bindE (planSurface view e prior []) (\<lambda>tr. extend_surface (applySurface view tr) (prior @ [e]) es)"

lemma extend_append:
  "extend_surface view prior (xs @ ys) = bindE (extend_surface view prior xs) (\<lambda>v. extend_surface v (prior @ xs) ys)"
proof (induction xs arbitrary: view prior)
  case (Cons x xs)
  then show ?case by (cases "planSurface view x prior []") simp_all
qed simp

lemma priorEvent_merge: "priorEvent entries pending s = priorEvent (entries @ pending) [] s"
  by (auto simp: priorEvent_def nth_append nat_diff_distrib Let_def)

lemma planSurface_merge:
  "planSurface view e entries pending = planSurface view e (entries @ pending) []"
proof -
  have "validateToolResultRewrite e sh entries pending = validateToolResultRewrite e sh (entries @ pending) []"
    for sh
    by (simp add: validateToolResultRewrite_def priorEvent_merge [of entries pending])
  then show ?thesis by (simp only: planSurface_def)
qed

lemma planSurface_plain:
  "evType e \<notin> set surfaceEventTypes \<Longrightarrow> planSurface view e prior pending = Inr tr \<longleftrightarrow>
   evSurfaceOp e = None \<and> evSources e = None \<and> tr = no_transition"
  by (auto simp: planSurface_def res_iff)

lemma applySurface_none [simp]: "applySurface view no_transition = view"
  by (simp add: applySurface_def no_transition_def)

lemma check_sources_iff:
  "check_sources q seen ss = Inr () \<longleftrightarrow>
   (\<forall>s \<in> set ss. isSafeNonNegative s \<and> s < q \<and> s \<notin> set seen) \<and> distinct ss"
  by (induction ss arbitrary: seen) (auto simp: res_iff)

lemma check_shadowed_iff: "check_shadowed so sh = Inr () \<longleftrightarrow> set sh \<subseteq> set so"
  by (induction sh) (auto simp: res_iff)

lemma validateProvenance_cites:
  "validateProvenance e sh = Inr u \<Longrightarrow> sh \<noteq> [] \<Longrightarrow>
   \<exists>so. evSources e = Some so \<and> set sh \<subseteq> set so \<and> (\<forall>s \<in> set so. 0 \<le> s \<and> s < evSeq e) \<and> distinct so"
  by (auto simp: validateProvenance_def res_iff check_sources_iff check_shadowed_iff isSafeNonNegative_def
      split: option.splits if_splits)

lemma planSurface_replace:
  assumes "evType e \<in> set surfaceEventTypes" "evSurfaceOp e = Some sop" "opKind sop = ''replace''"
    "planSurface view e prior pending = Inr tr"
  defines "si \<equiv> index_of (nodes view) (opStart sop)" and "ei \<equiv> index_of (nodes view) (opEnd sop)"
  shows "0 \<le> si \<and> 0 \<le> ei \<and> si \<le> ei \<and>
    validateProvenance e (subslice (nodes view) (nat si) (nat (ei + 1 - si))) = Inr () \<and>
    validateToolResultRewrite e (subslice (nodes view) (nat si) (nat (ei + 1 - si))) prior pending = Inr () \<and>
    tr = \<lparr>appendNode = evSeq e, replacing = True, startIndex = si, endIndex = ei\<rparr>"
proof -
  have "planSurface view e prior pending =
     bindE (failIf (si < 0) (Errorf ''session: surface replace start seq %d not found'' [AInt (opStart sop)])) (\<lambda>_.
     bindE (failIf (ei < 0) (Errorf ''session: surface replace end seq %d not found'' [AInt (opEnd sop)])) (\<lambda>_.
     bindE (failIf (si > ei) (err ''session: surface replace start is after end'')) (\<lambda>_.
     bindE (validateProvenance e (subslice (nodes view) (nat si) (nat (ei + 1 - si)))) (\<lambda>_.
     bindE (validateToolResultRewrite e (subslice (nodes view) (nat si) (nat (ei + 1 - si))) prior pending) (\<lambda>_.
     Inr \<lparr>appendNode = evSeq e, replacing = True, startIndex = si, endIndex = ei\<rparr>)))))"
    using assms(1-3) by (simp add: planSurface_def Let_def si_def ei_def)
  with assms(4) show ?thesis by (simp add: bindE_Inr_iff failIf_Inr linorder_not_less)
qed

text \<open>What an accepted transition looks like: nothing, an append, or one replaced span.\<close>

lemma planSurface_cases:
  assumes "planSurface view e prior pending = Inr tr"
  obtains
    (plain) "evType e \<notin> set surfaceEventTypes" "tr = no_transition" "evSurfaceOp e = None" "evSources e = None"
  | (append) sop where "evType e \<in> set surfaceEventTypes" "evSurfaceOp e = Some sop" "opKind sop = ''append''"
      "tr = no_transition\<lparr>appendNode := evSeq e\<rparr>" "validateProvenance e [] = Inr ()"
  | (replace) sop i j where "evType e \<in> set surfaceEventTypes" "evSurfaceOp e = Some sop"
      "opKind sop = ''replace''" "i \<le> j" "j < length (nodes view)"
      "nodes view ! i = opStart sop" "nodes view ! j = opEnd sop"
      "tr = \<lparr>appendNode = evSeq e, replacing = True, startIndex = int i, endIndex = int j\<rparr>"
      "validateProvenance e (subslice (nodes view) i (j + 1 - i)) = Inr ()"
      "validateToolResultRewrite e (subslice (nodes view) i (j + 1 - i)) prior pending = Inr ()"
proof (cases "evType e \<in> set surfaceEventTypes")
  case False
  then show ?thesis using assms plain by (simp add: planSurface_plain)
next
  case True
  show ?thesis
  proof (cases "evSurfaceOp e")
    case None
    with assms True show ?thesis by (simp add: planSurface_def)
  next
    case (Some sop)
    consider "opKind sop = ''append''" | "opKind sop = ''replace''"
      using assms True Some by (auto simp: planSurface_def split: if_splits)
    then show ?thesis
    proof cases
      case 1
      with assms True Some append [of sop] show ?thesis by (auto simp: planSurface_def res_iff)
    next
      case 2
      define si where "si = index_of (nodes view) (opStart sop)"
      define ei where "ei = index_of (nodes view) (opEnd sop)"
      note facts = planSurface_replace [OF True Some 2 assms, folded si_def ei_def]
      have at: "nat si < length (nodes view)" "nodes view ! nat si = opStart sop"
        "nat ei < length (nodes view)" "nodes view ! nat ei = opEnd sop"
        using facts index_of_nth [of "nodes view" "opStart sop"] index_of_nth [of "nodes view" "opEnd sop"]
        by (simp_all add: si_def ei_def)
      have "nat (ei + 1 - si) = nat ei + 1 - nat si" using facts by (simp add: nat_diff_distrib nat_add_distrib)
      moreover have "nat si \<le> nat ei" using facts by (simp add: nat_mono)
      ultimately show ?thesis using replace [OF True Some 2, of "nat si" "nat ei"] facts at by simp
    qed
  qed
qed

section \<open>The invariant of a surface over its history\<close>

definition contiguous :: "event list \<Rightarrow> bool" where
  "contiguous es = (\<forall>i < length es. evSeq (es ! i) = int i)"

definition is_replacement :: "event \<Rightarrow> bool" where
  "is_replacement e = (case evSurfaceOp e of None \<Rightarrow> False | Some sop \<Rightarrow> opKind sop = ''replace'')"

definition replacements :: "event list \<Rightarrow> nat" where
  "replacements es = length (filter is_replacement es)"

definition surface_ok :: "surface_state \<Rightarrow> event list \<Rightarrow> bool" where
  "surface_ok v es =
     (distinct (nodes v) \<and>
      (\<forall>n \<in> set (nodes v). 0 \<le> n \<and> nat n < length es \<and> evType (es ! nat n) \<in> set surfaceEventTypes) \<and>
      replaceGeneration v = of_nat (replacements es))"

lemma contiguous_Nil [simp]: "contiguous []"
  by (simp add: contiguous_def)

lemma contiguous_append:
  "contiguous (es @ fs) \<longleftrightarrow> contiguous es \<and> (\<forall>i < length fs. evSeq (fs ! i) = int (length es + i))"
proof
  assume c: "contiguous (es @ fs)"
  have "evSeq (es ! i) = int i" if "i < length es" for i
    using c that unfolding contiguous_def
    by (metis length_append nth_append trans_less_add1)
  moreover have "evSeq (fs ! i) = int (length es + i)" if "i < length fs" for i
    using c that unfolding contiguous_def
    by (metis add_diff_cancel_left' length_append nat_add_left_cancel_less not_add_less1 nth_append)
  ultimately show "contiguous es \<and> (\<forall>i < length fs. evSeq (fs ! i) = int (length es + i))"
    by (simp add: contiguous_def)
qed (auto simp: contiguous_def nth_append)

lemma contiguous_snoc: "contiguous (es @ [e]) \<longleftrightarrow> contiguous es \<and> evSeq e = int (length es)"
  by (simp add: contiguous_append)

lemma contiguous_prefix: "contiguous (es @ fs) \<Longrightarrow> contiguous es"
  by (simp add: contiguous_append)

lemma empty_surface_ok [simp]: "surface_ok empty_surface []"
  by (simp add: surface_ok_def empty_surface_def replacements_def)

lemma replacements_le: "replacements es \<le> length es"
  by (simp add: replacements_def)

lemma surface_ok_mono:
  "surface_ok v es \<Longrightarrow> replacements fs = 0 \<Longrightarrow> surface_ok v (es @ fs)"
  by (auto simp: surface_ok_def replacements_def nth_append)

lemma planSurface_ok:
  assumes ok: "surface_ok v es" and c: "contiguous (es @ [e])" and p: "planSurface v e es [] = Inr tr"
  shows "surface_ok (applySurface v tr) (es @ [e])"
proof -
  have seq: "evSeq e = int (length es)" using c by (simp add: contiguous_snoc)
  have fresh: "int (length es) \<notin> set (nodes v)" using ok by (force simp: surface_ok_def)
  from p show ?thesis
  proof (cases rule: planSurface_cases)
    case plain
    then show ?thesis using surface_ok_mono [OF ok] by (simp add: replacements_def is_replacement_def)
  next
    case (append sop)
    then have "replacements (es @ [e]) = replacements es"
      by (simp add: replacements_def is_replacement_def)
    with append seq fresh ok show ?thesis
      by (auto simp: surface_ok_def applySurface_def no_transition_def nth_append)
  next
    case (replace sop i j)
    then have "replacements (es @ [e]) = Suc (replacements es)"
      by (simp add: replacements_def is_replacement_def)
    moreover have "nodes (applySurface v tr) = take i (nodes v) @ int (length es) # drop (j + 1) (nodes v)"
      "replaceGeneration (applySurface v tr) = replaceGeneration v + 1"
      using replace seq by (simp_all add: applySurface_def nat_add_distrib)
    moreover have "distinct (take i (nodes v) @ int (length es) # drop (j + 1) (nodes v))"
      using ok fresh \<open>i \<le> j\<close> set_take_disj_set_drop_if_distinct [of "nodes v" i "j + 1"]
      by (auto simp: surface_ok_def dest: in_set_takeD in_set_dropD)
    moreover have "set (take i (nodes v) @ int (length es) # drop (j + 1) (nodes v)) \<subseteq>
        insert (int (length es)) (set (nodes v))"
      by (auto dest: in_set_takeD in_set_dropD)
    ultimately show ?thesis using ok replace(1)
      by (fastforce simp: surface_ok_def nth_append)
  qed
qed

lemma extend_ok:
  "extend_surface v es fs = Inr w \<Longrightarrow> surface_ok v es \<Longrightarrow> contiguous (es @ fs) \<Longrightarrow> surface_ok w (es @ fs)"
proof (induction fs arbitrary: v es)
  case (Cons f fs)
  then obtain tr where tr: "planSurface v f es [] = Inr tr"
    "extend_surface (applySurface v tr) (es @ [f]) fs = Inr w" by (auto simp: res_iff)
  have "contiguous (es @ [f])" using contiguous_prefix [of "es @ [f]" fs] Cons.prems(3) by simp
  from planSurface_ok [OF Cons.prems(2) this tr(1)] Cons.IH [OF tr(2)] Cons.prems(3)
  show ?case by simp
qed simp

text \<open>With no replacement among them, events only append nodes.\<close>

lemma extend_appends:
  "extend_surface v es fs = Inr w \<Longrightarrow> replacements fs = 0 \<Longrightarrow>
   \<exists>ns. nodes w = nodes v @ ns \<and> replaceGeneration w = replaceGeneration v"
proof (induction fs arbitrary: v es)
  case (Cons f fs)
  then obtain tr where tr: "planSurface v f es [] = Inr tr"
    "extend_surface (applySurface v tr) (es @ [f]) fs = Inr w" by (auto simp: res_iff)
  have nr: "\<not> is_replacement f" "replacements fs = 0"
    using Cons.prems(2) by (auto simp: replacements_def split: if_splits)
  from tr(1) have "\<exists>ms. nodes (applySurface v tr) = nodes v @ ms \<and>
      replaceGeneration (applySurface v tr) = replaceGeneration v"
    using nr(1) by (cases rule: planSurface_cases)
      (auto simp: applySurface_def no_transition_def is_replacement_def)
  with Cons.IH [OF tr(2) nr(2)] show ?case by fastforce
qed simp

end
