(* ===== verification/SessionLog.thy ===== *)
theory SessionLog
  imports SessionSurface
begin

text \<open>
  The append-only session log (\<open>src/session/log.go\<close>, \<open>log_commit.go\<close>, \<open>write.go\<close>): its
  construction from a seed, the atomic batch, \<open>Commit\<close> with its write plans and the
  replay of an earlier commit, snapshots and the cached projection to messages.

  A log is a record that every operation returns updated.  The time source is a
  function from the position of a draft in its batch to the clock reading, and a
  context gives the cause of its cancellation at each of the checks the code makes.
\<close>

section \<open>State\<close>

record log =
  logHeader :: header
  firstLiveSeq :: int
  entries :: "event list"
  view :: surface_state
  derived :: "message list"
  derivedNodes :: nat
  derivedGeneration :: "64 word"

definition new_log :: "header \<Rightarrow> log" where
  "new_log h = \<lparr>logHeader = h, firstLiveSeq = 0, entries = [], view = empty_surface,
     derived = [], derivedNodes = 0, derivedGeneration = 0\<rparr>"

definition LogSeq :: "log \<Rightarrow> int" where
  "LogSeq l = int (length (entries l))"

definition Barrier :: "log \<Rightarrow> write_barrier" where
  "Barrier l = \<lparr>barrierSession = headerID (logHeader l), barrierNext = int (length (entries l))\<rparr>"

definition Snapshot :: "log \<Rightarrow> snapshot" where
  "Snapshot l = \<lparr>snapEvents = entries l, snapSurface = view l, snapBarrier = Barrier l\<rparr>"

section \<open>The atomic batch\<close>

definition draft_event :: "event_draft \<Rightarrow> int \<Rightarrow> int \<Rightarrow> event" where
  "draft_event d seq t =
     \<lparr>evType = draftType d, evSeq = seq, evTime = t, evData = draftData d,
      evSources = draftSources d, evSurfaceOp = draftSurfaceOp d, evIgnorable = draftIgnorable d\<rparr>"

text \<open>
  The loop of \<open>commitBatch\<close>.  With at most one surface draft the log's own view is the
  planning view throughout and the one transition is kept for the end; with more, every
  transition is applied to a copy.
\<close>

fun commit_loop ::
  "(nat \<Rightarrow> int) \<Rightarrow> event list \<Rightarrow> bool \<Rightarrow> surface_state \<Rightarrow> surface_transition \<Rightarrow> event list \<Rightarrow>
   event_draft list \<Rightarrow> (surface_state \<times> surface_transition \<times> event list) res" where
  "commit_loop clock history multi planned single committed [] = Inr (planned, single, committed)"
| "commit_loop clock history multi planned single committed (d # ds) =
     bindE (wrapE (\<lambda>e. Errorf ''session: invalid EventDraft at index %d: %w''
                         [AInt (int (length committed)), AErr e])
              (validateEventDraft d)) (\<lambda>_.
     let candidate = draft_event d (int (length history + length committed)) (clock (length committed)) in
     bindE (failIf (\<not> isSafeNonNegative (evSeq candidate) \<or> \<not> isSafeInteger (evTime candidate))
              (err ''session: seq and time must be safe integers'')) (\<lambda>_.
     bindE (planSurface planned candidate history committed) (\<lambda>transition.
     if multi then
       commit_loop clock history multi (applySurface planned transition) single (committed @ [candidate]) ds
     else
       commit_loop clock history multi planned
         (if 0 \<le> appendNode transition then transition else single) (committed @ [candidate]) ds)))"

definition surface_drafts :: "event_draft list \<Rightarrow> nat" where
  "surface_drafts ds = length (filter (\<lambda>d. draftType d \<in> set surfaceEventTypes) ds)"

definition commitBatch :: "(nat \<Rightarrow> int) \<Rightarrow> log \<Rightarrow> event_draft list \<Rightarrow> (log \<times> event list) res" where
  "commitBatch clock l ds =
     (let multi = surface_drafts ds > 1 in
      bindE (commit_loop clock (entries l) multi (view l) no_transition [] ds) (\<lambda>(planned, single, committed).
      Inr (l\<lparr>entries := entries l @ committed,
             view := (if multi then planned else applySurface (view l) single)\<rparr>, committed)))"

section \<open>Construction\<close>

definition EndSeedEventName :: string where
  "EndSeedEventName = ''session/end-seed''"

definition validateSeedEvent :: "event \<Rightarrow> int \<Rightarrow> unit res" where
  "validateSeedEvent candidate expectedSeq =
     bindE (failIf (evSeq candidate \<noteq> expectedSeq)
              (Errorf ''seq %d is not contiguous; expected %d'' [AInt (evSeq candidate), AInt expectedSeq])) (\<lambda>_.
     bindE (failIf (\<not> isSafeNonNegative (evSeq candidate) \<or> \<not> isSafeInteger (evTime candidate))
              (err ''seq and time must be safe integers'')) (\<lambda>_.
     bindE (failIf (evData candidate = Absent) (err ''data is absent'')) (\<lambda>_.
     bindE (wrapE (\<lambda>e. Errorf ''data is not lossless JSON: %w'' [AErr e]) (Validate (evData candidate))) (\<lambda>_.
     case evSurfaceOp candidate of
       None \<Rightarrow> Inr ()
     | Some sop \<Rightarrow> bindE (surface_op_json sop) (\<lambda>_. Inr ())))))"

definition seed_error :: "nat \<Rightarrow> goerr \<Rightarrow> goerr" where
  "seed_error i e = Errorf ''session: invalid seed event at index %d: %w'' [AInt (int i), AErr e]"

text \<open>A run time panic in the loop is not an error value and is not wrapped.\<close>

definition wrap_seed :: "nat \<Rightarrow> goerr \<Rightarrow> goerr" where
  "wrap_seed i e = (case e of Panicked p \<Rightarrow> e | _ \<Rightarrow> seed_error i e)"

fun seed_loop :: "nat \<Rightarrow> log \<Rightarrow> event list \<Rightarrow> log res" where
  "seed_loop i l [] = Inr l"
| "seed_loop i l (candidate # rest) =
     bindE (wrapE (wrap_seed i) (validateSeedEvent candidate (int i))) (\<lambda>_.
     bindE (wrapE (wrap_seed i) (planSurface (view l) candidate (entries l) [])) (\<lambda>transition.
     seed_loop (Suc i)
       (l\<lparr>entries := entries l @ [candidate], view := applySurface (view l) transition\<rparr>) rest))"

definition end_seed_draft :: "raw \<Rightarrow> event_draft" where
  "end_seed_draft r = \<lparr>draftType = EndSeedEventName, draftData = r, draftSources = None,
     draftSurfaceOp = None, draftIgnorable = False\<rparr>"

definition newWithClock ::
  "string \<Rightarrow> metadata \<Rightarrow> event list option \<Rightarrow> int \<Rightarrow> (nat \<Rightarrow> int) \<Rightarrow> log res" where
  "newWithClock identifier md seed now clock =
     bindE (buildHeader identifier md now) (\<lambda>h.
     bindE (seed_loop 0 (new_log h) (case seed of None \<Rightarrow> [] | Some es \<Rightarrow> es)) (\<lambda>l0.
     let l = l0\<lparr>firstLiveSeq := int (length (entries l0))\<rparr> in
     if seed \<noteq> None \<and> (entries l = [] \<or> evType (last (entries l)) \<noteq> EndSeedEventName) then
       bindE (snapshotPayload (Inr (JObj []))) (\<lambda>rawValue.
       bindE (commitBatch clock l [end_seed_draft rawValue]) (\<lambda>(l', committed). Inr l'))
     else Inr l))"

section \<open>Commit\<close>

datatype go_context = NilContext | Context "nat \<Rightarrow> goerr option"

fun contextCause :: "go_context \<Rightarrow> nat \<Rightarrow> unit res" where
  "contextCause NilContext i = Inl (err ''session: Context is nil'')"
| "contextCause (Context cause) i = (case cause i of None \<Rightarrow> Inr () | Some e \<Rightarrow> Inl e)"

text \<open>
  A write plan is absent, a fixed batch, a plain builder, or a builder that can also
  find an earlier commit of the same business identity.
\<close>

datatype write_plan =
    NilPlan
  | Fixed "event_draft list"
  | Plain "snapshot \<Rightarrow> event_draft list res"
  | Idempotent "snapshot \<Rightarrow> event_draft list res" "snapshot \<Rightarrow> write_result option res"

definition Batch :: "event_draft list \<Rightarrow> write_plan" where
  "Batch drafts = Fixed drafts"

definition fixed_build :: "event_draft list \<Rightarrow> event_draft list res" where
  "fixed_build drafts =
     (if drafts = [] then Inl (err ''session: Batch requires at least one EventDraft'') else Inr drafts)"

definition prepareEventDrafts :: "event_draft list \<Rightarrow> event_draft list res" where
  "prepareEventDrafts drafts =
     imapE (\<lambda>i d. bindE (wrapE (\<lambda>e. Errorf ''session: invalid EventDraft at index %d: %w'' [AInt (int i), AErr e])
                            (validateEventDraft d)) (\<lambda>_. Inr d)) 0 drafts"

definition replayCommit :: "log \<Rightarrow> write_result \<Rightarrow> write_result res" where
  "replayCommit l previous =
     bindE (failIf (barrierSession (resultBarrier previous) \<noteq> headerID (logHeader l) \<or>
                    firstSeq previous < 0 \<or> nextSeq previous \<le> firstSeq previous \<or>
                    nextSeq previous > LogSeq l \<or>
                    barrierNext (resultBarrier previous) \<noteq> nextSeq previous \<or>
                    int (length (resultEvents previous)) \<noteq> nextSeq previous - firstSeq previous)
              (err ''session: invalid replayed commit range'')) (\<lambda>_.
     bindE (imapE (\<lambda>i entry.
              let stored = entries l ! nat (firstSeq previous + int i) in
              if entry \<noteq> stored then Inl (err ''session: replayed event differs from committed log'')
              else Inr stored) 0 (resultEvents previous)) (\<lambda>copied.
     Inr (previous\<lparr>resultEvents := copied\<rparr>)))"

text \<open>
  The body of \<open>Commit\<close>: the log after it, the committed events and the replayed result.
  The deferred function then forms the result and turns a panic into an error.
\<close>

definition commit_drafts ::
  "(nat \<Rightarrow> int) \<Rightarrow> go_context \<Rightarrow> log \<Rightarrow> event_draft list res \<Rightarrow> (log \<times> event list \<times> write_result option) res" where
  "commit_drafts clock ctx l built =
     bindE built (\<lambda>drafts.
     bindE (prepareEventDrafts drafts) (\<lambda>prepared.
     bindE (contextCause ctx 1) (\<lambda>_.
     if prepared \<noteq> [] then
       bindE (commitBatch clock l prepared) (\<lambda>(l', committed). Inr (l', committed, None))
     else Inr (l, [], None))))"

definition commit_body ::
  "(nat \<Rightarrow> int) \<Rightarrow> go_context \<Rightarrow> write_plan \<Rightarrow> log \<Rightarrow> (log \<times> event list \<times> write_result option) res" where
  "commit_body clock ctx plan l =
     bindE (contextCause ctx 0) (\<lambda>_.
     case plan of
       NilPlan \<Rightarrow> Inl (err ''session: WritePlan is nil'')
     | Fixed drafts \<Rightarrow> commit_drafts clock ctx l (fixed_build drafts)
     | Plain build \<Rightarrow> commit_drafts clock ctx l (build (Snapshot l))
     | Idempotent build findCommit \<Rightarrow>
         bindE (findCommit (Snapshot l)) (\<lambda>previous. case previous of
           Some prev \<Rightarrow>
             bindE (contextCause ctx 1) (\<lambda>_.
             bindE (replayCommit l prev) (\<lambda>r. Inr (l, [], Some r)))
         | None \<Rightarrow> commit_drafts clock ctx l (build (Snapshot l))))"

definition commit_result :: "log \<Rightarrow> log \<Rightarrow> event list \<Rightarrow> write_result" where
  "commit_result l l' committed =
     \<lparr>firstSeq = LogSeq l, nextSeq = barrierNext (Barrier l'), resultBarrier = Barrier l',
      resultEvents = committed\<rparr>"

definition recovered :: "goerr \<Rightarrow> goerr" where
  "recovered e = (case e of Panicked p \<Rightarrow> Errorf ''session: WritePlan panicked: %v'' [AStr p] | _ \<Rightarrow> e)"

definition Commit ::
  "(nat \<Rightarrow> int) \<Rightarrow> go_context \<Rightarrow> write_plan \<Rightarrow> log \<Rightarrow> log \<times> write_result \<times> goerr option" where
  "Commit clock ctx plan l =
     (case commit_body clock ctx plan l of
        Inl e \<Rightarrow> (l, commit_result l l [], Some (recovered e))
      | Inr (l', committed, Some r) \<Rightarrow> (l', r, None)
      | Inr (l', committed, None) \<Rightarrow> (l', commit_result l l' committed, None))"

section \<open>The message history\<close>

text \<open>
  The loop of \<open>DeriveMessages\<close> over the nodes not yet converted: the cache and the count
  it leaves, and its error.
\<close>

fun derive_loop :: "event list \<Rightarrow> int list \<Rightarrow> message list \<Rightarrow> nat \<Rightarrow> message list \<times> nat \<times> unit res" where
  "derive_loop es [] ms count = (ms, count, Inr ())"
| "derive_loop es (sequence # rest) ms count =
     (if sequence < 0 \<or> sequence \<ge> int (length es) then
        (ms, count, Inl (Errorf ''session: surface node %d is outside the event log'' [AInt sequence]))
      else case decodeDerivedMessage (es ! nat sequence) of
        Inl e \<Rightarrow> (ms, count, Inl (Errorf ''session: derive surface seq %d: %w'' [AInt sequence, AErr e]))
      | Inr None \<Rightarrow> derive_loop es rest ms (Suc count)
      | Inr (Some m) \<Rightarrow> derive_loop es rest (ms @ [m]) (Suc count))"

definition DeriveMessages :: "log \<Rightarrow> log \<times> message list res" where
  "DeriveMessages l0 =
     (let l = (if derivedGeneration l0 \<noteq> replaceGeneration (view l0)
               then l0\<lparr>derived := [], derivedNodes := 0, derivedGeneration := replaceGeneration (view l0)\<rparr>
               else l0);
          (ms, count, outcome) = derive_loop (entries l) (drop (derivedNodes l) (nodes (view l)))
                                   (derived l) (derivedNodes l) in
      (l\<lparr>derived := ms, derivedNodes := count\<rparr>, bindE outcome (\<lambda>_. CloneMessages ms)))"

end
