(* ===== verification/SessionLogLaws.thy ===== *)
theory SessionLogLaws
  imports SessionLog
begin

text \<open>
  What makes the session log correct: the batch optimised for one surface change against
  the one that applies every transition, the events a batch commits, atomicity and the
  invariant of the log over its construction, \<open>Commit\<close> and \<open>DeriveMessages\<close>, the
  coherence of the message cache, and the law of idempotent write plans.
\<close>

section \<open>The batch\<close>

fun batch_events :: "(nat \<Rightarrow> int) \<Rightarrow> nat \<Rightarrow> nat \<Rightarrow> event_draft list \<Rightarrow> event list" where
  "batch_events clock base i [] = []"
| "batch_events clock base i (d # ds) =
     draft_event d (int (base + i)) (clock i) # batch_events clock base (Suc i) ds"

lemma length_batch_events [simp]: "length (batch_events clock base i ds) = length ds"
  by (induction ds arbitrary: i) auto

lemma batch_events_nth:
  "k < length ds \<Longrightarrow>
   batch_events clock base i ds ! k = draft_event (ds ! k) (int (base + i + k)) (clock (i + k))"
proof (induction ds arbitrary: i k)
  case (Cons d ds)
  then show ?case by (cases k) (auto simp: algebra_simps)
qed simp

lemma batch_events_contiguous: "contiguous es \<Longrightarrow> contiguous (es @ batch_events clock (length es) 0 ds)"
  by (simp add: contiguous_append batch_events_nth draft_event_def)

text \<open>The plan of an event off the surface does not look at the surface.\<close>

lemma planSurface_off:
  "evType e \<notin> set surfaceEventTypes \<Longrightarrow> planSurface v e es ps = planSurface w e es ps"
  by (simp add: planSurface_def)

lemma planSurface_node:
  "planSurface v e es ps = Inr tr \<Longrightarrow> evType e \<in> set surfaceEventTypes \<Longrightarrow> appendNode tr = evSeq e"
  by (erule planSurface_cases) (simp_all add: no_transition_def)

definition loop_view :: "surface_state \<times> surface_transition \<times> event list \<Rightarrow> surface_state \<times> event list" where
  "loop_view = (\<lambda>(p, s, c). (p, c))"

definition loop_single ::
  "surface_state \<Rightarrow> surface_state \<times> surface_transition \<times> event list \<Rightarrow> surface_state \<times> event list" where
  "loop_single v = (\<lambda>(p, s, c). (applySurface v s, c))"

lemma commit_loop_single:
  "(surface_drafts ds = 0 \<and> w = applySurface v s) \<or> (surface_drafts ds \<le> 1 \<and> s = no_transition \<and> w = v) \<Longrightarrow>
   bindE (commit_loop clock es False v s c ds) (\<lambda>r. Inr (loop_single v r)) =
   bindE (commit_loop clock es True w t c ds) (\<lambda>r. Inr (loop_view r))"
proof (induction ds arbitrary: w s c)
  case Nil
  then show ?case by (auto simp: loop_view_def loop_single_def)
next
  case (Cons d ds)
  define e where "e = draft_event d (int (length es + length c)) (clock (length c))"
  have ty: "evType e = draftType d" "0 \<le> evSeq e" by (simp_all add: e_def draft_event_def)
  show ?case
  proof (cases "draftType d \<in> set surfaceEventTypes")
    case True
    then have sd: "surface_drafts ds = 0" "s = no_transition" "w = v"
      using Cons.prems by (auto simp: surface_drafts_def)
    have step: "bindE (commit_loop clock es False v (if 0 \<le> appendNode tr then tr else s) (c @ [e]) ds)
          (\<lambda>r. Inr (loop_single v r)) =
        bindE (commit_loop clock es True (applySurface v tr) t (c @ [e]) ds) (\<lambda>r. Inr (loop_view r))"
      if "planSurface v e es c = Inr tr" for tr
    proof (rule Cons.IH)
      have "0 \<le> appendNode tr" using planSurface_node [OF that] True ty by simp
      with sd show "surface_drafts ds = 0 \<and>
          applySurface v tr = applySurface v (if 0 \<le> appendNode tr then tr else s) \<or>
        surface_drafts ds \<le> 1 \<and> (if 0 \<le> appendNode tr then tr else s) = no_transition \<and>
          applySurface v tr = v" by simp
    qed
    show ?thesis
      by (simp only: commit_loop.simps Let_def bindE_assoc sd(3) if_True if_False flip: e_def)
        (intro bindE_cong refl step)
  next
    case False
    have step: "bindE (commit_loop clock es False v (if 0 \<le> appendNode tr then tr else s) (c @ [e]) ds)
          (\<lambda>r. Inr (loop_single v r)) =
        bindE (commit_loop clock es True (applySurface w tr) t (c @ [e]) ds) (\<lambda>r. Inr (loop_view r))"
      if "planSurface w e es c = Inr tr" for tr
    proof (rule Cons.IH)
      have "tr = no_transition"
        using that False ty planSurface_plain by metis
      with False Cons.prems show "surface_drafts ds = 0 \<and>
          applySurface w tr = applySurface v (if 0 \<le> appendNode tr then tr else s) \<or>
        surface_drafts ds \<le> 1 \<and> (if 0 \<le> appendNode tr then tr else s) = no_transition \<and>
          applySurface w tr = v" by (auto simp: surface_drafts_def no_transition_def applySurface_def)
    qed
    have off: "planSurface v e es c = planSurface w e es c"
      using False ty(1) by (intro planSurface_off) simp
    show ?thesis
      by (simp only: commit_loop.simps Let_def bindE_assoc off if_True if_False flip: e_def)
        (intro bindE_cong refl step)
  qed
qed

lemma commit_loop_multi:
  "commit_loop clock es True v s c ds = Inr (p, s', c') \<longleftrightarrow>
   (let evs = batch_events clock (length es) (length c) ds in
    s' = s \<and> c' = c @ evs \<and> list_all2 (\<lambda>d e. ValidateEvent d e = Inr ()) ds evs \<and>
    extend_surface v (es @ c) evs = Inr p)"
proof (induction ds arbitrary: v c)
  case Nil
  then show ?case by (auto simp: Let_def)
next
  case (Cons d ds)
  show ?case
    by (auto simp: Cons.IH res_iff Let_def ValidateEvent_Inr draft_event_def isOk_iff
        planSurface_merge [of v _ es c])
qed

lemma commitBatch_reference:
  "commitBatch clock l ds =
   bindE (commit_loop clock (entries l) True (view l) no_transition [] ds) (\<lambda>(p, s, committed).
   Inr (l\<lparr>entries := entries l @ committed, view := p\<rparr>, committed))"
proof (cases "surface_drafts ds > 1")
  case True
  then show ?thesis by (simp add: commitBatch_def)
next
  case False
  let ?f = "\<lambda>(p, committed). Inr (l\<lparr>entries := entries l @ committed, view := p\<rparr>, committed)"
  have "bindE (bindE (commit_loop clock (entries l) False (view l) no_transition [] ds)
          (\<lambda>r. Inr (loop_single (view l) r))) ?f =
        bindE (bindE (commit_loop clock (entries l) True (view l) no_transition [] ds)
          (\<lambda>r. Inr (loop_view r))) ?f"
    using commit_loop_single [of ds "view l" "view l" no_transition clock "entries l" "[]" no_transition] False
    by simp
  with False show ?thesis
    by (simp add: commitBatch_def bindE_assoc loop_single_def loop_view_def split_def)
qed

lemma commitBatch_Inr:
  "commitBatch clock l ds = Inr (l', evs) \<longleftrightarrow>
   evs = batch_events clock (length (entries l)) 0 ds \<and>
   list_all2 (\<lambda>d e. ValidateEvent d e = Inr ()) ds evs \<and>
   (\<exists>v. extend_surface (view l) (entries l) evs = Inr v \<and>
        l' = l\<lparr>entries := entries l @ evs, view := v\<rparr>)"
  by (auto simp: commitBatch_reference res_iff commit_loop_multi Let_def)

section \<open>The invariant of the log\<close>

definition event_ok :: "event \<Rightarrow> bool" where
  "event_ok e = (isSafeNonNegative (evSeq e) \<and> isSafeInteger (evTime e) \<and> Validate (evData e) = Inr ())"

definition log_ok :: "log \<Rightarrow> bool" where
  "log_ok l =
     (contiguous (entries l) \<and> list_all event_ok (entries l) \<and>
      extend_surface empty_surface [] (entries l) = Inr (view l) \<and>
      0 \<le> firstLiveSeq l \<and> firstLiveSeq l \<le> LogSeq l)"

lemma event_ok_present: "event_ok e \<Longrightarrow> evData e \<noteq> Absent"
  by (auto simp: event_ok_def)

lemma new_log_ok [simp]: "log_ok (new_log h)"
  by (simp add: log_ok_def new_log_def LogSeq_def)

lemma ValidateEvent_ok: "ValidateEvent d e = Inr () \<Longrightarrow> event_ok e"
  by (auto simp: ValidateEvent_Inr event_ok_def isOk_iff validateEventDraft_def res_iff)

lemma list_all2_event_ok:
  "list_all2 (\<lambda>d e. ValidateEvent d e = Inr ()) ds es \<Longrightarrow> list_all event_ok es"
  by (induction rule: list_all2_induct) (auto intro: ValidateEvent_ok)

lemma commitBatch_ok:
  assumes "log_ok l" "commitBatch clock l ds = Inr (l', evs)"
  shows "log_ok l'"
proof -
  from assms(2) obtain v where
    e: "evs = batch_events clock (length (entries l)) 0 ds" "extend_surface (view l) (entries l) evs = Inr v"
      "l' = l\<lparr>entries := entries l @ evs, view := v\<rparr>" and
    v: "list_all2 (\<lambda>d e. ValidateEvent d e = Inr ()) ds evs"
    unfolding commitBatch_Inr by blast
  have "contiguous (entries l @ evs)"
    using assms(1) unfolding e(1) log_ok_def by (intro batch_events_contiguous) simp
  with e(2,3) list_all2_event_ok [OF v] assms(1) show ?thesis
    by (simp add: log_ok_def extend_append LogSeq_def)
qed

lemma log_ok_surface: "log_ok l \<Longrightarrow> surface_ok (view l) (entries l)"
  using extend_ok [of empty_surface "[]" "entries l" "view l"] by (simp add: log_ok_def)

lemma log_ok_length: "log_ok l \<Longrightarrow> length (entries l) \<le> 2 ^ 53"
proof (cases "entries l" rule: rev_cases)
  case (snoc es e)
  assume "log_ok l"
  with snoc have "evSeq e = int (length es) \<and> isSafeNonNegative (evSeq e)"
    by (auto simp: log_ok_def contiguous_snoc event_ok_def)
  with snoc show ?thesis by (simp add: isSafeNonNegative_def maxSafeInteger_def)
qed simp

lemma log_ok_generation:
  "log_ok l \<Longrightarrow> unat (replaceGeneration (view l)) = replacements (entries l)"
  using log_ok_surface [of l] log_ok_length [of l] replacements_le [of "entries l"]
  by (simp add: surface_ok_def unat_of_nat take_bit_nat_eq_self_iff)

section \<open>Commit\<close>

lemma prepareEventDrafts_Inr: "prepareEventDrafts ds = Inr ps \<Longrightarrow> ps = ds"
proof -
  assume p: "prepareEventDrafts ds = Inr ps"
  have "ps ! k = ds ! k" if "k < length ds" for k
    using imapE_nth [OF p [unfolded prepareEventDrafts_def] that] by (auto simp: res_iff)
  with imapE_length [OF p [unfolded prepareEventDrafts_def]] show ?thesis
    by (intro nth_equalityI) auto
qed

text \<open>The drafts a plan builds for the log.\<close>

fun plan_drafts :: "write_plan \<Rightarrow> log \<Rightarrow> event_draft list res" where
  "plan_drafts NilPlan l = Inl (err ''session: WritePlan is nil'')"
| "plan_drafts (Fixed ds) l = fixed_build ds"
| "plan_drafts (Plain build) l = build (Snapshot l)"
| "plan_drafts (Idempotent build findCommit) l = build (Snapshot l)"

fun plan_finds :: "write_plan \<Rightarrow> log \<Rightarrow> write_result option res" where
  "plan_finds (Idempotent build findCommit) l = findCommit (Snapshot l)"
| "plan_finds _ l = Inr None"

lemma commit_drafts_Inr:
  "commit_drafts clock ctx l built = Inr (l', committed, replay) \<Longrightarrow>
   replay = None \<and> (\<exists>ds. built = Inr ds \<and>
     (if ds = [] then l' = l \<and> committed = [] else commitBatch clock l ds = Inr (l', committed)))"
  by (auto simp: commit_drafts_def res_iff dest!: prepareEventDrafts_Inr split: if_splits)

lemma commit_drafts_fail: "commit_drafts clock ctx l (Inl e) = Inl e"
  by (simp add: commit_drafts_def)

lemma commit_body_plan:
  "commit_body clock ctx plan l =
   bindE (contextCause ctx 0) (\<lambda>_.
   bindE (plan_finds plan l) (\<lambda>previous. case previous of
     Some prev \<Rightarrow> bindE (contextCause ctx 1) (\<lambda>_. bindE (replayCommit l prev) (\<lambda>r. Inr (l, [], Some r)))
   | None \<Rightarrow> commit_drafts clock ctx l (plan_drafts plan l)))"
  by (cases plan) (simp_all add: commit_body_def commit_drafts_fail cong: option.case_cong)

text \<open>What a call of \<open>Commit\<close> does: an error, a replay, or the plan's drafts committed.\<close>

lemma Commit_cases:
  assumes "Commit clock ctx plan l = (l', r, failure)"
  obtains
    (failed) e where "failure = Some e" "l' = l" "r = commit_result l l []"
  | (replayed) prev where "failure = None" "l' = l" "plan_finds plan l = Inr (Some prev)"
      "replayCommit l prev = Inr r"
  | (empty) "failure = None" "l' = l" "plan_finds plan l = Inr None" "plan_drafts plan l = Inr []"
      "r = commit_result l l []"
  | (written) ds evs where "failure = None" "plan_finds plan l = Inr None" "plan_drafts plan l = Inr ds"
      "ds \<noteq> []" "commitBatch clock l ds = Inr (l', evs)" "r = commit_result l l' evs"
proof (cases "commit_body clock ctx plan l")
  case (Inl e)
  with assms failed [of "recovered e"] show ?thesis by (auto simp: Commit_def)
next
  case (Inr x)
  obtain l1 evs replay where x: "x = (l1, evs, replay)" by (cases x)
  have r: "failure = None" "l' = l1"
    "r = (case replay of Some r \<Rightarrow> r | None \<Rightarrow> commit_result l l1 evs)"
    using assms Inr x by (auto simp: Commit_def split: option.splits)
  from Inr x consider
      (find) prev where "plan_finds plan l = Inr (Some prev)" "l1 = l"
        "\<exists>q. replayCommit l prev = Inr q \<and> replay = Some q"
    | (drafts) "plan_finds plan l = Inr None"
        "commit_drafts clock ctx l (plan_drafts plan l) = Inr (l1, evs, replay)"
  proof -
    from Inr x obtain p where p: "plan_finds plan l = Inr p"
      "(case p of Some prev \<Rightarrow> bindE (contextCause ctx 1) (\<lambda>_. bindE (replayCommit l prev) (\<lambda>r. Inr (l, [], Some r)))
        | None \<Rightarrow> commit_drafts clock ctx l (plan_drafts plan l)) = Inr (l1, evs, replay)"
      unfolding commit_body_plan bindE_Inr_iff by blast
    then show thesis using that by (cases p) (auto simp: bindE_Inr_iff)
  qed
  then show ?thesis
  proof cases
    case find
    with r replayed show ?thesis by auto
  next
    case drafts
    from commit_drafts_Inr [OF drafts(2)] obtain ds where ds: "replay = None" "plan_drafts plan l = Inr ds"
      "if ds = [] then l1 = l \<and> evs = [] else commitBatch clock l ds = Inr (l1, evs)" by auto
    with r drafts(1) empty written [of ds evs] show ?thesis by (cases "ds = []") auto
  qed
qed

lemma Commit_ok: "log_ok l \<Longrightarrow> Commit clock ctx plan l = (l', r, failure) \<Longrightarrow> log_ok l'"
  by (erule Commit_cases) (auto dest: commitBatch_ok)

lemma replay_own:
  assumes "commitBatch clock l ds = Inr (l', evs)" "ds \<noteq> []"
  shows "replayCommit l' (commit_result l l' evs) = Inr (commit_result l l' evs)"
proof -
  from assms(1) obtain v where l': "l' = l\<lparr>entries := entries l @ evs, view := v\<rparr>"
    and evs: "evs = batch_events clock (length (entries l)) 0 ds"
    unfolding commitBatch_Inr by blast
  have ne: "0 < length evs" using evs assms(2) by simp
  have *: "imapE (\<lambda>i entry. let stored = entries l' ! nat (LogSeq l + int i) in
        if entry \<noteq> stored then Inl (err ''session: replayed event differs from committed log'')
        else Inr stored) 0 evs = Inr evs"
  proof -
    have nth: "entries l' ! nat (LogSeq l + int i) = evs ! i" if "i < length evs" for i
      using that by (simp add: l' LogSeq_def nat_add_distrib nth_append)
    have "imapE (\<lambda>i entry. let stored = entries l' ! nat (LogSeq l + int i) in
        if entry \<noteq> stored then Inl (err ''session: replayed event differs from committed log'')
        else Inr stored) k (drop k evs) = Inr (drop k evs)" if "k \<le> length evs" for k
      using that
    proof (induction "length evs - k" arbitrary: k)
      case 0
      then show ?case by simp
    next
      case (Suc n)
      then have k: "k < length evs" "n = length evs - Suc k" "Suc k \<le> length evs" by simp_all
      from Suc.hyps(1) [OF k(2,3)] nth [OF k(1)] show ?case
        by (simp add: Cons_nth_drop_Suc [OF k(1), symmetric])
    qed
    from this [of 0] show ?thesis by simp
  qed
  show ?thesis
    using ne * by (simp add: replayCommit_def commit_result_def Barrier_def LogSeq_def l')
qed

section \<open>Construction\<close>

lemma seed_loop_ok:
  "seed_loop i l es = Inr l' \<Longrightarrow> log_ok l \<Longrightarrow> i = length (entries l) \<Longrightarrow>
   log_ok l' \<and> entries l' = entries l @ es \<and> logHeader l' = logHeader l \<and> derivedNodes l' = derivedNodes l \<and>
   derived l' = derived l \<and> derivedGeneration l' = derivedGeneration l"
proof (induction es arbitrary: i l)
  case (Cons e es)
  then obtain tr where tr: "validateSeedEvent e (int i) = Inr ()"
    "planSurface (view l) e (entries l) [] = Inr tr"
    "seed_loop (Suc i) (l\<lparr>entries := entries l @ [e], view := applySurface (view l) tr\<rparr>) es = Inr l'"
    by (auto simp: res_iff)
  have "evSeq e = int (length (entries l))" "event_ok e"
    using tr(1) Cons.prems(3) by (auto simp: validateSeedEvent_def event_ok_def res_iff)
  then have "log_ok (l\<lparr>entries := entries l @ [e], view := applySurface (view l) tr\<rparr>)"
    using Cons.prems(2) tr(2) by (auto simp: log_ok_def contiguous_snoc extend_append LogSeq_def)
  from Cons.IH [OF tr(3) this] Cons.prems(3) show ?case by simp
qed simp

lemma firstLiveSeq_ok:
  "log_ok l \<Longrightarrow> log_ok (l\<lparr>firstLiveSeq := int (length (entries l))\<rparr>)"
  by (simp add: log_ok_def LogSeq_def)

lemma newWithClock_cases:
  assumes "newWithClock identifier md seed now clock = Inr l"
  obtains h l0 where "buildHeader identifier md now = Inr h"
    "seed_loop 0 (new_log h) (case seed of None \<Rightarrow> [] | Some es \<Rightarrow> es) = Inr l0"
    "l = l0\<lparr>firstLiveSeq := int (length (entries l0))\<rparr> \<or>
     (\<exists>r evs. commitBatch clock (l0\<lparr>firstLiveSeq := int (length (entries l0))\<rparr>) [end_seed_draft r] = Inr (l, evs))"
  using assms by (auto simp: newWithClock_def res_iff Let_def split: if_splits)

lemma newWithClock_ok: "newWithClock identifier md seed now clock = Inr l \<Longrightarrow> log_ok l"
proof (erule newWithClock_cases)
  fix h and l0 :: log
  let ?l = "l0\<lparr>firstLiveSeq := int (length (entries l0))\<rparr>"
  assume "seed_loop 0 (new_log h) (case seed of None \<Rightarrow> [] | Some es \<Rightarrow> es) = Inr l0"
    and l: "l = ?l \<or> (\<exists>r evs. commitBatch clock ?l [end_seed_draft r] = Inr (l, evs))"
  then have "log_ok l0" using seed_loop_ok [OF _ new_log_ok, of 0 h] by (metis list.size(3) log.select_convs(3) new_log_def)
  from firstLiveSeq_ok [OF this] l commitBatch_ok [of ?l] show "log_ok l" by blast
qed

text \<open>The events of a log can be its seed again.\<close>

lemma planSurface_op_marshals:
  assumes "planSurface v e es [] = Inr tr" "surface_ok v es" "contiguous es"
    "list_all event_ok es" "evSurfaceOp e = Some sop"
  shows "isOk (surface_op_json sop)"
  using assms(1)
proof (cases rule: planSurface_cases)
  case (replace sop' i j)
  have "isSafeNonNegative (nodes v ! k)" if "k < length (nodes v)" for k
  proof -
    have n: "0 \<le> nodes v ! k" "nat (nodes v ! k) < length es"
      using assms(2) that by (auto simp: surface_ok_def)
    then have "evSeq (es ! nat (nodes v ! k)) = nodes v ! k"
      using assms(3) by (simp add: contiguous_def)
    moreover have "event_ok (es ! nat (nodes v ! k))"
      using n assms(4) by (simp add: list_all_length)
    ultimately show ?thesis by (simp add: event_ok_def)
  qed
  from this [of i] this [of j] replace(4-7) have
    "isSafeNonNegative (opStart sop')" "isSafeNonNegative (opEnd sop')" by simp_all
  moreover have "sop = sop'" using replace(2) assms(5) by simp
  ultimately show ?thesis using replace(3) by (simp add: surface_op_json_def)
qed (use assms(5) in \<open>auto simp: surface_op_json_def\<close>)

lemma seed_loop_accepts:
  "log_ok l \<Longrightarrow> i = length (entries l) \<Longrightarrow> contiguous (entries l @ es) \<Longrightarrow> list_all event_ok es \<Longrightarrow>
   extend_surface (view l) (entries l) es = Inr v \<Longrightarrow>
   \<exists>l'. seed_loop i l es = Inr l' \<and> view l' = v"
proof (induction es arbitrary: i l)
  case (Cons e es)
  then obtain tr where tr: "planSurface (view l) e (entries l) [] = Inr tr"
    "extend_surface (applySurface (view l) tr) (entries l @ [e]) es = Inr v" by (auto simp: res_iff)
  let ?l = "l\<lparr>entries := entries l @ [e], view := applySurface (view l) tr\<rparr>"
  have seq: "evSeq e = int i" "event_ok e"
    using Cons.prems(2,3,4) contiguous_prefix [of "entries l @ [e]" es] by (auto simp: contiguous_snoc)
  have "isOk (surface_op_json sop)" if "evSurfaceOp e = Some sop" for sop
    using planSurface_op_marshals [OF tr(1) log_ok_surface [OF Cons.prems(1)]] that Cons.prems(1)
    by (simp add: log_ok_def)
  then have valid: "validateSeedEvent e (int i) = Inr ()"
    using seq event_ok_present [OF seq(2)]
    by (auto simp: validateSeedEvent_def event_ok_def isOk_iff split: option.splits)
  have "log_ok ?l"
    using Cons.prems(1,2) tr(1) seq by (auto simp: log_ok_def contiguous_snoc extend_append LogSeq_def)
  from Cons.IH [OF this] Cons.prems(2,3,4) tr(2) obtain l' where
    "seed_loop (Suc i) ?l es = Inr l'" "view l' = v" by auto
  with valid tr(1) show ?case by simp
qed simp

end
