(* ===== verification/SessionHistory.thy ===== *)
theory SessionHistory
  imports SessionLogLaws
begin

text \<open>
  The message history of a session: what \<open>DeriveMessages\<close> returns without its cache, the
  coherence of the cache over commits and replacements, and the session reopened from
  its own events.
\<close>

section \<open>The projection without the cache\<close>

definition surface_message :: "event list \<Rightarrow> int \<Rightarrow> message option res" where
  "surface_message es sequence =
     (if sequence < 0 \<or> sequence \<ge> int (length es) then
        Inl (Errorf ''session: surface node %d is outside the event log'' [AInt sequence])
      else wrapE (\<lambda>e. Errorf ''session: derive surface seq %d: %w'' [AInt sequence, AErr e])
             (decodeDerivedMessage (es ! nat sequence)))"

fun surface_messages :: "event list \<Rightarrow> int list \<Rightarrow> message list res" where
  "surface_messages es [] = Inr []"
| "surface_messages es (n # ns) =
     bindE (surface_message es n) (\<lambda>m.
     bindE (surface_messages es ns) (\<lambda>ms. Inr (case m of None \<Rightarrow> ms | Some m \<Rightarrow> m # ms)))"

lemma surface_messages_append:
  "surface_messages es (ns @ ks) =
   bindE (surface_messages es ns) (\<lambda>ms. bindE (surface_messages es ks) (\<lambda>rest. Inr (ms @ rest)))"
proof (induction ns)
  case Nil
  then show ?case by (cases "surface_messages es ks") auto
next
  case (Cons n ns)
  then show ?case
    by (cases "surface_message es n"; cases "surface_messages es ns"; cases "surface_messages es ks")
      (auto split: option.splits)
qed

lemma derive_loop_spec:
  "derive_loop es ns ms count = (ms', count', r) \<Longrightarrow>
   (\<exists>done rest added. ns = done @ rest \<and> count' = count + length done \<and>
      surface_messages es done = Inr added \<and> ms' = ms @ added \<and>
      (case r of Inr u \<Rightarrow> rest = [] | Inl e \<Rightarrow> surface_messages es rest = Inl e))"
proof (induction ns arbitrary: ms count)
  case Nil
  then show ?case by auto
next
  case (Cons n ns)
  show ?case
  proof (cases "surface_message es n")
    case (Inl e)
    with Cons.prems have "ms' = ms" "count' = count" "r = Inl e"
      by (auto simp: surface_message_def split: if_splits sum.splits option.splits)
    with Inl show ?thesis by (intro exI [of _ "[]"] exI [of _ "n # ns"]) simp
  next
    case (Inr m)
    then have "derive_loop es ns (ms @ (case m of None \<Rightarrow> [] | Some x \<Rightarrow> [x])) (Suc count) = (ms', count', r)"
      using Cons.prems
      by (auto simp: surface_message_def wrapE_Inr_iff split: if_splits sum.splits option.splits)
    from Cons.IH [OF this] obtain dn rest added where
      "ns = dn @ rest" "count' = Suc count + length dn" "surface_messages es dn = Inr added"
      "ms' = (ms @ (case m of None \<Rightarrow> [] | Some x \<Rightarrow> [x])) @ added"
      "case r of Inr u \<Rightarrow> rest = [] | Inl e \<Rightarrow> surface_messages es rest = Inl e" by blast
    with Inr show ?thesis
      by (intro exI [of _ "n # dn"] exI [of _ rest]) (auto split: option.splits)
  qed
qed

section \<open>The cache\<close>

definition cache_ok :: "log \<Rightarrow> bool" where
  "cache_ok l =
     (unat (derivedGeneration l) \<le> unat (replaceGeneration (view l)) \<and>
      (derivedGeneration l = replaceGeneration (view l) \<longrightarrow>
       derivedNodes l \<le> length (nodes (view l)) \<and>
       surface_messages (entries l) (take (derivedNodes l) (nodes (view l))) = Inr (derived l)))"

lemma surface_messages_mono:
  "surface_messages es ns = Inr ms \<Longrightarrow> surface_messages (es @ fs) ns = Inr ms"
proof (induction ns arbitrary: ms)
  case (Cons n ns)
  then obtain m rest where m: "surface_message es n = Inr m" "surface_messages es ns = Inr rest"
    "ms = (case m of None \<Rightarrow> rest | Some m \<Rightarrow> m # rest)" by (auto simp: res_iff)
  from m(1) have "surface_message (es @ fs) n = Inr m"
    by (auto simp: surface_message_def nth_append wrapE_Inr_iff split: if_splits)
  with m Cons.IH show ?case by simp
qed simp

text \<open>The value \<open>DeriveMessages\<close> returns is that of the whole surface, and its cache stays coherent.\<close>

lemma DeriveMessages_spec:
  assumes "log_ok l" "cache_ok l" "DeriveMessages l = (l', r)"
  shows "r = bindE (surface_messages (entries l) (nodes (view l))) CloneMessages \<and> cache_ok l' \<and> log_ok l' \<and>
    entries l' = entries l \<and> view l' = view l \<and> logHeader l' = logHeader l"
proof -
  define l1 where "l1 = (if derivedGeneration l \<noteq> replaceGeneration (view l)
      then l\<lparr>derived := [], derivedNodes := 0, derivedGeneration := replaceGeneration (view l)\<rparr> else l)"
  have l1: "entries l1 = entries l" "view l1 = view l" "logHeader l1 = logHeader l"
    "firstLiveSeq l1 = firstLiveSeq l" "derivedGeneration l1 = replaceGeneration (view l)"
    by (auto simp: l1_def)
  have c1: "derivedNodes l1 \<le> length (nodes (view l))"
    "surface_messages (entries l) (take (derivedNodes l1) (nodes (view l))) = Inr (derived l1)"
    using assms(2) by (auto simp: l1_def cache_ok_def)
  obtain ms count outcome where loop:
    "derive_loop (entries l) (drop (derivedNodes l1) (nodes (view l))) (derived l1) (derivedNodes l1) =
     (ms, count, outcome)" by (metis prod_cases3)
  with assms(3) have r: "l' = l1\<lparr>derived := ms, derivedNodes := count\<rparr>" "r = bindE outcome (\<lambda>_. CloneMessages ms)"
    by (simp_all add: DeriveMessages_def Let_def flip: l1_def) (auto simp: l1)
  from derive_loop_spec [OF loop] obtain dn rest added where d:
    "drop (derivedNodes l1) (nodes (view l)) = dn @ rest" "count = derivedNodes l1 + length dn"
    "surface_messages (entries l) dn = Inr added" "ms = derived l1 @ added"
    "case outcome of Inr u \<Rightarrow> rest = [] | Inl e \<Rightarrow> surface_messages (entries l) rest = Inl e" by blast
  have all: "nodes (view l) = (take (derivedNodes l1) (nodes (view l)) @ dn) @ rest"
    using d(1) append_take_drop_id [of "derivedNodes l1" "nodes (view l)"] by simp
  have pre: "surface_messages (entries l) (take (derivedNodes l1) (nodes (view l)) @ dn) = Inr ms"
    using c1(2) d(3,4) by (simp add: surface_messages_append)
  have "length (take (derivedNodes l1) (nodes (view l)) @ dn) = count" using c1(1) d(2) by simp
  then have "take count (nodes (view l)) = take (derivedNodes l1) (nodes (view l)) @ dn"
    using all by (metis append_eq_conv_conj)
  moreover have "count \<le> length (nodes (view l))"
    using c1(1) d(2) arg_cong [OF d(1), of length] by simp
  ultimately have "cache_ok l'" using pre by (simp add: cache_ok_def r(1) l1)
  moreover have "surface_messages (entries l) (nodes (view l)) = bindE outcome (\<lambda>_. Inr ms)"
  proof (cases outcome)
    case (Inl e)
    then have "surface_messages (entries l) rest = Inl e" using d(5) by simp
    with pre Inl show ?thesis
      by (subst all) (simp only: surface_messages_append [of _ _ rest] bindE.simps)
  next
    case (Inr u)
    then show ?thesis using d(5) pre by (subst all) simp
  qed
  then have "r = bindE (surface_messages (entries l) (nodes (view l))) CloneMessages"
    by (simp add: r(2) bindE_assoc)
  moreover have "log_ok l'" using assms(1) by (simp add: log_ok_def r(1) l1 LogSeq_def)
  ultimately show ?thesis by (simp add: r(1) l1)
qed

lemma commitBatch_cache:
  assumes "log_ok l" "cache_ok l" "commitBatch clock l ds = Inr (l', evs)"
  shows "cache_ok l'"
proof -
  from assms(3) obtain v where v: "extend_surface (view l) (entries l) evs = Inr v"
    "l' = l\<lparr>entries := entries l @ evs, view := v\<rparr>" unfolding commitBatch_Inr by blast
  have gen: "unat (replaceGeneration v) = unat (replaceGeneration (view l)) + replacements evs"
    using log_ok_generation [OF assms(1)] log_ok_generation [OF commitBatch_ok [OF assms(1,3)]] v(2)
    by (simp add: replacements_def)
  show ?thesis
  proof (cases "derivedGeneration l = replaceGeneration v")
    case True
    then have eq0: "replacements evs = 0"
      using gen assms(2) by (simp add: cache_ok_def)
    then have "replaceGeneration v = replaceGeneration (view l)"
      using gen by (simp add: word_unat_eq_iff)
    with True have eq: "replacements evs = 0" "derivedGeneration l = replaceGeneration (view l)"
      using eq0 by simp_all
    obtain ns where "nodes v = nodes (view l) @ ns"
      using extend_appends [OF v(1) eq(1)] by blast
    then show ?thesis
      using assms(2) eq(2) gen surface_messages_mono [of "entries l" _ "derived l" evs]
      by (auto simp: cache_ok_def v(2))
  next
    case False
    then show ?thesis using assms(2) gen by (auto simp: cache_ok_def v(2))
  qed
qed

lemma Commit_cache:
  "log_ok l \<Longrightarrow> cache_ok l \<Longrightarrow> Commit clock ctx plan l = (l', r, failure) \<Longrightarrow> cache_ok l'"
  by (erule Commit_cases) (auto dest: commitBatch_cache)

lemma newWithClock_cache: "newWithClock identifier md seed now clock = Inr l \<Longrightarrow> cache_ok l"
proof (erule newWithClock_cases)
  fix h and l0 :: log
  let ?l = "l0\<lparr>firstLiveSeq := int (length (entries l0))\<rparr>"
  assume s: "seed_loop 0 (new_log h) (case seed of None \<Rightarrow> [] | Some es \<Rightarrow> es) = Inr l0"
    and l: "l = ?l \<or> (\<exists>r evs. commitBatch clock ?l [end_seed_draft r] = Inr (l, evs))"
  from seed_loop_ok [OF s new_log_ok] have ok: "log_ok l0" "derivedNodes l0 = 0" "derived l0 = []" "derivedGeneration l0 = 0"
    by (auto simp: new_log_def)
  then have "cache_ok ?l" by (simp add: cache_ok_def)
  with l commitBatch_cache [OF firstLiveSeq_ok [OF ok(1)]] show "cache_ok l" by blast
qed

section \<open>Reopening a session\<close>

lemma end_seed_batch:
  assumes "log_ok l" "isSafeNonNegative (LogSeq l)" "isSafeInteger (clock 0)" "lossless (JObj [])"
  shows "\<exists>l' evs. commitBatch clock l [end_seed_draft (Doc (JObj []))] = Inr (l', evs) \<and>
    entries l' = entries l @ evs \<and> length evs = 1 \<and> evType (hd evs) = EndSeedEventName \<and>
    view l' = view l \<and> firstLiveSeq l' = firstLiveSeq l"
proof -
  let ?e = "draft_event (end_seed_draft (Doc (JObj []))) (LogSeq l) (clock 0)"
  have "planSurface (view l) ?e (entries l) [] = Inr no_transition"
    by (simp add: planSurface_plain draft_event_def end_seed_draft_def EndSeedEventName_def surfaceEventTypes_def)
  moreover have "ValidateEvent (end_seed_draft (Doc (JObj []))) ?e = Inr ()"
    using assms by (simp add: ValidateEvent_Inr validateEventDraft_iff isOk_iff draft_event_def
        end_seed_draft_def EndSeedEventName_def)
  ultimately show ?thesis
    by (intro exI) (auto simp: commitBatch_Inr LogSeq_def draft_event_def end_seed_draft_def)
qed

lemma reopen:
  assumes ok: "log_ok l" and h: "buildHeader identifier md now = Inr h"
    and safe: "isSafeNonNegative (LogSeq l)" "isSafeInteger (clock 0)"
  shows "\<exists>l' marker. newWithClock identifier md (Some (entries l)) now clock = Inr l' \<and>
    entries l' = entries l @ marker \<and> view l' = view l \<and> firstLiveSeq l' = LogSeq l \<and>
    (if entries l \<noteq> [] \<and> evType (last (entries l)) = EndSeedEventName then marker = []
     else length marker = 1 \<and> evType (hd marker) = EndSeedEventName)"
proof -
  have "\<exists>l0. seed_loop 0 (new_log h) (entries l) = Inr l0 \<and> view l0 = view l"
    using ok by (intro seed_loop_accepts) (auto simp: log_ok_def new_log_def LogSeq_def)
  then obtain l0 where l0: "seed_loop 0 (new_log h) (entries l) = Inr l0" "view l0 = view l" by blast
  have e0: "log_ok l0" "entries l0 = entries l"
    using seed_loop_ok [OF l0(1) new_log_ok] by (auto simp: new_log_def)
  let ?l = "l0\<lparr>firstLiveSeq := int (length (entries l0))\<rparr>"
  have marker: "lossless (JObj [])" "snapshotPayload (Inr (JObj [])) = Inr (Doc (JObj []))"
    by (simp_all add: snapshotPayload_def)
  have run: "newWithClock identifier md (Some (entries l)) now clock =
      (if entries l = [] \<or> evType (last (entries l)) \<noteq> EndSeedEventName then
         bindE (commitBatch clock ?l [end_seed_draft (Doc (JObj []))]) (\<lambda>(l', committed). Inr l')
       else Inr ?l)"
    using h l0(1) e0(2) marker(2) by (simp add: newWithClock_def)
  show ?thesis
  proof (cases "entries l = [] \<or> evType (last (entries l)) \<noteq> EndSeedEventName")
    case False
    with run e0 l0(2) show ?thesis by (intro exI [of _ ?l] exI [of _ "[]"]) (simp add: LogSeq_def)
  next
    case True
    have safe0: "isSafeNonNegative (LogSeq ?l)" using safe(1) e0(2) by (simp add: LogSeq_def)
    from end_seed_batch [of ?l clock, OF firstLiveSeq_ok [OF e0(1)] safe0 safe(2) marker(1)]
    obtain l' evs where
      "commitBatch clock ?l [end_seed_draft (Doc (JObj []))] = Inr (l', evs)" "entries l' = entries l @ evs"
      "length evs = 1" "evType (hd evs) = EndSeedEventName" "view l' = view l" "firstLiveSeq l' = LogSeq l"
      using e0(2) l0(2) by (auto simp: LogSeq_def)
    with run True show ?thesis by (intro exI [of _ l'] exI [of _ evs]) auto
  qed
qed

end
