(* ===== verification/Writes.thy ===== *)
theory Writes
  imports SessionHistory
begin

text \<open>
  The contract of an idempotent write (\<open>IdempotentWrite\<close> in \<open>src/session/write.go\<close>) as a
  locale: a plan that builds drafts and finds its own earlier commit.  The client lemmas
  are what every caller relies on when it retries a write whose outcome it does not know.
\<close>

definition live :: "go_context \<Rightarrow> bool" where
  "live ctx = (contextCause ctx 0 = Inr () \<and> contextCause ctx 1 = Inr ())"

lemma Commit_replays:
  assumes "live ctx" "findCommit (Snapshot l) = Inr (Some r)" "replayCommit l r = Inr r"
  shows "Commit clock ctx (Idempotent build findCommit) l = (l, r, None)"
  using assms by (simp add: Commit_def commit_body_def live_def)

lemma replayCommit_Inr:
  "replayCommit l prev = Inr r \<longleftrightarrow> r = prev \<and>
   barrierSession (resultBarrier r) = headerID (logHeader l) \<and> 0 \<le> firstSeq r \<and> firstSeq r < nextSeq r \<and>
   nextSeq r \<le> LogSeq l \<and> barrierNext (resultBarrier r) = nextSeq r \<and>
   int (length (resultEvents r)) = nextSeq r - firstSeq r \<and>
   (\<forall>k < length (resultEvents r). resultEvents r ! k = entries l ! nat (firstSeq r + int k))"
    (is "?L \<longleftrightarrow> ?R")
proof -
  let ?f = "\<lambda>i entry. let stored = entries l ! nat (firstSeq prev + int i) in
              if entry \<noteq> stored then Inl (err ''session: replayed event differs from committed log'')
              else Inr stored"
  have "imapE ?f 0 (resultEvents prev) = Inr copied \<longleftrightarrow> copied = resultEvents prev \<and>
      (\<forall>k < length (resultEvents prev). resultEvents prev ! k = entries l ! nat (firstSeq prev + int k))" for copied
    unfolding imapE_iff by (auto simp: Let_def intro!: nth_equalityI split: if_splits)
  then show ?thesis by (auto simp: replayCommit_def bindE_Inr_iff failIf_Inr)
qed

text \<open>A result that names a range of the log and carries its events.\<close>

definition own_range :: "log \<Rightarrow> write_result \<Rightarrow> bool" where
  "own_range l r =
     (barrierSession (resultBarrier r) = headerID (logHeader l) \<and> 0 \<le> firstSeq r \<and> firstSeq r < nextSeq r \<and>
      nextSeq r \<le> LogSeq l \<and> barrierNext (resultBarrier r) = nextSeq r \<and>
      resultEvents r = subslice (entries l) (nat (firstSeq r)) (nat (nextSeq r - firstSeq r)))"

lemma own_range_replays: "own_range l r \<Longrightarrow> replayCommit l r = Inr r"
  by (auto simp: own_range_def replayCommit_Inr LogSeq_def nth_subslice nat_add_distrib)

lemma replay_own_range: "replayCommit l prev = Inr r \<Longrightarrow> r = prev \<and> own_range l r"
  unfolding replayCommit_Inr own_range_def
  by (auto simp: LogSeq_def nth_subslice nat_add_distrib intro!: nth_equalityI)

section \<open>Idempotent writes\<close>

text \<open>
  \<open>wf\<close> marks the proposals the code can construct; \<open>build p\<close> and \<open>findCommit p\<close> are the
  two methods of the proposal \<open>p\<close>.
\<close>

locale idempotent_write =
  fixes wf :: "'p \<Rightarrow> bool"
    and build :: "'p \<Rightarrow> snapshot \<Rightarrow> event_draft list res"
    and findCommit :: "'p \<Rightarrow> snapshot \<Rightarrow> write_result option res"
  assumes find_own: "wf p \<Longrightarrow> log_ok l \<Longrightarrow> findCommit p (Snapshot l) = Inr (Some r) \<Longrightarrow> own_range l r"
    and find_after:
      "wf p \<Longrightarrow> log_ok l \<Longrightarrow> findCommit p (Snapshot l) = Inr None \<Longrightarrow> build p (Snapshot l) = Inr ds \<Longrightarrow>
       ds \<noteq> [] \<Longrightarrow> commitBatch clock l ds = Inr (l', evs) \<Longrightarrow>
       findCommit p (Snapshot l') = Inr (Some (commit_result l l' evs))"
begin

abbreviation plan :: "'p \<Rightarrow> write_plan" where
  "plan p \<equiv> Idempotent (build p) (findCommit p)"

lemma found_is_replayed:
  "wf p \<Longrightarrow> log_ok l \<Longrightarrow> live ctx \<Longrightarrow> findCommit p (Snapshot l) = Inr (Some r) \<Longrightarrow>
   Commit clock ctx (plan p) l = (l, r, None)"
  using Commit_replays own_range_replays find_own by blast

text \<open>After a commit that wrote or replayed something, the commit is found.\<close>

lemma found_after_commit:
  assumes "wf p" "log_ok l" "Commit clock ctx (plan p) l = (l', r, None)" "firstSeq r < nextSeq r"
  shows "findCommit p (Snapshot l') = Inr (Some r)"
  using assms(3)
proof (cases rule: Commit_cases)
  case (replayed prev)
  then have "r = prev" using replayCommit_Inr by blast
  with replayed show ?thesis by simp
next
  case empty
  with assms(4) show ?thesis by (simp add: commit_result_def LogSeq_def Barrier_def)
next
  case (written ds evs)
  then show ?thesis using find_after [OF assms(1,2)] by simp
qed simp

text \<open>Retrying a write that took effect changes nothing and returns the same result.\<close>

lemma retry_is_noop:
  assumes "wf p" "log_ok l" "Commit clock ctx (plan p) l = (l', r, None)" "firstSeq r < nextSeq r" "live ctx'"
  shows "Commit clock' ctx' (plan p) l' = (l', r, None)"
  using found_is_replayed [OF assms(1) Commit_ok assms(5) found_after_commit] assms by blast

text \<open>Whatever the outcome the caller saw, two calls leave at most one batch of the plan.\<close>

lemma at_most_once:
  assumes "wf p" "log_ok l" "Commit clock ctx (plan p) l = (l', r, failure)"
    "Commit clock' ctx' (plan p) l' = (l'', r', failure')"
  shows "l'' = l' \<or> l' = l"
  using assms(3)
proof (cases rule: Commit_cases)
  case (written ds evs)
  then have f: "findCommit p (Snapshot l') = Inr (Some (commit_result l l' evs))"
    using find_after [OF assms(1,2)] by simp
  from assms(4) show ?thesis using f by (cases rule: Commit_cases) auto
qed auto

end

text \<open>
  The stronger contract: the commit is still found after events that do not concern the
  proposal's identity.
\<close>

locale stable_write = idempotent_write wf build findCommit
  for wf :: "'p \<Rightarrow> bool" and build findCommit +
  fixes foreign :: "'p \<Rightarrow> event \<Rightarrow> bool"
  assumes find_stable:
    "wf p \<Longrightarrow> log_ok l \<Longrightarrow> log_ok l' \<Longrightarrow> logHeader l' = logHeader l \<Longrightarrow> entries l' = entries l @ es \<Longrightarrow>
     list_all (foreign p) es \<Longrightarrow> findCommit p (Snapshot l) = Inr (Some r) \<Longrightarrow>
     findCommit p (Snapshot l') = Inr (Some r)"
begin

lemma retry_after_others:
  assumes "wf p" "log_ok l" "Commit clock ctx (plan p) l = (l1, r, None)" "firstSeq r < nextSeq r" "live ctx'"
    "log_ok l2" "logHeader l2 = logHeader l1" "entries l2 = entries l1 @ es" "list_all (foreign p) es"
  shows "Commit clock' ctx' (plan p) l2 = (l2, r, None)"
proof -
  have ok1: "log_ok l1" using Commit_ok assms(2,3) by blast
  from find_stable [OF assms(1) ok1 assms(6-9)] found_after_commit [OF assms(1-4)]
  have "findCommit p (Snapshot l2) = Inr (Some r)" by blast
  with found_is_replayed [OF assms(1,6,5)] show ?thesis by blast
qed

end

section \<open>Results over a found event\<close>

lemma Snapshot_simps [simp]:
  "snapEvents (Snapshot l) = entries l" "snapSurface (Snapshot l) = view l"
  "barrierSession (snapBarrier (Snapshot l)) = headerID (logHeader l)"
  "barrierNext (snapBarrier (Snapshot l)) = int (length (entries l))"
  by (simp_all add: Snapshot_def Barrier_def)

definition range_result :: "string \<Rightarrow> int \<Rightarrow> event list \<Rightarrow> write_result" where
  "range_result session first es =
     \<lparr>firstSeq = first, nextSeq = first + int (length es),
      resultBarrier = \<lparr>barrierSession = session, barrierNext = first + int (length es)\<rparr>,
      resultEvents = es\<rparr>"

lemma range_result_own:
  assumes "log_ok l" "i + n \<le> length (entries l)" "0 < n"
  shows "own_range l (range_result (headerID (logHeader l)) (int i) (subslice (entries l) i n))"
  using assms by (simp add: own_range_def range_result_def LogSeq_def)

lemma commit_result_range:
  assumes "commitBatch clock l ds = Inr (l', evs)"
  shows "commit_result l l' evs = range_result (headerID (logHeader l)) (int (length (entries l))) evs"
  using assms by (auto simp: commitBatch_Inr commit_result_def range_result_def LogSeq_def Barrier_def)

lemma commitBatch_entries:
  "commitBatch clock l ds = Inr (l', evs) \<Longrightarrow>
   entries l' = entries l @ evs \<and> logHeader l' = logHeader l \<and> length evs = length ds \<and>
   (\<forall>k < length ds. ValidateEvent (ds ! k) (evs ! k) = Inr () \<and> evSeq (evs ! k) = int (length (entries l) + k))"
proof -
  assume "commitBatch clock l ds = Inr (l', evs)"
  then obtain v where e: "evs = batch_events clock (length (entries l)) 0 ds"
    "list_all2 (\<lambda>d e. ValidateEvent d e = Inr ()) ds evs" "l' = l\<lparr>entries := entries l @ evs, view := v\<rparr>"
    unfolding commitBatch_Inr by blast
  have "evSeq (evs ! k) = int (length (entries l) + k)" if "k < length ds" for k
    unfolding e(1) using batch_events_nth [OF that, of clock "length (entries l)" 0]
    by (simp add: draft_event_def)
  moreover have "length evs = length ds" unfolding e(1) by simp
  moreover have "ValidateEvent (ds ! k) (evs ! k) = Inr ()" if "k < length ds" for k
    using e(2) that by (simp add: list_all2_conv_all_nth)
  ultimately show ?thesis using e(3) by simp
qed

end
