(* ===== verification/Payloads.thy ===== *)
theory Payloads
  imports SessionTypes
begin

text \<open>
  What the durable payloads of the packages share: slices with a nil form, optional fields
  of \<open>encoding/json\<close>, pointer fields, and the contract of a payload codec as a locale.
\<close>

section \<open>Slices and optional fields\<close>

text \<open>A Go slice whose nil and empty forms marshal differently is an option of a list.\<close>

type_synonym 'a go_slice = "'a list option"

definition elements :: "'a go_slice \<Rightarrow> 'a list" where
  "elements s = (case s of None \<Rightarrow> [] | Some xs \<Rightarrow> xs)"

text \<open>\<open>append([]T(nil), xs...)\<close>: the copy of an empty slice is nil.\<close>

definition append_nil :: "'a list \<Rightarrow> 'a go_slice" where
  "append_nil xs = (if xs = [] then None else Some xs)"

lemma elements_append_nil [simp]: "elements (append_nil xs) = xs"
  by (simp add: elements_def append_nil_def)

text \<open>A field with \<open>omitempty\<close> on a pointer, and a pointer without it.\<close>

definition omit :: "string \<Rightarrow> ('a \<Rightarrow> json) \<Rightarrow> 'a option \<Rightarrow> (string \<times> json) list" where
  "omit n f x = (case x of None \<Rightarrow> [] | Some v \<Rightarrow> [(n, f v)])"

definition nullable :: "('a \<Rightarrow> json) \<Rightarrow> 'a option \<Rightarrow> json" where
  "nullable f x = (case x of None \<Rightarrow> JNull | Some v \<Rightarrow> f v)"

text \<open>A field of pointer type: null makes the pointer nil.\<close>

fun scan_pointer :: "(json \<Rightarrow> 'a option) \<Rightarrow> 'a option \<Rightarrow> json list \<Rightarrow> 'a option res" where
  "scan_pointer d z [] = Inr z"
| "scan_pointer d z (v # vs) =
     (if v = JNull then scan_pointer d None vs
      else case d v of None \<Rightarrow> Inl type_error | Some x \<Rightarrow> scan_pointer d (Some x) vs)"

section \<open>The contract of a payload codec\<close>

text \<open>
  The contract of a durable payload: what the marshaller writes is lossless JSON that the
  decoder restores, and the decoder accepts valid values only.
\<close>

locale payload_codec =
  fixes enc :: "'a \<Rightarrow> json res" and dec :: "raw \<Rightarrow> 'a res" and valid :: "'a \<Rightarrow> bool"
  assumes dec_enc: "valid x \<Longrightarrow> \<exists>j. enc x = Inr j \<and> lossless j \<and> dec (Doc j) = Inr x"
    and dec_valid: "dec r = Inr x \<Longrightarrow> valid x"
begin

lemma re_encode: "dec r = Inr x \<Longrightarrow> \<exists>j. enc x = Inr j \<and> dec (Doc j) = Inr x"
  using dec_enc dec_valid by blast

lemma enc_inj: "valid x \<Longrightarrow> valid y \<Longrightarrow> enc x = enc y \<Longrightarrow> x = y"
  by (metis dec_enc sum.inject(2))

lemma enc_draft:
  "valid x \<Longrightarrow> n \<noteq> [] \<Longrightarrow> \<exists>d. NewEventDraft n (enc x) ig = Inr d \<and> draftType d = n \<and> dec (draftData d) = Inr x"
  using dec_enc [of x] by (auto simp: NewEventDraft_Inr)

lemma draft_decodes:
  "NewEventDraft n (enc x) ig = Inr d \<Longrightarrow> valid x \<Longrightarrow> dec (draftData d) = Inr x"
  using dec_enc [of x] by (auto simp: NewEventDraft_Inr)

end

lemma matches_omit:
  "matches n (omit k f x) =
   (if fold_key k = fold_key n then (case x of None \<Rightarrow> [] | Some v \<Rightarrow> [f v]) else [])"
  by (simp add: omit_def matches_def split: option.splits)

lemma known_fields_omit: "k \<in> set ns \<Longrightarrow> known_fields ns (omit k f x)"
  by (auto simp: omit_def known_fields_def list_ex_iff split: option.splits)

end
