(* ===== verification/CompactionCodec.thy ===== *)
theory CompactionCodec
  imports Writes Payloads
begin

text \<open>
  The durable vocabulary of context compaction (\<open>src/compaction/types.go\<close>, \<open>events.go\<close>,
  \<open>codec.go\<close>, \<open>checkpoint.go\<close>): the payloads of compaction/start, summary, end and prune
  with their marshallers and strict decoders, and the provenance of a checkpoint message.

  The errors of the decoders are format strings with their labels.
\<close>

section \<open>Payloads\<close>

record surface_range =
  rangeStart :: int
  rangeEnd :: int

record compaction_start =
  startID :: string
  startCommand :: "string option"
  startTurn :: "int option"

record token_usage =
  inputTokens :: int
  outputTokens :: int
  cacheReadTokens :: "int option"
  cacheWriteTokens :: "int option"
  reasoningTokens :: "int option"

record compaction_summary =
  sumID :: string
  sumCommand :: "string option"
  sumSummary :: "content_block go_slice"
  sumRawOutput :: "content_block go_slice"
  sumStreamCall :: bool
  sumRange :: surface_range
  sumSeqs :: "int go_slice"
  sumTokenCount :: int
  sumProvider :: string
  sumModel :: string
  sumMaxTokens :: "int option"
  sumUsage :: "token_usage option"

record compaction_end =
  endID :: string
  endCommand :: "string option"
  endTurn :: "int option"
  endError :: "string option"

record compaction_prune =
  pruneRange :: surface_range
  pruneSeqs :: "int go_slice"
  pruneTokenCount :: int

section \<open>Marshallers\<close>

definition json_range :: "surface_range \<Rightarrow> json" where
  "json_range r = JObj [(''start'', jint (rangeStart r)), (''end'', jint (rangeEnd r))]"

definition json_seqs :: "int go_slice \<Rightarrow> json" where
  "json_seqs s = (case s of None \<Rightarrow> JNull | Some xs \<Rightarrow> JArr (map (\<lambda>x. jint x) xs))"

definition json_usage :: "token_usage \<Rightarrow> json" where
  "json_usage u =
     JObj ([(''inputTokens'', jint (inputTokens u)), (''outputTokens'', jint (outputTokens u))]
       @ omit ''cacheReadTokens'' (\<lambda>x. jint x) (cacheReadTokens u)
       @ omit ''cacheWriteTokens'' (\<lambda>x. jint x) (cacheWriteTokens u)
       @ omit ''reasoningTokens'' (\<lambda>x. jint x) (reasoningTokens u))"

definition marshal_start :: "compaction_start \<Rightarrow> json res" where
  "marshal_start s =
     Inr (JObj ([(''compactionId'', JStr (startID s))]
       @ omit ''sourceCommandId'' JStr (startCommand s)
       @ [(''turn'', nullable (\<lambda>x. jint x) (startTurn s))]))"

definition marshal_content :: "content_block go_slice \<Rightarrow> json res" where
  "marshal_content c =
     (case c of None \<Rightarrow> Inr JNull | Some bs \<Rightarrow> bindE (marshal_blocks bs) (\<lambda>js. Inr (JArr js)))"

definition marshal_summary :: "compaction_summary \<Rightarrow> json res" where
  "marshal_summary s =
     (let rawOutput = (if sumRawOutput s \<noteq> None \<or> sumStreamCall s
                       then Some (elements (sumRawOutput s)) else None) in
      bindE (marshal_content (sumSummary s)) (\<lambda>summary.
      bindE (case rawOutput of None \<Rightarrow> Inr [] | Some bs \<Rightarrow>
               bindE (marshal_blocks bs) (\<lambda>js. Inr [(''rawOutput'', JArr js)])) (\<lambda>output.
      Inr (JObj ([(''compactionId'', JStr (sumID s))]
        @ omit ''sourceCommandId'' JStr (sumCommand s)
        @ [(''summary'', summary)]
        @ output
        @ (if sumStreamCall s then [(''llmStreamCall'', JBool True)] else [])
        @ [(''shadowedRange'', json_range (sumRange s)), (''shadowedSeqs'', json_seqs (sumSeqs s)),
           (''shadowedTokenCount'', jint (sumTokenCount s)), (''provider'', JStr (sumProvider s)),
           (''model'', JStr (sumModel s))]
        @ omit ''maxTokens'' (\<lambda>x. jint x) (sumMaxTokens s)
        @ omit ''usage'' json_usage (sumUsage s))))))"

definition marshal_end :: "compaction_end \<Rightarrow> json res" where
  "marshal_end e =
     Inr (JObj ([(''compactionId'', JStr (endID e))]
       @ omit ''sourceCommandId'' JStr (endCommand e)
       @ [(''turn'', nullable (\<lambda>x. jint x) (endTurn e))]
       @ omit ''error'' JStr (endError e)))"

definition marshal_prune :: "compaction_prune \<Rightarrow> json res" where
  "marshal_prune p =
     Inr (JObj [(''shadowedRange'', json_range (pruneRange p)), (''shadowedSeqs'', json_seqs (pruneSeqs p)),
                (''shadowedTokenCount'', jint (pruneTokenCount p))])"

section \<open>Field decoders\<close>

definition required :: "string \<Rightarrow> goerr" where
  "required label = Errorf ''compaction: %s is required'' [AStr label]"

definition cannot_be_null :: "string \<Rightarrow> goerr" where
  "cannot_be_null label = Errorf ''compaction: %s cannot be null'' [AStr label]"

definition decodeRequiredString :: "raw \<Rightarrow> string \<Rightarrow> string res" where
  "decodeRequiredString r label =
     (if r = Absent then Inl (required label)
      else if r = Doc JNull then Inl (cannot_be_null label)
      else wrapE (\<lambda>_. Errorf ''compaction: %s must be a string'' [AStr label])
             (unmarshal_scalar as_string [] r))"

definition decodeOptionalString :: "raw \<Rightarrow> string \<Rightarrow> bool \<Rightarrow> string option res" where
  "decodeOptionalString r label allowEmpty =
     (if r = Absent then Inr None
      else if r = Doc JNull then Inl (cannot_be_null label)
      else bindE (wrapE (\<lambda>_. Errorf ''compaction: %s must be a string'' [AStr label])
                   (unmarshal_scalar as_string [] r)) (\<lambda>v.
        bindE (failIf (\<not> allowEmpty \<and> v = [])
                 (Errorf ''compaction: %s must be non-empty'' [AStr label])) (\<lambda>_. Inr (Some v))))"

definition decodeOptionalIdentifier :: "raw \<Rightarrow> string \<Rightarrow> string option res" where
  "decodeOptionalIdentifier r label = decodeOptionalString r label False"

definition decodeRequiredNullableTurn :: "raw \<Rightarrow> string \<Rightarrow> int option res" where
  "decodeRequiredNullableTurn r label =
     (if r = Absent then Inl (required label)
      else if r = Doc JNull then Inr None
      else case unmarshal_scalar as_int64 0 r of
        Inr v \<Rightarrow>
          if v \<le> 0 \<or> v > maxSafeInteger
          then Inl (Errorf ''compaction: %s must be null or a positive safe integer'' [AStr label])
          else Inr (Some v)
      | Inl e \<Rightarrow> Inl (Errorf ''compaction: %s must be null or a positive safe integer'' [AStr label]))"

definition decodeRequiredContent :: "raw \<Rightarrow> string \<Rightarrow> content_block go_slice res" where
  "decodeRequiredContent r label =
     (if r = Absent then Inl (required label)
      else case r of
        Doc (JArr xs) \<Rightarrow>
          bindE (wrapE (\<lambda>e. Errorf ''compaction: decode %s: %w'' [AStr label, AErr e])
                   (DecodeContentBlocks r)) (\<lambda>bs. Inr (Some bs))
      | _ \<Rightarrow> Inl (Errorf ''compaction: %s must be an array'' [AStr label]))"

definition decodeOptionalContent :: "raw \<Rightarrow> string \<Rightarrow> (content_block go_slice \<times> bool) res" where
  "decodeOptionalContent r label =
     (if r = Absent then Inr (None, False)
      else bindE (decodeRequiredContent r label) (\<lambda>bs. Inr (bs, True)))"

definition decodeOptionalTrue :: "raw \<Rightarrow> string \<Rightarrow> (bool \<times> bool) res" where
  "decodeOptionalTrue r label =
     (if r = Absent then Inr (False, False)
      else if unmarshal_scalar as_bool False r = Inr True then Inr (True, True)
      else Inl (Errorf ''compaction: %s must be true when present'' [AStr label]))"

definition decodeRequiredSafeInteger :: "raw \<Rightarrow> string \<Rightarrow> int res" where
  "decodeRequiredSafeInteger r label =
     (if r = Absent then Inl (required label)
      else case unmarshal_scalar as_int64 0 r of
        Inr v \<Rightarrow> if isSafeNonNegative v then Inr v
          else Inl (Errorf ''compaction: %s must be a non-negative safe integer'' [AStr label])
      | Inl e \<Rightarrow> Inl (Errorf ''compaction: %s must be a non-negative safe integer'' [AStr label]))"

definition decodeOptionalSafeInteger :: "raw \<Rightarrow> string \<Rightarrow> int option res" where
  "decodeOptionalSafeInteger r label =
     (if r = Absent then Inr None
      else if r = Doc JNull then Inl (cannot_be_null label)
      else bindE (decodeRequiredSafeInteger r label) (\<lambda>v. Inr (Some v)))"

definition decodeRequiredRange :: "raw \<Rightarrow> surface_range res" where
  "decodeRequiredRange r =
     (if r = Absent then Inl (err ''compaction: shadowedRange is required'')
      else
        bindE (wrapE (\<lambda>e. Errorf ''compaction: decode shadowedRange: %w'' [AErr e])
                 (strict_fields [''start'', ''end''] r)) (\<lambda>fs.
        bindE (decodeRequiredSafeInteger (get_raw fs ''start'') ''shadowedRange start'') (\<lambda>s.
        bindE (decodeRequiredSafeInteger (get_raw fs ''end'') ''shadowedRange end'') (\<lambda>e.
        Inr \<lparr>rangeStart = s, rangeEnd = e\<rparr>))))"

definition decodeRequiredSequences :: "raw \<Rightarrow> int go_slice res" where
  "decodeRequiredSequences r =
     (if r = Absent then Inl (err ''compaction: shadowedSeqs is required'')
      else case unmarshal_int64s r of
        Inr (Some xs) \<Rightarrow>
          if list_all isSafeNonNegative xs then Inr (append_nil xs)
          else Inl (err ''compaction: shadowedSeqs must contain non-negative safe integers'')
      | _ \<Rightarrow> Inl (err ''compaction: shadowedSeqs must be an array''))"

text \<open>On the platforms the repository builds for, \<open>int\<close> has 64 bits and the conversion is exact.\<close>

definition decodeOptionalPositiveInt :: "raw \<Rightarrow> string \<Rightarrow> int option res" where
  "decodeOptionalPositiveInt r label =
     (if r = Absent then Inr None
      else if r = Doc JNull then Inl (cannot_be_null label)
      else case unmarshal_scalar as_int64 0 r of
        Inr v \<Rightarrow> if v \<le> 0 \<or> v > maxSafeInteger
          then Inl (Errorf ''compaction: %s must be a positive safe integer'' [AStr label])
          else Inr (Some v)
      | Inl e \<Rightarrow> Inl (Errorf ''compaction: %s must be a positive safe integer'' [AStr label]))"

definition decodeOptionalUsage :: "raw \<Rightarrow> token_usage option res" where
  "decodeOptionalUsage r =
     (if r = Absent then Inr None
      else if r = Doc JNull then Inl (err ''compaction: summary usage cannot be null'')
      else
        bindE (wrapE (\<lambda>e. Errorf ''compaction: decode summary usage: %w'' [AErr e])
                 (strict_fields [''inputTokens'', ''outputTokens'', ''cacheReadTokens'', ''cacheWriteTokens'',
                                 ''reasoningTokens''] r)) (\<lambda>fs.
        bindE (decodeRequiredSafeInteger (get_raw fs ''inputTokens'') ''summary usage inputTokens'') (\<lambda>i.
        bindE (decodeRequiredSafeInteger (get_raw fs ''outputTokens'') ''summary usage outputTokens'') (\<lambda>ot.
        bindE (decodeOptionalSafeInteger (get_raw fs ''cacheReadTokens'') ''summary usage cacheReadTokens'') (\<lambda>cr.
        bindE (decodeOptionalSafeInteger (get_raw fs ''cacheWriteTokens'') ''summary usage cacheWriteTokens'') (\<lambda>cw.
        bindE (decodeOptionalSafeInteger (get_raw fs ''reasoningTokens'') ''summary usage reasoningTokens'') (\<lambda>re.
        Inr (Some \<lparr>inputTokens = i, outputTokens = ot, cacheReadTokens = cr, cacheWriteTokens = cw,
                   reasoningTokens = re\<rparr>))))))))"

section \<open>Payload decoders\<close>

definition DecodeStart :: "raw \<Rightarrow> compaction_start res" where
  "DecodeStart r =
     bindE (wrapE (\<lambda>e. Errorf ''compaction: decode start: %w'' [AErr e])
              (bindE (strict_fields [''compactionId'', ''sourceCommandId'', ''turn''] r) (\<lambda>fs.
               bindE (get_string fs ''compactionId'') (\<lambda>i. Inr (fs, i))))) (\<lambda>(fs, i).
     bindE (failIf (i = []) (err ''compaction: start compactionId must be non-empty'')) (\<lambda>_.
     bindE (decodeOptionalIdentifier (get_raw fs ''sourceCommandId'') ''start sourceCommandId'') (\<lambda>c.
     bindE (decodeRequiredNullableTurn (get_raw fs ''turn'') ''start turn'') (\<lambda>t.
     Inr \<lparr>startID = i, startCommand = c, startTurn = t\<rparr>))))"

definition summary_fields :: "string list" where
  "summary_fields = [''compactionId'', ''sourceCommandId'', ''summary'', ''rawOutput'', ''llmStreamCall'',
     ''shadowedRange'', ''shadowedSeqs'', ''shadowedTokenCount'', ''provider'', ''model'', ''maxTokens'', ''usage'']"

definition DecodeSummary :: "raw \<Rightarrow> compaction_summary res" where
  "DecodeSummary r =
     bindE (wrapE (\<lambda>e. Errorf ''compaction: decode summary: %w'' [AErr e])
              (bindE (strict_fields summary_fields r) (\<lambda>fs.
               bindE (get_string fs ''compactionId'') (\<lambda>i. Inr (fs, i))))) (\<lambda>(fs, i).
     bindE (failIf (i = []) (err ''compaction: summary compactionId must be non-empty'')) (\<lambda>_.
     bindE (decodeOptionalIdentifier (get_raw fs ''sourceCommandId'') ''summary sourceCommandId'') (\<lambda>c.
     bindE (decodeRequiredContent (get_raw fs ''summary'') ''summary'') (\<lambda>blocks.
     bindE (decodeOptionalContent (get_raw fs ''rawOutput'') ''summary rawOutput'') (\<lambda>(out, outPresent).
     bindE (decodeOptionalTrue (get_raw fs ''llmStreamCall'') ''summary llmStreamCall'') (\<lambda>(call, callPresent).
     bindE (failIf (callPresent \<and> \<not> outPresent)
              (err ''compaction: summary llmStreamCall requires rawOutput'')) (\<lambda>_.
     bindE (decodeRequiredRange (get_raw fs ''shadowedRange'')) (\<lambda>range.
     bindE (decodeRequiredSequences (get_raw fs ''shadowedSeqs'')) (\<lambda>seqs.
     bindE (decodeRequiredSafeInteger (get_raw fs ''shadowedTokenCount'') ''summary shadowedTokenCount'') (\<lambda>tokens.
     bindE (decodeRequiredString (get_raw fs ''provider'') ''summary provider'') (\<lambda>p.
     bindE (decodeRequiredString (get_raw fs ''model'') ''summary model'') (\<lambda>m.
     bindE (decodeOptionalPositiveInt (get_raw fs ''maxTokens'') ''summary maxTokens'') (\<lambda>mt.
     bindE (decodeOptionalUsage (get_raw fs ''usage'')) (\<lambda>u.
     Inr \<lparr>sumID = i, sumCommand = c, sumSummary = blocks, sumRawOutput = out, sumStreamCall = call,
          sumRange = range, sumSeqs = seqs, sumTokenCount = tokens, sumProvider = p, sumModel = m,
          sumMaxTokens = mt, sumUsage = u\<rparr>))))))))))))))"

definition DecodeEnd :: "raw \<Rightarrow> compaction_end res" where
  "DecodeEnd r =
     bindE (wrapE (\<lambda>e. Errorf ''compaction: decode end: %w'' [AErr e])
              (bindE (strict_fields [''compactionId'', ''sourceCommandId'', ''turn'', ''error''] r) (\<lambda>fs.
               bindE (get_string fs ''compactionId'') (\<lambda>i. Inr (fs, i))))) (\<lambda>(fs, i).
     bindE (failIf (i = []) (err ''compaction: end compactionId must be non-empty'')) (\<lambda>_.
     bindE (decodeOptionalIdentifier (get_raw fs ''sourceCommandId'') ''end sourceCommandId'') (\<lambda>c.
     bindE (decodeRequiredNullableTurn (get_raw fs ''turn'') ''end turn'') (\<lambda>t.
     bindE (decodeOptionalString (get_raw fs ''error'') ''end error'' True) (\<lambda>e.
     Inr \<lparr>endID = i, endCommand = c, endTurn = t, endError = e\<rparr>)))))"

definition DecodePrune :: "raw \<Rightarrow> compaction_prune res" where
  "DecodePrune r =
     bindE (wrapE (\<lambda>e. Errorf ''compaction: decode prune: %w'' [AErr e])
              (strict_fields [''shadowedRange'', ''shadowedSeqs'', ''shadowedTokenCount''] r)) (\<lambda>fs.
     bindE (decodeRequiredRange (get_raw fs ''shadowedRange'')) (\<lambda>range.
     bindE (decodeRequiredSequences (get_raw fs ''shadowedSeqs'')) (\<lambda>seqs.
     bindE (failIf (elements seqs = []) (err ''compaction: prune shadowedSeqs must be non-empty'')) (\<lambda>_.
     bindE (failIf (hd (elements seqs) \<noteq> rangeStart range \<or> last (elements seqs) \<noteq> rangeEnd range)
              (err ''compaction: prune shadowedRange must match the first and last shadowedSeqs'')) (\<lambda>_.
     bindE (decodeRequiredSafeInteger (get_raw fs ''shadowedTokenCount'') ''prune shadowedTokenCount'') (\<lambda>tokens.
     Inr \<lparr>pruneRange = range, pruneSeqs = seqs, pruneTokenCount = tokens\<rparr>))))))"

definition validate_payload :: "event \<Rightarrow> unit res" where
  "validate_payload entry =
     wrapE (\<lambda>e. Errorf ''compaction: invalid %s at seq %d: %w''
              [AStr (evType entry), AInt (evSeq entry), AErr e])
       (if evType entry = ''compaction/start'' then bindE (DecodeStart (evData entry)) (\<lambda>_. Inr ())
        else if evType entry = ''compaction/summary'' then bindE (DecodeSummary (evData entry)) (\<lambda>_. Inr ())
        else if evType entry = ''compaction/end'' then bindE (DecodeEnd (evData entry)) (\<lambda>_. Inr ())
        else if evType entry = ''compaction/prune'' then bindE (DecodePrune (evData entry)) (\<lambda>_. Inr ())
        else Inr ())"

section \<open>Checkpoint provenance\<close>

definition IsCheckpointSource :: "message_source \<Rightarrow> bool" where
  "IsCheckpointSource src =
     (if SourceKind src \<noteq> ''plugin'' then False
      else case src of
        CheckpointSource i c \<Rightarrow> True
      | _ \<Rightarrow>
          (case marshal_source src of
             Inl e \<Rightarrow> False
           | Inr encoded \<Rightarrow>
               bindE (fields_of (Doc encoded)) (\<lambda>fs.
               bindE (get_string fs ''kind'') (\<lambda>k.
               bindE (get_string fs ''plugin'') (\<lambda>p. Inr (k, p)))) = Inr (''plugin'', ''compact'')))"

definition decodeCheckpointSource :: "message_source \<Rightarrow> (string \<times> string option) option res" where
  "decodeCheckpointSource src =
     (if \<not> IsCheckpointSource src then Inr None
      else
        bindE (marshal_source src) (\<lambda>encoded.
        bindE (strict_fields [''kind'', ''plugin'', ''compactionId'', ''sourceCommandId''] (Doc encoded)) (\<lambda>fs.
        bindE (get_string fs ''kind'') (\<lambda>k.
        bindE (get_string fs ''plugin'') (\<lambda>p.
        bindE (get_string fs ''compactionId'') (\<lambda>i.
        bindE (scan_pointer as_string None (matches ''sourceCommandId'' fs)) (\<lambda>c.
        bindE (failIf (k \<noteq> ''plugin'' \<or> p \<noteq> ''compact'')
                 (err ''compaction: checkpoint source marker does not match'')) (\<lambda>_.
        bindE (NewCheckpointSource i c) (\<lambda>_. Inr (Some (i, c)))))))))))"

section \<open>Round trips\<close>

lemma fold_compaction_fields [simp]:
  "fold_key ''compactionId'' = ''compactionid''"
  "fold_key ''sourceCommandId'' = ''sourcecommandid''"
  "fold_key ''error'' = ''error''"
  "fold_key ''rawOutput'' = ''rawoutput''"
  "fold_key ''llmStreamCall'' = ''llmstreamcall''"
  "fold_key ''shadowedRange'' = ''shadowedrange''"
  "fold_key ''shadowedSeqs'' = ''shadowedseqs''"
  "fold_key ''shadowedTokenCount'' = ''shadowedtokencount''"
  "fold_key ''maxTokens'' = ''maxtokens''"
  "fold_key ''inputTokens'' = ''inputtokens''"
  "fold_key ''outputTokens'' = ''outputtokens''"
  "fold_key ''cacheReadTokens'' = ''cachereadtokens''"
  "fold_key ''cacheWriteTokens'' = ''cachewritetokens''"
  "fold_key ''reasoningTokens'' = ''reasoningtokens''"
  by code_simp+

definition valid_turn :: "int option \<Rightarrow> bool" where
  "valid_turn t = (case t of None \<Rightarrow> True | Some n \<Rightarrow> 0 < n \<and> n \<le> maxSafeInteger)"

definition valid_start :: "compaction_start \<Rightarrow> bool" where
  "valid_start s = (startID s \<noteq> [] \<and> startCommand s \<noteq> Some [] \<and> valid_turn (startTurn s))"

definition valid_end :: "compaction_end \<Rightarrow> bool" where
  "valid_end e = (endID e \<noteq> [] \<and> endCommand e \<noteq> Some [] \<and> valid_turn (endTurn e))"

definition safe_seqs :: "int go_slice \<Rightarrow> bool" where
  "safe_seqs s = (s \<noteq> Some [] \<and> list_all isSafeNonNegative (elements s))"

definition valid_range :: "surface_range \<Rightarrow> bool" where
  "valid_range r = (isSafeNonNegative (rangeStart r) \<and> isSafeNonNegative (rangeEnd r))"

definition valid_prune :: "compaction_prune \<Rightarrow> bool" where
  "valid_prune p =
     (valid_range (pruneRange p) \<and> safe_seqs (pruneSeqs p) \<and> elements (pruneSeqs p) \<noteq> [] \<and>
      hd (elements (pruneSeqs p)) = rangeStart (pruneRange p) \<and>
      last (elements (pruneSeqs p)) = rangeEnd (pruneRange p) \<and> isSafeNonNegative (pruneTokenCount p))"

lemma safe_int64: "0 \<le> n \<Longrightarrow> n \<le> maxSafeInteger \<Longrightarrow> int64 n"
  by (simp add: isSafeNonNegative_def isSafeNonNegative_int64)

lemma safe_decode: "isSafeNonNegative n \<Longrightarrow> as_int64 (jint n) = Some n"
  by (rule int64_decode) (rule isSafeNonNegative_int64)

lemma safe_lossless: "isSafeNonNegative n \<Longrightarrow> lossless (jint n)"
  by (rule int64_lossless) (rule isSafeNonNegative_int64)

lemma turn_decode:
  "valid_turn t \<Longrightarrow> decodeRequiredNullableTurn (Doc (nullable (\<lambda>x. jint x) t)) l = Inr t \<and>
   lossless (nullable (\<lambda>x. jint x) t)"
  using int64_decode [of "the t"] int64_lossless [of "the t"]
  by (cases t) (auto simp: decodeRequiredNullableTurn_def nullable_def valid_turn_def safe_int64
      simp del: as_int64.simps lossless.simps(4))

lemma turn_valid: "decodeRequiredNullableTurn r l = Inr t \<Longrightarrow> valid_turn t"
  by (auto simp: decodeRequiredNullableTurn_def valid_turn_def split: if_splits sum.splits)

lemma optional_string_valid: "decodeOptionalString r l False = Inr c \<Longrightarrow> c \<noteq> Some []"
  by (auto simp: decodeOptionalString_def bindE_Inr_iff failIf_Inr split: if_splits)

lemma DecodeStart_valid: "DecodeStart r = Inr s \<Longrightarrow> valid_start s"
  by (auto simp: DecodeStart_def valid_start_def bindE_Inr_iff failIf_Inr decodeOptionalIdentifier_def
      dest: optional_string_valid turn_valid)

lemma DecodeEnd_valid: "DecodeEnd r = Inr s \<Longrightarrow> valid_end s"
  by (auto simp: DecodeEnd_def valid_end_def bindE_Inr_iff failIf_Inr decodeOptionalIdentifier_def
      dest: optional_string_valid turn_valid)

lemma start_round_trip:
  "valid_start s \<Longrightarrow> \<exists>j. marshal_start s = Inr j \<and> lossless j \<and> DecodeStart (Doc j) = Inr s"
  using turn_decode [of "startTurn s" "''start turn''"]
  by (cases s; cases "startCommand s")
    (auto simp: marshal_start_def DecodeStart_def valid_start_def omit_def get_string_def get_raw_def
      decodeOptionalIdentifier_def decodeOptionalString_def)

lemma end_round_trip:
  "valid_end e \<Longrightarrow> \<exists>j. marshal_end e = Inr j \<and> lossless j \<and> DecodeEnd (Doc j) = Inr e"
  using turn_decode [of "endTurn e" "''end turn''"]
  by (cases e; cases "endCommand e"; cases "endError e")
    (auto simp: marshal_end_def DecodeEnd_def valid_end_def omit_def get_string_def get_raw_def
      decodeOptionalIdentifier_def decodeOptionalString_def)

lemma seqs_decode:
  assumes "safe_seqs s" "s \<noteq> None"
  shows "decodeRequiredSequences (Doc (json_seqs s)) = Inr s \<and> lossless (json_seqs s)"
proof -
  obtain xs where s: "s = Some xs" "xs \<noteq> []" "list_all isSafeNonNegative xs"
    using assms by (cases s) (auto simp: safe_seqs_def elements_def)
  have "mapE (\<lambda>x. scan_scalar as_int64 0 [x]) (map (\<lambda>x. jint x) xs) = Inr (map (\<lambda>x. x) xs)"
    using s(3) safe_decode by (intro mapE_map) (auto simp: list_all_iff simp del: as_int64.simps)
  with s show ?thesis
    by (auto simp: json_seqs_def decodeRequiredSequences_def append_nil_def list_all_iff
        intro: safe_lossless simp del: lossless.simps(4))
qed

lemma range_decode:
  "valid_range r \<Longrightarrow> decodeRequiredRange (Doc (json_range r)) = Inr r \<and> lossless (json_range r)"
  by (cases r) (auto simp: decodeRequiredRange_def json_range_def valid_range_def get_raw_def
      decodeRequiredSafeInteger_def safe_decode safe_lossless simp del: as_int64.simps lossless.simps(4))

lemma integer_decode:
  "isSafeNonNegative n \<Longrightarrow> decodeRequiredSafeInteger (Doc (jint n)) l = Inr n \<and> lossless (jint n)"
  by (simp add: decodeRequiredSafeInteger_def safe_decode safe_lossless del: as_int64.simps lossless.simps(4))

lemma integer_valid: "decodeRequiredSafeInteger r l = Inr n \<Longrightarrow> isSafeNonNegative n"
  by (auto simp: decodeRequiredSafeInteger_def split: if_splits sum.splits)

lemma range_valid: "decodeRequiredRange r = Inr x \<Longrightarrow> valid_range x"
  by (auto simp: decodeRequiredRange_def valid_range_def bindE_Inr_iff dest: integer_valid split: if_splits)

lemma seqs_valid: "decodeRequiredSequences r = Inr s \<Longrightarrow> safe_seqs s"
  by (auto simp: decodeRequiredSequences_def safe_seqs_def append_nil_def elements_def
      split: if_splits sum.splits option.splits)

lemma DecodePrune_valid: "DecodePrune r = Inr p \<Longrightarrow> valid_prune p"
  by (auto simp: DecodePrune_def valid_prune_def bindE_Inr_iff failIf_Inr
      dest: integer_valid range_valid seqs_valid)

lemma prune_round_trip:
  assumes "valid_prune p"
  shows "\<exists>j. marshal_prune p = Inr j \<and> lossless j \<and> DecodePrune (Doc j) = Inr p"
proof -
  have "pruneSeqs p \<noteq> None" using assms by (cases "pruneSeqs p") (auto simp: valid_prune_def elements_def)
  with assms show ?thesis
    using range_decode [of "pruneRange p"] seqs_decode [of "pruneSeqs p"]
      integer_decode [of "pruneTokenCount p" "''prune shadowedTokenCount''"]
    by (auto simp: marshal_prune_def DecodePrune_def valid_prune_def get_raw_def
        simp del: lossless.simps(4))
qed

interpretation start_codec: payload_codec marshal_start DecodeStart valid_start
  by unfold_locales (auto intro: start_round_trip DecodeStart_valid)

interpretation end_codec: payload_codec marshal_end DecodeEnd valid_end
  by unfold_locales (auto intro: end_round_trip DecodeEnd_valid)

interpretation prune_codec: payload_codec marshal_prune DecodePrune valid_prune
  by unfold_locales (auto intro: prune_round_trip DecodePrune_valid)

section \<open>The summary payload\<close>

definition valid_usage :: "token_usage \<Rightarrow> bool" where
  "valid_usage u =
     (isSafeNonNegative (inputTokens u) \<and> isSafeNonNegative (outputTokens u) \<and>
      pred_option isSafeNonNegative (cacheReadTokens u) \<and> pred_option isSafeNonNegative (cacheWriteTokens u) \<and>
      pred_option isSafeNonNegative (reasoningTokens u))"

definition canonical_content :: "content_block go_slice \<Rightarrow> bool" where
  "canonical_content c = (case c of None \<Rightarrow> False | Some bs \<Rightarrow> \<forall>b \<in> set bs. canonical_block b)"

text \<open>A summary as the package writes it: canonical content and a non-empty selection.\<close>

definition valid_summary :: "compaction_summary \<Rightarrow> bool" where
  "valid_summary s =
     (sumID s \<noteq> [] \<and> sumCommand s \<noteq> Some [] \<and> canonical_content (sumSummary s) \<and>
      (sumRawOutput s = None \<or> canonical_content (sumRawOutput s)) \<and>
      (sumStreamCall s \<longrightarrow> sumRawOutput s \<noteq> None) \<and> valid_range (sumRange s) \<and>
      safe_seqs (sumSeqs s) \<and> sumSeqs s \<noteq> None \<and> isSafeNonNegative (sumTokenCount s) \<and>
      valid_turn (sumMaxTokens s) \<and> pred_option valid_usage (sumUsage s))"

lemma content_decode:
  assumes "canonical_content c"
  shows "\<exists>js. marshal_content c = Inr (JArr js) \<and> marshal_blocks (elements c) = Inr js \<and> lossless (JArr js) \<and>
    decodeRequiredContent (Doc (JArr js)) l = Inr c"
proof -
  obtain bs where c: "c = Some bs" "\<forall>b \<in> set bs. canonical_block b"
    using assms by (auto simp: canonical_content_def split: option.splits)
  obtain js where js: "marshal_blocks bs = Inr js" "\<forall>j \<in> set js. lossless j"
    "list_all2 (\<lambda>b j. DecodeContentBlock j = Inr b) bs js"
    using marshal_canonical(2) [OF c(2)] by blast
  then show ?thesis
    using decode_blocks_list [OF js(3,2)]
    by (auto simp: c marshal_content_def elements_def decodeRequiredContent_def)
qed

lemma optional_integer_decode:
  "pred_option isSafeNonNegative x \<Longrightarrow>
   decodeOptionalSafeInteger (case x of None \<Rightarrow> Absent | Some n \<Rightarrow> Doc (jint n)) l = Inr x"
  using integer_decode [of "the x" l] by (cases x) (auto simp: decodeOptionalSafeInteger_def)

lemma get_raw_option:
  "matches n fs = (case x of None \<Rightarrow> [] | Some v \<Rightarrow> [f v]) \<Longrightarrow>
   get_raw fs n = (case x of None \<Rightarrow> Absent | Some v \<Rightarrow> Doc (f v))"
  by (auto simp: get_raw_def split: option.splits)

lemma usage_decode:
  assumes "valid_usage u"
  shows "decodeOptionalUsage (Doc (json_usage u)) = Inr (Some u) \<and> lossless (json_usage u)"
proof -
  define fs where "fs = [(''inputTokens'', jint (inputTokens u)), (''outputTokens'', jint (outputTokens u))]
       @ omit ''cacheReadTokens'' (\<lambda>x. jint x) (cacheReadTokens u)
       @ omit ''cacheWriteTokens'' (\<lambda>x. jint x) (cacheWriteTokens u)
       @ omit ''reasoningTokens'' (\<lambda>x. jint x) (reasoningTokens u)"
  have k: "known_fields [''inputTokens'', ''outputTokens'', ''cacheReadTokens'', ''cacheWriteTokens'',
                          ''reasoningTokens''] fs"
    by (simp add: fs_def known_fields_omit)
  have g: "get_raw fs ''inputTokens'' = Doc (jint (inputTokens u))"
    "get_raw fs ''outputTokens'' = Doc (jint (outputTokens u))"
    by (simp_all add: fs_def get_raw_def matches_omit)
  have o: "get_raw fs ''cacheReadTokens'' = (case cacheReadTokens u of None \<Rightarrow> Absent | Some n \<Rightarrow> Doc (jint n))"
    "get_raw fs ''cacheWriteTokens'' = (case cacheWriteTokens u of None \<Rightarrow> Absent | Some n \<Rightarrow> Doc (jint n))"
    "get_raw fs ''reasoningTokens'' = (case reasoningTokens u of None \<Rightarrow> Absent | Some n \<Rightarrow> Doc (jint n))"
    by (rule get_raw_option; simp add: fs_def matches_omit)+
  have "lossless (JObj fs)"
    using assms by (auto simp: fs_def valid_usage_def omit_def safe_lossless simp del: lossless.simps(4)
        split: option.splits)
  moreover have "json_usage u = JObj fs" by (simp add: json_usage_def fs_def)
  ultimately show ?thesis
    using assms k
    by (cases u) (auto simp: decodeOptionalUsage_def g o valid_usage_def integer_decode optional_integer_decode)
qed

lemma summary_round_trip:
  assumes v: "valid_summary s"
  shows "\<exists>j. marshal_summary s = Inr j \<and> lossless j \<and> DecodeSummary (Doc j) = Inr s"
proof -
  from v obtain js where js: "marshal_content (sumSummary s) = Inr (JArr js)" "lossless (JArr js)"
    "decodeRequiredContent (Doc (JArr js)) ''summary'' = Inr (sumSummary s)"
    using content_decode [of "sumSummary s" "''summary''"] by (auto simp: valid_summary_def)
  obtain os where os: "marshal_blocks (elements (sumRawOutput s)) = Inr os" "lossless (JArr os)"
    "sumRawOutput s \<noteq> None \<Longrightarrow>
       decodeRequiredContent (Doc (JArr os)) ''summary rawOutput'' = Inr (sumRawOutput s)"
  proof (cases "sumRawOutput s")
    case None
    with that [of "[]"] show ?thesis by (simp add: elements_def)
  next
    case (Some bs)
    with v have "canonical_content (sumRawOutput s)" by (simp add: valid_summary_def)
    from content_decode [OF this, of "''summary rawOutput''"] that show ?thesis by blast
  qed
  define fs where "fs = [(''compactionId'', JStr (sumID s))]
        @ omit ''sourceCommandId'' JStr (sumCommand s)
        @ [(''summary'', JArr js)]
        @ (if sumRawOutput s = None then [] else [(''rawOutput'', JArr os)])
        @ (if sumStreamCall s then [(''llmStreamCall'', JBool True)] else [])
        @ [(''shadowedRange'', json_range (sumRange s)), (''shadowedSeqs'', json_seqs (sumSeqs s)),
           (''shadowedTokenCount'', jint (sumTokenCount s)), (''provider'', JStr (sumProvider s)),
           (''model'', JStr (sumModel s))]
        @ omit ''maxTokens'' (\<lambda>x. jint x) (sumMaxTokens s)
        @ omit ''usage'' json_usage (sumUsage s)"
  have call: "sumStreamCall s \<Longrightarrow> sumRawOutput s \<noteq> None" using v by (simp add: valid_summary_def)
  have m: "marshal_summary s = Inr (JObj fs)"
    using js(1) os(1) call by (auto simp: marshal_summary_def fs_def)
  have k: "known_fields summary_fields fs"
    by (simp add: fs_def known_fields_omit summary_fields_def)
  have g: "get_string fs ''compactionId'' = Inr (sumID s)"
    "get_raw fs ''summary'' = Doc (JArr js)"
    "get_raw fs ''rawOutput'' = (if sumRawOutput s = None then Absent else Doc (JArr os))"
    "get_raw fs ''llmStreamCall'' = (if sumStreamCall s then Doc (JBool True) else Absent)"
    "get_raw fs ''shadowedRange'' = Doc (json_range (sumRange s))"
    "get_raw fs ''shadowedSeqs'' = Doc (json_seqs (sumSeqs s))"
    "get_raw fs ''shadowedTokenCount'' = Doc (jint (sumTokenCount s))"
    "get_raw fs ''provider'' = Doc (JStr (sumProvider s))" "get_raw fs ''model'' = Doc (JStr (sumModel s))"
    by (simp_all add: fs_def get_raw_def get_string_def matches_omit)
  have o: "get_raw fs ''sourceCommandId'' = (case sumCommand s of None \<Rightarrow> Absent | Some n \<Rightarrow> Doc (JStr n))"
    "get_raw fs ''maxTokens'' = (case sumMaxTokens s of None \<Rightarrow> Absent | Some n \<Rightarrow> Doc (jint n))"
    "get_raw fs ''usage'' = (case sumUsage s of None \<Rightarrow> Absent | Some n \<Rightarrow> Doc (json_usage n))"
    by (rule get_raw_option; simp add: fs_def matches_omit)+
  have d: "decodeOptionalIdentifier (case sumCommand s of None \<Rightarrow> Absent | Some n \<Rightarrow> Doc (JStr n))
      ''summary sourceCommandId'' = Inr (sumCommand s)"
    using v by (auto simp: decodeOptionalIdentifier_def decodeOptionalString_def valid_summary_def split: option.splits)
  have t: "decodeOptionalPositiveInt (case sumMaxTokens s of None \<Rightarrow> Absent | Some n \<Rightarrow> Doc (jint n))
      ''summary maxTokens'' = Inr (sumMaxTokens s)"
    using v safe_int64 [of "the (sumMaxTokens s)"] int64_decode [of "the (sumMaxTokens s)"]
    by (auto simp: decodeOptionalPositiveInt_def valid_summary_def valid_turn_def simp del: as_int64.simps
        split: option.splits)
  have u: "decodeOptionalUsage (case sumUsage s of None \<Rightarrow> Absent | Some n \<Rightarrow> Doc (json_usage n)) = Inr (sumUsage s)"
    using v usage_decode by (auto simp: decodeOptionalUsage_def [of Absent] valid_summary_def split: option.splits)
  have r: "decodeRequiredRange (Doc (json_range (sumRange s))) = Inr (sumRange s)" "lossless (json_range (sumRange s))"
    "decodeRequiredSequences (Doc (json_seqs (sumSeqs s))) = Inr (sumSeqs s)" "lossless (json_seqs (sumSeqs s))"
    "isSafeNonNegative (sumTokenCount s)"
    using v range_decode seqs_decode by (auto simp: valid_summary_def)
  have out: "decodeOptionalContent (if sumRawOutput s = None then Absent else Doc (JArr os)) ''summary rawOutput'' =
      Inr (sumRawOutput s, sumRawOutput s \<noteq> None)"
    using os(3) by (auto simp: decodeOptionalContent_def)
  have call_d: "decodeOptionalTrue (if sumStreamCall s then Doc (JBool True) else Absent) ''summary llmStreamCall'' =
      Inr (sumStreamCall s, sumStreamCall s)"
    by (simp add: decodeOptionalTrue_def)
  have str: "decodeRequiredString (Doc (JStr x)) l = Inr x" for x l
    by (simp add: decodeRequiredString_def)
  have nofail: "failIf (sumStreamCall s \<and> sumRawOutput s = None) e = Inr ()" for e
    using call by (auto simp: failIf_def)
  have "sumID s \<noteq> []" using v by (auto simp: valid_summary_def)
  then have "DecodeSummary (Doc (JObj fs)) = Inr s"
    by (simp add: nofail DecodeSummary_def k g(1) bindE.simps split_beta
        g(2-) o d t u r str out call_d js(3) integer_decode)
  moreover have "lossless (JObj fs)"
    using v js(2) os(2) r usage_decode safe_int64 int64_lossless
    by (auto simp: fs_def omit_def valid_summary_def valid_turn_def safe_lossless
        simp del: lossless.simps(4) lossless.simps(5) split: option.splits)
  ultimately show ?thesis using m by blast
qed

end
