(* ===== verification/CompactionLog.thy ===== *)
theory CompactionLog
  imports CompactionCodec
begin

text \<open>
  The durable compaction lock (\<open>src/compaction/invariant.go\<close>), reconstructed from a session
  log with the cross-event rules it enforces, and the tool pairing of a surface
  (\<open>src/compaction/tool_pairing.go\<close>): the cuts at which no tool call waits for its result.
\<close>

section \<open>State\<close>

record open_attempt =
  attID :: string
  attCommand :: "string option"
  attStart :: int
  attTurn :: "int option"
  attSummarized :: bool

record log_state =
  openTurn :: "int option"
  attempt :: "open_attempt option"

definition inspectError :: "event \<Rightarrow> goerr \<Rightarrow> goerr" where
  "inspectError entry cause =
     Errorf ''compaction: inspect %s at seq %d: %w'' [AStr (evType entry), AInt (evSeq entry), AErr cause]"

text \<open>The starts that an inherited seed left open: the loop with the open start and the set.\<close>

fun orphan_loop :: "int option \<Rightarrow> event list \<Rightarrow> int list" where
  "orphan_loop openSeq [] = []"
| "orphan_loop openSeq (e # es) =
     (if evType e = ''compaction/start'' then orphan_loop (Some (evSeq e)) es
      else if evType e = ''compaction/end'' then orphan_loop None es
      else if evType e = EndSeedEventName then
        (case openSeq of None \<Rightarrow> [] | Some s \<Rightarrow> [s]) @ orphan_loop None es
      else orphan_loop openSeq es)"

definition inheritedOrphanStarts :: "event list \<Rightarrow> int list" where
  "inheritedOrphanStarts es = orphan_loop None es"

section \<open>Owners\<close>

definition validateCompactionTurnBoundary :: "log_state \<Rightarrow> event \<Rightarrow> unit res" where
  "validateCompactionTurnBoundary current entry =
     (case attempt current of
        None \<Rightarrow> Inr ()
      | Some a \<Rightarrow>
          if evType entry \<noteq> ''turn/start'' \<and> evType entry \<noteq> ''turn/end'' then Inr ()
          else Inl (Errorf ''%s cannot cross an open %s''
                 [AStr (evType entry),
                  (case attTurn a of None \<Rightarrow> AStr ''standalone compaction''
                   | Some t \<Rightarrow> AErr (Errorf ''compaction for turn %d'' [AInt t]))]))"

definition validateCompactionOwner :: "int option \<Rightarrow> int option \<Rightarrow> string \<Rightarrow> unit res" where
  "validateCompactionOwner owner opened eventType =
     (case owner of
        None \<Rightarrow>
          (case opened of
             None \<Rightarrow> Inr ()
           | Some t \<Rightarrow> Inl (Errorf ''%s is standalone but turn %d is open'' [AStr eventType, AInt t]))
      | Some t \<Rightarrow>
          (case opened of
             None \<Rightarrow> Inl (Errorf ''%s for turn %d appended outside any open turn'' [AStr eventType, AInt t])
           | Some u \<Rightarrow>
               failIf (t \<noteq> u)
                 (Errorf ''%s names turn %d but open turn is %d'' [AStr eventType, AInt t, AInt u])))"

definition optionalStringLabel :: "string option \<Rightarrow> earg" where
  "optionalStringLabel v = AStr (case v of None \<Rightarrow> ''undefined'' | Some s \<Rightarrow> s)"

definition turnLabel :: "int option \<Rightarrow> earg" where
  "turnLabel v = (case v of None \<Rightarrow> AStr ''null'' | Some t \<Rightarrow> AErr (Errorf ''%d'' [AInt t]))"

definition validateSourceCommandOwner :: "string \<Rightarrow> string option \<Rightarrow> string option \<Rightarrow> unit res" where
  "validateSourceCommandOwner eventType actual expected =
     failIf (actual \<noteq> expected)
       (Errorf ''%s sourceCommandId %s does not match compaction/start sourceCommandId %s''
          [AStr eventType, optionalStringLabel actual, optionalStringLabel expected])"

definition validateCompactionCheckpoint :: "log_state \<Rightarrow> event \<Rightarrow> unit res" where
  "validateCompactionCheckpoint current entry =
     bindE (decodeDerivedMessage entry) (\<lambda>messageValue. case messageValue of
       None \<Rightarrow> Inr ()
     | Some m \<Rightarrow>
         bindE (decodeCheckpointSource (source_value (message_val m))) (\<lambda>checkpoint. case checkpoint of
           None \<Rightarrow> Inr ()
         | Some (i, c) \<Rightarrow>
             (case attempt current of
                None \<Rightarrow> Inl (err ''compaction checkpoint has no matching compaction/start'')
              | Some a \<Rightarrow>
                  bindE (failIf (i \<noteq> attID a)
                    (Errorf ''compaction checkpoint id %s does not match compaction/start id %s''
                       [AStr i, AStr (attID a)])) (\<lambda>_.
                  validateSourceCommandOwner ''compaction checkpoint'' c (attCommand a)))))"

section \<open>The effect of one event\<close>

definition lock_start :: "log_state \<Rightarrow> event \<Rightarrow> log_state res" where
  "lock_start current entry =
     bindE (DecodeStart (evData entry)) (\<lambda>s.
     bindE (case attempt current of
              None \<Rightarrow> Inr ()
            | Some a \<Rightarrow> Inl (Errorf ''compaction/start while %s is still compacting''
                 [case attTurn a of None \<Rightarrow> AStr ''standalone compaction''
                  | Some t \<Rightarrow> AErr (Errorf ''turn %d'' [AInt t])])) (\<lambda>_.
     bindE (validateCompactionOwner (startTurn s) (openTurn current) (evType entry)) (\<lambda>_.
     Inr (current\<lparr>attempt := Some \<lparr>attID = startID s, attCommand = startCommand s, attStart = evSeq entry,
                                    attTurn = startTurn s, attSummarized = False\<rparr>\<rparr>))))"

definition lock_summary :: "log_state \<Rightarrow> event \<Rightarrow> log_state res" where
  "lock_summary current entry =
     bindE (DecodeSummary (evData entry)) (\<lambda>s.
     case attempt current of
       None \<Rightarrow> Inl (err ''compaction/summary has no matching compaction/start'')
     | Some a \<Rightarrow>
         bindE (failIf (sumID s \<noteq> attID a)
           (Errorf ''compaction/summary id %s does not match compaction/start id %s''
              [AStr (sumID s), AStr (attID a)])) (\<lambda>_.
         bindE (validateSourceCommandOwner (evType entry) (sumCommand s) (attCommand a)) (\<lambda>_.
         bindE (validateCompactionOwner (attTurn a) (openTurn current) (evType entry)) (\<lambda>_.
         bindE (failIf (attSummarized a) (err ''compaction/summary repeated within one compaction'')) (\<lambda>_.
         bindE (failIf (elements (sumSeqs s) = [])
                  (err ''compaction/summary shadowedSeqs must be non-empty'')) (\<lambda>_.
         bindE (failIf (hd (elements (sumSeqs s)) \<noteq> rangeStart (sumRange s) \<or>
                        last (elements (sumSeqs s)) \<noteq> rangeEnd (sumRange s))
                  (err ''compaction/summary shadowedRange must match the first and last shadowedSeqs'')) (\<lambda>_.
         Inr (current\<lparr>attempt := Some (a\<lparr>attSummarized := True\<rparr>)\<rparr>))))))))"

definition lock_end :: "log_state \<Rightarrow> event \<Rightarrow> log_state res" where
  "lock_end current entry =
     bindE (DecodeEnd (evData entry)) (\<lambda>e.
     case attempt current of
       None \<Rightarrow> Inl (err ''compaction/end has no matching compaction/start'')
     | Some a \<Rightarrow>
         bindE (failIf (endID e \<noteq> attID a)
           (Errorf ''compaction/end id %s does not match compaction/start id %s''
              [AStr (endID e), AStr (attID a)])) (\<lambda>_.
         bindE (validateSourceCommandOwner (evType entry) (endCommand e) (attCommand a)) (\<lambda>_.
         bindE (failIf (endTurn e \<noteq> attTurn a)
           (Errorf ''compaction/end owner %s does not match compaction/start owner %s''
              [turnLabel (endTurn e), turnLabel (attTurn a)])) (\<lambda>_.
         bindE (validateCompactionOwner (attTurn a) (openTurn current) (evType entry)) (\<lambda>_.
         bindE (failIf (endError e = None \<and> \<not> attSummarized a)
                  (err ''successful compaction/end requires one compaction/summary'')) (\<lambda>_.
         Inr (current\<lparr>attempt := None\<rparr>)))))))"

definition applyCompactionEvent :: "log_state \<Rightarrow> event \<Rightarrow> log_state res" where
  "applyCompactionEvent current entry =
     (if evType entry = EndSeedEventName then Inr (current\<lparr>attempt := None\<rparr>)
      else
        bindE (if evType entry = ''user/message'' \<and> is_replacement entry
               then validateCompactionCheckpoint current entry else Inr ()) (\<lambda>_.
        if evType entry = ''compaction/start'' then lock_start current entry
        else if evType entry = ''compaction/summary'' then lock_summary current entry
        else if evType entry = ''compaction/end'' then lock_end current entry
        else if evType entry = ''compaction/prune'' then
          bindE (DecodePrune (evData entry)) (\<lambda>_. Inr current)
        else Inr current))"

definition decodeRequiredPositiveTurn :: "raw \<Rightarrow> string \<Rightarrow> int res" where
  "decodeRequiredPositiveTurn r label =
     (if r = Absent then Inl (Errorf ''%s turn is required'' [AStr label])
      else case unmarshal_scalar as_int64 0 r of
        Inr v \<Rightarrow> if v \<le> 0 \<or> v > maxSafeInteger
          then Inl (Errorf ''%s turn must be a positive safe integer'' [AStr label]) else Inr v
      | Inl e \<Rightarrow> Inl (Errorf ''%s turn must be a positive safe integer'' [AStr label]))"

definition decodeTurnBoundary :: "event \<Rightarrow> int res" where
  "decodeTurnBoundary entry =
     bindE (wrapE (\<lambda>e. Errorf ''decode %s: %w'' [AStr (evType entry), AErr e]) (fields_of (evData entry))) (\<lambda>fs.
     decodeRequiredPositiveTurn (get_raw fs ''turn'') (evType entry))"

definition applyCompactionTurnBoundary :: "log_state \<Rightarrow> event \<Rightarrow> log_state res" where
  "applyCompactionTurnBoundary current entry =
     (if evType entry \<noteq> ''turn/start'' \<and> evType entry \<noteq> ''turn/end'' then Inr current
      else bindE (decodeTurnBoundary entry) (\<lambda>t.
        Inr (current\<lparr>openTurn := (if evType entry = ''turn/start'' then Some t else None)\<rparr>)))"

definition inspect_step :: "int list \<Rightarrow> log_state \<Rightarrow> event \<Rightarrow> log_state res" where
  "inspect_step stale current entry =
     wrapE (inspectError entry)
       (bindE (if (case attempt current of None \<Rightarrow> True | Some a \<Rightarrow> attStart a \<notin> set stale)
               then validateCompactionTurnBoundary current entry else Inr ()) (\<lambda>_.
        bindE (applyCompactionEvent current entry) (\<lambda>applied.
        applyCompactionTurnBoundary applied entry)))"

fun inspect_loop :: "int list \<Rightarrow> log_state \<Rightarrow> event list \<Rightarrow> log_state res" where
  "inspect_loop stale current [] = Inr current"
| "inspect_loop stale current (e # es) =
     bindE (inspect_step stale current e) (\<lambda>next. inspect_loop stale next es)"

definition no_attempt :: log_state where
  "no_attempt = \<lparr>openTurn = None, attempt = None\<rparr>"

definition InspectLog :: "event list \<Rightarrow> log_state res" where
  "InspectLog es = inspect_loop (inheritedOrphanStarts es) no_attempt es"

section \<open>Tool pairing\<close>

fun is_tool_call :: "content_block \<Rightarrow> bool" where
  "is_tool_call (ToolCallBlock i n a) = True"
| "is_tool_call b = False"

definition eventAtSequence :: "event list \<Rightarrow> int \<Rightarrow> event res" where
  "eventAtSequence events sequence =
     (if sequence < 0 \<or> sequence \<ge> int (length events) \<or> evSeq (events ! nat sequence) \<noteq> sequence
      then Inl (Errorf ''tool-pairing balance: surface seq %d has no matching session event (corrupt surface)''
                  [AInt sequence])
      else Inr (events ! nat sequence))"

definition toolPairingDelta :: "event \<Rightarrow> int res" where
  "toolPairingDelta entry =
     (if evType entry = ''assistant/message'' then
        bindE (decodeDerivedMessage entry) (\<lambda>messageValue. case messageValue of
          None \<Rightarrow> Inr 0
        | Some m \<Rightarrow> Inr (int (length (filter is_tool_call (content_value (message_val m))))))
      else if evType entry = ''tool/result'' then Inr (- 1)
      else Inr 0)"

record boundaries =
  cutBalanced :: "bool list"
  indexed :: "int list"

text \<open>
  The loop over the surface nodes.  \<open>indexed\<close> is the list of the nodes seen, so that the
  map \<open>indexBySeq\<close> of the code is the last position of a node in it.
\<close>

fun boundaries_loop :: "event list \<Rightarrow> boundaries \<Rightarrow> int \<Rightarrow> int list \<Rightarrow> boundaries res" where
  "boundaries_loop events b inProgress [] = Inr b"
| "boundaries_loop events b inProgress (sequence # rest) =
     bindE (eventAtSequence events sequence) (\<lambda>entry.
     bindE (toolPairingDelta entry) (\<lambda>delta.
     bindE (failIf (inProgress + delta < 0)
       (Errorf ''tool-pairing balance: tool/result at surface seq %d has no matching tool-call (corrupt surface)''
          [AInt sequence])) (\<lambda>_.
     boundaries_loop events
       (b\<lparr>indexed := indexed b @ [sequence], cutBalanced := cutBalanced b @ [inProgress + delta = 0]\<rparr>)
       (inProgress + delta) rest)))"

definition BuildToolPairingBoundaries :: "snapshot \<Rightarrow> boundaries res" where
  "BuildToolPairingBoundaries snap =
     boundaries_loop (snapEvents snap) \<lparr>cutBalanced = [True], indexed = []\<rparr> 0 (nodes (snapSurface snap))"

text \<open>The map lookup: the last position written for the node.\<close>

definition last_index :: "int list \<Rightarrow> int \<Rightarrow> nat option" where
  "last_index ns n =
     (case index_of (rev ns) n of k \<Rightarrow> if k < 0 then None else Some (length ns - 1 - nat k))"

definition cut :: "boundaries \<Rightarrow> int \<Rightarrow> nat \<Rightarrow> bool res" where
  "cut b sequence offset =
     (case last_index (indexed b) sequence of
        None \<Rightarrow> Inl (Errorf ''tool-pairing balance: surface seq %d not found'' [AInt sequence])
      | Some index \<Rightarrow>
          if index + offset \<ge> length (cutBalanced b)
          then Inl (Errorf ''tool-pairing balance: surface seq %d not found'' [AInt sequence])
          else Inr (cutBalanced b ! (index + offset)))"

definition CutBefore :: "boundaries \<Rightarrow> int \<Rightarrow> bool res" where
  "CutBefore b sequence = cut b sequence 0"

definition CutAfter :: "boundaries \<Rightarrow> int \<Rightarrow> bool res" where
  "CutAfter b sequence = cut b sequence 1"

definition ToolPairingBalancedBefore :: "snapshot \<Rightarrow> int \<Rightarrow> bool res" where
  "ToolPairingBalancedBefore snap sequence =
     bindE (BuildToolPairingBoundaries snap) (\<lambda>b. CutBefore b sequence)"

definition ToolPairingBalancedAfter :: "snapshot \<Rightarrow> int \<Rightarrow> bool res" where
  "ToolPairingBalancedAfter snap sequence =
     bindE (BuildToolPairingBoundaries snap) (\<lambda>b. CutAfter b sequence)"

section \<open>The lock over a log\<close>

definition is_start :: "event \<Rightarrow> bool" where
  "is_start e = (evType e = ''compaction/start'')"

definition releases :: "event \<Rightarrow> bool" where
  "releases e = (evType e = ''compaction/end'' \<or> evType e = EndSeedEventName)"

lemma inspect_loop_append:
  "inspect_loop stale st (es @ fs) = bindE (inspect_loop stale st es) (\<lambda>st'. inspect_loop stale st' fs)"
proof (induction es arbitrary: st)
  case (Cons e es)
  then show ?case by (cases "inspect_step stale st e") simp_all
qed simp

lemma orphan_loop_snoc:
  "evType e \<noteq> EndSeedEventName \<Longrightarrow> orphan_loop q (es @ [e]) = orphan_loop q es"
  by (induction es arbitrary: q) auto

lemma InspectLog_snoc:
  "evType e \<noteq> EndSeedEventName \<Longrightarrow>
   InspectLog (es @ [e]) = bindE (InspectLog es) (\<lambda>st. inspect_step (inheritedOrphanStarts es) st e)"
  by (cases "inspect_loop (inheritedOrphanStarts es) no_attempt es")
    (simp_all add: InspectLog_def inspect_loop_append inheritedOrphanStarts_def orphan_loop_snoc bindE_Inr_iff,
      cases "inspect_step (orphan_loop None es) (projr (inspect_loop (orphan_loop None es) no_attempt es)) e",
      simp_all)

text \<open>What a successful step does to the attempt, by the kind of its event.\<close>

lemma inspect_step_attempt:
  assumes "inspect_step stale st e = Inr st'"
  shows "evType e = EndSeedEventName \<Longrightarrow> attempt st' = None"
    and "is_start e \<Longrightarrow> attempt st = None \<and>
      (\<exists>s. DecodeStart (evData e) = Inr s \<and>
         attempt st' = Some \<lparr>attID = startID s, attCommand = startCommand s, attStart = evSeq e,
                             attTurn = startTurn s, attSummarized = False\<rparr>)"
    and "evType e = ''compaction/end'' \<Longrightarrow> attempt st' = None \<and>
      (\<exists>a x. attempt st = Some a \<and> DecodeEnd (evData e) = Inr x \<and> endID x = attID a \<and> endTurn x = attTurn a \<and>
             (endError x = None \<longrightarrow> attSummarized a))"
    and "evType e = ''compaction/summary'' \<Longrightarrow>
      \<exists>a x. attempt st = Some a \<and> \<not> attSummarized a \<and> attempt st' = Some (a\<lparr>attSummarized := True\<rparr>) \<and>
            DecodeSummary (evData e) = Inr x \<and> sumID x = attID a \<and> elements (sumSeqs x) \<noteq> []"
    and "\<not> is_start e \<Longrightarrow> \<not> releases e \<Longrightarrow> evType e \<noteq> ''compaction/summary'' \<Longrightarrow> attempt st' = attempt st"
proof -
  obtain mid where mid: "applyCompactionEvent st e = Inr mid" "applyCompactionTurnBoundary mid e = Inr st'"
    using assms by (auto simp: inspect_step_def wrapE_Inr_iff bindE_Inr_iff)
  have "attempt st' = attempt mid"
    using mid(2) by (auto simp: applyCompactionTurnBoundary_def bindE_Inr_iff split: if_splits)
  note this [simp]
  show "attempt st' = None" if "evType e = EndSeedEventName"
    using mid(1) that by (auto simp: applyCompactionEvent_def)
  show "attempt st = None \<and>
      (\<exists>s. DecodeStart (evData e) = Inr s \<and>
         attempt st' = Some \<lparr>attID = startID s, attCommand = startCommand s, attStart = evSeq e,
                             attTurn = startTurn s, attSummarized = False\<rparr>)" if "is_start e"
    using mid(1) that
    by (auto simp: applyCompactionEvent_def is_start_def EndSeedEventName_def lock_start_def bindE_Inr_iff
        split: option.splits)
  show "attempt st' = None \<and>
      (\<exists>a x. attempt st = Some a \<and> DecodeEnd (evData e) = Inr x \<and> endID x = attID a \<and> endTurn x = attTurn a \<and>
             (endError x = None \<longrightarrow> attSummarized a))" if "evType e = ''compaction/end''"
    using mid(1) that
    by (auto simp: applyCompactionEvent_def EndSeedEventName_def lock_end_def bindE_Inr_iff failIf_Inr
        split: option.splits)
  show "\<exists>a x. attempt st = Some a \<and> \<not> attSummarized a \<and> attempt st' = Some (a\<lparr>attSummarized := True\<rparr>) \<and>
            DecodeSummary (evData e) = Inr x \<and> sumID x = attID a \<and> elements (sumSeqs x) \<noteq> []"
    if "evType e = ''compaction/summary''"
    using mid(1) that
    by (auto simp: applyCompactionEvent_def EndSeedEventName_def lock_summary_def bindE_Inr_iff failIf_Inr
        split: option.splits)
  show "attempt st' = attempt st"
    if "\<not> is_start e" "\<not> releases e" "evType e \<noteq> ''compaction/summary''"
    using mid(1) that
    by (auto simp: applyCompactionEvent_def is_start_def releases_def bindE_Inr_iff split: if_splits)
qed

text \<open>Where the open attempt of a log comes from.\<close>

definition started_by :: "open_attempt \<Rightarrow> event \<Rightarrow> event list \<Rightarrow> bool" where
  "started_by a s post =
     (is_start s \<and> attStart a = evSeq s \<and>
      (\<exists>x. DecodeStart (evData s) = Inr x \<and> attID a = startID x \<and> attCommand a = startCommand x \<and>
           attTurn a = startTurn x) \<and>
      (\<forall>e \<in> set post. \<not> is_start e \<and> \<not> releases e) \<and>
      (attSummarized a \<longleftrightarrow> (\<exists>e \<in> set post. evType e = ''compaction/summary'')))"

lemma attempt_started:
  "inspect_loop stale no_attempt es = Inr st \<Longrightarrow> attempt st = Some a \<Longrightarrow>
   \<exists>pre s post. es = pre @ s # post \<and> started_by a s post"
proof (induction es arbitrary: st a rule: rev_induct)
  case Nil
  then show ?case by (auto simp: no_attempt_def)
next
  case (snoc e es)
  from snoc.prems(1) obtain st0 where
    st0: "inspect_loop stale no_attempt es = Inr st0" "inspect_step stale st0 e = Inr st"
    by (auto simp: inspect_loop_append bindE_Inr_iff)
  note step = inspect_step_attempt [OF st0(2)]
  consider "is_start e" | "evType e = ''compaction/summary''" "\<not> is_start e" "\<not> releases e"
    | "\<not> is_start e" "\<not> releases e" "evType e \<noteq> ''compaction/summary''"
    using step(1,3) snoc.prems(2) by (auto simp: releases_def is_start_def EndSeedEventName_def)
  then show ?case
  proof cases
    case 1
    with step(2) snoc.prems(2) have "started_by a e []" by (auto simp: started_by_def)
    then show ?thesis by blast
  next
    case 2
    with step(4) obtain b where b: "attempt st0 = Some b" "\<not> attSummarized b" "a = b\<lparr>attSummarized := True\<rparr>"
      using snoc.prems(2) by auto
    with snoc.IH [OF st0(1)] obtain pre s post where "es = pre @ s # post" "started_by b s post" by blast
    with 2 b show ?thesis
      by (intro exI [of _ pre] exI [of _ s] exI [of _ "post @ [e]"]) (auto simp: started_by_def)
  next
    case 3
    with step(5) snoc.prems(2) have "attempt st0 = Some a" by simp
    with snoc.IH [OF st0(1)] obtain pre s post where "es = pre @ s # post" "started_by a s post" by blast
    with 3 show ?thesis
      by (intro exI [of _ pre] exI [of _ s] exI [of _ "post @ [e]"]) (auto simp: started_by_def)
  qed
qed

lemma no_attempt_released:
  "inspect_loop stale no_attempt es = Inr st \<Longrightarrow> attempt st = None \<Longrightarrow> es = pre @ s # post \<Longrightarrow> is_start s \<Longrightarrow>
   \<exists>e \<in> set post. releases e"
proof (induction es arbitrary: st post rule: rev_induct)
  case (snoc e es)
  from snoc.prems(1) obtain st0 where
    st0: "inspect_loop stale no_attempt es = Inr st0" "inspect_step stale st0 e = Inr st"
    by (auto simp: inspect_loop_append bindE_Inr_iff)
  note step = inspect_step_attempt [OF st0(2)]
  show ?case
  proof (cases post rule: rev_cases)
    case Nil
    with snoc.prems step(2) show ?thesis by auto
  next
    case (snoc post' x)
    with snoc.prems have x: "x = e" "es = pre @ s # post'" by auto
    show ?thesis
    proof (cases "releases e")
      case True
      with snoc x show ?thesis by simp
    next
      case False
      have "attempt st0 = None"
        using step(2,4,5) False snoc.prems(2)
        by (cases "is_start e"; cases "evType e = ''compaction/summary''") auto
      from snoc.IH [OF st0(1) this x(2) snoc.prems(4)] snoc show ?thesis by auto
    qed
  qed
qed simp

lemma lock_exclusive:
  assumes "InspectLog (pre @ s # mid @ t # post) = Inr st" "is_start s" "is_start t"
  shows "\<exists>e \<in> set mid. releases e"
proof -
  obtain st0 st1 where
    "inspect_loop (inheritedOrphanStarts (pre @ s # mid @ t # post)) no_attempt (pre @ s # mid) = Inr st0"
    "inspect_step (inheritedOrphanStarts (pre @ s # mid @ t # post)) st0 t = Inr st1"
    using assms(1) inspect_loop_append [of _ _ "pre @ s # mid" "t # post"]
    by (auto simp: InspectLog_def bindE_Inr_iff)
  with inspect_step_attempt(2) assms(3) no_attempt_released [OF _ _ refl assms(2)] show ?thesis by blast
qed

section \<open>The cuts of a surface\<close>

definition node_delta :: "event list \<Rightarrow> int \<Rightarrow> int" where
  "node_delta events n =
     (case bindE (eventAtSequence events n) toolPairingDelta of Inl e \<Rightarrow> 0 | Inr d \<Rightarrow> d)"

definition balance :: "event list \<Rightarrow> int list \<Rightarrow> int" where
  "balance events ns = sum_list (map (node_delta events) ns)"

lemma boundaries_loop_spec:
  "boundaries_loop events b p ns = Inr b' \<Longrightarrow>
   indexed b' = indexed b @ ns \<and>
   cutBalanced b' = cutBalanced b @ map (\<lambda>k. p + balance events (take (Suc k) ns) = 0) [0..<length ns] \<and>
   (\<forall>k \<le> length ns. 0 < k \<longrightarrow> 0 \<le> p + balance events (take k ns))"
proof (induction ns arbitrary: b p)
  case (Cons n ns)
  then obtain e d where ed: "eventAtSequence events n = Inr e" "toolPairingDelta e = Inr d" "0 \<le> p + d"
    and rest: "boundaries_loop events (b\<lparr>indexed := indexed b @ [n], cutBalanced := cutBalanced b @ [p + d = 0]\<rparr>)
        (p + d) ns = Inr b'"
    by (auto simp: bindE_Inr_iff failIf_Inr)
  have d: "node_delta events n = d" using ed by (simp add: node_delta_def)
  have bal: "p + balance events (take (Suc k) (n # ns)) = p + d + balance events (take k ns)" for k
    by (simp add: balance_def d)
  have idx: "[0..<length (n # ns)] = 0 # map Suc [0..<length ns]"
    by (simp add: upt_conv_Cons map_Suc_upt del: upt_Suc)
  note IH = Cons.IH [OF rest]
  have "0 \<le> p + balance events (take k (n # ns))" if "k \<le> length (n # ns)" "0 < k" for k
  proof (cases k)
    case (Suc k')
    with that IH ed(3) bal [of k'] show ?thesis by (cases "k' = 0") (auto simp: balance_def)
  qed (use that in simp)
  moreover have "cutBalanced b' = cutBalanced b @
      map (\<lambda>k. p + balance events (take (Suc k) (n # ns)) = 0) [0..<length (n # ns)]"
    using IH by (simp only: idx bal list.map map_map) (simp add: balance_def comp_def)
  ultimately show ?case using IH by simp
qed (auto simp: balance_def)

lemma boundaries_spec:
  assumes "BuildToolPairingBoundaries snap = Inr b"
  shows "indexed b = nodes (snapSurface snap)"
    and "length (cutBalanced b) = Suc (length (nodes (snapSurface snap)))"
    and "k \<le> length (nodes (snapSurface snap)) \<Longrightarrow>
      cutBalanced b ! k = (balance (snapEvents snap) (take k (nodes (snapSurface snap))) = 0)"
    and "k \<le> length (nodes (snapSurface snap)) \<Longrightarrow>
      0 \<le> balance (snapEvents snap) (take k (nodes (snapSurface snap)))"
proof -
  note spec = boundaries_loop_spec [OF assms [unfolded BuildToolPairingBoundaries_def]]
  show "indexed b = nodes (snapSurface snap)"
    "length (cutBalanced b) = Suc (length (nodes (snapSurface snap)))" using spec by simp_all
  show "cutBalanced b ! k = (balance (snapEvents snap) (take k (nodes (snapSurface snap))) = 0)"
    if "k \<le> length (nodes (snapSurface snap))"
    using spec that by (cases k) (auto simp: balance_def)
  show "0 \<le> balance (snapEvents snap) (take k (nodes (snapSurface snap)))"
    if "k \<le> length (nodes (snapSurface snap))"
    using spec that by (cases k) (auto simp: balance_def)
qed

lemma last_index_distinct:
  "distinct ns \<Longrightarrow> k < length ns \<Longrightarrow> last_index ns (ns ! k) = Some k"
proof -
  assume d: "distinct ns" "k < length ns"
  have "ns ! k = rev ns ! (length ns - 1 - k)" using d(2) by (simp add: rev_nth)
  then have "index_of (rev ns) (ns ! k) = int (length ns - 1 - k)"
    using d index_of_distinct_nth [of "rev ns" "length ns - 1 - k"] by simp
  with d(2) show ?thesis by (simp add: last_index_def)
qed

lemma cuts_are_balances:
  assumes "BuildToolPairingBoundaries snap = Inr b" "distinct (nodes (snapSurface snap))"
    "k < length (nodes (snapSurface snap))"
  shows "CutBefore b (nodes (snapSurface snap) ! k) =
      Inr (balance (snapEvents snap) (take k (nodes (snapSurface snap))) = 0)"
    and "CutAfter b (nodes (snapSurface snap) ! k) =
      Inr (balance (snapEvents snap) (take (Suc k) (nodes (snapSurface snap))) = 0)"
  using assms boundaries_spec [OF assms(1)] last_index_distinct [OF assms(2,3)]
  by (simp_all add: CutBefore_def CutAfter_def cut_def)

end
