(* ===== verification/CompactionRegion.thy ===== *)
theory CompactionRegion
  imports CompactionLog
begin

text \<open>
  The span of the surface a compaction replaces (\<open>src/compaction/basic/region.go\<close>,
  \<open>selection.go\<close> and the pricing of \<open>baseline.go\<close>): locating a requested range between
  balanced cuts, choosing the longest prefix that leaves the retained tokens, the price of
  the shadowed span, and the checks that the span has not moved.
\<close>

record priced_node =
  pricedSeq :: int
  pricedTokens :: int

record measurement =
  logRevision :: int
  totalTokens :: int
  pricedNodes :: "priced_node list"

record region =
  regionStart :: int
  regionEnd :: int
  regionFirst :: int
  regionLast :: int
  regionSeqs :: "int list"

definition changedSurface :: "string \<Rightarrow> goerr" where
  "changedSurface message = SurfaceChanged message None"

definition locateRegionWithBoundaries :: "snapshot \<Rightarrow> boundaries \<Rightarrow> surface_range \<Rightarrow> region res" where
  "locateRegionWithBoundaries snap bounds requested =
     (let ns = nodes (snapSurface snap);
          first = index_of ns (rangeStart requested);
          final = index_of ns (rangeEnd requested) in
      bindE (failIf (first < 0)
        (Errorf ''compactRegion: start seq %d not found in Surface'' [AInt (rangeStart requested)])) (\<lambda>_.
      bindE (failIf (final < 0)
        (Errorf ''compactRegion: end seq %d not found in Surface'' [AInt (rangeEnd requested)])) (\<lambda>_.
      bindE (failIf (first > final)
        (Errorf ''compactRegion: start seq %d (position %d) is after end seq %d (position %d) on the Surface''
           [AInt (rangeStart requested), AInt first, AInt (rangeEnd requested), AInt final])) (\<lambda>_.
      bindE (CutBefore bounds (rangeStart requested)) (\<lambda>balanced.
      bindE (failIf (\<not> balanced)
        (Errorf ''compactRegion: start seq %d is not a balanced boundary (would split a step's tool-call/result pair)''
           [AInt (rangeStart requested)])) (\<lambda>_.
      bindE (CutAfter bounds (rangeEnd requested)) (\<lambda>balancedEnd.
      bindE (failIf (\<not> balancedEnd)
        (Errorf ''compactRegion: end seq %d is not a balanced boundary (would split a step, or the step is still open)''
           [AInt (rangeEnd requested)])) (\<lambda>_.
      Inr \<lparr>regionStart = rangeStart requested, regionEnd = rangeEnd requested,
           regionFirst = first, regionLast = final,
           regionSeqs = subslice ns (nat first) (nat (final + 1 - first))\<rparr>))))))))"

definition locateRegion :: "snapshot \<Rightarrow> surface_range \<Rightarrow> region res" where
  "locateRegion snap requested =
     bindE (BuildToolPairingBoundaries snap) (\<lambda>bounds. locateRegionWithBoundaries snap bounds requested)"

section \<open>Selection\<close>

fun check_prices :: "priced_node list \<Rightarrow> int list \<Rightarrow> unit res" where
  "check_prices [] ns = Inr ()"
| "check_prices (p # ps) [] = Inl (Panicked ''index out of range'')"
| "check_prices (p # ps) (n # ns) =
     bindE (failIf (pricedSeq p \<noteq> n)
              (err ''compaction-basic: selection prices do not follow Surface order'')) (\<lambda>_.
     bindE (failIf (pricedTokens p < 0 \<or> pricedTokens p > 2 ^ 53 - 1)
              (err ''compaction-basic: invalid Surface token price'')) (\<lambda>_.
     check_prices ps ns))"

definition validateMeasurement :: "snapshot \<Rightarrow> measurement \<Rightarrow> unit res" where
  "validateMeasurement snap prices =
     bindE (failIf (totalTokens prices < 0 \<or> totalTokens prices > 2 ^ 53 - 1)
              (err ''compaction-basic: invalid total token price'')) (\<lambda>_.
     bindE (failIf (barrierNext (snapBarrier snap) \<noteq> int (length (snapEvents snap)) \<or>
                    logRevision prices \<noteq> barrierNext (snapBarrier snap))
              (err ''compaction-basic: selection requires prices from the same log revision'')) (\<lambda>_.
     bindE (failIf (length (pricedNodes prices) \<noteq> length (nodes (snapSurface snap)))
              (err ''compaction-basic: selection requires prices for the complete Surface'')) (\<lambda>_.
     check_prices (pricedNodes prices) (nodes (snapSurface snap)))))"

text \<open>
  The backward loop over the priced nodes: \<open>k\<close> nodes are left, \<open>accumulated\<close> is the price
  of the ones behind them, and \<open>keepFrom\<close> the position reached.
\<close>

fun tail_loop :: "priced_node list \<Rightarrow> int \<Rightarrow> int \<Rightarrow> nat \<Rightarrow> nat \<Rightarrow> nat res" where
  "tail_loop ps retain accumulated keepFrom 0 = Inr keepFrom"
| "tail_loop ps retain accumulated keepFrom (Suc k) =
     bindE (failIf (pricedTokens (ps ! k) < 0 \<or> pricedTokens (ps ! k) > 2 ^ 53 - 1 - accumulated)
              (err ''compaction-basic: invalid retained-tail token price'')) (\<lambda>_.
     if accumulated + pricedTokens (ps ! k) \<ge> retain then Inr k
     else tail_loop ps retain (accumulated + pricedTokens (ps ! k)) k k)"

text \<open>The loop that moves the cut down to a balanced one.\<close>

fun cut_loop :: "boundaries \<Rightarrow> int list \<Rightarrow> nat \<Rightarrow> nat res" where
  "cut_loop bounds ns 0 = Inr 0"
| "cut_loop bounds ns (Suc k) =
     bindE (CutBefore bounds (ns ! Suc k)) (\<lambda>balanced.
     if balanced then Inr (Suc k) else cut_loop bounds ns k)"

definition selectRange :: "snapshot \<Rightarrow> measurement \<Rightarrow> int \<Rightarrow> surface_range option res" where
  "selectRange snap prices retainTokens =
     bindE (failIf (retainTokens < 0) (err ''compaction-basic: retained token budget is negative'')) (\<lambda>_.
     bindE (validateMeasurement snap prices) (\<lambda>_.
     bindE (BuildToolPairingBoundaries snap) (\<lambda>bounds.
     if pricedNodes prices = [] then Inr None
     else
       bindE (tail_loop (pricedNodes prices) retainTokens 0 (length (pricedNodes prices))
                (length (pricedNodes prices))) (\<lambda>keepFrom.
       if keepFrom = 0 then Inr None
       else
         bindE (cut_loop bounds (nodes (snapSurface snap)) keepFrom) (\<lambda>k.
         if k = 0 then Inr None
         else Inr (Some \<lparr>rangeStart = nodes (snapSurface snap) ! 0,
                         rangeEnd = nodes (snapSurface snap) ! (k - 1)\<rparr>))))))"

section \<open>The baseline\<close>

text \<open>
  \<open>captureBaseline\<close> with the input it prepares for the model as a parameter: that input is
  the subject of \<open>summarizer.go\<close>.
\<close>

record 'i baseline =
  baseSelected :: region
  baseSurface :: "int list"
  baseTokens :: int
  baseInput :: 'i

fun price_loop :: "int \<Rightarrow> priced_node list \<Rightarrow> int res" where
  "price_loop tokenCount [] = Inr tokenCount"
| "price_loop tokenCount (p # ps) =
     bindE (failIf (pricedTokens p > 2 ^ 53 - 1 - tokenCount)
              (err ''compaction-basic: invalid shadowed token price'')) (\<lambda>_.
     price_loop (tokenCount + pricedTokens p) ps)"

definition captureBaseline ::
  "(snapshot \<Rightarrow> int list \<Rightarrow> 'i res) \<Rightarrow> snapshot \<Rightarrow> measurement \<Rightarrow> surface_range \<Rightarrow> 'i baseline res" where
  "captureBaseline buildInput snap prices requested =
     bindE (validateMeasurement snap prices) (\<lambda>_.
     bindE (wrapE (\<lambda>e. SurfaceChanged ''compaction: selected Surface changed before summarization began'' (Some e))
              (locateRegion snap requested)) (\<lambda>selected.
     bindE (price_loop 0 (subslice (pricedNodes prices) (nat (regionFirst selected))
                            (nat (regionLast selected + 1 - regionFirst selected)))) (\<lambda>tokenCount.
     bindE (buildInput snap (regionSeqs selected)) (\<lambda>input.
     Inr \<lparr>baseSelected = selected, baseSurface = nodes (snapSurface snap), baseTokens = tokenCount,
          baseInput = input\<rparr>))))"

definition assertWholeSurfaceStable :: "snapshot \<Rightarrow> 'i baseline \<Rightarrow> unit res" where
  "assertWholeSurfaceStable snap source =
     (if length (nodes (snapSurface snap)) \<noteq> length (baseSurface source)
      then Inl (changedSurface ''compaction: Session Surface changed during summarization'')
      else if nodes (snapSurface snap) \<noteq> baseSurface source
      then Inl (changedSurface ''compaction: Session Surface changed during summarization'')
      else Inr ())"

definition assertSelectedRegionStable :: "snapshot \<Rightarrow> 'i baseline \<Rightarrow> unit res" where
  "assertSelectedRegionStable snap source =
     bindE (wrapE (\<lambda>e. SurfaceChanged ''compaction: selected span is no longer a valid replacement target'' (Some e))
              (locateRegion snap \<lparr>rangeStart = regionStart (baseSelected source),
                                  rangeEnd = regionEnd (baseSelected source)\<rparr>)) (\<lambda>current.
     failIf (regionSeqs current \<noteq> regionSeqs (baseSelected source))
       (changedSurface ''compaction: selected span changed during summarization''))"

section \<open>What a located region is\<close>

text \<open>A span of the surface between balanced cuts.\<close>

definition balanced_span :: "snapshot \<Rightarrow> nat \<Rightarrow> nat \<Rightarrow> bool" where
  "balanced_span snap i j =
     (i \<le> j \<and> j < length (nodes (snapSurface snap)) \<and>
      balance (snapEvents snap) (take i (nodes (snapSurface snap))) = 0 \<and>
      balance (snapEvents snap) (take (Suc j) (nodes (snapSurface snap))) = 0)"

definition span_region :: "snapshot \<Rightarrow> nat \<Rightarrow> nat \<Rightarrow> region" where
  "span_region snap i j =
     \<lparr>regionStart = nodes (snapSurface snap) ! i, regionEnd = nodes (snapSurface snap) ! j,
      regionFirst = int i, regionLast = int j,
      regionSeqs = subslice (nodes (snapSurface snap)) i (j + 1 - i)\<rparr>"

definition span_range :: "snapshot \<Rightarrow> nat \<Rightarrow> nat \<Rightarrow> surface_range" where
  "span_range snap i j = \<lparr>rangeStart = nodes (snapSurface snap) ! i, rangeEnd = nodes (snapSurface snap) ! j\<rparr>"

lemma nat_span: "i \<le> j \<Longrightarrow> nat (int j + 1 - int i) = j + 1 - i"
  by linarith

lemma locateRegion_span:
  assumes b: "BuildToolPairingBoundaries snap = Inr b" and d: "distinct (nodes (snapSurface snap))"
    and s: "balanced_span snap i j"
  shows "locateRegion snap (span_range snap i j) = Inr (span_region snap i j)"
proof -
  have ij: "i \<le> j" "j < length (nodes (snapSurface snap))" "i < length (nodes (snapSurface snap))"
    using s by (auto simp: balanced_span_def)
  have idx: "index_of (nodes (snapSurface snap)) (nodes (snapSurface snap) ! i) = int i"
    "index_of (nodes (snapSurface snap)) (nodes (snapSurface snap) ! j) = int j"
    using index_of_distinct_nth [OF d] ij by auto
  show ?thesis
    using ij s cuts_are_balances(1) [OF b d ij(3)] cuts_are_balances(2) [OF b d ij(2)] nat_span [OF ij(1)]
    by (simp add: locateRegion_def locateRegionWithBoundaries_def b span_range_def span_region_def idx
        balanced_span_def Let_def)
qed

lemma locateRegion_Inr:
  assumes "locateRegion snap requested = Inr r" "distinct (nodes (snapSurface snap))"
  shows "\<exists>i j. balanced_span snap i j \<and> requested = span_range snap i j \<and> r = span_region snap i j"
proof -
  let ?ns = "nodes (snapSurface snap)"
  obtain b where b: "BuildToolPairingBoundaries snap = Inr b"
    "locateRegionWithBoundaries snap b requested = Inr r"
    using assms(1) by (auto simp: locateRegion_def bindE_Inr_iff)
  define i j where "i = index_of ?ns (rangeStart requested)" and "j = index_of ?ns (rangeEnd requested)"
  from b(2) have r: "0 \<le> i" "0 \<le> j" "i \<le> j" "CutBefore b (rangeStart requested) = Inr True"
    "CutAfter b (rangeEnd requested) = Inr True"
    "r = \<lparr>regionStart = rangeStart requested, regionEnd = rangeEnd requested, regionFirst = i, regionLast = j,
          regionSeqs = subslice ?ns (nat i) (nat (j + 1 - i))\<rparr>"
    by (auto simp: locateRegionWithBoundaries_def Let_def bindE_Inr_iff failIf_Inr i_def j_def)
  have at: "nat i < length ?ns" "?ns ! nat i = rangeStart requested"
    "nat j < length ?ns" "?ns ! nat j = rangeEnd requested"
    using r(1,2) index_of_nth [of ?ns "rangeStart requested"] index_of_nth [of ?ns "rangeEnd requested"]
    by (simp_all add: i_def j_def)
  have "nat (j + 1 - i) = nat j + 1 - nat i" using r(1-3) by linarith
  then have "requested = span_range snap (nat i) (nat j)" "r = span_region snap (nat i) (nat j)"
    using r(1,2,6) at by (simp_all add: span_range_def span_region_def)
  moreover have "balanced_span snap (nat i) (nat j)"
    using r(1-5) at cuts_are_balances(1) [OF b(1) assms(2) at(1)] cuts_are_balances(2) [OF b(1) assms(2) at(3)]
    by (simp add: balanced_span_def nat_mono)
  ultimately show ?thesis by blast
qed

section \<open>What selection returns\<close>

definition tail_price :: "priced_node list \<Rightarrow> nat \<Rightarrow> int" where
  "tail_price ps k = sum_list (map pricedTokens (drop k ps))"

lemma tail_price_step: "k < length ps \<Longrightarrow> tail_price ps k = pricedTokens (ps ! k) + tail_price ps (Suc k)"
  by (simp add: tail_price_def Cons_nth_drop_Suc [symmetric])

lemma tail_loop_spec:
  "tail_loop ps retain (tail_price ps k) k k = Inr keep \<Longrightarrow> k \<le> length ps \<Longrightarrow> tail_price ps k \<le> 2 ^ 53 - 1 \<Longrightarrow>
   0 \<le> tail_price ps k \<Longrightarrow> (\<forall>m. k \<le> m \<and> m < length ps \<longrightarrow> tail_price ps m < retain) \<Longrightarrow>
   keep \<le> k \<and> (0 < keep \<longrightarrow> retain \<le> tail_price ps keep \<and> keep < length ps) \<and> tail_price ps keep \<le> 2 ^ 53 - 1 \<and>
   (\<forall>m. keep < m \<and> m < length ps \<longrightarrow> tail_price ps m < retain)"
proof (induction k)
  case 0
  then show ?case by auto
next
  case (Suc k)
  then have k: "k < length ps" by simp
  note step = tail_price_step [OF k]
  from Suc.prems(1) have g: "0 \<le> pricedTokens (ps ! k)" "tail_price ps k \<le> 2 ^ 53 - 1"
    by (auto simp: step bindE_Inr_iff failIf_Inr)
  show ?case
  proof (cases "retain \<le> tail_price ps k")
    case True
    with Suc.prems have "keep = k" by (auto simp: step bindE_Inr_iff failIf_Inr)
    with True g k Suc.prems(5) show ?thesis by auto
  next
    case False
    with Suc.prems(1) have "tail_loop ps retain (tail_price ps k) k k = Inr keep"
      by (auto simp: step bindE_Inr_iff failIf_Inr add.commute)
    moreover have "\<forall>m. k \<le> m \<and> m < length ps \<longrightarrow> tail_price ps m < retain"
      using False Suc.prems(5) by (metis Suc_leI le_neq_implies_less not_le)
    moreover have "0 \<le> tail_price ps k" using g(1) Suc.prems(4) by (simp add: step)
    ultimately have "keep \<le> k \<and> (0 < keep \<longrightarrow> retain \<le> tail_price ps keep \<and> keep < length ps) \<and>
        tail_price ps keep \<le> 2 ^ 53 - 1 \<and> (\<forall>m. keep < m \<and> m < length ps \<longrightarrow> tail_price ps m < retain)"
      using Suc.IH g(2) k by simp
    then show ?thesis by simp
  qed
qed

lemma cut_loop_spec:
  assumes b: "BuildToolPairingBoundaries snap = Inr b" and d: "distinct (nodes (snapSurface snap))"
  shows "cut_loop b (nodes (snapSurface snap)) k = Inr c \<Longrightarrow> k < length (nodes (snapSurface snap)) \<Longrightarrow>
   c \<le> k \<and> balance (snapEvents snap) (take c (nodes (snapSurface snap))) = 0 \<and>
   (\<forall>m. c < m \<and> m \<le> k \<longrightarrow> balance (snapEvents snap) (take m (nodes (snapSurface snap))) \<noteq> 0)"
proof (induction k)
  case 0
  then show ?case by (auto simp: balance_def)
next
  case (Suc k)
  show ?case
  proof (cases "balance (snapEvents snap) (take (Suc k) (nodes (snapSurface snap))) = 0")
    case True
    with Suc.prems have "c = Suc k" by (simp add: cuts_are_balances(1) [OF b d])
    with True show ?thesis by simp
  next
    case False
    with Suc.prems have "cut_loop b (nodes (snapSurface snap)) k = Inr c"
      by (simp add: cuts_are_balances(1) [OF b d])
    with Suc.IH Suc.prems(2) have "c \<le> k \<and> balance (snapEvents snap) (take c (nodes (snapSurface snap))) = 0 \<and>
      (\<forall>m. c < m \<and> m \<le> k \<longrightarrow> balance (snapEvents snap) (take m (nodes (snapSurface snap))) \<noteq> 0)" by simp
    with False show ?thesis by (auto simp: le_Suc_eq)
  qed
qed

lemma check_prices_spec:
  "check_prices ps ns = Inr u \<Longrightarrow> length ps = length ns \<Longrightarrow>
   map pricedSeq ps = ns \<and> (\<forall>p \<in> set ps. 0 \<le> pricedTokens p \<and> pricedTokens p \<le> 2 ^ 53 - 1)"
  by (induction ps ns rule: check_prices.induct) (auto simp: bindE_Inr_iff failIf_Inr)

lemma validateMeasurement_Inr:
  assumes "validateMeasurement snap prices = Inr u"
  shows "map pricedSeq (pricedNodes prices) = nodes (snapSurface snap)"
    and "\<forall>p \<in> set (pricedNodes prices). 0 \<le> pricedTokens p \<and> pricedTokens p \<le> 2 ^ 53 - 1"
  using assms check_prices_spec [of "pricedNodes prices" "nodes (snapSurface snap)" u]
  by (auto simp: validateMeasurement_def bindE_Inr_iff failIf_Inr)

lemma tail_price_mono:
  "\<forall>p \<in> set ps. 0 \<le> pricedTokens p \<Longrightarrow> i \<le> j \<Longrightarrow> tail_price ps j \<le> tail_price ps i"
proof (induction "j - i" arbitrary: i)
  case (Suc n)
  show ?case
  proof (cases "i < length ps")
    case True
    with Suc.prems(1) have "0 \<le> pricedTokens (ps ! i)" by simp
    moreover have "tail_price ps j \<le> tail_price ps (Suc i)"
      using Suc.hyps(1) [of "Suc i"] Suc.hyps(2) Suc.prems by simp
    ultimately show ?thesis using tail_price_step [OF True] by simp
  qed (use Suc.prems in \<open>simp add: tail_price_def\<close>)
qed simp

lemma selectRange_Some:
  assumes "selectRange snap prices retain = Inr (Some r)" and d: "distinct (nodes (snapSurface snap))"
  shows "\<exists>k. 0 < k \<and> k < length (nodes (snapSurface snap)) \<and> r = span_range snap 0 (k - 1) \<and>
    balanced_span snap 0 (k - 1) \<and> retain \<le> tail_price (pricedNodes prices) k \<and>
    (\<forall>m. k < m \<and> m < length (nodes (snapSurface snap)) \<longrightarrow>
       tail_price (pricedNodes prices) m < retain \<or>
       balance (snapEvents snap) (take m (nodes (snapSurface snap))) \<noteq> 0)"
proof -
  let ?ns = "nodes (snapSurface snap)" and ?ps = "pricedNodes prices"
  from assms(1) obtain b keep k where
    v: "validateMeasurement snap prices = Inr ()" and ret: "0 \<le> retain" and
    b: "BuildToolPairingBoundaries snap = Inr b" and
    keep: "tail_loop ?ps retain 0 (length ?ps) (length ?ps) = Inr keep" "keep \<noteq> 0" and
    k: "cut_loop b ?ns keep = Inr k" "k \<noteq> 0" and r: "r = span_range snap 0 (k - 1)"
    by (auto simp: selectRange_def bindE_Inr_iff failIf_Inr span_range_def split: if_splits)
  note prices = validateMeasurement_Inr [OF v]
  have len: "length ?ps = length ?ns" using prices(1) by (metis length_map)
  have zero: "tail_price ?ps (length ?ps) = 0" by (simp add: tail_price_def)
  have t: "retain \<le> tail_price ?ps keep" "keep < length ?ps"
    "\<forall>m. keep < m \<and> m < length ?ps \<longrightarrow> tail_price ?ps m < retain"
    using tail_loop_spec [of ?ps retain "length ?ps" keep] keep zero by auto
  have c: "k \<le> keep" "balance (snapEvents snap) (take k ?ns) = 0"
    "\<forall>m. k < m \<and> m \<le> keep \<longrightarrow> balance (snapEvents snap) (take m ?ns) \<noteq> 0"
    using cut_loop_spec [OF b d k(1)] t(2) len by auto
  have "tail_price ?ps keep \<le> tail_price ?ps k"
    using tail_price_mono [OF _ c(1), of ?ps] prices(2) by auto
  moreover have "balanced_span snap 0 (k - 1)"
    using c(2) k(2) c(1) t(2) len by (simp add: balanced_span_def balance_def)
  moreover have "tail_price ?ps m < retain \<or> balance (snapEvents snap) (take m ?ns) \<noteq> 0"
    if "k < m" "m < length ?ns" for m
    using t(3) c(3) that len by (cases "m \<le> keep") auto
  ultimately show ?thesis
    using r t c(1) k(2) len by (intro exI [of _ k]) auto
qed

text \<open>The range chosen can always be located again in the same snapshot.\<close>

lemma selectRange_locates:
  assumes "selectRange snap prices retain = Inr (Some r)" "distinct (nodes (snapSurface snap))"
  shows "\<exists>g. locateRegion snap r = Inr g \<and> regionFirst g = 0"
proof -
  from assms(1) obtain b where b: "BuildToolPairingBoundaries snap = Inr b"
    by (auto simp: selectRange_def bindE_Inr_iff)
  from selectRange_Some [OF assms] obtain k where "r = span_range snap 0 (k - 1)" "balanced_span snap 0 (k - 1)"
    by blast
  with locateRegion_span [OF b assms(2)] show ?thesis by (auto simp: span_region_def)
qed

lemma price_loop_Inr:
  "price_loop c ps = Inr t \<Longrightarrow> c \<le> 2 ^ 53 - 1 \<Longrightarrow> t = c + sum_list (map pricedTokens ps) \<and> t \<le> 2 ^ 53 - 1"
proof (induction ps arbitrary: c)
  case (Cons p ps)
  from Cons.prems have "price_loop (c + pricedTokens p) ps = Inr t" "c + pricedTokens p \<le> 2 ^ 53 - 1"
    by (simp_all add: bindE_Inr_iff failIf_Inr)
  from Cons.IH [OF this] show ?case by simp
qed simp

lemma captureBaseline_Inr:
  assumes "captureBaseline buildInput snap prices requested = Inr source" "distinct (nodes (snapSurface snap))"
  shows "\<exists>i j. balanced_span snap i j \<and> requested = span_range snap i j \<and>
    baseSelected source = span_region snap i j \<and> baseSurface source = nodes (snapSurface snap) \<and>
    baseTokens source = sum_list (map pricedTokens (subslice (pricedNodes prices) i (j + 1 - i))) \<and>
    0 \<le> baseTokens source \<and> baseTokens source \<le> 2 ^ 53 - 1"
proof -
  from assms(1) obtain g t where v: "validateMeasurement snap prices = Inr ()"
    and g: "locateRegion snap requested = Inr g" and
    t: "price_loop 0 (subslice (pricedNodes prices) (nat (regionFirst g))
          (nat (regionLast g + 1 - regionFirst g))) = Inr t" and
    s: "baseSelected source = g" "baseSurface source = nodes (snapSurface snap)" "baseTokens source = t"
    by (auto simp: captureBaseline_def bindE_Inr_iff wrapE_Inr_iff)
  from locateRegion_Inr [OF g assms(2)] obtain i j where
    ij: "balanced_span snap i j" "requested = span_range snap i j" "g = span_region snap i j" by blast
  have le: "i \<le> j" using ij(1) by (simp add: balanced_span_def)
  from t have t': "price_loop 0 (subslice (pricedNodes prices) i (j + 1 - i)) = Inr t"
    using nat_span [OF le] by (simp add: ij(3) span_region_def)
  have "t = sum_list (map pricedTokens (subslice (pricedNodes prices) i (j + 1 - i)))" "t \<le> 2 ^ 53 - 1"
    using price_loop_Inr [OF t'] by simp_all
  moreover have "\<forall>p \<in> set (subslice (pricedNodes prices) i (j + 1 - i)). 0 \<le> pricedTokens p"
    using validateMeasurement_Inr(2) [OF v] set_subslice_subset [of "pricedNodes prices" i "j + 1 - i"] by blast
  then have "0 \<le> sum_list (map pricedTokens (subslice (pricedNodes prices) i (j + 1 - i)))"
    by (intro sum_list_nonneg) auto
  then have "0 \<le> t" using calculation by simp
  ultimately show ?thesis using ij s by (intro exI [of _ i] exI [of _ j]) auto
qed

end
