(* ===== verification/CompactionWrites.thy ===== *)
theory CompactionWrites
  imports CompactionRegion
begin

text \<open>
  The three idempotent writes of a compaction transaction
  (\<open>src/compaction/basic/transaction_start.go\<close>, \<open>transaction_end.go\<close>,
  \<open>transaction_completion.go\<close>): the start that takes the durable lock, the failed end that
  releases it, and the completion that writes summary, replacement and end as one batch.
\<close>

section \<open>Finding an event by its identity\<close>

text \<open>
  The loop shared by the \<open>FindCommit\<close> methods: skip other types, decode the payload, and
  stop at the first event of the same identity.
\<close>

fun find_first :: "string \<Rightarrow> (event \<Rightarrow> bool res) \<Rightarrow> event list \<Rightarrow> event option res" where
  "find_first ty same [] = Inr None"
| "find_first ty same (e # es) =
     (if evType e \<noteq> ty then find_first ty same es
      else bindE (same e) (\<lambda>m. if m then Inr (Some e) else find_first ty same es))"

definition single_find ::
  "string \<Rightarrow> (event \<Rightarrow> bool res) \<Rightarrow> event_draft res \<Rightarrow> string \<Rightarrow> snapshot \<Rightarrow> write_result option res" where
  "single_find ty same draft conflict snap =
     bindE (find_first ty same (snapEvents snap)) (\<lambda>found. case found of
       None \<Rightarrow> Inr None
     | Some entry \<Rightarrow>
         bindE draft (\<lambda>d.
         bindE (wrapE (\<lambda>e. Errorf conflict [AErr e]) (ValidateEvent d entry)) (\<lambda>_.
         Inr (Some (range_result (barrierSession (snapBarrier snap)) (evSeq entry) [entry])))))"

section \<open>The start of a transaction\<close>

record transaction_start =
  tsLifecycle :: compaction_start
  tsRequested :: surface_range

definition newTransactionStart :: "compaction_start \<Rightarrow> surface_range \<Rightarrow> transaction_start res" where
  "newTransactionStart lifecycle requested =
     bindE (marshal_start lifecycle) (\<lambda>encoded.
     bindE (DecodeStart (Doc encoded)) (\<lambda>detached.
     Inr \<lparr>tsLifecycle = detached, tsRequested = requested\<rparr>))"

definition start_draft :: "compaction_start \<Rightarrow> event_draft res" where
  "start_draft lifecycle = NewEventDraft ''compaction/start'' (marshal_start lifecycle) False"

definition start_build :: "transaction_start \<Rightarrow> snapshot \<Rightarrow> event_draft list res" where
  "start_build p snap =
     bindE (locateRegion snap (tsRequested p)) (\<lambda>_.
     bindE (InspectLog (snapEvents snap)) (\<lambda>state.
     bindE (failIf (attempt state \<noteq> None)
              (ManualError ''busy'' ''compaction: another transaction is still open'' None)) (\<lambda>_.
     bindE (case startTurn (tsLifecycle p) of
              None \<Rightarrow> failIf (openTurn state \<noteq> None)
                (ManualError ''busy'' ''manual compaction requires a Session without an open Turn'' None)
            | Some t \<Rightarrow> failIf (openTurn state \<noteq> Some t)
                (err ''compaction: automatic transaction does not belong to the open Turn'')) (\<lambda>_.
     bindE (start_draft (tsLifecycle p)) (\<lambda>draft. Inr [draft])))))"

definition start_same :: "transaction_start \<Rightarrow> event \<Rightarrow> bool res" where
  "start_same p entry =
     bindE (DecodeStart (evData entry)) (\<lambda>started. Inr (startID started = startID (tsLifecycle p)))"

definition start_find :: "transaction_start \<Rightarrow> snapshot \<Rightarrow> write_result option res" where
  "start_find p = single_find ''compaction/start'' (start_same p) (start_draft (tsLifecycle p))
     ''compaction: start identity conflicts with committed fields: %w''"

section \<open>The failed end\<close>

record transaction_end =
  teLifecycle :: compaction_start
  teDetail :: string

text \<open>The failure is given by its text, the value of its \<open>Error\<close> method.\<close>

definition newTransactionEnd :: "compaction_start \<Rightarrow> string option \<Rightarrow> transaction_end res" where
  "newTransactionEnd lifecycle failure =
     (case failure of
        None \<Rightarrow> Inl (err ''compaction: failed transaction end requires a cause'')
      | Some detail \<Rightarrow>
          bindE (marshal_start lifecycle) (\<lambda>encoded.
          bindE (DecodeStart (Doc encoded)) (\<lambda>detached.
          Inr \<lparr>teLifecycle = detached, teDetail = detail\<rparr>)))"

definition end_draft :: "transaction_end \<Rightarrow> event_draft res" where
  "end_draft p =
     NewEventDraft ''compaction/end''
       (marshal_end \<lparr>endID = startID (teLifecycle p), endCommand = startCommand (teLifecycle p),
                     endTurn = startTurn (teLifecycle p), endError = Some (teDetail p)\<rparr>) False"

definition end_build :: "transaction_end \<Rightarrow> snapshot \<Rightarrow> event_draft list res" where
  "end_build p snap =
     bindE (InspectLog (snapEvents snap)) (\<lambda>state.
     case attempt state of
       None \<Rightarrow> Inl (err ''compaction: failed end does not match the active transaction'')
     | Some a \<Rightarrow>
         bindE (failIf (attID a \<noteq> startID (teLifecycle p))
                  (err ''compaction: failed end does not match the active transaction'')) (\<lambda>_.
         bindE (failIf (attStart a < 0 \<or> attStart a \<ge> int (length (snapEvents snap)))
                  (err ''compaction: active transaction has no start event'')) (\<lambda>_.
         bindE (start_draft (teLifecycle p)) (\<lambda>start.
         bindE (wrapE (\<lambda>e. Errorf ''compaction: failed end conflicts with transaction start: %w'' [AErr e])
                  (ValidateEvent start (snapEvents snap ! nat (attStart a)))) (\<lambda>_.
         bindE (end_draft p) (\<lambda>draft. Inr [draft]))))))"

definition end_same :: "transaction_end \<Rightarrow> event \<Rightarrow> bool res" where
  "end_same p entry =
     bindE (DecodeEnd (evData entry)) (\<lambda>ended. Inr (endID ended = startID (teLifecycle p)))"

definition end_find :: "transaction_end \<Rightarrow> snapshot \<Rightarrow> write_result option res" where
  "end_find p = single_find ''compaction/end'' (end_same p) (end_draft p)
     ''compaction: transaction already has a different end: %w''"

section \<open>The completion\<close>

record transaction_completion =
  tcLifecycle :: compaction_start
  tcStartSeq :: int
  tcSelected :: region
  tcSurface :: "int list"
  tcSummary :: event_draft
  tcCheckpoint :: message_value
  tcEnd :: event_draft

text \<open>
  What \<open>newTransactionCompletion\<close> reads of a \<open>regionReplacement\<close>: the captured baseline, the
  generated content, output and usage, the route and cap of the call, and the checkpoint.
\<close>

record 'i replacement =
  repBaseline :: "'i baseline"
  repContent :: "content_block list"
  repOutput :: "content_block list"
  repUsage :: "token_usage option"
  repProvider :: string
  repModel :: string
  repMaxTokens :: "int option"
  repCheckpoint :: message_value

definition completion_summary :: "compaction_start \<Rightarrow> 'i replacement \<Rightarrow> compaction_summary" where
  "completion_summary lifecycle r =
     \<lparr>sumID = startID lifecycle, sumCommand = startCommand lifecycle, sumSummary = Some (repContent r),
      sumRawOutput = Some (repOutput r), sumStreamCall = True,
      sumRange = \<lparr>rangeStart = regionStart (baseSelected (repBaseline r)),
                  rangeEnd = regionEnd (baseSelected (repBaseline r))\<rparr>,
      sumSeqs = append_nil (regionSeqs (baseSelected (repBaseline r))),
      sumTokenCount = baseTokens (repBaseline r), sumProvider = repProvider r, sumModel = repModel r,
      sumMaxTokens = repMaxTokens r, sumUsage = repUsage r\<rparr>"

definition completion_end :: "compaction_start \<Rightarrow> compaction_end" where
  "completion_end lifecycle =
     \<lparr>endID = startID lifecycle, endCommand = startCommand lifecycle, endTurn = startTurn lifecycle,
      endError = None\<rparr>"

definition newTransactionCompletion :: "event \<Rightarrow> 'i replacement \<Rightarrow> transaction_completion res" where
  "newTransactionCompletion start r =
     bindE (failIf (evType start \<noteq> ''compaction/start'' \<or> evSeq start < 0)
              (err ''compaction: completion requires a confirmed start event'')) (\<lambda>_.
     bindE (DecodeStart (evData start)) (\<lambda>lifecycle.
     bindE (failIf (source_value (repCheckpoint r) \<noteq> CheckpointSource (startID lifecycle) (startCommand lifecycle))
              (err ''compaction: checkpoint belongs to a different transaction'')) (\<lambda>_.
     bindE (CloneUserMessage (repCheckpoint r)) (\<lambda>checkpoint.
     bindE (NewEventDraft ''compaction/summary'' (marshal_summary (completion_summary lifecycle r)) False) (\<lambda>summary.
     bindE (NewEventDraft ''compaction/end'' (marshal_end (completion_end lifecycle)) False) (\<lambda>final.
     Inr \<lparr>tcLifecycle = lifecycle, tcStartSeq = evSeq start, tcSelected = baseSelected (repBaseline r),
          tcSurface = baseSurface (repBaseline r), tcSummary = summary, tcCheckpoint = checkpoint,
          tcEnd = final\<rparr>))))))"

definition completion_drafts :: "transaction_completion \<Rightarrow> int \<Rightarrow> event_draft list res" where
  "completion_drafts p summarySeq =
     (let sources = [tcStartSeq p, summarySeq] @ regionSeqs (tcSelected p) in
      bindE (NewSurfaceEventDraft ''user/message'' (marshal_message (tcCheckpoint p))
               (SurfaceReplace (regionStart (tcSelected p)) (regionEnd (tcSelected p))) (Some sources) False)
        (\<lambda>replacement. Inr [tcSummary p, replacement, tcEnd p]))"

definition completion_build :: "transaction_completion \<Rightarrow> snapshot \<Rightarrow> event_draft list res" where
  "completion_build p snap =
     bindE (InspectLog (snapEvents snap)) (\<lambda>state.
     bindE (failIf (case attempt state of None \<Rightarrow> True
                    | Some a \<Rightarrow> attID a \<noteq> startID (tcLifecycle p) \<or> attStart a \<noteq> tcStartSeq p \<or> attSummarized a)
              (err ''compaction: completion does not match the active unsummarized transaction'')) (\<lambda>_.
     bindE (failIf (tcStartSeq p \<ge> int (length (snapEvents snap)))
              (err ''compaction: start event is missing'')) (\<lambda>_.
     bindE (start_draft (tcLifecycle p)) (\<lambda>start.
     bindE (ValidateEvent start (snapEvents snap ! nat (tcStartSeq p))) (\<lambda>_.
     bindE (failIf (startTurn (tcLifecycle p) \<noteq> None \<and> nodes (snapSurface snap) \<noteq> tcSurface p)
              (changedSurface ''compaction: Session Surface changed during summarization'')) (\<lambda>_.
     bindE (wrapE (\<lambda>e. SurfaceChanged ''compaction: selected span changed during summarization'' (Some e))
              (locateRegion snap \<lparr>rangeStart = regionStart (tcSelected p), rangeEnd = regionEnd (tcSelected p)\<rparr>))
       (\<lambda>current.
     bindE (failIf (regionSeqs current \<noteq> regionSeqs (tcSelected p))
              (changedSurface ''compaction: selected span changed during summarization'')) (\<lambda>_.
     completion_drafts p (barrierNext (snapBarrier snap))))))))))"

text \<open>The check of the stored batch against the drafts, from one offset on.\<close>

fun check_batch :: "event list \<Rightarrow> nat \<Rightarrow> int \<Rightarrow> nat \<Rightarrow> event_draft list \<Rightarrow> unit res" where
  "check_batch events index first offset [] = Inr ()"
| "check_batch events index first offset (d # ds) =
     bindE (failIf (evSeq (events ! (index + offset)) \<noteq> first + int offset)
              (err ''compaction: completion batch is not contiguous'')) (\<lambda>_.
     bindE (wrapE (\<lambda>e. Errorf ''compaction: completion identity conflicts with committed batch: %w'' [AErr e])
              (ValidateEvent d (events ! (index + offset)))) (\<lambda>_.
     check_batch events index first (Suc offset) ds))"

fun completion_loop ::
  "transaction_completion \<Rightarrow> snapshot \<Rightarrow> nat \<Rightarrow> event list \<Rightarrow> write_result option res" where
  "completion_loop p snap index [] = Inr None"
| "completion_loop p snap index (e # es) =
     (if evType e = ''compaction/end'' then
        bindE (DecodeEnd (evData e)) (\<lambda>ended.
        bindE (failIf (endID ended = startID (tcLifecycle p))
                 (err ''compaction: transaction ended without the expected successful batch'')) (\<lambda>_.
        completion_loop p snap (Suc index) es))
      else if evType e = ''compaction/summary'' then
        bindE (DecodeSummary (evData e)) (\<lambda>summary.
        if sumID summary \<noteq> startID (tcLifecycle p) then completion_loop p snap (Suc index) es
        else
          bindE (failIf (index + 3 > length (snapEvents snap))
                   (err ''compaction: incomplete successful transaction batch'')) (\<lambda>_.
          bindE (completion_drafts p (evSeq e)) (\<lambda>drafts.
          bindE (check_batch (snapEvents snap) index (evSeq e) 0 drafts) (\<lambda>_.
          Inr (Some \<lparr>firstSeq = evSeq e, nextSeq = evSeq e + 3,
                     resultBarrier = \<lparr>barrierSession = barrierSession (snapBarrier snap),
                                      barrierNext = evSeq e + 3\<rparr>,
                     resultEvents = subslice (snapEvents snap) index 3\<rparr>)))))
      else completion_loop p snap (Suc index) es)"

definition completion_find :: "transaction_completion \<Rightarrow> snapshot \<Rightarrow> write_result option res" where
  "completion_find p snap = completion_loop p snap 0 (snapEvents snap)"

section \<open>The plans\<close>

text \<open>What the callers pass to \<open>Log.Commit\<close>: each proposal is its own \<open>IdempotentWrite\<close>.\<close>

definition start_plan :: "transaction_start \<Rightarrow> write_plan" where
  "start_plan p = Idempotent (start_build p) (start_find p)"

definition end_plan :: "transaction_end \<Rightarrow> write_plan" where
  "end_plan p = Idempotent (end_build p) (end_find p)"

definition completion_plan :: "transaction_completion \<Rightarrow> write_plan" where
  "completion_plan p = Idempotent (completion_build p) (completion_find p)"

end
