(* ===== verification/CompactionWriteLaws.thy ===== *)
theory CompactionWriteLaws
  imports CompactionWrites
begin

text \<open>
  The idempotent write contract of the three compaction writes.  A single event found by
  its identity gives the contract in general; the batch of three is proved on its own.
\<close>

section \<open>A write of one event found by identity\<close>

lemma find_first_append:
  "find_first ty same (es @ fs) =
   bindE (find_first ty same es) (\<lambda>x. case x of None \<Rightarrow> find_first ty same fs | Some e \<Rightarrow> Inr (Some e))"
proof (induction es)
  case (Cons e es)
  then show ?case by (cases "same e") auto
qed simp

lemma find_first_Some:
  "find_first ty same es = Inr (Some e) \<Longrightarrow> \<exists>k < length es. es ! k = e \<and> evType e = ty \<and> same e = Inr True"
proof (induction es)
  case (Cons x xs)
  show ?case
  proof (cases "evType x = ty \<and> same x = Inr True")
    case True
    with Cons.prems show ?thesis by (intro exI [of _ 0]) auto
  next
    case False
    with Cons.prems have "find_first ty same xs = Inr (Some e)"
      by (auto simp: bindE_Inr_iff split: if_splits)
    with Cons.IH obtain k where "k < length xs" "xs ! k = e" "evType e = ty" "same e = Inr True" by blast
    then show ?thesis by (intro exI [of _ "Suc k"]) simp
  qed
qed simp

lemma single_find_Inr_Some:
  "single_find ty same draft conflict snap = Inr (Some r) \<longleftrightarrow>
   (\<exists>e d. find_first ty same (snapEvents snap) = Inr (Some e) \<and> draft = Inr d \<and> ValidateEvent d e = Inr () \<and>
          r = range_result (barrierSession (snapBarrier snap)) (evSeq e) [e])"
  by (auto simp: single_find_def bindE_Inr_iff wrapE_Inr_iff split: option.splits)

lemma single_find_Inr_None:
  "single_find ty same draft conflict snap = Inr None \<longleftrightarrow> find_first ty same (snapEvents snap) = Inr None"
  by (auto simp: single_find_def bindE_Inr_iff split: option.splits)

locale single_event_write =
  fixes wf :: "'p \<Rightarrow> bool"
    and build :: "'p \<Rightarrow> snapshot \<Rightarrow> event_draft list res"
    and findCommit :: "'p \<Rightarrow> snapshot \<Rightarrow> write_result option res"
    and ty :: string
    and same :: "'p \<Rightarrow> event \<Rightarrow> bool res"
    and draft :: "'p \<Rightarrow> event_draft res"
    and conflict :: string
  assumes find_is_single: "findCommit p = single_find ty (same p) (draft p) conflict"
    and build_one: "build p snap = Inr ds \<Longrightarrow> \<exists>d. draft p = Inr d \<and> ds = [d]"
    and draft_same: "wf p \<Longrightarrow> draft p = Inr d \<Longrightarrow> ValidateEvent d e = Inr () \<Longrightarrow> evType e = ty \<and> same p e = Inr True"
begin

lemma single_own:
  assumes "log_ok l" "findCommit p (Snapshot l) = Inr (Some r)"
  shows "own_range l r"
proof -
  obtain e where e: "find_first ty (same p) (entries l) = Inr (Some e)"
    "r = range_result (headerID (logHeader l)) (evSeq e) [e]"
    using assms(2) by (auto simp: find_is_single single_find_Inr_Some)
  obtain k where k: "k < length (entries l)" "entries l ! k = e" using find_first_Some [OF e(1)] by blast
  have "evSeq e = int k" using assms(1) k by (auto simp: log_ok_def contiguous_def)
  moreover have "subslice (entries l) k 1 = [e]"
    using k by (simp add: subslice_def Cons_nth_drop_Suc [symmetric])
  ultimately show ?thesis using range_result_own [OF assms(1), of k 1] k(1) e(2) by simp
qed

lemma single_after:
  assumes "wf p" "findCommit p (Snapshot l) = Inr None" "build p (Snapshot l) = Inr ds"
    "commitBatch clock l ds = Inr (l', evs)"
  shows "findCommit p (Snapshot l') = Inr (Some (commit_result l l' evs))"
proof -
  obtain d where d: "draft p = Inr d" "ds = [d]" using build_one [OF assms(3)] by blast
  obtain e where e: "evs = [e]" "entries l' = entries l @ [e]" "ValidateEvent d e = Inr ()"
    "evSeq e = int (length (entries l))" "logHeader l' = logHeader l"
    using commitBatch_entries [OF assms(4)] d(2) by (cases evs) auto
  have "find_first ty (same p) (entries l') = Inr (Some e)"
    using assms(2) draft_same [OF assms(1) d(1) e(3)]
    by (simp add: e(2) find_first_append find_is_single single_find_Inr_None)
  then have "findCommit p (Snapshot l') = Inr (Some (range_result (headerID (logHeader l')) (evSeq e) [e]))"
    using d(1) e(3) by (simp add: find_is_single single_find_Inr_Some)
  then show ?thesis using commit_result_range [OF assms(4)] e by simp
qed

lemma single_stable:
  assumes "findCommit p (Snapshot l) = Inr (Some r)" "logHeader l' = logHeader l" "entries l' = entries l @ es"
  shows "findCommit p (Snapshot l') = Inr (Some r)"
  using assms by (auto simp: find_is_single single_find_Inr_Some find_first_append)

end

sublocale single_event_write \<subseteq> stable_write wf build findCommit "\<lambda>p e. True"
  by unfold_locales (auto intro: single_own single_after single_stable)

section \<open>Start and failed end\<close>

definition wf_start :: "transaction_start \<Rightarrow> bool" where
  "wf_start p = valid_start (tsLifecycle p)"

definition wf_end :: "transaction_end \<Rightarrow> bool" where
  "wf_end p = valid_start (teLifecycle p)"

lemma newTransactionStart_wf: "newTransactionStart lifecycle requested = Inr p \<Longrightarrow> wf_start p"
  by (auto simp: newTransactionStart_def wf_start_def bindE_Inr_iff dest: DecodeStart_valid)

lemma newTransactionStart_valid:
  "valid_start lifecycle \<Longrightarrow>
   newTransactionStart lifecycle requested = Inr \<lparr>tsLifecycle = lifecycle, tsRequested = requested\<rparr>"
  using start_codec.dec_enc [of lifecycle] by (auto simp: newTransactionStart_def)

lemma newTransactionEnd_wf: "newTransactionEnd lifecycle failure = Inr p \<Longrightarrow> wf_end p"
  by (auto simp: newTransactionEnd_def wf_end_def bindE_Inr_iff dest: DecodeStart_valid split: option.splits)

lemma ValidateEvent_data:
  "ValidateEvent d e = Inr () \<Longrightarrow> evType e = draftType d \<and> evData e = draftData d \<and>
   evSources e = draftSources d \<and> evSurfaceOp e = draftSurfaceOp d"
  by (simp add: ValidateEvent_Inr)

lemma start_draft_decodes:
  assumes "valid_start s" "start_draft s = Inr d"
  shows "draftType d = ''compaction/start'' \<and> DecodeStart (draftData d) = Inr s \<and>
    draftSources d = None \<and> draftSurfaceOp d = None"
  using start_codec.draft_decodes [OF assms(2) [unfolded start_draft_def] assms(1)] assms(2)
  by (auto simp: start_draft_def NewEventDraft_Inr)

lemma end_draft_decodes:
  assumes "wf_end p" "end_draft p = Inr d"
  shows "draftType d = ''compaction/end'' \<and>
    DecodeEnd (draftData d) = Inr \<lparr>endID = startID (teLifecycle p), endCommand = startCommand (teLifecycle p),
                     endTurn = startTurn (teLifecycle p), endError = Some (teDetail p)\<rparr> \<and>
    draftSources d = None \<and> draftSurfaceOp d = None"
  using end_codec.draft_decodes [OF assms(2) [unfolded end_draft_def]] assms
  by (auto simp: end_draft_def NewEventDraft_Inr wf_end_def valid_start_def valid_end_def)

interpretation start_write: single_event_write wf_start start_build start_find
  "''compaction/start''" start_same "\<lambda>p. start_draft (tsLifecycle p)"
  "''compaction: start identity conflicts with committed fields: %w''"
proof unfold_locales
  fix p d e assume "wf_start p" "start_draft (tsLifecycle p) = Inr d" "ValidateEvent d e = Inr ()"
  then show "evType e = ''compaction/start'' \<and> start_same p e = Inr True"
    using start_draft_decodes ValidateEvent_data by (simp add: wf_start_def start_same_def)
qed (auto simp: start_find_def start_build_def bindE_Inr_iff)

interpretation end_write: single_event_write wf_end end_build end_find
  "''compaction/end''" end_same end_draft
  "''compaction: transaction already has a different end: %w''"
proof unfold_locales
  fix p d e assume "wf_end p" "end_draft p = Inr d" "ValidateEvent d e = Inr ()"
  then show "evType e = ''compaction/end'' \<and> end_same p e = Inr True"
    using end_draft_decodes ValidateEvent_data by (simp add: end_same_def)
qed (auto simp: end_find_def end_build_def bindE_Inr_iff split: option.splits)

section \<open>The completion batch\<close>

text \<open>
  A completion whose summary and end payloads decode to its own identity; so do those
  \<open>newTransactionCompletion\<close> makes from canonical content.
\<close>

definition wf_completion :: "transaction_completion \<Rightarrow> bool" where
  "wf_completion p =
     (valid_start (tcLifecycle p) \<and> 0 \<le> tcStartSeq p \<and>
      draftType (tcSummary p) = ''compaction/summary'' \<and> draftSources (tcSummary p) = None \<and>
      draftSurfaceOp (tcSummary p) = None \<and>
      (\<exists>s. DecodeSummary (draftData (tcSummary p)) = Inr s \<and> sumID s = startID (tcLifecycle p) \<and>
           sumCommand s = startCommand (tcLifecycle p) \<and> elements (sumSeqs s) = regionSeqs (tcSelected p) \<and>
           sumRange s = \<lparr>rangeStart = regionStart (tcSelected p), rangeEnd = regionEnd (tcSelected p)\<rparr>) \<and>
      draftType (tcEnd p) = ''compaction/end'' \<and> draftSources (tcEnd p) = None \<and>
      draftSurfaceOp (tcEnd p) = None \<and>
      DecodeEnd (draftData (tcEnd p)) = Inr (completion_end (tcLifecycle p)) \<and>
      source_value (tcCheckpoint p) = CheckpointSource (startID (tcLifecycle p)) (startCommand (tcLifecycle p)) \<and>
      CloneUserMessage (tcCheckpoint p) = Inr (tcCheckpoint p))"

lemma newTransactionCompletion_wf:
  assumes "newTransactionCompletion start r = Inr p"
    and "\<And>s. DecodeStart (evData start) = Inr s \<Longrightarrow> valid_summary (completion_summary s r)"
  shows "wf_completion p \<and> tcStartSeq p = evSeq start \<and> DecodeStart (evData start) = Inr (tcLifecycle p) \<and>
    tcSelected p = baseSelected (repBaseline r) \<and> tcSurface p = baseSurface (repBaseline r)"
proof -
  from assms(1) obtain s c sd ed where p: "0 \<le> evSeq start" "DecodeStart (evData start) = Inr s"
    "source_value (repCheckpoint r) = CheckpointSource (startID s) (startCommand s)"
    "CloneUserMessage (repCheckpoint r) = Inr c"
    "NewEventDraft ''compaction/summary'' (marshal_summary (completion_summary s r)) False = Inr sd"
    "NewEventDraft ''compaction/end'' (marshal_end (completion_end s)) False = Inr ed"
    "p = \<lparr>tcLifecycle = s, tcStartSeq = evSeq start, tcSelected = baseSelected (repBaseline r),
          tcSurface = baseSurface (repBaseline r), tcSummary = sd, tcCheckpoint = c, tcEnd = ed\<rparr>"
    by (auto simp: newTransactionCompletion_def bindE_Inr_iff failIf_Inr)
  have c: "c = repCheckpoint r" using CloneUserMessage_same [OF p(4)] .
  have v: "valid_start s" using DecodeStart_valid [OF p(2)] .
  obtain j where "marshal_summary (completion_summary s r) = Inr j" "DecodeSummary (Doc j) = Inr (completion_summary s r)"
    using summary_round_trip [OF assms(2) [OF p(2)]] by blast
  then have sd: "DecodeSummary (draftData sd) = Inr (completion_summary s r)"
    "draftType sd = ''compaction/summary''" "draftSources sd = None" "draftSurfaceOp sd = None"
    using p(5) by (auto simp: NewEventDraft_Inr)
  have ed: "DecodeEnd (draftData ed) = Inr (completion_end s)"
    using end_codec.draft_decodes [OF p(6)] v
    by (simp add: completion_end_def valid_start_def valid_end_def)
  have "draftType ed = ''compaction/end''" "draftSources ed = None" "draftSurfaceOp ed = None"
    using p(6) by (auto simp: NewEventDraft_Inr)
  with p c v sd ed show ?thesis
    by (simp add: wf_completion_def) (simp add: completion_summary_def)
qed

text \<open>The loop finds nothing: no end and no summary of the transaction.\<close>

lemma completion_loop_append:
  "completion_loop p snap i es = Inr None \<Longrightarrow>
   completion_loop p snap' i (es @ fs) = completion_loop p snap' (i + length es) fs"
proof (induction es arbitrary: i)
  case (Cons e es)
  have "completion_loop p snap (Suc i) es = Inr None"
    using Cons.prems by (auto simp: bindE_Inr_iff split: if_splits)
  with Cons.IH have IH: "completion_loop p snap' (Suc i) (es @ fs) = completion_loop p snap' (Suc i + length es) fs" .
  show ?case
  proof (cases "evType e = ''compaction/end''")
    case True
    with Cons.prems show ?thesis by (auto simp: IH bindE_Inr_iff)
  next
    case False
    with Cons.prems show ?thesis by (auto simp: IH bindE_Inr_iff split: if_splits)
  qed
qed simp

lemma completion_drafts_Inr:
  "completion_drafts p q = Inr ds \<Longrightarrow>
   \<exists>j. marshal_message (tcCheckpoint p) = Inr j \<and> lossless j \<and>
     ds = [tcSummary p,
           \<lparr>draftType = ''user/message'', draftData = Doc j,
            draftSources = Some ([tcStartSeq p, q] @ regionSeqs (tcSelected p)),
            draftSurfaceOp = Some (SurfaceReplace (regionStart (tcSelected p)) (regionEnd (tcSelected p))),
            draftIgnorable = False\<rparr>, tcEnd p]"
  by (auto simp: completion_drafts_def bindE_Inr_iff NewSurfaceEventDraft_Inr)

lemma completion_build_drafts:
  "completion_build p snap = Inr ds \<Longrightarrow> completion_drafts p (barrierNext (snapBarrier snap)) = Inr ds"
  by (auto simp: completion_build_def bindE_Inr_iff)

lemma completion_found:
  assumes "completion_loop p snap i es = Inr (Some r)" "snapEvents snap = pre @ es" "i = length pre"
    "contiguous (snapEvents snap)"
  shows "\<exists>k. k + 3 \<le> length (snapEvents snap) \<and>
    r = range_result (barrierSession (snapBarrier snap)) (int k) (subslice (snapEvents snap) k 3)"
  using assms
proof (induction es arbitrary: i pre)
  case (Cons e es)
  have rest: ?case if "completion_loop p snap (Suc i) es = Inr (Some r)"
    using Cons.IH [OF that, of "pre @ [e]"] Cons.prems by simp
  show ?case
  proof (cases "evType e = ''compaction/summary'' \<and>
      (\<exists>s. DecodeSummary (evData e) = Inr s \<and> sumID s = startID (tcLifecycle p))")
    case True
    then have "i + 3 \<le> length (snapEvents snap)"
      "r = \<lparr>firstSeq = evSeq e, nextSeq = evSeq e + 3,
                     resultBarrier = \<lparr>barrierSession = barrierSession (snapBarrier snap),
                                      barrierNext = evSeq e + 3\<rparr>,
                     resultEvents = subslice (snapEvents snap) i 3\<rparr>"
      using Cons.prems(1) by (auto simp: bindE_Inr_iff failIf_Inr)
    moreover have "evSeq e = int i"
      using Cons.prems(2,3,4) by (auto simp: contiguous_append dest: spec [of _ 0])
    ultimately show ?thesis by (intro exI [of _ i]) (simp add: range_result_def)
  next
    case False
    with Cons.prems(1) have "completion_loop p snap (Suc i) es = Inr (Some r)"
      by (auto simp: bindE_Inr_iff split: if_splits)
    with rest show ?thesis .
  qed
qed simp

lemma completion_loop_grows:
  "completion_loop p (Snapshot l) i es = Inr (Some r) \<Longrightarrow> entries l = pre @ es \<Longrightarrow> i = length pre \<Longrightarrow>
   entries l' = entries l @ fs \<Longrightarrow> logHeader l' = logHeader l \<Longrightarrow>
   completion_loop p (Snapshot l') i (es @ gs) = Inr (Some r)"
proof (induction es arbitrary: i pre)
  case (Cons e es)
  have IH: "completion_loop p (Snapshot l) (Suc i) es = Inr (Some r) \<Longrightarrow>
      completion_loop p (Snapshot l') (Suc i) (es @ gs) = Inr (Some r)"
    using Cons.IH [of "Suc i" "pre @ [e]"] Cons.prems by simp
  have batch: "check_batch (entries l @ fs) i q k ds = check_batch (entries l) i q k ds"
    if "i + k + length ds \<le> length (entries l)" for q k ds
    using that by (induction ds arbitrary: k) (simp_all add: nth_append)
  have three: "completion_drafts p q = Inr ds \<Longrightarrow> length ds = 3" for q ds
    using completion_drafts_Inr by fastforce
  show ?case
  proof (cases "evType e = ''compaction/summary'' \<and>
      (\<exists>s. DecodeSummary (evData e) = Inr s \<and> sumID s = startID (tcLifecycle p))")
    case True
    then obtain s ds where s: "evType e = ''compaction/summary''" "DecodeSummary (evData e) = Inr s"
      "sumID s = startID (tcLifecycle p)" "i + 3 \<le> length (entries l)" "completion_drafts p (evSeq e) = Inr ds"
      "check_batch (entries l) i (evSeq e) 0 ds = Inr ()"
      using Cons.prems(1) by (auto simp: bindE_Inr_iff failIf_Inr)
    have "check_batch (entries l @ fs) i (evSeq e) 0 ds = Inr ()"
      using batch [of 0 ds] three [OF s(5)] s(4,6) by simp
    then show ?thesis
      using s Cons.prems(1,4,5) by (simp add: subslice_prefix)
  next
    case False
    then have skip: "completion_loop p snap i (e # xs) = Inr (Some r) \<longleftrightarrow>
        (evType e = ''compaction/end'' \<longrightarrow> (\<exists>x. DecodeEnd (evData e) = Inr x \<and> endID x \<noteq> startID (tcLifecycle p))) \<and>
        (evType e = ''compaction/summary'' \<longrightarrow> (\<exists>x. DecodeSummary (evData e) = Inr x)) \<and>
        completion_loop p snap (Suc i) xs = Inr (Some r)" for snap xs
      by (cases "evType e = ''compaction/end''"; cases "evType e = ''compaction/summary''")
        (auto simp: bindE_Inr_iff failIf_Inr)
    show ?thesis using Cons.prems(1) IH unfolding append_Cons skip by blast
  qed
qed simp

interpretation completion_write: stable_write wf_completion completion_build completion_find "\<lambda>p e. True"
proof unfold_locales
  fix p l r assume "wf_completion p" "log_ok l" "completion_find p (Snapshot l) = Inr (Some r)"
  then obtain k where "k + 3 \<le> length (entries l)"
    "r = range_result (headerID (logHeader l)) (int k) (subslice (entries l) k 3)"
    using completion_found [of p "Snapshot l" 0 "entries l" r "[]"]
    by (auto simp: completion_find_def log_ok_def)
  with range_result_own [OF \<open>log_ok l\<close>] show "own_range l r" by simp
next
  fix p l ds clock l' evs
  assume wf: "wf_completion p" and ok: "log_ok l" and none: "completion_find p (Snapshot l) = Inr None"
    and b: "completion_build p (Snapshot l) = Inr ds" and c: "commitBatch clock l ds = Inr (l', evs)"
  let ?n = "length (entries l)"
  have ds: "completion_drafts p (int ?n) = Inr ds" using completion_build_drafts [OF b] by simp
  obtain d where dd: "ds = [tcSummary p, d, tcEnd p]" using completion_drafts_Inr [OF ds] by auto
  note ce = commitBatch_entries [OF c]
  obtain e1 e2 e3 where evs: "evs = [e1, e2, e3]"
    using ce dd by (cases evs; cases "tl evs"; cases "tl (tl evs)") auto
  have v: "ValidateEvent (tcSummary p) e1 = Inr ()" "ValidateEvent d e2 = Inr ()" "ValidateEvent (tcEnd p) e3 = Inr ()"
    and q: "evSeq e1 = int ?n" "evSeq e2 = int ?n + 1" "evSeq e3 = int ?n + 2"
    using ce by (auto simp: evs dd All_less_Suc numeral_3_eq_3)
  have e1: "evType e1 = ''compaction/summary''" "evData e1 = draftData (tcSummary p)"
    using ValidateEvent_data [OF v(1)] wf by (simp_all add: wf_completion_def)
  obtain s where s: "DecodeSummary (evData e1) = Inr s" "sumID s = startID (tcLifecycle p)"
    using wf e1(2) by (auto simp: wf_completion_def)
  have "check_batch (entries l') ?n (int ?n) 0 ds = Inr ()"
    using v q ce by (simp add: dd evs nth_append)
  then have "completion_loop p (Snapshot l') ?n evs = Inr (Some (commit_result l l' evs))"
    using e1 s ds q ce commit_result_range [OF c] by (simp add: evs range_result_def)
  moreover have "completion_find p (Snapshot l') = completion_loop p (Snapshot l') ?n evs"
    using completion_loop_append [of p "Snapshot l" 0 "entries l" "Snapshot l'" evs] none ce
    by (simp add: completion_find_def)
  ultimately show "completion_find p (Snapshot l') = Inr (Some (commit_result l l' evs))" by simp
next
  fix p es r and l l' :: log
  assume "logHeader l' = logHeader l" "entries l' = entries l @ es" "completion_find p (Snapshot l) = Inr (Some r)"
  then show "completion_find p (Snapshot l') = Inr (Some r)"
    using completion_loop_grows [of p l 0 "entries l" r "[]" l' es es] by (simp add: completion_find_def)
qed

end
