(* ===== verification/CompactionEffects.thy ===== *)
theory CompactionEffects
  imports CompactionWriteLaws
begin

text \<open>
  What a committed compaction write does to the durable lock and to the surface: a start
  opens the lock for its transaction, a failed end and a completion release it, the log
  stays one that \<open>InspectLog\<close> accepts, and a completion replaces exactly the selected span
  by its checkpoint.
\<close>

section \<open>The owner of an open attempt\<close>

lemma orphan_loop_starts:
  "n \<in> set (orphan_loop q es) \<Longrightarrow>
   (q = Some n \<or> (\<exists>pre s post. es = pre @ s # post \<and> is_start s \<and> evSeq s = n \<and> (\<exists>e \<in> set post. releases e))) \<and>
   (\<exists>e \<in> set es. releases e)"
proof (induction es arbitrary: q)
  case (Cons e es)
  show ?case
  proof (cases "evType e = EndSeedEventName")
    case True
    with Cons.prems consider "q = Some n" | "n \<in> set (orphan_loop None es)"
      by (auto simp: EndSeedEventName_def split: option.splits)
    then show ?thesis
    proof cases
      case 2
      from Cons.IH [OF 2] obtain pre s post where
        "es = pre @ s # post" "is_start s" "evSeq s = n" "\<exists>e \<in> set post. releases e" by auto
      then show ?thesis
        using True by (auto simp: releases_def intro!: exI [of _ "e # pre"])
    qed (use True in \<open>auto simp: releases_def\<close>)
  next
    case False
    define q' where "q' = (if evType e = ''compaction/start'' then Some (evSeq e)
      else if evType e = ''compaction/end'' then None else q)"
    have "n \<in> set (orphan_loop q' es)"
      using Cons.prems False by (auto simp: q'_def split: if_splits)
    note IH = Cons.IH [OF this]
    then consider "q' = Some n" | pre s post where
        "es = pre @ s # post" "is_start s" "evSeq s = n" "\<exists>e \<in> set post. releases e" by blast
    then show ?thesis
    proof cases
      case 1
      then consider "q = Some n" | "is_start e" "evSeq e = n"
        by (auto simp: q'_def is_start_def split: if_splits)
      then show ?thesis
      proof cases
        case 2
        with IH have "e # es = [] @ e # es \<and> is_start e \<and> evSeq e = n \<and> (\<exists>x \<in> set es. releases x)" by simp
        then show ?thesis by (metis list.set_intros(2))
      qed (use IH in auto)
    next
      case (2 pre s post)
      then have "e # es = (e # pre) @ s # post" by simp
      with 2 IH show ?thesis by (metis list.set_intros(2))
    qed
  qed
qed simp

lemma contiguous_same:
  "contiguous es \<Longrightarrow> es = pre @ s # post \<Longrightarrow> es = pre' @ s' # post' \<Longrightarrow> evSeq s = evSeq s' \<Longrightarrow>
   pre = pre' \<and> s = s' \<and> post = post'"
proof -
  assume c: "contiguous es" and e: "es = pre @ s # post" "es = pre' @ s' # post'" and q: "evSeq s = evSeq s'"
  have "evSeq s = int (length pre)" "evSeq s' = int (length pre')"
    using c [unfolded e(1)] c [unfolded e(2)] by (auto simp: contiguous_append dest: spec [of _ 0])
  with q have "length pre = length pre'" by simp
  with e show ?thesis by (metis append_eq_append_conv list.inject)
qed

lemma open_not_stale:
  assumes "contiguous es" "es = pre @ s # post" "started_by a s post"
  shows "attStart a \<notin> set (inheritedOrphanStarts es)"
proof
  assume "attStart a \<in> set (inheritedOrphanStarts es)"
  then obtain pre' s' post' where "es = pre' @ s' # post'" "evSeq s' = attStart a" "\<exists>e \<in> set post'. releases e"
    using orphan_loop_starts [of "attStart a" None es] by (auto simp: inheritedOrphanStarts_def)
  moreover from this contiguous_same [OF assms(1,2)] assms(3) have "post' = post"
    by (auto simp: started_by_def)
  ultimately show False using assms(3) by (auto simp: started_by_def)
qed

lemma lock_start_Inr:
  "lock_start st e = Inr st' \<longleftrightarrow>
   (\<exists>s. DecodeStart (evData e) = Inr s \<and> attempt st = None \<and>
        validateCompactionOwner (startTurn s) (openTurn st) (evType e) = Inr () \<and>
        st' = st\<lparr>attempt := Some \<lparr>attID = startID s, attCommand = startCommand s, attStart = evSeq e,
                                     attTurn = startTurn s, attSummarized = False\<rparr>\<rparr>)"
  by (cases "DecodeStart (evData e)"; cases "attempt st") (auto simp: lock_start_def bindE_Inr_iff)

lemma inspect_step_turn:
  assumes "inspect_step stale st e = Inr st'"
  shows "is_start e \<Longrightarrow> attempt st' = Some a \<Longrightarrow> attTurn a = openTurn st'"
    and "evType e \<noteq> ''turn/start'' \<Longrightarrow> evType e \<noteq> ''turn/end'' \<Longrightarrow> openTurn st' = openTurn st"
    and "attempt st = Some a \<Longrightarrow> attStart a \<notin> set stale \<Longrightarrow> evType e \<noteq> ''turn/start'' \<and> evType e \<noteq> ''turn/end''"
proof -
  obtain mid where mid: "(if (case attempt st of None \<Rightarrow> True | Some a \<Rightarrow> attStart a \<notin> set stale)
               then validateCompactionTurnBoundary st e else Inr ()) = Inr ()"
    "applyCompactionEvent st e = Inr mid" "applyCompactionTurnBoundary mid e = Inr st'"
    using assms by (auto simp: inspect_step_def wrapE_Inr_iff bindE_Inr_iff)
  have o: "openTurn mid = openTurn st"
    using mid(2) by (auto simp: applyCompactionEvent_def lock_start_def lock_summary_def lock_end_def
        bindE_Inr_iff split: if_splits option.splits)
  show "attTurn a = openTurn st'" if "is_start e" "attempt st' = Some a"
  proof -
    have e: "evType e = ''compaction/start''" using that(1) by (simp add: is_start_def)
    then have s: "st' = mid" using mid(3) by (simp add: applyCompactionTurnBoundary_def)
    have "lock_start st e = Inr mid"
      using mid(2) e by (simp add: applyCompactionEvent_def EndSeedEventName_def)
    then obtain s :: compaction_start where "validateCompactionOwner (startTurn s) (openTurn st) (evType e) = Inr ()"
      "mid = st\<lparr>attempt := Some \<lparr>attID = startID s, attCommand = startCommand s, attStart = evSeq e,
                           attTurn = startTurn s, attSummarized = False\<rparr>\<rparr>"
      unfolding lock_start_Inr by blast
    then show ?thesis
      using that(2) o s by (auto simp: validateCompactionOwner_def failIf_Inr split: option.splits)
  qed
  show "openTurn st' = openTurn st" if "evType e \<noteq> ''turn/start''" "evType e \<noteq> ''turn/end''"
    using mid(3) that o by (simp add: applyCompactionTurnBoundary_def)
  show "evType e \<noteq> ''turn/start'' \<and> evType e \<noteq> ''turn/end''"
    if "attempt st = Some a" "attStart a \<notin> set stale"
    using mid(1) that by (auto simp: validateCompactionTurnBoundary_def split: if_splits)
qed

lemma started_owner:
  "inspect_loop stale no_attempt es = Inr st \<Longrightarrow> attempt st = Some a \<Longrightarrow> attStart a \<notin> set stale \<Longrightarrow>
   attTurn a = openTurn st"
proof (induction es arbitrary: st a rule: rev_induct)
  case Nil
  then show ?case by (auto simp: no_attempt_def)
next
  case (snoc e es)
  from snoc.prems(1) obtain st0 where
    st0: "inspect_loop stale no_attempt es = Inr st0" "inspect_step stale st0 e = Inr st"
    by (auto simp: inspect_loop_append bindE_Inr_iff)
  note step = inspect_step_attempt [OF st0(2)] and turn = inspect_step_turn [OF st0(2)]
  show ?case
  proof (cases "is_start e")
    case True
    with turn(1) snoc.prems(2) show ?thesis by simp
  next
    case False
    have "\<exists>b. attempt st0 = Some b \<and> attTurn b = attTurn a \<and> attStart b = attStart a"
    proof (cases "evType e = ''compaction/summary''")
      case True
      with step(4) snoc.prems(2) show ?thesis by auto
    next
      case no_summary: False
      have "\<not> releases e" using step(1,3) snoc.prems(2) by (auto simp: releases_def)
      with step(5) False no_summary have "attempt st0 = Some a" using snoc.prems(2) by simp
      then show ?thesis by blast
    qed
    then obtain b where b: "attempt st0 = Some b" "attTurn b = attTurn a" "attStart b = attStart a" by blast
    then have "attTurn b = openTurn st0" using snoc.IH [OF st0(1) b(1)] snoc.prems(3) by simp
    moreover have "openTurn st = openTurn st0" using turn(2,3) b snoc.prems(3) by simp
    ultimately show ?thesis using b(2) by simp
  qed
qed

lemma open_attempt_owner:
  "InspectLog es = Inr st \<Longrightarrow> contiguous es \<Longrightarrow> attempt st = Some a \<Longrightarrow>
   attTurn a = openTurn st \<and> attStart a \<notin> set (inheritedOrphanStarts es)"
proof -
  assume i: "InspectLog es = Inr st" and c: "contiguous es" and a: "attempt st = Some a"
  obtain pre s post where "es = pre @ s # post" "started_by a s post"
    using attempt_started i a unfolding InspectLog_def by blast
  with open_not_stale [OF c] have "attStart a \<notin> set (inheritedOrphanStarts es)" by blast
  with started_owner i a show ?thesis unfolding InspectLog_def by blast
qed

section \<open>The start\<close>

lemma owner_ok: "validateCompactionOwner t t ty = Inr ()"
  by (simp add: validateCompactionOwner_def split: option.splits)

lemma start_commit:
  assumes wf: "wf_start p" and ok: "log_ok l" and b: "start_build p (Snapshot l) = Inr ds"
    and c: "commitBatch clock l ds = Inr (l', evs)"
  shows "\<exists>st. InspectLog (entries l) = Inr st \<and> attempt st = None \<and>
    InspectLog (entries l') = Inr (st\<lparr>attempt := Some
      \<lparr>attID = startID (tsLifecycle p), attCommand = startCommand (tsLifecycle p),
       attStart = int (length (entries l)), attTurn = startTurn (tsLifecycle p), attSummarized = False\<rparr>\<rparr>) \<and>
    view l' = view l"
proof -
  obtain st d where st: "InspectLog (entries l) = Inr st" "attempt st = None"
    "startTurn (tsLifecycle p) = openTurn st" "start_draft (tsLifecycle p) = Inr d" "ds = [d]"
    using b by (auto simp: start_build_def bindE_Inr_iff failIf_Inr split: option.splits)
  obtain e where e: "evs = [e]" "entries l' = entries l @ [e]" "ValidateEvent d e = Inr ()"
    "evSeq e = int (length (entries l))"
    using commitBatch_entries [OF c] st(5) by (cases evs) auto
  have data: "evType e = ''compaction/start''" "DecodeStart (evData e) = Inr (tsLifecycle p)"
    "evSurfaceOp e = None"
    using start_draft_decodes [OF _ st(4)] ValidateEvent_data [OF e(3)] wf by (auto simp: wf_start_def)
  have "inspect_step (inheritedOrphanStarts (entries l)) st e = Inr (st\<lparr>attempt := Some
      \<lparr>attID = startID (tsLifecycle p), attCommand = startCommand (tsLifecycle p),
       attStart = int (length (entries l)), attTurn = startTurn (tsLifecycle p), attSummarized = False\<rparr>\<rparr>)"
    by (simp add: inspect_step_def st(2,3) data e(4) validateCompactionTurnBoundary_def applyCompactionEvent_def
        EndSeedEventName_def lock_start_def owner_ok applyCompactionTurnBoundary_def)
  moreover have "view l' = view l"
    using c data e(1) planSurface_plain [of e "view l" "entries l" "[]"]
    by (auto simp: commitBatch_Inr bindE_Inr_iff surfaceEventTypes_def)
  ultimately show ?thesis
    using st(1,2) InspectLog_snoc [of e "entries l"] data(1) by (simp add: e(2) EndSeedEventName_def)
qed

section \<open>The failed end\<close>

lemma lock_end_step:
  assumes "attempt st = Some a" "attTurn a = openTurn st" "evType e = ''compaction/end''"
    "DecodeEnd (evData e) = Inr x" "endID x = attID a" "endCommand x = attCommand a" "endTurn x = attTurn a"
    "endError x = None \<longrightarrow> attSummarized a"
  shows "inspect_step stale st e = Inr (st\<lparr>attempt := None\<rparr>)"
  using assms owner_ok [of "openTurn st" "''compaction/end''"]
  by (auto simp: inspect_step_def validateCompactionTurnBoundary_def applyCompactionEvent_def
      EndSeedEventName_def lock_end_def applyCompactionTurnBoundary_def validateSourceCommandOwner_def failIf_def)

text \<open>The attempt that a start event in the log opened has the fields of that event.\<close>

lemma attempt_fields:
  assumes "log_ok l" "InspectLog (entries l) = Inr st" "attempt st = Some a"
    "DecodeStart (evData (entries l ! nat (attStart a))) = Inr s"
  shows "attCommand a = startCommand s \<and> attTurn a = startTurn s \<and> attID a = startID s"
proof -
  obtain pre x post where x: "entries l = pre @ x # post" "started_by a x post"
    using attempt_started assms(2,3) unfolding InspectLog_def by blast
  have "evSeq x = int (length pre)"
    using assms(1) x(1) by (auto simp: log_ok_def contiguous_append dest: spec [of _ 0])
  with x have "entries l ! nat (attStart a) = x" by (simp add: started_by_def)
  with assms(4) x(2) show ?thesis by (auto simp: started_by_def)
qed

lemma end_commit:
  assumes wf: "wf_end p" and ok: "log_ok l" and b: "end_build p (Snapshot l) = Inr ds"
    and c: "commitBatch clock l ds = Inr (l', evs)"
  shows "\<exists>st a. InspectLog (entries l) = Inr st \<and> attempt st = Some a \<and> attID a = startID (teLifecycle p) \<and>
    InspectLog (entries l') = Inr (st\<lparr>attempt := None\<rparr>) \<and> view l' = view l"
proof -
  obtain st a sd d where st: "InspectLog (entries l) = Inr st" "attempt st = Some a"
    "attID a = startID (teLifecycle p)" "start_draft (teLifecycle p) = Inr sd"
    "ValidateEvent sd (entries l ! nat (attStart a)) = Inr ()" "end_draft p = Inr d" "ds = [d]"
    using b by (auto simp: end_build_def bindE_Inr_iff failIf_Inr wrapE_Inr_iff split: option.splits)
  obtain e where e: "evs = [e]" "entries l' = entries l @ [e]" "ValidateEvent d e = Inr ()"
    using commitBatch_entries [OF c] st(7) by (cases evs) auto
  have cont: "contiguous (entries l)" using ok by (simp add: log_ok_def)
  have own: "attTurn a = openTurn st" using open_attempt_owner [OF st(1) cont st(2)] by simp
  have "DecodeStart (evData (entries l ! nat (attStart a))) = Inr (teLifecycle p)"
    using start_draft_decodes [OF _ st(4)] ValidateEvent_data [OF st(5)] wf by (simp add: wf_end_def)
  note f = attempt_fields [OF ok st(1,2) this]
  have data: "evType e = ''compaction/end''"
    "DecodeEnd (evData e) = Inr \<lparr>endID = startID (teLifecycle p), endCommand = startCommand (teLifecycle p),
                     endTurn = startTurn (teLifecycle p), endError = Some (teDetail p)\<rparr>"
    "evSurfaceOp e = None"
    using end_draft_decodes [OF wf st(6)] ValidateEvent_data [OF e(3)] by auto
  have "inspect_step (inheritedOrphanStarts (entries l)) st e = Inr (st\<lparr>attempt := None\<rparr>)"
    by (rule lock_end_step [OF st(2) own data(1,2)]) (use f in auto)
  moreover have "view l' = view l"
    using c data e(1) planSurface_plain [of e "view l" "entries l" "[]"]
    by (auto simp: commitBatch_Inr bindE_Inr_iff surfaceEventTypes_def)
  ultimately show ?thesis
    using st(1-3) InspectLog_snoc [of e "entries l"] data(1) by (simp add: e(2) EndSeedEventName_def)
qed

end
