(* ===== verification/CompactionOutcome.thy ===== *)
theory CompactionOutcome
  imports CompactionEffects
begin

text \<open>
  The checkpoint message as the log stores it, and the outcome of a committed completion:
  the lock is released and exactly the selected span became the checkpoint.
\<close>

section \<open>The stored checkpoint\<close>

definition checkpoint_json :: "string \<Rightarrow> string option \<Rightarrow> json" where
  "checkpoint_json i c =
     JObj ([(''kind'', JStr ''plugin''), (''plugin'', JStr ''compact''), (''compactionId'', JStr i)]
       @ (case c of None \<Rightarrow> [] | Some s \<Rightarrow> [(''sourceCommandId'', JStr s)]))"

lemma fields_Doc_obj: "fields_of (Doc (JObj fs)) = Inr fs"
  by simp

lemma checkpoint_source_stored:
  assumes "i \<noteq> []" "c \<noteq> Some []"
  shows "marshal_source (CheckpointSource i c) = Inr (checkpoint_json i c)"
    and "lossless (checkpoint_json i c)"
    and "decodeMessageSource (Doc (checkpoint_json i c)) = Inr (OpaqueSource ''plugin'' (Doc (checkpoint_json i c)))"
    and "CloneSource (OpaqueSource ''plugin'' (Doc (checkpoint_json i c))) =
           Inr (OpaqueSource ''plugin'' (Doc (checkpoint_json i c)))"
    and "decodeCheckpointSource (OpaqueSource ''plugin'' (Doc (checkpoint_json i c))) = Inr (Some (i, c))"
proof -
  show m: "marshal_source (CheckpointSource i c) = Inr (checkpoint_json i c)"
    using assms by (simp add: NewCheckpointSource_def checkpoint_json_def)
  show ll: "lossless (checkpoint_json i c)"
    by (simp add: checkpoint_json_def split: option.splits)
  obtain gs where gs: "checkpoint_json i c = JObj gs"
    "gs = [(''kind'', JStr ''plugin''), (''plugin'', JStr ''compact''), (''compactionId'', JStr i)]
       @ (case c of None \<Rightarrow> [] | Some s \<Rightarrow> [(''sourceCommandId'', JStr s)])"
    by (simp add: checkpoint_json_def)
  have obj: "IsObject (Doc (JObj gs))" "Validate (Doc (JObj gs)) = Inr ()"
    using block_object_known ll gs(1) by auto
  have clone: "Clone (Doc (JObj gs)) = Inr (Doc (JObj gs))" using obj(2) by (simp add: Clone_def del: Validate.simps)
  have kd: "get_string gs ''kind'' = Inr ''plugin''" "get_string gs ''plugin'' = Inr ''compact''"
    "get_string gs ''compactionId'' = Inr i"
    by (simp_all add: gs(2) get_string_def split: option.splits)
  have command: "scan_pointer as_string None (matches ''sourceCommandId'' gs) = Inr c"
    by (simp add: gs(2) split: option.splits)
  have maps: "map_get (Some gs) ''plugin'' = Doc (JStr ''compact'')" "map_get (Some gs) ''kind'' = Doc (JStr ''plugin'')"
    "map_get (Some gs) ''form'' = Absent" "map_get (Some gs) ''sections'' = Absent" "map_get (Some gs) ''summary'' = Absent"
    by (simp_all add: gs(2) map_get_def split: option.splits)
  have unknown: "\<not> known_fields [''kind'', ''plugin'', ''form'', ''sections'', ''summary''] gs"
    by (simp add: gs(2))
  have known: "known_fields [''kind'', ''plugin'', ''compactionId'', ''sourceCommandId''] gs"
    by (simp add: gs(2) split: option.splits)
  have new: "NewOpaqueMessageSource ''plugin'' (Doc (JObj gs)) = Inr (OpaqueSource ''plugin'' (Doc (JObj gs)))"
    using clone obj(1) maps(2) by (simp add: NewOpaqueMessageSource_def del: Validate.simps)
  then show "CloneSource (OpaqueSource ''plugin'' (Doc (checkpoint_json i c))) =
           Inr (OpaqueSource ''plugin'' (Doc (checkpoint_json i c)))"
    by (simp add: gs(1))
  have "restore_plugin_extension (Doc (JObj gs)) = Inr (OpaqueSource ''plugin'' (Doc (JObj gs)))"
    using maps new by (simp add: restore_plugin_extension_def)
  moreover have "\<exists>e. decode_plugin_source (Doc (JObj gs)) = Inl e"
    using obj(2) unknown by (simp add: decode_plugin_source_def decodeStrict_def strict_fields_def del: Validate.simps)
  ultimately show "decodeMessageSource (Doc (checkpoint_json i c)) =
      Inr (OpaqueSource ''plugin'' (Doc (checkpoint_json i c)))"
    using obj(1) kd(1) by (auto simp: decodeMessageSource_def gs(1))
  have "IsCheckpointSource (OpaqueSource ''plugin'' (Doc (JObj gs)))"
    using kd by (simp add: IsCheckpointSource_def)
  then show "decodeCheckpointSource (OpaqueSource ''plugin'' (Doc (checkpoint_json i c))) = Inr (Some (i, c))"
    using known kd command assms by (simp add: decodeCheckpointSource_def gs(1) NewCheckpointSource_def)
qed

lemma checkpoint_message_stored:
  assumes v: "CloneUserMessage v = Inr v" and b: "\<forall>b \<in> set (content v). canonical_block b"
    and o: "origin v = CheckpointSource i c" and ok: "i \<noteq> []" "c \<noteq> Some []"
    and m: "marshal_message v = Inr j" and e: "evType e = ''user/message''" "evData e = Doc j"
  shows "decodeDerivedMessage e = Inr (Some (UserMessage (v\<lparr>origin := OpaqueSource ''plugin'' (Doc (checkpoint_json i c))\<rparr>)))"
proof -
  let ?s = "OpaqueSource ''plugin'' (Doc (checkpoint_json i c))"
  note src = checkpoint_source_stored [OF ok]
  have idr: "idValue v \<noteq> []" "roleValue v = RoleUser" using CloneUserMessage_id [OF v] by auto
  from marshal_canonical(2) [OF b] obtain js where
    js: "marshal_blocks (content v) = Inr js" "\<forall>j \<in> set js. lossless j"
      "list_all2 (\<lambda>b j. DecodeContentBlock j = Inr b) (content v) js" by blast
  obtain gs where gs: "checkpoint_json i c = JObj gs" by (simp add: checkpoint_json_def)
  define fs where "fs = [(''id'', JStr (idValue v)), (''role'', JStr (role_text (roleValue v))),
                (''content'', JArr js), (''source'', checkpoint_json i c)]"
  have j: "j = JObj fs"
    using m idr js(1) src(1) o by (simp add: marshal_message_def fs_def)
  have ll: "lossless (JObj fs)"
    using js(2) src(2) by (simp add: fs_def)
  have valid: "Validate (Doc (JObj fs)) = Inr ()" using ll block_object_known by blast
  have strict: "decodeStrict [''id'', ''role'', ''content'', ''source''] (Doc (JObj fs)) = Inr fs"
    by (rule decodeStrict_obj [OF ll]) (simp add: fs_def)
  have fields: "get_string fs ''id'' = Inr (idValue v)" "get_string fs ''role'' = Inr (role_text (roleValue v))"
    "get_raw fs ''content'' = Doc (JArr js)" "get_raw fs ''source'' = Doc (checkpoint_json i c)"
    by (simp_all add: fs_def get_string_def get_raw_def)
  have "CloneContentBlocks (content v) = Inr (content v)"
    using v by (auto simp: CloneUserMessage_def restore_copy_def restoreMessageValue_def bindE_Inr_iff
        dest: CloneContentBlocks_same)
  then have restored: "restoreMessageValue (idValue v) RoleUser (content v) ?s = Inr (v\<lparr>origin := ?s\<rparr>)"
    using idr src(4) by (cases v) (simp add: restoreMessageValue_def del: CloneSource.simps)
  then have clone: "CloneUserMessage (v\<lparr>origin := ?s\<rparr>) = Inr (v\<lparr>origin := ?s\<rparr>)"
    using idr(2) by (simp add: CloneUserMessage_def restore_copy_def)
  have "DecodeMessage (Doc (JObj fs)) = Inr (UserMessage (v\<lparr>origin := ?s\<rparr>))"
    using restored idr role_of_text [of RoleUser] src(3)
    by (simp add: DecodeMessage_def valid strict fields decode_blocks_list [OF js(3,2)] classify_def
        del: Validate.simps)
  with clone show ?thesis
    by (simp add: decodeDerivedMessage_def e j DecodeUserMessage_def)
qed

section \<open>The outcome of a completion\<close>

lemma nodes_at_distinct: "distinct xs \<Longrightarrow> i < length xs \<Longrightarrow> j < length xs \<Longrightarrow> xs ! i = xs ! j \<Longrightarrow> i = j"
  by (simp add: nth_eq_iff_index_eq)

lemma extend_replace:
  assumes d: "distinct (nodes v)" and e: "extend_surface v es [e1, e2, e3] = Inr w"
    and plain: "evType e1 \<notin> set surfaceEventTypes" "evType e3 \<notin> set surfaceEventTypes"
    and rep: "evType e2 \<in> set surfaceEventTypes" "evSurfaceOp e2 = Some (SurfaceReplace (nodes v ! i) (nodes v ! j))"
    and ij: "i < length (nodes v)" "j < length (nodes v)" and q: "0 \<le> evSeq e2"
  shows "nodes w = take i (nodes v) @ [evSeq e2] @ drop (j + 1) (nodes v)"
proof -
  obtain t1 t2 t3 where t: "planSurface v e1 es [] = Inr t1"
    "planSurface (applySurface v t1) e2 (es @ [e1]) [] = Inr t2"
    "planSurface (applySurface (applySurface v t1) t2) e3 (es @ [e1] @ [e2]) [] = Inr t3"
    "w = applySurface (applySurface (applySurface v t1) t2) t3"
    using e by (auto simp: bindE_Inr_iff)
  have "t1 = no_transition" "t3 = no_transition"
    using t(1,3) plain planSurface_plain by blast+
  with t(2,4) have t2: "planSurface v e2 (es @ [e1]) [] = Inr t2" "w = applySurface v t2" by simp_all
  from t2(1) show ?thesis
  proof (cases rule: planSurface_cases)
    case (replace sop i' j')
    have "i' = i" "j' = j"
      using replace nodes_at_distinct [OF d] rep(2) ij by (auto simp: SurfaceReplace_def)
    then show ?thesis
      using t2(2) q by (simp add: replace(8) applySurface_def nat_add_distrib)
  qed (use rep in \<open>auto simp: SurfaceReplace_def\<close>)
qed

lemma commitBatch_view:
  "commitBatch clock l ds = Inr (l', evs) \<Longrightarrow> extend_surface (view l) (entries l) evs = Inr (view l')"
  unfolding commitBatch_Inr by (elim conjE exE) simp

lemma completion_commit:
  assumes wf: "wf_completion p" and canon: "\<forall>b \<in> set (content (tcCheckpoint p)). canonical_block b"
    and ok: "log_ok l" and b: "completion_build p (Snapshot l) = Inr ds"
    and c: "commitBatch clock l ds = Inr (l', evs)"
  shows "\<exists>st a i j. InspectLog (entries l) = Inr st \<and> attempt st = Some a \<and> attStart a = tcStartSeq p \<and>
    InspectLog (entries l') = Inr (st\<lparr>attempt := None\<rparr>) \<and>
    balanced_span (Snapshot l) i j \<and> subslice (nodes (view l)) i (j + 1 - i) = regionSeqs (tcSelected p) \<and>
    nodes (view l') = take i (nodes (view l)) @ [LogSeq l + 1] @ drop (j + 1) (nodes (view l))"
proof -
  let ?n = "length (entries l)"
  obtain st a sd g where st: "InspectLog (entries l) = Inr st" "attempt st = Some a"
    "attID a = startID (tcLifecycle p)" "attStart a = tcStartSeq p" "\<not> attSummarized a"
    "start_draft (tcLifecycle p) = Inr sd" "ValidateEvent sd (entries l ! nat (tcStartSeq p)) = Inr ()"
    and g: "locateRegion (Snapshot l) \<lparr>rangeStart = regionStart (tcSelected p), rangeEnd = regionEnd (tcSelected p)\<rparr> = Inr g"
      "regionSeqs g = regionSeqs (tcSelected p)"
    using b by (auto simp: completion_build_def bindE_Inr_iff failIf_Inr wrapE_Inr_iff split: option.splits)
  have dist: "distinct (nodes (view l))" using log_ok_surface [OF ok] by (simp add: surface_ok_def)
  obtain i j where ij: "balanced_span (Snapshot l) i j" "g = span_region (Snapshot l) i j"
    "regionStart (tcSelected p) = nodes (view l) ! i" "regionEnd (tcSelected p) = nodes (view l) ! j"
    using locateRegion_Inr [OF g(1)] dist by (auto simp: span_range_def)
  have le: "i \<le> j" "j < length (nodes (view l))" using ij(1) by (simp_all add: balanced_span_def)
  have seqs: "regionSeqs (tcSelected p) = subslice (nodes (view l)) i (j + 1 - i)"
    using g(2) ij(2) by (simp add: span_region_def)
  have seqs_len: "length (regionSeqs (tcSelected p)) = j + 1 - i" using le seqs by simp
  have ends: "regionSeqs (tcSelected p) \<noteq> []" "hd (regionSeqs (tcSelected p)) = nodes (view l) ! i"
    "last (regionSeqs (tcSelected p)) = nodes (view l) ! j"
    using subslice_span [OF le] by (simp_all add: seqs)
  obtain ms where ds: "marshal_message (tcCheckpoint p) = Inr ms"
    "ds = [tcSummary p,
           \<lparr>draftType = ''user/message'', draftData = Doc ms,
            draftSources = Some ([tcStartSeq p, int ?n] @ regionSeqs (tcSelected p)),
            draftSurfaceOp = Some (SurfaceReplace (regionStart (tcSelected p)) (regionEnd (tcSelected p))),
            draftIgnorable = False\<rparr>, tcEnd p]"
    using completion_drafts_Inr completion_build_drafts [OF b] by fastforce
  note ce = commitBatch_entries [OF c]
  obtain e1 e2 e3 where evs: "evs = [e1, e2, e3]"
    using ce ds(2) by (cases evs; cases "tl evs"; cases "tl (tl evs)") auto
  have v: "ValidateEvent (ds ! 0) e1 = Inr ()" "ValidateEvent (ds ! 1) e2 = Inr ()" "ValidateEvent (ds ! 2) e3 = Inr ()"
    and q: "evSeq e2 = LogSeq l + 1"
    using ce by (auto simp: evs ds(2) All_less_Suc numeral_3_eq_3 LogSeq_def)
  from v(1) wf obtain s where e1: "evType e1 = ''compaction/summary''" "DecodeSummary (evData e1) = Inr s"
    "sumID s = startID (tcLifecycle p)" "sumCommand s = startCommand (tcLifecycle p)"
    "elements (sumSeqs s) = regionSeqs (tcSelected p)"
    "sumRange s = \<lparr>rangeStart = regionStart (tcSelected p), rangeEnd = regionEnd (tcSelected p)\<rparr>" "evSurfaceOp e1 = None"
    using ValidateEvent_data [OF v(1)] by (auto simp: wf_completion_def ds(2))
  have e2: "evType e2 = ''user/message''" "evData e2 = Doc ms"
    "evSurfaceOp e2 = Some (SurfaceReplace (nodes (view l) ! i) (nodes (view l) ! j))"
    using ValidateEvent_data [OF v(2)] ij by (simp_all add: ds(2))
  have e3: "evType e3 = ''compaction/end''" "DecodeEnd (evData e3) = Inr (completion_end (tcLifecycle p))"
    using ValidateEvent_data [OF v(3)] wf by (simp_all add: ds(2) wf_completion_def)
  have cont: "contiguous (entries l)" using ok by (simp add: log_ok_def)
  have own: "attTurn a = openTurn st" using open_attempt_owner [OF st(1) cont st(2)] by simp
  have lc: "valid_start (tcLifecycle p)" using wf by (simp add: wf_completion_def)
  have "DecodeStart (evData (entries l ! nat (attStart a))) = Inr (tcLifecycle p)"
    using start_draft_decodes [OF lc st(6)] ValidateEvent_data [OF st(7)] st(4) by simp
  note f = attempt_fields [OF ok st(1,2) this]
  define st1 where "st1 = st\<lparr>attempt := Some (a\<lparr>attSummarized := True\<rparr>)\<rparr>"
  have step1: "inspect_step stale st e1 = Inr st1" for stale
    using e1 st(2,5) f own ends ij(3,4) owner_ok [of "openTurn st" "''compaction/summary''"]
    by (simp add: inspect_step_def validateCompactionTurnBoundary_def applyCompactionEvent_def EndSeedEventName_def
        lock_summary_def applyCompactionTurnBoundary_def validateSourceCommandOwner_def failIf_def st1_def)
  have ck: "source_value (tcCheckpoint p) = CheckpointSource (startID (tcLifecycle p)) (startCommand (tcLifecycle p))"
    "CloneUserMessage (tcCheckpoint p) = Inr (tcCheckpoint p)" using wf by (simp_all add: wf_completion_def)
  have "origin (tcCheckpoint p) = CheckpointSource (startID (tcLifecycle p)) (startCommand (tcLifecycle p))"
    using ck(1) by (auto simp: source_value_def dest: CloneSource_same split: sum.splits)
  note stored = checkpoint_message_stored [OF ck(2) canon this _ _ ds(1) e2(1,2)]
  have idc: "startID (tcLifecycle p) \<noteq> []" "startCommand (tcLifecycle p) \<noteq> Some []"
    using lc by (simp_all add: valid_start_def)
  have "validateCompactionCheckpoint st1 e2 = Inr ()"
    using stored [OF idc] checkpoint_source_stored(4,5) [OF idc] f st(3)
    by (simp add: validateCompactionCheckpoint_def source_value_def st1_def validateSourceCommandOwner_def failIf_def
        del: CloneSource.simps)
  then have step2: "inspect_step stale st1 e2 = Inr st1" for stale
    using e2(1,3)
    by (simp add: inspect_step_def validateCompactionTurnBoundary_def applyCompactionEvent_def EndSeedEventName_def
        applyCompactionTurnBoundary_def st1_def)
  have step3: "inspect_step stale st1 e3 = Inr (st1\<lparr>attempt := None\<rparr>)" for stale
    by (rule lock_end_step [OF _ _ e3(1,2), of _ "a\<lparr>attSummarized := True\<rparr>"])
      (use own f in \<open>simp_all add: st1_def completion_end_def\<close>)
  have "InspectLog (entries l') = Inr (st1\<lparr>attempt := None\<rparr>)"
    using InspectLog_snoc [of e3 "entries l @ [e1, e2]"] InspectLog_snoc [of e2 "entries l @ [e1]"]
      InspectLog_snoc [of e1 "entries l"] ce st(1) step1 step2 step3 e1(1) e2(1) e3(1)
    by (simp add: evs EndSeedEventName_def)
  moreover have "extend_surface (view l) (entries l) [e1, e2, e3] = Inr (view l')"
    using commitBatch_view [OF c] by (simp only: evs)
  from extend_replace [OF dist this _ _ _ e2(3)] le e1(1) e2(1) e3(1) q LogSeq_def
  have "nodes (view l') = take i (nodes (view l)) @ [LogSeq l + 1] @ drop (j + 1) (nodes (view l))"
    by (simp add: surfaceEventTypes_def)
  ultimately show ?thesis
    using st(1,2,4) ij(1) seqs by (intro exI [of _ st] exI [of _ a] exI [of _ i] exI [of _ j]) (simp add: st1_def)
qed

end
