(* ===== verification/Samples.thy ===== *)
theory Samples
  imports CompactionOutcome
begin

text \<open>
  One small session used by the witnesses: a turn with two user messages, the start of a
  compaction of the first one, and its completion.
\<close>

definition sample_header :: header where
  "sample_header = \<lparr>headerVersion = 0, headerID = ''s'', createdAt = 0, cwd = None, parentSession = None,
     seedLength = None, headerOrigin = [], delegationDepth = None, agentPreset = None\<rparr>"

definition sample_metadata :: metadata where
  "sample_metadata = \<lparr>metaCreatedAt = None, metaCWD = None, metaParentSession = None, metaSeedLength = None,
     metaOrigin = [], metaDelegationDepth = None, metaAgentPreset = None\<rparr>"

definition user_text :: "string \<Rightarrow> string \<Rightarrow> message_value" where
  "user_text i t = \<lparr>idValue = i, roleValue = RoleUser, content = [TextBlock t], origin = UserSource\<rparr>"

definition live_context :: go_context where
  "live_context = Context (\<lambda>i. None)"

definition plain_draft :: "string \<Rightarrow> json \<Rightarrow> event_draft" where
  "plain_draft ty j = \<lparr>draftType = ty, draftData = Doc j, draftSources = None, draftSurfaceOp = None,
     draftIgnorable = False\<rparr>"

definition append_draft :: "string \<Rightarrow> json \<Rightarrow> event_draft" where
  "append_draft ty j = \<lparr>draftType = ty, draftData = Doc j, draftSources = None,
     draftSurfaceOp = Some SurfaceAppend, draftIgnorable = False\<rparr>"

definition sample_drafts :: "event_draft list" where
  "sample_drafts =
    [plain_draft ''turn/start'' (JObj [(''turn'', jint 1)]),
     append_draft ''user/message'' (projr (marshal_message (user_text ''m1'' ''hello''))),
     append_draft ''user/message'' (projr (marshal_message (user_text ''m2'' ''again'')))]"

definition sample_log :: log where
  "sample_log = fst (Commit (\<lambda>i. 7) live_context (Batch sample_drafts) (new_log sample_header))"

definition sample_start :: transaction_start where
  "sample_start = \<lparr>tsLifecycle = \<lparr>startID = ''c'', startCommand = None, startTurn = Some 1\<rparr>,
     tsRequested = \<lparr>rangeStart = 1, rangeEnd = 1\<rparr>\<rparr>"

definition started_log :: log where
  "started_log = fst (Commit (\<lambda>i. 8) live_context (start_plan sample_start) sample_log)"

definition sample_end :: transaction_end where
  "sample_end = \<lparr>teLifecycle = tsLifecycle sample_start, teDetail = ''failed''\<rparr>"

definition ended_log :: log where
  "ended_log = fst (Commit (\<lambda>i. 9) live_context (end_plan sample_end) started_log)"

definition sample_checkpoint :: message_value where
  "sample_checkpoint = \<lparr>idValue = ''k'', roleValue = RoleUser, content = [TextBlock ''short''],
     origin = CheckpointSource ''c'' None\<rparr>"

definition sample_replacement :: "unit replacement" where
  "sample_replacement =
     \<lparr>repBaseline = \<lparr>baseSelected = \<lparr>regionStart = 1, regionEnd = 1, regionFirst = 0, regionLast = 0, regionSeqs = [1]\<rparr>,
                     baseSurface = [1, 2], baseTokens = 40, baseInput = ()\<rparr>,
      repContent = [TextBlock ''short''], repOutput = [TextBlock ''short''], repUsage = None,
      repProvider = ''p'', repModel = ''m'', repMaxTokens = Some 9, repCheckpoint = sample_checkpoint\<rparr>"

definition sample_completion :: transaction_completion where
  "sample_completion = projr (newTransactionCompletion (entries started_log ! 3) sample_replacement)"

definition completed_log :: log where
  "completed_log = fst (Commit (\<lambda>i. 9) live_context (completion_plan sample_completion) started_log)"

definition sample_prices :: measurement where
  "sample_prices = \<lparr>logRevision = 3, totalTokens = 50,
     pricedNodes = [\<lparr>pricedSeq = 1, pricedTokens = 40\<rparr>, \<lparr>pricedSeq = 2, pricedTokens = 10\<rparr>]\<rparr>"

section \<open>The samples are what the theorems are about\<close>

lemma live_context_live [simp]: "live live_context"
  by (simp add: live_def live_context_def)

lemma Commit_fst_ok: "log_ok l \<Longrightarrow> log_ok (fst (Commit clock ctx plan l))"
  by (metis Commit_ok prod.collapse)

lemma sample_logs_ok [simp]:
  "log_ok sample_log" "log_ok started_log" "log_ok ended_log" "log_ok completed_log"
  by (simp_all add: sample_log_def started_log_def ended_log_def completed_log_def Commit_fst_ok)

lemma sample_started: "snd (snd (Commit (\<lambda>i. 8) live_context (start_plan sample_start) sample_log)) = None \<and>
    nodes (view started_log) = [1, 2] \<and> length (entries started_log) = 4"
  by code_simp

lemma sample_ended: "snd (snd (Commit (\<lambda>i. 9) live_context (end_plan sample_end) started_log)) = None \<and>
    length (entries ended_log) = 5"
  by code_simp

lemma sample_completed:
  "snd (snd (Commit (\<lambda>i. 9) live_context (completion_plan sample_completion) started_log)) = None \<and>
   nodes (view completed_log) = [5, 2] \<and> length (entries completed_log) = 7"
  by code_simp

lemma sample_wf [simp]: "wf_start sample_start" "wf_end sample_end"
  by code_simp+

end
