(* ===== verification/TurnEvents.thy ===== *)
theory TurnEvents
  imports Payloads
begin

text \<open>
  The boundary payloads of an agent's log (\<open>src/session/event_types.go\<close>,
  \<open>turn_end_codec.go\<close>, \<open>event_codec.go\<close>): the start of a turn, the position of a step,
  and the end of a turn with its closed union of reasons and cancellation causes.

  The \<open>float64\<close> of a failure, the provider's retry delay, is kept as the literal that
  \<open>encoding/json\<close> writes for it; a literal out of the range of \<open>float64\<close> is refused.
\<close>

section \<open>Values\<close>

datatype turn_cancel_cause =
    UserCancelCause
  | ParentCancelCause
  | DisposedCancelCause
  | HookCancelCause string

record llm_failure =
  failMessage :: string
  failCode :: string
  failStatus :: "int option"
  failRetryAfter :: "jnum option"
  failRequest :: string

text \<open>The interface values may be nil: a reason or a cause is an option where it is stored.\<close>

datatype turn_end_reason =
    TurnCompleted
  | TurnBlocked
  | TurnMaxTokens
  | TurnInterrupted
  | TurnAborted "turn_cancel_cause option"
  | TurnError llm_failure

record turn_end =
  endedTurn :: int
  endedReason :: "turn_end_reason option"

record step_position =
  posTurn :: int
  posStep :: int

section \<open>Marshallers\<close>

definition json_kind :: "string \<Rightarrow> json" where
  "json_kind k = JObj [(''kind'', JStr k)]"

fun marshal_cause :: "turn_cancel_cause \<Rightarrow> json" where
  "marshal_cause UserCancelCause = json_kind ''user''"
| "marshal_cause ParentCancelCause = json_kind ''parent''"
| "marshal_cause DisposedCancelCause = json_kind ''disposed''"
| "marshal_cause (HookCancelCause r) = JObj [(''kind'', JStr ''hook''), (''reason'', JStr r)]"

definition marshal_failure :: "llm_failure \<Rightarrow> json" where
  "marshal_failure f =
     JObj ([(''message'', JStr (failMessage f)), (''code'', JStr (failCode f))]
       @ omit ''status'' (\<lambda>x. jint x) (failStatus f)
       @ omit ''providerRetryAfterMs'' JNum (failRetryAfter f)
       @ (if failRequest f = [] then [] else [(''requestId'', JStr (failRequest f))]))"

fun marshal_reason :: "turn_end_reason \<Rightarrow> json res" where
  "marshal_reason TurnCompleted = Inr (json_kind ''completed'')"
| "marshal_reason TurnBlocked = Inr (json_kind ''blocked'')"
| "marshal_reason TurnMaxTokens = Inr (json_kind ''max-tokens'')"
| "marshal_reason TurnInterrupted = Inr (json_kind ''interrupted'')"
| "marshal_reason (TurnAborted None) = Inl (err ''session: aborted turn needs a cancellation reason'')"
| "marshal_reason (TurnAborted (Some c)) =
     Inr (JObj [(''kind'', JStr ''aborted''), (''reason'', marshal_cause c)])"
| "marshal_reason (TurnError f) =
     (if failMessage f = [] \<or> failCode f = []
      then Inl (err ''session: failed turn needs a structured error'')
      else Inr (JObj [(''kind'', JStr ''error''), (''error'', marshal_failure f)]))"

definition bad_turn :: "int \<Rightarrow> goerr" where
  "bad_turn n = Errorf ''session: turn/end turn must be a positive safe integer, got %d'' [AInt n]"

definition marshal_turn_end :: "turn_end \<Rightarrow> json res" where
  "marshal_turn_end ending =
     (if \<not> isSafeNonNegative (endedTurn ending) \<or> endedTurn ending = 0
      then Inl (bad_turn (endedTurn ending))
      else case endedReason ending of
        None \<Rightarrow> Inl (err ''session: turn/end reason is required'')
      | Some reason \<Rightarrow>
          bindE (marshal_reason reason) (\<lambda>r.
          Inr (JObj [(''turn'', jint (endedTurn ending)), (''reason'', r)])))"

definition marshal_turn_start :: "int \<Rightarrow> json res" where
  "marshal_turn_start n = Inr (JObj [(''turn'', jint n)])"

definition marshal_position :: "step_position \<Rightarrow> json res" where
  "marshal_position p = Inr (JObj [(''turn'', jint (posTurn p)), (''step'', jint (posStep p))])"

section \<open>Decoders\<close>

text \<open>\<open>json.Unmarshal\<close> into \<open>TurnStart\<close> and \<open>StepPosition\<close>, which have no decoder of their own.\<close>

definition unmarshal_turn :: "raw \<Rightarrow> int res" where
  "unmarshal_turn r = bindE (fields_of r) (\<lambda>fs. get_int64 fs ''turn'')"

definition unmarshal_position :: "raw \<Rightarrow> step_position res" where
  "unmarshal_position r =
     bindE (fields_of r) (\<lambda>fs.
     bindE (get_int64 fs ''turn'') (\<lambda>t.
     bindE (get_int64 fs ''step'') (\<lambda>s.
     Inr \<lparr>posTurn = t, posStep = s\<rparr>)))"

definition decodeReasonKind :: "raw \<Rightarrow> string \<Rightarrow> unit res" where
  "decodeReasonKind r expected =
     bindE (wrapE (\<lambda>e. Errorf ''session: invalid %s ending: %w'' [AStr expected, AErr e])
              (bindE (strict_fields [''kind''] r) (\<lambda>fs. get_string fs ''kind''))) (\<lambda>k.
     failIf (k \<noteq> expected) (Errorf ''session: ending kind is %q, want %q'' [AStr k, AStr expected]))"

definition unmarshal_kind :: "raw \<Rightarrow> string res" where
  "unmarshal_kind r = bindE (fields_of r) (\<lambda>fs. get_string fs ''kind'')"

definition decode_cause :: "raw \<Rightarrow> turn_cancel_cause res" where
  "decode_cause r =
     bindE (wrapE (\<lambda>e. Errorf ''session: invalid turn cancellation reason: %w'' [AErr e]) (unmarshal_kind r)) (\<lambda>k.
     if k = ''user'' then bindE (decodeReasonKind r ''user'') (\<lambda>_. Inr UserCancelCause)
     else if k = ''parent'' then bindE (decodeReasonKind r ''parent'') (\<lambda>_. Inr ParentCancelCause)
     else if k = ''disposed'' then bindE (decodeReasonKind r ''disposed'') (\<lambda>_. Inr DisposedCancelCause)
     else if k = ''hook'' then
       bindE (wrapE (\<lambda>e. Errorf ''session: invalid hook cancellation reason: %w'' [AErr e])
                (bindE (strict_fields [''kind'', ''reason''] r) (\<lambda>fs.
                 bindE (get_string fs ''kind'') (\<lambda>_. get_string fs ''reason'')))) (\<lambda>reason.
       bindE (failIf (reason = []) (err ''session: hook cancellation reason must be non-empty'')) (\<lambda>_.
       Inr (HookCancelCause reason)))
     else Inl (Errorf ''session: unsupported turn cancellation reason %q'' [AStr k]))"

definition decodeTurnAborted :: "raw \<Rightarrow> turn_end_reason res" where
  "decodeTurnAborted r =
     bindE (wrapE (\<lambda>e. Errorf ''session: invalid aborted turn ending: %w'' [AErr e])
              (bindE (strict_fields [''kind'', ''reason''] r) (\<lambda>fs.
               bindE (get_string fs ''kind'') (\<lambda>_. Inr (get_raw fs ''reason''))))) (\<lambda>reason.
     bindE (decode_cause reason) (\<lambda>c. Inr (TurnAborted (Some c))))"

fun as_float64 :: "json \<Rightarrow> jnum option" where
  "as_float64 (JNum x) = (case number_parts x of (neg, m, e) \<Rightarrow> if float_overflows m e then None else Some x)"
| "as_float64 j = None"

text \<open>
  A nested struct field: every occurrence of the field is decoded into the same struct, in
  order, so the struct sees the fields of all of them; null leaves it unchanged.
\<close>

fun nested_fields :: "json list \<Rightarrow> (string \<times> json) list res" where
  "nested_fields [] = Inr []"
| "nested_fields (v # vs) = bindE (fields_of (Doc v)) (\<lambda>fs. bindE (nested_fields vs) (\<lambda>gs. Inr (fs @ gs)))"

definition failure_fields :: "string list" where
  "failure_fields = [''message'', ''code'', ''status'', ''providerRetryAfterMs'', ''requestId'']"

definition failure_of :: "(string \<times> json) list \<Rightarrow> llm_failure res" where
  "failure_of fs =
     bindE (get_string fs ''message'') (\<lambda>m.
     bindE (get_string fs ''code'') (\<lambda>c.
     bindE (scan_pointer as_int64 None (matches ''status'' fs)) (\<lambda>s.
     bindE (scan_pointer as_float64 None (matches ''providerRetryAfterMs'' fs)) (\<lambda>ra.
     bindE (get_string fs ''requestId'') (\<lambda>rq.
     Inr \<lparr>failMessage = m, failCode = c, failStatus = s, failRetryAfter = ra, failRequest = rq\<rparr>)))))"

definition decode_failure :: "json list \<Rightarrow> llm_failure res" where
  "decode_failure vs =
     bindE (nested_fields vs) (\<lambda>fs.
     bindE (failIf (\<not> known_fields failure_fields fs) (err ''json: unknown field'')) (\<lambda>_.
     failure_of fs))"

definition decodeTurnEndReason :: "raw \<Rightarrow> turn_end_reason res" where
  "decodeTurnEndReason r =
     bindE (wrapE (\<lambda>e. Errorf ''session: invalid turn/end reason: %w'' [AErr e]) (unmarshal_kind r)) (\<lambda>k.
     if k = ''completed'' then bindE (decodeReasonKind r ''completed'') (\<lambda>_. Inr TurnCompleted)
     else if k = ''blocked'' then bindE (decodeReasonKind r ''blocked'') (\<lambda>_. Inr TurnBlocked)
     else if k = ''max-tokens'' then bindE (decodeReasonKind r ''max-tokens'') (\<lambda>_. Inr TurnMaxTokens)
     else if k = ''interrupted'' then bindE (decodeReasonKind r ''interrupted'') (\<lambda>_. Inr TurnInterrupted)
     else if k = ''aborted'' then decodeTurnAborted r
     else if k = ''error'' then
       bindE (wrapE (\<lambda>e. Errorf ''session: invalid error turn ending: %w'' [AErr e])
                (bindE (strict_fields [''kind'', ''error''] r) (\<lambda>fs.
                 bindE (get_string fs ''kind'') (\<lambda>_. decode_failure (matches ''error'' fs))))) (\<lambda>f.
       bindE (marshal_reason (TurnError f)) (\<lambda>_. Inr (TurnError f)))
     else Inl (Errorf ''session: unsupported turn/end reason %q'' [AStr k]))"

definition DecodeTurnEnd :: "raw \<Rightarrow> turn_end res" where
  "DecodeTurnEnd r =
     bindE (wrapE (\<lambda>e. Errorf ''session: invalid turn/end: %w'' [AErr e])
              (bindE (strict_fields [''turn'', ''reason''] r) (\<lambda>fs.
               bindE (get_int64 fs ''turn'') (\<lambda>t. Inr (t, get_raw fs ''reason''))))) (\<lambda>(t, reason).
     bindE (failIf (\<not> isSafeNonNegative t \<or> t = 0) (bad_turn t)) (\<lambda>_.
     bindE (decodeTurnEndReason reason) (\<lambda>x. Inr \<lparr>endedTurn = t, endedReason = Some x\<rparr>)))"

section \<open>Round trips\<close>

lemma fold_turn_fields [simp]:
  "fold_key ''kind'' = ''kind''" "fold_key ''reason'' = ''reason''" "fold_key ''error'' = ''error''"
  "fold_key ''code'' = ''code''" "fold_key ''status'' = ''status''"
  "fold_key ''providerRetryAfterMs'' = ''providerretryafterms''" "fold_key ''requestId'' = ''requestid''"
  by code_simp+

lemma int64_scan: "int64 n \<Longrightarrow> scan_scalar as_int64 z [jint n] = Inr n \<and> lossless (jint n)"
  by (simp add: int64_decode int64_lossless del: as_int64.simps lossless.simps(4))

lemma get_int64_range: "get_int64 fs n = Inr x \<Longrightarrow> int64 x"
proof -
  have "scan_scalar as_int64 z vs = Inr x \<Longrightarrow> int64 z \<Longrightarrow> int64 x" for z vs
    by (induction vs arbitrary: z) (auto simp: int64_def dest: as_int64_range split: if_splits option.splits)
  then show "get_int64 fs n = Inr x \<Longrightarrow> ?thesis" by (simp add: get_int64_def int64_def)
qed

definition valid_position :: "step_position \<Rightarrow> bool" where
  "valid_position p = (int64 (posTurn p) \<and> int64 (posStep p))"

interpretation turn_codec: payload_codec marshal_turn_start unmarshal_turn int64
proof unfold_locales
  show "\<exists>j. marshal_turn_start n = Inr j \<and> lossless j \<and> unmarshal_turn (Doc j) = Inr n" if "int64 n" for n
    using int64_scan [OF that]
    by (simp add: marshal_turn_start_def unmarshal_turn_def get_int64_def del: as_int64.simps lossless.simps(4))
qed (auto simp: unmarshal_turn_def bindE_Inr_iff intro: get_int64_range)

interpretation position_codec: payload_codec marshal_position unmarshal_position valid_position
proof unfold_locales
  show "\<exists>j. marshal_position p = Inr j \<and> lossless j \<and> unmarshal_position (Doc j) = Inr p" if "valid_position p" for p
    using that int64_scan [of "posTurn p"] int64_scan [of "posStep p"]
    by (simp add: marshal_position_def unmarshal_position_def get_int64_def valid_position_def
        del: as_int64.simps lossless.simps(4))
qed (auto simp: unmarshal_position_def valid_position_def bindE_Inr_iff intro: get_int64_range)

text \<open>A turn end as the agent loop makes it, with failures whose numbers JSON can carry.\<close>

definition valid_failure :: "llm_failure \<Rightarrow> bool" where
  "valid_failure f =
     (failMessage f \<noteq> [] \<and> failCode f \<noteq> [] \<and> pred_option int64 (failStatus f) \<and>
      pred_option (\<lambda>x. isOk (scanNumber x) \<and> as_float64 (JNum x) = Some x) (failRetryAfter f))"

fun valid_reason :: "turn_end_reason \<Rightarrow> bool" where
  "valid_reason (TurnAborted None) = False"
| "valid_reason (TurnAborted (Some (HookCancelCause r))) = (r \<noteq> [])"
| "valid_reason (TurnError f) = valid_failure f"
| "valid_reason r = True"

definition valid_turn_end :: "turn_end \<Rightarrow> bool" where
  "valid_turn_end ending =
     (isSafeNonNegative (endedTurn ending) \<and> 0 < endedTurn ending \<and>
      (case endedReason ending of None \<Rightarrow> False | Some r \<Rightarrow> valid_reason r))"

lemma known_fields_omit_iff:
  "known_fields ns (omit k f x) \<longleftrightarrow> x = None \<or> list_ex (\<lambda>n. fold_key k = fold_key n) ns"
  by (auto simp: omit_def split: option.splits)

lemma failure_round_trip:
  assumes "valid_failure f"
  shows "lossless (marshal_failure f) \<and> decode_failure [marshal_failure f] = Inr f"
proof
  show "lossless (marshal_failure f)"
    using assms int64_scan
    by (auto simp: valid_failure_def marshal_failure_def omit_def split: option.splits)
  have "scan_pointer as_int64 None (case failStatus f of None \<Rightarrow> [] | Some v \<Rightarrow> [jint v]) = Inr (failStatus f)"
    using assms by (cases "failStatus f") (simp_all add: valid_failure_def int64_decode del: as_int64.simps)
  moreover have "scan_pointer as_float64 None (case failRetryAfter f of None \<Rightarrow> [] | Some v \<Rightarrow> [JNum v]) =
      Inr (failRetryAfter f)"
    using assms by (cases "failRetryAfter f") (simp_all add: valid_failure_def del: as_float64.simps)
  ultimately show "decode_failure [marshal_failure f] = Inr f"
    by (cases f) (simp add: marshal_failure_def decode_failure_def failure_of_def matches_omit known_fields_omit_iff
        failure_fields_def get_string_def del: as_int64.simps as_float64.simps)
qed

lemma cause_round_trip:
  "c \<noteq> HookCancelCause [] \<Longrightarrow> lossless (marshal_cause c) \<and> decode_cause (Doc (marshal_cause c)) = Inr c"
  by (cases c) (simp_all add: decode_cause_def unmarshal_kind_def decodeReasonKind_def json_kind_def get_string_def)

lemma reason_round_trip:
  assumes "valid_reason x"
  shows "\<exists>j. marshal_reason x = Inr j \<and> lossless j \<and> decodeTurnEndReason (Doc j) = Inr x"
proof (cases x)
  case (TurnAborted c)
  then obtain d where d: "c = Some d" "d \<noteq> HookCancelCause []"
    using assms TurnAborted by (cases c; cases "the c") auto
  with TurnAborted cause_round_trip [OF d(2)] show ?thesis
    by (simp add: decodeTurnEndReason_def decodeTurnAborted_def unmarshal_kind_def get_string_def get_raw_def)
next
  case (TurnError f)
  with assms failure_round_trip [of f] show ?thesis
    by (simp add: decodeTurnEndReason_def unmarshal_kind_def get_string_def valid_failure_def)
qed (simp_all add: decodeTurnEndReason_def unmarshal_kind_def decodeReasonKind_def json_kind_def get_string_def)

lemma turn_end_round_trip:
  assumes "valid_turn_end ending"
  shows "\<exists>j. marshal_turn_end ending = Inr j \<and> lossless j \<and> DecodeTurnEnd (Doc j) = Inr ending"
proof -
  obtain x where x: "endedReason ending = Some x" "valid_reason x"
    using assms by (auto simp: valid_turn_end_def split: option.splits)
  obtain r where r: "marshal_reason x = Inr r" "lossless r" "decodeTurnEndReason (Doc r) = Inr x"
    using reason_round_trip [OF x(2)] by blast
  have "int64 (endedTurn ending)" using assms by (simp add: valid_turn_end_def isSafeNonNegative_int64)
  with assms x r int64_scan [of "endedTurn ending"] show ?thesis
    by (cases ending) (simp add: marshal_turn_end_def DecodeTurnEnd_def valid_turn_end_def get_int64_def get_raw_def
        del: as_int64.simps lossless.simps(4))
qed

end
