(* ===== verification/Inbox.thy ===== *)
theory Inbox
  imports TurnEvents
begin

text \<open>
  The pending messages of an agent (\<open>src/agent/inbox.go\<close>): the two ordered queues, the
  durable splice with its codec, the fold of committed splices, the prepared edits, and the
  account of consumed work (\<open>src/agent/consumed_work.go\<close>).

  A target is its string, since a decoded splice may name any.  The sum of the start and
  the removed count of a splice is taken in 64 bits, as the code takes it; \<open>make\<close> with a
  negative capacity panics.
\<close>

section \<open>State\<close>

abbreviation NextTurn :: string where
  "NextTurn \<equiv> ''next-turn''"

abbreviation NextStep :: string where
  "NextStep \<equiv> ''next-step''"

abbreviation InboxCanceled :: string where
  "InboxCanceled \<equiv> ''canceled''"

abbreviation InboxSplicedEventName :: string where
  "InboxSplicedEventName \<equiv> ''agent/inbox/spliced''"

record inbox_splice =
  spliceTarget :: string
  spliceStart :: int
  spliceRemoved :: "int option"
  spliceInserted :: "message_value list"
  spliceOutcome :: string

record inbox_changes =
  changesInserted :: "message_value list"
  changesDiscarded :: "message_value list"
  changesClaimed :: "message_value list"

record inbox_edit =
  editDrafts :: "event_draft list"
  editRemoved :: "message_value list"

record inbox =
  nextTurn :: "message_value list"
  nextStep :: "message_value list"

definition empty_inbox :: inbox where
  "empty_inbox = \<lparr>nextTurn = [], nextStep = []\<rparr>"

definition no_changes :: inbox_changes where
  "no_changes = \<lparr>changesInserted = [], changesDiscarded = [], changesClaimed = []\<rparr>"

definition no_edit :: inbox_edit where
  "no_edit = \<lparr>editDrafts = [], editRemoved = []\<rparr>"

definition wrap64 :: "int \<Rightarrow> int" where
  "wrap64 n = (n + 2 ^ 63) mod 2 ^ 64 - 2 ^ 63"

definition cloneUserMessages :: "message_value list \<Rightarrow> message_value list res" where
  "cloneUserMessages ms =
     imapE (\<lambda>i m. wrapE (\<lambda>e. Errorf ''agent: clone pending message %d: %w'' [AInt (int i), AErr e])
                   (CloneUserMessage m)) 0 ms"

text \<open>The queries return a clone and drop its error.\<close>

definition or_nil :: "'a list res \<Rightarrow> 'a list" where
  "or_nil r = (case r of Inl e \<Rightarrow> [] | Inr xs \<Rightarrow> xs)"

definition NextTurnOf :: "inbox \<Rightarrow> message_value list" where
  "NextTurnOf pending = or_nil (cloneUserMessages (nextTurn pending))"

definition NextStepOf :: "inbox \<Rightarrow> message_value list" where
  "NextStepOf pending = or_nil (cloneUserMessages (nextStep pending))"

definition HasPending :: "inbox \<Rightarrow> bool" where
  "HasPending pending = (nextTurn pending \<noteq> [] \<or> nextStep pending \<noteq> [])"

definition target_queue :: "inbox \<Rightarrow> string \<Rightarrow> message_value list res" where
  "target_queue pending t =
     (if t = NextTurn then Inr (nextTurn pending)
      else if t = NextStep then Inr (nextStep pending)
      else Inl (Errorf ''agent: unsupported Inbox target %q'' [AStr t]))"

definition queue_length :: "inbox \<Rightarrow> string \<Rightarrow> int" where
  "queue_length pending t = int (length (or_nil (target_queue pending t)))"

section \<open>Validation and application of a splice\<close>

definition removed_count :: "inbox_splice \<Rightarrow> int" where
  "removed_count mutation = (case spliceRemoved mutation of None \<Rightarrow> 0 | Some c \<Rightarrow> c)"

fun addUniqueMessages :: "string list \<Rightarrow> message_value list \<Rightarrow> string list res" where
  "addUniqueMessages seen [] = Inr seen"
| "addUniqueMessages seen (m # ms) =
     (if idValue m = [] then Inl (err ''agent: pending message id is empty'')
      else if idValue m \<in> set seen
      then Inl (Errorf ''agent: message %q is already pending'' [AStr (idValue m)])
      else addUniqueMessages (idValue m # seen) ms)"

definition splice_list :: "nat \<Rightarrow> nat \<Rightarrow> 'a list \<Rightarrow> 'a list \<Rightarrow> 'a list" where
  "splice_list start count inserted xs = take start xs @ inserted @ drop (start + count) xs"

definition validate_splice :: "inbox \<Rightarrow> inbox_splice \<Rightarrow> unit res" where
  "validate_splice pending mutation =
     bindE (target_queue pending (spliceTarget mutation)) (\<lambda>queue.
     let removed = removed_count mutation; start = spliceStart mutation in
     bindE (failIf (start < 0 \<or> start > int (length queue) \<or> removed < 0 \<or>
                    wrap64 (start + removed) > int (length queue)) (err ''agent: invalid Inbox splice'')) (\<lambda>_.
     bindE (failIf (spliceOutcome mutation \<noteq> [] \<and> spliceOutcome mutation \<noteq> InboxCanceled)
              (err ''agent: invalid Inbox outcome'')) (\<lambda>_.
     bindE (cloneUserMessages (spliceInserted mutation)) (\<lambda>ins.
     bindE (failIf (int (length queue) - removed + int (length ins) < 0)
              (Panicked ''makeslice: cap out of range'')) (\<lambda>_.
     let candidate = splice_list (nat start) (nat removed) ins queue in
     if spliceTarget mutation = NextTurn then
       bindE (addUniqueMessages [] candidate) (\<lambda>seen.
       bindE (addUniqueMessages seen (nextStep pending)) (\<lambda>_. Inr ()))
     else
       bindE (addUniqueMessages [] (nextTurn pending)) (\<lambda>seen.
       bindE (addUniqueMessages seen candidate) (\<lambda>_. Inr ())))))))"

definition apply_splice :: "inbox \<Rightarrow> inbox_splice \<Rightarrow> (inbox \<times> message_value list) res" where
  "apply_splice pending mutation =
     bindE (validate_splice pending mutation) (\<lambda>_.
     let queue = or_nil (target_queue pending (spliceTarget mutation));
         removedCount = removed_count mutation in
     bindE (cloneUserMessages (subslice queue (nat (spliceStart mutation)) (nat removedCount))) (\<lambda>removed.
     bindE (cloneUserMessages (spliceInserted mutation)) (\<lambda>replacement.
     let updated = splice_list (nat (spliceStart mutation)) (nat removedCount) replacement queue in
     Inr (if spliceTarget mutation = NextTurn then pending\<lparr>nextTurn := updated\<rparr>
          else pending\<lparr>nextStep := updated\<rparr>, removed))))"

section \<open>The durable splice\<close>

definition marshal_splice :: "inbox_splice \<Rightarrow> json res" where
  "marshal_splice mutation =
     bindE (mapE marshal_message (spliceInserted mutation)) (\<lambda>js.
     Inr (JObj ([(''target'', JStr (spliceTarget mutation)), (''start'', jint (spliceStart mutation))]
       @ omit ''removedCount'' (\<lambda>x. jint x) (spliceRemoved mutation)
       @ [(''inserted'', JArr js)]
       @ (if spliceOutcome mutation = [] then [] else [(''outcome'', JStr (spliceOutcome mutation))]))))"

definition splice_fields :: "string list" where
  "splice_fields = [''target'', ''start'', ''removedCount'', ''inserted'', ''outcome'']"

definition absent_or_null :: "raw \<Rightarrow> bool" where
  "absent_or_null r = (r = Absent \<or> r = Doc JNull)"

definition UnmarshalSplice :: "raw \<Rightarrow> inbox_splice res" where
  "UnmarshalSplice r =
     bindE (failIf (r = Doc JNull) (err ''agent: Inbox splice must be an object'')) (\<lambda>_.
     bindE (strict_fields splice_fields r) (\<lambda>fs.
     bindE (failIf (absent_or_null (get_raw fs ''target'')) (err ''agent: Inbox splice target is required'')) (\<lambda>_.
     bindE (failIf (absent_or_null (get_raw fs ''start'')) (err ''agent: Inbox splice start is required'')) (\<lambda>_.
     bindE (failIf (absent_or_null (get_raw fs ''inserted''))
              (err ''agent: Inbox splice inserted must be an array'')) (\<lambda>_.
     bindE (wrapE (\<lambda>_. err ''agent: Inbox splice target must be a string'')
              (unmarshal_scalar as_string [] (get_raw fs ''target''))) (\<lambda>t.
     bindE (wrapE (\<lambda>_. err ''agent: Inbox splice start must be an integer'')
              (unmarshal_scalar as_int64 0 (get_raw fs ''start''))) (\<lambda>start.
     bindE (if get_raw fs ''removedCount'' = Absent then Inr None
            else if get_raw fs ''removedCount'' = Doc JNull
            then Inl (err ''agent: Inbox splice removedCount must be an integer'')
            else wrapE (\<lambda>_. err ''agent: Inbox splice removedCount must be an integer'')
                   (bindE (unmarshal_scalar as_int64 0 (get_raw fs ''removedCount'')) (\<lambda>c. Inr (Some c)))) (\<lambda>removed.
     bindE (wrapE (\<lambda>_. err ''agent: Inbox splice inserted must be an array'')
              (unmarshal_array (get_raw fs ''inserted''))) (\<lambda>rawMessages.
     bindE (imapE (\<lambda>i j. wrapE (\<lambda>e. Errorf ''agent: invalid inserted message %d: %w'' [AInt (int i), AErr e])
                       (DecodeUserMessage (Doc j))) 0 (elements rawMessages)) (\<lambda>ins.
     bindE (if get_raw fs ''outcome'' = Absent then Inr []
            else if get_raw fs ''outcome'' = Doc JNull
            then Inl (err ''agent: Inbox splice outcome must be canceled'')
            else wrapE (\<lambda>_. err ''agent: Inbox splice outcome must be canceled'')
                   (unmarshal_scalar as_string [] (get_raw fs ''outcome''))) (\<lambda>outcome.
     Inr \<lparr>spliceTarget = t, spliceStart = start, spliceRemoved = removed, spliceInserted = ins,
          spliceOutcome = outcome\<rparr>)))))))))))"

section \<open>Folding committed events\<close>

definition splice_error :: "event \<Rightarrow> goerr \<Rightarrow> goerr" where
  "splice_error e x =
     (case x of Panicked p \<Rightarrow> x
      | _ \<Rightarrow> Errorf ''agent: invalid Inbox splice at seq %d: %w'' [AInt (evSeq e), AErr x])"

definition add_changes :: "inbox_changes \<Rightarrow> inbox_splice \<Rightarrow> message_value list \<Rightarrow> message_value list \<Rightarrow> inbox_changes" where
  "add_changes changes mutation inserted removed =
     (let c = changes\<lparr>changesInserted := changesInserted changes @ inserted\<rparr> in
      if spliceOutcome mutation = InboxCanceled
      then c\<lparr>changesDiscarded := changesDiscarded c @ removed\<rparr>
      else c\<lparr>changesClaimed := changesClaimed c @ removed\<rparr>)"

fun apply_loop :: "inbox \<Rightarrow> inbox_changes \<Rightarrow> event list \<Rightarrow> (inbox \<times> inbox_changes) res" where
  "apply_loop candidate changes [] = Inr (candidate, changes)"
| "apply_loop candidate changes (e # es) =
     (if evType e \<noteq> InboxSplicedEventName then apply_loop candidate changes es
      else
        bindE (wrapE (splice_error e) (UnmarshalSplice (evData e))) (\<lambda>mutation.
        bindE (wrapE (splice_error e) (apply_splice candidate mutation)) (\<lambda>(next, removed).
        bindE (cloneUserMessages (spliceInserted mutation)) (\<lambda>inserted.
        apply_loop next (add_changes changes mutation inserted removed) es))))"

definition detached_inbox :: "inbox \<Rightarrow> inbox" where
  "detached_inbox pending = \<lparr>nextTurn = NextTurnOf pending, nextStep = NextStepOf pending\<rparr>"

definition ApplyInbox :: "inbox \<Rightarrow> event list \<Rightarrow> (inbox \<times> inbox_changes) res" where
  "ApplyInbox pending es = apply_loop (detached_inbox pending) no_changes es"

definition NewInbox :: "header \<Rightarrow> event list \<Rightarrow> inbox res" where
  "NewInbox md es =
     (let start = (case seedLength md of None \<Rightarrow> 0 | Some n \<Rightarrow> n) in
      bindE (failIf (start < 0 \<or> start > int (length es)) (err ''agent: invalid Inbox seed boundary'')) (\<lambda>_.
      bindE (ApplyInbox empty_inbox (drop (nat start) es)) (\<lambda>(pending, changes). Inr pending)))"

section \<open>Prepared edits\<close>

definition prepare :: "inbox \<Rightarrow> string \<Rightarrow> int \<Rightarrow> int \<Rightarrow> message_value list \<Rightarrow> bool \<Rightarrow> inbox_edit res" where
  "prepare pending t start deleteCount inserted discard =
     bindE (target_queue pending t) (\<lambda>messages.
     let n = int (length messages);
         from = (if start < 0 then max (n + start) 0 else min start n);
         count = min (max deleteCount 0) (n - from) in
     if count = 0 \<and> inserted = [] then Inr no_edit
     else
       bindE (cloneUserMessages inserted) (\<lambda>detached.
       let mutation = \<lparr>spliceTarget = t, spliceStart = from,
                       spliceRemoved = (if count \<noteq> 0 then Some count else None), spliceInserted = detached,
                       spliceOutcome = (if count \<noteq> 0 \<and> discard then InboxCanceled else [])\<rparr> in
       bindE (validate_splice pending mutation) (\<lambda>_.
       bindE (NewEventDraft InboxSplicedEventName (marshal_splice mutation) False) (\<lambda>draft.
       bindE (cloneUserMessages (subslice messages (nat from) (nat count))) (\<lambda>removed.
       Inr \<lparr>editDrafts = [draft], editRemoved = removed\<rparr>)))))"

definition PrepareSplice :: "inbox \<Rightarrow> string \<Rightarrow> int \<Rightarrow> int \<Rightarrow> message_value list \<Rightarrow> inbox_edit res" where
  "PrepareSplice pending t start deleteCount inserted = prepare pending t start deleteCount inserted True"

definition PrepareAppend :: "inbox \<Rightarrow> string \<Rightarrow> message_value \<Rightarrow> inbox_edit res" where
  "PrepareAppend pending t m = PrepareSplice pending t (queue_length pending t) 0 [m]"

definition PreparePrepend :: "inbox \<Rightarrow> string \<Rightarrow> message_value \<Rightarrow> inbox_edit res" where
  "PreparePrepend pending t m = PrepareSplice pending t 0 0 [m]"

fun position_of :: "string \<Rightarrow> nat \<Rightarrow> message_value list \<Rightarrow> nat option" where
  "position_of i k [] = None"
| "position_of i k (m # ms) = (if idValue m = i then Some k else position_of i (Suc k) ms)"

definition locate :: "inbox \<Rightarrow> string \<Rightarrow> (string \<times> nat) option" where
  "locate pending i =
     (case position_of i 0 (nextTurn pending) of
        Some k \<Rightarrow> Some (NextTurn, k)
      | None \<Rightarrow> (case position_of i 0 (nextStep pending) of
          Some k \<Rightarrow> Some (NextStep, k)
        | None \<Rightarrow> None))"

definition PrepareReplace :: "inbox \<Rightarrow> string \<Rightarrow> message_value \<Rightarrow> inbox_edit res" where
  "PrepareReplace pending i replacement =
     (case locate pending i of
        None \<Rightarrow> Inr no_edit
      | Some (t, k) \<Rightarrow> PrepareSplice pending t (int k) 1 [replacement])"

definition PrepareRemove :: "inbox \<Rightarrow> string \<Rightarrow> inbox_edit res" where
  "PrepareRemove pending i =
     (case locate pending i of
        None \<Rightarrow> Inr no_edit
      | Some (t, k) \<Rightarrow> PrepareSplice pending t (int k) 1 [])"

definition join_edits :: "inbox_edit \<Rightarrow> inbox_edit \<Rightarrow> inbox_edit" where
  "join_edits a b =
     \<lparr>editDrafts = editDrafts a @ editDrafts b, editRemoved = editRemoved a @ editRemoved b\<rparr>"

definition PrepareClaim :: "inbox \<Rightarrow> string \<Rightarrow> inbox_edit res" where
  "PrepareClaim pending t =
     (if t \<noteq> NextTurn \<and> t \<noteq> NextStep then Inl (Errorf ''agent: unsupported Inbox target %q'' [AStr t])
      else
        bindE (prepare pending NextStep 0 (queue_length pending NextStep) [] False) (\<lambda>first.
        if t = NextStep then Inr first
        else bindE (prepare pending NextTurn 0 1 [] False) (\<lambda>second. Inr (join_edits first second))))"

definition PrepareClear :: "inbox \<Rightarrow> inbox_edit res" where
  "PrepareClear pending =
     bindE (prepare pending NextStep 0 (queue_length pending NextStep) [] True) (\<lambda>first.
     bindE (prepare pending NextTurn 0 (queue_length pending NextTurn) [] True) (\<lambda>second.
     Inr (join_edits first second)))"

definition ErrInputMissing :: goerr where
  "ErrInputMissing = err ''agent: queued input is no longer pending''"

definition remove_at :: "nat \<Rightarrow> 'a list \<Rightarrow> 'a list" where
  "remove_at k xs = take k xs @ drop (Suc k) xs"

definition PrepareMove :: "inbox \<Rightarrow> string \<Rightarrow> string \<Rightarrow> inbox_edit res" where
  "PrepareMove pending i destination =
     (case locate pending i of
        None \<Rightarrow> Inl ErrInputMissing
      | Some (source, k) \<Rightarrow>
          bindE (PrepareSplice pending source (int k) 1 []) (\<lambda>first.
          let detached = detached_inbox pending;
              candidate = (if source = NextTurn then detached\<lparr>nextTurn := remove_at k (nextTurn detached)\<rparr>
                           else detached\<lparr>nextStep := remove_at k (nextStep detached)\<rparr>) in
          bindE (PrepareAppend candidate destination (hd (editRemoved first))) (\<lambda>second.
          Inr (first\<lparr>editDrafts := editDrafts first @ editDrafts second\<rparr>))))"

section \<open>Consumed work\<close>

record consumed_work =
  workEnd :: "turn_end option"
  droppedUnrun :: bool

record work_fold =
  foldStepped :: "int list"
  foldClaimed :: "int list"
  foldOpen :: "int option"
  foldEnding :: "turn_end option"
  foldDropped :: bool

definition accountsForClaim :: "turn_end_reason option \<Rightarrow> bool" where
  "accountsForClaim ending = (ending \<noteq> Some TurnCompleted)"

definition consumed_step :: "work_fold \<Rightarrow> event \<Rightarrow> work_fold res" where
  "consumed_step w e =
     (if evType e = ''turn/start'' then
        (case unmarshal_turn (evData e) of
           Inr t \<Rightarrow> if t < 1 then Inl (Errorf ''agent: invalid turn/start at Session seq %d'' [AInt (evSeq e)])
                    else Inr (w\<lparr>foldOpen := Some t\<rparr>)
         | Inl x \<Rightarrow> Inl (Errorf ''agent: invalid turn/start at Session seq %d'' [AInt (evSeq e)]))
      else if evType e = ''step/start'' then
        (case unmarshal_position (evData e) of
           Inr p \<Rightarrow> if posTurn p < 1 \<or> posStep p < 1
                    then Inl (Errorf ''agent: invalid step/start at Session seq %d'' [AInt (evSeq e)])
                    else Inr (w\<lparr>foldStepped := posTurn p # foldStepped w\<rparr>)
         | Inl x \<Rightarrow> Inl (Errorf ''agent: invalid step/start at Session seq %d'' [AInt (evSeq e)]))
      else if evType e = InboxSplicedEventName then
        bindE (wrapE (\<lambda>x. Errorf ''agent: invalid Inbox splice at Session seq %d: %w'' [AInt (evSeq e), AErr x])
                 (UnmarshalSplice (evData e))) (\<lambda>mutation.
        if spliceRemoved mutation = None then Inr w
        else if spliceOutcome mutation = InboxCanceled then
          Inr (if spliceInserted mutation = [] then w\<lparr>foldDropped := True\<rparr> else w)
        else case foldOpen w of
          None \<Rightarrow> Inr w
        | Some t \<Rightarrow> Inr (w\<lparr>foldClaimed := t # foldClaimed w\<rparr>))
      else if evType e = ''turn/end'' then
        bindE (wrapE (\<lambda>x. Errorf ''agent: invalid turn/end at Session seq %d: %w'' [AInt (evSeq e), AErr x])
                 (DecodeTurnEnd (evData e))) (\<lambda>ended.
        let enteredStep = endedTurn ended \<in> set (foldStepped w);
            tookInput = endedTurn ended \<in> set (foldClaimed w);
            closed = w\<lparr>foldOpen := None, foldStepped := filter (\<lambda>t. t \<noteq> endedTurn ended) (foldStepped w),
                       foldClaimed := filter (\<lambda>t. t \<noteq> endedTurn ended) (foldClaimed w)\<rparr> in
        Inr (if enteredStep \<or> (tookInput \<and> accountsForClaim (endedReason ended))
             then closed\<lparr>foldEnding := Some ended, foldDropped := False\<rparr> else closed))
      else Inr w)"

fun consumed_loop :: "work_fold \<Rightarrow> event list \<Rightarrow> work_fold res" where
  "consumed_loop w [] = Inr w"
| "consumed_loop w (e # es) = bindE (consumed_step w e) (\<lambda>next. consumed_loop next es)"

definition FoldConsumedWork :: "event list \<Rightarrow> consumed_work res" where
  "FoldConsumedWork es =
     bindE (consumed_loop \<lparr>foldStepped = [], foldClaimed = [], foldOpen = None, foldEnding = None,
                           foldDropped = False\<rparr> es) (\<lambda>w.
     Inr \<lparr>workEnd = foldEnding w, droppedUnrun = foldDropped w\<rparr>)"

end
