(* ===== verification/InboxLaws.thy ===== *)
theory InboxLaws
  imports Inbox "HOL-Library.Multiset"
begin

text \<open>
  What the inbox keeps and what its edits do: distinct valid messages, no message lost or
  duplicated by a fold, the fold of a log in two parts, and the effect of each prepared
  edit once its drafts are committed.
\<close>

section \<open>Clones and identities\<close>

lemma cloneUserMessages_Inr:
  "cloneUserMessages ms = Inr ns \<longleftrightarrow> ns = ms \<and> list_all valid_user ms"
proof
  assume c: "cloneUserMessages ms = Inr ns"
  then have "length ns = length ms" "\<forall>k < length ms. CloneUserMessage (ms ! k) = Inr (ns ! k)"
    unfolding cloneUserMessages_def imapE_iff by (auto simp: wrapE_Inr_iff)
  then show "ns = ms \<and> list_all valid_user ms"
    by (auto simp: list_all_length valid_user_def isOk_iff intro!: nth_equalityI dest: CloneUserMessage_same)
next
  assume "ns = ms \<and> list_all valid_user ms"
  then show "cloneUserMessages ms = Inr ns"
    by (auto simp: cloneUserMessages_def list_all_iff valid_user_clone intro!: imapE_id)
qed

lemma addUniqueMessages_Inr:
  "addUniqueMessages seen ms = Inr s \<longleftrightarrow>
   [] \<notin> set (map idValue ms) \<and> distinct (map idValue ms) \<and> set (map idValue ms) \<inter> set seen = {} \<and>
   s = rev (map idValue ms) @ seen"
  by (induction ms arbitrary: seen) auto

definition inbox_ok :: "inbox \<Rightarrow> bool" where
  "inbox_ok p =
     (list_all valid_user (nextTurn p @ nextStep p) \<and> distinct (map idValue (nextTurn p @ nextStep p)))"

lemma empty_inbox_ok [simp]: "inbox_ok empty_inbox"
  by (simp add: inbox_ok_def empty_inbox_def)

lemma valid_user_id: "valid_user m \<Longrightarrow> idValue m \<noteq> []"
  by (auto simp: valid_user_def isOk_iff dest: CloneUserMessage_id)

lemma detached_same: "inbox_ok p \<Longrightarrow> detached_inbox p = p"
proof -
  assume "inbox_ok p"
  then have "cloneUserMessages (nextTurn p) = Inr (nextTurn p)" "cloneUserMessages (nextStep p) = Inr (nextStep p)"
    unfolding cloneUserMessages_Inr by (simp_all add: inbox_ok_def)
  then show ?thesis by (simp add: detached_inbox_def NextTurnOf_def NextStepOf_def or_nil_def)
qed

section \<open>One splice\<close>

definition queue_of :: "inbox \<Rightarrow> string \<Rightarrow> message_value list" where
  "queue_of p t = (if t = NextTurn then nextTurn p else nextStep p)"

definition other_of :: "inbox \<Rightarrow> string \<Rightarrow> message_value list" where
  "other_of p t = (if t = NextTurn then nextStep p else nextTurn p)"

definition set_queue :: "inbox \<Rightarrow> string \<Rightarrow> message_value list \<Rightarrow> inbox" where
  "set_queue p t q = (if t = NextTurn then p\<lparr>nextTurn := q\<rparr> else p\<lparr>nextStep := q\<rparr>)"

definition is_target :: "string \<Rightarrow> bool" where
  "is_target t = (t = NextTurn \<or> t = NextStep)"

lemma target_queue_Inr: "target_queue p t = Inr q \<longleftrightarrow> is_target t \<and> q = queue_of p t"
  by (auto simp: target_queue_def queue_of_def is_target_def)

lemma queue_of_set [simp]: "queue_of (set_queue p t q) t = q" "other_of (set_queue p t q) t = other_of p t"
  by (simp_all add: queue_of_def set_queue_def other_of_def)

lemma set_queue_same [simp]: "set_queue p t (queue_of p t) = p"
  by (simp add: queue_of_def set_queue_def)

lemma inbox_ok_queues:
  "inbox_ok p \<longleftrightarrow> list_all valid_user (queue_of p t) \<and> list_all valid_user (other_of p t) \<and>
     distinct (map idValue (queue_of p t)) \<and> distinct (map idValue (other_of p t)) \<and>
     set (map idValue (queue_of p t)) \<inter> set (map idValue (other_of p t)) = {}"
  by (auto simp: inbox_ok_def queue_of_def other_of_def)

definition spliced :: "inbox \<Rightarrow> inbox_splice \<Rightarrow> message_value list" where
  "spliced p m = splice_list (nat (spliceStart m)) (nat (removed_count m)) (spliceInserted m)
     (queue_of p (spliceTarget m))"

definition taken :: "inbox \<Rightarrow> inbox_splice \<Rightarrow> message_value list" where
  "taken p m = subslice (queue_of p (spliceTarget m)) (nat (spliceStart m)) (nat (removed_count m))"

text \<open>What validation asks of the queues after the splice.\<close>

definition fresh_splice :: "inbox \<Rightarrow> inbox_splice \<Rightarrow> bool" where
  "fresh_splice p m =
     ([] \<notin> set (map idValue (spliced p m @ other_of p (spliceTarget m))) \<and>
      distinct (map idValue (spliced p m @ other_of p (spliceTarget m))))"

lemma validate_splice_Inr:
  "validate_splice p m = Inr u \<longleftrightarrow>
   is_target (spliceTarget m) \<and> 0 \<le> spliceStart m \<and>
   spliceStart m \<le> int (length (queue_of p (spliceTarget m))) \<and> 0 \<le> removed_count m \<and>
   wrap64 (spliceStart m + removed_count m) \<le> int (length (queue_of p (spliceTarget m))) \<and>
   (spliceOutcome m = [] \<or> spliceOutcome m = InboxCanceled) \<and> list_all valid_user (spliceInserted m) \<and>
   removed_count m \<le> int (length (queue_of p (spliceTarget m))) + int (length (spliceInserted m)) \<and>
   fresh_splice p m"
proof -
  have "(if spliceTarget m = NextTurn then
       bindE (addUniqueMessages [] (spliced p m)) (\<lambda>seen.
       bindE (addUniqueMessages seen (nextStep p)) (\<lambda>_. Inr ()))
     else
       bindE (addUniqueMessages [] (nextTurn p)) (\<lambda>seen.
       bindE (addUniqueMessages seen (spliced p m)) (\<lambda>_. Inr ()))) = Inr u \<longleftrightarrow> fresh_splice p m"
    by (auto simp: bindE_Inr_iff addUniqueMessages_Inr fresh_splice_def other_of_def)
  then show ?thesis
    unfolding validate_splice_def bindE_Inr_iff failIf_Inr target_queue_Inr cloneUserMessages_Inr Let_def
      spliced_def by auto
qed

lemma set_taken_subset: "set (taken p m) \<subseteq> set (queue_of p (spliceTarget m))"
  by (simp add: taken_def set_subslice_subset)

lemma apply_splice_Inr:
  assumes "inbox_ok p"
  shows "apply_splice p m = Inr (p', removed) \<longleftrightarrow>
    validate_splice p m = Inr () \<and> p' = set_queue p (spliceTarget m) (spliced p m) \<and> removed = taken p m"
proof -
  have "list_all valid_user (taken p m)"
    using assms set_taken_subset [of p m] inbox_ok_queues [of p "spliceTarget m"]
    by (auto simp: list_all_iff)
  moreover have "or_nil (target_queue p (spliceTarget m)) = queue_of p (spliceTarget m)"
    if "validate_splice p m = Inr ()"
  proof -
    have "target_queue p (spliceTarget m) = Inr (queue_of p (spliceTarget m))"
      using that by (simp add: validate_splice_Inr target_queue_Inr)
    then show ?thesis by (simp add: or_nil_def)
  qed
  ultimately show ?thesis
    by (auto simp: apply_splice_def bindE_Inr_iff cloneUserMessages_Inr Let_def spliced_def taken_def
        set_queue_def validate_splice_Inr)
qed

lemma spliced_ok:
  assumes "inbox_ok p" "validate_splice p m = Inr ()"
  shows "inbox_ok (set_queue p (spliceTarget m) (spliced p m))"
proof -
  have "set (spliced p m) \<subseteq> set (queue_of p (spliceTarget m)) \<union> set (spliceInserted m)"
    using set_take_subset [of "nat (spliceStart m)"] set_drop_subset [of "nat (spliceStart m) + nat (removed_count m)"]
    by (fastforce simp: spliced_def splice_list_def)
  then have "list_all valid_user (spliced p m)"
    using assms inbox_ok_queues [of p "spliceTarget m"] by (auto simp: validate_splice_Inr list_all_iff)
  with assms show ?thesis
    by (auto simp: inbox_ok_queues [of _ "spliceTarget m"] validate_splice_Inr fresh_splice_def)
qed

lemma mset_splice:
  "mset xs + mset ins = mset (splice_list i c ins xs) + mset (subslice xs i c)"
proof -
  have "xs = take i xs @ subslice xs i c @ drop (i + c) xs"
    by (metis append_take_drop_id subslice_def drop_drop add.commute)
  then have "mset xs = mset (take i xs) + mset (subslice xs i c) + mset (drop (i + c) xs)"
    by (metis mset_append add.assoc)
  then show ?thesis by (simp add: splice_list_def)
qed

section \<open>The fold\<close>

definition pending_mset :: "inbox \<Rightarrow> message_value multiset" where
  "pending_mset p = mset (nextTurn p @ nextStep p)"

lemma pending_mset_queues: "pending_mset p = mset (queue_of p t) + mset (other_of p t)"
  by (simp add: pending_mset_def queue_of_def other_of_def)

definition removed_mset :: "inbox_changes \<Rightarrow> message_value multiset" where
  "removed_mset c = mset (changesDiscarded c) + mset (changesClaimed c)"

lemma pending_set_queue:
  "pending_mset (set_queue p (spliceTarget m) (spliced p m)) + mset (taken p m) =
   pending_mset p + mset (spliceInserted m)"
  using mset_splice [of "queue_of p (spliceTarget m)" "spliceInserted m" "nat (spliceStart m)" "nat (removed_count m)"]
  by (simp add: pending_mset_queues [of _ "spliceTarget m"] spliced_def taken_def)

lemma add_changes_mset:
  "removed_mset (add_changes c m ins rem) = removed_mset c + mset rem"
  "changesInserted (add_changes c m ins rem) = changesInserted c @ ins"
  by (simp_all add: add_changes_def removed_mset_def Let_def)

lemma apply_loop_Cons_Inr:
  "inbox_ok p \<Longrightarrow> evType e = InboxSplicedEventName \<Longrightarrow>
   apply_loop p c (e # es) = Inr r \<longleftrightarrow>
   (\<exists>m. UnmarshalSplice (evData e) = Inr m \<and> validate_splice p m = Inr () \<and>
      apply_loop (set_queue p (spliceTarget m) (spliced p m)) (add_changes c m (spliceInserted m) (taken p m)) es
        = Inr r)"
  by (auto simp: bindE_Inr_iff wrapE_Inr_iff apply_splice_Inr cloneUserMessages_Inr validate_splice_Inr)

lemma apply_loop_ok:
  "apply_loop p c es = Inr (p', c') \<Longrightarrow> inbox_ok p \<Longrightarrow>
   inbox_ok p' \<and>
   pending_mset p + mset (changesInserted c') + removed_mset c =
     pending_mset p' + removed_mset c' + mset (changesInserted c)"
proof (induction es arbitrary: p c)
  case (Cons e es)
  show ?case
  proof (cases "evType e = InboxSplicedEventName")
    case True
    from Cons.prems obtain m where m: "validate_splice p m = Inr ()"
      "apply_loop (set_queue p (spliceTarget m) (spliced p m)) (add_changes c m (spliceInserted m) (taken p m)) es
        = Inr (p', c')"
      unfolding apply_loop_Cons_Inr [OF Cons.prems(2) True] by blast
    from Cons.IH [OF m(2) spliced_ok [OF Cons.prems(2) m(1)]] pending_set_queue [of p m]
    show ?thesis by (auto simp: add_changes_mset algebra_simps)
  qed (use Cons in simp)
qed simp

lemma ApplyInbox_ok:
  "ApplyInbox p es = Inr (p', c) \<Longrightarrow> inbox_ok p \<Longrightarrow>
   inbox_ok p' \<and> pending_mset p + mset (changesInserted c) = pending_mset p' + removed_mset c"
  using apply_loop_ok [of p no_changes es p' c]
  by (simp add: ApplyInbox_def detached_same removed_mset_def no_changes_def)

definition join_changes :: "inbox_changes \<Rightarrow> inbox_changes \<Rightarrow> inbox_changes" where
  "join_changes a b =
     \<lparr>changesInserted = changesInserted a @ changesInserted b,
      changesDiscarded = changesDiscarded a @ changesDiscarded b,
      changesClaimed = changesClaimed a @ changesClaimed b\<rparr>"

lemma join_changes_simps [simp]:
  "join_changes no_changes c = c" "join_changes c no_changes = c"
  "join_changes a (add_changes b m i r) = add_changes (join_changes a b) m i r"
  by (simp_all add: join_changes_def no_changes_def add_changes_def Let_def)

lemma apply_loop_append:
  "apply_loop p c (xs @ ys) = bindE (apply_loop p c xs) (\<lambda>(q, d). apply_loop q d ys)"
proof (induction xs arbitrary: p c)
  case (Cons e xs)
  then show ?case by (simp add: bindE_assoc split_def)
qed simp

lemma apply_loop_changes:
  "apply_loop p (join_changes a b) es = bindE (apply_loop p b es) (\<lambda>(q, d). Inr (q, join_changes a d))"
proof (induction es arbitrary: p b)
  case (Cons e es)
  then show ?case
    by (simp add: bindE_assoc split_def flip: join_changes_simps(3))
qed simp

text \<open>Folding a log in two parts is folding it at once.\<close>

lemma ApplyInbox_append:
  assumes "inbox_ok p"
  shows "ApplyInbox p (xs @ ys) =
    bindE (ApplyInbox p xs) (\<lambda>(q, a). bindE (ApplyInbox q ys) (\<lambda>(r, b). Inr (r, join_changes a b)))"
proof (cases "ApplyInbox p xs")
  case (Inl e)
  then show ?thesis using assms by (simp add: ApplyInbox_def apply_loop_append detached_same)
next
  case (Inr x)
  obtain q a where x: "x = (q, a)" by (cases x)
  have "inbox_ok q" using ApplyInbox_ok [of p xs q a] assms Inr x by simp
  with Inr x assms apply_loop_changes [of q a no_changes ys] show ?thesis
    by (simp add: ApplyInbox_def apply_loop_append detached_same split_def)
qed

lemma ApplyInbox_Nil: "inbox_ok p \<Longrightarrow> ApplyInbox p [] = Inr (p, no_changes)"
  by (simp add: ApplyInbox_def detached_same)

lemma NewInbox_append:
  assumes "NewInbox md xs = Inr p"
  shows "NewInbox md (xs @ ys) = bindE (ApplyInbox p ys) (\<lambda>(q, c). Inr q) \<and> inbox_ok p"
proof -
  define n where "n = (case seedLength md of None \<Rightarrow> 0 | Some n \<Rightarrow> n)"
  from assms obtain c where n: "0 \<le> n" "n \<le> int (length xs)"
    and c: "ApplyInbox empty_inbox (drop (nat n) xs) = Inr (p, c)"
    by (auto simp: NewInbox_def bindE_Inr_iff failIf_Inr n_def Let_def)
  have "drop (nat n) (xs @ ys) = drop (nat n) xs @ ys" using n by simp
  then have "NewInbox md (xs @ ys) = bindE (ApplyInbox empty_inbox (drop (nat n) xs @ ys)) (\<lambda>(q, c). Inr q)"
    using n by (simp add: NewInbox_def n_def [symmetric])
  also have "\<dots> = bindE (ApplyInbox p ys) (\<lambda>(q, c). Inr q)"
    using c by (simp add: ApplyInbox_append bindE_assoc split_def)
  finally show ?thesis using ApplyInbox_ok [OF c] by simp
qed

section \<open>The durable splice\<close>

definition canonical_user :: "message_value \<Rightarrow> bool" where
  "canonical_user v = (canonical_value v \<and> classify v = UserMessage v)"

lemma canonical_user_decodes:
  assumes "canonical_user v"
  shows "\<exists>j. marshal_message v = Inr j \<and> lossless j \<and> DecodeUserMessage (Doc j) = Inr v \<and> valid_user v"
proof -
  have v: "canonical_value v" "classify v = UserMessage v" using assms by (simp_all add: canonical_user_def)
  have "roleValue v = RoleUser" using v(2) by (auto simp: classify_def split: if_splits)
  then have "CloneUserMessage v = Inr v"
    using canonical_restores [OF v(1)] by (simp add: CloneUserMessage_def)
  with message_round_trip [OF v(1)] v(2) show ?thesis
    by (auto simp: DecodeUserMessage_def valid_user_clone)
qed

lemma fold_splice_fields [simp]:
  "fold_key ''target'' = ''target''" "fold_key ''removedCount'' = ''removedcount''"
  "fold_key ''inserted'' = ''inserted''" "fold_key ''outcome'' = ''outcome''"
  by code_simp+

definition valid_splice :: "inbox_splice \<Rightarrow> bool" where
  "valid_splice m = (int64 (spliceStart m) \<and> pred_option int64 (spliceRemoved m) \<and>
     list_all canonical_user (spliceInserted m))"

lemma splice_round_trip:
  assumes "valid_splice m"
  shows "\<exists>j. marshal_splice m = Inr j \<and> lossless j \<and> UnmarshalSplice (Doc j) = Inr m"
proof -
  define js where "js = map (\<lambda>v. projr (marshal_message v)) (spliceInserted m)"
  have each: "marshal_message v = Inr (projr (marshal_message v))" "lossless (projr (marshal_message v))"
    "DecodeUserMessage (Doc (projr (marshal_message v))) = Inr v" if "v \<in> set (spliceInserted m)" for v
    using canonical_user_decodes [of v] assms that by (auto simp: valid_splice_def list_all_iff)
  have ms: "mapE marshal_message (spliceInserted m) = Inr js"
    using mapE_map [of "spliceInserted m" marshal_message "\<lambda>v. v" "\<lambda>v. projr (marshal_message v)"] each(1)
    by (simp add: js_def)
  have dec: "imapE (\<lambda>i j. wrapE (\<lambda>e. Errorf ''agent: invalid inserted message %d: %w'' [AInt (int i), AErr e])
                     (DecodeUserMessage (Doc j))) 0 js = Inr (map (\<lambda>v. v) (spliceInserted m))"
    unfolding js_def by (rule imapE_map) (simp add: each(3))
  have ll: "lossless (JArr js)" using each(2) by (auto simp: js_def)
  have start: "as_int64 (jint (spliceStart m)) = Some (spliceStart m)" "lossless (jint (spliceStart m))"
    using assms int64_decode int64_lossless by (auto simp: valid_splice_def)
  have removed: "spliceRemoved m = Some c \<Longrightarrow> as_int64 (jint c) = Some c \<and> lossless (jint c)" for c
    using assms int64_decode int64_lossless by (auto simp: valid_splice_def)
  show ?thesis
    using start removed ll dec ms
    by (cases m; cases "spliceRemoved m"; cases "spliceOutcome m = []")
      (simp_all add: marshal_splice_def UnmarshalSplice_def omit_def get_raw_def absent_or_null_def elements_def
        splice_fields_def del: as_int64.simps lossless.simps(4))
qed

end
