(* ===== verification/InboxEdits.thy ===== *)
theory InboxEdits
  imports InboxLaws
begin

text \<open>
  The effect of the prepared edits: what the inbox becomes, and which messages are
  inserted, discarded and claimed, when the drafts of an edit come back as committed
  events.
\<close>

section \<open>A committed splice\<close>

lemma committed_splice:
  assumes "NewEventDraft InboxSplicedEventName (marshal_splice m) False = Inr d" "valid_splice m"
    "ValidateEvent d e = Inr ()"
  shows "evType e = InboxSplicedEventName \<and> UnmarshalSplice (evData e) = Inr m"
  using splice_round_trip [OF assms(2)] assms(1,3) by (auto simp: NewEventDraft_Inr ValidateEvent_Inr)

lemma apply_committed:
  assumes "inbox_ok p" "validate_splice p m = Inr ()" "evType e = InboxSplicedEventName"
    "UnmarshalSplice (evData e) = Inr m"
  shows "apply_loop p c (e # es) =
    apply_loop (set_queue p (spliceTarget m) (spliced p m)) (add_changes c m (spliceInserted m) (taken p m)) es"
proof -
  have "cloneUserMessages (spliceInserted m) = Inr (spliceInserted m)"
    using assms(2) by (simp add: validate_splice_Inr cloneUserMessages_Inr)
  moreover have "apply_splice p m = Inr (set_queue p (spliceTarget m) (spliced p m), taken p m)"
    using assms(1,2) by (simp add: apply_splice_Inr)
  ultimately show ?thesis using assms(3,4) by simp
qed

section \<open>Prepared edits\<close>

definition splice_from :: "int \<Rightarrow> int \<Rightarrow> int" where
  "splice_from n start = (if start < 0 then max (n + start) 0 else min start n)"

definition splice_count :: "int \<Rightarrow> int \<Rightarrow> int \<Rightarrow> int" where
  "splice_count n start deleteCount = min (max deleteCount 0) (n - splice_from n start)"

lemma splice_bounds:
  assumes "0 \<le> n"
  shows "0 \<le> splice_from n start" "splice_from n start \<le> n" "0 \<le> splice_count n start dc"
    "splice_from n start + splice_count n start dc \<le> n"
  using assms by (auto simp: splice_from_def splice_count_def)

definition edit_splice :: "string \<Rightarrow> int \<Rightarrow> int \<Rightarrow> message_value list \<Rightarrow> bool \<Rightarrow> inbox_splice" where
  "edit_splice t i c ins discard =
     \<lparr>spliceTarget = t, spliceStart = i, spliceRemoved = (if c \<noteq> 0 then Some c else None), spliceInserted = ins,
      spliceOutcome = (if c \<noteq> 0 \<and> discard then InboxCanceled else [])\<rparr>"

lemma edit_splice_simps [simp]:
  "spliceTarget (edit_splice t i c ins discard) = t" "spliceStart (edit_splice t i c ins discard) = i"
  "removed_count (edit_splice t i c ins discard) = c" "spliceInserted (edit_splice t i c ins discard) = ins"
  "spliceOutcome (edit_splice t i c ins discard) = (if c \<noteq> 0 \<and> discard then InboxCanceled else [])"
  by (simp_all add: edit_splice_def removed_count_def)

lemma prepare_Inr:
  assumes ok: "inbox_ok p" and e: "prepare p t start dc ins discard = Inr edit"
  defines "n \<equiv> int (length (queue_of p t))"
  defines "i \<equiv> splice_from n start" and "c \<equiv> splice_count n start dc"
  shows "is_target t \<and>
    (if c = 0 \<and> ins = [] then edit = no_edit
     else validate_splice p (edit_splice t i c ins discard) = Inr () \<and>
       (\<exists>d. NewEventDraft InboxSplicedEventName (marshal_splice (edit_splice t i c ins discard)) False = Inr d \<and>
          edit = \<lparr>editDrafts = [d], editRemoved = taken p (edit_splice t i c ins discard)\<rparr>))"
proof -
  obtain q where q: "target_queue p t = Inr q" using e by (auto simp: prepare_def bindE_Inr_iff)
  then have t: "is_target t" "q = queue_of p t" unfolding target_queue_Inr by blast+
  from e have "(if c = 0 \<and> ins = [] then Inr no_edit
     else
       bindE (cloneUserMessages ins) (\<lambda>detached.
       bindE (validate_splice p (edit_splice t i c detached discard)) (\<lambda>_.
       bindE (NewEventDraft InboxSplicedEventName (marshal_splice (edit_splice t i c detached discard)) False) (\<lambda>draft.
       bindE (cloneUserMessages (subslice (queue_of p t) (nat i) (nat c))) (\<lambda>removed.
       Inr \<lparr>editDrafts = [draft], editRemoved = removed\<rparr>))))) = Inr edit"
    unfolding prepare_def q Let_def bindE.simps t(2) i_def c_def n_def splice_from_def splice_count_def
      edit_splice_def .
  then show ?thesis
    using t(1) by (auto simp: bindE_Inr_iff cloneUserMessages_Inr taken_def split: if_splits)
qed

text \<open>A splice without insertions is valid in every inbox whose queue has the removed range.\<close>

lemma validate_removal:
  assumes ok: "inbox_ok p" and t: "is_target (spliceTarget m)" and ins: "spliceInserted m = []"
    and b: "0 \<le> spliceStart m" "0 \<le> removed_count m"
      "spliceStart m + removed_count m \<le> int (length (queue_of p (spliceTarget m)))"
      "int (length (queue_of p (spliceTarget m))) < 2 ^ 63"
    and oc: "spliceOutcome m = [] \<or> spliceOutcome m = InboxCanceled"
  shows "validate_splice p m = Inr ()"
proof -
  let ?q = "queue_of p (spliceTarget m)" and ?i = "nat (spliceStart m)" and ?c = "nat (removed_count m)"
  have w: "wrap64 (spliceStart m + removed_count m) = spliceStart m + removed_count m"
    using b by (simp add: wrap64_def)
  have s: "spliced p m = take ?i ?q @ drop (?i + ?c) ?q" by (simp add: spliced_def splice_list_def ins)
  have sub: "set (spliced p m) \<subseteq> set ?q"
    unfolding s using set_take_subset [of ?i ?q] set_drop_subset [of "?i + ?c" ?q] by auto
  have dq: "distinct (map idValue ?q)" "distinct (map idValue (other_of p (spliceTarget m)))"
    "set (map idValue ?q) \<inter> set (map idValue (other_of p (spliceTarget m))) = {}"
    using ok by (simp_all add: inbox_ok_queues [of p "spliceTarget m"])
  have "distinct (map idValue (spliced p m))"
    using dq(1) set_take_disj_set_drop_if_distinct [OF dq(1), of ?i "?i + ?c"]
    unfolding s map_append take_map [symmetric] drop_map [symmetric] by (simp del: set_map)
  moreover have "set (map idValue (spliced p m)) \<subseteq> set (map idValue ?q)" using sub by auto
  ultimately have d: "distinct (map idValue (spliced p m @ other_of p (spliceTarget m)))"
    using dq unfolding map_append distinct_append by blast
  moreover have "[] \<notin> set (map idValue (?q @ other_of p (spliceTarget m)))"
    using ok valid_user_id by (fastforce simp: inbox_ok_queues [of p "spliceTarget m"] list_all_iff)
  ultimately have "fresh_splice p m"
    using sub unfolding fresh_splice_def by auto
  with t ins b oc w show ?thesis by (simp add: validate_splice_Inr)
qed

definition edit_changes ::
  "inbox_changes \<Rightarrow> message_value list \<Rightarrow> message_value list \<Rightarrow> bool \<Rightarrow> inbox_changes" where
  "edit_changes ch ins removed discard =
     \<lparr>changesInserted = changesInserted ch @ ins,
      changesDiscarded = changesDiscarded ch @ (if discard then removed else []),
      changesClaimed = changesClaimed ch @ (if discard then [] else removed)\<rparr>"

lemma edit_changes_add:
  "(c = 0 \<Longrightarrow> removed = []) \<Longrightarrow>
   add_changes ch (edit_splice t i c ins discard) ins removed = edit_changes ch ins removed discard"
  by (auto simp: add_changes_def edit_changes_def Let_def)

lemma edit_changes_none [simp]: "edit_changes ch [] [] discard = ch"
  by (simp add: edit_changes_def)

definition committed :: "event_draft list \<Rightarrow> event list \<Rightarrow> bool" where
  "committed ds es = list_all2 (\<lambda>d e. ValidateEvent d e = Inr ()) ds es"

text \<open>
  The effect of a prepared edit.  An edit without insertions may be applied to an inbox
  whose other queue has changed since.
\<close>

lemma prepare_effect:
  assumes ok: "inbox_ok p" and e: "prepare p t start dc ins discard = Inr edit"
    and fits: "int (length (queue_of p t)) < 2 ^ 63" and canon: "list_all canonical_user ins"
    and evs: "committed (editDrafts edit) evs"
    and p': "inbox_ok p'" "queue_of p' t = queue_of p t" "ins = [] \<or> p' = p"
  defines "i \<equiv> nat (splice_from (int (length (queue_of p t))) start)"
    and "c \<equiv> nat (splice_count (int (length (queue_of p t))) start dc)"
  shows "is_target t \<and> i + c \<le> length (queue_of p t) \<and> editRemoved edit = subslice (queue_of p t) i c \<and>
    apply_loop p' ch (evs @ es) =
      apply_loop (set_queue p' t (splice_list i c ins (queue_of p t)))
        (edit_changes ch ins (subslice (queue_of p t) i c) discard) es"
proof -
  let ?n = "int (length (queue_of p t))"
  let ?i = "splice_from ?n start" and ?c = "splice_count ?n start dc"
  let ?m = "edit_splice t ?i ?c ins discard"
  have bounds: "0 \<le> ?i" "?i \<le> ?n" "0 \<le> ?c" "?i + ?c \<le> ?n" by (simp_all add: splice_bounds)
  have ic: "i + c \<le> length (queue_of p t)"
    using bounds by (simp add: i_def c_def nat_add_distrib [symmetric] nat_le_iff)
  note r = prepare_Inr [OF ok e]
  have t: "is_target t" using r by simp
  show ?thesis
  proof (cases "?c = 0 \<and> ins = []")
    case True
    then have "edit = no_edit" using r by simp
    then have "evs = []" "editRemoved edit = []" using evs by (simp_all add: no_edit_def committed_def)
    moreover have "splice_list i c ins (queue_of p t) = queue_of p t" "subslice (queue_of p t) i c = []"
      using True by (simp_all add: splice_list_def c_def subslice_def)
    ultimately show ?thesis using t ic p'(2) by (metis append_Nil edit_changes_none set_queue_same True)
  next
    case False
    then obtain d where d: "NewEventDraft InboxSplicedEventName (marshal_splice ?m) False = Inr d"
      "validate_splice p ?m = Inr ()" "edit = \<lparr>editDrafts = [d], editRemoved = taken p ?m\<rparr>"
      using r by (auto split: if_splits)
    have vm: "valid_splice ?m"
      using canon bounds fits unfolding valid_splice_def int64_def edit_splice_def by auto
    obtain x where x: "evs = [x]" "ValidateEvent d x = Inr ()"
      using evs d(3) by (auto simp: committed_def list_all2_Cons1)
    have "validate_splice p' ?m = Inr ()"
    proof (cases "ins = []")
      case True
      then show ?thesis using validate_removal [OF p'(1), of ?m] t bounds fits p'(2) by simp
    qed (use p'(3) d(2) in simp)
    note ap = apply_committed [OF p'(1) this conjunct1 conjunct2, OF committed_splice committed_splice, OF d(1) vm x(2) d(1) vm x(2)]
    have "taken p ?m = subslice (queue_of p t) i c" "taken p' ?m = subslice (queue_of p t) i c"
      "spliced p' ?m = splice_list i c ins (queue_of p t)"
      using p'(2) by (simp_all add: taken_def spliced_def i_def c_def)
    moreover have "?c = 0 \<Longrightarrow> subslice (queue_of p t) i c = []" by (simp add: c_def subslice_def)
    ultimately show ?thesis
      using t ic d(3) x(1) ap edit_changes_add by simp
  qed
qed

section \<open>The edits of the interface\<close>

definition inbox_fits :: "inbox \<Rightarrow> bool" where
  "inbox_fits p = (int (length (nextTurn p)) < 2 ^ 63 \<and> int (length (nextStep p)) < 2 ^ 63)"

lemma fits_queue: "inbox_fits p \<Longrightarrow> int (length (queue_of p t)) < 2 ^ 63"
  by (simp add: inbox_fits_def queue_of_def)

lemma queue_length_of: "is_target t \<Longrightarrow> queue_length p t = int (length (queue_of p t))"
  by (auto simp: queue_length_def or_nil_def target_queue_def is_target_def queue_of_def)

lemma committed_append:
  "committed (xs @ ys) es \<longleftrightarrow> (\<exists>as bs. es = as @ bs \<and> committed xs as \<and> committed ys bs)"
proof
  assume "committed (xs @ ys) es"
  then show "\<exists>as bs. es = as @ bs \<and> committed xs as \<and> committed ys bs"
    unfolding committed_def list_all2_append1 by blast
next
  assume "\<exists>as bs. es = as @ bs \<and> committed xs as \<and> committed ys bs"
  then show "committed (xs @ ys) es" unfolding committed_def by (blast intro: list_all2_appendI)
qed

lemma append_effect:
  assumes "inbox_ok p" "inbox_fits p" "canonical_user m" "PrepareAppend p t m = Inr edit"
    "committed (editDrafts edit) evs"
  shows "is_target t \<and> editRemoved edit = [] \<and>
    ApplyInbox p evs = Inr (set_queue p t (queue_of p t @ [m]), no_changes\<lparr>changesInserted := [m]\<rparr>)"
proof -
  have e: "prepare p t (queue_length p t) 0 [m] True = Inr edit"
    using assms(4) by (simp add: PrepareAppend_def PrepareSplice_def)
  have t: "is_target t" using prepare_Inr [OF assms(1) e] by simp
  have "splice_from (int (length (queue_of p t))) (queue_length p t) = int (length (queue_of p t))"
    "splice_count (int (length (queue_of p t))) (queue_length p t) 0 = 0"
    by (simp_all add: queue_length_of [OF t] splice_from_def splice_count_def)
  with prepare_effect [OF assms(1) e fits_queue [OF assms(2)] _ assms(5) assms(1), of no_changes "[]"] assms(3) t
  show ?thesis
    by (simp add: ApplyInbox_def detached_same [OF assms(1)] splice_list_def subslice_def edit_changes_def
        no_changes_def)
qed

lemma claim_step_effect:
  assumes "inbox_ok p" "inbox_fits p" "prepare p NextStep 0 (queue_length p NextStep) [] discard = Inr edit"
    "committed (editDrafts edit) evs"
  shows "editRemoved edit = nextStep p \<and>
    apply_loop p ch (evs @ es) = apply_loop (p\<lparr>nextStep := []\<rparr>) (edit_changes ch [] (nextStep p) discard) es"
proof -
  have "splice_from (int (length (queue_of p NextStep))) 0 = 0"
    "splice_count (int (length (queue_of p NextStep))) 0 (queue_length p NextStep) = int (length (queue_of p NextStep))"
    by (simp_all add: queue_length_of is_target_def splice_from_def splice_count_def)
  with prepare_effect [OF assms(1,3) fits_queue [OF assms(2)] _ assms(4) assms(1), of ch es]
  show ?thesis by (simp add: splice_list_def subslice_def queue_of_def set_queue_def)
qed

lemma claim_turn_effect:
  assumes "inbox_ok p" "inbox_fits p" "prepare p NextTurn 0 dc [] discard = Inr edit" "0 \<le> dc"
    "committed (editDrafts edit) evs" "inbox_ok p'" "nextTurn p' = nextTurn p"
  shows "editRemoved edit = take (nat dc) (nextTurn p) \<and>
    apply_loop p' ch evs = Inr (p'\<lparr>nextTurn := drop (nat dc) (nextTurn p)\<rparr>,
      edit_changes ch [] (take (nat dc) (nextTurn p)) discard)"
proof -
  let ?q = "queue_of p NextTurn"
  have f: "splice_from (int (length ?q)) 0 = 0" by (simp add: splice_from_def)
  have c: "nat (splice_count (int (length ?q)) 0 dc) = min (nat dc) (length ?q)"
    using assms(4) by (simp add: splice_count_def f min_def nat_le_iff)
  have q: "queue_of p' NextTurn = ?q" using assms(7) by (simp add: queue_of_def)
  have "take (min (nat dc) (length ?q)) ?q = take (nat dc) ?q" "drop (min (nat dc) (length ?q)) ?q = drop (nat dc) ?q"
    by (simp_all add: min_def)
  with prepare_effect [OF assms(1,3) fits_queue [OF assms(2)] _ assms(5,6) q, of ch "[]"] f c
  show ?thesis by (simp add: splice_list_def subslice_def queue_of_def set_queue_def)
qed

lemma inbox_ok_drop_step: "inbox_ok p \<Longrightarrow> inbox_ok (p\<lparr>nextStep := []\<rparr>)"
  by (simp add: inbox_ok_def)

text \<open>A claim takes every next-step message and, for a new turn, the oldest prompt.\<close>

lemma claim_effect:
  assumes "inbox_ok p" "inbox_fits p" "PrepareClaim p t = Inr edit" "committed (editDrafts edit) evs"
  shows "is_target t \<and> (let k = (if t = NextTurn then 1 else 0) in
    editRemoved edit = nextStep p @ take k (nextTurn p) \<and>
    ApplyInbox p evs = Inr (\<lparr>nextTurn = drop k (nextTurn p), nextStep = []\<rparr>,
      no_changes\<lparr>changesClaimed := nextStep p @ take k (nextTurn p)\<rparr>))"
proof -
  have t: "is_target t" using assms(3) by (auto simp: PrepareClaim_def is_target_def split: if_splits)
  obtain a where a: "prepare p NextStep 0 (queue_length p NextStep) [] False = Inr a"
    using assms(3) by (auto simp: PrepareClaim_def bindE_Inr_iff split: if_splits)
  show ?thesis
  proof (cases "t = NextTurn")
    case False
    then have "t = NextStep" "edit = a"
      using assms(3) t a by (auto simp: PrepareClaim_def bindE_Inr_iff is_target_def)
    with claim_step_effect [OF assms(1,2) a, of evs no_changes "[]"] assms(4) t show ?thesis
      by (simp add: ApplyInbox_def detached_same [OF assms(1)] edit_changes_def no_changes_def)
  next
    case True
    obtain b where b: "prepare p NextTurn 0 1 [] False = Inr b" "edit = join_edits a b"
      using assms(3) a True by (auto simp: PrepareClaim_def bindE_Inr_iff)
    obtain xs ys where evs: "evs = xs @ ys" "committed (editDrafts a) xs" "committed (editDrafts b) ys"
      using assms(4) b(2) by (auto simp: join_edits_def committed_append)
    note one = claim_step_effect [OF assms(1,2) a evs(2), of no_changes ys]
    note two = claim_turn_effect [OF assms(1,2) b(1) _ evs(3) inbox_ok_drop_step [OF assms(1)]]
    from one two [of "edit_changes no_changes [] (nextStep p) False"] True t b(2) evs(1) show ?thesis
      by (simp add: ApplyInbox_def detached_same [OF assms(1)] edit_changes_def no_changes_def join_edits_def)
  qed
qed

lemma clear_effect:
  assumes "inbox_ok p" "inbox_fits p" "PrepareClear p = Inr edit" "committed (editDrafts edit) evs"
  shows "editRemoved edit = nextStep p @ nextTurn p \<and>
    ApplyInbox p evs = Inr (empty_inbox, no_changes\<lparr>changesDiscarded := nextStep p @ nextTurn p\<rparr>)"
proof -
  obtain a b where a: "prepare p NextStep 0 (queue_length p NextStep) [] True = Inr a"
    and b: "prepare p NextTurn 0 (queue_length p NextTurn) [] True = Inr b" "edit = join_edits a b"
    using assms(3) by (auto simp: PrepareClear_def bindE_Inr_iff)
  obtain xs ys where evs: "evs = xs @ ys" "committed (editDrafts a) xs" "committed (editDrafts b) ys"
    using assms(4) b(2) by (auto simp: join_edits_def committed_append)
  have n: "queue_length p NextTurn = int (length (nextTurn p))"
    by (simp add: queue_length_of is_target_def queue_of_def)
  note one = claim_step_effect [OF assms(1,2) a evs(2), of no_changes ys]
  note two = claim_turn_effect [OF assms(1,2) b(1) _ evs(3) inbox_ok_drop_step [OF assms(1)]]
  from one two [of "edit_changes no_changes [] (nextStep p) True"] b(2) evs(1) n show ?thesis
    by (simp add: ApplyInbox_def detached_same [OF assms(1)] edit_changes_def no_changes_def join_edits_def
        empty_inbox_def)
qed

lemma position_of_Some: "position_of i k ms = Some j \<Longrightarrow> k \<le> j \<and> j - k < length ms \<and> idValue (ms ! (j - k)) = i"
proof (induction ms arbitrary: k)
  case (Cons m ms)
  show ?case
  proof (cases "idValue m = i")
    case False
    with Cons.prems have "position_of i (Suc k) ms = Some j" by simp
    note ih = Cons.IH [OF this]
    then have "j - k = Suc (j - Suc k)" by arith
    with ih show ?thesis by simp
  qed (use Cons.prems in simp)
qed simp

lemma locate_Some:
  "locate p i = Some (t, k) \<Longrightarrow> is_target t \<and> k < length (queue_of p t) \<and> idValue (queue_of p t ! k) = i"
  by (auto simp: locate_def is_target_def queue_of_def split: option.splits dest: position_of_Some)

lemma remove_at_splice: "remove_at k xs = splice_list k 1 [] xs"
  by (simp add: remove_at_def splice_list_def)

lemma at_splice:
  "k < n \<Longrightarrow> n < 2 ^ 63 \<Longrightarrow> splice_from (int n) (int k) = int k \<and> splice_count (int n) (int k) 1 = 1"
  by (simp add: splice_from_def splice_count_def)

text \<open>Removing a pending message discards that message and no other.\<close>

lemma remove_effect:
  assumes "inbox_ok p" "inbox_fits p" "locate p i = Some (t, k)" "PrepareRemove p i = Inr edit"
    "committed (editDrafts edit) evs"
  shows "editRemoved edit = [queue_of p t ! k] \<and>
    apply_loop p ch (evs @ es) =
      apply_loop (set_queue p t (remove_at k (queue_of p t))) (edit_changes ch [] [queue_of p t ! k] True) es"
proof -
  note l = locate_Some [OF assms(3)]
  have e: "prepare p t (int k) 1 [] True = Inr edit"
    using assms(3,4) by (simp add: PrepareRemove_def PrepareSplice_def)
  have "subslice (queue_of p t) k 1 = [queue_of p t ! k]"
    using l by (simp add: subslice_def Cons_nth_drop_Suc [symmetric])
  with prepare_effect [OF assms(1) e fits_queue [OF assms(2)] _ assms(5) assms(1), of ch es] l
    at_splice [of k "length (queue_of p t)"] fits_queue [OF assms(2), of t]
  show ?thesis by (simp add: remove_at_splice)
qed

lemma replace_effect:
  assumes "inbox_ok p" "inbox_fits p" "locate p i = Some (t, k)" "PrepareReplace p i m = Inr edit"
    "canonical_user m" "committed (editDrafts edit) evs"
  shows "editRemoved edit = [queue_of p t ! k] \<and>
    ApplyInbox p evs = Inr (set_queue p t ((queue_of p t)[k := m]),
      no_changes\<lparr>changesInserted := [m], changesDiscarded := [queue_of p t ! k]\<rparr>)"
proof -
  note l = locate_Some [OF assms(3)]
  have e: "prepare p t (int k) 1 [m] True = Inr edit"
    using assms(3,4) by (simp add: PrepareReplace_def PrepareSplice_def)
  have "subslice (queue_of p t) k 1 = [queue_of p t ! k]"
    using l by (simp add: subslice_def Cons_nth_drop_Suc [symmetric])
  moreover have "splice_list k 1 [m] (queue_of p t) = (queue_of p t)[k := m]"
    using l by (simp add: splice_list_def upd_conv_take_nth_drop)
  ultimately show ?thesis
    using prepare_effect [OF assms(1) e fits_queue [OF assms(2)] _ assms(6) assms(1), of no_changes "[]"] l
      at_splice [of k "length (queue_of p t)"] fits_queue [OF assms(2), of t] assms(5)
    by (simp add: ApplyInbox_def detached_same [OF assms(1)] edit_changes_def no_changes_def)
qed

text \<open>A move keeps the message: it leaves its place and enters the end of the destination.\<close>

lemma move_effect:
  assumes "inbox_ok p" "inbox_fits p" "locate p i = Some (t, k)" "PrepareMove p i t' = Inr edit"
    "canonical_user (queue_of p t ! k)" "committed (editDrafts edit) evs"
  defines "m \<equiv> queue_of p t ! k" and "q \<equiv> set_queue p t (remove_at k (queue_of p t))"
  shows "is_target t' \<and> editRemoved edit = [m] \<and>
    ApplyInbox p evs = Inr (set_queue q t' (queue_of q t' @ [m]),
      no_changes\<lparr>changesInserted := [m], changesDiscarded := [m]\<rparr>)"
proof -
  note l = locate_Some [OF assms(3)]
  obtain a b where a: "PrepareSplice p t (int k) 1 [] = Inr a"
    and b: "PrepareAppend q t' (hd (editRemoved a)) = Inr b"
    and edit: "edit = a\<lparr>editDrafts := editDrafts a @ editDrafts b\<rparr>"
    using assms(4) by (auto simp: PrepareMove_def assms(3) bindE_Inr_iff detached_same [OF assms(1)] Let_def q_def
        set_queue_def queue_of_def split: if_splits)
  have ar: "PrepareRemove p i = Inr a" using a assms(3) by (simp add: PrepareRemove_def)
  obtain xs ys where evs: "evs = xs @ ys" "committed (editDrafts a) xs" "committed (editDrafts b) ys"
    using assms(6) edit by (auto simp: committed_append)
  note one = remove_effect [OF assms(1-3) ar evs(2)]
  have r: "editRemoved a = [m]" using one by (simp add: m_def)
  have "apply_loop p no_changes (xs @ []) = Inr (q, edit_changes no_changes [] [m] True)"
    using one [of no_changes "[]"] by (simp add: q_def m_def)
  then have qok: "inbox_ok q" using apply_loop_ok assms(1) by blast
  have "length (queue_of q x) \<le> length (queue_of p x)" for x
    by (auto simp: q_def set_queue_def queue_of_def remove_at_def)
  from this [of NextTurn] this [of NextStep] have fits: "inbox_fits q"
    using assms(2) by (simp add: inbox_fits_def queue_of_def)
  note two = append_effect [OF qok fits _ b evs(3), unfolded r list.sel, folded m_def]
  have "apply_loop q (join_changes (edit_changes no_changes [] [m] True) no_changes) ys =
      Inr (set_queue q t' (queue_of q t' @ [m]), no_changes\<lparr>changesInserted := [m], changesDiscarded := [m]\<rparr>)"
    unfolding apply_loop_changes using two assms(5) qok
    by (simp add: ApplyInbox_def detached_same m_def edit_changes_def no_changes_def join_changes_def)
  then show ?thesis
    using one [of no_changes ys] two assms(5) edit r
    by (simp add: evs(1) ApplyInbox_def detached_same [OF assms(1)] q_def m_def)
qed

end
