(* ===== verification/Turns.thy ===== *)
theory Turns
  imports TurnEvents
begin

text \<open>
  One turn of an agent (\<open>src/agentloop/internal/turn/turn.go\<close>, \<open>turn_events.go\<close>): its
  lifecycle, the sticky conclusion, the step numbers, and the drafts of its two boundary
  events.  Every method takes the receiver as an option, nil being one of its errors, and
  returns the updated turn; on an error the receiver keeps its value.
\<close>

section \<open>State\<close>

definition maxNumber :: int where
  "maxNumber = 2 ^ 53 - 1"

datatype turn_state = StateProposed | StateOpen | StateStepping | StateStopping | StateSettling | StateClosed

datatype turn_result =
    TurnResultNone
  | TurnResultContinue
  | TurnResultCompleted
  | TurnResultMaxTokens
  | TurnResultBlocked
  | TurnResultError
  | TurnResultAborted

record turn =
  turnNumber :: int
  lastStep :: int
  currentState :: turn_state
  conclusion :: turn_result

text \<open>The numbers of the two enumerations, which the error texts show.\<close>

fun state_code :: "turn_state \<Rightarrow> int" where
  "state_code StateProposed = 0"
| "state_code StateOpen = 1"
| "state_code StateStepping = 2"
| "state_code StateStopping = 3"
| "state_code StateSettling = 4"
| "state_code StateClosed = 5"

fun result_code :: "turn_result \<Rightarrow> int" where
  "result_code TurnResultNone = 0"
| "result_code TurnResultContinue = 1"
| "result_code TurnResultCompleted = 2"
| "result_code TurnResultMaxTokens = 3"
| "result_code TurnResultBlocked = 4"
| "result_code TurnResultError = 5"
| "result_code TurnResultAborted = 6"

definition NewTurn :: "int \<Rightarrow> turn res" where
  "NewTurn n =
     (if n \<le> 0 \<or> n > maxNumber then Inl (err ''agentloop turn: number must be a positive safe integer'')
      else Inr \<lparr>turnNumber = n, lastStep = 0, currentState = StateProposed, conclusion = TurnResultNone\<rparr>)"

definition on_turn :: "turn option \<Rightarrow> (turn \<Rightarrow> 'a res) \<Rightarrow> 'a res" where
  "on_turn current f = (case current of None \<Rightarrow> Inl (err ''agentloop turn: Turn is nil'') | Some t \<Rightarrow> f t)"

definition transitionError :: "turn \<Rightarrow> string \<Rightarrow> goerr" where
  "transitionError t action =
     Errorf ''agentloop turn: cannot %s from state %d'' [AStr action, AInt (state_code (currentState t))]"

section \<open>Transitions\<close>

definition EnterOpen :: "turn option \<Rightarrow> turn res" where
  "EnterOpen current = on_turn current (\<lambda>t.
     if currentState t \<noteq> StateProposed then Inl (transitionError t ''enter open'')
     else Inr (t\<lparr>currentState := StateOpen\<rparr>))"

definition ProposedStep :: "turn option \<Rightarrow> int res" where
  "ProposedStep current = on_turn current (\<lambda>t.
     if currentState t \<noteq> StateOpen then Inl (transitionError t ''propose Step'')
     else if lastStep t \<ge> maxNumber
     then Inl (err ''agentloop turn: Step number exceeds the safe integer range'')
     else Inr (lastStep t + 1))"

definition EnterStepping :: "int \<Rightarrow> turn option \<Rightarrow> turn res" where
  "EnterStepping stepNumber current = on_turn current (\<lambda>t.
     if currentState t \<noteq> StateOpen \<or> stepNumber \<noteq> lastStep t + 1 then Inl (transitionError t ''enter stepping'')
     else Inr (t\<lparr>lastStep := stepNumber, currentState := StateStepping\<rparr>))"

definition EnterOpenAfterStep :: "turn_result \<Rightarrow> turn option \<Rightarrow> turn res" where
  "EnterOpenAfterStep result current = on_turn current (\<lambda>t.
     if currentState t \<noteq> StateStepping then Inl (transitionError t ''enter open after Step'')
     else if result \<notin> {TurnResultContinue, TurnResultCompleted, TurnResultMaxTokens, TurnResultError,
                       TurnResultAborted}
     then Inl (Errorf ''agentloop turn: invalid Step outcome %d'' [AInt (result_code result)])
     else Inr (t\<lparr>conclusion := (if conclusion t \<noteq> TurnResultMaxTokens \<or> result = TurnResultError \<or>
                                result = TurnResultAborted then result else conclusion t),
                 currentState := StateOpen\<rparr>))"

definition EnterStopping :: "turn option \<Rightarrow> turn res" where
  "EnterStopping current = on_turn current (\<lambda>t.
     if currentState t \<noteq> StateOpen \<or> conclusion t = TurnResultNone \<or> conclusion t = TurnResultContinue
     then Inl (transitionError t ''enter stopping'')
     else Inr (t\<lparr>currentState := StateStopping\<rparr>))"

definition EnterOpenAfterStopping :: "turn option \<Rightarrow> turn res" where
  "EnterOpenAfterStopping current = on_turn current (\<lambda>t.
     if currentState t \<noteq> StateStopping then Inl (transitionError t ''enter open after stopping'')
     else Inr (t\<lparr>currentState := StateOpen\<rparr>))"

definition EnterSettling :: "turn_result \<Rightarrow> turn option \<Rightarrow> turn res" where
  "EnterSettling result current = on_turn current (\<lambda>t.
     if currentState t \<noteq> StateOpen \<and> currentState t \<noteq> StateStopping \<and> currentState t \<noteq> StateStepping \<and>
        currentState t \<noteq> StateSettling
     then Inl (transitionError t ''enter settling'')
     else if result \<notin> {TurnResultCompleted, TurnResultMaxTokens, TurnResultBlocked, TurnResultError,
                       TurnResultAborted}
     then Inl (Errorf ''agentloop turn: invalid settlement outcome %d'' [AInt (result_code result)])
     else Inr (t\<lparr>conclusion := (if conclusion t \<noteq> TurnResultMaxTokens \<or> result = TurnResultAborted \<or>
                                result = TurnResultError then result else conclusion t),
                 currentState := StateSettling\<rparr>))"

definition EnterClosed :: "turn option \<Rightarrow> turn res" where
  "EnterClosed current = on_turn current (\<lambda>t.
     if currentState t \<noteq> StateSettling then Inl (transitionError t ''enter closed'')
     else Inr (t\<lparr>currentState := StateClosed\<rparr>))"

text \<open>The accessors answer for a nil turn, too.\<close>

definition LastStep :: "turn option \<Rightarrow> int" where
  "LastStep current = (case current of None \<Rightarrow> 0 | Some t \<Rightarrow> lastStep t)"

definition ResultValue :: "turn option \<Rightarrow> turn_result" where
  "ResultValue current = (case current of None \<Rightarrow> TurnResultNone | Some t \<Rightarrow> conclusion t)"

definition StateValue :: "turn option \<Rightarrow> turn_state" where
  "StateValue current = (case current of None \<Rightarrow> StateClosed | Some t \<Rightarrow> currentState t)"

section \<open>Boundary events\<close>

text \<open>
  \<open>LastNumber\<close> walks the log backwards to its last turn/start event, whose payload it
  decodes.
\<close>

fun last_number_loop :: "event list \<Rightarrow> int res" where
  "last_number_loop [] = Inr 0"
| "last_number_loop (e # es) =
     (if evType e \<noteq> ''turn/start'' then last_number_loop es
      else case unmarshal_turn (evData e) of
        Inl x \<Rightarrow> Inl (Errorf ''agentloop: invalid persisted turn/start at seq %d'' [AInt (evSeq e)])
      | Inr n \<Rightarrow>
          if n \<le> 0 \<or> n > maxNumber
          then Inl (Errorf ''agentloop: invalid persisted turn/start at seq %d'' [AInt (evSeq e)])
          else Inr n)"

definition LastNumber :: "event list \<Rightarrow> int res" where
  "LastNumber es = last_number_loop (rev es)"

definition StartDraft :: "turn option \<Rightarrow> event_draft res" where
  "StartDraft current = on_turn current (\<lambda>t.
     if currentState t \<noteq> StateProposed then Inl (transitionError t ''prepare start'')
     else NewEventDraft ''turn/start'' (marshal_turn_start (turnNumber t)) False)"

text \<open>
  An operation error as settlement sees it: whether it carries a cancellation and of which
  cause, and the failure \<open>failureFromError\<close> makes of it, the failure of an \<open>LlmError\<close> in
  its chain or its own text.
\<close>

datatype problem = Problem "cancel_intent option option" "llm_failure option" string

definition unknown_failure :: "string \<Rightarrow> llm_failure" where
  "unknown_failure text =
     \<lparr>failMessage = text, failCode = ''UNKNOWN'', failStatus = None, failRetryAfter = None, failRequest = []\<rparr>"

fun failureFromError :: "problem option \<Rightarrow> llm_failure" where
  "failureFromError (Some (Problem c (Some f) t)) = f"
| "failureFromError (Some (Problem c None t)) = unknown_failure t"
| "failureFromError None = unknown_failure ''unknown Agent Loop failure''"

definition EndValue :: "problem option \<Rightarrow> turn_cancel_cause option \<Rightarrow> turn option \<Rightarrow> turn_end res" where
  "EndValue prob cancellation current = on_turn current (\<lambda>t.
     if currentState t \<noteq> StateSettling then Inl (transitionError t ''prepare end'')
     else bindE
       (case conclusion t of
          TurnResultCompleted \<Rightarrow> Inr TurnCompleted
        | TurnResultMaxTokens \<Rightarrow> Inr TurnMaxTokens
        | TurnResultBlocked \<Rightarrow> Inr TurnBlocked
        | TurnResultAborted \<Rightarrow>
            Inr (TurnAborted (Some (case cancellation of None \<Rightarrow> UserCancelCause | Some c \<Rightarrow> c)))
        | TurnResultError \<Rightarrow> Inr (TurnError (failureFromError prob))
        | _ \<Rightarrow> Inl (err ''agentloop turn: terminal conclusion is required'')) (\<lambda>reason.
       Inr \<lparr>endedTurn = turnNumber t, endedReason = Some reason\<rparr>))"

definition EndDraft :: "problem option \<Rightarrow> turn_cancel_cause option \<Rightarrow> turn option \<Rightarrow> event_draft res" where
  "EndDraft prob cancellation current =
     bindE (EndValue prob cancellation current) (\<lambda>ended.
     NewEventDraft ''turn/end'' (marshal_turn_end ended) False)"

section \<open>Runs of a turn\<close>

datatype turn_op =
    OpOpen
  | OpStepping int
  | OpAfterStep turn_result
  | OpStopping
  | OpAfterStopping
  | OpSettling turn_result
  | OpClosed

fun turn_apply :: "turn_op \<Rightarrow> turn \<Rightarrow> turn res" where
  "turn_apply OpOpen t = EnterOpen (Some t)"
| "turn_apply (OpStepping n) t = EnterStepping n (Some t)"
| "turn_apply (OpAfterStep r) t = EnterOpenAfterStep r (Some t)"
| "turn_apply OpStopping t = EnterStopping (Some t)"
| "turn_apply OpAfterStopping t = EnterOpenAfterStopping (Some t)"
| "turn_apply (OpSettling r) t = EnterSettling r (Some t)"
| "turn_apply OpClosed t = EnterClosed (Some t)"

text \<open>The accepted transitions of one turn, with the operations that made them, in order.\<close>

inductive turn_run :: "int \<Rightarrow> turn_op list \<Rightarrow> turn \<Rightarrow> bool" for n where
  proposed: "NewTurn n = Inr t \<Longrightarrow> turn_run n [] t"
| accepted: "turn_run n ops t \<Longrightarrow> turn_apply op t = Inr t' \<Longrightarrow> turn_run n (ops @ [op]) t'"

inductive_cases turn_run_snoc: "turn_run n (ops @ [op]) t"

lemmas turn_op_defs =
  EnterOpen_def EnterStepping_def EnterOpenAfterStep_def EnterStopping_def EnterOpenAfterStopping_def
  EnterSettling_def EnterClosed_def on_turn_def

section \<open>The invariant of a turn\<close>

definition terminal :: "turn_result \<Rightarrow> bool" where
  "terminal r = (r \<noteq> TurnResultNone \<and> r \<noteq> TurnResultContinue)"

definition turn_ok :: "turn \<Rightarrow> bool" where
  "turn_ok t =
     (0 < turnNumber t \<and> turnNumber t \<le> maxNumber \<and> 0 \<le> lastStep t \<and>
      (currentState t = StateProposed \<longrightarrow> lastStep t = 0 \<and> conclusion t = TurnResultNone) \<and>
      (currentState t \<in> {StateStepping, StateStopping} \<longrightarrow> 0 < lastStep t) \<and>
      (currentState t \<in> {StateStopping, StateSettling, StateClosed} \<longrightarrow> terminal (conclusion t)) \<and>
      (conclusion t = TurnResultBlocked \<longrightarrow> currentState t \<in> {StateSettling, StateClosed}) \<and>
      (lastStep t = 0 \<and> currentState t = StateOpen \<longrightarrow> conclusion t = TurnResultNone))"

lemma NewTurn_ok: "NewTurn n = Inr t \<Longrightarrow> turn_ok t \<and> turnNumber t = n"
  by (auto simp: NewTurn_def turn_ok_def split: if_splits)

text \<open>When a transition is accepted, and what it does.\<close>

lemma turn_op_Inr:
  "EnterOpen (Some t) = Inr t' \<longleftrightarrow> currentState t = StateProposed \<and> t' = t\<lparr>currentState := StateOpen\<rparr>"
  "EnterStepping n (Some t) = Inr t' \<longleftrightarrow> currentState t = StateOpen \<and> n = lastStep t + 1 \<and>
     t' = t\<lparr>lastStep := n, currentState := StateStepping\<rparr>"
  "EnterOpenAfterStep r (Some t) = Inr t' \<longleftrightarrow> currentState t = StateStepping \<and>
     r \<noteq> TurnResultNone \<and> r \<noteq> TurnResultBlocked \<and>
     t' = t\<lparr>conclusion := (if conclusion t \<noteq> TurnResultMaxTokens \<or> r = TurnResultError \<or> r = TurnResultAborted
                          then r else conclusion t), currentState := StateOpen\<rparr>"
  "EnterStopping (Some t) = Inr t' \<longleftrightarrow> currentState t = StateOpen \<and> terminal (conclusion t) \<and>
     t' = t\<lparr>currentState := StateStopping\<rparr>"
  "EnterOpenAfterStopping (Some t) = Inr t' \<longleftrightarrow> currentState t = StateStopping \<and>
     t' = t\<lparr>currentState := StateOpen\<rparr>"
  "EnterSettling r (Some t) = Inr t' \<longleftrightarrow> currentState t \<noteq> StateProposed \<and> currentState t \<noteq> StateClosed \<and>
     terminal r \<and>
     t' = t\<lparr>conclusion := (if conclusion t \<noteq> TurnResultMaxTokens \<or> r = TurnResultAborted \<or> r = TurnResultError
                          then r else conclusion t), currentState := StateSettling\<rparr>"
  "EnterClosed (Some t) = Inr t' \<longleftrightarrow> currentState t = StateSettling \<and> t' = t\<lparr>currentState := StateClosed\<rparr>"
proof -
  show "EnterOpenAfterStep r (Some t) = Inr t' \<longleftrightarrow> currentState t = StateStepping \<and>
     r \<noteq> TurnResultNone \<and> r \<noteq> TurnResultBlocked \<and>
     t' = t\<lparr>conclusion := (if conclusion t \<noteq> TurnResultMaxTokens \<or> r = TurnResultError \<or> r = TurnResultAborted
                          then r else conclusion t), currentState := StateOpen\<rparr>"
    by (cases r) (auto simp: EnterOpenAfterStep_def on_turn_def)
  show "EnterSettling r (Some t) = Inr t' \<longleftrightarrow> currentState t \<noteq> StateProposed \<and> currentState t \<noteq> StateClosed \<and>
     terminal r \<and>
     t' = t\<lparr>conclusion := (if conclusion t \<noteq> TurnResultMaxTokens \<or> r = TurnResultAborted \<or> r = TurnResultError
                          then r else conclusion t), currentState := StateSettling\<rparr>"
    by (cases "currentState t"; cases r) (auto simp: EnterSettling_def on_turn_def terminal_def)
qed (auto simp: turn_op_defs terminal_def)

lemma turn_apply_ok: "turn_apply op t = Inr t' \<Longrightarrow> turn_ok t \<Longrightarrow> turn_ok t' \<and> turnNumber t' = turnNumber t"
proof (cases op)
  case (OpAfterStep r)
  assume "turn_apply op t = Inr t'" "turn_ok t"
  then show ?thesis by (simp add: OpAfterStep turn_op_Inr turn_ok_def)
qed (auto simp: turn_op_Inr turn_ok_def terminal_def)

lemma turn_run_ok: "turn_run n ops t \<Longrightarrow> turn_ok t \<and> turnNumber t = n"
  by (induction rule: turn_run.induct) (auto dest: NewTurn_ok turn_apply_ok)

text \<open>The steps of a run are numbered from one without gaps.\<close>

fun opened_steps :: "turn_op list \<Rightarrow> int list" where
  "opened_steps [] = []"
| "opened_steps (OpStepping n # ops) = n # opened_steps ops"
| "opened_steps (op # ops) = opened_steps ops"

lemma opened_steps_append: "opened_steps (xs @ ys) = opened_steps xs @ opened_steps ys"
  by (induction xs rule: opened_steps.induct) auto

lemma turn_run_steps:
  "turn_run n ops t \<Longrightarrow> opened_steps ops = map (\<lambda>k. int k + 1) [0..<nat (lastStep t)]"
proof (induction rule: turn_run.induct)
  case (proposed t)
  then show ?case by (auto simp: NewTurn_def split: if_splits)
next
  case (accepted ops t op t')
  have ok: "0 \<le> lastStep t" using turn_run_ok [OF accepted(1)] by (simp add: turn_ok_def)
  show ?case
  proof (cases op)
    case (OpStepping m)
    with accepted(2) have m: "m = lastStep t + 1" "lastStep t' = lastStep t + 1"
      by (auto simp: turn_op_Inr)
    then have "nat (lastStep t') = Suc (nat (lastStep t))" using ok by simp
    with m accepted.IH OpStepping ok show ?thesis by (simp add: opened_steps_append)
  qed (use accepted in \<open>auto simp: turn_op_Inr opened_steps_append\<close>)
qed

text \<open>The token-limit conclusion gives way to failures only.\<close>

lemma max_tokens_sticky:
  "turn_apply op t = Inr t' \<Longrightarrow> conclusion t = TurnResultMaxTokens \<Longrightarrow>
   conclusion t' \<in> {TurnResultMaxTokens, TurnResultError, TurnResultAborted}"
  by (cases op) (auto simp: turn_op_Inr)

text \<open>A closed turn accepts nothing.\<close>

lemma closed_is_final: "currentState t = StateClosed \<Longrightarrow> \<not> isOk (turn_apply op t)"
  by (cases op) (simp_all add: isOk_iff turn_op_Inr)

lemma turn_run_closed: "turn_run n (ops @ [op] @ rest) t \<Longrightarrow> op = OpClosed \<Longrightarrow> rest = []"
proof (induction rest arbitrary: t rule: rev_induct)
  case (snoc x xs)
  from snoc.prems(1) have "turn_run n ((ops @ [op] @ xs) @ [x]) t" by simp
  then obtain u where u: "turn_run n (ops @ [op] @ xs) u" "turn_apply x u = Inr t"
    by (rule turn_run_snoc) blast
  have "xs = []" using snoc.IH u(1) snoc.prems(2) by blast
  with u(1) obtain v where "turn_apply OpClosed v = Inr u"
    using snoc.prems(2) by (auto elim: turn_run_snoc)
  then have "currentState u = StateClosed" by (auto simp: turn_op_Inr)
  with closed_is_final [of u x] u(2) show ?case by (simp add: isOk_iff)
qed simp

section \<open>The end of a turn\<close>

fun reason_of :: "turn_result \<Rightarrow> problem option \<Rightarrow> turn_cancel_cause option \<Rightarrow> turn_end_reason" where
  "reason_of TurnResultMaxTokens p c = TurnMaxTokens"
| "reason_of TurnResultBlocked p c = TurnBlocked"
| "reason_of TurnResultAborted p c = TurnAborted (Some (case c of None \<Rightarrow> UserCancelCause | Some x \<Rightarrow> x))"
| "reason_of TurnResultError p c = TurnError (failureFromError p)"
| "reason_of r p c = TurnCompleted"

lemma EndValue_settling:
  "turn_ok t \<Longrightarrow> currentState t = StateSettling \<Longrightarrow>
   EndValue p c (Some t) = Inr \<lparr>endedTurn = turnNumber t, endedReason = Some (reason_of (conclusion t) p c)\<rparr>"
  by (cases "conclusion t") (auto simp: EndValue_def on_turn_def turn_ok_def terminal_def)

text \<open>
  An operation error that JSON can carry: a text, a failure with lossless numbers, and a
  hook's cause with its reason.
\<close>

definition valid_problem :: "problem option \<Rightarrow> turn_cancel_cause option \<Rightarrow> bool" where
  "valid_problem p c = (valid_failure (failureFromError p) \<and> c \<noteq> Some (HookCancelCause []))"

lemma reason_of_valid: "valid_problem p c \<Longrightarrow> valid_reason (reason_of r p c)"
proof (cases r)
  case TurnResultAborted
  assume "valid_problem p c"
  then have "(case c of None \<Rightarrow> UserCancelCause | Some x \<Rightarrow> x) \<noteq> HookCancelCause []"
    by (auto simp: valid_problem_def split: option.splits)
  then show ?thesis
    by (cases "case c of None \<Rightarrow> UserCancelCause | Some x \<Rightarrow> x") (auto simp: TurnResultAborted)
qed (auto simp: valid_problem_def)

lemma EndDraft_settling:
  assumes "turn_ok t" "currentState t = StateSettling" "valid_problem p c"
  shows "\<exists>d. EndDraft p c (Some t) = Inr d \<and> draftType d = ''turn/end'' \<and>
    DecodeTurnEnd (draftData d) =
      Inr \<lparr>endedTurn = turnNumber t, endedReason = Some (reason_of (conclusion t) p c)\<rparr>"
proof -
  let ?v = "\<lparr>endedTurn = turnNumber t, endedReason = Some (reason_of (conclusion t) p c)\<rparr>"
  have "valid_turn_end ?v"
    using assms(1) reason_of_valid [OF assms(3)]
    by (simp add: valid_turn_end_def turn_ok_def isSafeNonNegative_def maxSafeInteger_def maxNumber_def)
  from turn_end_round_trip [OF this] obtain j where
    "marshal_turn_end ?v = Inr j" "lossless j" "DecodeTurnEnd (Doc j) = Inr ?v" by blast
  then show ?thesis
    by (simp add: EndDraft_def EndValue_settling [OF assms(1,2)] NewEventDraft_Inr)
qed

end
