(* ===== verification/BoundaryWrites.thy ===== *)
theory BoundaryWrites
  imports Writes Turns
begin

text \<open>
  The three boundary facts an agent commits (\<open>src/agentloop/turn_start.go\<close>,
  \<open>turn_end.go\<close>, \<open>end_step.go\<close>, and \<open>boundaryWrite\<close> of \<open>agent_commit.go\<close>): immutable
  values that build their one draft against a snapshot and find their own earlier commit.

  Unlike the compaction writes, their \<open>Find\<close> methods scan the whole snapshot and reject
  duplicates.  The contract of such a write is a locale, which is an idempotent write that
  stays found after foreign events.
\<close>

section \<open>Scanning a snapshot\<close>

text \<open>A loop over events with a state, and the check of each event's position before it.\<close>

fun foldE :: "('s \<Rightarrow> event \<Rightarrow> 's res) \<Rightarrow> 's \<Rightarrow> event list \<Rightarrow> 's res" where
  "foldE f s [] = Inr s"
| "foldE f s (e # es) = bindE (f s e) (\<lambda>t. foldE f t es)"

fun scan_events :: "goerr \<Rightarrow> ('s \<Rightarrow> event \<Rightarrow> 's res) \<Rightarrow> int \<Rightarrow> 's \<Rightarrow> event list \<Rightarrow> 's res" where
  "scan_events discontinuous f index s [] = Inr s"
| "scan_events discontinuous f index s (e # es) =
     bindE (failIf (evSeq e \<noteq> index) discontinuous) (\<lambda>_.
     bindE (f s e) (\<lambda>t. scan_events discontinuous f (index + 1) t es))"

definition one_result :: "string \<Rightarrow> event \<Rightarrow> write_result" where
  "one_result session e = range_result session (evSeq e) [e]"

section \<open>The start of a turn\<close>

record turn_start_fact =
  beginSession :: string
  beginNumber :: int
  beginDraft :: event_draft

definition turn_start_step :: "turn_start_fact \<Rightarrow> event option \<Rightarrow> event \<Rightarrow> event option res" where
  "turn_start_step p found e =
     (if evType e \<noteq> ''turn/start'' then Inr found
      else
        bindE (unmarshal_turn (evData e)) (\<lambda>started.
        if started \<noteq> beginNumber p then Inr found
        else
          bindE (failIf (found \<noteq> None) (err ''agentloop: duplicate Turn starts'')) (\<lambda>_.
          bindE (ValidateEvent (beginDraft p) e) (\<lambda>_. Inr (Some e)))))"

definition turn_start_find :: "turn_start_fact \<Rightarrow> snapshot \<Rightarrow> write_result option res" where
  "turn_start_find p snap =
     bindE (failIf (beginSession p = [] \<or> beginNumber p \<le> 0 \<or>
                    barrierSession (snapBarrier snap) \<noteq> beginSession p \<or>
                    barrierNext (snapBarrier snap) \<noteq> int (length (snapEvents snap)))
              (err ''agentloop: Turn start requires its complete Session snapshot'')) (\<lambda>_.
     bindE (scan_events (err ''agentloop: Turn start snapshot is discontinuous'') (turn_start_step p) 0 None
              (snapEvents snap)) (\<lambda>found.
     Inr (map_option (one_result (beginSession p)) found)))"

definition turn_start_drafts :: "turn_start_fact \<Rightarrow> snapshot \<Rightarrow> event_draft list res" where
  "turn_start_drafts p snap =
     bindE (failIf (barrierSession (snapBarrier snap) \<noteq> beginSession p)
              (err ''agentloop: Turn start Session mismatch'')) (\<lambda>_.
     bindE (LastNumber (snapEvents snap)) (\<lambda>latest.
     bindE (failIf (latest + 1 \<noteq> beginNumber p) (err ''agentloop: Turn start is not the next Turn'')) (\<lambda>_.
     Inr [beginDraft p])))"

section \<open>The end of a turn\<close>

text \<open>
  The payload is the marshalled end; the compacted data of a logged event is compared with
  it, which for parsed data is equality of the documents.
\<close>

record turn_end_fact =
  finalSession :: string
  finalNumber :: int
  finalDraft :: event_draft
  finalPayload :: raw

definition turn_end_drafts :: "turn_end_fact \<Rightarrow> snapshot \<Rightarrow> event_draft list res" where
  "turn_end_drafts p snap =
     bindE (LastNumber (snapEvents snap)) (\<lambda>latest.
     bindE (failIf (latest \<noteq> finalNumber p)
              (err ''agentloop: Turn end does not belong to the current logged Turn'')) (\<lambda>_.
     Inr [finalDraft p]))"

definition turn_end_step :: "turn_end_fact \<Rightarrow> int \<Rightarrow> event option \<Rightarrow> event \<Rightarrow> event option res" where
  "turn_end_step p next found e =
     (if evType e \<noteq> ''turn/end'' then Inr found
      else
        bindE (unmarshal_turn (evData e)) (\<lambda>boundary.
        if boundary \<noteq> finalNumber p then Inr found
        else
          bindE (failIf (found \<noteq> None) (err ''agentloop: duplicate Turn end in Session log'')) (\<lambda>_.
          bindE (failIf (evSeq e < 0 \<or> evSeq e \<ge> next)
                   (err ''agentloop: Turn end is outside the committed prefix'')) (\<lambda>_.
          bindE (failIf (evData e \<noteq> finalPayload p)
                   (err ''agentloop: logged Turn end conflicts with the prepared conclusion'')) (\<lambda>_.
          Inr (Some e))))))"

definition turn_end_find :: "turn_end_fact \<Rightarrow> snapshot \<Rightarrow> write_result option res" where
  "turn_end_find p snap =
     bindE (failIf (finalSession p = [] \<or> finalNumber p \<le> 0 \<or> finalPayload p = Absent \<or>
                    barrierSession (snapBarrier snap) \<noteq> finalSession p)
              (err ''agentloop: Turn end requires its owning Session snapshot'')) (\<lambda>_.
     bindE (failIf (barrierNext (snapBarrier snap) \<noteq> int (length (snapEvents snap)))
              (err ''agentloop: Turn end lookup requires a complete Session snapshot'')) (\<lambda>_.
     bindE (scan_events (err ''agentloop: Turn end snapshot sequence is discontinuous'') (\<lambda>u e. Inr u) 0 ()
              (snapEvents snap)) (\<lambda>_.
     bindE (foldE (turn_end_step p (barrierNext (snapBarrier snap))) None (snapEvents snap)) (\<lambda>found.
     Inr (map_option (one_result (finalSession p)) found)))))"

section \<open>The end of a step\<close>

record end_step_fact =
  closeDraft :: event_draft
  closeFailure :: "problem option"
  closeSession :: string
  closePosition :: step_position

record step_scan =
  scanPrevious :: "event option"
  scanStarted :: bool
  scanOpen :: bool

definition end_step_step :: "end_step_fact \<Rightarrow> step_scan \<Rightarrow> event \<Rightarrow> step_scan res" where
  "end_step_step p s0 e =
     (let s = (if evType e = ''turn/start'' \<or> evType e = ''turn/end'' then s0\<lparr>scanOpen := False\<rparr> else s0) in
      if evType e \<noteq> ''step/start'' \<and> evType e \<noteq> ''step/end'' then Inr s
      else
        bindE (unmarshal_position (evData e)) (\<lambda>position.
        if position \<noteq> closePosition p then Inr (s\<lparr>scanOpen := False\<rparr>)
        else if evType e = ''step/start'' then
          bindE (failIf (scanStarted s) (err ''agentloop: duplicate Step start in Session log'')) (\<lambda>_.
          Inr (s\<lparr>scanStarted := True, scanOpen := True\<rparr>))
        else
          bindE (failIf (\<not> scanOpen s \<or> scanPrevious s \<noteq> None)
                   (err ''agentloop: Step end has no unique open start'')) (\<lambda>_.
          bindE (ValidateEvent (closeDraft p) e) (\<lambda>_.
          Inr (s\<lparr>scanPrevious := Some e, scanOpen := False\<rparr>)))))"

definition end_step_inspect :: "end_step_fact \<Rightarrow> snapshot \<Rightarrow> (write_result option \<times> bool) res" where
  "end_step_inspect p snap =
     bindE (failIf (closeSession p = [] \<or> posTurn (closePosition p) \<le> 0 \<or> posStep (closePosition p) \<le> 0 \<or>
                    barrierSession (snapBarrier snap) \<noteq> closeSession p \<or>
                    barrierNext (snapBarrier snap) \<noteq> int (length (snapEvents snap)))
              (err ''agentloop: Step end requires its complete Session snapshot'')) (\<lambda>_.
     bindE (scan_events (err ''agentloop: Step end snapshot sequence is discontinuous'') (end_step_step p) 0
              \<lparr>scanPrevious = None, scanStarted = False, scanOpen = False\<rparr> (snapEvents snap)) (\<lambda>s.
     Inr (map_option (one_result (closeSession p)) (scanPrevious s), scanOpen s)))"

definition end_step_drafts :: "end_step_fact \<Rightarrow> snapshot \<Rightarrow> event_draft list res" where
  "end_step_drafts p snap =
     bindE (end_step_inspect p snap) (\<lambda>(previous, open).
     bindE (failIf (previous \<noteq> None \<or> \<not> open)
              (err ''agentloop: Step end requires its open logged Step'')) (\<lambda>_.
     Inr [closeDraft p]))"

definition end_step_find :: "end_step_fact \<Rightarrow> snapshot \<Rightarrow> write_result option res" where
  "end_step_find p snap = bindE (end_step_inspect p snap) (\<lambda>(previous, open). Inr previous)"

section \<open>The plans\<close>

text \<open>\<open>boundaryWrite\<close> carries one of the facts across the session boundary.\<close>

datatype boundary = TurnStartFact turn_start_fact | TurnEndFact turn_end_fact | EndStepFact end_step_fact

fun boundaryWrite :: "boundary \<Rightarrow> write_plan" where
  "boundaryWrite (TurnStartFact p) = Idempotent (turn_start_drafts p) (turn_start_find p)"
| "boundaryWrite (TurnEndFact p) = Idempotent (turn_end_drafts p) (turn_end_find p)"
| "boundaryWrite (EndStepFact p) = Idempotent (end_step_drafts p) (end_step_find p)"

section \<open>Scans of a log\<close>

lemma foldE_append: "foldE f s (es @ fs) = bindE (foldE f s es) (\<lambda>t. foldE f t fs)"
  by (induction es arbitrary: s) (auto simp: bindE_assoc)

lemma foldE_cong [fundef_cong]:
  "es = fs \<Longrightarrow> s = t \<Longrightarrow> (\<And>u e. e \<in> set fs \<Longrightarrow> f u e = g u e) \<Longrightarrow> foldE f s es = foldE g t fs"
  by (induction fs arbitrary: s t es) (auto intro: bindE_cong)

lemma foldE_unit: "foldE (\<lambda>u e. Inr ()) () es = Inr ()"
  by (induction es) auto

lemma foldE_invariant:
  assumes "foldE f s es = Inr t" "P s" "\<And>u e v. e \<in> set es \<Longrightarrow> P u \<Longrightarrow> f u e = Inr v \<Longrightarrow> P v"
  shows "P t"
  using assms by (induction es arbitrary: s) (auto simp: bindE_Inr_iff)

lemma scan_contiguous_from:
  "(\<forall>i < length es. evSeq (es ! i) = index + int i) \<Longrightarrow> scan_events x f index s es = foldE f s es"
proof (induction es arbitrary: index s)
  case (Cons e es)
  have "evSeq e = index" using Cons.prems by (auto dest: spec [of _ 0])
  moreover have "\<forall>i < length es. evSeq (es ! i) = (index + 1) + int i"
    using Cons.prems by (auto dest: spec [of _ "Suc _"])
  ultimately show ?case using Cons.IH [of "index + 1"] by (simp cong: bindE_cong)
qed simp

lemma scan_log: "log_ok l \<Longrightarrow> scan_events x f 0 s (entries l) = foldE f s (entries l)"
  using scan_contiguous_from [of "entries l" 0] by (simp add: log_ok_def contiguous_def)

lemma log_seq_range: "log_ok l \<Longrightarrow> e \<in> set (entries l) \<Longrightarrow> 0 \<le> evSeq e \<and> evSeq e < int (length (entries l))"
  by (auto simp: log_ok_def contiguous_def in_set_conv_nth)

lemma one_result_own:
  assumes "log_ok l" "e \<in> set (entries l)"
  shows "own_range l (one_result (headerID (logHeader l)) e)"
proof -
  obtain k where k: "k < length (entries l)" "entries l ! k = e" using assms(2) by (auto simp: in_set_conv_nth)
  have "evSeq e = int k" using assms(1) k by (auto simp: log_ok_def contiguous_def)
  moreover have "subslice (entries l) k 1 = [e]"
    using k by (simp add: subslice_def Cons_nth_drop_Suc [symmetric])
  ultimately show ?thesis using range_result_own [OF assms(1), of k 1] k(1) by (simp add: one_result_def)
qed

text \<open>
  The contract: \<open>guard\<close> says when the fact belongs to the session, \<open>step\<close> is the body of the
  scan, and \<open>found\<close> reads the event it has found.
\<close>

locale scanned_write =
  fixes wf :: "'p \<Rightarrow> bool"
    and build :: "'p \<Rightarrow> snapshot \<Rightarrow> event_draft list res"
    and findCommit :: "'p \<Rightarrow> snapshot \<Rightarrow> write_result option res"
    and guard :: "'p \<Rightarrow> string \<Rightarrow> unit res"
    and step :: "'p \<Rightarrow> 's \<Rightarrow> event \<Rightarrow> 's res"
    and init :: 's
    and found :: "'s \<Rightarrow> event option"
  assumes find_scans: "log_ok l \<Longrightarrow> findCommit p (Snapshot l) =
      bindE (guard p (headerID (logHeader l))) (\<lambda>_.
      bindE (foldE (step p) init (entries l)) (\<lambda>s.
      Inr (map_option (one_result (headerID (logHeader l))) (found s))))"
    and found_init: "found init = None"
    and found_step: "step p s e = Inr s' \<Longrightarrow> found s' = found s \<or> found s' = Some e"
    and build_step: "wf p \<Longrightarrow> log_ok l \<Longrightarrow> foldE (step p) init (entries l) = Inr s \<Longrightarrow> found s = None \<Longrightarrow>
      build p (Snapshot l) = Inr ds \<Longrightarrow>
      \<exists>d. ds = [d] \<and> (\<forall>e. ValidateEvent d e = Inr () \<longrightarrow> (\<exists>s'. step p s e = Inr s' \<and> found s' = Some e))"
begin

definition unseen :: "'p \<Rightarrow> event \<Rightarrow> bool" where
  "unseen p e = (\<forall>s. \<exists>s'. step p s e = Inr s' \<and> found s' = found s)"

lemma found_from_log: "foldE (step p) init es = Inr s \<Longrightarrow> found s = Some e \<Longrightarrow> e \<in> set es"
proof -
  assume f: "foldE (step p) init es = Inr s" "found s = Some e"
  have "\<forall>x. found s = Some x \<longrightarrow> x \<in> set es"
    by (rule foldE_invariant [OF f(1), where P = "\<lambda>s. \<forall>x. found s = Some x \<longrightarrow> x \<in> set es"])
       (use found_init found_step in \<open>fastforce+\<close>)
  with f(2) show ?thesis by blast
qed

lemma scan_own:
  assumes "log_ok l" "findCommit p (Snapshot l) = Inr (Some r)"
  shows "own_range l r"
proof -
  obtain s e where s: "foldE (step p) init (entries l) = Inr s" "found s = Some e"
    "r = one_result (headerID (logHeader l)) e"
    using assms(2) by (auto simp: find_scans [OF assms(1)] bindE_Inr_iff)
  then show ?thesis using one_result_own [OF assms(1) found_from_log] by blast
qed

lemma scan_after:
  assumes "wf p" "log_ok l" "findCommit p (Snapshot l) = Inr None" "build p (Snapshot l) = Inr ds"
    "commitBatch clock l ds = Inr (l', evs)"
  shows "findCommit p (Snapshot l') = Inr (Some (commit_result l l' evs))"
proof -
  obtain s where s: "guard p (headerID (logHeader l)) = Inr ()" "foldE (step p) init (entries l) = Inr s"
    "found s = None"
    using assms(3) by (auto simp: find_scans [OF assms(2)] bindE_Inr_iff)
  obtain d where d: "ds = [d]"
    "\<And>e. ValidateEvent d e = Inr () \<Longrightarrow> \<exists>s'. step p s e = Inr s' \<and> found s' = Some e"
    using build_step [OF assms(1,2) s(2,3) assms(4)] by blast
  obtain e where e: "evs = [e]" "entries l' = entries l @ [e]" "ValidateEvent d e = Inr ()"
    "evSeq e = int (length (entries l))" "logHeader l' = logHeader l"
    using commitBatch_entries [OF assms(5)] d(1) by (cases evs) auto
  obtain s' where s': "step p s e = Inr s'" "found s' = Some e" using d(2) [OF e(3)] by blast
  have ok': "log_ok l'" using commitBatch_ok assms(2,5) by blast
  have "findCommit p (Snapshot l') = Inr (Some (one_result (headerID (logHeader l)) e))"
    using s s' by (simp add: find_scans [OF ok'] e(2,5) foldE_append)
  then show ?thesis using commit_result_range [OF assms(5)] e by (simp add: one_result_def)
qed

lemma unseen_scan: "list_all (unseen p) es \<Longrightarrow> \<exists>s'. foldE (step p) s es = Inr s' \<and> found s' = found s"
proof (induction es arbitrary: s)
  case (Cons e es)
  then obtain t where t: "step p s e = Inr t" "found t = found s" by (auto simp: unseen_def)
  with Cons.IH [of t] Cons.prems show ?case by auto
qed simp

lemma scan_stable:
  assumes "log_ok l" "log_ok l'" "logHeader l' = logHeader l" "entries l' = entries l @ es"
    "list_all (unseen p) es" "findCommit p (Snapshot l) = Inr (Some r)"
  shows "findCommit p (Snapshot l') = Inr (Some r)"
proof -
  obtain s e where s: "guard p (headerID (logHeader l)) = Inr ()" "foldE (step p) init (entries l) = Inr s"
    "found s = Some e" "r = one_result (headerID (logHeader l)) e"
    using assms(6) by (auto simp: find_scans [OF assms(1)] bindE_Inr_iff)
  obtain s' where "foldE (step p) s es = Inr s'" "found s' = found s" using unseen_scan [OF assms(5)] by blast
  with s show ?thesis by (simp add: find_scans [OF assms(2)] assms(3,4) foldE_append)
qed

end

sublocale scanned_write \<subseteq> stable_write wf build findCommit unseen
  by unfold_locales (blast intro: scan_own scan_after scan_stable)+

section \<open>The three facts are idempotent writes\<close>

text \<open>The facts the code constructs: the draft carries the payload of the identity.\<close>

definition wf_turn_start :: "turn_start_fact \<Rightarrow> bool" where
  "wf_turn_start p =
     (draftType (beginDraft p) = ''turn/start'' \<and> unmarshal_turn (draftData (beginDraft p)) = Inr (beginNumber p))"

definition wf_turn_end :: "turn_end_fact \<Rightarrow> bool" where
  "wf_turn_end p =
     (draftType (finalDraft p) = ''turn/end'' \<and> draftData (finalDraft p) = finalPayload p \<and>
      unmarshal_turn (finalPayload p) = Inr (finalNumber p))"

definition wf_end_step :: "end_step_fact \<Rightarrow> bool" where
  "wf_end_step p =
     (draftType (closeDraft p) = ''step/end'' \<and>
      unmarshal_position (draftData (closeDraft p)) = Inr (closePosition p))"

definition start_guard :: "turn_start_fact \<Rightarrow> string \<Rightarrow> unit res" where
  "start_guard p session =
     failIf (beginSession p = [] \<or> beginNumber p \<le> 0 \<or> session \<noteq> beginSession p)
       (err ''agentloop: Turn start requires its complete Session snapshot'')"

definition end_guard :: "turn_end_fact \<Rightarrow> string \<Rightarrow> unit res" where
  "end_guard p session =
     failIf (finalSession p = [] \<or> finalNumber p \<le> 0 \<or> finalPayload p = Absent \<or> session \<noteq> finalSession p)
       (err ''agentloop: Turn end requires its owning Session snapshot'')"

definition step_guard :: "end_step_fact \<Rightarrow> string \<Rightarrow> unit res" where
  "step_guard p session =
     failIf (closeSession p = [] \<or> posTurn (closePosition p) \<le> 0 \<or> posStep (closePosition p) \<le> 0 \<or>
             session \<noteq> closeSession p)
       (err ''agentloop: Step end requires its complete Session snapshot'')"

definition any_end_step :: "turn_end_fact \<Rightarrow> event option \<Rightarrow> event \<Rightarrow> event option res" where
  "any_end_step p found e = turn_end_step p (evSeq e + 1) found e"

lemma any_end_step_eq: "0 \<le> evSeq e \<Longrightarrow> evSeq e < n \<Longrightarrow> turn_end_step p n s e = any_end_step p s e"
proof -
  assume "0 \<le> evSeq e" "evSeq e < n"
  then have "(evSeq e < 0) = False" "(evSeq e \<ge> n) = False" by auto
  then show ?thesis by (simp add: turn_end_step_def any_end_step_def cong: if_cong)
qed

lemma ValidateEvent_copies:
  "ValidateEvent d e = Inr () \<Longrightarrow> evType e = draftType d \<and> evData e = draftData d \<and> 0 \<le> evSeq e"
  by (simp add: ValidateEvent_Inr isSafeNonNegative_def)

interpretation turn_start_write: scanned_write wf_turn_start turn_start_drafts turn_start_find start_guard
  turn_start_step None "\<lambda>s :: event option. s"
proof unfold_locales
  fix l p
  assume "log_ok l"
  then show "turn_start_find p (Snapshot l) =
      bindE (start_guard p (headerID (logHeader l))) (\<lambda>_.
      bindE (foldE (turn_start_step p) None (entries l)) (\<lambda>s.
      Inr (map_option (one_result (headerID (logHeader l))) s)))"
    by (simp add: turn_start_find_def start_guard_def scan_log failIf_def)
next
  fix p e and s s' :: "event option"
  assume "turn_start_step p s e = Inr s'"
  then show "s' = s \<or> s' = Some e" by (auto simp: turn_start_step_def bindE_Inr_iff split: if_splits)
next
  fix p l ds and s :: "event option"
  assume wf: "wf_turn_start p" and s: "s = None" and ds: "turn_start_drafts p (Snapshot l) = Inr ds"
  have "turn_start_step p s e = Inr (Some e)" if "ValidateEvent (beginDraft p) e = Inr ()" for e
    using wf s that ValidateEvent_copies [OF that] by (simp add: turn_start_step_def wf_turn_start_def)
  with ds show "\<exists>d. ds = [d] \<and> (\<forall>e. ValidateEvent d e = Inr () \<longrightarrow>
      (\<exists>s'. turn_start_step p s e = Inr s' \<and> s' = Some e))"
    by (auto simp: turn_start_drafts_def bindE_Inr_iff)
qed simp

interpretation turn_end_write: scanned_write wf_turn_end turn_end_drafts turn_end_find end_guard
  any_end_step None "\<lambda>s :: event option. s"
proof unfold_locales
  fix l p
  assume ok: "log_ok l"
  have "foldE (turn_end_step p (int (length (entries l)))) None (entries l) =
      foldE (any_end_step p) None (entries l)"
    by (rule foldE_cong) (use log_seq_range [OF ok] any_end_step_eq in auto)
  then show "turn_end_find p (Snapshot l) =
      bindE (end_guard p (headerID (logHeader l))) (\<lambda>_.
      bindE (foldE (any_end_step p) None (entries l)) (\<lambda>s.
      Inr (map_option (one_result (headerID (logHeader l))) s)))"
    by (simp add: turn_end_find_def end_guard_def scan_log ok failIf_def foldE_unit)
next
  fix p e and s s' :: "event option"
  assume "any_end_step p s e = Inr s'"
  then show "s' = s \<or> s' = Some e"
    by (auto simp: any_end_step_def turn_end_step_def bindE_Inr_iff split: if_splits)
next
  fix p l ds and s :: "event option"
  assume wf: "wf_turn_end p" and s: "s = None" and ds: "turn_end_drafts p (Snapshot l) = Inr ds"
  have "any_end_step p s e = Inr (Some e)" if "ValidateEvent (finalDraft p) e = Inr ()" for e
    using wf s that ValidateEvent_copies [OF that] by (simp add: any_end_step_def turn_end_step_def wf_turn_end_def)
  with ds show "\<exists>d. ds = [d] \<and> (\<forall>e. ValidateEvent d e = Inr () \<longrightarrow>
      (\<exists>s'. any_end_step p s e = Inr s' \<and> s' = Some e))"
    by (auto simp: turn_end_drafts_def bindE_Inr_iff)
qed simp

interpretation end_step_write: scanned_write wf_end_step end_step_drafts end_step_find step_guard
  end_step_step "\<lparr>scanPrevious = None, scanStarted = False, scanOpen = False\<rparr>" scanPrevious
proof unfold_locales
  fix l p
  assume "log_ok l"
  then show "end_step_find p (Snapshot l) =
      bindE (step_guard p (headerID (logHeader l))) (\<lambda>_.
      bindE (foldE (end_step_step p) \<lparr>scanPrevious = None, scanStarted = False, scanOpen = False\<rparr> (entries l)) (\<lambda>s.
      Inr (map_option (one_result (headerID (logHeader l))) (scanPrevious s))))"
    by (simp add: end_step_find_def end_step_inspect_def step_guard_def scan_log failIf_def bindE_assoc)
next
  fix p s e s'
  assume "end_step_step p s e = Inr s'"
  then show "scanPrevious s' = scanPrevious s \<or> scanPrevious s' = Some e"
    by (auto simp: end_step_step_def bindE_Inr_iff Let_def split: if_splits)
next
  fix p l s ds
  assume wf: "wf_end_step p" and ok: "log_ok l" and s: "scanPrevious s = None"
    and scan: "foldE (end_step_step p) \<lparr>scanPrevious = None, scanStarted = False, scanOpen = False\<rparr> (entries l) = Inr s"
    and ds: "end_step_drafts p (Snapshot l) = Inr ds"
  have o: "scanOpen s" "ds = [closeDraft p]"
    using ds scan by (auto simp: end_step_drafts_def end_step_inspect_def scan_log ok bindE_Inr_iff failIf_Inr)
  have "end_step_step p s e = Inr (s\<lparr>scanPrevious := Some e, scanOpen := False\<rparr>)"
    if "ValidateEvent (closeDraft p) e = Inr ()" for e
    using wf s o(1) that ValidateEvent_copies [OF that] by (simp add: end_step_step_def wf_end_step_def)
  with o(2) show "\<exists>d. ds = [d] \<and> (\<forall>e. ValidateEvent d e = Inr () \<longrightarrow>
      (\<exists>s'. end_step_step p s e = Inr s' \<and> scanPrevious s' = Some e))"
    by fastforce
qed simp

text \<open>Events that a retry of the same boundary passes over.\<close>

lemma unseen_boundaries:
  "evType e \<noteq> ''turn/start'' \<Longrightarrow> turn_start_write.unseen p e"
  "evType e \<noteq> ''turn/end'' \<Longrightarrow> turn_end_write.unseen q e"
  "evType e \<noteq> ''step/start'' \<Longrightarrow> evType e \<noteq> ''step/end'' \<Longrightarrow> end_step_write.unseen r e"
  by (auto simp: turn_start_write.unseen_def turn_end_write.unseen_def end_step_write.unseen_def
      turn_start_step_def any_end_step_def turn_end_step_def end_step_step_def Let_def)

end
