(* ===== verification/Steps.thy ===== *)
theory Steps
  imports Turns "HOL-Library.Sublist"
begin

text \<open>
  One step of a turn (\<open>src/agentloop/internal/step/step.go\<close>, \<open>step_events.go\<close>,
  \<open>step_input.go\<close>): the captured input, the acknowledged start, the admitted messages that
  are committed one by one, the model and tool phases, and the acknowledged end.

  The prompt of a step is a value of any type with the copy function of its package, a
  parameter of \<open>Capture\<close> and \<open>InputValue\<close>; the step only keeps it.
\<close>

section \<open>State\<close>

datatype step_state = StepProposed | StepOpen | StepRequesting | StepTooling | StepSettling | StepClosed

datatype step_result =
    StepResultNone
  | StepResultContinue
  | StepResultCompleted
  | StepResultMaxTokens
  | StepResultError
  | StepResultAborted

record 'p step_input =
  inputMessages :: "message_value list"
  inputPrompt :: 'p

record 'p step =
  inputOffset :: nat
  lastInputSeq :: int
  stepInput :: "'p step_input option"
  stepPosition :: step_position
  stepState :: step_state
  stepConclusion :: step_result

fun step_state_code :: "step_state \<Rightarrow> int" where
  "step_state_code StepProposed = 0"
| "step_state_code StepOpen = 1"
| "step_state_code StepRequesting = 2"
| "step_state_code StepTooling = 3"
| "step_state_code StepSettling = 4"
| "step_state_code StepClosed = 5"

fun step_result_code :: "step_result \<Rightarrow> int" where
  "step_result_code StepResultNone = 0"
| "step_result_code StepResultContinue = 1"
| "step_result_code StepResultCompleted = 2"
| "step_result_code StepResultMaxTokens = 3"
| "step_result_code StepResultError = 4"
| "step_result_code StepResultAborted = 5"

definition NewStep :: "int \<Rightarrow> int \<Rightarrow> 'p step res" where
  "NewStep t s =
     (if t \<le> 0 \<or> s \<le> 0 \<or> t > maxNumber \<or> s > maxNumber
      then Inl (err ''agentloop step: position must contain positive safe integers'')
      else Inr \<lparr>inputOffset = 0, lastInputSeq = 0, stepInput = None, stepPosition = \<lparr>posTurn = t, posStep = s\<rparr>,
                stepState = StepProposed, stepConclusion = StepResultNone\<rparr>)"

definition on_step :: "'p step option \<Rightarrow> ('p step \<Rightarrow> 'a res) \<Rightarrow> 'a res" where
  "on_step current f = (case current of None \<Rightarrow> Inl (err ''agentloop step: Step is nil'') | Some s \<Rightarrow> f s)"

definition transitionError_step :: "'p step \<Rightarrow> string \<Rightarrow> goerr" where
  "transitionError_step s action =
     Errorf ''agentloop step: cannot %s from state %d'' [AStr action, AInt (step_state_code (stepState s))]"

section \<open>Input\<close>

definition copyInput :: "('p \<Rightarrow> 'p res) \<Rightarrow> 'p step_input \<Rightarrow> 'p step_input res" where
  "copyInput clonePrompt provided =
     bindE (clonePrompt (inputPrompt provided)) (\<lambda>p.
     bindE (mapE CloneUserMessage (inputMessages provided)) (\<lambda>ms.
     Inr \<lparr>inputMessages = ms, inputPrompt = p\<rparr>))"

definition Capture :: "('p \<Rightarrow> 'p res) \<Rightarrow> 'p step_input \<Rightarrow> 'p step \<Rightarrow> 'p step res" where
  "Capture clonePrompt provided s =
     (if stepState s \<noteq> StepProposed \<or> stepInput s \<noteq> None
      then Inl (err ''agentloop step: input can only be captured once before opening'')
      else bindE (copyInput clonePrompt provided) (\<lambda>detached. Inr (s\<lparr>stepInput := Some detached\<rparr>)))"

definition InputValue :: "('p \<Rightarrow> 'p res) \<Rightarrow> 'p step \<Rightarrow> 'p step_input res" where
  "InputValue clonePrompt s =
     (case stepInput s of
        None \<Rightarrow> Inl (err ''agentloop step: input has not been captured'')
      | Some i \<Rightarrow> copyInput clonePrompt i)"

section \<open>Boundary and message drafts\<close>

definition StartDraft_step :: "'p step option \<Rightarrow> event_draft res" where
  "StartDraft_step current = on_step current (\<lambda>s.
     if stepState s \<noteq> StepProposed then Inl (transitionError_step s ''prepare start'')
     else NewEventDraft ''step/start'' (marshal_position (stepPosition s)) False)"

definition MessageDraft :: "'p step option \<Rightarrow> event_draft option res" where
  "MessageDraft current = on_step current (\<lambda>s.
     case stepInput s of
       None \<Rightarrow> Inl (transitionError_step s ''prepare input'')
     | Some i \<Rightarrow>
         if stepState s \<noteq> StepOpen then Inl (transitionError_step s ''prepare input'')
         else if inputOffset s = length (inputMessages i) then Inr None
         else bindE (NewSurfaceEventDraft ''user/message'' (marshal_message (inputMessages i ! inputOffset s))
                       SurfaceAppend None False) (\<lambda>d. Inr (Some d)))"

definition EndDraft_step :: "'p step option \<Rightarrow> event_draft res" where
  "EndDraft_step current = on_step current (\<lambda>s.
     if stepState s \<noteq> StepSettling then Inl (transitionError_step s ''prepare end'')
     else NewEventDraft ''step/end'' (marshal_position (stepPosition s)) False)"

section \<open>Transitions\<close>

definition ConfirmStart :: "event \<Rightarrow> 'p step option \<Rightarrow> 'p step res" where
  "ConfirmStart committed current = on_step current (\<lambda>s.
     if stepState s \<noteq> StepProposed \<or> stepInput s = None then Inl (transitionError_step s ''confirm start'')
     else
       bindE (StartDraft_step current) (\<lambda>draft.
       bindE (ValidateEvent draft committed) (\<lambda>_.
       Inr (s\<lparr>lastInputSeq := evSeq committed, stepState := StepOpen\<rparr>))))"

definition ConfirmMessage :: "write_result \<Rightarrow> 'p step option \<Rightarrow> 'p step res" where
  "ConfirmMessage write current =
     bindE (MessageDraft current) (\<lambda>draft.
     case draft of
       None \<Rightarrow> Inl (err ''agentloop step: all admitted messages already committed'')
     | Some d \<Rightarrow> on_step current (\<lambda>s.
         case resultEvents write of
           [e] \<Rightarrow>
             if firstSeq write \<le> lastInputSeq s \<or> evSeq e \<noteq> firstSeq write \<or> nextSeq write \<noteq> firstSeq write + 1 \<or>
                barrierNext (resultBarrier write) \<noteq> nextSeq write
             then Inl (err ''agentloop step: invalid input commit acknowledgement'')
             else
               bindE (ValidateEvent d e) (\<lambda>_.
               Inr (s\<lparr>lastInputSeq := firstSeq write, inputOffset := Suc (inputOffset s)\<rparr>))
         | _ \<Rightarrow> Inl (err ''agentloop step: invalid input commit acknowledgement'')))"

definition EnterRequesting :: "'p step option \<Rightarrow> 'p step res" where
  "EnterRequesting current = on_step current (\<lambda>s.
     if stepState s \<noteq> StepOpen then Inl (transitionError_step s ''enter requesting'')
     else if (case stepInput s of None \<Rightarrow> True | Some i \<Rightarrow> inputOffset s \<noteq> length (inputMessages i))
     then Inl (err ''agentloop step: admitted input has not fully committed'')
     else Inr (s\<lparr>stepState := StepRequesting\<rparr>))"

definition EnterTooling :: "'p step option \<Rightarrow> 'p step res" where
  "EnterTooling current = on_step current (\<lambda>s.
     if stepState s \<noteq> StepRequesting then Inl (transitionError_step s ''enter tooling'')
     else Inr (s\<lparr>stepState := StepTooling\<rparr>))"

definition EnterSettling_step :: "step_result \<Rightarrow> 'p step option \<Rightarrow> 'p step res" where
  "EnterSettling_step result current = on_step current (\<lambda>s.
     if stepState s \<noteq> StepOpen \<and> stepState s \<noteq> StepRequesting \<and> stepState s \<noteq> StepTooling
     then Inl (transitionError_step s ''enter settling'')
     else if result = StepResultNone
     then Inl (Errorf ''agentloop step: invalid settlement outcome %d'' [AInt (step_result_code result)])
     else Inr (s\<lparr>stepConclusion := result, stepState := StepSettling\<rparr>))"

definition ConfirmEnd :: "event \<Rightarrow> 'p step option \<Rightarrow> 'p step res" where
  "ConfirmEnd committed current = on_step current (\<lambda>s.
     bindE (EndDraft_step current) (\<lambda>draft.
     bindE (ValidateEvent draft committed) (\<lambda>_.
     if evSeq committed \<le> lastInputSeq s
     then Inl (err ''agentloop step: end precedes its start or committed input'')
     else Inr (s\<lparr>stepState := StepClosed\<rparr>))))"

text \<open>What a closed step means for its turn (\<open>ResultFromStep\<close>).\<close>

fun ResultFromStep :: "step_result \<Rightarrow> turn_result" where
  "ResultFromStep StepResultContinue = TurnResultContinue"
| "ResultFromStep StepResultCompleted = TurnResultCompleted"
| "ResultFromStep StepResultMaxTokens = TurnResultMaxTokens"
| "ResultFromStep StepResultAborted = TurnResultAborted"
| "ResultFromStep StepResultError = TurnResultError"
| "ResultFromStep StepResultNone = TurnResultError"

section \<open>Runs of a step\<close>

datatype step_op =
    OpConfirmStart event
  | OpConfirmMessage write_result
  | OpRequesting
  | OpTooling
  | OpSettle step_result
  | OpConfirmEnd event

fun step_apply :: "step_op \<Rightarrow> 'p step \<Rightarrow> 'p step res" where
  "step_apply (OpConfirmStart e) s = ConfirmStart e (Some s)"
| "step_apply (OpConfirmMessage w) s = ConfirmMessage w (Some s)"
| "step_apply OpRequesting s = EnterRequesting (Some s)"
| "step_apply OpTooling s = EnterTooling (Some s)"
| "step_apply (OpSettle r) s = EnterSettling_step r (Some s)"
| "step_apply (OpConfirmEnd e) s = ConfirmEnd e (Some s)"

text \<open>A step with its captured input, and the accepted transitions since.\<close>

inductive step_run :: "step_position \<Rightarrow> 'p step_input \<Rightarrow> step_op list \<Rightarrow> 'p step \<Rightarrow> bool" for q i where
  captured: "NewStep (posTurn q) (posStep q) = Inr s \<Longrightarrow> step_run q i [] (s\<lparr>stepInput := Some i\<rparr>)"
| accepted: "step_run q i ops s \<Longrightarrow> step_apply op s = Inr s' \<Longrightarrow> step_run q i (ops @ [op]) s'"

text \<open>The events a run acknowledged.\<close>

fun op_events :: "step_op \<Rightarrow> event list" where
  "op_events (OpConfirmStart e) = [e]"
| "op_events (OpConfirmMessage w) = resultEvents w"
| "op_events (OpConfirmEnd e) = [e]"
| "op_events op = []"

definition acknowledged :: "step_op list \<Rightarrow> event list" where
  "acknowledged ops = concat (map op_events ops)"

section \<open>What an accepted transition does\<close>

definition position_draft :: "string \<Rightarrow> step_position \<Rightarrow> event_draft" where
  "position_draft n q =
     \<lparr>draftType = n, draftData = Doc (JObj [(''turn'', jint (posTurn q)), (''step'', jint (posStep q))]),
      draftSources = None, draftSurfaceOp = None, draftIgnorable = False\<rparr>"

definition input_draft :: "message_value \<Rightarrow> event_draft res" where
  "input_draft m = NewSurfaceEventDraft ''user/message'' (marshal_message m) SurfaceAppend None False"

lemma position_draft_Inr:
  "NewEventDraft n (marshal_position q) False = Inr d \<Longrightarrow> d = position_draft n q"
  by (auto simp: NewEventDraft_Inr marshal_position_def position_draft_def)

lemma ConfirmStart_Inr:
  assumes "ConfirmStart e (Some s) = Inr s'"
  shows "stepState s = StepProposed \<and> stepInput s \<noteq> None \<and>
    ValidateEvent (position_draft ''step/start'' (stepPosition s)) e = Inr () \<and>
    s' = s\<lparr>lastInputSeq := evSeq e, stepState := StepOpen\<rparr>"
  using assms by (auto simp: ConfirmStart_def StartDraft_step_def on_step_def bindE_Inr_iff
      dest!: position_draft_Inr split: if_splits)

lemma ConfirmEnd_Inr:
  assumes "ConfirmEnd e (Some s) = Inr s'"
  shows "stepState s = StepSettling \<and> ValidateEvent (position_draft ''step/end'' (stepPosition s)) e = Inr () \<and>
    lastInputSeq s < evSeq e \<and> s' = s\<lparr>stepState := StepClosed\<rparr>"
  using assms by (auto simp: ConfirmEnd_def EndDraft_step_def on_step_def bindE_Inr_iff
      dest!: position_draft_Inr split: if_splits)

lemma MessageDraft_Some:
  "MessageDraft (Some s) = Inr (Some d) \<longleftrightarrow>
   (\<exists>i. stepInput s = Some i \<and> stepState s = StepOpen \<and> inputOffset s \<noteq> length (inputMessages i) \<and>
      input_draft (inputMessages i ! inputOffset s) = Inr d)"
  by (auto simp: MessageDraft_def on_step_def input_draft_def bindE_Inr_iff split: option.splits)

lemma ConfirmMessage_Inr:
  assumes "ConfirmMessage w (Some s) = Inr s'"
  shows "\<exists>i d e. stepState s = StepOpen \<and> stepInput s = Some i \<and> inputOffset s \<noteq> length (inputMessages i) \<and>
    input_draft (inputMessages i ! inputOffset s) = Inr d \<and> resultEvents w = [e] \<and> ValidateEvent d e = Inr () \<and>
    lastInputSeq s < evSeq e \<and> s' = s\<lparr>lastInputSeq := evSeq e, inputOffset := Suc (inputOffset s)\<rparr>"
proof -
  obtain d where d: "MessageDraft (Some s) = Inr (Some d)"
    using assms by (auto simp: ConfirmMessage_def bindE_Inr_iff split: option.splits)
  then obtain e where "resultEvents w = [e]"
    using assms by (auto simp: ConfirmMessage_def on_step_def split: list.splits)
  with assms d have "ValidateEvent d e = Inr () \<and> lastInputSeq s < evSeq e \<and>
      s' = s\<lparr>lastInputSeq := evSeq e, inputOffset := Suc (inputOffset s)\<rparr>"
    by (auto simp: ConfirmMessage_def on_step_def bindE_Inr_iff split: if_splits)
  with d \<open>resultEvents w = [e]\<close> show ?thesis unfolding MessageDraft_Some by blast
qed

lemma step_phase_Inr:
  "EnterRequesting (Some s) = Inr s' \<longleftrightarrow> stepState s = StepOpen \<and>
     (\<exists>i. stepInput s = Some i \<and> inputOffset s = length (inputMessages i)) \<and> s' = s\<lparr>stepState := StepRequesting\<rparr>"
  "EnterTooling (Some s) = Inr s' \<longleftrightarrow> stepState s = StepRequesting \<and> s' = s\<lparr>stepState := StepTooling\<rparr>"
  "EnterSettling_step r (Some s) = Inr s' \<longleftrightarrow> stepState s \<in> {StepOpen, StepRequesting, StepTooling} \<and>
     r \<noteq> StepResultNone \<and> s' = s\<lparr>stepConclusion := r, stepState := StepSettling\<rparr>"
  by (auto simp: EnterRequesting_def EnterTooling_def EnterSettling_step_def on_step_def
      split: option.splits if_splits)

section \<open>The invariant of a step\<close>

definition step_ok :: "step_position \<Rightarrow> 'p step_input \<Rightarrow> 'p step \<Rightarrow> bool" where
  "step_ok q i s =
     (stepPosition s = q \<and> stepInput s = Some i \<and> inputOffset s \<le> length (inputMessages i) \<and>
      (stepState s = StepProposed \<longrightarrow> inputOffset s = 0) \<and>
      (stepState s \<in> {StepRequesting, StepTooling} \<longrightarrow> inputOffset s = length (inputMessages i)) \<and>
      (stepState s \<in> {StepSettling, StepClosed} \<longleftrightarrow> stepConclusion s \<noteq> StepResultNone))"

lemma step_apply_ok:
  assumes "step_apply op s = Inr s'" "step_ok q i s"
  shows "step_ok q i s'"
proof (cases op)
  case (OpConfirmStart e)
  with ConfirmStart_Inr [of e s s'] assms show ?thesis by (simp add: step_ok_def)
next
  case (OpConfirmMessage w)
  with ConfirmMessage_Inr [of w s s'] assms show ?thesis by (auto simp: step_ok_def)
next
  case (OpConfirmEnd e)
  with ConfirmEnd_Inr [of e s s'] assms show ?thesis by (auto simp: step_ok_def)
qed (use assms in \<open>auto simp: step_ok_def step_phase_Inr\<close>)

lemma step_run_ok: "step_run q i ops s \<Longrightarrow> step_ok q i s"
proof (induction rule: step_run.induct)
  case (captured s)
  then show ?case by (cases q) (auto simp: NewStep_def step_ok_def split: if_splits)
qed (rule step_apply_ok)

lemma step_run_requested:
  "step_run q i ops s \<Longrightarrow> OpRequesting \<in> set ops \<Longrightarrow>
   inputOffset s = length (inputMessages i) \<and> stepState s \<noteq> StepProposed \<and> stepState s \<noteq> StepOpen"
proof (induction rule: step_run.induct)
  case (accepted ops s op s')
  have ok: "step_ok q i s" by (rule step_run_ok [OF accepted(1)])
  show ?case
  proof (cases op)
    case (OpConfirmStart e)
    with accepted ConfirmStart_Inr [of e s s'] show ?thesis by auto
  next
    case (OpConfirmMessage w)
    with accepted ConfirmMessage_Inr [of w s s'] show ?thesis by auto
  next
    case (OpConfirmEnd e)
    with accepted ConfirmEnd_Inr [of e s s'] show ?thesis by auto
  qed (use accepted ok in \<open>auto simp: step_phase_Inr step_ok_def\<close>)
qed simp

text \<open>
  What a run acknowledged, by its state: nothing, then the start and the first messages of
  the input in order, and at the end the end event.
\<close>

definition ack_ok :: "step_position \<Rightarrow> 'p step_input \<Rightarrow> 'p step \<Rightarrow> event list \<Rightarrow> bool" where
  "ack_ok q i s evs =
     (\<exists>es ds. sorted_wrt (<) (map evSeq evs) \<and>
        mapE input_draft (take (inputOffset s) (inputMessages i)) = Inr ds \<and>
        (if stepState s = StepProposed then evs = []
         else \<exists>e0 rest. evs = e0 # es @ rest \<and>
           ValidateEvent (position_draft ''step/start'' q) e0 = Inr () \<and>
           list_all2 (\<lambda>d e. ValidateEvent d e = Inr ()) ds es \<and>
           (if stepState s = StepClosed
            then \<exists>e1. rest = [e1] \<and> ValidateEvent (position_draft ''step/end'' q) e1 = Inr ()
            else rest = [] \<and> lastInputSeq s = evSeq (last evs))))"

lemma mapE_append: "mapE f (xs @ ys) = bindE (mapE f xs) (\<lambda>as. bindE (mapE f ys) (\<lambda>bs. Inr (as @ bs)))"
proof (induction xs)
  case Nil
  show ?case by (cases "mapE f ys") simp_all
next
  case (Cons x xs)
  then show ?case by (cases "f x"; cases "mapE f xs"; cases "mapE f ys") simp_all
qed

lemma sorted_wrt_snoc_last:
  "sorted_wrt (<) (map evSeq evs) \<Longrightarrow> evs \<noteq> [] \<Longrightarrow> evSeq (last evs) < evSeq e \<Longrightarrow>
   sorted_wrt (<) (map evSeq (evs @ [e]))"
proof -
  assume s: "sorted_wrt (<) (map evSeq evs)" and n: "evs \<noteq> []" and l: "evSeq (last evs) < evSeq e"
  have "evSeq x < evSeq e" if "x \<in> set evs" for x
  proof -
    obtain ys where ys: "evs = ys @ [last evs]" using n by (metis append_butlast_last_id)
    have "sorted_wrt (<) (map evSeq ys @ [evSeq (last evs)])" using s ys by (metis list.simps(8,9) map_append)
    then have "x \<in> set ys \<Longrightarrow> evSeq x < evSeq (last evs)" by (auto simp: sorted_wrt_append)
    with that ys l show ?thesis by (metis Un_iff empty_iff insert_iff list.set(1,2) order.strict_trans set_append)
  qed
  with s show ?thesis by (auto simp: sorted_wrt_append)
qed

lemma ack_start:
  assumes "ack_ok q i s evs" "step_ok q i s" "ConfirmStart e (Some s) = Inr s'"
  shows "ack_ok q i s' (evs @ [e])"
proof -
  note c = ConfirmStart_Inr [OF assms(3)]
  from assms(1) c have "evs = []" by (auto simp: ack_ok_def)
  moreover have "inputOffset s = 0" using assms(2) c by (simp add: step_ok_def)
  ultimately show ?thesis using c assms(2) by (auto simp: ack_ok_def step_ok_def)
qed

lemma ack_message:
  assumes "ack_ok q i s evs" "step_ok q i s" "ConfirmMessage w (Some s) = Inr s'"
  shows "ack_ok q i s' (evs @ resultEvents w)"
proof -
  obtain d e where c: "stepState s = StepOpen" "inputOffset s \<noteq> length (inputMessages i)"
    "input_draft (inputMessages i ! inputOffset s) = Inr d" "resultEvents w = [e]" "ValidateEvent d e = Inr ()"
    "lastInputSeq s < evSeq e" "s' = s\<lparr>lastInputSeq := evSeq e, inputOffset := Suc (inputOffset s)\<rparr>"
    using ConfirmMessage_Inr [OF assms(3)] assms(2) by (auto simp: step_ok_def)
  obtain ds e0 es where a: "sorted_wrt (<) (map evSeq evs)"
    "mapE input_draft (take (inputOffset s) (inputMessages i)) = Inr ds" "evs = e0 # es"
    "ValidateEvent (position_draft ''step/start'' q) e0 = Inr ()"
    "list_all2 (\<lambda>d e. ValidateEvent d e = Inr ()) ds es" "lastInputSeq s = evSeq (last evs)"
    using assms(1) c(1) by (auto simp: ack_ok_def)
  have k: "inputOffset s < length (inputMessages i)" using assms(2) c(2) by (simp add: step_ok_def)
  have "mapE input_draft (take (Suc (inputOffset s)) (inputMessages i)) = Inr (ds @ [d])"
    using a(2) c(3) by (simp add: take_Suc_conv_app_nth [OF k] mapE_append)
  moreover have "sorted_wrt (<) (map evSeq (evs @ [e]))"
    using sorted_wrt_snoc_last [of evs e] a c(6) by simp
  moreover have "list_all2 (\<lambda>d e. ValidateEvent d e = Inr ()) (ds @ [d]) (es @ [e])"
    using a(5) c(5) by (simp add: list_all2_appendI)
  ultimately show ?thesis
    using a(3,4) c(1,4,7) unfolding ack_ok_def
    by (intro exI [of _ "es @ [e]"] exI [of _ "ds @ [d]"]) simp
qed

lemma ack_end:
  assumes "ack_ok q i s evs" "step_ok q i s" "ConfirmEnd e (Some s) = Inr s'"
  shows "ack_ok q i s' (evs @ [e])"
proof -
  note c = ConfirmEnd_Inr [OF assms(3)]
  obtain ds e0 es where a: "sorted_wrt (<) (map evSeq evs)"
    "mapE input_draft (take (inputOffset s) (inputMessages i)) = Inr ds" "evs = e0 # es"
    "ValidateEvent (position_draft ''step/start'' q) e0 = Inr ()"
    "list_all2 (\<lambda>d e. ValidateEvent d e = Inr ()) ds es" "lastInputSeq s = evSeq (last evs)"
    using assms(1) c by (auto simp: ack_ok_def)
  have "sorted_wrt (<) (map evSeq (evs @ [e]))"
    using sorted_wrt_snoc_last [of evs e] a c by simp
  with a c assms(2) show ?thesis
    unfolding ack_ok_def by (intro exI [of _ es] exI [of _ ds]) (simp add: step_ok_def)
qed

lemma ack_phase:
  assumes "ack_ok q i s evs" "stepState s \<notin> {StepProposed, StepClosed}" "st \<notin> {StepProposed, StepClosed}"
  shows "ack_ok q i (s\<lparr>stepState := st\<rparr>) evs" "ack_ok q i (s\<lparr>stepConclusion := r, stepState := st\<rparr>) evs"
  using assms unfolding ack_ok_def by auto

lemma step_run_acknowledged: "step_run q i ops s \<Longrightarrow> ack_ok q i s (acknowledged ops)"
proof (induction rule: step_run.induct)
  case (captured s)
  then show ?case by (auto simp: NewStep_def ack_ok_def acknowledged_def split: if_splits)
next
  case (accepted ops s op s')
  note ok = step_run_ok [OF accepted(1)] and IH = accepted.IH
  have ack: "acknowledged (ops @ [x]) = acknowledged ops @ op_events x" for x by (simp add: acknowledged_def)
  show ?case
  proof (cases op)
    case (OpConfirmStart e)
    with ack_start [OF IH ok] accepted(2) show ?thesis by (simp add: ack)
  next
    case (OpConfirmMessage w)
    with ack_message [OF IH ok] accepted(2) show ?thesis by (simp add: ack)
  next
    case (OpConfirmEnd e)
    with ack_end [OF IH ok] accepted(2) show ?thesis by (simp add: ack)
  next
    case OpRequesting
    with accepted(2) ack_phase(1) [OF IH] show ?thesis by (auto simp: ack step_phase_Inr)
  next
    case OpTooling
    with accepted(2) ack_phase(1) [OF IH] show ?thesis by (auto simp: ack step_phase_Inr)
  next
    case (OpSettle r)
    with accepted(2) ack_phase(2) [OF IH] show ?thesis by (auto simp: ack step_phase_Inr)
  qed
qed

end
