(* ===== verification/AgentState.thy ===== *)
theory AgentState
  imports InboxEdits BoundaryWrites Steps
begin

text \<open>
  The state of one agent (\<open>src/agentloop/agent.go\<close>, \<open>agent_lifecycle.go\<close>) with its
  admission of input (\<open>agent_admission.go\<close>), the acknowledgement of commits
  (\<open>agent_commit.go\<close>) and the execution it reserves (\<open>agent_state.go\<close>).

  An operation that changes nothing before it can fail returns its result and the new
  state in one sum; the others return the state beside the sum.  The prompt of a step, the
  model request and the retained retry are values of any type.  A call on a nil inbox is a
  panic.
\<close>

section \<open>State\<close>

datatype lifecycle =
  Unrestored | Restored | Available | ClosingUninitialized | ClosingAvailable | Released

datatype execution_state = ExecutionIdle | ExecutionRunning | ExecutionMaintenance

datatype preparation_state = InputUnconfirmed | HooksPending | DecisionPending | ContextPending

record preparation =
  prepAfter :: int
  prepState :: preparation_state
  prepEdit :: inbox_edit
  prepClaimed :: "message_value list"
  prepMessages :: "message_value list"

record settlement =
  settleEvent :: turn_end_fact
  settleBarrier :: "write_barrier option"

record ('p, 'r, 'w) agent =
  inboxNext :: int
  modelRequest :: "'r option"
  preparing :: "preparation option"
  agentID :: string
  settling :: "settlement option"
  pendingInbox :: "inbox option"
  currentTurn :: "turn option"
  currentStep :: "'p step option"
  lastTurn :: int
  execution :: execution_state
  cancelCause :: "cancel_intent option"
  runAfterCompletion :: bool
  agentFailure :: "problem option"
  agentRetry :: "'w option"
  lifetime :: lifecycle
  headerLogged :: bool
  preserveInbox :: bool

text \<open>The zero value of the struct, and the value \<open>Release\<close> leaves.\<close>

definition new_agent :: "lifecycle \<Rightarrow> ('p, 'r, 'w) agent" where
  "new_agent phase =
     \<lparr>inboxNext = 0, modelRequest = None, preparing = None, agentID = [], settling = None, pendingInbox = None,
      currentTurn = None, currentStep = None, lastTurn = 0, execution = ExecutionIdle, cancelCause = None,
      runAfterCompletion = False, agentFailure = None, agentRetry = None, lifetime = phase,
      headerLogged = False, preserveInbox = False\<rparr>"

definition ErrPending :: goerr where
  "ErrPending = err ''agentloop: accepted input remains''"

definition ErrState :: goerr where
  "ErrState = err ''agentloop: operation is not valid in the current state''"

definition ErrClosing :: goerr where
  "ErrClosing = err ''agent: Agent or ancestor is closing''"

definition ErrBusy :: goerr where
  "ErrBusy = err ''agent: an activity is already running''"

definition ErrSteerUnavailable :: goerr where
  "ErrSteerUnavailable = err ''agent: current turn no longer accepts steering''"

definition ErrUninitialized :: goerr where
  "ErrUninitialized = err ''agentloop: Agent is not initialized''"

section \<open>Lifecycle\<close>

definition ready :: "lifecycle \<Rightarrow> bool" where
  "ready phase = (phase = Available \<or> phase = ClosingAvailable)"

fun checkAdmission :: "lifecycle \<Rightarrow> unit res" where
  "checkAdmission Available = Inr ()"
| "checkAdmission ClosingUninitialized = Inl ErrClosing"
| "checkAdmission ClosingAvailable = Inl ErrClosing"
| "checkAdmission Released = Inl ErrClosing"
| "checkAdmission phase = Inl ErrState"

fun beginClose :: "lifecycle \<Rightarrow> lifecycle" where
  "beginClose Unrestored = ClosingUninitialized"
| "beginClose Restored = ClosingUninitialized"
| "beginClose Available = ClosingAvailable"
| "beginClose phase = phase"

definition checkRelease :: "lifecycle \<Rightarrow> unit res" where
  "checkRelease phase =
     failIf (phase \<noteq> ClosingUninitialized \<and> phase \<noteq> ClosingAvailable \<and> phase \<noteq> Released) ErrState"

section \<open>Restoring and initialising\<close>

definition RestoreAgent :: "header \<Rightarrow> snapshot \<Rightarrow> ('p, 'r, 'w) agent \<Rightarrow> ('p, 'r, 'w) agent res" where
  "RestoreAgent md snap a =
     bindE (failIf (lifetime a \<noteq> Unrestored) ErrState) (\<lambda>_.
     bindE (failIf (barrierSession (snapBarrier snap) \<noteq> headerID md \<or>
                    barrierNext (snapBarrier snap) \<noteq> int (length (snapEvents snap)))
              (err ''agentloop: Session read identity mismatch'')) (\<lambda>_.
     bindE (NewInbox md (snapEvents snap)) (\<lambda>p.
     bindE (LastNumber (snapEvents snap)) (\<lambda>number.
     bindE (scan_events (err ''agentloop: recovery snapshot sequence is discontinuous'') (\<lambda>u e. Inr u) 0 ()
              (snapEvents snap)) (\<lambda>_.
     Inr (a\<lparr>inboxNext := barrierNext (snapBarrier snap), agentID := headerID md, pendingInbox := Some p,
            lastTurn := number, lifetime := Restored\<rparr>))))))"

definition InitializeAgent :: "('p, 'r, 'w) agent \<Rightarrow> ('p, 'r, 'w) agent res" where
  "InitializeAgent a =
     bindE (failIf (lifetime a \<noteq> Restored) ErrState) (\<lambda>_. Inr (a\<lparr>lifetime := Available\<rparr>))"

definition checkInboxMutation :: "('p, 'r, 'w) agent \<Rightarrow> unit res" where
  "checkInboxMutation a =
     failIf (case preparing a of None \<Rightarrow> False | Some p \<Rightarrow> prepState p = InputUnconfirmed) ErrState"

definition CheckExecution :: "('p, 'r, 'w) agent \<Rightarrow> unit res" where
  "CheckExecution a = bindE (checkAdmission (lifetime a)) (\<lambda>_. checkInboxMutation a)"

definition on_inbox :: "('p, 'r, 'w) agent \<Rightarrow> (inbox \<Rightarrow> 'b res) \<Rightarrow> 'b res" where
  "on_inbox a f =
     (case pendingInbox a of
        None \<Rightarrow> Inl (Panicked ''runtime error: invalid memory address or nil pointer dereference'')
      | Some p \<Rightarrow> f p)"

section \<open>The inbox of the agent\<close>

definition ReplaceInput :: "string \<Rightarrow> message_value \<Rightarrow> ('p, 'r, 'w) agent \<Rightarrow> inbox_edit res" where
  "ReplaceInput i input a =
     bindE (CheckExecution a) (\<lambda>_. on_inbox a (\<lambda>p. PrepareReplace p i input))"

definition RemoveInput :: "string \<Rightarrow> ('p, 'r, 'w) agent \<Rightarrow> inbox_edit res" where
  "RemoveInput i a =
     bindE (checkInboxMutation a) (\<lambda>_.
     bindE (failIf (\<not> ready (lifetime a) \<or> pendingInbox a = None) ErrUninitialized) (\<lambda>_.
     on_inbox a (\<lambda>p. PrepareRemove p i)))"

definition ApplyEvents ::
  "event list \<Rightarrow> ('p, 'r, 'w) agent \<Rightarrow> (('p, 'r, 'w) agent \<times> inbox_changes) res" where
  "ApplyEvents es a =
     (case pendingInbox a of
        None \<Rightarrow> Inl ErrUninitialized
      | Some p \<Rightarrow>
          if es \<noteq> [] \<and> evSeq (hd es) < inboxNext a then Inl ErrState
          else bindE (ApplyInbox p es) (\<lambda>(q, changes).
            Inr (a\<lparr>pendingInbox := Some q,
                   inboxNext := (if es \<noteq> [] then evSeq (last es) + 1 else inboxNext a)\<rparr>, changes)))"

fun check_drafts :: "int \<Rightarrow> event_draft list \<Rightarrow> event list \<Rightarrow> unit res" where
  "check_drafts seq [] es = Inr ()"
| "check_drafts seq (d # ds) [] = Inl (Panicked ''runtime error: index out of range'')"
| "check_drafts seq (d # ds) (e # es) =
     bindE (failIf (evSeq e \<noteq> seq) (err ''agentloop: commit sequence is discontinuous'')) (\<lambda>_.
     bindE (ValidateEvent d e) (\<lambda>_. check_drafts (seq + 1) ds es))"

definition checkCommit :: "event_draft list \<Rightarrow> write_result \<Rightarrow> ('p, 'r, 'w) agent \<Rightarrow> unit res" where
  "checkCommit drafts write a =
     bindE (failIf (barrierSession (resultBarrier write) \<noteq> agentID a \<or> firstSeq write < 0 \<or>
                    nextSeq write \<noteq> firstSeq write + int (length drafts) \<or>
                    barrierNext (resultBarrier write) \<noteq> nextSeq write \<or>
                    length (resultEvents write) \<noteq> length drafts)
              (err ''agentloop: invalid commit range or Session identity'')) (\<lambda>_.
     check_drafts (firstSeq write) drafts (resultEvents write))"

definition ConfirmEdit ::
  "inbox_edit \<Rightarrow> write_result \<Rightarrow> ('p, 'r, 'w) agent \<Rightarrow> (('p, 'r, 'w) agent \<times> inbox_changes) res" where
  "ConfirmEdit edit write a =
     bindE (checkCommit (editDrafts edit) write a) (\<lambda>_. ApplyEvents (resultEvents write) a)"

section \<open>Execution\<close>

text \<open>The pending cancellation as an error value; nil when nothing was cancelled.\<close>

definition Cancellation :: "('p, 'r, 'w) agent \<Rightarrow> unit res" where
  "Cancellation a = (case cancelCause a of None \<Rightarrow> Inr () | Some c \<Rightarrow> Inl (Canceled c))"

definition acceptExecution :: "bool \<Rightarrow> ('p, 'r, 'w) agent \<Rightarrow> ('p, 'r, 'w) agent" where
  "acceptExecution wake a0 =
     (if lifetime a0 \<noteq> Available then a0
      else let a = a0\<lparr>preserveInbox := False\<rparr> in
        if \<not> wake then a
        else if execution a = ExecutionIdle then a\<lparr>execution := ExecutionRunning\<rparr>
        else if execution a \<noteq> ExecutionMaintenance \<and> cancelCause a = None then a
        else if cancelCause a = Some DisposedCancel \<or> cancelCause a = Some (OtherCancel ''disposed'') then a
        else a\<lparr>runAfterCompletion := True\<rparr>)"

text \<open>A nil intent is the user's.\<close>

definition cancelExecution :: "cancel_intent option \<Rightarrow> bool \<Rightarrow> ('p, 'r, 'w) agent \<Rightarrow> ('p, 'r, 'w) agent" where
  "cancelExecution intent keepInbox a =
     (if execution a = ExecutionIdle then a
      else let b = (if cancelCause a = None
                    then a\<lparr>cancelCause := Some (case intent of None \<Rightarrow> UserCancel | Some c \<Rightarrow> c)\<rparr> else a) in
        if keepInbox then b else b\<lparr>runAfterCompletion := False\<rparr>)"

definition owns_work :: "('p, 'r, 'w) agent \<Rightarrow> bool" where
  "owns_work a =
     (currentTurn a \<noteq> None \<or> currentStep a \<noteq> None \<or> preparing a \<noteq> None \<or> modelRequest a \<noteq> None \<or>
      settling a \<noteq> None)"

definition releaseWork :: "('p, 'r, 'w) agent \<Rightarrow> (('p, 'r, 'w) agent \<times> bool) res" where
  "releaseWork a =
     bindE (failIf (owns_work a) (err ''agentloop: execution still owns unfinished business work'')) (\<lambda>_.
     bindE (if runAfterCompletion a
            then on_inbox a (\<lambda>p. Inr (HasPending p \<and> \<not> (preserveInbox a \<and> lifetime a = ClosingAvailable)))
            else Inr False) (\<lambda>replay.
     Inr (a\<lparr>execution := (if replay then ExecutionRunning else ExecutionIdle), cancelCause := None,
            runAfterCompletion := False, agentFailure := None, agentRetry := None\<rparr>, replay)))"

definition FinishExecution :: "('p, 'r, 'w) agent \<Rightarrow> (('p, 'r, 'w) agent \<times> bool) res" where
  "FinishExecution a =
     bindE (failIf (execution a \<noteq> ExecutionRunning) ErrState) (\<lambda>_. releaseWork a)"

definition BeginMaintenance :: "('p, 'r, 'w) agent \<Rightarrow> ('p, 'r, 'w) agent res" where
  "BeginMaintenance a =
     bindE (CheckExecution a) (\<lambda>_.
     bindE (failIf (execution a \<noteq> ExecutionIdle) ErrBusy) (\<lambda>_.
     Inr (a\<lparr>execution := ExecutionMaintenance\<rparr>)))"

definition FinishMaintenance :: "('p, 'r, 'w) agent \<Rightarrow> (('p, 'r, 'w) agent \<times> bool) res" where
  "FinishMaintenance a =
     bindE (failIf (execution a \<noteq> ExecutionMaintenance) ErrState) (\<lambda>_. releaseWork a)"

text \<open>The request for another run is noted before \<open>FinishExecution\<close> can fail.\<close>

definition ContinueExecution :: "('p, 'r, 'w) agent \<Rightarrow> ('p, 'r, 'w) agent \<times> bool res" where
  "ContinueExecution a =
     (if execution a = ExecutionIdle then (a, Inr False)
      else if execution a \<noteq> ExecutionRunning then (a, Inl ErrState)
      else case (if cancelCause a = None
                 then on_inbox a (\<lambda>p. Inr (HasPending p \<and> \<not> preserveInbox a)) else Inr False) of
        Inl e \<Rightarrow> (a, Inl e)
      | Inr again \<Rightarrow>
          let b = (if again then a\<lparr>runAfterCompletion := True\<rparr> else a) in
          (case FinishExecution b of Inl e \<Rightarrow> (b, Inl e) | Inr (c, replay) \<Rightarrow> (c, Inr replay)))"

section \<open>Closing\<close>

definition CheckClose :: "bool \<Rightarrow> ('p, 'r, 'w) agent \<Rightarrow> unit res" where
  "CheckClose executing a =
     bindE (failIf (executing \<or> execution a \<noteq> ExecutionIdle \<or> currentTurn a \<noteq> None) ErrPending) (\<lambda>_.
     bindE (checkRelease (lifetime a)) (\<lambda>_.
     failIf (ready (lifetime a) \<and> \<not> preserveInbox a \<and>
             (case pendingInbox a of None \<Rightarrow> False | Some p \<Rightarrow> HasPending p)) ErrPending))"

definition prepareClose :: "bool \<Rightarrow> bool \<Rightarrow> ('p, 'r, 'w) agent \<Rightarrow> ('p, 'r, 'w) agent \<times> unit res" where
  "prepareClose executing finishCurrent a0 =
     (let a1 = a0\<lparr>lifetime := beginClose (lifetime a0), preserveInbox := True, runAfterCompletion := False\<rparr>;
          a = (if \<not> finishCurrent \<and> execution a1 \<noteq> ExecutionIdle
               then cancelExecution (Some DisposedCancel) True a1 else a1) in
      if \<not> executing \<and> execution a = ExecutionRunning \<and> \<not> owns_work a then
        (case FinishExecution (a\<lparr>preserveInbox := True, runAfterCompletion := False\<rparr>) of
           Inl e \<Rightarrow> (a\<lparr>preserveInbox := True, runAfterCompletion := False\<rparr>, Inl e)
         | Inr (b, replay) \<Rightarrow> (b, CheckClose executing b))
      else (a, CheckClose executing a))"

definition PrepareClose :: "bool \<Rightarrow> ('p, 'r, 'w) agent \<Rightarrow> ('p, 'r, 'w) agent \<times> unit res" where
  "PrepareClose executing a = prepareClose executing False a"

definition Drain :: "bool \<Rightarrow> ('p, 'r, 'w) agent \<Rightarrow> ('p, 'r, 'w) agent \<times> unit res" where
  "Drain executing a =
     (if \<not> ready (lifetime a) then (a, Inl ErrState) else prepareClose executing True a)"

definition ReleaseAgent :: "('p, 'r, 'w) agent \<Rightarrow> ('p, 'r, 'w) agent res" where
  "ReleaseAgent a = bindE (CheckClose False a) (\<lambda>_. Inr (new_agent Released))"

section \<open>Admission\<close>

record admission =
  admitEdit :: inbox_edit
  admitWake :: bool

definition admit :: "string \<Rightarrow> message_value \<Rightarrow> bool \<Rightarrow> ('p, 'r, 'w) agent \<Rightarrow> admission res" where
  "admit t input wake a =
     bindE (CheckExecution a) (\<lambda>_.
     bindE (on_inbox a (\<lambda>p. PrepareAppend p (if wake \<and> cancelCause a \<noteq> None then NextTurn else t) input)) (\<lambda>edit.
     Inr \<lparr>admitEdit = edit, admitWake = wake\<rparr>))"

definition Followup :: "message_value \<Rightarrow> ('p, 'r, 'w) agent \<Rightarrow> admission res" where
  "Followup input a = admit NextTurn input True a"

definition Steer :: "message_value \<Rightarrow> ('p, 'r, 'w) agent \<Rightarrow> admission res" where
  "Steer input a = admit NextStep input True a"

definition Inject :: "message_value \<Rightarrow> ('p, 'r, 'w) agent \<Rightarrow> admission res" where
  "Inject input a = admit NextStep input False a"

definition ConfirmAdmission ::
  "admission \<Rightarrow> write_result \<Rightarrow> ('p, 'r, 'w) agent \<Rightarrow> (('p, 'r, 'w) agent \<times> inbox_changes) res" where
  "ConfirmAdmission proposal write a =
     bindE (ConfirmEdit (admitEdit proposal) write a) (\<lambda>(b, changes).
     Inr (acceptExecution (admitWake proposal) b, changes))"

definition CancelAgent ::
  "cancel_intent option \<Rightarrow> bool \<Rightarrow> ('p, 'r, 'w) agent \<Rightarrow> ('p, 'r, 'w) agent \<times> inbox_edit res" where
  "CancelAgent intent keepInbox a =
     (if \<not> ready (lifetime a) \<or> pendingInbox a = None then (a, Inl ErrUninitialized)
      else let b = cancelExecution intent keepInbox a in
        case (if keepInbox then Inr no_edit
              else bindE (checkInboxMutation b) (\<lambda>_. on_inbox b PrepareClear)) of
          Inl e \<Rightarrow> (b, Inl e)
        | Inr edit \<Rightarrow> (b\<lparr>preserveInbox := keepInbox\<rparr>, Inr edit))"

definition Promote :: "string \<Rightarrow> ('p, 'r, 'w) agent \<Rightarrow> admission res" where
  "Promote i a =
     bindE (CheckExecution a) (\<lambda>_. on_inbox a (\<lambda>p.
     bindE (failIf (i \<notin> set (map idValue (NextTurnOf p)))
              (if i \<in> set (map idValue (NextStepOf p)) then ErrSteerUnavailable else ErrInputMissing)) (\<lambda>_.
     bindE (failIf (execution a = ExecutionIdle) ErrSteerUnavailable) (\<lambda>_.
     bindE (PrepareMove p i (if cancelCause a \<noteq> None then NextTurn else NextStep)) (\<lambda>edit.
     Inr \<lparr>admitEdit = edit, admitWake = True\<rparr>)))))"

definition StatusRunning :: "('p, 'r, 'w) agent \<Rightarrow> bool" where
  "StatusRunning a = (execution a \<noteq> ExecutionIdle)"

end
