(* ===== verification/VisibleContext.thy ===== *)
theory VisibleContext
  imports Writes
begin

text \<open>
  The retained prompt context of an agent
  (\<open>src/agentloop/internal/visiblecontext/visible_context.go\<close> and the joining of sections
  in \<open>src/systemprompt/render.go\<close>): which context message the model still sees, and
  whether the assembled context needs a new one.
\<close>

section \<open>State\<close>

abbreviation contextMessageSource :: string where
  "contextMessageSource \<equiv> ''@deepseek-ai/dsh-system-prompt''"

definition clearedMessage :: string where
  "clearedMessage =
     ''Current runtime context: none. Earlier runtime-context snapshots no longer apply.''"

record context_snapshot =
  contextSequence :: int
  contextText :: string

record visible_context =
  observed :: bool
  visibleCurrent :: "context_snapshot option"

definition contextSnapshotPrefix :: string where
  "contextSnapshotPrefix =
     ''Current runtime context. This snapshot supersedes earlier runtime-context snapshots.''"

definition blank_line :: string where
  "blank_line = [CHR 0x0A, CHR 0x0A]"

fun join_parts :: "string list \<Rightarrow> string" where
  "join_parts [] = []"
| "join_parts [p] = p"
| "join_parts (p # q # ps) = p @ blank_line @ join_parts (q # ps)"

definition JoinContextSections :: "(string \<times> string) list \<Rightarrow> string" where
  "JoinContextSections sections =
     (let body = join_parts (map snd sections) in
      if body = [] then [] else contextSnapshotPrefix @ blank_line @ body)"

section \<open>Operations\<close>

definition ownedMessage :: "event \<Rightarrow> string option" where
  "ownedMessage committed =
     (if evType committed \<noteq> ''user/message'' then None
      else case DecodeUserMessage (evData committed) of
        Inl e \<Rightarrow> None
      | Inr retained \<Rightarrow>
          (case source_value retained of
             PluginSource p f se su \<Rightarrow>
               if p \<noteq> contextMessageSource then None
               else (case content_value retained of [TextBlock t] \<Rightarrow> Some t | _ \<Rightarrow> None)
           | _ \<Rightarrow> None))"

definition Observe :: "event \<Rightarrow> visible_context \<Rightarrow> visible_context" where
  "Observe committed visible =
     (case ownedMessage committed of
        Some t \<Rightarrow> visible\<lparr>observed := True,
                          visibleCurrent := Some \<lparr>contextSequence = evSeq committed, contextText = t\<rparr>\<rparr>
      | None \<Rightarrow>
          (case (visibleCurrent visible, evSurfaceOp committed, evSources committed) of
             (Some current, Some operation, Some sources) \<Rightarrow>
               if opKind operation = ''replace'' \<and> contextSequence current \<in> set sources
               then visible\<lparr>visibleCurrent := None\<rparr> else visible
           | _ \<Rightarrow> visible))"

text \<open>The loop of \<open>restore\<close>, over the events from the last to the first.\<close>

fun restore_loop :: "int list \<Rightarrow> event list \<Rightarrow> visible_context \<Rightarrow> visible_context" where
  "restore_loop retained [] visible = visible"
| "restore_loop retained (e # es) visible =
     (case ownedMessage e of
        None \<Rightarrow> restore_loop retained es visible
      | Some t \<Rightarrow>
          if evSeq e \<in> set retained
          then visible\<lparr>observed := True, visibleCurrent := Some \<lparr>contextSequence = evSeq e, contextText = t\<rparr>\<rparr>
          else restore_loop retained es (visible\<lparr>observed := True\<rparr>))"

definition Refresh :: "snapshot \<Rightarrow> visible_context" where
  "Refresh snap =
     restore_loop (nodes (snapSurface snap)) (rev (snapEvents snap)) \<lparr>observed = False, visibleCurrent = None\<rparr>"

text \<open>
  \<open>Message\<close> for a view: the message to commit, if any.  The identity of a new message is
  generated by package crypto/rand and is an argument.
\<close>

definition context_source :: "(string \<times> string) list \<Rightarrow> message_source" where
  "context_source sections =
     (if sections = [] then PluginSource contextMessageSource [] None []
      else PluginSource contextMessageSource ''snapshot'' (Some sections) [])"

definition ContextMessage ::
  "string \<Rightarrow> string \<Rightarrow> (string \<times> string) list \<Rightarrow> visible_context \<Rightarrow> message_value option res" where
  "ContextMessage fresh t sections visible =
     (if \<not> observed visible \<and> t = [] then Inr None
      else
        let snapshotText = (if t = [] then clearedMessage else t) in
        if map_option contextText (visibleCurrent visible) = Some snapshotText then Inr None
        else bindE (NewUserMessage fresh [TextBlock snapshotText] (context_source sections)) (\<lambda>m. Inr (Some m)))"

end
