(* ===== verification/ToolBatch.thy ===== *)
theory ToolBatch
  imports Prelude
begin

text \<open>
  One batch of tool calls (\<open>src/agentloop/internal/toolbatch/tool_batch.go\<close>): calls start
  in model order up to a limit, finish in any order, and their results are accepted in
  model order; after a cancellation the calls never started are accepted as such.

  The receiver is an option, nil being an error of every method.
\<close>

section \<open>State\<close>

datatype stop_reason = NotStopped | BatchCanceled | ExecutionFailed | OtherStop int

fun stop_code :: "stop_reason \<Rightarrow> int" where
  "stop_code NotStopped = 0"
| "stop_code BatchCanceled = 1"
| "stop_code ExecutionFailed = 2"
| "stop_code (OtherStop n) = n"

record tool_batch =
  batchCompleted :: bool
  batchStop :: stop_reason
  batchLimit :: int
  batchFinished :: "bool list"
  nextToStart :: int
  nextToAccept :: int
  inFlight :: int
  batchStopsModel :: bool

definition NewBatch :: "int \<Rightarrow> int \<Rightarrow> tool_batch res" where
  "NewBatch callCount parallelLimit =
     bindE (failIf (callCount \<le> 0) (err ''agentloop ToolBatch: call count must be positive'')) (\<lambda>_.
     bindE (failIf (parallelLimit \<le> 0) (err ''agentloop ToolBatch: parallel limit must be positive'')) (\<lambda>_.
     Inr \<lparr>batchCompleted = False, batchStop = NotStopped, batchLimit = parallelLimit,
          batchFinished = replicate (nat callCount) False, nextToStart = 0, nextToAccept = 0, inFlight = 0,
          batchStopsModel = False\<rparr>))"

definition on_batch :: "tool_batch option \<Rightarrow> (tool_batch \<Rightarrow> 'a res) \<Rightarrow> 'a res" where
  "on_batch b f = (case b of None \<Rightarrow> Inl (err ''agentloop ToolBatch: ToolBatch is nil'') | Some c \<Rightarrow> f c)"

definition batchError :: "tool_batch \<Rightarrow> string \<Rightarrow> int \<Rightarrow> goerr" where
  "batchError b action index =
     Errorf ''agentloop ToolBatch: cannot %s at index %d (completed %t, stop reason %d, start %d, accept %d)''
       [AStr action, AInt index, AStr (if batchCompleted b then ''true'' else ''false''),
        AInt (stop_code (batchStop b)), AInt (nextToStart b), AInt (nextToAccept b)]"

section \<open>Operations\<close>

definition CanStart :: "tool_batch option \<Rightarrow> bool" where
  "CanStart b =
     (case b of None \<Rightarrow> False
      | Some c \<Rightarrow> \<not> batchCompleted c \<and> batchStop c = NotStopped \<and>
                  nextToStart c < int (length (batchFinished c)) \<and> inFlight c < batchLimit c)"

definition StartCall :: "int \<Rightarrow> tool_batch option \<Rightarrow> tool_batch res" where
  "StartCall index b = on_batch b (\<lambda>c.
     if \<not> CanStart b \<or> index \<noteq> nextToStart c then Inl (batchError c ''start call'' index)
     else Inr (c\<lparr>nextToStart := nextToStart c + 1, inFlight := inFlight c + 1\<rparr>))"

definition CompleteCall :: "int \<Rightarrow> tool_batch option \<Rightarrow> tool_batch res" where
  "CompleteCall index b = on_batch b (\<lambda>c.
     if index < nextToAccept c \<or> index \<ge> nextToStart c \<or> batchFinished c ! nat index
     then Inl (batchError c ''settle call'' index)
     else if batchCompleted c then Inl (batchError c ''settle call'' index)
     else Inr (c\<lparr>batchFinished := (batchFinished c)[nat index := True], inFlight := inFlight c - 1\<rparr>))"

definition AcceptResult :: "int \<Rightarrow> bool \<Rightarrow> tool_batch option \<Rightarrow> tool_batch res" where
  "AcceptResult index stopContinuation b = on_batch b (\<lambda>c.
     if batchCompleted c then Inl (batchError c ''accept call'' index)
     else if index \<noteq> nextToAccept c \<or> index < 0 \<or> index \<ge> nextToStart c \<or> \<not> batchFinished c ! nat index
     then Inl (batchError c ''accept call'' index)
     else Inr (c\<lparr>nextToAccept := nextToAccept c + 1,
                 batchStopsModel := batchStopsModel c \<or> stopContinuation\<rparr>))"

definition StopDispatch :: "stop_reason \<Rightarrow> tool_batch option \<Rightarrow> tool_batch res" where
  "StopDispatch reason b = on_batch b (\<lambda>c.
     if batchCompleted c \<or> batchStop c \<noteq> NotStopped then Inl (batchError c ''stop dispatch'' (nextToStart c))
     else if reason \<noteq> BatchCanceled \<and> reason \<noteq> ExecutionFailed
     then Inl (err ''agentloop ToolBatch: drain reason is invalid'')
     else Inr (c\<lparr>batchStop := reason\<rparr>))"

definition AcceptCancellation :: "int \<Rightarrow> tool_batch option \<Rightarrow> tool_batch res" where
  "AcceptCancellation index b = on_batch b (\<lambda>c.
     if batchCompleted c \<or> batchStop c \<noteq> BatchCanceled \<or> index \<noteq> nextToAccept c \<or> index \<noteq> nextToStart c \<or>
        index < 0 \<or> index \<ge> int (length (batchFinished c))
     then Inl (batchError c ''accept skipped call'' index)
     else Inr (c\<lparr>nextToStart := nextToStart c + 1, nextToAccept := nextToAccept c + 1\<rparr>))"

definition CompleteBatch :: "tool_batch option \<Rightarrow> tool_batch res" where
  "CompleteBatch b = on_batch b (\<lambda>c.
     if batchCompleted c then Inl (batchError c ''complete batch'' (nextToAccept c))
     else if inFlight c \<noteq> 0 then Inl (err ''agentloop ToolBatch: settle with in-flight calls'')
     else if batchStop c \<noteq> ExecutionFailed \<and> nextToAccept c \<noteq> int (length (batchFinished c))
     then Inl (err ''agentloop ToolBatch: settle before all results were accepted'')
     else Inr (c\<lparr>batchCompleted := True\<rparr>))"

definition StopsModelContinuation :: "tool_batch option \<Rightarrow> bool" where
  "StopsModelContinuation b = (case b of None \<Rightarrow> False | Some c \<Rightarrow> batchStopsModel c)"

definition IsComplete :: "tool_batch option \<Rightarrow> bool" where
  "IsComplete b = (case b of None \<Rightarrow> False | Some c \<Rightarrow> batchCompleted c)"

definition StopReason :: "tool_batch option \<Rightarrow> stop_reason" where
  "StopReason b = (case b of None \<Rightarrow> ExecutionFailed | Some c \<Rightarrow> batchStop c)"

section \<open>Runs of a batch\<close>

datatype batch_op =
    BatchStart int
  | BatchComplete int
  | BatchAccept int bool
  | BatchStop stop_reason
  | BatchSkip int
  | BatchClose

fun batch_apply :: "batch_op \<Rightarrow> tool_batch \<Rightarrow> tool_batch res" where
  "batch_apply (BatchStart i) b = StartCall i (Some b)"
| "batch_apply (BatchComplete i) b = CompleteCall i (Some b)"
| "batch_apply (BatchAccept i s) b = AcceptResult i s (Some b)"
| "batch_apply (BatchStop r) b = StopDispatch r (Some b)"
| "batch_apply (BatchSkip i) b = AcceptCancellation i (Some b)"
| "batch_apply BatchClose b = CompleteBatch (Some b)"

inductive batch_run :: "nat \<Rightarrow> int \<Rightarrow> batch_op list \<Rightarrow> tool_batch \<Rightarrow> bool" for n limit where
  proposed: "NewBatch (int n) limit = Inr b \<Longrightarrow> batch_run n limit [] b"
| accepted: "batch_run n limit ops b \<Longrightarrow> batch_apply op b = Inr b' \<Longrightarrow> batch_run n limit (ops @ [op]) b'"

text \<open>
  The invariant: the cursors are ordered, the calls in flight are the started ones that
  have not finished, every accepted call finished unless it was skipped, and skipping
  needs the cancellation and no start behind it.
\<close>

definition open_calls :: "tool_batch \<Rightarrow> nat list" where
  "open_calls b = filter (\<lambda>k. \<not> batchFinished b ! k) [nat (nextToAccept b)..<nat (nextToStart b)]"

definition batch_ok :: "nat \<Rightarrow> int \<Rightarrow> tool_batch \<Rightarrow> bool" where
  "batch_ok n limit b =
     (length (batchFinished b) = n \<and> batchLimit b = limit \<and> 0 \<le> nextToAccept b \<and>
      nextToAccept b \<le> nextToStart b \<and> nextToStart b \<le> int n \<and>
      inFlight b = int (length (open_calls b)) \<and> inFlight b \<le> limit \<and>
      (\<forall>k. nat (nextToStart b) \<le> k \<and> k < n \<longrightarrow> \<not> batchFinished b ! k) \<and>
      (batchCompleted b \<longrightarrow> inFlight b = 0 \<and>
         (batchStop b \<noteq> ExecutionFailed \<longrightarrow> nextToAccept b = int n)))"

text \<open>The calls a run started, finished and accepted, and those it skipped.\<close>

fun started_calls :: "batch_op list \<Rightarrow> int list" where
  "started_calls [] = []"
| "started_calls (BatchStart i # ops) = i # started_calls ops"
| "started_calls (op # ops) = started_calls ops"

fun settled_calls :: "batch_op list \<Rightarrow> int list" where
  "settled_calls [] = []"
| "settled_calls (BatchAccept i s # ops) = i # settled_calls ops"
| "settled_calls (BatchSkip i # ops) = i # settled_calls ops"
| "settled_calls (op # ops) = settled_calls ops"

lemma batch_op_Inr:
  "StartCall i (Some b) = Inr b' \<longleftrightarrow> CanStart (Some b) \<and> i = nextToStart b \<and>
     b' = b\<lparr>nextToStart := nextToStart b + 1, inFlight := inFlight b + 1\<rparr>"
  "CompleteCall i (Some b) = Inr b' \<longleftrightarrow> nextToAccept b \<le> i \<and> i < nextToStart b \<and> \<not> batchFinished b ! nat i \<and>
     \<not> batchCompleted b \<and> b' = b\<lparr>batchFinished := (batchFinished b)[nat i := True], inFlight := inFlight b - 1\<rparr>"
  "AcceptResult i s (Some b) = Inr b' \<longleftrightarrow> \<not> batchCompleted b \<and> i = nextToAccept b \<and> 0 \<le> i \<and> i < nextToStart b \<and>
     batchFinished b ! nat i \<and>
     b' = b\<lparr>nextToAccept := nextToAccept b + 1, batchStopsModel := batchStopsModel b \<or> s\<rparr>"
  "StopDispatch r (Some b) = Inr b' \<longleftrightarrow> \<not> batchCompleted b \<and> batchStop b = NotStopped \<and>
     (r = BatchCanceled \<or> r = ExecutionFailed) \<and> b' = b\<lparr>batchStop := r\<rparr>"
  "AcceptCancellation i (Some b) = Inr b' \<longleftrightarrow> \<not> batchCompleted b \<and> batchStop b = BatchCanceled \<and>
     i = nextToAccept b \<and> i = nextToStart b \<and> 0 \<le> i \<and> i < int (length (batchFinished b)) \<and>
     b' = b\<lparr>nextToStart := nextToStart b + 1, nextToAccept := nextToAccept b + 1\<rparr>"
  "CompleteBatch (Some b) = Inr b' \<longleftrightarrow> \<not> batchCompleted b \<and> inFlight b = 0 \<and>
     (batchStop b = ExecutionFailed \<or> nextToAccept b = int (length (batchFinished b))) \<and>
     b' = b\<lparr>batchCompleted := True\<rparr>"
  by (auto simp: StartCall_def CompleteCall_def AcceptResult_def StopDispatch_def AcceptCancellation_def
      CompleteBatch_def on_batch_def)

lemma open_calls_update:
  assumes "a \<le> k" "k < s" "s \<le> length fs" "\<not> fs ! k"
  shows "length (filter (\<lambda>j. \<not> fs[k := True] ! j) [a..<s]) + 1 = length (filter (\<lambda>j. \<not> fs ! j) [a..<s])"
proof -
  have split: "[a..<s] = [a..<k] @ k # [Suc k..<s]"
    using assms upt_add_eq_append [of a k "s - k"] by (simp add: upt_conv_Cons)
  have l: "filter (\<lambda>j. \<not> fs[k := True] ! j) [a..<k] = filter (\<lambda>j. \<not> fs ! j) [a..<k]"
    by (rule filter_cong) auto
  have r: "filter (\<lambda>j. \<not> fs[k := True] ! j) [Suc k..<s] = filter (\<lambda>j. \<not> fs ! j) [Suc k..<s]"
    by (rule filter_cong) auto
  show ?thesis using assms unfolding split filter_append by (simp add: l r)
qed

lemma batch_apply_ok:
  assumes "batch_ok n limit b" "batch_apply op b = Inr b'"
  shows "batch_ok n limit b'"
proof -
  let ?a = "nat (nextToAccept b)" and ?s = "nat (nextToStart b)"
  note ok = assms(1) [unfolded batch_ok_def open_calls_def]
  show ?thesis
  proof (cases op)
    case (BatchStart i)
    then have b': "CanStart (Some b)" "b' = b\<lparr>nextToStart := nextToStart b + 1, inFlight := inFlight b + 1\<rparr>"
      using assms(2) by (simp_all add: batch_op_Inr)
    have s: "nat (nextToStart b + 1) = Suc ?s" "?s < n" using ok b'(1) by (auto simp: CanStart_def)
    moreover have "[?a..<Suc ?s] = [?a..<?s] @ [?s]" using ok by (simp add: nat_mono)
    moreover have "\<not> batchFinished b ! ?s" using ok s(2) by simp
    ultimately show ?thesis
      using ok b'(1) unfolding batch_ok_def open_calls_def b'(2) by (simp add: CanStart_def)
  next
    case (BatchComplete i)
    then have b': "nextToAccept b \<le> i" "i < nextToStart b" "\<not> batchFinished b ! nat i" "\<not> batchCompleted b"
      "b' = b\<lparr>batchFinished := (batchFinished b)[nat i := True], inFlight := inFlight b - 1\<rparr>"
      using assms(2) by (simp_all add: batch_op_Inr)
    have "length (filter (\<lambda>j. \<not> (batchFinished b)[nat i := True] ! j) [?a..<?s]) + 1 =
        length (filter (\<lambda>j. \<not> batchFinished b ! j) [?a..<?s])"
      by (rule open_calls_update) (use ok b' in auto)
    moreover have "\<forall>k. ?s \<le> k \<and> k < n \<longrightarrow> \<not> (batchFinished b)[nat i := True] ! k"
      using ok b'(1,2) by (auto simp: nth_list_update)
    ultimately show ?thesis using ok b'(1,2,4) unfolding batch_ok_def open_calls_def b'(5) by simp
  next
    case (BatchAccept i s)
    then have b': "\<not> batchCompleted b" "nextToAccept b < nextToStart b" "batchFinished b ! ?a"
      "b' = b\<lparr>nextToAccept := nextToAccept b + 1, batchStopsModel := batchStopsModel b \<or> s\<rparr>"
      using assms(2) by (auto simp: batch_op_Inr)
    have "[?a..<?s] = ?a # [nat (nextToAccept b + 1)..<?s]"
      using ok b'(2) by (simp add: upt_conv_Cons nat_add_distrib)
    with ok b'(1-3) show ?thesis unfolding batch_ok_def open_calls_def b'(4) by simp
  next
    case (BatchSkip i)
    then have b': "\<not> batchCompleted b" "nextToAccept b = nextToStart b" "nextToStart b < int n"
      "b' = b\<lparr>nextToStart := nextToStart b + 1, nextToAccept := nextToAccept b + 1\<rparr>"
      using assms(2) ok by (auto simp: batch_op_Inr)
    moreover have "\<forall>k. nat (nextToStart b + 1) \<le> k \<and> k < n \<longrightarrow> \<not> batchFinished b ! k"
      using ok by auto
    ultimately show ?thesis using ok b'(1-3) unfolding batch_ok_def open_calls_def b'(4) by simp
  next
    case (BatchStop r)
    with assms(2) ok show ?thesis by (simp add: batch_op_Inr batch_ok_def open_calls_def)
  next
    case BatchClose
    with assms(2) ok show ?thesis by (auto simp: batch_op_Inr batch_ok_def open_calls_def)
  qed
qed

lemma batch_run_ok: "batch_run n limit ops b \<Longrightarrow> batch_ok n limit b \<and> 0 < n \<and> 0 < limit"
proof (induction rule: batch_run.induct)
  case (proposed b)
  then show ?case by (auto simp: NewBatch_def bindE_Inr_iff failIf_Inr batch_ok_def open_calls_def)
qed (auto intro: batch_apply_ok)

lemma calls_append:
  "started_calls (xs @ ys) = started_calls xs @ started_calls ys"
  "settled_calls (xs @ ys) = settled_calls xs @ settled_calls ys"
  by (induction xs rule: started_calls.induct; simp) (induction xs rule: settled_calls.induct; simp)

text \<open>Results are accepted or skipped in model order, each call once.\<close>

lemma batch_run_settled:
  "batch_run n limit ops b \<Longrightarrow> settled_calls ops = map int [0..<nat (nextToAccept b)]"
proof (induction rule: batch_run.induct)
  case (proposed b)
  then show ?case by (auto simp: NewBatch_def bindE_Inr_iff)
next
  case (accepted ops b op b')
  have a: "0 \<le> nextToAccept b" using batch_run_ok [OF accepted(1)] by (simp add: batch_ok_def)
  then have s: "nat (nextToAccept b + 1) = Suc (nat (nextToAccept b))" by simp
  show ?case
    by (cases op) (use accepted a s in \<open>auto simp: batch_op_Inr calls_append\<close>)
qed

end
