(* ===== verification/AgentTurns.thy ===== *)
theory AgentTurns
  imports AgentState VisibleContext ToolBatch
begin

text \<open>
  The turns and steps an agent runs (\<open>src/agentloop/agent_turn.go\<close>, \<open>agent_turn_flow.go\<close>,
  \<open>agent_settlement.go\<close>, \<open>agent_preparation.go\<close>, \<open>agent_step.go\<close>,
  \<open>agent_model_result.go\<close>, \<open>agent_tools.go\<close>): each boundary is prepared, committed to the
  session by the caller, and confirmed.

  The copy of a prompt, its rendered context sections and the outcome of the model request
  are arguments; so is the identity of a new message.
\<close>

section \<open>Failures\<close>

fun CancelKind :: "cancel_intent \<Rightarrow> string" where
  "CancelKind UserCancel = ''user''"
| "CancelKind ParentCancel = ''parent''"
| "CancelKind DisposedCancel = ''disposed''"
| "CancelKind (HookCancel r) = ''hook''"
| "CancelKind (OtherCancel k) = k"

definition cancellation_problem :: "cancel_intent \<Rightarrow> problem" where
  "cancellation_problem c = Problem (Some (Some c)) None (''agent canceled: '' @ CancelKind c)"

definition cancelled_problem :: "('p, 'r, 'w) agent \<Rightarrow> problem option" where
  "cancelled_problem a = map_option cancellation_problem (cancelCause a)"

text \<open>\<open>errors.Join\<close> of two: \<open>errors.As\<close> searches the first error before the second.\<close>

fun join_problems :: "problem option \<Rightarrow> problem option \<Rightarrow> problem option" where
  "join_problems None q = q"
| "join_problems p None = p"
| "join_problems (Some (Problem c f t)) (Some (Problem c' f' t')) =
     Some (Problem (if c = None then c' else c) (if f = None then f' else f) (t @ [CHR 0x0A] @ t'))"

fun problem_cancel :: "problem option \<Rightarrow> cancel_intent option option" where
  "problem_cancel None = None"
| "problem_cancel (Some (Problem c f t)) = c"

fun cancellationReason :: "cancel_intent option \<Rightarrow> turn_cancel_cause" where
  "cancellationReason None = UserCancelCause"
| "cancellationReason (Some UserCancel) = UserCancelCause"
| "cancellationReason (Some ParentCancel) = ParentCancelCause"
| "cancellationReason (Some DisposedCancel) = DisposedCancelCause"
| "cancellationReason (Some (HookCancel r)) = HookCancelCause r"
| "cancellationReason (Some (OtherCancel k)) = HookCancelCause k"

section \<open>The start of a turn\<close>

text \<open>A proposed turn is kept even when its draft fails.\<close>

definition PrepareTurn :: "('p, 'r, 'w) agent \<Rightarrow> ('p, 'r, 'w) agent \<times> turn_start_fact res" where
  "PrepareTurn a =
     (if \<not> ready (lifetime a) \<or> pendingInbox a = None then (a, Inl ErrUninitialized)
      else if execution a = ExecutionMaintenance then (a, Inl ErrState)
      else if currentTurn a \<noteq> None \<and> StateValue (currentTurn a) \<noteq> StateProposed then (a, Inl ErrState)
      else if execution a = ExecutionIdle then (a, Inl (err ''agentloop: no execution is accepted''))
      else
        case (if currentTurn a = None
              then bindE (Cancellation a) (\<lambda>_. bindE (NewTurn (lastTurn a + 1)) (\<lambda>t. Inr (a\<lparr>currentTurn := Some t\<rparr>)))
              else Inr a) of
          Inl e \<Rightarrow> (a, Inl e)
        | Inr b \<Rightarrow>
            (b, bindE (StartDraft (currentTurn b)) (\<lambda>draft.
                Inr \<lparr>beginSession = agentID b, beginNumber = turnNumber (the (currentTurn b)),
                     beginDraft = draft\<rparr>)))"

definition ConfirmTurn :: "write_result \<Rightarrow> ('p, 'r, 'w) agent \<Rightarrow> ('p, 'r, 'w) agent res" where
  "ConfirmTurn write a =
     bindE (failIf (\<not> ready (lifetime a) \<or> currentTurn a = None \<or> StateValue (currentTurn a) \<noteq> StateProposed)
              ErrState) (\<lambda>_.
     bindE (StartDraft (currentTurn a)) (\<lambda>draft.
     bindE (checkCommit [draft] write a) (\<lambda>_.
     bindE (EnterOpen (currentTurn a)) (\<lambda>t.
     Inr (a\<lparr>currentTurn := Some t, lastTurn := turnNumber t\<rparr>)))))"

definition PreparePosition :: "('p, 'r, 'w) agent \<Rightarrow> step_position res" where
  "PreparePosition a =
     (case currentTurn a of
        None \<Rightarrow> Inl (err ''agentloop: no Turn is open'')
      | Some t \<Rightarrow> bindE (ProposedStep (Some t)) (\<lambda>number. Inr \<lparr>posTurn = turnNumber t, posStep = number\<rparr>))"

section \<open>Input of a step\<close>

definition PrepareInput :: "('p, 'r, 'w) agent \<Rightarrow> (('p, 'r, 'w) agent \<times> inbox_edit) res" where
  "PrepareInput a =
     bindE (Cancellation a) (\<lambda>_.
     bindE (failIf (preparing a \<noteq> None \<or> currentStep a \<noteq> None) ErrState) (\<lambda>_.
     bindE (PreparePosition a) (\<lambda>_.
     bindE (on_inbox a (\<lambda>p. PrepareClaim p (if LastStep (currentTurn a) = 0 then NextTurn else NextStep))) (\<lambda>edit.
     Inr (a\<lparr>preparing := Some \<lparr>prepAfter = inboxNext a,
              prepState = (if editDrafts edit = [] then HooksPending else InputUnconfirmed),
              prepEdit = edit, prepClaimed = [], prepMessages = []\<rparr>\<rparr>, edit)))))"

definition ConfirmInput :: "write_result \<Rightarrow> ('p, 'r, 'w) agent \<Rightarrow> ('p, 'r, 'w) agent res" where
  "ConfirmInput write a =
     (case preparing a of
        None \<Rightarrow> Inl ErrState
      | Some prep \<Rightarrow>
          if prepState prep \<noteq> InputUnconfirmed then Inl ErrState
          else bindE (ConfirmEdit (prepEdit prep) write a) (\<lambda>(b, changes).
            Inr (b\<lparr>preparing := Some (prep\<lparr>prepClaimed := changesClaimed changes, prepEdit := no_edit,
                                          prepState := HooksPending\<rparr>)\<rparr>)))"

record pre_step =
  preAgent :: string
  prePosition :: step_position
  preMessages :: "message_value list"
  preEntered :: "message_value list"

definition PreparePreStep :: "('p, 'r, 'w) agent \<Rightarrow> (('p, 'r, 'w) agent \<times> pre_step) res" where
  "PreparePreStep a =
     bindE (Cancellation a) (\<lambda>_.
     case preparing a of
       None \<Rightarrow> Inl (err ''agentloop: a Step is already preparing or executing'')
     | Some prep \<Rightarrow>
         if prepState prep \<noteq> HooksPending \<or> currentStep a \<noteq> None
         then Inl (err ''agentloop: a Step is already preparing or executing'')
         else
           bindE (PreparePosition a) (\<lambda>position.
           bindE (mapE (\<lambda>m. bindE (CloneUserMessage m) (\<lambda>c. bindE (CloneUserMessage m) (\<lambda>d. Inr (c, d))))
                    (prepClaimed prep)) (\<lambda>copies.
           Inr (a\<lparr>preparing := Some (prep\<lparr>prepState := DecisionPending\<rparr>)\<rparr>,
                \<lparr>preAgent = agentID a, prePosition = position, preMessages = map fst copies,
                 preEntered = map snd copies\<rparr>))))"

record pre_step_decision =
  decisionKind :: string
  decisionMessages :: "message_value list"

definition AcceptPreStep ::
  "pre_step_decision \<Rightarrow> ('p, 'r, 'w) agent \<Rightarrow> (('p, 'r, 'w) agent \<times> bool) res" where
  "AcceptPreStep decision a =
     bindE (Cancellation a) (\<lambda>_.
     case preparing a of
       None \<Rightarrow> Inl ErrState
     | Some prep \<Rightarrow>
         if prepState prep \<noteq> DecisionPending \<or> currentStep a \<noteq> None then Inl ErrState
         else if decisionKind decision = ''reject'' then
           bindE (failIf (decisionMessages decision \<noteq> [])
                    (err ''agentloop: rejected admission cannot contain messages'')) (\<lambda>_.
           bindE (EnterSettling TurnResultBlocked (currentTurn a)) (\<lambda>t.
           Inr (a\<lparr>currentTurn := Some t, preparing := None\<rparr>, False)))
         else if decisionKind decision = ''enter'' then
           bindE (mapE CloneUserMessage (decisionMessages decision)) (\<lambda>ms.
           Inr (a\<lparr>preparing := Some (prep\<lparr>prepMessages := ms, prepClaimed := [], prepState := ContextPending\<rparr>)\<rparr>,
                True))
         else Inl (err ''agentloop: unsupported pre-step decision''))"

definition AbandonPreparation :: "('p, 'r, 'w) agent \<Rightarrow> ('p, 'r, 'w) agent res" where
  "AbandonPreparation a =
     bindE (failIf (currentStep a \<noteq> None \<or>
              (case preparing a of None \<Rightarrow> True | Some prep \<Rightarrow> prepState prep = InputUnconfirmed)) ErrState) (\<lambda>_.
     Inr (a\<lparr>preparing := None\<rparr>))"

section \<open>The start of a step\<close>

text \<open>An empty step settles a turn that already has a conclusion, or that had no input at all.\<close>

definition settle_empty ::
  "turn_result \<Rightarrow> ('p, 'r, 'w) agent \<Rightarrow> (('p, 'r, 'w) agent \<times> event_draft option) res" where
  "settle_empty result a =
     bindE (EnterSettling result (currentTurn a)) (\<lambda>t.
     Inr (a\<lparr>currentTurn := Some t, preparing := None\<rparr>, None))"

definition open_step ::
  "('p \<Rightarrow> 'p res) \<Rightarrow> 'p step_input \<Rightarrow> step_position \<Rightarrow> ('p, 'r, 'w) agent \<Rightarrow>
   (('p, 'r, 'w) agent \<times> event_draft option) res" where
  "open_step clonePrompt provided position a =
     bindE (NewStep (posTurn position) (posStep position)) (\<lambda>s0.
     bindE (Capture clonePrompt provided s0) (\<lambda>s.
     bindE (StartDraft_step (Some s)) (\<lambda>draft.
     Inr (a\<lparr>currentStep := Some s, preparing := None\<rparr>, Some draft))))"

definition PrepareStep ::
  "('p \<Rightarrow> 'p res) \<Rightarrow> ('p \<Rightarrow> (string \<times> string) list res) \<Rightarrow> string \<Rightarrow> snapshot \<Rightarrow> 'p \<Rightarrow>
   ('p, 'r, 'w) agent \<Rightarrow> (('p, 'r, 'w) agent \<times> event_draft option) res" where
  "PrepareStep clonePrompt renderSections fresh snap provided a =
     bindE (Cancellation a) (\<lambda>_.
     case currentStep a of
       Some s \<Rightarrow>
         if stepState s \<noteq> StepProposed then Inl ErrState
         else
           bindE (InputValue clonePrompt s) (\<lambda>captured.
           bindE (failIf (inputPrompt captured \<noteq> provided)
                    (err ''agentloop: pending Step input cannot be replaced'')) (\<lambda>_.
           bindE (StartDraft_step (Some s)) (\<lambda>draft. Inr (a, Some draft))))
     | None \<Rightarrow>
         bindE (PreparePosition a) (\<lambda>position.
         case preparing a of
           None \<Rightarrow> Inl (err ''agentloop: pre-step preparation is missing'')
         | Some prep \<Rightarrow>
             if prepState prep \<noteq> ContextPending then Inl (err ''agentloop: pre-step preparation is missing'')
             else
               bindE (failIf (barrierSession (snapBarrier snap) \<noteq> agentID a \<or>
                              barrierNext (snapBarrier snap) \<noteq> int (length (snapEvents snap)))
                        (err ''agentloop: Step input requires the current Session snapshot'')) (\<lambda>_.
               bindE (clonePrompt provided) (\<lambda>prompt.
               bindE (renderSections prompt) (\<lambda>sections.
               bindE (ContextMessage fresh (JoinContextSections sections) sections (Refresh snap)) (\<lambda>context.
               let messages = prepMessages prep @ (case context of None \<Rightarrow> [] | Some m \<Rightarrow> [m]);
                   result = ResultValue (currentTurn a) in
               if messages = [] \<and> result \<noteq> TurnResultNone \<and> result \<noteq> TurnResultContinue then settle_empty result a
               else if messages = [] \<and> LastStep (currentTurn a) = 0 then settle_empty TurnResultCompleted a
               else open_step clonePrompt \<lparr>inputMessages = messages, inputPrompt = prompt\<rparr> position a))))))"

definition ConfirmStep :: "write_result \<Rightarrow> ('p, 'r, 'w) agent \<Rightarrow> ('p, 'r, 'w) agent res" where
  "ConfirmStep write a =
     (case currentStep a of
        None \<Rightarrow> Inl ErrState
      | Some s \<Rightarrow>
          if stepState s \<noteq> StepProposed then Inl ErrState
          else
            bindE (PreparePosition a) (\<lambda>position.
            bindE (StartDraft_step (Some s)) (\<lambda>draft.
            bindE (checkCommit [draft] write a) (\<lambda>_.
            bindE (ConfirmStart (hd (resultEvents write)) (Some s)) (\<lambda>opened.
            bindE (EnterStepping (posStep position) (currentTurn a)) (\<lambda>enclosing.
            Inr (a\<lparr>currentTurn := Some enclosing, currentStep := Some opened\<rparr>)))))))"

section \<open>The open step\<close>

definition no_step :: goerr where
  "no_step = err ''agentloop: no Step is open''"

definition AgentMessageDraft :: "('p, 'r, 'w) agent \<Rightarrow> event_draft option res" where
  "AgentMessageDraft a = bindE (failIf (currentStep a = None) no_step) (\<lambda>_. MessageDraft (currentStep a))"

definition AgentConfirmMessage :: "write_result \<Rightarrow> ('p, 'r, 'w) agent \<Rightarrow> ('p, 'r, 'w) agent res" where
  "AgentConfirmMessage write a =
     bindE (failIf (currentStep a = None) no_step) (\<lambda>_.
     bindE (failIf (barrierSession (resultBarrier write) \<noteq> agentID a)
              (err ''agentloop: input commit Session identity mismatch'')) (\<lambda>_.
     bindE (ConfirmMessage write (currentStep a)) (\<lambda>s. Inr (a\<lparr>currentStep := Some s\<rparr>))))"

definition BeginRequest :: "('p, 'r, 'w) agent \<Rightarrow> ('p, 'r, 'w) agent res" where
  "BeginRequest a =
     bindE (Cancellation a) (\<lambda>_.
     bindE (failIf (currentStep a = None) no_step) (\<lambda>_.
     bindE (EnterRequesting (currentStep a)) (\<lambda>s. Inr (a\<lparr>currentStep := Some s\<rparr>))))"

text \<open>The final outcome of a model request; a finish reason is known by its kind.\<close>

record completed =
  completedMessage :: message_value
  completedFinish :: "string option"
  completedFailure :: "problem option"
  headerCommitted :: bool
  streamClosed :: bool

definition checkRequestCompletion :: "('r \<Rightarrow> completed res) \<Rightarrow> ('p, 'r, 'w) agent \<Rightarrow> unit res" where
  "checkRequestCompletion outcome a =
     (case modelRequest a of
        None \<Rightarrow> Inr ()
      | Some r \<Rightarrow>
          bindE (outcome r) (\<lambda>c.
          failIf (\<not> streamClosed c) (err ''agentloop: model resources must close before Step continuation'')))"

definition BeginTools :: "('r \<Rightarrow> completed res) \<Rightarrow> ('p, 'r, 'w) agent \<Rightarrow> ('p, 'r, 'w) agent res" where
  "BeginTools outcome a =
     bindE (checkRequestCompletion outcome a) (\<lambda>_.
     bindE (failIf (currentStep a = None) no_step) (\<lambda>_.
     bindE (EnterTooling (currentStep a)) (\<lambda>s. Inr (a\<lparr>currentStep := Some s\<rparr>))))"

section \<open>The end of a step\<close>

definition PrepareStepEnd ::
  "('r \<Rightarrow> completed res) \<Rightarrow> step_result \<Rightarrow> ('p, 'r, 'w) agent \<Rightarrow>
   (('p, 'r, 'w) agent \<times> end_step_fact) res" where
  "PrepareStepEnd outcome result a =
     bindE (checkRequestCompletion outcome a) (\<lambda>_.
     case currentStep a of
       None \<Rightarrow> Inl no_step
     | Some s \<Rightarrow>
         bindE (if stepState s = StepSettling
                then if stepConclusion s \<noteq> result
                     then Inl (err ''agentloop: Step conclusion is already selected'') else Inr s
                else EnterSettling_step result (Some s)) (\<lambda>candidate.
         bindE (EndDraft_step (Some candidate)) (\<lambda>draft.
         Inr (a\<lparr>currentStep := Some candidate\<rparr>,
              \<lparr>closeDraft = draft, closeFailure = None, closeSession = agentID a,
               closePosition = stepPosition candidate\<rparr>))))"

definition endStep ::
  "('r \<Rightarrow> completed res) \<Rightarrow> step_result \<Rightarrow> problem option \<Rightarrow> ('p, 'r, 'w) agent \<Rightarrow>
   (('p, 'r, 'w) agent \<times> end_step_fact) res" where
  "endStep outcome result failure a =
     bindE (PrepareStepEnd outcome result a) (\<lambda>(b, ending). Inr (b, ending\<lparr>closeFailure := failure\<rparr>))"

definition ConfirmStepEnd :: "write_result \<Rightarrow> ('p, 'r, 'w) agent \<Rightarrow> ('p, 'r, 'w) agent res" where
  "ConfirmStepEnd write a =
     bindE (failIf (currentStep a = None \<or> currentTurn a = None) no_step) (\<lambda>_.
     bindE (EndDraft_step (currentStep a)) (\<lambda>draft.
     bindE (checkCommit [draft] write a) (\<lambda>_.
     bindE (ConfirmEnd (hd (resultEvents write)) (currentStep a)) (\<lambda>closed.
     bindE (EnterOpenAfterStep (ResultFromStep (stepConclusion closed)) (currentTurn a)) (\<lambda>enclosing.
     Inr (a\<lparr>currentTurn := Some enclosing, currentStep := None\<rparr>))))))"

section \<open>The model's answer and the tools\<close>

datatype model_action = EndStepAction end_step_fact | ExecuteTools step_position "content_block list"

definition acceptModel :: "completed \<Rightarrow> ('p, 'r, 'w) agent \<Rightarrow> ('p, 'r, 'w) agent" where
  "acceptModel c a = (if headerCommitted c then a\<lparr>headerLogged := True\<rparr> else a)"

definition tool_calls :: "content_block list \<Rightarrow> content_block list" where
  "tool_calls bs = filter (\<lambda>b. case b of ToolCallBlock i n x \<Rightarrow> True | _ \<Rightarrow> False) bs"

definition choose_action ::
  "('r \<Rightarrow> completed res) \<Rightarrow> completed \<Rightarrow> ('p, 'r, 'w) agent \<Rightarrow> (('p, 'r, 'w) agent \<times> model_action) res" where
  "choose_action outcome c a =
     bindE (failIf (\<not> streamClosed c) (err ''agentloop: model resources must close before Step continuation'')) (\<lambda>_.
     if completedFailure c \<noteq> None then
       bindE (endStep outcome
                (if problem_cancel (completedFailure c) \<noteq> None then StepResultAborted else StepResultError)
                (completedFailure c) a) (\<lambda>(b, e). Inr (b, EndStepAction e))
     else
       bindE (failIf (completedFinish c = Some ''error'' \<or> completedFinish c = Some ''aborted'')
                (err ''agentloop: failed model finish requires a final request error'')) (\<lambda>_.
       bindE (CloneAssistantMessage (completedMessage c)) (\<lambda>response.
       if completedFinish c = Some ''max-tokens'' then
         bindE (endStep outcome StepResultMaxTokens None a) (\<lambda>(b, e). Inr (b, EndStepAction e))
       else if tool_calls (content_value response) = [] then
         bindE (endStep outcome StepResultCompleted None a) (\<lambda>(b, e). Inr (b, EndStepAction e))
       else
         bindE (BeginTools outcome a) (\<lambda>b.
         Inr (b, ExecuteTools (stepPosition (the (currentStep a))) (tool_calls (content_value response)))))))"

text \<open>The header fact of a finished request is kept even when the completion fails.\<close>

definition CompleteModel ::
  "('r \<Rightarrow> completed res) \<Rightarrow> ('p, 'r, 'w) agent \<Rightarrow> ('p, 'r, 'w) agent \<times> model_action res" where
  "CompleteModel outcome a =
     (case modelRequest a of
        None \<Rightarrow> (a, Inl (err ''agentloop: no model request is retained''))
      | Some r \<Rightarrow>
          (case outcome r of
             Inl e \<Rightarrow> (a, Inl e)
           | Inr c \<Rightarrow>
               if (case currentStep a of None \<Rightarrow> True | Some s \<Rightarrow> stepState s \<noteq> StepRequesting)
               then (a, Inl (err ''agentloop: model completion requires a current requesting Step''))
               else
                 (case choose_action outcome c (acceptModel c a) of
                    Inl e \<Rightarrow> (acceptModel c a, Inl e)
                  | Inr (b, action) \<Rightarrow> (b\<lparr>modelRequest := None\<rparr>, Inr action))))"

definition CompleteTools ::
  "('r \<Rightarrow> completed res) \<Rightarrow> tool_batch option \<Rightarrow> problem option \<Rightarrow> ('p, 'r, 'w) agent \<Rightarrow>
   (('p, 'r, 'w) agent \<times> end_step_fact) res" where
  "CompleteTools outcome batch failure a =
     bindE (failIf (case currentStep a of None \<Rightarrow> True | Some s \<Rightarrow> stepState s \<noteq> StepTooling)
              (err ''agentloop: tool completion requires a current tooling Step'')) (\<lambda>_.
     bindE (failIf (\<not> IsComplete batch) (err ''agentloop: tool batch must close before Step settlement'')) (\<lambda>_.
     bindE (failIf (StopReason batch = BatchCanceled \<and> problem_cancel failure = None)
              (err ''agentloop: canceled tool batch requires its cancellation error'')) (\<lambda>_.
     bindE (failIf (StopReason batch = ExecutionFailed \<and> failure = None)
              (err ''agentloop: failed tool batch requires its execution error'')) (\<lambda>_.
     endStep outcome
       (if problem_cancel failure \<noteq> None then StepResultAborted
        else if failure \<noteq> None then StepResultError
        else if StopsModelContinuation batch then StepResultCompleted
        else StepResultContinue) failure a))))"

section \<open>Stopping and the end of a turn\<close>

definition beginStopping :: "('p, 'r, 'w) agent \<Rightarrow> (('p, 'r, 'w) agent \<times> bool) res" where
  "beginStopping a =
     bindE (failIf (currentTurn a = None \<or> currentStep a \<noteq> None \<or> StateValue (currentTurn a) \<noteq> StateOpen)
              (err ''agentloop: stopping requires an open Turn between Steps'')) (\<lambda>_.
     let result = ResultValue (currentTurn a) in
     bindE (if result = TurnResultNone \<or> result = TurnResultContinue then Inr True
            else on_inbox a (\<lambda>p. Inr (NextStepOf p \<noteq> []))) (\<lambda>continues.
     if continues then Inr (a, False)
     else bindE (EnterStopping (currentTurn a)) (\<lambda>t. Inr (a\<lparr>currentTurn := Some t\<rparr>, True))))"

definition finishStopping :: "('p, 'r, 'w) agent \<Rightarrow> (('p, 'r, 'w) agent \<times> bool) res" where
  "finishStopping a =
     bindE (failIf (currentTurn a = None \<or> StateValue (currentTurn a) \<noteq> StateStopping)
              (err ''agentloop: turn-stopping boundary has not opened'')) (\<lambda>_.
     bindE (on_inbox a (\<lambda>p. Inr (NextStepOf p \<noteq> []))) (\<lambda>continues.
     if continues then bindE (EnterOpenAfterStopping (currentTurn a)) (\<lambda>t. Inr (a\<lparr>currentTurn := Some t\<rparr>, True))
     else bindE (EnterSettling (ResultValue (currentTurn a)) (currentTurn a)) (\<lambda>t.
       Inr (a\<lparr>currentTurn := Some t\<rparr>, False))))"

definition settle_result :: "problem option \<Rightarrow> turn_result \<Rightarrow> turn_result" where
  "settle_result prob result =
     (let r = (if problem_cancel prob \<noteq> None then TurnResultAborted
               else if prob \<noteq> None then TurnResultError else result) in
      if r = TurnResultNone \<or> r = TurnResultContinue then TurnResultError else r)"

definition settle_problem :: "problem option \<Rightarrow> turn_result \<Rightarrow> problem option" where
  "settle_problem prob result =
     (if prob = None \<and> (result = TurnResultNone \<or> result = TurnResultContinue)
      then Some (Problem None None ''agentloop: Turn ended without a result'') else prob)"

definition PrepareTurnEnd ::
  "problem option \<Rightarrow> ('p, 'r, 'w) agent \<Rightarrow> (('p, 'r, 'w) agent \<times> turn_end_fact) res" where
  "PrepareTurnEnd prob0 a =
     bindE (failIf (preparing a \<noteq> None)
       (err ''agentloop: Turn settlement requires Step preparation and start confirmation to finish'')) (\<lambda>_.
     case (currentTurn a, currentStep a) of
       (Some t, None) \<Rightarrow>
         (case settling a of
            Some s \<Rightarrow>
              if settleBarrier s \<noteq> None
              then Inl (err ''agentloop: Turn end already committed; Flush is required'')
              else Inr (a, settleEvent s)
          | None \<Rightarrow>
              let prob = join_problems (cancelled_problem a) prob0;
                  intent = map_option cancellationReason (problem_cancel prob);
                  result = settle_result prob (conclusion t) in
              bindE (if currentState t \<noteq> StateSettling \<or> result \<noteq> conclusion t
                     then EnterSettling result (Some t) else Inr t) (\<lambda>candidate.
              bindE (EndValue (settle_problem prob (conclusion t)) intent (Some candidate)) (\<lambda>ended.
              bindE (NewEventDraft ''turn/end'' (marshal_turn_end ended) False) (\<lambda>draft.
              bindE (marshal_turn_end ended) (\<lambda>payload.
              let ending = \<lparr>finalSession = agentID a, finalNumber = turnNumber candidate, finalDraft = draft,
                           finalPayload = Doc payload\<rparr> in
              Inr (a\<lparr>currentTurn := Some candidate, preparing := None,
                     settling := Some \<lparr>settleEvent = ending, settleBarrier = None\<rparr>\<rparr>, ending))))))
     | _ \<Rightarrow> Inl (err ''agentloop: Turn settlement requires all Steps closed''))"

definition ConfirmTurnEnd :: "write_result \<Rightarrow> ('p, 'r, 'w) agent \<Rightarrow> ('p, 'r, 'w) agent res" where
  "ConfirmTurnEnd write a =
     (case (settling a, currentTurn a) of
        (Some s, Some t) \<Rightarrow>
          bindE (checkCommit [finalDraft (settleEvent s)] write a) (\<lambda>_.
          bindE (failIf (settleBarrier s \<noteq> None \<and> settleBarrier s \<noteq> Some (resultBarrier write))
                   (err ''agentloop: Turn end was already committed at another position'')) (\<lambda>_.
          Inr (a\<lparr>settling := Some (s\<lparr>settleBarrier := Some (resultBarrier write)\<rparr>)\<rparr>)))
      | _ \<Rightarrow> Inl (err ''agentloop: Turn end has not been prepared''))"

definition TurnBarrier :: "('p, 'r, 'w) agent \<Rightarrow> write_barrier res" where
  "TurnBarrier a =
     (case settling a of
        None \<Rightarrow> Inl (err ''agentloop: Turn end has not committed'')
      | Some s \<Rightarrow>
          (case settleBarrier s of
             None \<Rightarrow> Inl (err ''agentloop: Turn end has not committed'')
           | Some b \<Rightarrow> Inr b))"

definition ConfirmTurnFlush :: "write_barrier \<Rightarrow> ('p, 'r, 'w) agent \<Rightarrow> ('p, 'r, 'w) agent res" where
  "ConfirmTurnFlush durable a =
     bindE (TurnBarrier a) (\<lambda>boundary.
     bindE (failIf (barrierSession durable \<noteq> barrierSession boundary \<or> barrierNext durable < barrierNext boundary)
              (err ''agentloop: Flush does not cover the Turn end'')) (\<lambda>_.
     bindE (EnterClosed (currentTurn a)) (\<lambda>t.
     Inr (a\<lparr>currentTurn := None, settling := None\<rparr>))))"

section \<open>Between the steps\<close>

datatype turn_operation = ContinueSteps | RunTurnStopping string int | EndTurn turn_end_fact

definition end_turn ::
  "problem option \<Rightarrow> ('p, 'r, 'w) agent \<Rightarrow> (('p, 'r, 'w) agent \<times> turn_operation) res" where
  "end_turn prob a = bindE (PrepareTurnEnd prob a) (\<lambda>(b, ending). Inr (b, EndTurn ending))"

definition ContinueTurn ::
  "problem option \<Rightarrow> ('p, 'r, 'w) agent \<Rightarrow> (('p, 'r, 'w) agent \<times> turn_operation) res" where
  "ContinueTurn failure0 a =
     bindE (failIf (currentTurn a = None \<or> currentStep a \<noteq> None \<or> preparing a \<noteq> None \<or> modelRequest a \<noteq> None)
              (err ''agentloop: Turn continuation requires execution boundaries to finish'')) (\<lambda>_.
     let failure = join_problems (cancelled_problem a) failure0 in
     if StateValue (currentTurn a) = StateSettling then end_turn failure a
     else if StateValue (currentTurn a) \<noteq> StateOpen
     then Inl (err ''agentloop: Turn continuation requires an open or settling Turn'')
     else if failure \<noteq> None then end_turn failure a
     else
       bindE (beginStopping a) (\<lambda>(b, stopping).
       Inr (b, if stopping then RunTurnStopping (agentID b) (turnNumber (the (currentTurn b)))
               else ContinueSteps)))"

text \<open>The stopping boundary is finished even when the preparation of the end fails after it.\<close>

definition CompleteStopping ::
  "problem option \<Rightarrow> ('p, 'r, 'w) agent \<Rightarrow> ('p, 'r, 'w) agent \<times> turn_operation res" where
  "CompleteStopping hook a =
     (if currentTurn a = None \<or> StateValue (currentTurn a) \<noteq> StateStopping
      then (a, Inl (err ''agentloop: no turn-stopping hook is pending''))
      else let failure = join_problems (cancelled_problem a) hook in
        if failure \<noteq> None then
          (case end_turn failure a of Inl e \<Rightarrow> (a, Inl e) | Inr (b, x) \<Rightarrow> (b, Inr x))
        else
          (case finishStopping a of
             Inl e \<Rightarrow> (a, Inl e)
           | Inr (b, True) \<Rightarrow> (b, Inr ContinueSteps)
           | Inr (b, False) \<Rightarrow>
               (case end_turn None b of Inl e \<Rightarrow> (b, Inl e) | Inr (c, x) \<Rightarrow> (c, Inr x))))"

end
