(* ===== verification/AgentRecovery.thy ===== *)
theory AgentRecovery
  imports AgentTurns
begin

text \<open>
  Recovery of two writes whose acknowledgement was lost: the claim of input
  (\<open>src/agentloop/agent_input_recovery.go\<close>) and the start of a step
  (\<open>src/agentloop/agent_step_recovery.go\<close>), each decided by a complete snapshot.
\<close>

section \<open>The claim of input\<close>

definition claim_candidate :: "string \<Rightarrow> nat \<Rightarrow> nat \<Rightarrow> event list \<Rightarrow> write_result" where
  "claim_candidate session offset n events =
     \<lparr>firstSeq = int offset, nextSeq = int (offset + n),
      resultBarrier = \<lparr>barrierSession = session, barrierNext = int (offset + n)\<rparr>,
      resultEvents = subslice events offset n\<rparr>"

text \<open>
  The loop from the boundary on.  A batch without drafts is met a second time at the same
  offset and is then a conflict, so the loop ends.
\<close>

function claim_loop ::
  "('p, 'r, 'w) agent \<Rightarrow> event_draft list \<Rightarrow> event list \<Rightarrow> nat \<Rightarrow> write_result option \<Rightarrow>
   write_result option res" where
  "claim_loop a drafts events offset confirmed =
     (if length events \<le> offset then Inr confirmed
      else if evType (events ! offset) \<noteq> InboxSplicedEventName
      then claim_loop a drafts events (Suc offset) confirmed
      else if confirmed \<noteq> None \<or> length events < offset + length drafts
      then Inl (err ''agentloop: claim recovery found conflicting Inbox writes'')
      else
        (case checkCommit drafts (claim_candidate (agentID a) offset (length drafts) events) a of
           Inl e \<Rightarrow> Inl e
         | Inr u \<Rightarrow> claim_loop a drafts events (offset + length drafts)
                     (Some (claim_candidate (agentID a) offset (length drafts) events))))"
  by pat_completeness auto

termination
  by (relation "measure (\<lambda>(a, drafts, events, offset, confirmed).
        2 * (length events - offset) + (if confirmed = None then 1 else 0))") auto

declare claim_loop.simps [simp del]

definition ReconcileInput ::
  "snapshot \<Rightarrow> ('p, 'r, 'w) agent \<Rightarrow> (('p, 'r, 'w) agent \<times> bool) res" where
  "ReconcileInput snap a =
     (case preparing a of
        None \<Rightarrow> Inl ErrState
      | Some prep \<Rightarrow>
          if prepState prep \<noteq> InputUnconfirmed then Inl ErrState
          else
            bindE (failIf (barrierSession (snapBarrier snap) \<noteq> agentID a \<or>
                           barrierNext (snapBarrier snap) \<noteq> int (length (snapEvents snap)) \<or>
                           barrierNext (snapBarrier snap) < prepAfter prep)
                     (err ''agentloop: claim recovery requires a complete current Session snapshot'')) (\<lambda>_.
            bindE (scan_events (err ''agentloop: claim recovery sequence is discontinuous'') (\<lambda>u e. Inr u) 0 ()
                     (snapEvents snap)) (\<lambda>_.
            bindE (claim_loop a (editDrafts (prepEdit prep)) (snapEvents snap) (nat (prepAfter prep)) None)
              (\<lambda>confirmed. case confirmed of
                 None \<Rightarrow> Inr (a\<lparr>preparing := None\<rparr>, False)
               | Some write \<Rightarrow> bindE (ConfirmInput write a) (\<lambda>b. Inr (b, True))))))"

section \<open>The start of a step\<close>

record step_recovery =
  recTurn :: int
  recLast :: int
  recOpened :: bool
  recSeen :: bool
  recMatched :: "event option"

definition no_recovery :: step_recovery where
  "no_recovery = \<lparr>recTurn = 0, recLast = 0, recOpened = False, recSeen = False, recMatched = None\<rparr>"

definition recovery_start :: "step_position \<Rightarrow> step_recovery \<Rightarrow> event \<Rightarrow> step_position \<Rightarrow> step_recovery res" where
  "recovery_start expected s e position =
     bindE (failIf (recOpened s \<or> posStep position \<noteq> recLast s + 1 \<or> posStep position > posStep expected)
              (err ''agentloop: Step recovery found an unexpected start'')) (\<lambda>_.
     let s' = s\<lparr>recLast := posStep position, recOpened := True\<rparr> in
     if position \<noteq> expected then Inr s'
     else bindE (failIf (recMatched s \<noteq> None) (err ''agentloop: Step recovery found duplicate starts'')) (\<lambda>_.
       Inr (s'\<lparr>recMatched := Some e\<rparr>)))"

definition recovery_end :: "step_position \<Rightarrow> step_recovery \<Rightarrow> step_position \<Rightarrow> step_recovery res" where
  "recovery_end expected s position =
     bindE (failIf (\<not> recOpened s \<or> posStep position \<noteq> recLast s \<or> position = expected)
              (err ''agentloop: Step recovery found an unexpected end'')) (\<lambda>_.
     Inr (s\<lparr>recOpened := False\<rparr>))"

definition recovery_step :: "step_position \<Rightarrow> step_recovery \<Rightarrow> event \<Rightarrow> step_recovery res" where
  "recovery_step expected s e =
     (if evType e = ''turn/start'' then
        bindE (unmarshal_turn (evData e)) (\<lambda>started.
        bindE (failIf (started = posTurn expected \<and> recSeen s)
                 (err ''agentloop: Step recovery found duplicate Turn starts'')) (\<lambda>_.
        Inr (s\<lparr>recSeen := (recSeen s \<or> started = posTurn expected), recTurn := started, recLast := 0,
               recOpened := False\<rparr>)))
      else if evType e = ''turn/end'' then Inr (s\<lparr>recTurn := 0, recOpened := False\<rparr>)
      else if evType e = ''step/start'' \<or> evType e = ''step/end'' then
        if recTurn s \<noteq> posTurn expected then Inr s
        else
          bindE (unmarshal_position (evData e)) (\<lambda>position.
          bindE (failIf (posTurn position \<noteq> posTurn expected)
                   (err ''agentloop: Step recovery found a foreign Turn boundary'')) (\<lambda>_.
          if evType e = ''step/start'' then recovery_start expected s e position
          else recovery_end expected s position))
      else Inr s)"

definition ReconcileStepStart ::
  "snapshot \<Rightarrow> ('p, 'r, 'w) agent \<Rightarrow> (('p, 'r, 'w) agent \<times> bool) res" where
  "ReconcileStepStart snap a =
     bindE (failIf (preparing a \<noteq> None \<or>
              (case currentStep a of None \<Rightarrow> True | Some s \<Rightarrow> stepState s \<noteq> StepProposed))
       (err ''agentloop: Step start reconciliation requires an inactive preparation and unresolved candidate''))
       (\<lambda>_.
     bindE (PreparePosition a) (\<lambda>expected.
     bindE (failIf (barrierSession (snapBarrier snap) \<noteq> agentID a \<or>
                    barrierNext (snapBarrier snap) \<noteq> int (length (snapEvents snap)))
              (err ''agentloop: Step start reconciliation requires a complete Session snapshot'')) (\<lambda>_.
     bindE (scan_events (err ''agentloop: Step recovery Session sequence is discontinuous'')
              (recovery_step expected) 0 no_recovery (snapEvents snap)) (\<lambda>s.
     bindE (failIf (recTurn s \<noteq> posTurn expected)
              (err ''agentloop: Step recovery requires the current open Turn'')) (\<lambda>_.
     case recMatched s of
       Some e \<Rightarrow>
         bindE (failIf (\<not> recOpened s \<or> recLast s \<noteq> posStep expected)
                  (err ''agentloop: recovered Step is no longer current'')) (\<lambda>_.
         bindE (ConfirmStep (one_result (agentID a) e) a) (\<lambda>b. Inr (b, True)))
     | None \<Rightarrow>
         bindE (failIf (recOpened s \<or> recLast s \<noteq> LastStep (currentTurn a))
                  (err ''agentloop: Step recovery snapshot does not reach the previous boundary'')) (\<lambda>_.
         Inr (a\<lparr>currentStep := None, preparing := None\<rparr>, False)))))))"

end
