(* ===== verification/AgentLaws.thy ===== *)
theory AgentLaws
  imports AgentRecovery
begin

text \<open>
  The invariant of an agent, kept by every operation: how the turn, the step, the claim of
  input and the settlement it owns fit together, and what its execution state promises.
\<close>

section \<open>The invariant\<close>

text \<open>A step beside its turn: proposed next to an open turn, or open within a stepping one.\<close>

definition step_fits :: "turn \<Rightarrow> 'p step \<Rightarrow> bool" where
  "step_fits t s =
     ((\<exists>i. step_ok (stepPosition s) i s) \<and> stepState s \<noteq> StepClosed \<and>
      posTurn (stepPosition s) = turnNumber t \<and>
      (if stepState s = StepProposed
       then currentState t = StateOpen \<and> posStep (stepPosition s) = lastStep t + 1
       else currentState t = StateStepping \<and> posStep (stepPosition s) = lastStep t))"

definition settlement_fits :: "string \<Rightarrow> turn \<Rightarrow> settlement \<Rightarrow> bool" where
  "settlement_fits session t s =
     (currentState t = StateSettling \<and> finalSession (settleEvent s) = session \<and>
      finalNumber (settleEvent s) = turnNumber t \<and> wf_turn_end (settleEvent s))"

definition work_fits :: "('p, 'r, 'w) agent \<Rightarrow> turn \<Rightarrow> bool" where
  "work_fits a t =
     (turn_ok t \<and> currentState t \<noteq> StateClosed \<and>
      turnNumber t = (if currentState t = StateProposed then lastTurn a + 1 else lastTurn a) \<and>
      (preparing a \<noteq> None \<longrightarrow> currentState t = StateOpen \<and> currentStep a = None) \<and>
      pred_option (settlement_fits (agentID a) t) (settling a) \<and>
      (case currentStep a of None \<Rightarrow> currentState t \<noteq> StateStepping | Some s \<Rightarrow> step_fits t s))"

definition work_ok :: "('p, 'r, 'w) agent \<Rightarrow> bool" where
  "work_ok a =
     (case currentTurn a of
        None \<Rightarrow> currentStep a = None \<and> preparing a = None \<and> settling a = None
      | Some t \<Rightarrow> work_fits a t)"

definition execution_ok :: "('p, 'r, 'w) agent \<Rightarrow> bool" where
  "execution_ok a =
     ((execution a \<noteq> ExecutionRunning \<longrightarrow> currentTurn a = None \<and> modelRequest a = None) \<and>
      (execution a = ExecutionIdle \<longrightarrow> cancelCause a = None \<and> \<not> runAfterCompletion a) \<and>
      (execution a \<noteq> ExecutionIdle \<longrightarrow> ready (lifetime a)))"

definition inbox_kept :: "('p, 'r, 'w) agent \<Rightarrow> bool" where
  "inbox_kept a =
     ((ready (lifetime a) \<or> lifetime a = Restored \<longrightarrow> pendingInbox a \<noteq> None) \<and>
      pred_option inbox_ok (pendingInbox a))"

definition agent_ok :: "('p, 'r, 'w) agent \<Rightarrow> bool" where
  "agent_ok a = (work_ok a \<and> execution_ok a \<and> inbox_kept a)"

lemmas agent_ok_defs = agent_ok_def execution_ok_def inbox_kept_def

lemma work_ok_frame [simp]:
  "work_ok (a\<lparr>inboxNext := n\<rparr>) = work_ok a" "work_ok (a\<lparr>modelRequest := r\<rparr>) = work_ok a"
  "work_ok (a\<lparr>pendingInbox := p\<rparr>) = work_ok a" "work_ok (a\<lparr>execution := x\<rparr>) = work_ok a"
  "work_ok (a\<lparr>cancelCause := c\<rparr>) = work_ok a" "work_ok (a\<lparr>runAfterCompletion := w\<rparr>) = work_ok a"
  "work_ok (a\<lparr>agentFailure := f\<rparr>) = work_ok a" "work_ok (a\<lparr>agentRetry := y\<rparr>) = work_ok a"
  "work_ok (a\<lparr>lifetime := l\<rparr>) = work_ok a" "work_ok (a\<lparr>headerLogged := h\<rparr>) = work_ok a"
  "work_ok (a\<lparr>preserveInbox := h\<rparr>) = work_ok a"
  by (simp_all add: work_ok_def work_fits_def split: option.split)

lemma work_fits_owned:
  assumes "work_fits a t"
  shows "currentState t \<noteq> StateSettling \<Longrightarrow> settling a = None"
    "currentState t \<noteq> StateOpen \<Longrightarrow> preparing a = None"
    "currentState t \<noteq> StateOpen \<Longrightarrow> currentState t \<noteq> StateStepping \<Longrightarrow> currentStep a = None"
  using assms
  by (cases "settling a"; cases "currentStep a";
      auto simp: work_fits_def settlement_fits_def step_fits_def split: if_splits)+

lemma agent_okI: "work_ok a \<Longrightarrow> execution_ok a \<Longrightarrow> inbox_kept a \<Longrightarrow> agent_ok a"
  by (simp add: agent_ok_def)

lemma agent_okD: "agent_ok a \<Longrightarrow> work_ok a" "agent_ok a \<Longrightarrow> execution_ok a" "agent_ok a \<Longrightarrow> inbox_kept a"
  by (simp_all add: agent_ok_def)

lemma new_agent_ok [simp]: "agent_ok (new_agent phase) \<longleftrightarrow> \<not> ready phase \<and> phase \<noteq> Restored"
  by (auto simp: agent_ok_defs new_agent_def work_ok_def)

section \<open>Lifecycle, execution and admission\<close>

lemma RestoreAgent_ok: "RestoreAgent md snap a = Inr b \<Longrightarrow> agent_ok a \<Longrightarrow> agent_ok b"
proof -
  assume r: "RestoreAgent md snap a = Inr b" and ok: "agent_ok a"
  obtain p n where b: "lifetime a = Unrestored" "NewInbox md (snapEvents snap) = Inr p"
    "LastNumber (snapEvents snap) = Inr n"
    "b = a\<lparr>inboxNext := barrierNext (snapBarrier snap), agentID := headerID md, pendingInbox := Some p,
           lastTurn := n, lifetime := Restored\<rparr>"
    using r by (auto simp: RestoreAgent_def bindE_Inr_iff failIf_Inr)
  have "execution a = ExecutionIdle" using ok b(1) by (auto simp: agent_ok_defs ready_def)
  then have "currentTurn a = None" using ok by (simp add: agent_ok_defs)
  moreover from this have "work_ok b" using ok b(4) by (simp add: agent_ok_def work_ok_def)
  moreover have "inbox_ok p" using NewInbox_append [OF b(2)] by blast
  ultimately show ?thesis using ok b(1,4) by (simp add: agent_ok_defs ready_def)
qed

lemma InitializeAgent_ok: "InitializeAgent a = Inr b \<Longrightarrow> agent_ok a \<Longrightarrow> agent_ok b"
  by (auto simp: InitializeAgent_def bindE_Inr_iff failIf_Inr agent_ok_defs ready_def)

lemma ApplyEvents_ok:
  "ApplyEvents es a = Inr (b, c) \<Longrightarrow> agent_ok a \<Longrightarrow>
   agent_ok b \<and> (\<exists>p q. pendingInbox a = Some p \<and> ApplyInbox p es = Inr (q, c) \<and>
     b = a\<lparr>pendingInbox := Some q,
           inboxNext := (if es \<noteq> [] then evSeq (last es) + 1 else inboxNext a)\<rparr>)"
proof -
  assume e: "ApplyEvents es a = Inr (b, c)" and ok: "agent_ok a"
  obtain p q where r: "pendingInbox a = Some p" "ApplyInbox p es = Inr (q, c)"
    "b = a\<lparr>pendingInbox := Some q, inboxNext := (if es \<noteq> [] then evSeq (last es) + 1 else inboxNext a)\<rparr>"
    using e by (auto simp: ApplyEvents_def bindE_Inr_iff split: option.splits if_splits)
  have "inbox_ok q" using ApplyInbox_ok [OF r(2)] ok r(1) by (simp add: agent_ok_defs)
  then have "agent_ok b" using ok r(1,3) by (simp add: agent_ok_defs)
  with r show ?thesis by blast
qed

lemma ConfirmEdit_ok:
  "ConfirmEdit edit write a = Inr (b, c) \<Longrightarrow> agent_ok a \<Longrightarrow>
   agent_ok b \<and> (\<exists>p q n. pendingInbox a = Some p \<and> ApplyInbox p (resultEvents write) = Inr (q, c) \<and>
     b = a\<lparr>pendingInbox := Some q, inboxNext := n\<rparr>)"
  using ApplyEvents_ok [of "resultEvents write" a b c] by (auto simp: ConfirmEdit_def bindE_Inr_iff)

lemma acceptExecution_ok: "agent_ok a \<Longrightarrow> agent_ok (acceptExecution wake a)"
  by (auto simp: acceptExecution_def agent_ok_defs ready_def Let_def)

lemma ConfirmAdmission_ok: "ConfirmAdmission m write a = Inr (b, c) \<Longrightarrow> agent_ok a \<Longrightarrow> agent_ok b"
  by (auto simp: ConfirmAdmission_def bindE_Inr_iff dest: ConfirmEdit_ok intro: acceptExecution_ok)

lemma cancelExecution_ok: "agent_ok a \<Longrightarrow> agent_ok (cancelExecution intent keep a)"
  by (simp add: cancelExecution_def agent_ok_defs Let_def)

lemma CancelAgent_ok: "CancelAgent intent keep a = (b, r) \<Longrightarrow> agent_ok a \<Longrightarrow> agent_ok b"
proof -
  assume c: "CancelAgent intent keep a = (b, r)" and ok: "agent_ok a"
  let ?c = "cancelExecution intent keep a"
  have "b = a \<or> b = ?c \<or> b = ?c\<lparr>preserveInbox := keep\<rparr>"
    using c by (auto simp: CancelAgent_def Let_def split: if_splits sum.splits)
  moreover have k: "agent_ok ?c" using ok by (rule cancelExecution_ok)
  moreover from k have "agent_ok (?c\<lparr>preserveInbox := keep\<rparr>)" by (simp add: agent_ok_defs)
  ultimately show ?thesis using ok by blast
qed

lemma releaseWork_ok:
  assumes "releaseWork a = Inr (b, replay)" "agent_ok a" "execution a \<noteq> ExecutionIdle"
  shows "agent_ok b"
proof -
  obtain x where "b = a\<lparr>execution := x, cancelCause := None, runAfterCompletion := False, agentFailure := None,
      agentRetry := None\<rparr>" "\<not> owns_work a"
    using assms(1) by (auto simp: releaseWork_def bindE_Inr_iff failIf_Inr)
  with assms(2,3) show ?thesis by (simp add: agent_ok_defs owns_work_def)
qed

lemma FinishExecution_ok: "FinishExecution a = Inr (b, r) \<Longrightarrow> agent_ok a \<Longrightarrow> agent_ok b"
  by (auto simp: FinishExecution_def bindE_Inr_iff failIf_Inr intro: releaseWork_ok)

lemma FinishMaintenance_ok: "FinishMaintenance a = Inr (b, r) \<Longrightarrow> agent_ok a \<Longrightarrow> agent_ok b"
  by (auto simp: FinishMaintenance_def bindE_Inr_iff failIf_Inr intro: releaseWork_ok)

lemma checkAdmission_Inr: "checkAdmission phase = Inr u \<longleftrightarrow> phase = Available"
  by (cases phase) auto

lemma BeginMaintenance_ok: "BeginMaintenance a = Inr b \<Longrightarrow> agent_ok a \<Longrightarrow> agent_ok b"
  by (auto simp: BeginMaintenance_def CheckExecution_def checkAdmission_Inr bindE_Inr_iff failIf_Inr
      agent_ok_defs ready_def)

lemma ContinueExecution_ok: "ContinueExecution a = (b, r) \<Longrightarrow> agent_ok a \<Longrightarrow> agent_ok b"
proof -
  assume c: "ContinueExecution a = (b, r)" and ok: "agent_ok a"
  have ok': "agent_ok (a\<lparr>runAfterCompletion := True\<rparr>)" if "execution a = ExecutionRunning"
    using ok that by (simp add: agent_ok_defs)
  show ?thesis
    using c ok ok' by (auto simp: ContinueExecution_def Let_def split: if_splits sum.splits
        dest: FinishExecution_ok)
qed

lemma prepareClose_ok:
  assumes "prepareClose executing fin a = (b, r)" "agent_ok a"
  shows "agent_ok b"
proof -
  define c where "c = a\<lparr>lifetime := beginClose (lifetime a), preserveInbox := True, runAfterCompletion := False\<rparr>"
  define d where "d = (if \<not> fin \<and> execution c \<noteq> ExecutionIdle then cancelExecution (Some DisposedCancel) True c else c)"
  have "agent_ok c"
    using assms(2) unfolding c_def
    by (cases "lifetime a") (simp_all add: agent_ok_defs ready_def)
  then have d: "agent_ok d" by (simp add: d_def cancelExecution_ok)
  then have e: "agent_ok (d\<lparr>preserveInbox := True, runAfterCompletion := False\<rparr>)"
    by (simp add: agent_ok_defs)
  from assms(1) have "(if \<not> executing \<and> execution d = ExecutionRunning \<and> \<not> owns_work d then
        (case FinishExecution (d\<lparr>preserveInbox := True, runAfterCompletion := False\<rparr>) of
           Inl e \<Rightarrow> (d\<lparr>preserveInbox := True, runAfterCompletion := False\<rparr>, Inl e)
         | Inr (b, replay) \<Rightarrow> (b, CheckClose executing b))
      else (d, CheckClose executing d)) = (b, r)"
    unfolding prepareClose_def Let_def c_def [symmetric] d_def [symmetric] .
  with d e show ?thesis by (auto split: if_splits sum.splits prod.splits dest: FinishExecution_ok)
qed

lemma Drain_ok: "Drain executing a = (b, r) \<Longrightarrow> agent_ok a \<Longrightarrow> agent_ok b"
  by (auto simp: Drain_def split: if_splits dest: prepareClose_ok)

lemma ReleaseAgent_ok: "ReleaseAgent a = Inr b \<Longrightarrow> agent_ok b"
  by (auto simp: ReleaseAgent_def bindE_Inr_iff ready_def)

section \<open>Turns\<close>

text \<open>What changing the work alone keeps.\<close>

lemma work_update_ok:
  assumes "agent_ok a" "work_ok b"
    and "execution b = execution a" "lifetime b = lifetime a" "cancelCause b = cancelCause a"
      "runAfterCompletion b = runAfterCompletion a" "pendingInbox b = pendingInbox a"
    and "modelRequest b = None \<or> modelRequest b = modelRequest a"
    and "currentTurn b = None \<or> currentTurn a \<noteq> None \<or> execution a = ExecutionRunning"
  shows "agent_ok b"
  using assms unfolding agent_ok_defs by (cases "execution a") auto

lemma Cancellation_Inr: "Cancellation a = Inr u \<longleftrightarrow> cancelCause a = None"
  by (simp add: Cancellation_def split: option.splits)

lemma PrepareTurn_ok:
  assumes "PrepareTurn a = (b, r)" "agent_ok a"
  shows "agent_ok b"
proof (cases "b = a")
  case False
  then obtain t where t: "currentTurn a = None" "NewTurn (lastTurn a + 1) = Inr t" "b = a\<lparr>currentTurn := Some t\<rparr>"
    "execution a = ExecutionRunning"
    using assms(1) by (cases "execution a") (auto simp: PrepareTurn_def bindE_Inr_iff split: if_splits sum.splits)
  have "currentState t = StateProposed" using t(2) by (auto simp: NewTurn_def split: if_splits)
  with NewTurn_ok [OF t(2)] t assms(2) have "work_ok b"
    by (simp add: work_ok_def work_fits_def agent_ok_def)
  with t assms(2) show ?thesis by (intro work_update_ok [OF assms(2)]) auto
qed (use assms in simp)

lemma PrepareTurn_fact:
  assumes "PrepareTurn a = (b, Inr beginning)" "agent_ok a"
  shows "ready (lifetime a) \<and> execution a = ExecutionRunning \<and>
    beginning = \<lparr>beginSession = agentID a, beginNumber = lastTurn a + 1,
      beginDraft = \<lparr>draftType = ''turn/start'', draftData = Doc (JObj [(''turn'', jint (lastTurn a + 1))]),
        draftSources = None, draftSurfaceOp = None, draftIgnorable = False\<rparr>\<rparr> \<and>
    (\<exists>t. b = a\<lparr>currentTurn := Some t\<rparr> \<and> turnNumber t = lastTurn a + 1 \<and> currentState t = StateProposed \<and> turn_ok t)"
proof -
  have r: "ready (lifetime a)" "execution a = ExecutionRunning"
    using assms(1) by (cases "execution a"; auto simp: PrepareTurn_def split: if_splits)+
  obtain t where t: "b = a\<lparr>currentTurn := Some t\<rparr>" "turnNumber t = lastTurn a + 1" "currentState t = StateProposed"
    "turn_ok t"
  proof (cases "currentTurn a")
    case None
    with assms(1) r that show ?thesis
      using NewTurn_ok [of "lastTurn a + 1"]
      by (fastforce simp: PrepareTurn_def bindE_Inr_iff NewTurn_def split: if_splits sum.splits)
  next
    case (Some t)
    with assms(1) r have "currentState t = StateProposed" "b = a"
      by (auto simp: PrepareTurn_def StateValue_def split: if_splits)
    with Some assms(2) that [of t] show ?thesis by (simp add: agent_ok_def work_ok_def work_fits_def)
  qed
  have "bindE (StartDraft (currentTurn b)) (\<lambda>draft.
      Inr \<lparr>beginSession = agentID b, beginNumber = turnNumber (the (currentTurn b)), beginDraft = draft\<rparr>) = Inr beginning"
    using assms(1) by (auto simp: PrepareTurn_def split: if_splits sum.splits)
  then have "beginning = \<lparr>beginSession = agentID a, beginNumber = lastTurn a + 1,
      beginDraft = \<lparr>draftType = ''turn/start'', draftData = Doc (JObj [(''turn'', jint (lastTurn a + 1))]),
        draftSources = None, draftSurfaceOp = None, draftIgnorable = False\<rparr>\<rparr>"
    using t by (auto simp: StartDraft_def on_turn_def bindE_Inr_iff NewEventDraft_Inr marshal_turn_start_def)
  with r t show ?thesis by blast
qed

lemma ConfirmTurn_ok: "ConfirmTurn write a = Inr b \<Longrightarrow> agent_ok a \<Longrightarrow> agent_ok b"
proof -
  assume c: "ConfirmTurn write a = Inr b" and ok: "agent_ok a"
  obtain t t' where t: "currentTurn a = Some t" "EnterOpen (Some t) = Inr t'"
    "b = a\<lparr>currentTurn := Some t', lastTurn := turnNumber t'\<rparr>"
    using c by (auto simp: ConfirmTurn_def bindE_Inr_iff failIf_Inr)
  have w: "work_fits a t" using ok t(1) by (simp add: agent_ok_def work_ok_def)
  moreover have "currentState t = StateProposed" using t(2) by (simp add: turn_op_Inr)
  ultimately have "work_ok b"
    using t work_fits_owned [OF w] by (simp add: work_ok_def work_fits_def turn_op_Inr turn_ok_def)
  with t ok show ?thesis by (intro work_update_ok [OF ok]) auto
qed

lemma PreparePosition_Inr:
  "PreparePosition a = Inr q \<longleftrightarrow>
   (\<exists>t. currentTurn a = Some t \<and> currentState t = StateOpen \<and> lastStep t < maxNumber \<and>
      q = \<lparr>posTurn = turnNumber t, posStep = lastStep t + 1\<rparr>)"
  by (auto simp: PreparePosition_def ProposedStep_def on_turn_def bindE_Inr_iff split: option.splits if_splits)

text \<open>Two replacements of the turn within its work.\<close>

lemma turn_replaced_ok:
  assumes "agent_ok a" "currentTurn a = Some t" "turn_apply op t = Inr t'"
    "currentState t' \<notin> {StateProposed, StateClosed, StateStepping}" "currentStep a = None"
    "currentState t \<noteq> StateProposed" "settling a = None"
    "preparing b = None \<or> (preparing b = preparing a \<and> currentState t' = StateOpen)"
    "b = a\<lparr>currentTurn := Some t', preparing := preparing b\<rparr>"
  shows "agent_ok b"
proof -
  have w: "work_fits a t" using assms(1,2) by (simp add: agent_ok_def work_ok_def)
  have "turn_ok t' \<and> turnNumber t' = turnNumber t"
    using turn_apply_ok [OF assms(3)] w by (simp add: work_fits_def)
  with w assms(2-8) have "work_ok (a\<lparr>currentTurn := Some t', preparing := preparing b\<rparr>)"
    by (auto simp: work_ok_def work_fits_def)
  moreover have "agent_ok (a\<lparr>currentTurn := Some t', preparing := preparing b\<rparr>)"
    if "work_ok (a\<lparr>currentTurn := Some t', preparing := preparing b\<rparr>)"
    using that assms(1,2) by (intro work_update_ok [OF assms(1)]) auto
  ultimately show ?thesis using assms(9) by simp
qed

section \<open>Input and steps\<close>

lemma PrepareInput_ok: "PrepareInput a = Inr (b, edit) \<Longrightarrow> agent_ok a \<Longrightarrow> agent_ok b"
proof -
  assume p: "PrepareInput a = Inr (b, edit)" and ok: "agent_ok a"
  obtain t prep where t: "currentTurn a = Some t" "currentState t = StateOpen" "currentStep a = None"
    "preparing a = None" "b = a\<lparr>preparing := Some prep\<rparr>"
    using p by (auto simp: PrepareInput_def bindE_Inr_iff failIf_Inr PreparePosition_Inr)
  have "work_fits a t" using ok t(1) by (simp add: agent_ok_def work_ok_def)
  then have "work_ok b" using t by (simp add: work_ok_def work_fits_def)
  with t ok show ?thesis by (intro work_update_ok [OF ok]) auto
qed

lemma preparing_replaced_ok:
  assumes "agent_ok a" "preparing a \<noteq> None" "b = a\<lparr>preparing := prep\<rparr>"
  shows "agent_ok b"
proof -
  obtain t where t: "currentTurn a = Some t" "work_fits a t"
    using assms(1,2) by (cases "currentTurn a") (auto simp: agent_ok_def work_ok_def)
  then have "work_ok b" using assms(2,3) by (simp add: work_ok_def work_fits_def)
  with t assms show ?thesis by (intro work_update_ok [OF assms(1)]) auto
qed

lemma ConfirmInput_ok:
  assumes "ConfirmInput write a = Inr b" "agent_ok a"
  shows "agent_ok b"
proof -
  obtain c prep changes where c: "preparing a \<noteq> None" "ConfirmEdit (prepEdit (the (preparing a))) write a = Inr (c, changes)"
    "b = c\<lparr>preparing := Some prep\<rparr>"
    using assms(1) by (auto simp: ConfirmInput_def bindE_Inr_iff split: option.splits if_splits)
  have "agent_ok c" "preparing c = preparing a" using ConfirmEdit_ok [OF c(2) assms(2)] by auto
  with c preparing_replaced_ok [of c b "Some prep"] show ?thesis by simp
qed

lemma PreparePreStep_ok: "PreparePreStep a = Inr (b, x) \<Longrightarrow> agent_ok a \<Longrightarrow> agent_ok b"
  by (auto simp: PreparePreStep_def bindE_Inr_iff split: option.splits if_splits
      intro!: preparing_replaced_ok [of a])

lemma AbandonPreparation_ok: "AbandonPreparation a = Inr b \<Longrightarrow> agent_ok a \<Longrightarrow> agent_ok b"
  by (auto simp: AbandonPreparation_def bindE_Inr_iff failIf_Inr split: option.splits
      intro!: preparing_replaced_ok [of a])

text \<open>A preparation belongs to an open turn between steps.\<close>

lemma preparing_turn:
  assumes "agent_ok a" "preparing a \<noteq> None"
  shows "\<exists>t. currentTurn a = Some t \<and> currentState t = StateOpen \<and> currentStep a = None \<and> settling a = None"
proof -
  obtain t where t: "currentTurn a = Some t" "work_fits a t"
    using assms by (cases "currentTurn a") (auto simp: agent_ok_def work_ok_def)
  then show ?thesis using assms(2) work_fits_owned [OF t(2)] by (simp add: work_fits_def)
qed

lemma settle_now_ok:
  assumes "agent_ok a" "preparing a \<noteq> None" "EnterSettling r (currentTurn a) = Inr t'"
    "b = a\<lparr>currentTurn := Some t', preparing := None\<rparr>"
  shows "agent_ok b"
proof -
  obtain t where t: "currentTurn a = Some t" "currentState t = StateOpen" "currentStep a = None" "settling a = None"
    using preparing_turn [OF assms(1,2)] by blast
  have "currentState t' = StateSettling" using assms(3) t(1) by (simp add: turn_op_Inr)
  with t assms show ?thesis
    by (intro turn_replaced_ok [OF assms(1) t(1), of "OpSettling r" t']) auto
qed

lemma AcceptPreStep_ok: "AcceptPreStep decision a = Inr (b, x) \<Longrightarrow> agent_ok a \<Longrightarrow> agent_ok b"
  by (auto simp: AcceptPreStep_def bindE_Inr_iff split: option.splits if_splits
      intro: settle_now_ok preparing_replaced_ok)

lemma copyInput_ok: "copyInput clonePrompt i = Inr j \<Longrightarrow> \<exists>p. j = \<lparr>inputMessages = inputMessages j, inputPrompt = p\<rparr>"
  by (cases j) simp

lemma open_step_ok:
  assumes "agent_ok a" "preparing a \<noteq> None" "PreparePosition a = Inr q"
    "open_step clonePrompt i q a = Inr (b, d)"
  shows "agent_ok b"
proof -
  obtain t where t: "currentTurn a = Some t" "currentState t = StateOpen" "currentStep a = None" "settling a = None"
    using preparing_turn [OF assms(1,2)] by blast
  obtain s0 j where s: "NewStep (posTurn q) (posStep q) = Inr s0" "b = a\<lparr>currentStep := Some (s0\<lparr>stepInput := Some j\<rparr>), preparing := None\<rparr>"
    using assms(4) by (auto simp: open_step_def Capture_def bindE_Inr_iff split: if_splits)
  have "step_ok q j (s0\<lparr>stepInput := Some j\<rparr>)"
    using step_run_ok [OF step_run.captured [OF s(1)]] .
  moreover have "stepState s0 = StepProposed" using s(1) by (auto simp: NewStep_def split: if_splits)
  moreover have "q = \<lparr>posTurn = turnNumber t, posStep = lastStep t + 1\<rparr>"
    using assms(3) t(1) by (simp add: PreparePosition_Inr)
  ultimately have "step_fits t (s0\<lparr>stepInput := Some j\<rparr>)"
    using t(2) by (auto simp: step_fits_def step_ok_def)
  moreover have "work_fits a t" using assms(1) t(1) by (simp add: agent_ok_def work_ok_def)
  ultimately have "work_ok b" using t s(2) by (simp add: work_ok_def work_fits_def)
  with s(2) t show ?thesis by (intro work_update_ok [OF assms(1)]) auto
qed

lemma PrepareStep_ok:
  assumes "PrepareStep clonePrompt renderSections fresh snap provided a = Inr (b, d)" "agent_ok a"
  shows "agent_ok b"
proof (cases "currentStep a")
  case (Some s)
  with assms show ?thesis by (auto simp: PrepareStep_def bindE_Inr_iff split: if_splits)
next
  case None
  obtain prep where prep: "preparing a = Some prep"
    using assms(1) None by (cases "preparing a") (auto simp: PrepareStep_def bindE_Inr_iff)
  obtain q r where p: "PreparePosition a = Inr q"
    "settle_empty r a = Inr (b, d) \<or> (\<exists>i. open_step clonePrompt i q a = Inr (b, d))"
    using assms(1) None prep
    by (auto simp: PrepareStep_def bindE_Inr_iff Let_def split: if_splits)
  from p(2) show ?thesis
  proof
    assume "settle_empty r a = Inr (b, d)"
    then show ?thesis using settle_now_ok [OF assms(2)] prep by (auto simp: settle_empty_def bindE_Inr_iff)
  next
    assume "\<exists>i. open_step clonePrompt i q a = Inr (b, d)"
    then show ?thesis using open_step_ok [OF assms(2) _ p(1)] prep by auto
  qed
qed

text \<open>A step replaced by an accepted transition of it.\<close>

lemma step_replaced_ok:
  assumes "agent_ok a" "currentStep a = Some s" "step_apply op s = Inr s'" "stepState s \<noteq> StepProposed"
    "stepState s' \<notin> {StepProposed, StepClosed}" "b = a\<lparr>currentStep := Some s'\<rparr>"
  shows "agent_ok b"
proof -
  obtain t where t: "currentTurn a = Some t" "work_fits a t"
    using assms(1,2) by (cases "currentTurn a") (auto simp: agent_ok_def work_ok_def)
  then have f: "step_fits t s" using assms(2) by (simp add: work_fits_def)
  then obtain i where "step_ok (stepPosition s) i s" by (auto simp: step_fits_def)
  from step_apply_ok [OF assms(3) this] have "step_ok (stepPosition s) i s'" "stepPosition s' = stepPosition s"
    by (simp_all add: step_ok_def)
  with f assms(4,5) have "step_fits t s'" by (auto simp: step_fits_def)
  with t assms(2,6) have "work_ok b" by (simp add: work_ok_def work_fits_def)
  with t assms(6) show ?thesis by (intro work_update_ok [OF assms(1)]) auto
qed

lemma AgentConfirmMessage_ok:
  assumes "AgentConfirmMessage write a = Inr b" "agent_ok a"
  shows "agent_ok b"
proof -
  obtain s s' where s: "currentStep a = Some s" "ConfirmMessage write (Some s) = Inr s'" "b = a\<lparr>currentStep := Some s'\<rparr>"
    using assms(1) by (auto simp: AgentConfirmMessage_def bindE_Inr_iff failIf_Inr)
  then show ?thesis
    using ConfirmMessage_Inr [OF s(2)] by (intro step_replaced_ok [OF assms(2) s(1), of "OpConfirmMessage write" s']) auto
qed

lemma BeginRequest_ok:
  assumes "BeginRequest a = Inr b" "agent_ok a"
  shows "agent_ok b"
proof -
  obtain s s' where s: "currentStep a = Some s" "EnterRequesting (Some s) = Inr s'" "b = a\<lparr>currentStep := Some s'\<rparr>"
    using assms(1) by (auto simp: BeginRequest_def bindE_Inr_iff failIf_Inr)
  then show ?thesis
    by (intro step_replaced_ok [OF assms(2) s(1), of OpRequesting s']) (auto simp: step_phase_Inr)
qed

lemma BeginTools_ok:
  assumes "BeginTools outcome a = Inr b" "agent_ok a"
  shows "agent_ok b"
proof -
  obtain s s' where s: "currentStep a = Some s" "EnterTooling (Some s) = Inr s'" "b = a\<lparr>currentStep := Some s'\<rparr>"
    using assms(1) by (auto simp: BeginTools_def bindE_Inr_iff failIf_Inr)
  then show ?thesis
    by (intro step_replaced_ok [OF assms(2) s(1), of OpTooling s']) (auto simp: step_phase_Inr)
qed

lemma PrepareStepEnd_ok:
  assumes "PrepareStepEnd outcome r a = Inr (b, e)" "agent_ok a"
  shows "agent_ok b"
proof -
  obtain s s' where s: "currentStep a = Some s" "b = a\<lparr>currentStep := Some s'\<rparr>"
    "(stepState s = StepSettling \<and> s' = s) \<or> EnterSettling_step r (Some s) = Inr s'"
    using assms(1) by (auto simp: PrepareStepEnd_def bindE_Inr_iff split: option.splits if_splits)
  from s(3) show ?thesis
  proof
    assume "stepState s = StepSettling \<and> s' = s"
    then have "b = a" using s(1,2) by simp
    with assms(2) show ?thesis by simp
  next
    assume e: "EnterSettling_step r (Some s) = Inr s'"
    then show ?thesis
      using s by (intro step_replaced_ok [OF assms(2) s(1), of "OpSettle r" s']) (auto simp: step_phase_Inr)
  qed
qed

lemma endStep_ok: "endStep outcome r f a = Inr (b, e) \<Longrightarrow> agent_ok a \<Longrightarrow> agent_ok b"
  by (auto simp: endStep_def bindE_Inr_iff dest: PrepareStepEnd_ok)

lemma CompleteTools_ok: "CompleteTools outcome batch f a = Inr (b, e) \<Longrightarrow> agent_ok a \<Longrightarrow> agent_ok b"
  by (auto simp: CompleteTools_def bindE_Inr_iff dest: endStep_ok)

lemma CompleteModel_ok:
  assumes "CompleteModel outcome a = (b, r)" "agent_ok a"
  shows "agent_ok b"
proof -
  have acc: "agent_ok (acceptModel c a)" for c
    using assms(2) by (simp add: acceptModel_def agent_ok_defs)
  have ch: "agent_ok d" if "choose_action outcome c (acceptModel c a) = Inr (d, x)" for c d x
    using that acc [of c] by (auto simp: choose_action_def bindE_Inr_iff split: if_splits
        dest: endStep_ok BeginTools_ok)
  have req: "agent_ok (d\<lparr>modelRequest := None\<rparr>)" if "agent_ok d" for d
    using that by (simp add: agent_ok_defs)
  show ?thesis
    using assms(1,2)
    by (auto simp: CompleteModel_def intro!: acc intro: req ch split: option.splits sum.splits if_splits)
qed

lemma ConfirmStep_ok:
  assumes "ConfirmStep write a = Inr b" "agent_ok a"
  shows "agent_ok b"
proof -
  obtain s q s' t' where s: "currentStep a = Some s" "stepState s = StepProposed" "PreparePosition a = Inr q"
    "ConfirmStart (hd (resultEvents write)) (Some s) = Inr s'" "EnterStepping (posStep q) (currentTurn a) = Inr t'"
    "b = a\<lparr>currentTurn := Some t', currentStep := Some s'\<rparr>"
    using assms(1) by (auto simp: ConfirmStep_def bindE_Inr_iff split: option.splits if_splits)
  obtain t where t: "currentTurn a = Some t" "currentState t = StateOpen"
    "q = \<lparr>posTurn = turnNumber t, posStep = lastStep t + 1\<rparr>"
    using s(3) by (auto simp: PreparePosition_Inr)
  have w: "work_fits a t" using assms(2) t(1) by (simp add: agent_ok_def work_ok_def)
  then have f: "step_fits t s" using s(1) by (simp add: work_fits_def)
  then obtain i where "step_ok (stepPosition s) i s" by (auto simp: step_fits_def)
  then have "step_ok (stepPosition s) i s'" "stepPosition s' = stepPosition s"
    using step_apply_ok [of "OpConfirmStart (hd (resultEvents write))" s s'] s(4) by (simp_all add: step_ok_def)
  moreover have "stepState s' = StepOpen" using ConfirmStart_Inr [OF s(4)] by simp
  moreover have t': "t' = t\<lparr>lastStep := lastStep t + 1, currentState := StateStepping\<rparr>"
    using s(5) t by (simp add: turn_op_Inr)
  ultimately have "step_fits t' s'" using f s(2) t by (auto simp: step_fits_def)
  moreover have "turn_ok t'" using turn_apply_ok [of "OpStepping (posStep q)" t t'] s(5) t(1) w by (simp add: work_fits_def)
  ultimately have "work_ok b"
    using w work_fits_owned [OF w] s(1,6) t t' by (simp add: work_ok_def work_fits_def)
  with s t show ?thesis by (intro work_update_ok [OF assms(2)]) auto
qed

lemma ConfirmStepEnd_ok:
  assumes "ConfirmStepEnd write a = Inr b" "agent_ok a"
  shows "agent_ok b"
proof -
  obtain s t s' t' where s: "currentStep a = Some s" "currentTurn a = Some t"
    "ConfirmEnd (hd (resultEvents write)) (Some s) = Inr s'"
    "EnterOpenAfterStep (ResultFromStep (stepConclusion s')) (Some t) = Inr t'"
    "b = a\<lparr>currentTurn := Some t', currentStep := None\<rparr>"
    using assms(1) by (auto simp: ConfirmStepEnd_def bindE_Inr_iff failIf_Inr)
  have w: "work_fits a t" using assms(2) s(2) by (simp add: agent_ok_def work_ok_def)
  have t': "currentState t = StateStepping" "currentState t' = StateOpen" "turnNumber t' = turnNumber t"
    using s(4) by (auto simp: turn_op_Inr)
  moreover have "turn_ok t'"
    using turn_apply_ok [of "OpAfterStep (ResultFromStep (stepConclusion s'))" t t'] s(4) w by (simp add: work_fits_def)
  ultimately have "work_ok b"
    using w work_fits_owned [OF w] s by (simp add: work_ok_def work_fits_def)
  with s show ?thesis by (intro work_update_ok [OF assms(2)]) auto
qed

section \<open>Stopping and settlement\<close>

lemma between_steps:
  assumes "agent_ok a" "currentTurn a = Some t" "currentStep a = None" "settling a = None" "preparing a = None"
    "turn_apply op t = Inr t'" "currentState t' \<notin> {StateProposed, StateClosed, StateStepping}"
    "currentState t \<noteq> StateProposed" "b = a\<lparr>currentTurn := Some t'\<rparr>"
  shows "agent_ok b"
  using assms by (intro turn_replaced_ok [OF assms(1,2,6)]) auto

lemma turn_owned:
  assumes "agent_ok a" "currentTurn a = Some t"
  shows "currentState t \<noteq> StateSettling \<Longrightarrow> settling a = None"
    "currentState t \<noteq> StateOpen \<Longrightarrow> preparing a = None"
    "currentState t \<noteq> StateOpen \<Longrightarrow> currentState t \<noteq> StateStepping \<Longrightarrow> currentStep a = None"
proof -
  have w: "work_fits a t" using assms by (simp add: agent_ok_def work_ok_def)
  show "currentState t \<noteq> StateSettling \<Longrightarrow> settling a = None"
    "currentState t \<noteq> StateOpen \<Longrightarrow> preparing a = None"
    "currentState t \<noteq> StateOpen \<Longrightarrow> currentState t \<noteq> StateStepping \<Longrightarrow> currentStep a = None"
    using work_fits_owned [OF w] by auto
qed

lemma beginStopping_ok:
  assumes "beginStopping a = Inr (b, x)" "agent_ok a" "preparing a = None"
  shows "agent_ok b"
proof (cases x)
  case True
  with assms(1) obtain t t' where t: "currentTurn a = Some t" "currentState t = StateOpen" "currentStep a = None"
    "EnterStopping (Some t) = Inr t'" "b = a\<lparr>currentTurn := Some t'\<rparr>"
    by (auto simp: beginStopping_def StateValue_def bindE_Inr_iff failIf_Inr Let_def split: if_splits)
  show ?thesis
    by (rule between_steps [OF assms(2) t(1,3) _ assms(3), of OpStopping t'])
       (use t turn_owned [OF assms(2) t(1)] in \<open>auto simp: turn_op_Inr\<close>)
next
  case False
  with assms show ?thesis by (auto simp: beginStopping_def bindE_Inr_iff Let_def split: if_splits)
qed

lemma finishStopping_ok:
  assumes "finishStopping a = Inr (b, x)" "agent_ok a"
  shows "agent_ok b"
proof -
  obtain t t' r where t: "currentTurn a = Some t" "currentState t = StateStopping" "b = a\<lparr>currentTurn := Some t'\<rparr>"
    "EnterOpenAfterStopping (Some t) = Inr t' \<or> EnterSettling r (Some t) = Inr t'"
    using assms(1)
    by (auto simp: finishStopping_def StateValue_def bindE_Inr_iff failIf_Inr split: if_splits)
  note own = turn_owned [OF assms(2) t(1)]
  from t(4) show ?thesis
  proof
    assume "EnterOpenAfterStopping (Some t) = Inr t'"
    then show ?thesis
      by (intro between_steps [OF assms(2) t(1), of OpAfterStopping t']) (use t own in \<open>auto simp: turn_op_Inr\<close>)
  next
    assume "EnterSettling r (Some t) = Inr t'"
    then show ?thesis
      by (intro between_steps [OF assms(2) t(1), of "OpSettling r" t']) (use t own in \<open>auto simp: turn_op_Inr\<close>)
  qed
qed

end
