(* ===== verification/AgentRuns.thy ===== *)
theory AgentRuns
  imports AgentLaws
begin

text \<open>
  The settlement and the recoveries keep the invariant of an agent, too, and the code relies
  on it: an agent that admits work always has its inbox.
\<close>

section \<open>Settlement\<close>

lemma marshalled_turn:
  "marshal_turn_end ended = Inr j \<Longrightarrow> unmarshal_turn (Doc j) = Inr (endedTurn ended) \<and> 0 < endedTurn ended"
proof -
  assume m: "marshal_turn_end ended = Inr j"
  then obtain r where j: "j = JObj [(''turn'', jint (endedTurn ended)), (''reason'', r)]"
    "isSafeNonNegative (endedTurn ended)" "endedTurn ended \<noteq> 0"
    by (auto simp: marshal_turn_end_def bindE_Inr_iff split: if_splits option.splits)
  have "0 < endedTurn ended" using j(2,3) by (simp add: isSafeNonNegative_def)
  with int64_scan [OF isSafeNonNegative_int64 [OF j(2)]] show ?thesis
    by (simp add: j(1) unmarshal_turn_def get_int64_def del: as_int64.simps lossless.simps(4))
qed

lemma EndValue_turn: "EndValue prob c (Some t) = Inr ended \<Longrightarrow> endedTurn ended = turnNumber t \<and> currentState t = StateSettling"
  by (auto simp: EndValue_def on_turn_def bindE_Inr_iff split: if_splits)

lemma PrepareTurnEnd_Inr:
  assumes "PrepareTurnEnd prob a = Inr (b, ending)"
  shows "\<exists>t. currentTurn a = Some t \<and> currentStep a = None \<and> preparing a = None \<and>
    ((b = a \<and> settling a = Some \<lparr>settleEvent = ending, settleBarrier = None\<rparr>) \<or>
     (settling a = None \<and> (\<exists>u. (u = t \<and> currentState t = StateSettling \<or> (\<exists>r. EnterSettling r (Some t) = Inr u)) \<and>
        currentState u = StateSettling \<and> turnNumber u = turnNumber t \<and>
        b = a\<lparr>currentTurn := Some u, settling := Some \<lparr>settleEvent = ending, settleBarrier = None\<rparr>\<rparr> \<and>
        finalSession ending = agentID a \<and> finalNumber ending = turnNumber t \<and> wf_turn_end ending)))"
proof -
  obtain t where t: "currentTurn a = Some t" "currentStep a = None" "preparing a = None"
    using assms by (auto simp: PrepareTurnEnd_def bindE_Inr_iff failIf_Inr split: option.splits)
  show ?thesis
  proof (cases "settling a")
    case (Some s)
    with assms t have "settleBarrier s = None" "b = a" "ending = settleEvent s"
      by (auto simp: PrepareTurnEnd_def split: if_splits)
    with t Some show ?thesis by (cases s) simp
  next
    case None
    let ?prob = "join_problems (cancelled_problem a) prob"
    let ?r = "settle_result ?prob (conclusion t)"
    let ?final = "EndValue (settle_problem ?prob (conclusion t)) (map_option cancellationReason (problem_cancel ?prob))"
    let ?make = "\<lambda>u draft payload. \<lparr>finalSession = agentID a, finalNumber = turnNumber u, finalDraft = draft,
        finalPayload = Doc payload\<rparr>"
    have "bindE (if currentState t \<noteq> StateSettling \<or> ?r \<noteq> conclusion t then EnterSettling ?r (Some t) else Inr t) (\<lambda>u.
        bindE (?final (Some u)) (\<lambda>ended.
        bindE (NewEventDraft ''turn/end'' (marshal_turn_end ended) False) (\<lambda>draft.
        bindE (marshal_turn_end ended) (\<lambda>payload.
        Inr (a\<lparr>currentTurn := Some u, preparing := None,
               settling := Some \<lparr>settleEvent = ?make u draft payload, settleBarrier = None\<rparr>\<rparr>,
             ?make u draft payload))))) = Inr (b, ending)"
      using assms unfolding PrepareTurnEnd_def t None by (simp only: Let_def failIf_def prod.case option.case
          simp_thms if_False bindE.simps)
    then have "\<exists>u ended draft payload.
      (if currentState t \<noteq> StateSettling \<or> ?r \<noteq> conclusion t then EnterSettling ?r (Some t) else Inr t) = Inr u \<and>
      ?final (Some u) = Inr ended \<and> NewEventDraft ''turn/end'' (marshal_turn_end ended) False = Inr draft \<and>
      marshal_turn_end ended = Inr payload \<and>
      (a\<lparr>currentTurn := Some u, preparing := None,
         settling := Some \<lparr>settleEvent = ?make u draft payload, settleBarrier = None\<rparr>\<rparr>, ?make u draft payload)
        = (b, ending)"
      unfolding bindE_Inr_iff sum.inject by blast
    then obtain u ended draft payload where u:
      "(if currentState t \<noteq> StateSettling \<or> ?r \<noteq> conclusion t then EnterSettling ?r (Some t) else Inr t) = Inr u"
      "?final (Some u) = Inr ended" "NewEventDraft ''turn/end'' (marshal_turn_end ended) False = Inr draft"
      "marshal_turn_end ended = Inr payload" "ending = ?make u draft payload"
      "b = a\<lparr>currentTurn := Some u, preparing := None,
         settling := Some \<lparr>settleEvent = ?make u draft payload, settleBarrier = None\<rparr>\<rparr>"
      unfolding prod.inject by blast
    have n: "u = t \<and> currentState t = StateSettling \<or> (\<exists>r. EnterSettling r (Some t) = Inr u)"
      using u(1) by (cases "currentState t \<noteq> StateSettling \<or> ?r \<noteq> conclusion t") auto
    have nn: "turnNumber u = turnNumber t" using n by (auto simp: turn_op_Inr)
    have e: "endedTurn ended = turnNumber u" "currentState u = StateSettling" using EndValue_turn [OF u(2)] by auto
    have "wf_turn_end ending"
      using u(3-5) marshalled_turn [OF u(4)] e(1) by (auto simp: wf_turn_end_def NewEventDraft_Inr)
    moreover have "b = a\<lparr>currentTurn := Some u, settling := Some \<lparr>settleEvent = ending, settleBarrier = None\<rparr>\<rparr>"
      using u(5,6) t(3) by simp
    moreover have "finalSession ending = agentID a" "finalNumber ending = turnNumber t"
      using u(5) nn by simp_all
    ultimately have "settling a = None \<and> (\<exists>u. (u = t \<and> currentState t = StateSettling \<or> (\<exists>r. EnterSettling r (Some t) = Inr u)) \<and>
        currentState u = StateSettling \<and> turnNumber u = turnNumber t \<and>
        b = a\<lparr>currentTurn := Some u, settling := Some \<lparr>settleEvent = ending, settleBarrier = None\<rparr>\<rparr> \<and>
        finalSession ending = agentID a \<and> finalNumber ending = turnNumber t \<and> wf_turn_end ending)"
      using None n nn e(2) by blast
    with t show ?thesis by blast
  qed
qed

lemma PrepareTurnEnd_ok:
  assumes "PrepareTurnEnd prob a = Inr (b, ending)" "agent_ok a"
  shows "agent_ok b"
proof -
  obtain t where t: "currentTurn a = Some t" "currentStep a = None" "preparing a = None" and c:
    "b = a \<or> (settling a = None \<and> (\<exists>u. (u = t \<and> currentState t = StateSettling \<or> (\<exists>r. EnterSettling r (Some t) = Inr u)) \<and>
        currentState u = StateSettling \<and> turnNumber u = turnNumber t \<and>
        b = a\<lparr>currentTurn := Some u, settling := Some \<lparr>settleEvent = ending, settleBarrier = None\<rparr>\<rparr> \<and>
        finalSession ending = agentID a \<and> finalNumber ending = turnNumber t \<and> wf_turn_end ending))"
    using PrepareTurnEnd_Inr [OF assms(1)] by blast
  have w: "work_fits a t" using assms(2) t(1) by (simp add: agent_ok_def work_ok_def)
  from c show ?thesis
  proof
    assume "settling a = None \<and> (\<exists>u. (u = t \<and> currentState t = StateSettling \<or> (\<exists>r. EnterSettling r (Some t) = Inr u)) \<and>
        currentState u = StateSettling \<and> turnNumber u = turnNumber t \<and>
        b = a\<lparr>currentTurn := Some u, settling := Some \<lparr>settleEvent = ending, settleBarrier = None\<rparr>\<rparr> \<and>
        finalSession ending = agentID a \<and> finalNumber ending = turnNumber t \<and> wf_turn_end ending)"
    then obtain u r where u: "u = t \<and> currentState t = StateSettling \<or> EnterSettling r (Some t) = Inr u"
      "currentState u = StateSettling" "turnNumber u = turnNumber t"
      "b = a\<lparr>currentTurn := Some u, settling := Some \<lparr>settleEvent = ending, settleBarrier = None\<rparr>\<rparr>"
      "finalSession ending = agentID a" "finalNumber ending = turnNumber t" "wf_turn_end ending"
      by blast
    have "turn_ok u" "currentState t \<noteq> StateProposed"
      using u(1) w turn_apply_ok [of "OpSettling r" t u] by (auto simp: work_fits_def turn_op_Inr)
    with u w t have "work_ok b" by (simp add: work_ok_def work_fits_def settlement_fits_def)
    with u(4) t show ?thesis by (intro work_update_ok [OF assms(2)]) auto
  qed (use assms(2) in simp)
qed

lemma settling_turn:
  assumes "agent_ok a" "settling a = Some s"
  shows "\<exists>t. currentTurn a = Some t \<and> settlement_fits (agentID a) t s \<and> currentStep a = None \<and> preparing a = None"
proof -
  obtain t where t: "currentTurn a = Some t" "work_fits a t"
    using assms by (cases "currentTurn a") (auto simp: agent_ok_def work_ok_def)
  then have f: "settlement_fits (agentID a) t s" using assms(2) by (simp add: work_fits_def)
  with turn_owned [OF assms(1) t(1)] t show ?thesis by (simp add: settlement_fits_def)
qed

lemma ConfirmTurnEnd_ok:
  assumes "ConfirmTurnEnd write a = Inr b" "agent_ok a"
  shows "agent_ok b"
proof -
  obtain s t where s: "settling a = Some s" "currentTurn a = Some t"
    "b = a\<lparr>settling := Some (s\<lparr>settleBarrier := Some (resultBarrier write)\<rparr>)\<rparr>"
    using assms(1) by (auto simp: ConfirmTurnEnd_def bindE_Inr_iff split: option.splits)
  have "work_fits a t" using assms(2) s(2) by (simp add: agent_ok_def work_ok_def)
  with settling_turn [OF assms(2) s(1)] s have "work_ok b"
    by (simp add: work_ok_def work_fits_def settlement_fits_def)
  with s show ?thesis by (intro work_update_ok [OF assms(2)]) auto
qed

lemma ConfirmTurnFlush_ok:
  assumes "ConfirmTurnFlush durable a = Inr b" "agent_ok a"
  shows "agent_ok b"
proof -
  obtain s where s: "settling a = Some s" "b = a\<lparr>currentTurn := None, settling := None\<rparr>"
    using assms(1) by (auto simp: ConfirmTurnFlush_def TurnBarrier_def bindE_Inr_iff split: option.splits)
  have "work_ok b" using settling_turn [OF assms(2) s(1)] s(2) by (auto simp: work_ok_def)
  with s(2) show ?thesis by (intro work_update_ok [OF assms(2)]) auto
qed

lemma ContinueTurn_ok:
  assumes "ContinueTurn f a = Inr (b, x)" "agent_ok a"
  shows "agent_ok b"
proof -
  have "preparing a = None" using assms(1) by (auto simp: ContinueTurn_def bindE_Inr_iff failIf_Inr)
  with assms show ?thesis
    by (auto simp: ContinueTurn_def end_turn_def bindE_Inr_iff Let_def split: if_splits
        dest: PrepareTurnEnd_ok beginStopping_ok)
qed

lemma end_turn_ok: "end_turn prob a = Inr (b, x) \<Longrightarrow> agent_ok a \<Longrightarrow> agent_ok b"
  by (auto simp: end_turn_def bindE_Inr_iff dest: PrepareTurnEnd_ok)

lemma CompleteStopping_ok:
  assumes "CompleteStopping hook a = (b, x)" "agent_ok a"
  shows "agent_ok b"
proof -
  have fin: "agent_ok c" if "finishStopping a = Inr (c, y)" for c y
    using finishStopping_ok [OF that assms(2)] .
  from assms(1) have "b = a \<or> (\<exists>p y. end_turn p a = Inr (b, y)) \<or> (\<exists>y. finishStopping a = Inr (b, y)) \<or>
      (\<exists>c y z. finishStopping a = Inr (c, y) \<and> end_turn None c = Inr (b, z))"
    by (auto simp: CompleteStopping_def Let_def split: if_splits sum.splits bool.splits)
  then show ?thesis using assms(2) fin end_turn_ok by blast
qed

section \<open>Recovery\<close>

lemma ReconcileInput_ok:
  assumes "ReconcileInput snap a = Inr (b, x)" "agent_ok a"
  shows "agent_ok b"
proof -
  have p: "preparing a \<noteq> None" using assms(1) by (cases "preparing a") (auto simp: ReconcileInput_def)
  have "b = a\<lparr>preparing := None\<rparr> \<or> (\<exists>w. ConfirmInput w a = Inr b)"
    using assms(1) by (auto simp: ReconcileInput_def bindE_Inr_iff split: option.splits if_splits)
  then show ?thesis using ConfirmInput_ok assms(2) preparing_replaced_ok [OF assms(2) p] by blast
qed

lemma step_dropped_ok:
  assumes "agent_ok a" "currentStep a = Some s" "stepState s = StepProposed" "preparing a = None"
  shows "agent_ok (a\<lparr>currentStep := None\<rparr>)"
proof -
  obtain t where t: "currentTurn a = Some t" "work_fits a t"
    using assms(1,2) by (cases "currentTurn a") (auto simp: agent_ok_def work_ok_def)
  then have "currentState t = StateOpen" using assms(2,3) by (simp add: work_fits_def step_fits_def)
  with t assms(4) have "work_ok (a\<lparr>currentStep := None\<rparr>)" by (simp add: work_ok_def work_fits_def)
  with t show ?thesis by (intro work_update_ok [OF assms(1)]) auto
qed

lemma ReconcileStepStart_ok:
  assumes "ReconcileStepStart snap a = Inr (b, x)" "agent_ok a"
  shows "agent_ok b"
proof -
  obtain s where s: "preparing a = None" "currentStep a = Some s" "stepState s = StepProposed"
    using assms(1) by (auto simp: ReconcileStepStart_def bindE_Inr_iff failIf_Inr split: option.splits)
  have "b = a\<lparr>currentStep := None\<rparr> \<or> (\<exists>w. ConfirmStep w a = Inr b)"
    using assms(1) s(1) by (auto simp: ReconcileStepStart_def bindE_Inr_iff split: option.splits)
  then show ?thesis using ConfirmStep_ok assms(2) step_dropped_ok [OF assms(2) s(2,3,1)] by blast
qed

section \<open>What an operation keeps\<close>

lemmas agent_ops_ok =
  RestoreAgent_ok InitializeAgent_ok ConfirmAdmission_ok CancelAgent_ok FinishExecution_ok ContinueExecution_ok
  BeginMaintenance_ok FinishMaintenance_ok Drain_ok ReleaseAgent_ok PrepareTurn_ok ConfirmTurn_ok PrepareInput_ok
  ConfirmInput_ok PreparePreStep_ok AcceptPreStep_ok AbandonPreparation_ok PrepareStep_ok ConfirmStep_ok
  AgentConfirmMessage_ok BeginRequest_ok BeginTools_ok PrepareStepEnd_ok CompleteModel_ok CompleteTools_ok
  endStep_ok ConfirmStepEnd_ok
  ContinueTurn_ok CompleteStopping_ok PrepareTurnEnd_ok ConfirmTurnEnd_ok ConfirmTurnFlush_ok ReconcileInput_ok
  ReconcileStepStart_ok

text \<open>What the code relies on where it uses the inbox without a check.\<close>

lemma agent_ok_inbox:
  assumes "agent_ok a" "CheckExecution a = Inr () \<or> execution a \<noteq> ExecutionIdle \<or> currentTurn a \<noteq> None"
  shows "\<exists>p. pendingInbox a = Some p \<and> inbox_ok p"
proof -
  have "ready (lifetime a)"
    using assms by (cases "execution a") (auto simp: CheckExecution_def bindE_Inr_iff checkAdmission_Inr ready_def
        agent_ok_defs)
  with assms(1) show ?thesis by (auto simp: agent_ok_defs)
qed

end
