(* ===== verification/AgentLog.thy ===== *)
theory AgentLog
  imports AgentRuns
begin

text \<open>
  An agent beside the log of its session: the inbox the agent keeps is the projection of
  the committed log, an edit that commits is confirmed with the effect it was prepared for,
  and a claim whose acknowledgement was lost is recovered exactly as if it had arrived.
\<close>

section \<open>The agent tracks its log\<close>

definition no_splice :: "event \<Rightarrow> bool" where
  "no_splice e = (evType e \<noteq> InboxSplicedEventName)"

definition tracks :: "log \<Rightarrow> ('p, 'r, 'w) agent \<Rightarrow> bool" where
  "tracks l a =
     (log_ok l \<and> agent_ok a \<and> agentID a = headerID (logHeader l) \<and> 0 \<le> inboxNext a \<and> inboxNext a \<le> LogSeq l \<and>
      list_all no_splice (drop (nat (inboxNext a)) (entries l)) \<and>
      (case pendingInbox a of None \<Rightarrow> False | Some p \<Rightarrow> NewInbox (logHeader l) (entries l) = Inr p))"

lemma tracksE:
  assumes "tracks l a"
  obtains p where "pendingInbox a = Some p" "NewInbox (logHeader l) (entries l) = Inr p" "inbox_ok p"
  using assms by (cases "pendingInbox a") (auto simp: tracks_def agent_ok_defs)

lemma apply_no_splice: "list_all no_splice es \<Longrightarrow> apply_loop p c (es @ fs) = apply_loop p c fs"
  by (induction es) (auto simp: no_splice_def)

lemma ApplyInbox_no_splice: "list_all no_splice es \<Longrightarrow> inbox_ok p \<Longrightarrow> ApplyInbox p es = Inr (p, no_changes)"
  using apply_no_splice [of es p no_changes "[]"] by (simp add: ApplyInbox_def detached_same)

lemma restore_tracks:
  assumes "log_ok l" "RestoreAgent (logHeader l) (Snapshot l) (new_agent Unrestored) = Inr a"
  shows "tracks l a"
proof -
  have "agent_ok a" using RestoreAgent_ok [OF assms(2)] by (simp add: ready_def)
  then show ?thesis using assms by (auto simp: RestoreAgent_def bindE_Inr_iff tracks_def LogSeq_def)
qed

text \<open>The projection stays current while others write to the session.\<close>

lemma foreign_tracks:
  assumes "tracks l a" "log_ok l'" "logHeader l' = logHeader l" "entries l' = entries l @ es" "list_all no_splice es"
  shows "tracks l' a"
proof -
  obtain p where p: "pendingInbox a = Some p" "NewInbox (logHeader l) (entries l) = Inr p" "inbox_ok p"
    using tracksE [OF assms(1)] .
  have "NewInbox (logHeader l') (entries l') = Inr p"
    using NewInbox_append [OF p(2), of es] ApplyInbox_no_splice [OF assms(5) p(3)] by (simp add: assms(3,4))
  moreover have "nat (inboxNext a) \<le> length (entries l)"
    using assms(1) by (simp add: tracks_def LogSeq_def nat_le_iff)
  ultimately show ?thesis using assms p(1) by (simp add: tracks_def LogSeq_def)
qed

section \<open>Acknowledged batches\<close>

lemma Batch_commit:
  assumes "Commit clock ctx (Batch ds) l = (l', r, None)"
  shows "ds \<noteq> [] \<and> commitBatch clock l ds = Inr (l', resultEvents r) \<and> r = commit_result l l' (resultEvents r)"
  using assms
proof (cases rule: Commit_cases)
  case (written ds' evs)
  then show ?thesis by (auto simp: Batch_def fixed_build_def commit_result_def split: if_splits)
qed (auto simp: Batch_def fixed_build_def split: if_splits)

lemma check_drafts_Inr:
  "check_drafts n ds es = Inr u \<longleftrightarrow> length ds \<le> length es \<and>
     (\<forall>k < length ds. evSeq (es ! k) = n + int k \<and> ValidateEvent (ds ! k) (es ! k) = Inr ())"
proof (induction n ds es rule: check_drafts.induct)
  case (3 seq d ds e es)
  have "(\<forall>k < length (d # ds). evSeq ((e # es) ! k) = seq + int k \<and> ValidateEvent ((d # ds) ! k) ((e # es) ! k) = Inr ())
    \<longleftrightarrow> evSeq e = seq \<and> ValidateEvent d e = Inr () \<and>
      (\<forall>k < length ds. evSeq (es ! k) = seq + 1 + int k \<and> ValidateEvent (ds ! k) (es ! k) = Inr ())"
    by (auto simp: less_Suc_eq_0_disj nth_Cons split: nat.splits)
  with 3 show ?case by (auto simp: bindE_Inr_iff failIf_Inr)
qed auto

lemma checkCommit_committed:
  assumes "commitBatch clock l ds = Inr (l', evs)" "agentID a = headerID (logHeader l)"
  shows "checkCommit ds (commit_result l l' evs) a = Inr ()"
proof -
  note c = commitBatch_entries [OF assms(1)]
  have "check_drafts (int (length (entries l))) ds evs = Inr ()" using c by (simp add: check_drafts_Inr)
  with c assms(2) show ?thesis
    by (simp add: checkCommit_def commit_result_range [OF assms(1)] range_result_def)
qed

lemma committed_batch: "commitBatch clock l ds = Inr (l', evs) \<Longrightarrow> committed ds evs"
  using commitBatch_entries [of clock l ds l' evs] by (auto simp: committed_def list_all2_conv_all_nth)

lemma last_seq:
  assumes "commitBatch clock l ds = Inr (l', evs)" "evs \<noteq> []"
  shows "evSeq (last evs) + 1 = LogSeq l' \<and> evSeq (hd evs) = LogSeq l"
proof -
  note e = commitBatch_entries [OF assms(1)]
  obtain k where k: "length ds = Suc k" using assms(2) e by (cases ds) auto
  then have "evSeq (evs ! k) = int (length (entries l) + k)" "evSeq (evs ! 0) = int (length (entries l))"
    using e by simp_all
  with k e assms(2) show ?thesis by (simp add: last_conv_nth hd_conv_nth LogSeq_def)
qed

text \<open>A committed edit is confirmed whenever its events apply, and the agent tracks the new log.\<close>

lemma edit_confirmed:
  assumes "tracks l a" "Commit clock ctx (Batch (editDrafts edit)) l = (l', r, None)" "pendingInbox a = Some p"
    "ApplyInbox p (resultEvents r) = Inr (q, c)"
  shows "\<exists>b. ConfirmEdit edit r a = Inr (b, c) \<and> tracks l' b \<and>
    b = a\<lparr>pendingInbox := Some q, inboxNext := LogSeq l'\<rparr>"
proof -
  let ?b = "a\<lparr>pendingInbox := Some q, inboxNext := LogSeq l'\<rparr>"
  note b = Batch_commit [OF assms(2)]
  obtain cb: "commitBatch clock l (editDrafts edit) = Inr (l', resultEvents r)"
    and ne: "resultEvents r \<noteq> []" and r: "r = commit_result l l' (resultEvents r)"
    using b commitBatch_entries [of clock l "editDrafts edit" l' "resultEvents r"] by fastforce
  note ls = last_seq [OF cb ne]
  have id: "agentID a = headerID (logHeader l)" "inboxNext a \<le> LogSeq l" "agent_ok a" "log_ok l"
    using assms(1) by (simp_all add: tracks_def)
  have "checkCommit (editDrafts edit) r a = Inr ()" using checkCommit_committed [OF cb id(1)] r by simp
  moreover have "ApplyEvents (resultEvents r) a = Inr (?b, c)"
    using assms(3,4) ne ls id(2) by (simp add: ApplyEvents_def)
  ultimately have e: "ConfirmEdit edit r a = Inr (?b, c)" by (simp add: ConfirmEdit_def)
  have "NewInbox (logHeader l) (entries l) = Inr p" using assms(1,3) by (simp add: tracks_def)
  then have "NewInbox (logHeader l') (entries l') = Inr q"
    using NewInbox_append [of "logHeader l" "entries l" p "resultEvents r"] assms(4) commitBatch_entries [OF cb]
    by simp
  moreover have "log_ok l'" using commitBatch_ok id(4) cb by blast
  moreover have "agent_ok ?b" using ConfirmEdit_ok [OF e id(3)] by simp
  ultimately have "tracks l' ?b"
    using id commitBatch_entries [OF cb] by (simp add: tracks_def LogSeq_def)
  with e show ?thesis by blast
qed

section \<open>Admission and claim\<close>

lemma acceptExecution_fields [simp]:
  "pendingInbox (acceptExecution w a) = pendingInbox a" "inboxNext (acceptExecution w a) = inboxNext a"
  "agentID (acceptExecution w a) = agentID a"
  by (simp_all add: acceptExecution_def Let_def)

lemma tracks_same:
  "tracks l a \<Longrightarrow> agent_ok b \<Longrightarrow> pendingInbox b = pendingInbox a \<Longrightarrow> inboxNext b = inboxNext a \<Longrightarrow>
   agentID b = agentID a \<Longrightarrow> tracks l b"
  by (simp add: tracks_def)

lemma admit_confirmed:
  assumes "tracks l a" "pendingInbox a = Some p" "inbox_fits p" "canonical_user m"
    "admit t m wake a = Inr proposal"
    "Commit clock ctx (Batch (editDrafts (admitEdit proposal))) l = (l', r, None)"
  defines "u \<equiv> (if wake \<and> cancelCause a \<noteq> None then NextTurn else t)"
  shows "\<exists>b. ConfirmAdmission proposal r a = Inr (b, no_changes\<lparr>changesInserted := [m]\<rparr>) \<and> tracks l' b \<and>
    pendingInbox b = Some (set_queue p u (queue_of p u @ [m])) \<and> is_target u \<and> (wake \<longrightarrow> StatusRunning b)"
proof -
  obtain edit where e: "PrepareAppend p u m = Inr edit" "proposal = \<lparr>admitEdit = edit, admitWake = wake\<rparr>"
    "CheckExecution a = Inr ()"
    using assms(2,5) by (auto simp: admit_def on_inbox_def bindE_Inr_iff u_def)
  have ok: "inbox_ok p" using assms(1,2) by (simp add: tracks_def agent_ok_defs)
  have "committed (editDrafts edit) (resultEvents r)"
    using Batch_commit [OF assms(6)] committed_batch e(2) by fastforce
  from append_effect [OF ok assms(3,4) e(1) this] have ap: "is_target u"
    "ApplyInbox p (resultEvents r) = Inr (set_queue p u (queue_of p u @ [m]), no_changes\<lparr>changesInserted := [m]\<rparr>)"
    by simp_all
  obtain b where b: "ConfirmEdit edit r a = Inr (b, no_changes\<lparr>changesInserted := [m]\<rparr>)" "tracks l' b"
    "b = a\<lparr>pendingInbox := Some (set_queue p u (queue_of p u @ [m])), inboxNext := LogSeq l'\<rparr>"
    using edit_confirmed [OF assms(1) _ assms(2) ap(2), of clock ctx edit l'] assms(6) e(2) by auto
  have "agent_ok b" using b(2) by (simp add: tracks_def)
  then have "tracks l' (acceptExecution wake b)" 
    using tracks_same [OF b(2) acceptExecution_ok [of b wake]] by simp
  moreover have "lifetime b = Available"
    using e(3) b(3) by (simp add: CheckExecution_def bindE_Inr_iff checkAdmission_Inr)
  then have "wake \<longrightarrow> StatusRunning (acceptExecution wake b)"
    by (simp add: acceptExecution_def StatusRunning_def Let_def)
  ultimately show ?thesis using b e(2) ap(1) by (simp add: ConfirmAdmission_def)
qed

definition claim_count :: "('p, 'r, 'w) agent \<Rightarrow> nat" where
  "claim_count a = (if LastStep (currentTurn a) = 0 then 1 else 0)"

lemma PrepareInput_Inr:
  assumes "PrepareInput a = Inr (b, edit)" "pendingInbox a = Some p"
  shows "PrepareClaim p (if LastStep (currentTurn a) = 0 then NextTurn else NextStep) = Inr edit \<and>
    b = a\<lparr>preparing := Some \<lparr>prepAfter = inboxNext a,
          prepState = (if editDrafts edit = [] then HooksPending else InputUnconfirmed),
          prepEdit = edit, prepClaimed = [], prepMessages = []\<rparr>\<rparr>"
  using assms by (auto simp: PrepareInput_def bindE_Inr_iff on_inbox_def)

lemma claim_confirmed:
  assumes "tracks l a" "pendingInbox a = Some p" "inbox_fits p" "PrepareInput a = Inr (b, edit)"
    "Commit clock ctx (Batch (editDrafts edit)) l = (l', r, None)"
  shows "\<exists>c prep. ConfirmInput r b = Inr c \<and> tracks l' c \<and> preparing c = Some prep \<and>
    prepState prep = HooksPending \<and> prepClaimed prep = nextStep p @ take (claim_count a) (nextTurn p) \<and>
    pendingInbox c = Some \<lparr>nextTurn = drop (claim_count a) (nextTurn p), nextStep = []\<rparr>"
proof -
  note pi = PrepareInput_Inr [OF assms(4,2)]
  have ok: "inbox_ok p" "agent_ok b"
    using assms(1,2) PrepareInput_ok [OF assms(4)] by (simp_all add: tracks_def agent_ok_defs)
  have ne: "editDrafts edit \<noteq> []" using Batch_commit [OF assms(5)] by simp
  have "committed (editDrafts edit) (resultEvents r)" using Batch_commit [OF assms(5)] committed_batch by blast
  then have ap: "ApplyInbox p (resultEvents r) = Inr (\<lparr>nextTurn = drop (claim_count a) (nextTurn p), nextStep = []\<rparr>,
      no_changes\<lparr>changesClaimed := nextStep p @ take (claim_count a) (nextTurn p)\<rparr>)"
    using claim_effect [OF ok(1) assms(3) conjunct1 [OF pi]] by (auto simp: claim_count_def Let_def split: if_splits)
  have tb: "tracks l b" "pendingInbox b = Some p" using tracks_same [OF assms(1) ok(2)] pi assms(2) by simp_all
  obtain c where c: "ConfirmEdit edit r b = Inr (c, no_changes\<lparr>changesClaimed := nextStep p @ take (claim_count a) (nextTurn p)\<rparr>)"
    "tracks l' c" "c = b\<lparr>pendingInbox := Some \<lparr>nextTurn = drop (claim_count a) (nextTurn p), nextStep = []\<rparr>,
      inboxNext := LogSeq l'\<rparr>"
    using edit_confirmed [OF tb(1) assms(5) tb(2) ap] by blast
  have ci: "ConfirmInput r b = Inr (c\<lparr>preparing := Some \<lparr>prepAfter = inboxNext a, prepState = HooksPending,
      prepEdit = no_edit, prepClaimed = nextStep p @ take (claim_count a) (nextTurn p), prepMessages = []\<rparr>\<rparr>)"
    using pi ne c(1) by (simp add: ConfirmInput_def no_changes_def)
  have "agent_ok (c\<lparr>preparing := Some \<lparr>prepAfter = inboxNext a, prepState = HooksPending,
      prepEdit = no_edit, prepClaimed = nextStep p @ take (claim_count a) (nextTurn p), prepMessages = []\<rparr>\<rparr>)"
    using ConfirmInput_ok [OF ci ok(2)] .
  from tracks_same [OF c(2) this] ci c(3) show ?thesis by simp
qed

section \<open>The lost acknowledgement\<close>

lemma claim_loop_skip:
  "offset \<le> n \<Longrightarrow> n \<le> length es \<Longrightarrow> (\<forall>k. offset \<le> k \<and> k < n \<longrightarrow> no_splice (es ! k)) \<Longrightarrow>
   claim_loop a ds es offset c = claim_loop a ds es n c"
proof (induction "n - offset" arbitrary: offset)
  case (Suc k)
  have "no_splice (es ! offset)" "offset < length es" using Suc by auto
  then have "claim_loop a ds es offset c = claim_loop a ds es (Suc offset) c"
    by (subst claim_loop.simps) (simp add: no_splice_def)
  with Suc.hyps(1) [of "Suc offset"] Suc show ?case by simp
qed simp

lemma claim_loop_end:
  assumes "offset \<le> length es" "\<forall>k. offset \<le> k \<and> k < length es \<longrightarrow> no_splice (es ! k)"
  shows "claim_loop a ds es offset c = Inr c"
proof -
  have "claim_loop a ds es offset c = claim_loop a ds es (length es) c"
    by (rule claim_loop_skip) (use assms in auto)
  then show ?thesis by (subst (asm) claim_loop.simps) (subst (asm) claim_loop.simps, simp)
qed

lemma no_splice_from:
  assumes "tracks l a"
  shows "nat (inboxNext a) \<le> length (entries l)"
    "nat (inboxNext a) \<le> k \<Longrightarrow> k < length (entries l) \<Longrightarrow> no_splice (entries l ! k)"
proof -
  show n: "nat (inboxNext a) \<le> length (entries l)"
    using assms by (simp add: tracks_def LogSeq_def nat_le_iff)
  have "list_all no_splice (drop (nat (inboxNext a)) (entries l))" using assms by (simp add: tracks_def)
  then show "no_splice (entries l ! k)" if "nat (inboxNext a) \<le> k" "k < length (entries l)"
    using that n by (auto simp: list_all_length dest: spec [of _ "k - nat (inboxNext a)"])
qed

lemma ReconcileInput_eq:
  assumes "preparing b = Some prep" "prepState prep = InputUnconfirmed" "log_ok l" "agentID b = headerID (logHeader l)"
    "prepAfter prep \<le> LogSeq l"
  shows "ReconcileInput (Snapshot l) b =
    bindE (claim_loop b (editDrafts (prepEdit prep)) (entries l) (nat (prepAfter prep)) None)
      (\<lambda>confirmed. case confirmed of
         None \<Rightarrow> Inr (b\<lparr>preparing := None\<rparr>, False)
       | Some write \<Rightarrow> bindE (ConfirmInput write b) (\<lambda>c. Inr (c, True)))"
  using assms by (simp add: ReconcileInput_def scan_log foldE_unit LogSeq_def failIf_def)

text \<open>Nothing was committed: the pending input is preserved for another attempt.\<close>

lemma lost_claim_absent:
  assumes "tracks l a" "pendingInbox a = Some p" "PrepareInput a = Inr (b, edit)" "editDrafts edit \<noteq> []"
    "log_ok l2" "logHeader l2 = logHeader l" "entries l2 = entries l @ es" "list_all no_splice es"
  shows "ReconcileInput (Snapshot l2) b = Inr (b\<lparr>preparing := None\<rparr>, False)"
proof -
  note pi = PrepareInput_Inr [OF assms(3,2)]
  have t2: "tracks l2 a" by (rule foreign_tracks [OF assms(1,5-8)])
  obtain prep where prep: "preparing b = Some prep" "prepState prep = InputUnconfirmed" "prepAfter prep = inboxNext a"
    using pi assms(4) by simp
  have "claim_loop b (editDrafts (prepEdit prep)) (entries l2) (nat (inboxNext a)) None = Inr None"
    by (rule claim_loop_end) (use no_splice_from [OF t2] in auto)
  then show ?thesis
    using ReconcileInput_eq [OF prep(1,2) assms(5)] t2 prep(3) pi by (simp add: tracks_def)
qed

text \<open>The claim was committed: recovery is the confirmation, whatever others wrote since.\<close>

lemma lost_claim_found:
  assumes "tracks l a" "pendingInbox a = Some p" "inbox_fits p" "PrepareInput a = Inr (b, edit)"
    "Commit clock ctx (Batch (editDrafts edit)) l = (l', r, None)" "list_all (\<lambda>d. draftType d = InboxSplicedEventName) (editDrafts edit)"
    "log_ok l2" "logHeader l2 = logHeader l'" "entries l2 = entries l' @ es" "list_all no_splice es"
  shows "ReconcileInput (Snapshot l2) b = bindE (ConfirmInput r b) (\<lambda>c. Inr (c, True))"
proof -
  note pi = PrepareInput_Inr [OF assms(4,2)]
  note bc = Batch_commit [OF assms(5)]
  let ?evs = "resultEvents r" and ?n = "length (editDrafts edit)"
  note ent = commitBatch_entries [of clock l "editDrafts edit" l' ?evs]
  have cb: "commitBatch clock l (editDrafts edit) = Inr (l', ?evs)" using bc by simp
  have e2: "entries l2 = entries l @ ?evs @ es" "length ?evs = ?n" "logHeader l2 = logHeader l" "0 < ?n"
    using ent [OF cb] assms(8,9) bc by auto
  obtain prep where prep: "preparing b = Some prep" "prepState prep = InputUnconfirmed" "prepAfter prep = inboxNext a"
    "prepEdit prep = edit" "agentID b = headerID (logHeader l)"
    using pi bc assms(1) by (simp add: tracks_def)
  have cand: "claim_candidate (agentID b) (length (entries l)) ?n (entries l2) = r"
  proof -
    have "subslice (entries l2) (length (entries l)) ?n = ?evs" using e2 by simp
    then show ?thesis
      using bc commit_result_range [OF cb] e2(2) prep(5) by (simp add: claim_candidate_def range_result_def)
  qed
  have "\<not> no_splice (entries l2 ! length (entries l))"
  proof -
    have "evType (?evs ! 0) = draftType (editDrafts edit ! 0)"
      using ent [OF cb] e2(4) by (auto simp: ValidateEvent_Inr)
    moreover have "entries l2 ! length (entries l) = ?evs ! 0" using e2 by (simp add: nth_append)
    ultimately show ?thesis using assms(6) e2(4) by (simp add: no_splice_def list_all_length)
  qed
  then have "claim_loop b (editDrafts edit) (entries l2) (length (entries l)) None =
      claim_loop b (editDrafts edit) (entries l2) (length (entries l) + ?n) (Some r)"
    using checkCommit_committed [OF cb prep(5)] bc e2 cand
    by (subst claim_loop.simps) (simp add: no_splice_def)
  also have "\<dots> = Inr (Some r)"
    by (rule claim_loop_end) (use e2 assms(10) in \<open>auto simp: nth_append list_all_length\<close>)
  finally have "claim_loop b (editDrafts edit) (entries l2) (length (entries l)) None = Inr (Some r)" .
  moreover have "claim_loop b (editDrafts edit) (entries l2) (nat (inboxNext a)) None =
      claim_loop b (editDrafts edit) (entries l2) (length (entries l)) None"
    by (rule claim_loop_skip) (use no_splice_from [OF assms(1)] e2(1) in \<open>auto simp: nth_append\<close>)
  ultimately show ?thesis
    using ReconcileInput_eq [OF prep(1,2) assms(7)] prep e2 assms(1)
    by (simp add: tracks_def LogSeq_def)
qed

section \<open>The start of a turn\<close>

lemma wf_beginning:
  assumes "PrepareTurn a = (b, Inr beginning)" "agent_ok a"
  shows "wf_turn_start beginning \<and> beginSession beginning = agentID a \<and> beginNumber beginning = lastTurn a + 1"
proof -
  note f = PrepareTurn_fact [OF assms]
  then obtain t where "turnNumber t = lastTurn a + 1" "turn_ok t" by blast
  then have "int64 (lastTurn a + 1)" by (simp add: turn_ok_def int64_def maxNumber_def)
  from turn_codec.dec_enc [OF this] have "unmarshal_turn (Doc (JObj [(''turn'', jint (lastTurn a + 1))])) = Inr (lastTurn a + 1)"
    by (simp add: marshal_turn_start_def)
  with f show ?thesis by (simp add: wf_turn_start_def)
qed

lemma found_start:
  assumes "log_ok l" "turn_start_find p (Snapshot l) = Inr (Some r)"
  shows "\<exists>e. e \<in> set (entries l) \<and> ValidateEvent (beginDraft p) e = Inr () \<and>
    r = one_result (headerID (logHeader l)) e \<and> beginSession p = headerID (logHeader l)"
proof -
  obtain e where e: "foldE (turn_start_step p) None (entries l) = Inr (Some e)"
    "r = one_result (headerID (logHeader l)) e" "start_guard p (headerID (logHeader l)) = Inr ()"
    using assms(2) by (auto simp: turn_start_write.find_scans [OF assms(1)] bindE_Inr_iff)
  have "\<forall>x. Some e = Some x \<longrightarrow> ValidateEvent (beginDraft p) x = Inr ()"
    by (rule foldE_invariant [OF e(1), where P = "\<lambda>s. \<forall>x. s = Some x \<longrightarrow> ValidateEvent (beginDraft p) x = Inr ()"])
       (auto simp: turn_start_step_def bindE_Inr_iff split: if_splits)
  with e turn_start_write.found_from_log [OF e(1)] show ?thesis by (auto simp: start_guard_def failIf_Inr)
qed

lemma checkCommit_one:
  "ValidateEvent d e = Inr () \<Longrightarrow> agentID a = session \<Longrightarrow> checkCommit [d] (one_result session e) a = Inr ()"
proof -
  assume v: "ValidateEvent d e = Inr ()" and a: "agentID a = session"
  have "(evSeq e < 0) = False" using ValidateEvent_copies [OF v] by simp
  with v a show ?thesis by (simp add: checkCommit_def one_result_def range_result_def)
qed

text \<open>A committed start leaves a result of one event, fresh or found.\<close>

lemma start_result:
  assumes "Commit clock ctx (boundaryWrite (TurnStartFact p)) l = (l', r, None)"
  shows "firstSeq r < nextSeq r \<and> (l' = l \<or> (\<exists>e. entries l' = entries l @ [e] \<and> logHeader l' = logHeader l \<and>
    ValidateEvent (beginDraft p) e = Inr () \<and> LastNumber (entries l) = Inr (beginNumber p - 1)))"
  using assms
proof (cases rule: Commit_cases)
  case (replayed prev)
  then show ?thesis using replayCommit_Inr by blast
next
  case empty
  then show ?thesis by (auto simp: turn_start_drafts_def bindE_Inr_iff)
next
  case (written ds evs)
  then have ds: "ds = [beginDraft p]" "LastNumber (entries l) = Inr (beginNumber p - 1)"
    by (auto simp: turn_start_drafts_def bindE_Inr_iff failIf_Inr)
  then obtain e where "evs = [e]" "entries l' = entries l @ [e]" "ValidateEvent (beginDraft p) e = Inr ()"
    "logHeader l' = logHeader l"
    using commitBatch_entries [OF written(5)] by (cases evs) auto
  with ds written(6) commit_result_range [OF written(5)] show ?thesis by (simp add: range_result_def)
qed simp

lemma LastNumber_snoc:
  "evType e = ''turn/start'' \<Longrightarrow> unmarshal_turn (evData e) = Inr n \<Longrightarrow> 0 < n \<Longrightarrow> n \<le> maxNumber \<Longrightarrow>
   LastNumber (es @ [e]) = Inr n"
  by (simp add: LastNumber_def)

lemma turn_start_confirmed:
  assumes "tracks l a" "PrepareTurn a = (b, Inr beginning)"
    "Commit clock ctx (boundaryWrite (TurnStartFact beginning)) l = (l', r, None)"
  shows "\<exists>c t. ConfirmTurn r b = Inr c \<and> tracks l' c \<and> currentTurn c = Some t \<and> currentState t = StateOpen \<and>
    turnNumber t = lastTurn a + 1 \<and> lastTurn c = turnNumber t \<and>
    (l' \<noteq> l \<longrightarrow> LastNumber (entries l') = Inr (lastTurn c))"
proof -
  have ok: "agent_ok a" "log_ok l" using assms(1) by (simp_all add: tracks_def)
  note f = PrepareTurn_fact [OF assms(2) ok(1)]
  note w = wf_beginning [OF assms(2) ok(1)]
  note sr = start_result [OF assms(3)]
  obtain t where t: "b = a\<lparr>currentTurn := Some t\<rparr>" "turnNumber t = lastTurn a + 1" "currentState t = StateProposed"
    "turn_ok t" using f by blast
  have ok': "log_ok l'" using Commit_ok [OF ok(2)] assms(3) by blast
  have "turn_start_find beginning (Snapshot l') = Inr (Some r)"
    using turn_start_write.found_after_commit [OF conjunct1 [OF w] ok(2)] assms(3) sr by simp
  then obtain e where e: "ValidateEvent (beginDraft beginning) e = Inr ()" "r = one_result (agentID a) e"
    using found_start [OF ok'] w by force
  have "StartDraft (Some t) = Inr (beginDraft beginning)"
    using f t int64_scan [of "lastTurn a + 1"]
    by (simp add: StartDraft_def on_turn_def NewEventDraft_Inr marshal_turn_start_def turn_ok_def int64_def maxNumber_def
        del: as_int64.simps lossless.simps(4))
  moreover have "checkCommit [beginDraft beginning] r b = Inr ()"
    using checkCommit_one [OF e(1), of b "agentID a"] t(1) e(2) by simp
  moreover have "EnterOpen (Some t) = Inr (t\<lparr>currentState := StateOpen\<rparr>)" using t(3) by (simp add: turn_op_Inr)
  ultimately have c: "ConfirmTurn r b =
      Inr (b\<lparr>currentTurn := Some (t\<lparr>currentState := StateOpen\<rparr>), lastTurn := turnNumber t\<rparr>)"
    using f t by (simp add: ConfirmTurn_def StateValue_def)
  let ?c = "b\<lparr>currentTurn := Some (t\<lparr>currentState := StateOpen\<rparr>), lastTurn := turnNumber t\<rparr>"
  have "tracks l' a"
  proof (cases "l' = l")
    case False
    then obtain x where x: "entries l' = entries l @ [x]" "logHeader l' = logHeader l"
      "ValidateEvent (beginDraft beginning) x = Inr ()" using sr by blast
    then have "no_splice x" using f by (auto simp: no_splice_def dest: ValidateEvent_copies)
    then show ?thesis using foreign_tracks [OF assms(1) ok' x(2,1)] by simp
  qed (use assms(1) in simp)
  moreover have "agent_ok ?c" using ConfirmTurn_ok [OF c] PrepareTurn_ok [OF assms(2) ok(1)] by simp
  ultimately have "tracks l' ?c" by (rule tracks_same) (simp_all add: t(1))
  moreover have "LastNumber (entries l') = Inr (turnNumber t)" if ne: "l' \<noteq> l"
  proof -
    obtain x where x: "entries l' = entries l @ [x]" "ValidateEvent (beginDraft beginning) x = Inr ()"
      using sr ne by blast
    have "evType x = ''turn/start''" "unmarshal_turn (evData x) = Inr (turnNumber t)"
      using ValidateEvent_copies [OF x(2)] w t(2) by (simp_all add: wf_turn_start_def)
    moreover have "0 < turnNumber t" "turnNumber t \<le> maxNumber" using t(4) by (simp_all add: turn_ok_def)
    ultimately show ?thesis unfolding x(1) by (rule LastNumber_snoc)
  qed
  ultimately show ?thesis using c t(2)
    by (intro exI [of _ ?c] exI [of _ "t\<lparr>currentState := StateOpen\<rparr>"]) simp
qed

end
