(* ===== verification/GoText.thy ===== *)
theory GoText
  imports Prelude "HOL-Library.Multiset" "HOL-Library.List_Lexorder" "HOL-Library.Char_ord"
begin

text \<open>
  What several components use of Go's standard library beyond JSON: searching, trimming and
  joining byte strings (package strings), maps, and stable sorting (package sort).
\<close>

section \<open>Package strings\<close>

text \<open>\<open>strings.Index\<close>: the first position at which the pattern occurs.\<close>

fun string_index :: "string \<Rightarrow> string \<Rightarrow> nat option" where
  "string_index p [] = (if p = [] then Some 0 else None)"
| "string_index p (c # cs) =
     (if take (length p) (c # cs) = p then Some 0 else map_option Suc (string_index p cs))"

definition string_contains :: "string \<Rightarrow> string \<Rightarrow> bool" where
  "string_contains s p = (string_index p s \<noteq> None)"

lemma string_index_less: "string_index p s = Some i \<Longrightarrow> p \<noteq> [] \<Longrightarrow> i < length s"
  by (induction s arbitrary: i) (auto split: if_splits)

text \<open>\<open>strings.Join\<close> with a comma.\<close>

fun join_comma :: "string list \<Rightarrow> string" where
  "join_comma [] = []"
| "join_comma [p] = p"
| "join_comma (p # q # ps) = p @ '', '' @ join_comma (q # ps)"

definition known_label :: "string list \<Rightarrow> string" where
  "known_label names = (if names = [] then ''(none)'' else join_comma (sort names))"

text \<open>
  \<open>strings.TrimSpace\<close>: the white space of Unicode, as UTF-8 bytes, is removed from both ends.
\<close>

definition space_runes :: "string list" where
  "space_runes =
     [[CHR 0x09], [CHR 0x0A], [CHR 0x0B], [CHR 0x0C], [CHR 0x0D], [CHR 0x20],
      [CHR 0xC2, CHR 0x85], [CHR 0xC2, CHR 0xA0], [CHR 0xE1, CHR 0x9A, CHR 0x80],
      [CHR 0xE2, CHR 0x80, CHR 0xA8], [CHR 0xE2, CHR 0x80, CHR 0xA9], [CHR 0xE2, CHR 0x80, CHR 0xAF],
      [CHR 0xE2, CHR 0x81, CHR 0x9F], [CHR 0xE3, CHR 0x80, CHR 0x80]] @
     map (\<lambda>n. [CHR 0xE2, CHR 0x80, char_of n]) [0x80 ..< 0x8B :: nat]"

definition leading_rune :: "string list \<Rightarrow> string \<Rightarrow> string option" where
  "leading_rune runes s = find (\<lambda>r. r \<noteq> [] \<and> take (length r) s = r) runes"

function trim_runes :: "string list \<Rightarrow> string \<Rightarrow> string" where
  "trim_runes runes s =
     (case leading_rune runes s of None \<Rightarrow> s | Some r \<Rightarrow> trim_runes runes (drop (length r) s))"
  by pat_completeness auto

termination
proof (relation "measure (\<lambda>(runes, s). length s)")
  fix runes s r
  assume "leading_rune runes s = Some r"
  then have "r \<noteq> []" "take (length r) s = r" by (auto simp: leading_rune_def find_Some_iff)
  then show "((runes, drop (length r) s), (runes, s)) \<in> measure (\<lambda>(runes, s). length s)"
    by (cases s) auto
qed simp

declare trim_runes.simps [simp del]

definition TrimSpace :: "string \<Rightarrow> string" where
  "TrimSpace s = rev (trim_runes (map rev space_runes) (rev (trim_runes space_runes s)))"

text \<open>The values of a list in the order in which they first appear.\<close>

definition first_seen :: "'a list \<Rightarrow> 'a list" where
  "first_seen xs = rev (remdups (rev xs))"

lemma first_seen_snoc: "first_seen (xs @ [x]) = (if x \<in> set xs then first_seen xs else first_seen xs @ [x])"
  by (simp add: first_seen_def)

lemma first_seen_simps [simp]:
  "first_seen [] = []" "set (first_seen xs) = set xs" "distinct (first_seen xs)"
  by (simp_all add: first_seen_def)

text \<open>The decimal numeral of an integer, as \<open>fmt\<close> writes it.\<close>

fun decimal_nat :: "nat \<Rightarrow> string" where
  "decimal_nat n = (if n < 10 then [] else decimal_nat (n div 10)) @ [char_of (48 + n mod 10)]"

declare decimal_nat.simps [simp del]

definition decimal :: "int \<Rightarrow> string" where
  "decimal n = (if n < 0 then CHR ''-'' # decimal_nat (nat (- n)) else decimal_nat (nat n))"

section \<open>Maps\<close>

text \<open>
  A Go map is an association list with one pair per key; its order is not observable.  A nil
  map reads as the empty one, and the code makes a map before it first assigns to it.
\<close>

type_synonym ('k, 'v) go_map = "('k \<times> 'v) list"

definition put :: "('k, 'v) go_map \<Rightarrow> 'k \<Rightarrow> 'v \<Rightarrow> ('k, 'v) go_map" where
  "put m k v = filter (\<lambda>f. fst f \<noteq> k) m @ [(k, v)]"

definition unset :: "('k, 'v) go_map \<Rightarrow> 'k \<Rightarrow> ('k, 'v) go_map" where
  "unset m k = filter (\<lambda>f. fst f \<noteq> k) m"

lemma map_of_filter_key: "map_of (filter (\<lambda>f. fst f \<noteq> k) m) j = (if j = k then None else map_of m j)"
  by (induction m) auto

lemma map_of_put [simp]: "map_of (put m k v) j = (if j = k then Some v else map_of m j)"
  by (simp add: put_def map_add_def map_of_filter_key split: option.split)

lemma map_of_unset [simp]: "map_of (unset m k) j = (if j = k then None else map_of m j)"
  by (simp add: unset_def map_of_filter_key)

lemma distinct_put: "distinct (map fst m) \<Longrightarrow> distinct (map fst (put m k v))"
  by (auto simp: put_def distinct_map_filter)

lemma distinct_unset: "distinct (map fst m) \<Longrightarrow> distinct (map fst (unset m k))"
  by (simp add: unset_def distinct_map_filter)

section \<open>Stable sorting\<close>

text \<open>
  \<open>sort.SliceStable\<close> with a comparison.  Insertion is one stable sort; under the contract
  below the sorted order is the only stable one, so the algorithm of the library does not
  matter.
\<close>

fun stable_insert :: "('a \<Rightarrow> 'a \<Rightarrow> bool) \<Rightarrow> 'a \<Rightarrow> 'a list \<Rightarrow> 'a list" where
  "stable_insert lt x [] = [x]"
| "stable_insert lt x (y # ys) = (if lt y x then y # stable_insert lt x ys else x # y # ys)"

definition SliceStable :: "('a \<Rightarrow> 'a \<Rightarrow> bool) \<Rightarrow> 'a list \<Rightarrow> 'a list" where
  "SliceStable lt xs = foldr (stable_insert lt) xs []"

lemma mset_stable_insert: "mset (stable_insert lt x xs) = add_mset x (mset xs)"
  by (induction xs) auto

lemma mset_SliceStable: "mset (SliceStable lt xs) = mset xs"
  by (induction xs) (simp_all add: SliceStable_def mset_stable_insert)

lemma set_SliceStable [simp]: "set (SliceStable lt xs) = set xs"
  using mset_eq_setD [OF mset_SliceStable] .

lemma set_stable_insert [simp]: "set (stable_insert lt x xs) = insert x (set xs)"
  using mset_eq_setD [of "stable_insert lt x xs" "x # xs"] mset_stable_insert by fastforce

text \<open>The comparisons the contract admits are strict weak orders on a domain.\<close>

locale weak_order =
  fixes lt :: "'a \<Rightarrow> 'a \<Rightarrow> bool" and valid :: "'a \<Rightarrow> bool"
  assumes asym: "valid x \<Longrightarrow> valid y \<Longrightarrow> lt x y \<Longrightarrow> \<not> lt y x"
    and negative_trans: "valid x \<Longrightarrow> valid y \<Longrightarrow> valid z \<Longrightarrow> lt x z \<Longrightarrow> lt x y \<or> lt y z"
begin

definition ties :: "'a \<Rightarrow> 'a \<Rightarrow> bool" where
  "ties x y = (\<not> lt x y \<and> \<not> lt y x)"

abbreviation ascending :: "'a list \<Rightarrow> bool" where
  "ascending \<equiv> sorted_wrt (\<lambda>x y. \<not> lt y x)"

lemma ascending_insert:
  "valid x \<Longrightarrow> list_all valid xs \<Longrightarrow> ascending xs \<Longrightarrow> ascending (stable_insert lt x xs)"
proof (induction xs)
  case (Cons y ys)
  show ?case
  proof (cases "lt y x")
    case True
    then show ?thesis using Cons asym by auto
  next
    case False
    have "\<not> lt z x" if "z \<in> set ys" for z
      using negative_trans [of z y x] Cons.prems False that by (auto simp: list_all_iff)
    then show ?thesis using Cons.prems False by auto
  qed
qed simp

lemma ascending_sort: "list_all valid xs \<Longrightarrow> ascending (SliceStable lt xs)"
proof (induction xs)
  case (Cons x xs)
  have "list_all valid (SliceStable lt xs)" using Cons.prems by (simp add: list_all_iff)
  then show ?case using Cons ascending_insert by (simp add: SliceStable_def)
qed (simp add: SliceStable_def)

lemma ties_trans: "valid x \<Longrightarrow> valid y \<Longrightarrow> valid z \<Longrightarrow> ties x y \<Longrightarrow> ties y z \<Longrightarrow> ties x z"
  using negative_trans unfolding ties_def by blast

lemma insert_stable:
  "valid k \<Longrightarrow> valid x \<Longrightarrow> list_all valid xs \<Longrightarrow>
   filter (ties k) (stable_insert lt x xs) = filter (ties k) (x # xs)"
proof (induction xs)
  case (Cons y ys)
  have "\<not> (ties k y \<and> ties k x)" if "lt y x"
    using ties_trans [of y k x] Cons.prems that by (auto simp: ties_def)
  then show ?case using Cons by auto
qed simp

lemma sort_stable:
  "valid k \<Longrightarrow> list_all valid xs \<Longrightarrow> filter (ties k) (SliceStable lt xs) = filter (ties k) xs"
proof (induction xs)
  case (Cons x xs)
  have "list_all valid (SliceStable lt xs)" using Cons.prems by (simp add: list_all_iff)
  then show ?case using Cons insert_stable by (simp add: SliceStable_def)
qed (simp add: SliceStable_def)

text \<open>Two ascending lists in which every class of ties reads the same are the same list.\<close>

lemma ascending_determined:
  assumes "ascending xs" "ascending ys" "list_all valid xs" "list_all valid ys" "set xs = set ys"
    "\<And>k. k \<in> set xs \<Longrightarrow> filter (ties k) xs = filter (ties k) ys"
  shows "xs = ys"
  using assms
proof (induction xs arbitrary: ys)
  case (Cons x xs)
  then obtain y ys' where ys: "ys = y # ys'" by (cases ys) auto
  have self: "valid k \<Longrightarrow> ties k k" for k using asym by (auto simp: ties_def)
  have v: "valid x" "valid y" using Cons.prems(3,4) ys by auto
  have "y \<in> insert x (set xs)" "x \<in> insert y (set ys')" using Cons.prems(5) ys by auto
  then have "\<not> lt y x" "\<not> lt x y"
    using Cons.prems(1,2) ys asym [OF v(1) v(1)] asym [OF v(2) v(2)] by auto
  then have "ties x y" by (simp add: ties_def)
  then have y: "y = x"
    using Cons.prems(6) [of x] Cons.prems(3) ys self by simp
  have filters: "filter (ties k) xs = filter (ties k) ys'" if "k \<in> insert x (set xs)" for k
    using Cons.prems(6) [of k] that ys y by (auto split: if_splits)
  have "set xs = set ys'"
  proof -
    have "z \<in> set ys'" if "z \<in> set xs" for z
      using filters [of z] that self Cons.prems(3) by (auto simp: list_all_iff dest!: arg_cong [of _ _ set])
    moreover have "z \<in> set xs" if "z \<in> set ys'" for z
    proof -
      have "z \<in> insert x (set xs)" "valid z" using that Cons.prems(4,5) ys by (auto simp: list_all_iff)
      then show ?thesis using filters [of z] that self by (auto dest!: arg_cong [of _ _ set])
    qed
    ultimately show ?thesis by blast
  qed
  then have "xs = ys'" using Cons.IH [of ys'] Cons.prems ys filters by simp
  then show ?case using ys y by simp
qed simp

lemma sort_unique:
  assumes "list_all valid xs" "ascending ys" "mset ys = mset xs"
    "\<And>k. k \<in> set xs \<Longrightarrow> filter (ties k) ys = filter (ties k) xs"
  shows "ys = SliceStable lt xs"
proof (rule ascending_determined)
  have "set ys = set xs" using assms(3) by (rule mset_eq_setD)
  then show "list_all valid ys" "set ys = set (SliceStable lt xs)"
    using assms(1) by (simp_all add: list_all_iff)
  show "list_all valid (SliceStable lt xs)" using assms(1) by (simp add: list_all_iff)
  show "filter (ties k) ys = filter (ties k) (SliceStable lt xs)" if "k \<in> set ys" for k
    using that assms(1,4) sort_stable [of k xs] \<open>set ys = set xs\<close> by (simp add: list_all_iff)
qed (use assms ascending_sort in auto)

end

text \<open>Sorting by a string key.\<close>

interpretation by_name: weak_order "\<lambda>x y. key x < (key y :: string)" "\<lambda>x. True"
  for key :: "'a \<Rightarrow> string"
  by unfold_locales auto

text \<open>For evaluation.\<close>

lemma pred_option_code [code]: "pred_option P None = True" "pred_option P (Some x) = P x" by simp_all

end
