(* ===== verification/ModelStream.thy ===== *)
theory ModelStream
  imports TurnEvents CompactionCodec GoText
begin

text \<open>
  One model response as it streams in (\<open>src/llm\<close>): the terminal reasons
  (\<open>finish_reason.go\<close>, \<open>errors.go\<close>), the raw chunks with their codec (\<open>stream.go\<close>,
  \<open>stream_codec.go\<close>), and the assembler that folds them into the blocks of one assistant
  message (\<open>assembler.go\<close>).

  The open interfaces are given by the variants of this package; \<open>NilChunk\<close> is the nil chunk
  and a nil reason is \<open>None\<close>.  The \<open>Type\<close> and \<open>Kind\<close> fields are the discriminants of the
  variants, which every clone resets.
\<close>

section \<open>Terminal reasons\<close>

datatype finish_reason =
    StopFinish
  | ToolCallsFinish
  | MaxTokensFinish
  | AbortedFinish llm_failure
  | ErrorFinish llm_failure
  | OpaqueFinish string raw

fun ReasonKind :: "finish_reason \<Rightarrow> string" where
  "ReasonKind StopFinish = ''stop''"
| "ReasonKind ToolCallsFinish = ''tool-calls''"
| "ReasonKind MaxTokensFinish = ''max-tokens''"
| "ReasonKind (AbortedFinish f) = ''aborted''"
| "ReasonKind (ErrorFinish f) = ''error''"
| "ReasonKind (OpaqueFinish k r) = k"

definition positive_finite :: "jnum \<Rightarrow> bool" where
  "positive_finite x =
     (case number_parts x of (neg, m, e) \<Rightarrow> \<not> neg \<and> \<not> float_is_zero m e \<and> \<not> float_overflows m e)"

definition validateFailure :: "llm_failure \<Rightarrow> unit res" where
  "validateFailure f =
     bindE (failIf (failMessage f = [] \<or> failCode f = []) (err ''llm: failure message and code must be non-empty'')) (\<lambda>_.
     bindE (failIf (\<not> pred_option (\<lambda>s. 100 \<le> s \<and> s \<le> 599) (failStatus f)) (err ''llm: failure status is invalid'')) (\<lambda>_.
     failIf (\<not> pred_option positive_finite (failRetryAfter f)) (err ''llm: failure retry delay is invalid'')))"

definition NewOpaqueFinishReason :: "string \<Rightarrow> raw \<Rightarrow> finish_reason res" where
  "NewOpaqueFinishReason kindName rawValue =
     bindE (failIf (kindName = []) (err ''llm: opaque finish kind is empty'')) (\<lambda>_.
     if \<not> isOk (Clone rawValue) \<or> \<not> IsObject rawValue
     then Inl (err ''llm: opaque finish reason must be a lossless JSON object'')
     else bindE (unmarshal_map rawValue) (\<lambda>fields.
       if unmarshal_scalar as_string [] (map_get fields ''kind'') \<noteq> Inr kindName
       then Inl (err ''llm: opaque finish discriminant does not match'')
       else Inr (OpaqueFinish kindName rawValue)))"

fun CloneReason :: "finish_reason \<Rightarrow> finish_reason res" where
  "CloneReason (AbortedFinish f) = bindE (validateFailure f) (\<lambda>_. Inr (AbortedFinish f))"
| "CloneReason (ErrorFinish f) = bindE (validateFailure f) (\<lambda>_. Inr (ErrorFinish f))"
| "CloneReason (OpaqueFinish k r) = NewOpaqueFinishReason k r"
| "CloneReason r = Inr r"

fun raw_json :: "raw \<Rightarrow> json res" where
  "raw_json (Doc j) = Inr j"
| "raw_json r = Inl syntax_error"

fun marshal_finish :: "finish_reason \<Rightarrow> json res" where
  "marshal_finish (AbortedFinish f) = Inr (JObj [(''kind'', JStr ''aborted''), (''failure'', marshal_failure f)])"
| "marshal_finish (ErrorFinish f) = Inr (JObj [(''kind'', JStr ''error''), (''failure'', marshal_failure f)])"
| "marshal_finish (OpaqueFinish k r) =
     (if k = [] \<or> r = Absent then Inl (err ''llm: invalid opaque finish reason'') else raw_json r)"
| "marshal_finish r = Inr (json_kind (ReasonKind r))"

definition decode_plain_finish :: "raw \<Rightarrow> finish_reason \<Rightarrow> finish_reason res" where
  "decode_plain_finish rawValue reason =
     bindE (decodeStrict [''kind''] rawValue) (\<lambda>fs. bindE (get_string fs ''kind'') (\<lambda>_. CloneReason reason))"

definition decode_failed_finish :: "raw \<Rightarrow> (llm_failure \<Rightarrow> finish_reason) \<Rightarrow> finish_reason res" where
  "decode_failed_finish rawValue reason =
     bindE (decodeStrict [''kind'', ''failure''] rawValue) (\<lambda>fs.
     bindE (get_string fs ''kind'') (\<lambda>_.
     bindE (decode_failure (matches ''failure'' fs)) (\<lambda>f. CloneReason (reason f))))"

definition DecodeFinishReason :: "raw \<Rightarrow> finish_reason res" where
  "DecodeFinishReason rawValue =
     (if \<not> IsObject rawValue then Inl (err ''llm: finish reason must be an object'')
      else case unmarshal_kind rawValue of
        Inl e \<Rightarrow> Inl (err ''llm: finish reason kind is missing'')
      | Inr kind \<Rightarrow>
          if kind = [] then Inl (err ''llm: finish reason kind is missing'')
          else if kind = ''stop'' then decode_plain_finish rawValue StopFinish
          else if kind = ''tool-calls'' then decode_plain_finish rawValue ToolCallsFinish
          else if kind = ''max-tokens'' then decode_plain_finish rawValue MaxTokensFinish
          else if kind = ''aborted'' then decode_failed_finish rawValue AbortedFinish
          else if kind = ''error'' then decode_failed_finish rawValue ErrorFinish
          else NewOpaqueFinishReason kind rawValue)"

section \<open>Chunks\<close>

datatype stream_chunk =
    NilChunk
  | BlockStartChunk int string
  | TextDeltaChunk int string
  | ReasoningDeltaChunk int string
  | ToolCallDeltaChunk int string "string option" string
  | BlockEndChunk int content_block
  | UsageChunk token_usage
  | FinishChunk "finish_reason option" raw

fun CloneChunk :: "stream_chunk \<Rightarrow> stream_chunk res" where
  "CloneChunk NilChunk = Inl (Panicked ''nil stream chunk'')"
| "CloneChunk (BlockStartChunk i t) =
     bindE (failIf (t = []) (err ''llm: block-start needs a blockType'')) (\<lambda>_. Inr (BlockStartChunk i t))"
| "CloneChunk (BlockEndChunk i b) =
     bindE (failIf (b = NilBlock) (err ''llm: block-end needs a block'')) (\<lambda>_.
     bindE (CloneContent b) (\<lambda>d. Inr (BlockEndChunk i d)))"
| "CloneChunk (FinishChunk None replay) = Inl (err ''llm: finish chunk needs a reason'')"
| "CloneChunk (FinishChunk (Some reason) replay) =
     bindE (CloneReason reason) (\<lambda>r.
     bindE (if replay = Absent then Inr replay
            else wrapE (\<lambda>e. Errorf ''llm: invalid finish replayState: %w'' [AErr e]) (Clone replay)) (\<lambda>s.
     Inr (FinishChunk (Some r) s)))"
| "CloneChunk c = Inr c"

definition json_type :: "string \<Rightarrow> string \<times> json" where
  "json_type t = (''type'', JStr t)"

definition raw_field :: "string \<Rightarrow> raw \<Rightarrow> (string \<times> json) list res" where
  "raw_field n r = (if r = Absent then Inr [] else bindE (raw_json r) (\<lambda>j. Inr [(n, j)]))"

fun marshal_chunk :: "stream_chunk \<Rightarrow> json res" where
  "marshal_chunk NilChunk = Inr JNull"
| "marshal_chunk (BlockStartChunk i t) =
     Inr (JObj [json_type ''block-start'', (''index'', jint i), (''blockType'', JStr t)])"
| "marshal_chunk (TextDeltaChunk i t) =
     Inr (JObj [json_type ''text-delta'', (''index'', jint i), (''text'', JStr t)])"
| "marshal_chunk (ReasoningDeltaChunk i t) =
     Inr (JObj [json_type ''reasoning-delta'', (''index'', jint i), (''text'', JStr t)])"
| "marshal_chunk (ToolCallDeltaChunk i c n a) =
     Inr (JObj ([json_type ''tool-call-delta'', (''index'', jint i), (''id'', JStr c)] @
                omit ''name'' JStr n @ [(''argumentsDelta'', JStr a)]))"
| "marshal_chunk (BlockEndChunk i b) =
     bindE (CloneChunk (BlockEndChunk i b)) (\<lambda>_.
     bindE (marshal_block b) (\<lambda>j. Inr (JObj [json_type ''block-end'', (''index'', jint i), (''block'', j)])))"
| "marshal_chunk (UsageChunk u) = Inr (JObj [json_type ''usage'', (''usage'', json_usage u)])"
| "marshal_chunk (FinishChunk None replay) = Inl (err ''llm: finish chunk needs a reason'')"
| "marshal_chunk (FinishChunk (Some reason) replay) =
     bindE (CloneChunk (FinishChunk (Some reason) replay)) (\<lambda>_.
     bindE (marshal_finish reason) (\<lambda>j.
     bindE (raw_field ''replayState'' replay) (\<lambda>fs.
     Inr (JObj ([json_type ''finish'', (''reason'', j)] @ fs)))))"

text \<open>Whether a chunk carries model output.\<close>

fun IsTokenDelta :: "stream_chunk \<Rightarrow> bool" where
  "IsTokenDelta (TextDeltaChunk i t) = (t \<noteq> [])"
| "IsTokenDelta (ReasoningDeltaChunk i t) = (t \<noteq> [])"
| "IsTokenDelta (ToolCallDeltaChunk i c n a) = (a \<noteq> [] \<or> n \<noteq> None)"
| "IsTokenDelta c = False"

definition usage_fields :: "string list" where
  "usage_fields = [''inputTokens'', ''outputTokens'', ''cacheReadTokens'', ''cacheWriteTokens'', ''reasoningTokens'']"

definition decode_usage :: "json list \<Rightarrow> token_usage res" where
  "decode_usage vs =
     bindE (nested_fields vs) (\<lambda>fs.
     bindE (failIf (\<not> known_fields usage_fields fs) (err ''json: unknown field'')) (\<lambda>_.
     bindE (get_int64 fs ''inputTokens'') (\<lambda>i.
     bindE (get_int64 fs ''outputTokens'') (\<lambda>ot.
     bindE (scan_pointer as_int64 None (matches ''cacheReadTokens'' fs)) (\<lambda>cr.
     bindE (scan_pointer as_int64 None (matches ''cacheWriteTokens'' fs)) (\<lambda>cw.
     bindE (scan_pointer as_int64 None (matches ''reasoningTokens'' fs)) (\<lambda>re.
     Inr \<lparr>inputTokens = i, outputTokens = ot, cacheReadTokens = cr, cacheWriteTokens = cw,
          reasoningTokens = re\<rparr>)))))))"

definition decode_block_end :: "raw \<Rightarrow> stream_chunk res" where
  "decode_block_end rawValue =
     bindE (decodeStrict [''type'', ''index'', ''block''] rawValue) (\<lambda>fs.
     bindE (get_string fs ''type'') (\<lambda>t.
     bindE (get_int64 fs ''index'') (\<lambda>i.
     bindE (failIf (t \<noteq> ''block-end'') (err ''llm: invalid block-end discriminant'')) (\<lambda>_.
     bindE (case get_raw fs ''block'' of Doc j \<Rightarrow> DecodeContentBlock j
            | _ \<Rightarrow> Inl (err ''content block must be an object'')) (\<lambda>b.
     CloneChunk (BlockEndChunk i b))))))"

definition decode_finish :: "raw \<Rightarrow> stream_chunk res" where
  "decode_finish rawValue =
     bindE (decodeStrict [''type'', ''reason'', ''replayState''] rawValue) (\<lambda>fs.
     bindE (get_string fs ''type'') (\<lambda>t.
     bindE (failIf (t \<noteq> ''finish'') (err ''llm: invalid finish discriminant'')) (\<lambda>_.
     bindE (DecodeFinishReason (get_raw fs ''reason'')) (\<lambda>r.
     bindE (CloneChunk (FinishChunk (Some r) (get_raw fs ''replayState''))) CloneChunk))))"

definition decode_delta :: "raw \<Rightarrow> (int \<Rightarrow> string \<Rightarrow> stream_chunk) \<Rightarrow> stream_chunk res" where
  "decode_delta rawValue chunk =
     bindE (decodeStrict [''type'', ''index'', ''text''] rawValue) (\<lambda>fs.
     bindE (get_string fs ''type'') (\<lambda>_.
     bindE (get_int64 fs ''index'') (\<lambda>i.
     bindE (get_string fs ''text'') (\<lambda>t. CloneChunk (chunk i t)))))"

definition DecodeStreamChunk :: "raw \<Rightarrow> stream_chunk res" where
  "DecodeStreamChunk rawValue =
     (if \<not> IsObject rawValue then Inl (err ''llm: stream chunk must be an object'')
      else case bindE (fields_of rawValue) (\<lambda>fs. get_string fs ''type'') of
        Inl e \<Rightarrow> Inl (err ''llm: stream chunk type is missing'')
      | Inr ty \<Rightarrow>
          if ty = [] then Inl (err ''llm: stream chunk type is missing'')
          else if ty = ''block-start'' then
            bindE (decodeStrict [''type'', ''index'', ''blockType''] rawValue) (\<lambda>fs.
            bindE (get_string fs ''type'') (\<lambda>_.
            bindE (get_int64 fs ''index'') (\<lambda>i.
            bindE (get_string fs ''blockType'') (\<lambda>t. CloneChunk (BlockStartChunk i t)))))
          else if ty = ''text-delta'' then decode_delta rawValue TextDeltaChunk
          else if ty = ''reasoning-delta'' then decode_delta rawValue ReasoningDeltaChunk
          else if ty = ''tool-call-delta'' then
            bindE (decodeStrict [''type'', ''index'', ''id'', ''name'', ''argumentsDelta''] rawValue) (\<lambda>fs.
            bindE (get_string fs ''type'') (\<lambda>_.
            bindE (get_int64 fs ''index'') (\<lambda>i.
            bindE (get_string fs ''id'') (\<lambda>c.
            bindE (scan_pointer as_string None (matches ''name'' fs)) (\<lambda>n.
            bindE (get_string fs ''argumentsDelta'') (\<lambda>a. CloneChunk (ToolCallDeltaChunk i c n a)))))))
          else if ty = ''block-end'' then bindE (decode_block_end rawValue) CloneChunk
          else if ty = ''usage'' then
            bindE (decodeStrict [''type'', ''usage''] rawValue) (\<lambda>fs.
            bindE (get_string fs ''type'') (\<lambda>_.
            bindE (decode_usage (matches ''usage'' fs)) (\<lambda>u. CloneChunk (UsageChunk u))))
          else if ty = ''finish'' then bindE (decode_finish rawValue) CloneChunk
          else Inl (Errorf ''llm: unsupported stream chunk type %q'' [AStr ty]))"

section \<open>Assembling\<close>

record block_assembly =
  blockKind :: string
  blockText :: string
  callID :: string
  callName :: string
  callArguments :: string
  completedBlock :: "content_block option"

record block_assembler =
  partials :: "(int, block_assembly) go_map"
  assemblyOrder :: "int list"
  assemblyUsage :: "token_usage option"
  assemblyFinish :: "finish_reason option"
  assemblyReplay :: raw

definition NewBlockAssembler :: block_assembler where
  "NewBlockAssembler =
     \<lparr>partials = [], assemblyOrder = [], assemblyUsage = None, assemblyFinish = None, assemblyReplay = Absent\<rparr>"

definition new_assembly :: "string \<Rightarrow> block_assembly" where
  "new_assembly ty =
     \<lparr>blockKind = ty, blockText = [], callID = [], callName = [], callArguments = [], completedBlock = None\<rparr>"

definition ensure :: "int \<Rightarrow> string \<Rightarrow> block_assembler \<Rightarrow> (block_assembler \<times> block_assembly) res" where
  "ensure i ty a =
     bindE (failIf (ty = []) (err ''llm: block type is empty'')) (\<lambda>_.
     case map_of (partials a) i of
       Some st \<Rightarrow> Inr (a, st)
     | None \<Rightarrow>
         let st = new_assembly ty in
         Inr (a\<lparr>partials := put (partials a) i st, assemblyOrder := assemblyOrder a @ [i]\<rparr>, st))"

text \<open>The update of the partial block an index denotes; a completed block is left alone.\<close>

definition update_block ::
  "int \<Rightarrow> string \<Rightarrow> (block_assembly \<Rightarrow> block_assembly) \<Rightarrow> block_assembler \<Rightarrow> block_assembler \<times> unit res" where
  "update_block i ty f a =
     (case ensure i ty a of
        Inl e \<Rightarrow> (a, Inl e)
      | Inr (a', st) \<Rightarrow>
          if completedBlock st \<noteq> None then (a', Inr ())
          else (a'\<lparr>partials := put (partials a') i (f st)\<rparr>, Inr ()))"

definition appendText :: "int \<Rightarrow> string \<Rightarrow> string \<Rightarrow> block_assembler \<Rightarrow> block_assembler \<times> unit res" where
  "appendText i ty delta = update_block i ty (\<lambda>st. st\<lparr>blockText := blockText st @ delta\<rparr>)"

definition appendTool ::
  "int \<Rightarrow> string \<Rightarrow> string option \<Rightarrow> string \<Rightarrow> block_assembler \<Rightarrow> block_assembler \<times> unit res" where
  "appendTool i c n delta =
     update_block i ''tool-call''
       (\<lambda>st. st\<lparr>callID := c,
               callName := (case n of None \<Rightarrow> callName st | Some name \<Rightarrow> if name \<noteq> [] then name else callName st),
               callArguments := callArguments st @ delta\<rparr>)"

definition endBlock :: "int \<Rightarrow> content_block \<Rightarrow> block_assembler \<Rightarrow> block_assembler \<times> unit res" where
  "endBlock i b a =
     (if b = NilBlock then (a, Inl (err ''llm: block-end content is nil''))
      else case ensure i (ContentType b) a of
        Inl e \<Rightarrow> (a, Inl e)
      | Inr (a', st) \<Rightarrow>
          if completedBlock st \<noteq> None then (a', Inr ())
          else case CloneContent b of
            Inl e \<Rightarrow> (a', Inl e)
          | Inr d \<Rightarrow> (a'\<lparr>partials := put (partials a') i (st\<lparr>completedBlock := Some d\<rparr>)\<rparr>, Inr ()))"

definition acceptFinish :: "finish_reason option \<Rightarrow> raw \<Rightarrow> block_assembler \<Rightarrow> block_assembler \<times> unit res" where
  "acceptFinish reason replay a =
     (case reason of
        None \<Rightarrow> (a, Inl (err ''llm: finish reason is nil''))
      | Some r \<Rightarrow>
          (case CloneReason r of
             Inl e \<Rightarrow> (a, Inl e)
           | Inr detached \<Rightarrow>
               let a' = a\<lparr>assemblyFinish := Some detached, assemblyReplay := Absent\<rparr> in
               if replay = Absent then (a', Inr ())
               else case Clone replay of
                 Inl e \<Rightarrow> (a', Inl e)
               | Inr copied \<Rightarrow> (a'\<lparr>assemblyReplay := copied\<rparr>, Inr ())))"

fun Push :: "stream_chunk \<Rightarrow> block_assembler \<Rightarrow> block_assembler \<times> unit res" where
  "Push NilChunk a = (a, Inl (err ''llm: stream chunk is nil''))"
| "Push (BlockStartChunk i t) a = (case ensure i t a of Inl e \<Rightarrow> (a, Inl e) | Inr (a', st) \<Rightarrow> (a', Inr ()))"
| "Push (TextDeltaChunk i t) a = appendText i ''text'' t a"
| "Push (ReasoningDeltaChunk i t) a = appendText i ''reasoning'' t a"
| "Push (ToolCallDeltaChunk i c n d) a = appendTool i c n d a"
| "Push (BlockEndChunk i b) a = endBlock i b a"
| "Push (UsageChunk u) a = (a\<lparr>assemblyUsage := Some u\<rparr>, Inr ())"
| "Push (FinishChunk r replay) a = acceptFinish r replay a"

definition assemble :: "block_assembly \<Rightarrow> int \<Rightarrow> content_block res" where
  "assemble st i =
     (case completedBlock st of
        Some b \<Rightarrow> CloneContent b
      | None \<Rightarrow>
          if blockKind st = ''text'' then Inr (TextBlock (blockText st))
          else if blockKind st = ''reasoning'' then Inr (ReasoningBlock (blockText st))
          else if blockKind st = ''tool-call'' then
            Inr (ToolCallBlock (if callID st = [] then ''call-'' @ decimal i else callID st) (callName st)
              (callArguments st))
          else Inl (Errorf ''llm: cannot assemble incomplete block of type %q'' [AStr (blockKind st)]))"

text \<open>The text of an error that has no arguments.\<close>

definition error_text :: "goerr \<Rightarrow> string" where
  "error_text e = (case e of Errorf s args \<Rightarrow> s | _ \<Rightarrow> [])"

definition FinishValue :: "block_assembler \<Rightarrow> finish_reason" where
  "FinishValue a =
     (case assemblyFinish a of
        None \<Rightarrow> StopFinish
      | Some r \<Rightarrow>
          (case CloneReason r of
             Inl e \<Rightarrow> ErrorFinish \<lparr>failMessage = error_text e, failCode = ''INVARIANT'', failStatus = None,
                                  failRetryAfter = None, failRequest = []\<rparr>
           | Inr detached \<Rightarrow> detached))"

fun assemble_order :: "block_assembler \<Rightarrow> int list \<Rightarrow> content_block list res" where
  "assemble_order a [] = Inr []"
| "assemble_order a (i # order) =
     (case map_of (partials a) i of
        None \<Rightarrow> Inl (Errorf ''llm: block assembler lost index %d'' [AInt i])
      | Some st \<Rightarrow>
          bindE (assemble st i) (\<lambda>b.
          bindE (assemble_order a order) (\<lambda>bs.
          Inr (if ReasonKind (FinishValue a) = ''max-tokens'' \<and> ContentType b = ''tool-call'' then bs else b # bs))))"

definition AssembledBlocks :: "block_assembler \<Rightarrow> content_block list res" where
  "AssembledBlocks a = assemble_order a (assemblyOrder a)"

definition UsageValue :: "block_assembler \<Rightarrow> token_usage option" where
  "UsageValue a = assemblyUsage a"

definition ReplayValue :: "block_assembler \<Rightarrow> raw" where
  "ReplayValue a = assemblyReplay a"

end
