(* ===== verification/PromptRender.thy ===== *)
theory PromptRender
  imports VisibleContext GoText
begin

text \<open>
  The rendering of an assembled prompt (\<open>src/systemprompt/render.go\<close>): the interpolation of
  \<open>{{name}}\<close> references, the instruction prompt and the runtime context.

  Strings are their bytes and positions are byte offsets, as in Go.
\<close>

section \<open>Data\<close>

record variable_value =
  variableText :: string
  variableDefined :: bool

record tool_schema =
  schemaVersion :: nat
  schemaName :: string
  schemaDescription :: string
  schemaParameters :: raw

record prompt_assembly =
  assembledSections :: "(string \<times> string) list"
  assembledContexts :: "(string \<times> string) list"
  assembledTools :: "tool_schema list"
  assembledVariables :: "(string, variable_value) go_map"

section \<open>Interpolation\<close>

definition name_start :: "char \<Rightarrow> bool" where
  "name_start c = (let n = of_char c :: nat in 97 \<le> n \<and> n \<le> 122)"

definition name_rest :: "char \<Rightarrow> bool" where
  "name_rest c = (let n = of_char c :: nat in 97 \<le> n \<and> n \<le> 122 \<or> 48 \<le> n \<and> n \<le> 57 \<or> n = 95)"

definition variableNamePattern :: "string \<Rightarrow> bool" where
  "variableNamePattern s = (case s of [] \<Rightarrow> False | c # cs \<Rightarrow> name_start c \<and> list_all name_rest cs)"

definition pattern_text :: string where
  "pattern_text = ''^[a-z][a-z0-9_]*$''"

definition ellipsis :: string where
  "ellipsis = [CHR 0xE2, CHR 0x80, CHR 0xA6]"

definition referenceAt :: "string \<Rightarrow> (nat \<times> string) option" where
  "referenceAt input =
     (if take 2 input \<noteq> ''{{'' then None
      else case string_index ''}}'' (drop 2 input) of
        None \<Rightarrow> None
      | Some relative \<Rightarrow>
          let closing = relative + 2; inner = subslice input 2 (closing - 2) in
          if list_ex (\<lambda>c. c = CHR ''{'' \<or> c = CHR ''}'') inner then None
          else if closing + 2 > length input then None
          else Some (closing + 2, inner))"

text \<open>The value of one reference, or the reason why it has none.\<close>

definition reference_value ::
  "string \<Rightarrow> string \<Rightarrow> (string, variable_value) go_map \<Rightarrow> string \<Rightarrow> string res" where
  "reference_value name kind variables reference =
     (let quoted = ''{{'' @ reference @ ''}}'' in
      if \<not> variableNamePattern reference then
        Inl (Errorf ''systemprompt: malformed prompt variable reference %q in %s %q (variable names match %s)''
          [AStr quoted, AStr kind, AStr name, AStr pattern_text])
      else case map_of variables reference of
        None \<Rightarrow>
          Inl (Errorf ''systemprompt: unknown prompt variable %q in %s %q; registered variables: %s''
            [AStr quoted, AStr kind, AStr name, AStr (known_label (map fst variables))])
      | Some retained \<Rightarrow>
          if \<not> variableDefined retained then
            Inl (Errorf ''systemprompt: prompt variable %q has no value for this assembly (%s %q)''
              [AStr quoted, AStr kind, AStr name])
          else Inr (variableText retained))"

definition malformed_reference :: "string \<Rightarrow> string \<Rightarrow> string \<Rightarrow> goerr" where
  "malformed_reference name kind fragment =
     Errorf ''systemprompt: malformed prompt variable reference at %q in %s %q (references are complete simple {{name}} groups)''
       [AStr (take 16 fragment @ ellipsis), AStr kind, AStr name]"

lemma referenceAt_bounds: "referenceAt s = Some (n, r) \<Longrightarrow> 4 \<le> n \<and> n \<le> length s"
  by (auto simp: referenceAt_def Let_def split: if_splits option.splits)

text \<open>
  The loop: \<open>last\<close> is the first byte not yet written.  Every turn moves it past an opening
  pair of braces, which is the measure of its termination.
\<close>

function interpolate_loop ::
  "string \<Rightarrow> string \<Rightarrow> string \<Rightarrow> (string, variable_value) go_map \<Rightarrow> nat \<Rightarrow> string \<Rightarrow> string res" where
  "interpolate_loop name input kind variables start written =
     (case string_index ''{{'' (drop start input) of
        None \<Rightarrow> Inr (written @ drop start input)
      | Some relativeOpen \<Rightarrow>
          let opened = start + relativeOpen in
          (case referenceAt (drop opened input) of
             None \<Rightarrow>
               if string_contains (drop (opened + 2) input) ''}}'' then
                 Inl (malformed_reference name kind (drop opened input))
               else
                 interpolate_loop name input kind variables (opened + 2)
                   (written @ subslice input start (opened + 2 - start))
           | Some (groupEnd, reference) \<Rightarrow>
               bindE (reference_value name kind variables reference) (\<lambda>v.
               interpolate_loop name input kind variables (opened + groupEnd)
                 (written @ subslice input start (opened - start) @ v))))"
  by pat_completeness auto

termination
proof (relation "measure (\<lambda>(name, input, kind, variables, start, written). length input - start)")
  fix name input kind :: string and variables :: "(string, variable_value) go_map"
    and start relativeOpen opened groupEnd :: nat and written reference :: string and p
  assume i: "string_index ''{{'' (drop start input) = Some relativeOpen" "opened = start + relativeOpen"
  then have less: "opened < length input" using string_index_less by fastforce
  then show "((name, input, kind, variables, opened + 2, written @ subslice input start (opened + 2 - start)),
      (name, input, kind, variables, start, written))
      \<in> measure (\<lambda>(name, input, kind, variables, start, written). length input - start)"
    using i by simp
  fix v
  assume "referenceAt (drop opened input) = Some p" "(groupEnd, reference) = p"
  then have "4 \<le> groupEnd" using referenceAt_bounds by auto
  then show "((name, input, kind, variables, opened + groupEnd, written @ subslice input start (opened - start) @ v),
      (name, input, kind, variables, start, written))
      \<in> measure (\<lambda>(name, input, kind, variables, start, written). length input - start)"
    using less i by simp
qed simp

declare interpolate_loop.simps [simp del]

definition interpolate ::
  "string \<Rightarrow> string \<Rightarrow> string \<Rightarrow> (string, variable_value) go_map \<Rightarrow> string res" where
  "interpolate name input kind variables = interpolate_loop name input kind variables 0 []"

section \<open>Rendering\<close>

definition RenderPrompt :: "prompt_assembly \<Rightarrow> string res" where
  "RenderPrompt assembled =
     bindE (mapE (\<lambda>(name, text). interpolate name text ''section'' (assembledVariables assembled))
              (assembledSections assembled)) (\<lambda>parts.
     Inr (join_parts (filter (\<lambda>p. p \<noteq> []) parts)))"

definition RenderContextSections :: "prompt_assembly \<Rightarrow> (string \<times> string) list res" where
  "RenderContextSections assembled =
     bindE (mapE (\<lambda>(name, text).
              bindE (interpolate name text ''context'' (assembledVariables assembled)) (\<lambda>t. Inr (name, t)))
              (assembledContexts assembled)) (\<lambda>resolved.
     Inr (filter (\<lambda>s. snd s \<noteq> []) resolved))"

definition RenderContextSnapshot :: "prompt_assembly \<Rightarrow> string res" where
  "RenderContextSnapshot assembled =
     bindE (RenderContextSections assembled) (\<lambda>sections. Inr (JoinContextSections sections))"

section \<open>Templates\<close>

text \<open>
  What a section text means: literal pieces and references.  A literal never opens a
  reference, not even with the brace of the piece after it.
\<close>

datatype piece = LiteralPiece string | ReferencePiece string

fun no_pair :: "char \<Rightarrow> string \<Rightarrow> bool" where
  "no_pair c (x # y # s) = (\<not> (x = c \<and> y = c) \<and> no_pair c (y # s))"
| "no_pair c s = True"

fun piece_ok :: "piece \<Rightarrow> bool" where
  "piece_ok (LiteralPiece s) = no_pair (CHR ''{'') (s @ ''{'')"
| "piece_ok (ReferencePiece r) = (CHR ''{'' \<notin> set r \<and> CHR ''}'' \<notin> set r)"

fun piece_text :: "piece \<Rightarrow> string" where
  "piece_text (LiteralPiece s) = s"
| "piece_text (ReferencePiece r) = ''{{'' @ r @ ''}}''"

fun piece_value ::
  "string \<Rightarrow> string \<Rightarrow> (string, variable_value) go_map \<Rightarrow> piece \<Rightarrow> string res" where
  "piece_value name kind variables (LiteralPiece s) = Inr s"
| "piece_value name kind variables (ReferencePiece r) = reference_value name kind variables r"

definition template_value ::
  "string \<Rightarrow> string \<Rightarrow> (string, variable_value) go_map \<Rightarrow> piece list \<Rightarrow> string res" where
  "template_value name kind variables pieces =
     bindE (mapE (piece_value name kind variables) pieces) (\<lambda>vs. Inr (concat vs))"

end
