(* ===== verification/RequestHeader.thy ===== *)
theory RequestHeader
  imports ModelStream PromptRender
begin

text \<open>
  The durable facts of a model request: the effective call configuration (\<open>src/llm/types.go\<close>,
  \<open>configuration.go\<close>), the request header and route context with their codec and their folds
  over the log (\<open>src/session/event_types.go\<close>, \<open>request_state.go\<close>), and the drafts that record a
  changed one (\<open>src/agentloop/internal/modelrequest/request_header.go\<close>).

  A \<open>float64\<close> is kept as the literal that \<open>encoding/json\<close> writes for it.  A tool list that is nil
  or empty is one value, because no operation tells them apart; a stop list is an option, since
  its comparison does.
\<close>

section \<open>Configuration of a call\<close>

record call_config =
  configProvider :: string
  configModel :: string
  reasoningEffort :: string
  temperature :: "jnum option"
  maxTokens :: "int option"
  stopSequences :: "string list option"

record adapter_defaults =
  defaultReasoning :: bool
  defaultMaxTokens :: bool

definition zero_number :: "jnum \<Rightarrow> bool" where
  "zero_number x = (case number_parts x of (neg, m, e) \<Rightarrow> float_is_zero m e)"

definition equalFloat :: "jnum option \<Rightarrow> jnum option \<Rightarrow> bool" where
  "equalFloat l r =
     (case (l, r) of
        (Some x, Some y) \<Rightarrow> x = y \<or> zero_number x \<and> zero_number y
      | (None, None) \<Rightarrow> True
      | _ \<Rightarrow> False)"

definition CallConfigEqual :: "call_config \<Rightarrow> call_config \<Rightarrow> bool" where
  "CallConfigEqual l r =
     (configProvider l = configProvider r \<and> configModel l = configModel r \<and>
      reasoningEffort l = reasoningEffort r \<and> equalFloat (temperature l) (temperature r) \<and>
      maxTokens l = maxTokens r \<and> stopSequences l = stopSequences r)"

definition ValidateCallConfig :: "call_config \<Rightarrow> unit res" where
  "ValidateCallConfig c =
     bindE (failIf (configProvider c = [] \<or> TrimSpace (configProvider c) \<noteq> configProvider c \<or>
                    configModel c = [] \<or> TrimSpace (configModel c) \<noteq> configModel c)
       (err ''llm: provider and model must be non-empty and trimmed'')) (\<lambda>_.
     bindE (failIf (\<not> pred_option (\<lambda>n. 0 < n) (maxTokens c)) (err ''llm: max tokens must be positive'')) (\<lambda>_.
     failIf (\<not> pred_option (\<lambda>x. case number_parts x of (neg, m, e) \<Rightarrow> \<not> float_overflows m e) (temperature c))
       (err ''llm: temperature must be finite'')))"

section \<open>Headers\<close>

record epoch_header =
  headerConfig :: call_config
  headerDefaults :: "adapter_defaults option"
  headerSystem :: "string option"
  headerTools :: "tool_schema list"

record request_header =
  snapshotHeader :: epoch_header
  snapshotReason :: string

record route_context =
  routeProvider :: string
  routeModel :: string
  contextWindow :: "int option"

definition RequestHeaderEventName :: string where
  "RequestHeaderEventName = ''request/header''"

definition RequestContextEventName :: string where
  "RequestContextEventName = ''request/context''"

definition CanonicalEpochHeader :: "epoch_header \<Rightarrow> epoch_header" where
  "CanonicalEpochHeader h =
     \<lparr>headerConfig = headerConfig h,
      headerDefaults =
        (case headerDefaults h of
           None \<Rightarrow> None
         | Some d \<Rightarrow> if defaultReasoning d \<or> defaultMaxTokens d then Some d else None),
      headerSystem = (case headerSystem h of None \<Rightarrow> None | Some s \<Rightarrow> if s \<noteq> [] then Some s else None),
      headerTools = headerTools h\<rparr>"

definition schema_json :: "tool_schema \<Rightarrow> json res" where
  "schema_json s =
     bindE (if schemaParameters s = Absent then Inr JNull else raw_json (schemaParameters s)) (\<lambda>p.
     Inr (JObj [(''name'', JStr (schemaName s)), (''description'', JStr (schemaDescription s)), (''parameters'', p)]))"

fun same_schemas :: "tool_schema list \<Rightarrow> tool_schema list \<Rightarrow> bool" where
  "same_schemas (x # xs) (y # ys) =
     (isOk (schema_json x) \<and> isOk (schema_json y) \<and> schema_json x = schema_json y \<and> same_schemas xs ys)"
| "same_schemas xs ys = (xs = [] \<and> ys = [])"

definition EpochHeaderEqual :: "epoch_header \<Rightarrow> epoch_header \<Rightarrow> bool" where
  "EpochHeaderEqual left right =
     (let l = CanonicalEpochHeader left; r = CanonicalEpochHeader right in
      CallConfigEqual (headerConfig l) (headerConfig r) \<and> headerDefaults l = headerDefaults r \<and>
      headerSystem l = headerSystem r \<and> length (headerTools l) = length (headerTools r) \<and>
      same_schemas (headerTools l) (headerTools r))"

section \<open>Marshalling\<close>

definition omit_text :: "string \<Rightarrow> string \<Rightarrow> (string \<times> json) list" where
  "omit_text n s = (if s = [] then [] else [(n, JStr s)])"

definition config_json :: "call_config \<Rightarrow> json" where
  "config_json c =
     JObj ([(''provider'', JStr (configProvider c)), (''model'', JStr (configModel c))] @
           omit_text ''reasoningEffort'' (reasoningEffort c) @
           omit ''temperature'' JNum (temperature c) @
           omit ''maxTokens'' (\<lambda>n. jint n) (maxTokens c) @
           (if elements (stopSequences c) = [] then []
            else [(''stop'', JArr (map JStr (elements (stopSequences c))))]))"

definition defaults_json :: "adapter_defaults \<Rightarrow> json" where
  "defaults_json d =
     JObj ((if defaultReasoning d then [(''reasoningEffort'', JBool True)] else []) @
           (if defaultMaxTokens d then [(''maxTokens'', JBool True)] else []))"

definition header_json :: "epoch_header \<Rightarrow> json res" where
  "header_json h =
     bindE (mapE schema_json (headerTools h)) (\<lambda>tools.
     Inr (JObj ([(''config'', config_json (headerConfig h))] @
           omit ''adapterDefaults'' defaults_json (headerDefaults h) @
           omit ''system'' JStr (headerSystem h) @
           (if tools = [] then [] else [(''tools'', JArr tools)]))))"

definition marshal_request_header :: "request_header \<Rightarrow> json res" where
  "marshal_request_header p =
     bindE (header_json (snapshotHeader p)) (\<lambda>h.
     Inr (JObj [(''header'', h), (''reason'', JStr (snapshotReason p))]))"

definition marshal_route :: "route_context \<Rightarrow> json res" where
  "marshal_route c =
     Inr (JObj ([(''provider'', JStr (routeProvider c)), (''model'', JStr (routeModel c))] @
                omit ''contextWindow'' (\<lambda>n. jint n) (contextWindow c)))"

section \<open>Decoding\<close>

text \<open>
  A field whose occurrences are decoded in order, the last one standing; a pointer to a struct,
  whose occurrences are decoded into one struct until a null drops it.
\<close>

fun last_decoded :: "('j \<Rightarrow> 'a res) \<Rightarrow> 'a \<Rightarrow> 'j list \<Rightarrow> 'a res" where
  "last_decoded dec z [] = Inr z"
| "last_decoded dec z (v # vs) = bindE (dec v) (\<lambda>x. last_decoded dec x vs)"

fun pointer_fields :: "(string \<times> json) list option \<Rightarrow> json list \<Rightarrow> (string \<times> json) list option res" where
  "pointer_fields acc [] = Inr acc"
| "pointer_fields acc (JNull # vs) = pointer_fields None vs"
| "pointer_fields acc (JObj fs # vs) = pointer_fields (Some (elements acc @ fs)) vs"
| "pointer_fields acc (v # vs) = Inl type_error"

definition strict_known :: "string list \<Rightarrow> (string \<times> json) list \<Rightarrow> unit res" where
  "strict_known names fs = failIf (\<not> known_fields names fs) (err ''json: unknown field'')"

fun string_slice :: "json \<Rightarrow> string list option res" where
  "string_slice JNull = Inr None"
| "string_slice (JArr xs) = bindE (mapE (\<lambda>x. scan_scalar as_string [] [x]) xs) (\<lambda>ys. Inr (Some ys))"
| "string_slice j = Inl type_error"

definition config_names :: "string list" where
  "config_names = [''provider'', ''model'', ''reasoningEffort'', ''temperature'', ''maxTokens'', ''stop'']"

definition decode_call_config :: "json list \<Rightarrow> call_config res" where
  "decode_call_config vs =
     bindE (nested_fields vs) (\<lambda>fs.
     bindE (strict_known config_names fs) (\<lambda>_.
     bindE (get_string fs ''provider'') (\<lambda>p.
     bindE (get_string fs ''model'') (\<lambda>m.
     bindE (get_string fs ''reasoningEffort'') (\<lambda>e.
     bindE (scan_pointer as_float64 None (matches ''temperature'' fs)) (\<lambda>t.
     bindE (scan_pointer as_int64 None (matches ''maxTokens'' fs)) (\<lambda>n.
     bindE (last_decoded string_slice None (matches ''stop'' fs)) (\<lambda>s.
     Inr \<lparr>configProvider = p, configModel = m, reasoningEffort = e, temperature = t, maxTokens = n,
          stopSequences = s\<rparr>))))))))"

definition decode_defaults :: "json list \<Rightarrow> adapter_defaults option res" where
  "decode_defaults vs =
     bindE (pointer_fields None vs) (\<lambda>r. case r of
        None \<Rightarrow> Inr None
      | Some fs \<Rightarrow>
          bindE (strict_known [''reasoningEffort'', ''maxTokens''] fs) (\<lambda>_.
          bindE (get_bool fs ''reasoningEffort'') (\<lambda>e.
          bindE (get_bool fs ''maxTokens'') (\<lambda>n.
          Inr (Some \<lparr>defaultReasoning = e, defaultMaxTokens = n\<rparr>)))))"

definition decode_schema :: "json \<Rightarrow> tool_schema res" where
  "decode_schema j =
     bindE (fields_of (Doc j)) (\<lambda>fs.
     bindE (strict_known [''name'', ''description'', ''parameters''] fs) (\<lambda>_.
     bindE (get_string fs ''name'') (\<lambda>n.
     bindE (get_string fs ''description'') (\<lambda>d.
     Inr \<lparr>schemaVersion = 0, schemaName = n, schemaDescription = d,
          schemaParameters = get_raw fs ''parameters''\<rparr>))))"

fun schema_slice :: "json \<Rightarrow> tool_schema list res" where
  "schema_slice JNull = Inr []"
| "schema_slice (JArr xs) = mapE decode_schema xs"
| "schema_slice j = Inl type_error"

definition decode_header :: "json list \<Rightarrow> epoch_header res" where
  "decode_header vs =
     bindE (nested_fields vs) (\<lambda>fs.
     bindE (strict_known [''config'', ''adapterDefaults'', ''system'', ''tools''] fs) (\<lambda>_.
     bindE (decode_call_config (matches ''config'' fs)) (\<lambda>c.
     bindE (decode_defaults (matches ''adapterDefaults'' fs)) (\<lambda>d.
     bindE (scan_pointer as_string None (matches ''system'' fs)) (\<lambda>s.
     bindE (last_decoded schema_slice [] (matches ''tools'' fs)) (\<lambda>t.
     Inr \<lparr>headerConfig = c, headerDefaults = d, headerSystem = s, headerTools = t\<rparr>))))))"

text \<open>\<open>decodeSessionPayload\<close> into the two payloads.\<close>

definition decode_request_header :: "raw \<Rightarrow> request_header res" where
  "decode_request_header r =
     bindE (strict_fields [''header'', ''reason''] r) (\<lambda>fs.
     bindE (decode_header (matches ''header'' fs)) (\<lambda>h.
     bindE (get_string fs ''reason'') (\<lambda>why.
     Inr \<lparr>snapshotHeader = h, snapshotReason = why\<rparr>)))"

definition decode_route :: "raw \<Rightarrow> route_context res" where
  "decode_route r =
     bindE (strict_fields [''provider'', ''model'', ''contextWindow''] r) (\<lambda>fs.
     bindE (get_string fs ''provider'') (\<lambda>p.
     bindE (get_string fs ''model'') (\<lambda>m.
     bindE (scan_pointer as_int64 None (matches ''contextWindow'' fs)) (\<lambda>w.
     Inr \<lparr>routeProvider = p, routeModel = m, contextWindow = w\<rparr>))))"

section \<open>Folds over the log\<close>

fun latest_header :: "epoch_header option \<Rightarrow> event list \<Rightarrow> epoch_header option res" where
  "latest_header latest [] = Inr latest"
| "latest_header latest (entry # es) =
     (if evType entry \<noteq> RequestHeaderEventName then latest_header latest es
      else bindE (wrapE (\<lambda>e. Errorf ''session: invalid request/header at seq %d: %w'' [AInt (evSeq entry), AErr e])
                    (decode_request_header (evData entry))) (\<lambda>payload.
           latest_header (Some (CanonicalEpochHeader (snapshotHeader payload))) es))"

definition LatestRequestHeader :: "event list \<Rightarrow> epoch_header option res" where
  "LatestRequestHeader es =
     bindE (latest_header None es) (\<lambda>latest. Inr (map_option CanonicalEpochHeader latest))"

fun latest_context :: "route_context option \<Rightarrow> event list \<Rightarrow> route_context option res" where
  "latest_context latest [] = Inr latest"
| "latest_context latest (entry # es) =
     (if evType entry \<noteq> RequestContextEventName then latest_context latest es
      else bindE (wrapE (\<lambda>e. Errorf ''session: invalid request/context at seq %d: %w'' [AInt (evSeq entry), AErr e])
                    (decode_route (evData entry))) (\<lambda>payload.
           bindE (failIf (routeProvider payload = [] \<or> routeModel payload = [] \<or>
                          \<not> pred_option (\<lambda>n. 0 < n) (contextWindow payload))
             (Errorf ''session: invalid request/context at seq %d'' [AInt (evSeq entry)])) (\<lambda>_.
           latest_context (Some payload) es)))"

definition LatestRequestContext :: "event list \<Rightarrow> route_context option res" where
  "LatestRequestContext es = latest_context None es"

section \<open>Drafts\<close>

definition HeaderDraft :: "epoch_header option \<Rightarrow> epoch_header \<Rightarrow> bool \<Rightarrow> event_draft option res" where
  "HeaderDraft previous effective initial =
     (let canonical = CanonicalEpochHeader effective in
      if \<not> initial \<and> (case previous of None \<Rightarrow> False | Some h \<Rightarrow> EpochHeaderEqual h canonical) then Inr None
      else
        let reason = (if initial then (if previous \<noteq> None then ''resume'' else ''initial'') else ''change'') in
        bindE (NewEventDraft RequestHeaderEventName
                 (marshal_request_header \<lparr>snapshotHeader = canonical, snapshotReason = reason\<rparr>) False) (\<lambda>d.
        Inr (Some d)))"

definition sameContext :: "route_context \<Rightarrow> route_context \<Rightarrow> bool" where
  "sameContext l r =
     (if routeProvider l \<noteq> routeProvider r \<or> routeModel l \<noteq> routeModel r then False
      else if contextWindow l = None \<or> contextWindow r = None then contextWindow l = None \<and> contextWindow r = None
      else contextWindow l = contextWindow r)"

definition ContextDraft :: "route_context option \<Rightarrow> route_context \<Rightarrow> event_draft option res" where
  "ContextDraft previous effective =
     (if case previous of None \<Rightarrow> False | Some c \<Rightarrow> sameContext c effective then Inr None
      else bindE (NewEventDraft RequestContextEventName (marshal_route effective) False) (\<lambda>d. Inr (Some d)))"

end
