(* ===== verification/GoFloat.thy ===== *)
theory GoFloat
  imports GoText GoJson Complex_Main
begin

text \<open>
  Go's \<open>float64\<close> as the retry and prompt code uses it: a finite value is the rational it
  denotes, so the two zeros, which no comparison separates, are one.  Arithmetic is exact
  arithmetic followed by rounding to the nearest value, ties to even; a multiplication and an
  addition are never fused.  The end of the theory holds the decimal literals
  \<open>encoding/json\<close> reads and writes.
\<close>

section \<open>Values\<close>

datatype go_float = Finite rat | PosInf | NegInf | NotANumber

fun finite_float :: "go_float \<Rightarrow> bool" where
  "finite_float (Finite q) = True"
| "finite_float f = False"

fun float_less :: "go_float \<Rightarrow> go_float \<Rightarrow> bool" where
  "float_less NotANumber y = False"
| "float_less x NotANumber = False"
| "float_less x NegInf = False"
| "float_less NegInf y = True"
| "float_less PosInf y = False"
| "float_less x PosInf = True"
| "float_less (Finite p) (Finite q) = (p < q)"

section \<open>Rounding\<close>

definition scale :: "nat \<Rightarrow> int \<Rightarrow> rat" where
  "scale b e = (if 0 \<le> e then of_nat b ^ nat e else 1 / of_nat b ^ nat (- e))"

definition round_even :: "rat \<Rightarrow> int" where
  "round_even q =
     (let below = \<lfloor>q\<rfloor>; rest = q - of_int below in
      if rest < 1 / 2 \<or> (rest = 1 / 2 \<and> even below) then below else below + 1)"

fun floor_log :: "nat \<Rightarrow> nat \<Rightarrow> nat" where
  "floor_log b n = (if b \<le> 1 \<or> n < b then 0 else Suc (floor_log b (n div b)))"

declare floor_log.simps [simp del]

definition ceiling_log :: "nat \<Rightarrow> nat \<Rightarrow> nat" where
  "ceiling_log b n = (if n \<le> 1 then 0 else Suc (floor_log b (n - 1)))"

text \<open>The greatest power of the base that a positive value reaches.\<close>

definition magnitude :: "nat \<Rightarrow> rat \<Rightarrow> int" where
  "magnitude b q =
     (if 1 \<le> q then int (floor_log b (nat \<lfloor>q\<rfloor>)) else - int (ceiling_log b (nat \<lceil>1 / q\<rceil>)))"

definition round_positive :: "rat \<Rightarrow> go_float" where
  "round_positive q =
     (let unit = scale 2 (max (magnitude 2 q) (- 1022) - 52); r = of_int (round_even (q / unit)) * unit in
      if 2 ^ 1024 \<le> r then PosInf else Finite r)"

fun negate_float :: "go_float \<Rightarrow> go_float" where
  "negate_float (Finite q) = Finite (- q)"
| "negate_float PosInf = NegInf"
| "negate_float NegInf = PosInf"
| "negate_float NotANumber = NotANumber"

definition float64 :: "rat \<Rightarrow> go_float" where
  "float64 q =
     (if q = 0 then Finite 0 else if q < 0 then negate_float (round_positive (- q)) else round_positive q)"

lemma round_even_nonneg: "0 \<le> q \<Longrightarrow> 0 \<le> round_even q"
  by (auto simp: round_even_def Let_def)

lemma scale_pos [simp]: "0 < b \<Longrightarrow> 0 < scale b e"
  by (simp add: scale_def)

lemma float64_nonneg:
  assumes "0 \<le> q"
  shows "float64 q = PosInf \<or> (\<exists>r \<ge> 0. float64 q = Finite r)"
proof (cases "q = 0")
  case False
  define unit where "unit = scale 2 (max (magnitude 2 q) (- 1022) - 52)"
  have "0 < unit" by (simp add: unit_def)
  moreover from this assms have "0 \<le> round_even (q / unit)" by (simp add: round_even_nonneg)
  ultimately show ?thesis
    using assms False by (simp add: float64_def round_positive_def Let_def flip: unit_def)
qed (simp add: float64_def)

text \<open>Rounding moves a value by at most one unit, so a value of moderate size stays finite.\<close>

lemma scale_powi: "0 < b \<Longrightarrow> scale b e = of_nat b powi e"
  by (simp add: scale_def power_int_def power_inverse divide_inverse)

lemma scale_mono: "e \<le> e' \<Longrightarrow> scale 2 e \<le> scale 2 e'"
  by (simp add: scale_powi power_int_increasing)

lemma floor_log_power: "0 < n \<Longrightarrow> 1 < b \<Longrightarrow> b ^ floor_log b n \<le> n"
proof (induction b n rule: floor_log.induct)
  case (1 b n)
  show ?case
  proof (cases "n < b")
    case False
    with 1 have "b ^ floor_log b (n div b) \<le> n div b" by (simp add: div_greater_zero_iff)
    then have "b * b ^ floor_log b (n div b) \<le> b * (n div b)" by simp
    also have "\<dots> \<le> n" by simp
    finally show ?thesis using 1 False by (subst floor_log.simps) simp
  qed (use 1 in \<open>subst floor_log.simps, simp\<close>)
qed

lemma magnitude_scale:
  assumes "0 < q"
  shows "scale 2 (magnitude 2 q) \<le> max q 1"
proof (cases "1 \<le> q")
  case True
  then have "2 ^ floor_log 2 (nat \<lfloor>q\<rfloor>) \<le> nat \<lfloor>q\<rfloor>" by (intro floor_log_power) auto
  then have "(of_nat (2 ^ floor_log 2 (nat \<lfloor>q\<rfloor>)) :: rat) \<le> of_nat (nat \<lfloor>q\<rfloor>)" by (rule of_nat_mono)
  also have "\<dots> \<le> q" using True by (simp add: of_nat_nat)
  finally show ?thesis using True by (simp add: magnitude_def scale_def)
next
  case False
  have "scale 2 (magnitude 2 q) \<le> scale 2 0" using False by (intro scale_mono) (simp add: magnitude_def)
  then show ?thesis by (simp add: scale_def)
qed

lemma round_even_le: "of_int (round_even q) \<le> q + 1"
  by (auto simp: round_even_def Let_def intro: order_trans [OF of_int_floor_le])

lemma float64_finite:
  assumes "0 \<le> q" "q \<le> 2 ^ 1000"
  shows "\<exists>r. float64 q = Finite r \<and> 0 \<le> r \<and> r \<le> 2 * q + 1"
proof (cases "q = 0")
  case False
  define unit where "unit = scale 2 (max (magnitude 2 q) (- 1022) - 52)"
  define r where "r = of_int (round_even (q / unit)) * unit"
  have pos: "0 < q" "0 < unit" using assms False by (simp_all add: unit_def)
  have "unit \<le> scale 2 (max (magnitude 2 q) 0)" unfolding unit_def by (rule scale_mono) simp
  also have "\<dots> \<le> max q 1"
    using magnitude_scale [OF pos(1)] by (auto simp: max_def scale_def)
  finally have "unit \<le> max q 1" .
  moreover have "r \<le> (q / unit + 1) * unit" unfolding r_def using pos round_even_le by (intro mult_right_mono) auto
  moreover have "(q / unit + 1) * unit = q + unit" using pos by (simp add: distrib_right)
  ultimately have le: "r \<le> 2 * q + 1" using pos by (auto simp: max_def split: if_splits)
  have "2 * q + 1 \<le> 2 * 2 ^ 1000 + 1" using assms by simp
  also have "\<dots> < (2 ^ 1024 :: rat)" by simp
  finally have "\<not> 2 ^ 1024 \<le> r" using le by simp
  moreover have "0 \<le> r" using pos round_even_nonneg [of "q / unit"] by (simp add: r_def)
  ultimately have "float64 q = Finite r" "0 \<le> r"
    using pos by (simp_all add: float64_def round_positive_def Let_def r_def flip: unit_def)
  with le show ?thesis by blast
qed (simp add: float64_def)

section \<open>Literals\<close>

definition literal_value :: "jnum \<Rightarrow> rat" where
  "literal_value x =
     (case number_parts x of (neg, m, e) \<Rightarrow> (if neg then - 1 else 1) * (of_nat m * scale 10 e))"

definition float_value :: "jnum \<Rightarrow> go_float" where
  "float_value x = float64 (literal_value x)"

text \<open>The shortest decimal digits, with their exponent, that read back as the given value.\<close>

definition decimal_digits :: "rat \<Rightarrow> nat \<Rightarrow> nat \<times> int" where
  "decimal_digits q n =
     (let k = magnitude 10 q - int n + 1 in (nat (round_even (q / scale 10 k)), k))"

definition shortest_digits :: "rat \<Rightarrow> nat \<times> int" where
  "shortest_digits q =
     (case find (\<lambda>(d, k). float64 (of_nat d * scale 10 k) = Finite q) (map (decimal_digits q) [1 ..< 17]) of
        Some p \<Rightarrow> p
      | None \<Rightarrow> decimal_digits q 17)"

fun strip_zeros :: "nat \<Rightarrow> int \<Rightarrow> nat \<times> int" where
  "strip_zeros d k = (if d = 0 \<or> d mod 10 \<noteq> 0 then (d, k) else strip_zeros (d div 10) (k + 1))"

declare strip_zeros.simps [simp del]

definition padded :: "nat \<Rightarrow> string \<Rightarrow> string" where
  "padded n s = replicate (n - length s) (CHR ''0'') @ s"

definition exponent_literal :: "nat \<Rightarrow> int \<Rightarrow> string" where
  "exponent_literal d k =
     (let s = decimal_nat d; x = k + int (length s) - 1 in
      hd s # (if tl s = [] then [] else CHR ''.'' # tl s) @ ''e'' @ (if 0 \<le> x then ''+'' else []) @ decimal x)"

definition fraction_literal :: "nat \<Rightarrow> nat \<Rightarrow> string" where
  "fraction_literal d n = decimal_nat (d div 10 ^ n) @ ''.'' @ padded n (decimal_nat (d mod 10 ^ n))"

definition float_literal :: "rat \<Rightarrow> jnum" where
  "float_literal q =
     (if q = 0 then NInt 0
      else case shortest_digits \<bar>q\<bar> of (d0, k0) \<Rightarrow> case strip_zeros d0 k0 of (d, k) \<Rightarrow>
        let sign = (if q < 0 then ''-'' else []) in
        if \<bar>q\<bar> < 1 / 10 ^ 6 \<or> 10 ^ 21 \<le> \<bar>q\<bar> then NLit (sign @ exponent_literal d k)
        else if 0 \<le> k then NInt ((if q < 0 then - 1 else 1) * int (d * 10 ^ nat k))
        else NLit (sign @ fraction_literal d (nat (- k))))"

end
