(* ===== verification/RetryPolicy.thy ===== *)
theory RetryPolicy
  imports RequestHeader GoFloat
begin

text \<open>
  The retry policy a provider registers: its configuration with the decoder, the defaults and
  the validation (\<open>src/llm/retry_policy.go\<close>, \<open>retry_policy_codec.go\<close>).

  \<open>RetryPolicy\<close> is an interface with two implementations in this package, the constructors
  below; their \<open>Mode\<close> field is the discriminant, which every clone resets.
\<close>

section \<open>Types\<close>

record backoff_config =
  initialDelayMs :: "go_float option"
  maxDelayMs :: "go_float option"
  jitterRatio :: "go_float option"

record retry_config =
  configuredMode :: string
  configuredRetries :: "int option"
  configuredCodes :: "string list option"
  configuredBackoff :: "backoff_config option"

record retry_backoff =
  InitialDelayMS :: go_float
  MaxDelayMS :: go_float
  JitterRatio :: go_float

datatype retry_policy =
    NormalRetryPolicy retry_backoff int "string list"
  | AlwaysRetryPolicy retry_backoff

definition DefaultMaxRetries :: int where "DefaultMaxRetries = 2"
definition DefaultInitialDelayMS :: go_float where "DefaultInitialDelayMS = Finite 500"
definition DefaultMaxDelayMS :: go_float where "DefaultMaxDelayMS = Finite 10000"
definition DefaultJitterRatio :: go_float where
  "DefaultJitterRatio = Finite (3602879701896397 / 36028797018963968)"
definition MaxTimerDelayMS :: int where "MaxTimerDelayMS = 2147483647"

definition defaultRetryableCodes :: "string list" where
  "defaultRetryableCodes = [''EMPTY_RESPONSE'', ''RATE_LIMIT'', ''SERVER'', ''TIMEOUT'', ''TRANSPORT'']"

fun RetryBackoff :: "retry_policy \<Rightarrow> retry_backoff" where
  "RetryBackoff (NormalRetryPolicy b n codes) = b"
| "RetryBackoff (AlwaysRetryPolicy b) = b"

section \<open>Validation and defaults\<close>

definition finitePositive :: "go_float \<Rightarrow> bool" where
  "finitePositive x = (finite_float x \<and> float_less (Finite 0) x)"

abbreviation timer_limit :: go_float where
  "timer_limit \<equiv> Finite (of_int MaxTimerDelayMS)"

definition resolveRetryBackoff :: "backoff_config option \<Rightarrow> string \<Rightarrow> retry_backoff res" where
  "resolveRetryBackoff settings diagnosticPath =
     (let given = (\<lambda>f z. case settings of None \<Rightarrow> z | Some s \<Rightarrow> case f s of None \<Rightarrow> z | Some x \<Rightarrow> x);
          initialDelay = given initialDelayMs DefaultInitialDelayMS;
          maximumDelay = given maxDelayMs DefaultMaxDelayMS;
          jitter = given jitterRatio DefaultJitterRatio in
      bindE (failIf (\<not> finitePositive initialDelay \<or> float_less timer_limit initialDelay)
        (Errorf ''%s.initialDelayMs must be positive and no greater than %.0f''
          [AStr diagnosticPath, AInt MaxTimerDelayMS])) (\<lambda>_.
      bindE (failIf (\<not> finitePositive maximumDelay \<or> float_less timer_limit maximumDelay)
        (Errorf ''%s.maxDelayMs must be positive and no greater than %.0f''
          [AStr diagnosticPath, AInt MaxTimerDelayMS])) (\<lambda>_.
      bindE (failIf (float_less maximumDelay initialDelay)
        (Errorf ''%s.initialDelayMs must be less than or equal to maxDelayMs'' [AStr diagnosticPath])) (\<lambda>_.
      bindE (failIf (\<not> finite_float jitter \<or> float_less jitter (Finite 0) \<or> float_less (Finite 1) jitter)
        (Errorf ''%s.jitterRatio must be between 0 and 1'' [AStr diagnosticPath])) (\<lambda>_.
      Inr \<lparr>InitialDelayMS = initialDelay, MaxDelayMS = maximumDelay, JitterRatio = jitter\<rparr>)))))"

fun check_codes :: "string list \<Rightarrow> string list \<Rightarrow> string \<Rightarrow> unit res" where
  "check_codes seen [] diagnosticPath = Inr ()"
| "check_codes seen (failureCode # codes) diagnosticPath =
     bindE (failIf (failureCode = [])
       (Errorf ''%s.retryableCodes must contain only non-empty strings'' [AStr diagnosticPath])) (\<lambda>_.
     bindE (failIf (failureCode \<in> set seen)
       (Errorf ''%s.retryableCodes must not contain duplicates'' [AStr diagnosticPath])) (\<lambda>_.
     check_codes (failureCode # seen) codes diagnosticPath))"

definition validateRetryableCodes :: "string list \<Rightarrow> string \<Rightarrow> unit res" where
  "validateRetryableCodes codes diagnosticPath =
     bindE (failIf (codes = []) (Errorf ''%s.retryableCodes must not be empty'' [AStr diagnosticPath])) (\<lambda>_.
     check_codes [] codes diagnosticPath)"

definition ResolveRetryPolicy :: "retry_config option \<Rightarrow> string \<Rightarrow> retry_policy res" where
  "ResolveRetryPolicy settings givenPath =
     (let diagnosticPath = (if givenPath = [] then ''llm retryPolicy'' else givenPath) in
      case settings of
        None \<Rightarrow>
          bindE (resolveRetryBackoff None (diagnosticPath @ ''.backoff'')) (\<lambda>b.
          Inr (NormalRetryPolicy b DefaultMaxRetries defaultRetryableCodes))
      | Some s \<Rightarrow>
          bindE (resolveRetryBackoff (configuredBackoff s) (diagnosticPath @ ''.backoff'')) (\<lambda>b.
          if configuredMode s = ''normal'' then
            let retryLimit = (case configuredRetries s of None \<Rightarrow> DefaultMaxRetries | Some n \<Rightarrow> n) in
            bindE (failIf (retryLimit < 0 \<or> retryLimit > maxSafeInteger)
              (Errorf ''%s.maxRetries must be a non-negative safe integer'' [AStr diagnosticPath])) (\<lambda>_.
            let codes = (case configuredCodes s of None \<Rightarrow> defaultRetryableCodes | Some cs \<Rightarrow> cs) in
            bindE (validateRetryableCodes codes diagnosticPath) (\<lambda>_.
            Inr (NormalRetryPolicy b retryLimit codes)))
          else if configuredMode s = ''always'' then
            bindE (failIf (configuredRetries s \<noteq> None \<or> configuredCodes s \<noteq> None)
              (Errorf ''%s: maxRetries and retryableCodes are valid only in normal mode'' [AStr diagnosticPath])) (\<lambda>_.
            Inr (AlwaysRetryPolicy b))
          else Inl (Errorf ''%s.mode must be normal or always'' [AStr diagnosticPath])))"

section \<open>Decoding\<close>

text \<open>
  A field kept raw and decoded on its own: absent, or null and not allowed, or decoded with one
  error for whatever fails.
\<close>

definition raw_setting :: "(string \<times> json) list \<Rightarrow> string \<Rightarrow> goerr \<Rightarrow> (json \<Rightarrow> 'a res) \<Rightarrow> 'a option res" where
  "raw_setting fs name problem dec =
     (case get_raw fs name of
        Doc j \<Rightarrow>
          if j = JNull then Inl problem
          else (case dec j of Inl e \<Rightarrow> Inl problem | Inr x \<Rightarrow> Inr (Some x))
      | _ \<Rightarrow> Inr None)"

definition decode_backoff :: "json \<Rightarrow> backoff_config res" where
  "decode_backoff j =
     bindE (strict_fields [''initialDelayMs'', ''maxDelayMs'', ''jitterRatio''] (Doc j)) (\<lambda>fs.
     bindE (scan_pointer as_float64 None (matches ''initialDelayMs'' fs)) (\<lambda>i.
     bindE (scan_pointer as_float64 None (matches ''maxDelayMs'' fs)) (\<lambda>m.
     bindE (scan_pointer as_float64 None (matches ''jitterRatio'' fs)) (\<lambda>r.
     Inr \<lparr>initialDelayMs = map_option float_value i, maxDelayMs = map_option float_value m,
          jitterRatio = map_option float_value r\<rparr>))))"

definition decode_retry_config :: "json \<Rightarrow> retry_config res" where
  "decode_retry_config encoded =
     bindE (failIf (encoded = JNull) (err ''llm: retryPolicy must be an object'')) (\<lambda>_.
     bindE (strict_fields [''mode'', ''maxRetries'', ''retryableCodes'', ''backoff''] (Doc encoded)) (\<lambda>fs.
     let bad_mode = err ''llm: retryPolicy.mode must be normal or always'' in
     bindE (raw_setting fs ''mode'' bad_mode (\<lambda>j. scan_scalar as_string [] [j])) (\<lambda>mode.
     bindE (failIf (mode = None) bad_mode) (\<lambda>_.
     bindE (raw_setting fs ''maxRetries'' (err ''llm: retryPolicy.maxRetries must be a non-negative safe integer'')
              (\<lambda>j. scan_scalar as_int64 0 [j])) (\<lambda>n.
     bindE (raw_setting fs ''retryableCodes'' (err ''llm: retryPolicy.retryableCodes must be an array'')
              string_slice) (\<lambda>codes.
     bindE (case get_raw fs ''backoff'' of
              Doc j \<Rightarrow> if j = JNull then Inl (err ''llm: retryPolicy.backoff must be an object'')
                       else bindE (decode_backoff j) (\<lambda>b. Inr (Some b))
            | _ \<Rightarrow> Inr None) (\<lambda>b.
     Inr \<lparr>configuredMode = the mode, configuredRetries = n, configuredCodes = Option.bind codes id,
          configuredBackoff = b\<rparr>)))))))"

section \<open>What a resolved policy guarantees\<close>

fun backoff_ok :: "retry_backoff \<Rightarrow> bool" where
  "backoff_ok b =
     (case (InitialDelayMS b, MaxDelayMS b, JitterRatio b) of
        (Finite i, Finite m, Finite r) \<Rightarrow> 0 < i \<and> i \<le> m \<and> m \<le> of_int MaxTimerDelayMS \<and> 0 \<le> r \<and> r \<le> 1
      | _ \<Rightarrow> False)"

declare backoff_ok.simps [simp del]

lemma backoff_ok_iff:
  "backoff_ok b \<longleftrightarrow>
     (\<exists>i m r. InitialDelayMS b = Finite i \<and> MaxDelayMS b = Finite m \<and> JitterRatio b = Finite r \<and>
       0 < i \<and> i \<le> m \<and> m \<le> of_int MaxTimerDelayMS \<and> 0 \<le> r \<and> r \<le> 1)"
  by (auto simp: backoff_ok.simps split: go_float.splits)

fun policy_ok :: "retry_policy \<Rightarrow> bool" where
  "policy_ok (NormalRetryPolicy b n codes) =
     (backoff_ok b \<and> isSafeNonNegative n \<and> codes \<noteq> [] \<and> [] \<notin> set codes \<and> distinct codes)"
| "policy_ok (AlwaysRetryPolicy b) = backoff_ok b"

lemma float_le_iff: "\<not> float_less (Finite q) (Finite p) \<longleftrightarrow> p \<le> q"
  by auto

lemma resolved_backoff_ok: "resolveRetryBackoff s path = Inr b \<Longrightarrow> backoff_ok b"
  unfolding resolveRetryBackoff_def Let_def backoff_ok_iff
  by (auto simp: bindE_Inr_iff failIf_Inr finitePositive_def not_less elim!: finite_float.elims)

lemma check_codes_ok:
  "check_codes seen codes path = Inr () \<longleftrightarrow> [] \<notin> set codes \<and> distinct codes \<and> set codes \<inter> set seen = {}"
  by (induction codes arbitrary: seen) (auto simp: bindE_Inr_iff failIf_Inr)

lemma default_codes_ok:
  "defaultRetryableCodes \<noteq> []" "[] \<notin> set defaultRetryableCodes" "distinct defaultRetryableCodes"
  by (simp_all add: defaultRetryableCodes_def)

lemma resolved_policy_ok:
  assumes "ResolveRetryPolicy s path = Inr p"
  shows "policy_ok p"
proof (cases s)
  case None
  with assms show ?thesis
    by (auto simp: ResolveRetryPolicy_def bindE_Inr_iff default_codes_ok DefaultMaxRetries_def
        isSafeNonNegative_def maxSafeInteger_def dest: resolved_backoff_ok)
next
  case (Some t)
  with assms show ?thesis
    by (auto simp: ResolveRetryPolicy_def Let_def bindE_Inr_iff failIf_Inr validateRetryableCodes_def
        check_codes_ok isSafeNonNegative_def dest: resolved_backoff_ok split: if_splits)
qed

end
