(* ===== verification/ModelAttempt.thy ===== *)
theory ModelAttempt
  imports RetryPolicy SessionLog
begin

text \<open>
  One attempt of a model request (\<open>src/agentloop/internal/modelrequest/\<close> \<open>attempt.go\<close>,
  \<open>attempt_checks.go\<close>, \<open>attempt_flow.go\<close>, \<open>attempt_operations.go\<close>): it asks for one effect at
  a time and consumes its result.  It commits the request facts, then every chunk it reads, and
  the assembled message last.

  Effects are performed outside; an attempt is returned updated.  The identity that
  \<open>NewAssistantMessage\<close> draws from crypto/rand is an argument.  Sequence numbers are unbounded:
  one that wraps is not a safe integer and fails validation anyway.
\<close>

section \<open>Errors\<close>

text \<open>An error of this package's flow, a provider's \<open>LlmError\<close>, or errors joined.\<close>

datatype model_error =
    Failure goerr
  | ProviderFailure llm_failure
  | JoinedFailures "model_error list"

definition join_errors :: "model_error option list \<Rightarrow> model_error option" where
  "join_errors es =
     (let present = List.map_filter id es in if present = [] then None else Some (JoinedFailures present))"

abbreviation problem_text :: "string \<Rightarrow> model_error" where
  "problem_text s \<equiv> Failure (err s)"

section \<open>Operations and results\<close>

record generate_options =
  optionsConfig :: call_config
  optionsMessages :: "message list"
  optionsSystem :: "string option"
  optionsTools :: "tool_schema list"
  optionsSession :: string
  optionsPurpose :: string

record model_input =
  inputMessages :: "message list"
  inputSystem :: "string option"
  inputTools :: "tool_schema list"
  inputSession :: string
  inputPurpose :: string

record model_outcome =
  outcomeMessage :: message_value
  outcomeFinish :: "finish_reason option"
  outcomeError :: "model_error option"
  outcomeClosed :: bool
  outcomeHeader :: bool

datatype attempt_operation =
    ReadLog
  | CommitEvents event_draft
  | Generate model_input
  | ReadChunk
  | CloseStream
  | AttemptCompleted model_outcome

record generation_start =
  startedConfig :: call_config
  startedDefaults :: adapter_defaults
  startedContext :: "int option"
  startedPolicy :: "retry_policy option"
  startedError :: "model_error option"

datatype attempt_result =
    NoResult
  | LogRead snapshot
  | EventsCommitted write_result
  | GenerationStarted generation_start
  | ChunkRead stream_chunk bool
  | StreamClosed
  | AttemptFailed "model_error option"

section \<open>State\<close>

datatype attempt_phase =
    ProposedAttempt | ReadingLog | CommittingHeader | CommittingContext | CheckingRequest
  | OpeningStream | ReadingStream | CommittingChunk | ClosingStream | CommittingMessage
  | CompletedAttempt

record attempt =
  attemptPhase :: attempt_phase
  attemptBaseline :: "event list"
  pendingCommit :: "event_draft option"
  preparedMessage :: "event_draft option"
  confirmedNext :: int
  attemptFirst :: bool
  headerDone :: bool
  attemptClosed :: bool
  attemptFailure :: "model_error option"
  pendingChunk :: stream_chunk
  pendingContext :: "event_draft option"
  attemptPosition :: step_position
  options :: generate_options
  attemptDefaults :: adapter_defaults
  attemptContext :: "int option"
  assembly :: block_assembler
  chunkSequences :: "int list"
  attemptMessage :: message_value
  messageAccepted :: bool

record attempt_input =
  attemptedPosition :: step_position
  attemptedSession :: string
  attemptedPrompt :: prompt_assembly
  attemptedFirst :: bool

definition no_message :: message_value where
  "no_message = \<lparr>idValue = [], roleValue = RoleOther [], content = [], origin = NilSource\<rparr>"

definition no_config :: call_config where
  "no_config = \<lparr>configProvider = [], configModel = [], reasoningEffort = [], temperature = None,
     maxTokens = None, stopSequences = None\<rparr>"

definition CloneGenerateOptions :: "generate_options \<Rightarrow> generate_options res" where
  "CloneGenerateOptions inputSnapshot =
     bindE (CloneMessages (optionsMessages inputSnapshot)) (\<lambda>conversation.
     Inr (inputSnapshot\<lparr>optionsMessages := conversation\<rparr>))"

definition bad_position :: "step_position \<Rightarrow> bool" where
  "bad_position p =
     (posTurn p \<le> 0 \<or> posStep p \<le> 0 \<or> posTurn p > maxSafeInteger \<or> posStep p > maxSafeInteger)"

definition new_attempt :: "attempt_input \<Rightarrow> generate_options \<Rightarrow> attempt" where
  "new_attempt i opts =
     \<lparr>attemptPhase = ProposedAttempt, attemptBaseline = [], pendingCommit = None, preparedMessage = None,
      confirmedNext = 0, attemptFirst = attemptedFirst i, headerDone = False, attemptClosed = False,
      attemptFailure = None, pendingChunk = NilChunk, pendingContext = None,
      attemptPosition = attemptedPosition i, options = opts,
      attemptDefaults = \<lparr>defaultReasoning = False, defaultMaxTokens = False\<rparr>, attemptContext = None,
      assembly = NewBlockAssembler, chunkSequences = [], attemptMessage = no_message, messageAccepted = False\<rparr>"

definition NewAttempt :: "attempt_input \<Rightarrow> attempt res" where
  "NewAttempt i =
     bindE (failIf (bad_position (attemptedPosition i))
       (err ''agentloop: model position must contain positive safe integers'')) (\<lambda>_.
     bindE (failIf (attemptedSession i = []) (err ''agentloop: model Session identity is required'')) (\<lambda>_.
     bindE (RenderPrompt (attemptedPrompt i)) (\<lambda>rendered.
     bindE (CloneGenerateOptions
              \<lparr>optionsConfig = no_config, optionsMessages = [],
               optionsSystem = (if rendered = [] then None else Some rendered),
               optionsTools = assembledTools (attemptedPrompt i), optionsSession = attemptedSession i,
               optionsPurpose = []\<rparr>) (\<lambda>opts.
     Inr (new_attempt i opts)))))"

section \<open>Preparing and confirming facts\<close>

definition effective_header :: "attempt \<Rightarrow> epoch_header" where
  "effective_header a =
     CanonicalEpochHeader
       \<lparr>headerConfig = optionsConfig (options a), headerDefaults = Some (attemptDefaults a),
        headerSystem = optionsSystem (options a), headerTools = optionsTools (options a)\<rparr>"

definition Prepare ::
  "event list \<Rightarrow> bool \<Rightarrow> attempt \<Rightarrow> (attempt \<times> event_draft option \<times> event_draft option) res" where
  "Prepare es first a =
     (let header = effective_header a in
      bindE (LatestRequestHeader es) (\<lambda>previous.
      bindE (HeaderDraft previous header first) (\<lambda>draft.
      let route = \<lparr>routeProvider = configProvider (headerConfig header), routeModel = configModel (headerConfig header),
                   contextWindow = attemptContext a\<rparr> in
      bindE (LatestRequestContext es) (\<lambda>previousContext.
      bindE (ContextDraft previousContext route) (\<lambda>routeDraft.
      Inr (a\<lparr>options := (options a)\<lparr>optionsConfig := headerConfig header, optionsSystem := headerSystem header,
               optionsTools := headerTools header\<rparr>\<rparr>, draft, routeDraft))))))"

definition marshal_assistant_chunk :: "step_position \<Rightarrow> stream_chunk \<Rightarrow> json res" where
  "marshal_assistant_chunk p chunk =
     bindE (marshal_chunk chunk) (\<lambda>j.
     Inr (JObj [(''turn'', jint (posTurn p)), (''step'', jint (posStep p)), (''chunk'', j)]))"

definition ChunkDraft :: "attempt \<Rightarrow> stream_chunk \<Rightarrow> event_draft res" where
  "ChunkDraft a chunk =
     NewEventDraft ''assistant/chunk'' (marshal_assistant_chunk (attemptPosition a) chunk) False"

definition check_chunk :: "stream_chunk \<Rightarrow> event list \<Rightarrow> attempt \<Rightarrow> unit res" where
  "check_chunk chunk events a =
     bindE (failIf (messageAccepted a) (err ''agentloop: assistant response is already committed'')) (\<lambda>_.
     bindE (failIf (length events \<noteq> 1) (err ''agentloop: unexpected committed assistant chunk'')) (\<lambda>_.
     bindE (ChunkDraft a chunk) (\<lambda>draft.
     bindE (ValidateEvent draft (hd events)) (\<lambda>_.
     failIf (chunkSequences a \<noteq> [] \<and> evSeq (hd events) \<le> last (chunkSequences a))
       (err ''agentloop: assistant chunk sequence did not advance'')))))"

definition ConfirmChunk :: "stream_chunk \<Rightarrow> event list \<Rightarrow> attempt \<Rightarrow> attempt \<times> unit res" where
  "ConfirmChunk chunk events a =
     (case check_chunk chunk events a of
        Inl e \<Rightarrow> (a, Inl e)
      | Inr _ \<Rightarrow>
          (case Push chunk (assembly a) of
             (pushed, Inl e) \<Rightarrow> (a\<lparr>assembly := pushed\<rparr>, Inl e)
           | (pushed, Inr _) \<Rightarrow>
               (a\<lparr>assembly := pushed, chunkSequences := chunkSequences a @ [evSeq (hd events)]\<rparr>, Inr ())))"

definition marshal_assistant_message ::
  "step_position \<Rightarrow> message_value \<Rightarrow> token_usage option \<Rightarrow> json res" where
  "marshal_assistant_message p m usage =
     bindE (marshal_message m) (\<lambda>j.
     Inr (JObj ([(''turn'', jint (posTurn p)), (''step'', jint (posStep p)), (''message'', j)] @
                omit ''usage'' json_usage usage)))"

definition AssistantDraft :: "string res \<Rightarrow> attempt \<Rightarrow> (attempt \<times> event_draft option) res" where
  "AssistantDraft identifier a =
     (if ReasonKind (FinishValue (assembly a)) = ''error'' \<or> ReasonKind (FinishValue (assembly a)) = ''aborted''
      then Inr (a, None)
      else
        bindE (AssembledBlocks (assembly a)) (\<lambda>blocks.
        bindE identifier (\<lambda>generated.
        bindE (NewAssistantMessage generated blocks
                 (ModelSource (configProvider (optionsConfig (options a))) (configModel (optionsConfig (options a)))
                   (ReplayValue (assembly a)))) (\<lambda>m.
        bindE (NewSurfaceEventDraft ''assistant/message''
                 (marshal_assistant_message (attemptPosition a) m (UsageValue (assembly a)))
                 SurfaceAppend (Some (chunkSequences a)) False) (\<lambda>draft.
        Inr (a\<lparr>preparedMessage := Some draft, attemptMessage := m\<rparr>, Some draft))))))"

definition ConfirmAssistant :: "event list \<Rightarrow> attempt \<Rightarrow> attempt res" where
  "ConfirmAssistant events a =
     bindE (failIf (idValue (attemptMessage a) = []) (err ''agentloop: assistant message has not been prepared'')) (\<lambda>_.
     case preparedMessage a of
       None \<Rightarrow> Inl (err ''agentloop: unexpected committed assistant message'')
     | Some draft \<Rightarrow>
         bindE (failIf (length events \<noteq> 1 \<or> messageAccepted a)
           (err ''agentloop: unexpected committed assistant message'')) (\<lambda>_.
         bindE (ValidateEvent draft (hd events)) (\<lambda>_.
         Inr (a\<lparr>messageAccepted := True\<rparr>))))"

definition AcceptedMessage :: "attempt \<Rightarrow> message_value" where
  "AcceptedMessage a = (if messageAccepted a then attemptMessage a else no_message)"

section \<open>Checks\<close>

fun derive_nodes :: "event list \<Rightarrow> int \<Rightarrow> int list \<Rightarrow> message list res" where
  "derive_nodes es limit [] = Inr []"
| "derive_nodes es limit (sequence # rest) =
     bindE (failIf (sequence < 0 \<or> sequence \<ge> limit)
       (Errorf ''agentloop: surface sequence %d is outside the committed log'' [AInt sequence])) (\<lambda>_.
     bindE (decodeDerivedMessage (es ! nat sequence)) (\<lambda>m.
     bindE (derive_nodes es limit rest) (\<lambda>ms.
     Inr (case m of None \<Rightarrow> ms | Some x \<Rightarrow> x # ms))))"

definition deriveInput :: "snapshot \<Rightarrow> attempt \<Rightarrow> message list res" where
  "deriveInput s a =
     bindE (failIf (barrierSession (snapBarrier s) \<noteq> optionsSession (options a))
       (err ''agentloop: model input Session identity mismatch'')) (\<lambda>_.
     bindE (failIf (barrierNext (snapBarrier s) < confirmedNext a \<or>
                    barrierNext (snapBarrier s) \<noteq> int (length (snapEvents s)))
       (err ''agentloop: model baseline is incomplete or has moved backwards'')) (\<lambda>_.
     bindE (failIf (\<not> list_all (\<lambda>(i, entry). evSeq entry = int i) (enumerate 0 (snapEvents s)))
       (err ''agentloop: model baseline sequence is discontinuous'')) (\<lambda>_.
     derive_nodes (snapEvents s) (barrierNext (snapBarrier s)) (nodes (snapSurface s)))))"

text \<open>Decoding into the position the loop keeps: an absent field leaves it as it was.\<close>

definition unmarshal_onto :: "step_position \<Rightarrow> raw \<Rightarrow> step_position res" where
  "unmarshal_onto p r =
     bindE (fields_of r) (\<lambda>fs.
     bindE (scan_scalar as_int64 (posTurn p) (matches ''turn'' fs)) (\<lambda>t.
     bindE (scan_scalar as_int64 (posStep p) (matches ''step'' fs)) (\<lambda>s.
     Inr \<lparr>posTurn = t, posStep = s\<rparr>)))"

definition no_position :: step_position where
  "no_position = \<lparr>posTurn = 0, posStep = 0\<rparr>"

fun open_position :: "int \<Rightarrow> step_position \<Rightarrow> event list \<Rightarrow> (int \<times> step_position) res" where
  "open_position t p [] = Inr (t, p)"
| "open_position t p (entry # es) =
     (if evType entry = ''turn/start'' then
        bindE (unmarshal_turn (evData entry)) (\<lambda>started. open_position started no_position es)
      else if evType entry = ''turn/end'' then open_position 0 no_position es
      else if evType entry = ''step/start'' then
        bindE (unmarshal_onto p (evData entry)) (\<lambda>q. open_position t q es)
      else if evType entry = ''step/end'' then open_position t no_position es
      else open_position t p es)"

definition checkStep :: "event list \<Rightarrow> attempt \<Rightarrow> unit res" where
  "checkStep es a =
     bindE (open_position 0 no_position es) (\<lambda>(turnNumber, position).
     failIf (turnNumber \<noteq> posTurn (attemptPosition a) \<or> position \<noteq> attemptPosition a)
       (err ''agentloop: model attempt requires its current open Turn and Step''))"

definition load :: "snapshot \<Rightarrow> attempt \<Rightarrow> attempt res" where
  "load s a =
     bindE (deriveInput s a) (\<lambda>history.
     bindE (checkStep (snapEvents s) a) (\<lambda>_.
     Inr (a\<lparr>confirmedNext := barrierNext (snapBarrier s), options := (options a)\<lparr>optionsMessages := history\<rparr>\<rparr>)))"

definition marshal_messages :: "message list \<Rightarrow> json list res" where
  "marshal_messages ms = mapE (\<lambda>m. marshal_message (message_val m)) ms"

definition checkRequest :: "snapshot \<Rightarrow> attempt \<Rightarrow> attempt res" where
  "checkRequest s a =
     bindE (deriveInput s a) (\<lambda>history.
     bindE (checkStep (snapEvents s) a) (\<lambda>_.
     bindE (marshal_messages (optionsMessages (options a))) (\<lambda>proposed.
     bindE (marshal_messages history) (\<lambda>projected.
     bindE (failIf (proposed \<noteq> projected)
       (err ''agentloop: model messages no longer match the committed Surface'')) (\<lambda>_.
     bindE (LatestRequestHeader (snapEvents s)) (\<lambda>header.
     bindE (failIf (case header of None \<Rightarrow> True | Some h \<Rightarrow> \<not> EpochHeaderEqual h (effective_header a))
       (err ''agentloop: model parameters do not match the committed request header'')) (\<lambda>_.
     Inr (a\<lparr>confirmedNext := barrierNext (snapBarrier s)\<rparr>))))))))"

fun pending_result :: "attempt_phase \<Rightarrow> attempt_result \<Rightarrow> bool" where
  "pending_result ReadingLog (LogRead s) = True"
| "pending_result CheckingRequest (LogRead s) = True"
| "pending_result CommittingHeader (EventsCommitted w) = True"
| "pending_result CommittingContext (EventsCommitted w) = True"
| "pending_result CommittingChunk (EventsCommitted w) = True"
| "pending_result CommittingMessage (EventsCommitted w) = True"
| "pending_result OpeningStream (GenerationStarted g) = True"
| "pending_result ReadingStream (ChunkRead c found) = True"
| "pending_result ClosingStream StreamClosed = True"
| "pending_result p r = False"

definition checkResult :: "attempt_result \<Rightarrow> attempt \<Rightarrow> unit res" where
  "checkResult r a =
     bindE (failIf (attemptPhase a = ProposedAttempt \<or> attemptPhase a = CompletedAttempt)
       (err ''agentloop: model attempt has no pending operation'')) (\<lambda>_.
     case r of
       AttemptFailed problem \<Rightarrow>
         failIf (problem = None) (err ''agentloop: failed operation requires an error'')
     | _ \<Rightarrow>
         failIf (\<not> pending_result (attemptPhase a) r)
           (err ''agentloop: result does not match the pending model operation''))"

definition confirmCommit :: "write_result \<Rightarrow> attempt \<Rightarrow> attempt res" where
  "confirmCommit write a =
     (let mismatch = err ''agentloop: model commit acknowledgement does not match the pending write'' in
      case pendingCommit a of
        None \<Rightarrow> Inl mismatch
      | Some draft \<Rightarrow>
          bindE (failIf (length (resultEvents write) \<noteq> 1 \<or>
                   barrierSession (resultBarrier write) \<noteq> optionsSession (options a) \<or>
                   firstSeq write < confirmedNext a \<or> nextSeq write \<noteq> firstSeq write + 1 \<or>
                   barrierNext (resultBarrier write) \<noteq> nextSeq write \<or>
                   evSeq (hd (resultEvents write)) \<noteq> firstSeq write) mismatch) (\<lambda>_.
          bindE (ValidateEvent draft (hd (resultEvents write))) (\<lambda>_.
          Inr (a\<lparr>confirmedNext := nextSeq write, pendingCommit := None\<rparr>))))"

section \<open>The flow\<close>

definition StartAttempt :: "attempt \<Rightarrow> (attempt \<times> attempt_operation) res" where
  "StartAttempt a =
     bindE (failIf (attemptPhase a \<noteq> ProposedAttempt) (err ''agentloop: model attempt already started'')) (\<lambda>_.
     Inr (a\<lparr>attemptPhase := ReadingLog\<rparr>, ReadLog))"

definition complete_attempt :: "model_error option \<Rightarrow> attempt \<Rightarrow> attempt \<times> attempt_operation" where
  "complete_attempt problem a =
     (a\<lparr>attemptPhase := CompletedAttempt, attemptFailure := problem\<rparr>,
      AttemptCompleted
        \<lparr>outcomeMessage = (if problem = None then AcceptedMessage a else no_message),
         outcomeFinish = Some (FinishValue (assembly a)), outcomeError = problem,
         outcomeClosed = attemptClosed a, outcomeHeader = headerDone a\<rparr>)"

definition fail_attempt :: "model_error option \<Rightarrow> attempt \<Rightarrow> attempt \<times> attempt_operation" where
  "fail_attempt given a =
     (let problem = (if given = None then Some (problem_text ''agentloop: model operation failed without an error'')
                     else given);
          b = a\<lparr>attemptFailure := join_errors [attemptFailure a, problem]\<rparr> in
      if attemptClosed b then complete_attempt (attemptFailure b) b
      else (b\<lparr>attemptPhase := ClosingStream\<rparr>, CloseStream))"

definition issue_commit :: "event_draft \<Rightarrow> attempt \<Rightarrow> attempt \<times> attempt_operation" where
  "issue_commit draft a = (a\<lparr>pendingCommit := Some draft\<rparr>, CommitEvents draft)"

definition afterHeader :: "attempt \<Rightarrow> attempt \<times> attempt_operation" where
  "afterHeader a =
     (case pendingContext a of
        Some draft \<Rightarrow> issue_commit draft (a\<lparr>pendingContext := None, attemptPhase := CommittingContext\<rparr>)
      | None \<Rightarrow> (a\<lparr>attemptPhase := CheckingRequest\<rparr>, ReadLog))"

text \<open>
  A branch of \<open>advance\<close> either returns or falls through to the cancellation check at the end.
\<close>

datatype 'a branch = Returned 'a | Continued 'a

abbreviation failed_branch :: "goerr \<Rightarrow> attempt \<Rightarrow> (attempt \<times> attempt_operation) branch" where
  "failed_branch e a \<equiv> Returned (fail_attempt (Some (Failure e)) a)"

definition log_loaded :: "snapshot \<Rightarrow> attempt \<Rightarrow> (attempt \<times> attempt_operation) branch" where
  "log_loaded s a =
     (case load s a of
        Inl e \<Rightarrow> failed_branch e a
      | Inr b \<Rightarrow>
          Continued (b\<lparr>attemptBaseline := snapEvents s, attemptPhase := OpeningStream\<rparr>,
            Generate \<lparr>inputMessages = optionsMessages (options b), inputSystem = optionsSystem (options b),
              inputTools = optionsTools (options b), inputSession = optionsSession (options b),
              inputPurpose = optionsPurpose (options b)\<rparr>))"

definition stream_opened :: "generation_start \<Rightarrow> attempt \<Rightarrow> (attempt \<times> attempt_operation) branch" where
  "stream_opened started a =
     (case startedError started of
        Some e \<Rightarrow> Returned (fail_attempt (Some e) a)
      | None \<Rightarrow>
          let b = a\<lparr>options := (options a)\<lparr>optionsConfig := startedConfig started\<rparr>,
                     attemptDefaults := startedDefaults started, attemptContext := startedContext started\<rparr> in
          (case Prepare (attemptBaseline b) (attemptFirst b) b of
             Inl e \<Rightarrow> failed_branch e (b\<lparr>attemptBaseline := []\<rparr>)
           | Inr (c, header, route) \<Rightarrow>
               let d = c\<lparr>attemptBaseline := [], pendingContext := route\<rparr> in
               Continued (case header of
                   Some draft \<Rightarrow> issue_commit draft (d\<lparr>attemptPhase := CommittingHeader\<rparr>)
                 | None \<Rightarrow> afterHeader d)))"

definition commit_confirmed ::
  "write_result \<Rightarrow> model_error option \<Rightarrow> attempt \<Rightarrow> (attempt \<times> attempt_operation) branch" where
  "commit_confirmed write cancellation a =
     (case confirmCommit write a of
        Inl e \<Rightarrow> failed_branch e a
      | Inr b \<Rightarrow>
          if attemptPhase b = CommittingHeader then Continued (afterHeader (b\<lparr>headerDone := True\<rparr>))
          else if attemptPhase b = CommittingContext then
            Continued (b\<lparr>attemptPhase := CheckingRequest\<rparr>, ReadLog)
          else if attemptPhase b = CommittingChunk then
            (case ConfirmChunk (pendingChunk b) (resultEvents write) b of
               (c, Inl e) \<Rightarrow> failed_branch e c
             | (c, Inr _) \<Rightarrow> Continued (c\<lparr>pendingChunk := NilChunk, attemptPhase := ReadingStream\<rparr>, ReadChunk))
          else
            (case ConfirmAssistant (resultEvents write) b of
               Inl e \<Rightarrow> failed_branch e b
             | Inr c \<Rightarrow> Returned (complete_attempt cancellation c)))"

definition request_checked :: "snapshot \<Rightarrow> attempt \<Rightarrow> (attempt \<times> attempt_operation) branch" where
  "request_checked s a =
     (case checkRequest s a of
        Inl e \<Rightarrow> failed_branch e a
      | Inr b \<Rightarrow> Continued (b\<lparr>attemptPhase := ReadingStream\<rparr>, ReadChunk))"

definition chunk_read :: "stream_chunk \<Rightarrow> bool \<Rightarrow> attempt \<Rightarrow> (attempt \<times> attempt_operation) branch" where
  "chunk_read chunk found a =
     (if \<not> found then Continued (a\<lparr>attemptPhase := ClosingStream\<rparr>, CloseStream)
      else case ChunkDraft a chunk of
        Inl e \<Rightarrow> failed_branch e a
      | Inr draft \<Rightarrow> Continued (issue_commit draft (a\<lparr>pendingChunk := chunk, attemptPhase := CommittingChunk\<rparr>)))"

definition stream_closed ::
  "string res \<Rightarrow> model_error option \<Rightarrow> attempt \<Rightarrow> (attempt \<times> attempt_operation) branch" where
  "stream_closed identifier cancellation a0 =
     (let a = a0\<lparr>attemptClosed := True\<rparr> in
      Returned
        (if attemptFailure a \<noteq> None then complete_attempt (attemptFailure a) a
         else if cancellation \<noteq> None then complete_attempt cancellation a
         else case AssistantDraft identifier a of
           Inl e \<Rightarrow> complete_attempt (Some (Failure e)) a
         | Inr (b, None) \<Rightarrow> complete_attempt None b
         | Inr (b, Some draft) \<Rightarrow> issue_commit draft (b\<lparr>attemptPhase := CommittingMessage\<rparr>)))"

text \<open>The default case is out of reach behind \<open>checkResult\<close>, as is a result of another phase.\<close>

definition interpret_result ::
  "string res \<Rightarrow> attempt_result \<Rightarrow> model_error option \<Rightarrow> attempt \<Rightarrow> (attempt \<times> attempt_operation) branch" where
  "interpret_result identifier r cancellation a =
     (case (attemptPhase a, r) of
        (ReadingLog, LogRead s) \<Rightarrow> log_loaded s a
      | (CheckingRequest, LogRead s) \<Rightarrow> request_checked s a
      | (OpeningStream, GenerationStarted started) \<Rightarrow> stream_opened started a
      | (ReadingStream, ChunkRead chunk found) \<Rightarrow> chunk_read chunk found a
      | (ClosingStream, StreamClosed) \<Rightarrow> stream_closed identifier cancellation a
      | (_, EventsCommitted write) \<Rightarrow> commit_confirmed write cancellation a
      | _ \<Rightarrow> Returned (complete_attempt (Some (problem_text ''agentloop: model attempt has no pending operation'')) a))"

definition check_cancelled ::
  "model_error option \<Rightarrow> attempt \<times> attempt_operation \<Rightarrow> attempt \<times> attempt_operation" where
  "check_cancelled cancellation selected =
     (case selected of (a, next_op) \<Rightarrow>
        if cancellation = None then selected
        else if next_op = CloseStream then
          (a\<lparr>attemptFailure := join_errors [attemptFailure a, cancellation]\<rparr>, next_op)
        else fail_attempt cancellation a)"

definition failed_operation ::
  "model_error option \<Rightarrow> model_error option \<Rightarrow> attempt \<Rightarrow> attempt \<times> attempt_operation" where
  "failed_operation problem cancellation a =
     (let joined = join_errors [cancellation, problem] in
      if attemptPhase a = ClosingStream then
        let failure = join_errors [attemptFailure a, joined];
            kept = (if failure = None then Some (problem_text ''agentloop: stream closure failed without an error'')
                    else failure) in
        complete_attempt kept (a\<lparr>attemptFailure := kept\<rparr>)
      else fail_attempt joined a)"

definition advance_attempt ::
  "string res \<Rightarrow> attempt_result \<Rightarrow> model_error option \<Rightarrow> attempt \<Rightarrow> attempt \<times> attempt_operation" where
  "advance_attempt identifier r cancellation a =
     (case r of
        AttemptFailed problem \<Rightarrow> failed_operation problem cancellation a
      | _ \<Rightarrow>
          (case interpret_result identifier r cancellation a of
             Returned selected \<Rightarrow> selected
           | Continued selected \<Rightarrow> check_cancelled cancellation selected))"

definition AdvanceAttempt ::
  "string res \<Rightarrow> attempt_result \<Rightarrow> model_error option \<Rightarrow> attempt \<Rightarrow> (attempt \<times> attempt_operation) res" where
  "AdvanceAttempt identifier r cancellation a =
     bindE (checkResult r a) (\<lambda>_. Inr (advance_attempt identifier r cancellation a))"

definition RetryAttemptClose :: "attempt \<Rightarrow> (attempt \<times> attempt_operation) res" where
  "RetryAttemptClose a =
     bindE (failIf (attemptPhase a \<noteq> CompletedAttempt)
       (err ''agentloop: cleanup retry requires a completed attempt'')) (\<lambda>_.
     Inr (if attemptClosed a then complete_attempt (attemptFailure a) a
          else (a\<lparr>attemptPhase := ClosingStream\<rparr>, CloseStream)))"

end
