(* ===== verification/PromptLayers.thy ===== *)
theory PromptLayers
  imports PromptRender Payloads SessionLog GoFloat
begin

text \<open>
  The registrations of the system prompt: the configuration (\<open>src/systemprompt/config.go\<close>), the
  store of one layer (\<open>store.go\<close>), the layer with its baseline (\<open>layer.go\<close>,
  \<open>layer_constructor.go\<close>) and the snapshots it captures (\<open>snapshot.go\<close>).

  A provider outside this package is a value of type \<open>'f\<close>; a nil interface is \<open>NoText\<close> or
  \<open>NoVariable\<close>.  The random identifiers of registrations are arguments.
\<close>

section \<open>Definitions\<close>

datatype 'f text_provider = NoText | StaticText string | TextFn 'f

datatype 'f variable_provider = NoVariable | FixedVariable variable_value | VariableFn 'f

record 'f prompt_section =
  sectionName :: string
  sectionOrder :: go_float
  sectionText :: "'f text_provider"
  sectionComplete :: bool

record 'f prompt_context =
  contextName :: string
  contextOrder :: go_float
  contextProvider :: "'f text_provider"

record 'f layer_snapshot =
  layerSections :: "'f prompt_section list"
  layerContexts :: "'f prompt_context list"
  layerVariables :: "(string \<times> 'f variable_provider) list"
  layerSuppressed :: bool

datatype entry_kind = SectionEntry | ContextEntry | VariableEntry | SuppressorEntry

record 'f prompt_store =
  snapshotValue :: "'f layer_snapshot"
  storeSections :: "(string, 'f prompt_section) go_map"
  storeSectionOrder :: "string list"
  storeContexts :: "(string, 'f prompt_context) go_map"
  storeContextOrder :: "string list"
  storeVariables :: "(string, 'f variable_provider) go_map"
  storeVariableOrder :: "string list"
  storeSuppressors :: "(string, unit) go_map"
  storeEntries :: "(string, entry_kind \<times> string) go_map"

section \<open>Configuration\<close>

record prompt_config =
  includeHarnessIdentity :: "bool option"
  includeRuntimeContext :: "bool option"
  persona :: string
  toolOrder :: "string list option"

record validated_config =
  validHarnessIdentity :: bool
  validRuntimeContext :: bool
  validPersona :: string
  validToolOrder :: "string list option"

definition ToolOrderRest :: string where
  "ToolOrderRest = ''<unlisted-tools>''"

fun order_seen :: "string list \<Rightarrow> string list \<Rightarrow> string list res" where
  "order_seen seen [] = Inr seen"
| "order_seen seen (name # names) =
     (if name \<in> set seen then Inl (Errorf ''systemprompt: toolOrder lists %q more than once'' [AStr name])
      else order_seen (seen @ [name]) names)"

definition validateToolOrderSyntax :: "string list option \<Rightarrow> unit res" where
  "validateToolOrderSyntax requested =
     (case requested of
        None \<Rightarrow> Inr ()
      | Some names \<Rightarrow>
          bindE (order_seen [] names) (\<lambda>seen.
          failIf (ToolOrderRest \<notin> set seen)
            (Errorf ''systemprompt: toolOrder must contain the %q rest entry (where unlisted tools are inserted)''
               [AStr ToolOrderRest])))"

definition optionEnabled :: "bool option \<Rightarrow> bool \<Rightarrow> bool" where
  "optionEnabled selected fallback = (case selected of None \<Rightarrow> fallback | Some b \<Rightarrow> b)"

definition ValidateConfig :: "prompt_config \<Rightarrow> validated_config res" where
  "ValidateConfig settings =
     bindE (validateToolOrderSyntax (toolOrder settings)) (\<lambda>_.
     Inr \<lparr>validHarnessIdentity = optionEnabled (includeHarnessIdentity settings) True,
          validRuntimeContext = optionEnabled (includeRuntimeContext settings) True,
          validPersona = persona settings,
          validToolOrder = toolOrder settings\<rparr>)"

definition Configuration :: "validated_config \<Rightarrow> prompt_config" where
  "Configuration input =
     \<lparr>includeHarnessIdentity = Some (validHarnessIdentity input),
      includeRuntimeContext = Some (validRuntimeContext input),
      persona = validPersona input, toolOrder = validToolOrder input\<rparr>"

text \<open>\<open>PromptLayer.Configuration\<close> and the codec of the configuration.\<close>

definition config_fields :: "string list" where
  "config_fields = [''includeHarnessIdentity'', ''includeRuntimeContext'', ''persona'', ''toolOrder'']"

definition marshal_config :: "prompt_config \<Rightarrow> json" where
  "marshal_config settings =
     JObj (omit ''includeHarnessIdentity'' JBool (includeHarnessIdentity settings) @
           omit ''includeRuntimeContext'' JBool (includeRuntimeContext settings) @
           (if persona settings = [] then [] else [(''persona'', JStr (persona settings))]) @
           omit ''toolOrder'' (\<lambda>names. JArr (map JStr names)) (toolOrder settings))"

definition decodeConfigBool :: "raw \<Rightarrow> string \<Rightarrow> bool res" where
  "decodeConfigBool encoded fieldName =
     (if encoded = Doc JNull then Inl (Errorf ''systemprompt: %s must be a boolean'' [AStr fieldName])
      else wrapE (\<lambda>e. Errorf ''systemprompt: %s must be a boolean: %w'' [AStr fieldName, AErr e])
             (unmarshal_scalar as_bool False encoded))"

definition optional_bool :: "raw \<Rightarrow> string \<Rightarrow> bool option res" where
  "optional_bool field fieldName =
     (if field = Absent then Inr None
      else bindE (decodeConfigBool field fieldName) (\<lambda>b. Inr (Some b)))"

fun unmarshal_strings :: "raw \<Rightarrow> string list option res" where
  "unmarshal_strings r =
     bindE (unmarshal_array r) (\<lambda>a. case a of
        None \<Rightarrow> Inr None
      | Some xs \<Rightarrow> bindE (mapE (\<lambda>x. scan_scalar as_string [] [x]) xs) (\<lambda>ys. Inr (Some ys)))"

definition unmarshal_config :: "raw \<Rightarrow> prompt_config res" where
  "unmarshal_config encoded =
     bindE (failIf (encoded = Doc JNull) (err ''systemprompt: config must be an object'')) (\<lambda>_.
     bindE (strict_fields config_fields encoded) (\<lambda>wire.
     bindE (optional_bool (get_raw wire ''includeHarnessIdentity'') ''includeHarnessIdentity'') (\<lambda>identity.
     bindE (optional_bool (get_raw wire ''includeRuntimeContext'') ''includeRuntimeContext'') (\<lambda>runtime.
     bindE (let field = get_raw wire ''persona'' in
            if field = Absent then Inr []
            else if field = Doc JNull then Inl (err ''systemprompt: persona must be a string'')
            else wrapE (\<lambda>_. err ''systemprompt: persona must be a string'') (unmarshal_scalar as_string [] field))
       (\<lambda>text.
     bindE (let field = get_raw wire ''toolOrder'' in
            if field = Absent then Inr None
            else if field = Doc JNull then Inl (err ''systemprompt: toolOrder must be an array of strings'')
            else wrapE (\<lambda>e. Errorf ''systemprompt: toolOrder must be an array of strings: %w'' [AErr e])
                   (unmarshal_strings field)) (\<lambda>order.
     Inr \<lparr>includeHarnessIdentity = identity, includeRuntimeContext = runtime, persona = text,
          toolOrder = order\<rparr>))))))"

definition PersonaSection :: string where
  "PersonaSection = ''deployment:persona''"

definition definitions :: "validated_config \<Rightarrow> 'f layer_snapshot" where
  "definitions input =
     \<lparr>layerSections =
        (if validHarnessIdentity input
         then [\<lparr>sectionName = ''harness:identity'', sectionOrder = Finite (- 100),
                sectionText = StaticText ''You are an AI agent powered by DeepSeek Harness.'',
                sectionComplete = False\<rparr>]
         else []) @
        [\<lparr>sectionName = PersonaSection, sectionOrder = Finite 0,
          sectionText = StaticText (validPersona input), sectionComplete = False\<rparr>],
      layerContexts = [], layerVariables = [], layerSuppressed = (\<not> validRuntimeContext input)\<rparr>"

section \<open>The store\<close>

definition rebuildSnapshot :: "'f prompt_store \<Rightarrow> 'f prompt_store" where
  "rebuildSnapshot s =
     s\<lparr>snapshotValue :=
        \<lparr>layerSections = List.map_filter (map_of (storeSections s)) (storeSectionOrder s),
         layerContexts = List.map_filter (map_of (storeContexts s)) (storeContextOrder s),
         layerVariables =
           List.map_filter (\<lambda>n. map_option (Pair n) (map_of (storeVariables s) n)) (storeVariableOrder s),
         layerSuppressed = (storeSuppressors s \<noteq> [])\<rparr>\<rparr>"

definition empty_store :: "'f prompt_store" where
  "empty_store =
     \<lparr>snapshotValue = \<lparr>layerSections = [], layerContexts = [], layerVariables = [], layerSuppressed = False\<rparr>,
      storeSections = [], storeSectionOrder = [], storeContexts = [], storeContextOrder = [],
      storeVariables = [], storeVariableOrder = [], storeSuppressors = [], storeEntries = []\<rparr>"

definition newPromptStore :: "'f prompt_store" where
  "newPromptStore = rebuildSnapshot empty_store"

definition addEntry :: "string \<Rightarrow> entry_kind \<Rightarrow> string \<Rightarrow> 'f prompt_store \<Rightarrow> 'f prompt_store" where
  "addEntry identifier kind name s = s\<lparr>storeEntries := put (storeEntries s) identifier (kind, name)\<rparr>"

definition addSection :: "string \<Rightarrow> 'f prompt_section \<Rightarrow> 'f prompt_store \<Rightarrow> ('f prompt_store \<times> string) res" where
  "addSection identifier d s =
     (let name = sectionName d in
      if map_of (storeSections s) name \<noteq> None then
        Inl (Errorf ''systemprompt: prompt section %q is already registered in this layer'' [AStr name])
      else let s = addEntry identifier SectionEntry name s in
        Inr (rebuildSnapshot (s\<lparr>storeSections := put (storeSections s) name d,
                                storeSectionOrder := storeSectionOrder s @ [name]\<rparr>), identifier))"

definition addContext :: "string \<Rightarrow> 'f prompt_context \<Rightarrow> 'f prompt_store \<Rightarrow> ('f prompt_store \<times> string) res" where
  "addContext identifier d s =
     (let name = contextName d in
      if map_of (storeContexts s) name \<noteq> None then
        Inl (Errorf ''systemprompt: prompt context %q is already registered in this layer'' [AStr name])
      else let s = addEntry identifier ContextEntry name s in
        Inr (rebuildSnapshot (s\<lparr>storeContexts := put (storeContexts s) name d,
                                storeContextOrder := storeContextOrder s @ [name]\<rparr>), identifier))"

definition addVariable ::
  "string \<Rightarrow> string \<Rightarrow> 'f variable_provider \<Rightarrow> 'f prompt_store \<Rightarrow> ('f prompt_store \<times> string) res" where
  "addVariable identifier name p s =
     (if map_of (storeVariables s) name \<noteq> None then
        Inl (Errorf ''systemprompt: prompt variable %q is already registered in this layer'' [AStr name])
      else let s = addEntry identifier VariableEntry name s in
        Inr (rebuildSnapshot (s\<lparr>storeVariables := put (storeVariables s) name p,
                                storeVariableOrder := storeVariableOrder s @ [name]\<rparr>), identifier))"

definition addSuppressor :: "string \<Rightarrow> string \<Rightarrow> 'f prompt_store \<Rightarrow> ('f prompt_store \<times> string) res" where
  "addSuppressor identifier name s =
     (if map_of (storeSuppressors s) name \<noteq> None then
        Inl (Errorf ''systemprompt: runtime-context suppressor %q is already registered in this layer'' [AStr name])
      else let s = addEntry identifier SuppressorEntry name s in
        Inr (rebuildSnapshot (s\<lparr>storeSuppressors := put (storeSuppressors s) name ()\<rparr>), identifier))"

definition removeName :: "string list \<Rightarrow> string \<Rightarrow> string list" where
  "removeName names selectedName = filter (\<lambda>candidate. candidate \<noteq> selectedName) names"

definition remove_entry :: "entry_kind \<Rightarrow> string \<Rightarrow> 'f prompt_store \<Rightarrow> 'f prompt_store" where
  "remove_entry kind name s =
     (case kind of
        SectionEntry \<Rightarrow> s\<lparr>storeSections := unset (storeSections s) name,
                         storeSectionOrder := removeName (storeSectionOrder s) name\<rparr>
      | ContextEntry \<Rightarrow> s\<lparr>storeContexts := unset (storeContexts s) name,
                         storeContextOrder := removeName (storeContextOrder s) name\<rparr>
      | VariableEntry \<Rightarrow> s\<lparr>storeVariables := unset (storeVariables s) name,
                          storeVariableOrder := removeName (storeVariableOrder s) name\<rparr>
      | SuppressorEntry \<Rightarrow> s\<lparr>storeSuppressors := unset (storeSuppressors s) name\<rparr>)"

definition remove_registration :: "string \<Rightarrow> 'f prompt_store \<Rightarrow> 'f prompt_store \<times> bool" where
  "remove_registration identifier s =
     (case map_of (storeEntries s) identifier of
        None \<Rightarrow> (s, False)
      | Some (kind, name) \<Rightarrow>
          let s = remove_entry kind name s in
          (rebuildSnapshot (s\<lparr>storeEntries := unset (storeEntries s) identifier\<rparr>), True))"

definition clear_store :: "'f prompt_store \<Rightarrow> 'f prompt_store" where
  "clear_store s = rebuildSnapshot (empty_store\<lparr>snapshotValue := snapshotValue s\<rparr>)"

definition validateEntryName :: "string \<Rightarrow> string \<Rightarrow> unit res" where
  "validateEntryName kind name =
     failIf (name = []) (err (''systemprompt: '' @ kind @ '' name must be non-empty''))"

section \<open>Snapshots and layers\<close>

record 'f prompt_snapshot =
  capturedBaseline :: "'f layer_snapshot option"
  capturedLayers :: "'f layer_snapshot list"
  capturedToolOrder :: "string list option"

record 'f prompt_layer =
  layerSettings :: validated_config
  layerBaseline :: "'f layer_snapshot option"
  layerStore :: "'f prompt_store"
  layerBase :: "'f prompt_snapshot"

definition no_settings :: validated_config where
  "no_settings = \<lparr>validHarnessIdentity = False, validRuntimeContext = False, validPersona = [], validToolOrder = None\<rparr>"

definition no_snapshot :: "'f prompt_snapshot" where
  "no_snapshot = \<lparr>capturedBaseline = None, capturedLayers = [], capturedToolOrder = None\<rparr>"

definition NewLayer :: "validated_config \<Rightarrow> 'f prompt_layer" where
  "NewLayer settings =
     \<lparr>layerSettings = settings, layerBaseline = Some (definitions settings), layerStore = newPromptStore,
      layerBase = no_snapshot\<rparr>"

definition DeriveLayer :: "'f prompt_snapshot \<Rightarrow> 'f prompt_layer" where
  "DeriveLayer base =
     \<lparr>layerSettings = no_settings, layerBaseline = None, layerStore = newPromptStore, layerBase = base\<rparr>"

fun validatePromptMutationContext :: "go_context \<Rightarrow> nat \<Rightarrow> unit res" where
  "validatePromptMutationContext NilContext i = Inl (err ''systemprompt: mutation Context is nil'')"
| "validatePromptMutationContext (Context cause) i =
     (case cause i of None \<Rightarrow> Inr () | Some e \<Rightarrow> Inl e)"

definition layer_store_result ::
  "'f prompt_layer \<Rightarrow> ('f prompt_store \<times> string) res \<Rightarrow> ('f prompt_layer \<times> string) res" where
  "layer_store_result owner r = bindE r (\<lambda>(s, identifier). Inr (owner\<lparr>layerStore := s\<rparr>, identifier))"

definition AddSection ::
  "go_context \<Rightarrow> string \<Rightarrow> 'f prompt_section \<Rightarrow> 'f prompt_layer \<Rightarrow> ('f prompt_layer \<times> string) res" where
  "AddSection ctx identifier d owner =
     bindE (validatePromptMutationContext ctx 0) (\<lambda>_.
     bindE (validateEntryName ''prompt section'' (sectionName d)) (\<lambda>_.
     bindE (failIf (sectionText d = NoText)
       (Errorf ''systemprompt: prompt section %q text provider is nil'' [AStr (sectionName d)])) (\<lambda>_.
     bindE (failIf (\<not> finite_float (sectionOrder d))
       (Errorf ''systemprompt: prompt section %q order must be a finite number'' [AStr (sectionName d)])) (\<lambda>_.
     bindE (failIf (\<exists>b \<in> set_option (layerBaseline owner). sectionName d \<in> set (map sectionName (layerSections b)))
       (Errorf ''systemprompt: prompt section %q is already defined by configuration'' [AStr (sectionName d)])) (\<lambda>_.
     layer_store_result owner (addSection identifier d (layerStore owner)))))))"

definition AddContext ::
  "go_context \<Rightarrow> string \<Rightarrow> 'f prompt_context \<Rightarrow> 'f prompt_layer \<Rightarrow> ('f prompt_layer \<times> string) res" where
  "AddContext ctx identifier d owner =
     bindE (validatePromptMutationContext ctx 0) (\<lambda>_.
     bindE (validateEntryName ''prompt context'' (contextName d)) (\<lambda>_.
     bindE (failIf (contextProvider d = NoText)
       (Errorf ''systemprompt: prompt context %q text provider is nil'' [AStr (contextName d)])) (\<lambda>_.
     bindE (failIf (\<not> finite_float (contextOrder d))
       (Errorf ''systemprompt: prompt context %q order must be a finite number'' [AStr (contextName d)])) (\<lambda>_.
     layer_store_result owner (addContext identifier d (layerStore owner))))))"

definition AddRuntimeContextSuppressor ::
  "go_context \<Rightarrow> string \<Rightarrow> string \<Rightarrow> 'f prompt_layer \<Rightarrow> ('f prompt_layer \<times> string) res" where
  "AddRuntimeContextSuppressor ctx identifier name owner =
     bindE (validatePromptMutationContext ctx 0) (\<lambda>_.
     bindE (validateEntryName ''runtime-context suppressor'' name) (\<lambda>_.
     layer_store_result owner (addSuppressor identifier name (layerStore owner))))"

definition AddVariable ::
  "go_context \<Rightarrow> string \<Rightarrow> string \<Rightarrow> 'f variable_provider \<Rightarrow> 'f prompt_layer \<Rightarrow> ('f prompt_layer \<times> string) res" where
  "AddVariable ctx identifier name p owner =
     bindE (validatePromptMutationContext ctx 0) (\<lambda>_.
     bindE (failIf (\<not> variableNamePattern name)
       (Errorf ''systemprompt: invalid prompt variable name %q (must match %s)'' [AStr name, AStr pattern_text])) (\<lambda>_.
     bindE (failIf (p = NoVariable)
       (Errorf ''systemprompt: prompt variable %q provider is nil'' [AStr name])) (\<lambda>_.
     layer_store_result owner (addVariable identifier name p (layerStore owner)))))"

definition RemoveRegistration ::
  "go_context \<Rightarrow> string \<Rightarrow> 'f prompt_layer \<Rightarrow> ('f prompt_layer \<times> bool) res" where
  "RemoveRegistration ctx identifier owner =
     bindE (validatePromptMutationContext ctx 0) (\<lambda>_.
     let (s, found) = remove_registration identifier (layerStore owner) in
     Inr (owner\<lparr>layerStore := s\<rparr>, found))"

definition CaptureLayer :: "'f prompt_layer \<Rightarrow> 'f prompt_snapshot" where
  "CaptureLayer owner =
     \<lparr>capturedBaseline =
        (case layerBaseline owner of None \<Rightarrow> capturedBaseline (layerBase owner) | Some b \<Rightarrow> Some b),
      capturedLayers = capturedLayers (layerBase owner) @ [snapshotValue (layerStore owner)],
      capturedToolOrder =
        (if capturedLayers (layerBase owner) \<noteq> [] then capturedToolOrder (layerBase owner)
         else validToolOrder (layerSettings owner))\<rparr>"

definition ApplyBaseline ::
  "go_context \<Rightarrow> prompt_config \<Rightarrow> 'f prompt_layer \<Rightarrow> 'f prompt_layer res" where
  "ApplyBaseline ctx input owner =
     bindE (validatePromptMutationContext ctx 0) (\<lambda>_.
     bindE (failIf (capturedLayers (layerBase owner) \<noteq> [])
       (err ''systemprompt: baseline configuration belongs to the root layer'')) (\<lambda>_.
     bindE (ValidateConfig input) (\<lambda>validated.
     let baseline = definitions validated in
     bindE (mapE (\<lambda>d. failIf (map_of (storeSections (layerStore owner)) (sectionName d) \<noteq> None)
              (Errorf ''systemprompt: prompt section %q is already registered'' [AStr (sectionName d)]))
              (layerSections baseline)) (\<lambda>_.
     bindE (validatePromptMutationContext ctx 1) (\<lambda>_.
     Inr (owner\<lparr>layerSettings := validated, layerBaseline := Some baseline\<rparr>))))))"

definition SetBase :: "'f prompt_snapshot \<Rightarrow> 'f prompt_layer \<Rightarrow> 'f prompt_layer" where
  "SetBase inherited owner = owner\<lparr>layerBase := inherited\<rparr>"

definition close_layer :: "'f prompt_layer \<Rightarrow> 'f prompt_layer" where
  "close_layer owner =
     owner\<lparr>layerStore := clear_store (layerStore owner), layerBase := no_snapshot, layerBaseline := None\<rparr>"

definition WithConfiguration :: "prompt_config \<Rightarrow> 'f prompt_snapshot \<Rightarrow> 'f prompt_snapshot res" where
  "WithConfiguration input captured =
     bindE (ValidateConfig input) (\<lambda>validated.
     let baseline = definitions validated in
     bindE (case capturedLayers captured of
              [] \<Rightarrow> Inr []
            | bottom # rest \<Rightarrow>
                mapE (\<lambda>d. failIf (sectionName d \<in> set (map sectionName (layerSections bottom)))
                  (Errorf ''systemprompt: prompt section %q is already registered'' [AStr (sectionName d)]))
                  (layerSections baseline)) (\<lambda>_.
     Inr \<lparr>capturedBaseline = Some baseline, capturedLayers = capturedLayers captured,
          capturedToolOrder = validToolOrder validated\<rparr>))"

end
