(* ===== verification/PromptAssembly.thy ===== *)
theory PromptAssembly
  imports PromptLayers
begin

text \<open>
  The assembly of a prompt: merging and resolving the captured definitions
  (\<open>src/systemprompt/assembly.go\<close>), ordering the tool schemas (\<open>tool_order.go\<close>), and the runtime of
  one agent that assembles with the tools it has consumed (\<open>runtime.go\<close>, \<open>snapshot.go\<close>).

  Providers are code outside this package: the resolution takes their answers in this
  assembly as functions \<open>askText\<close> and \<open>askVariable\<close> of the provider and the input.
\<close>

section \<open>Tool schemas\<close>

record tool_definitions =
  toolSchemas :: "tool_schema list"
  knownNames :: "string list option"

definition detachToolSchema :: "tool_schema \<Rightarrow> tool_schema res" where
  "detachToolSchema schema =
     (let not_object = Inl (Errorf ''systemprompt: tool %q parameters must be a JSON object''
            [AStr (schemaName schema)]);
          not_valid = Inl (Errorf ''systemprompt: tool %q parameters must be a valid JSON object''
            [AStr (schemaName schema)])
      in case schemaParameters schema of
           Doc (JObj fs) \<Rightarrow> Inr schema
         | Malformed text \<Rightarrow>
             let trimmed = TrimSpace text in
             if length trimmed < 2 \<or> hd trimmed \<noteq> CHR ''{'' \<or> last trimmed \<noteq> CHR ''}'' then not_object
             else not_valid
         | _ \<Rightarrow> not_object)"

definition by_schema_name :: "tool_schema \<Rightarrow> tool_schema \<Rightarrow> bool" where
  "by_schema_name s t = (schemaName s < schemaName t)"

definition orderToolSchemas ::
  "tool_schema list \<Rightarrow> string list option \<Rightarrow> string list \<Rightarrow> tool_schema list res" where
  "orderToolSchemas schemas requested known =
     bindE (failIf (ToolOrderRest \<in> set (map schemaName schemas))
       (Errorf ''systemprompt: tool provider returned reserved tool name %q (reserved for toolOrder's rest entry)''
          [AStr ToolOrderRest])) (\<lambda>_.
     case requested of
       None \<Rightarrow> Inr (SliceStable by_schema_name schemas)
     | Some names \<Rightarrow>
         let unknown = filter (\<lambda>n. n \<noteq> ToolOrderRest \<and> n \<notin> set known) names in
         if unknown \<noteq> [] then
           Inl (Errorf ''systemprompt: toolOrder lists unregistered %s %s; known tools: %s''
             ([AStr (if 1 < length unknown then ''tools'' else ''tool'')] @ map AStr unknown @
              [AStr (known_label (remdups known))]))
         else
           let rest = SliceStable by_schema_name (filter (\<lambda>s. schemaName s \<notin> set names) schemas) in
           Inr (concat (map (\<lambda>n. if n = ToolOrderRest then rest
                                else filter (\<lambda>s. schemaName s = n) schemas) names)))"

section \<open>Merging definitions\<close>

fun merge_loop ::
  "('d \<Rightarrow> string) \<Rightarrow> 'd list \<Rightarrow> string list \<Rightarrow> (string, 'd) go_map \<Rightarrow> string list \<times> (string, 'd) go_map" where
  "merge_loop name [] names byName = (names, byName)"
| "merge_loop name (d # ds) names byName =
     merge_loop name ds (if map_of byName (name d) = None then names @ [name d] else names)
       (put byName (name d) d)"

definition merge_definitions :: "('d \<Rightarrow> string) \<Rightarrow> ('d \<Rightarrow> go_float) \<Rightarrow> 'd list \<Rightarrow> 'd list" where
  "merge_definitions name order ds =
     (let (names, byName) = merge_loop name ds [] [] in
      SliceStable (\<lambda>l r. float_less (order l) (order r)) (List.map_filter (map_of byName) names))"

definition mergeSections :: "'f layer_snapshot list \<Rightarrow> 'f prompt_section list" where
  "mergeSections layers = merge_definitions sectionName sectionOrder (concat (map layerSections layers))"

definition mergeContexts :: "'f layer_snapshot list \<Rightarrow> 'f prompt_context list" where
  "mergeContexts layers = merge_definitions contextName contextOrder (concat (map layerContexts layers))"

definition contextSuppressed :: "'f layer_snapshot list \<Rightarrow> bool" where
  "contextSuppressed layers = list_ex layerSuppressed layers"

section \<open>Resolving\<close>

definition resolveText ::
  "('f \<Rightarrow> tool_definitions \<Rightarrow> string res) \<Rightarrow> tool_definitions \<Rightarrow> 'f text_provider \<Rightarrow> string res" where
  "resolveText askText input provider =
     (case provider of
        NoText \<Rightarrow> Inl (Panicked ''nil pointer dereference'')
      | StaticText t \<Rightarrow> Inr t
      | TextFn f \<Rightarrow> askText f input)"

definition ResolveVariable ::
  "('f \<Rightarrow> tool_definitions \<Rightarrow> variable_value res) \<Rightarrow> tool_definitions \<Rightarrow> 'f variable_provider \<Rightarrow>
   variable_value res" where
  "ResolveVariable askVariable input provider =
     (case provider of
        NoVariable \<Rightarrow> Inl (Panicked ''nil pointer dereference'')
      | FixedVariable v \<Rightarrow> Inr v
      | VariableFn f \<Rightarrow> askVariable f input)"

fun variables_loop ::
  "('p \<Rightarrow> variable_value res) \<Rightarrow> (string \<times> 'p) list \<Rightarrow> (string, variable_value) go_map \<Rightarrow>
   (string, variable_value) go_map res" where
  "variables_loop ask [] variables = Inr variables"
| "variables_loop ask ((name, p) # ps) variables =
     bindE (wrapE (\<lambda>e. Errorf ''systemprompt: resolve prompt variable %q: %w'' [AStr name, AErr e]) (ask p))
       (\<lambda>v. variables_loop ask ps (put variables name v))"

definition resolveVariables ::
  "('f \<Rightarrow> tool_definitions \<Rightarrow> variable_value res) \<Rightarrow> tool_definitions \<Rightarrow> 'f layer_snapshot list \<Rightarrow>
   (string, variable_value) go_map res" where
  "resolveVariables askVariable input layers =
     variables_loop (ResolveVariable askVariable input) (concat (map layerVariables layers)) []"

definition resolve_section ::
  "('f \<Rightarrow> tool_definitions \<Rightarrow> string res) \<Rightarrow> tool_definitions \<Rightarrow> 'f prompt_section \<Rightarrow> (string \<times> string) res" where
  "resolve_section askText input d =
     bindE (wrapE (\<lambda>e. Errorf ''systemprompt: resolve prompt section %q: %w'' [AStr (sectionName d), AErr e])
              (resolveText askText input (sectionText d))) (\<lambda>t. Inr (sectionName d, t))"

text \<open>The resolved sections and the complete one, if any.\<close>

definition resolveSections ::
  "('f \<Rightarrow> tool_definitions \<Rightarrow> string res) \<Rightarrow> tool_definitions \<Rightarrow> 'f layer_snapshot list \<Rightarrow>
   ((string \<times> string) list \<times> (string \<times> string) option) res" where
  "resolveSections askText input layers =
     (let sections = mergeSections layers; complete = filter sectionComplete sections in
      bindE (failIf (1 < length complete)
        (Errorf ''systemprompt: multiple complete prompt sections are active: %s''
           (map (\<lambda>d. AStr (sectionName d)) complete))) (\<lambda>_.
      bindE (mapE (resolve_section askText input) sections) (\<lambda>resolved.
      Inr (resolved,
           map_option snd (find (\<lambda>(d, r). sectionComplete d) (rev (zip sections resolved)))))))"

definition resolveContexts ::
  "('f \<Rightarrow> tool_definitions \<Rightarrow> string res) \<Rightarrow> tool_definitions \<Rightarrow> 'f layer_snapshot list \<Rightarrow>
   (string \<times> string) list res" where
  "resolveContexts askText input layers =
     (if contextSuppressed layers then Inr []
      else mapE (\<lambda>d. bindE (wrapE (\<lambda>e. Errorf ''systemprompt: resolve prompt context %q: %w''
                                     [AStr (contextName d), AErr e])
                       (resolveText askText input (contextProvider d))) (\<lambda>t. Inr (contextName d, t)))
             (mergeContexts layers))"

definition resolveTools :: "tool_definitions \<Rightarrow> string list option \<Rightarrow> tool_schema list res" where
  "resolveTools input order =
     bindE (mapE detachToolSchema (toolSchemas input)) (\<lambda>collected.
     orderToolSchemas collected order
       (case knownNames input of None \<Rightarrow> map schemaName (toolSchemas input) | Some names \<Rightarrow> names))"

fun check_names :: "string \<Rightarrow> string list \<Rightarrow> string list \<Rightarrow> unit res" where
  "check_names kind seen [] = Inr ()"
| "check_names kind seen (name # names) =
     (if name = [] then Inl (err (''systemprompt: assembled '' @ kind @ '' names must be non-empty''))
      else if name \<in> set seen then
        Inl (Errorf (''systemprompt: assembled '' @ kind @ '' name %q is duplicated'') [AStr name])
      else check_names kind (seen @ [name]) names)"

text \<open>
  The last loop ranges over a map, so which invalid name it reports is not determined; the
  model reports the first in the order of insertion.
\<close>

definition validateAssembly :: "prompt_assembly \<Rightarrow> unit res" where
  "validateAssembly assembled =
     bindE (check_names ''section'' [] (map fst (assembledSections assembled))) (\<lambda>_.
     bindE (check_names ''context'' [] (map fst (assembledContexts assembled))) (\<lambda>_.
     bindE (mapE (\<lambda>s. failIf (schemaName s = []) (err ''systemprompt: assembled tool names must be non-empty''))
              (assembledTools assembled)) (\<lambda>_.
     bindE (mapE (\<lambda>(name, v). failIf (\<not> variableNamePattern name)
              (Errorf ''systemprompt: assembled variable name %q is invalid'' [AStr name]))
              (assembledVariables assembled)) (\<lambda>_. Inr ()))))"

definition resolve_assembly ::
  "('f \<Rightarrow> tool_definitions \<Rightarrow> string res) \<Rightarrow> ('f \<Rightarrow> tool_definitions \<Rightarrow> variable_value res) \<Rightarrow>
   tool_definitions \<Rightarrow> 'f layer_snapshot list \<Rightarrow> string list option \<Rightarrow> prompt_assembly res" where
  "resolve_assembly askText askVariable input layers order =
     bindE (resolveVariables askVariable input layers) (\<lambda>variables.
     bindE (resolveSections askText input layers) (\<lambda>(entries, complete).
     bindE (resolveContexts askText input layers) (\<lambda>contexts.
     bindE (resolveTools input order) (\<lambda>tools.
     let assembled = \<lparr>assembledSections = entries, assembledContexts = contexts, assembledTools = tools,
                      assembledVariables = variables\<rparr> in
     bindE (validateAssembly assembled) (\<lambda>_.
     Inr (case complete of
            None \<Rightarrow> assembled
          | Some entry \<Rightarrow> assembled\<lparr>assembledSections := [entry]\<rparr>))))))"

definition snapshot_layers :: "'f prompt_snapshot \<Rightarrow> 'f layer_snapshot list" where
  "snapshot_layers captured =
     (case capturedBaseline captured of None \<Rightarrow> [] | Some b \<Rightarrow> [b]) @ capturedLayers captured"

definition Assemble ::
  "('f \<Rightarrow> tool_definitions \<Rightarrow> string res) \<Rightarrow> ('f \<Rightarrow> tool_definitions \<Rightarrow> variable_value res) \<Rightarrow>
   go_context \<Rightarrow> tool_definitions \<Rightarrow> 'f prompt_snapshot \<Rightarrow> prompt_assembly res" where
  "Assemble askText askVariable ctx input captured =
     bindE (validatePromptMutationContext ctx 0) (\<lambda>_.
     resolve_assembly askText askVariable input (snapshot_layers captured) (capturedToolOrder captured))"

text \<open>The detached copy an execution owner keeps.\<close>

definition clone_assembly :: "prompt_assembly \<Rightarrow> prompt_assembly res" where
  "clone_assembly assembled =
     bindE (mapE detachToolSchema (assembledTools assembled)) (\<lambda>tools.
     Inr (assembled\<lparr>assembledTools := tools\<rparr>))"

section \<open>The prompt runtime of one agent\<close>

record 'f prompt_runtime =
  runtimeAgent :: string
  runtimeDefinitions :: "'f prompt_snapshot"
  runtimeTools :: "tool_definitions option"

definition ErrAgent :: goerr where
  "ErrAgent = err ''systemprompt: Agent identity mismatch''"

definition ErrToolsNotReady :: goerr where
  "ErrToolsNotReady = err ''systemprompt: tool definitions are not ready''"

definition NewRuntime :: "string \<Rightarrow> 'f prompt_snapshot \<Rightarrow> 'f prompt_runtime res" where
  "NewRuntime identifier captured =
     bindE (failIf (identifier = []) (err ''systemprompt: Agent identity is required'')) (\<lambda>_.
     Inr \<lparr>runtimeAgent = identifier, runtimeDefinitions = captured, runtimeTools = None\<rparr>)"

definition SetDefinitions :: "'f prompt_snapshot \<Rightarrow> 'f prompt_runtime \<Rightarrow> 'f prompt_runtime" where
  "SetDefinitions captured owner = owner\<lparr>runtimeDefinitions := captured\<rparr>"

fun detach_schemas :: "string list \<Rightarrow> tool_schema list \<Rightarrow> tool_schema list res" where
  "detach_schemas seen [] = Inr []"
| "detach_schemas seen (schema # schemas) =
     (let name = schemaName schema in
      bindE (failIf (name = [] \<or> name = ToolOrderRest) (Errorf ''systemprompt: invalid tool name %q'' [AStr name])) (\<lambda>_.
      bindE (failIf (name \<in> set seen) (Errorf ''systemprompt: duplicate tool name %q'' [AStr name])) (\<lambda>_.
      bindE (detachToolSchema schema) (\<lambda>copied.
      bindE (detach_schemas (seen @ [name]) schemas) (\<lambda>rest. Inr (copied # rest))))))"

definition ApplyTools :: "string \<Rightarrow> tool_definitions \<Rightarrow> 'f prompt_runtime \<Rightarrow> 'f prompt_runtime res" where
  "ApplyTools identifier input owner =
     bindE (failIf (identifier \<noteq> runtimeAgent owner) ErrAgent) (\<lambda>_.
     bindE (detach_schemas [] (toolSchemas input)) (\<lambda>schemas.
     Inr (owner\<lparr>runtimeTools := Some \<lparr>toolSchemas = schemas, knownNames = knownNames input\<rparr>\<rparr>)))"

text \<open>The context as it is seen after its first inspection.\<close>

fun later :: "go_context \<Rightarrow> go_context" where
  "later NilContext = NilContext"
| "later (Context cause) = Context (\<lambda>i. cause (Suc i))"

definition runtime_assemble ::
  "('f \<Rightarrow> tool_definitions \<Rightarrow> string res) \<Rightarrow> ('f \<Rightarrow> tool_definitions \<Rightarrow> variable_value res) \<Rightarrow>
   go_context \<Rightarrow> 'f prompt_runtime \<Rightarrow> prompt_assembly res" where
  "runtime_assemble askText askVariable ctx owner =
     bindE (validatePromptMutationContext ctx 0) (\<lambda>_.
     case runtimeTools owner of
       None \<Rightarrow> Inl ErrToolsNotReady
     | Some tools \<Rightarrow> Assemble askText askVariable (later ctx) tools (runtimeDefinitions owner))"

end
