(* ===== verification/ModelRequest.thy ===== *)
theory ModelRequest
  imports ModelAttempt PromptAssembly
begin

text \<open>
  One model request of a step (\<open>src/agentloop/internal/modelrequest/\<close> \<open>model_request.go\<close>,
  \<open>model_request_flow.go\<close>, \<open>model_request_operations.go\<close>, \<open>model_request_outcome.go\<close>): a
  sequence of attempts.  A failed provider finish is put to recovery, which may allow another
  attempt; every other failure ends the request, and a stream whose close failed can be closed
  again after the end.
\<close>

section \<open>Types\<close>

record request_input =
  requestSession :: string
  requestPosition :: step_position
  requestPrompt :: prompt_assembly
  requestFirst :: bool

record request_failure =
  failedAgent :: string
  failedTurn :: int
  failedStep :: int
  failedProvider :: string
  failedFacts :: llm_failure
  failedPolicy :: "retry_policy option"

datatype request_operation =
    RunAttempt attempt_operation
  | ResolveRecovery request_failure
  | RequestFinished model_outcome

datatype request_result =
    NoRequestResult
  | AttemptAdvanced attempt_result
  | RecoveryResolved bool
  | RequestFailed "model_error option"

datatype request_phase = RequestUnstarted | RunningAttempt | ResolvingRecovery | RetryingClose | RequestComplete

record model_request =
  requestPhase :: request_phase
  requestAttempts :: nat
  requestInput :: request_input
  requestProvider :: string
  requestPolicy :: "retry_policy option"
  activeAttempt :: "attempt option"
  requestCancellation :: "model_error option"
  requestFailure :: "model_error option"
  requestOutcome :: model_outcome
  requestHeader :: bool

definition no_outcome :: model_outcome where
  "no_outcome = \<lparr>outcomeMessage = no_message, outcomeFinish = None, outcomeError = None,
     outcomeClosed = False, outcomeHeader = False\<rparr>"

definition NewRequest :: model_request where
  "NewRequest =
     \<lparr>requestPhase = RequestUnstarted, requestAttempts = 0,
      requestInput = \<lparr>requestSession = [], requestPosition = no_position,
        requestPrompt = \<lparr>assembledSections = [], assembledContexts = [], assembledTools = [],
          assembledVariables = []\<rparr>, requestFirst = False\<rparr>,
      requestProvider = [], requestPolicy = None, activeAttempt = None, requestCancellation = None,
      requestFailure = None, requestOutcome = no_outcome, requestHeader = False\<rparr>"

section \<open>The end of a request\<close>

definition finish_request :: "model_error option \<Rightarrow> model_request \<Rightarrow> model_request \<times> request_operation" where
  "finish_request failure q =
     (let joined = join_errors [requestCancellation q, failure];
          final = (requestOutcome q)\<lparr>outcomeError := joined, outcomeHeader := requestHeader q\<rparr> in
      (q\<lparr>requestFailure := joined, requestPhase := RequestComplete, requestOutcome := final\<rparr>,
       RequestFinished final))"

definition start_attempt :: "model_request \<Rightarrow> (model_request \<times> request_operation) res" where
  "start_attempt q =
     (case NewAttempt \<lparr>attemptedPosition = requestPosition (requestInput q),
             attemptedSession = requestSession (requestInput q), attemptedPrompt = requestPrompt (requestInput q),
             attemptedFirst = requestFirst (requestInput q) \<and> \<not> requestHeader q\<rparr> of
        Inl e \<Rightarrow> Inr (finish_request (Some (Failure e)) q)
      | Inr a \<Rightarrow>
          bindE (StartAttempt a) (\<lambda>(b, next_op).
          Inr (q\<lparr>activeAttempt := Some b, requestPolicy := None, requestOutcome := no_outcome,
                 requestAttempts := Suc (requestAttempts q), requestPhase := RunningAttempt\<rparr>, RunAttempt next_op)))"

definition StartRequest :: "request_input \<Rightarrow> model_request \<Rightarrow> (model_request \<times> request_operation) res" where
  "StartRequest i q =
     bindE (failIf (requestPhase q \<noteq> RequestUnstarted)
       (err ''agentloop: model request already started or is nil'')) (\<lambda>_.
     bindE (failIf (requestSession i = [] \<or> bad_position (requestPosition i))
       (err ''agentloop: invalid model request identity or position'')) (\<lambda>_.
     bindE (clone_assembly (requestPrompt i)) (\<lambda>captured.
     start_attempt (q\<lparr>requestInput := i\<lparr>requestPrompt := captured\<rparr>,
                      requestOutcome := no_outcome\<lparr>outcomeClosed := True\<rparr>\<rparr>))))"

section \<open>Completions\<close>

definition check_completion :: "request_result \<Rightarrow> model_request \<Rightarrow> unit res" where
  "check_completion r q =
     bindE (failIf (requestPhase q = RequestUnstarted \<or> requestPhase q = RequestComplete)
       (err ''agentloop: model request has no pending operation'')) (\<lambda>_.
     let mismatch = err ''agentloop: completion does not match the model request operation'' in
     if requestPhase q = RunningAttempt \<or> requestPhase q = RetryingClose then
       (case activeAttempt q of
          None \<Rightarrow> Inl (err ''agentloop: streaming request has no active attempt'')
        | Some a \<Rightarrow>
            (case r of
               AttemptAdvanced x \<Rightarrow> checkResult x a
             | RequestFailed problem \<Rightarrow> checkResult (AttemptFailed problem) a
             | _ \<Rightarrow> Inl mismatch))
     else
       (case r of
          RequestFailed problem \<Rightarrow>
            failIf (problem = None) (err ''agentloop: failed request operation requires an error'')
        | RecoveryResolved retry \<Rightarrow> Inr ()
        | _ \<Rightarrow> Inl mismatch))"

definition failed_finish :: "finish_reason option \<Rightarrow> bool" where
  "failed_finish reason =
     (case reason of None \<Rightarrow> False | Some r \<Rightarrow> ReasonKind r = ''error'' \<or> ReasonKind r = ''aborted'')"

definition NewLlmError :: "llm_failure \<Rightarrow> llm_failure res" where
  "NewLlmError reported =
     bindE (failIf (failMessage reported = []) (err ''llm: error message must be non-empty'')) (\<lambda>_.
     bindE (failIf (failCode reported = []) (err ''llm: error code must be non-empty'')) (\<lambda>_.
     bindE (failIf (\<not> pred_option (\<lambda>s. 100 \<le> s \<and> s \<le> 599) (failStatus reported))
       (err ''llm: error status must be from 100 through 599'')) (\<lambda>_.
     bindE (failIf (\<not> pred_option positive_finite (failRetryAfter reported))
       (err ''llm: providerRetryAfterMs must be positive and finite'')) (\<lambda>_.
     Inr reported))))"

text \<open>The failure a failed finish carries.\<close>

definition provider_failure :: "finish_reason \<Rightarrow> llm_failure res" where
  "provider_failure reason =
     bindE (CloneReason reason) (\<lambda>terminal.
     case terminal of
       ErrorFinish reported \<Rightarrow> NewLlmError reported
     | AbortedFinish reported \<Rightarrow> NewLlmError reported
     | _ \<Rightarrow> Inl (err ''agentloop: failed model finish is missing provider failure facts''))"

definition completed_attempt :: "model_outcome \<Rightarrow> model_request \<Rightarrow> model_request \<times> request_operation" where
  "completed_attempt result q0 =
     (let q = q0\<lparr>requestHeader := requestHeader q0 \<or> outcomeHeader result, requestOutcome := result\<rparr> in
      if requestPhase q = RetryingClose then
        finish_request (join_errors [requestFailure q, outcomeError result]) q
      else if outcomeError result \<noteq> None \<or> \<not> outcomeClosed result \<or> requestCancellation q \<noteq> None then
        finish_request
          (if outcomeError result = None \<and> \<not> outcomeClosed result
           then Some (problem_text ''agentloop: model attempt has not released its stream'')
           else outcomeError result) q
      else if \<not> failed_finish (outcomeFinish result) then finish_request None q
      else case provider_failure (the (outcomeFinish result)) of
        Inl e \<Rightarrow> finish_request (Some (Failure e)) q
      | Inr reported \<Rightarrow>
          (q\<lparr>requestFailure := Some (ProviderFailure reported), requestPhase := ResolvingRecovery\<rparr>,
           ResolveRecovery
             \<lparr>failedAgent = requestSession (requestInput q), failedTurn = posTurn (requestPosition (requestInput q)),
              failedStep = posStep (requestPosition (requestInput q)), failedProvider = requestProvider q,
              failedFacts = reported, failedPolicy = requestPolicy q\<rparr>))"

fun acceptAttempt :: "attempt_operation \<Rightarrow> model_request \<Rightarrow> model_request \<times> request_operation" where
  "acceptAttempt (AttemptCompleted result) q = completed_attempt result q"
| "acceptAttempt next_op q = (q, RunAttempt next_op)"

text \<open>The settings a started generation reports are captured before the attempt sees them.\<close>

fun capture_started :: "attempt_result \<Rightarrow> model_request \<Rightarrow> model_request" where
  "capture_started (GenerationStarted started) q =
     q\<lparr>requestProvider := configProvider (startedConfig started),
       requestPolicy := (if startedPolicy started = None then requestPolicy q else startedPolicy started)\<rparr>"
| "capture_started r q = q"

fun attempt_response :: "request_result \<Rightarrow> attempt_result" where
  "attempt_response (AttemptAdvanced r) = r"
| "attempt_response (RequestFailed problem) = AttemptFailed problem"
| "attempt_response r = NoResult"

definition advance_active ::
  "string res \<Rightarrow> attempt_result \<Rightarrow> model_request \<Rightarrow> (model_request \<times> request_operation) res" where
  "advance_active identifier response q0 =
     (let q = capture_started response q0 in
      case activeAttempt q of
        None \<Rightarrow> Inl (err ''agentloop: streaming request has no active attempt'')
      | Some a \<Rightarrow>
          bindE (AdvanceAttempt identifier response (requestCancellation q) a) (\<lambda>(b, next_op).
          Inr (acceptAttempt next_op (q\<lparr>activeAttempt := Some b\<rparr>))))"

definition AdvanceRequest ::
  "string res \<Rightarrow> request_result \<Rightarrow> model_error option \<Rightarrow> model_request \<Rightarrow>
   (model_request \<times> request_operation) res" where
  "AdvanceRequest identifier r cancellation q0 =
     bindE (check_completion r q0) (\<lambda>_.
     let q = q0\<lparr>requestCancellation := (if requestCancellation q0 = None then cancellation else requestCancellation q0)\<rparr> in
     if requestPhase q = RunningAttempt \<or> requestPhase q = RetryingClose then
       advance_active identifier (attempt_response r) q
     else if requestCancellation q \<noteq> None then Inr (finish_request (requestCancellation q) q)
     else case r of
       RequestFailed problem \<Rightarrow> Inr (finish_request (join_errors [requestFailure q, problem]) q)
     | RecoveryResolved retry \<Rightarrow>
         if \<not> retry then Inr (finish_request (requestFailure q) q)
         else start_attempt (q\<lparr>requestFailure := None\<rparr>)
     | _ \<Rightarrow> Inl (err ''agentloop: unsupported model request state''))"

definition RetryRequestClose :: "model_request \<Rightarrow> (model_request \<times> request_operation) res" where
  "RetryRequestClose q =
     bindE (failIf (requestPhase q \<noteq> RequestComplete)
       (err ''agentloop: model request must finish before cleanup retry'')) (\<lambda>_.
     if outcomeClosed (requestOutcome q) then Inr (q, RequestFinished (requestOutcome q))
     else case activeAttempt q of
       None \<Rightarrow> Inl (err ''agentloop: model request has no attempt to close'')
     | Some a \<Rightarrow>
         bindE (RetryAttemptClose a) (\<lambda>(b, next_op).
         Inr (acceptAttempt next_op (q\<lparr>activeAttempt := Some b, requestPhase := RetryingClose\<rparr>))))"

definition Outcome :: "model_request \<Rightarrow> model_outcome res" where
  "Outcome q =
     bindE (failIf (requestPhase q \<noteq> RequestComplete) (err ''agentloop: model request has not finished'')) (\<lambda>_.
     let result = requestOutcome q in
     bindE (if idValue (outcomeMessage result) = [] then Inr (outcomeMessage result)
            else CloneAssistantMessage (outcomeMessage result)) (\<lambda>m.
     bindE (case outcomeFinish result of None \<Rightarrow> Inr None
            | Some r \<Rightarrow> bindE (CloneReason r) (\<lambda>d. Inr (Some d))) (\<lambda>f.
     Inr (result\<lparr>outcomeMessage := m, outcomeFinish := f\<rparr>))))"

end
