(* ===== verification/ModelStreamLaws.thy ===== *)
theory ModelStreamLaws
  imports ModelStream
begin

text \<open>
  A chunk survives its codec, and the assembler is a function of the chunks of each index: the
  blocks are those of the indices in the order in which they first appear, and the first
  completed block of an index is authoritative.
\<close>

section \<open>The codec of chunks\<close>

fun valid_finish :: "finish_reason \<Rightarrow> bool" where
  "valid_finish (AbortedFinish f) = (valid_failure f \<and> validateFailure f = Inr ())"
| "valid_finish (ErrorFinish f) = (valid_failure f \<and> validateFailure f = Inr ())"
| "valid_finish (OpaqueFinish k r) =
     (k \<notin> {''stop'', ''tool-calls'', ''max-tokens'', ''aborted'', ''error''} \<and> unmarshal_kind r = Inr k \<and>
      NewOpaqueFinishReason k r = Inr (OpaqueFinish k r))"
| "valid_finish r = True"

definition usage_int64 :: "token_usage \<Rightarrow> bool" where
  "usage_int64 u =
     (int64 (inputTokens u) \<and> int64 (outputTokens u) \<and> pred_option int64 (cacheReadTokens u) \<and>
      pred_option int64 (cacheWriteTokens u) \<and> pred_option int64 (reasoningTokens u))"

definition valid_replay :: "raw \<Rightarrow> bool" where
  "valid_replay r = (case r of Absent \<Rightarrow> True | Malformed s \<Rightarrow> False | Doc j \<Rightarrow> lossless j)"

fun valid_chunk :: "stream_chunk \<Rightarrow> bool" where
  "valid_chunk NilChunk = False"
| "valid_chunk (BlockStartChunk i t) = (int64 i \<and> t \<noteq> [])"
| "valid_chunk (TextDeltaChunk i t) = int64 i"
| "valid_chunk (ReasoningDeltaChunk i t) = int64 i"
| "valid_chunk (ToolCallDeltaChunk i c n a) = int64 i"
| "valid_chunk (BlockEndChunk i b) = (int64 i \<and> canonical_block b)"
| "valid_chunk (UsageChunk u) = usage_int64 u"
| "valid_chunk (FinishChunk None r) = False"
| "valid_chunk (FinishChunk (Some x) r) = (valid_finish x \<and> valid_replay r)"

lemma fold_chunk_fields [simp]:
  "fold_key ''index'' = ''index''" "fold_key ''blockType'' = ''blocktype''" "fold_key ''block'' = ''block''"
  "fold_key ''usage'' = ''usage''" "fold_key ''argumentsDelta'' = ''argumentsdelta''" "fold_key ''failure'' = ''failure''"
  "fold_key ''inputTokens'' = ''inputtokens''" "fold_key ''outputTokens'' = ''outputtokens''"
  "fold_key ''cacheReadTokens'' = ''cachereadtokens''" "fold_key ''cacheWriteTokens'' = ''cachewritetokens''"
  "fold_key ''reasoningTokens'' = ''reasoningtokens''"
  by code_simp+

lemma pointer_int64:
  "pred_option int64 x \<Longrightarrow> scan_pointer as_int64 None (case x of None \<Rightarrow> [] | Some v \<Rightarrow> [jint v]) = Inr x"
  by (cases x) (simp_all add: int64_decode del: as_int64.simps)

lemma usage_round_trip:
  assumes "usage_int64 u"
  shows "lossless (json_usage u) \<and> decode_usage [json_usage u] = Inr u"
proof
  show "lossless (json_usage u)"
    using assms int64_scan by (auto simp: usage_int64_def json_usage_def omit_def split: option.splits)
  show "decode_usage [json_usage u] = Inr u"
    using assms pointer_int64 [of "cacheReadTokens u"] pointer_int64 [of "cacheWriteTokens u"]
      pointer_int64 [of "reasoningTokens u"] int64_scan [of "inputTokens u"] int64_scan [of "outputTokens u"]
    by (cases u) (simp add: json_usage_def decode_usage_def matches_omit known_fields_omit_iff usage_fields_def
        get_int64_def usage_int64_def del: as_int64.simps lossless.simps(4))
qed

lemma decode_finish_lossless:
  "lossless j \<Longrightarrow> IsObject (Doc j) \<longleftrightarrow> (\<exists>fs. j = JObj fs)"
  by (auto simp: IsObject_def isOk_iff scan_iff split: json.splits)

lemma finish_round_trip:
  assumes "valid_finish r"
  shows "CloneReason r = Inr r \<and> (\<exists>j. marshal_finish r = Inr j \<and> lossless j \<and> DecodeFinishReason (Doc j) = Inr r)"
proof (cases r)
  case (AbortedFinish f)
  with assms failure_round_trip [of f] show ?thesis
    by (simp add: DecodeFinishReason_def decode_failed_finish_def decodeStrict_obj unmarshal_kind_def get_string_def
        decode_finish_lossless)
next
  case (ErrorFinish f)
  with assms failure_round_trip [of f] show ?thesis
    by (simp add: DecodeFinishReason_def decode_failed_finish_def decodeStrict_obj unmarshal_kind_def get_string_def
        decode_finish_lossless)
next
  case (OpaqueFinish k q)
  with assms have o: "NewOpaqueFinishReason k q = Inr (OpaqueFinish k q)" by simp
  then obtain j where j: "q = Doc j" "lossless j" "k \<noteq> []" "IsObject q"
    by (auto simp: NewOpaqueFinishReason_def res_iff isOk_iff Clone_def Validate_iff split: if_splits)
  with assms o OpaqueFinish show ?thesis by (simp add: DecodeFinishReason_def)
qed (simp_all add: DecodeFinishReason_def decode_plain_finish_def decodeStrict_obj unmarshal_kind_def get_string_def
    decode_finish_lossless json_kind_def)

lemmas chunk_decode =
  DecodeStreamChunk_def json_type_def decode_delta_def decode_block_end_def decode_finish_def decodeStrict_obj
  decode_finish_lossless get_string_def get_int64_def get_raw_def

lemma replay_clone: "valid_replay q \<Longrightarrow> q = Absent \<or> Clone q = Inr q"
proof (cases q)
  case (Doc j)
  assume "valid_replay q"
  then have "scanValue j = Inr ()" using Doc scan_iff(1) by (simp add: valid_replay_def)
  then show ?thesis by (simp add: Doc Clone_def)
qed (simp_all add: valid_replay_def)

lemma chunk_round_trip:
  assumes "valid_chunk c"
  shows "\<exists>j. marshal_chunk c = Inr j \<and> lossless j \<and> DecodeStreamChunk (Doc j) = Inr c"
proof (cases c)
  case (BlockEndChunk i b)
  with assms obtain j where "marshal_block b = Inr j" "lossless j" "DecodeContentBlock j = Inr b"
    using marshal_canonical(1) [of b] by auto
  moreover have "CloneContent b = Inr b" "b \<noteq> NilBlock"
    using assms BlockEndChunk canonical_clone(1) [of b] clone_blocks_same(1) [of b] by (auto simp: isOk_iff)
  ultimately show ?thesis using assms BlockEndChunk int64_scan [of i]
    by (simp add: chunk_decode del: lossless.simps(4) as_int64.simps)
next
  case (UsageChunk u)
  with assms usage_round_trip [of u] show ?thesis by (simp add: chunk_decode)
next
  case (FinishChunk x q)
  with assms obtain r where r: "x = Some r" "valid_finish r" "valid_replay q" by (cases x) auto
  from finish_round_trip [OF r(2)] obtain j where j: "CloneReason r = Inr r" "marshal_finish r = Inr j" "lossless j"
    "DecodeFinishReason (Doc j) = Inr r" by blast
  show ?thesis using replay_clone [OF r(3)]
  proof
    assume "q = Absent"
    with j r FinishChunk show ?thesis by (simp add: chunk_decode raw_field_def)
  next
    assume "Clone q = Inr q"
    then obtain k where k: "q = Doc k" "lossless k"
      using r(3) by (cases q) (simp_all add: valid_replay_def Clone_def)
    with j r FinishChunk \<open>Clone q = Inr q\<close> show ?thesis by (simp add: chunk_decode raw_field_def)
  qed
qed (use assms int64_scan in \<open>auto simp: chunk_decode omit_def simp del: lossless.simps(4) as_int64.simps split: option.splits\<close>)

section \<open>The assembler by index\<close>

fun chunk_index :: "stream_chunk \<Rightarrow> int option" where
  "chunk_index (BlockStartChunk i t) = Some i"
| "chunk_index (TextDeltaChunk i t) = Some i"
| "chunk_index (ReasoningDeltaChunk i t) = Some i"
| "chunk_index (ToolCallDeltaChunk i c n a) = Some i"
| "chunk_index (BlockEndChunk i b) = Some i"
| "chunk_index c = None"

fun opened_kind :: "stream_chunk \<Rightarrow> string" where
  "opened_kind (BlockStartChunk i t) = t"
| "opened_kind (TextDeltaChunk i t) = ''text''"
| "opened_kind (ReasoningDeltaChunk i t) = ''reasoning''"
| "opened_kind (ToolCallDeltaChunk i c n a) = ''tool-call''"
| "opened_kind (BlockEndChunk i b) = ContentType b"
| "opened_kind c = []"

fun delta_text :: "stream_chunk \<Rightarrow> string" where
  "delta_text (TextDeltaChunk i t) = t"
| "delta_text (ReasoningDeltaChunk i t) = t"
| "delta_text c = []"

fun delta_call :: "stream_chunk \<Rightarrow> (string \<times> string option \<times> string) option" where
  "delta_call (ToolCallDeltaChunk i c n a) = Some (c, n, a)"
| "delta_call c = None"

fun ended_block :: "stream_chunk \<Rightarrow> content_block option" where
  "ended_block (BlockEndChunk i b) = Some b"
| "ended_block c = None"

definition last_or :: "'a \<Rightarrow> 'a list \<Rightarrow> 'a" where
  "last_or d xs = (if xs = [] then d else last xs)"

lemma last_or_simps [simp]: "last_or d [] = d" "last_or d (xs @ [x]) = x"
  by (simp_all add: last_or_def)

text \<open>
  The specification: the block of an index is its first completed block; without one it is
  built from all the deltas of the index, in the kind of its first chunk.
\<close>

definition response_block :: "int \<Rightarrow> stream_chunk list \<Rightarrow> content_block res" where
  "response_block i mine =
     (case List.map_filter ended_block mine of
        b # bs \<Rightarrow> Inr b
      | [] \<Rightarrow>
          let kind = opened_kind (hd mine); calls = List.map_filter delta_call mine; t = concat (map delta_text mine) in
          if kind = ''text'' then Inr (TextBlock t)
          else if kind = ''reasoning'' then Inr (ReasoningBlock t)
          else if kind = ''tool-call'' then
            Inr (ToolCallBlock (let c = last_or [] (map fst calls) in if c = [] then ''call-'' @ decimal i else c)
              (last_or [] (filter (\<lambda>n. n \<noteq> []) (List.map_filter (\<lambda>c. fst (snd c)) calls)))
              (concat (map (\<lambda>c. snd (snd c)) calls)))
          else Inl (Errorf ''llm: cannot assemble incomplete block of type %q'' [AStr kind]))"

definition chunks_at :: "stream_chunk list \<Rightarrow> int \<Rightarrow> stream_chunk list" where
  "chunks_at cs i = filter (\<lambda>c. chunk_index c = Some i) cs"

fun chunk_reason :: "stream_chunk \<Rightarrow> finish_reason option" where
  "chunk_reason (FinishChunk r q) = r"
| "chunk_reason c = None"

fun chunk_usage :: "stream_chunk \<Rightarrow> token_usage option" where
  "chunk_usage (UsageChunk u) = Some u"
| "chunk_usage c = None"

definition final_reason :: "stream_chunk list \<Rightarrow> finish_reason" where
  "final_reason cs = last_or StopFinish (List.map_filter chunk_reason cs)"

definition final_usage :: "stream_chunk list \<Rightarrow> token_usage option" where
  "final_usage cs = last_or None (map Some (List.map_filter chunk_usage cs))"

definition response_blocks :: "stream_chunk list \<Rightarrow> content_block list res" where
  "response_blocks cs =
     bindE (mapE (\<lambda>i. response_block i (chunks_at cs i)) (first_seen (List.map_filter chunk_index cs))) (\<lambda>bs.
     Inr (if ReasonKind (final_reason cs) = ''max-tokens'' then filter (\<lambda>b. ContentType b \<noteq> ''tool-call'') bs else bs))"

fun push_all :: "stream_chunk list \<Rightarrow> block_assembler \<Rightarrow> block_assembler res" where
  "push_all [] a = Inr a"
| "push_all (c # cs) a = (case Push c a of (a', Inl e) \<Rightarrow> Inl e | (a', Inr u) \<Rightarrow> push_all cs a')"

lemma push_all_snoc:
  "push_all (cs @ [c]) a = bindE (push_all cs a) (\<lambda>b. case Push c b of (a', Inl e) \<Rightarrow> Inl e | (a', Inr u) \<Rightarrow> Inr a')"
  by (induction cs arbitrary: a) (auto split: prod.splits sum.splits)

text \<open>How a chunk changes the partial block of its index.\<close>

definition step_block :: "stream_chunk \<Rightarrow> block_assembly \<Rightarrow> block_assembly" where
  "step_block c st =
     (if completedBlock st \<noteq> None then st
      else case c of
        TextDeltaChunk i t \<Rightarrow> st\<lparr>blockText := blockText st @ t\<rparr>
      | ReasoningDeltaChunk i t \<Rightarrow> st\<lparr>blockText := blockText st @ t\<rparr>
      | ToolCallDeltaChunk i cid n d \<Rightarrow>
          st\<lparr>callID := cid,
            callName := (case n of None \<Rightarrow> callName st | Some name \<Rightarrow> if name \<noteq> [] then name else callName st),
            callArguments := callArguments st @ d\<rparr>
      | BlockEndChunk i b \<Rightarrow> st\<lparr>completedBlock := Some b\<rparr>
      | _ \<Rightarrow> st)"

definition block_state :: "stream_chunk list \<Rightarrow> block_assembly" where
  "block_state mine = fold step_block mine (new_assembly (opened_kind (hd mine)))"

lemma map_filter_snoc: "List.map_filter f (xs @ [x]) = List.map_filter f xs @ (case f x of None \<Rightarrow> [] | Some y \<Rightarrow> [y])"
  by (induction xs) (auto simp: List.map_filter_simps split: option.split)

lemma block_state_snoc:
  "block_state (mine @ [c]) = step_block c (if mine = [] then new_assembly (opened_kind c) else block_state mine)"
  by (simp add: block_state_def)

lemma block_state_single: "block_state [c] = step_block c (new_assembly (opened_kind c))"
  by (simp add: block_state_def)

lemma block_state_fields:
  assumes "mine \<noteq> []" "list_all (\<lambda>c. chunk_index c \<noteq> None) mine"
  shows "blockKind (block_state mine) = opened_kind (hd mine) \<and>
    completedBlock (block_state mine) =
      (case List.map_filter ended_block mine of [] \<Rightarrow> None | b # bs \<Rightarrow> Some b) \<and>
    (List.map_filter ended_block mine = [] \<longrightarrow>
       blockText (block_state mine) = concat (map delta_text mine) \<and>
       callID (block_state mine) = last_or [] (map fst (List.map_filter delta_call mine)) \<and>
       callName (block_state mine) =
         last_or [] (filter (\<lambda>n. n \<noteq> []) (List.map_filter (\<lambda>c. fst (snd c)) (List.map_filter delta_call mine))) \<and>
       callArguments (block_state mine) = concat (map (\<lambda>c. snd (snd c)) (List.map_filter delta_call mine)))"
  using assms
proof (induction mine rule: rev_induct)
  case (snoc c mine)
  show ?case
  proof (cases "mine = []")
    case True
    then show ?thesis using snoc.prems
      by (cases c) (auto simp: block_state_single step_block_def new_assembly_def List.map_filter_simps last_or_def
          split: option.split)
  next
    case False
    with snoc have IH: "blockKind (block_state mine) = opened_kind (hd mine)"
      "completedBlock (block_state mine) = (case List.map_filter ended_block mine of [] \<Rightarrow> None | b # bs \<Rightarrow> Some b)"
      "List.map_filter ended_block mine = [] \<Longrightarrow>
         blockText (block_state mine) = concat (map delta_text mine) \<and>
         callID (block_state mine) = last_or [] (map fst (List.map_filter delta_call mine)) \<and>
         callName (block_state mine) =
           last_or [] (filter (\<lambda>n. n \<noteq> []) (List.map_filter (\<lambda>c. fst (snd c)) (List.map_filter delta_call mine))) \<and>
         callArguments (block_state mine) = concat (map (\<lambda>c. snd (snd c)) (List.map_filter delta_call mine))"
      by auto
    show ?thesis
    proof (cases "List.map_filter ended_block mine")
      case (Cons b bs)
      then show ?thesis using IH(1,2) False
        by (simp add: block_state_snoc step_block_def map_filter_snoc)
    next
      case Nil
      with IH(3) IH(1,2) False show ?thesis
        by (cases c) (auto simp: block_state_snoc step_block_def map_filter_snoc split: option.split)
    qed
  qed
qed simp

section \<open>Pushing\<close>

lemma CloneReason_same: "CloneReason r = Inr s \<Longrightarrow> s = r"
  by (cases r) (auto simp: res_iff NewOpaqueFinishReason_def split: if_splits)

definition touched :: "block_assembler \<Rightarrow> int \<Rightarrow> block_assembly \<Rightarrow> block_assembler \<Rightarrow> bool" where
  "touched a i st a' =
     ((\<forall>j. map_of (partials a') j = (if j = i then Some st else map_of (partials a) j)) \<and>
      assemblyOrder a' = (if map_of (partials a) i = None then assemblyOrder a @ [i] else assemblyOrder a) \<and>
      assemblyFinish a' = assemblyFinish a \<and> assemblyUsage a' = assemblyUsage a)"

definition known_block :: "block_assembler \<Rightarrow> int \<Rightarrow> string \<Rightarrow> block_assembly" where
  "known_block a i ty = (case map_of (partials a) i of None \<Rightarrow> new_assembly ty | Some st \<Rightarrow> st)"

lemma ensure_Inr:
  "ensure i ty a = Inr (a1, st) \<Longrightarrow> st = known_block a i ty \<and> touched a i st a1"
  by (auto simp: ensure_def known_block_def touched_def res_iff Let_def split: option.splits)

lemma touched_put: "touched a i st a1 \<Longrightarrow> touched a i st' (a1\<lparr>partials := put (partials a1) i st'\<rparr>)"
  by (simp add: touched_def)

lemma update_touched:
  "update_block i ty f a = (a', Inr u) \<Longrightarrow>
   touched a i (let st = known_block a i ty in if completedBlock st \<noteq> None then st else f st) a'"
  using touched_put by (auto simp: update_block_def Let_def dest!: ensure_Inr split: sum.splits prod.splits if_splits)

lemma push_touched:
  assumes "Push c a = (a', Inr u)" "chunk_index c = Some i"
  shows "touched a i (step_block c (known_block a i (opened_kind c))) a' \<and>
    (\<forall>b. ended_block c = Some b \<longrightarrow> completedBlock (known_block a i (opened_kind c)) = None \<longrightarrow> CloneContent b = Inr b)"
proof (cases c)
  case (BlockStartChunk j t)
  then have "ensure i t a = Inr (a', known_block a i t)" using assms ensure_Inr by (fastforce split: sum.splits)
  from ensure_Inr [OF this] BlockStartChunk show ?thesis by (simp add: step_block_def)
next
  case (TextDeltaChunk j t)
  then have "update_block i ''text'' (\<lambda>st. st\<lparr>blockText := blockText st @ t\<rparr>) a = (a', Inr u)"
    using assms by (simp add: appendText_def)
  from update_touched [OF this] show ?thesis by (simp add: step_block_def Let_def TextDeltaChunk split: if_splits)
next
  case (ReasoningDeltaChunk j t)
  then have "update_block i ''reasoning'' (\<lambda>st. st\<lparr>blockText := blockText st @ t\<rparr>) a = (a', Inr u)"
    using assms by (simp add: appendText_def)
  from update_touched [OF this] show ?thesis by (simp add: step_block_def Let_def ReasoningDeltaChunk split: if_splits)
next
  case (ToolCallDeltaChunk j cid n d)
  then have "update_block i ''tool-call'' (\<lambda>st. st\<lparr>callID := cid,
      callName := (case n of None \<Rightarrow> callName st | Some name \<Rightarrow> if name \<noteq> [] then name else callName st),
      callArguments := callArguments st @ d\<rparr>) a = (a', Inr u)"
    using assms by (simp add: appendTool_def)
  from update_touched [OF this] show ?thesis by (simp add: step_block_def Let_def ToolCallDeltaChunk split: if_splits)
next
  case (BlockEndChunk j b)
  with assms obtain a1 st where e: "ensure i (ContentType b) a = Inr (a1, st)"
    by (auto simp: endBlock_def split: if_splits sum.splits)
  note k = ensure_Inr [OF e]
  show ?thesis
  proof (cases "completedBlock st")
    case (Some d)
    then show ?thesis using assms BlockEndChunk e k by (auto simp: endBlock_def step_block_def split: if_splits)
  next
    case None
    then obtain d where d: "CloneContent b = Inr d" "a' = a1\<lparr>partials := put (partials a1) i (st\<lparr>completedBlock := Some d\<rparr>)\<rparr>"
      using assms BlockEndChunk e by (auto simp: endBlock_def split: if_splits sum.splits)
    then have "d = b" using clone_blocks_same(1) by blast
    with d None k touched_put BlockEndChunk show ?thesis by (auto simp: step_block_def)
  qed
qed (use assms in auto)

definition assembled_from :: "stream_chunk list \<Rightarrow> block_assembler \<Rightarrow> bool" where
  "assembled_from cs a =
     (assemblyOrder a = first_seen (List.map_filter chunk_index cs) \<and>
      (\<forall>i. map_of (partials a) i = (if chunks_at cs i = [] then None else Some (block_state (chunks_at cs i)))) \<and>
      (\<forall>i b. completedBlock (block_state (chunks_at cs i)) = Some b \<longrightarrow> chunks_at cs i \<noteq> [] \<longrightarrow> CloneContent b = Inr b) \<and>
      assemblyFinish a = (case List.map_filter chunk_reason cs of [] \<Rightarrow> None | r # rs \<Rightarrow> Some (last (r # rs))) \<and>
      (\<forall>r. assemblyFinish a = Some r \<longrightarrow> CloneReason r = Inr r) \<and>
      assemblyUsage a = final_usage cs)"

lemma chunks_at_snoc: "chunks_at (cs @ [c]) i = (if chunk_index c = Some i then chunks_at cs i @ [c] else chunks_at cs i)"
  by (simp add: chunks_at_def)

lemma chunks_at_empty: "chunks_at cs i = [] \<longleftrightarrow> i \<notin> set (List.map_filter chunk_index cs)"
  by (induction cs) (auto simp: chunks_at_def List.map_filter_simps split: option.split)

lemma final_usage_snoc:
  "final_usage (cs @ [c]) = (case chunk_usage c of None \<Rightarrow> final_usage cs | Some u \<Rightarrow> Some u)"
  by (simp add: final_usage_def map_filter_snoc split: option.split)

lemma known_block_from:
  "assembled_from cs a \<Longrightarrow>
   known_block a i ty = (if chunks_at cs i = [] then new_assembly ty else block_state (chunks_at cs i))"
  by (simp add: assembled_from_def known_block_def)

lemma push_block_from:
  assumes "assembled_from cs a" "Push c a = (a', Inr u)" "chunk_index c = Some i"
  shows "assembled_from (cs @ [c]) a'"
proof -
  note t = push_touched [OF assms(2,3)]
  have st: "step_block c (known_block a i (opened_kind c)) = block_state (chunks_at (cs @ [c]) i)"
    using known_block_from [OF assms(1)] assms(3) by (simp add: chunks_at_snoc block_state_snoc block_state_single)
  have other: "chunks_at (cs @ [c]) j = chunks_at cs j" if "j \<noteq> i" for j
    using that assms(3) by (simp add: chunks_at_snoc)
  have at: "completedBlock (block_state (chunks_at (cs @ [c]) i)) = Some b \<Longrightarrow> CloneContent b = Inr b" for b
  proof -
    assume c: "completedBlock (block_state (chunks_at (cs @ [c]) i)) = Some b"
    show "CloneContent b = Inr b"
    proof (cases "completedBlock (known_block a i (opened_kind c))")
      case (Some d)
      then have ne: "chunks_at cs i \<noteq> []" using known_block_from [OF assms(1), of i "opened_kind c"]
        by (auto simp: new_assembly_def)
      have "step_block c (known_block a i (opened_kind c)) = known_block a i (opened_kind c)"
        using Some by (simp add: step_block_def)
      then have "completedBlock (known_block a i (opened_kind c)) = Some b" using c st by simp
      then have "completedBlock (block_state (chunks_at cs i)) = Some b"
        using ne known_block_from [OF assms(1), of i "opened_kind c"] by simp
      with ne show ?thesis using assms(1) by (simp add: assembled_from_def)
    next
      case None
      then have "ended_block c = Some b" using c unfolding st [symmetric]
        by (cases c) (auto simp: step_block_def)
      then show ?thesis using t None by simp
    qed
  qed
  have "completedBlock (block_state (chunks_at (cs @ [c]) j)) = Some b \<Longrightarrow> chunks_at (cs @ [c]) j \<noteq> [] \<Longrightarrow>
      CloneContent b = Inr b" for j b
    using at other [of j] assms(1) by (cases "j = i") (auto simp: assembled_from_def)
  moreover have "chunks_at (cs @ [c]) i \<noteq> []" using assms(3) by (simp add: chunks_at_snoc)
  moreover have "map_of (partials a') j = (if chunks_at (cs @ [c]) j = [] then None
      else Some (block_state (chunks_at (cs @ [c]) j)))" for j
    using t other [of j] calculation(2) assms(1) unfolding st touched_def
    by (cases "j = i") (simp_all add: assembled_from_def)
  moreover have "List.map_filter chunk_index (cs @ [c]) = List.map_filter chunk_index cs @ [i]"
    "chunk_reason c = None" "chunk_usage c = None"
    using assms(3) by (cases c; simp add: map_filter_snoc)+
  ultimately show ?thesis
    using t assms(1) unfolding touched_def
    by (simp add: assembled_from_def first_seen_snoc chunks_at_empty [of cs] final_usage_snoc
        map_filter_snoc [of chunk_reason])
qed

lemma push_other_from:
  assumes "assembled_from cs a" "Push c a = (a', Inr u)" "chunk_index c = None"
  shows "assembled_from (cs @ [c]) a'"
proof -
  have same: "List.map_filter chunk_index (cs @ [c]) = List.map_filter chunk_index cs"
    "chunks_at (cs @ [c]) i = chunks_at cs i" for i
    using assms(3) by (simp_all add: map_filter_snoc chunks_at_snoc)
  show ?thesis
  proof (cases c)
    case (UsageChunk v)
    then have "a' = a\<lparr>assemblyUsage := Some v\<rparr>" using assms(2) by simp
    then show ?thesis using assms(1) same UsageChunk
      by (simp add: assembled_from_def final_usage_snoc map_filter_snoc)
  next
    case (FinishChunk x q)
    then obtain r where r: "x = Some r" "CloneReason r = Inr r"
        "partials a' = partials a" "assemblyOrder a' = assemblyOrder a" "assemblyUsage a' = assemblyUsage a"
        "assemblyFinish a' = Some r"
      using assms(2) CloneReason_same
      by (auto simp: acceptFinish_def Let_def split: option.splits sum.splits if_splits)
    then show ?thesis using assms(1) same FinishChunk
      by (auto simp: assembled_from_def final_usage_snoc map_filter_snoc split: list.splits)
  qed (use assms in auto)
qed

lemma push_all_from: "push_all cs NewBlockAssembler = Inr a \<Longrightarrow> assembled_from cs a"
proof (induction cs arbitrary: a rule: rev_induct)
  case Nil
  then show ?case
    by (auto simp: assembled_from_def NewBlockAssembler_def List.map_filter_simps chunks_at_def final_usage_def)
next
  case (snoc c cs)
  then obtain b u where b: "push_all cs NewBlockAssembler = Inr b" "Push c b = (a, Inr u)"
    by (cases "push_all cs NewBlockAssembler") (auto simp: push_all_snoc split: prod.splits sum.splits)
  from snoc.IH [OF b(1)] show ?case
    by (cases "chunk_index c") (blast intro: push_block_from push_other_from b(2))+
qed

lemma assemble_block:
  assumes "assembled_from cs a" "chunks_at cs i \<noteq> []"
  shows "assemble (block_state (chunks_at cs i)) i = response_block i (chunks_at cs i)"
proof -
  have "list_all (\<lambda>c. chunk_index c \<noteq> None) (chunks_at cs i)" by (auto simp: chunks_at_def list_all_iff)
  note f = block_state_fields [OF assms(2) this]
  show ?thesis
  proof (cases "List.map_filter ended_block (chunks_at cs i)")
    case Nil
    with f show ?thesis by (simp add: assemble_def response_block_def Let_def)
  next
    case (Cons b bs)
    then have "completedBlock (block_state (chunks_at cs i)) = Some b" using f by simp
    moreover from this have "CloneContent b = Inr b" using assms by (simp add: assembled_from_def)
    ultimately show ?thesis using Cons by (simp add: assemble_def response_block_def)
  qed
qed

lemma finish_from: "assembled_from cs a \<Longrightarrow> FinishValue a = final_reason cs"
  by (auto simp: assembled_from_def FinishValue_def final_reason_def last_or_def split: list.splits)

lemma assemble_order_from:
  assumes "assembled_from cs a" "\<forall>i \<in> set order. chunks_at cs i \<noteq> []"
  shows "assemble_order a order =
    bindE (mapE (\<lambda>i. response_block i (chunks_at cs i)) order) (\<lambda>bs.
    Inr (if ReasonKind (final_reason cs) = ''max-tokens'' then filter (\<lambda>b. ContentType b \<noteq> ''tool-call'') bs else bs))"
  using assms(2)
proof (induction order)
  case (Cons i order)
  have "map_of (partials a) i = Some (block_state (chunks_at cs i))"
    using assms(1) Cons.prems by (simp add: assembled_from_def)
  moreover have "chunks_at cs i \<noteq> []" using Cons.prems by simp
  ultimately show ?case
    using Cons assemble_block [OF assms(1), of i] finish_from [OF assms(1)]
    by (cases "response_block i (chunks_at cs i)"; cases "mapE (\<lambda>i. response_block i (chunks_at cs i)) order") auto
qed simp

lemma assembled_blocks_from: "assembled_from cs a \<Longrightarrow> AssembledBlocks a = response_blocks cs"
  using assemble_order_from [of cs a "first_seen (List.map_filter chunk_index cs)"]
  by (simp add: AssembledBlocks_def response_blocks_def chunks_at_empty) (simp add: assembled_from_def)

end
