(* ===== verification/ModelAttemptLaws.thy ===== *)
theory ModelAttemptLaws
  imports ModelAttempt ModelStreamLaws
begin

text \<open>
  Invariants of an attempt: how its phase, its stream and its failure go together, and that its
  assembler holds exactly the chunks whose events were acknowledged.  Every accepted result
  brings the attempt nearer to its end, except a chunk read from the stream.
\<close>

section \<open>Shape\<close>

definition attempt_shape :: "attempt \<Rightarrow> bool" where
  "attempt_shape a =
     (attemptPhase a \<noteq> ProposedAttempt \<and>
      (attemptClosed a \<longrightarrow> attemptPhase a \<in> {CommittingMessage, CompletedAttempt}) \<and>
      (attemptPhase a = CommittingMessage \<longrightarrow> attemptClosed a) \<and>
      (attemptFailure a \<noteq> None \<longrightarrow> attemptPhase a \<in> {ClosingStream, CompletedAttempt}) \<and>
      (attemptPhase a = CompletedAttempt \<and> \<not> attemptClosed a \<longrightarrow> attemptFailure a \<noteq> None) \<and>
      (messageAccepted a \<longrightarrow> attemptPhase a = CompletedAttempt \<and> attemptClosed a))"

definition completes :: "attempt \<times> attempt_operation \<Rightarrow> bool" where
  "completes s = (\<exists>o1. snd s = AttemptCompleted o1)"

text \<open>An operation is handed out exactly in the phase that waits for its result.\<close>

definition awaited :: "attempt \<times> attempt_operation \<Rightarrow> bool" where
  "awaited s =
     (case snd s of
        ReadLog \<Rightarrow> attemptPhase (fst s) \<in> {ReadingLog, CheckingRequest}
      | CommitEvents d \<Rightarrow>
          attemptPhase (fst s) \<in> {CommittingHeader, CommittingContext, CommittingChunk, CommittingMessage} \<and>
          pendingCommit (fst s) = Some d
      | Generate i \<Rightarrow> attemptPhase (fst s) = OpeningStream
      | ReadChunk \<Rightarrow> attemptPhase (fst s) = ReadingStream
      | CloseStream \<Rightarrow> attemptPhase (fst s) = ClosingStream
      | AttemptCompleted o1 \<Rightarrow>
          attemptPhase (fst s) = CompletedAttempt \<and> outcomeError o1 = attemptFailure (fst s) \<and>
          outcomeClosed o1 = attemptClosed (fst s) \<and> outcomeFinish o1 = Some (FinishValue (assembly (fst s))) \<and>
          outcomeHeader o1 = headerDone (fst s) \<and>
          outcomeMessage o1 = (if outcomeError o1 = None then AcceptedMessage (fst s) else no_message))"

definition sound_step :: "attempt \<times> attempt_operation \<Rightarrow> bool" where
  "sound_step s = (attempt_shape (fst s) \<and> awaited s)"

lemma join_some: "join_errors [x, Some e] \<noteq> None" "join_errors [Some e, x] \<noteq> None"
  by (simp_all add: join_errors_def map_filter_simps split: option.split)

lemma complete_sound:
  "(attemptClosed a \<or> problem \<noteq> None \<and> \<not> messageAccepted a) \<Longrightarrow> sound_step (complete_attempt problem a)"
  by (auto simp: sound_step_def complete_attempt_def attempt_shape_def awaited_def AcceptedMessage_def)

lemma fail_sound:
  assumes "attempt_shape a" "\<not> messageAccepted a" "attemptPhase a \<noteq> CompletedAttempt"
  shows "sound_step (fail_attempt problem a)"
proof (cases "attemptClosed a")
  case True
  then show ?thesis by (simp add: fail_attempt_def Let_def complete_sound)
next
  case False
  with assms show ?thesis
    by (auto simp: fail_attempt_def Let_def sound_step_def attempt_shape_def awaited_def)
qed

lemma issue_sound:
  assumes "attemptPhase a \<in> {CommittingHeader, CommittingContext, CommittingChunk, CommittingMessage}"
    "attemptPhase a = CommittingMessage \<longleftrightarrow> attemptClosed a" "attemptFailure a = None" "\<not> messageAccepted a"
  shows "sound_step (issue_commit d a)"
  using assms by (auto simp: issue_commit_def sound_step_def attempt_shape_def awaited_def)

lemma after_header_sound:
  "\<not> attemptClosed a \<Longrightarrow> attemptFailure a = None \<Longrightarrow> \<not> messageAccepted a \<Longrightarrow> sound_step (afterHeader a)"
  unfolding afterHeader_def issue_commit_def
  by (cases "pendingContext a") (auto simp: sound_step_def attempt_shape_def awaited_def)

text \<open>What the fallible parts of a step change.\<close>

lemma load_Inr:
  "load s a = Inr b \<Longrightarrow> \<exists>n h. b = a\<lparr>confirmedNext := n, options := (options a)\<lparr>optionsMessages := h\<rparr>\<rparr>"
  by (auto simp: load_def bindE_Inr_iff)

lemma checkRequest_Inr: "checkRequest s a = Inr b \<Longrightarrow> \<exists>n. b = a\<lparr>confirmedNext := n\<rparr>"
  by (auto simp: checkRequest_def bindE_Inr_iff)

lemma Prepare_Inr: "Prepare es first a = Inr (b, h, r) \<Longrightarrow> \<exists>q. b = a\<lparr>options := q\<rparr>"
  by (auto simp: Prepare_def Let_def bindE_Inr_iff)

lemma confirmCommit_Inr:
  "confirmCommit w a = Inr b \<Longrightarrow>
     b = a\<lparr>confirmedNext := nextSeq w, pendingCommit := None\<rparr> \<and> length (resultEvents w) = 1 \<and>
     firstSeq w \<ge> confirmedNext a \<and> nextSeq w = firstSeq w + 1 \<and> evSeq (hd (resultEvents w)) = firstSeq w \<and>
     (\<exists>d. pendingCommit a = Some d \<and> ValidateEvent d (hd (resultEvents w)) = Inr ())"
  by (auto simp: confirmCommit_def Let_def bindE_Inr_iff failIf_Inr split: option.splits)

lemma ConfirmChunk_cases:
  assumes "ConfirmChunk c es a = (b, r)"
  shows "(\<exists>x e. b = a\<lparr>assembly := x\<rparr> \<and> r = Inl e) \<or>
     (\<exists>x. Push c (assembly a) = (x, Inr ()) \<and> r = Inr () \<and>
        (chunkSequences a = [] \<or> last (chunkSequences a) < evSeq (hd es)) \<and>
        b = a\<lparr>assembly := x, chunkSequences := chunkSequences a @ [evSeq (hd es)]\<rparr>)"
proof (cases "check_chunk c es a")
  case (Inl e)
  with assms have "b = a\<lparr>assembly := assembly a\<rparr> \<and> r = Inl e" by (auto simp: ConfirmChunk_def)
  then show ?thesis by blast
next
  case (Inr u)
  then have "chunkSequences a = [] \<or> last (chunkSequences a) < evSeq (hd es)"
    by (auto simp: check_chunk_def bindE_Inr_iff failIf_Inr)
  moreover obtain x q where x: "Push c (assembly a) = (x, q)" by fastforce
  ultimately show ?thesis using assms Inr by (cases q) (auto simp: ConfirmChunk_def)
qed

lemma ConfirmAssistant_Inr:
  "ConfirmAssistant es a = Inr b \<Longrightarrow> b = a\<lparr>messageAccepted := True\<rparr> \<and> \<not> messageAccepted a \<and>
     idValue (attemptMessage a) \<noteq> [] \<and> preparedMessage a \<noteq> None"
  by (auto simp: ConfirmAssistant_def bindE_Inr_iff failIf_Inr split: option.splits)

lemma AssistantDraft_Inr:
  "AssistantDraft i a = Inr (b, d) \<Longrightarrow>
     (d = None \<and> b = a \<and> ReasonKind (FinishValue (assembly a)) \<in> {''error'', ''aborted''}) \<or>
     (\<exists>draft m blocks g. d = Some draft \<and> b = a\<lparr>preparedMessage := Some draft, attemptMessage := m\<rparr> \<and>
        ReasonKind (FinishValue (assembly a)) \<notin> {''error'', ''aborted''} \<and>
        AssembledBlocks (assembly a) = Inr blocks \<and> i = Inr g \<and>
        NewAssistantMessage g blocks
          (ModelSource (configProvider (optionsConfig (options a))) (configModel (optionsConfig (options a)))
            (ReplayValue (assembly a))) = Inr m)"
  unfolding AssistantDraft_def by (auto simp: bindE_Inr_iff split: if_splits)

section \<open>Every accepted result keeps the shape\<close>

fun branch_value :: "'a branch \<Rightarrow> 'a" where
  "branch_value (Returned x) = x"
| "branch_value (Continued x) = x"

lemma failed_branch_sound:
  "attempt_shape a \<Longrightarrow> \<not> messageAccepted a \<Longrightarrow> attemptPhase a \<noteq> CompletedAttempt \<Longrightarrow>
   sound_step (branch_value (failed_branch e a))"
  by (simp add: fail_sound)

lemma log_loaded_sound:
  assumes "attempt_shape a" "attemptPhase a = ReadingLog"
  shows "sound_step (branch_value (log_loaded s a))"
proof (cases "load s a")
  case (Inl e)
  with assms show ?thesis by (auto simp: log_loaded_def attempt_shape_def intro!: fail_sound)
next
  case (Inr b)
  with assms load_Inr [OF Inr] show ?thesis
    by (auto simp: log_loaded_def sound_step_def attempt_shape_def awaited_def)
qed

lemma request_checked_sound:
  assumes "attempt_shape a" "attemptPhase a = CheckingRequest"
  shows "sound_step (branch_value (request_checked s a))"
proof (cases "checkRequest s a")
  case (Inl e)
  with assms show ?thesis by (auto simp: request_checked_def attempt_shape_def intro!: fail_sound)
next
  case (Inr b)
  with assms checkRequest_Inr [OF Inr] show ?thesis
    by (auto simp: request_checked_def sound_step_def attempt_shape_def awaited_def)
qed

lemma chunk_read_sound:
  assumes "attempt_shape a" "attemptPhase a = ReadingStream"
  shows "sound_step (branch_value (chunk_read c found a))"
proof (cases "ChunkDraft a c")
  case (Inl e)
  with assms show ?thesis
    by (auto simp: chunk_read_def attempt_shape_def sound_step_def awaited_def fail_attempt_def Let_def)
next
  case (Inr b)
  with assms show ?thesis
    by (auto simp: chunk_read_def sound_step_def attempt_shape_def awaited_def issue_commit_def)
qed

lemma stream_opened_sound:
  assumes "attempt_shape a" "attemptPhase a = OpeningStream"
  shows "sound_step (branch_value (stream_opened started a))"
proof -
  define b where "b = a\<lparr>options := (options a)\<lparr>optionsConfig := startedConfig started\<rparr>,
      attemptDefaults := startedDefaults started, attemptContext := startedContext started\<rparr>"
  have b: "attempt_shape b" "attemptPhase b = OpeningStream"
    using assms by (auto simp: b_def attempt_shape_def)
  show ?thesis
  proof (cases "startedError started")
    case (Some e)
    with assms show ?thesis by (auto simp: stream_opened_def attempt_shape_def intro!: fail_sound)
  next
    case started: None
    show ?thesis
    proof (cases "Prepare (attemptBaseline b) (attemptFirst b) b")
      case (Inl e)
      with started b show ?thesis
        by (auto simp: stream_opened_def attempt_shape_def simp flip: b_def intro!: fail_sound)
    next
      case (Inr r)
      obtain c h t where r: "r = (c, h, t)" by (cases r)
      with Inr obtain q where "c = b\<lparr>options := q\<rparr>" using Prepare_Inr by blast
      with started Inr r b show ?thesis
        by (cases h) (auto simp: stream_opened_def attempt_shape_def simp flip: b_def
            intro!: issue_sound after_header_sound)
    qed
  qed
qed

lemma commit_confirmed_sound:
  assumes a: "attempt_shape a" "attemptPhase a \<in> {CommittingHeader, CommittingContext, CommittingChunk, CommittingMessage}"
  shows "sound_step (branch_value (commit_confirmed w cancellation a))"
proof (cases "confirmCommit w a")
  case (Inl e)
  with a show ?thesis by (auto simp: commit_confirmed_def attempt_shape_def intro!: fail_sound)
next
  case (Inr b)
  note b = confirmCommit_Inr [OF Inr, THEN conjunct1]
  have shape: "attempt_shape b" "attemptPhase b = attemptPhase a" using a b by (auto simp: attempt_shape_def)
  show ?thesis
  proof (cases "attemptPhase b = CommittingChunk")
    case True
    obtain c r where c: "ConfirmChunk (pendingChunk b) (resultEvents w) b = (c, r)" by fastforce
    from ConfirmChunk_cases [OF c] True shape Inr c show ?thesis
      by (auto simp: commit_confirmed_def attempt_shape_def sound_step_def awaited_def fail_attempt_def Let_def)
  next
    case chunk: False
    show ?thesis
    proof (cases "attemptPhase b = CommittingMessage")
      case True
      with shape have acc: "attemptClosed b" "\<not> messageAccepted b" by (auto simp: attempt_shape_def)
      show ?thesis
      proof (cases "ConfirmAssistant (resultEvents w) b")
        case (Inl e)
        with True Inr acc shape show ?thesis by (simp add: commit_confirmed_def fail_sound)
      next
        case c: (Inr c)
        with acc have "attemptClosed c" by (auto dest!: ConfirmAssistant_Inr)
        with c True Inr show ?thesis by (simp add: commit_confirmed_def complete_sound)
      qed
    next
      case other: False
      with chunk shape a have ph: "attemptPhase b = CommittingHeader \<or> attemptPhase b = CommittingContext" by auto
      with shape have open_b: "\<not> attemptClosed b" "attemptFailure b = None" "\<not> messageAccepted b"
        by (auto simp: attempt_shape_def)
      from ph show ?thesis
      proof
        assume "attemptPhase b = CommittingHeader"
        with Inr open_b show ?thesis by (simp add: commit_confirmed_def after_header_sound)
      next
        assume "attemptPhase b = CommittingContext"
        with Inr open_b show ?thesis
          by (simp add: commit_confirmed_def sound_step_def attempt_shape_def awaited_def)
      qed
    qed
  qed
qed

lemma stream_closed_sound:
  assumes a: "attempt_shape a" "attemptPhase a = ClosingStream"
  shows "sound_step (branch_value (stream_closed i cancellation a))"
proof -
  define b where "b = a\<lparr>attemptClosed := True\<rparr>"
  have b: "attemptClosed b" "\<not> messageAccepted b" "attemptFailure b = attemptFailure a"
    using a by (auto simp: b_def attempt_shape_def)
  show ?thesis
  proof (cases "attemptFailure b = None \<and> cancellation = None")
    case True
    with b show ?thesis
      by (cases "AssistantDraft i b")
        (auto simp: stream_closed_def Let_def simp flip: b_def dest!: AssistantDraft_Inr split: option.split
          intro!: complete_sound issue_sound)
  next
    case False
    with b show ?thesis
      by (auto simp: stream_closed_def Let_def simp flip: b_def intro!: complete_sound)
  qed
qed

lemma check_cancelled_sound:
  assumes "sound_step s" "\<not> completes s"
  shows "sound_step (check_cancelled cancellation s)"
proof -
  obtain a p where s: "s = (a, p)" by (cases s)
  have "attemptPhase a \<noteq> CompletedAttempt"
    using assms s by (cases p) (auto simp: sound_step_def awaited_def completes_def)
  moreover from this have "\<not> messageAccepted a" using assms s by (auto simp: sound_step_def attempt_shape_def)
  ultimately show ?thesis using assms s
    by (auto simp: check_cancelled_def sound_step_def [of "(_, CloseStream)"] attempt_shape_def awaited_def
        intro!: fail_sound) (auto simp: sound_step_def attempt_shape_def)
qed

lemma failed_operation_sound:
  assumes "attempt_shape a" "attemptPhase a \<noteq> CompletedAttempt"
  shows "sound_step (failed_operation problem cancellation a)"
proof -
  have "\<not> messageAccepted a" using assms by (auto simp: attempt_shape_def)
  with assms show ?thesis
    by (auto simp: failed_operation_def Let_def intro!: fail_sound complete_sound)
qed

lemma interpret_sound:
  assumes "attempt_shape a" "pending_result (attemptPhase a) r"
  shows "sound_step (branch_value (interpret_result i r c a))"
  using assms
  by (cases "(attemptPhase a, r)" rule: pending_result.cases)
    (auto simp: interpret_result_def log_loaded_sound request_checked_sound chunk_read_sound stream_opened_sound
      stream_closed_sound commit_confirmed_sound)

lemma continued_open:
  assumes "interpret_result i r c a = Continued s" "pending_result (attemptPhase a) r"
  shows "\<not> completes s"
  using assms
  by (cases "(attemptPhase a, r)" rule: pending_result.cases)
    (auto simp: interpret_result_def completes_def log_loaded_def request_checked_def chunk_read_def
      stream_opened_def stream_closed_def commit_confirmed_def issue_commit_def afterHeader_def Let_def
      split: sum.splits option.splits prod.splits if_splits)

lemma checkResult_Inr:
  "checkResult r a = Inr () \<longleftrightarrow>
     attemptPhase a \<noteq> ProposedAttempt \<and> attemptPhase a \<noteq> CompletedAttempt \<and>
     (case r of AttemptFailed problem \<Rightarrow> problem \<noteq> None | _ \<Rightarrow> pending_result (attemptPhase a) r)"
  by (cases r) (auto simp: checkResult_def bindE_Inr_iff failIf_Inr)

lemma AdvanceAttempt_Inr:
  assumes "AdvanceAttempt i r c a = Inr t"
  obtains problem where "r = AttemptFailed (Some problem)" "attemptPhase a \<notin> {ProposedAttempt, CompletedAttempt}"
      "t = failed_operation (Some problem) c a"
  | "pending_result (attemptPhase a) r" "interpret_result i r c a = Returned t"
  | s where "pending_result (attemptPhase a) r" "interpret_result i r c a = Continued s" "t = check_cancelled c s"
  using assms
  by (cases r) (auto simp: AdvanceAttempt_def advance_attempt_def bindE_Inr_iff checkResult_Inr split: branch.splits)

lemma advance_sound:
  assumes "attempt_shape a" "AdvanceAttempt i r c a = Inr t"
  shows "sound_step t"
  using assms(2)
proof (cases rule: AdvanceAttempt_Inr)
  case (1 problem)
  with assms show ?thesis by (simp add: failed_operation_sound)
next
  case 2
  with interpret_sound [OF assms(1) 2(1)] show ?thesis by (metis branch_value.simps(1))
next
  case (3 s)
  with interpret_sound [OF assms(1) 3(1), of i c] continued_open [OF 3(2,1)] show ?thesis
    by (simp add: check_cancelled_sound)
qed

lemma start_sound: "StartAttempt (new_attempt i q) = Inr t \<Longrightarrow> sound_step t"
  by (auto simp: StartAttempt_def new_attempt_def sound_step_def attempt_shape_def awaited_def)

lemma retry_close_sound:
  assumes "attempt_shape a" "RetryAttemptClose a = Inr t"
  shows "sound_step t"
proof (cases "attemptClosed a")
  case True
  with assms show ?thesis by (auto simp: RetryAttemptClose_def bindE_Inr_iff failIf_Inr intro!: complete_sound)
next
  case False
  with assms show ?thesis
    by (auto simp: RetryAttemptClose_def bindE_Inr_iff failIf_Inr sound_step_def attempt_shape_def awaited_def)
qed

end
