(* ===== verification/ModelAttemptRuns.thy ===== *)
theory ModelAttemptRuns
  imports ModelAttemptLaws
begin

text \<open>
  Runs of an attempt.  A run carries the chunks whose events were acknowledged; the assembler is
  their fold, the message is made from it, and the number of accepted results is bounded by the
  number of chunks read.
\<close>

section \<open>Progress\<close>

fun attempt_rank :: "attempt_phase \<Rightarrow> nat" where
  "attempt_rank ProposedAttempt = 9"
| "attempt_rank ReadingLog = 8"
| "attempt_rank OpeningStream = 7"
| "attempt_rank CommittingHeader = 6"
| "attempt_rank CommittingContext = 5"
| "attempt_rank CheckingRequest = 4"
| "attempt_rank CommittingChunk = 4"
| "attempt_rank ReadingStream = 3"
| "attempt_rank ClosingStream = 2"
| "attempt_rank CommittingMessage = 1"
| "attempt_rank CompletedAttempt = 0"

fun reads_chunk :: "attempt_result \<Rightarrow> bool" where
  "reads_chunk (ChunkRead c found) = found"
| "reads_chunk r = False"

lemma fail_rank:
  "attempt_shape a \<Longrightarrow> attemptPhase a \<notin> {ClosingStream, CompletedAttempt} \<Longrightarrow>
   attempt_rank (attemptPhase (fst (fail_attempt p a))) < attempt_rank (attemptPhase a)"
  by (cases "attemptPhase a") (auto simp: fail_attempt_def Let_def complete_attempt_def attempt_shape_def)

lemma fail_rank_open:
  "\<not> attemptClosed a \<Longrightarrow> attempt_rank (attemptPhase (fst (fail_attempt p a))) = 2"
  "attempt_rank (attemptPhase (fst (fail_attempt p a))) \<le> 2"
  by (auto simp: fail_attempt_def Let_def complete_attempt_def)

lemma complete_rank [simp]: "attemptPhase (fst (complete_attempt p a)) = CompletedAttempt"
  by (simp add: complete_attempt_def)

lemma issue_phase [simp]: "attemptPhase (fst (issue_commit d a)) = attemptPhase a"
  by (simp add: issue_commit_def)

lemma after_header_rank: "attempt_rank (attemptPhase (fst (afterHeader a))) \<le> 5"
  by (auto simp: afterHeader_def split: option.split)

lemma rank_low:
  "2 < n \<Longrightarrow> attempt_rank (attemptPhase (fst (fail_attempt p a))) < n"
  "5 < n \<Longrightarrow> attempt_rank (attemptPhase (fst (afterHeader a))) < n"
  using fail_rank_open(2) [of p a] after_header_rank [of a] by simp_all

lemma check_cancelled_rank:
  "attempt_rank (attemptPhase (fst s)) < n \<Longrightarrow> 2 < n \<or> fst s = a \<and> snd s = CloseStream \<Longrightarrow>
   attempt_rank (attemptPhase (fst (check_cancelled c s))) < n"
  using fail_rank_open(2) [of c "fst s"] by (auto simp: check_cancelled_def split: prod.split)

lemma stream_opened_rank:
  "attemptPhase a = OpeningStream \<Longrightarrow>
   attempt_rank (attemptPhase (fst (branch_value (stream_opened g a)))) < 7"
  by (auto simp: stream_opened_def Let_def rank_low split: option.split sum.split prod.split)

lemma commit_confirmed_rank:
  assumes "attempt_shape a"
    "attemptPhase a \<in> {CommittingHeader, CommittingContext, CommittingChunk, CommittingMessage}"
  shows "attempt_rank (attemptPhase (fst (branch_value (commit_confirmed w c a)))) < attempt_rank (attemptPhase a)"
proof (cases "confirmCommit w a")
  case (Inl e)
  with assms show ?thesis by (auto simp: commit_confirmed_def intro!: fail_rank)
next
  case (Inr b)
  note b = confirmCommit_Inr [OF Inr, THEN conjunct1]
  then have shape: "attempt_shape b" "attemptPhase b = attemptPhase a" using assms by (auto simp: attempt_shape_def)
  consider "attemptPhase a = CommittingHeader" | "attemptPhase a = CommittingContext"
    | "attemptPhase a = CommittingChunk" | "attemptPhase a = CommittingMessage" using assms by blast
  then show ?thesis
  proof cases
    case 1
    then show ?thesis using Inr shape after_header_rank [of "b\<lparr>headerDone := True\<rparr>"]
      by (simp add: commit_confirmed_def)
  next
    case 2
    then show ?thesis using Inr shape by (simp add: commit_confirmed_def)
  next
    case 3
    then show ?thesis using Inr shape
      by (auto simp: commit_confirmed_def rank_low split: prod.split sum.split)
  next
    case 4
    then show ?thesis using Inr shape
      by (cases "ConfirmAssistant (resultEvents w) b")
        (auto simp: commit_confirmed_def attempt_shape_def fail_attempt_def Let_def)
  qed
qed

lemma stream_closed_rank:
  "attempt_rank (attemptPhase (fst (branch_value (stream_closed i c a)))) < 2"
  by (auto simp: stream_closed_def Let_def split: sum.split prod.split option.split)

lemma interpret_rank:
  assumes shape: "attempt_shape a" and r: "pending_result (attemptPhase a) r"
  shows "attempt_rank (attemptPhase (fst (branch_value (interpret_result i r c a)))) <
    attempt_rank (attemptPhase a) + (if reads_chunk r then 2 else 0)"
  using r
proof (cases "(attemptPhase a, r)" rule: pending_result.cases)
  case (1 s)
  then show ?thesis by (cases "load s a") (auto simp: interpret_result_def log_loaded_def rank_low)
next
  case (2 s)
  then show ?thesis by (cases "checkRequest s a") (auto simp: interpret_result_def request_checked_def rank_low)
next
  case (8 c found)
  then show ?thesis by (cases "ChunkDraft a c") (auto simp: interpret_result_def chunk_read_def rank_low)
next
  case (7 g)
  then show ?thesis using stream_opened_rank [of a g] by (simp add: interpret_result_def)
qed (use shape stream_closed_rank commit_confirmed_rank in \<open>force simp: interpret_result_def\<close>)+

lemma step_rank:
  assumes shape: "attempt_shape a" and step: "AdvanceAttempt i r c a = Inr t"
  shows "attempt_rank (attemptPhase (fst t)) < attempt_rank (attemptPhase a) + (if reads_chunk r then 2 else 0)"
  using step
proof (cases rule: AdvanceAttempt_Inr)
  case (1 problem)
  show ?thesis
  proof (cases "attemptPhase a = ClosingStream")
    case True
    then show ?thesis using 1 by (simp add: failed_operation_def Let_def)
  next
    case False
    with 1 shape fail_rank [of a] show ?thesis by (simp add: failed_operation_def Let_def)
  qed
next
  case 2
  with interpret_rank [OF shape 2(1), of i c] show ?thesis by simp
next
  case (3 s)
  have low: "attempt_rank (attemptPhase (fst s)) < attempt_rank (attemptPhase a) + (if reads_chunk r then 2 else 0)"
    using interpret_rank [OF shape 3(1), of i c] 3(2) by simp
  moreover have "2 < attempt_rank (attemptPhase a) \<or> attemptPhase a \<in> {ClosingStream, CommittingMessage, CompletedAttempt}"
    by (cases "attemptPhase a") simp_all
  moreover have "attemptPhase a \<notin> {ClosingStream, CommittingMessage, CompletedAttempt}"
    using 3(1,2)
    by (cases "(attemptPhase a, r)" rule: pending_result.cases)
      (auto simp: interpret_result_def stream_closed_def commit_confirmed_def Let_def split: sum.splits prod.splits
        dest!: confirmCommit_Inr)
  ultimately show ?thesis using 3(3) check_cancelled_rank [OF low] by force
qed

section \<open>Bounded runs\<close>

fun advance_all ::
  "(string res \<times> attempt_result \<times> model_error option) list \<Rightarrow> attempt \<times> attempt_operation \<Rightarrow>
   (attempt \<times> attempt_operation) res" where
  "advance_all [] s = Inr s"
| "advance_all ((i, r, c) # rs) s = bindE (AdvanceAttempt i r c (fst s)) (advance_all rs)"

definition chunks_read :: "(string res \<times> attempt_result \<times> model_error option) list \<Rightarrow> nat" where
  "chunks_read rs = length (filter (\<lambda>(i, r, c). reads_chunk r) rs)"

lemma advance_all_bound:
  "sound_step s \<Longrightarrow> advance_all rs s = Inr t \<Longrightarrow>
   sound_step t \<and> length rs + attempt_rank (attemptPhase (fst t)) \<le> attempt_rank (attemptPhase (fst s)) + 2 * chunks_read rs"
proof (induction rs arbitrary: s)
  case Nil
  then show ?case by (simp add: chunks_read_def)
next
  case (Cons x rs)
  obtain i r c where x: "x = (i, r, c)" by (cases x)
  with Cons.prems obtain u where u: "AdvanceAttempt i r c (fst s) = Inr u" "advance_all rs u = Inr t"
    by (auto simp: bindE_Inr_iff)
  have shape: "attempt_shape (fst s)" using Cons.prems by (simp add: sound_step_def)
  have "sound_step u" by (rule advance_sound [OF shape u(1)])
  from Cons.IH [OF this u(2)] step_rank [OF shape u(1)] x show ?case
    by (auto simp: chunks_read_def split: if_splits)
qed

lemma pending_accepts:
  assumes "sound_step s" "\<not> completes s"
  shows "\<exists>t. AdvanceAttempt i (AttemptFailed (Some e)) c (fst s) = Inr t"
proof -
  obtain a p where s: "s = (a, p)" by (cases s)
  have "attemptPhase a \<notin> {ProposedAttempt, CompletedAttempt}"
    using assms s by (cases p) (auto simp: sound_step_def awaited_def completes_def attempt_shape_def)
  with s show ?thesis by (auto simp: AdvanceAttempt_def checkResult_Inr bindE_Inr_iff)
qed

end
