(* ===== verification/ModelAttemptTrace.thy ===== *)
theory ModelAttemptTrace
  imports ModelAttemptRuns
begin

text \<open>
  What an attempt has assembled: a run carries the chunks whose events were acknowledged, the
  assembler is their fold while nothing failed, and the message is made from it.
\<close>

definition accepted_chunk :: "attempt \<Rightarrow> attempt \<Rightarrow> stream_chunk list" where
  "accepted_chunk a b = (if length (chunkSequences a) < length (chunkSequences b) then [pendingChunk a] else [])"

text \<open>A run of an attempt, with the chunks acknowledged so far.\<close>

inductive attempt_run :: "attempt \<times> attempt_operation \<Rightarrow> stream_chunk list \<Rightarrow> bool" where
  started: "NewAttempt i = Inr a \<Longrightarrow> StartAttempt a = Inr s \<Longrightarrow> attempt_run s []"
| advanced: "attempt_run s cs \<Longrightarrow> AdvanceAttempt i r c (fst s) = Inr t \<Longrightarrow>
    attempt_run t (cs @ accepted_chunk (fst s) (fst t))"
| close_retried: "attempt_run s cs \<Longrightarrow> RetryAttemptClose (fst s) = Inr t \<Longrightarrow> attempt_run t cs"

lemma NewAttempt_Inr: "NewAttempt i = Inr a \<Longrightarrow> \<exists>q. a = new_attempt i q"
  by (auto simp: NewAttempt_def bindE_Inr_iff)

lemma run_sound: "attempt_run s cs \<Longrightarrow> sound_step s"
proof (induction rule: attempt_run.induct)
  case (started i a s)
  then show ?case by (auto dest!: NewAttempt_Inr intro: start_sound)
next
  case (advanced s cs i r c t)
  then show ?case by (auto simp: sound_step_def [of s] intro: advance_sound)
next
  case (close_retried s cs t)
  then show ?case by (auto simp: sound_step_def [of s] intro: retry_close_sound)
qed

section \<open>The message an attempt prepares\<close>

definition failed_response :: "attempt \<Rightarrow> bool" where
  "failed_response a = (ReasonKind (FinishValue (assembly a)) \<in> {''error'', ''aborted''})"

definition prepared_ok :: "attempt \<Rightarrow> bool" where
  "prepared_ok a =
     (\<not> failed_response a \<and>
      (\<exists>g blocks. AssembledBlocks (assembly a) = Inr blocks \<and>
         NewAssistantMessage g blocks
           (ModelSource (configProvider (optionsConfig (options a))) (configModel (optionsConfig (options a)))
             (ReplayValue (assembly a))) = Inr (attemptMessage a)))"

definition trace_ok :: "stream_chunk list \<Rightarrow> attempt \<Rightarrow> bool" where
  "trace_ok cs a =
     ((attemptFailure a = None \<longrightarrow> push_all cs NewBlockAssembler = Inr (assembly a)) \<and>
      length cs = length (chunkSequences a) \<and> sorted_wrt (<) (chunkSequences a) \<and>
      (attemptMessage a \<noteq> no_message \<longrightarrow> prepared_ok a \<and> attemptClosed a) \<and>
      (messageAccepted a \<longrightarrow> attemptMessage a \<noteq> no_message) \<and>
      (attemptPhase a = CompletedAttempt \<and> attemptFailure a = None \<longrightarrow> messageAccepted a \<or> failed_response a))"

definition same_trace :: "attempt \<Rightarrow> attempt \<Rightarrow> bool" where
  "same_trace a b =
     (assembly b = assembly a \<and> chunkSequences b = chunkSequences a \<and> attemptMessage b = attemptMessage a \<and>
      messageAccepted b = messageAccepted a \<and> (attemptFailure b = None \<longrightarrow> attemptFailure a = None) \<and>
      (attemptClosed a \<longrightarrow> attemptClosed b) \<and> (attemptMessage a \<noteq> no_message \<longrightarrow> options b = options a))"

lemma same_accepted: "same_trace a b \<Longrightarrow> accepted_chunk a b = []"
  by (simp add: same_trace_def accepted_chunk_def)

lemma trace_same:
  "trace_ok cs a \<Longrightarrow> same_trace a b \<Longrightarrow>
   (attemptPhase b = CompletedAttempt \<Longrightarrow> attemptFailure b = None \<Longrightarrow> messageAccepted b \<or> failed_response b) \<Longrightarrow>
   trace_ok cs b"
  by (auto simp: trace_ok_def same_trace_def prepared_ok_def failed_response_def)

lemma same_trans: "same_trace a b \<Longrightarrow> same_trace b c \<Longrightarrow> same_trace a c"
  by (auto simp: same_trace_def)

lemma fail_same: "same_trace a (fst (fail_attempt p a))"
  "attemptFailure (fst (fail_attempt p a)) \<noteq> None"
  by (auto simp: fail_attempt_def Let_def complete_attempt_def same_trace_def join_errors_def map_filter_simps
      split: option.splits)

text \<open>A step after which the attempt holds the trace it should.\<close>

definition traced :: "stream_chunk list \<Rightarrow> attempt \<Rightarrow> attempt \<times> attempt_operation \<Rightarrow> bool" where
  "traced cs a s = trace_ok (cs @ accepted_chunk a (fst s)) (fst s)"

lemma traced_same:
  "trace_ok cs a \<Longrightarrow> same_trace a (fst s) \<Longrightarrow>
   (attemptPhase (fst s) = CompletedAttempt \<Longrightarrow> attemptFailure (fst s) = None \<Longrightarrow>
      messageAccepted (fst s) \<or> failed_response (fst s)) \<Longrightarrow> traced cs a s"
  unfolding traced_def by (simp add: same_accepted trace_same)

lemma traced_fail:
  assumes "trace_ok cs a" "same_trace a b"
  shows "traced cs a (fail_attempt p b)"
  using assms fail_same [where a = b and p = p] by (auto intro!: traced_same intro: same_trans)

lemma early_message:
  "trace_ok cs a \<Longrightarrow> attempt_shape a \<Longrightarrow> attemptPhase a \<notin> {CommittingMessage, CompletedAttempt} \<Longrightarrow>
   attemptMessage a = no_message"
  by (auto simp: trace_ok_def attempt_shape_def)

lemma same_refl [simp]: "same_trace a a" by (simp add: same_trace_def)

section \<open>Every accepted result keeps the trace\<close>

lemma log_loaded_traced:
  assumes "trace_ok cs a" "attempt_shape a" "attemptPhase a = ReadingLog"
  shows "traced cs a (branch_value (log_loaded s a))"
proof -
  have none: "attemptMessage a = no_message" using early_message assms by simp
  show ?thesis
  proof (cases "load s a")
    case (Inl e)
    with assms show ?thesis by (simp add: log_loaded_def traced_fail)
  next
    case (Inr b)
    with assms none load_Inr [OF Inr] show ?thesis
      by (auto simp: log_loaded_def same_trace_def intro!: traced_same)
  qed
qed

lemma request_checked_traced:
  assumes "trace_ok cs a"
  shows "traced cs a (branch_value (request_checked s a))"
proof (cases "checkRequest s a")
  case (Inl e)
  with assms show ?thesis by (simp add: request_checked_def traced_fail)
next
  case (Inr b)
  with assms checkRequest_Inr [OF Inr] show ?thesis
    by (auto simp: request_checked_def same_trace_def intro!: traced_same)
qed

lemma chunk_read_traced:
  assumes "trace_ok cs a"
  shows "traced cs a (branch_value (chunk_read c found a))"
  using assms
  by (cases "ChunkDraft a c")
    (auto simp: chunk_read_def traced_fail issue_commit_def same_trace_def intro!: traced_same)

lemma after_header_traced:
  assumes "trace_ok cs a" "same_trace a b"
  shows "traced cs a (afterHeader b)"
proof (rule traced_same [OF assms(1)])
  have "same_trace b (fst (afterHeader b))"
    by (auto simp: afterHeader_def issue_commit_def same_trace_def split: option.split)
  then show "same_trace a (fst (afterHeader b))" using assms(2) same_trans by blast
qed (auto simp: afterHeader_def issue_commit_def split: option.splits)

lemma stream_opened_traced:
  assumes a: "trace_ok cs a" "attempt_shape a" "attemptPhase a = OpeningStream"
  shows "traced cs a (branch_value (stream_opened started a))"
proof -
  have none: "attemptMessage a = no_message" using early_message a by simp
  define b where "b = a\<lparr>options := (options a)\<lparr>optionsConfig := startedConfig started\<rparr>,
      attemptDefaults := startedDefaults started, attemptContext := startedContext started\<rparr>"
  have b: "same_trace a b" "attemptMessage b = no_message" using none by (simp_all add: b_def same_trace_def)
  show ?thesis
  proof (cases "startedError started")
    case (Some e)
    with a show ?thesis by (simp add: stream_opened_def traced_fail)
  next
    case started: None
    show ?thesis
    proof (cases "Prepare (attemptBaseline b) (attemptFirst b) b")
      case (Inl e)
      have "same_trace b (b\<lparr>attemptBaseline := []\<rparr>)" by (simp add: same_trace_def)
      then have "same_trace a (b\<lparr>attemptBaseline := []\<rparr>)" using b same_trans by blast
      with started Inl a show ?thesis by (auto simp: stream_opened_def traced_fail simp flip: b_def)
    next
      case (Inr r)
      obtain c h t where r: "r = (c, h, t)" by (cases r)
      with Inr obtain q where "c = b\<lparr>options := q\<rparr>" using Prepare_Inr by blast
      then have "same_trace b (c\<lparr>attemptBaseline := [], pendingContext := t, attemptPhase := x\<rparr>)"
        "same_trace b (c\<lparr>attemptBaseline := [], pendingContext := t\<rparr>)" for x
        using b by (simp_all add: same_trace_def)
      then have c: "same_trace a (c\<lparr>attemptBaseline := [], pendingContext := t, attemptPhase := x\<rparr>)"
        "same_trace a (c\<lparr>attemptBaseline := [], pendingContext := t\<rparr>)" for x using b same_trans by blast+
      show ?thesis
      proof (cases h)
        case None
        with started Inr r c(2) a show ?thesis by (simp add: stream_opened_def after_header_traced flip: b_def)
      next
        case (Some d)
        have "traced cs a (issue_commit d (c\<lparr>attemptBaseline := [], pendingContext := t, attemptPhase := CommittingHeader\<rparr>))"
          using c(1) [of CommittingHeader] a
          by (intro traced_same) (auto simp: issue_commit_def same_trace_def)
        with Some started Inr r show ?thesis by (simp add: stream_opened_def flip: b_def)
      qed
    qed
  qed
qed

lemma sorted_snoc:
  "sorted_wrt (<) xs \<Longrightarrow> xs = [] \<or> last xs < (y :: int) \<Longrightarrow> sorted_wrt (<) (xs @ [y])"
  by (cases xs rule: rev_cases) (auto simp: sorted_wrt_append intro: less_trans)

lemma confirm_chunk_traced:
  assumes a: "trace_ok cs a" "attempt_shape a" "attemptPhase a = CommittingChunk"
    and c: "ConfirmChunk (pendingChunk b) es b = (c, r)"
    and b: "b = a\<lparr>confirmedNext := n, pendingCommit := None\<rparr>"
  shows "(case r of Inl e \<Rightarrow> traced cs a (fail_attempt (Some p) c)
    | Inr u \<Rightarrow> traced cs a (c\<lparr>pendingChunk := NilChunk, attemptPhase := ReadingStream\<rparr>, ReadChunk))"
proof -
  have none: "attemptMessage a = no_message" "\<not> messageAccepted a" "attemptFailure a = None"
    using early_message a by (auto simp: attempt_shape_def)
  from ConfirmChunk_cases [OF c] show ?thesis
  proof
    assume "\<exists>x e. c = b\<lparr>assembly := x\<rparr> \<and> r = Inl e"
    then obtain x e where x: "c = b\<lparr>assembly := x\<rparr>" "r = Inl e" by blast
    have "chunkSequences (fst (fail_attempt (Some p) c)) = chunkSequences a"
      "attemptMessage (fst (fail_attempt (Some p) c)) = no_message" "\<not> messageAccepted (fst (fail_attempt (Some p) c))"
      using fail_same(1) [of c "Some p"] x b none by (simp_all add: same_trace_def)
    with x a fail_same(2) [of "Some p" c] show ?thesis by (auto simp: traced_def trace_ok_def accepted_chunk_def)
  next
    assume "\<exists>x. Push (pendingChunk b) (assembly b) = (x, Inr ()) \<and> r = Inr () \<and>
        (chunkSequences b = [] \<or> last (chunkSequences b) < evSeq (hd es)) \<and>
        c = b\<lparr>assembly := x, chunkSequences := chunkSequences b @ [evSeq (hd es)]\<rparr>"
    then obtain x where x: "Push (pendingChunk b) (assembly b) = (x, Inr ())" "r = Inr ()"
      "chunkSequences b = [] \<or> last (chunkSequences b) < evSeq (hd es)"
      "c = b\<lparr>assembly := x, chunkSequences := chunkSequences b @ [evSeq (hd es)]\<rparr>" by blast
    have "sorted_wrt (<) (chunkSequences a @ [evSeq (hd es)])"
      using x(3) a(1) b by (auto simp: trace_ok_def intro!: sorted_snoc)
    moreover have "push_all (cs @ [pendingChunk a]) NewBlockAssembler = Inr x"
      using x(1) a(1) b none by (simp add: trace_ok_def push_all_snoc)
    ultimately show ?thesis using x a b none by (simp add: traced_def trace_ok_def accepted_chunk_def)
  qed
qed

lemma commit_confirmed_traced:
  assumes a: "trace_ok cs a" "attempt_shape a"
    "attemptPhase a \<in> {CommittingHeader, CommittingContext, CommittingChunk, CommittingMessage}"
  shows "traced cs a (branch_value (commit_confirmed w p a))"
proof (cases "confirmCommit w a")
  case (Inl e)
  with a show ?thesis by (simp add: commit_confirmed_def traced_fail)
next
  case (Inr b)
  note b = confirmCommit_Inr [OF Inr, THEN conjunct1]
  have ab: "same_trace a b" "attemptPhase b = attemptPhase a" using b by (simp_all add: same_trace_def)
  consider "attemptPhase a = CommittingHeader" | "attemptPhase a = CommittingContext"
    | "attemptPhase a = CommittingChunk" | "attemptPhase a = CommittingMessage" using a by blast
  then show ?thesis
  proof cases
    case 1
    have "same_trace a (b\<lparr>headerDone := True\<rparr>)" using b by (simp add: same_trace_def)
    with 1 a ab Inr show ?thesis by (simp add: commit_confirmed_def after_header_traced)
  next
    case 2
    with a ab Inr show ?thesis
      by (auto simp: commit_confirmed_def same_trace_def intro!: traced_same)
  next
    case 3
    obtain c r where c: "ConfirmChunk (pendingChunk b) (resultEvents w) b = (c, r)" by fastforce
    with b have "ConfirmChunk (pendingChunk a) (resultEvents w) b = (c, r)" by simp
    from confirm_chunk_traced [OF a(1,2) 3 c b] 3 Inr ab c show ?thesis
      by (cases r) (auto simp: commit_confirmed_def)
  next
    case 4
    show ?thesis
    proof (cases "ConfirmAssistant (resultEvents w) b")
      case (Inl e)
      with 4 a ab Inr show ?thesis by (simp add: commit_confirmed_def traced_fail)
    next
      case c: (Inr c)
      have msg: "c = b\<lparr>messageAccepted := True\<rparr>" "attemptMessage b \<noteq> no_message"
        using ConfirmAssistant_Inr [OF c] by (auto simp: no_message_def)
      have "trace_ok cs (fst (complete_attempt p c))"
        using a b msg by (auto simp: trace_ok_def complete_attempt_def prepared_ok_def failed_response_def attempt_shape_def)
      moreover have "accepted_chunk a (fst (complete_attempt p c)) = []"
        using b msg by (simp add: accepted_chunk_def complete_attempt_def)
      ultimately show ?thesis using 4 Inr ab c by (simp add: commit_confirmed_def traced_def)
    qed
  qed
qed

lemma complete_same: "problem \<noteq> None \<Longrightarrow> same_trace a (fst (complete_attempt problem a))"
  by (auto simp: complete_attempt_def same_trace_def)

lemma stream_closed_traced:
  assumes a: "trace_ok cs a" "attempt_shape a" "attemptPhase a = ClosingStream"
  shows "traced cs a (branch_value (stream_closed i p a))"
proof -
  define b where "b = a\<lparr>attemptClosed := True\<rparr>"
  have ab: "same_trace a b" by (simp add: b_def same_trace_def)
  have none: "attemptMessage a = no_message" using early_message a by simp
  have failed: "traced cs a (complete_attempt (Some q) b)" for q
    using a ab same_trans [OF ab complete_same [of "Some q" b]]
    by (intro traced_same) (auto simp: complete_attempt_def)
  show ?thesis
  proof (cases "attemptFailure b = None \<and> p = None")
    case False
    then show ?thesis using failed by (auto simp: stream_closed_def Let_def simp flip: b_def)
  next
    case ok: True
    show ?thesis
    proof (cases "AssistantDraft i b")
      case (Inl e)
      with ok failed show ?thesis by (simp add: stream_closed_def Let_def flip: b_def)
    next
      case (Inr r)
      obtain c d where r: "r = (c, d)" by (cases r)
      show ?thesis
      proof (cases d)
        case None
        with AssistantDraft_Inr Inr r have "c = b" "failed_response b" by (auto simp: failed_response_def)
        then have "traced cs a (complete_attempt None c)"
          using a ab ok by (intro traced_same) (auto simp: complete_attempt_def same_trace_def failed_response_def)
        with ok Inr r None show ?thesis by (simp add: stream_closed_def Let_def flip: b_def)
      next
        case (Some draft)
        from AssistantDraft_Inr [OF Inr [unfolded r Some]]
        obtain m blocks g where m: "c = b\<lparr>preparedMessage := Some draft, attemptMessage := m\<rparr>"
          "\<not> failed_response b" "AssembledBlocks (assembly b) = Inr blocks"
          "NewAssistantMessage g blocks (ModelSource (configProvider (optionsConfig (options b)))
             (configModel (optionsConfig (options b))) (ReplayValue (assembly b))) = Inr m"
          by (auto simp: failed_response_def)
        then have "prepared_ok c" by (auto simp: prepared_ok_def failed_response_def)
        then have "traced cs a (issue_commit draft (c\<lparr>attemptPhase := CommittingMessage\<rparr>))"
          using a m none ok
          by (auto simp: traced_def issue_commit_def accepted_chunk_def trace_ok_def b_def prepared_ok_def
              failed_response_def attempt_shape_def)
        with ok Inr r Some show ?thesis by (simp add: stream_closed_def Let_def flip: b_def)
      qed
    qed
  qed
qed

lemma interpret_traced:
  assumes "trace_ok cs a" "attempt_shape a" "pending_result (attemptPhase a) r"
  shows "traced cs a (branch_value (interpret_result i r p a))"
  using assms
  by (cases "(attemptPhase a, r)" rule: pending_result.cases)
    (auto simp: interpret_result_def log_loaded_traced request_checked_traced chunk_read_traced
      stream_opened_traced stream_closed_traced commit_confirmed_traced)

lemma advance_traced:
  assumes a: "trace_ok cs a" "attempt_shape a" and t: "AdvanceAttempt i r p a = Inr t"
  shows "traced cs a t"
  using t
proof (cases rule: AdvanceAttempt_Inr)
  case (1 problem)
  show ?thesis
  proof (cases "attemptPhase a = ClosingStream")
    case True
    define q where "q = join_errors [attemptFailure a, join_errors [p, Some problem]]"
    have q: "q \<noteq> None" using join_some by (auto simp: q_def join_errors_def map_filter_simps split: option.splits)
    then have "same_trace a (fst (complete_attempt q (a\<lparr>attemptFailure := q\<rparr>)))"
      by (auto simp: same_trace_def complete_attempt_def)
    with a q have "traced cs a (complete_attempt q (a\<lparr>attemptFailure := q\<rparr>))"
      by (intro traced_same) (auto simp: complete_attempt_def)
    with 1 True q show ?thesis by (simp add: failed_operation_def Let_def flip: q_def)
  next
    case False
    with 1 a show ?thesis by (simp add: failed_operation_def Let_def traced_fail)
  qed
next
  case 2
  with interpret_traced [OF a 2(1), of i p] show ?thesis by simp
next
  case (3 s)
  with interpret_traced [OF a 3(1), of i p] have s: "traced cs a s" by simp
  obtain b next_op where b: "s = (b, next_op)" by (cases s)
  have step: "same_trace b (fst (check_cancelled (Some x) s)) \<and> attemptFailure (fst (check_cancelled (Some x) s)) \<noteq> None" for x
  proof (cases "next_op = CloseStream")
    case True
    with b join_some(1) [of "attemptFailure b" x] show ?thesis by (auto simp: check_cancelled_def same_trace_def)
  next
    case False
    with b fail_same(1) [of b "Some x"] fail_same(2) [of "Some x" b] show ?thesis by (simp add: check_cancelled_def)
  qed
  show ?thesis
  proof (cases p)
    case None
    with 3 s show ?thesis by (simp add: check_cancelled_def split: prod.split)
  next
    case (Some x)
    have "accepted_chunk a (fst t) = accepted_chunk a b"
      using step [of x] 3(3) Some by (simp add: accepted_chunk_def same_trace_def)
    moreover have "trace_ok (cs @ accepted_chunk a b) (fst t)"
    proof (rule trace_same)
      show "trace_ok (cs @ accepted_chunk a b) b" using s b by (simp add: traced_def)
      show "same_trace b (fst t)" using step [of x] 3(3) Some by simp
    qed (use step [of x] 3(3) Some in simp)
    ultimately show ?thesis by (simp add: traced_def)
  qed
qed

section \<open>Runs\<close>

lemma new_attempt_trace: "StartAttempt (new_attempt i q) = Inr s \<Longrightarrow> trace_ok [] (fst s)"
  by (auto simp: StartAttempt_def new_attempt_def trace_ok_def)

lemma retry_close_trace:
  assumes a: "trace_ok cs a" "attempt_shape a" and t: "RetryAttemptClose a = Inr t"
  shows "trace_ok cs (fst t)"
proof -
  have "same_trace a (fst t)" using t
    by (auto simp: RetryAttemptClose_def bindE_Inr_iff same_trace_def complete_attempt_def split: if_splits)
  with a(1) show ?thesis
  proof (rule trace_same)
    assume "attemptPhase (fst t) = CompletedAttempt" "attemptFailure (fst t) = None"
    with a t show "messageAccepted (fst t) \<or> failed_response (fst t)"
      by (auto simp: RetryAttemptClose_def bindE_Inr_iff failIf_Inr trace_ok_def complete_attempt_def failed_response_def
          split: if_splits)
  qed
qed

lemma run_trace: "attempt_run s cs \<Longrightarrow> trace_ok cs (fst s)"
proof (induction rule: attempt_run.induct)
  case (started i a s)
  then show ?case by (auto dest!: NewAttempt_Inr intro: new_attempt_trace)
next
  case (advanced s cs i r c t)
  then show ?case using run_sound [of s cs] advance_traced [of cs "fst s" i r c t]
    by (simp add: sound_step_def traced_def)
next
  case (close_retried s cs t)
  then show ?case using run_sound [of s cs] retry_close_trace by (auto simp: sound_step_def)
qed

text \<open>What an attempt that ends without an error hands to the request.\<close>

lemma run_outcome:
  assumes run: "attempt_run (a, AttemptCompleted out) cs" and ok: "outcomeError out = None"
  shows "outcomeClosed out \<and> outcomeFinish out = Some (final_reason cs) \<and>
    (if ReasonKind (final_reason cs) \<in> {''error'', ''aborted''} then outcomeMessage out = no_message
     else \<exists>blocks. response_blocks cs = Inr blocks \<and> content (outcomeMessage out) = blocks \<and>
       roleValue (outcomeMessage out) = RoleAssistant \<and> idValue (outcomeMessage out) \<noteq> [])"
proof -
  have sound: "attempt_shape a" "awaited (a, AttemptCompleted out)" using run_sound [OF run] by (auto simp: sound_step_def)
  have trace: "trace_ok cs a" using run_trace [OF run] by simp
  from sound ok have end_state: "attemptPhase a = CompletedAttempt" "attemptFailure a = None" "attemptClosed a"
    by (auto simp: awaited_def attempt_shape_def)
  with trace have "push_all cs NewBlockAssembler = Inr (assembly a)" by (simp add: trace_ok_def)
  then have folded: "assembled_from cs (assembly a)" by (rule push_all_from)
  have reason: "FinishValue (assembly a) = final_reason cs" using folded by (rule finish_from)
  show ?thesis
  proof (cases "failed_response a")
    case True
    with trace have "\<not> messageAccepted a" by (auto simp: trace_ok_def prepared_ok_def)
    with True sound ok end_state reason show ?thesis
      by (auto simp: awaited_def failed_response_def AcceptedMessage_def)
  next
    case False
    with trace end_state have "messageAccepted a" "prepared_ok a" by (auto simp: trace_ok_def)
    moreover obtain g blocks where "AssembledBlocks (assembly a) = Inr blocks"
      "NewAssistantMessage g blocks (ModelSource (configProvider (optionsConfig (options a)))
         (configModel (optionsConfig (options a))) (ReplayValue (assembly a))) = Inr (attemptMessage a)"
      using calculation(2) by (auto simp: prepared_ok_def)
    ultimately show ?thesis
      using False sound ok end_state reason assembled_blocks_from [OF folded]
      by (auto simp: awaited_def failed_response_def AcceptedMessage_def NewAssistantMessage_def
          dest!: restoreMessageValue_Inr)
  qed
qed

end
