(* ===== verification/ModelRequestLaws.thy ===== *)
theory ModelRequestLaws
  imports ModelRequest ModelAttemptTrace
begin

text \<open>
  Invariants of a request: another attempt starts only when the stream of the one before it is
  closed, a request ends without an error only with a closed stream and a usable finish, and the
  number of results it consumes is bounded by the chunks read and the retries granted.
\<close>

section \<open>Shape\<close>

definition active_open :: "model_request \<Rightarrow> bool" where
  "active_open q =
     (\<exists>a. activeAttempt q = Some a \<and> attempt_shape a \<and> attemptPhase a \<noteq> CompletedAttempt)"

definition active_done :: "bool \<Rightarrow> model_request \<Rightarrow> bool" where
  "active_done done_closed q =
     (\<exists>a. activeAttempt q = Some a \<and> attempt_shape a \<and> attemptPhase a = CompletedAttempt \<and> attemptClosed a = done_closed)"

fun request_shape :: "model_request \<Rightarrow> bool" where
  "request_shape q =
     (case requestPhase q of
        RequestUnstarted \<Rightarrow> False
      | RunningAttempt \<Rightarrow> active_open q
      | RetryingClose \<Rightarrow> active_open q \<and> requestFailure q \<noteq> None
      | ResolvingRecovery \<Rightarrow> active_done True q \<and> (\<exists>f. requestFailure q = Some (ProviderFailure f)) \<and>
          outcomeClosed (requestOutcome q)
      | RequestComplete \<Rightarrow>
          requestFailure q = outcomeError (requestOutcome q) \<and>
          (outcomeClosed (requestOutcome q) \<or> active_done False q \<and> requestFailure q \<noteq> None))"

declare request_shape.simps [simp del]

text \<open>The operation of a step belongs to its phase; a finished request without an error is usable.\<close>

definition request_awaited :: "model_request \<times> request_operation \<Rightarrow> bool" where
  "request_awaited s =
     (case snd s of
        RunAttempt op1 \<Rightarrow> requestPhase (fst s) \<in> {RunningAttempt, RetryingClose}
      | ResolveRecovery f \<Rightarrow> requestPhase (fst s) = ResolvingRecovery \<and> requestFailure (fst s) = Some (ProviderFailure (failedFacts f))
      | RequestFinished out \<Rightarrow>
          requestPhase (fst s) = RequestComplete \<and> out = requestOutcome (fst s) \<and>
          (outcomeError out = None \<longrightarrow> outcomeClosed out \<and> \<not> failed_finish (outcomeFinish out)))"

definition request_sound :: "model_request \<times> request_operation \<Rightarrow> bool" where
  "request_sound s = (request_shape (fst s) \<and> request_awaited s)"

lemma join_none_iff: "join_errors [x, y] = None \<longleftrightarrow> x = None \<and> y = None"
  by (auto simp: join_errors_def map_filter_simps split: option.split)

lemma finish_sound:
  assumes "outcomeClosed (requestOutcome q) \<or> active_done False q \<and> failure \<noteq> None"
    and "requestCancellation q = None \<and> failure = None \<longrightarrow> \<not> failed_finish (outcomeFinish (requestOutcome q))"
  shows "request_sound (finish_request failure q)"
  using assms
  by (auto simp: finish_request_def Let_def request_sound_def request_shape.simps request_awaited_def
      active_done_def join_none_iff)

text \<open>The outcome of an attempt that has just completed, as the request sees it.\<close>

lemma completed_sound:
  assumes a: "activeAttempt q = Some a" "sound_step (a, AttemptCompleted out)"
    and phase: "requestPhase q = RunningAttempt \<or> requestPhase q = RetryingClose \<and> requestFailure q \<noteq> None"
  shows "request_sound (completed_attempt out q)"
proof -
  define q1 where "q1 = q\<lparr>requestHeader := requestHeader q \<or> outcomeHeader out, requestOutcome := out\<rparr>"
  from a have a1: "attempt_shape a" "attemptPhase a = CompletedAttempt" "outcomeClosed out = attemptClosed a"
    "outcomeError out = attemptFailure a" by (auto simp: sound_step_def awaited_def)
  have open_stream: "outcomeClosed out \<or> active_done False q1"
    using a a1 by (auto simp: q1_def active_done_def)
  have failed: "\<not> outcomeClosed out \<Longrightarrow> outcomeError out \<noteq> None" using a1 by (auto simp: attempt_shape_def)
  consider "requestPhase q1 = RetryingClose" "requestFailure q1 \<noteq> None"
    | "requestPhase q1 = RunningAttempt" "outcomeError out \<noteq> None \<or> \<not> outcomeClosed out \<or> requestCancellation q1 \<noteq> None"
    | "requestPhase q1 = RunningAttempt" "outcomeError out = None" "outcomeClosed out" "requestCancellation q1 = None"
    using phase by (auto simp: q1_def)
  then show ?thesis
  proof cases
    case 1
    then have "request_sound (finish_request (join_errors [requestFailure q1, outcomeError out]) q1)"
      using open_stream by (intro finish_sound) (auto simp: join_none_iff q1_def)
    with 1 show ?thesis by (simp add: completed_attempt_def Let_def flip: q1_def)
  next
    case 2
    then have "request_sound (finish_request (outcomeError out) q1)"
      using open_stream failed by (intro finish_sound) (auto simp: q1_def)
    with 2 failed show ?thesis by (auto simp: completed_attempt_def Let_def simp flip: q1_def)
  next
    case 3
    show ?thesis
    proof (cases "failed_finish (outcomeFinish out)")
      case False
      with 3 have "request_sound (finish_request None q1)" by (intro finish_sound) (auto simp: q1_def)
      with 3 False show ?thesis by (simp add: completed_attempt_def Let_def flip: q1_def)
    next
      case True
      show ?thesis
      proof (cases "provider_failure (the (outcomeFinish out))")
        case (Inl e)
        with 3 have "request_sound (finish_request (Some (Failure e)) q1)" by (intro finish_sound) (auto simp: q1_def)
        with 3 True Inl show ?thesis by (simp add: completed_attempt_def Let_def flip: q1_def)
      next
        case (Inr reported)
        with 3 True a a1 show ?thesis
          by (simp add: completed_attempt_def Let_def request_sound_def request_shape.simps request_awaited_def
              active_done_def flip: q1_def) (simp add: q1_def)
      qed
    qed
  qed
qed

lemma accept_sound:
  assumes a: "activeAttempt q = Some a" "sound_step (a, p)"
    and phase: "requestPhase q = RunningAttempt \<or> requestPhase q = RetryingClose \<and> requestFailure q \<noteq> None"
  shows "request_sound (acceptAttempt p q)"
proof (cases "completes (a, p)")
  case True
  then obtain out where "p = AttemptCompleted out" by (auto simp: completes_def)
  with a completed_sound [OF a(1) _ phase] show ?thesis by simp
next
  case False
  then have "acceptAttempt p q = (q, RunAttempt p)" by (cases p) (auto simp: completes_def)
  moreover have "attempt_shape a" "attemptPhase a \<noteq> CompletedAttempt"
    using a False by (cases p; auto simp: sound_step_def awaited_def completes_def)+
  ultimately show ?thesis using a phase
    by (auto simp: request_sound_def request_shape.simps request_awaited_def active_open_def)
qed

lemma start_attempt_sound:
  assumes "start_attempt q = Inr t" "outcomeClosed (requestOutcome q)"
  shows "request_sound t"
proof (cases "NewAttempt \<lparr>attemptedPosition = requestPosition (requestInput q),
             attemptedSession = requestSession (requestInput q), attemptedPrompt = requestPrompt (requestInput q),
             attemptedFirst = requestFirst (requestInput q) \<and> \<not> requestHeader q\<rparr>")
  case (Inl e)
  with assms have "t = finish_request (Some (Failure e)) q" by (simp add: start_attempt_def)
  with assms show ?thesis by (auto intro: finish_sound)
next
  case (Inr a)
  from NewAttempt_Inr [OF Inr] obtain x where x: "a = new_attempt \<lparr>attemptedPosition = requestPosition (requestInput q),
             attemptedSession = requestSession (requestInput q), attemptedPrompt = requestPrompt (requestInput q),
             attemptedFirst = requestFirst (requestInput q) \<and> \<not> requestHeader q\<rparr> x" by blast
  from assms Inr obtain b next_op where b: "StartAttempt a = Inr (b, next_op)"
    "t = (q\<lparr>activeAttempt := Some b, requestPolicy := None, requestOutcome := no_outcome,
            requestAttempts := Suc (requestAttempts q), requestPhase := RunningAttempt\<rparr>, RunAttempt next_op)"
    by (auto simp: start_attempt_def bindE_Inr_iff)
  have "sound_step (b, next_op)" "attemptPhase b = ReadingLog"
    using b start_sound x by (auto simp: StartAttempt_def bindE_Inr_iff)
  with b show ?thesis
    by (auto simp: request_sound_def request_shape.simps request_awaited_def active_open_def sound_step_def)
qed

lemma start_request_sound: "StartRequest i q = Inr t \<Longrightarrow> request_sound t"
  unfolding StartRequest_def by (auto simp: bindE_Inr_iff intro: start_attempt_sound)

lemma capture_fields [simp]:
  "activeAttempt (capture_started r q) = activeAttempt q" "requestPhase (capture_started r q) = requestPhase q"
  "requestFailure (capture_started r q) = requestFailure q" "requestOutcome (capture_started r q) = requestOutcome q"
  "requestCancellation (capture_started r q) = requestCancellation q"
  "requestAttempts (capture_started r q) = requestAttempts q"
  by (cases r; simp)+

lemma AdvanceRequest_Inr:
  assumes "AdvanceRequest i r c q0 = Inr t"
  obtains q where "q = q0\<lparr>requestCancellation := (if requestCancellation q0 = None then c else requestCancellation q0)\<rparr>"
    "check_completion r q0 = Inr ()"
    "if requestPhase q = RunningAttempt \<or> requestPhase q = RetryingClose then advance_active i (attempt_response r) q = Inr t
     else if requestCancellation q \<noteq> None then t = finish_request (requestCancellation q) q
     else case r of
       RequestFailed problem \<Rightarrow> t = finish_request (join_errors [requestFailure q, problem]) q
     | RecoveryResolved retry \<Rightarrow>
         if \<not> retry then t = finish_request (requestFailure q) q else start_attempt (q\<lparr>requestFailure := None\<rparr>) = Inr t
     | _ \<Rightarrow> False"
  using assms unfolding AdvanceRequest_def
  by (auto simp: bindE_Inr_iff Let_def split: if_splits request_result.splits)

lemma advance_active_Inr:
  assumes "advance_active i r q = Inr t"
  obtains a b p where "activeAttempt q = Some a" "AdvanceAttempt i r (requestCancellation q) a = Inr (b, p)"
    "t = acceptAttempt p ((capture_started r q)\<lparr>activeAttempt := Some b\<rparr>)"
  using assms by (auto simp: advance_active_def Let_def bindE_Inr_iff split: option.splits)

lemma shape_cancelled: "request_shape (q\<lparr>requestCancellation := x\<rparr>) = request_shape q"
  by (cases "requestPhase q") (simp_all add: request_shape.simps active_open_def active_done_def)

lemma advance_request_sound:
  assumes shape: "request_shape q0" and t: "AdvanceRequest i r c q0 = Inr t"
  shows "request_sound t"
  using t
proof (rule AdvanceRequest_Inr)
  fix q
  assume q: "q = q0\<lparr>requestCancellation := (if requestCancellation q0 = None then c else requestCancellation q0)\<rparr>"
    and check: "check_completion r q0 = Inr ()"
    and next_step: "if requestPhase q = RunningAttempt \<or> requestPhase q = RetryingClose then advance_active i (attempt_response r) q = Inr t
     else if requestCancellation q \<noteq> None then t = finish_request (requestCancellation q) q
     else case r of
       RequestFailed problem \<Rightarrow> t = finish_request (join_errors [requestFailure q, problem]) q
     | RecoveryResolved retry \<Rightarrow>
         if \<not> retry then t = finish_request (requestFailure q) q else start_attempt (q\<lparr>requestFailure := None\<rparr>) = Inr t
     | _ \<Rightarrow> False"
  have qs: "request_shape q" "requestPhase q = requestPhase q0" "requestFailure q = requestFailure q0"
    "requestOutcome q = requestOutcome q0"
    using shape q by (simp_all add: shape_cancelled)
  show ?thesis
  proof (cases "requestPhase q = RunningAttempt \<or> requestPhase q = RetryingClose")
    case True
    with next_step have "advance_active i (attempt_response r) q = Inr t" by simp
    then obtain a b p where a: "activeAttempt q = Some a"
      "AdvanceAttempt i (attempt_response r) (requestCancellation q) a = Inr (b, p)"
      "t = acceptAttempt p ((capture_started (attempt_response r) q)\<lparr>activeAttempt := Some b\<rparr>)"
      by (rule advance_active_Inr)
    have "attempt_shape a" using qs(1) True a(1)
      by (auto simp: request_shape.simps active_open_def)
    then have "sound_step (b, p)" using a(2) advance_sound by blast
    then show ?thesis unfolding a(3)
      using True qs(1) by (intro accept_sound) (auto simp: request_shape.simps)
  next
    case False
    then have rec: "requestPhase q = ResolvingRecovery" "outcomeClosed (requestOutcome q)"
      "\<exists>f. requestFailure q = Some (ProviderFailure f)"
      using qs check by (auto simp: request_shape.simps check_completion_def bindE_Inr_iff failIf_Inr split: request_phase.splits)
    show ?thesis
    proof (cases "requestCancellation q = None")
      case True
      with False next_step rec show ?thesis
        by (cases r) (auto simp: join_none_iff split: if_splits intro!: finish_sound intro: start_attempt_sound)
    next
      case cancelled: False
      with False next_step rec show ?thesis by (auto intro!: finish_sound)
    qed
  qed
qed

lemma retry_request_sound:
  assumes s: "request_sound s" and t: "RetryRequestClose (fst s) = Inr t"
  shows "request_sound t"
proof -
  obtain q p where q: "s = (q, p)" by (cases s)
  with t have phase: "requestPhase q = RequestComplete" by (auto simp: RetryRequestClose_def bindE_Inr_iff failIf_Inr)
  show ?thesis
  proof (cases "outcomeClosed (requestOutcome q)")
    case True
    then have "t = (q, RequestFinished (requestOutcome q))"
      using t q phase by (simp add: RetryRequestClose_def)
    moreover have "p = RequestFinished (requestOutcome q)"
      using s q phase by (cases p) (auto simp: request_sound_def request_awaited_def)
    ultimately show ?thesis using s q by simp
  next
    case False
    from s q have "request_shape q" by (simp add: request_sound_def)
    then have "requestFailure q = outcomeError (requestOutcome q) \<and>
        (outcomeClosed (requestOutcome q) \<or> active_done False q \<and> requestFailure q \<noteq> None)"
      unfolding request_shape.simps phase request_phase.case .
    with False have kept: "active_done False q" "requestFailure q \<noteq> None" by blast+
    then obtain a where a: "activeAttempt q = Some a" "attempt_shape a" by (auto simp: active_done_def)
    with t q phase False a(1) obtain b p' where b: "RetryAttemptClose a = Inr (b, p')"
      "t = acceptAttempt p' (q\<lparr>activeAttempt := Some b, requestPhase := RetryingClose\<rparr>)"
      by (auto simp: RetryRequestClose_def bindE_Inr_iff)
    have "sound_step (b, p')" using retry_close_sound a b by blast
    then show ?thesis unfolding b(2) using a kept by (intro accept_sound) auto
  qed
qed

section \<open>Runs\<close>

inductive request_run :: "model_request \<times> request_operation \<Rightarrow> bool" where
  started: "StartRequest i NewRequest = Inr s \<Longrightarrow> request_run s"
| advanced: "request_run s \<Longrightarrow> AdvanceRequest i r c (fst s) = Inr t \<Longrightarrow> request_run t"
| close_retried: "request_run s \<Longrightarrow> RetryRequestClose (fst s) = Inr t \<Longrightarrow> request_run t"

lemma request_run_sound: "request_run s \<Longrightarrow> request_sound s"
proof (induction rule: request_run.induct)
  case (started i s)
  then show ?case by (rule start_request_sound)
next
  case (advanced s i r c t)
  then show ?case by (auto simp: request_sound_def [of s] intro: advance_request_sound)
next
  case (close_retried s t)
  then show ?case by (auto intro: retry_request_sound)
qed

section \<open>Bounded requests\<close>

definition request_rank :: "model_request \<Rightarrow> nat" where
  "request_rank q =
     (case requestPhase q of
        ResolvingRecovery \<Rightarrow> 1
      | RequestComplete \<Rightarrow> 0
      | RequestUnstarted \<Rightarrow> 0
      | _ \<Rightarrow> (case activeAttempt q of None \<Rightarrow> 0 | Some a \<Rightarrow> Suc (attempt_rank (attemptPhase a))))"

fun grants_retry :: "request_result \<Rightarrow> bool" where
  "grants_retry (RecoveryResolved retry) = retry"
| "grants_retry r = False"

definition request_credit :: "request_result \<Rightarrow> nat" where
  "request_credit r =
     (if reads_chunk (attempt_response r) then 2 else 0) + (if grants_retry r then 9 else 0)"

lemma finish_rank [simp]:
  "request_rank (fst (finish_request f q)) = 0"
  "requestAttempts (fst (finish_request f q)) = requestAttempts q"
  by (simp_all add: finish_request_def request_rank_def Let_def)

lemma completed_rank:
  "request_rank (fst (completed_attempt out q)) \<le> 1 \<and>
   requestAttempts (fst (completed_attempt out q)) = requestAttempts q"
proof -
  have "request_rank (q\<lparr>requestHeader := h, requestOutcome := out, requestFailure := f,
      requestPhase := ResolvingRecovery\<rparr>) = 1" for h f by (simp add: request_rank_def)
  then show ?thesis by (auto simp: completed_attempt_def Let_def split: sum.split)
qed

lemma accept_rank:
  assumes "activeAttempt q = Some a" "requestPhase q = RunningAttempt \<or> requestPhase q = RetryingClose"
  shows "request_rank (fst (acceptAttempt p q)) \<le> Suc (attempt_rank (attemptPhase a)) \<and>
    requestAttempts (fst (acceptAttempt p q)) = requestAttempts q"
proof (cases p)
  case (AttemptCompleted out)
  with completed_rank [of out q] show ?thesis by simp
qed (use assms in \<open>auto simp: request_rank_def\<close>)

lemma start_attempt_rank:
  "start_attempt q = Inr t \<Longrightarrow> request_rank (fst t) \<le> 9 \<and> requestAttempts (fst t) \<le> Suc (requestAttempts q)"
  unfolding start_attempt_def
  by (split sum.split_asm) (auto simp: bindE_Inr_iff StartAttempt_def failIf_Inr,
      simp_all add: request_rank_def)

lemma advance_request_rank:
  assumes shape: "request_shape q0" and t: "AdvanceRequest i r c q0 = Inr t"
  shows "request_rank (fst t) < request_rank q0 + request_credit r \<and>
    requestAttempts (fst t) \<le> requestAttempts q0 + (if grants_retry r then 1 else 0)"
  using t
proof (rule AdvanceRequest_Inr)
  fix q
  assume q: "q = q0\<lparr>requestCancellation := (if requestCancellation q0 = None then c else requestCancellation q0)\<rparr>"
    and check: "check_completion r q0 = Inr ()"
    and next_step: "if requestPhase q = RunningAttempt \<or> requestPhase q = RetryingClose then advance_active i (attempt_response r) q = Inr t
     else if requestCancellation q \<noteq> None then t = finish_request (requestCancellation q) q
     else case r of
       RequestFailed problem \<Rightarrow> t = finish_request (join_errors [requestFailure q, problem]) q
     | RecoveryResolved retry \<Rightarrow>
         if \<not> retry then t = finish_request (requestFailure q) q else start_attempt (q\<lparr>requestFailure := None\<rparr>) = Inr t
     | _ \<Rightarrow> False"
  have same: "request_rank q = request_rank q0" "requestAttempts q = requestAttempts q0" "requestPhase q = requestPhase q0"
    using q by (cases "requestPhase q0"; simp add: request_rank_def)+
  have qshape: "request_shape q" using shape q by (simp add: shape_cancelled)
  show ?thesis
  proof (cases "requestPhase q = RunningAttempt \<or> requestPhase q = RetryingClose")
    case True
    with next_step have "advance_active i (attempt_response r) q = Inr t" by simp
    then obtain a b p where a: "activeAttempt q = Some a"
      "AdvanceAttempt i (attempt_response r) (requestCancellation q) a = Inr (b, p)"
      "t = acceptAttempt p ((capture_started (attempt_response r) q)\<lparr>activeAttempt := Some b\<rparr>)"
      by (rule advance_active_Inr)
    have "attempt_shape a" using qshape True a(1) by (auto simp: request_shape.simps active_open_def)
    from step_rank [OF this a(2)]
    have "attempt_rank (attemptPhase b) < attempt_rank (attemptPhase a) + (if reads_chunk (attempt_response r) then 2 else 0)"
      by simp
    moreover have "request_rank q = Suc (attempt_rank (attemptPhase a))"
      using True a(1) by (auto simp: request_rank_def)
    moreover have "request_rank (fst t) \<le> Suc (attempt_rank (attemptPhase b)) \<and> requestAttempts (fst t) = requestAttempts q"
      using accept_rank [of "(capture_started (attempt_response r) q)\<lparr>activeAttempt := Some b\<rparr>" b p] a True by simp
    ultimately show ?thesis using same by (simp add: request_credit_def)
  next
    case False
    then have rec: "requestPhase q = ResolvingRecovery"
      using same check by (cases "requestPhase q") (auto simp: check_completion_def bindE_Inr_iff failIf_Inr)
    then have one: "request_rank q = 1" by (simp add: request_rank_def)
    show ?thesis
    proof (cases "requestCancellation q = None \<and> grants_retry r")
      case True
      with False next_step have "start_attempt (q\<lparr>requestFailure := None\<rparr>) = Inr t" by (cases r) auto
      from start_attempt_rank [OF this] True one same show ?thesis by (simp add: request_credit_def)
    next
      case other: False
      with False next_step have "\<exists>f. t = finish_request f q" by (cases r) (auto split: if_splits)
      with one same show ?thesis by auto
    qed
  qed
qed

fun advance_requests ::
  "(string res \<times> request_result \<times> model_error option) list \<Rightarrow> model_request \<times> request_operation \<Rightarrow>
   (model_request \<times> request_operation) res" where
  "advance_requests [] s = Inr s"
| "advance_requests ((i, r, c) # rs) s = bindE (AdvanceRequest i r c (fst s)) (advance_requests rs)"

definition chunk_results :: "(string res \<times> request_result \<times> model_error option) list \<Rightarrow> nat" where
  "chunk_results rs = length (filter (\<lambda>(i, r, c). reads_chunk (attempt_response r)) rs)"

definition granted_retries :: "(string res \<times> request_result \<times> model_error option) list \<Rightarrow> nat" where
  "granted_retries rs = length (filter (\<lambda>(i, r, c). grants_retry r) rs)"

lemma advance_requests_bound:
  "request_sound s \<Longrightarrow> advance_requests rs s = Inr t \<Longrightarrow>
   request_sound t \<and>
   length rs + request_rank (fst t) \<le> request_rank (fst s) + 2 * chunk_results rs + 9 * granted_retries rs \<and>
   requestAttempts (fst t) \<le> requestAttempts (fst s) + granted_retries rs"
proof (induction rs arbitrary: s)
  case Nil
  then show ?case by (simp add: chunk_results_def granted_retries_def)
next
  case (Cons x rs)
  obtain i r c where x: "x = (i, r, c)" by (cases x)
  with Cons.prems obtain u where u: "AdvanceRequest i r c (fst s) = Inr u" "advance_requests rs u = Inr t"
    by (auto simp: bindE_Inr_iff)
  have shape: "request_shape (fst s)" using Cons.prems by (simp add: request_sound_def)
  have "request_sound u" by (rule advance_request_sound [OF shape u(1)])
  from Cons.IH [OF this u(2)] advance_request_rank [OF shape u(1)] x show ?case
    by (auto simp: chunk_results_def granted_retries_def request_credit_def split: if_splits)
qed

lemma start_request_rank:
  "StartRequest i NewRequest = Inr s \<Longrightarrow> request_rank (fst s) \<le> 9 \<and> requestAttempts (fst s) \<le> 1"
  unfolding StartRequest_def
  by (auto simp: bindE_Inr_iff NewRequest_def dest!: start_attempt_rank)

end
