(* ===== verification/GoFormat.thy ===== *)
theory GoFormat
  imports GoText
begin

text \<open>
  The text of an error, \<open>Error()\<close>, and what it uses of packages fmt and strconv: the verbs
  \<open>%d\<close>, \<open>%s\<close>, \<open>%v\<close>, \<open>%w\<close> and \<open>%q\<close>.  A tool shows the text of its failure to the model, so there
  it is a value and not only a diagnosis.
\<close>

section \<open>Quoting (strconv.Quote)\<close>

text \<open>
  ASCII is quoted as the library does.  Other bytes are kept, which is what it does with the
  printable characters of UTF-8.
\<close>

definition hex_digit :: "nat \<Rightarrow> char" where
  "hex_digit n = (if n < 10 then char_of (48 + n) else char_of (87 + n))"

definition quote_byte :: "char \<Rightarrow> string" where
  "quote_byte c =
     (let n = of_char c :: nat in
      if n = 34 \<or> n = 92 then [CHR 0x5C, c]
      else if n = 7 then [CHR 0x5C, CHR ''a'']
      else if n = 8 then [CHR 0x5C, CHR ''b'']
      else if n = 9 then [CHR 0x5C, CHR ''t'']
      else if n = 10 then [CHR 0x5C, CHR ''n'']
      else if n = 11 then [CHR 0x5C, CHR ''v'']
      else if n = 12 then [CHR 0x5C, CHR ''f'']
      else if n = 13 then [CHR 0x5C, CHR ''r'']
      else if n < 32 \<or> n = 127 then [CHR 0x5C, CHR ''x'', hex_digit (n div 16), hex_digit (n mod 16)]
      else [c])"

definition Quote :: "string \<Rightarrow> string" where
  "Quote s = [CHR 0x22] @ concat (map quote_byte s) @ [CHR 0x22]"

section \<open>The text of an error\<close>

text \<open>
  \<open>errors.New\<close> and \<open>fmt.Errorf\<close>; the typed errors give the text of their \<open>Error\<close> methods in
  \<open>src/agent/cancellation.go\<close> \<open>src/compaction/types.go\<close>
  and \<open>src/compaction/basic/region.go\<close>.
\<close>

fun cancel_kind :: "cancel_intent \<Rightarrow> string" where
  "cancel_kind UserCancel = ''user''"
| "cancel_kind ParentCancel = ''parent''"
| "cancel_kind DisposedCancel = ''disposed''"
| "cancel_kind (HookCancel s) = ''hook''"
| "cancel_kind (OtherCancel s) = s"

fun render :: "goerr \<Rightarrow> string"
  and render_format :: "string \<Rightarrow> earg list \<Rightarrow> string"
  and render_lines :: "goerr list \<Rightarrow> string" where
  "render (Errorf f as) = render_format f as"
| "render (Canceled i) = ''agent canceled: '' @ cancel_kind i"
| "render (ManualError code m cause) =
     (if m \<noteq> [] then m else ''compaction: manual failure '' @ Quote code)"
| "render (SurfaceChanged m cause) = m"
| "render (Joined es) = render_lines es"
| "render (Panicked m) = m"
| "render_format [] as = []"
| "render_format (c # s) [] = c # s"
| "render_format [c] (a # as) = [c]"
| "render_format (c # v # s) (a # as) =
     (if c \<noteq> CHR ''%'' then c # render_format (v # s) (a # as)
      else
        (case a of
           AInt n \<Rightarrow> decimal n
         | AStr t \<Rightarrow> (if v = CHR ''q'' then Quote t else t)
         | AErr e \<Rightarrow> render e) @ render_format s as)"
| "render_lines [] = []"
| "render_lines [e] = render e"
| "render_lines (e # d # es) = render e @ [CHR 0x0A] @ render_lines (d # es)"

lemma render_plain [simp]: "render (err s) = s"
  by (cases s) auto

lemma Quote_not_empty [simp]: "Quote s \<noteq> []"
  by (simp add: Quote_def)

end
