(* ===== verification/AgentRequests.thy ===== *)
theory AgentRequests
  imports AgentRuns ModelRequestLaws GoFormat
begin

text \<open>
  The model request an agent owns (\<open>src/agentloop/agent_request.go\<close>): it is started from the
  current step, every completion is handed to it together with the cancellation of the agent, and its
  outcome is what the continuation of the step reads (\<open>src/agentloop/agent_model_result.go\<close>).

  Here the prompt of a step is an assembled prompt and the request is the modelled one, so the copy of
  a prompt, its context sections and the outcome of a request are no parameters any more.  The identity
  of a message that is assembled is an argument.
\<close>

type_synonym 'w loop_agent = "(prompt_assembly, model_request, 'w) agent"

section \<open>Errors of a request\<close>

text \<open>
  \<open>errors.As\<close> with a cancellation as its target: the errors that \<open>%w\<close> wraps, in their order, and the
  causes of the typed errors.
\<close>

fun as_cancellation :: "goerr \<Rightarrow> cancel_intent option"
  and wrapped_cancellation :: "string \<Rightarrow> earg list \<Rightarrow> cancel_intent option"
  and first_cancellation :: "goerr list \<Rightarrow> cancel_intent option" where
  "as_cancellation (Errorf f args) = wrapped_cancellation f args"
| "as_cancellation (Canceled c) = Some c"
| "as_cancellation (ManualError code m cause) = (case cause of None \<Rightarrow> None | Some e \<Rightarrow> as_cancellation e)"
| "as_cancellation (SurfaceChanged m cause) = (case cause of None \<Rightarrow> None | Some e \<Rightarrow> as_cancellation e)"
| "as_cancellation (Joined es) = first_cancellation es"
| "as_cancellation (Panicked m) = None"
| "wrapped_cancellation [] args = None"
| "wrapped_cancellation (c # s) [] = None"
| "wrapped_cancellation [c] (x # args) = None"
| "wrapped_cancellation (c # v # s) (x # args) =
     (if c \<noteq> CHR ''%'' then wrapped_cancellation (v # s) (x # args)
      else case (if v = CHR ''w'' then (case x of AErr e \<Rightarrow> as_cancellation e | _ \<Rightarrow> None) else None) of
        Some r \<Rightarrow> Some r
      | None \<Rightarrow> wrapped_cancellation s args)"
| "first_cancellation [] = None"
| "first_cancellation (e # es) =
     (case as_cancellation e of Some r \<Rightarrow> Some r | None \<Rightarrow> first_cancellation es)"

text \<open>The final error of a request as the end of the step and of the turn read it.\<close>

fun error_problem :: "model_error \<Rightarrow> problem"
  and joined_problem :: "model_error list \<Rightarrow> problem option" where
  "error_problem (Failure e) = Problem (map_option Some (as_cancellation e)) None (render e)"
| "error_problem (ProviderFailure f) = Problem None (Some f) (failMessage f)"
| "error_problem (JoinedFailures es) =
     (case joined_problem es of None \<Rightarrow> Problem None None [] | Some p \<Rightarrow> p)"
| "joined_problem [] = None"
| "joined_problem (e # es) = join_problems (Some (error_problem e)) (joined_problem es)"

definition completed_outcome :: "model_outcome \<Rightarrow> completed" where
  "completed_outcome result =
     \<lparr>completedMessage = outcomeMessage result, completedFinish = map_option ReasonKind (outcomeFinish result),
      completedFailure = map_option error_problem (outcomeError result), headerCommitted = outcomeHeader result,
      streamClosed = outcomeClosed result\<rparr>"

definition agent_outcome :: "model_request \<Rightarrow> completed res" where
  "agent_outcome q = bindE (Outcome q) (\<lambda>result. Inr (completed_outcome result))"

section \<open>The operations\<close>

definition AgentStartRequest :: "'w loop_agent \<Rightarrow> ('w loop_agent \<times> request_operation) res" where
  "AgentStartRequest a =
     bindE (Cancellation a) (\<lambda>_.
     bindE (failIf (\<not> ready (lifetime a) \<or> pendingInbox a = None) ErrUninitialized) (\<lambda>_.
     case currentStep a of
       None \<Rightarrow> Inl (err ''agentloop: model request requires a current requesting Step'')
     | Some s \<Rightarrow>
         bindE (failIf (stepState s \<noteq> StepRequesting)
                  (err ''agentloop: model request requires a current requesting Step'')) (\<lambda>_.
         bindE (failIf (modelRequest a \<noteq> None)
                  (err ''agentloop: current model request has not been consumed'')) (\<lambda>_.
         bindE (InputValue clone_assembly s) (\<lambda>captured.
         bindE (StartRequest
                  \<lparr>requestSession = agentID a, requestPosition = stepPosition s,
                   requestPrompt = inputPrompt captured, requestFirst = (\<not> headerLogged a)\<rparr> NewRequest) (\<lambda>(q, first_op).
         Inr (a\<lparr>modelRequest := Some q\<rparr>, first_op)))))))"

text \<open>The cancellation of the agent as the request takes it.\<close>

definition accepted_cancellation :: "'w loop_agent \<Rightarrow> model_error option" where
  "accepted_cancellation a = (case Cancellation a of Inl e \<Rightarrow> Some (Failure e) | Inr u \<Rightarrow> None)"

definition accept_finished :: "request_operation \<Rightarrow> 'w loop_agent \<Rightarrow> 'w loop_agent" where
  "accept_finished next_op a =
     (case next_op of RequestFinished result \<Rightarrow> acceptModel (completed_outcome result) a | _ \<Rightarrow> a)"

definition AgentAdvanceRequest ::
  "string res \<Rightarrow> request_result \<Rightarrow> 'w loop_agent \<Rightarrow> ('w loop_agent \<times> request_operation) res" where
  "AgentAdvanceRequest identifier result a =
     (case modelRequest a of
        None \<Rightarrow> Inl (err ''agentloop: no model request is active'')
      | Some q \<Rightarrow>
          bindE (AdvanceRequest identifier result (accepted_cancellation a) q) (\<lambda>(p, next_op).
          Inr (accept_finished next_op (a\<lparr>modelRequest := Some p\<rparr>), next_op)))"

definition AgentRetryRequestClose :: "'w loop_agent \<Rightarrow> ('w loop_agent \<times> request_operation) res" where
  "AgentRetryRequestClose a =
     (case modelRequest a of
        None \<Rightarrow> Inl (err ''agentloop: no model request is retained'')
      | Some q \<Rightarrow>
          bindE (RetryRequestClose q) (\<lambda>(p, next_op). Inr (a\<lparr>modelRequest := Some p\<rparr>, next_op)))"

section \<open>What a request keeps\<close>

text \<open>The input of a request is the one it was started with.\<close>

lemma finish_request_input: "finish_request failure q = (p, next_op) \<Longrightarrow> requestInput p = requestInput q"
  by (auto simp: finish_request_def Let_def)

lemma accept_attempt_input: "acceptAttempt next_op q = (p, r) \<Longrightarrow> requestInput p = requestInput q"
  by (cases next_op) (auto simp: completed_attempt_def Let_def dest: finish_request_input split: if_splits sum.splits)

lemma start_attempt_input: "start_attempt q = Inr (p, next_op) \<Longrightarrow> requestInput p = requestInput q"
  by (auto simp: start_attempt_def bindE_Inr_iff dest: finish_request_input split: sum.splits)

lemma capture_input [simp]: "requestInput (capture_started r q) = requestInput q"
  by (cases r) simp_all

lemma StartRequest_input:
  "StartRequest i NewRequest = Inr (p, next_op) \<Longrightarrow>
   requestSession (requestInput p) = requestSession i \<and> requestPosition (requestInput p) = requestPosition i"
  by (auto simp: StartRequest_def bindE_Inr_iff dest!: start_attempt_input)

lemma AdvanceRequest_input:
  assumes "AdvanceRequest i r c q0 = Inr (p, next_op)"
  shows "requestInput p = requestInput q0"
  using assms
proof (rule AdvanceRequest_Inr)
  fix q
  assume q: "q = q0\<lparr>requestCancellation := (if requestCancellation q0 = None then c else requestCancellation q0)\<rparr>"
    and next_step: "if requestPhase q = RunningAttempt \<or> requestPhase q = RetryingClose
     then advance_active i (attempt_response r) q = Inr (p, next_op)
     else if requestCancellation q \<noteq> None then (p, next_op) = finish_request (requestCancellation q) q
     else case r of
       RequestFailed problem \<Rightarrow> (p, next_op) = finish_request (join_errors [requestFailure q, problem]) q
     | RecoveryResolved retry \<Rightarrow>
         if \<not> retry then (p, next_op) = finish_request (requestFailure q) q
         else start_attempt (q\<lparr>requestFailure := None\<rparr>) = Inr (p, next_op)
     | _ \<Rightarrow> False"
  have "requestInput q = requestInput q0" using q by simp
  moreover have "requestInput p = requestInput q"
    using next_step
    by (auto split: if_splits request_result.splits elim!: advance_active_Inr
        dest: finish_request_input [OF sym] start_attempt_input accept_attempt_input [OF sym])
  ultimately show ?thesis by simp
qed

lemma RetryRequestClose_input: "RetryRequestClose q = Inr (p, next_op) \<Longrightarrow> requestInput p = requestInput q"
  by (auto simp: RetryRequestClose_def bindE_Inr_iff dest: accept_attempt_input split: if_splits option.splits)

text \<open>A request whose stream is closed at its end stays as it is.\<close>

definition request_settled :: "model_request \<Rightarrow> bool" where
  "request_settled q = (requestPhase q = RequestComplete \<and> outcomeClosed (requestOutcome q))"

lemma settled_not_advanced: "request_settled q \<Longrightarrow> AdvanceRequest i r c q \<noteq> Inr t"
  by (auto simp: request_settled_def AdvanceRequest_def check_completion_def bindE_Inr_iff failIf_Inr)

lemma settled_not_reopened: "request_settled q \<Longrightarrow> RetryRequestClose q = Inr (p, next_op) \<Longrightarrow> p = q"
  by (auto simp: request_settled_def RetryRequestClose_def bindE_Inr_iff)

lemma agent_outcome_settled:
  "agent_outcome q = Inr c \<Longrightarrow> streamClosed c \<Longrightarrow> request_settled q"
  by (auto simp: agent_outcome_def Outcome_def completed_outcome_def request_settled_def bindE_Inr_iff failIf_Inr Let_def)

end
