(* ===== verification/AgentReach.thy ===== *)
theory AgentReach
  imports AgentRequests
begin

text \<open>
  The agents that calls of its operations reach, those of the model request included, and the
  invariant of the request: it is retained for one requesting step, and it outlives the step only with
  its stream closed.
\<close>

section \<open>Calls\<close>

text \<open>
  One call of an operation, with any arguments, and the agent after it; an operation that
  fails without changing its state is no call here.  The last two rules are what the
  execution flow (\<open>src/agentloop/agent_execution.go\<close>) assigns itself: the retained
  boundary of a retry and the collected failure.  All else it does to an agent are calls of these operations.
\<close>

inductive agent_call :: "'w loop_agent \<Rightarrow> 'w loop_agent \<Rightarrow> bool" where
  "RestoreAgent md snap a = Inr b \<Longrightarrow> agent_call a b"
| "InitializeAgent a = Inr b \<Longrightarrow> agent_call a b"
| "ApplyEvents es a = Inr (b, c) \<Longrightarrow> agent_call a b"
| "ConfirmEdit edit write a = Inr (b, c) \<Longrightarrow> agent_call a b"
| "ConfirmAdmission m write a = Inr (b, c) \<Longrightarrow> agent_call a b"
| "CancelAgent intent keep a = (b, r1) \<Longrightarrow> agent_call a b"
| "FinishExecution a = Inr (b, replay) \<Longrightarrow> agent_call a b"
| "ContinueExecution a = (b, r2) \<Longrightarrow> agent_call a b"
| "BeginMaintenance a = Inr b \<Longrightarrow> agent_call a b"
| "FinishMaintenance a = Inr (b, replay) \<Longrightarrow> agent_call a b"
| "PrepareClose executing a = (b, r3) \<Longrightarrow> agent_call a b"
| "Drain executing a = (b, r3) \<Longrightarrow> agent_call a b"
| "ReleaseAgent a = Inr b \<Longrightarrow> agent_call a b"
| "PrepareTurn a = (b, r4) \<Longrightarrow> agent_call a b"
| "ConfirmTurn write a = Inr b \<Longrightarrow> agent_call a b"
| "PrepareInput a = Inr (b, edit) \<Longrightarrow> agent_call a b"
| "ConfirmInput write a = Inr b \<Longrightarrow> agent_call a b"
| "PreparePreStep a = Inr (b, x1) \<Longrightarrow> agent_call a b"
| "AcceptPreStep decision a = Inr (b, entered) \<Longrightarrow> agent_call a b"
| "AbandonPreparation a = Inr b \<Longrightarrow> agent_call a b"
| "PrepareStep clone_assembly RenderContextSections fresh snap provided a = Inr (b, draft) \<Longrightarrow> agent_call a b"
| "ConfirmStep write a = Inr b \<Longrightarrow> agent_call a b"
| "AgentConfirmMessage write a = Inr b \<Longrightarrow> agent_call a b"
| "BeginRequest a = Inr b \<Longrightarrow> agent_call a b"
| "AgentStartRequest a = Inr (b, next_op) \<Longrightarrow> agent_call a b"
| "AgentAdvanceRequest identifier result a = Inr (b, next_op) \<Longrightarrow> agent_call a b"
| "AgentRetryRequestClose a = Inr (b, next_op) \<Longrightarrow> agent_call a b"
| "CompleteModel agent_outcome a = (b, r5) \<Longrightarrow> agent_call a b"
| "BeginTools agent_outcome a = Inr b \<Longrightarrow> agent_call a b"
| "CompleteTools agent_outcome batch failure a = Inr (b, x2) \<Longrightarrow> agent_call a b"
| "PrepareStepEnd agent_outcome selected a = Inr (b, x2) \<Longrightarrow> agent_call a b"
| "endStep agent_outcome selected failure a = Inr (b, x2) \<Longrightarrow> agent_call a b"
| "ConfirmStepEnd write a = Inr b \<Longrightarrow> agent_call a b"
| "ContinueTurn failure a = Inr (b, x3) \<Longrightarrow> agent_call a b"
| "CompleteStopping failure a = (b, r6) \<Longrightarrow> agent_call a b"
| "PrepareTurnEnd failure a = Inr (b, x4) \<Longrightarrow> agent_call a b"
| "ConfirmTurnEnd write a = Inr b \<Longrightarrow> agent_call a b"
| "ConfirmTurnFlush durable a = Inr b \<Longrightarrow> agent_call a b"
| "ReconcileInput snap a = Inr (b, found) \<Longrightarrow> agent_call a b"
| "ReconcileStepStart snap a = Inr (b, found) \<Longrightarrow> agent_call a b"
| "agent_call a (a\<lparr>agentRetry := retained\<rparr>)"
| "agent_call a (a\<lparr>agentFailure := collected\<rparr>)"

inductive agent_run :: "'w loop_agent \<Rightarrow> bool" where
  created: "agent_run (new_agent Unrestored)"
| called: "agent_run a \<Longrightarrow> agent_call a b \<Longrightarrow> agent_run b"

section \<open>The invariant of the agent\<close>

lemma request_update_ok:
  assumes "agent_ok a" "currentStep a \<noteq> None \<or> modelRequest a \<noteq> None"
  shows "agent_ok (a\<lparr>modelRequest := r\<rparr>)"
proof -
  have "execution a = ExecutionRunning"
    using assms by (cases "execution a"; cases "currentTurn a") (auto simp: agent_ok_defs work_ok_def)
  then show ?thesis using assms(1) by (simp add: agent_ok_defs)
qed

lemma request_advanced_ok: "agent_ok a \<Longrightarrow> modelRequest a = Some q \<Longrightarrow> agent_ok (a\<lparr>modelRequest := r\<rparr>)"
  by (rule request_update_ok) simp_all

lemma AgentStartRequest_Inr:
  assumes "AgentStartRequest a = Inr (b, next_op)"
  shows "\<exists>s q i. currentStep a = Some s \<and> stepState s = StepRequesting \<and> modelRequest a = None \<and>
    b = a\<lparr>modelRequest := Some q\<rparr> \<and> StartRequest i NewRequest = Inr (q, next_op) \<and>
    requestSession i = agentID a \<and> requestPosition i = stepPosition s"
proof -
  obtain s where s1: "currentStep a = Some s"
    using assms by (cases "currentStep a") (auto simp: AgentStartRequest_def bindE_Inr_iff)
  from assms have "stepState s = StepRequesting \<and> modelRequest a = None \<and>
    (\<exists>(captured :: prompt_assembly step_input) p. StartRequest \<lparr>requestSession = agentID a, requestPosition = stepPosition s,
       requestPrompt = inputPrompt captured, requestFirst = (\<not> headerLogged a)\<rparr> NewRequest = Inr p \<and>
       (case p of (q, first_op) \<Rightarrow> Inr (a\<lparr>modelRequest := Some q\<rparr>, first_op)) = (Inr (b, next_op) :: _ res))"
    unfolding AgentStartRequest_def s1 option.case bindE_Inr_iff failIf_Inr by auto
  then obtain captured :: "prompt_assembly step_input" and q where s: "stepState s = StepRequesting" "modelRequest a = None"
    "b = a\<lparr>modelRequest := Some q\<rparr>"
    "StartRequest \<lparr>requestSession = agentID a, requestPosition = stepPosition s,
       requestPrompt = inputPrompt captured, requestFirst = (\<not> headerLogged a)\<rparr> NewRequest = Inr (q, next_op)"
    by auto
  show ?thesis by (intro exI conjI; (rule s1 s)?) simp_all
qed

lemma accept_finished_ok: "agent_ok (accept_finished next_op a) = agent_ok a"
  by (cases next_op) (auto simp: accept_finished_def acceptModel_def agent_ok_defs)

lemma AgentAdvanceRequest_Inr:
  assumes "AgentAdvanceRequest i r a = Inr (b, next_op)"
  shows "\<exists>q p. modelRequest a = Some q \<and> AdvanceRequest i r (accepted_cancellation a) q = Inr (p, next_op) \<and>
    b = accept_finished next_op (a\<lparr>modelRequest := Some p\<rparr>)"
  using assms by (auto simp: AgentAdvanceRequest_def bindE_Inr_iff split: option.splits)

lemma AgentRetryRequestClose_Inr:
  assumes "AgentRetryRequestClose a = Inr (b, next_op)"
  shows "\<exists>q p. modelRequest a = Some q \<and> RetryRequestClose q = Inr (p, next_op) \<and> b = a\<lparr>modelRequest := Some p\<rparr>"
  using assms by (auto simp: AgentRetryRequestClose_def bindE_Inr_iff split: option.splits)

lemma request_calls_ok:
  "AgentStartRequest a = Inr (b, next_op) \<Longrightarrow> agent_ok a \<Longrightarrow> agent_ok b"
  "AgentAdvanceRequest i r a = Inr (b, next_op) \<Longrightarrow> agent_ok a \<Longrightarrow> agent_ok b"
  "AgentRetryRequestClose a = Inr (b, next_op) \<Longrightarrow> agent_ok a \<Longrightarrow> agent_ok b"
  by (auto dest!: AgentStartRequest_Inr AgentAdvanceRequest_Inr AgentRetryRequestClose_Inr
      simp: accept_finished_ok intro: request_update_ok request_advanced_ok)

lemma agent_call_ok: "agent_call a b \<Longrightarrow> agent_ok a \<Longrightarrow> agent_ok b"
proof (induction rule: agent_call.induct)
  case (11 executing a b r3)
  then show ?case using prepareClose_ok by (auto simp: PrepareClose_def)
next
  case (41 a retained)
  then show ?case by (simp add: agent_ok_defs)
next
  case (42 a collected)
  then show ?case by (simp add: agent_ok_defs)
qed (use ConfirmEdit_ok ApplyEvents_ok in \<open>blast intro: agent_ops_ok request_calls_ok\<close>)+

section \<open>The invariant of the request\<close>

text \<open>
  A retained request is a state that a run of a request reaches, started for the session of the
  agent; while it is in flight, or its stream is not closed, the step it was started for is
  current and requesting.
\<close>

definition request_fits :: "'w loop_agent \<Rightarrow> bool" where
  "request_fits a =
     (case modelRequest a of
        None \<Rightarrow> True
      | Some q \<Rightarrow>
          (\<exists>next_op. request_run (q, next_op)) \<and> requestSession (requestInput q) = agentID a \<and>
          (request_settled q \<or>
           (\<exists>s. currentStep a = Some s \<and> stepState s = StepRequesting \<and>
              stepPosition s = requestPosition (requestInput q))))"

text \<open>What an operation does that leaves the request and a requesting step alone.\<close>

definition request_kept :: "'w loop_agent \<Rightarrow> 'w loop_agent \<Rightarrow> bool" where
  "request_kept a b \<longleftrightarrow>
     (modelRequest b = None \<or>
      modelRequest b = modelRequest a \<and> agentID b = agentID a \<and>
      ((\<exists>s. currentStep a = Some s \<and> stepState s = StepRequesting) \<longrightarrow>
       currentStep b = currentStep a \<or> (\<exists>q. modelRequest a = Some q \<and> request_settled q)))"

lemma kept_fits: "request_kept a b \<Longrightarrow> request_fits a \<Longrightarrow> request_fits b"
  by (auto simp: request_kept_def request_fits_def split: option.splits)

lemma request_kept_refl [simp]: "request_kept a a"
  by (simp add: request_kept_def)

lemma fits_started:
  assumes "AgentStartRequest a = Inr (b, next_op)"
  shows "request_fits b"
proof -
  obtain s q i where s: "currentStep a = Some s" "stepState s = StepRequesting" "b = a\<lparr>modelRequest := Some q\<rparr>"
    "StartRequest i NewRequest = Inr (q, next_op)" "requestSession i = agentID a" "requestPosition i = stepPosition s"
    using AgentStartRequest_Inr [OF assms] by blast
  have "request_run (q, next_op)" using s(4) by (rule request_run.started)
  then show ?thesis using s StartRequest_input [OF s(4)] by (auto simp: request_fits_def)
qed

lemma fits_advanced:
  assumes "AgentAdvanceRequest i r a = Inr (b, next_op)" "request_fits a"
  shows "request_fits b"
proof -
  obtain q p where q: "modelRequest a = Some q" "AdvanceRequest i r (accepted_cancellation a) q = Inr (p, next_op)"
    "b = accept_finished next_op (a\<lparr>modelRequest := Some p\<rparr>)"
    using AgentAdvanceRequest_Inr [OF assms(1)] by blast
  obtain op0 where run: "request_run (q, op0)" using assms(2) q(1) by (auto simp: request_fits_def)
  have "request_run (p, next_op)" by (rule request_run.advanced [OF run]) (use q(2) in simp)
  moreover have "\<not> request_settled q" using settled_not_advanced q(2) by blast
  moreover have "modelRequest b = Some p" "currentStep b = currentStep a" "agentID b = agentID a"
    using q(3) by (cases next_op; simp add: accept_finished_def acceptModel_def)+
  ultimately show ?thesis
    using assms(2) q(1) AdvanceRequest_input [OF q(2)] by (auto simp: request_fits_def)
qed

lemma fits_close_retried:
  assumes "AgentRetryRequestClose a = Inr (b, next_op)" "request_fits a"
  shows "request_fits b"
proof -
  obtain q p where q: "modelRequest a = Some q" "RetryRequestClose q = Inr (p, next_op)" "b = a\<lparr>modelRequest := Some p\<rparr>"
    using AgentRetryRequestClose_Inr [OF assms(1)] by blast
  obtain op0 where run: "request_run (q, op0)" using assms(2) q(1) by (auto simp: request_fits_def)
  have "request_run (p, next_op)" by (rule request_run.close_retried [OF run]) (use q(2) in simp)
  then show ?thesis
    using assms(2) q RetryRequestClose_input [OF q(2)] settled_not_reopened [OF _ q(2)]
    by (auto simp: request_fits_def)
qed

text \<open>Steps that enter another state after requesting do so only with the stream of the request closed.\<close>

lemma completion_checked:
  assumes "checkRequestCompletion agent_outcome a = Inr ()"
  shows "modelRequest a = None \<or> (\<exists>q. modelRequest a = Some q \<and> request_settled q)"
  using assms agent_outcome_settled
  by (auto simp: checkRequestCompletion_def bindE_Inr_iff failIf_Inr split: option.splits)

lemma PrepareStepEnd_kept: "PrepareStepEnd agent_outcome selected a = Inr (b, x) \<Longrightarrow> request_kept a b"
  by (auto simp: PrepareStepEnd_def bindE_Inr_iff request_kept_def dest!: completion_checked split: option.splits)

lemma BeginTools_kept: "BeginTools agent_outcome a = Inr b \<Longrightarrow> request_kept a b"
  by (auto simp: BeginTools_def bindE_Inr_iff request_kept_def dest!: completion_checked)

lemma endStep_kept: "endStep agent_outcome selected f a = Inr (b, x) \<Longrightarrow> request_kept a b"
  by (auto simp: endStep_def bindE_Inr_iff dest: PrepareStepEnd_kept)

lemma CompleteTools_kept: "CompleteTools agent_outcome batch f a = Inr (b, x) \<Longrightarrow> request_kept a b"
  by (auto simp: CompleteTools_def bindE_Inr_iff dest: endStep_kept)

lemma CompleteModel_kept: "CompleteModel agent_outcome a = (b, x) \<Longrightarrow> request_kept a b"
  by (auto simp: CompleteModel_def acceptModel_def request_kept_def split: option.splits sum.splits if_splits)

text \<open>The other operations on the steps.\<close>

lemma step_calls_kept:
  "PrepareStep clone sections fresh snap provided a = Inr (b, draft) \<Longrightarrow> request_kept a b"
  "ConfirmStep write a = Inr b \<Longrightarrow> request_kept a b"
  "AgentConfirmMessage write a = Inr b \<Longrightarrow> request_kept a b"
  "BeginRequest a = Inr b \<Longrightarrow> request_kept a b"
  "ConfirmStepEnd write a = Inr b \<Longrightarrow> request_kept a b"
  "ReconcileStepStart snap a = Inr (b, found) \<Longrightarrow> request_kept a b"
proof -
  show "request_kept a b" if r: "PrepareStep clone sections fresh snap provided a = Inr (b, draft)"
  proof (cases "currentStep a")
    case (Some s)
    with r have "b = a" by (auto simp: PrepareStep_def bindE_Inr_iff split: if_splits)
    then show ?thesis by simp
  next
    case None
    obtain prep where prep: "preparing a = Some prep"
      using r None by (cases "preparing a") (auto simp: PrepareStep_def bindE_Inr_iff)
    obtain q x where p: "settle_empty x a = Inr (b, draft) \<or> (\<exists>i. open_step clone i q a = Inr (b, draft))"
      using r None prep by (auto simp: PrepareStep_def bindE_Inr_iff Let_def split: if_splits)
    then have "modelRequest b = modelRequest a" "agentID b = agentID a"
      by (auto simp: settle_empty_def open_step_def bindE_Inr_iff)
    with None show ?thesis by (simp add: request_kept_def)
  qed
  show confirm: "request_kept a b" if "ConfirmStep w a = Inr b" for w b
    using that by (auto simp: ConfirmStep_def bindE_Inr_iff request_kept_def split: option.splits if_splits)
  show "AgentConfirmMessage write a = Inr b \<Longrightarrow> request_kept a b"
    by (auto simp: AgentConfirmMessage_def ConfirmMessage_def MessageDraft_def on_step_def bindE_Inr_iff failIf_Inr
        request_kept_def split: option.splits if_splits list.splits)
  show "BeginRequest a = Inr b \<Longrightarrow> request_kept a b"
    by (auto simp: BeginRequest_def EnterRequesting_def on_step_def bindE_Inr_iff request_kept_def split: if_splits)
  show "ConfirmStepEnd write a = Inr b \<Longrightarrow> request_kept a b"
    by (auto simp: ConfirmStepEnd_def EndDraft_step_def on_step_def bindE_Inr_iff failIf_Inr request_kept_def
        split: option.splits if_splits)
  show "request_kept a b" if r: "ReconcileStepStart snap a = Inr (b, found)"
  proof -
    obtain s where s: "preparing a = None" "currentStep a = Some s" "stepState s = StepProposed"
      using r by (auto simp: ReconcileStepStart_def bindE_Inr_iff failIf_Inr split: option.splits)
    have "b = a\<lparr>currentStep := None\<rparr> \<or> (\<exists>w. ConfirmStep w a = Inr b)"
      using r s(1) by (auto simp: ReconcileStepStart_def bindE_Inr_iff split: option.splits)
    then show ?thesis
    proof (elim disjE exE)
      assume "b = a\<lparr>currentStep := None\<rparr>"
      with s show ?thesis by (simp add: request_kept_def)
    qed (rule confirm)
  qed
qed

text \<open>Operations that touch neither the step nor the request.\<close>

definition apart :: "'w loop_agent \<Rightarrow> 'w loop_agent \<Rightarrow> bool" where
  "apart a b \<longleftrightarrow> modelRequest b = modelRequest a \<and> agentID b = agentID a \<and> currentStep b = currentStep a"

lemma apart_kept: "apart a b \<Longrightarrow> request_kept a b"
  by (auto simp: apart_def request_kept_def)

lemma apart_fits: "apart a b \<Longrightarrow> request_fits a \<Longrightarrow> request_fits b"
  using apart_kept kept_fits by blast

lemma ApplyEvents_apart: "ApplyEvents es a = Inr (b, c) \<Longrightarrow> apart a b"
  by (auto simp: ApplyEvents_def bindE_Inr_iff apart_def split: option.splits if_splits)

lemma ConfirmEdit_apart: "ConfirmEdit edit write a = Inr (b, c) \<Longrightarrow> apart a b"
  by (auto simp: ConfirmEdit_def bindE_Inr_iff dest: ApplyEvents_apart)

lemma cancelExecution_apart: "apart a (cancelExecution intent keep a)"
  by (simp add: cancelExecution_def apart_def Let_def)

lemma admission_apart:
  "ConfirmAdmission m write a = Inr (b, c) \<Longrightarrow> apart a b"
  "CancelAgent intent keep a = (b, r1) \<Longrightarrow> apart a b"
proof -
  show "apart a b" if "ConfirmAdmission m write a = Inr (b, c)"
  proof -
    from that obtain d where "ConfirmEdit (admitEdit m) write a = Inr (d, c)" "b = acceptExecution (admitWake m) d"
      by (auto simp: ConfirmAdmission_def bindE_Inr_iff)
    with ConfirmEdit_apart [of "admitEdit m" "write" a d c] show ?thesis
      by (simp add: acceptExecution_def apart_def Let_def)
  qed
  show "CancelAgent intent keep a = (b, r1) \<Longrightarrow> apart a b"
    using cancelExecution_apart [of a intent keep]
    by (auto simp: CancelAgent_def Let_def apart_def split: if_splits sum.splits)
qed

lemma releaseWork_apart: "releaseWork a = Inr (b, r) \<Longrightarrow> apart a b"
  by (auto simp: releaseWork_def bindE_Inr_iff apart_def)

lemma execution_apart:
  "FinishExecution a = Inr (b, r) \<Longrightarrow> apart a b"
  "FinishMaintenance a = Inr (b, r) \<Longrightarrow> apart a b"
  "BeginMaintenance a = Inr b \<Longrightarrow> apart a b"
  "ContinueExecution a = (b, r2) \<Longrightarrow> apart a b"
  "InitializeAgent a = Inr b \<Longrightarrow> apart a b"
proof -
  show finish: "apart a b" if "FinishExecution a = Inr (b, r)" for a b :: "'a loop_agent" and r
    using that releaseWork_apart by (auto simp: FinishExecution_def bindE_Inr_iff)
  show "FinishMaintenance a = Inr (b, r) \<Longrightarrow> apart a b"
    using releaseWork_apart by (auto simp: FinishMaintenance_def bindE_Inr_iff)
  show "BeginMaintenance a = Inr b \<Longrightarrow> apart a b"
    by (auto simp: BeginMaintenance_def bindE_Inr_iff apart_def)
  show "InitializeAgent a = Inr b \<Longrightarrow> apart a b"
    by (auto simp: InitializeAgent_def bindE_Inr_iff apart_def)
  show "apart a b" if c: "ContinueExecution a = (b, r2)"
    using c finish [of "a\<lparr>runAfterCompletion := True\<rparr>"] finish [of a]
    by (auto simp: ContinueExecution_def Let_def apart_def split: if_splits sum.splits)
qed

lemma prepareClose_apart: "prepareClose executing finish a = (b, r) \<Longrightarrow> apart a b"
proof -
  assume c: "prepareClose executing finish a = (b, r)"
  define a1 where "a1 = a\<lparr>lifetime := beginClose (lifetime a), preserveInbox := True, runAfterCompletion := False\<rparr>"
  define a2 where "a2 = (if \<not> finish \<and> execution a1 \<noteq> ExecutionIdle then cancelExecution (Some DisposedCancel) True a1 else a1)"
  have "apart a a2" using cancelExecution_apart [of a1] by (auto simp: a2_def a1_def apart_def)
  moreover have "apart a2 b"
  proof -
    let ?a = "a2\<lparr>preserveInbox := True, runAfterCompletion := False\<rparr>"
    have "prepareClose executing finish a =
        (if \<not> executing \<and> execution a2 = ExecutionRunning \<and> \<not> owns_work a2 then
           (case FinishExecution ?a of Inl e \<Rightarrow> (?a, Inl e) | Inr (b, replay) \<Rightarrow> (b, CheckClose executing b))
         else (a2, CheckClose executing a2))"
      unfolding prepareClose_def Let_def a1_def [symmetric] a2_def [symmetric] ..
    then show ?thesis using c execution_apart(1) [of ?a b] by (auto simp: apart_def split: if_splits sum.splits)
  qed
  ultimately show ?thesis by (simp add: apart_def)
qed

lemma turn_apart:
  "PrepareTurn a = (b, r4) \<Longrightarrow> apart a b"
  "ConfirmTurn write a = Inr b \<Longrightarrow> apart a b"
  "PrepareInput a = Inr (b, edit) \<Longrightarrow> apart a b"
  "ConfirmInput write a = Inr b \<Longrightarrow> apart a b"
  "PreparePreStep a = Inr (b, x1) \<Longrightarrow> apart a b"
  "AcceptPreStep decision a = Inr (b, entered) \<Longrightarrow> apart a b"
  "AbandonPreparation a = Inr b \<Longrightarrow> apart a b"
  "ReconcileInput snap a = Inr (b, found) \<Longrightarrow> apart a b"
proof -
  show "PrepareTurn a = (b, r4) \<Longrightarrow> apart a b"
    by (auto simp: PrepareTurn_def Let_def apart_def bindE_Inr_iff split: if_splits sum.splits option.splits prod.splits)
  show "ConfirmTurn write a = Inr b \<Longrightarrow> apart a b"
    by (auto simp: ConfirmTurn_def bindE_Inr_iff apart_def)
  show "PrepareInput a = Inr (b, edit) \<Longrightarrow> apart a b"
    by (auto simp: PrepareInput_def on_inbox_def bindE_Inr_iff apart_def Let_def split: option.splits if_splits)
  show confirm: "apart a b" if "ConfirmInput w a = Inr b" for w
    using that
    by (auto simp: ConfirmInput_def bindE_Inr_iff apart_def split: option.splits if_splits dest!: ConfirmEdit_apart)
  show "PreparePreStep a = Inr (b, x1) \<Longrightarrow> apart a b"
    by (auto simp: PreparePreStep_def bindE_Inr_iff apart_def Let_def split: option.splits if_splits)
  show "AcceptPreStep decision a = Inr (b, entered) \<Longrightarrow> apart a b"
    by (auto simp: AcceptPreStep_def bindE_Inr_iff apart_def Let_def split: option.splits if_splits)
  show "AbandonPreparation a = Inr b \<Longrightarrow> apart a b"
    by (auto simp: AbandonPreparation_def bindE_Inr_iff apart_def split: option.splits if_splits)
  show "apart a b" if r: "ReconcileInput snap a = Inr (b, found)"
  proof -
    have "b = a\<lparr>preparing := None\<rparr> \<or> (\<exists>w. ConfirmInput w a = Inr b)"
      using r by (auto simp: ReconcileInput_def bindE_Inr_iff split: option.splits if_splits)
    then show ?thesis using confirm by (auto simp: apart_def)
  qed
qed

lemma PrepareTurnEnd_apart: "PrepareTurnEnd f a = Inr (b, x) \<Longrightarrow> apart a b"
  using PrepareTurnEnd_Inr [of f a b x] by (auto simp: apart_def)

lemma end_turn_apart: "end_turn f a = Inr (b, x) \<Longrightarrow> apart a b"
  by (auto simp: end_turn_def bindE_Inr_iff dest: PrepareTurnEnd_apart)

lemma stopping_apart: "beginStopping a = Inr (b, x) \<Longrightarrow> apart a b" "finishStopping a = Inr (b, x) \<Longrightarrow> apart a b"
  by (auto simp: beginStopping_def finishStopping_def bindE_Inr_iff apart_def Let_def on_inbox_def
      split: option.splits if_splits)

lemma settlement_apart:
  "ContinueTurn f a = Inr (b, x3) \<Longrightarrow> apart a b"
  "CompleteStopping hook a = (b, r6) \<Longrightarrow> apart a b"
  "ConfirmTurnEnd write a = Inr b \<Longrightarrow> apart a b"
  "ConfirmTurnFlush durable a = Inr b \<Longrightarrow> apart a b"
proof -
  show "ContinueTurn f a = Inr (b, x3) \<Longrightarrow> apart a b"
    by (auto simp: ContinueTurn_def bindE_Inr_iff Let_def split: if_splits dest: end_turn_apart stopping_apart)
  show "apart a b" if "CompleteStopping hook a = (b, r6)"
  proof -
    from that have "b = a \<or> (\<exists>p y. end_turn p a = Inr (b, y)) \<or> (\<exists>y. finishStopping a = Inr (b, y)) \<or>
        (\<exists>c y z. finishStopping a = Inr (c, y) \<and> end_turn None c = Inr (b, z))"
      by (auto simp: CompleteStopping_def Let_def split: if_splits sum.splits bool.splits)
    then show ?thesis by (auto dest!: end_turn_apart stopping_apart) (auto simp: apart_def)
  qed
  show "ConfirmTurnEnd write a = Inr b \<Longrightarrow> apart a b"
    by (auto simp: ConfirmTurnEnd_def bindE_Inr_iff apart_def split: option.splits)
  show "ConfirmTurnFlush durable a = Inr b \<Longrightarrow> apart a b"
    by (auto simp: ConfirmTurnFlush_def bindE_Inr_iff apart_def)
qed

section \<open>Every reachable agent\<close>

lemmas calls_apart =
  ApplyEvents_apart ConfirmEdit_apart admission_apart execution_apart turn_apart PrepareTurnEnd_apart settlement_apart

lemmas calls_kept =
  step_calls_kept BeginTools_kept PrepareStepEnd_kept endStep_kept CompleteTools_kept CompleteModel_kept

lemma unrestored_request:
  assumes "RestoreAgent md snap a = Inr b" "agent_ok a"
  shows "modelRequest b = None"
proof -
  have "lifetime a = Unrestored" "modelRequest b = modelRequest a"
    using assms(1) by (auto simp: RestoreAgent_def bindE_Inr_iff failIf_Inr)
  then show ?thesis using assms(2) by (cases "execution a") (auto simp: agent_ok_defs ready_def)
qed

lemma agent_call_fits: "agent_call a b \<Longrightarrow> agent_ok a \<Longrightarrow> request_fits a \<Longrightarrow> request_fits b"
proof (induction rule: agent_call.induct)
  case (1 md snap a b)
  have "modelRequest b = None" using unrestored_request [OF 1(1,2)] .
  then show ?case by (simp add: request_fits_def)
next
  case (11 executing a b r3)
  then have "apart a b" by (auto simp: PrepareClose_def dest: prepareClose_apart)
  from apart_fits [OF this 11(3)] show ?case .
next
  case (12 executing a b r3)
  then have "apart a b \<or> b = a" by (auto simp: Drain_def split: if_splits dest: prepareClose_apart)
  then show ?case
  proof
    assume "apart a b"
    from apart_fits [OF this 12(3)] show ?thesis .
  qed (use 12(3) in simp)
next
  case (13 a b)
  then show ?case by (auto simp: ReleaseAgent_def bindE_Inr_iff request_fits_def new_agent_def)
next
  case (41 a retained)
  show ?case by (rule apart_fits [OF _ 41(2)]) (simp add: apart_def)
next
  case (42 a collected)
  show ?case by (rule apart_fits [OF _ 42(2)]) (simp add: apart_def)
qed ((rule kept_fits, rule calls_kept, assumption, assumption) |
     (rule apart_fits, rule calls_apart, assumption, assumption) | (rule fits_started, assumption) |
     (rule fits_advanced, assumption, assumption) | (rule fits_close_retried, assumption, assumption))+

lemma agent_run_ok: "agent_run a \<Longrightarrow> agent_ok a \<and> request_fits a"
proof (induction rule: agent_run.induct)
  case created
  have "modelRequest (new_agent Unrestored :: 'a loop_agent) = None" by (simp add: new_agent_def)
  then show ?case by (simp add: ready_def request_fits_def)
next
  case (called a b)
  then show ?case using agent_call_ok agent_call_fits by blast
qed

end
