(* ===== verification/AgentSamples.thy ===== *)
theory AgentSamples
  imports AgentLog AgentReach Samples
begin

text \<open>
  One small run of an agent used by the witnesses: a prompt is admitted, a turn is started,
  the prompt is claimed for its first step, the step is opened, and its model request is started.
\<close>

type_synonym sample_agent = "unit loop_agent"

definition sample_prompt :: message_value where
  "sample_prompt = user_text ''m1'' ''hello''"

definition empty_log :: log where
  "empty_log = new_log sample_header"

definition restored_agent :: sample_agent where
  "restored_agent = (new_agent Restored)\<lparr>agentID := ''s'', pendingInbox := Some empty_inbox\<rparr>"

definition idle_agent :: sample_agent where
  "idle_agent = restored_agent\<lparr>lifetime := Available\<rparr>"

definition splice_draft :: "inbox_splice \<Rightarrow> event_draft" where
  "splice_draft m = plain_draft InboxSplicedEventName (projr (marshal_splice m))"

definition sample_proposal :: admission where
  "sample_proposal =
     \<lparr>admitEdit = \<lparr>editDrafts = [splice_draft \<lparr>spliceTarget = NextTurn, spliceStart = 0, spliceRemoved = None,
                                 spliceInserted = [sample_prompt], spliceOutcome = []\<rparr>], editRemoved = []\<rparr>,
      admitWake = True\<rparr>"

definition queued_log :: log where
  "queued_log = empty_log\<lparr>entries := [draft_event (hd (editDrafts (admitEdit sample_proposal))) 0 1]\<rparr>"

definition queued_result :: write_result where
  "queued_result = range_result ''s'' 0 (entries queued_log)"

definition queued_inbox :: inbox where
  "queued_inbox = \<lparr>nextTurn = [sample_prompt], nextStep = []\<rparr>"

definition running_agent :: sample_agent where
  "running_agent = idle_agent\<lparr>inboxNext := 1, pendingInbox := Some queued_inbox, execution := ExecutionRunning\<rparr>"

definition proposed_turn :: turn where
  "proposed_turn = \<lparr>turnNumber = 1, lastStep = 0, currentState = StateProposed, conclusion = TurnResultNone\<rparr>"

definition proposing_agent :: sample_agent where
  "proposing_agent = running_agent\<lparr>currentTurn := Some proposed_turn\<rparr>"

definition sample_beginning :: turn_start_fact where
  "sample_beginning = \<lparr>beginSession = ''s'', beginNumber = 1,
     beginDraft = plain_draft ''turn/start'' (JObj [(''turn'', jint 1)])\<rparr>"

definition turn_log :: log where
  "turn_log = queued_log\<lparr>entries := entries queued_log @ [draft_event (beginDraft sample_beginning) 1 2]\<rparr>"

definition turn_result :: write_result where
  "turn_result = range_result ''s'' 1 [draft_event (beginDraft sample_beginning) 1 2]"

definition open_agent :: sample_agent where
  "open_agent = proposing_agent\<lparr>currentTurn := Some (proposed_turn\<lparr>currentState := StateOpen\<rparr>), lastTurn := 1\<rparr>"

definition sample_claim :: inbox_edit where
  "sample_claim = \<lparr>editDrafts = [splice_draft \<lparr>spliceTarget = NextTurn, spliceStart = 0, spliceRemoved = Some 1,
     spliceInserted = [], spliceOutcome = []\<rparr>], editRemoved = [sample_prompt]\<rparr>"

definition claiming_agent :: sample_agent where
  "claiming_agent = open_agent\<lparr>preparing := Some \<lparr>prepAfter = 1, prepState = InputUnconfirmed,
     prepEdit = sample_claim, prepClaimed = [], prepMessages = []\<rparr>\<rparr>"

definition claimed_log :: log where
  "claimed_log = turn_log\<lparr>entries := entries turn_log @ [draft_event (hd (editDrafts sample_claim)) 2 3]\<rparr>"

definition claimed_result :: write_result where
  "claimed_result = range_result ''s'' 2 [draft_event (hd (editDrafts sample_claim)) 2 3]"

section \<open>The run succeeds\<close>

lemma restored_step:
  "RestoreAgent sample_header (Snapshot empty_log) (new_agent Unrestored) = Inr restored_agent"
  by code_simp

lemma idle_step: "InitializeAgent restored_agent = Inr idle_agent"
  by code_simp

lemma proposal_step: "Followup sample_prompt idle_agent = Inr sample_proposal"
  by code_simp

lemma queued_step:
  "Commit (\<lambda>i. 1) live_context (Batch (editDrafts (admitEdit sample_proposal))) empty_log =
   (queued_log, queued_result, None)"
  by code_simp

lemma running_step:
  "ConfirmAdmission sample_proposal queued_result idle_agent =
   Inr (running_agent, no_changes\<lparr>changesInserted := [sample_prompt]\<rparr>)"
  by code_simp

lemma proposing_step: "PrepareTurn running_agent = (proposing_agent, Inr sample_beginning)"
  by code_simp

lemma turn_step:
  "Commit (\<lambda>i. 2) live_context (boundaryWrite (TurnStartFact sample_beginning)) queued_log =
   (turn_log, turn_result, None)"
  by code_simp

lemma open_step_sample: "ConfirmTurn turn_result proposing_agent = Inr open_agent"
  by code_simp

lemma claim_step: "PrepareInput open_agent = Inr (claiming_agent, sample_claim)"
  by code_simp

lemma claimed_step:
  "Commit (\<lambda>i. 3) live_context (Batch (editDrafts sample_claim)) turn_log = (claimed_log, claimed_result, None)"
  by code_simp

section \<open>The step and its request\<close>

definition bare_prompt :: prompt_assembly where
  "bare_prompt = \<lparr>assembledSections = [], assembledContexts = [], assembledTools = [], assembledVariables = []\<rparr>"

definition sample_preparation :: "preparation_state \<Rightarrow> preparation" where
  "sample_preparation phase = \<lparr>prepAfter = 1, prepState = phase, prepEdit = no_edit,
     prepClaimed = (if phase = ContextPending then [] else [sample_prompt]),
     prepMessages = (if phase = ContextPending then [sample_prompt] else [])\<rparr>"

definition preparing_agent :: "preparation_state \<Rightarrow> sample_agent" where
  "preparing_agent phase = open_agent\<lparr>inboxNext := 3, pendingInbox := Some empty_inbox,
     preparing := Some (sample_preparation phase)\<rparr>"

definition enter_decision :: pre_step_decision where
  "enter_decision = \<lparr>decisionKind = ''enter'', decisionMessages = [sample_prompt]\<rparr>"

definition sample_step :: "prompt_assembly step" where
  "sample_step = \<lparr>inputOffset = 0, lastInputSeq = 0,
     stepInput = Some \<lparr>step_input.inputMessages = [sample_prompt], inputPrompt = bare_prompt\<rparr>,
     stepPosition = \<lparr>posTurn = 1, posStep = 1\<rparr>, stepState = StepProposed, stepConclusion = StepResultNone\<rparr>"

definition step_draft :: event_draft where
  "step_draft = plain_draft ''step/start'' (JObj [(''turn'', jint 1), (''step'', jint 1)])"

definition stepping_agent :: sample_agent where
  "stepping_agent = (preparing_agent ContextPending)\<lparr>preparing := None, currentStep := Some sample_step\<rparr>"

definition opened_agent :: sample_agent where
  "opened_agent = stepping_agent\<lparr>
     currentTurn := Some (proposed_turn\<lparr>lastStep := 1, currentState := StateStepping\<rparr>),
     currentStep := Some (sample_step\<lparr>lastInputSeq := 3, stepState := StepOpen\<rparr>)\<rparr>"

definition message_draft :: event_draft where
  "message_draft = projr (input_draft sample_prompt)"

definition supplied_agent :: sample_agent where
  "supplied_agent = opened_agent\<lparr>
     currentStep := Some (sample_step\<lparr>inputOffset := 1, lastInputSeq := 4, stepState := StepOpen\<rparr>)\<rparr>"

definition requesting_agent :: sample_agent where
  "requesting_agent = supplied_agent\<lparr>
     currentStep := Some (sample_step\<lparr>inputOffset := 1, lastInputSeq := 4, stepState := StepRequesting\<rparr>)\<rparr>"

lemma hooked_step: "ConfirmInput claimed_result claiming_agent = Inr (preparing_agent HooksPending)"
  by code_simp

lemma deciding_step: "map_sum id fst (PreparePreStep (preparing_agent HooksPending)) = Inr (preparing_agent DecisionPending)"
  by code_simp

lemma entered_step: "AcceptPreStep enter_decision (preparing_agent DecisionPending) = Inr (preparing_agent ContextPending, True)"
  by code_simp

lemma stepping_step:
  "PrepareStep clone_assembly RenderContextSections ''c1'' (Snapshot claimed_log) bare_prompt (preparing_agent ContextPending) =
   Inr (stepping_agent, Some step_draft)"
  by code_simp

lemma opened_step: "ConfirmStep (range_result ''s'' 3 [draft_event step_draft 3 4]) stepping_agent = Inr opened_agent"
  by code_simp

lemma supplied_step:
  "AgentConfirmMessage (range_result ''s'' 4 [draft_event message_draft 4 5]) opened_agent = Inr supplied_agent"
  by code_simp

lemma requesting_step: "BeginRequest supplied_agent = Inr requesting_agent"
  by code_simp

lemma requested_step: "isOk (AgentStartRequest requesting_agent)"
  by code_simp

end
