(* ===== verification/VisibleLaws.thy ===== *)
theory VisibleLaws
  imports VisibleContext CompactionOutcome BoundaryWrites
begin

text \<open>
  Observing a committed event gives the view of the prompt context that restoring it from the
  whole session gives, but for one kind of event: a replacement that cites the message in view while
  a context message, this one or another, stays visible.
\<close>

section \<open>A restored view and an observed one\<close>

definition is_context :: "event \<Rightarrow> bool" where
  "is_context e = (ownedMessage e \<noteq> None)"

definition shown :: "event \<Rightarrow> context_snapshot" where
  "shown e = \<lparr>contextSequence = evSeq e, contextText = the (ownedMessage e)\<rparr>"

lemma restore_loop_find:
  "restore_loop ns es \<lparr>observed = b, visibleCurrent = None\<rparr> =
   \<lparr>observed = (b \<or> list_ex is_context es),
    visibleCurrent = map_option shown (find (\<lambda>e. is_context e \<and> evSeq e \<in> set ns) es)\<rparr>"
proof (induction es arbitrary: b)
  case (Cons e es)
  show ?case by (cases "ownedMessage e") (simp_all add: Cons is_context_def shown_def)
qed simp

lemma Refresh_find:
  "Refresh (Snapshot l) =
   \<lparr>observed = list_ex is_context (entries l),
    visibleCurrent = map_option shown (find (\<lambda>e. is_context e \<and> evSeq e \<in> set (nodes (view l))) (rev (entries l)))\<rparr>"
  by (simp add: Refresh_def restore_loop_find Snapshot_simps list_ex_iff)

definition cites :: "event \<Rightarrow> int \<Rightarrow> bool" where
  "cites e s = (case evSources e of None \<Rightarrow> False | Some ss \<Rightarrow> s \<in> set ss)"

text \<open>
  An event that makes the observed view forget its message: a replacement, no context message
  itself, that cites it.
\<close>

definition cites_current :: "event \<Rightarrow> visible_context \<Rightarrow> bool" where
  "cites_current e v =
     (is_replacement e \<and> \<not> is_context e \<and>
      (case visibleCurrent v of None \<Rightarrow> False | Some c \<Rightarrow> cites e (contextSequence c)))"

lemma Observe_context: "is_context e \<Longrightarrow> Observe e v = \<lparr>observed = True, visibleCurrent = Some (shown e)\<rparr>"
  by (cases v) (auto simp: Observe_def is_context_def shown_def)

lemma Observe_other:
  "\<not> is_context e \<Longrightarrow> Observe e v = (case visibleCurrent v of None \<Rightarrow> v
     | Some c \<Rightarrow> if is_replacement e \<and> cites e (contextSequence c) then v\<lparr>visibleCurrent := None\<rparr> else v)"
  by (auto simp: Observe_def is_context_def is_replacement_def cites_def split: option.splits)

lemma context_type: "is_context e \<Longrightarrow> evType e = ''user/message''"
  by (auto simp: is_context_def ownedMessage_def split: if_splits)

lemma find_cong': "(\<And>x. x \<in> set xs \<Longrightarrow> P x = Q x) \<Longrightarrow> find P xs = find Q xs"
  by (induction xs) auto

lemma find_none: "find P xs = None \<longleftrightarrow> list_all (\<lambda>x. \<not> P x) xs"
  by (auto simp: find_None_iff list_all_iff)

lemma find_elem: "find P xs = Some x \<Longrightarrow> x \<in> set xs \<and> P x"
  by (induction xs) (auto split: if_splits)

text \<open>Where the message in view is not cited, it is not shadowed, and no older one can pass it.\<close>

lemma find_stays:
  assumes "\<And>x. x \<in> set xs \<Longrightarrow> Q x \<Longrightarrow> P x" "\<And>x. find P xs = Some x \<Longrightarrow> Q x"
  shows "find Q xs = find P xs"
  using assms
proof (induction xs)
  case (Cons x xs)
  show ?case
  proof (cases "P x")
    case True
    then show ?thesis using Cons.prems(2) [of x] by simp
  next
    case False
    moreover from this have "\<not> Q x" using Cons.prems(1) [of x] by auto
    moreover have "find Q xs = find P xs"
    proof (rule Cons.IH)
      show "P y" if "y \<in> set xs" "Q y" for y using Cons.prems(1) [OF _ that(2)] that(1) by simp
      show "Q y" if "find P xs = Some y" for y using Cons.prems(2) [of y] that False by simp
    qed
    ultimately show ?thesis by simp
  qed
qed simp

lemma kept_current:
  assumes "planSurface (view l) e (entries l) [] = Inr tr" "view l' = applySurface (view l) tr"
    "\<And>x. x \<in> set (entries l) \<Longrightarrow> evSeq x \<noteq> evSeq e"
    "\<not> (is_replacement e \<and> (\<exists>x. find (\<lambda>x. is_context x \<and> evSeq x \<in> set (nodes (view l))) (rev (entries l)) = Some x \<and>
          cites e (evSeq x)))"
    "evSeq e = int (length (entries l))"
  shows "find (\<lambda>x. is_context x \<and> evSeq x \<in> set (nodes (view l'))) (rev (entries l)) =
    find (\<lambda>x. is_context x \<and> evSeq x \<in> set (nodes (view l))) (rev (entries l))"
proof -
  let ?cur = "find (\<lambda>x. is_context x \<and> evSeq x \<in> set (nodes (view l))) (rev (entries l))"
  note cur = find_elem [of "\<lambda>x. is_context x \<and> evSeq x \<in> set (nodes (view l))" "rev (entries l)"]
  show ?thesis
  proof (cases "is_replacement e")
    case rep: True
    from assms(1) show ?thesis
    proof (cases rule: planSurface_cases)
      case (replace sop i j)
      let ?sh = "subslice (nodes (view l)) i (j + 1 - i)"
      have nodes': "nodes (view l') = take i (nodes (view l)) @ [evSeq e] @ drop (j + 1) (nodes (view l))"
        using replace(8) assms(5) by (simp add: assms(2) applySurface_def nat_add_distrib)
      have "?sh \<noteq> []" using replace(4,5) by (simp add: subslice_def)
      then have shadowed: "\<forall>s \<in> set ?sh. cites e s"
        using validateProvenance_cites [OF replace(9)] by (auto simp: cites_def)
      have parts: "set (nodes (view l)) = set (take i (nodes (view l))) \<union> set ?sh \<union> set (drop (j + 1) (nodes (view l)))"
      proof -
        have "nodes (view l) = take i (nodes (view l)) @ ?sh @ drop (j + 1) (nodes (view l))"
          using replace(4) unfolding subslice_def
          by (metis append_take_drop_id drop_drop le_add_diff_inverse2 le_Suc_eq Suc_eq_plus1)
        then show ?thesis by (metis set_append Un_assoc)
      qed
      have "evSeq x \<in> set (nodes (view l'))" if "?cur = Some x" for x
        using cur [OF that] assms(4) rep that shadowed parts nodes' by auto
      then have seen: "is_context x \<and> evSeq x \<in> set (nodes (view l'))" if "?cur = Some x" for x
        using cur [OF that] that by simp
      have old: "evSeq x \<in> set (nodes (view l))" if "x \<in> set (entries l)" "evSeq x \<in> set (nodes (view l'))" for x
        using that assms(3) parts nodes' by auto
      show ?thesis by (rule find_stays [OF _ seen]) (use old in simp)
    qed (use rep in \<open>auto simp: is_replacement_def\<close>)
  next
    case False
    have "evSeq x \<in> set (nodes (view l')) \<longleftrightarrow> evSeq x \<in> set (nodes (view l))" if "x \<in> set (entries l)" for x
      using assms(1) assms(3) [OF that] False unfolding assms(2)
      by (cases rule: planSurface_cases) (auto simp: applySurface_def no_transition_def is_replacement_def)
    then show ?thesis by (intro find_cong') auto
  qed
qed

lemma committed_refresh:
  assumes "log_ok l" "commitBatch clock l [d] = Inr (l', [e])"
  shows "Refresh (Snapshot l') = Observe e (Refresh (Snapshot l)) \<longleftrightarrow>
    \<not> (cites_current e (Refresh (Snapshot l)) \<and> visibleCurrent (Refresh (Snapshot l')) \<noteq> None)"
proof -
  note c = commitBatch_entries [OF assms(2)]
  have es: "entries l' = entries l @ [e]" and seq: "evSeq e = int (length (entries l))" using c by auto
  obtain tr where tr: "planSurface (view l) e (entries l) [] = Inr tr" "view l' = applySurface (view l) tr"
    using commitBatch_view [OF assms(2)] by (auto simp: bindE_Inr_iff)
  let ?P = "\<lambda>x. is_context x \<and> evSeq x \<in> set (nodes (view l))"
  let ?Q = "\<lambda>x. is_context x \<and> evSeq x \<in> set (nodes (view l'))"
  have old: "evSeq x \<noteq> evSeq e" if "x \<in> set (entries l)" for x
    using log_seq_range [OF assms(1) that] seq by simp
  have new: "Refresh (Snapshot l') = \<lparr>observed = (is_context e \<or> list_ex is_context (entries l)),
      visibleCurrent = (if ?Q e then Some (shown e) else map_option shown (find ?Q (rev (entries l))))\<rparr>"
    by (auto simp: Refresh_find es)
  show ?thesis
  proof (cases "is_context e")
    case True
    then have "evType e \<in> set surfaceEventTypes" using context_type by (simp add: surfaceEventTypes_def)
    with tr(1) have "evSeq e \<in> set (nodes (view l'))"
      unfolding tr(2) by (cases rule: planSurface_cases) (auto simp: applySurface_def no_transition_def seq)
    with True new show ?thesis by (simp add: Observe_context cites_current_def)
  next
    case False
    let ?cur = "find ?P (rev (entries l))"
    let ?cited = "is_replacement e \<and> (\<exists>x. ?cur = Some x \<and> cites e (evSeq x))"
    have o: "Observe e (Refresh (Snapshot l)) = \<lparr>observed = list_ex is_context (entries l),
        visibleCurrent = (if ?cited then None else map_option shown ?cur)\<rparr>"
      by (cases ?cur) (auto simp: Observe_other [OF False] Refresh_find shown_def)
    have cited: "cites_current e (Refresh (Snapshot l)) = ?cited"
      using False by (cases ?cur) (auto simp: cites_current_def Refresh_find shown_def)
    have "\<not> ?Q e" using False by simp
    with new False have r: "Refresh (Snapshot l') = \<lparr>observed = list_ex is_context (entries l),
        visibleCurrent = map_option shown (find ?Q (rev (entries l)))\<rparr>" by simp
    have kept: "find ?Q (rev (entries l)) = ?cur" if "\<not> ?cited"
      using kept_current [OF tr old that] seq by blast
    show ?thesis
    proof (cases ?cited)
      case True
      then show ?thesis unfolding cited o r by simp
    next
      case False
      then show ?thesis unfolding cited o r kept [OF False] by (simp only: if_False simp_thms)
    qed
  qed
qed

end
