(* ===== verification/AgentTheorems.thy ===== *)
theory AgentTheorems
  imports AgentSamples Steps VisibleLaws ToolBatch
begin

text \<open>
  The properties of the agent: its inbox, the facts it commits, its turns and steps, and
  the batches of tool calls, each with a run that it applies to.
\<close>

section \<open>The sample run\<close>

lemma empty_log_ok [simp]: "log_ok empty_log"
  by (simp add: empty_log_def new_log_ok)

lemma logHeader_empty [simp]: "logHeader empty_log = sample_header"
  by (simp add: empty_log_def new_log_def)

lemma idle_tracks: "tracks empty_log idle_agent"
proof -
  have r: "tracks empty_log restored_agent"
    by (rule restore_tracks) (simp_all add: restored_step)
  then have "agent_ok idle_agent"
    using InitializeAgent_ok [OF idle_step] by (simp add: tracks_def)
  from r this show ?thesis by (rule tracks_same) (simp_all add: idle_agent_def)
qed

lemma canonical_prompt: "canonical_user sample_prompt"
  by code_simp

lemma idle_inbox: "pendingInbox idle_agent = Some empty_inbox"
  by (simp add: idle_agent_def restored_agent_def)

lemma inboxes_fit: "inbox_fits empty_inbox" "inbox_fits queued_inbox"
  by (simp_all add: inbox_fits_def empty_inbox_def queued_inbox_def)

lemma running_tracks: "tracks queued_log running_agent"
proof -
  have "\<exists>b. ConfirmAdmission sample_proposal queued_result idle_agent =
      Inr (b, no_changes\<lparr>changesInserted := [sample_prompt]\<rparr>) \<and> tracks queued_log b \<and>
      pendingInbox b = Some (set_queue empty_inbox (if True \<and> cancelCause idle_agent \<noteq> None then NextTurn else NextTurn)
        (queue_of empty_inbox (if True \<and> cancelCause idle_agent \<noteq> None then NextTurn else NextTurn) @ [sample_prompt])) \<and>
      is_target (if True \<and> cancelCause idle_agent \<noteq> None then NextTurn else NextTurn) \<and> (True \<longrightarrow> StatusRunning b)"
    by (rule admit_confirmed [OF idle_tracks idle_inbox inboxes_fit(1) canonical_prompt _ queued_step])
       (use proposal_step in \<open>simp add: Followup_def\<close>)
  then show ?thesis by (auto simp: running_step)
qed

lemma open_tracks: "tracks turn_log open_agent"
  using turn_start_confirmed [OF running_tracks proposing_step turn_step] by (auto simp: open_step_sample)

lemma open_inbox: "pendingInbox open_agent = Some queued_inbox"
  by (simp add: open_agent_def proposing_agent_def running_agent_def)

lemma claimed_log_ok: "log_ok claimed_log" "log_ok turn_log"
  using Commit_ok [OF _ claimed_step] open_tracks by (simp_all add: tracks_def)

section \<open>The agent\<close>

text \<open>
  C4: Every state that an agent can reach by calls of its operations (admission, claims, steps,
  the start, advance and close of model requests, tools, settlement, recovery, close and release; and the
  assignments of the execution flow to the retry and the failure) keeps the invariant of its
  turn, step, preparation, settlement, maintenance and execution.  An agent that admits
  execution or has a turn always has a well-formed inbox, which the code uses unchecked.
  A model request it retains belongs to the running execution and to its session, is in a state
  that a run of a request reaches, and, unless it is finished with its stream closed,
  belongs to the current step, which is still requesting.
\<close>

theorem reachable_agents_ok:
  assumes "agent_run a"
  shows "agent_ok a \<and>
    (CheckExecution a = Inr () \<or> execution a \<noteq> ExecutionIdle \<or> currentTurn a \<noteq> None \<longrightarrow>
      (\<exists>p. pendingInbox a = Some p \<and> inbox_ok p)) \<and>
    (case modelRequest a of
       None \<Rightarrow> True
     | Some q \<Rightarrow>
         execution a = ExecutionRunning \<and> (\<exists>next_op. request_run (q, next_op)) \<and>
         requestSession (requestInput q) = agentID a \<and>
         (requestPhase q = RequestComplete \<and> outcomeClosed (requestOutcome q) \<or>
          (\<exists>s. currentStep a = Some s \<and> stepState s = StepRequesting \<and>
             stepPosition s = requestPosition (requestInput q))))"
proof -
  have ok: "agent_ok a" "request_fits a" using agent_run_ok [OF assms] by simp_all
  have "execution a = ExecutionRunning" if "modelRequest a \<noteq> None"
    using ok(1) that by (cases "execution a") (auto simp: agent_ok_defs)
  then show ?thesis
    using ok agent_ok_inbox [OF ok(1)] by (auto simp: request_fits_def request_settled_def split: option.splits)
qed

theorem reachable_agents_ok_witness:
  "\<exists>(b :: sample_agent) q. agent_run b \<and> agent_ok b \<and> modelRequest b = Some q \<and>
     execution b = ExecutionRunning \<and> requestSession (requestInput q) = agentID b"
proof -
  let ?run = "agent_run :: sample_agent \<Rightarrow> bool"
  have "?run restored_agent"
    by (rule agent_run.called [OF agent_run.created agent_call.intros(1) [OF restored_step]])
  then have "?run idle_agent" by (rule agent_run.called [OF _ agent_call.intros(2) [OF idle_step]])
  then have "?run running_agent" by (rule agent_run.called [OF _ agent_call.intros(5) [OF running_step]])
  then have "?run proposing_agent" by (rule agent_run.called [OF _ agent_call.intros(14) [OF proposing_step]])
  then have "?run open_agent" by (rule agent_run.called [OF _ agent_call.intros(15) [OF open_step_sample]])
  then have "?run claiming_agent" by (rule agent_run.called [OF _ agent_call.intros(16) [OF claim_step]])
  then have "?run (preparing_agent HooksPending)" by (rule agent_run.called [OF _ agent_call.intros(17) [OF hooked_step]])
  moreover obtain x where "PreparePreStep (preparing_agent HooksPending) = Inr (preparing_agent DecisionPending, x)"
    using deciding_step by (cases "PreparePreStep (preparing_agent HooksPending)") auto
  ultimately have "?run (preparing_agent DecisionPending)" by (rule agent_run.called [OF _ agent_call.intros(18)])
  then have "?run (preparing_agent ContextPending)" by (rule agent_run.called [OF _ agent_call.intros(19) [OF entered_step]])
  then have "?run stepping_agent" by (rule agent_run.called [OF _ agent_call.intros(21) [OF stepping_step]])
  then have "?run opened_agent" by (rule agent_run.called [OF _ agent_call.intros(22) [OF opened_step]])
  then have "?run supplied_agent" by (rule agent_run.called [OF _ agent_call.intros(23) [OF supplied_step]])
  then have "?run requesting_agent" by (rule agent_run.called [OF _ agent_call.intros(24) [OF requesting_step]])
  moreover obtain b next_op where b: "AgentStartRequest requesting_agent = Inr (b, next_op)"
    using requested_step by (auto simp: isOk_iff)
  ultimately have run: "?run b" by (rule agent_run.called [OF _ agent_call.intros(25)])
  obtain q where "modelRequest b = Some q" using AgentStartRequest_Inr [OF b] by auto
  with run reachable_agents_ok [OF run] show ?thesis by auto
qed

text \<open>
  C8: An admitted message reaches the inbox.  When the batch that \<open>admit\<close> prepared
  commits, confirming it appends exactly that message to the queue it was meant for (the
  next turn, when a waking message meets a cancelled execution), reports it as inserted,
  leaves the agent current with the new log, and a waking message has the agent running.
\<close>

theorem admitted_message_is_queued:
  assumes "tracks l a" "pendingInbox a = Some p" "inbox_fits p" "canonical_user m"
    "admit t m wake a = Inr proposal"
    "Commit clock ctx (Batch (editDrafts (admitEdit proposal))) l = (l', r, None)"
  shows "\<exists>b u. ConfirmAdmission proposal r a = Inr (b, no_changes\<lparr>changesInserted := [m]\<rparr>) \<and> tracks l' b \<and>
    u = (if wake \<and> cancelCause a \<noteq> None then NextTurn else t) \<and>
    pendingInbox b = Some (if u = NextTurn then p\<lparr>nextTurn := nextTurn p @ [m]\<rparr>
                           else p\<lparr>nextStep := nextStep p @ [m]\<rparr>) \<and>
    (wake \<longrightarrow> StatusRunning b)"
proof -
  define u where "u = (if wake \<and> cancelCause a \<noteq> None then NextTurn else t)"
  obtain b where "ConfirmAdmission proposal r a = Inr (b, no_changes\<lparr>changesInserted := [m]\<rparr>)" "tracks l' b"
    "pendingInbox b = Some (set_queue p u (queue_of p u @ [m]))" "wake \<longrightarrow> StatusRunning b"
    using admit_confirmed [OF assms] unfolding u_def by blast
  then have "ConfirmAdmission proposal r a = Inr (b, no_changes\<lparr>changesInserted := [m]\<rparr>) \<and> tracks l' b \<and>
    u = (if wake \<and> cancelCause a \<noteq> None then NextTurn else t) \<and>
    pendingInbox b = Some (if u = NextTurn then p\<lparr>nextTurn := nextTurn p @ [m]\<rparr>
                           else p\<lparr>nextStep := nextStep p @ [m]\<rparr>) \<and> (wake \<longrightarrow> StatusRunning b)"
    by (simp add: set_queue_def queue_of_def u_def)
  then show ?thesis by blast
qed

theorem admitted_message_is_queued_witness:
  "tracks queued_log running_agent \<and> StatusRunning running_agent \<and> pendingInbox running_agent = Some queued_inbox"
proof -
  have "admit NextTurn sample_prompt True idle_agent = Inr sample_proposal"
    using proposal_step by (simp add: Followup_def)
  from admitted_message_is_queued [OF idle_tracks idle_inbox inboxes_fit(1) canonical_prompt this queued_step]
  have "tracks queued_log running_agent \<and> StatusRunning running_agent" by (simp add: running_step)
  then show ?thesis by (simp add: running_agent_def)
qed

text \<open>
  C9: A committed claim takes its input from the inbox exactly once: everything waiting for
  the next step and, before the first step of a turn, the first message waiting for the next
  turn, in that order; what it took is handed to the hooks and the agent stays current.
\<close>

theorem claim_takes_its_input:
  assumes "tracks l a" "pendingInbox a = Some p" "inbox_fits p" "PrepareInput a = Inr (b, edit)"
    "Commit clock ctx (Batch (editDrafts edit)) l = (l', r, None)"
  shows "\<exists>c prep taken. ConfirmInput r b = Inr c \<and> tracks l' c \<and> preparing c = Some prep \<and>
    prepState prep = HooksPending \<and> prepClaimed prep = nextStep p @ taken \<and>
    taken = (if LastStep (currentTurn a) = 0 then take 1 (nextTurn p) else []) \<and>
    pendingInbox c = Some \<lparr>nextTurn = drop (length taken) (nextTurn p), nextStep = []\<rparr>"
proof -
  have "drop (length (take (claim_count a) (nextTurn p))) (nextTurn p) = drop (claim_count a) (nextTurn p)"
    by (cases "claim_count a \<le> length (nextTurn p)") simp_all
  moreover have "take (claim_count a) (nextTurn p) = (if LastStep (currentTurn a) = 0 then take 1 (nextTurn p) else [])"
    by (simp add: claim_count_def)
  ultimately show ?thesis using claim_confirmed [OF assms] by (metis (no_types, lifting))
qed

theorem claim_takes_its_input_witness:
  "\<exists>c prep. ConfirmInput claimed_result claiming_agent = Inr c \<and> tracks claimed_log c \<and>
    preparing c = Some prep \<and> prepClaimed prep = [sample_prompt] \<and> pendingInbox c = Some empty_inbox"
proof -
  have "LastStep (currentTurn open_agent) = 0" by code_simp
  with claim_takes_its_input [OF open_tracks open_inbox inboxes_fit(2) claim_step claimed_step] show ?thesis
    by (force simp: queued_inbox_def empty_inbox_def)
qed

lemma claim_draft_types:
  "PrepareInput a = Inr (b, edit) \<Longrightarrow> pendingInbox a = Some p \<Longrightarrow>
   list_all (\<lambda>d. draftType d = InboxSplicedEventName) (editDrafts edit)"
proof -
  have one: "list_all (\<lambda>d. draftType d = InboxSplicedEventName) (editDrafts e)"
    if "prepare p t s c ms d = Inr e" for t s c ms d e
    using that by (auto simp: prepare_def bindE_Inr_iff Let_def no_edit_def NewEventDraft_Inr split: if_splits)
  assume "PrepareInput a = Inr (b, edit)" "pendingInbox a = Some p"
  from PrepareInput_Inr [OF this] obtain t where "PrepareClaim p t = Inr edit" by blast
  then show ?thesis
    by (auto simp: PrepareClaim_def bindE_Inr_iff join_edits_def dest!: one split: if_splits)
qed

lemma no_preparation: "claiming_agent\<lparr>preparing := None\<rparr> = open_agent"
  by code_simp

text \<open>
  C10: A claim whose acknowledgement was lost is recovered exactly.  Whatever other writers
  appended meanwhile, recovery over a snapshot either finds no claim of this preparation and
  drops it, so that its input stays queued, or finds the one that committed and then does
  precisely what confirming it at once would have done.
\<close>

theorem lost_claim_is_recovered:
  assumes "tracks l a" "pendingInbox a = Some p" "inbox_fits p" "PrepareInput a = Inr (b, edit)"
    "editDrafts edit \<noteq> []" "log_ok l2" "logHeader l2 = logHeader l" "list_all no_splice es"
    "entries l2 = (if durable then entries l' else entries l) @ es"
    "durable \<Longrightarrow> Commit clock ctx (Batch (editDrafts edit)) l = (l', r, None)"
  shows "ReconcileInput (Snapshot l2) b =
    (if durable then bindE (ConfirmInput r b) (\<lambda>c. Inr (c, True)) else Inr (b\<lparr>preparing := None\<rparr>, False))"
proof (cases durable)
  case True
  then have c: "Commit clock ctx (Batch (editDrafts edit)) l = (l', r, None)" using assms(10) by simp
  have "logHeader l' = logHeader l" using commitBatch_entries Batch_commit [OF c] by blast
  with True assms lost_claim_found [OF assms(1-4) c claim_draft_types [OF assms(4,2)] assms(6)]
  show ?thesis by simp
next
  case False
  with assms lost_claim_absent [OF assms(1,2,4,5,6,7)] show ?thesis by simp
qed

theorem lost_claim_is_recovered_witness:
  "ReconcileInput (Snapshot claimed_log) claiming_agent =
     bindE (ConfirmInput claimed_result claiming_agent) (\<lambda>c. Inr (c, True)) \<and>
   ReconcileInput (Snapshot turn_log) claiming_agent = Inr (open_agent, False)"
proof
  have ne: "editDrafts sample_claim \<noteq> []" by (simp add: sample_claim_def)
  have h: "logHeader claimed_log = logHeader turn_log" by (simp add: claimed_log_def)
  note r = lost_claim_is_recovered [OF open_tracks open_inbox inboxes_fit(2) claim_step ne]
  show "ReconcileInput (Snapshot claimed_log) claiming_agent =
      bindE (ConfirmInput claimed_result claiming_agent) (\<lambda>c. Inr (c, True))"
    using r [of claimed_log "[]" True claimed_log] claimed_log_ok h claimed_step by simp
  show "ReconcileInput (Snapshot turn_log) claiming_agent = Inr (open_agent, False)"
    using r [of turn_log "[]" False] claimed_log_ok no_preparation by simp
qed

text \<open>
  A started turn is the turn the log records.  When the start that \<open>PrepareTurn\<close>
  proposed commits, also by a retry, \<open>ConfirmTurn\<close> accepts its result, the turn is open
  under the number after the last one, and a fresh start makes the log's last turn that
  number.
\<close>

theorem started_turn_is_recorded:
  assumes "tracks l a" "PrepareTurn a = (b, Inr beginning)"
    "Commit clock ctx (boundaryWrite (TurnStartFact beginning)) l = (l', r, None)"
  shows "\<exists>c t. ConfirmTurn r b = Inr c \<and> tracks l' c \<and> currentTurn c = Some t \<and> currentState t = StateOpen \<and>
    turnNumber t = lastTurn a + 1 \<and> lastTurn c = turnNumber t \<and>
    (l' \<noteq> l \<longrightarrow> LastNumber (entries l') = Inr (lastTurn c))"
  by (rule turn_start_confirmed [OF assms])

theorem started_turn_is_recorded_witness:
  "tracks turn_log open_agent \<and> lastTurn open_agent = 1"
  using started_turn_is_recorded [OF running_tracks proposing_step turn_step]
  by (auto simp: open_step_sample open_agent_def)


section \<open>Boundary facts\<close>

text \<open>An event that is not of the kinds a fact's scan looks at.\<close>

fun foreign_to :: "boundary \<Rightarrow> event \<Rightarrow> bool" where
  "foreign_to (TurnStartFact p) e = (evType e \<noteq> ''turn/start'')"
| "foreign_to (TurnEndFact p) e = (evType e \<noteq> ''turn/end'')"
| "foreign_to (EndStepFact p) e = (evType e \<noteq> ''step/start'' \<and> evType e \<noteq> ''step/end'')"

fun wf_boundary :: "boundary \<Rightarrow> bool" where
  "wf_boundary (TurnStartFact p) = wf_turn_start p"
| "wf_boundary (TurnEndFact p) = wf_turn_end p"
| "wf_boundary (EndStepFact p) = wf_end_step p"

text \<open>
  A retried boundary fact is a no-op.  Once the start of a turn, the end of a step or
  the end of a turn took effect, committing the same fact again, after events of other kinds
  were appended, changes nothing and returns the same result.
\<close>

theorem boundary_retry_is_noop:
  assumes "wf_boundary f" "log_ok l" "Commit clock ctx (boundaryWrite f) l = (l1, r, None)"
    "firstSeq r < nextSeq r" "live ctx'" "log_ok l2" "logHeader l2 = logHeader l1"
    "entries l2 = entries l1 @ es" "list_all (foreign_to f) es"
  shows "Commit clock' ctx' (boundaryWrite f) l2 = (l2, r, None)"
proof (cases f)
  case (TurnStartFact p)
  have "list_all (turn_start_write.unseen p) es"
    using assms(9) TurnStartFact unseen_boundaries(1) by (auto simp: list_all_iff)
  with turn_start_write.retry_after_others [of p, OF _ assms(2) _ assms(4-8)] assms(1,3) TurnStartFact
  show ?thesis by simp
next
  case (TurnEndFact p)
  have "list_all (turn_end_write.unseen p) es"
    using assms(9) TurnEndFact unseen_boundaries(2) by (auto simp: list_all_iff)
  with turn_end_write.retry_after_others [of p, OF _ assms(2) _ assms(4-8)] assms(1,3) TurnEndFact
  show ?thesis by simp
next
  case (EndStepFact p)
  have "list_all (end_step_write.unseen p) es"
    using assms(9) EndStepFact unseen_boundaries(3) by (auto simp: list_all_iff)
  with end_step_write.retry_after_others [of p, OF _ assms(2) _ assms(4-8)] assms(1,3) EndStepFact
  show ?thesis by simp
qed

theorem boundary_retry_is_noop_witness:
  "Commit (\<lambda>i. 9) live_context (boundaryWrite (TurnStartFact sample_beginning)) claimed_log =
     (claimed_log, turn_result, None)"
proof (rule boundary_retry_is_noop [OF _ _ turn_step])
  show "wf_boundary (TurnStartFact sample_beginning)" by code_simp
  show "log_ok queued_log" using running_tracks by (simp add: tracks_def)
  show "firstSeq turn_result < nextSeq turn_result" by code_simp
  show "list_all (foreign_to (TurnStartFact sample_beginning)) [draft_event (hd (editDrafts sample_claim)) 2 3]"
    by code_simp
qed (use claimed_log_ok in \<open>simp_all add: claimed_log_def\<close>)

section \<open>Turns and steps\<close>

text \<open>
  In every run of a turn its invariant holds, its steps are numbered from one without
  gaps, and closing it was the last transition.
\<close>

theorem turn_runs_count_steps:
  assumes "turn_run n ops t"
  shows "turn_ok t \<and> turnNumber t = n \<and> opened_steps ops = map (\<lambda>k. int k + 1) [0..<nat (lastStep t)] \<and>
    (OpClosed \<in> set ops \<longrightarrow> ops = butlast ops @ [OpClosed] \<and> currentState t = StateClosed)"
proof -
  have "ops = butlast ops @ [OpClosed] \<and> currentState t = StateClosed" if closed: "OpClosed \<in> set ops"
  proof -
    obtain xs ys where s: "ops = xs @ [OpClosed] @ ys" using split_list [OF closed] by auto
    then have y: "ys = []" using turn_run_closed [of n xs OpClosed ys t] assms by simp
    with s assms obtain u where "turn_apply OpClosed u = Inr t" by (auto elim: turn_run_snoc)
    then show ?thesis using s y by (auto simp: turn_op_Inr)
  qed
  then show ?thesis using turn_run_ok [OF assms] turn_run_steps [OF assms] by blast
qed

definition short_turn :: "turn_op list" where
  "short_turn = [OpOpen, OpStepping 1, OpAfterStep TurnResultCompleted, OpSettling TurnResultCompleted, OpClosed]"

lemma short_turn_run:
  "turn_run 4 short_turn \<lparr>turnNumber = 4, lastStep = 1, currentState = StateClosed, conclusion = TurnResultCompleted\<rparr>"
  "turn_run 4 (butlast short_turn)
     \<lparr>turnNumber = 4, lastStep = 1, currentState = StateSettling, conclusion = TurnResultCompleted\<rparr>"
proof -
  let ?t = "\<lambda>s k r. \<lparr>turnNumber = 4, lastStep = s, currentState = k, conclusion = r\<rparr>"
  have n: "turn_run 4 [] (?t 0 StateProposed TurnResultNone)"
    by (rule turn_run.proposed) (simp add: NewTurn_def maxNumber_def)
  have o: "turn_run 4 [OpOpen] (?t 0 StateOpen TurnResultNone)"
    using turn_run.accepted [OF n, of OpOpen] by (simp add: turn_op_Inr)
  have s: "turn_run 4 [OpOpen, OpStepping 1] (?t 1 StateStepping TurnResultNone)"
    using turn_run.accepted [OF o, of "OpStepping 1"] by (simp add: turn_op_Inr)
  have e: "turn_run 4 [OpOpen, OpStepping 1, OpAfterStep TurnResultCompleted] (?t 1 StateOpen TurnResultCompleted)"
    using turn_run.accepted [OF s, of "OpAfterStep TurnResultCompleted"] by (simp add: turn_op_Inr)
  show f: "turn_run 4 (butlast short_turn) (?t 1 StateSettling TurnResultCompleted)"
    using turn_run.accepted [OF e, of "OpSettling TurnResultCompleted"]
    by (simp add: turn_op_Inr terminal_def short_turn_def)
  show "turn_run 4 short_turn (?t 1 StateClosed TurnResultCompleted)"
    using turn_run.accepted [OF f, of OpClosed] by (simp add: turn_op_Inr short_turn_def)
qed

theorem turn_runs_count_steps_witness:
  "opened_steps short_turn = [1] \<and> OpClosed \<in> set short_turn"
  using turn_runs_count_steps [OF short_turn_run(1)] by (simp add: short_turn_def)

text \<open>
  Every turn that settles can report its end: the draft exists, is of type turn/end,
  and decodes to the number of the turn and the reason its conclusion stands for.
\<close>

theorem turn_end_reports_conclusion:
  assumes "turn_run n ops t" "currentState t = StateSettling" "valid_problem prob cancellation"
  shows "\<exists>d. EndDraft prob cancellation (Some t) = Inr d \<and> draftType d = ''turn/end'' \<and>
    DecodeTurnEnd (draftData d) =
      Inr \<lparr>endedTurn = n, endedReason = Some (reason_of (conclusion t) prob cancellation)\<rparr>"
  using EndDraft_settling [OF _ assms(2,3)] turn_run_ok [OF assms(1)] by auto

theorem turn_end_reports_conclusion_witness:
  "\<exists>d. EndDraft None None (Some \<lparr>turnNumber = 4, lastStep = 1, currentState = StateSettling,
      conclusion = TurnResultCompleted\<rparr>) = Inr d \<and>
    DecodeTurnEnd (draftData d) = Inr \<lparr>endedTurn = 4, endedReason = Some TurnCompleted\<rparr>"
proof -
  have "valid_problem None None"
    by (simp add: valid_problem_def unknown_failure_def valid_failure_def)
  from turn_end_reports_conclusion [OF short_turn_run(2) _ this] show ?thesis by auto
qed


text \<open>
  A closed step is in the log as it ran: the events that its transitions acknowledged
  are, in increasing sequence, its start, the first of its admitted messages in order, one
  event each, and its end; a step that asked the model had all its messages committed.
\<close>

theorem closed_step_acknowledged:
  assumes "step_run q i ops s" "stepState s = StepClosed"
  shows "\<exists>e0 es e1 ds. acknowledged ops = e0 # es @ [e1] \<and> sorted_wrt (<) (map evSeq (acknowledged ops)) \<and>
    ValidateEvent (position_draft ''step/start'' q) e0 = Inr () \<and>
    mapE input_draft (take (inputOffset s) (step_input.inputMessages i)) = Inr ds \<and>
    list_all2 (\<lambda>d e. ValidateEvent d e = Inr ()) ds es \<and>
    ValidateEvent (position_draft ''step/end'' q) e1 = Inr () \<and>
    (OpRequesting \<in> set ops \<longrightarrow> inputOffset s = length (step_input.inputMessages i))"
  using step_run_acknowledged [OF assms(1)] step_run_requested [OF assms(1)] assms(2)
  unfolding ack_ok_def by auto

definition step_events :: "event list" where
  "step_events =
     [draft_event (position_draft ''step/start'' \<lparr>posTurn = 1, posStep = 1\<rparr>) 3 4,
      draft_event (projr (input_draft sample_prompt)) 4 5,
      draft_event (position_draft ''step/end'' \<lparr>posTurn = 1, posStep = 1\<rparr>) 5 6]"

definition step_ops :: "step_op list" where
  "step_ops = [OpConfirmStart (step_events ! 0), OpConfirmMessage (one_result ''s'' (step_events ! 1)), OpRequesting,
     OpSettle StepResultCompleted, OpConfirmEnd (step_events ! 2)]"

definition step_input :: "unit step_input" where
  "step_input = \<lparr>step_input.inputMessages = [sample_prompt], inputPrompt = ()\<rparr>"

definition closed_step :: "unit step" where
  "closed_step = \<lparr>inputOffset = 1, lastInputSeq = 4, stepInput = Some step_input,
     stepPosition = \<lparr>posTurn = 1, posStep = 1\<rparr>, stepState = StepClosed, stepConclusion = StepResultCompleted\<rparr>"

lemma closed_step_run: "step_run \<lparr>posTurn = 1, posStep = 1\<rparr> step_input step_ops closed_step"
proof -
  let ?run = "step_run \<lparr>posTurn = 1, posStep = 1\<rparr> step_input"
  let ?s = "\<lambda>n q k r. closed_step\<lparr>inputOffset := n, lastInputSeq := q, stepState := k, stepConclusion := r\<rparr>"
  have "NewStep 1 1 = Inr ((?s 0 0 StepProposed StepResultNone)\<lparr>stepInput := None\<rparr>)" by code_simp
  from step_run.captured [of "\<lparr>posTurn = 1, posStep = 1\<rparr>", simplified, OF this, of step_input]
  have "?run [] (?s 0 0 StepProposed StepResultNone)" by (simp add: closed_step_def)
  then have "?run [step_ops ! 0] (?s 0 3 StepOpen StepResultNone)"
    by (rule step_run.accepted [where ops = "[]", simplified]) code_simp
  then have "?run [step_ops ! 0, step_ops ! 1] (?s 1 4 StepOpen StepResultNone)"
    by (rule step_run.accepted [where ops = "[_]", simplified]) code_simp
  then have "?run [step_ops ! 0, step_ops ! 1, step_ops ! 2] (?s 1 4 StepRequesting StepResultNone)"
    by (rule step_run.accepted [where ops = "[_, _]", simplified]) code_simp
  then have "?run [step_ops ! 0, step_ops ! 1, step_ops ! 2, step_ops ! 3] (?s 1 4 StepSettling StepResultCompleted)"
    by (rule step_run.accepted [where ops = "[_, _, _]", simplified]) code_simp
  then have "?run [step_ops ! 0, step_ops ! 1, step_ops ! 2, step_ops ! 3, step_ops ! 4] closed_step"
    by (rule step_run.accepted [where ops = "[_, _, _, _]", simplified]) code_simp
  then show ?thesis by (simp add: step_ops_def)
qed

theorem closed_step_acknowledged_witness:
  "length (acknowledged step_ops) = 3 \<and> sorted_wrt (<) (map evSeq (acknowledged step_ops))"
proof -
  have "stepState closed_step = StepClosed" by (simp add: closed_step_def)
  moreover have "length (acknowledged step_ops) = 3" by code_simp
  ultimately show ?thesis using closed_step_acknowledged [OF closed_step_run] by blast
qed

section \<open>Tool batches\<close>

text \<open>
  C25: A batch of tool calls settles in the order of the model: the calls accepted or
  skipped so far are the first ones, each once and in order; at most the limit is in flight,
  and these are the started calls that have not finished; and a complete batch that no
  execution failure stopped has settled every call.
\<close>

theorem batch_settles_in_order:
  assumes "batch_run n limit ops b"
  shows "settled_calls ops = map int [0..<nat (nextToAccept b)] \<and> nat (nextToAccept b) \<le> n \<and>
    inFlight b = int (length (open_calls b)) \<and> inFlight b \<le> limit \<and>
    (batchCompleted b \<longrightarrow> inFlight b = 0) \<and>
    (batchCompleted b \<and> batchStop b \<noteq> ExecutionFailed \<longrightarrow> settled_calls ops = map int [0..<n])"
  using batch_run_settled [OF assms] batch_run_ok [OF assms] by (auto simp: batch_ok_def)

definition batch_ops :: "batch_op list" where
  "batch_ops = [BatchStart 0, BatchStart 1, BatchComplete 1, BatchStop BatchCanceled, BatchComplete 0,
     BatchAccept 0 False, BatchAccept 1 True, BatchSkip 2, BatchClose]"

definition closed_batch :: tool_batch where
  "closed_batch = \<lparr>batchCompleted = True, batchStop = BatchCanceled, batchLimit = 2,
     batchFinished = [True, True, False], nextToStart = 3, nextToAccept = 3, inFlight = 0, batchStopsModel = True\<rparr>"

fun batch_apply_all :: "batch_op list \<Rightarrow> tool_batch \<Rightarrow> tool_batch res" where
  "batch_apply_all [] b = Inr b"
| "batch_apply_all (op # ops) b = bindE (batch_apply op b) (\<lambda>c. batch_apply_all ops c)"

lemma batch_apply_all_run:
  "batch_run n limit before b \<Longrightarrow> batch_apply_all ops b = Inr c \<Longrightarrow> batch_run n limit (before @ ops) c"
proof (induction ops arbitrary: before b)
  case (Cons op ops)
  then obtain d where d: "batch_apply op b = Inr d" "batch_apply_all ops d = Inr c" by (auto simp: bindE_Inr_iff)
  from Cons.IH [OF batch_run.accepted [OF Cons.prems(1) d(1)] d(2)] show ?case by simp
qed simp

lemma closed_batch_run: "batch_run 3 2 batch_ops closed_batch"
proof -
  have "NewBatch (int 3) 2 = Inr (projr (NewBatch 3 2))" by code_simp
  then have "batch_run 3 2 [] (projr (NewBatch 3 2))" by (rule batch_run.proposed)
  moreover have "batch_apply_all batch_ops (projr (NewBatch 3 2)) = Inr closed_batch" by code_simp
  ultimately show ?thesis using batch_apply_all_run [of 3 2 "[]"] by simp
qed

theorem batch_settles_in_order_witness: "settled_calls batch_ops = [0, 1, 2] \<and> batchCompleted closed_batch"
  using batch_settles_in_order [OF closed_batch_run] by (simp add: closed_batch_def upt_rec)


section \<open>The inbox\<close>

text \<open>
  C26: The inbox loses and invents nothing.  Applying committed events to a restored inbox
  keeps it well-formed, accounts for every message (what was pending or inserted is still
  pending, was discarded or was claimed), and gives the inbox that restoring from the
  longer log gives.
\<close>

theorem inbox_conserves_messages:
  assumes "NewInbox md xs = Inr p" "ApplyInbox p es = Inr (q, c)"
  shows "inbox_ok q \<and> NewInbox md (xs @ es) = Inr q \<and>
    pending_mset p + mset (changesInserted c) =
      pending_mset q + mset (changesDiscarded c) + mset (changesClaimed c)"
  using NewInbox_append [OF assms(1), of es] ApplyInbox_ok [OF assms(2)] assms(2)
  by (simp add: removed_mset_def add.assoc)

theorem inbox_conserves_messages_witness:
  "inbox_ok queued_inbox \<and> NewInbox sample_header (entries queued_log) = Inr queued_inbox \<and>
   pending_mset queued_inbox = {#sample_prompt#}"
proof -
  have "NewInbox sample_header [] = Inr empty_inbox" by code_simp
  moreover have "ApplyInbox empty_inbox (entries queued_log) =
      Inr (queued_inbox, no_changes\<lparr>changesInserted := [sample_prompt]\<rparr>)" by code_simp
  ultimately show ?thesis
    using inbox_conserves_messages [of sample_header "[]" empty_inbox "entries queued_log" queued_inbox]
    by (simp add: pending_mset_def empty_inbox_def no_changes_def)
qed

text \<open>
  A splice survives the wire: one with 64-bit positions and canonical messages is
  marshalled to a document that decodes to the same splice.
\<close>

theorem splice_survives_wire:
  assumes "valid_splice m"
  shows "\<exists>j. marshal_splice m = Inr j \<and> lossless j \<and> UnmarshalSplice (Doc j) = Inr m"
  by (rule splice_round_trip [OF assms])

definition sample_splice :: inbox_splice where
  "sample_splice = \<lparr>spliceTarget = NextTurn, spliceStart = 0, spliceRemoved = Some 1,
     spliceInserted = [sample_prompt], spliceOutcome = InboxCanceled\<rparr>"

theorem splice_survives_wire_witness:
  "\<exists>j. marshal_splice sample_splice = Inr j \<and> UnmarshalSplice (Doc j) = Inr sample_splice"
proof -
  have "valid_splice sample_splice"
    using canonical_prompt by (simp add: valid_splice_def sample_splice_def int64_def)
  from splice_survives_wire [OF this] show ?thesis by blast
qed

definition overflowing_splice :: inbox_splice where
  "overflowing_splice = \<lparr>spliceTarget = NextTurn, spliceStart = 1, spliceRemoved = Some (2 ^ 63 - 1),
     spliceInserted = [], spliceOutcome = []\<rparr>"

definition overflowing_log :: log where
  "overflowing_log = queued_log\<lparr>entries := entries queued_log @ [draft_event (splice_draft overflowing_splice) 1 2]\<rparr>"

lemma overflowing_draft: "validateEventDraft (splice_draft overflowing_splice) = Inr ()"
proof -
  have "valid_splice overflowing_splice" by (simp add: valid_splice_def overflowing_splice_def int64_def)
  from splice_round_trip [OF this] obtain j where "marshal_splice overflowing_splice = Inr j" "lossless j" by blast
  then show ?thesis by (simp add: splice_draft_def plain_draft_def validateEventDraft_iff)
qed

lemma overflowing_commit:
  "Commit (\<lambda>i. 2) live_context (Batch [splice_draft overflowing_splice]) queued_log =
   (overflowing_log, commit_result queued_log overflowing_log [draft_event (splice_draft overflowing_splice) 1 2], None)"
proof -
  let ?e = "draft_event (splice_draft overflowing_splice) 1 2"
  have p: "planSurface v ?e es [] = Inr no_transition" for v es
    by (simp add: planSurface_def splice_draft_def plain_draft_def draft_event_def surfaceEventTypes_def)
  have n: "length (entries queued_log) = 1" by (simp add: queued_log_def)
  have "commitBatch (\<lambda>i. 2) queued_log [splice_draft overflowing_splice] = Inr (overflowing_log, [?e])"
    using p by (simp add: overflowing_draft commitBatch_def overflowing_log_def n Let_def draft_event_def isSafeNonNegative_def
        isSafeInteger_def maxSafeInteger_def surface_drafts_def failIf_def)
  then show ?thesis
    by (simp add: Commit_def commit_body_def commit_drafts_def Batch_def fixed_build_def prepareEventDrafts_def
        overflowing_draft live_context_def)
qed

lemma queued_restores: "NewInbox sample_header (entries queued_log) = Inr queued_inbox"
  by code_simp

lemma overflowing_validation:
  "validate_splice queued_inbox overflowing_splice = Inl (Panicked ''makeslice: cap out of range'')"
  by (simp add: validate_splice_def overflowing_splice_def queued_inbox_def target_queue_def wrap64_def
      removed_count_def cloneUserMessages_def)

lemma overflowing_payload: "UnmarshalSplice (evData (draft_event (splice_draft overflowing_splice) 1 2)) = Inr overflowing_splice"
proof -
  have "valid_splice overflowing_splice" by (simp add: valid_splice_def overflowing_splice_def int64_def)
  from splice_round_trip [OF this] obtain j where
    "marshal_splice overflowing_splice = Inr j" "UnmarshalSplice (Doc j) = Inr overflowing_splice" by blast
  then show ?thesis by (simp add: splice_draft_def plain_draft_def draft_event_def)
qed

lemma overflowing_restore:
  "NewInbox (logHeader overflowing_log) (entries overflowing_log) = Inl (Panicked ''makeslice: cap out of range'')"
proof -
  have h: "logHeader overflowing_log = sample_header"
    by (simp add: overflowing_log_def queued_log_def empty_log_def new_log_def)
  have "evType (draft_event (splice_draft overflowing_splice) 1 2) = InboxSplicedEventName"
    by (simp add: splice_draft_def plain_draft_def draft_event_def)
  then have "ApplyInbox queued_inbox [draft_event (splice_draft overflowing_splice) 1 2] =
      Inl (Panicked ''makeslice: cap out of range'')"
    using detached_same [of queued_inbox] queued_restores NewInbox_append [of sample_header "entries queued_log" queued_inbox "[]"]
    by (simp add: ApplyInbox_def overflowing_payload apply_splice_def overflowing_validation splice_error_def)
  then show ?thesis
    using NewInbox_append [OF queued_restores, of "[draft_event (splice_draft overflowing_splice) 1 2]"] h
    by (simp add: overflowing_log_def)
qed

text \<open>
  C39: The bound check of a splice wraps around.  The sum of the start and the removed count
  is taken in 64 bits, so the removed count 2^63 - 1 at start 1 passes the check that should
  refuse it: the session accepts the event, and restoring the inbox panics on a negative
  capacity instead of returning the error of an invalid splice.
\<close>

theorem overflowing_splice_panics:
  "snd (snd (Commit (\<lambda>i. 2) live_context (Batch [splice_draft overflowing_splice]) queued_log)) = None \<and>
   queue_length queued_inbox NextTurn < spliceStart overflowing_splice + removed_count overflowing_splice \<and>
   NewInbox sample_header (entries (fst (Commit (\<lambda>i. 2) live_context (Batch [splice_draft overflowing_splice])
     queued_log))) = Inl (Panicked ''makeslice: cap out of range'')"
proof -
  have h: "logHeader overflowing_log = sample_header"
    by (simp add: overflowing_log_def queued_log_def empty_log_def new_log_def)
  have "queue_length queued_inbox NextTurn < spliceStart overflowing_splice + removed_count overflowing_splice"
    by (simp add: queue_length_def or_nil_def target_queue_def queued_inbox_def overflowing_splice_def removed_count_def)
  with overflowing_restore h show ?thesis by (simp add: overflowing_commit)
qed

section \<open>The prompt context\<close>

text \<open>
  C37: The view of the prompt context that an agent keeps by observing a committed event is the
  one it would restore from the whole session, except in exactly one case: the event is a
  replacement, no context message itself, that cites the message in view, and after it a context
  message is still visible.  The replacement need not shadow what it cites: observing it forgets
  a message that the model still sees.
\<close>

theorem context_view_stays_current:
  assumes "log_ok l" "Commit clock ctx (Batch [d]) l = (l', r, None)"
  shows "Refresh (Snapshot l') = Observe (hd (resultEvents r)) (Refresh (Snapshot l)) \<longleftrightarrow>
    \<not> (cites_current (hd (resultEvents r)) (Refresh (Snapshot l)) \<and> visibleCurrent (Refresh (Snapshot l')) \<noteq> None)"
proof -
  have c: "commitBatch clock l [d] = Inr (l', resultEvents r)" using Batch_commit [OF assms(2)] by simp
  then obtain e where "resultEvents r = [e]" using commitBatch_entries [OF c] by (auto simp: length_Suc_conv)
  with committed_refresh [OF assms(1)] c show ?thesis by simp
qed

definition context_draft :: event_draft where
  "context_draft = append_draft ''user/message'' (projr (marshal_message
     \<lparr>idValue = ''x'', roleValue = RoleUser, content = [TextBlock ''here''],
      origin = PluginSource contextMessageSource [] None []\<rparr>))"

text \<open>A prompt and a context message; then a replacement of the prompt alone that cites both.\<close>

definition context_log :: log where
  "context_log = fst (Commit (\<lambda>i. 2) live_context
     (Batch [append_draft ''user/message'' (projr (marshal_message sample_prompt)), context_draft]) empty_log)"

definition citing_draft :: event_draft where
  "citing_draft = (append_draft ''user/message'' (projr (marshal_message (user_text ''m2'' ''again''))))
     \<lparr>draftSources := Some [0, 1], draftSurfaceOp := Some \<lparr>opKind = ''replace'', opStart = 0, opEnd = 0\<rparr>\<rparr>"

theorem context_view_stays_current_witness:
  "Refresh (Snapshot (fst (Commit (\<lambda>i. 3) live_context (Batch [citing_draft]) context_log))) \<noteq>
     Observe (hd (resultEvents (fst (snd (Commit (\<lambda>i. 3) live_context (Batch [citing_draft]) context_log)))))
       (Refresh (Snapshot context_log)) \<and>
   visibleCurrent (Refresh (Snapshot (fst (Commit (\<lambda>i. 3) live_context (Batch [citing_draft]) context_log)))) =
     Some \<lparr>contextSequence = 1, contextText = ''here''\<rparr>"
proof -
  let ?c = "Commit (\<lambda>i. 3) live_context (Batch [citing_draft]) context_log"
  have n: "snd (snd ?c) = None"
    "cites_current (hd (resultEvents (fst (snd ?c)))) (Refresh (Snapshot context_log))"
    "visibleCurrent (Refresh (Snapshot (fst ?c))) = Some \<lparr>contextSequence = 1, contextText = ''here''\<rparr>" by code_simp+
  have "log_ok context_log"
    unfolding context_log_def by (rule Commit_ok [OF empty_log_ok surjective_pairing [THEN trans]]) (simp add: prod_eq_iff)
  moreover have "?c = (fst ?c, fst (snd ?c), None)" using n(1) by (simp add: prod_eq_iff)
  ultimately show ?thesis using context_view_stays_current n(2,3) by (metis option.distinct(1))
qed

end
