(* ===== verification/ToolWrites.thy ===== *)
theory ToolWrites
  imports BoundaryWrites Inbox
begin

text \<open>
  The batches an agent commits for its tool calls (\<open>src/agentloop/tool_write.go\<close>): the call or
  result of one model call, and the insertion of an authored context message.  Both scan the
  whole snapshot for the event that carries their identity and take the batch from there.
\<close>

section \<open>Finding a batch\<close>

text \<open>
  The loop: every occurrence of the identity in an event is one match.  A second match, or a
  batch that does not fit, is an error, and every event of the batch must be its draft's.
\<close>

fun validate_batch :: "event_draft list \<Rightarrow> event list \<Rightarrow> unit res" where
  "validate_batch (d # ds) (e # es) = bindE (ValidateEvent d e) (\<lambda>_. validate_batch ds es)"
| "validate_batch ds es = Inr ()"

definition match_batch ::
  "goerr \<Rightarrow> event_draft list \<Rightarrow> event list \<Rightarrow> nat \<Rightarrow> nat option \<Rightarrow> nat option res" where
  "match_batch duplicate drafts events index found =
     bindE (failIf (found \<noteq> None \<or> index + length drafts > length events) duplicate) (\<lambda>_.
     bindE (validate_batch drafts (drop index events)) (\<lambda>_. Inr (Some index)))"

fun match_times ::
  "nat \<Rightarrow> goerr \<Rightarrow> event_draft list \<Rightarrow> event list \<Rightarrow> nat \<Rightarrow> nat option \<Rightarrow> nat option res" where
  "match_times 0 duplicate drafts events index found = Inr found"
| "match_times (Suc n) duplicate drafts events index found =
     bindE (match_batch duplicate drafts events index found) (match_times n duplicate drafts events index)"

fun locate_batch ::
  "goerr \<Rightarrow> goerr \<Rightarrow> (event \<Rightarrow> nat res) \<Rightarrow> event_draft list \<Rightarrow> event list \<Rightarrow> nat \<Rightarrow> nat option \<Rightarrow> event list \<Rightarrow>
   nat option res" where
  "locate_batch discontinuous duplicate hits drafts events index found [] = Inr found"
| "locate_batch discontinuous duplicate hits drafts events index found (entry # rest) =
     bindE (failIf (evSeq entry \<noteq> int index) discontinuous) (\<lambda>_.
     bindE (hits entry) (\<lambda>n.
     bindE (match_times n duplicate drafts events index found) (\<lambda>found'.
     locate_batch discontinuous duplicate hits drafts events (Suc index) found' rest)))"

definition batch_result :: "string \<Rightarrow> event_draft list \<Rightarrow> event list \<Rightarrow> nat \<Rightarrow> write_result" where
  "batch_result session drafts events index =
     range_result session (evSeq (events ! index)) (subslice events index (length drafts))"

section \<open>Tool calls and results\<close>

record tool_write =
  toolSession :: string
  toolPosition :: step_position
  toolCallID :: string
  toolEvent :: string
  toolDrafts :: "event_draft list"

definition unmarshal_call_id :: "raw \<Rightarrow> string res" where
  "unmarshal_call_id r =
     bindE (fields_of r) (\<lambda>fs.
     bindE (get_int64 fs ''turn'') (\<lambda>_.
     bindE (get_int64 fs ''step'') (\<lambda>_.
     bindE (get_string fs ''callId'') (\<lambda>c.
     bindE (get_string fs ''name'') (\<lambda>_.
     bindE (get_string fs ''arguments'') (\<lambda>_. Inr c))))))"

fun last_result_id :: "string \<Rightarrow> content_block list \<Rightarrow> string" where
  "last_result_id i [] = i"
| "last_result_id i (ToolResultBlock c bs e p # rest) = last_result_id c rest"
| "last_result_id i (b # rest) = last_result_id i rest"

definition tool_identifier :: "event \<Rightarrow> string res" where
  "tool_identifier entry =
     (if evType entry = ''tool/call'' then unmarshal_call_id (evData entry)
      else bindE (decodeDerivedMessage entry) (\<lambda>m. case m of
          None \<Rightarrow> Inl (err ''agentloop: tool result message is absent'')
        | Some x \<Rightarrow> Inr (last_result_id [] (content_value (message_val x)))))"

definition tool_hits :: "tool_write \<Rightarrow> event \<Rightarrow> nat res" where
  "tool_hits w entry =
     (if evType entry \<noteq> toolEvent w then Inr 0
      else bindE (unmarshal_position (evData entry)) (\<lambda>position.
        if position \<noteq> toolPosition w then Inr 0
        else bindE (tool_identifier entry) (\<lambda>identifier. Inr (if identifier = toolCallID w then 1 else 0))))"

definition tool_build :: "tool_write \<Rightarrow> snapshot \<Rightarrow> event_draft list res" where
  "tool_build w snap =
     bindE (failIf (barrierSession (snapBarrier snap) \<noteq> toolSession w)
       (err ''agentloop: tool write belongs to another Session'')) (\<lambda>_. Inr (toolDrafts w))"

definition tool_find :: "tool_write \<Rightarrow> snapshot \<Rightarrow> write_result option res" where
  "tool_find w snap =
     bindE (failIf (barrierSession (snapBarrier snap) \<noteq> toolSession w \<or>
                    barrierNext (snapBarrier snap) \<noteq> int (length (snapEvents snap)))
       (err ''agentloop: tool write requires its complete Session snapshot'')) (\<lambda>_.
     bindE (locate_batch (err ''agentloop: tool snapshot sequence is discontinuous'')
              (err ''agentloop: duplicate or incomplete tool commit'') (tool_hits w) (toolDrafts w)
              (snapEvents snap) 0 None (snapEvents snap)) (\<lambda>found.
     Inr (map_option (batch_result (toolSession w) (toolDrafts w) (snapEvents snap)) found)))"

section \<open>Context insertions\<close>

record context_write =
  contextSession :: string
  contextMessage :: string
  contextDrafts :: "event_draft list"

definition context_hits :: "context_write \<Rightarrow> event \<Rightarrow> nat res" where
  "context_hits w entry =
     (if evType entry \<noteq> InboxSplicedEventName then Inr 0
      else bindE (UnmarshalSplice (evData entry)) (\<lambda>splice.
        Inr (length (filter (\<lambda>m. idValue m = contextMessage w) (spliceInserted splice)))))"

definition context_build :: "context_write \<Rightarrow> snapshot \<Rightarrow> event_draft list res" where
  "context_build w snap =
     bindE (failIf (barrierSession (snapBarrier snap) \<noteq> contextSession w)
       (err ''agentloop: context belongs to another Session'')) (\<lambda>_. Inr (contextDrafts w))"

definition context_find :: "context_write \<Rightarrow> snapshot \<Rightarrow> write_result option res" where
  "context_find w snap =
     bindE (failIf (barrierSession (snapBarrier snap) \<noteq> contextSession w \<or>
                    barrierNext (snapBarrier snap) \<noteq> int (length (snapEvents snap)))
       (err ''agentloop: context requires its complete Session snapshot'')) (\<lambda>_.
     bindE (locate_batch (err ''agentloop: context snapshot sequence is discontinuous'')
              (err ''agentloop: duplicate or incomplete context insertion'') (context_hits w) (contextDrafts w)
              (snapEvents snap) 0 None (snapEvents snap)) (\<lambda>found.
     Inr (map_option (batch_result (contextSession w) (contextDrafts w) (snapEvents snap)) found)))"

section \<open>The contract of a located batch\<close>

lemma validate_batch_iff:
  "length ds \<le> length es \<Longrightarrow>
   validate_batch ds es = Inr () \<longleftrightarrow> (\<forall>k < length ds. ValidateEvent (ds ! k) (es ! k) = Inr ())"
  by (induction ds es rule: validate_batch.induct) (auto simp: bindE_Inr_iff All_less_Suc2)

lemma match_times_same:
  "match_times n x ds es i found = Inr r \<Longrightarrow> r = found \<or> r = Some i \<and> i + length ds \<le> length es"
  by (induction n arbitrary: found) (auto simp: match_batch_def bindE_Inr_iff failIf_Inr)

lemma match_times_none:
  "match_times n x ds es i None = Inr None \<longleftrightarrow> n = 0"
  by (cases n) (auto simp: match_batch_def bindE_Inr_iff dest: match_times_same)

text \<open>The scan over the end of a log, with a match only where the index is found.\<close>

lemma locate_found:
  assumes "locate_batch x y hits ds es i found rest = Inr r"
  shows "r = found \<or> (\<exists>k \<ge> i. r = Some k \<and> k + length ds \<le> length es)"
  using assms
proof (induction rest arbitrary: i found)
  case (Cons e rest)
  then obtain n f where f: "match_times n y ds es i found = Inr f" "locate_batch x y hits ds es (Suc i) f rest = Inr r"
    by (auto simp: bindE_Inr_iff)
  from Cons.IH [OF f(2)] match_times_same [OF f(1)] show ?case
    by (metis Suc_leD le_refl)
qed simp

lemma locate_skip:
  "list_all (\<lambda>e. hits e = Inr 0) rest \<Longrightarrow> \<forall>k < length rest. evSeq (rest ! k) = int (i + k) \<Longrightarrow>
   locate_batch x y hits ds es i found rest = Inr found"
proof (induction rest arbitrary: i)
  case (Cons e rest)
  have "evSeq e = int i" using Cons.prems(2) by (auto dest: spec [of _ 0])
  moreover have "\<forall>k < length rest. evSeq (rest ! k) = int (Suc i + k)"
    using Cons.prems(2) by (auto dest: spec [of _ "Suc _"])
  ultimately show ?case using Cons by simp
qed simp

lemma locate_append:
  "locate_batch x y hits ds es i found (as @ bs) =
   bindE (locate_batch x y hits ds es i found as) (\<lambda>f. locate_batch x y hits ds es (i + length as) f bs)"
  by (induction as arbitrary: i found) (auto simp: bindE_assoc)

lemma locate_none:
  "locate_batch x y hits ds es i None rest = Inr None \<Longrightarrow> list_all (\<lambda>e. hits e = Inr 0) rest"
proof (induction rest arbitrary: i)
  case (Cons e rest)
  then obtain n f where f: "hits e = Inr n" "match_times n y ds es i None = Inr f"
    "locate_batch x y hits ds es (Suc i) f rest = Inr None" by (auto simp: bindE_Inr_iff)
  have "f = None" using locate_found [OF f(3)] by auto
  with f have "n = 0" using match_times_none by blast
  with f \<open>f = None\<close> Cons.IH show ?case by auto
qed simp

text \<open>Events appended to the log do not change a scan that succeeded on the old one.\<close>

lemma match_batch_longer:
  assumes "match_batch y ds es i found = Inr r"
  shows "match_batch y ds (es @ fs) i found = Inr r"
proof -
  have fit: "i + length ds \<le> length es" "found = None" "validate_batch ds (drop i es) = Inr ()" "r = Some i"
    using assms by (auto simp: match_batch_def bindE_Inr_iff failIf_Inr)
  then have "validate_batch ds (drop i (es @ fs)) = Inr ()"
    by (subst validate_batch_iff) (auto simp: validate_batch_iff nth_append)
  with fit show ?thesis by (simp add: match_batch_def)
qed

lemma match_times_longer: "match_times n y ds es i found = Inr r \<Longrightarrow> match_times n y ds (es @ fs) i found = Inr r"
  by (induction n arbitrary: found) (auto simp: bindE_Inr_iff dest: match_batch_longer)

lemma locate_longer:
  "locate_batch x y hits ds es i found rest = Inr r \<Longrightarrow> locate_batch x y hits ds (es @ fs) i found rest = Inr r"
proof (induction rest arbitrary: i found)
  case (Cons e rest)
  then obtain n f where "evSeq e = int i" "hits e = Inr n" "match_times n y ds es i found = Inr f"
    "locate_batch x y hits ds es (Suc i) f rest = Inr r" by (auto simp: bindE_Inr_iff failIf_Inr)
  with Cons.IH match_times_longer show ?case by simp
qed simp

locale batch_write =
  fixes wf :: "'p \<Rightarrow> bool"
    and build :: "'p \<Rightarrow> snapshot \<Rightarrow> event_draft list res"
    and findCommit :: "'p \<Rightarrow> snapshot \<Rightarrow> write_result option res"
    and drafts :: "'p \<Rightarrow> event_draft list"
    and session :: "'p \<Rightarrow> string"
    and hits :: "'p \<Rightarrow> event \<Rightarrow> nat res"
    and mismatch discontinuous duplicate :: goerr
  assumes find_locates: "findCommit p (Snapshot l) =
      bindE (failIf (headerID (logHeader l) \<noteq> session p) mismatch) (\<lambda>_.
      bindE (locate_batch discontinuous duplicate (hits p) (drafts p) (entries l) 0 None (entries l)) (\<lambda>found.
      Inr (map_option (batch_result (session p) (drafts p) (entries l)) found)))"
    and build_drafts: "build p snap = Inr ds \<Longrightarrow> ds = drafts p"
    and own_hits: "wf p \<Longrightarrow> drafts p \<noteq> [] \<and>
      (\<forall>e. ValidateEvent (hd (drafts p)) e = Inr () \<longrightarrow> hits p e = Inr 1) \<and>
      (\<forall>d e. d \<in> set (tl (drafts p)) \<longrightarrow> ValidateEvent d e = Inr () \<longrightarrow> hits p e = Inr 0)"
begin

definition unrelated :: "'p \<Rightarrow> event \<Rightarrow> bool" where
  "unrelated p e = (hits p e = Inr 0)"

lemma located_own:
  assumes "wf p" "log_ok l" "findCommit p (Snapshot l) = Inr (Some r)"
  shows "own_range l r"
proof -
  obtain k where k: "headerID (logHeader l) = session p" "r = batch_result (session p) (drafts p) (entries l) k"
    "locate_batch discontinuous duplicate (hits p) (drafts p) (entries l) 0 None (entries l) = Inr (Some k)"
    using assms(3) by (auto simp: find_locates bindE_Inr_iff failIf_Inr)
  have fit: "k + length (drafts p) \<le> length (entries l)" "0 < length (drafts p)"
    using locate_found [OF k(3)] own_hits [OF assms(1)] by auto
  then have "k < length (entries l)" by linarith
  then have "evSeq (entries l ! k) = int k" using assms(2) by (simp add: log_ok_def contiguous_def)
  with fit k show ?thesis using range_result_own [OF assms(2) fit] by (simp add: batch_result_def)
qed

lemma located_after:
  assumes "wf p" "log_ok l" "findCommit p (Snapshot l) = Inr None" "build p (Snapshot l) = Inr ds"
    "commitBatch clock l ds = Inr (l', evs)"
  shows "findCommit p (Snapshot l') = Inr (Some (commit_result l l' evs))"
proof -
  have ds: "ds = drafts p" using build_drafts assms(4) by blast
  note own = own_hits [OF assms(1)]
  have before: "headerID (logHeader l) = session p"
    "locate_batch discontinuous duplicate (hits p) (drafts p) (entries l) 0 None (entries l) = Inr None"
    using assms(3) by (auto simp: find_locates bindE_Inr_iff failIf_Inr)
  note new = commitBatch_entries [OF assms(5)]
  obtain e es where evs: "evs = e # es" using new own ds by (cases evs) auto
  have seq: "evSeq (evs ! k) = int (length (entries l) + k)" if "k < length evs" for k using new that by auto
  have valid: "ValidateEvent (drafts p ! k) (evs ! k) = Inr ()" if "k < length evs" for k using new ds that by auto
  have first: "hits p e = Inr 1" using valid [of 0] own evs by (auto simp: hd_conv_nth)
  have rest: "list_all (\<lambda>e. hits p e = Inr 0) es"
    unfolding list_all_length
  proof (intro allI impI)
    fix k assume k: "k < length es"
    have "drafts p ! Suc k \<in> set (tl (drafts p))"
      using new ds evs k by (metis Suc_less_eq length_Cons length_tl diff_Suc_1 nth_mem nth_tl)
    moreover have "ValidateEvent (drafts p ! Suc k) (es ! k) = Inr ()" using valid [of "Suc k"] evs k by simp
    ultimately show "hits p (es ! k) = Inr 0" using own by blast
  qed
  have all_l: "entries l' = entries l @ evs" "logHeader l' = logHeader l" using new by auto
  have "validate_batch (drafts p) (drop (length (entries l)) (entries l')) = Inr ()"
    using valid new ds by (subst validate_batch_iff) (auto simp: all_l)
  then have hit: "match_times 1 duplicate (drafts p) (entries l') (length (entries l)) None = Inr (Some (length (entries l)))"
    using new ds by (simp add: match_batch_def all_l)
  have skip: "locate_batch discontinuous duplicate (hits p) (drafts p) (entries l') (Suc (length (entries l)))
      (Some (length (entries l))) es = Inr (Some (length (entries l)))"
  proof (rule locate_skip [where hits = "hits p", OF rest], intro allI impI)
    fix k assume "k < length es"
    with seq [of "Suc k"] evs show "evSeq (es ! k) = int (Suc (length (entries l)) + k)" by simp
  qed
  have "locate_batch discontinuous duplicate (hits p) (drafts p) (entries l') 0 None (entries l') =
      Inr (Some (length (entries l)))"
    using locate_longer [OF before(2), of evs] seq [of 0] first hit skip
    by (simp add: all_l locate_append evs)
  moreover have "batch_result (session p) (drafts p) (entries l') (length (entries l)) = commit_result l l' evs"
    using commit_result_range [OF assms(5)] seq [of 0] before(1) new ds evs
    by (simp add: batch_result_def all_l subslice_def nth_append)
  ultimately show ?thesis using before(1) all_l by (simp add: find_locates)
qed

lemma located_stable:
  assumes "log_ok l" "log_ok l'" "logHeader l' = logHeader l" "entries l' = entries l @ es"
    "list_all (unrelated p) es" "wf p" "findCommit p (Snapshot l) = Inr (Some r)"
  shows "findCommit p (Snapshot l') = Inr (Some r)"
proof -
  obtain k where k: "headerID (logHeader l) = session p" "r = batch_result (session p) (drafts p) (entries l) k"
    "locate_batch discontinuous duplicate (hits p) (drafts p) (entries l) 0 None (entries l) = Inr (Some k)"
    using assms(7) by (auto simp: find_locates bindE_Inr_iff failIf_Inr)
  have fit: "k + length (drafts p) \<le> length (entries l)" "0 < length (drafts p)"
    using locate_found [OF k(3)] own_hits [OF assms(6)] by auto
  have seq: "\<forall>i < length es. evSeq (es ! i) = int (0 + length (entries l) + i)"
    using assms(2,4) by (auto simp: log_ok_def contiguous_def dest: spec [of _ "length (entries l) + _"])
  have "locate_batch discontinuous duplicate (hits p) (drafts p) (entries l') 0 None (entries l') = Inr (Some k)"
    using locate_longer [OF k(3), of es] locate_skip [where hits = "hits p", OF _ seq] assms(5)
    unfolding unrelated_def by (simp add: assms(4) locate_append)
  moreover have "k < length (entries l)" using fit by linarith
  then have "entries l' ! k = entries l ! k" by (simp only: assms(4) nth_append if_True)
  then have "batch_result (session p) (drafts p) (entries l') k = r"
    using fit by (simp add: k(2) batch_result_def assms(4) subslice_def)
  ultimately show ?thesis using k(1) assms(3) by (simp add: find_locates)
qed

end

sublocale batch_write \<subseteq> stable_write wf build findCommit unrelated
  by unfold_locales (blast intro: located_own located_after located_stable)+

section \<open>The two writes\<close>

text \<open>
  The writes the code constructs: the first draft carries the identity, and the drafts after it
  are of another kind.
\<close>

definition wf_tool_write :: "tool_write \<Rightarrow> bool" where
  "wf_tool_write w =
     (toolDrafts w \<noteq> [] \<and>
      tool_hits w (draft_event (hd (toolDrafts w)) 0 0) = Inr 1 \<and>
      list_all (\<lambda>d. draftType d \<noteq> toolEvent w) (tl (toolDrafts w)))"

definition wf_context_write :: "context_write \<Rightarrow> bool" where
  "wf_context_write w =
     (contextDrafts w \<noteq> [] \<and>
      context_hits w (draft_event (hd (contextDrafts w)) 0 0) = Inr 1 \<and>
      list_all (\<lambda>d. draftType d \<noteq> InboxSplicedEventName) (tl (contextDrafts w)))"

lemma other_kind_misses:
  "draftType d \<noteq> toolEvent w \<Longrightarrow> tool_hits w (draft_event d n t) = Inr 0"
  "draftType d \<noteq> InboxSplicedEventName \<Longrightarrow> context_hits v (draft_event d n t) = Inr 0"
  by (simp_all add: tool_hits_def context_hits_def draft_event_def)

lemma hits_of_data:
  assumes "evType e = evType f" "evData e = evData f"
  shows "tool_hits w e = tool_hits w f" "context_hits v e = context_hits v f"
proof -
  have same: "tool_identifier e = tool_identifier f"
    using assms by (simp add: tool_identifier_def decodeDerivedMessage_def)
  show "tool_hits w e = tool_hits w f" unfolding tool_hits_def assms same ..
  from assms show "context_hits v e = context_hits v f" by (simp add: context_hits_def)
qed

lemma drafted_hits:
  "ValidateEvent d e = Inr () \<Longrightarrow> tool_hits w e = tool_hits w (draft_event d 0 0)"
  "ValidateEvent d e = Inr () \<Longrightarrow> context_hits v e = context_hits v (draft_event d 0 0)"
  using ValidateEvent_copies [of d e] by (auto intro!: hits_of_data simp: draft_event_def)

interpretation tool_batch_write: batch_write wf_tool_write tool_build tool_find toolDrafts toolSession tool_hits
  "err ''agentloop: tool write requires its complete Session snapshot''"
  "err ''agentloop: tool snapshot sequence is discontinuous''"
  "err ''agentloop: duplicate or incomplete tool commit''"
proof unfold_locales
  fix p l
  show "tool_find p (Snapshot l) =
      bindE (failIf (headerID (logHeader l) \<noteq> toolSession p)
        (err ''agentloop: tool write requires its complete Session snapshot'')) (\<lambda>_.
      bindE (locate_batch (err ''agentloop: tool snapshot sequence is discontinuous'')
              (err ''agentloop: duplicate or incomplete tool commit'') (tool_hits p) (toolDrafts p) (entries l) 0 None
              (entries l)) (\<lambda>found.
      Inr (map_option (batch_result (toolSession p) (toolDrafts p) (entries l)) found)))"
    by (simp add: tool_find_def)
qed (auto simp: tool_build_def bindE_Inr_iff wf_tool_write_def list_all_iff drafted_hits intro: other_kind_misses)

interpretation context_batch_write: batch_write wf_context_write context_build context_find contextDrafts
  contextSession context_hits
  "err ''agentloop: context requires its complete Session snapshot''"
  "err ''agentloop: context snapshot sequence is discontinuous''"
  "err ''agentloop: duplicate or incomplete context insertion''"
proof unfold_locales
  fix p l
  show "context_find p (Snapshot l) =
      bindE (failIf (headerID (logHeader l) \<noteq> contextSession p)
        (err ''agentloop: context requires its complete Session snapshot'')) (\<lambda>_.
      bindE (locate_batch (err ''agentloop: context snapshot sequence is discontinuous'')
              (err ''agentloop: duplicate or incomplete context insertion'') (context_hits p) (contextDrafts p)
              (entries l) 0 None (entries l)) (\<lambda>found.
      Inr (map_option (batch_result (contextSession p) (contextDrafts p) (entries l)) found)))"
    by (simp add: context_find_def)
qed (auto simp: context_build_def bindE_Inr_iff wf_context_write_def list_all_iff drafted_hits intro: other_kind_misses)

end
