(* ===== verification/PromptStoreLaws.thy ===== *)
theory PromptStoreLaws
  imports PromptLayers
begin

text \<open>
  The store of a layer implements a list of registrations: what it captures is the list of
  the definitions added and not removed, in the order of their registration, whatever the
  maps, orders and entries it keeps.
\<close>

section \<open>Named definitions\<close>

text \<open>
  One kind of registration: an order of names and a map from names to values represent a
  list of definitions with distinct names.
\<close>

definition names_rep ::
  "('d \<Rightarrow> string) \<Rightarrow> ('d \<Rightarrow> 'v) \<Rightarrow> string list \<Rightarrow> (string, 'v) go_map \<Rightarrow> 'd list \<Rightarrow> bool" where
  "names_rep name val order m ds =
     (order = map name ds \<and> distinct order \<and> (\<forall>n. map_of m n = map_of (map (\<lambda>d. (name d, val d)) ds) n))"

lemma map_of_named: "map_of (map (\<lambda>d. (name d, val d)) ds) n = None \<longleftrightarrow> n \<notin> name ` set ds"
  by (force simp: map_of_eq_None_iff)

lemma map_of_named_in:
  "distinct (map name ds) \<Longrightarrow> d \<in> set ds \<Longrightarrow> map_of (map (\<lambda>d. (name d, val d)) ds) (name d) = Some (val d)"
  by (rule map_of_is_SomeI) (auto simp: comp_def)

lemma map_of_named_filter:
  "map_of (map (\<lambda>d. (name d, val d)) (filter (\<lambda>d. name d \<noteq> k) ds)) n =
     (if n = k then None else map_of (map (\<lambda>d. (name d, val d)) ds) n)"
  by (induction ds) auto

lemma names_rep_fresh: "names_rep name val order m ds \<Longrightarrow> map_of m n = None \<longleftrightarrow> n \<notin> name ` set ds"
  by (simp add: names_rep_def map_of_named)

lemma names_rep_add:
  "names_rep name val order m ds \<Longrightarrow> map_of m (name d) = None \<Longrightarrow>
   names_rep name val (order @ [name d]) (put m (name d) (val d)) (ds @ [d])"
proof -
  assume r: "names_rep name val order m ds" and n: "map_of m (name d) = None"
  then have "name d \<notin> name ` set ds" using names_rep_fresh by fastforce
  moreover from this have "map_of (map (\<lambda>d. (name d, val d)) ds) (name d) = None" by (simp add: map_of_named)
  ultimately show ?thesis using r by (auto simp: names_rep_def map_add_def split: option.split)
qed

lemma names_rep_remove:
  "names_rep name val order m ds \<Longrightarrow>
   names_rep name val (removeName order n) (unset m n) (filter (\<lambda>d. name d \<noteq> n) ds)"
  by (auto simp: names_rep_def removeName_def map_of_named_filter filter_map comp_def distinct_map_filter)

lemma map_filter_map: "(\<And>d. d \<in> set ds \<Longrightarrow> f (name d) = Some d) \<Longrightarrow> List.map_filter f (map name ds) = ds"
  by (induction ds) (auto simp: List.map_filter_simps)

lemma names_rep_view:
  assumes "names_rep name val order m ds" "\<And>d. d \<in> set ds \<Longrightarrow> mk (name d) (val d) = d"
  shows "List.map_filter (\<lambda>n. map_option (mk n) (map_of m n)) order = ds"
  using assms by (auto simp: names_rep_def map_of_named_in intro!: map_filter_map)

section \<open>Registrations\<close>

datatype 'f registration =
    RegSection "'f prompt_section"
  | RegContext "'f prompt_context"
  | RegVariable "string \<times> 'f variable_provider"
  | RegSuppressor string

type_synonym 'f registrations = "(string \<times> 'f registration) list"

fun reg_key :: "'f registration \<Rightarrow> entry_kind \<times> string" where
  "reg_key (RegSection d) = (SectionEntry, sectionName d)"
| "reg_key (RegContext d) = (ContextEntry, contextName d)"
| "reg_key (RegVariable v) = (VariableEntry, fst v)"
| "reg_key (RegSuppressor n) = (SuppressorEntry, n)"

fun section_reg :: "string \<times> 'f registration \<Rightarrow> 'f prompt_section option" where
  "section_reg (i, RegSection d) = Some d" | "section_reg r = None"

fun context_reg :: "string \<times> 'f registration \<Rightarrow> 'f prompt_context option" where
  "context_reg (i, RegContext d) = Some d" | "context_reg r = None"

fun variable_reg :: "string \<times> 'f registration \<Rightarrow> (string \<times> 'f variable_provider) option" where
  "variable_reg (i, RegVariable v) = Some v" | "variable_reg r = None"

fun suppressor_reg :: "string \<times> 'f registration \<Rightarrow> string option" where
  "suppressor_reg (i, RegSuppressor n) = Some n" | "suppressor_reg r = None"

definition registered_view :: "'f registrations \<Rightarrow> 'f layer_snapshot" where
  "registered_view regs =
     \<lparr>layerSections = List.map_filter section_reg regs, layerContexts = List.map_filter context_reg regs,
      layerVariables = List.map_filter variable_reg regs,
      layerSuppressed = (List.map_filter suppressor_reg regs \<noteq> [])\<rparr>"

text \<open>The specification of the two operations.\<close>

definition register :: "string \<Rightarrow> 'f registration \<Rightarrow> 'f registrations \<Rightarrow> 'f registrations option" where
  "register i r regs =
     (if reg_key r \<in> (\<lambda>x. reg_key (snd x)) ` set regs then None else Some (regs @ [(i, r)]))"

definition deregister :: "string \<Rightarrow> 'f registrations \<Rightarrow> 'f registrations" where
  "deregister i regs = filter (\<lambda>x. fst x \<noteq> i) regs"

section \<open>Representation\<close>

definition regs_ok :: "'f registrations \<Rightarrow> bool" where
  "regs_ok regs = (distinct (map fst regs) \<and> distinct (map (\<lambda>x. reg_key (snd x)) regs))"

definition parts_rep :: "'f prompt_store \<Rightarrow> 'f registrations \<Rightarrow> bool" where
  "parts_rep s regs =
     (names_rep sectionName (\<lambda>d. d) (storeSectionOrder s) (storeSections s) (List.map_filter section_reg regs) \<and>
      names_rep contextName (\<lambda>d. d) (storeContextOrder s) (storeContexts s) (List.map_filter context_reg regs) \<and>
      names_rep fst snd (storeVariableOrder s) (storeVariables s) (List.map_filter variable_reg regs) \<and>
      names_rep (\<lambda>n. n) (\<lambda>n. ()) (List.map_filter suppressor_reg regs) (storeSuppressors s)
        (List.map_filter suppressor_reg regs))"

definition store_represents :: "'f prompt_store \<Rightarrow> 'f registrations \<Rightarrow> bool" where
  "store_represents s regs =
     (regs_ok regs \<and> parts_rep s regs \<and> snapshotValue s = registered_view regs \<and>
      (\<forall>i. map_of (storeEntries s) i = map_option reg_key (map_of regs i)))"

lemma map_filter_append: "List.map_filter f (xs @ ys) = List.map_filter f xs @ List.map_filter f ys"
  by (induction xs) (auto simp: List.map_filter_simps split: option.split)

lemma rebuild_parts [simp]:
  "storeSections (rebuildSnapshot s) = storeSections s" "storeSectionOrder (rebuildSnapshot s) = storeSectionOrder s"
  "storeContexts (rebuildSnapshot s) = storeContexts s" "storeContextOrder (rebuildSnapshot s) = storeContextOrder s"
  "storeVariables (rebuildSnapshot s) = storeVariables s" "storeVariableOrder (rebuildSnapshot s) = storeVariableOrder s"
  "storeSuppressors (rebuildSnapshot s) = storeSuppressors s" "storeEntries (rebuildSnapshot s) = storeEntries s"
  by (simp_all add: rebuildSnapshot_def)

lemma rebuild_view: "parts_rep s regs \<Longrightarrow> snapshotValue (rebuildSnapshot s) = registered_view regs"
proof -
  assume p: "parts_rep s regs"
  have "List.map_filter (map_of (storeSections s)) (storeSectionOrder s) = List.map_filter section_reg regs"
    using names_rep_view [of sectionName "\<lambda>d. d" _ _ _ "\<lambda>n d. d"] p by (fastforce simp: parts_rep_def option.map_ident)
  moreover have "List.map_filter (map_of (storeContexts s)) (storeContextOrder s) = List.map_filter context_reg regs"
    using names_rep_view [of contextName "\<lambda>d. d" _ _ _ "\<lambda>n d. d"] p by (fastforce simp: parts_rep_def option.map_ident)
  moreover have "List.map_filter (\<lambda>n. map_option (Pair n) (map_of (storeVariables s) n)) (storeVariableOrder s) =
      List.map_filter variable_reg regs"
    using names_rep_view [of fst snd _ _ _ Pair] p by (fastforce simp: parts_rep_def)
  moreover have "storeSuppressors s \<noteq> [] \<longleftrightarrow> List.map_filter suppressor_reg regs \<noteq> []"
  proof -
    have "map_of (storeSuppressors s) n = None \<longleftrightarrow> n \<notin> set (List.map_filter suppressor_reg regs)" for n
      using names_rep_fresh [of "\<lambda>n. n" "\<lambda>n. ()"] p by (fastforce simp: parts_rep_def)
    then have "(\<forall>n. map_of (storeSuppressors s) n = None) \<longleftrightarrow> List.map_filter suppressor_reg regs = []" by simp
    moreover have "(\<forall>n. map_of (storeSuppressors s) n = None) \<longleftrightarrow> storeSuppressors s = []"
      by (cases "storeSuppressors s") (auto simp: map_of_eq_None_iff)
    ultimately show ?thesis by simp
  qed
  ultimately show ?thesis by (simp add: rebuildSnapshot_def registered_view_def)
qed

lemma parts_rep_rebuild: "parts_rep (rebuildSnapshot s) regs \<longleftrightarrow> parts_rep s regs"
  by (simp add: parts_rep_def)

lemma store_represents_rebuild:
  "regs_ok regs \<Longrightarrow> parts_rep s regs \<Longrightarrow> (\<forall>i. map_of (storeEntries s) i = map_option reg_key (map_of regs i)) \<Longrightarrow>
   store_represents (rebuildSnapshot s) regs"
  by (simp add: store_represents_def rebuild_view parts_rep_rebuild)

section \<open>The operations\<close>

definition store_add :: "string \<Rightarrow> 'f registration \<Rightarrow> 'f prompt_store \<Rightarrow> ('f prompt_store \<times> string) res" where
  "store_add i r s =
     (case r of
        RegSection d \<Rightarrow> addSection i d s
      | RegContext d \<Rightarrow> addContext i d s
      | RegVariable v \<Rightarrow> addVariable i (fst v) (snd v) s
      | RegSuppressor n \<Rightarrow> addSuppressor i n s)"

lemma key_in_view:
  "(SectionEntry, n) \<in> (\<lambda>x. reg_key (snd x)) ` set regs \<longleftrightarrow> n \<in> sectionName ` set (List.map_filter section_reg regs)"
  "(ContextEntry, n) \<in> (\<lambda>x. reg_key (snd x)) ` set regs \<longleftrightarrow> n \<in> contextName ` set (List.map_filter context_reg regs)"
  "(VariableEntry, n) \<in> (\<lambda>x. reg_key (snd x)) ` set regs \<longleftrightarrow> n \<in> fst ` set (List.map_filter variable_reg regs)"
  "(SuppressorEntry, n) \<in> (\<lambda>x. reg_key (snd x)) ` set regs \<longleftrightarrow> n \<in> set (List.map_filter suppressor_reg regs)"
proof (induction regs)
  case (Cons x regs)
  obtain i r where x: "x = (i, r)" by (cases x)
  { case 1 show ?case using Cons x by (cases r) (simp_all add: List.map_filter_simps)
  next case 2 show ?case using Cons x by (cases r) (simp_all add: List.map_filter_simps)
  next case 3 show ?case using Cons x by (cases r) (simp_all add: List.map_filter_simps)
  next case 4 show ?case using Cons x by (cases r) (simp_all add: List.map_filter_simps) }
qed (simp_all add: List.map_filter_simps)

lemma regs_ok_add:
  "regs_ok regs \<Longrightarrow> i \<notin> fst ` set regs \<Longrightarrow> register i r regs = Some regs' \<Longrightarrow> regs_ok regs'"
  by (auto simp: regs_ok_def register_def split: if_splits)

lemma parts_fresh:
  assumes "parts_rep s regs"
  shows
    "map_of (storeSections s) n = None \<longleftrightarrow> (SectionEntry, n) \<notin> (\<lambda>x. reg_key (snd x)) ` set regs"
    "map_of (storeContexts s) n = None \<longleftrightarrow> (ContextEntry, n) \<notin> (\<lambda>x. reg_key (snd x)) ` set regs"
    "map_of (storeVariables s) n = None \<longleftrightarrow> (VariableEntry, n) \<notin> (\<lambda>x. reg_key (snd x)) ` set regs"
    "map_of (storeSuppressors s) n = None \<longleftrightarrow> (SuppressorEntry, n) \<notin> (\<lambda>x. reg_key (snd x)) ` set regs"
proof -
  have r: "names_rep sectionName (\<lambda>d. d) (storeSectionOrder s) (storeSections s) (List.map_filter section_reg regs)"
    "names_rep contextName (\<lambda>d. d) (storeContextOrder s) (storeContexts s) (List.map_filter context_reg regs)"
    "names_rep fst snd (storeVariableOrder s) (storeVariables s) (List.map_filter variable_reg regs)"
    "names_rep (\<lambda>n. n) (\<lambda>n. ()) (List.map_filter suppressor_reg regs) (storeSuppressors s)
       (List.map_filter suppressor_reg regs)"
    using assms by (simp_all add: parts_rep_def)
  show "map_of (storeSections s) n = None \<longleftrightarrow> (SectionEntry, n) \<notin> (\<lambda>x. reg_key (snd x)) ` set regs"
    unfolding key_in_view by (rule names_rep_fresh [OF r(1)])
  show "map_of (storeContexts s) n = None \<longleftrightarrow> (ContextEntry, n) \<notin> (\<lambda>x. reg_key (snd x)) ` set regs"
    unfolding key_in_view by (rule names_rep_fresh [OF r(2)])
  show "map_of (storeVariables s) n = None \<longleftrightarrow> (VariableEntry, n) \<notin> (\<lambda>x. reg_key (snd x)) ` set regs"
    unfolding key_in_view by (rule names_rep_fresh [OF r(3)])
  show "map_of (storeSuppressors s) n = None \<longleftrightarrow> (SuppressorEntry, n) \<notin> (\<lambda>x. reg_key (snd x)) ` set regs"
    unfolding key_in_view using names_rep_fresh [OF r(4), of n] by simp
qed

lemma entries_add:
  assumes "\<forall>j. map_of es j = map_option reg_key (map_of regs j)" "i \<notin> fst ` set regs"
  shows "map_of (put es i (reg_key r)) j = map_option reg_key (map_of (regs @ [(i, r)]) j)"
proof -
  have "map_of regs i = None" using assms(2) by (simp add: map_of_eq_None_iff)
  then show ?thesis using assms(1) by (auto simp: map_add_def split: option.split)
qed

lemma store_represents_added:
  assumes "store_represents s regs" "i \<notin> fst ` set regs" "reg_key r \<notin> (\<lambda>x. reg_key (snd x)) ` set regs"
    "parts_rep s' (regs @ [(i, r)])" "storeEntries s' = put (storeEntries s) i (reg_key r)"
  shows "store_represents (rebuildSnapshot s') (regs @ [(i, r)])"
proof (rule store_represents_rebuild [OF _ assms(4)])
  show "regs_ok (regs @ [(i, r)])"
    using assms(1-3) by (auto simp: store_represents_def regs_ok_def)
  show "\<forall>j. map_of (storeEntries s') j = map_option reg_key (map_of (regs @ [(i, r)]) j)"
    unfolding assms(5) using entries_add [OF _ assms(2)] assms(1) unfolding store_represents_def by blast
qed

text \<open>What adding a registration promises, for every kind.\<close>

definition adds ::
  "('f prompt_store \<times> string) res \<Rightarrow> string \<Rightarrow> 'f registration \<Rightarrow> 'f registrations \<Rightarrow> bool" where
  "adds result i r regs =
     (case result of
        Inl e \<Rightarrow> register i r regs = None
      | Inr (s', identifier) \<Rightarrow> identifier = i \<and> register i r regs = Some (regs @ [(i, r)]) \<and>
          store_represents s' (regs @ [(i, r)]))"

lemmas reg_view = map_filter_append List.map_filter_simps

lemma addSection_refines:
  assumes "store_represents s regs" "i \<notin> fst ` set regs"
  shows "adds (addSection i d s) i (RegSection d) regs"
proof (cases "map_of (storeSections s) (sectionName d)")
  case None
  have p: "parts_rep s regs" using assms(1) by (simp add: store_represents_def)
  then have f: "(SectionEntry, sectionName d) \<notin> (\<lambda>x. reg_key (snd x)) ` set regs"
    using parts_fresh None by blast
  have "parts_rep (addEntry i SectionEntry (sectionName d) s\<lparr>storeSections := put (storeSections s) (sectionName d) d,
      storeSectionOrder := storeSectionOrder s @ [sectionName d]\<rparr>) (regs @ [(i, RegSection d)])"
    using p names_rep_add [where name = sectionName and val = "\<lambda>d. d" and d = d] None
    by (simp add: parts_rep_def addEntry_def reg_view)
  from store_represents_added [OF assms _ this] f None show ?thesis
    by (simp add: adds_def register_def addSection_def addEntry_def Let_def)
next
  case (Some y)
  then have "(SectionEntry, sectionName d) \<in> (\<lambda>x. reg_key (snd x)) ` set regs"
    using assms(1) parts_fresh [of s regs "sectionName d"] by (auto simp: store_represents_def)
  then show ?thesis using Some by (simp add: adds_def addSection_def register_def)
qed

lemma addContext_refines:
  assumes "store_represents s regs" "i \<notin> fst ` set regs"
  shows "adds (addContext i d s) i (RegContext d) regs"
proof (cases "map_of (storeContexts s) (contextName d)")
  case None
  have p: "parts_rep s regs" using assms(1) by (simp add: store_represents_def)
  then have f: "(ContextEntry, contextName d) \<notin> (\<lambda>x. reg_key (snd x)) ` set regs"
    using parts_fresh None by blast
  have "parts_rep (addEntry i ContextEntry (contextName d) s\<lparr>storeContexts := put (storeContexts s) (contextName d) d,
      storeContextOrder := storeContextOrder s @ [contextName d]\<rparr>) (regs @ [(i, RegContext d)])"
    using p names_rep_add [where name = contextName and val = "\<lambda>d. d" and d = d] None
    by (simp add: parts_rep_def addEntry_def reg_view)
  from store_represents_added [OF assms _ this] f None show ?thesis
    by (simp add: adds_def register_def addContext_def addEntry_def Let_def)
next
  case (Some y)
  then have "(ContextEntry, contextName d) \<in> (\<lambda>x. reg_key (snd x)) ` set regs"
    using assms(1) parts_fresh [of s regs "contextName d"] by (auto simp: store_represents_def)
  then show ?thesis using Some by (simp add: adds_def addContext_def register_def)
qed

lemma addVariable_refines:
  assumes "store_represents s regs" "i \<notin> fst ` set regs"
  shows "adds (addVariable i (fst v) (snd v) s) i (RegVariable v) regs"
proof (cases "map_of (storeVariables s) (fst v)")
  case None
  have p: "parts_rep s regs" using assms(1) by (simp add: store_represents_def)
  then have f: "(VariableEntry, fst v) \<notin> (\<lambda>x. reg_key (snd x)) ` set regs"
    using parts_fresh None by blast
  have "parts_rep (addEntry i VariableEntry (fst v) s\<lparr>storeVariables := put (storeVariables s) (fst v) (snd v),
      storeVariableOrder := storeVariableOrder s @ [fst v]\<rparr>) (regs @ [(i, RegVariable v)])"
    using p names_rep_add [where name = fst and val = snd and d = v] None
    by (simp add: parts_rep_def addEntry_def reg_view)
  from store_represents_added [OF assms _ this] f None show ?thesis
    by (simp add: adds_def register_def addVariable_def addEntry_def)
next
  case (Some y)
  then have "(VariableEntry, fst v) \<in> (\<lambda>x. reg_key (snd x)) ` set regs"
    using assms(1) parts_fresh [of s regs "fst v"] by (auto simp: store_represents_def)
  then show ?thesis using Some by (simp add: adds_def addVariable_def register_def)
qed

lemma addSuppressor_refines:
  assumes "store_represents s regs" "i \<notin> fst ` set regs"
  shows "adds (addSuppressor i n s) i (RegSuppressor n) regs"
proof (cases "map_of (storeSuppressors s) n")
  case None
  have p: "parts_rep s regs" using assms(1) by (simp add: store_represents_def)
  then have f: "(SuppressorEntry, n) \<notin> (\<lambda>x. reg_key (snd x)) ` set regs"
    using parts_fresh None by blast
  have "parts_rep (addEntry i SuppressorEntry n s\<lparr>storeSuppressors := put (storeSuppressors s) n ()\<rparr>)
      (regs @ [(i, RegSuppressor n)])"
    using p names_rep_add [where name = "\<lambda>n. n" and val = "\<lambda>n. ()" and d = n] None
    by (simp add: parts_rep_def addEntry_def reg_view)
  from store_represents_added [OF assms _ this] f None show ?thesis
    by (simp add: adds_def register_def addSuppressor_def addEntry_def)
next
  case (Some y)
  then have "(SuppressorEntry, n) \<in> (\<lambda>x. reg_key (snd x)) ` set regs"
    using assms(1) parts_fresh [of s regs "n"] by (auto simp: store_represents_def)
  then show ?thesis using Some by (simp add: adds_def addSuppressor_def register_def)
qed

lemma store_add_refines:
  "store_represents s regs \<Longrightarrow> i \<notin> fst ` set regs \<Longrightarrow> adds (store_add i r s) i r regs"
  by (cases r) (simp_all add: store_add_def addSection_refines addContext_refines addVariable_refines
      addSuppressor_refines)

section \<open>Removal\<close>

lemma deregister_by_key:
  assumes "regs_ok regs" "(i, r) \<in> set regs"
  shows "deregister i regs = filter (\<lambda>x. reg_key (snd x) \<noteq> reg_key r) regs"
  unfolding deregister_def
proof (rule filter_cong)
  fix x assume x: "x \<in> set regs"
  have "inj_on fst (set regs)" "inj_on (\<lambda>x. reg_key (snd x)) (set regs)"
    using assms(1) by (simp_all add: regs_ok_def distinct_map)
  then show "fst x \<noteq> i \<longleftrightarrow> reg_key (snd x) \<noteq> reg_key r"
    using x assms(2) by (metis fst_conv snd_conv inj_on_eq_iff)
qed simp

lemma view_without_key:
  "List.map_filter section_reg (filter (\<lambda>x. reg_key (snd x) \<noteq> (k, n)) regs) =
     (if k = SectionEntry then filter (\<lambda>d. sectionName d \<noteq> n) (List.map_filter section_reg regs)
      else List.map_filter section_reg regs)"
  "List.map_filter context_reg (filter (\<lambda>x. reg_key (snd x) \<noteq> (k, n)) regs) =
     (if k = ContextEntry then filter (\<lambda>d. contextName d \<noteq> n) (List.map_filter context_reg regs)
      else List.map_filter context_reg regs)"
  "List.map_filter variable_reg (filter (\<lambda>x. reg_key (snd x) \<noteq> (k, n)) regs) =
     (if k = VariableEntry then filter (\<lambda>d. fst d \<noteq> n) (List.map_filter variable_reg regs)
      else List.map_filter variable_reg regs)"
  "List.map_filter suppressor_reg (filter (\<lambda>x. reg_key (snd x) \<noteq> (k, n)) regs) =
     (if k = SuppressorEntry then filter (\<lambda>d. d \<noteq> n) (List.map_filter suppressor_reg regs)
      else List.map_filter suppressor_reg regs)"
proof (induction regs)
  case (Cons x regs)
  obtain i r where x: "x = (i, r)" by (cases x)
  { case 1 show ?case using Cons x by (cases r) (auto simp: List.map_filter_simps)
  next case 2 show ?case using Cons x by (cases r) (auto simp: List.map_filter_simps)
  next case 3 show ?case using Cons x by (cases r) (auto simp: List.map_filter_simps)
  next case 4 show ?case using Cons x by (cases r) (auto simp: List.map_filter_simps) }
qed (simp_all add: List.map_filter_simps)

lemma parts_rep_remove:
  assumes "parts_rep s regs"
  shows "parts_rep (remove_entry k n s) (filter (\<lambda>x. reg_key (snd x) \<noteq> (k, n)) regs)"
proof (cases k)
  case SuppressorEntry
  have "names_rep (\<lambda>n. n) (\<lambda>n. ()) (filter (\<lambda>d. d \<noteq> n) (List.map_filter suppressor_reg regs))
      (unset (storeSuppressors s) n) (filter (\<lambda>d. d \<noteq> n) (List.map_filter suppressor_reg regs))"
    using assms names_rep_remove [of "\<lambda>n. n" "\<lambda>n. ()" "List.map_filter suppressor_reg regs" "storeSuppressors s"
        "List.map_filter suppressor_reg regs" n]
    by (simp add: parts_rep_def removeName_def)
  then show ?thesis using assms SuppressorEntry by (simp add: parts_rep_def remove_entry_def view_without_key)
qed (use assms in \<open>simp_all add: parts_rep_def remove_entry_def view_without_key names_rep_remove\<close>)

lemma regs_ok_filter: "regs_ok regs \<Longrightarrow> regs_ok (filter P regs)"
  by (simp add: regs_ok_def distinct_map_filter)

lemma map_of_deregister: "map_of (deregister i regs) j = (if j = i then None else map_of regs j)"
  by (simp add: deregister_def map_of_filter_key)

lemma remove_refines:
  assumes "store_represents s regs"
  shows "store_represents (fst (remove_registration i s)) (deregister i regs) \<and>
    (snd (remove_registration i s) \<longleftrightarrow> i \<in> fst ` set regs)"
proof (cases "map_of regs i")
  case None
  then have "i \<notin> fst ` set regs" by (simp add: map_of_eq_None_iff)
  then have "deregister i regs = regs" by (force simp: deregister_def intro!: filter_True)
  then show ?thesis using assms None \<open>i \<notin> fst ` set regs\<close>
    by (simp add: remove_registration_def store_represents_def)
next
  case (Some r)
  obtain k n where k: "reg_key r = (k, n)" by (cases "reg_key r")
  have i: "(i, r) \<in> set regs" using Some by (rule map_of_SomeD)
  have ok: "regs_ok regs" and p: "parts_rep s regs"
    and es: "\<forall>j. map_of (storeEntries s) j = map_option reg_key (map_of regs j)"
    using assms by (auto simp: store_represents_def)
  define s' where "s' = (remove_entry k n s)\<lparr>storeEntries := unset (storeEntries (remove_entry k n s)) i\<rparr>"
  have "parts_rep s' (deregister i regs)"
    using parts_rep_remove [OF p, of k n] deregister_by_key [OF ok i] k by (simp add: s'_def parts_rep_def)
  moreover have "storeEntries (remove_entry k n s) = storeEntries s"
    by (simp add: remove_entry_def split: entry_kind.split)
  ultimately have "store_represents (rebuildSnapshot s') (deregister i regs)"
    using store_represents_rebuild [of "deregister i regs" s'] regs_ok_filter [OF ok] es
    by (simp add: s'_def map_of_deregister) (simp add: deregister_def)
  moreover have "remove_registration i s = (rebuildSnapshot s', True)"
    using es Some k by (simp add: remove_registration_def s'_def Let_def)
  ultimately show ?thesis using i by force
qed

section \<open>Histories of a store\<close>

datatype 'f store_op = StoreAdd string "'f registration" | StoreRemove string | StoreClear

fun store_step :: "'f store_op \<Rightarrow> 'f prompt_store \<Rightarrow> 'f prompt_store" where
  "store_step (StoreAdd i r) s = (case store_add i r s of Inl e \<Rightarrow> s | Inr (s', identifier) \<Rightarrow> s')"
| "store_step (StoreRemove i) s = fst (remove_registration i s)"
| "store_step StoreClear s = clear_store s"

fun spec_step :: "'f store_op \<Rightarrow> 'f registrations \<Rightarrow> 'f registrations" where
  "spec_step (StoreAdd i r) regs = (case register i r regs of None \<Rightarrow> regs | Some regs' \<Rightarrow> regs')"
| "spec_step (StoreRemove i) regs = deregister i regs"
| "spec_step StoreClear regs = []"

fun added_ids :: "'f store_op list \<Rightarrow> string list" where
  "added_ids [] = []"
| "added_ids (StoreAdd i r # ops) = i # added_ids ops"
| "added_ids (op # ops) = added_ids ops"

lemma new_represents: "store_represents newPromptStore []"
  by (simp add: store_represents_def newPromptStore_def rebuildSnapshot_def empty_store_def regs_ok_def
      parts_rep_def names_rep_def registered_view_def List.map_filter_simps)

lemma clear_represents: "store_represents (clear_store s) []"
  by (simp add: store_represents_def clear_store_def rebuildSnapshot_def empty_store_def regs_ok_def
      parts_rep_def names_rep_def registered_view_def List.map_filter_simps)

lemma step_represents:
  assumes "store_represents s regs" "set (added_ids [op]) \<inter> fst ` set regs = {}"
  shows "store_represents (store_step op s) (spec_step op regs)"
proof (cases op)
  case (StoreAdd i r)
  then show ?thesis using assms store_add_refines [OF assms(1), of i r]
    by (auto simp: adds_def split: sum.splits)
next
  case (StoreRemove i)
  then show ?thesis using remove_refines [OF assms(1)] by simp
qed (simp add: clear_represents)

lemma spec_ids: "fst ` set (spec_step op regs) \<subseteq> set (added_ids [op]) \<union> fst ` set regs"
  by (cases op) (auto simp: register_def deregister_def)

lemma added_ids_Cons: "added_ids (op # ops) = added_ids [op] @ added_ids ops"
  by (cases op) simp_all

lemma run_represents:
  "store_represents s regs \<Longrightarrow> distinct (added_ids ops) \<Longrightarrow> set (added_ids ops) \<inter> fst ` set regs = {} \<Longrightarrow>
   store_represents (fold store_step ops s) (fold spec_step ops regs)"
proof (induction ops arbitrary: s regs)
  case (Cons op ops)
  note ids = Cons.prems(2,3) [unfolded added_ids_Cons [of op ops] distinct_append set_append]
  have "store_represents (store_step op s) (spec_step op regs)"
    using ids(2) by (intro step_represents [OF Cons.prems(1)]) blast
  moreover have "set (added_ids ops) \<inter> fst ` set (spec_step op regs) = {}"
    using ids spec_ids [of op regs] by blast
  moreover have "distinct (added_ids ops)" using ids(1) by blast
  ultimately have "store_represents (fold store_step ops (store_step op s)) (fold spec_step ops (spec_step op regs))"
    using Cons.IH by blast
  then show ?case by simp
qed simp

end
