(* ===== verification/PromptLaws.thy ===== *)
theory PromptLaws
  imports PromptAssembly PromptStoreLaws
begin

text \<open>
  What assembling a prompt promises: merged definitions have one entry per name, the last
  layer's, in ascending order of their position; tool schemas are a permutation in the
  configured order; and the definitions that layers capture are well formed, so that the
  final validation of an assembly never fails on its own.
\<close>

section \<open>Merging\<close>

definition last_named :: "('d \<Rightarrow> string) \<Rightarrow> 'd list \<Rightarrow> string \<Rightarrow> 'd option" where
  "last_named name ds n = find (\<lambda>d. name d = n) (rev ds)"

definition first_names :: "('d \<Rightarrow> string) \<Rightarrow> 'd list \<Rightarrow> string list" where
  "first_names name ds = first_seen (map name ds)"

lemma merge_loop_snoc:
  "merge_loop name (ds @ [d]) names byName =
     (let (ns, m) = merge_loop name ds names byName in
      (if map_of m (name d) = None then ns @ [name d] else ns, put m (name d) d))"
  by (induction ds arbitrary: names byName) (auto split: prod.split)

lemma find_append: "find P (xs @ ys) = (case find P xs of None \<Rightarrow> find P ys | Some x \<Rightarrow> Some x)"
  by (induction xs) auto

lemma last_named_snoc: "last_named name (ds @ [d]) n = (if name d = n then Some d else last_named name ds n)"
  by (simp add: last_named_def)

lemma last_named_None: "last_named name ds n = None \<longleftrightarrow> n \<notin> name ` set ds"
  by (auto simp: last_named_def find_None_iff)

lemma last_named_Some: "last_named name ds n = Some d \<Longrightarrow> d \<in> set ds \<and> name d = n"
  by (auto simp: last_named_def find_Some_iff dest: nth_mem) (metis nth_mem set_rev length_rev)

lemma first_names_snoc:
  "first_names name (ds @ [d]) = (if name d \<in> name ` set ds then first_names name ds else first_names name ds @ [name d])"
  by (simp add: first_names_def first_seen_snoc)

lemma set_first_names [simp]: "set (first_names name ds) = name ` set ds"
  by (simp add: first_names_def)

lemma distinct_first_names: "distinct (first_names name ds)"
  by (simp add: first_names_def)

lemma merge_loop_result:
  "\<exists>m. merge_loop name ds [] [] = (first_names name ds, m) \<and> (\<forall>n. map_of m n = last_named name ds n)"
proof (induction ds rule: rev_induct)
  case Nil
  show ?case by (simp add: first_names_def last_named_def)
next
  case (snoc d ds)
  then obtain m where m: "merge_loop name ds [] [] = (first_names name ds, m)" "\<forall>n. map_of m n = last_named name ds n"
    by blast
  have "map_of m (name d) = None \<longleftrightarrow> name d \<notin> name ` set ds" using m(2) last_named_None by metis
  then show ?case using m by (auto simp: merge_loop_snoc first_names_snoc last_named_snoc)
qed

definition merged_unsorted :: "('d \<Rightarrow> string) \<Rightarrow> 'd list \<Rightarrow> 'd list" where
  "merged_unsorted name ds = List.map_filter (last_named name ds) (first_names name ds)"

lemma merge_definitions_sorted:
  "merge_definitions name order ds =
     SliceStable (\<lambda>l r. float_less (order l) (order r)) (merged_unsorted name ds)"
proof -
  obtain m where "merge_loop name ds [] [] = (first_names name ds, m)" "map_of m = last_named name ds"
    using merge_loop_result [of name ds] by (metis ext)
  then show ?thesis by (simp add: merge_definitions_def merged_unsorted_def)
qed

lemma map_filter_names:
  "(\<And>n. n \<in> set ns \<Longrightarrow> \<exists>d. f n = Some d \<and> name d = n) \<Longrightarrow> map name (List.map_filter f ns) = ns"
proof (induction ns)
  case (Cons n ns)
  then obtain d where "f n = Some d" "name d = n" by fastforce
  with Cons show ?case by (simp add: List.map_filter_simps)
qed (simp add: List.map_filter_simps)

lemma merged_names: "map name (merged_unsorted name ds) = first_names name ds"
  unfolding merged_unsorted_def
proof (rule map_filter_names)
  fix n assume "n \<in> set (first_names name ds)"
  then have "last_named name ds n \<noteq> None" by (simp add: last_named_None)
  then show "\<exists>d. last_named name ds n = Some d \<and> name d = n" using last_named_Some by fastforce
qed

lemma merged_elements: "d \<in> set (merged_unsorted name ds) \<longleftrightarrow> last_named name ds (name d) = Some d"
proof -
  have "set (List.map_filter f ns) = {d. \<exists>n \<in> set ns. f n = Some d}" for f :: "string \<Rightarrow> 'a option" and ns
    by (induction ns) (auto simp: List.map_filter_simps split: option.splits)
  then show ?thesis using last_named_Some [of name ds] by (fastforce simp: merged_unsorted_def)
qed

interpretation by_order: weak_order "\<lambda>l r. float_less (order l) (order r)" "\<lambda>d. finite_float (order d)"
  for order :: "'a \<Rightarrow> go_float"
proof
  fix x y z :: 'a
  show "finite_float (order x) \<Longrightarrow> finite_float (order y) \<Longrightarrow> float_less (order x) (order y) \<Longrightarrow>
      \<not> float_less (order y) (order x)"
    by (cases "order x"; cases "order y") auto
  show "finite_float (order x) \<Longrightarrow> finite_float (order y) \<Longrightarrow> finite_float (order z) \<Longrightarrow>
      float_less (order x) (order z) \<Longrightarrow> float_less (order x) (order y) \<or> float_less (order y) (order z)"
    by (cases "order x"; cases "order y"; cases "order z") auto
qed

lemma merged_distinct: "distinct (map name (merge_definitions name order ds))"
proof -
  have "mset (map name (merge_definitions name order ds)) = mset (first_names name ds)"
    by (simp add: merge_definitions_sorted mset_SliceStable flip: merged_names [of name ds])
  then show ?thesis using distinct_first_names mset_eq_imp_distinct_iff by blast
qed

lemma merged_set: "d \<in> set (merge_definitions name order ds) \<longleftrightarrow> last_named name ds (name d) = Some d"
  by (simp add: merge_definitions_sorted merged_elements)

lemma merged_finite:
  "list_all (\<lambda>d. finite_float (order d)) ds \<Longrightarrow> list_all (\<lambda>d. finite_float (order d)) (merged_unsorted name ds)"
  using merged_elements last_named_Some by (fastforce simp: list_all_iff)

lemma merged_ascending:
  "list_all (\<lambda>d. finite_float (order d)) ds \<Longrightarrow>
   sorted_wrt (\<lambda>l r. \<not> float_less (order r) (order l)) (merge_definitions name order ds)"
  using by_order.ascending_sort [OF merged_finite] by (simp add: merge_definitions_sorted)

lemma finite_ties: "finite_float x \<Longrightarrow> finite_float y \<Longrightarrow> (\<not> float_less x y \<and> \<not> float_less y x) \<longleftrightarrow> x = y"
  by (cases x; cases y) auto

lemma merged_stable:
  assumes "list_all (\<lambda>d. finite_float (order d)) ds" "k \<in> set (merged_unsorted name ds)"
  shows "filter (\<lambda>d. order d = order k) (merge_definitions name order ds) =
    filter (\<lambda>d. order d = order k) (merged_unsorted name ds)"
proof -
  note f = merged_finite [OF assms(1), of name]
  have "by_order.ties order k x \<longleftrightarrow> order x = order k" if "finite_float (order x)" for x
    using that assms(2) f finite_ties [of "order k" "order x"] unfolding by_order.ties_def list_all_iff by metis
  then have "filter (by_order.ties order k) xs = filter (\<lambda>d. order d = order k) xs"
    if "list_all (\<lambda>d. finite_float (order d)) xs" for xs
    using that by (auto simp: list_all_iff intro!: filter_cong)
  moreover have "list_all (\<lambda>d. finite_float (order d)) (merge_definitions name order ds)"
    using f by (simp add: merge_definitions_sorted list_all_iff)
  ultimately show ?thesis
    using by_order.sort_stable [of order k "merged_unsorted name ds"] f assms(2)
    by (simp add: merge_definitions_sorted list_all_iff)
qed

section \<open>Tool order\<close>

lemma order_seen_Inr: "order_seen seen names = Inr s \<longleftrightarrow> distinct names \<and> set seen \<inter> set names = {} \<and> s = seen @ names"
  by (induction names arbitrary: seen) auto

lemma validateToolOrderSyntax_Inr:
  "validateToolOrderSyntax requested = Inr () \<longleftrightarrow>
     (case requested of None \<Rightarrow> True | Some names \<Rightarrow> distinct names \<and> ToolOrderRest \<in> set names)"
  by (auto simp: validateToolOrderSyntax_def res_iff order_seen_Inr split: option.split)

lemma mset_by_names:
  "distinct names \<Longrightarrow>
   mset (concat (map (\<lambda>n. filter (\<lambda>s. k s = n) xs) names)) = mset (filter (\<lambda>s. k s \<in> set names) xs)"
proof (induction names)
  case (Cons n names)
  have "mset (filter (\<lambda>s. k s = n \<or> k s \<in> set names) xs) =
      mset (filter (\<lambda>s. k s = n) xs) + mset (filter (\<lambda>s. k s \<in> set names) xs)"
    using Cons.prems by (induction xs) auto
  then show ?case using Cons by simp
qed simp

definition schema_rank :: "string list \<Rightarrow> tool_schema \<Rightarrow> int" where
  "schema_rank names s =
     index_of names (if schemaName s \<in> set names then schemaName s else ToolOrderRest)"

lemma sorted_blocks:
  assumes "\<And>i s. i < length xs \<Longrightarrow> s \<in> set (f (xs ! i)) \<Longrightarrow> r s = int i"
  shows "sorted (map r (concat (map f xs)))"
  using assms
proof (induction xs rule: rev_induct)
  case (snoc x xs)
  have old: "r s = int i" if "i < length xs" "s \<in> set (f (xs ! i))" for i s
    using snoc.prems [of i s] that by (simp add: nth_append)
  have new: "r s = int (length xs)" if "s \<in> set (f x)" for s
    using snoc.prems [of "length xs" s] that by simp
  have below: "r s < int (length xs)" if "s \<in> set (concat (map f xs))" for s
    using that old by (auto simp: in_set_conv_nth) (metis nth_mem of_nat_less_iff)
  have "map r (f x) = replicate (length (f x)) (int (length xs))"
    by (rule replicate_eqI) (use new in auto)
  then have "sorted (map r (f x))" by simp
  moreover have "sorted (map r (concat (map f xs)))" using old by (rule snoc.IH)
  moreover have "u \<le> v" if "u \<in> set (map r (concat (map f xs)))" "v \<in> set (map r (f x))" for u v
    using that new below by fastforce
  ultimately show ?case by (simp add: sorted_append)
qed simp

lemma orderToolSchemas_Some:
  assumes "orderToolSchemas schemas (Some names) known = Inr ordered" "distinct names" "ToolOrderRest \<in> set names"
  shows "mset ordered = mset schemas \<and> sorted (map (schema_rank names) ordered)"
proof -
  define rest where "rest = SliceStable by_schema_name (filter (\<lambda>s. schemaName s \<notin> set names) schemas)"
  let ?f = "\<lambda>n. if n = ToolOrderRest then rest else filter (\<lambda>s. schemaName s = n) schemas"
  have reserved: "ToolOrderRest \<notin> set (map schemaName schemas)" and o: "ordered = concat (map ?f names)"
    unfolding rest_def using assms(1) by (auto simp: orderToolSchemas_def res_iff Let_def split: if_splits)
  have rest: "mset rest = mset (filter (\<lambda>s. schemaName s \<notin> set names) schemas)"
    by (simp add: rest_def mset_SliceStable)
  obtain pre post where names: "names = pre @ ToolOrderRest # post" "ToolOrderRest \<notin> set pre" "ToolOrderRest \<notin> set post"
    using assms(2,3) by (metis distinct.simps(2) distinct_append not_distinct_conv_prefix split_list
        disjoint_insert(2) list.simps(15))
  have f: "map ?f pre = map (\<lambda>n. filter (\<lambda>s. schemaName s = n) schemas) pre"
    "map ?f post = map (\<lambda>n. filter (\<lambda>s. schemaName s = n) schemas) post"
    using names(2,3) by auto
  have d: "distinct pre" "distinct post" "set pre \<inter> set post = {}" using assms(2) names by auto
  have "mset ordered = mset (filter (\<lambda>s. schemaName s \<in> set pre) schemas) +
      mset (filter (\<lambda>s. schemaName s \<notin> set names) schemas) + mset (filter (\<lambda>s. schemaName s \<in> set post) schemas)"
  proof -
    have "map ?f names = map ?f pre @ rest # map ?f post" unfolding names(1) by simp
    then have "mset ordered = mset (concat (map ?f pre)) + mset rest + mset (concat (map ?f post))"
      unfolding o by simp
    then show ?thesis unfolding f rest mset_by_names [OF d(1)] mset_by_names [OF d(2)] .
  qed
  also have "\<dots> = mset schemas"
    using reserved d(3) unfolding names(1) by (induction schemas) auto
  finally have m: "mset ordered = mset schemas" .
  have "schema_rank names s = int i" if "i < length names" "s \<in> set (?f (names ! i))" for i s
  proof (cases "names ! i = ToolOrderRest")
    case True
    then have "s \<in> set rest" using that by simp
    then have "schemaName s \<notin> set names" by (simp add: rest_def)
    then show ?thesis using index_of_distinct_nth [OF assms(2) that(1)] True by (simp add: schema_rank_def)
  next
    case False
    then have "schemaName s = names ! i" using that by simp
    then show ?thesis using index_of_distinct_nth [OF assms(2) that(1)] that(1) by (simp add: schema_rank_def)
  qed
  then have "sorted (map (schema_rank names) ordered)" unfolding o by (rule sorted_blocks)
  with m show ?thesis by blast
qed

lemma orderToolSchemas_None:
  "orderToolSchemas schemas None known = Inr ordered \<Longrightarrow>
   mset ordered = mset schemas \<and> sorted_wrt (\<lambda>s t. \<not> schemaName t < schemaName s) ordered"
  using by_name.ascending_sort [of schemas schemaName]
  by (auto simp: orderToolSchemas_def res_iff mset_SliceStable by_schema_name_def [abs_def] list_all_iff)

end
