(* ===== verification/PromptSafety.thy ===== *)
theory PromptSafety
  imports PromptLaws
begin

text \<open>
  The definitions that reach an assembly are well formed: every layer and every snapshot the
  operations of the package can construct holds named definitions with a provider and a finite
  position.  An assembly whose providers answer therefore succeeds.
\<close>

section \<open>Well-formed layers\<close>

definition section_ok :: "'f prompt_section \<Rightarrow> bool" where
  "section_ok d = (sectionName d \<noteq> [] \<and> finite_float (sectionOrder d) \<and> sectionText d \<noteq> NoText)"

definition context_ok :: "'f prompt_context \<Rightarrow> bool" where
  "context_ok d = (contextName d \<noteq> [] \<and> finite_float (contextOrder d) \<and> contextProvider d \<noteq> NoText)"

definition variable_ok :: "string \<times> 'f variable_provider \<Rightarrow> bool" where
  "variable_ok v = (variableNamePattern (fst v) \<and> snd v \<noteq> NoVariable)"

definition view_ok :: "'f layer_snapshot \<Rightarrow> bool" where
  "view_ok l =
     (list_all section_ok (layerSections l) \<and> list_all context_ok (layerContexts l) \<and>
      list_all variable_ok (layerVariables l))"

definition snapshot_ok :: "'f prompt_snapshot \<Rightarrow> bool" where
  "snapshot_ok c = list_all view_ok (snapshot_layers c)"

definition store_ok :: "'f prompt_store \<Rightarrow> bool" where
  "store_ok s =
     (list_all (\<lambda>(n, d). section_ok d) (storeSections s) \<and> list_all (\<lambda>(n, d). context_ok d) (storeContexts s) \<and>
      list_all variable_ok (storeVariables s) \<and> view_ok (snapshotValue s))"

definition layer_ok :: "'f prompt_layer \<Rightarrow> bool" where
  "layer_ok l =
     (store_ok (layerStore l) \<and> snapshot_ok (layerBase l) \<and>
      (\<forall>b. layerBaseline l = Some b \<longrightarrow>
         view_ok b \<and> fst ` set (storeSections (layerStore l)) \<inter> sectionName ` set (layerSections b) = {}))"

inductive layer_reach :: "'f prompt_layer \<Rightarrow> bool" and snapshot_reach :: "'f prompt_snapshot \<Rightarrow> bool" where
  new: "layer_reach (NewLayer settings)"
| derive: "snapshot_reach c \<Longrightarrow> layer_reach (DeriveLayer c)"
| add_section: "layer_reach l \<Longrightarrow> AddSection ctx i d l = Inr (l', i') \<Longrightarrow> layer_reach l'"
| add_context: "layer_reach l \<Longrightarrow> AddContext ctx i e l = Inr (l', i') \<Longrightarrow> layer_reach l'"
| add_variable: "layer_reach l \<Longrightarrow> AddVariable ctx i n p l = Inr (l', i') \<Longrightarrow> layer_reach l'"
| add_suppressor: "layer_reach l \<Longrightarrow> AddRuntimeContextSuppressor ctx i n l = Inr (l', i') \<Longrightarrow> layer_reach l'"
| remove: "layer_reach l \<Longrightarrow> RemoveRegistration ctx i l = Inr (l', found) \<Longrightarrow> layer_reach l'"
| baseline: "layer_reach l \<Longrightarrow> ApplyBaseline ctx input l = Inr l' \<Longrightarrow> layer_reach l'"
| set_base: "layer_reach l \<Longrightarrow> snapshot_reach c \<Longrightarrow> layer_reach (SetBase c l)"
| closed: "layer_reach l \<Longrightarrow> layer_reach (close_layer l)"
| empty: "snapshot_reach no_snapshot"
| capture: "layer_reach l \<Longrightarrow> snapshot_reach (CaptureLayer l)"
| configured: "snapshot_reach c \<Longrightarrow> WithConfiguration input c = Inr c' \<Longrightarrow> snapshot_reach c'"

lemma list_all_map_filter: "(\<And>x y. x \<in> set xs \<Longrightarrow> f x = Some y \<Longrightarrow> P y) \<Longrightarrow> list_all P (List.map_filter f xs)"
  by (induction xs) (auto simp: List.map_filter_simps split: option.split)

lemma rebuild_ok:
  assumes "list_all (\<lambda>(n, d). section_ok d) (storeSections s)" "list_all (\<lambda>(n, d). context_ok d) (storeContexts s)"
    "list_all variable_ok (storeVariables s)"
  shows "store_ok (rebuildSnapshot s)"
proof -
  have "list_all section_ok (List.map_filter (map_of (storeSections s)) (storeSectionOrder s))"
    using assms(1) by (intro list_all_map_filter) (auto simp: list_all_iff dest: map_of_SomeD)
  moreover have "list_all context_ok (List.map_filter (map_of (storeContexts s)) (storeContextOrder s))"
    using assms(2) by (intro list_all_map_filter) (auto simp: list_all_iff dest: map_of_SomeD)
  moreover have "list_all variable_ok
      (List.map_filter (\<lambda>n. map_option (Pair n) (map_of (storeVariables s) n)) (storeVariableOrder s))"
    using assms(3) by (intro list_all_map_filter) (auto simp: list_all_iff dest: map_of_SomeD)
  ultimately show ?thesis using assms by (simp add: store_ok_def view_ok_def) (simp add: rebuildSnapshot_def)
qed

lemma list_all_put: "list_all P m \<Longrightarrow> P (k, v) \<Longrightarrow> list_all P (put m k v)"
  by (auto simp: put_def list_all_iff)

lemma list_all_unset: "list_all P m \<Longrightarrow> list_all P (unset m k)"
  by (auto simp: unset_def list_all_iff)

lemma set_put: "fst ` set (put m k v) = insert k (fst ` set m)"
  by (auto simp: put_def image_iff)

lemma set_unset: "fst ` set (unset m k) = fst ` set m - {k}"
  by (auto simp: unset_def image_iff)

lemma new_store_ok: "store_ok newPromptStore"
  by (simp add: newPromptStore_def rebuild_ok empty_store_def)

lemma clear_store_ok: "store_ok (clear_store s)"
  by (simp add: clear_store_def rebuild_ok empty_store_def)

lemma definitions_ok: "view_ok (definitions v)"
  by (simp add: view_ok_def definitions_def section_ok_def PersonaSection_def)

lemma store_parts_ok:
  "store_ok s \<Longrightarrow> list_all (\<lambda>(n, d). section_ok d) (storeSections s) \<and> list_all (\<lambda>(n, d). context_ok d) (storeContexts s) \<and>
     list_all variable_ok (storeVariables s)"
  by (simp add: store_ok_def)

lemma addSection_Inr:
  "addSection i d s = Inr (s', i') \<longleftrightarrow>
     map_of (storeSections s) (sectionName d) = None \<and> i' = i \<and>
     s' = rebuildSnapshot (s\<lparr>storeEntries := put (storeEntries s) i (SectionEntry, sectionName d),
       storeSections := put (storeSections s) (sectionName d) d,
       storeSectionOrder := storeSectionOrder s @ [sectionName d]\<rparr>)"
  by (auto simp: addSection_def addEntry_def Let_def)

lemma addSection_ok:
  "addSection i d s = Inr (s', i') \<Longrightarrow> store_ok s \<Longrightarrow> section_ok d \<Longrightarrow>
   store_ok s' \<and> fst ` set (storeSections s') = insert (sectionName d) (fst ` set (storeSections s))"
  using store_parts_ok [of s]
  by (simp add: addSection_Inr rebuild_ok list_all_put set_put)

lemma addContext_ok:
  "addContext i d s = Inr (s', i') \<Longrightarrow> store_ok s \<Longrightarrow> context_ok d \<Longrightarrow>
   store_ok s' \<and> storeSections s' = storeSections s"
  using store_parts_ok [of s]
  by (auto simp: addContext_def addEntry_def Let_def list_all_put split: if_splits intro!: rebuild_ok)

lemma addVariable_ok:
  "addVariable i n p s = Inr (s', i') \<Longrightarrow> store_ok s \<Longrightarrow> variable_ok (n, p) \<Longrightarrow>
   store_ok s' \<and> storeSections s' = storeSections s"
  using store_parts_ok [of s]
  by (auto simp: addVariable_def addEntry_def Let_def list_all_put split: if_splits intro!: rebuild_ok)

lemma addSuppressor_ok:
  "addSuppressor i n s = Inr (s', i') \<Longrightarrow> store_ok s \<Longrightarrow> store_ok s' \<and> storeSections s' = storeSections s"
  using store_parts_ok [of s]
  by (auto simp: addSuppressor_def addEntry_def Let_def split: if_splits intro!: rebuild_ok)

lemma remove_ok:
  assumes "store_ok s"
  shows "store_ok (fst (remove_registration i s)) \<and>
    fst ` set (storeSections (fst (remove_registration i s))) \<subseteq> fst ` set (storeSections s)"
proof (cases "map_of (storeEntries s) i")
  case None
  then show ?thesis using assms by (simp add: remove_registration_def)
next
  case (Some kn)
  obtain k n where k: "kn = (k, n)" by (cases kn)
  define r where "r = remove_entry k n s"
  have "list_all (\<lambda>(n, d). section_ok d) (storeSections r) \<and> list_all (\<lambda>(n, d). context_ok d) (storeContexts r) \<and>
      list_all variable_ok (storeVariables r) \<and> fst ` set (storeSections r) \<subseteq> fst ` set (storeSections s)"
    using store_parts_ok [OF assms] by (cases k) (auto simp: r_def remove_entry_def list_all_unset set_unset)
  moreover have "fst (remove_registration i s) = rebuildSnapshot (r\<lparr>storeEntries := unset (storeEntries r) i\<rparr>)"
    using Some k by (simp add: remove_registration_def r_def Let_def)
  ultimately show ?thesis by (simp add: rebuild_ok)
qed

lemma layer_result_Inr:
  "layer_store_result l r = Inr (l', i) \<longleftrightarrow> (\<exists>s. r = Inr (s, i) \<and> l' = l\<lparr>layerStore := s\<rparr>)"
  by (auto simp: layer_store_result_def res_iff)

lemma AddSection_ok: "AddSection ctx i d l = Inr (l', i') \<Longrightarrow> layer_ok l \<Longrightarrow> layer_ok l'"
proof -
  assume a: "AddSection ctx i d l = Inr (l', i')" and ok: "layer_ok l"
  from a obtain s where s: "addSection i d (layerStore l) = Inr (s, i')" "l' = l\<lparr>layerStore := s\<rparr>" "section_ok d"
      "\<forall>b \<in> set_option (layerBaseline l). sectionName d \<notin> set (map sectionName (layerSections b))"
    by (auto simp: AddSection_def res_iff layer_result_Inr section_ok_def validateEntryName_def)
  with addSection_ok [OF s(1)] ok show ?thesis by (auto simp: layer_ok_def)
qed

lemma AddContext_ok: "AddContext ctx i d l = Inr (l', i') \<Longrightarrow> layer_ok l \<Longrightarrow> layer_ok l'"
  using addContext_ok [of i d "layerStore l"]
  by (fastforce simp: AddContext_def res_iff layer_result_Inr context_ok_def validateEntryName_def layer_ok_def)

lemma AddVariable_ok: "AddVariable ctx i n p l = Inr (l', i') \<Longrightarrow> layer_ok l \<Longrightarrow> layer_ok l'"
  using addVariable_ok [of i n p "layerStore l"]
  by (fastforce simp: AddVariable_def res_iff layer_result_Inr variable_ok_def layer_ok_def)

lemma AddRuntimeContextSuppressor_ok:
  "AddRuntimeContextSuppressor ctx i n l = Inr (l', i') \<Longrightarrow> layer_ok l \<Longrightarrow> layer_ok l'"
  using addSuppressor_ok [of i n "layerStore l"]
  by (fastforce simp: AddRuntimeContextSuppressor_def res_iff layer_result_Inr layer_ok_def)

lemma RemoveRegistration_ok: "RemoveRegistration ctx i l = Inr (l', found) \<Longrightarrow> layer_ok l \<Longrightarrow> layer_ok l'"
  using remove_ok [of "layerStore l" i]
  by (cases "remove_registration i (layerStore l)") (fastforce simp: RemoveRegistration_def res_iff layer_ok_def)

lemma ApplyBaseline_ok:
  fixes l l' :: "'f prompt_layer"
  assumes "ApplyBaseline ctx input l = Inr l'" "layer_ok l"
  shows "layer_ok l'"
proof -
  from assms(1) obtain v ys where v:
    "mapE (\<lambda>d. failIf (map_of (storeSections (layerStore l)) (sectionName d) \<noteq> None)
        (Errorf ''systemprompt: prompt section %q is already registered'' [AStr (sectionName d)]))
        (layerSections (definitions v :: 'f layer_snapshot)) = Inr ys"
    "l' = l\<lparr>layerSettings := v, layerBaseline := Some (definitions v)\<rparr>"
    by (auto simp: ApplyBaseline_def res_iff Let_def)
  have "map_of (storeSections (layerStore l)) (sectionName d) = None"
    if "d \<in> set (layerSections (definitions v :: 'f layer_snapshot))" for d
    using mapE_nth [OF v(1)] that by (auto simp: in_set_conv_nth res_iff)
  then have absent: "sectionName d \<notin> fst ` set (storeSections (layerStore l))"
    if "d \<in> set (layerSections (definitions v :: 'f layer_snapshot))" for d
    using that by (metis map_of_eq_None_iff)
  then have "fst ` set (storeSections (layerStore l)) \<inter>
      sectionName ` set (layerSections (definitions v :: 'f layer_snapshot)) = {}"
  proof (intro equals0I, elim IntE imageE)
    fix n p d
    assume "n = fst p" "p \<in> set (storeSections (layerStore l))" "n = sectionName d"
      "d \<in> set (layerSections (definitions v :: 'f layer_snapshot))"
    then show False using absent [of d] by (metis imageI)
  qed
  then show ?thesis using assms(2) v(2) definitions_ok by (simp add: layer_ok_def)
qed

lemma empty_sections: "storeSections newPromptStore = []" "storeSections (clear_store s) = []"
  by (simp_all add: newPromptStore_def clear_store_def empty_store_def)

lemma reach_ok:
  fixes l :: "'f prompt_layer" and c :: "'f prompt_snapshot"
  shows "layer_reach l \<Longrightarrow> layer_ok l"
  "snapshot_reach c \<Longrightarrow> snapshot_ok c"
proof (induction rule: layer_reach_snapshot_reach.inducts)
  case (new settings)
  then show ?case
    by (simp add: layer_ok_def NewLayer_def new_store_ok definitions_ok empty_sections snapshot_ok_def no_snapshot_def
        snapshot_layers_def)
next
  case (derive c)
  then show ?case by (simp add: layer_ok_def DeriveLayer_def new_store_ok)
next
  case (set_base l c)
  then show ?case by (simp add: layer_ok_def SetBase_def)
next
  case (closed l)
  then show ?case
    by (simp add: layer_ok_def close_layer_def clear_store_ok snapshot_ok_def no_snapshot_def snapshot_layers_def)
next
  case empty
  then show ?case by (simp add: snapshot_ok_def no_snapshot_def snapshot_layers_def)
next
  case (capture l)
  then show ?case
    by (auto simp: snapshot_ok_def snapshot_layers_def CaptureLayer_def layer_ok_def store_ok_def split: option.splits)
next
  case (configured c input c')
  then show ?case
    by (auto simp: snapshot_ok_def snapshot_layers_def WithConfiguration_def res_iff Let_def definitions_ok
        split: option.splits list.splits)
qed (blast intro: AddSection_ok AddContext_ok AddVariable_ok AddRuntimeContextSuppressor_ok RemoveRegistration_ok
    ApplyBaseline_ok)+

section \<open>Assemblies succeed\<close>

lemma check_names_Inr:
  "check_names kind seen names = Inr () \<longleftrightarrow> [] \<notin> set names \<and> distinct names \<and> set seen \<inter> set names = {}"
  by (induction names arbitrary: seen) auto

lemma mapE_Inr_ex: "(\<And>x. x \<in> set xs \<Longrightarrow> \<exists>y. f x = Inr y) \<Longrightarrow> \<exists>ys. mapE f xs = Inr ys"
  by (induction xs) fastforce+

lemma mapE_unit: "(\<And>x. x \<in> set xs \<Longrightarrow> f x = Inr ()) \<Longrightarrow> \<exists>ys. mapE f xs = Inr ys"
  by (rule mapE_Inr_ex) blast

lemma mapE_keys:
  assumes "mapE f xs = Inr ys" "\<And>x y. x \<in> set xs \<Longrightarrow> f x = Inr y \<Longrightarrow> k y = j x"
  shows "map k ys = map j xs"
  using mapE_nth [OF assms(1)] assms(2) by (auto intro!: nth_equalityI)

lemma variables_loop_keys:
  "variables_loop ask ps vs = Inr ws \<Longrightarrow> fst ` set ws \<subseteq> fst ` set ps \<union> fst ` set vs"
proof (induction ps arbitrary: vs)
  case (Cons p ps)
  obtain name q where p: "p = (name, q)" by (cases p)
  then obtain v where "variables_loop ask ps (put vs name v) = Inr ws" using Cons.prems by (auto simp: res_iff)
  from Cons.IH [OF this] show ?case unfolding set_put using p by auto
qed simp

lemma variables_loop_ok:
  "list_all (\<lambda>p. \<exists>v. ask (snd p) = Inr v) ps \<Longrightarrow> \<exists>ws. variables_loop ask ps vs = Inr ws"
proof (induction ps arbitrary: vs)
  case (Cons p ps)
  obtain name q where p: "p = (name, q)" by (cases p)
  then obtain v where "ask q = Inr v" using Cons.prems by auto
  moreover obtain ws where "variables_loop ask ps (put vs name v) = Inr ws" using Cons by fastforce
  ultimately show ?case using p by simp
qed simp

lemma merged_all: "list_all P ds \<Longrightarrow> list_all P (merge_definitions name order ds)"
proof -
  assume "list_all P ds"
  moreover have "set (merge_definitions name order ds) \<subseteq> set ds" using last_named_Some by (fastforce simp: merged_set)
  ultimately show ?thesis by (auto simp: list_all_iff)
qed

lemma snapshot_definitions_ok:
  assumes "snapshot_ok c"
  shows "list_all section_ok (mergeSections (snapshot_layers c))"
    "list_all context_ok (mergeContexts (snapshot_layers c))"
    "list_all variable_ok (concat (map layerVariables (snapshot_layers c)))"
proof -
  have "list_all section_ok (concat (map layerSections (snapshot_layers c)))"
    "list_all context_ok (concat (map layerContexts (snapshot_layers c)))"
    using assms by (auto simp: snapshot_ok_def view_ok_def list_all_iff)
  then show "list_all section_ok (mergeSections (snapshot_layers c))"
    "list_all context_ok (mergeContexts (snapshot_layers c))"
    by (simp_all add: mergeSections_def mergeContexts_def merged_all)
  show "list_all variable_ok (concat (map layerVariables (snapshot_layers c)))"
    using assms by (auto simp: snapshot_ok_def view_ok_def list_all_iff)
qed

lemma resolve_section_fst: "resolve_section ask input d = Inr r \<Longrightarrow> fst r = sectionName d"
  by (auto simp: resolve_section_def res_iff)

lemma validateAssembly_ok:
  assumes ok: "snapshot_ok c"
    and s: "resolveSections askText input (snapshot_layers c) = Inr (secs, whole)"
    and x: "resolveContexts askText input (snapshot_layers c) = Inr contexts"
    and v: "resolveVariables askVariable input (snapshot_layers c) = Inr variables"
    and t: "[] \<notin> set (map schemaName tools)"
  shows "validateAssembly \<lparr>assembledSections = secs, assembledContexts = contexts, assembledTools = tools,
    assembledVariables = variables\<rparr> = Inr ()"
proof -
  note defs = snapshot_definitions_ok [OF ok]
  have "map fst secs = map sectionName (mergeSections (snapshot_layers c))"
    using s resolve_section_fst by (auto simp: resolveSections_def Let_def res_iff intro!: mapE_keys)
  moreover have "distinct (map sectionName (mergeSections (snapshot_layers c)))"
    unfolding mergeSections_def by (rule merged_distinct)
  moreover have "[] \<notin> set (map sectionName (mergeSections (snapshot_layers c)))"
    using defs(1) by (auto simp: list_all_iff section_ok_def)
  ultimately have sections: "check_names ''section'' [] (map fst secs) = Inr ()"
    by (simp only: check_names_Inr) simp
  have contexts: "check_names ''context'' [] (map fst contexts) = Inr ()"
  proof (cases "contextSuppressed (snapshot_layers c)")
    case True
    then show ?thesis using x by (simp add: resolveContexts_def)
  next
    case False
    then have "map fst contexts = map contextName (mergeContexts (snapshot_layers c))"
      using x by (auto simp: resolveContexts_def res_iff intro!: mapE_keys)
    moreover have "distinct (map contextName (mergeContexts (snapshot_layers c)))"
      unfolding mergeContexts_def by (rule merged_distinct)
    moreover have "[] \<notin> set (map contextName (mergeContexts (snapshot_layers c)))"
      using defs(2) by (auto simp: list_all_iff context_ok_def)
    ultimately show ?thesis by (simp only: check_names_Inr) simp
  qed
  have keys: "fst ` set variables \<subseteq> fst ` set (concat (map layerVariables (snapshot_layers c)))"
    using variables_loop_keys [OF v [unfolded resolveVariables_def]] by simp
  have names: "variableNamePattern (fst p)" if "p \<in> set variables" for p
  proof -
    have "fst p \<in> fst ` set (concat (map layerVariables (snapshot_layers c)))" using keys that by blast
    then obtain q where "q \<in> set (concat (map layerVariables (snapshot_layers c)))" "fst q = fst p" by (metis imageE)
    then show ?thesis using defs(3) by (metis list_all_iff variable_ok_def)
  qed
  have "\<exists>ys. mapE (\<lambda>s. failIf (schemaName s = []) (err ''systemprompt: assembled tool names must be non-empty'')) tools = Inr ys"
    using t by (intro mapE_unit) (auto simp: image_iff)
  moreover have "\<exists>ys. mapE (\<lambda>(name, v). failIf (\<not> variableNamePattern name)
      (Errorf ''systemprompt: assembled variable name %q is invalid'' [AStr name])) variables = Inr ys"
    by (rule mapE_unit) (use names in force)
  ultimately show ?thesis using sections contexts by (auto simp: validateAssembly_def)
qed

lemma resolved_tools_names:
  assumes "resolveTools input order = Inr tools" "validateToolOrderSyntax order = Inr ()"
  shows "mset tools = mset (toolSchemas input)"
proof -
  have "detachToolSchema s = Inr s' \<Longrightarrow> s' = s" for s s'
    by (auto simp: detachToolSchema_def Let_def split: raw.splits json.splits if_splits)
  then have "mapE detachToolSchema xs = Inr ys \<Longrightarrow> ys = xs" for xs ys
    using mapE_nth by (metis nth_equalityI)
  then obtain known where "orderToolSchemas (toolSchemas input) order known = Inr tools"
    using assms(1) by (auto simp: resolveTools_def res_iff)
  then show ?thesis using assms(2) orderToolSchemas_None orderToolSchemas_Some
    by (cases order) (auto simp: validateToolOrderSyntax_Inr)
qed

lemma resolveText_ok:
  "p \<noteq> NoText \<Longrightarrow> (\<And>f. \<exists>t. askText f input = Inr t) \<Longrightarrow> \<exists>t. resolveText askText input p = Inr t"
  by (cases p) (auto simp: resolveText_def)

lemma resolved_parts:
  assumes "snapshot_ok c" "\<And>f. \<exists>t. askText f input = Inr t" "\<And>f. \<exists>v. askVariable f input = Inr v"
    "length (filter sectionComplete (mergeSections (snapshot_layers c))) \<le> 1"
  shows "\<exists>vs. resolveVariables askVariable input (snapshot_layers c) = Inr vs"
    "\<exists>r. resolveSections askText input (snapshot_layers c) = Inr r"
    "\<exists>xs. resolveContexts askText input (snapshot_layers c) = Inr xs"
proof -
  note defs = snapshot_definitions_ok [OF assms(1)]
  have "\<exists>v. ResolveVariable askVariable input (snd p) = Inr v" if "variable_ok p" for p
    using that assms(3) by (cases "snd p") (auto simp: ResolveVariable_def variable_ok_def)
  then show "\<exists>vs. resolveVariables askVariable input (snapshot_layers c) = Inr vs"
    unfolding resolveVariables_def by (intro variables_loop_ok list.pred_mono_strong [OF defs(3)])
  have "\<exists>r. resolve_section askText input d = Inr r" if "section_ok d" for d
    using resolveText_ok [where askText = askText and input = input and p = "sectionText d", OF _ assms(2)] that by (auto simp: resolve_section_def section_ok_def)
  then have "\<exists>rs. mapE (resolve_section askText input) (mergeSections (snapshot_layers c)) = Inr rs"
    using defs(1) by (intro mapE_Inr_ex) (auto simp: list_all_iff)
  then show "\<exists>r. resolveSections askText input (snapshot_layers c) = Inr r"
    using assms(4) by (auto simp: resolveSections_def Let_def)
  have "\<exists>r. bindE (wrapE w (resolveText askText input (contextProvider d))) (\<lambda>t. Inr (contextName d, t)) = Inr r"
    if "context_ok d" for d w
    using resolveText_ok [where askText = askText and input = input and p = "contextProvider d", OF _ assms(2)] that by (auto simp: context_ok_def)
  then show "\<exists>xs. resolveContexts askText input (snapshot_layers c) = Inr xs"
    using defs(2) unfolding resolveContexts_def by (auto simp: list_all_iff intro!: mapE_Inr_ex)
qed

lemma assemble_succeeds:
  assumes ok: "snapshot_ok c" and ctx: "validatePromptMutationContext ctx 0 = Inr ()"
    and texts: "\<And>f. \<exists>t. askText f input = Inr t" and vals: "\<And>f. \<exists>v. askVariable f input = Inr v"
    and one: "length (filter sectionComplete (mergeSections (snapshot_layers c))) \<le> 1"
    and tools: "resolveTools input (capturedToolOrder c) = Inr tools" "[] \<notin> set (map schemaName tools)"
  shows "\<exists>a. Assemble askText askVariable ctx input c = Inr a \<and> assembledTools a = tools \<and>
    (contextSuppressed (snapshot_layers c) \<longrightarrow> assembledContexts a = [])"
proof -
  from resolved_parts [where askText = askText and askVariable = askVariable and input = input, OF ok texts vals one]
  obtain vs secs whole xs where r:
    "resolveVariables askVariable input (snapshot_layers c) = Inr vs"
    "resolveSections askText input (snapshot_layers c) = Inr (secs, whole)"
    "resolveContexts askText input (snapshot_layers c) = Inr xs" by auto
  have "contextSuppressed (snapshot_layers c) \<longrightarrow> xs = []" using r(3) by (auto simp: resolveContexts_def)
  then show ?thesis
    using validateAssembly_ok [OF ok r(2,3,1) tools(2)] r tools(1) ctx
    by (auto simp: Assemble_def resolve_assembly_def Let_def split: option.split)
qed

section \<open>The runtime of an agent\<close>

inductive runtime_reach :: "'f prompt_runtime \<Rightarrow> bool" where
  new: "snapshot_reach c \<Longrightarrow> NewRuntime i c = Inr r \<Longrightarrow> runtime_reach r"
| definitions: "runtime_reach r \<Longrightarrow> snapshot_reach c \<Longrightarrow> runtime_reach (SetDefinitions c r)"
| tools: "runtime_reach r \<Longrightarrow> ApplyTools i input r = Inr r' \<Longrightarrow> runtime_reach r'"

definition tools_ok :: "tool_schema list \<Rightarrow> bool" where
  "tools_ok schemas =
     (distinct (map schemaName schemas) \<and> [] \<notin> set (map schemaName schemas) \<and>
      ToolOrderRest \<notin> set (map schemaName schemas) \<and> list_all (\<lambda>s. detachToolSchema s = Inr s) schemas)"

definition runtime_ok :: "'f prompt_runtime \<Rightarrow> bool" where
  "runtime_ok r =
     (runtimeAgent r \<noteq> [] \<and> snapshot_ok (runtimeDefinitions r) \<and>
      (\<forall>t. runtimeTools r = Some t \<longrightarrow> tools_ok (toolSchemas t)))"

lemma detach_same: "detachToolSchema s = Inr s' \<Longrightarrow> s' = s"
  by (auto simp: detachToolSchema_def Let_def split: raw.splits json.splits if_splits)

lemma detach_schemas_Inr:
  "detach_schemas seen schemas = Inr copies \<Longrightarrow>
   copies = schemas \<and> tools_ok schemas \<and> set seen \<inter> set (map schemaName schemas) = {}"
proof (induction schemas arbitrary: seen copies)
  case (Cons s ss)
  then obtain s' rest where d: "schemaName s \<noteq> []" "schemaName s \<noteq> ToolOrderRest" "schemaName s \<notin> set seen"
      "detachToolSchema s = Inr s'" "detach_schemas (seen @ [schemaName s]) ss = Inr rest" "copies = s' # rest"
    by (auto simp: res_iff Let_def)
  from Cons.IH [OF d(5)] detach_same [OF d(4)] d show ?case by (auto simp: tools_ok_def)
qed (simp add: tools_ok_def)

lemma runtime_reach_ok: "runtime_reach r \<Longrightarrow> runtime_ok r"
proof (induction rule: runtime_reach.induct)
  case (new c i r)
  then show ?case using reach_ok(2) by (auto simp: NewRuntime_def res_iff runtime_ok_def)
next
  case (definitions r c)
  then show ?case using reach_ok(2) by (simp add: SetDefinitions_def runtime_ok_def)
next
  case (tools r i input r')
  then show ?case using detach_schemas_Inr [of "[]" "toolSchemas input"]
    by (auto simp: ApplyTools_def res_iff runtime_ok_def)
qed

section \<open>Configured tool orders\<close>

text \<open>The names an order may list: those the registration gives, or else those of its schemas.\<close>

definition known_tools :: "tool_definitions \<Rightarrow> string list" where
  "known_tools t = (case knownNames t of None \<Rightarrow> map schemaName (toolSchemas t) | Some names \<Rightarrow> names)"

definition order_known :: "tool_definitions \<Rightarrow> string list option \<Rightarrow> bool" where
  "order_known t order =
     (case order of None \<Rightarrow> True | Some names \<Rightarrow> list_all (\<lambda>n. n = ToolOrderRest \<or> n \<in> set (known_tools t)) names)"

text \<open>
  How an order arranges the tools: ascending by name without one, and otherwise by the position of their names in
  it, those it does not list at the place of its rest entry and ascending by name.
\<close>

definition arranged :: "string list option \<Rightarrow> tool_schema list \<Rightarrow> bool" where
  "arranged order tools =
     (case order of
        None \<Rightarrow> sorted_wrt (\<lambda>x y. \<not> schemaName y < schemaName x) tools
      | Some names \<Rightarrow>
          sorted (map (schema_rank names) tools) \<and>
          sorted_wrt (\<lambda>x y. \<not> schemaName y < schemaName x) (filter (\<lambda>s. schemaName s \<notin> set names) tools))"

lemma concat_single: "distinct names \<Longrightarrow> concat (map (\<lambda>n. if n = x then r else []) names) = (if x \<in> set names then r else [])"
  by (induction names) auto

lemma unlisted_ascending:
  assumes "orderToolSchemas schemas (Some names) known = Inr ordered" "distinct names"
  shows "sorted_wrt (\<lambda>x y. \<not> schemaName y < schemaName x) (filter (\<lambda>s. schemaName s \<notin> set names) ordered)"
proof -
  define rest where "rest = SliceStable by_schema_name (filter (\<lambda>s. schemaName s \<notin> set names) schemas)"
  let ?f = "\<lambda>n. if n = ToolOrderRest then rest else filter (\<lambda>s. schemaName s = n) schemas"
  let ?out = "filter (\<lambda>s. schemaName s \<notin> set names)"
  have o: "ordered = concat (map ?f names)"
    unfolding rest_def using assms(1) by (auto simp: orderToolSchemas_def res_iff Let_def split: if_splits)
  have unlisted: "schemaName s \<notin> set names" if "s \<in> set rest" for s
    using that by (simp add: rest_def)
  then have all: "?out rest = rest" by (simp add: filter_id_conv)
  have "map (\<lambda>n. ?out (?f n)) names = map (\<lambda>n. if n = ToolOrderRest then rest else []) names"
    using all by (auto simp: filter_empty_conv)
  then have "?out ordered = (if ToolOrderRest \<in> set names then rest else [])"
    unfolding o filter_concat map_map comp_def by (simp only: concat_single [OF assms(2)])
  moreover have "sorted_wrt (\<lambda>x y. \<not> schemaName y < schemaName x) rest"
    using by_name.ascending_sort [of _ schemaName]
    by (auto simp: rest_def by_schema_name_def [abs_def] list_all_iff)
  ultimately show ?thesis by simp
qed

lemma resolved_order:
  assumes "tools_ok (toolSchemas t)" "validateToolOrderSyntax order = Inr ()"
  shows "isOk (resolveTools t order) = order_known t order \<and>
    (\<forall>tools. resolveTools t order = Inr tools \<longrightarrow> mset tools = mset (toolSchemas t) \<and> arranged order tools)"
proof -
  have collected: "mapE detachToolSchema (toolSchemas t) = Inr (toolSchemas t)"
    using mapE_map [of "toolSchemas t" detachToolSchema "\<lambda>s. s" "\<lambda>s. s"] assms(1) by (simp add: tools_ok_def list_all_iff)
  then have r: "resolveTools t order = orderToolSchemas (toolSchemas t) order (known_tools t)"
    by (simp add: resolveTools_def known_tools_def)
  have "isOk (resolveTools t order) = order_known t order"
    using assms(1) unfolding r
    by (auto simp: orderToolSchemas_def order_known_def tools_ok_def Let_def filter_empty_conv list_all_iff isOk_iff
        split: option.splits)
  moreover have "mset tools = mset (toolSchemas t) \<and> arranged order tools" if "resolveTools t order = Inr tools" for tools
  proof (cases order)
    case None
    then show ?thesis using orderToolSchemas_None that unfolding r by (auto simp: arranged_def)
  next
    case (Some names)
    then have "distinct names" "ToolOrderRest \<in> set names" using assms(2) by (simp_all add: validateToolOrderSyntax_Inr)
    moreover have "orderToolSchemas (toolSchemas t) (Some names) (known_tools t) = Inr tools" using that r Some by simp
    ultimately show ?thesis using orderToolSchemas_Some unlisted_ascending Some by (auto simp: arranged_def)
  qed
  ultimately show ?thesis by blast
qed

lemma assemble_needs_tools:
  "Assemble askText askVariable ctx input c = Inr a \<Longrightarrow>
   \<exists>tools. resolveTools input (capturedToolOrder c) = Inr tools \<and> assembledTools a = tools"
  by (auto simp: Assemble_def resolve_assembly_def res_iff Let_def split: option.splits prod.splits)

end
