(* ===== verification/PromptRenderLaws.thy ===== *)
theory PromptRenderLaws
  imports PromptRender
begin

text \<open>
  Interpolation is the meaning of templates: a text that is interpolated decomposes into
  literals, references and a tail without a closing brace pair, and its value is the
  concatenation of their values.
\<close>

section \<open>Finding a pair of braces\<close>

lemma no_pair_Cons: "no_pair c (x # s) \<longleftrightarrow> (s = [] \<or> \<not> (x = c \<and> hd s = c) \<and> no_pair c s)"
  by (cases s) auto

lemma no_pair_notin: "c \<notin> set s \<Longrightarrow> no_pair c (s @ [c])"
  by (induction s) (auto simp: no_pair_Cons hd_append)

lemma no_pair_append:
  "no_pair c (s @ [c]) \<Longrightarrow> no_pair c (t @ [c]) \<Longrightarrow> no_pair c (s @ t @ [c])"
  by (induction s) (auto simp: no_pair_Cons hd_append split: if_splits)

lemma no_pair_drop: "no_pair c s \<Longrightarrow> no_pair c (drop n s)"
proof (induction s arbitrary: n)
  case (Cons x s)
  then show ?case by (cases n) (auto simp: no_pair_Cons)
qed simp

lemma string_index_at:
  "no_pair c (a @ [c]) \<Longrightarrow> string_index [c, c] (a @ c # c # b) = Some (length a)"
  by (induction a) (auto simp: no_pair_Cons numeral_2_eq_2 take_Cons hd_append neq_Nil_conv split: if_splits)

lemma take_pair: "take 2 (x # s) = [c, c] \<longleftrightarrow> x = c \<and> s \<noteq> [] \<and> hd s = c"
  by (cases s) (auto simp: numeral_2_eq_2)

lemma take_one: "take (Suc 0) s = [c] \<longleftrightarrow> s \<noteq> [] \<and> hd s = c"
  by (cases s) auto

lemma string_index_None: "string_index [c, c] s = None \<longleftrightarrow> no_pair c s"
  by (induction s) (auto simp: no_pair_Cons take_one)

lemma string_index_Some:
  "string_index [c, c] s = Some i \<Longrightarrow> \<exists>a b. s = a @ c # c # b \<and> length a = i \<and> no_pair c (a @ [c])"
proof (induction s arbitrary: i)
  case (Cons x s)
  show ?case
  proof (cases "take 2 (x # s) = [c, c]")
    case True
    then have "s = c # tl s" "x = c" by (cases s; simp add: numeral_2_eq_2)+
    with True Cons.prems show ?thesis by (intro exI [of _ "[]"] exI [of _ "tl s"]) simp
  next
    case False
    with Cons.prems obtain j where j: "string_index [c, c] s = Some j" "i = Suc j" by auto
    from Cons.IH [OF j(1)] obtain a b where ab: "s = a @ c # c # b" "length a = j" "no_pair c (a @ [c])"
      by blast
    then have "no_pair c ((x # a) @ [c])"
      using False by (cases a) (auto simp: numeral_2_eq_2)
    with ab j(2) show ?thesis by (intro exI [of _ "x # a"] exI [of _ b]) simp
  qed
qed simp

lemma referenceAt_reference:
  assumes "piece_ok (ReferencePiece r)"
  shows "referenceAt (piece_text (ReferencePiece r) @ s) = Some (length r + 4, r)"
proof -
  have "string_index ''}}'' (r @ ''}}'' @ s) = Some (length r)"
    using assms string_index_at [OF no_pair_notin, of "CHR ''}''" r s] by simp
  then show ?thesis using assms by (auto simp: referenceAt_def Let_def subslice_def list_ex_iff)
qed

lemma referenceAt_Some:
  assumes "referenceAt s = Some (n, r)"
  shows "piece_ok (ReferencePiece r) \<and> n = length r + 4 \<and> s = piece_text (ReferencePiece r) @ drop n s"
proof -
  obtain i where i: "take 2 s = ''{{''" "string_index ''}}'' (drop 2 s) = Some i"
      "n = i + 4" "r = subslice s 2 i" "\<not> list_ex (\<lambda>c. c = CHR ''{'' \<or> c = CHR ''}'') r"
    using assms by (auto simp: referenceAt_def Let_def split: if_splits option.splits)
  obtain a b where ab: "drop 2 s = a @ ''}}'' @ b" "length a = i" using string_index_Some [OF i(2)] by auto
  have s: "s = ''{{'' @ a @ ''}}'' @ b" using i(1) ab(1) append_take_drop_id [of 2 s] by simp
  then have "r = a" using i(4) ab(2) by (simp add: subslice_def)
  then have "piece_ok (ReferencePiece r)" "n = length r + 4" using i(3,5) ab(2) by (auto simp: list_ex_iff)
  moreover have "drop n s = b" using \<open>r = a\<close> \<open>n = length r + 4\<close> by (simp add: numeral_eq_Suc s)
  ultimately show ?thesis using s \<open>r = a\<close> by simp
qed

section \<open>The loop\<close>

definition templates :: "piece list \<Rightarrow> string \<Rightarrow> string" where
  "templates pieces tail = concat (map piece_text pieces) @ tail"

lemma loop_verbatim:
  assumes "no_pair (CHR ''}'') (drop start input)" "start \<le> length input"
  shows "interpolate_loop name input kind vars start out = Inr (out @ drop start input)"
  using assms
proof (induction "length input - start" arbitrary: start out rule: less_induct)
  case less
  show ?case
  proof (cases "string_index ''{{'' (drop start input)")
    case None
    then show ?thesis by (simp add: interpolate_loop.simps [of name input])
  next
    case (Some i)
    then obtain a b where ab: "drop start input = a @ ''{{'' @ b" "length a = i" using string_index_Some by fastforce
    have b: "drop (start + i + 2) input = b"
      using arg_cong [OF ab(1), of "drop (i + 2)"] ab(2) by (simp add: add.commute add.left_commute)
    have len: "length input = start + i + 2 + length b"
      using arg_cong [OF ab(1), of length] less.prems(2) ab(2) by simp
    have nb: "no_pair (CHR ''}'') b" using no_pair_drop [OF less.prems(1), of "i + 2"] ab by simp
    have "drop (start + i) input = ''{{'' @ b"
      using arg_cong [OF ab(1), of "drop i"] ab(2) by (simp add: add.commute)
    moreover have "string_index ''}}'' b = None" using nb string_index_None by blast
    ultimately have "referenceAt (drop (start + i) input) = None"
      by (simp add: referenceAt_def)
    moreover have "\<not> string_contains b ''}}''"
      using nb by (simp add: string_contains_def string_index_None)
    ultimately have "interpolate_loop name input kind vars start out =
        interpolate_loop name input kind vars (start + i + 2) (out @ subslice input start (i + 2))"
      using Some b by (simp add: interpolate_loop.simps [of name input kind vars start] Let_def)
    also have "\<dots> = Inr (out @ subslice input start (i + 2) @ b)"
      using less.hyps [of "start + i + 2"] len nb b by simp
    finally show ?thesis using ab by (simp add: subslice_def)
  qed
qed

lemma string_index_skip:
  "no_pair c (a @ [c]) \<Longrightarrow> string_index [c, c] (a @ s) = map_option ((+) (length a)) (string_index [c, c] s)"
proof (induction a)
  case (Cons x a)
  then have "take 2 (x # a @ s) \<noteq> [c, c]"
    by (cases a) (auto simp: no_pair_Cons take_pair)
  with Cons show ?case by (auto simp: no_pair_Cons option.map_comp comp_def take_pair)
next
  case Nil
  show ?case by (cases "string_index [c, c] s") simp_all
qed

lemma loop_literal:
  assumes "piece_ok (LiteralPiece lit)"
  shows "interpolate_loop name (pre @ lit @ s) kind vars (length pre) out =
    interpolate_loop name (pre @ lit @ s) kind vars (length pre + length lit) (out @ lit)"
proof (cases "string_index ''{{'' s")
  case None
  then show ?thesis using string_index_skip [of "CHR ''{''" lit s] assms
    by (simp add: interpolate_loop.simps [of name "pre @ lit @ s"])
next
  case (Some i)
  have sub: "subslice (pre @ lit @ s) (length pre) (length lit + n) = lit @ subslice (pre @ lit @ s) (length pre + length lit) n" for n
    by (simp add: subslice_def)
  show ?thesis using string_index_skip [of "CHR ''{''" lit s] assms Some sub [of i] sub [of "Suc (Suc i)"]
    by (simp add: interpolate_loop.simps [of name "pre @ lit @ s" kind vars "length pre"]
        interpolate_loop.simps [of name "pre @ lit @ s" kind vars "length pre + length lit"] Let_def add.assoc
        split: option.split)
qed

lemma loop_reference:
  assumes "piece_ok (ReferencePiece r)"
  shows "interpolate_loop name (pre @ piece_text (ReferencePiece r) @ s) kind vars (length pre) out =
    bindE (reference_value name kind vars r) (\<lambda>v.
      interpolate_loop name (pre @ piece_text (ReferencePiece r) @ s) kind vars (length pre + length r + 4) (out @ v))"
  using referenceAt_reference [OF assms, of s] string_index_at [of "CHR ''{''" "[]" "r @ ''}}'' @ s"]
  by (subst interpolate_loop.simps) (simp add: Let_def subslice_def add.assoc)

lemma template_value_Cons:
  "template_value name kind vars (p # ps) =
     bindE (piece_value name kind vars p) (\<lambda>v. bindE (template_value name kind vars ps) (\<lambda>vs. Inr (v @ vs)))"
  by (simp add: template_value_def bindE_assoc)

lemma loop_template:
  assumes "list_all piece_ok pieces" "no_pair (CHR ''}'') tail"
  shows "interpolate_loop name (pre @ templates pieces tail) kind vars (length pre) out =
    bindE (template_value name kind vars pieces) (\<lambda>v. Inr (out @ v @ tail))"
  using assms
proof (induction pieces arbitrary: pre out)
  case Nil
  then show ?case using loop_verbatim [of "length pre" "pre @ tail"] by (simp add: templates_def template_value_def)
next
  case (Cons p ps)
  note IH = Cons.IH [of "pre @ piece_text p"]
  have t: "pre @ templates (p # ps) tail = pre @ piece_text p @ templates ps tail" by (simp add: templates_def)
  show ?case
  proof (cases p)
    case (LiteralPiece lit)
    then show ?thesis unfolding t template_value_Cons
      using IH [of "out @ lit"] Cons.prems loop_literal [of lit name pre "templates ps tail" kind vars out]
      by (simp add: bindE_assoc)
  next
    case (ReferencePiece r)
    have "interpolate_loop name (pre @ piece_text p @ templates ps tail) kind vars (length pre + length r + 4) (out @ v) =
        bindE (template_value name kind vars ps) (\<lambda>vs. Inr ((out @ v) @ vs @ tail))" for v
      using IH [of "out @ v"] Cons.prems ReferencePiece by (simp add: numeral_eq_Suc)
    then show ?thesis unfolding t template_value_Cons
      using Cons.prems(1) ReferencePiece loop_reference [of r name pre "templates ps tail" kind vars out]
      by (simp add: bindE_assoc)
  qed
qed

section \<open>Every interpolated text is a template\<close>

lemma literal_split: "no_pair c s \<Longrightarrow> \<exists>a b. s = a @ b \<and> no_pair c (a @ [c]) \<and> (b = [] \<or> b = [c])"
proof (cases s rule: rev_cases)
  case (snoc a x)
  assume n: "no_pair c s"
  have "no_pair c (u @ [y]) \<Longrightarrow> y \<noteq> c \<Longrightarrow> no_pair c (u @ [y, c])" for u :: string and y
    by (induction u) (auto simp: no_pair_Cons hd_append)
  then show ?thesis using n snoc by (cases "x = c") (auto intro: exI [of _ a] exI [of _ s])
qed simp

lemma loop_is_template:
  assumes "interpolate_loop name input kind vars start out = Inr v" "start \<le> length input"
  shows "\<exists>pieces tail w. drop start input = templates pieces tail \<and> list_all piece_ok pieces \<and>
    no_pair (CHR ''}'') tail \<and> template_value name kind vars pieces = Inr w \<and> v = out @ w @ tail"
  using assms
proof (induction "length input - start" arbitrary: start out rule: less_induct)
  case less
  let ?s = "drop start input"
  show ?case
  proof (cases "string_index ''{{'' ?s")
    case None
    then obtain a b where ab: "?s = a @ b" "no_pair (CHR ''{'') (a @ ''{'')" "b = [] \<or> b = ''{''"
      using literal_split string_index_None by blast
    moreover have "v = out @ ?s" using less.prems None by (simp add: interpolate_loop.simps [of name input])
    ultimately show ?thesis
      by (intro exI [of _ "[LiteralPiece a]"] exI [of _ b] exI [of _ a]) (auto simp: templates_def template_value_def)
  next
    case (Some i)
    then obtain a b where ab: "?s = a @ ''{{'' @ b" "length a = i" "no_pair (CHR ''{'') (a @ ''{'')"
      using string_index_Some by fastforce
    define at where "at = start + i"
    have open': "drop at input = ''{{'' @ b" "at \<le> length input"
      using arg_cong [OF ab(1), of "drop i"] arg_cong [OF ab(1), of length] less.prems(2) ab(2)
      by (simp_all add: at_def add.commute)
    have after: "drop (at + 2) input = b" using arg_cong [OF open'(1), of "drop 2"] by (simp add: add.commute)
    have pre: "subslice input start (at - start) = a" "subslice input start (at + 2 - start) = a @ ''{{''"
      using ab by (simp_all add: subslice_def at_def)
    show ?thesis
    proof (cases "referenceAt (drop at input)")
      case None
      have nb: "no_pair (CHR ''}'') b" and r: "interpolate_loop name input kind vars (at + 2) (out @ a @ ''{{'') = Inr v"
        using less.prems(1) Some None after pre(2)
        by (auto simp: interpolate_loop.simps [of name input kind vars start] at_def string_contains_def
            string_index_None Let_def split: if_splits)
      have "at + 2 \<le> length input" using arg_cong [OF open'(1), of length] open'(2) by simp
      then have "v = out @ a @ ''{{'' @ b" using r loop_verbatim [of "at + 2" input] after nb by simp
      moreover have "no_pair (CHR ''}'') (''{{'' @ b)" using nb by (simp add: no_pair_Cons)
      ultimately show ?thesis using ab
        by (intro exI [of _ "[LiteralPiece a]"] exI [of _ "''{{'' @ b"] exI [of _ a])
          (simp add: templates_def template_value_def)
    next
      case (Some q)
      obtain n ref where q: "q = (n, ref)" by (cases q)
      note ref = referenceAt_Some [OF Some [unfolded q]]
      obtain x where x: "reference_value name kind vars ref = Inr x"
          "interpolate_loop name input kind vars (at + n) (out @ a @ x) = Inr v"
        using less.prems(1) Some q \<open>string_index ''{{'' ?s = Some i\<close> pre(1)
        by (auto simp: interpolate_loop.simps [of name input kind vars start] at_def bindE_Inr_iff)
      have len: "at + n \<le> length input" "length input - (at + n) < length input - start"
        using referenceAt_bounds [OF Some [unfolded q]] open'(2) at_def by auto
      from less.hyps [OF len(2) x(2) len(1)] obtain ps tail w where ps:
        "drop (at + n) input = templates ps tail" "list_all piece_ok ps" "no_pair (CHR ''}'') tail"
        "template_value name kind vars ps = Inr w" "v = (out @ a @ x) @ w @ tail" by blast
      have "?s = templates (LiteralPiece a # ReferencePiece ref # ps) tail"
        proof -
        have "drop n (drop at input) = templates ps tail" using ps(1) by (simp add: add.commute)
        then have "drop at input = piece_text (ReferencePiece ref) @ templates ps tail" using ref by metis
        then show ?thesis using ab(1) open'(1) by (simp add: templates_def)
      qed
      then show ?thesis using ps ref ab(3) x(1)
        by (intro exI [of _ "LiteralPiece a # ReferencePiece ref # ps"] exI [of _ tail] exI [of _ "a @ x @ w"])
          (simp add: template_value_Cons)
    qed
  qed
qed

lemma interpolate_template:
  "list_all piece_ok pieces \<Longrightarrow> no_pair (CHR ''}'') tail \<Longrightarrow>
   interpolate name (templates pieces tail) kind vars =
     bindE (template_value name kind vars pieces) (\<lambda>v. Inr (v @ tail))"
  using loop_template [of pieces tail name "[]" kind vars "[]"] by (simp add: interpolate_def)

end
