(* ===== verification/PromptTheorems.thy ===== *)
theory PromptTheorems
  imports PromptSafety PromptRenderLaws
begin

text \<open>
  The properties of the system prompt: what a store captures, how definitions merge, how tool
  schemas are ordered, what interpolation means, when an assembly succeeds, and the codec of
  the configuration; each with an instance on a small prompt.
\<close>

section \<open>A small prompt\<close>

definition short_section :: "string \<Rightarrow> rat \<Rightarrow> string \<Rightarrow> unit prompt_section" where
  "short_section n q t = \<lparr>sectionName = n, sectionOrder = Finite q, sectionText = StaticText t, sectionComplete = False\<rparr>"

definition sample_settings :: validated_config where
  "sample_settings = \<lparr>validHarnessIdentity = True, validRuntimeContext = True, validPersona = ''Be brief.'',
     validToolOrder = None\<rparr>"

definition sample_history :: "unit store_op list" where
  "sample_history =
     [StoreAdd ''a'' (RegSection (short_section ''rules'' 5 ''one'')),
      StoreAdd ''b'' (RegSection (short_section ''rules'' 1 ''two'')),
      StoreAdd ''c'' (RegVariable (''cwd'', FixedVariable \<lparr>variableText = ''/tmp'', variableDefined = True\<rparr>)),
      StoreRemove ''a'',
      StoreAdd ''d'' (RegSection (short_section ''rules'' 1 ''two''))]"

definition open_context :: go_context where
  "open_context = Context (\<lambda>i. None)"

definition sample_schema :: "string \<Rightarrow> tool_schema" where
  "sample_schema n = \<lparr>schemaVersion = 1, schemaName = n, schemaDescription = [], schemaParameters = Doc (JObj [])\<rparr>"

definition sample_tools :: tool_definitions where
  "sample_tools = \<lparr>toolSchemas = [sample_schema ''write'', sample_schema ''read''], knownNames = None\<rparr>"

definition ordered_settings :: "string \<Rightarrow> validated_config" where
  "ordered_settings n = sample_settings\<lparr>validToolOrder := Some [n, ToolOrderRest]\<rparr>"

definition ordered_runtime :: "string \<Rightarrow> unit prompt_runtime" where
  "ordered_runtime n = \<lparr>runtimeAgent = ''s'', runtimeDefinitions = CaptureLayer (NewLayer (ordered_settings n)),
     runtimeTools = Some sample_tools\<rparr>"

section \<open>Properties\<close>

text \<open>
  C23: The store of a prompt layer refines a list of registrations.  Whatever sequence of
  additions (each under a fresh identifier), removals and clears ran on a new store, what it
  captures is the list of the definitions added and neither refused nor removed, in the order
  of their registration.
\<close>

theorem prompt_store_refines_registrations:
  "distinct (added_ids ops) \<Longrightarrow>
   snapshotValue (fold store_step ops newPromptStore) = registered_view (fold spec_step ops [])"
  using run_represents [OF new_represents, of ops] by (simp add: store_represents_def)

theorem prompt_store_refines_registrations_witness:
  "map sectionText (layerSections (snapshotValue (fold store_step sample_history newPromptStore))) = [StaticText ''two''] \<and>
   map fst (layerVariables (snapshotValue (fold store_step sample_history newPromptStore))) = [''cwd'']"
proof -
  have "distinct (added_ids sample_history)" by code_simp
  from prompt_store_refines_registrations [OF this] show ?thesis
    by (simp add: sample_history_def register_def deregister_def registered_view_def short_section_def
        List.map_filter_simps)
qed

text \<open>
  C20: Merging the sections of the captured layers keeps exactly one definition per name, the
  last one in the order of the layers; the result ascends in the order field, and definitions
  of equal order keep the order in which their names first appeared.
\<close>

theorem merged_sections_are_last_and_ordered:
  assumes "list_all (\<lambda>d. finite_float (sectionOrder d)) (concat (map layerSections layers))"
  shows "distinct (map sectionName (mergeSections layers)) \<and>
    (\<forall>d. d \<in> set (mergeSections layers) \<longleftrightarrow>
       last_named sectionName (concat (map layerSections layers)) (sectionName d) = Some d) \<and>
    sorted_wrt (\<lambda>l r. \<not> float_less (sectionOrder r) (sectionOrder l)) (mergeSections layers) \<and>
    (\<forall>k \<in> set (mergeSections layers).
       filter (\<lambda>d. sectionOrder d = sectionOrder k) (mergeSections layers) =
       filter (\<lambda>d. sectionOrder d = sectionOrder k)
         (map (\<lambda>n. the (last_named sectionName (concat (map layerSections layers)) n))
            (first_names sectionName (concat (map layerSections layers)))))"
proof -
  let ?ds = "concat (map layerSections layers)"
  have "merged_unsorted sectionName ?ds =
      map (\<lambda>n. the (last_named sectionName ?ds n)) (first_names sectionName ?ds)"
  proof -
    have "\<forall>n \<in> set ns. last_named sectionName ?ds n \<noteq> None \<Longrightarrow>
        List.map_filter (last_named sectionName ?ds) ns = map (\<lambda>n. the (last_named sectionName ?ds n)) ns" for ns
      by (induction ns) (auto simp: List.map_filter_simps)
    then show ?thesis by (simp add: merged_unsorted_def last_named_None)
  qed
  moreover have "k \<in> set (merged_unsorted sectionName ?ds) \<longleftrightarrow> k \<in> set (merge_definitions sectionName sectionOrder ?ds)" for k
    by (simp add: merge_definitions_sorted)
  ultimately show ?thesis
    using merged_distinct [of sectionName sectionOrder ?ds] merged_set [of _ sectionName sectionOrder ?ds]
      merged_ascending [OF assms, of sectionName] merged_stable [OF assms, of _ sectionName]
    unfolding mergeSections_def by metis
qed

theorem merged_sections_are_last_and_ordered_witness:
  "sorted_wrt (\<lambda>l r. \<not> float_less (sectionOrder r) (sectionOrder l))
     (mergeSections [definitions sample_settings :: unit layer_snapshot])"
proof -
  have "list_all (\<lambda>d. finite_float (sectionOrder d))
      (concat (map layerSections [definitions sample_settings :: unit layer_snapshot]))"
    by (simp add: definitions_def sample_settings_def)
  from merged_sections_are_last_and_ordered [OF this] show ?thesis by blast
qed

text \<open>
  A configured tool order is total: for an order that passed the validation of its syntax,
  the schemas offered to the model are a permutation of those supplied, ranked by the position
  of their name in the order, the unlisted ones at the rest marker.
\<close>

theorem tool_order_ranks_every_schema:
  assumes "validateToolOrderSyntax (Some names) = Inr ()" "orderToolSchemas schemas (Some names) known = Inr ordered"
  shows "mset ordered = mset schemas \<and> sorted (map (schema_rank names) ordered)"
  using assms orderToolSchemas_Some by (simp add: validateToolOrderSyntax_Inr)

theorem tool_order_ranks_every_schema_witness:
  "\<exists>ordered. orderToolSchemas [sample_schema ''b'', sample_schema ''z'', sample_schema ''a'']
       (Some [''z'', ToolOrderRest]) [''z''] = Inr ordered \<and>
     map schemaName ordered = [''z'', ''a'', ''b''] \<and>
     mset ordered = mset [sample_schema ''b'', sample_schema ''z'', sample_schema ''a'']"
proof -
  have "orderToolSchemas [sample_schema ''b'', sample_schema ''z'', sample_schema ''a'']
      (Some [''z'', ToolOrderRest]) [''z''] =
      Inr [sample_schema ''z'', sample_schema ''a'', sample_schema ''b'']" by code_simp
  moreover have "validateToolOrderSyntax (Some [''z'', ToolOrderRest]) = Inr ()" by code_simp
  ultimately show ?thesis using tool_order_ranks_every_schema [of "[''z'', ToolOrderRest]"]
    by (simp add: sample_schema_def)
qed

text \<open>
  C21: What interpolation means.  A text is interpolated to a value exactly when it reads as
  literals and \<open>{{name}}\<close> references followed by a tail without a closing brace pair, every
  reference has a value, and the result is the concatenation of the pieces; the value of a
  variable is inserted as it is and never read again for references.
\<close>

theorem interpolation_is_template_value:
  "interpolate name input kind vars = Inr result \<longleftrightarrow>
   (\<exists>pieces tail v. input = templates pieces tail \<and> list_all piece_ok pieces \<and> no_pair (CHR ''}'') tail \<and>
      template_value name kind vars pieces = Inr v \<and> result = v @ tail)"
proof
  assume "interpolate name input kind vars = Inr result"
  then show "\<exists>pieces tail v. input = templates pieces tail \<and> list_all piece_ok pieces \<and> no_pair (CHR ''}'') tail \<and>
      template_value name kind vars pieces = Inr v \<and> result = v @ tail"
    using loop_is_template [of name input kind vars 0 "[]" result] by (auto simp: interpolate_def)
qed (auto simp: interpolate_template)

text \<open>
  C22: An agent whose tools have arrived obtains its prompt.  When the definitions come
  from layers of the package, their tool order, if one is configured, has the syntax that the validation of
  a configuration demands, the providers answer, and at most one complete section is active, then
  the assembly succeeds exactly when the order lists no unknown tool: nothing else that is stored can make it
  fail.  The tools offered are those applied, ascending by name without an order, and otherwise by their position in
  the order, the unlisted ones at its rest entry and ascending by name.
\<close>

theorem ready_runtime_assembles:
  assumes "runtime_reach r" "runtimeTools r = Some t" "order = capturedToolOrder (runtimeDefinitions r)"
    "validateToolOrderSyntax order = Inr ()"
    "validatePromptMutationContext ctx 0 = Inr ()" "validatePromptMutationContext (later ctx) 0 = Inr ()"
    "\<And>f. \<exists>x. askText f t = Inr x" "\<And>f. \<exists>v. askVariable f t = Inr v"
    "length (filter sectionComplete (mergeSections (snapshot_layers (runtimeDefinitions r)))) \<le> 1"
  shows "(isOk (runtime_assemble askText askVariable ctx r) \<longleftrightarrow> order_known t order) \<and>
    (\<forall>a. runtime_assemble askText askVariable ctx r = Inr a \<longrightarrow>
       mset (assembledTools a) = mset (toolSchemas t) \<and> arranged order (assembledTools a))"
proof -
  let ?c = "runtimeDefinitions r"
  have ok: "snapshot_ok ?c" "tools_ok (toolSchemas t)"
    using runtime_reach_ok [OF assms(1)] assms(2) by (auto simp: runtime_ok_def)
  note tools = resolved_order [OF ok(2) assms(4)]
  have asm: "runtime_assemble askText askVariable ctx r = Assemble askText askVariable (later ctx) t ?c"
    using assms(2,5) by (simp add: runtime_assemble_def)
  have "\<exists>a. Assemble askText askVariable (later ctx) t ?c = Inr a" if "resolveTools t order = Inr ts" for ts
  proof -
    have "mset ts = mset (toolSchemas t)" using tools that by blast
    then have "set ts = set (toolSchemas t)" by (rule mset_eq_setD)
    then have "[] \<notin> set (map schemaName ts)" using ok(2) by (simp add: tools_ok_def)
    from assemble_succeeds [where askText = askText and askVariable = askVariable and input = t,
        OF ok(1) assms(6-9) _ this] that assms(3) show ?thesis by blast
  qed
  then have "isOk (runtime_assemble askText askVariable ctx r) \<longleftrightarrow> isOk (resolveTools t order)"
    using assemble_needs_tools [of askText askVariable "later ctx" t ?c] assms(3) unfolding asm isOk_iff by blast
  moreover have "mset (assembledTools a) = mset (toolSchemas t) \<and> arranged order (assembledTools a)"
    if "runtime_assemble askText askVariable ctx r = Inr a" for a
    using assemble_needs_tools [of askText askVariable "later ctx" t ?c a] that tools assms(3) unfolding asm by auto
  ultimately show ?thesis using tools by blast
qed

theorem ready_runtime_assembles_witness:
  "\<exists>a. runtime_assemble (\<lambda>f t. Inr []) (\<lambda>f t. Inr \<lparr>variableText = [], variableDefined = False\<rparr>) open_context
     (ordered_runtime ''write'') = Inr a \<and> arranged (Some [''write'', ToolOrderRest]) (assembledTools a) \<and>
   \<not> isOk (runtime_assemble (\<lambda>f t. Inr []) (\<lambda>f t. Inr \<lparr>variableText = [], variableDefined = False\<rparr>) open_context
     (ordered_runtime ''edit''))"
proof -
  let ?assemble = "runtime_assemble (\<lambda>f t. Inr []) (\<lambda>f t. Inr \<lparr>variableText = [], variableDefined = False\<rparr>) open_context"
  have assembles: "(isOk (?assemble (ordered_runtime n)) \<longleftrightarrow> order_known sample_tools (Some [n, ToolOrderRest])) \<and>
      (\<forall>a. ?assemble (ordered_runtime n) = Inr a \<longrightarrow>
         mset (assembledTools a) = mset (toolSchemas sample_tools) \<and> arranged (Some [n, ToolOrderRest]) (assembledTools a))"
    if n: "n \<noteq> ToolOrderRest" for n
  proof (rule ready_runtime_assembles)
    have "snapshot_reach (CaptureLayer (NewLayer (ordered_settings n)) :: unit prompt_snapshot)"
      by (intro layer_reach_snapshot_reach.capture layer_reach_snapshot_reach.new)
    then have "runtime_reach \<lparr>runtimeAgent = ''s'',
        runtimeDefinitions = CaptureLayer (NewLayer (ordered_settings n)) :: unit prompt_snapshot, runtimeTools = None\<rparr>"
      by (rule runtime_reach.new [where i = "''s''"]) (simp add: NewRuntime_def)
    then show "runtime_reach (ordered_runtime n)"
      by (rule runtime_reach.tools [where i = "''s''" and input = sample_tools])
        (simp add: ApplyTools_def sample_tools_def sample_schema_def ToolOrderRest_def detachToolSchema_def ordered_runtime_def)
    have "list_all (\<lambda>d. \<not> sectionComplete d) (concat (map layerSections (snapshot_layers (runtimeDefinitions (ordered_runtime n)))))"
      by (simp add: ordered_runtime_def snapshot_layers_def CaptureLayer_def NewLayer_def definitions_def newPromptStore_def
          rebuildSnapshot_def empty_store_def no_snapshot_def ordered_settings_def sample_settings_def List.map_filter_simps)
    then have "list_all (\<lambda>d. \<not> sectionComplete d) (mergeSections (snapshot_layers (runtimeDefinitions (ordered_runtime n))))"
      unfolding mergeSections_def by (rule merged_all)
    then have "filter sectionComplete (mergeSections (snapshot_layers (runtimeDefinitions (ordered_runtime n)))) = []"
      by (simp add: filter_empty_conv list_all_iff)
    then show "length (filter sectionComplete (mergeSections (snapshot_layers (runtimeDefinitions (ordered_runtime n))))) \<le> 1"
      by simp
    show "Some [n, ToolOrderRest] = capturedToolOrder (runtimeDefinitions (ordered_runtime n))"
      by (simp add: ordered_runtime_def CaptureLayer_def NewLayer_def no_snapshot_def ordered_settings_def)
    show "validateToolOrderSyntax (Some [n, ToolOrderRest]) = Inr ()"
      using n by (simp add: validateToolOrderSyntax_Inr)
  qed (simp_all add: ordered_runtime_def open_context_def)
  have k: "''write'' \<noteq> ToolOrderRest" "''edit'' \<noteq> ToolOrderRest" "order_known sample_tools (Some [''write'', ToolOrderRest])"
    "\<not> order_known sample_tools (Some [''edit'', ToolOrderRest])"
    by (simp_all add: ToolOrderRest_def order_known_def known_tools_def sample_tools_def sample_schema_def)
  show ?thesis using assembles [OF k(1)] assembles [OF k(2)] k(3,4) by (auto simp: isOk_iff)
qed

text \<open>
  C29: Layers and the snapshots they capture are well formed, whatever public operations built
  them: every section has a name, a finite position and a provider, every variable a name that
  references can spell, and a layer never registers a section its own configuration defines.
\<close>

theorem reachable_layers_are_well_formed:
  "layer_reach l \<Longrightarrow>
   list_all view_ok (snapshot_layers (CaptureLayer l)) \<and>
   (\<forall>b. layerBaseline l = Some b \<longrightarrow>
      fst ` set (storeSections (layerStore l)) \<inter> sectionName ` set (layerSections b) = {})"
  using reach_ok(1) [of l] reach_ok(2) [OF capture, of l] by (simp add: layer_ok_def snapshot_ok_def)

theorem reachable_layers_are_well_formed_witness:
  "\<exists>l :: unit prompt_layer. AddSection open_context ''i'' (short_section ''rules'' 5 ''one'') (NewLayer sample_settings) =
      Inr (l, ''i'') \<and> list_all view_ok (snapshot_layers (CaptureLayer l))"
proof -
  have "\<exists>l. AddSection open_context ''i'' (short_section ''rules'' 5 ''one'') (NewLayer sample_settings) = Inr (l, ''i'')"
    by (simp add: AddSection_def open_context_def short_section_def validateEntryName_def NewLayer_def definitions_def
        sample_settings_def PersonaSection_def layer_store_result_def addSection_def empty_sections Let_def)
  then obtain l where l: "AddSection open_context ''i'' (short_section ''rules'' 5 ''one'') (NewLayer sample_settings) = Inr (l, ''i'')"
    by blast
  have "layer_reach l" by (rule layer_reach_snapshot_reach.add_section [OF layer_reach_snapshot_reach.new l])
  from reachable_layers_are_well_formed [OF this] l show ?thesis by blast
qed

text \<open>
  The configuration of the prompt survives its codec: what it is marshalled to is decoded
  to the same configuration, with absent, empty and set fields kept apart.
\<close>

theorem prompt_config_survives_wire:
  "unmarshal_config (Doc (marshal_config c)) = Inr c"
proof (cases c)
  case (fields identity runtime pers order)
  have strings: "mapE (\<lambda>x. scan_scalar as_string [] [x]) (map JStr xs) = Inr xs" for xs
    by (induction xs) simp_all
  have scalars: "scan_scalar as_string z [JStr x] = Inr x" "scan_scalar as_bool y [JBool b] = Inr b" for z x y b
    by simp_all
  have keys: "fold_key ''includeHarnessIdentity'' = ''includeharnessidentity''"
    "fold_key ''includeRuntimeContext'' = ''includeruntimecontext''"
    "fold_key ''persona'' = ''persona''" "fold_key ''toolOrder'' = ''toolorder''"
    by code_simp+
  show ?thesis unfolding fields
    by (cases identity; cases runtime; cases order; cases "pers = []")
      (simp_all add: unmarshal_config_def marshal_config_def omit_def strict_fields_def config_fields_def keys
        get_raw_def optional_bool_def decodeConfigBool_def strings scalars del: scan_scalar.simps(2))
qed

end
