(* ===== verification/ModelWorld.thy ===== *)
theory ModelWorld
  imports ModelAttemptTrace
begin

text \<open>
  A world without faults around an attempt: a session log that takes every draft at its next
  sequence number, and a provider that starts with given settings and streams given chunks.
  \<open>run_attempt\<close> serves the operations of an attempt until it completes or the fuel is spent.
\<close>

record model_world =
  worldSession :: string
  worldEvents :: "event list"
  worldNodes :: "int list"
  worldStart :: generation_start
  worldChunks :: "stream_chunk list"
  worldIdentity :: string

definition world_snapshot :: "model_world \<Rightarrow> snapshot" where
  "world_snapshot w =
     \<lparr>snapEvents = worldEvents w, snapSurface = \<lparr>nodes = worldNodes w, replaceGeneration = 0\<rparr>,
      snapBarrier = \<lparr>barrierSession = worldSession w, barrierNext = int (length (worldEvents w))\<rparr>\<rparr>"

definition world_event :: "event_draft \<Rightarrow> model_world \<Rightarrow> event" where
  "world_event d w = draft_event d (int (length (worldEvents w))) 0"

definition world_commit :: "event_draft \<Rightarrow> model_world \<Rightarrow> model_world" where
  "world_commit d w =
     w\<lparr>worldEvents := worldEvents w @ [world_event d w],
       worldNodes := (if draftSurfaceOp d = None then worldNodes w else worldNodes w @ [int (length (worldEvents w))])\<rparr>"

definition world_write :: "event_draft \<Rightarrow> model_world \<Rightarrow> write_result" where
  "world_write d w =
     (let n = int (length (worldEvents w)) in
      \<lparr>firstSeq = n, nextSeq = n + 1, resultBarrier = \<lparr>barrierSession = worldSession w, barrierNext = n + 1\<rparr>,
       resultEvents = [world_event d w]\<rparr>)"

fun serve :: "attempt_operation \<Rightarrow> model_world \<Rightarrow> model_world \<times> attempt_result" where
  "serve ReadLog w = (w, LogRead (world_snapshot w))"
| "serve (CommitEvents d) w = (world_commit d w, EventsCommitted (world_write d w))"
| "serve (Generate i) w = (w, GenerationStarted (worldStart w))"
| "serve ReadChunk w =
     (case worldChunks w of
        [] \<Rightarrow> (w, ChunkRead NilChunk False)
      | c # cs \<Rightarrow> (w\<lparr>worldChunks := cs\<rparr>, ChunkRead c True))"
| "serve CloseStream w = (w, StreamClosed)"
| "serve (AttemptCompleted out) w = (w, NoResult)"

fun run_attempt :: "nat \<Rightarrow> model_world \<Rightarrow> attempt \<times> attempt_operation \<Rightarrow> (model_world \<times> attempt \<times> attempt_operation) res" where
  "run_attempt 0 w s = Inr (w, s)"
| "run_attempt (Suc n) w s =
     (case snd s of
        AttemptCompleted out \<Rightarrow> Inr (w, s)
      | _ \<Rightarrow>
          (case serve (snd s) w of (w', r) \<Rightarrow>
             bindE (AdvanceAttempt (Inr (worldIdentity w)) r None (fst s)) (\<lambda>t. run_attempt n w' t)))"

text \<open>A small world: one open step, no messages, one text chunk.\<close>

definition plain_event :: "string \<Rightarrow> json \<Rightarrow> int \<Rightarrow> event" where
  "plain_event name j n =
     \<lparr>evType = name, evSeq = n, evTime = 0, evData = Doc j, evSources = None, evSurfaceOp = None, evIgnorable = False\<rparr>"

definition small_world :: model_world where
  "small_world =
     \<lparr>worldSession = ''s'',
      worldEvents = [plain_event ''turn/start'' (JObj [(''turn'', jint 1)]) 0,
                     plain_event ''step/start'' (JObj [(''turn'', jint 1), (''step'', jint 1)]) 1],
      worldNodes = [],
      worldStart = \<lparr>startedConfig = no_config\<lparr>configProvider := ''p'', configModel := ''m''\<rparr>,
                    startedDefaults = \<lparr>defaultReasoning = False, defaultMaxTokens = False\<rparr>,
                    startedContext = None, startedPolicy = None, startedError = None\<rparr>,
      worldChunks = [TextDeltaChunk 0 ''hi''], worldIdentity = ''a''\<rparr>"

definition small_input :: attempt_input where
  "small_input =
     \<lparr>attemptedPosition = \<lparr>posTurn = 1, posStep = 1\<rparr>, attemptedSession = ''s'',
      attemptedPrompt = \<lparr>assembledSections = [], assembledContexts = [], assembledTools = [], assembledVariables = []\<rparr>,
      attemptedFirst = True\<rparr>"

text \<open>A served run is a run of the attempt.\<close>

lemma served_run:
  "run_attempt n w s = Inr (w', t) \<Longrightarrow> attempt_run s cs \<Longrightarrow> \<exists>ds. attempt_run t ds"
proof (induction n arbitrary: w s cs)
  case 0
  then show ?case by auto
next
  case (Suc n)
  show ?case
  proof (cases "\<exists>out. snd s = AttemptCompleted out")
    case True
    with Suc.prems show ?thesis by auto
  next
    case False
    obtain v r where r: "serve (snd s) w = (v, r)" by (cases "serve (snd s) w")
    with False Suc.prems(1) obtain u where u: "AdvanceAttempt (Inr (worldIdentity w)) r None (fst s) = Inr u"
      "run_attempt n v u = Inr (w', t)"
      by (cases "snd s") (auto simp: bindE_Inr_iff)
    from attempt_run.advanced [OF Suc.prems(2) u(1)] Suc.IH [OF u(2)] show ?thesis by blast
  qed
qed

definition small_run :: "(model_world \<times> attempt \<times> attempt_operation) res" where
  "small_run = bindE (NewAttempt small_input) (\<lambda>a. bindE (StartAttempt a) (run_attempt 14 small_world))"

end
