(* ===== verification/RequestHeaderLaws.thy ===== *)
theory RequestHeaderLaws
  imports RequestHeader ModelStreamLaws
begin

text \<open>
  A committed request header is recognised: reading the log back yields an equal header, except
  that an empty stop list, which the marshaller omits, is read as no stop list.
\<close>

definition valid_config :: "call_config \<Rightarrow> bool" where
  "valid_config c =
     (pred_option int64 (maxTokens c) \<and>
      pred_option (\<lambda>x. isOk (scanNumber x) \<and> as_float64 (JNum x) = Some x) (temperature c))"

definition valid_schema :: "tool_schema \<Rightarrow> bool" where
  "valid_schema s = (\<exists>j. schemaParameters s = Doc j \<and> lossless j)"

definition valid_header :: "epoch_header \<Rightarrow> bool" where
  "valid_header h = (valid_config (headerConfig h) \<and> list_all valid_schema (headerTools h))"

definition wire_config :: "call_config \<Rightarrow> call_config" where
  "wire_config c = c\<lparr>stopSequences := (if elements (stopSequences c) = [] then None else stopSequences c)\<rparr>"

definition wire_schema :: "tool_schema \<Rightarrow> tool_schema" where
  "wire_schema s = s\<lparr>schemaVersion := 0\<rparr>"

definition wire_header :: "epoch_header \<Rightarrow> epoch_header" where
  "wire_header h = h\<lparr>headerConfig := wire_config (headerConfig h), headerTools := map wire_schema (headerTools h)\<rparr>"

lemma fold_request_fields [simp]:
  "fold_key ''reasoningEffort'' = ''reasoningeffort''" "fold_key ''temperature'' = ''temperature''"
  "fold_key ''maxTokens'' = ''maxtokens''" "fold_key ''stop'' = ''stop''" "fold_key ''config'' = ''config''"
  "fold_key ''adapterDefaults'' = ''adapterdefaults''" "fold_key ''system'' = ''system''" "fold_key ''tools'' = ''tools''"
  "fold_key ''description'' = ''description''" "fold_key ''parameters'' = ''parameters''" "fold_key ''header'' = ''header''"
  "fold_key ''contextWindow'' = ''contextwindow''" "fold_key ''turn'' = ''turn''" "fold_key ''step'' = ''step''"
  "fold_key ''chunk'' = ''chunk''" "fold_key ''message'' = ''message''"
  by code_simp+

lemma omit_text_fields [simp]:
  "matches n (omit_text k s) = (if s \<noteq> [] \<and> fold_key k = fold_key n then [JStr s] else [])"
  "known_fields ns (omit_text k s) \<longleftrightarrow> s = [] \<or> list_ex (\<lambda>n. fold_key k = fold_key n) ns"
  by (simp_all add: omit_text_def)

lemma strings_slice: "string_slice (JArr (map JStr xs)) = Inr (Some xs)"
proof -
  have "mapE (\<lambda>x. scan_scalar as_string [] [x]) (map JStr xs) = Inr xs" by (induction xs) simp_all
  then show ?thesis by (simp del: scan_scalar.simps)
qed

lemma config_round_trip:
  assumes "valid_config c"
  shows "lossless (config_json c) \<and> decode_call_config [config_json c] = Inr (wire_config c)"
proof
  show "lossless (config_json c)"
    using assms int64_scan
    by (auto simp: valid_config_def config_json_def omit_def omit_text_def split: option.splits)
  have "scan_pointer as_int64 None (case maxTokens c of None \<Rightarrow> [] | Some v \<Rightarrow> [jint v]) = Inr (maxTokens c)"
    using assms by (intro pointer_int64) (simp add: valid_config_def)
  moreover have "scan_pointer as_float64 None (case temperature c of None \<Rightarrow> [] | Some v \<Rightarrow> [JNum v]) = Inr (temperature c)"
    using assms by (cases "temperature c") (simp_all add: valid_config_def del: as_float64.simps)
  ultimately show "decode_call_config [config_json c] = Inr (wire_config c)"
    by (cases c; cases "stopSequences c") (simp_all add: config_json_def decode_call_config_def matches_omit
        known_fields_omit_iff strict_known_def config_names_def get_string_def wire_config_def elements_def strings_slice
        del: as_int64.simps as_float64.simps string_slice.simps)
qed

lemma schema_round_trip:
  assumes "valid_schema s"
  shows "\<exists>j. schema_json s = Inr j \<and> lossless j \<and> decode_schema j = Inr (wire_schema s)"
  using assms
  by (cases s) (auto simp: valid_schema_def schema_json_def decode_schema_def strict_known_def get_string_def get_raw_def
      wire_schema_def)

lemma schemas_round_trip:
  "list_all valid_schema ss \<Longrightarrow>
   \<exists>js. mapE schema_json ss = Inr js \<and> list_all lossless js \<and> mapE decode_schema js = Inr (map wire_schema ss)"
proof (induction ss)
  case (Cons s ss)
  then obtain js where "mapE schema_json ss = Inr js" "list_all lossless js" "mapE decode_schema js = Inr (map wire_schema ss)"
    by auto
  moreover obtain j where "schema_json s = Inr j" "lossless j" "decode_schema j = Inr (wire_schema s)"
    using Cons.prems schema_round_trip by auto
  ultimately show ?case by simp
qed simp

lemma defaults_round_trip:
  "lossless (defaults_json d) \<and> decode_defaults [defaults_json d] = Inr (Some d)"
  by (cases d) (simp add: defaults_json_def decode_defaults_def strict_known_def get_bool_def elements_def)

lemma header_round_trip:
  assumes "valid_header h"
  shows "\<exists>j. header_json h = Inr j \<and> lossless j \<and> decode_header [j] = Inr (wire_header h)"
proof -
  obtain js where js: "mapE schema_json (headerTools h) = Inr js" "list_all lossless js"
      "mapE decode_schema js = Inr (map wire_schema (headerTools h))"
    using assms schemas_round_trip by (auto simp: valid_header_def)
  have e: "js = [] \<longleftrightarrow> headerTools h = []" using mapE_nth [OF js(1)] by auto
  obtain cj where c: "config_json (headerConfig h) = cj" "lossless cj"
      "decode_call_config [cj] = Inr (wire_config (headerConfig h))"
    using assms config_round_trip by (auto simp: valid_header_def)
  have d: "decode_defaults (case headerDefaults h of None \<Rightarrow> [] | Some v \<Rightarrow> [defaults_json v]) = Inr (headerDefaults h)"
    using defaults_round_trip by (cases "headerDefaults h") (simp_all add: decode_defaults_def)
  have s: "scan_pointer as_string None (case headerSystem h of None \<Rightarrow> [] | Some v \<Rightarrow> [JStr v]) = Inr (headerSystem h)"
    by (cases "headerSystem h") simp_all
  have t: "last_decoded schema_slice [] (if js = [] then [] else [JArr js]) = Inr (map wire_schema (headerTools h))"
    using js(3) e by simp
  define fs where "fs = [(''config'', cj)] @ omit ''adapterDefaults'' defaults_json (headerDefaults h) @
      omit ''system'' JStr (headerSystem h) @ (if js = [] then [] else [(''tools'', JArr js)])"
  have "header_json h = Inr (JObj fs)" using js(1) c(1) by (simp add: header_json_def fs_def)
  moreover have "lossless (JObj fs)"
    using c(2) js(2) defaults_round_trip by (auto simp: fs_def omit_def list_all_iff split: option.splits)
  moreover have "decode_header [JObj fs] = Inr (wire_header h)"
  proof -
    have "matches ''config'' fs = [cj]"
      "matches ''adapterDefaults'' fs = (case headerDefaults h of None \<Rightarrow> [] | Some v \<Rightarrow> [defaults_json v])"
      "matches ''system'' fs = (case headerSystem h of None \<Rightarrow> [] | Some v \<Rightarrow> [JStr v])"
      "matches ''tools'' fs = (if js = [] then [] else [JArr js])"
      "known_fields [''config'', ''adapterDefaults'', ''system'', ''tools''] fs"
      by (simp_all add: fs_def matches_omit known_fields_omit_iff)
    then show ?thesis using c(3) d s t
      by (cases h) (simp add: decode_header_def strict_known_def wire_header_def)
  qed
  ultimately show ?thesis by blast
qed

lemma request_header_round_trip:
  assumes "valid_header (snapshotHeader p)"
  shows "\<exists>j. marshal_request_header p = Inr j \<and> lossless j \<and>
    decode_request_header (Doc j) = Inr (p\<lparr>snapshotHeader := wire_header (snapshotHeader p)\<rparr>)"
  using header_round_trip [OF assms]
  by (cases p) (auto simp: marshal_request_header_def decode_request_header_def get_string_def)

lemma canonical_idem: "CanonicalEpochHeader (CanonicalEpochHeader h) = CanonicalEpochHeader h"
  by (cases h) (auto simp: CanonicalEpochHeader_def split: option.splits)

lemma canonical_wire: "CanonicalEpochHeader (wire_header h) = wire_header (CanonicalEpochHeader h)"
  by (simp add: CanonicalEpochHeader_def wire_header_def)

lemma canonical_valid: "valid_header h \<Longrightarrow> valid_header (CanonicalEpochHeader h)"
  by (simp add: CanonicalEpochHeader_def valid_header_def)

lemma same_wire_schemas: "list_all valid_schema ss \<Longrightarrow> same_schemas (map wire_schema ss) ss"
  by (induction ss) (auto simp: valid_schema_def schema_json_def wire_schema_def isOk_iff)

lemma equalFloat_refl: "equalFloat x x"
  by (cases x) (simp_all add: equalFloat_def)

lemma wire_equal_iff:
  assumes "valid_header h"
  shows "EpochHeaderEqual (wire_header h) h \<longleftrightarrow> stopSequences (headerConfig h) \<noteq> Some []"
  using same_wire_schemas assms
  by (cases "stopSequences (headerConfig h)")
    (auto simp: EpochHeaderEqual_def canonical_wire Let_def wire_header_def wire_config_def CallConfigEqual_def
      CanonicalEpochHeader_def equalFloat_refl valid_header_def elements_def)

lemma equal_canonical: "EpochHeaderEqual x (CanonicalEpochHeader h) = EpochHeaderEqual x h"
  by (simp add: EpochHeaderEqual_def canonical_idem)

lemma latest_header_append: "latest_header z (es @ fs) = bindE (latest_header z es) (\<lambda>y. latest_header y fs)"
  by (induction es arbitrary: z) (auto simp: bindE_assoc)

text \<open>The header read after its fact is committed.\<close>

lemma committed_header_read:
  assumes "valid_header h" "LatestRequestHeader es = Inr previous" "HeaderDraft previous h initial = Inr (Some d)"
    "evType e = draftType d" "evData e = draftData d"
  shows "LatestRequestHeader (es @ [e]) = Inr (Some (wire_header (CanonicalEpochHeader h)))"
proof -
  obtain why j where j: "marshal_request_header \<lparr>snapshotHeader = CanonicalEpochHeader h, snapshotReason = why\<rparr> = Inr j"
      "draftData d = Doc j" "draftType d = RequestHeaderEventName"
    using assms(3) by (auto simp: HeaderDraft_def Let_def bindE_Inr_iff NewEventDraft_Inr split: if_splits)
  obtain k where k: "marshal_request_header \<lparr>snapshotHeader = CanonicalEpochHeader h, snapshotReason = why\<rparr> = Inr k"
    "decode_request_header (Doc k) = Inr \<lparr>snapshotHeader = wire_header (CanonicalEpochHeader h), snapshotReason = why\<rparr>"
    using request_header_round_trip [of "\<lparr>snapshotHeader = CanonicalEpochHeader h, snapshotReason = why\<rparr>"]
      canonical_valid [OF assms(1)] by auto
  obtain z where "latest_header None es = Inr z" using assms(2) by (auto simp: LatestRequestHeader_def bindE_Inr_iff)
  then show ?thesis
    using j k assms(4,5) by (simp add: LatestRequestHeader_def latest_header_append canonical_wire canonical_idem)
qed

lemma header_draft_again:
  assumes "valid_header h"
  shows "HeaderDraft (Some (wire_header (CanonicalEpochHeader h))) h False = Inr None \<longleftrightarrow>
    stopSequences (headerConfig h) \<noteq> Some []"
proof -
  have "EpochHeaderEqual (wire_header (CanonicalEpochHeader h)) (CanonicalEpochHeader h) \<longleftrightarrow>
      stopSequences (headerConfig h) \<noteq> Some []"
    using wire_equal_iff [OF canonical_valid [OF assms]] by (simp add: CanonicalEpochHeader_def)
  then show ?thesis by (auto simp: HeaderDraft_def Let_def bindE_Inr_iff split: if_splits)
qed

section \<open>Route contexts\<close>

definition valid_route :: "route_context \<Rightarrow> bool" where
  "valid_route c =
     (routeProvider c \<noteq> [] \<and> routeModel c \<noteq> [] \<and> pred_option (\<lambda>n. 0 < n \<and> int64 n) (contextWindow c))"

lemma route_round_trip:
  assumes "valid_route c"
  shows "\<exists>j. marshal_route c = Inr j \<and> lossless j \<and> decode_route (Doc j) = Inr c"
proof -
  have w: "pred_option int64 (contextWindow c)" using assms by (cases "contextWindow c") (simp_all add: valid_route_def)
  have "lossless (JObj ([(''provider'', JStr (routeProvider c)), (''model'', JStr (routeModel c))] @
      omit ''contextWindow'' (\<lambda>n. jint n) (contextWindow c)))"
    using w int64_scan by (auto simp: omit_def split: option.splits)
  then show ?thesis using pointer_int64 [OF w]
    by (cases c) (simp add: marshal_route_def decode_route_def strict_fields_def get_string_def matches_omit
        known_fields_omit_iff del: as_int64.simps)
qed

lemma sameContext_iff: "sameContext l r \<longleftrightarrow> l = r"
  by (cases l; cases r) (auto simp: sameContext_def)

lemma latest_context_append: "latest_context z (es @ fs) = bindE (latest_context z es) (\<lambda>y. latest_context y fs)"
  by (induction es arbitrary: z) (auto simp: bindE_assoc)

lemma committed_route_read:
  assumes "valid_route c" "LatestRequestContext es = Inr previous" "ContextDraft previous c = Inr (Some d)"
    "evType e = draftType d" "evData e = draftData d"
  shows "LatestRequestContext (es @ [e]) = Inr (Some c)"
proof -
  obtain j where j: "marshal_route c = Inr j" "draftData d = Doc j" "draftType d = RequestContextEventName"
    using assms(3) by (auto simp: ContextDraft_def bindE_Inr_iff NewEventDraft_Inr split: if_splits)
  then have "decode_route (Doc j) = Inr c" using route_round_trip [OF assms(1)] by auto
  moreover have "pred_option (\<lambda>n. 0 < n) (contextWindow c)"
    using assms(1) by (cases "contextWindow c") (simp_all add: valid_route_def)
  ultimately show ?thesis
    using j assms(1,2,4,5) by (simp add: LatestRequestContext_def latest_context_append valid_route_def)
qed

end
