(* ===== verification/ModelProgress.thy ===== *)
theory ModelProgress
  imports ModelWorld RequestHeaderLaws
begin

text \<open>
  Progress of an attempt: where the log accepts what is committed, the provider starts and its
  chunks can be stored, an attempt runs to its end and its outcome is the answer of the provider.
\<close>

section \<open>Answered runs\<close>

definition answer_for :: "stream_chunk list \<Rightarrow> model_outcome \<Rightarrow> bool" where
  "answer_for cs out =
     (outcomeError out = None \<and> outcomeClosed out \<and> outcomeFinish out = Some (final_reason cs) \<and>
      (if ReasonKind (final_reason cs) \<in> {''error'', ''aborted''} then outcomeMessage out = no_message
       else response_blocks cs = Inr (content (outcomeMessage out)) \<and> roleValue (outcomeMessage out) = RoleAssistant))"

definition answered :: "stream_chunk list \<Rightarrow> nat \<Rightarrow> model_world \<Rightarrow> attempt \<times> attempt_operation \<Rightarrow> bool" where
  "answered cs n w s =
     (\<exists>v a out. run_attempt n w s = Inr (v, a, AttemptCompleted out) \<and> worldChunks v = [] \<and> answer_for cs out)"

lemma answered_step:
  assumes "answered cs n v t" "serve (snd s) w = (v, r)" "AdvanceAttempt (Inr (worldIdentity w)) r None (fst s) = Inr t"
    "\<And>out. snd s \<noteq> AttemptCompleted out"
  shows "answered cs (Suc n) w s"
  using assms by (cases "snd s") (auto simp: answered_def)

lemma answered_more: "answered cs n w s \<Longrightarrow> answered cs (Suc n) w s"
  unfolding answered_def
proof (elim exE conjE)
  fix v a out
  have "run_attempt n w s = Inr (v, a, AttemptCompleted out) \<Longrightarrow>
      run_attempt (Suc n) w s = Inr (v, a, AttemptCompleted out)"
  proof (induction n arbitrary: w s)
    case (Suc n)
    show ?case
    proof (cases "\<exists>x. snd s = AttemptCompleted x")
      case True
      with Suc.prems show ?thesis by auto
    next
      case False
      obtain u r where r: "serve (snd s) w = (u, r)" by fastforce
      with False Suc.prems obtain t where "AdvanceAttempt (Inr (worldIdentity w)) r None (fst s) = Inr t"
        "run_attempt n u t = Inr (v, a, AttemptCompleted out)"
        by (cases "snd s") (auto simp: bindE_Inr_iff)
      moreover from this Suc.IH have "run_attempt (Suc n) u t = Inr (v, a, AttemptCompleted out)" by blast
      ultimately show ?thesis using r False
        by (cases "snd s") (auto simp del: run_attempt.simps(2) simp add: run_attempt.simps(2) [of "Suc n"])
    qed
  qed auto
  then show "run_attempt n w s = Inr (v, a, AttemptCompleted out) \<Longrightarrow> worldChunks v = [] \<Longrightarrow> answer_for cs out \<Longrightarrow>
      \<exists>v a out. run_attempt (Suc n) w s = Inr (v, a, AttemptCompleted out) \<and> worldChunks v = [] \<and> answer_for cs out"
    by blast
qed

section \<open>The log of the world\<close>

definition neutral_event :: "string \<Rightarrow> bool" where
  "neutral_event t = (t \<notin> {''turn/start'', ''turn/end'', ''step/start'', ''step/end''})"

definition in_world :: "message list \<Rightarrow> model_world \<Rightarrow> attempt \<Rightarrow> bool" where
  "in_world ms w a =
     (list_all (\<lambda>(i, e). evSeq e = int i) (enumerate 0 (worldEvents w)) \<and>
      derive_nodes (worldEvents w) (int (length (worldEvents w))) (worldNodes w) = Inr ms \<and>
      open_position 0 no_position (worldEvents w) = Inr (posTurn (attemptPosition a), attemptPosition a) \<and>
      worldSession w = optionsSession (options a) \<and> confirmedNext a \<le> int (length (worldEvents w)) \<and>
      attemptFailure a = None \<and> attemptMessage a = no_message \<and> \<not> messageAccepted a)"

definition quiet_draft :: "event_draft \<Rightarrow> bool" where
  "quiet_draft d = (isOk (validateEventDraft d) \<and> draftSurfaceOp d = None \<and> neutral_event (draftType d))"

definition room :: "nat \<Rightarrow> model_world \<Rightarrow> bool" where
  "room k w = (int (length (worldEvents w)) + int k \<le> maxSafeInteger)"

lemma derive_nodes_longer:
  "derive_nodes es limit ns = Inr ms \<Longrightarrow> limit \<le> int (length es) \<Longrightarrow> limit \<le> limit' \<Longrightarrow>
   derive_nodes (es @ fs) limit' ns = Inr ms"
proof (induction ns arbitrary: ms)
  case (Cons n ns)
  then have "0 \<le> n" "n < limit" by (auto simp: bindE_Inr_iff failIf_Inr not_less not_le)
  moreover from this have "(es @ fs) ! nat n = es ! nat n" using Cons.prems by (simp add: nth_append)
  ultimately show ?case using Cons by (auto simp: bindE_Inr_iff failIf_Inr)
qed simp

lemma open_position_append:
  "open_position t p (es @ fs) = bindE (open_position t p es) (\<lambda>(u, q). open_position u q fs)"
  by (induction es arbitrary: t p) (auto simp: bindE_assoc)

lemma open_position_neutral: "neutral_event (evType e) \<Longrightarrow> open_position t p [e] = Inr (t, p)"
  by (simp add: neutral_event_def)

lemma deriveInput_world: "in_world ms w a \<Longrightarrow> deriveInput (world_snapshot w) a = Inr ms"
  by (simp add: in_world_def deriveInput_def world_snapshot_def)

lemma checkStep_world: "in_world ms w a \<Longrightarrow> checkStep (worldEvents w) a = Inr ()"
  by (simp add: in_world_def checkStep_def)

lemma commit_accepted:
  assumes "isOk (validateEventDraft d)" "room 1 w" "worldSession w = optionsSession (options a)"
    "confirmedNext a \<le> int (length (worldEvents w))" "pendingCommit a = Some d"
  shows "ValidateEvent d (world_event d w) = Inr ()"
    "confirmCommit (world_write d w) a =
       Inr (a\<lparr>confirmedNext := int (length (worldEvents w)) + 1, pendingCommit := None\<rparr>)"
proof -
  show v: "ValidateEvent d (world_event d w) = Inr ()"
    using assms(1,2)
    by (simp add: ValidateEvent_Inr world_event_def draft_event_def isSafeNonNegative_def room_def
        isSafeInteger_def maxSafeInteger_def)
  then show "confirmCommit (world_write d w) a =
       Inr (a\<lparr>confirmedNext := int (length (worldEvents w)) + 1, pendingCommit := None\<rparr>)"
    using assms(3-5)
    by (simp add: confirmCommit_def world_write_def Let_def) (simp add: world_event_def draft_event_def)
qed

lemma commit_step:
  assumes "in_world ms w a" "quiet_draft d" "room 1 w"
  defines "b \<equiv> a\<lparr>confirmedNext := int (length (worldEvents w)) + 1, pendingCommit := None\<rparr>"
  shows "in_world ms (world_commit d w) b"
    "confirmCommit (world_write d w) (a\<lparr>pendingCommit := Some d\<rparr>) = Inr b"
    "worldEvents (world_commit d w) = worldEvents w @ [world_event d w]"
    "ValidateEvent d (world_event d w) = Inr ()"
proof -
  let ?e = "world_event d w"
  show e: "worldEvents (world_commit d w) = worldEvents w @ [?e]" by (simp add: world_commit_def)
  have t: "evType ?e = draftType d" by (simp add: world_event_def draft_event_def)
  have b: "worldSession w = optionsSession (options (a\<lparr>pendingCommit := Some d\<rparr>))"
    "confirmedNext (a\<lparr>pendingCommit := Some d\<rparr>) \<le> int (length (worldEvents w))"
    "pendingCommit (a\<lparr>pendingCommit := Some d\<rparr>) = Some d" "isOk (validateEventDraft d)"
    using assms(1,2) by (simp_all add: in_world_def quiet_draft_def)
  from commit_accepted [OF b(4) assms(3) b(1-3)]
  show "ValidateEvent d ?e = Inr ()" "confirmCommit (world_write d w) (a\<lparr>pendingCommit := Some d\<rparr>) = Inr b"
    by (simp_all add: b_def)
  have "derive_nodes (worldEvents w @ [?e]) (int (length (worldEvents w)) + 1) (worldNodes w) = Inr ms"
    using assms(1) by (intro derive_nodes_longer) (auto simp: in_world_def)
  moreover have "open_position 0 no_position (worldEvents w @ [?e]) = Inr (posTurn (attemptPosition a), attemptPosition a)"
    using assms(1,2) open_position_neutral [of ?e] t by (simp add: in_world_def open_position_append quiet_draft_def)
  moreover have "list_all (\<lambda>(i, e). evSeq e = int i) (enumerate 0 (worldEvents w @ [?e]))"
    using assms(1) by (simp add: in_world_def enumerate_append_eq world_event_def draft_event_def)
  ultimately show "in_world ms (world_commit d w) b"
    using assms(1,2) by (simp add: in_world_def world_commit_def quiet_draft_def b_def add.commute)
qed

lemma world_kept [simp]:
  "worldChunks (world_commit d w) = worldChunks w" "worldIdentity (world_commit d w) = worldIdentity w"
  "worldStart (world_commit d w) = worldStart w" "worldSession (world_commit d w) = worldSession w"
  "room n (world_commit d w) = room (Suc n) w"
  "room n (w\<lparr>worldChunks := ds\<rparr>) = room n w"
  by (auto simp: world_commit_def room_def)

section \<open>The answer of the provider\<close>

definition storable_answer :: "string \<Rightarrow> step_position \<Rightarrow> call_config \<Rightarrow> stream_chunk list \<Rightarrow> bool" where
  "storable_answer i p c cs =
     (case push_all cs NewBlockAssembler of
        Inl e \<Rightarrow> False
      | Inr asm \<Rightarrow>
          ReasonKind (FinishValue asm) \<in> {''error'', ''aborted''} \<or>
          isOk (bindE (AssembledBlocks asm) (\<lambda>blocks.
                bindE (NewAssistantMessage i blocks (ModelSource (configProvider c) (configModel c) (ReplayValue asm))) (\<lambda>m.
                snapshotPayload (marshal_assistant_message p m (UsageValue asm))))))"

lemma answered_end: "worldChunks w = [] \<Longrightarrow> answer_for cs out \<Longrightarrow> answered cs n w (a, AttemptCompleted out)"
  by (cases n) (auto simp: answered_def)

lemma pushed_answer:
  assumes "push_all cs NewBlockAssembler = Inr (assembly a)"
  shows "FinishValue (assembly a) = final_reason cs" "AssembledBlocks (assembly a) = response_blocks cs"
  using finish_from assembled_blocks_from push_all_from [OF assms] by blast+

text \<open>Closing the stream and committing the message.\<close>

lemma closing_answered:
  assumes world: "in_world ms w a" "worldChunks w = []" "room 1 w"
    and a: "attemptPhase a = ClosingStream" "push_all cs NewBlockAssembler = Inr (assembly a)"
    and ok: "storable_answer (worldIdentity w) (attemptPosition a) (optionsConfig (options a)) cs"
  shows "answered cs 2 w (a, CloseStream)"
proof -
  let ?b = "a\<lparr>attemptClosed := True\<rparr>"
  note fin = pushed_answer [OF a(2)]
  have quiet: "attemptFailure a = None" "attemptMessage a = no_message" "\<not> messageAccepted a"
    using world by (simp_all add: in_world_def)
  have adv: "AdvanceAttempt (Inr (worldIdentity w)) StreamClosed None a =
      Inr (case AssistantDraft (Inr (worldIdentity w)) ?b of
        Inl e \<Rightarrow> complete_attempt (Some (Failure e)) ?b
      | Inr (b, None) \<Rightarrow> complete_attempt None b
      | Inr (b, Some d) \<Rightarrow> issue_commit d (b\<lparr>attemptPhase := CommittingMessage\<rparr>))"
    using a quiet
    by (auto simp: AdvanceAttempt_def advance_attempt_def checkResult_def interpret_result_def stream_closed_def
        split: sum.split option.split)
  show ?thesis
  proof (cases "ReasonKind (final_reason cs) \<in> {''error'', ''aborted''}")
    case True
    then have "AssistantDraft (Inr (worldIdentity w)) ?b = Inr (?b, None)" using fin by (auto simp: AssistantDraft_def)
    with adv have step: "AdvanceAttempt (Inr (worldIdentity w)) StreamClosed None a = Inr (complete_attempt None ?b)" by simp
    have "answer_for cs \<lparr>outcomeMessage = no_message, outcomeFinish = Some (final_reason cs), outcomeError = None,
        outcomeClosed = True, outcomeHeader = headerDone a\<rparr>" using True by (simp add: answer_for_def)
    then have "answered cs 1 w (complete_attempt None ?b)"
      using world fin quiet by (auto simp: complete_attempt_def AcceptedMessage_def intro: answered_end)
    from answered_step [OF this, of "(a, CloseStream)"] step show ?thesis by (simp add: numeral_2_eq_2)
  next
    case False
    from ok a(2) fin False obtain blocks m j where m: "response_blocks cs = Inr blocks"
      "NewAssistantMessage (worldIdentity w) blocks (ModelSource (configProvider (optionsConfig (options a)))
         (configModel (optionsConfig (options a))) (ReplayValue (assembly a))) = Inr m"
      "marshal_assistant_message (attemptPosition a) m (UsageValue (assembly a)) = Inr j" "lossless j"
      by (auto simp: storable_answer_def isOk_iff bindE_Inr_iff snapshotPayload_def wrapE_Inr_iff scan_iff)
    define d where "d = \<lparr>draftType = ''assistant/message'', draftData = Doc j, draftSources = Some (chunkSequences a),
        draftSurfaceOp = Some SurfaceAppend, draftIgnorable = False\<rparr>"
    define b where "b = ?b\<lparr>preparedMessage := Some d, attemptMessage := m, attemptPhase := CommittingMessage,
        pendingCommit := Some d\<rparr>"
    have draft: "NewSurfaceEventDraft ''assistant/message'' (Inr j) SurfaceAppend (Some (chunkSequences a)) False = Inr d"
      using m(4) by (simp add: NewSurfaceEventDraft_Inr d_def surface_op_json_def SurfaceAppend_def)
    have "AssistantDraft (Inr (worldIdentity w)) ?b = Inr (?b\<lparr>preparedMessage := Some d, attemptMessage := m\<rparr>, Some d)"
      using False fin m draft by (auto simp: AssistantDraft_def)
    with adv have step: "AdvanceAttempt (Inr (worldIdentity w)) StreamClosed None a = Inr (b, CommitEvents d)"
      by (simp add: issue_commit_def b_def)
    have ident: "idValue m \<noteq> []" "roleValue m = RoleAssistant" "content m = blocks"
      using m(2) by (auto simp: NewAssistantMessage_def dest!: restoreMessageValue_Inr)
    have valid: "isOk (validateEventDraft d)" using m(4) by (auto simp: isOk_iff validateEventDraft_iff d_def)
    have b: "worldSession w = optionsSession (options b)" "confirmedNext b \<le> int (length (worldEvents w))"
      "pendingCommit b = Some d" using world(1) by (simp_all add: in_world_def b_def)
    note accepted = commit_accepted [OF valid world(3) b]
    let ?c = "b\<lparr>confirmedNext := int (length (worldEvents w)) + 1, pendingCommit := None\<rparr>"
    have "ConfirmAssistant (resultEvents (world_write d w)) ?c = Inr (?c\<lparr>messageAccepted := True\<rparr>)"
      using accepted ident quiet by (simp add: ConfirmAssistant_def world_write_def Let_def b_def)
    then have last: "AdvanceAttempt (Inr (worldIdentity w)) (EventsCommitted (world_write d w)) None b =
        Inr (complete_attempt None (?c\<lparr>messageAccepted := True\<rparr>))"
      using accepted
      by (simp add: AdvanceAttempt_def advance_attempt_def checkResult_def interpret_result_def commit_confirmed_def b_def)
    have "answered cs 0 (world_commit d w) (complete_attempt None (?c\<lparr>messageAccepted := True\<rparr>))"
      using world False fin m ident
      by (auto simp: complete_attempt_def AcceptedMessage_def b_def answer_for_def intro!: answered_end)
    from answered_step [OF this, of "(b, CommitEvents d)"] last have "answered cs 1 w (b, CommitEvents d)" by simp
    from answered_step [OF this, of "(a, CloseStream)"] step show ?thesis by (simp add: numeral_2_eq_2)
  qed
qed

section \<open>Reading the stream\<close>

lemma push_all_append: "push_all (xs @ ys) a = bindE (push_all xs a) (push_all ys)"
  by (induction xs arbitrary: a) (auto split: prod.split sum.split)

lemma safe_position_lossless:
  "\<not> bad_position p \<Longrightarrow> lossless (jint (posTurn p)) \<and> lossless (jint (posStep p))"
  by (auto simp: bad_position_def int64_def maxSafeInteger_def intro!: int64_lossless simp del: lossless.simps(4))

lemma chunk_draft_quiet:
  assumes "valid_chunk c" "\<not> bad_position (attemptPosition a)"
  shows "\<exists>d. ChunkDraft a c = Inr d \<and> quiet_draft d"
proof -
  obtain j where j: "marshal_chunk c = Inr j" "lossless j" using chunk_round_trip [OF assms(1)] by blast
  then have "lossless (JObj [(''turn'', jint (posTurn (attemptPosition a))), (''step'', jint (posStep (attemptPosition a))),
      (''chunk'', j)])"
    using safe_position_lossless [OF assms(2)] by (simp del: lossless.simps(4))
  then show ?thesis using j(1)
    by (auto simp: ChunkDraft_def marshal_assistant_chunk_def NewEventDraft_Inr quiet_draft_def neutral_event_def
        isOk_iff validateEventDraft_iff simp del: lossless.simps)
qed

definition reading :: "message list \<Rightarrow> stream_chunk list \<Rightarrow> model_world \<Rightarrow> attempt \<Rightarrow> bool" where
  "reading ms pre w a =
     (in_world ms w a \<and> attemptPhase a = ReadingStream \<and> push_all pre NewBlockAssembler = Inr (assembly a) \<and>
      \<not> bad_position (attemptPosition a) \<and> (\<forall>s \<in> set (chunkSequences a). s < int (length (worldEvents w))) \<and>
      list_all valid_chunk (worldChunks w) \<and> room (Suc (length (worldChunks w))) w \<and>
      storable_answer (worldIdentity w) (attemptPosition a) (optionsConfig (options a)) (pre @ worldChunks w))"

lemma chunk_step:
  assumes r: "reading ms pre w a" and c: "worldChunks w = c # ds"
  shows "\<exists>d b. AdvanceAttempt (Inr i) (ChunkRead c True) None a =
      Inr (b\<lparr>pendingCommit := Some d\<rparr>, CommitEvents d) \<and>
    (let v = world_commit d (w\<lparr>worldChunks := ds\<rparr>) in
     \<exists>e. AdvanceAttempt (Inr i) (EventsCommitted (world_write d (w\<lparr>worldChunks := ds\<rparr>))) None (b\<lparr>pendingCommit := Some d\<rparr>) =
        Inr (e, ReadChunk) \<and> reading ms (pre @ [c]) v e)"
proof -
  let ?u = "w\<lparr>worldChunks := ds\<rparr>"
  let ?n = "int (length (worldEvents w))"
  from r have a: "in_world ms w a" "attemptPhase a = ReadingStream" "push_all pre NewBlockAssembler = Inr (assembly a)"
    "\<not> bad_position (attemptPosition a)" "\<forall>s \<in> set (chunkSequences a). s < ?n" "room (Suc (length (worldChunks w))) w"
    "storable_answer (worldIdentity w) (attemptPosition a) (optionsConfig (options a)) (pre @ c # ds)"
    "valid_chunk c" "list_all valid_chunk ds"
    by (simp_all add: reading_def c)
  obtain d where d: "ChunkDraft a c = Inr d" "quiet_draft d" using chunk_draft_quiet a by blast
  define b where "b = a\<lparr>pendingChunk := c, attemptPhase := CommittingChunk\<rparr>"
  have read: "AdvanceAttempt (Inr i) (ChunkRead c True) None a = Inr (b\<lparr>pendingCommit := Some d\<rparr>, CommitEvents d)"
    using a d by (simp add: AdvanceAttempt_def advance_attempt_def checkResult_def interpret_result_def chunk_read_def
        issue_commit_def check_cancelled_def b_def)
  have inw: "in_world ms ?u b" using a(1) by (simp add: in_world_def b_def)
  have room: "room 1 ?u" using a(6) by (simp add: room_def)
  note commit = commit_step [OF inw d(2) room]
  let ?b = "b\<lparr>confirmedNext := int (length (worldEvents ?u)) + 1, pendingCommit := None\<rparr>"
  let ?e = "world_event d ?u"
  obtain asm where asm: "push_all (pre @ c # ds) NewBlockAssembler = Inr asm"
    using a(7) by (auto simp: storable_answer_def split: sum.splits)
  then obtain p where p: "Push c (assembly a) = (p, Inr ())"
    using a(3) by (auto simp: push_all_append split: prod.splits sum.splits)
  have "messageAccepted a = False" using a(1) by (simp add: in_world_def)
  moreover have "ChunkDraft ?b c = Inr d" using d(1) by (simp add: ChunkDraft_def b_def)
  moreover have "chunkSequences a \<noteq> [] \<Longrightarrow> last (chunkSequences a) < ?n" using a(5) by simp
  moreover have "evSeq ?e = ?n" by (simp add: world_event_def draft_event_def)
  ultimately have "ConfirmChunk c (resultEvents (world_write d ?u)) ?b =
      (?b\<lparr>assembly := p, chunkSequences := chunkSequences a @ [?n]\<rparr>, Inr ())"
    using commit(4) p
    by (auto simp: ConfirmChunk_def check_chunk_def world_write_def Let_def b_def failIf_def)
  then have "AdvanceAttempt (Inr i) (EventsCommitted (world_write d ?u)) None (b\<lparr>pendingCommit := Some d\<rparr>) =
      Inr (?b\<lparr>assembly := p, chunkSequences := chunkSequences a @ [?n], pendingChunk := NilChunk,
              attemptPhase := ReadingStream\<rparr>, ReadChunk)" (is "_ = Inr (?f, _)")
    using commit(2)
    by (simp add: AdvanceAttempt_def advance_attempt_def checkResult_def interpret_result_def commit_confirmed_def
        check_cancelled_def b_def)
  moreover have "in_world ms (world_commit d ?u) ?f" using commit(1) by (simp add: in_world_def)
  then have "reading ms (pre @ [c]) (world_commit d ?u) ?f"
    using a p commit(3) by (auto simp: reading_def push_all_snoc b_def c)
  ultimately show ?thesis using read unfolding Let_def by blast
qed

lemma reading_answered:
  "reading ms pre w a \<Longrightarrow> answered (pre @ worldChunks w) (3 + 2 * length (worldChunks w)) w (a, ReadChunk)"
proof (induction "worldChunks w" arbitrary: pre w a)
  case Nil
  let ?b = "a\<lparr>attemptPhase := ClosingStream\<rparr>"
  from Nil have a: "in_world ms w a" "attemptPhase a = ReadingStream" "push_all pre NewBlockAssembler = Inr (assembly a)"
    "room 1 w" "storable_answer (worldIdentity w) (attemptPosition a) (optionsConfig (options a)) pre"
    by (simp_all add: reading_def)
  have "answered pre 2 w (?b, CloseStream)"
    using a Nil(1) by (intro closing_answered) (simp_all add: in_world_def)
  from answered_step [OF this, of "(a, ReadChunk)"] a Nil(1) show ?case
    by (simp add: AdvanceAttempt_def advance_attempt_def checkResult_def interpret_result_def chunk_read_def
        check_cancelled_def numeral_3_eq_3 numeral_2_eq_2)
next
  case (Cons c ds)
  note c = Cons(2) [symmetric]
  let ?u = "w\<lparr>worldChunks := ds\<rparr>"
  from chunk_step [OF Cons(3) c, of "worldIdentity w"] obtain d b e where d:
    "AdvanceAttempt (Inr (worldIdentity w)) (ChunkRead c True) None a = Inr (b\<lparr>pendingCommit := Some d\<rparr>, CommitEvents d)"
    "AdvanceAttempt (Inr (worldIdentity w)) (EventsCommitted (world_write d ?u)) None (b\<lparr>pendingCommit := Some d\<rparr>) =
       Inr (e, ReadChunk)"
    "reading ms (pre @ [c]) (world_commit d ?u) e"
    by (auto simp: Let_def)
  have "answered (pre @ [c] @ ds) (3 + 2 * length ds) (world_commit d ?u) (e, ReadChunk)"
    using Cons(1) [of "world_commit d ?u" "pre @ [c]" e] d(3) by simp
  from answered_step [OF this, of "(b\<lparr>pendingCommit := Some d\<rparr>, CommitEvents d)" ?u] d(2)
  have "answered (pre @ [c] @ ds) (Suc (3 + 2 * length ds)) ?u (b\<lparr>pendingCommit := Some d\<rparr>, CommitEvents d)" by simp
  from answered_step [OF this, of "(a, ReadChunk)" w] d(1) c show ?case by simp
qed

end
