(* ===== verification/ModelAnswer.thy ===== *)
theory ModelAnswer
  imports ModelProgress
begin

text \<open>
  The stages of an attempt before it reads: the checks against the committed log, the commits of
  the route context and of the request header, the start of the stream and the first reading of
  the log.  Together with ModelProgress they give an answer to every attempt a world serves.
\<close>

lemma not_cancelled [simp]: "check_cancelled None s = s"
  by (simp add: check_cancelled_def split: prod.split)

section \<open>The header the log reports\<close>

definition reported :: "model_world \<Rightarrow> attempt \<Rightarrow> bool" where
  "reported w a =
     (\<exists>h. LatestRequestHeader (worldEvents w) = Inr (Some h) \<and> EpochHeaderEqual h (effective_header a))"

lemma latest_header_other:
  assumes "evType e \<noteq> RequestHeaderEventName"
  shows "LatestRequestHeader (es @ [e]) = LatestRequestHeader es"
  using assms by (simp add: LatestRequestHeader_def latest_header_append bindE_assoc)

text \<open>What the world still has to offer when the request is checked.\<close>

definition offering :: "message list \<Rightarrow> model_world \<Rightarrow> attempt \<Rightarrow> bool" where
  "offering ms w a =
     (in_world ms w a \<and> isOk (marshal_messages ms) \<and> optionsMessages (options a) = ms \<and>
      assembly a = NewBlockAssembler \<and> chunkSequences a = [] \<and> \<not> bad_position (attemptPosition a) \<and>
      list_all valid_chunk (worldChunks w) \<and>
      storable_answer (worldIdentity w) (attemptPosition a) (optionsConfig (options a)) (worldChunks w))"

lemma checking_answered:
  assumes o: "offering ms w a" "reported w a" "room (Suc (length (worldChunks w))) w"
    and a: "attemptPhase a = CheckingRequest"
  shows "answered (worldChunks w) (4 + 2 * length (worldChunks w)) w (a, ReadLog)"
proof -
  from o obtain h where h: "LatestRequestHeader (worldEvents w) = Inr (Some h)" "EpochHeaderEqual h (effective_header a)"
    by (auto simp: reported_def)
  have inw: "in_world ms w a" using o(1) by (simp add: offering_def)
  let ?b = "a\<lparr>confirmedNext := int (length (worldEvents w)), attemptPhase := ReadingStream\<rparr>"
  have "checkRequest (world_snapshot w) a = Inr (a\<lparr>confirmedNext := int (length (worldEvents w))\<rparr>)"
    using deriveInput_world [OF inw] checkStep_world [OF inw] o(1) h
    by (auto simp: checkRequest_def offering_def isOk_iff) (simp_all add: world_snapshot_def)
  then have "AdvanceAttempt (Inr (worldIdentity w)) (LogRead (world_snapshot w)) None a = Inr (?b, ReadChunk)"
    using a by (simp add: AdvanceAttempt_def advance_attempt_def checkResult_def interpret_result_def request_checked_def)
  moreover have "reading ms [] w ?b" using o(1,3) inw by (simp add: reading_def offering_def in_world_def)
  then have "answered (worldChunks w) (3 + 2 * length (worldChunks w)) w (?b, ReadChunk)"
    using reading_answered [of ms "[]" w ?b] by simp
  ultimately show ?thesis using answered_step [of "worldChunks w" "3 + 2 * length (worldChunks w)" w "(?b, ReadChunk)" "(a, ReadLog)" w]
    by simp
qed

lemma offering_commit:
  assumes "offering ms w a" "quiet_draft d" "room 1 w"
  shows "offering ms (world_commit d w) (a\<lparr>confirmedNext := int (length (worldEvents w)) + 1, pendingCommit := None\<rparr>)"
  using commit_step(1) [OF _ assms(2,3), of ms a] assms(1) by (simp add: offering_def)

lemma context_answered:
  assumes o: "offering ms w a" "reported w a" "room (2 + length (worldChunks w)) w"
    and d: "pendingContext a = None \<or> (\<exists>d. pendingContext a = Some d \<and> quiet_draft d \<and> draftType d \<noteq> RequestHeaderEventName)"
  shows "answered (worldChunks w) (5 + 2 * length (worldChunks w)) w (afterHeader a)"
proof (cases "pendingContext a")
  case None
  let ?b = "a\<lparr>attemptPhase := CheckingRequest\<rparr>"
  have "offering ms w ?b" "reported w ?b" using o by (simp_all add: offering_def in_world_def reported_def effective_header_def)
  then have "answered (worldChunks w) (4 + 2 * length (worldChunks w)) w (?b, ReadLog)"
    using o(3) by (intro checking_answered) (simp_all add: room_def)
  then have "answered (worldChunks w) (Suc (4 + 2 * length (worldChunks w))) w (?b, ReadLog)" by (rule answered_more)
  with None show ?thesis by (simp add: afterHeader_def)
next
  case (Some d)
  with d(1) have q: "quiet_draft d" "draftType d \<noteq> RequestHeaderEventName" by auto
  let ?b = "a\<lparr>pendingContext := None, attemptPhase := CommittingContext\<rparr>"
  let ?c = "?b\<lparr>confirmedNext := int (length (worldEvents w)) + 1, pendingCommit := None\<rparr>"
  let ?e = "?c\<lparr>attemptPhase := CheckingRequest\<rparr>"
  have b: "offering ms w ?b" using o(1) by (simp add: offering_def in_world_def)
  then have "in_world ms w ?b" by (simp add: offering_def)
  note commit = commit_step [OF this q(1)]
  have room: "room 1 w" using o(3) by (simp add: room_def)
  have "AdvanceAttempt (Inr (worldIdentity w)) (EventsCommitted (world_write d w)) None (?b\<lparr>pendingCommit := Some d\<rparr>) =
      Inr (?e, ReadLog)"
    using commit(2) [OF room]
    by (simp add: AdvanceAttempt_def advance_attempt_def checkResult_def interpret_result_def commit_confirmed_def)
  moreover have "offering ms (world_commit d w) ?e"
    using offering_commit [OF b q(1) room] by (simp add: offering_def in_world_def)
  moreover have "reported (world_commit d w) ?e"
    using o(2) q(2) by (simp add: reported_def commit(3) [OF room] latest_header_other world_event_def draft_event_def
        effective_header_def)
  ultimately have "answered (worldChunks w) (Suc (4 + 2 * length (worldChunks w))) w (?b\<lparr>pendingCommit := Some d\<rparr>, CommitEvents d)"
    using checking_answered [of ms "world_commit d w" ?e] o(3)
      answered_step [of "worldChunks w" "4 + 2 * length (worldChunks w)" "world_commit d w" "(?e, ReadLog)"
        "(?b\<lparr>pendingCommit := Some d\<rparr>, CommitEvents d)" w]
    by simp
  with Some show ?thesis by (simp add: afterHeader_def issue_commit_def)
qed

section \<open>Opening the stream\<close>

definition fit_start :: "generation_start \<Rightarrow> bool" where
  "fit_start g =
     (startedError g = None \<and> valid_config (startedConfig g) \<and> stopSequences (startedConfig g) \<noteq> Some [] \<and>
      valid_route \<lparr>routeProvider = configProvider (startedConfig g), routeModel = configModel (startedConfig g),
        contextWindow = startedContext g\<rparr>)"

lemma header_draft_some:
  assumes "valid_header h"
  shows "\<exists>r. HeaderDraft previous h initial = Inr r \<and>
    (case r of None \<Rightarrow> \<exists>x. previous = Some x \<and> EpochHeaderEqual x h
     | Some d \<Rightarrow> quiet_draft d \<and> draftType d = RequestHeaderEventName)"
proof (cases "\<not> initial \<and> (\<exists>x. previous = Some x \<and> EpochHeaderEqual x (CanonicalEpochHeader h))")
  case True
  then show ?thesis by (auto simp: HeaderDraft_def Let_def equal_canonical)
next
  case False
  define why where "why = (if initial then (if previous \<noteq> None then ''resume'' else ''initial'') else ''change'')"
  obtain j where j: "marshal_request_header \<lparr>snapshotHeader = CanonicalEpochHeader h, snapshotReason = why\<rparr> = Inr j" "lossless j"
    using request_header_round_trip [of "\<lparr>snapshotHeader = CanonicalEpochHeader h, snapshotReason = why\<rparr>"]
      canonical_valid [OF assms] by auto
  define d where "d = \<lparr>draftType = RequestHeaderEventName, draftData = Doc j, draftSources = None, draftSurfaceOp = None,
      draftIgnorable = False\<rparr>"
  have "NewEventDraft RequestHeaderEventName (Inr j) False = Inr d"
    using j(2) by (simp add: NewEventDraft_Inr d_def RequestHeaderEventName_def)
  then have "HeaderDraft previous h initial = Inr (Some d)"
    using False j(1) by (auto simp: HeaderDraft_def Let_def why_def split: option.splits)
  moreover have "quiet_draft d"
    using j(2) by (auto simp: quiet_draft_def d_def neutral_event_def isOk_iff validateEventDraft_iff RequestHeaderEventName_def)
  ultimately show ?thesis by (simp add: d_def)
qed

lemma context_draft_some:
  assumes "valid_route c"
  shows "\<exists>r. ContextDraft previous c = Inr r \<and>
    (r = None \<or> (\<exists>d. r = Some d \<and> quiet_draft d \<and> draftType d \<noteq> RequestHeaderEventName))"
proof (cases "\<exists>x. previous = Some x \<and> sameContext x c")
  case True
  then show ?thesis by (auto simp: ContextDraft_def)
next
  case False
  obtain j where j: "marshal_route c = Inr j" "lossless j" using route_round_trip [OF assms] by blast
  define d where "d = \<lparr>draftType = RequestContextEventName, draftData = Doc j, draftSources = None, draftSurfaceOp = None,
      draftIgnorable = False\<rparr>"
  have "NewEventDraft RequestContextEventName (Inr j) False = Inr d"
    using j(2) by (simp add: NewEventDraft_Inr d_def RequestContextEventName_def)
  then have "ContextDraft previous c = Inr (Some d)" using False j(1) by (auto simp: ContextDraft_def split: option.splits)
  moreover have "quiet_draft d" "draftType d \<noteq> RequestHeaderEventName"
    using j(2) by (auto simp: quiet_draft_def d_def neutral_event_def isOk_iff validateEventDraft_iff
        RequestContextEventName_def RequestHeaderEventName_def)
  ultimately show ?thesis by blast
qed

text \<open>An attempt whose stream is about to open, in a world fit for it.\<close>

definition stream_ready :: "message list \<Rightarrow> model_world \<Rightarrow> attempt \<Rightarrow> bool" where
  "stream_ready ms w a =
     (in_world ms w a \<and> isOk (marshal_messages ms) \<and> optionsMessages (options a) = ms \<and>
      assembly a = NewBlockAssembler \<and> chunkSequences a = [] \<and> \<not> bad_position (attemptPosition a) \<and>
      list_all valid_chunk (worldChunks w) \<and> list_all valid_schema (optionsTools (options a)) \<and>
      isOk (LatestRequestHeader (worldEvents w)) \<and> isOk (LatestRequestContext (worldEvents w)) \<and>
      fit_start (worldStart w) \<and> room (3 + length (worldChunks w)) w \<and>
      storable_answer (worldIdentity w) (attemptPosition a) (startedConfig (worldStart w)) (worldChunks w))"

lemma effective_again:
  "effective_header (a\<lparr>options := (options a)\<lparr>optionsConfig := headerConfig (effective_header a),
     optionsSystem := headerSystem (effective_header a), optionsTools := headerTools (effective_header a)\<rparr>\<rparr>) =
   effective_header a"
  by (cases "optionsSystem (options a)") (auto simp: effective_header_def CanonicalEpochHeader_def)

lemma prepare_opened:
  assumes o: "stream_ready ms w a"
    and b: "b = a\<lparr>options := (options a)\<lparr>optionsConfig := startedConfig (worldStart w)\<rparr>,
      attemptDefaults := startedDefaults (worldStart w), attemptContext := startedContext (worldStart w)\<rparr>"
  shows "\<exists>c header route. Prepare (worldEvents w) first b = Inr (c, header, route) \<and>
    offering ms w c \<and> attemptPhase c = attemptPhase a \<and>
    (route = None \<or> (\<exists>d. route = Some d \<and> quiet_draft d \<and> draftType d \<noteq> RequestHeaderEventName)) \<and>
    (case header of None \<Rightarrow> reported w c
     | Some d \<Rightarrow> quiet_draft d \<and> reported (world_commit d w) c)"
proof -
  let ?h = "effective_header b"
  from o obtain previous where previous: "LatestRequestHeader (worldEvents w) = Inr previous" by (auto simp: stream_ready_def isOk_iff)
  from o obtain earlier where earlier: "LatestRequestContext (worldEvents w) = Inr earlier" by (auto simp: stream_ready_def isOk_iff)
  have cfg: "headerConfig ?h = startedConfig (worldStart w)" "headerTools ?h = optionsTools (options a)"
    by (simp_all add: effective_header_def CanonicalEpochHeader_def b)
  then have valid: "valid_header ?h" "stopSequences (headerConfig ?h) \<noteq> Some []"
    using o by (simp_all add: valid_header_def stream_ready_def fit_start_def)
  define c where "c = b\<lparr>options := (options b)\<lparr>optionsConfig := headerConfig ?h, optionsSystem := headerSystem ?h,
      optionsTools := headerTools ?h\<rparr>\<rparr>"
  have same: "effective_header c = ?h" unfolding c_def by (rule effective_again)
  obtain header where header: "HeaderDraft previous ?h first = Inr header"
    "case header of None \<Rightarrow> \<exists>x. previous = Some x \<and> EpochHeaderEqual x ?h
     | Some d \<Rightarrow> quiet_draft d \<and> draftType d = RequestHeaderEventName"
    using header_draft_some [OF valid(1)] by blast
  have "valid_route \<lparr>routeProvider = configProvider (headerConfig ?h), routeModel = configModel (headerConfig ?h),
      contextWindow = attemptContext b\<rparr>"
    using o cfg by (simp add: stream_ready_def fit_start_def b)
  from context_draft_some [OF this] obtain route where route:
    "ContextDraft earlier \<lparr>routeProvider = configProvider (headerConfig ?h), routeModel = configModel (headerConfig ?h),
      contextWindow = attemptContext b\<rparr> = Inr route"
    "route = None \<or> (\<exists>d. route = Some d \<and> quiet_draft d \<and> draftType d \<noteq> RequestHeaderEventName)" by blast
  have "Prepare (worldEvents w) first b = Inr (c, header, route)"
    using previous earlier header(1) route(1) by (simp add: Prepare_def Let_def c_def)
  moreover have "offering ms w c" "attemptPhase c = attemptPhase a"
    using o cfg by (simp_all add: offering_def stream_ready_def in_world_def c_def b)
  moreover have "case header of None \<Rightarrow> reported w c | Some d \<Rightarrow> quiet_draft d \<and> reported (world_commit d w) c"
  proof (cases header)
    case None
    then show ?thesis using header(2) previous same by (auto simp: reported_def)
  next
    case (Some d)
    have "LatestRequestHeader (worldEvents w @ [world_event d w]) = Inr (Some (wire_header (CanonicalEpochHeader ?h)))"
      using header(1) Some
      by (intro committed_header_read [OF valid(1) previous, where d = d]) (simp_all add: world_event_def draft_event_def)
    moreover have "CanonicalEpochHeader ?h = ?h" by (simp add: effective_header_def canonical_idem)
    ultimately have "reported (world_commit d w) c"
      using wire_equal_iff [OF valid(1)] valid(2) same by (auto simp: reported_def world_commit_def)
    then show ?thesis using header(2) Some by simp
  qed
  ultimately show ?thesis using route(2) by blast
qed

lemma ready_answered:
  assumes o: "stream_ready ms w a" and a: "attemptPhase a = OpeningStream" "attemptBaseline a = worldEvents w"
  shows "answered (worldChunks w) (7 + 2 * length (worldChunks w)) w (a, Generate i)"
proof -
  define b where "b = a\<lparr>options := (options a)\<lparr>optionsConfig := startedConfig (worldStart w)\<rparr>,
      attemptDefaults := startedDefaults (worldStart w), attemptContext := startedContext (worldStart w)\<rparr>"
  from prepare_opened [OF o b_def, of "attemptFirst b"] obtain c header route where p:
    "Prepare (worldEvents w) (attemptFirst b) b = Inr (c, header, route)" "offering ms w c"
    "attemptPhase c = attemptPhase a"
    "route = None \<or> (\<exists>d. route = Some d \<and> quiet_draft d \<and> draftType d \<noteq> RequestHeaderEventName)"
    "case header of None \<Rightarrow> reported w c | Some d \<Rightarrow> quiet_draft d \<and> reported (world_commit d w) c" by blast
  let ?n = "2 * length (worldChunks w)"
  define e where "e = c\<lparr>attemptBaseline := [], pendingContext := route\<rparr>"
  have started: "startedError (worldStart w) = None" "room (3 + length (worldChunks w)) w"
    using o by (simp_all add: stream_ready_def fit_start_def)
  have e: "offering ms w e" using p(2) by (simp add: offering_def in_world_def e_def)
  have adv: "AdvanceAttempt (Inr (worldIdentity w)) (GenerationStarted (worldStart w)) None a =
      Inr (case header of Some d \<Rightarrow> issue_commit d (e\<lparr>attemptPhase := CommittingHeader\<rparr>) | None \<Rightarrow> afterHeader e)"
    using a p(1) started
    by (simp add: AdvanceAttempt_def advance_attempt_def checkResult_def interpret_result_def stream_opened_def
        e_def b_def split: option.split)
  have "answered (worldChunks w) (6 + ?n) w
      (case header of Some d \<Rightarrow> issue_commit d (e\<lparr>attemptPhase := CommittingHeader\<rparr>) | None \<Rightarrow> afterHeader e)"
  proof (cases header)
    case None
    have "reported w e" using p(5) None by (simp add: reported_def effective_header_def e_def)
    then have "answered (worldChunks w) (5 + ?n) w (afterHeader e)"
      using e p(4) started by (intro context_answered) (auto simp: e_def room_def)
    then have "answered (worldChunks w) (Suc (5 + ?n)) w (afterHeader e)" by (rule answered_more)
    with None show ?thesis by simp
  next
    case (Some d)
    with p(5) have d: "quiet_draft d" "reported (world_commit d w) c" by simp_all
    have room: "room 1 w" using started by (simp add: room_def)
    let ?b = "e\<lparr>attemptPhase := CommittingHeader\<rparr>"
    let ?c = "?b\<lparr>confirmedNext := int (length (worldEvents w)) + 1, pendingCommit := None\<rparr>"
    have b: "offering ms w ?b" using e by (simp add: offering_def in_world_def)
    then have "in_world ms w ?b" by (simp add: offering_def)
    note commit = commit_step [OF this d(1) room]
    have "AdvanceAttempt (Inr (worldIdentity w)) (EventsCommitted (world_write d w)) None (?b\<lparr>pendingCommit := Some d\<rparr>) =
        Inr (afterHeader (?c\<lparr>headerDone := True\<rparr>))"
      using commit(2)
      by (simp add: AdvanceAttempt_def advance_attempt_def checkResult_def interpret_result_def commit_confirmed_def)
    moreover have "answered (worldChunks w) (5 + ?n) (world_commit d w) (afterHeader (?c\<lparr>headerDone := True\<rparr>))"
    proof -
      have "offering ms (world_commit d w) (?c\<lparr>headerDone := True\<rparr>)"
        using offering_commit [OF b d(1) room] by (simp add: offering_def in_world_def)
      moreover have "reported (world_commit d w) (?c\<lparr>headerDone := True\<rparr>)"
        using d(2) by (simp add: reported_def effective_header_def e_def)
      ultimately show ?thesis
        using context_answered [of ms "world_commit d w" "?c\<lparr>headerDone := True\<rparr>"] p(4) started
        by (auto simp: e_def room_def world_commit_def)
    qed
    ultimately have "answered (worldChunks w) (Suc (5 + ?n)) w (?b\<lparr>pendingCommit := Some d\<rparr>, CommitEvents d)"
      using answered_step [of "worldChunks w" "5 + ?n" "world_commit d w" _ "(?b\<lparr>pendingCommit := Some d\<rparr>, CommitEvents d)" w]
      by simp
    with Some show ?thesis by (simp add: issue_commit_def)
  qed
  from answered_step [OF this, of "(a, Generate i)"] adv show ?thesis by simp
qed

section \<open>From the start\<close>

definition fit_world :: "attempt_input \<Rightarrow> model_world \<Rightarrow> bool" where
  "fit_world i w =
     (\<not> bad_position (attemptedPosition i) \<and> attemptedSession i \<noteq> [] \<and> worldSession w = attemptedSession i \<and>
      isOk (RenderPrompt (attemptedPrompt i)) \<and> list_all valid_schema (assembledTools (attemptedPrompt i)) \<and>
      list_all (\<lambda>(i, e). evSeq e = int i) (enumerate 0 (worldEvents w)) \<and>
      isOk (bindE (derive_nodes (worldEvents w) (int (length (worldEvents w))) (worldNodes w)) marshal_messages) \<and>
      open_position 0 no_position (worldEvents w) = Inr (posTurn (attemptedPosition i), attemptedPosition i) \<and>
      isOk (LatestRequestHeader (worldEvents w)) \<and> isOk (LatestRequestContext (worldEvents w)) \<and>
      fit_start (worldStart w) \<and> list_all valid_chunk (worldChunks w) \<and>
      room (3 + length (worldChunks w)) w \<and>
      storable_answer (worldIdentity w) (attemptedPosition i) (startedConfig (worldStart w)) (worldChunks w))"

lemma fit_world_answered:
  assumes fit: "fit_world i w"
  shows "\<exists>a s. NewAttempt i = Inr a \<and> StartAttempt a = Inr s \<and>
    answered (worldChunks w) (8 + 2 * length (worldChunks w)) w s"
proof -
  let ?p = "attemptedPosition i"
  obtain ms where ms: "derive_nodes (worldEvents w) (int (length (worldEvents w))) (worldNodes w) = Inr ms"
    "isOk (marshal_messages ms)" using fit by (auto simp: fit_world_def isOk_iff bindE_Inr_iff)
  obtain rendered where rendered: "RenderPrompt (attemptedPrompt i) = Inr rendered" using fit by (auto simp: fit_world_def isOk_iff)
  define opts where "opts = \<lparr>optionsConfig = no_config, optionsMessages = [],
      optionsSystem = (if rendered = [] then None else Some rendered), optionsTools = assembledTools (attemptedPrompt i),
      optionsSession = attemptedSession i, optionsPurpose = []\<rparr>"
  define a where "a = new_attempt i opts"
  have new: "NewAttempt i = Inr a"
    using fit rendered by (simp add: NewAttempt_def fit_world_def CloneGenerateOptions_def CloneMessages_def a_def opts_def)
  define b where "b = a\<lparr>attemptPhase := ReadingLog\<rparr>"
  have start: "StartAttempt a = Inr (b, ReadLog)" by (simp add: StartAttempt_def a_def new_attempt_def b_def)
  define c where "c = b\<lparr>confirmedNext := int (length (worldEvents w)), options := (options b)\<lparr>optionsMessages := ms\<rparr>,
      attemptBaseline := worldEvents w, attemptPhase := OpeningStream\<rparr>"
  have inw: "in_world ms w b"
    using fit ms(1) by (simp add: fit_world_def in_world_def b_def a_def new_attempt_def opts_def)
  have "load (world_snapshot w) b =
      Inr (b\<lparr>confirmedNext := int (length (worldEvents w)), options := (options b)\<lparr>optionsMessages := ms\<rparr>\<rparr>)"
    using deriveInput_world [OF inw] checkStep_world [OF inw] by (simp add: load_def) (simp add: world_snapshot_def)
  then obtain g where adv: "AdvanceAttempt (Inr (worldIdentity w)) (LogRead (world_snapshot w)) None b = Inr (c, Generate g)"
    by (simp add: AdvanceAttempt_def advance_attempt_def checkResult_def interpret_result_def log_loaded_def b_def a_def
        new_attempt_def c_def world_snapshot_def)
  have "stream_ready ms w c"
    using fit ms inw
    by (simp add: stream_ready_def fit_world_def in_world_def c_def b_def a_def new_attempt_def opts_def)
  then have "answered (worldChunks w) (7 + 2 * length (worldChunks w)) w (c, Generate g)"
    by (rule ready_answered) (simp_all add: c_def)
  from answered_step [OF this, of "(b, ReadLog)" w] adv new start show ?thesis by simp
qed

end
