(* ===== verification/RequestTheorems.thy ===== *)
theory RequestTheorems
  imports ModelAnswer ModelRequestLaws
begin

text \<open>
  The properties of model requests: what a stream assembles to, what an attempt answers, that
  requests end and release their streams, and what the committed header is good for; each with
  an instance on a small world.
\<close>

section \<open>Waiting and finished requests\<close>

lemma request_not_stuck:
  assumes "request_sound t"
  shows "(\<exists>out. snd t = RequestFinished out) \<or> (\<exists>u. AdvanceRequest i (RequestFailed (Some problem)) c (fst t) = Inr u)"
proof -
  obtain q p where t: "t = (q, p)" by (cases t)
  have shape: "request_shape q" and aw: "request_awaited (q, p)" using assms t by (simp_all add: request_sound_def)
  show ?thesis
  proof (cases p)
    case (RunAttempt op1)
    then have ph: "requestPhase q = RunningAttempt \<or> requestPhase q = RetryingClose" using aw by (auto simp: request_awaited_def)
    with shape obtain a where a: "activeAttempt q = Some a" "attempt_shape a" "attemptPhase a \<noteq> CompletedAttempt"
      by (auto simp: request_shape.simps active_open_def)
    then have ok: "checkResult (AttemptFailed (Some problem)) a = Inr ()"
      by (simp add: checkResult_def attempt_shape_def)
    then show ?thesis using t ph a
      by (auto simp: AdvanceRequest_def check_completion_def advance_active_def AdvanceAttempt_def Let_def
          bindE_Inr_iff split: prod.split)
  next
    case (ResolveRecovery f)
    then show ?thesis using aw t
      by (auto simp: request_awaited_def AdvanceRequest_def check_completion_def Let_def)
  next
    case (RequestFinished out)
    then show ?thesis using t by simp
  qed
qed

lemma finished_open_request:
  assumes "request_sound (q, RequestFinished out)" "\<not> outcomeClosed out"
  shows "outcomeError out \<noteq> None \<and> (\<exists>u. RetryRequestClose q = Inr (u, RunAttempt CloseStream))"
proof -
  from assms have q: "requestPhase q = RequestComplete" "out = requestOutcome q" "active_done False q" "requestFailure q = outcomeError out" "requestFailure q \<noteq> None"
    by (auto simp: request_sound_def request_awaited_def request_shape.simps)
  then obtain a where "activeAttempt q = Some a" "attemptPhase a = CompletedAttempt" "\<not> attemptClosed a"
    by (auto simp: active_done_def)
  with q assms(2) show ?thesis
    by (auto simp: RetryRequestClose_def RetryAttemptClose_def)
qed

section \<open>A small world\<close>

definition small_answer :: model_outcome where
  "small_answer =
     \<lparr>outcomeMessage = \<lparr>idValue = ''a'', roleValue = RoleAssistant, content = [TextBlock ''hi''],
        origin = ModelSource ''p'' ''m'' Absent\<rparr>,
      outcomeFinish = Some StopFinish, outcomeError = None, outcomeClosed = True, outcomeHeader = True\<rparr>"

lemma small_run_answers:
  "(case small_run of Inl e \<Rightarrow> None | Inr (w, a, out) \<Rightarrow> Some (map evType (worldEvents w), out)) =
   Some ([''turn/start'', ''step/start'', ''request/header'', ''request/context'', ''assistant/chunk'',
          ''assistant/message''], AttemptCompleted small_answer)"
  by code_simp

lemma small_world_runs: "\<exists>a cs. attempt_run (a, AttemptCompleted small_answer) cs"
proof -
  obtain v a out where run: "small_run = Inr (v, a, out)"
    using small_run_answers by (auto split: sum.splits)
  have out: "out = AttemptCompleted small_answer" using small_run_answers unfolding run by simp
  from run obtain b s where "NewAttempt small_input = Inr b" "StartAttempt b = Inr s"
    "run_attempt 14 small_world s = Inr (v, a, out)" by (auto simp: small_run_def bindE_Inr_iff)
  with served_run attempt_run.started out show ?thesis by blast
qed

definition small_request :: "bool \<Rightarrow> request_input" where
  "small_request initial =
     \<lparr>requestSession = ''s'', requestPosition = \<lparr>posTurn = 1, posStep = 1\<rparr>,
      requestPrompt = \<lparr>assembledSections = [], assembledContexts = [], assembledTools = [], assembledVariables = []\<rparr>,
      requestFirst = initial\<rparr>"

definition small_failure :: "(string res \<times> request_result \<times> model_error option) list" where
  "small_failure =
     [(Inl (err ''x''), RequestFailed (Some (problem_text ''down'')), None),
      (Inl (err ''x''), AttemptAdvanced StreamClosed, None)]"

lemma small_request_fails:
  "\<exists>s t out. StartRequest (small_request True) NewRequest = Inr s \<and> advance_requests small_failure s = Inr (t, RequestFinished out) \<and>
     outcomeClosed out \<and> outcomeError out \<noteq> None"
proof -
  define run where "run = bindE (StartRequest (small_request True) NewRequest) (advance_requests small_failure)"
  have "(case run of Inr (t, RequestFinished out) \<Rightarrow> outcomeClosed out \<and> outcomeError out \<noteq> None | _ \<Rightarrow> False)"
    unfolding run_def by code_simp
  then obtain t p where "run = Inr (t, p)"
    "case p of RequestFinished out \<Rightarrow> outcomeClosed out \<and> outcomeError out \<noteq> None | _ \<Rightarrow> False"
    by (auto split: sum.splits)
  then show ?thesis by (cases p) (auto simp: run_def bindE_Inr_iff)
qed

lemma advanced_runs: "request_run s \<Longrightarrow> advance_requests rs s = Inr t \<Longrightarrow> request_run t"
  by (induction rs s rule: advance_requests.induct) (auto simp: bindE_Inr_iff intro: request_run.advanced)

definition stop_header :: epoch_header where
  "stop_header =
     \<lparr>headerConfig = no_config\<lparr>configProvider := ''p'', configModel := ''m'', stopSequences := Some []\<rparr>,
      headerDefaults = None, headerSystem = None, headerTools = []\<rparr>"

section \<open>Properties\<close>

text \<open>
  C11: An attempt in a world without faults answers.  The world serves every operation, under these
  preconditions, each of them a condition of \<open>fit_world\<close>: the position is of an open step of the
  log, whose sequence numbers are contiguous with room left for safe ones, whose surface derives messages that
  can be stored, and whose recorded headers and contexts can be read; the prompt renders and its tool schemas are valid; the
  provider starts without an error, with a configuration that can be committed, whose stop list is not
  an empty list (such a header is never recognised again, see C32); every chunk can be stored; the assembler
  accepts the whole stream; and, unless the stream finishes with an error or an abort, the assistant message
  made of its blocks can be stored.  Then serving the operations of a new attempt ends within 8 results and 2 more for every chunk:
  the whole stream is read and closed, there is no error, the finish is that of the stream, and the
  message is the assistant message that holds the blocks of the response; if the finish is an error or
  an abort, there is no message.
\<close>

theorem served_attempt_answers:
  assumes "fit_world i w"
  shows "\<exists>a s v b out. NewAttempt i = Inr a \<and> StartAttempt a = Inr s \<and>
    run_attempt (8 + 2 * length (worldChunks w)) w s = Inr (v, b, AttemptCompleted out) \<and> worldChunks v = [] \<and>
    outcomeError out = None \<and> outcomeClosed out \<and> outcomeFinish out = Some (final_reason (worldChunks w)) \<and>
    (if ReasonKind (final_reason (worldChunks w)) \<in> {''error'', ''aborted''} then outcomeMessage out = no_message
     else response_blocks (worldChunks w) = Inr (content (outcomeMessage out)) \<and>
       roleValue (outcomeMessage out) = RoleAssistant)"
proof -
  obtain a s where "NewAttempt i = Inr a" "StartAttempt a = Inr s"
    "answered (worldChunks w) (8 + 2 * length (worldChunks w)) w s"
    using fit_world_answered [OF assms] by blast
  then show ?thesis unfolding answered_def answer_for_def by blast
qed

theorem served_attempt_answers_witness:
  "\<exists>s v b out. bindE (NewAttempt small_input) StartAttempt = Inr s \<and>
     run_attempt 10 small_world s = Inr (v, b, AttemptCompleted out) \<and>
     outcomeError out = None \<and> content (outcomeMessage out) = [TextBlock ''hi'']"
proof -
  have "isOk (bindE (derive_nodes (worldEvents small_world) (int (length (worldEvents small_world)))
      (worldNodes small_world)) marshal_messages)"
    "open_position 0 no_position (worldEvents small_world) =
      Inr (posTurn (attemptedPosition small_input), attemptedPosition small_input)"
    "isOk (RenderPrompt (attemptedPrompt small_input))"
    "isOk (LatestRequestHeader (worldEvents small_world))" "isOk (LatestRequestContext (worldEvents small_world))"
    "storable_answer (worldIdentity small_world) (attemptedPosition small_input) (startedConfig (worldStart small_world))
       (worldChunks small_world)"
    by code_simp+
  then have fit: "fit_world small_input small_world"
    unfolding fit_world_def
    by (simp add: small_input_def bad_position_def maxSafeInteger_def)
      (simp add: small_world_def plain_event_def fit_start_def valid_config_def valid_route_def no_config_def room_def
        maxSafeInteger_def int64_def)
  have chunks: "worldChunks small_world = [TextDeltaChunk 0 ''hi'']" by (simp add: small_world_def)
  have "response_blocks [TextDeltaChunk 0 ''hi''] = Inr [TextBlock ''hi'']"
    "ReasonKind (final_reason [TextDeltaChunk 0 ''hi'']) = ''stop''" by code_simp+
  with served_attempt_answers [OF fit] chunks show ?thesis by auto
qed

text \<open>
  C17: An attempt answers with what it committed.  Whatever results, cancellations and close
  retries an attempt was given, if it ends without an error then its stream is closed, its finish
  is that of the chunks whose events were acknowledged, in order, and its message holds the blocks
  of exactly these chunks; a failed finish carries no message.
\<close>

theorem attempt_answers_with_its_chunks:
  assumes "attempt_run (a, AttemptCompleted out) cs" "outcomeError out = None"
  shows "outcomeClosed out \<and> outcomeFinish out = Some (final_reason cs) \<and>
    (if ReasonKind (final_reason cs) \<in> {''error'', ''aborted''} then outcomeMessage out = no_message
     else response_blocks cs = Inr (content (outcomeMessage out)) \<and>
       roleValue (outcomeMessage out) = RoleAssistant \<and> idValue (outcomeMessage out) \<noteq> [])"
  using run_outcome [OF assms] by auto

theorem attempt_answers_with_its_chunks_witness:
  "\<exists>a cs. attempt_run (a, AttemptCompleted small_answer) cs \<and> final_reason cs = StopFinish \<and>
     response_blocks cs = Inr [TextBlock ''hi'']"
proof -
  obtain a cs where run: "attempt_run (a, AttemptCompleted small_answer) cs" using small_world_runs by blast
  have "outcomeError small_answer = None" by (simp add: small_answer_def)
  from attempt_answers_with_its_chunks [OF run this] have "final_reason cs = StopFinish"
    "response_blocks cs = Inr [TextBlock ''hi'']" by (auto simp: small_answer_def split: if_splits)
  with run show ?thesis by blast
qed



text \<open>
  A stream chunk survives its codec: what a valid chunk is marshalled to is lossless and is
  decoded to the same chunk.
\<close>

theorem stream_chunk_survives_codec:
  assumes "valid_chunk c"
  shows "\<exists>j. marshal_chunk c = Inr j \<and> lossless j \<and> DecodeStreamChunk (Doc j) = Inr c"
  by (rule chunk_round_trip [OF assms])

theorem stream_chunk_survives_codec_witness:
  "\<exists>j. marshal_chunk (ToolCallDeltaChunk 3 ''c'' (Some ''ls'') ''{'') = Inr j \<and>
     DecodeStreamChunk (Doc j) = Inr (ToolCallDeltaChunk 3 ''c'' (Some ''ls'') ''{'')"
proof -
  have "valid_chunk (ToolCallDeltaChunk 3 ''c'' (Some ''ls'') ''{'')" by (simp add: int64_def)
  from stream_chunk_survives_codec [OF this] show ?thesis by blast
qed

text \<open>
  C18: A model request ends.  However its operations are answered, a request accepts at most 9
  results, 2 more for every chunk read and 9 more for every retry granted; it starts at most one
  attempt more than there are retries granted; and until it is finished it accepts the failure of
  the operation it waits for, so it is never stuck.
\<close>

theorem model_request_terminates:
  assumes "StartRequest i NewRequest = Inr s" "advance_requests rs s = Inr t"
  shows "length rs \<le> 9 + 2 * chunk_results rs + 9 * granted_retries rs \<and>
    requestAttempts (fst t) \<le> 1 + granted_retries rs \<and>
    ((\<exists>out. snd t = RequestFinished out) \<or>
     (\<exists>u. AdvanceRequest ident (RequestFailed (Some problem)) cancellation (fst t) = Inr u))"
proof -
  have "request_sound t" and "length rs + request_rank (fst t) \<le> request_rank (fst s) + 2 * chunk_results rs +
      9 * granted_retries rs" and "requestAttempts (fst t) \<le> requestAttempts (fst s) + granted_retries rs"
    using advance_requests_bound [OF start_request_sound [OF assms(1)] assms(2)] by simp_all
  with start_request_rank [OF assms(1)] request_not_stuck [of t ident problem cancellation] show ?thesis by auto
qed

theorem model_request_terminates_witness:
  "\<exists>s t. StartRequest (small_request True) NewRequest = Inr s \<and> advance_requests small_failure s = Inr t \<and>
     requestAttempts (fst t) \<le> 1 \<and> (\<exists>out. snd t = RequestFinished out)"
proof -
  obtain s t out where run: "StartRequest (small_request True) NewRequest = Inr s"
    "advance_requests small_failure s = Inr (t, RequestFinished out)" using small_request_fails by blast
  from model_request_terminates [OF run] have "requestAttempts t \<le> 1"
    by (simp add: granted_retries_def small_failure_def)
  with run show ?thesis by fastforce
qed

text \<open>
  A finished request has released its stream or says so.  A request that ended without an
  error has closed the stream of its last attempt and carries a usable finish; one whose stream
  is still open reports an error and keeps the attempt that has to close it; and no attempt was
  started while the stream of another one was open.
\<close>

theorem finished_request_released_its_stream:
  assumes "request_run (q, RequestFinished out)"
  shows "(outcomeError out = None \<longrightarrow> outcomeClosed out \<and> \<not> failed_finish (outcomeFinish out)) \<and>
    (\<not> outcomeClosed out \<longrightarrow> outcomeError out \<noteq> None \<and>
       (\<exists>u. RetryRequestClose q = Inr (u, RunAttempt CloseStream)))"
  using request_run_sound [OF assms] finished_open_request [of q out] by (auto simp: request_sound_def request_awaited_def)

theorem finished_request_released_its_stream_witness:
  "\<exists>q out. request_run (q, RequestFinished out) \<and> outcomeClosed out \<and> outcomeError out \<noteq> None \<and>
     (outcomeClosed out \<or> (\<exists>u. RetryRequestClose q = Inr (u, RunAttempt CloseStream)))"
proof -
  obtain s q out where run: "StartRequest (small_request True) NewRequest = Inr s"
    "advance_requests small_failure s = Inr (q, RequestFinished out)" "outcomeClosed out" "outcomeError out \<noteq> None"
    using small_request_fails by blast
  have "request_run (q, RequestFinished out)" using advanced_runs [OF request_run.started [OF run(1)] run(2)] .
  from finished_request_released_its_stream [OF this]
  have "outcomeClosed out \<or> (\<exists>u. RetryRequestClose q = Inr (u, RunAttempt CloseStream))" by blast
  with \<open>request_run (q, RequestFinished out)\<close> run(3,4) show ?thesis by blast
qed

text \<open>
  C32: A committed request header is recognised, unless it has an empty stop list.  Once the fact
  of a header is committed, the log reports a header equal to it and no further fact is drafted,
  exactly when the stop list is not a present but empty one; that one is omitted by the marshaller
  while the comparison keeps absent and empty apart, so the check of the request before its
  stream is read fails for every attempt.
\<close>

theorem committed_header_is_recognised:
  assumes "valid_header h" "LatestRequestHeader es = Inr previous" "HeaderDraft previous h initial = Inr (Some d)"
    "evType e = draftType d" "evData e = draftData d"
  shows "\<exists>x. LatestRequestHeader (es @ [e]) = Inr (Some x) \<and>
    (EpochHeaderEqual x h \<longleftrightarrow> stopSequences (headerConfig h) \<noteq> Some []) \<and>
    (HeaderDraft (Some x) h False = Inr None \<longleftrightarrow> stopSequences (headerConfig h) \<noteq> Some []) \<and>
    (stopSequences (headerConfig h) = Some [] \<longrightarrow>
       (\<forall>s a. snapEvents s = es @ [e] \<longrightarrow> effective_header a = CanonicalEpochHeader h \<longrightarrow> \<not> isOk (checkRequest s a)))"
proof -
  let ?x = "wire_header (CanonicalEpochHeader h)"
  note read = committed_header_read [OF assms]
  have eq: "EpochHeaderEqual ?x h \<longleftrightarrow> stopSequences (headerConfig h) \<noteq> Some []"
    using wire_equal_iff [OF canonical_valid [OF assms(1)]] by (simp add: equal_canonical) (simp add: CanonicalEpochHeader_def)
  have "\<not> isOk (checkRequest s a)"
    if "stopSequences (headerConfig h) = Some []" "snapEvents s = es @ [e]" "effective_header a = CanonicalEpochHeader h" for s a
    using eq that read by (auto simp: isOk_iff checkRequest_def bindE_Inr_iff failIf_Inr equal_canonical)
  with read eq header_draft_again [OF assms(1)] show ?thesis by blast
qed

theorem committed_header_is_recognised_witness:
  "\<exists>d x. HeaderDraft None stop_header True = Inr (Some d) \<and>
     LatestRequestHeader [draft_event d 0 0] = Inr (Some x) \<and> \<not> EpochHeaderEqual x stop_header"
proof -
  have valid: "valid_header stop_header" by (simp add: stop_header_def valid_header_def valid_config_def no_config_def)
  obtain r where r: "HeaderDraft None stop_header True = Inr r" "r \<noteq> None"
    using header_draft_some [OF valid, of None True] by (auto split: option.splits)
  then obtain d where d: "HeaderDraft None stop_header True = Inr (Some d)" by auto
  have "LatestRequestHeader [] = Inr None" by (simp add: LatestRequestHeader_def)
  from committed_header_is_recognised [OF valid this d, of "draft_event d 0 0"] d show ?thesis
    by (auto simp: draft_event_def stop_header_def)
qed

end
