(* ===== verification/RetryRecords.thy ===== *)
theory RetryRecords
  imports RetryPolicy
begin

text \<open>
  The durable facts of a retry (\<open>src/llm/retry/types.go\<close>) with their codec and validation, and
  what a policy decides (\<open>src/llm/retry/policy.go\<close>): its key, the delay before a retry and the
  failures it retries.

  The text of a JSON value is the one \<open>encoding/json\<close> writes for it; Go strings are valid UTF-8.
\<close>

section \<open>Text of JSON values\<close>

definition hex_digit :: "nat \<Rightarrow> char" where
  "hex_digit n = ''0123456789abcdef'' ! n"

definition escape_unit :: "nat \<Rightarrow> string" where
  "escape_unit n = [CHR 0x5C, CHR ''u'', hex_digit (n div 4096), hex_digit (n div 256 mod 16),
     hex_digit (n div 16 mod 16), hex_digit (n mod 16)]"

definition quote_char :: "char \<Rightarrow> string" where
  "quote_char c =
     (if c = CHR 0x22 \<or> c = CHR 0x5C then [CHR 0x5C, c]
      else if c = CHR 0x08 then [CHR 0x5C, CHR ''b'']
      else if c = CHR 0x0C then [CHR 0x5C, CHR ''f'']
      else if c = CHR 0x0A then [CHR 0x5C, CHR ''n'']
      else if c = CHR 0x0D then [CHR 0x5C, CHR ''r'']
      else if c = CHR 0x09 then [CHR 0x5C, CHR ''t'']
      else if of_char c < (32 :: nat) \<or> c = CHR ''<'' \<or> c = CHR ''>'' \<or> c = CHR ''&'' then escape_unit (of_char c)
      else [c])"

fun quote_body :: "string \<Rightarrow> string" where
  "quote_body (a # b # c # s) =
     (if a = CHR 0xE2 \<and> b = CHR 0x80 \<and> (c = CHR 0xA8 \<or> c = CHR 0xA9)
      then escape_unit (if c = CHR 0xA8 then 8232 else 8233) @ quote_body s
      else quote_char a @ quote_body (b # c # s))"
| "quote_body (a # s) = quote_char a @ quote_body s"
| "quote_body [] = []"

definition json_quote :: "string \<Rightarrow> string" where
  "json_quote s = [CHR 0x22] @ quote_body s @ [CHR 0x22]"

fun number_text :: "jnum \<Rightarrow> string" where
  "number_text (NInt n) = decimal n"
| "number_text (NLit s) = s"

fun join_text :: "string \<Rightarrow> string list \<Rightarrow> string" where
  "join_text sep [] = []"
| "join_text sep [p] = p"
| "join_text sep (p # q # ps) = p @ sep @ join_text sep (q # ps)"

text \<open>A float that is not finite has no JSON text.\<close>

fun marshal_float :: "go_float \<Rightarrow> jnum res" where
  "marshal_float (Finite q) = Inr (float_literal q)"
| "marshal_float f = Inl (err ''json: unsupported value'')"

section \<open>Policies\<close>

definition float_text :: "go_float \<Rightarrow> string res" where
  "float_text f = bindE (marshal_float f) (\<lambda>x. Inr (number_text x))"

definition codes_text :: "string list \<Rightarrow> string" where
  "codes_text codes = ''['' @ join_text '','' (map json_quote (sort codes)) @ '']''"

definition policyKey :: "retry_policy \<Rightarrow> string res" where
  "policyKey resolved =
     (let delayPolicy = RetryBackoff resolved in
      bindE (float_text (InitialDelayMS delayPolicy)) (\<lambda>initialValue.
      bindE (float_text (MaxDelayMS delayPolicy)) (\<lambda>maximumValue.
      bindE (float_text (JitterRatio delayPolicy)) (\<lambda>jitterValue.
      Inr (case resolved of
             NormalRetryPolicy b n codes \<Rightarrow>
               join_text '','' [''['' @ json_quote ''normal'', decimal n, codes_text codes, initialValue, maximumValue, jitterValue @ '']'']
           | AlwaysRetryPolicy b \<Rightarrow>
               join_text '','' [''['' @ json_quote ''always'', initialValue, maximumValue, jitterValue @ '']''])))))"

text \<open>
  Floating arithmetic; \<open>math.Min\<close> and the products are only used on values that are not NaN.
  The error of a sample out of range does not keep the sample.
\<close>

fun float_times :: "go_float \<Rightarrow> go_float \<Rightarrow> go_float" where
  "float_times (Finite p) (Finite q) = float64 (p * q)"
| "float_times (Finite p) PosInf = (if p = 0 then NotANumber else if p < 0 then NegInf else PosInf)"
| "float_times PosInf (Finite p) = (if p = 0 then NotANumber else if p < 0 then NegInf else PosInf)"
| "float_times PosInf PosInf = PosInf"
| "float_times x y = NotANumber"

fun float_plus :: "go_float \<Rightarrow> go_float \<Rightarrow> go_float" where
  "float_plus (Finite p) (Finite q) = float64 (p + q)"
| "float_plus x y = NotANumber"

definition float_min :: "go_float \<Rightarrow> go_float \<Rightarrow> go_float" where
  "float_min x y = (if x = NotANumber \<or> y = NotANumber then NotANumber else if float_less y x then y else x)"

definition two_to :: "int \<Rightarrow> go_float" where
  "two_to n = (if n \<le> 1023 then Finite (2 ^ nat n) else PosInf)"

definition localDelay :: "retry_policy \<Rightarrow> int \<Rightarrow> go_float \<Rightarrow> go_float res" where
  "localDelay resolved retryNumber sample =
     bindE (failIf (retryNumber < 1) (err ''llm-retry: retry number must be positive'')) (\<lambda>_.
     bindE (failIf (\<not> finite_float sample \<or> float_less sample (Finite 0) \<or> float_less (Finite 1) sample)
       (err ''llm-retry: random sample %v is outside 0..1'')) (\<lambda>_.
     let delayPolicy = RetryBackoff resolved;
         exponent = min (retryNumber - 1) 1024;
         exponential = float_min (float_times (InitialDelayMS delayPolicy) (two_to exponent)) (MaxDelayMS delayPolicy);
         ratio = JitterRatio delayPolicy;
         jitter = float_plus (float_plus (Finite 1) (negate_float ratio)) (float_times (float_times (Finite 2) ratio) sample) in
     Inr (float_min (float_times exponential jitter) (MaxDelayMS delayPolicy))))"

definition retryable :: "string list \<Rightarrow> string \<Rightarrow> bool" where
  "retryable codes failureCode = (failureCode \<in> set codes)"

definition selectDelay :: "llm_failure \<Rightarrow> retry_policy \<Rightarrow> int \<Rightarrow> go_float \<Rightarrow> (go_float \<times> bool) res" where
  "selectDelay failure policy number sample =
     (let computed = bindE (localDelay policy number sample) (\<lambda>d. Inr (d, False)) in
      case failRetryAfter failure of
        None \<Rightarrow> computed
      | Some delay \<Rightarrow>
          let d = float_value delay in
          if \<not> finitePositive d then computed
          else if \<not> float_less (MaxDelayMS (RetryBackoff policy)) d then Inr (d, False)
          else case policy of
            NormalRetryPolicy b n codes \<Rightarrow> Inr (Finite 0, True)
          | AlwaysRetryPolicy b \<Rightarrow> computed)"

section \<open>Records\<close>

record retry_facts =
  chainID :: string
  retryTurn :: int
  retryStep :: int
  retryProvider :: string
  retryMode :: string
  retryKey :: string
  retryNumber :: int
  retryLimit :: int
  retryDelay :: go_float
  retryFailure :: llm_failure

text \<open>An always record has no limit; its facts carry zero.\<close>

datatype retry_record = NormalRetryRecord retry_facts | AlwaysRetryRecord retry_facts

record retry_started =
  startedID :: string
  startedTurn :: int
  startedStep :: int
  startedRetry :: int

fun factsFromRecord :: "retry_record \<Rightarrow> retry_facts" where
  "factsFromRecord (NormalRetryRecord f) = f"
| "factsFromRecord (AlwaysRetryRecord f) = f\<lparr>retryLimit := 0\<rparr>"

definition positiveSafe :: "int \<Rightarrow> bool" where
  "positiveSafe n = (0 < n \<and> n \<le> maxSafeInteger)"

definition validate_retry_failure :: "llm_failure \<Rightarrow> unit res" where
  "validate_retry_failure f =
     bindE (failIf (failMessage f = [] \<or> failCode f = [])
       (err ''llm-retry: failure message and code must be non-empty'')) (\<lambda>_.
     bindE (failIf (\<not> pred_option (\<lambda>s. 100 \<le> s \<and> s \<le> 599) (failStatus f))
       (err ''llm-retry: failure status must be from 100 through 599'')) (\<lambda>_.
     failIf (\<not> pred_option positive_finite (failRetryAfter f))
       (err ''llm-retry: failure providerRetryAfterMs must be positive and finite'')))"

definition validateRetryFacts :: "retry_facts \<Rightarrow> unit res" where
  "validateRetryFacts f =
     bindE (failIf (chainID f = []) (err ''llm-retry: retryId must be non-empty'')) (\<lambda>_.
     bindE (failIf (\<not> positiveSafe (retryTurn f) \<or> \<not> positiveSafe (retryStep f))
       (err ''llm-retry: turn and step must be positive safe integers'')) (\<lambda>_.
     bindE (failIf (retryProvider f = []) (err ''llm-retry: provider must be non-empty'')) (\<lambda>_.
     bindE (failIf (retryKey f = []) (err ''llm-retry: policyKey must be non-empty'')) (\<lambda>_.
     bindE (failIf (\<not> positiveSafe (retryNumber f)) (err ''llm-retry: retry must be a positive safe integer'')) (\<lambda>_.
     bindE (if retryMode f = ''normal'' then
              failIf (\<not> positiveSafe (retryLimit f) \<or> retryNumber f > retryLimit f)
                (Errorf ''llm-retry: retry %d must not exceed positive safe maxRetries %d''
                  [AInt (retryNumber f), AInt (retryLimit f)])
            else if retryMode f = ''always'' then
              failIf (retryLimit f \<noteq> 0) (err ''llm-retry: always retry record must omit maxRetries'')
            else Inl (Errorf ''llm-retry: mode must be normal or always, got %q'' [AStr (retryMode f)])) (\<lambda>_.
     bindE (failIf (\<not> finite_float (retryDelay f) \<or> float_less (retryDelay f) (Finite 0) \<or>
                    float_less timer_limit (retryDelay f))
       (Errorf ''llm-retry: delayMs must be within 0..%.0f'' [AInt MaxTimerDelayMS])) (\<lambda>_.
     validate_retry_failure (retryFailure f))))))))"

definition validateStartedShape :: "retry_started \<Rightarrow> unit res" where
  "validateStartedShape t =
     bindE (failIf (startedID t = []) (err ''llm-retry: retry-started retryId must be non-empty'')) (\<lambda>_.
     failIf (\<not> positiveSafe (startedTurn t) \<or> \<not> positiveSafe (startedStep t) \<or> \<not> positiveSafe (startedRetry t))
       (err ''llm-retry: retry-started turn, step, and retry must be positive safe integers''))"

section \<open>Codec\<close>

definition retry_fields :: "retry_facts \<Rightarrow> (string \<times> json) list \<Rightarrow> json res" where
  "retry_fields f limit =
     bindE (marshal_float (retryDelay f)) (\<lambda>delay.
     Inr (JObj ([(''retryId'', JStr (chainID f)), (''turn'', jint (retryTurn f)), (''step'', jint (retryStep f)),
                 (''provider'', JStr (retryProvider f)), (''mode'', JStr (retryMode f)),
                 (''policyKey'', JStr (retryKey f)), (''retry'', jint (retryNumber f))] @ limit @
                [(''delayMs'', JNum delay), (''failure'', marshal_failure (retryFailure f))])))"

fun marshal_retry :: "retry_record \<Rightarrow> json res" where
  "marshal_retry (NormalRetryRecord f) = retry_fields f [(''maxRetries'', jint (retryLimit f))]"
| "marshal_retry (AlwaysRetryRecord f) = retry_fields f []"

definition marshal_started :: "retry_started \<Rightarrow> json res" where
  "marshal_started t =
     Inr (JObj [(''retryId'', JStr (startedID t)), (''turn'', jint (startedTurn t)), (''step'', jint (startedStep t)),
                (''retry'', jint (startedRetry t))])"

fun as_float :: "json \<Rightarrow> go_float option" where
  "as_float j = map_option float_value (as_float64 j)"

definition decode_facts :: "raw \<Rightarrow> bool \<Rightarrow> retry_facts res" where
  "decode_facts rawValue limited =
     bindE (fields_of rawValue) (\<lambda>fs.
     bindE (get_string fs ''retryId'') (\<lambda>i.
     bindE (get_int64 fs ''turn'') (\<lambda>t.
     bindE (get_int64 fs ''step'') (\<lambda>s.
     bindE (get_string fs ''provider'') (\<lambda>p.
     bindE (get_string fs ''mode'') (\<lambda>m.
     bindE (get_string fs ''policyKey'') (\<lambda>k.
     bindE (get_int64 fs ''retry'') (\<lambda>n.
     bindE (if limited then get_int64 fs ''maxRetries'' else Inr 0) (\<lambda>x.
     bindE (scan_scalar as_float (Finite 0) (matches ''delayMs'' fs)) (\<lambda>d.
     bindE (bindE (nested_fields (matches ''failure'' fs)) failure_of) (\<lambda>f.
     Inr \<lparr>chainID = i, retryTurn = t, retryStep = s, retryProvider = p, retryMode = m, retryKey = k,
          retryNumber = n, retryLimit = x, retryDelay = d, retryFailure = f\<rparr>)))))))))))"

definition validateFailureWire :: "raw \<Rightarrow> unit res" where
  "validateFailureWire rawValue =
     bindE (unmarshal_map rawValue) (\<lambda>recordFields.
     let failureRaw = map_get recordFields ''failure'' in
     bindE (failIf (failureRaw = Absent) (err ''llm-retry: failure must be present'')) (\<lambda>_.
     case unmarshal_map failureRaw of
       Inr (Some fs) \<Rightarrow>
         (let requestRaw = map_get (Some fs) ''requestId'' in
          if requestRaw = Absent then Inr ()
          else failIf (case unmarshal_scalar as_string [] requestRaw of Inl e \<Rightarrow> True | Inr s \<Rightarrow> s = [])
            (err ''llm-retry: failure requestId must be a non-empty string when present''))
     | _ \<Rightarrow> Inl (err ''llm-retry: failure must be an object'')))"

definition DecodeRetryRecord :: "raw \<Rightarrow> retry_record res" where
  "DecodeRetryRecord rawValue =
     bindE (wrapE (\<lambda>e. Errorf ''llm-retry: decode retry record: %w'' [AErr e])
              (bindE (fields_of rawValue) (\<lambda>fs. get_string fs ''mode''))) (\<lambda>mode.
     bindE (if mode = ''normal'' then
              bindE (wrapE (\<lambda>e. Errorf ''llm-retry: decode normal retry record: %w'' [AErr e])
                       (decode_facts rawValue True)) (\<lambda>f. Inr (NormalRetryRecord f))
            else if mode = ''always'' then
              bindE (wrapE (\<lambda>e. Errorf ''llm-retry: decode always retry record: %w'' [AErr e])
                       (unmarshal_map rawValue)) (\<lambda>fields.
              bindE (failIf (map_get fields ''maxRetries'' \<noteq> Absent)
                (err ''llm-retry: always retry record must omit maxRetries'')) (\<lambda>_.
              bindE (wrapE (\<lambda>e. Errorf ''llm-retry: decode always retry record: %w'' [AErr e])
                       (decode_facts rawValue False)) (\<lambda>f. Inr (AlwaysRetryRecord f))))
            else Inl (Errorf ''llm-retry: mode must be normal or always, got %q'' [AStr mode])) (\<lambda>decoded.
     bindE (validateRetryFacts (factsFromRecord decoded)) (\<lambda>_.
     bindE (validateFailureWire rawValue) (\<lambda>_.
     Inr decoded))))"

definition DecodeRetryStarted :: "raw \<Rightarrow> retry_started res" where
  "DecodeRetryStarted rawValue =
     bindE (wrapE (\<lambda>e. Errorf ''llm-retry: decode retry-started record: %w'' [AErr e])
              (bindE (fields_of rawValue) (\<lambda>fs.
               bindE (get_string fs ''retryId'') (\<lambda>i.
               bindE (get_int64 fs ''turn'') (\<lambda>t.
               bindE (get_int64 fs ''step'') (\<lambda>s.
               bindE (get_int64 fs ''retry'') (\<lambda>n.
               Inr \<lparr>startedID = i, startedTurn = t, startedStep = s, startedRetry = n\<rparr>))))))) (\<lambda>transition.
     bindE (validateStartedShape transition) (\<lambda>_. Inr transition))"

end
