(* ===== verification/RetryHistory.thy ===== *)
theory RetryHistory
  imports RetryRecords BoundaryWrites
begin

text \<open>
  The retry facts of a log (\<open>src/llm/retry/history.go\<close>): the projection that validates every
  retry transition in event order, and the two idempotent writes that add to it
  (\<open>src/llm/retry/retry_write.go\<close>).
\<close>

section \<open>The projection\<close>

record retry_chain_key =
  keyTurn :: int
  keyStep :: int
  keyProvider :: string
  keyPolicy :: string

record retry_chain =
  chainOwner :: string
  chainRetry :: int
  chainLatest :: retry_record

text \<open>The identifier of a chain and the number of the retry; the turn and step of an attempt.\<close>

type_synonym attempt_key = "string \<times> int"
type_synonym scheduled_attempt = "int \<times> int"

record history_projection =
  turnOpen :: bool
  turnInProgress :: int
  stepOpen :: bool
  openStepTurn :: int
  openStep :: int
  openProvider :: string
  retryChains :: "(retry_chain_key, retry_chain) go_map"
  chainOwners :: "(string, retry_chain_key) go_map"
  scheduledAttempts :: "(attempt_key, scheduled_attempt) go_map"
  startedAttempts :: "(attempt_key, unit) go_map"

definition newHistoryProjection :: history_projection where
  "newHistoryProjection =
     \<lparr>turnOpen = False, turnInProgress = 0, stepOpen = False, openStepTurn = 0, openStep = 0, openProvider = [],
      retryChains = [], chainOwners = [], scheduledAttempts = [], startedAttempts = []\<rparr>"

definition chain_key :: "retry_facts \<Rightarrow> retry_chain_key" where
  "chain_key f = \<lparr>keyTurn = retryTurn f, keyStep = retryStep f, keyProvider = retryProvider f, keyPolicy = retryKey f\<rparr>"

definition check_retry :: "retry_facts \<Rightarrow> history_projection \<Rightarrow> unit res" where
  "check_retry f p =
     bindE (failIf (\<not> turnOpen p) (err ''llm/retry must be appended inside an open turn'')) (\<lambda>_.
     bindE (failIf (retryTurn f \<noteq> turnInProgress p)
       (Errorf ''llm/retry names turn %d, but the open turn is %d'' [AInt (retryTurn f), AInt (turnInProgress p)])) (\<lambda>_.
     bindE (failIf (\<not> stepOpen p) (err ''llm/retry must be appended inside an open step'')) (\<lambda>_.
     bindE (failIf (retryTurn f \<noteq> openStepTurn p \<or> retryStep f \<noteq> openStep p)
       (Errorf ''llm/retry names turn %d/step %d, but the open step is %d/%d''
         [AInt (retryTurn f), AInt (retryStep f), AInt (openStepTurn p), AInt (openStep p)])) (\<lambda>_.
     bindE (failIf (openProvider p \<noteq> retryProvider f)
       (Errorf ''llm/retry provider %q does not match the failed request provider %q''
         [AStr (retryProvider f), AStr (openProvider p)])) (\<lambda>_.
     let prior = map_of (retryChains p) (chain_key f);
         expectedRetry = (case prior of None \<Rightarrow> 1 | Some c \<Rightarrow> chainRetry c + 1) in
     bindE (failIf (retryNumber f \<noteq> expectedRetry)
       (Errorf ''llm/retry retry %d must equal provider policy retry %d'' [AInt (retryNumber f), AInt expectedRetry])) (\<lambda>_.
     case prior of
       Some c \<Rightarrow>
         failIf (chainOwner c \<noteq> chainID f) (err ''llm/retry must preserve retryId across one provider-policy chain'')
     | None \<Rightarrow>
         failIf (case map_of (chainOwners p) (chainID f) of None \<Rightarrow> False | Some k \<Rightarrow> k \<noteq> chain_key f)
           (Errorf ''llm/retry retryId %q is already owned by another chain'' [AStr (chainID f)])))))))"

definition addRetryFacts :: "retry_record \<Rightarrow> retry_facts \<Rightarrow> history_projection \<Rightarrow> history_projection res" where
  "addRetryFacts entry f p =
     bindE (check_retry f p) (\<lambda>_.
     Inr (p\<lparr>retryChains := put (retryChains p) (chain_key f)
                \<lparr>chainOwner = chainID f, chainRetry = retryNumber f, chainLatest = entry\<rparr>,
            chainOwners := put (chainOwners p) (chainID f) (chain_key f),
            scheduledAttempts := put (scheduledAttempts p) (chainID f, retryNumber f) (retryTurn f, retryStep f)\<rparr>))"

definition addDecodedRetry :: "retry_record \<Rightarrow> history_projection \<Rightarrow> history_projection res" where
  "addDecodedRetry entry p = addRetryFacts entry (factsFromRecord entry) p"

definition addRetry :: "retry_record \<Rightarrow> history_projection \<Rightarrow> history_projection res" where
  "addRetry entry p =
     bindE (validateRetryFacts (factsFromRecord entry)) (\<lambda>_. addRetryFacts entry (factsFromRecord entry) p)"

definition addStartedTransition :: "retry_started \<Rightarrow> history_projection \<Rightarrow> history_projection res" where
  "addStartedTransition t p =
     (let key = (startedID t, startedRetry t) in
      case map_of (scheduledAttempts p) key of
        None \<Rightarrow> Inl (err ''llm/retry-started pairs no prior scheduled attempt'')
      | Some (turn, step) \<Rightarrow>
          bindE (failIf (turn \<noteq> startedTurn t \<or> step \<noteq> startedStep t)
            (err ''llm/retry-started turn/step must match its scheduled attempt'')) (\<lambda>_.
          bindE (failIf (map_of (startedAttempts p) key \<noteq> None)
            (err ''llm/retry-started repeats one scheduled attempt'')) (\<lambda>_.
          Inr (p\<lparr>startedAttempts := put (startedAttempts p) key ()\<rparr>))))"

definition addStarted :: "retry_started \<Rightarrow> history_projection \<Rightarrow> history_projection res" where
  "addStarted t p = bindE (validateStartedShape t) (\<lambda>_. addStartedTransition t p)"

definition header_provider :: "raw \<Rightarrow> string res" where
  "header_provider r =
     bindE (fields_of r) (\<lambda>fs.
     bindE (nested_fields (matches ''header'' fs)) (\<lambda>hs.
     bindE (nested_fields (matches ''config'' hs)) (\<lambda>cs.
     get_string cs ''provider'')))"

definition advance_history :: "history_projection \<Rightarrow> event \<Rightarrow> history_projection res" where
  "advance_history p committed =
     (if evType committed = ''turn/start'' then
        bindE (wrapE (\<lambda>e. Errorf ''decode turn/start: %w'' [AErr e]) (unmarshal_turn (evData committed))) (\<lambda>t.
        Inr (p\<lparr>turnOpen := True, turnInProgress := t, stepOpen := False\<rparr>))
      else if evType committed = ''turn/end'' then Inr (p\<lparr>turnOpen := False, stepOpen := False\<rparr>)
      else if evType committed = ''step/start'' then
        bindE (wrapE (\<lambda>e. Errorf ''decode step/start: %w'' [AErr e]) (unmarshal_position (evData committed))) (\<lambda>b.
        Inr (p\<lparr>stepOpen := True, openStepTurn := posTurn b, openStep := posStep b\<rparr>))
      else if evType committed = ''step/end'' then Inr (p\<lparr>stepOpen := False\<rparr>)
      else if evType committed = RequestHeaderEventName then
        bindE (wrapE (\<lambda>e. Errorf ''decode request/header: %w'' [AErr e]) (header_provider (evData committed))) (\<lambda>provider.
        Inr (p\<lparr>openProvider := provider\<rparr>))
      else if evType committed = ''llm/retry'' then
        bindE (DecodeRetryRecord (evData committed)) (\<lambda>entry. addDecodedRetry entry p)
      else if evType committed = ''llm/retry-started'' then
        bindE (DecodeRetryStarted (evData committed)) (\<lambda>t. addStartedTransition t p)
      else Inr p)"

definition wrapped_advance :: "history_projection \<Rightarrow> event \<Rightarrow> history_projection res" where
  "wrapped_advance p committed =
     wrapE (\<lambda>e. Errorf ''llm-retry: invalid Session event at seq %d: %w'' [AInt (evSeq committed), AErr e])
       (advance_history p committed)"

definition analyzeHistory :: "event list \<Rightarrow> history_projection res" where
  "analyzeHistory events = foldE wrapped_advance newHistoryProjection events"

definition ValidateHistory :: "event list \<Rightarrow> unit res" where
  "ValidateHistory events = bindE (analyzeHistory events) (\<lambda>_. Inr ())"

definition priorRetry :: "retry_chain_key \<Rightarrow> history_projection \<Rightarrow> retry_record option" where
  "priorRetry k p = map_option chainLatest (map_of (retryChains p) k)"

section \<open>The writes\<close>

record retry_write =
  writeSession :: string
  writeChain :: string
  writeNumber :: int
  writeDraft :: event_draft
  writeScheduled :: "retry_record option"
  writeStarted :: "retry_started option"

definition checkSnapshot :: "snapshot \<Rightarrow> string \<Rightarrow> unit res" where
  "checkSnapshot snap identifier =
     bindE (failIf (barrierSession (snapBarrier snap) \<noteq> identifier \<or>
                    barrierNext (snapBarrier snap) \<noteq> int (length (snapEvents snap)))
       (err ''llm-retry: complete matching Session snapshot is required'')) (\<lambda>_.
     bindE (scan_events (err ''llm-retry: Session sequence is discontinuous'') (\<lambda>u e. Inr u) 0 ()
              (snapEvents snap)) (\<lambda>_. Inr ()))"

definition retry_build :: "retry_write \<Rightarrow> snapshot \<Rightarrow> event_draft list res" where
  "retry_build w snap =
     bindE (checkSnapshot snap (writeSession w)) (\<lambda>_.
     bindE (analyzeHistory (snapEvents snap)) (\<lambda>history.
     bindE (case writeStarted w of
              Some t \<Rightarrow>
                bindE (failIf (\<not> turnOpen history \<or> \<not> stepOpen history \<or> turnInProgress history \<noteq> startedTurn t \<or>
                               openStepTurn history \<noteq> startedTurn t \<or> openStep history \<noteq> startedStep t)
                  (err ''llm-retry: retry no longer belongs to the open step'')) (\<lambda>_. addStarted t history)
            | None \<Rightarrow>
                (case writeScheduled w of
                   None \<Rightarrow> Inl (err ''llm-retry: unsupported retry record implementation'')
                 | Some entry \<Rightarrow> addRetry entry history)) (\<lambda>_.
     Inr [writeDraft w])))"

text \<open>The identity of the fact an event records, for the kind of fact the write looks for.\<close>

definition retry_identity :: "bool \<Rightarrow> event \<Rightarrow> (string \<times> int) option res" where
  "retry_identity started e =
     (if started \<and> evType e = ''llm/retry-started'' then
        bindE (DecodeRetryStarted (evData e)) (\<lambda>t. Inr (Some (startedID t, startedRetry t)))
      else if \<not> started \<and> evType e = ''llm/retry'' then
        bindE (DecodeRetryRecord (evData e)) (\<lambda>r.
        Inr (Some (chainID (factsFromRecord r), retryNumber (factsFromRecord r))))
      else Inr None)"

definition retry_step :: "retry_write \<Rightarrow> event option \<Rightarrow> event \<Rightarrow> event option res" where
  "retry_step w found e =
     bindE (retry_identity (writeStarted w \<noteq> None) e) (\<lambda>identity.
     if identity \<noteq> Some (writeChain w, writeNumber w) then Inr found
     else
       bindE (failIf (found \<noteq> None) (err ''llm-retry: duplicate committed retry fact'')) (\<lambda>_.
       bindE (ValidateEvent (writeDraft w) e) (\<lambda>_. Inr (Some e))))"

definition retry_find :: "retry_write \<Rightarrow> snapshot \<Rightarrow> write_result option res" where
  "retry_find w snap =
     bindE (checkSnapshot snap (writeSession w)) (\<lambda>_.
     bindE (foldE (retry_step w) None (snapEvents snap)) (\<lambda>found.
     Inr (map_option (one_result (writeSession w)) found)))"

text \<open>The writes a recovery constructs: the draft carries the payload of the identity.\<close>

definition wf_retry :: "retry_write \<Rightarrow> bool" where
  "wf_retry w =
     (case writeStarted w of
        Some t \<Rightarrow>
          draftType (writeDraft w) = ''llm/retry-started'' \<and>
          (\<exists>u. DecodeRetryStarted (draftData (writeDraft w)) = Inr u \<and> startedID u = writeChain w \<and>
             startedRetry u = writeNumber w)
      | None \<Rightarrow>
          draftType (writeDraft w) = ''llm/retry'' \<and>
          (\<exists>r. DecodeRetryRecord (draftData (writeDraft w)) = Inr r \<and> chainID (factsFromRecord r) = writeChain w \<and>
             retryNumber (factsFromRecord r) = writeNumber w))"

definition retry_guard :: "retry_write \<Rightarrow> string \<Rightarrow> unit res" where
  "retry_guard w session =
     failIf (session \<noteq> writeSession w) (err ''llm-retry: complete matching Session snapshot is required'')"

lemma checkSnapshot_log:
  "log_ok l \<Longrightarrow> checkSnapshot (Snapshot l) s = failIf (headerID (logHeader l) \<noteq> s)
     (err ''llm-retry: complete matching Session snapshot is required'')"
  by (cases "headerID (logHeader l) = s") (simp_all add: checkSnapshot_def scan_log foldE_unit)

interpretation retry_fact: scanned_write wf_retry retry_build retry_find retry_guard retry_step
  None "\<lambda>s :: event option. s"
proof unfold_locales
  fix l w
  assume "log_ok l"
  then show "retry_find w (Snapshot l) =
      bindE (retry_guard w (headerID (logHeader l))) (\<lambda>_.
      bindE (foldE (retry_step w) None (entries l)) (\<lambda>s.
      Inr (map_option (one_result (headerID (logHeader l))) s)))"
    by (cases "headerID (logHeader l) = writeSession w") (simp_all add: retry_find_def retry_guard_def checkSnapshot_log)
next
  fix w e and s s' :: "event option"
  assume "retry_step w s e = Inr s'"
  then show "s' = s \<or> s' = Some e" by (auto simp: retry_step_def bindE_Inr_iff split: if_splits)
next
  fix w l ds and s :: "event option"
  assume wf: "wf_retry w" and s: "s = None" and ds: "retry_build w (Snapshot l) = Inr ds"
  have "retry_step w s e = Inr (Some e)" if v: "ValidateEvent (writeDraft w) e = Inr ()" for e
  proof -
    have "retry_identity (writeStarted w \<noteq> None) e = Inr (Some (writeChain w, writeNumber w))"
      using wf ValidateEvent_copies [OF v]
      by (auto simp: wf_retry_def retry_identity_def split: option.splits)
    with v s show ?thesis by (simp add: retry_step_def)
  qed
  with ds show "\<exists>d. ds = [d] \<and> (\<forall>e. ValidateEvent d e = Inr () \<longrightarrow> (\<exists>s'. retry_step w s e = Inr s' \<and> s' = Some e))"
    by (auto simp: retry_build_def bindE_Inr_iff)
qed simp

section \<open>What a valid history guarantees\<close>

text \<open>
  The facts of the retry events, and those of one chain.  In a valid history the retries of a
  chain are numbered from one in event order under one identifier, and none exceeds its limit.
\<close>

definition retry_events :: "event list \<Rightarrow> retry_facts list" where
  "retry_events es =
     List.map_filter (\<lambda>e. if evType e = ''llm/retry'' then
         (case DecodeRetryRecord (evData e) of Inl x \<Rightarrow> None | Inr r \<Rightarrow> Some (factsFromRecord r)) else None) es"

definition chain_retries :: "retry_chain_key \<Rightarrow> event list \<Rightarrow> retry_facts list" where
  "chain_retries k es = filter (\<lambda>f. chain_key f = k) (retry_events es)"

fun chain_ok :: "retry_facts list \<Rightarrow> retry_chain option \<Rightarrow> bool" where
  "chain_ok fs None = (fs = [])"
| "chain_ok fs (Some c) =
     (fs \<noteq> [] \<and> map retryNumber fs = map int [1 ..< Suc (length fs)] \<and> chainRetry c = int (length fs) \<and>
      (\<forall>f \<in> set fs. chainID f = chainOwner c))"

definition history_inv :: "event list \<Rightarrow> history_projection \<Rightarrow> bool" where
  "history_inv es p = (\<forall>k. chain_ok (chain_retries k es) (map_of (retryChains p) k))"

lemma retry_events_snoc:
  "retry_events (es @ [e]) = retry_events es @
     (if evType e = ''llm/retry'' then
        (case DecodeRetryRecord (evData e) of Inl x \<Rightarrow> [] | Inr r \<Rightarrow> [factsFromRecord r]) else [])"
  by (auto simp: retry_events_def map_filter_def split: sum.split)

lemma decoded_retry_valid: "DecodeRetryRecord r = Inr x \<Longrightarrow> validateRetryFacts (factsFromRecord x) = Inr ()"
  by (auto simp: DecodeRetryRecord_def bindE_Inr_iff)

lemma chain_ok_snoc:
  assumes "chain_ok fs c" "check_retry f p = Inr ()" "map_of (retryChains p) (chain_key f) = c"
  shows "chain_ok (fs @ [f]) (Some \<lparr>chainOwner = chainID f, chainRetry = retryNumber f, chainLatest = x\<rparr>)"
  using assms
  by (cases c) (auto simp: check_retry_def Let_def bindE_Inr_iff failIf_Inr)

lemma add_retry_inv:
  assumes inv: "history_inv es p" and r: "evType e = ''llm/retry''" "DecodeRetryRecord (evData e) = Inr x"
    and add: "addDecodedRetry x p = Inr q"
  shows "history_inv (es @ [e]) q"
  unfolding history_inv_def
proof
  fix k
  define f where "f = factsFromRecord x"
  have new: "chain_retries k (es @ [e]) = chain_retries k es @ (if chain_key f = k then [f] else [])"
    using r by (simp add: chain_retries_def retry_events_snoc f_def)
  from add have check: "check_retry f p = Inr ()"
    and q: "retryChains q = put (retryChains p) (chain_key f)
        \<lparr>chainOwner = chainID f, chainRetry = retryNumber f, chainLatest = x\<rparr>"
    by (auto simp: addDecodedRetry_def addRetryFacts_def bindE_Inr_iff f_def)
  have old: "chain_ok (chain_retries k es) (map_of (retryChains p) k)" using inv by (simp add: history_inv_def)
  show "chain_ok (chain_retries k (es @ [e])) (map_of (retryChains q) k)"
  proof (cases "chain_key f = k")
    case False
    with old q show ?thesis by (simp add: new)
  next
    case True
    with chain_ok_snoc [OF old check, of x] q show ?thesis by (simp add: new)
  qed
qed

lemma other_event_inv:
  assumes "history_inv es p" "evType e \<noteq> ''llm/retry''" "retryChains q = retryChains p"
  shows "history_inv (es @ [e]) q"
proof -
  have "chain_retries k (es @ [e]) = chain_retries k es" for k
    using assms(2) by (simp add: chain_retries_def retry_events_snoc)
  with assms show ?thesis by (simp add: history_inv_def)
qed

lemma advance_inv:
  assumes inv: "history_inv es p" and step: "wrapped_advance p e = Inr q"
  shows "history_inv (es @ [e]) q"
proof (cases "evType e = ''llm/retry''")
  case True
  with step obtain x where "DecodeRetryRecord (evData e) = Inr x" "addDecodedRetry x p = Inr q"
    by (auto simp: wrapped_advance_def advance_history_def RequestHeaderEventName_def wrapE_Inr_iff bindE_Inr_iff)
  with inv True show ?thesis by (blast intro: add_retry_inv)
next
  case False
  have "retryChains q = retryChains p" using step False
    by (auto simp: wrapped_advance_def advance_history_def wrapE_Inr_iff bindE_Inr_iff addStartedTransition_def Let_def
        split: if_splits option.splits prod.splits)
  with inv False show ?thesis by (blast intro: other_event_inv)
qed

lemma analyzed_inv: "analyzeHistory es = Inr p \<Longrightarrow> history_inv es p"
proof (induction es arbitrary: p rule: rev_induct)
  case Nil
  then show ?case
    by (auto simp: analyzeHistory_def newHistoryProjection_def history_inv_def chain_retries_def retry_events_def
        map_filter_simps)
next
  case (snoc e es)
  then obtain q where "analyzeHistory es = Inr q" "wrapped_advance q e = Inr p"
    by (auto simp: analyzeHistory_def foldE_append bindE_Inr_iff)
  with snoc.IH show ?case by (blast intro: advance_inv)
qed

lemma history_facts_valid:
  assumes "analyzeHistory es = Inr p" "f \<in> set (retry_events es)"
  shows "validateRetryFacts f = Inr ()"
  using assms(2)
  by (auto simp: retry_events_def map_filter_def dest: decoded_retry_valid split: if_splits sum.splits)

text \<open>The bound: a chain under a normal policy holds at most as many retries as its limit.\<close>

lemma normal_chain_bounded:
  assumes p: "analyzeHistory es = Inr p" and f: "f \<in> set (chain_retries k es)" "retryMode f = ''normal''"
  shows "1 \<le> retryNumber f \<and> retryNumber f \<le> retryLimit f \<and> retryNumber f \<le> int (length (chain_retries k es))"
proof -
  have "validateRetryFacts f = Inr ()" using history_facts_valid [OF p] f by (simp add: chain_retries_def)
  then have "retryNumber f \<le> retryLimit f" "0 < retryNumber f"
    using f(2) by (auto simp: validateRetryFacts_def bindE_Inr_iff failIf_Inr positiveSafe_def)
  moreover have "chain_ok (chain_retries k es) (map_of (retryChains p) k)"
    using analyzed_inv [OF p] by (simp add: history_inv_def)
  then have "map retryNumber (chain_retries k es) = map int [1 ..< Suc (length (chain_retries k es))]"
    by (cases "map_of (retryChains p) k") auto
  then have "retryNumber f \<in> set (map int [1 ..< Suc (length (chain_retries k es))])"
    using f(1) by (metis image_eqI set_map)
  ultimately show ?thesis by auto
qed

end
