(* ===== verification/RetryRecovery.thy ===== *)
theory RetryRecovery
  imports RetryHistory ModelRequest
begin

text \<open>
  The recovery of one failed request (\<open>src/llm/retry/recovery.go\<close>): it delegates to the rest of
  the recovery chain, or records a schedule, waits, records the start and grants the retry.

  The random sample and the identifier of a new chain are arguments.  A policy is one of the
  two of package llm, so the unsupported cases do not arise.
\<close>

section \<open>State\<close>

datatype recovery_phase =
    RecoveryUnstarted | Delegating | ReadingHistory | RecordingSchedule | RecoveryWaiting | RecordingStart
  | RecoveryCompleted

record recovery =
  recoveryPhase :: recovery_phase
  recoveryInput :: request_failure
  recoverySample :: go_float
  recoveryCandidate :: string
  pendingWrite :: "retry_write option"
  startedWrite :: "retry_write option"
  recoveryDelay :: go_float
  recoveryCancellation :: "model_error option"

datatype recovery_operation =
    ReadHistory
  | ContinueChain
  | CommitRetry retry_write
  | WaitFor go_float
  | RecoveryDone bool "model_error option"

datatype recovery_result =
    NoRecoveryResult
  | HistoryRead snapshot
  | ChainContinued bool "model_error option"
  | RetryCommitted write_result
  | Waited
  | RecoveryFailed "model_error option"

definition NewRecovery :: "request_failure \<Rightarrow> go_float \<Rightarrow> string \<Rightarrow> recovery res" where
  "NewRecovery i sample candidate =
     bindE (failIf (failedAgent i = [] \<or> failedProvider i = [] \<or> failedTurn i \<le> 0 \<or> failedStep i \<le> 0)
       (err ''llm-retry: request identity and position are required'')) (\<lambda>_.
     Inr \<lparr>recoveryPhase = RecoveryUnstarted, recoveryInput = i, recoverySample = sample,
          recoveryCandidate = candidate, pendingWrite = None, startedWrite = None, recoveryDelay = Finite 0,
          recoveryCancellation = None\<rparr>)"

section \<open>Ending and delegating\<close>

definition delegate :: "recovery \<Rightarrow> recovery \<times> recovery_operation" where
  "delegate r = (r\<lparr>recoveryPhase := Delegating\<rparr>, ContinueChain)"

definition finish_recovery :: "bool \<Rightarrow> model_error option \<Rightarrow> recovery \<Rightarrow> recovery \<times> recovery_operation" where
  "finish_recovery retry problem r =
     (let failure = join_errors [recoveryCancellation r, problem] in
      (r\<lparr>recoveryPhase := RecoveryCompleted\<rparr>, RecoveryDone (retry \<and> failure = None) failure))"

definition CancelRecovery :: "model_error option \<Rightarrow> recovery \<Rightarrow> recovery" where
  "CancelRecovery cause r =
     (if recoveryCancellation r = None \<and> recoveryPhase r \<noteq> RecoveryCompleted
      then r\<lparr>recoveryCancellation :=
               (if cause = None then Some (problem_text ''llm-retry: recovery canceled'') else cause)\<rparr>
      else r)"

section \<open>Scheduling\<close>

definition retry_base :: "request_failure \<Rightarrow> string \<Rightarrow> string \<Rightarrow> int \<Rightarrow> go_float \<Rightarrow> retry_facts" where
  "retry_base i chain identity number delay =
     \<lparr>chainID = chain, retryTurn = failedTurn i, retryStep = failedStep i, retryProvider = failedProvider i,
      retryMode = ''always'', retryKey = identity, retryNumber = number, retryLimit = 0, retryDelay = delay,
      retryFailure = failedFacts i\<rparr>"

fun scheduled_record :: "retry_policy \<Rightarrow> retry_facts \<Rightarrow> retry_record" where
  "scheduled_record (NormalRetryPolicy b n codes) f = NormalRetryRecord (f\<lparr>retryMode := ''normal'', retryLimit := n\<rparr>)"
| "scheduled_record (AlwaysRetryPolicy b) f = AlwaysRetryRecord f"

fun exhausted :: "retry_policy \<Rightarrow> int \<Rightarrow> bool" where
  "exhausted (NormalRetryPolicy b n codes) number = (number > n)"
| "exhausted (AlwaysRetryPolicy b) number = False"

definition schedule_commit ::
  "retry_record \<Rightarrow> history_projection \<Rightarrow> recovery \<Rightarrow> (recovery \<times> recovery_operation) res" where
  "schedule_commit entry history r =
     (let f = factsFromRecord entry;
          t = \<lparr>startedID = chainID f, startedTurn = retryTurn f, startedStep = retryStep f, startedRetry = retryNumber f\<rparr>;
          session = failedAgent (recoveryInput r) in
      bindE (addRetry entry history) (\<lambda>_.
      bindE (NewEventDraft ''llm/retry'' (marshal_retry entry) False) (\<lambda>draft.
      bindE (NewEventDraft ''llm/retry-started'' (marshal_started t) False) (\<lambda>start.
      let scheduled = \<lparr>writeSession = session, writeChain = chainID f, writeNumber = retryNumber f,
                       writeDraft = draft, writeScheduled = Some entry, writeStarted = None\<rparr> in
      Inr (r\<lparr>pendingWrite := Some scheduled,
             startedWrite := Some \<lparr>writeSession = session, writeChain = chainID f, writeNumber = retryNumber f,
                                   writeDraft = start, writeScheduled = None, writeStarted = Some t\<rparr>,
             recoveryDelay := retryDelay f, recoveryPhase := RecordingSchedule\<rparr>, CommitRetry scheduled)))))"

definition schedule_retry :: "retry_policy \<Rightarrow> snapshot \<Rightarrow> recovery \<Rightarrow> (recovery \<times> recovery_operation) res" where
  "schedule_retry policy snap r =
     (let i = recoveryInput r in
      bindE (checkSnapshot snap (failedAgent i)) (\<lambda>_.
      bindE (analyzeHistory (snapEvents snap)) (\<lambda>history.
      bindE (policyKey policy) (\<lambda>identity.
      let prior = priorRetry \<lparr>keyTurn = failedTurn i, keyStep = failedStep i, keyProvider = failedProvider i,
                              keyPolicy = identity\<rparr> history;
          number = (case prior of None \<Rightarrow> 1 | Some x \<Rightarrow> retryNumber (factsFromRecord x) + 1);
          chain = (case prior of None \<Rightarrow> recoveryCandidate r | Some x \<Rightarrow> chainID (factsFromRecord x)) in
      if exhausted policy number then Inr (delegate r)
      else
        bindE (failIf (chain = []) (err ''llm-retry: new chain identity is required'')) (\<lambda>_.
        bindE (selectDelay (failedFacts i) policy number (recoverySample r)) (\<lambda>(delay, delegated).
        if delegated then Inr (delegate r)
        else schedule_commit (scheduled_record policy (retry_base i chain identity number delay)) history r))))))"

section \<open>Steps\<close>

definition StartRecovery :: "recovery \<Rightarrow> (recovery \<times> recovery_operation) res" where
  "StartRecovery r =
     bindE (failIf (recoveryPhase r \<noteq> RecoveryUnstarted) (err ''llm-retry: recovery already started'')) (\<lambda>_.
     Inr (case failedPolicy (recoveryInput r) of
            Some (NormalRetryPolicy b n codes) \<Rightarrow>
              if retryable codes (failCode (failedFacts (recoveryInput r)))
              then (r\<lparr>recoveryPhase := ReadingHistory\<rparr>, ReadHistory)
              else delegate r
          | _ \<Rightarrow> delegate r))"

fun always_policy :: "retry_policy option \<Rightarrow> bool" where
  "always_policy (Some (AlwaysRetryPolicy b)) = True"
| "always_policy p = False"

definition chain_continued :: "bool \<Rightarrow> model_error option \<Rightarrow> recovery \<Rightarrow> recovery \<times> recovery_operation" where
  "chain_continued retry problem r =
     (if recoveryCancellation r \<noteq> None then finish_recovery False None r
      else if \<not> always_policy (failedPolicy (recoveryInput r)) \<or> problem = None \<and> retry
      then finish_recovery retry problem r
      else (r\<lparr>recoveryPhase := ReadingHistory\<rparr>, ReadHistory))"

definition history_read :: "snapshot \<Rightarrow> recovery \<Rightarrow> recovery \<times> recovery_operation" where
  "history_read snap r =
     (if recoveryCancellation r \<noteq> None then finish_recovery False None r
      else case failedPolicy (recoveryInput r) of
        None \<Rightarrow> finish_recovery False (Some (problem_text ''llm-retry: unsupported retry policy'')) r
      | Some policy \<Rightarrow>
          (case schedule_retry policy snap r of
             Inl e \<Rightarrow> finish_recovery False (Some (Failure e)) r
           | Inr next_step \<Rightarrow> next_step))"

definition retry_committed :: "write_result \<Rightarrow> recovery \<Rightarrow> recovery \<times> recovery_operation" where
  "retry_committed write r =
     (if barrierSession (resultBarrier write) \<noteq> failedAgent (recoveryInput r) \<or> length (resultEvents write) \<noteq> 1 \<or>
         nextSeq write \<noteq> firstSeq write + 1 \<or> barrierNext (resultBarrier write) \<noteq> nextSeq write \<or>
         evSeq (hd (resultEvents write)) \<noteq> firstSeq write
      then finish_recovery False (Some (problem_text ''llm-retry: invalid commit acknowledgement'')) r
      else case pendingWrite r of
        None \<Rightarrow> finish_recovery False (Some (problem_text ''llm-retry: invalid commit acknowledgement'')) r
      | Some w \<Rightarrow>
          (case ValidateEvent (writeDraft w) (hd (resultEvents write)) of
             Inl e \<Rightarrow> finish_recovery False (Some (Failure e)) r
           | Inr _ \<Rightarrow>
               if recoveryCancellation r \<noteq> None then finish_recovery False None r
               else if recoveryPhase r = RecordingStart then finish_recovery True None r
               else (r\<lparr>recoveryPhase := RecoveryWaiting\<rparr>, WaitFor (recoveryDelay r))))"

definition wait_elapsed :: "recovery \<Rightarrow> recovery \<times> recovery_operation" where
  "wait_elapsed r =
     (if recoveryCancellation r \<noteq> None then finish_recovery False None r
      else case startedWrite r of
        None \<Rightarrow> finish_recovery False (Some (problem_text ''llm-retry: unsupported recovery phase'')) r
      | Some w \<Rightarrow> (r\<lparr>pendingWrite := Some w, recoveryPhase := RecordingStart\<rparr>, CommitRetry w))"

definition AdvanceRecovery :: "recovery_result \<Rightarrow> recovery \<Rightarrow> (recovery \<times> recovery_operation) res" where
  "AdvanceRecovery result r =
     bindE (failIf (recoveryPhase r = RecoveryUnstarted \<or> recoveryPhase r = RecoveryCompleted)
       (err ''llm-retry: no effect is pending'')) (\<lambda>_.
     case result of
       RecoveryFailed problem \<Rightarrow>
         bindE (failIf (problem = None) (err ''llm-retry: failed effect requires an error'')) (\<lambda>_.
         Inr (finish_recovery False problem r))
     | _ \<Rightarrow>
         if recoveryPhase r = Delegating then
           (case result of
              ChainContinued retry problem \<Rightarrow> Inr (chain_continued retry problem r)
            | _ \<Rightarrow> Inl (err ''llm-retry: expected downstream recovery result''))
         else if recoveryPhase r = ReadingHistory then
           (case result of
              HistoryRead snap \<Rightarrow> Inr (history_read snap r)
            | _ \<Rightarrow> Inl (err ''llm-retry: expected history''))
         else if recoveryPhase r = RecoveryWaiting then
           (case result of
              Waited \<Rightarrow> Inr (wait_elapsed r)
            | _ \<Rightarrow> Inl (err ''llm-retry: expected elapsed wait''))
         else
           (case result of
              RetryCommitted write \<Rightarrow> Inr (retry_committed write r)
            | _ \<Rightarrow> Inl (err ''llm-retry: expected commit acknowledgement'')))"

end
