(* ===== verification/RetryLaws.thy ===== *)
theory RetryLaws
  imports RetryRecovery ModelRequestLaws
begin

text \<open>
  What recovery guarantees: a delay never exceeds the policy's maximum, and a retry is granted
  only by the rest of the chain or after both durable facts of the retry were acknowledged.
\<close>

section \<open>Delays\<close>

lemma times_nonneg:
  assumes "0 \<le> p" "0 \<le> q" "p * q \<le> 2 ^ 1000"
  shows "\<exists>r. float_times (Finite p) (Finite q) = Finite r \<and> 0 \<le> r \<and> r \<le> 2 * (p * q) + 1"
  using float64_finite [of "p * q"] assms by simp

lemma plus_nonneg:
  assumes "0 \<le> p + q" "p + q \<le> 2 ^ 1000"
  shows "\<exists>r. float_plus (Finite p) (Finite q) = Finite r \<and> 0 \<le> r \<and> r \<le> 2 * (p + q) + 1"
  using float64_finite [of "p + q"] assms by (simp add: distrib_left)

lemma jitter_nonneg:
  assumes "0 \<le> r" "r \<le> 1" "0 \<le> s" "s \<le> 1"
  shows "\<exists>j. float_plus (float_plus (Finite 1) (Finite (- r))) (float_times (float_times (Finite 2) (Finite r)) (Finite s)) =
    Finite j \<and> 0 \<le> j \<and> j \<le> 29"
proof -
  obtain a where a: "float_plus (Finite 1) (Finite (- r)) = Finite a" "0 \<le> a" "a \<le> 3"
    using plus_nonneg [of 1 "- r"] assms by fastforce
  obtain b where b: "float_times (Finite 2) (Finite r) = Finite b" "0 \<le> b" "b \<le> 5"
    using times_nonneg [of 2 r] assms by fastforce
  have "b * s \<le> 5 * 1" using b assms by (intro mult_mono) auto
  then obtain c where c: "float_times (Finite b) (Finite s) = Finite c" "0 \<le> c" "c \<le> 11"
    using times_nonneg [of b s] b assms by fastforce
  obtain d where "float_plus (Finite a) (Finite c) = Finite d" "0 \<le> d" "d \<le> 29"
    using plus_nonneg [of a c] a c by fastforce
  then show ?thesis unfolding a(1) b(1) c(1) by blast
qed

lemma min_finite:
  assumes "x = PosInf \<or> (\<exists>r \<ge> 0. x = Finite r)" "0 \<le> m"
  shows "\<exists>q. float_min x (Finite m) = Finite q \<and> 0 \<le> q \<and> q \<le> m"
  using assms by (auto simp: float_min_def)

lemma local_delay_bounded:
  assumes "backoff_ok (RetryBackoff p)" "localDelay p n s = Inr d"
  shows "\<exists>q m. d = Finite q \<and> MaxDelayMS (RetryBackoff p) = Finite m \<and> 0 \<le> q \<and> q \<le> m"
proof -
  obtain i m r where b: "InitialDelayMS (RetryBackoff p) = Finite i" "MaxDelayMS (RetryBackoff p) = Finite m"
    "JitterRatio (RetryBackoff p) = Finite r" "0 < i" "i \<le> m" "m \<le> of_int MaxTimerDelayMS" "0 \<le> r" "r \<le> 1"
    using assms(1) by (auto simp: backoff_ok_iff)
  have sample: "finite_float s \<and> \<not> float_less s (Finite 0) \<and> \<not> float_less (Finite 1) s"
    using assms(2) unfolding localDelay_def bindE_Inr_iff failIf_Inr by blast
  then obtain t where s: "s = Finite t" by (cases s) simp_all
  with sample have t: "0 \<le> t" "t \<le> 1" by (simp_all add: not_less)
  obtain j where j: "float_plus (float_plus (Finite 1) (Finite (- r))) (float_times (float_times (Finite 2) (Finite r)) (Finite t)) = Finite j"
    "0 \<le> j" "j \<le> 29" using jitter_nonneg b t by blast
  define k where "k = min (n - 1) 1024"
  define e where "e = float_times (Finite i) (two_to k)"
  have e_cases: "e = PosInf \<or> (\<exists>r \<ge> 0. e = Finite r)"
  proof (cases "k \<le> 1023")
    case True
    have "e = float64 (i * 2 ^ nat k)" using True unfolding e_def two_to_def by simp
    moreover have "0 \<le> i * 2 ^ nat k" using b by simp
    ultimately show ?thesis using float64_nonneg by simp
  next
    case False
    then have "e = float_times (Finite i) PosInf" unfolding e_def two_to_def by simp
    with b show ?thesis by simp
  qed
  have "0 \<le> m" using b by linarith
  with min_finite [OF e_cases] obtain q where q: "float_min e (Finite m) = Finite q" "0 \<le> q" "q \<le> m" by blast
  have "q * j \<le> of_int MaxTimerDelayMS * 29" using q b j by (intro mult_mono) auto
  also have "\<dots> \<le> (2 ^ 1000 :: rat)" by (simp add: MaxTimerDelayMS_def)
  finally obtain x where x: "float_times (Finite q) (Finite j) = Finite x" "0 \<le> x"
    using times_nonneg [of q j] q j by auto
  obtain y where y: "float_min (Finite x) (Finite m) = Finite y" "0 \<le> y" "y \<le> m"
    using min_finite [of "Finite x" m] x b by auto
  have "d = float_min (float_times (float_min e (Finite m)) (Finite j)) (Finite m)"
    using assms(2) b s t j by (simp add: localDelay_def bindE_Inr_iff failIf_Inr Let_def e_def k_def)
  then have "d = Finite y" unfolding q(1) x(1) y(1) .
  with y b show ?thesis by blast
qed

lemma select_delay_bounded:
  assumes "backoff_ok (RetryBackoff p)" "selectDelay f p n s = Inr (d, False)"
  shows "\<exists>q m. d = Finite q \<and> MaxDelayMS (RetryBackoff p) = Finite m \<and> 0 \<le> q \<and> q \<le> m"
proof (cases "bindE (localDelay p n s) (\<lambda>d. Inr (d, False)) = Inr (d, False)")
  case True
  then have "localDelay p n s = Inr d" by (auto simp: bindE_Inr_iff)
  with assms(1) show ?thesis by (rule local_delay_bounded)
next
  case False
  obtain m where m: "MaxDelayMS (RetryBackoff p) = Finite m" using assms(1) by (auto simp: backoff_ok_iff)
  from False assms(2) obtain x where x: "failRetryAfter f = Some x" "d = float_value x" "finitePositive d"
    "\<not> float_less (Finite m) d"
    unfolding selectDelay_def m Let_def
    by (auto simp: m split: option.splits if_splits retry_policy.splits)
  from x(3) obtain q where "d = Finite q" "0 < q" by (cases d) (auto simp: finitePositive_def)
  with m x(4) show ?thesis by auto
qed

section \<open>Runs\<close>

text \<open>
  A run of a recovery, with the trace of what it was told so far: the retry events acknowledged and
  the waits that elapsed, each with the time that the recovery had asked to wait for.
\<close>

datatype retry_step = Acknowledged event | Elapsed go_float

fun retry_trace :: "recovery_operation \<Rightarrow> recovery_result \<Rightarrow> retry_step list" where
  "retry_trace p (RetryCommitted w) = map Acknowledged (resultEvents w)"
| "retry_trace (WaitFor d) Waited = [Elapsed d]"
| "retry_trace p x = []"

inductive recovery_run :: "recovery \<times> recovery_operation \<Rightarrow> retry_step list \<Rightarrow> bool" where
  started: "NewRecovery i sample candidate = Inr r \<Longrightarrow> StartRecovery r = Inr s \<Longrightarrow> recovery_run s []"
| cancelled: "recovery_run (r, p) ts \<Longrightarrow> recovery_run (CancelRecovery cause r, p) ts"
| advanced: "recovery_run s ts \<Longrightarrow> AdvanceRecovery x (fst s) = Inr t \<Longrightarrow> recovery_run t (ts @ retry_trace (snd s) x)"

text \<open>The two facts of one retry.\<close>

definition schedule_event :: "string \<Rightarrow> int \<Rightarrow> go_float \<Rightarrow> event \<Rightarrow> bool" where
  "schedule_event chain n delay e =
     (evType e = ''llm/retry'' \<and>
      (\<exists>x. marshal_retry x = (case evData e of Doc j \<Rightarrow> Inr j | _ \<Rightarrow> Inl type_error) \<and>
         chainID (factsFromRecord x) = chain \<and> retryNumber (factsFromRecord x) = n \<and>
         retryDelay (factsFromRecord x) = delay))"

definition start_event :: "string \<Rightarrow> int \<Rightarrow> event \<Rightarrow> bool" where
  "start_event chain n e =
     (evType e = ''llm/retry-started'' \<and>
      (\<exists>t. marshal_started t = (case evData e of Doc j \<Rightarrow> Inr j | _ \<Rightarrow> Inl type_error) \<and>
         startedID t = chain \<and> startedRetry t = n))"

definition schedule_draft :: "go_float \<Rightarrow> retry_write \<Rightarrow> bool" where
  "schedule_draft delay w =
     (\<exists>x. NewEventDraft ''llm/retry'' (marshal_retry x) False = Inr (writeDraft w) \<and>
        chainID (factsFromRecord x) = writeChain w \<and> retryNumber (factsFromRecord x) = writeNumber w \<and>
        retryDelay (factsFromRecord x) = delay)"

definition started_draft :: "retry_write \<Rightarrow> bool" where
  "started_draft w =
     (\<exists>t. NewEventDraft ''llm/retry-started'' (marshal_started t) False = Inr (writeDraft w) \<and>
        startedID t = writeChain w \<and> startedRetry t = writeNumber w)"

lemma draft_data:
  "NewEventDraft name m ign = Inr d \<Longrightarrow> ValidateEvent d e = Inr () \<Longrightarrow>
     evType e = name \<and> m = (case evData e of Doc j \<Rightarrow> Inr j | _ \<Rightarrow> Inl type_error)"
  by (auto simp: NewEventDraft_def snapshotPayload_def bindE_Inr_iff wrapE_Inr_iff dest!: ValidateEvent_copies)

definition recovery_inv :: "recovery \<times> recovery_operation \<Rightarrow> retry_step list \<Rightarrow> bool" where
  "recovery_inv s ts =
     (let r = fst s in
      case recoveryPhase r of
        RecoveryUnstarted \<Rightarrow> False
      | RecordingSchedule \<Rightarrow> ts = [] \<and>
          (\<exists>w v. pendingWrite r = Some w \<and> startedWrite r = Some v \<and> schedule_draft (recoveryDelay r) w \<and>
             started_draft v \<and> writeChain v = writeChain w \<and> writeNumber v = writeNumber w)
      | RecoveryWaiting \<Rightarrow> snd s = WaitFor (recoveryDelay r) \<and>
          (\<exists>v e. startedWrite r = Some v \<and> started_draft v \<and> ts = [Acknowledged e] \<and>
             schedule_event (writeChain v) (writeNumber v) (recoveryDelay r) e)
      | RecordingStart \<Rightarrow>
          (\<exists>v e. pendingWrite r = Some v \<and> started_draft v \<and> ts = [Acknowledged e, Elapsed (recoveryDelay r)] \<and>
             schedule_event (writeChain v) (writeNumber v) (recoveryDelay r) e)
      | RecoveryCompleted \<Rightarrow> True
      | _ \<Rightarrow> ts = [])"

definition granted :: "retry_step list \<Rightarrow> recovery_result \<Rightarrow> bool" where
  "granted ts x =
     (x = ChainContinued True None \<or>
      (\<exists>chain n delay e1 e2. ts = [Acknowledged e1, Elapsed delay, Acknowledged e2] \<and>
         schedule_event chain n delay e1 \<and> start_event chain n e2))"

lemma finish_recovery_simps [simp]:
  "recoveryPhase (fst (finish_recovery b p r)) = RecoveryCompleted"
  "snd (finish_recovery b p r) = RecoveryDone retry f \<Longrightarrow>
     f = join_errors [recoveryCancellation r, p] \<and> retry = (b \<and> f = None)"
  by (auto simp: finish_recovery_def Let_def)

lemma schedule_commit_inv:
  assumes "schedule_commit x h r = Inr t"
  shows "recovery_inv t [] \<and> (\<forall>b f. snd t \<noteq> RecoveryDone b f)"
proof -
  define f where "f = factsFromRecord x"
  define u where "u = \<lparr>startedID = chainID f, startedTurn = retryTurn f, startedStep = retryStep f, startedRetry = retryNumber f\<rparr>"
  from assms obtain d1 d2 where d: "NewEventDraft ''llm/retry'' (marshal_retry x) False = Inr d1"
    "NewEventDraft ''llm/retry-started'' (marshal_started u) False = Inr d2"
    by (auto simp: schedule_commit_def Let_def bindE_Inr_iff f_def u_def)
  define w where "w = \<lparr>writeSession = failedAgent (recoveryInput r), writeChain = chainID f, writeNumber = retryNumber f,
      writeDraft = d1, writeScheduled = Some x, writeStarted = None\<rparr>"
  define v where "v = \<lparr>writeSession = failedAgent (recoveryInput r), writeChain = chainID f, writeNumber = retryNumber f,
      writeDraft = d2, writeScheduled = None, writeStarted = Some u\<rparr>"
  have t: "t = (r\<lparr>pendingWrite := Some w, startedWrite := Some v, recoveryDelay := retryDelay f,
      recoveryPhase := RecordingSchedule\<rparr>, CommitRetry w)"
    using assms d unfolding schedule_commit_def Let_def
    by (auto simp: bindE_Inr_iff f_def u_def w_def v_def)
  have "schedule_draft (retryDelay f) w" using d(1) by (auto simp: schedule_draft_def w_def f_def)
  moreover have "started_draft v" using d(2) by (auto simp: started_draft_def v_def u_def intro!: exI [of _ u])
  ultimately show ?thesis by (simp add: t recovery_inv_def) (simp add: w_def v_def)
qed

lemma schedule_retry_inv:
  assumes "schedule_retry policy snap r = Inr t"
  shows "recovery_inv t [] \<and> (\<forall>b f. snd t \<noteq> RecoveryDone b f)"
proof -
  from assms have "t = delegate r \<or> (\<exists>x h. schedule_commit x h r = Inr t)"
    unfolding schedule_retry_def Let_def bindE_Inr_iff by (auto simp: bindE_Inr_iff split: if_splits)
  then show ?thesis
  proof
    assume "t = delegate r"
    then show ?thesis by (simp add: delegate_def recovery_inv_def)
  qed (blast dest: schedule_commit_inv)
qed

text \<open>Every step keeps the invariant, and a granted retry has its two facts with the wait between.\<close>

definition recovery_step_ok ::
  "retry_step list \<Rightarrow> recovery_result \<Rightarrow> recovery_operation \<Rightarrow> recovery \<times> recovery_operation \<Rightarrow> bool" where
  "recovery_step_ok ts x p t =
     (recovery_inv t (ts @ retry_trace p x) \<and>
      (\<forall>f. snd t = RecoveryDone True f \<longrightarrow> f = None \<and> granted (ts @ retry_trace p x) x))"

lemma finish_step_ok:
  "(b \<Longrightarrow> granted (ts @ retry_trace p x) x) \<Longrightarrow> recovery_step_ok ts x p (finish_recovery b q r)"
  by (auto simp: recovery_step_ok_def recovery_inv_def finish_recovery_def Let_def)

lemma chain_continued_ok:
  "recovery_inv (r, p) ts \<Longrightarrow> recoveryPhase r = Delegating \<Longrightarrow>
   recovery_step_ok ts (ChainContinued b q) p (chain_continued b q r)"
  unfolding chain_continued_def
  by (auto intro!: finish_step_ok simp: recovery_step_ok_def recovery_inv_def finish_recovery_def Let_def granted_def
      join_none_iff split: if_splits)

lemma history_read_ok:
  assumes "recovery_inv (r, p) ts" "recoveryPhase r = ReadingHistory"
  shows "recovery_step_ok ts (HistoryRead snap) p (history_read snap r)"
proof -
  have ts: "ts = []" using assms by (simp add: recovery_inv_def)
  show ?thesis
  proof (cases "recoveryCancellation r = None \<and> failedPolicy (recoveryInput r) \<noteq> None")
    case False
    then show ?thesis by (auto simp: history_read_def intro!: finish_step_ok split: option.split)
  next
    case True
    then obtain policy where "failedPolicy (recoveryInput r) = Some policy" "recoveryCancellation r = None" by auto
    then show ?thesis using schedule_retry_inv [of policy snap r] ts
      by (cases "schedule_retry policy snap r")
        (auto simp: history_read_def recovery_step_ok_def [of "[]" _ _ "(_, _)"] intro!: finish_step_ok)
  qed
qed

lemma wait_elapsed_ok:
  assumes "recovery_inv (r, p) ts" "recoveryPhase r = RecoveryWaiting"
  shows "recovery_step_ok ts Waited p (wait_elapsed r)"
proof (cases "recoveryCancellation r = None")
  case True
  with assms show ?thesis by (auto simp: wait_elapsed_def recovery_step_ok_def recovery_inv_def)
next
  case False
  then show ?thesis by (simp add: wait_elapsed_def finish_step_ok)
qed

lemma retry_committed_ok:
  assumes inv: "recovery_inv (r, p) ts" and phase: "recoveryPhase r \<in> {RecordingSchedule, RecordingStart}"
  shows "recovery_step_ok ts (RetryCommitted write) p (retry_committed write r)"
proof -
  obtain w where w: "pendingWrite r = Some w" using inv phase by (auto simp: recovery_inv_def)
  show ?thesis
  proof (cases "length (resultEvents write) = 1 \<and> ValidateEvent (writeDraft w) (hd (resultEvents write)) = Inr ()")
    case False
    then show ?thesis using w by (auto simp: retry_committed_def intro!: finish_step_ok split: sum.split)
  next
    case True
    then obtain e where e: "resultEvents write = [e]" "ValidateEvent (writeDraft w) e = Inr ()"
      by (cases "resultEvents write") auto
    from phase show ?thesis
    proof
      assume ph: "recoveryPhase r = RecordingSchedule"
      with inv w obtain v where v: "ts = []" "startedWrite r = Some v" "schedule_draft (recoveryDelay r) w" "started_draft v"
        "writeChain v = writeChain w" "writeNumber v = writeNumber w" by (auto simp: recovery_inv_def)
      have "schedule_event (writeChain w) (writeNumber w) (recoveryDelay r) e"
        using v(3) e(2) unfolding schedule_draft_def schedule_event_def by (blast dest: draft_data)
      then have "recovery_step_ok ts (RetryCommitted write) p (r\<lparr>recoveryPhase := RecoveryWaiting\<rparr>, WaitFor (recoveryDelay r))"
        using v e by (simp add: recovery_step_ok_def recovery_inv_def)
      then show ?thesis using w e ph by (simp add: retry_committed_def finish_step_ok)
    next
      assume "recoveryPhase r \<in> {RecordingStart}"
      then have ph: "recoveryPhase r = RecordingStart" by simp
      with inv w obtain e1 where v: "ts = [Acknowledged e1, Elapsed (recoveryDelay r)]" "started_draft w"
        "schedule_event (writeChain w) (writeNumber w) (recoveryDelay r) e1"
        by (auto simp: recovery_inv_def)
      have "start_event (writeChain w) (writeNumber w) e"
        using v(2) e(2) unfolding started_draft_def start_event_def by (blast dest: draft_data)
      then have "granted (ts @ retry_trace p (RetryCommitted write)) (RetryCommitted write)"
        using v e by (auto simp: granted_def)
      then show ?thesis using w e ph by (simp add: retry_committed_def finish_step_ok)
    qed
  qed
qed

lemma advance_recovery_ok:
  assumes inv: "recovery_inv s ts" and t: "AdvanceRecovery x (fst s) = Inr t"
  shows "recovery_step_ok ts x (snd s) t"
proof -
  obtain r p where s: "s = (r, p)" by (cases s)
  show ?thesis
  proof (cases "\<exists>q. x = RecoveryFailed q")
    case True
    with t show ?thesis by (auto simp: AdvanceRecovery_def bindE_Inr_iff intro!: finish_step_ok)
  next
    case False
    with t inv show ?thesis unfolding s
      by (cases "recoveryPhase r"; cases x)
        (auto simp: AdvanceRecovery_def bindE_Inr_iff failIf_Inr intro!: chain_continued_ok history_read_ok
          wait_elapsed_ok retry_committed_ok)
  qed
qed

lemma start_recovery_inv: "StartRecovery r = Inr s \<Longrightarrow> recovery_inv s [] \<and> (\<forall>b f. snd s \<noteq> RecoveryDone b f)"
  by (auto simp: StartRecovery_def bindE_Inr_iff delegate_def recovery_inv_def
      split: option.splits retry_policy.splits if_splits)

lemma cancel_inv: "recovery_inv (r, p) ts \<Longrightarrow> recovery_inv (CancelRecovery cause r, p) ts"
  by (auto simp: CancelRecovery_def recovery_inv_def split: recovery_phase.splits)

lemma recovery_run_inv: "recovery_run s ts \<Longrightarrow> recovery_inv s ts"
proof (induction rule: recovery_run.induct)
  case (started i sample candidate r s)
  then show ?case by (blast dest: start_recovery_inv)
next
  case (cancelled r p ts cause)
  then show ?case by (simp add: cancel_inv)
next
  case (advanced s ts x t)
  then show ?case by (auto dest: advance_recovery_ok simp: recovery_step_ok_def)
qed

end
