(* ===== verification/RetryTheorems.thy ===== *)
theory RetryTheorems
  imports RetryLaws
begin

text \<open>
  The properties of retries: how a chain counts, how long a retry waits and when one is granted;
  each with an instance on a small log and policy.
\<close>

section \<open>A small log\<close>

definition retry_entry :: "int \<Rightarrow> string \<Rightarrow> json \<Rightarrow> event" where
  "retry_entry n name j =
     \<lparr>evType = name, evSeq = n, evTime = 0, evData = Doc j, evSources = None, evSurfaceOp = None, evIgnorable = False\<rparr>"

definition small_retry :: json where
  "small_retry =
     JObj [(''retryId'', JStr ''c''), (''turn'', jint 1), (''step'', jint 1), (''provider'', JStr ''p''),
       (''mode'', JStr ''normal''), (''policyKey'', JStr ''k''), (''retry'', jint 1), (''maxRetries'', jint 2),
       (''delayMs'', jint 0), (''failure'', JObj [(''message'', JStr ''busy''), (''code'', JStr ''RATE_LIMIT'')])]"

definition small_retry_log :: "event list" where
  "small_retry_log =
     [retry_entry 0 ''turn/start'' (JObj [(''turn'', jint 1)]),
      retry_entry 1 ''step/start'' (JObj [(''turn'', jint 1), (''step'', jint 1)]),
      retry_entry 2 ''request/header'' (JObj [(''header'', JObj [(''config'', JObj [(''provider'', JStr ''p'')])])]),
      retry_entry 3 ''llm/retry'' small_retry]"

definition small_chain :: retry_chain_key where
  "small_chain = \<lparr>keyTurn = 1, keyStep = 1, keyProvider = ''p'', keyPolicy = ''k''\<rparr>"

definition small_backoff :: backoff_config where
  "small_backoff = \<lparr>initialDelayMs = Some (Finite 4), maxDelayMs = Some (Finite 8), jitterRatio = Some (Finite 0)\<rparr>"

definition small_policy :: retry_policy where
  "small_policy = AlwaysRetryPolicy \<lparr>InitialDelayMS = Finite 4, MaxDelayMS = Finite 8, JitterRatio = Finite 0\<rparr>"

definition small_problem :: llm_failure where
  "small_problem = \<lparr>failMessage = ''busy'', failCode = ''RATE_LIMIT'', failStatus = None, failRetryAfter = None, failRequest = []\<rparr>"

section \<open>Properties\<close>

text \<open>
  C30: A chain of retries counts from one and stops at its limit.  In every log that retry
  validation accepts, the retries scheduled for one turn, step, provider and policy are numbered
  from one without gaps under one identity, and under a normal policy none exceeds the limit it
  records.
\<close>

theorem retry_chain_respects_limit:
  assumes "analyzeHistory es = Inr p"
  shows "map retryNumber (chain_retries k es) = map int [1 ..< Suc (length (chain_retries k es))] \<and>
    (\<forall>f \<in> set (chain_retries k es). \<forall>g \<in> set (chain_retries k es). chainID f = chainID g) \<and>
    (\<forall>f \<in> set (chain_retries k es). retryMode f = ''normal'' \<longrightarrow>
       1 \<le> retryNumber f \<and> retryNumber f \<le> retryLimit f)"
proof -
  have "chain_ok (chain_retries k es) (map_of (retryChains p) k)"
    using analyzed_inv [OF assms] by (simp add: history_inv_def)
  then have "map retryNumber (chain_retries k es) = map int [1 ..< Suc (length (chain_retries k es))] \<and>
      (\<forall>f \<in> set (chain_retries k es). \<forall>g \<in> set (chain_retries k es). chainID f = chainID g)"
    by (cases "map_of (retryChains p) k") auto
  then show ?thesis using normal_chain_bounded [OF assms] by blast
qed

theorem retry_chain_respects_limit_witness:
  "map retryNumber (chain_retries small_chain small_retry_log) = [1] \<and>
   list_all (\<lambda>f. retryNumber f \<le> retryLimit f) (chain_retries small_chain small_retry_log)"
proof -
  have "isOk (analyzeHistory small_retry_log)" by code_simp
  then obtain p where p: "analyzeHistory small_retry_log = Inr p" by (auto simp: isOk_iff)
  have "length (chain_retries small_chain small_retry_log) = 1"
    "list_all (\<lambda>f. retryMode f = ''normal'') (chain_retries small_chain small_retry_log)" by code_simp+
  with retry_chain_respects_limit [OF p, of small_chain] show ?thesis by (auto simp: list_all_iff)
qed

text \<open>
  C31: The delay of a retry is within its policy.  For a policy that was resolved from a
  configuration, a failure and a random sample, a delay that is selected is a finite number from
  zero to the configured maximum, which is itself within what a timer can wait: neither the
  doubling of the delay nor its jitter nor the wish of the provider exceeds it.
\<close>

theorem retry_delay_is_within_policy:
  assumes "ResolveRetryPolicy settings path = Inr p" "selectDelay f p n sample = Inr (d, False)"
  shows "\<exists>q m. d = Finite q \<and> MaxDelayMS (RetryBackoff p) = Finite m \<and> 0 \<le> q \<and> q \<le> m \<and> m \<le> of_int MaxTimerDelayMS"
proof -
  have ok: "backoff_ok (RetryBackoff p)" using resolved_policy_ok [OF assms(1)] by (cases p) simp_all
  from select_delay_bounded [OF ok assms(2)] ok show ?thesis by (auto simp: backoff_ok_iff)
qed

theorem retry_delay_is_within_policy_witness:
  "\<exists>q m. selectDelay small_problem small_policy 3 (Finite 0) = Inr (Finite q, False) \<and>
     MaxDelayMS (RetryBackoff small_policy) = Finite m \<and> q \<le> m"
proof -
  have p: "ResolveRetryPolicy (Some \<lparr>configuredMode = ''always'', configuredRetries = None, configuredCodes = None,
      configuredBackoff = Some small_backoff\<rparr>) ''p'' = Inr small_policy"
    by (simp add: ResolveRetryPolicy_def resolveRetryBackoff_def small_backoff_def small_policy_def finitePositive_def
        MaxTimerDelayMS_def Let_def)
  have "\<exists>d. selectDelay small_problem small_policy 3 (Finite 0) = Inr (d, False)"
    by (simp add: selectDelay_def small_problem_def small_policy_def localDelay_def two_to_def float64_def round_positive_def
        magnitude_def floor_log.simps scale_def round_even_def Let_def float_min_def)
  with retry_delay_is_within_policy [OF p] show ?thesis by fastforce
qed

text \<open>
  C19: A granted retry is recorded, and waited for.  Whatever results and cancellations a recovery
  was given, it decides for another attempt only without an error, and only when the rest of the chain
  granted it, or when it was told exactly three things: the fact that schedules a retry with its delay
  was acknowledged, then the wait it had asked for, of this delay, elapsed, and then the fact that starts
  the same retry was acknowledged.
\<close>

theorem granted_retry_is_recorded:
  assumes "recovery_run s ts" "AdvanceRecovery x (fst s) = Inr (r, RecoveryDone True f)"
  shows "f = None \<and>
    (x = ChainContinued True None \<or>
     (\<exists>chain n delay e1 e2. ts @ retry_trace (snd s) x = [Acknowledged e1, Elapsed delay, Acknowledged e2] \<and>
        schedule_event chain n delay e1 \<and> start_event chain n e2))"
  using advance_recovery_ok [OF recovery_run_inv [OF assms(1)] assms(2)] by (simp add: recovery_step_ok_def granted_def)

theorem granted_retry_is_recorded_witness:
  "\<exists>s r f. recovery_run s [] \<and> AdvanceRecovery (ChainContinued True None) (fst s) = Inr (r, RecoveryDone True f) \<and> f = None"
proof -
  let ?i = "\<lparr>failedAgent = ''s'', failedTurn = 1, failedStep = 1, failedProvider = ''p'', failedFacts = small_problem,
      failedPolicy = None\<rparr>"
  obtain r0 where r0: "NewRecovery ?i (Finite 0) ''c'' = Inr r0" "recoveryPhase r0 = RecoveryUnstarted"
    "recoveryInput r0 = ?i" "recoveryCancellation r0 = None" by (simp add: NewRecovery_def)
  have start: "StartRecovery r0 = Inr (delegate r0)" using r0 by (simp add: StartRecovery_def)
  then have run: "recovery_run (delegate r0) []" using recovery_run.started [OF r0(1)] by blast
  have "AdvanceRecovery (ChainContinued True None) (fst (delegate r0)) =
      Inr (finish_recovery True None (fst (delegate r0)))"
    using r0 by (simp add: AdvanceRecovery_def delegate_def chain_continued_def)
  then obtain r f where r: "AdvanceRecovery (ChainContinued True None) (fst (delegate r0)) = Inr (r, RecoveryDone True f)"
    using r0 by (auto simp: finish_recovery_def Let_def delegate_def join_errors_def List.map_filter_simps)
  with granted_retry_is_recorded [OF run r] run show ?thesis by blast
qed

end
