(* ===== verification/ToolContract.thy ===== *)
theory ToolContract
  imports MessageCodec Payloads GoFormat
begin

text \<open>
  The contract of a tool (\<open>src/tools\<close>): its errors (\<open>errors.go\<close>), its results with their
  validation (\<open>result_types.go\<close>, \<open>result.go\<close>, \<open>execution/result.go\<close>), the input of a call
  (\<open>execution.go\<close>, \<open>invocation.go\<close>), and the descriptor with its compiled schemas (\<open>definition.go\<close>,
  \<open>schema.go\<close>).

  The JSON schema library is outside the repository: compiling a schema and validating a value
  are arguments, a validation failure is the tree of failures the library returns.  A collaborator
  (renderer, projector, policy, body) is a function to its answer, which may be an error or a panic; one
  that cannot return an error is a function to a sum whose left side is the text of a panic.
\<close>

section \<open>Errors of a tool call\<close>

text \<open>
  An error seen by the execution: a plain one, one with routing metadata (\<open>CodedError\<close>), the
  unconfirmed delivery of an invocation, and a wrapper with a text of its own.
\<close>

datatype tool_error =
    Fault goerr
  | Coded string string string "tool_error option"
  | Delivery tool_error
  | Wraps string tool_error

fun error_message :: "tool_error \<Rightarrow> string" where
  "error_message (Fault e) = render e"
| "error_message (Coded n c m cause) = m"
| "error_message (Delivery e) = ''tools: invocation completion unconfirmed: '' @ error_message e"
| "error_message (Wraps m e) = m"

text \<open>\<open>errors.As\<close> with a coded error and with a delivery error.\<close>

fun as_coded :: "tool_error \<Rightarrow> (string \<times> string) option" where
  "as_coded (Fault e) = None"
| "as_coded (Coded n c m cause) = Some (n, c)"
| "as_coded (Delivery e) = as_coded e"
| "as_coded (Wraps m e) = as_coded e"

fun as_delivery :: "tool_error \<Rightarrow> tool_error option" where
  "as_delivery (Fault e) = None"
| "as_delivery (Coded n c m None) = None"
| "as_delivery (Coded n c m (Some e)) = as_delivery e"
| "as_delivery (Delivery e) = Some (Delivery e)"
| "as_delivery (Wraps m e) = as_delivery e"

fun join_semicolon :: "string list \<Rightarrow> string" where
  "join_semicolon [] = []"
| "join_semicolon [p] = p"
| "join_semicolon (p # q # ps) = p @ ''; '' @ join_semicolon (q # ps)"

definition ToolNotFoundError :: "string \<Rightarrow> string \<Rightarrow> tool_error" where
  "ToolNotFoundError name reachableFrom =
     Coded ''ToolNotFoundError'' ''UNKNOWN_TOOL''
       (''unknown tool '' @ Quote name @ (if reachableFrom = [] then [] else '': '' @ reachableFrom)) None"

definition ToolArgumentsError :: "string list \<Rightarrow> tool_error" where
  "ToolArgumentsError violations =
     Coded ''ToolArgsError'' ''INVALID_ARGS'' (''invalid arguments: '' @ join_semicolon violations) None"

definition ToolOutputError :: "string \<Rightarrow> string list \<Rightarrow> tool_error" where
  "ToolOutputError name violations =
     Coded ''ToolOutputError'' ''INVALID_TOOL_OUTPUT''
       (''tool '' @ Quote name @ '' returned invalid output: '' @ join_semicolon violations) None"

definition abortError :: "string \<Rightarrow> string \<Rightarrow> tool_error" where
  "abortError message code = Coded ''AbortError'' code message None"

type_synonym 'a tool_res = "tool_error + 'a"

fun bindT :: "'a tool_res \<Rightarrow> ('a \<Rightarrow> 'b tool_res) \<Rightarrow> 'b tool_res" where
  "bindT (Inl e) f = Inl e"
| "bindT (Inr x) f = f x"

lemma bindT_Inr_iff: "bindT m f = Inr y \<longleftrightarrow> (\<exists>x. m = Inr x \<and> f x = Inr y)"
  by (cases m) auto

definition faults :: "'a res \<Rightarrow> 'a tool_res" where
  "faults r = (case r of Inl e \<Rightarrow> Inl (Fault e) | Inr x \<Rightarrow> Inr x)"

lemma faults_Inr_iff: "faults r = Inr x \<longleftrightarrow> r = Inr x"
  by (cases r) (auto simp: faults_def)

text \<open>What a collaborator does; a recovered panic becomes an error with a text.\<close>

datatype 'a answer = Returns 'a | Fails tool_error | Panics string

fun recover_answer :: "string \<Rightarrow> 'a answer \<Rightarrow> 'a tool_res" where
  "recover_answer label (Returns x) = Inr x"
| "recover_answer label (Fails e) = Inl e"
| "recover_answer label (Panics m) = Inl (Fault (Errorf (label @ ''%v'') [AStr m]))"

section \<open>Results\<close>

record tool_error_info =
  routeName :: string
  routeCode :: string

record tool_failure =
  failureText :: string
  failureRoute :: "tool_error_info option"

record tool_success =
  successValue :: raw
  successContent :: "content_block list"
  successMeta :: raw
  successContexts :: "message_value list"
  successConcludes :: bool

record tool_refusal =
  refusalError :: tool_failure
  refusalContent :: "content_block list"
  refusalMeta :: raw
  refusalContexts :: "message_value list"

datatype tool_result = Succeeded tool_success | Refused tool_refusal

fun Failed :: "tool_result \<Rightarrow> bool" where
  "Failed (Succeeded s) = False"
| "Failed (Refused f) = True"

fun result_content :: "tool_result \<Rightarrow> content_block list" where
  "result_content (Succeeded s) = successContent s"
| "result_content (Refused f) = refusalContent f"

fun result_contexts :: "tool_result \<Rightarrow> message_value list" where
  "result_contexts (Succeeded s) = successContexts s"
| "result_contexts (Refused f) = refusalContexts f"

fun result_concludes :: "tool_result \<Rightarrow> bool" where
  "result_concludes (Succeeded s) = successConcludes s"
| "result_concludes (Refused f) = False"

definition cloneUserMessages_tools :: "message_value list \<Rightarrow> message_value list res" where
  "cloneUserMessages_tools source =
     imapE (\<lambda>i m. wrapE (\<lambda>e. Errorf ''message %d: %w'' [AInt (int i), AErr e]) (CloneUserMessage m)) 0 source"

text \<open>\<open>AdditionalContextMessages\<close> drops the error of its copy.\<close>

definition AdditionalContextMessages :: "tool_result \<Rightarrow> message_value list" where
  "AdditionalContextMessages r =
     (case cloneUserMessages_tools (result_contexts r) of Inl e \<Rightarrow> [] | Inr ms \<Rightarrow> ms)"

definition cloneOptionalJSON :: "raw \<Rightarrow> raw res" where
  "cloneOptionalJSON r = (if r = Absent then Inr Absent else Clone r)"

fun CloneResult :: "tool_result \<Rightarrow> tool_result res" where
  "CloneResult (Succeeded s) =
     bindE (wrapE (\<lambda>e. Errorf ''tools: invalid successful value: %w'' [AErr e]) (Clone (successValue s))) (\<lambda>v.
     bindE (CloneContentBlocks (successContent s)) (\<lambda>c.
     bindE (wrapE (\<lambda>e. Errorf ''tools: invalid presentation metadata: %w'' [AErr e])
              (cloneOptionalJSON (successMeta s))) (\<lambda>m.
     bindE (wrapE (\<lambda>e. Errorf ''tools: invalid additional context: %w'' [AErr e])
              (cloneUserMessages_tools (successContexts s))) (\<lambda>x.
     Inr (Succeeded \<lparr>successValue = v, successContent = c, successMeta = m, successContexts = x,
       successConcludes = successConcludes s\<rparr>)))))"
| "CloneResult (Refused f) =
     bindE (failIf (failureText (refusalError f) = []) (err ''tools: failure result message is empty'')) (\<lambda>_.
     bindE (CloneContentBlocks (refusalContent f)) (\<lambda>c.
     bindE (wrapE (\<lambda>e. Errorf ''tools: invalid presentation metadata: %w'' [AErr e])
              (cloneOptionalJSON (refusalMeta f))) (\<lambda>m.
     bindE (wrapE (\<lambda>e. Errorf ''tools: invalid additional context: %w'' [AErr e])
              (cloneUserMessages_tools (refusalContexts f))) (\<lambda>x.
     Inr (Refused \<lparr>refusalError = refusalError f, refusalContent = c, refusalMeta = m,
       refusalContexts = x\<rparr>)))))"

text \<open>An observer's view is the validated copy of the result.\<close>

abbreviation SnapshotResult :: "tool_result \<Rightarrow> tool_result res" where
  "SnapshotResult \<equiv> CloneResult"

section \<open>Results the execution makes\<close>

definition plain_refusal :: "string \<Rightarrow> tool_error_info option \<Rightarrow> tool_refusal" where
  "plain_refusal message info =
     \<lparr>refusalError = \<lparr>failureText = message, failureRoute = info\<rparr>,
      refusalContent = [TextBlock (''Error: '' @ message)], refusalMeta = Absent, refusalContexts = []\<rparr>"

definition errorResult :: "tool_error option \<Rightarrow> tool_result" where
  "errorResult cause =
     Refused (plain_refusal
       (case cause of None \<Rightarrow> ''unknown tool failure'' | Some e \<Rightarrow> error_message e)
       (case cause of None \<Rightarrow> None
        | Some e \<Rightarrow> map_option (\<lambda>(n, c). \<lparr>routeName = n, routeCode = c\<rparr>) (as_coded e)))"

definition ToolAborted :: string where "ToolAborted = ''ABORTED''"
definition ToolAbortedBeforeDispatch :: string where "ToolAbortedBeforeDispatch = ''ABORTED_BEFORE_DISPATCH''"

definition abortedResult :: "bool \<Rightarrow> tool_result option \<Rightarrow> tool_result" where
  "abortedResult bodyInvoked prior =
     (let e = (if bodyInvoked then abortError ''tool call aborted'' ToolAborted
               else abortError ''tool call aborted before dispatch'' ToolAbortedBeforeDispatch) in
      case errorResult (Some e) of
        Refused f \<Rightarrow> Refused (f\<lparr>refusalContexts :=
          (case prior of None \<Rightarrow> [] | Some r \<Rightarrow> AdditionalContextMessages r)\<rparr>)
      | r \<Rightarrow> r)"

definition deniedResult :: "string \<Rightarrow> tool_result" where
  "deniedResult reason = Refused (plain_refusal reason None)"

fun join_lines :: "string list \<Rightarrow> string" where
  "join_lines [] = []"
| "join_lines [p] = p"
| "join_lines (p # q # ps) = p @ [CHR 0x0A] @ join_lines (q # ps)"

text \<open>
  \<open>PlainText\<close> of \<open>src/agentmessage/content.go\<close>: a text block, and an opaque block that kept the
  text of one.
\<close>

fun PlainText :: "content_block \<Rightarrow> string option" where
  "PlainText (TextBlock t) = Some t"
| "PlainText (OpaqueBlock ty r) =
     (if ty \<noteq> ''text'' then None
      else case bindE (fields_of r) (\<lambda>fs. scan_pointer as_string None (matches ''text'' fs)) of
             Inl e \<Rightarrow> None
           | Inr t \<Rightarrow> t)"
| "PlainText b = None"

definition failureMessage :: "content_block list \<Rightarrow> string" where
  "failureMessage bs =
     (let message = join_lines (map (\<lambda>b. case PlainText b of Some t \<Rightarrow> t
            | None \<Rightarrow> ''['' @ ContentType b @ '' content]'') bs) in
      if message = [] then ''tool result blocked by post-execute policy'' else message)"

fun replaceResultContent :: "tool_result \<Rightarrow> content_block list \<Rightarrow> tool_result" where
  "replaceResultContent (Succeeded s) bs = Succeeded (s\<lparr>successContent := bs\<rparr>)"
| "replaceResultContent (Refused f) bs = Refused (f\<lparr>refusalContent := bs\<rparr>)"

fun with_contexts :: "(message_value list \<Rightarrow> message_value list) \<Rightarrow> tool_result \<Rightarrow> tool_result" where
  "with_contexts f (Succeeded s) = Succeeded (s\<lparr>successContexts := f (successContexts s)\<rparr>)"
| "with_contexts f (Refused r) = Refused (r\<lparr>refusalContexts := f (refusalContexts r)\<rparr>)"

definition appendAdditionalContexts :: "tool_result \<Rightarrow> message_value list \<Rightarrow> tool_result res" where
  "appendAdditionalContexts outcome additions =
     bindE (CloneResult outcome) (\<lambda>detached. CloneResult (with_contexts (\<lambda>ms. ms @ additions) detached))"

definition prependAdditionalContexts :: "tool_result \<Rightarrow> message_value list \<Rightarrow> tool_result res" where
  "prependAdditionalContexts outcome additions =
     bindE (CloneResult outcome) (\<lambda>detached. CloneResult (with_contexts (\<lambda>ms. additions @ ms) detached))"

section \<open>Calls\<close>

record call_input =
  inputCall :: string
  inputRoot :: string
  inputName :: string
  inputArguments :: raw
  inputSession :: string

text \<open>The detached view of a call, which is also what a body is invoked with.\<close>

record tool_execution =
  callId :: string
  rootCallId :: string
  toolName :: string
  callSession :: string
  callArgs :: raw

text \<open>
  \<open>NewExecution\<close> returns a view with its error: without arguments when they were not accepted.
\<close>

definition NewExecution :: "call_input \<Rightarrow> tool_execution \<times> goerr option" where
  "NewExecution input =
     (let toolCall = \<lparr>callId = inputCall input,
            rootCallId = (if inputRoot input = [] then inputCall input else inputRoot input),
            toolName = inputName input, callSession = inputSession input, callArgs = Absent\<rparr> in
      if TrimSpace (inputName input) = [] \<or> inputName input \<noteq> TrimSpace (inputName input) then
        (toolCall, Some (err ''tools: tool name must be non-empty and trimmed''))
      else if inputCall input = [] then (toolCall, Some (err ''tools: call ID is empty''))
      else case Clone (inputArguments input) of
             Inl e \<Rightarrow> (toolCall, Some (Errorf ''tools: arguments are not lossless JSON: %w'' [AErr e]))
           | Inr args \<Rightarrow> (toolCall\<lparr>callArgs := args\<rparr>, None))"

record body_result =
  bodyValue :: raw
  bodyErr :: "tool_error option"
  bodyContexts :: "message_value list"
  bodyConcludes :: bool

text \<open>
  \<open>Invocation.Run\<close>: the executor's value or error, and the effects it recorded before it returned:
  the deferred contexts in order and whether it concluded the turn.  An invalid context loses all.
\<close>

definition RunBody :: "raw answer \<Rightarrow> message_value list \<Rightarrow> bool \<Rightarrow> body_result" where
  "RunBody reply deferred concluded =
     (let (value, failure) =
            (case reply of Returns v \<Rightarrow> (v, None) | Fails e \<Rightarrow> (Absent, Some e)
             | Panics m \<Rightarrow> (Absent, Some (Fault (Errorf ''tools: executor panicked: %v'' [AStr m])))) in
      \<lparr>bodyValue = value, bodyErr = failure,
       bodyContexts = (case cloneUserMessages_tools deferred of Inl e \<Rightarrow> [] | Inr ms \<Rightarrow> ms),
       bodyConcludes = concluded\<rparr>)"

section \<open>Schemas\<close>

datatype schema_failure =
  SchemaFailure (failureLocation: "string list") (failureLabel: string) (failureCauses: "schema_failure list")

definition deeper :: "schema_failure \<Rightarrow> schema_failure \<Rightarrow> schema_failure" where
  "deeper deepest candidate =
     (if length (failureLocation deepest) \<le> length (failureLocation candidate) then candidate else deepest)"

fun deepestSchemaFailure :: "schema_failure \<Rightarrow> schema_failure" where
  "deepestSchemaFailure (SchemaFailure l t cs) =
     foldl deeper (SchemaFailure l t cs) (map deepestSchemaFailure cs)"

fun join_slash :: "string list \<Rightarrow> string" where
  "join_slash [] = []"
| "join_slash [p] = p"
| "join_slash (p # q # ps) = p @ ''/'' @ join_slash (q # ps)"

text \<open>The verdict of the schema library on a value.\<close>

datatype verdict = Accepts | Unreadable goerr | Violates schema_failure

type_synonym validator = "raw \<Rightarrow> verdict"

definition validateSchemaValue :: "validator \<Rightarrow> raw \<Rightarrow> string \<Rightarrow> unit res" where
  "validateSchemaValue validator rawValue path =
     (case validator rawValue of
        Accepts \<Rightarrow> Inr ()
      | Unreadable e \<Rightarrow> Inl e
      | Violates f \<Rightarrow>
          (let leaf = deepestSchemaFailure f;
               location = path @ (if failureLocation leaf = [] then [] else ''/'' @ join_slash (failureLocation leaf)) in
           Inl (Errorf ''%s: %s'' [AStr location, AStr (failureLabel leaf)])))"

section \<open>Descriptors\<close>

type_synonym renderer = "raw \<Rightarrow> raw \<Rightarrow> content_block list answer"
type_synonym projector = "raw \<Rightarrow> raw \<Rightarrow> raw answer"
type_synonym finalizer = "tool_execution \<Rightarrow> tool_result \<Rightarrow> string + content_block list \<times> bool"

record descriptor =
  descriptorName :: string
  descriptorDescription :: string
  descriptorParameters :: raw
  outputSchema :: raw
  outputRenderer :: "renderer option"
  outputPresentation :: "projector option"
  finalizeContent :: "finalizer option"
  descriptorTimeout :: int
  concurrencyBehavior :: "(raw \<Rightarrow> string + bool) option"

record contract =
  contractDescriptor :: descriptor
  parameterValidator :: validator
  outputValidator :: validator

definition ValidateArguments :: "contract \<Rightarrow> raw \<Rightarrow> unit res" where
  "ValidateArguments c input = validateSchemaValue (parameterValidator c) input ''arguments''"

definition ValidateValue :: "contract \<Rightarrow> raw \<Rightarrow> unit res" where
  "ValidateValue c output = validateSchemaValue (outputValidator c) output ''value''"

definition RunCodeName :: string where "RunCodeName = ''run_code''"

definition trimmed_name :: "string \<Rightarrow> bool" where
  "trimmed_name n = (TrimSpace n \<noteq> [] \<and> n = TrimSpace n)"

text \<open>The library compiles a schema document at a location to a validator.\<close>

type_synonym compiler = "string \<Rightarrow> raw \<Rightarrow> validator res"

definition compileSchema :: "compiler \<Rightarrow> string \<Rightarrow> raw \<Rightarrow> validator res" where
  "compileSchema compile label rawValue = compile (''mem://goren/tools/'' @ label @ ''.json'') rawValue"

definition declares_object :: "raw \<Rightarrow> bool" where
  "declares_object r =
     (case unmarshal_map r of
        Inl e \<Rightarrow> False
      | Inr members \<Rightarrow> unmarshal_scalar as_string [] (map_get members ''type'') = Inr ''object'')"

definition SnapshotObjectSchema :: "compiler \<Rightarrow> raw \<Rightarrow> raw res" where
  "SnapshotObjectSchema compile rawValue =
     bindE (wrapE (\<lambda>e. Errorf ''tools: object schema is not lossless JSON: %w'' [AErr e]) (Clone rawValue)) (\<lambda>detached.
     bindE (failIf (\<not> IsObject detached) (err ''tools: object schema must be a JSON object'')) (\<lambda>_.
     bindE (failIf (\<not> declares_object detached) (err ''tools: object schema must declare type object'')) (\<lambda>_.
     bindE (wrapE (\<lambda>e. Errorf ''tools: object schema: %w'' [AErr e])
              (compileSchema compile ''object-contract'' detached)) (\<lambda>_.
     Inr detached))))"

definition CompileDescriptor :: "compiler \<Rightarrow> descriptor \<Rightarrow> contract res" where
  "CompileDescriptor compile d =
     (let name = descriptorName d; labelled = (\<lambda>f e. Errorf f [AStr name, AErr e]) in
      bindE (failIf (\<not> trimmed_name name) (err ''tools: tool name must be non-empty and trimmed'')) (\<lambda>_.
      bindE (failIf (name = RunCodeName)
               (Errorf ''tools: tool name %q is reserved for the Code Mode presentation transport'' [AStr name])) (\<lambda>_.
      bindE (failIf (Option.is_none (outputRenderer d))
               (Errorf ''tools: tool %q must declare an output renderer'' [AStr name])) (\<lambda>_.
      bindE (failIf (descriptorTimeout d < 0)
               (Errorf ''tools: tool %q timeout must be positive'' [AStr name])) (\<lambda>_.
      bindE (wrapE (labelled ''tools: tool %q parameters are not lossless JSON: %w'')
               (Clone (descriptorParameters d))) (\<lambda>parameters.
      bindE (failIf (\<not> IsObject parameters)
               (Errorf ''tools: tool %q parameters must be a JSON object schema'' [AStr name])) (\<lambda>_.
      bindE (failIf (\<not> declares_object parameters)
               (Errorf ''tools: tool %q parameters schema must declare type object'' [AStr name])) (\<lambda>_.
      bindE (wrapE (labelled ''tools: tool %q output schema is not lossless JSON: %w'')
               (Clone (outputSchema d))) (\<lambda>output.
      bindE (wrapE (labelled ''tools: tool %q parameters schema: %w'')
               (compileSchema compile (name @ ''-parameters'') parameters)) (\<lambda>checkParameters.
      bindE (wrapE (labelled ''tools: tool %q output schema: %w'')
               (compileSchema compile (name @ ''-output'') output)) (\<lambda>checkOutput.
      Inr \<lparr>contractDescriptor = d\<lparr>descriptorParameters := parameters, outputSchema := output\<rparr>,
           parameterValidator = checkParameters, outputValidator = checkOutput\<rparr>)))))))))))"

text \<open>Enablement and visibility, both on by default.\<close>

definition ResolveFlags :: "bool option \<Rightarrow> bool option \<Rightarrow> bool \<times> bool" where
  "ResolveFlags enabled visible =
     ((case enabled of None \<Rightarrow> True | Some b \<Rightarrow> b), (case visible of None \<Rightarrow> True | Some b \<Rightarrow> b))"

end
