(* ===== verification/Approval.thy ===== *)
theory Approval
  imports BoundaryWrites GoText
begin

text \<open>
  The approval of one operation (\<open>src/approval\<close>): the policy of a session
  (\<open>types.go\<close>, \<open>policy.go\<close>, \<open>service_policy.go\<close>), the decision that fixes it with the identity of its audit
  (\<open>service.go\<close>, \<open>decision.go\<close>), the idempotent write of an audit event (\<open>audit.go\<close>), and the
  execution that commits the question, asks the user and commits the answer (\<open>execution.go\<close>).

  The random identity of a request is an argument.  The journal is the session log behind a
  caller that may report an error for a commit that took effect; the answerer is an argument.
\<close>

section \<open>Policies\<close>

definition OutcomeAllowedOnce :: string where "OutcomeAllowedOnce = ''allowed-once''"
definition OutcomeRejected :: string where "OutcomeRejected = ''rejected''"
definition OutcomeCancelled :: string where "OutcomeCancelled = ''cancelled''"
definition OutcomeUnavailable :: string where "OutcomeUnavailable = ''unavailable''"

definition PolicyAsk :: string where "PolicyAsk = ''ask''"
definition PolicyNever :: string where "PolicyNever = ''never''"

definition AskedEventName :: string where "AskedEventName = ''approval/asked''"
definition DecidedEventName :: string where "DecidedEventName = ''approval/decided''"
definition PolicyEventName :: string where "PolicyEventName = ''approval/policy''"

lemmas approval_names =
  OutcomeAllowedOnce_def OutcomeRejected_def OutcomeCancelled_def OutcomeUnavailable_def
  PolicyAsk_def PolicyNever_def AskedEventName_def DecidedEventName_def PolicyEventName_def

definition validOutcome :: "string \<Rightarrow> bool" where
  "validOutcome s = (s \<in> {OutcomeAllowedOnce, OutcomeRejected, OutcomeCancelled, OutcomeUnavailable})"

definition validPolicy :: "string \<Rightarrow> bool" where
  "validPolicy s = (s = PolicyAsk \<or> s = PolicyNever)"

text \<open>A configuration has an optional policy; a validated one has a policy.\<close>

definition ValidateConfig_approval :: "string option \<Rightarrow> string res" where
  "ValidateConfig_approval settings =
     (let selectedPolicy = (case settings of None \<Rightarrow> PolicyAsk | Some p \<Rightarrow> p) in
      bindE (failIf (\<not> validPolicy selectedPolicy) (err ''approval: policy must be ask or never'')) (\<lambda>_.
      Inr selectedPolicy))"

definition WithOverrides :: "string \<Rightarrow> string option \<Rightarrow> string res" where
  "WithOverrides settings custom =
     bindE (failIf (\<not> validPolicy settings) (err ''approval: configuration was not validated'')) (\<lambda>_.
     if custom = None then Inr settings else ValidateConfig_approval custom)"

definition unmarshal_approval_config :: "raw \<Rightarrow> string option res" where
  "unmarshal_approval_config encoded =
     bindE (failIf (encoded = Doc JNull) (err ''approval: config must be an object'')) (\<lambda>_.
     bindE (strict_fields [''policy''] encoded) (\<lambda>fs.
     let policy = get_raw fs ''policy'' in
     if policy = Absent then Inr None
     else if policy = Doc JNull then Inl (err ''approval: policy must be ask or never'')
     else bindE (wrapE (\<lambda>e. Errorf ''approval: policy must be ask or never: %w'' [AErr e])
                   (unmarshal_scalar as_string [] policy)) (\<lambda>p. Inr (Some p))))"

text \<open>A policy change names its policy and, when delegation made it, its source.\<close>

definition marshal_policy_changed :: "string \<Rightarrow> string option \<Rightarrow> json res" where
  "marshal_policy_changed policy source =
     Inr (JObj ([(''policy'', JStr policy)] @
       (case source of None \<Rightarrow> [] | Some s \<Rightarrow> [(''source'', JStr s)])))"

definition unmarshal_policy_changed :: "raw \<Rightarrow> (string \<times> string option) res" where
  "unmarshal_policy_changed r =
     bindE (fields_of r) (\<lambda>fs.
     bindE (get_string fs ''policy'') (\<lambda>policy.
     bindE (scan_pointer as_string None (matches ''source'' fs)) (\<lambda>source. Inr (policy, source))))"

text \<open>The loop runs from the last event; the argument is the reversed history.\<close>

fun policyOverride :: "event list \<Rightarrow> string option res" where
  "policyOverride [] = Inr None"
| "policyOverride (committed # earlier) =
     (if evType committed \<noteq> PolicyEventName then policyOverride earlier
      else
        bindE (wrapE (\<lambda>e. Errorf ''approval: invalid policy event at seq %d: %w'' [AInt (evSeq committed), AErr e])
                 (unmarshal_policy_changed (evData committed))) (\<lambda>(policy, source).
        bindE (failIf (\<not> validPolicy policy \<or> source \<notin> {None, Some ''delegation''})
                 (Errorf ''approval: invalid policy event at seq %d'' [AInt (evSeq committed)])) (\<lambda>_.
        Inr (Some policy))))"

definition resolve_policy :: "string \<Rightarrow> event list \<Rightarrow> string res" where
  "resolve_policy fallback es =
     bindE (failIf (\<not> validPolicy fallback) (err ''approval: default policy must be ask or never'')) (\<lambda>_.
     bindE (policyOverride (rev es)) (\<lambda>found.
     Inr (case found of None \<Rightarrow> fallback | Some p \<Rightarrow> p)))"

definition policyNotice :: "string \<Rightarrow> string \<Rightarrow> string \<Rightarrow> message_value res" where
  "policyNotice identifier previous selectedPolicy =
     NewUserMessage identifier
       [TextBlock (''The approval policy changed from \"'' @ previous @ ''\" to \"'' @ selectedPolicy @
          ''\" (changed by the user).'')]
       (PluginSource ''user-approval'' [] None [])"

text \<open>\<open>None\<close> is a change that changes nothing; the service is its default policy.\<close>

definition ChangePolicy ::
  "string \<Rightarrow> string \<Rightarrow> event list \<Rightarrow> string \<Rightarrow> (event_draft \<times> message_value) option res" where
  "ChangePolicy identifier defaultPolicy es selectedPolicy =
     bindE (failIf (\<not> validPolicy selectedPolicy) (err ''approval: policy must be ask or never'')) (\<lambda>_.
     bindE (resolve_policy defaultPolicy es) (\<lambda>previous.
     if previous = selectedPolicy then Inr None
     else
       bindE (NewEventDraft PolicyEventName (marshal_policy_changed selectedPolicy None) False) (\<lambda>draft.
       bindE (policyNotice identifier previous selectedPolicy) (\<lambda>notice.
       Inr (Some (draft, notice))))))"

definition DelegationPolicyDraft :: "event_draft res" where
  "DelegationPolicyDraft =
     NewEventDraft PolicyEventName (marshal_policy_changed PolicyNever (Some ''delegation'')) False"

section \<open>Decisions\<close>

record question =
  questionID :: string
  questionSession :: string
  questionTool :: string
  questionCall :: "string option"
  questionReason :: "string option"

record decision =
  decisionPolicy :: string
  turnSeq :: int
  question :: question

record approval_request =
  approvalSession :: string
  approvalEvents :: "event list"
  approvalTool :: string
  approvalCall :: "string option"
  approvalReason :: "string option"

text \<open>The loop of \<open>openTurn\<close> over the reversed history.\<close>

fun last_boundary :: "event list \<Rightarrow> int option" where
  "last_boundary [] = None"
| "last_boundary (e # earlier) =
     (if evType e = ''turn/start'' then Some (evSeq e)
      else if evType e = ''turn/end'' then None
      else last_boundary earlier)"

definition enclosing_turn :: "event list \<Rightarrow> int option" where
  "enclosing_turn es = last_boundary (rev es)"

text \<open>\<open>Prepare\<close> with the outcome of \<open>mintRequestID\<close>.\<close>

definition Prepare_approval :: "string \<Rightarrow> string res \<Rightarrow> approval_request \<Rightarrow> decision res" where
  "Prepare_approval defaultPolicy minted input =
     bindE (failIf (approvalSession input = [] \<or> TrimSpace (approvalTool input) = [])
              (err ''approval: Session identity and tool name are required'')) (\<lambda>_.
     case enclosing_turn (approvalEvents input) of
       None \<Rightarrow> Inl (err ''approval: request outside an open turn; audit events must be turn-enclosed'')
     | Some seq \<Rightarrow>
         bindE (resolve_policy defaultPolicy (approvalEvents input)) (\<lambda>selectedPolicy.
         bindE (wrapE (\<lambda>e. Errorf ''approval: mint request id: %w'' [AErr e]) minted) (\<lambda>identifier.
         Inr \<lparr>decisionPolicy = selectedPolicy, turnSeq = seq,
              question = \<lparr>questionID = identifier, questionSession = approvalSession input,
                questionTool = approvalTool input, questionCall = approvalCall input,
                questionReason = approvalReason input\<rparr>\<rparr>)))"

definition validate_decision :: "decision \<Rightarrow> unit res" where
  "validate_decision d =
     failIf (\<not> validPolicy (decisionPolicy d) \<or> questionID (question d) = [] \<or>
             questionSession (question d) = [] \<or> questionTool (question d) = [])
       (err ''approval: decision was not prepared'')"

definition Interactive :: "decision \<Rightarrow> bool" where
  "Interactive d = (decisionPolicy d = PolicyAsk)"

definition marshal_asked :: "question \<Rightarrow> json res" where
  "marshal_asked q =
     Inr (JObj ([(''id'', JStr (questionID q)), (''toolName'', JStr (questionTool q))] @
       (case questionCall q of None \<Rightarrow> [] | Some s \<Rightarrow> [(''callId'', JStr s)]) @
       (case questionReason q of None \<Rightarrow> [] | Some s \<Rightarrow> [(''reason'', JStr s)])))"

definition marshal_decided :: "string \<Rightarrow> string \<Rightarrow> json res" where
  "marshal_decided i selected = Inr (JObj [(''id'', JStr i), (''outcome'', JStr selected)])"

definition AskedDraft :: "decision \<Rightarrow> event_draft res" where
  "AskedDraft d =
     bindE (validate_decision d) (\<lambda>_. NewEventDraft AskedEventName (marshal_asked (question d)) False)"

definition chosen_outcome :: "decision \<Rightarrow> string \<Rightarrow> bool \<Rightarrow> goerr option \<Rightarrow> string" where
  "chosen_outcome d answer cancelled failure =
     (if cancelled then OutcomeCancelled
      else if decisionPolicy d = PolicyNever then OutcomeRejected
      else if failure \<noteq> None \<or> \<not> validOutcome answer then OutcomeUnavailable
      else answer)"

definition Resolve :: "decision \<Rightarrow> string \<Rightarrow> bool \<Rightarrow> goerr option \<Rightarrow> (string \<times> event_draft) res" where
  "Resolve d answer cancelled failure =
     bindE (validate_decision d) (\<lambda>_.
     let selected = chosen_outcome d answer cancelled failure in
     bindE (NewEventDraft DecidedEventName (marshal_decided (questionID (question d)) selected) False) (\<lambda>draft.
     Inr (selected, draft)))"

section \<open>The audit write\<close>

record audit =
  auditDecision :: decision
  auditType :: string
  auditDraft :: event_draft

abbreviation auditID :: "audit \<Rightarrow> string" where
  "auditID p \<equiv> questionID (question (auditDecision p))"

definition payload_id :: "raw \<Rightarrow> string res" where
  "payload_id r = bindE (fields_of r) (\<lambda>fs. get_string fs ''id'')"

fun audit_find :: "audit \<Rightarrow> string \<Rightarrow> event list \<Rightarrow> event option res" where
  "audit_find p eventType [] = Inr None"
| "audit_find p eventType (candidate # rest) =
     (if evType candidate \<noteq> eventType then audit_find p eventType rest
      else
        bindE (payload_id (evData candidate)) (\<lambda>i.
        if i = auditID p then
          bindE (failIf (evSeq candidate \<le> turnSeq (auditDecision p))
                   (err ''approval: audit identity predates its Turn'')) (\<lambda>_.
          Inr (Some candidate))
        else audit_find p eventType rest))"

definition audit_build :: "audit \<Rightarrow> snapshot \<Rightarrow> event_draft list res" where
  "audit_build p snap =
     bindE (failIf (barrierSession (snapBarrier snap) \<noteq> questionSession (question (auditDecision p)))
              (err ''approval: audit belongs to another Session'')) (\<lambda>_.
     bindE (failIf (enclosing_turn (snapEvents snap) \<noteq> Some (turnSeq (auditDecision p)))
              (err ''approval: audit does not belong to the open Turn'')) (\<lambda>_.
     bindE (if auditType p \<noteq> DecidedEventName then Inr ()
            else
              bindE (audit_find p AskedEventName (snapEvents snap)) (\<lambda>preceding.
              case preceding of
                None \<Rightarrow> Inl (err ''approval: decided requires a committed asked event'')
              | Some e \<Rightarrow> bindE (AskedDraft (auditDecision p)) (\<lambda>draft. ValidateEvent draft e))) (\<lambda>_.
     Inr [auditDraft p])))"

definition audit_commit :: "audit \<Rightarrow> snapshot \<Rightarrow> write_result option res" where
  "audit_commit p snap =
     bindE (failIf (barrierSession (snapBarrier snap) \<noteq> questionSession (question (auditDecision p)))
              (err ''approval: audit belongs to another Session'')) (\<lambda>_.
     bindE (audit_find p (auditType p) (snapEvents snap)) (\<lambda>previous.
     case previous of
       None \<Rightarrow> Inr None
     | Some e \<Rightarrow>
         bindE (ValidateEvent (auditDraft p) e) (\<lambda>_.
         Inr (Some (one_result (barrierSession (snapBarrier snap)) e)))))"

definition audit_plan :: "audit \<Rightarrow> write_plan" where
  "audit_plan p = Idempotent (audit_build p) (audit_commit p)"

definition validateReceipt :: "audit \<Rightarrow> write_result \<Rightarrow> unit res" where
  "validateReceipt p r =
     bindE (failIf (barrierSession (resultBarrier r) \<noteq> questionSession (question (auditDecision p)) \<or>
                    length (resultEvents r) \<noteq> 1 \<or> firstSeq r \<le> turnSeq (auditDecision p) \<or>
                    firstSeq r \<noteq> evSeq (resultEvents r ! 0) \<or> nextSeq r \<noteq> firstSeq r + 1 \<or>
                    barrierNext (resultBarrier r) \<noteq> nextSeq r)
              (err ''approval: invalid audit commitment receipt'')) (\<lambda>_.
     ValidateEvent (auditDraft p) (resultEvents r ! 0))"

section \<open>Executing an approval\<close>

datatype approval_phase = AskedPending | AnswerPending | DecidedPending | ExecutionResolved

record approval_work =
  workDecision :: decision
  workPhase :: approval_phase
  workPending :: audit
  workOutcome :: string

definition Begin :: "string \<Rightarrow> string res \<Rightarrow> approval_request \<Rightarrow> approval_work res" where
  "Begin defaultPolicy minted input =
     bindE (Prepare_approval defaultPolicy minted input) (\<lambda>prepared.
     bindE (AskedDraft prepared) (\<lambda>draft.
     Inr \<lparr>workDecision = prepared, workPhase = AskedPending,
          workPending = \<lparr>auditDecision = prepared, auditType = AskedEventName, auditDraft = draft\<rparr>,
          workOutcome = []\<rparr>))"

text \<open>
  A journal takes a plan and a log to its receipt, or an error, and the log afterwards.  The
  answerer returns, or panics, which is recovered into an error.
\<close>

type_synonym journal = "write_plan \<Rightarrow> log \<Rightarrow> write_result res \<times> log"

datatype answerer = is_NoAnswerer: NoAnswerer | Answers "question \<Rightarrow> string res" | AnswererPanics

definition collectAnswer :: "answerer \<Rightarrow> question \<Rightarrow> string \<times> goerr option" where
  "collectAnswer answerSource q =
     (case answerSource of
        Answers f \<Rightarrow> (case f q of Inr s \<Rightarrow> (s, None) | Inl e \<Rightarrow> ([], Some e))
      | _ \<Rightarrow> ([], Some (err ''approval: answerer panicked'')))"

definition commit_audit :: "journal \<Rightarrow> approval_work \<Rightarrow> log \<Rightarrow> unit res \<times> log" where
  "commit_audit records work l =
     (let (outcome, l') = records (audit_plan (workPending work)) l in
      (bindE outcome (validateReceipt (workPending work)), l'))"

text \<open>
  The three stages of \<open>Run\<close>.  \<open>cancelled i\<close> tells whether the context is cancelled at the read \<open>i\<close>;
  a nil context or journal is refused before.
\<close>

definition run_asked :: "journal \<Rightarrow> approval_work \<Rightarrow> log \<Rightarrow> unit res \<times> approval_work \<times> log" where
  "run_asked records work l =
     (if workPhase work \<noteq> AskedPending then (Inr (), work, l)
      else case commit_audit records work l of
             (Inl e, l') \<Rightarrow> (Inl e, work, l')
           | (Inr u, l') \<Rightarrow> (Inr (), work\<lparr>workPhase := AnswerPending\<rparr>, l'))"

definition run_answer :: "(nat \<Rightarrow> bool) \<Rightarrow> answerer \<Rightarrow> approval_work \<Rightarrow> unit res \<times> approval_work" where
  "run_answer cancelled answerSource work =
     (if workPhase work \<noteq> AnswerPending then (Inr (), work)
      else
        let (choice, failure) =
              (if \<not> cancelled 0 \<and> Interactive (workDecision work) \<and> \<not> is_NoAnswerer answerSource
               then collectAnswer answerSource (question (workDecision work)) else ([], None)) in
        case Resolve (workDecision work) choice (cancelled 1) failure of
          Inl e \<Rightarrow> (Inl e, work)
        | Inr (selected, draft) \<Rightarrow>
            (Inr (), work\<lparr>workPending := \<lparr>auditDecision = workDecision work, auditType = DecidedEventName,
                                         auditDraft = draft\<rparr>,
                          workOutcome := selected, workPhase := DecidedPending\<rparr>))"

definition run_decided :: "journal \<Rightarrow> approval_work \<Rightarrow> log \<Rightarrow> unit res \<times> approval_work \<times> log" where
  "run_decided records work l =
     (if workPhase work \<noteq> DecidedPending then (Inr (), work, l)
      else case commit_audit records work l of
             (Inl e, l') \<Rightarrow> (Inl e, work, l')
           | (Inr u, l') \<Rightarrow> (Inr (), work\<lparr>workPhase := ExecutionResolved\<rparr>, l'))"

definition RunApproval ::
  "(nat \<Rightarrow> bool) \<Rightarrow> journal \<Rightarrow> answerer \<Rightarrow> approval_work \<Rightarrow> log \<Rightarrow> string res \<times> approval_work \<times> log" where
  "RunApproval cancelled records answerSource work l =
     (case run_asked records work l of
        (Inl e, work, l) \<Rightarrow> (Inl e, work, l)
      | (Inr u, work, l) \<Rightarrow>
          (case run_answer cancelled answerSource work of
             (Inl e, work) \<Rightarrow> (Inl e, work, l)
           | (Inr u, work) \<Rightarrow>
               (case run_decided records work l of
                  (Inl e, work, l) \<Rightarrow> (Inl e, work, l)
                | (Inr u, work, l) \<Rightarrow> (Inr (workOutcome work), work, l))))"

end
