(* ===== verification/ToolExecution.thy ===== *)
theory ToolExecution
  imports ToolContract Approval
begin

text \<open>
  The staged execution of one tool call (\<open>src/tools/execution\<close>): preparation with its policies, guards
  and approval (\<open>scheduler.go\<close>, \<open>scheduler_approval.go\<close>, \<open>policy_engine.go\<close>), the dispatch of the body
  through the middleware (\<open>call_dispatch.go\<close>, \<open>pipeline.go\<close>), the review of its result
  (\<open>call_result.go\<close>), and the operations of a call over its phases (\<open>call.go\<close>, \<open>call_execution.go\<close>,
  \<open>call_state.go\<close>).

  Policies, guards, renderers and the body are arguments.  A middleware is a tree: it answers, or
  it delegates to the body with a context and continues with what the body gave.  Three fields of a
  call have no counterpart in the code: the invocations handed to the invoker, the results handed
  to the observer, and the number of reads of the context so far, by which the context is indexed.
\<close>

section \<open>Collaborators\<close>

datatype pre_decision =
    AllowDecision
  | DenyDecision string
  | AskDecision string
  | NoDecision
  | OtherDecision string

datatype post_decision =
    AcceptDecision "message_value list"
  | ReplaceContentDecision "content_block list" "message_value list"
  | ReplaceValueDecision raw "message_value list"
  | BlockDecision "content_block list" "message_value list"
  | NoReview
  | OtherReview string

text \<open>
  A result on its way out of the middleware: nil, the body's own success with the mark of this or of
  another execution, a success or failure of its own (which may be a nil pointer), or a foreign type.
\<close>

datatype candidate =
    NilCandidate
  | CanonicalSuccess bool tool_success
  | AuthoredSuccess "tool_success option"
  | AuthoredFailure "tool_refusal option"
  | OtherCandidate string

text \<open>
  \<open>Delegates chain k\<close> calls the terminal action with a context, \<open>None\<close> when it is nil and otherwise
  whether it is cancelled, and goes on with its outcome.  So a middleware delegates in its own call and one
  time after the other; the use of the delegate by another goroutine, or after the middleware
  returned, is not modelled.
\<close>

datatype middleware =
    Replies candidate
  | Raises tool_error
  | Crashes string
  | Delegates "bool option" "candidate tool_res \<Rightarrow> middleware"

type_synonym tool_guard = "tool_execution \<Rightarrow> string + string \<times> bool"

record policies =
  policyBefore :: "(tool_execution \<Rightarrow> pre_decision answer) option"
  policyAfter :: "(tool_execution \<Rightarrow> tool_result \<Rightarrow> post_decision answer) option"
  policyExecution :: "(tool_execution \<Rightarrow> middleware) option"
  policyResults :: bool
  policyGuards :: "tool_guard option list"

record scheduler =
  contracts :: "(string, contract) go_map"
  bodies :: "nat \<Rightarrow> tool_execution \<Rightarrow> body_result answer"

record permission =
  permissionTool :: string
  permissionCall :: string
  permissionReason :: string

section \<open>The state of a call\<close>

datatype call_phase =
    ExecutionUnprepared
  | ExecutionAwaitingApproval
  | ExecutionPreparedForDispatch
  | ExecutionDispatching
  | ExecutionPreparedForPost
  | ExecutionPreparedForFinish
  | ExecutionFinalizing
  | ExecutionCompleted

datatype call_stage = NoStage | ScheduledApproval | ScheduledDispatch | ScheduledPostResult | ScheduledFinalResult

record tool_call =
  callPolicies :: policies
  callEntry :: "contract option"
  callContext :: "nat \<Rightarrow> bool"
  callExecution :: tool_execution
  callPhase :: call_phase
  bodyInvoked :: bool
  turnConcluded :: bool
  deferredContexts :: "message_value list"
  callStage :: call_stage
  preparedApproval :: "permission option"
  preparedResult :: "tool_result option"
  dispatched :: "tool_result option"
  settled :: "tool_result option"
  callProblem :: "tool_error option"
  invocations :: "tool_execution list"
  published :: "tool_result list"
  contextReads :: nat

definition ctx_err :: "tool_call \<Rightarrow> bool \<times> tool_call" where
  "ctx_err c = (callContext c (contextReads c), c\<lparr>contextReads := Suc (contextReads c)\<rparr>)"

definition finalPreparation :: "tool_call \<Rightarrow> tool_result \<Rightarrow> tool_call" where
  "finalPreparation c outcome =
     c\<lparr>callPhase := ExecutionPreparedForFinish, callStage := ScheduledFinalResult, preparedApproval := None,
       preparedResult := Some outcome\<rparr>"

definition postPreparation :: "tool_call \<Rightarrow> tool_result \<Rightarrow> tool_call" where
  "postPreparation c outcome =
     c\<lparr>callPhase := ExecutionPreparedForPost, callStage := ScheduledPostResult, preparedApproval := None,
       preparedResult := Some outcome\<rparr>"

definition dispatchPreparation :: "tool_call \<Rightarrow> tool_call" where
  "dispatchPreparation c =
     c\<lparr>callPhase := ExecutionPreparedForDispatch, callStage := ScheduledDispatch, preparedApproval := None,
       preparedResult := None\<rparr>"

text \<open>A message whose copy fails is the zero value of its type.\<close>

definition zero_message :: message_value where
  "zero_message = \<lparr>idValue = [], roleValue = RoleOther [], content = [], origin = NilSource\<rparr>"

definition snapshot_contexts :: "tool_call \<Rightarrow> message_value list" where
  "snapshot_contexts c =
     map (\<lambda>m. case CloneUserMessage m of Inl e \<Rightarrow> zero_message | Inr d \<Rightarrow> d) (deferredContexts c)"

definition recordEffects :: "body_result \<Rightarrow> tool_call \<Rightarrow> tool_call" where
  "recordEffects outcome c =
     (if callPhase c \<noteq> ExecutionDispatching then c
      else c\<lparr>deferredContexts := deferredContexts c @ bodyContexts outcome,
             turnConcluded := (turnConcluded c \<or> bodyConcludes outcome)\<rparr>)"

definition markBodyInvoked :: "tool_call \<Rightarrow> tool_call" where
  "markBodyInvoked c = (if callPhase c \<noteq> ExecutionDispatching then c else c\<lparr>bodyInvoked := True\<rparr>)"

text \<open>\<open>invokeBody\<close>: a panic leaves it unknown whether the body ran.\<close>

definition invokeBody :: "scheduler \<Rightarrow> tool_execution \<Rightarrow> tool_call \<Rightarrow> body_result tool_res \<times> tool_call" where
  "invokeBody s x c =
     ((case bodies s (length (invocations c)) x of
         Returns b \<Rightarrow> Inr b
       | Fails e \<Rightarrow> Inl e
       | Panics m \<Rightarrow> Inl (Fault (err ''tools: body delivery panicked; execution completion is unconfirmed''))),
      c\<lparr>invocations := invocations c @ [x]\<rparr>)"

section \<open>Policies before dispatch\<close>

definition EvaluateCall :: "policies \<Rightarrow> tool_execution \<Rightarrow> pre_decision tool_res" where
  "EvaluateCall ps x =
     (case policyBefore ps of
        None \<Rightarrow> Inr AllowDecision
      | Some f \<Rightarrow> recover_answer ''tools: pre-execute policy panicked: '' (f x))"

definition decisionDenial :: "string \<Rightarrow> pre_decision \<Rightarrow> string" where
  "decisionDenial name d =
     (case d of
        AllowDecision \<Rightarrow> []
      | DenyDecision reason \<Rightarrow> reason
      | AskDecision reason \<Rightarrow> ''tool '' @ Quote name @ '' approval decision was not resolved''
      | NoDecision \<Rightarrow> ''pre-execute policy returned no decision''
      | OtherDecision ty \<Rightarrow> ''unsupported pre-execute decision '' @ ty)"

fun guardDenial :: "tool_guard option list \<Rightarrow> tool_execution \<Rightarrow> string res" where
  "guardDenial [] x = Inr []"
| "guardDenial (None # gs) x = Inl (Errorf ''tools: guard panicked: %v'' [AStr ''nil pointer dereference''])"
| "guardDenial (Some g # gs) x =
     (case g x of
        Inl panic \<Rightarrow> Inl (Errorf ''tools: guard panicked: %v'' [AStr panic])
      | Inr (reason, denied) \<Rightarrow>
          (if denied then Inr (if TrimSpace reason = [] then ''tool execution denied by guard'' else reason)
           else guardDenial gs x))"

text \<open>An evaluation is a permission to ask for, or the reason of a denial (empty for none).\<close>

definition evaluate :: "policies \<Rightarrow> tool_execution \<Rightarrow> (permission + string) tool_res" where
  "evaluate ps x =
     bindT (EvaluateCall ps x) (\<lambda>d.
     case d of
       AskDecision reason \<Rightarrow>
         Inr (Inl \<lparr>permissionTool = toolName x, permissionCall = callId x, permissionReason = reason\<rparr>)
     | _ \<Rightarrow>
         (let reason = decisionDenial (toolName x) d in
          if reason \<noteq> [] then Inr (Inr reason)
          else bindT (faults (guardDenial (policyGuards ps) x)) (\<lambda>denial. Inr (Inr denial))))"

definition approvalDecision :: "string \<Rightarrow> string \<Rightarrow> (pre_decision \<times> bool) res" where
  "approvalDecision name outcome =
     (if outcome = OutcomeAllowedOnce then Inr (AllowDecision, False)
      else if outcome = OutcomeRejected then
        Inr (DenyDecision (''the user rejected tool '' @ Quote name), False)
      else if outcome = OutcomeCancelled then
        Inr (DenyDecision (''approval for tool '' @ Quote name @ '' was cancelled''), True)
      else if outcome = OutcomeUnavailable then
        Inr (DenyDecision (''tool '' @ Quote name @ '' requires approval, but no approval channel is available''), False)
      else Inl (Errorf ''tools: unsupported ApprovalOutcome %q'' [AStr outcome]))"

section \<open>Preparation\<close>

definition entry_finalizer :: "contract option \<Rightarrow> finalizer option" where
  "entry_finalizer e = (case e of None \<Rightarrow> None | Some k \<Rightarrow> finalizeContent (contractDescriptor k))"

definition new_call ::
  "scheduler \<Rightarrow> (nat \<Rightarrow> bool) \<Rightarrow> tool_execution \<Rightarrow> policies \<Rightarrow> tool_call" where
  "new_call s ctx x ps =
     \<lparr>callPolicies = ps, callEntry = map_of (contracts s) (toolName x), callContext = ctx, callExecution = x,
      callPhase = ExecutionUnprepared, bodyInvoked = False, turnConcluded = False, deferredContexts = [],
      callStage = NoStage, preparedApproval = None, preparedResult = None, dispatched = None, settled = None,
      callProblem = None, invocations = [], published = [], contextReads = 0\<rparr>"

text \<open>\<open>prepare\<close>, with a context that is nil or tells at each read whether it is cancelled.\<close>

definition prepare_admitted :: "tool_call \<Rightarrow> tool_call" where
  "prepare_admitted c =
     (let (cancelled, c) = ctx_err c in
      if cancelled then finalPreparation c (abortedResult False None)
      else case evaluate (callPolicies c) (callExecution c) of
        Inl e \<Rightarrow> finalPreparation c (errorResult (Some e))
      | Inr (Inl ask) \<Rightarrow>
          c\<lparr>callPhase := ExecutionAwaitingApproval, callStage := ScheduledApproval, preparedApproval := Some ask\<rparr>
      | Inr (Inr denial) \<Rightarrow>
          if denial \<noteq> [] then postPreparation c (deniedResult denial)
          else
            (let (cancelled, c) = ctx_err c in
             if cancelled then postPreparation c (abortedResult False None) else dispatchPreparation c))"

definition prepare_call ::
  "scheduler \<Rightarrow> (nat \<Rightarrow> bool) option \<Rightarrow> call_input \<Rightarrow> policies \<Rightarrow> tool_call res" where
  "prepare_call s ctx input ps =
     bindE (failIf (list_ex Option.is_none (policyGuards ps)) (err ''tools: guard is required'')) (\<lambda>_.
     let (x, failure) = NewExecution input in
     case ctx of
       None \<Rightarrow>
         Inr ((new_call s (\<lambda>i. False) x ps)\<lparr>callStage := ScheduledFinalResult,
              preparedResult := Some (errorResult (Some (Fault (err ''tools: execution context is nil''))))\<rparr>)
     | Some cancelled \<Rightarrow>
         (let c = new_call s cancelled x ps in
          case failure of
            Some e \<Rightarrow> Inr (finalPreparation c (errorResult (Some (Fault e))))
          | None \<Rightarrow> Inr (prepare_admitted c)))"

text \<open>\<open>applyApproval\<close> refuses a call that awaits no approval.\<close>

definition applyApproval :: "string \<Rightarrow> tool_call \<Rightarrow> tool_call res" where
  "applyApproval outcome c =
     bindE (failIf (callPhase c \<noteq> ExecutionAwaitingApproval) (err ''tools: execution is not awaiting approval'')) (\<lambda>_.
     let c = c\<lparr>callPhase := ExecutionUnprepared\<rparr>;
         x = callExecution c;
         (cancelled, c) = ctx_err c in
     Inr
      (if cancelled then postPreparation c (abortedResult False None)
       else case approvalDecision (toolName x) outcome of
         Inl e \<Rightarrow> finalPreparation c (errorResult (Some (Fault e)))
       | Inr (d, True) \<Rightarrow> postPreparation c (abortedResult False None)
       | Inr (d, False) \<Rightarrow>
           (let denial = decisionDenial (toolName x) d in
            case (if denial = [] then guardDenial (policyGuards (callPolicies c)) x else Inr denial) of
              Inl e \<Rightarrow> finalPreparation c (errorResult (Some (Fault e)))
            | Inr denial \<Rightarrow>
                if denial \<noteq> [] then postPreparation c (deniedResult denial)
                else
                  (let (cancelled, c) = ctx_err c in
                   if cancelled then postPreparation c (abortedResult False None)
                   else dispatchPreparation c))))"

definition permission_json :: "permission \<Rightarrow> json" where
  "permission_json p =
     JObj [(''toolName'', JStr (permissionTool p)), (''callId'', JStr (permissionCall p)),
           (''reason'', JStr (permissionReason p))]"

definition approval_invocation :: "string \<Rightarrow> tool_execution \<Rightarrow> permission \<Rightarrow> tool_execution" where
  "approval_invocation identifier x p =
     \<lparr>callId = identifier, rootCallId = rootCallId x, toolName = ''approval'', callSession = callSession x,
      callArgs = Doc (permission_json p)\<rparr>"

text \<open>The answer of the approval tool: an error of the call, or an outcome to apply.\<close>

definition approval_answer :: "contract \<Rightarrow> body_result \<Rightarrow> string tool_res" where
  "approval_answer entry reply =
     (case bodyErr reply of
        Some e \<Rightarrow> Inl e
      | None \<Rightarrow>
          bindT (faults (ValidateValue entry (bodyValue reply))) (\<lambda>_.
          faults (unmarshal_scalar as_string [] (bodyValue reply))))"

text \<open>
  \<open>requestApproval\<close> for a call that awaits approval; an unconfirmed delivery is the problem that
  stays with the call.
\<close>

definition requestApproval :: "scheduler \<Rightarrow> string \<Rightarrow> tool_call \<Rightarrow> tool_call res" where
  "requestApproval s identifier c =
     (let x = callExecution c; (cancelled, c) = ctx_err c in
      if cancelled then applyApproval OutcomeCancelled c
      else case (map_of (contracts s) ''approval'', preparedApproval c) of
        (None, _) \<Rightarrow> applyApproval OutcomeUnavailable c
      | (Some entry, ask) \<Rightarrow>
          if toolName x = ''approval'' then applyApproval OutcomeUnavailable c
          else case ask of
            None \<Rightarrow> Inr (finalPreparation c (errorResult (Some (Fault (err ''tools: approval request is missing'')))))
          | Some p \<Rightarrow>
              (let i = approval_invocation identifier x p in
               case ValidateArguments entry (callArgs i) of
                 Inl e \<Rightarrow> Inr (finalPreparation c (errorResult (Some (Fault e))))
               | Inr u \<Rightarrow>
                   (case invokeBody s i c of
                      (Inl e, c) \<Rightarrow> Inr (c\<lparr>callProblem := Some (Delivery e)\<rparr>)
                    | (Inr reply, c) \<Rightarrow>
                        (case approval_answer entry reply of
                           Inl e \<Rightarrow> Inr (finalPreparation c (errorResult (Some e)))
                         | Inr outcome \<Rightarrow> applyApproval outcome c))))"

definition PrepareCall ::
  "scheduler \<Rightarrow> (nat \<Rightarrow> bool) option \<Rightarrow> string \<Rightarrow> call_input \<Rightarrow> policies \<Rightarrow> tool_call res" where
  "PrepareCall s ctx identifier input ps =
     bindE (prepare_call s ctx input ps) (\<lambda>c.
     if callStage c \<noteq> ScheduledApproval then Inr c
     else case requestApproval s identifier c of
            Inl e \<Rightarrow> Inr (c\<lparr>callStage := NoStage, preparedApproval := None, callProblem := Some (Fault e)\<rparr>)
          | Inr c' \<Rightarrow> Inr c')"

section \<open>Dispatch\<close>

definition outputError :: "string \<Rightarrow> string \<Rightarrow> tool_error" where
  "outputError name violation = ToolOutputError name [violation]"

definition output_check :: "string \<Rightarrow> string \<Rightarrow> 'a tool_res \<Rightarrow> 'a tool_res" where
  "output_check name prefix r =
     (case r of Inl e \<Rightarrow> Inl (outputError name (prefix @ error_message e)) | Inr x \<Rightarrow> Inr x)"

text \<open>\<open>success\<close>: the validated value with its projections.\<close>

definition success :: "contract \<Rightarrow> tool_call \<Rightarrow> raw \<Rightarrow> tool_success tool_res" where
  "success entry c value =
     (let x = callExecution c; name = toolName x; d = contractDescriptor entry in
      bindT (output_check name ''value is not lossless JSON: '' (faults (Clone value))) (\<lambda>value.
      bindT (output_check name [] (faults (ValidateValue entry value))) (\<lambda>_.
      bindT (output_check name ''output.render failed: ''
               (case outputRenderer d of
                  None \<Rightarrow> Inl (Fault (err ''runtime error: invalid memory address or nil pointer dereference''))
                | Some f \<Rightarrow> recover_answer [] (f (callArgs x) value))) (\<lambda>rendered.
      bindT (output_check name ''output.render returned invalid content: ''
               (faults (CloneContentBlocks rendered))) (\<lambda>blocks.
      bindT (if rootCallId x \<noteq> callId x then Inr Absent
             else case outputPresentation d of
                    None \<Rightarrow> Inr Absent
                  | Some f \<Rightarrow>
                      output_check name ''output.presentationMeta failed: ''
                        (bindT (recover_answer [] (f (callArgs x) value)) (\<lambda>m. faults (Clone m)))) (\<lambda>meta.
      Inr \<lparr>successValue = value, successContent = blocks, successMeta = meta, successContexts = [],
           successConcludes = turnConcluded c\<rparr>))))))"

text \<open>\<open>executeBody\<close> with the state of the context it was delegated.\<close>

definition failure_candidate :: "tool_result \<Rightarrow> candidate" where
  "failure_candidate r =
     (case r of Refused f \<Rightarrow> AuthoredFailure (Some f) | Succeeded s \<Rightarrow> AuthoredSuccess (Some s))"

definition executeBody :: "scheduler \<Rightarrow> bool \<Rightarrow> tool_call \<Rightarrow> candidate tool_res \<times> tool_call" where
  "executeBody s chainCancelled c =
     (let x = callExecution c; (cancelled, c) = ctx_err c in
      if cancelled \<or> chainCancelled then (Inr (failure_candidate (abortedResult False None)), c)
      else case callEntry c of
        None \<Rightarrow> (Inr (failure_candidate (errorResult (Some (ToolNotFoundError (toolName x) [])))), c)
      | Some entry \<Rightarrow>
          (case ValidateArguments entry (callArgs x) of
             Inl e \<Rightarrow> (Inr (failure_candidate (errorResult (Some (ToolArgumentsError [render e])))), c)
           | Inr u \<Rightarrow>
               (case invokeBody s x (markBodyInvoked c) of
                  (Inl e, c) \<Rightarrow> (Inl (Delivery e), c)
                | (Inr body, c) \<Rightarrow>
                    (let c = recordEffects body c in
                     case bodyErr body of
                       Some e \<Rightarrow> (Inr (failure_candidate (errorResult (Some e))), c)
                     | None \<Rightarrow>
                         (case success entry c (bodyValue body) of
                            Inl e \<Rightarrow> (Inr (failure_candidate (errorResult (Some e))), c)
                          | Inr r \<Rightarrow> (Inr (CanonicalSuccess True r), c))))))"

definition terminal :: "scheduler \<Rightarrow> bool option \<Rightarrow> tool_call \<Rightarrow> candidate tool_res \<times> tool_call" where
  "terminal s chain c =
     (case chain of
        None \<Rightarrow> (Inl (Fault (err ''tools: execute Middleware delegated with a nil Context'')), c)
      | Some cancelled \<Rightarrow> executeBody s cancelled c)"

primrec run_middleware :: "scheduler \<Rightarrow> middleware \<Rightarrow> tool_call \<Rightarrow> candidate tool_res \<times> tool_call" where
  "run_middleware s (Replies r) = (\<lambda>c. (Inr r, c))"
| "run_middleware s (Raises e) = (\<lambda>c. (Inl e, c))"
| "run_middleware s (Crashes m) =
     (\<lambda>c. (Inl (Fault (Errorf ''tools: execution middleware panicked: %v'' [AStr m])), c))"
| "run_middleware s (Delegates chain k) =
     (\<lambda>c. case terminal s chain c of (r, c') \<Rightarrow> run_middleware s (k r) c')"

definition ExecuteBody :: "scheduler \<Rightarrow> tool_call \<Rightarrow> candidate tool_res \<times> tool_call" where
  "ExecuteBody s c =
     (case policyExecution (callPolicies c) of
        None \<Rightarrow> terminal s (Some False) c
      | Some f \<Rightarrow> run_middleware s (f (callExecution c)) c)"

definition normalizeAuthoredSuccess :: "tool_call \<Rightarrow> tool_success option \<Rightarrow> tool_result tool_res" where
  "normalizeAuthoredSuccess c authored =
     (case authored of
        None \<Rightarrow> Inl (Fault (err ''tools: execute handler returned a nil success''))
      | Some a \<Rightarrow>
          (case callEntry c of
             None \<Rightarrow> Inl (ToolNotFoundError (toolName (callExecution c)) [])
           | Some entry \<Rightarrow>
               bindT (success entry c (successValue a)) (\<lambda>r.
               faults (appendAdditionalContexts (Succeeded r) (successContexts a)))))"

definition normalize :: "tool_call \<Rightarrow> candidate \<Rightarrow> tool_result tool_res" where
  "normalize c r =
     (case r of
        NilCandidate \<Rightarrow> Inl (Fault (err ''tools: execute handler returned a nil result''))
      | CanonicalSuccess own s \<Rightarrow>
          (if own then faults (CloneResult (Succeeded s)) else normalizeAuthoredSuccess c (Some s))
      | AuthoredSuccess s \<Rightarrow> normalizeAuthoredSuccess c s
      | AuthoredFailure None \<Rightarrow> Inl (Fault (err ''tools: nil failure result''))
      | AuthoredFailure (Some f) \<Rightarrow> faults (CloneResult (Refused f))
      | OtherCandidate ty \<Rightarrow> Inl (Fault (Errorf ''tools: unsupported execution result %T'' [AStr ty])))"

definition invoke :: "scheduler \<Rightarrow> tool_call \<Rightarrow> tool_result tool_res \<times> tool_call" where
  "invoke s c =
     (case ExecuteBody s c of
        (Inl e, c) \<Rightarrow> (Inl e, c)
      | (Inr r, c) \<Rightarrow>
          (case bindT (normalize c r) (\<lambda>n. faults (prependAdditionalContexts n (snapshot_contexts c))) of
             Inl e \<Rightarrow> (Inl e, c)
           | Inr n \<Rightarrow>
               (let (cancelled, c) = ctx_err c in
                (Inr (if cancelled \<and> \<not> Failed n then abortedResult (bodyInvoked c) (Some n) else n), c))))"

definition completeDispatch :: "tool_call \<Rightarrow> tool_call" where
  "completeDispatch c =
     (if callPhase c = ExecutionDispatching then c\<lparr>callPhase := ExecutionPreparedForPost\<rparr> else c)"

definition dispatchBody :: "scheduler \<Rightarrow> tool_call \<Rightarrow> tool_result tool_res \<times> tool_call" where
  "dispatchBody s c =
     (if callPhase c \<noteq> ExecutionPreparedForDispatch then
        (Inl (Fault (err ''tools: execution is not prepared for dispatch'')), c)
      else case invoke s (c\<lparr>callPhase := ExecutionDispatching\<rparr>) of
        (Inr r, c) \<Rightarrow> (Inr r, completeDispatch c)
      | (Inl e, c) \<Rightarrow>
          (case as_delivery e of
             Some unconfirmed \<Rightarrow> (Inl unconfirmed, completeDispatch c)
           | None \<Rightarrow> (Inr (errorResult (Some e)), completeDispatch c)))"

text \<open>The operations of a call return nil or an error.\<close>

definition Dispatch :: "scheduler \<Rightarrow> tool_call \<Rightarrow> tool_error option \<times> tool_call" where
  "Dispatch s c =
     (case callProblem c of
        Some e \<Rightarrow> (Some e, c)
      | None \<Rightarrow>
          (case dispatchBody s c of
             (Inr r, c) \<Rightarrow> (None, c\<lparr>dispatched := Some r\<rparr>)
           | (Inl e, c) \<Rightarrow> (Some e, if as_delivery e \<noteq> None then c\<lparr>callProblem := Some e\<rparr> else c)))"

section \<open>The final result\<close>

definition ReviewResult :: "policies \<Rightarrow> tool_execution \<Rightarrow> tool_result \<Rightarrow> post_decision tool_res" where
  "ReviewResult ps x shown =
     (case policyAfter ps of
        None \<Rightarrow> Inr (AcceptDecision [])
      | Some f \<Rightarrow> recover_answer ''tools: post-execute policy panicked: '' (f x shown))"

definition applyPostDecision :: "tool_call \<Rightarrow> tool_result \<Rightarrow> post_decision \<Rightarrow> tool_result tool_res" where
  "applyPostDecision c outcome d =
     (case d of
        AcceptDecision contexts \<Rightarrow> faults (appendAdditionalContexts outcome contexts)
      | ReplaceContentDecision blocks contexts \<Rightarrow>
          bindT (faults (CloneContentBlocks blocks)) (\<lambda>bs.
          faults (appendAdditionalContexts (replaceResultContent outcome bs) contexts))
      | ReplaceValueDecision value contexts \<Rightarrow>
          (if Failed outcome then
             Inl (Fault (err ''tools: post-execute cannot replace the value of a failed result''))
           else case callEntry c of
             None \<Rightarrow> Inl (ToolNotFoundError (toolName (callExecution c)) [])
           | Some entry \<Rightarrow>
               bindT (success entry c value) (\<lambda>r.
               faults (appendAdditionalContexts (Succeeded r) (AdditionalContextMessages outcome @ contexts))))
      | BlockDecision feedback contexts \<Rightarrow>
          bindT (faults (CloneContentBlocks feedback)) (\<lambda>bs.
          faults (appendAdditionalContexts
            (Refused \<lparr>refusalError = \<lparr>failureText = failureMessage bs, failureRoute = None\<rparr>,
               refusalContent = bs, refusalMeta = Absent, refusalContexts = []\<rparr>) contexts))
      | NoReview \<Rightarrow> Inl (Fault (err ''tools: post-execute returned a nil decision''))
      | OtherReview ty \<Rightarrow> Inl (Fault (Errorf ''tools: unsupported post-execute decision %T'' [AStr ty])))"

definition post_result :: "tool_call \<Rightarrow> tool_result \<Rightarrow> tool_result tool_res" where
  "post_result c outcome =
     bindT (faults (CloneResult outcome)) (\<lambda>detached.
     bindT (faults (SnapshotResult detached)) (\<lambda>shown.
     bindT (ReviewResult (callPolicies c) (callExecution c) shown) (\<lambda>d.
     applyPostDecision c detached d)))"

definition clone_or_error :: "tool_result \<Rightarrow> tool_result" where
  "clone_or_error r = (case CloneResult r of Inl e \<Rightarrow> errorResult (Some (Fault e)) | Inr d \<Rightarrow> d)"

text \<open>The content finalizer; its panic and an invalid view become the result.\<close>

definition finalize_content :: "finalizer option \<Rightarrow> tool_execution \<Rightarrow> tool_result \<Rightarrow> tool_result" where
  "finalize_content finalizer x r =
     (case finalizer of
        None \<Rightarrow> r
      | Some f \<Rightarrow>
          (case SnapshotResult r of
             Inl e \<Rightarrow> errorResult (Some (Fault e))
           | Inr shown \<Rightarrow>
               (case f x shown of
                  Inl panic \<Rightarrow>
                    errorResult (Some (Fault (Errorf ''tools: content finalizer panicked: %v'' [AStr panic])))
                | Inr (blocks, replaceContent) \<Rightarrow>
                    if \<not> replaceContent then r
                    else case CloneContentBlocks blocks of
                           Inl e \<Rightarrow> errorResult (Some (Fault e))
                         | Inr bs \<Rightarrow> replaceResultContent r bs)))"

definition finishResult :: "tool_result \<Rightarrow> tool_call \<Rightarrow> tool_result \<times> tool_call" where
  "finishResult outcome c =
     (let materialized = clone_or_error
            (finalize_content (entry_finalizer (callEntry c)) (callExecution c) (clone_or_error outcome));
          observed = (case SnapshotResult materialized of
                        Inl e \<Rightarrow> errorResult (Some (Fault e)) | Inr shown \<Rightarrow> materialized) in
      (clone_or_error observed,
       if policyResults (callPolicies c) then c\<lparr>published := published c @ [observed]\<rparr> else c))"

definition completeFinalization :: "tool_call \<Rightarrow> tool_call" where
  "completeFinalization c =
     (if callPhase c = ExecutionFinalizing then c\<lparr>callPhase := ExecutionCompleted\<rparr> else c)"

definition finalize_call :: "tool_result \<Rightarrow> tool_call \<Rightarrow> tool_result tool_res \<times> tool_call" where
  "finalize_call outcome c =
     (if callPhase c \<noteq> ExecutionPreparedForPost then
        (Inl (Fault (err ''tools: execution is not prepared for post-execute finalization'')), c)
      else
        (let c = c\<lparr>callPhase := ExecutionFinalizing\<rparr>;
             (reviewed, c) =
               (case post_result c outcome of
                  Inl e \<Rightarrow> (errorResult (Some e), c)
                | Inr r \<Rightarrow>
                    (let (cancelled, c) = ctx_err c in
                     (if cancelled \<and> \<not> Failed r then abortedResult (bodyInvoked c) (Some r) else r, c)));
             (final, c) = finishResult reviewed c in
         (Inr final, completeFinalization c)))"

definition finish_call :: "tool_result \<Rightarrow> tool_call \<Rightarrow> tool_result \<times> tool_call" where
  "finish_call outcome c =
     (if callPhase c \<noteq> ExecutionPreparedForFinish then
        (errorResult (Some (Fault (err ''tools: execution is not prepared for terminal finalization''))), c)
      else
        (let (final, c) = finishResult outcome (c\<lparr>callPhase := ExecutionFinalizing\<rparr>) in
         (final, completeFinalization c)))"

definition settle :: "tool_result tool_res \<times> tool_call \<Rightarrow> tool_error option \<times> tool_call" where
  "settle rc =
     (case rc of (Inl e, c) \<Rightarrow> (Some e, c) | (Inr r, c) \<Rightarrow> (None, c\<lparr>settled := Some r\<rparr>))"

text \<open>A result that its preparation lacks is nil, which the code cannot reach.\<close>

definition Finalize :: "tool_call \<Rightarrow> tool_error option \<times> tool_call" where
  "Finalize c =
     (case (callProblem c, settled c) of
        (Some e, _) \<Rightarrow> (Some e, c)
      | (None, Some r) \<Rightarrow> (None, c)
      | (None, None) \<Rightarrow>
          (case (callStage c, dispatched c, preparedResult c) of
             (ScheduledDispatch, None, _) \<Rightarrow> (Some (Fault (err ''tools: body has not returned'')), c)
           | (ScheduledDispatch, Some r, _) \<Rightarrow> settle (finalize_call r c)
           | (ScheduledPostResult, _, Some r) \<Rightarrow> settle (finalize_call r c)
           | (ScheduledFinalResult, _, Some r) \<Rightarrow>
               (let (final, c) = finish_call r c in settle (Inr final, c))
           | (_, _, _) \<Rightarrow> (Some (Fault (err ''tools: approval is not settled'')), c)))"

definition CallResult :: "tool_call \<Rightarrow> tool_result tool_res" where
  "CallResult c =
     (case (callProblem c, settled c) of
        (Some e, _) \<Rightarrow> Inl e
      | (None, None) \<Rightarrow> Inl (Fault (err ''tools: execution has not settled''))
      | (None, Some r) \<Rightarrow> faults (CloneResult r))"

section \<open>Schedulers\<close>

fun compile_all :: "compiler \<Rightarrow> descriptor list \<Rightarrow> (string, contract) go_map \<Rightarrow> (string, contract) go_map res" where
  "compile_all compile [] compiled = Inr compiled"
| "compile_all compile (d # ds) compiled =
     bindE (CompileDescriptor compile d) (\<lambda>entry.
     bindE (failIf (map_of compiled (descriptorName d) \<noteq> None) (err ''tools: duplicate execution descriptor'')) (\<lambda>_.
     compile_all compile ds (put compiled (descriptorName d) entry)))"

definition NewScheduler ::
  "compiler \<Rightarrow> descriptor list \<Rightarrow> (nat \<Rightarrow> tool_execution \<Rightarrow> body_result answer) option \<Rightarrow> scheduler res" where
  "NewScheduler compile descriptions invoker =
     (case invoker of
        None \<Rightarrow> Inl (err ''tools: body invoker is required'')
      | Some f \<Rightarrow>
          bindE (compile_all compile descriptions []) (\<lambda>compiled. Inr \<lparr>contracts = compiled, bodies = f\<rparr>))"

datatype execution_mode = ExecutionParallel | ExecutionExclusive

definition ExecutionMode :: "scheduler \<Rightarrow> call_input \<Rightarrow> execution_mode" where
  "ExecutionMode s input =
     (case Clone (inputArguments input) of
        Inl e \<Rightarrow> ExecutionExclusive
      | Inr args \<Rightarrow>
          (case map_of (contracts s) (inputName input) of
             None \<Rightarrow> ExecutionExclusive
           | Some entry \<Rightarrow>
               (case concurrencyBehavior (contractDescriptor entry) of
                  None \<Rightarrow> ExecutionExclusive
                | Some classifier \<Rightarrow>
                    if ValidateArguments entry args \<noteq> Inr () then ExecutionExclusive
                    else if classifier args = Inr True then ExecutionParallel else ExecutionExclusive)))"

end
