(* ===== verification/ToolExecutionLaws.thy ===== *)
theory ToolExecutionLaws
  imports ToolExecution
begin

text \<open>
  Invariants of a tool call: what preparation establishes, which calls reach their body, that a
  call settles with a valid result or keeps an unconfirmed delivery, and that the result which is
  returned is the one the observer was given.
\<close>

section \<open>Results are copied and valid\<close>

definition valid_result :: "tool_result \<Rightarrow> bool" where
  "valid_result r = (CloneResult r = Inr r)"

lemma cloneUserMessages_same: "cloneUserMessages_tools ms = Inr ns \<Longrightarrow> ns = ms"
  by (auto simp: cloneUserMessages_tools_def imapE_iff wrapE_Inr_iff dest: CloneUserMessage_same intro!: nth_equalityI)

lemma CloneResult_same: "CloneResult r = Inr d \<Longrightarrow> d = r"
  by (cases r) (auto simp: res_iff Clone_def cloneOptionalJSON_def split: if_splits
      dest!: CloneContentBlocks_same cloneUserMessages_same)

lemma CloneResult_valid: "CloneResult r = Inr d \<Longrightarrow> valid_result d"
  using CloneResult_same by (auto simp: valid_result_def)

text \<open>Every error of a copy has a text, so the failure made from it is valid.\<close>

lemma NewOpaqueContentBlock_text: "NewOpaqueContentBlock t r = Inl e \<Longrightarrow> render e \<noteq> []"
  by (cases r rule: unmarshal_map.cases)
    (auto simp: NewOpaqueContentBlock_def bindE_Inl_iff failIf_def type_error_def syntax_error_def split: if_splits)

lemma clone_content_text:
  "CloneContent b = Inl e \<Longrightarrow> render e \<noteq> []"
  "CloneBlocksFrom i bs = Inl e \<Longrightarrow> render e \<noteq> []"
  by (induction b and i bs arbitrary: e and e rule: CloneContent_CloneBlocksFrom.induct)
    (auto simp: bindE_Inl_iff failIf_def invalid_block_def split: if_splits dest: NewOpaqueContentBlock_text)

lemma CloneContentBlocks_text: "CloneContentBlocks bs = Inl e \<Longrightarrow> render e \<noteq> []"
  by (auto simp: CloneContentBlocks_def dest: clone_content_text)

lemma wrapE_Inl_iff: "wrapE w m = Inl e \<longleftrightarrow> (\<exists>d. m = Inl d \<and> e = w d)"
  by (cases m) auto

lemma CloneResult_text: "CloneResult r = Inl e \<Longrightarrow> render e \<noteq> []"
  by (cases r) (auto simp: bindE_Inl_iff failIf_def wrapE_Inl_iff split: if_splits dest: CloneContentBlocks_text)

lemma error_valid: "error_message e \<noteq> [] \<Longrightarrow> valid_result (errorResult (Some e))"
  by (simp add: valid_result_def errorResult_def plain_refusal_def CloneContentBlocks_def cloneOptionalJSON_def
      cloneUserMessages_tools_def)

lemma clone_or_error_valid: "valid_result (clone_or_error r)"
proof (cases "CloneResult r")
  case (Inl e)
  then show ?thesis using error_valid [of "Fault e"] CloneResult_text by (simp add: clone_or_error_def)
qed (auto simp: clone_or_error_def dest: CloneResult_valid)

lemma clone_or_error_id: "valid_result r \<Longrightarrow> clone_or_error r = r"
  by (simp add: valid_result_def clone_or_error_def)

lemma finishResult_settles:
  "\<exists>r. finishResult outcome c = (r, if policyResults (callPolicies c) then c\<lparr>published := published c @ [r]\<rparr> else c) \<and>
     valid_result r"
proof -
  define m where "m = clone_or_error
    (finalize_content (entry_finalizer (callEntry c)) (callExecution c) (clone_or_error outcome))"
  have "valid_result m" unfolding m_def by (rule clone_or_error_valid)
  then have "SnapshotResult m = Inr m" "clone_or_error m = m" by (simp_all add: valid_result_def clone_or_error_id)
  then have "finishResult outcome c = (m, if policyResults (callPolicies c) then c\<lparr>published := published c @ [m]\<rparr> else c)"
    unfolding finishResult_def m_def [symmetric] Let_def by simp
  with \<open>valid_result m\<close> show ?thesis by blast
qed

section \<open>Preparation\<close>

text \<open>The guards a call passes, and the approval that lets it through.\<close>

definition unguarded :: "policies \<Rightarrow> tool_execution \<Rightarrow> bool" where
  "unguarded ps x = list_all (\<lambda>g. \<exists>f reason. g = Some f \<and> f x = Inr (reason, False)) (policyGuards ps)"

lemma TrimSpace_Nil [simp]: "TrimSpace [] = []"
  by code_simp

lemma guardDenial_none: "guardDenial gs x = Inr [] \<Longrightarrow> list_all (\<lambda>g. \<exists>f reason. g = Some f \<and> f x = Inr (reason, False)) gs"
  by (induction gs x rule: guardDenial.induct) (auto split: sum.splits prod.splits if_splits)

definition approved_once :: "scheduler \<Rightarrow> string \<Rightarrow> tool_execution \<Rightarrow> string \<Rightarrow> bool" where
  "approved_once s identifier x reason \<longleftrightarrow>
     (\<exists>entry reply. map_of (contracts s) ''approval'' = Some entry \<and> toolName x \<noteq> ''approval'' \<and>
        bodies s 0 (approval_invocation identifier x
          \<lparr>permissionTool = toolName x, permissionCall = callId x, permissionReason = reason\<rparr>) = Returns reply \<and>
        approval_answer entry reply = Inr OutcomeAllowedOnce)"

text \<open>
  The policy lets a call through when it allows it, when it denies it without a reason, or when it
  asks and the user allows it once.
\<close>

definition cleared :: "scheduler \<Rightarrow> string \<Rightarrow> policies \<Rightarrow> tool_execution \<Rightarrow> bool" where
  "cleared s identifier ps x \<longleftrightarrow>
     unguarded ps x \<and>
     (EvaluateCall ps x = Inr AllowDecision \<or> EvaluateCall ps x = Inr (DenyDecision []) \<or>
      (\<exists>reason. EvaluateCall ps x = Inr (AskDecision reason) \<and> approved_once s identifier x reason))"

definition staged :: "tool_call \<Rightarrow> bool" where
  "staged c \<longleftrightarrow>
     (case callStage c of
        ScheduledDispatch \<Rightarrow> callPhase c = ExecutionPreparedForDispatch
      | ScheduledPostResult \<Rightarrow> callPhase c = ExecutionPreparedForPost \<and> preparedResult c \<noteq> None
      | ScheduledFinalResult \<Rightarrow> callPhase c = ExecutionPreparedForFinish \<and> preparedResult c \<noteq> None
      | _ \<Rightarrow> False)"

definition fresh_call :: "scheduler \<Rightarrow> policies \<Rightarrow> tool_execution \<Rightarrow> tool_call \<Rightarrow> bool" where
  "fresh_call s ps x c \<longleftrightarrow>
     callPolicies c = ps \<and> callExecution c = x \<and> callEntry c = map_of (contracts s) (toolName x) \<and>
     \<not> bodyInvoked c \<and> dispatched c = None \<and> settled c = None \<and> published c = []"

text \<open>Whether every invocation handed to the invoker so far returned, with a reply or with the body's error in it.\<close>

definition confirmed :: "scheduler \<Rightarrow> tool_call \<Rightarrow> bool" where
  "confirmed s c \<longleftrightarrow>
     list_all (\<lambda>n. case bodies s n (invocations c ! n) of Returns b \<Rightarrow> True | _ \<Rightarrow> False) [0..<length (invocations c)]"

text \<open>What a preparation leaves: only an unconfirmed approval body is a problem of the call.\<close>

definition prepared :: "scheduler \<Rightarrow> string \<Rightarrow> policies \<Rightarrow> tool_execution \<Rightarrow> tool_call \<Rightarrow> bool" where
  "prepared s identifier ps x c \<longleftrightarrow>
     fresh_call s ps x c \<and>
     (if callProblem c = None then staged c else (\<exists>d. callProblem c = Some (Delivery d)) \<and> \<not> confirmed s c) \<and>
     (callPhase c = ExecutionPreparedForDispatch \<longrightarrow> cleared s identifier ps x)"

lemmas preparation_defs = finalPreparation_def postPreparation_def dispatchPreparation_def

lemma fresh_new: "fresh_call s ps x (new_call s ctx x ps)"
  by (simp add: fresh_call_def new_call_def)

lemma fresh_updates [simp]:
  "fresh_call s ps x (c\<lparr>contextReads := n\<rparr>) = fresh_call s ps x c"
  "fresh_call s ps x (c\<lparr>callPhase := p\<rparr>) = fresh_call s ps x c"
  "fresh_call s ps x (c\<lparr>callStage := st\<rparr>) = fresh_call s ps x c"
  "fresh_call s ps x (c\<lparr>callProblem := e\<rparr>) = fresh_call s ps x c"
  "fresh_call s ps x (c\<lparr>preparedApproval := a\<rparr>) = fresh_call s ps x c"
  "fresh_call s ps x (c\<lparr>preparedResult := r\<rparr>) = fresh_call s ps x c"
  "fresh_call s ps x (c\<lparr>invocations := is\<rparr>) = fresh_call s ps x c"
  by (simp_all add: fresh_call_def)

lemma prepared_results [simp]:
  "callProblem c = None \<Longrightarrow> prepared s i ps x (finalPreparation c r) \<longleftrightarrow> fresh_call s ps x c"
  "callProblem c = None \<Longrightarrow> prepared s i ps x (postPreparation c r) \<longleftrightarrow> fresh_call s ps x c"
  "callProblem c = None \<Longrightarrow>
     prepared s i ps x (dispatchPreparation c) \<longleftrightarrow> fresh_call s ps x c \<and> cleared s i ps x"
  by (auto simp: prepared_def preparation_defs staged_def)

lemma decisionDenial_none: "decisionDenial n d = [] \<Longrightarrow> d = AllowDecision \<or> d = DenyDecision []"
  by (cases d) (auto simp: decisionDenial_def)

lemma evaluate_ask:
  "evaluate ps x = Inr (Inl p) \<Longrightarrow> \<exists>reason. EvaluateCall ps x = Inr (AskDecision reason) \<and>
     p = \<lparr>permissionTool = toolName x, permissionCall = callId x, permissionReason = reason\<rparr>"
proof -
  assume e: "evaluate ps x = Inr (Inl p)"
  then obtain d where d: "EvaluateCall ps x = Inr d" by (auto simp: evaluate_def bindT_Inr_iff)
  with e show ?thesis
    by (cases d) (auto simp: evaluate_def bindT_Inr_iff Let_def split: if_splits)
qed

lemma evaluate_allows:
  assumes "evaluate ps x = Inr (Inr [])"
  shows "cleared s i ps x"
proof -
  obtain d where d0: "EvaluateCall ps x = Inr d" using assms by (auto simp: evaluate_def bindT_Inr_iff)
  with assms have "decisionDenial (toolName x) d = [] \<and> guardDenial (policyGuards ps) x = Inr []"
    by (cases d) (auto simp: evaluate_def bindT_Inr_iff faults_Inr_iff Let_def split: if_splits)
  with d0 have d: "EvaluateCall ps x = Inr d" "decisionDenial (toolName x) d = []"
    "guardDenial (policyGuards ps) x = Inr []" by simp_all
  then show ?thesis using decisionDenial_none [OF d(2)] guardDenial_none [OF d(3)]
    by (auto simp: cleared_def unguarded_def)
qed

text \<open>A call that awaits approval asks what the policy asked.\<close>

definition awaiting :: "scheduler \<Rightarrow> policies \<Rightarrow> tool_execution \<Rightarrow> tool_call \<Rightarrow> bool" where
  "awaiting s ps x c \<longleftrightarrow>
     fresh_call s ps x c \<and> callStage c = ScheduledApproval \<and> callPhase c = ExecutionAwaitingApproval \<and>
     callProblem c = None \<and> invocations c = [] \<and>
     (\<exists>reason. EvaluateCall ps x = Inr (AskDecision reason) \<and>
        preparedApproval c = Some \<lparr>permissionTool = toolName x, permissionCall = callId x, permissionReason = reason\<rparr>)"

lemma stages [simp]:
  "callStage (finalPreparation c r) = ScheduledFinalResult"
  "callStage (postPreparation c r) = ScheduledPostResult"
  "callStage (dispatchPreparation c) = ScheduledDispatch"
  "invocations (finalPreparation c r) = invocations c"
  "invocations (postPreparation c r) = invocations c"
  "invocations (dispatchPreparation c) = invocations c"
  by (simp_all add: preparation_defs)

lemma prepare_admitted_cases:
  assumes "fresh_call s ps x c" "callProblem c = None" "invocations c = []"
  shows "if callStage (prepare_admitted c) = ScheduledApproval then awaiting s ps x (prepare_admitted c)
    else prepared s i ps x (prepare_admitted c)"
proof -
  let ?c = "c\<lparr>contextReads := Suc (contextReads c)\<rparr>"
  have p: "callPolicies c = ps" "callExecution c = x" using assms(1) by (simp_all add: fresh_call_def)
  show ?thesis
  proof (cases "callContext c (contextReads c)")
    case True
    then show ?thesis using assms(1,2) by (simp add: prepare_admitted_def ctx_err_def)
  next
    case False
    note live = this
    show ?thesis
    proof (cases "evaluate ps x")
      case (Inl e)
      then show ?thesis using assms(1,2) live p by (simp add: prepare_admitted_def ctx_err_def)
    next
      case (Inr r)
      show ?thesis
      proof (cases r)
        case (Inl ask)
        then show ?thesis using assms live p Inr evaluate_ask [of ps x ask]
          by (auto simp: prepare_admitted_def ctx_err_def awaiting_def)
      next
        case denial: (Inr denial)
        then show ?thesis using assms live p Inr evaluate_allows [of ps x s i]
          by (auto simp: prepare_admitted_def ctx_err_def)
      qed
    qed
  qed
qed

lemma applyApproval_prepared:
  assumes "fresh_call s ps x c" "callPhase c = ExecutionAwaitingApproval" "callProblem c = None"
    "outcome = OutcomeAllowedOnce \<Longrightarrow> \<exists>reason. EvaluateCall ps x = Inr (AskDecision reason) \<and> approved_once s i x reason"
  shows "\<exists>c'. applyApproval outcome c = Inr c' \<and> prepared s i ps x c' \<and> invocations c' = invocations c"
proof -
  have p: "callPolicies c = ps" "callExecution c = x" using assms(1) by (simp_all add: fresh_call_def)
  have allow: "outcome = OutcomeAllowedOnce"
    if "approvalDecision n outcome = Inr (d, b)" "decisionDenial n' d = []" for n n' d b
    using that by (auto simp: approvalDecision_def decisionDenial_def split: if_splits)
  have "cleared s i ps x"
    if "approvalDecision n outcome = Inr (d, b)" "decisionDenial n' d = []" "guardDenial (policyGuards ps) x = Inr []"
    for n n' d b
    using assms(4) allow [OF that(1,2)] guardDenial_none [OF that(3)] by (auto simp: cleared_def unguarded_def)
  then show ?thesis
    using assms(1-3) p
    by (auto simp: applyApproval_def ctx_err_def Let_def split: sum.splits prod.splits bool.splits)
qed

lemma requestApproval_prepared:
  assumes "awaiting s ps x c"
  shows "\<exists>c'. requestApproval s i c = Inr c' \<and> prepared s i ps x c' \<and>
    list_all (\<lambda>v. toolName v = ''approval'') (invocations c')"
proof -
  let ?c = "c\<lparr>contextReads := Suc (contextReads c)\<rparr>"
  obtain reason where a: "fresh_call s ps x c" "callPhase c = ExecutionAwaitingApproval" "invocations c = []"
    "EvaluateCall ps x = Inr (AskDecision reason)" "preparedApproval c =
      Some \<lparr>permissionTool = toolName x, permissionCall = callId x, permissionReason = reason\<rparr>" "callProblem c = None"
    using assms unfolding awaiting_def by blast
  have x: "callExecution c = x" using a(1) by (simp add: fresh_call_def)
  have decided: "\<exists>c'. applyApproval outcome d = Inr c' \<and> prepared s i ps x c' \<and>
      list_all (\<lambda>v. toolName v = ''approval'') (invocations c')"
    if "outcome = OutcomeAllowedOnce \<Longrightarrow> approved_once s i x reason" "fresh_call s ps x d"
      "callPhase d = ExecutionAwaitingApproval" "callProblem d = None"
      "list_all (\<lambda>v. toolName v = ''approval'') (invocations d)" for outcome d
    using applyApproval_prepared [OF that(2-4), of outcome i] a(4) that(1,5) by auto
  show ?thesis
  proof (cases "callContext c (contextReads c)")
    case True
    then show ?thesis using decided [of OutcomeCancelled ?c] a x
      by (simp add: requestApproval_def ctx_err_def approval_names)
  next
    case False
    note live = this
    show ?thesis
    proof (cases "map_of (contracts s) ''approval'' = None \<or> toolName x = ''approval''")
      case True
      then show ?thesis using decided [of OutcomeUnavailable ?c] a x live
        by (auto simp: requestApproval_def ctx_err_def approval_names split: option.splits)
    next
      case False
      then obtain entry where entry: "map_of (contracts s) ''approval'' = Some entry" "toolName x \<noteq> ''approval''" by auto
      let ?p = "\<lparr>permissionTool = toolName x, permissionCall = callId x, permissionReason = reason\<rparr>"
      let ?i = "approval_invocation i x ?p"
      have name: "toolName ?i = ''approval''" by (simp add: approval_invocation_def)
      have req: "requestApproval s i c = (case ValidateArguments entry (callArgs ?i) of
          Inl e \<Rightarrow> Inr (finalPreparation ?c (errorResult (Some (Fault e))))
        | Inr u \<Rightarrow> (case invokeBody s ?i ?c of
            (Inl e, c) \<Rightarrow> Inr (c\<lparr>callProblem := Some (Delivery e)\<rparr>)
          | (Inr reply, c) \<Rightarrow> (case approval_answer entry reply of
              Inl e \<Rightarrow> Inr (finalPreparation c (errorResult (Some e)))
            | Inr outcome \<Rightarrow> applyApproval outcome c)))"
        using live entry a x by (simp add: requestApproval_def ctx_err_def Let_def)
      show ?thesis
      proof (cases "ValidateArguments entry (callArgs ?i)")
        case (Inl e)
        then show ?thesis using req a by simp
      next
        case (Inr u)
        let ?d = "?c\<lparr>invocations := [?i]\<rparr>"
        show ?thesis
        proof (cases "bodies s 0 ?i")
          case (Returns reply)
          have inv: "invokeBody s ?i ?c = (Inr reply, ?d)" using Returns a(3) by (simp add: invokeBody_def)
          show ?thesis
          proof (cases "approval_answer entry reply")
            case (Inl e)
            then show ?thesis using req Inr inv a name by simp
          next
            case answer: (Inr outcome)
            have "approved_once s i x reason" if "outcome = OutcomeAllowedOnce"
              using entry Returns answer that by (auto simp: approved_once_def)
            from decided [of outcome ?d, OF this] show ?thesis using req Inr inv a name answer by simp
          qed
        qed (use req Inr a name in \<open>auto simp: invokeBody_def prepared_def confirmed_def\<close>)
      qed
    qed
  qed
qed

text \<open>A call prepared without a context is left in the phase it was made in.\<close>

definition without_context :: "scheduler \<Rightarrow> tool_execution \<Rightarrow> policies \<Rightarrow> tool_call" where
  "without_context s x ps =
     (new_call s (\<lambda>i. False) x ps)\<lparr>callStage := ScheduledFinalResult,
       preparedResult := Some (errorResult (Some (Fault (err ''tools: execution context is nil''))))\<rparr>"

lemma PrepareCall_nil: "PrepareCall s None i input ps = Inr c \<Longrightarrow> c = without_context s (fst (NewExecution input)) ps"
  by (auto simp: PrepareCall_def prepare_call_def without_context_def bindE_Inr_iff Let_def split: prod.splits if_splits)

lemma PrepareCall_prepared:
  assumes "PrepareCall s (Some cancelled) i input ps = Inr c"
  shows "prepared s i ps (fst (NewExecution input)) c \<and>
    list_all (\<lambda>v. toolName v = ''approval'') (invocations c)"
proof -
  let ?x = "fst (NewExecution input)"
  obtain c0 where c0: "prepare_call s (Some cancelled) input ps = Inr c0"
    "(if callStage c0 \<noteq> ScheduledApproval then Inr c0
      else case requestApproval s i c0 of
             Inl e \<Rightarrow> Inr (c0\<lparr>callStage := NoStage, preparedApproval := None, callProblem := Some (Fault e)\<rparr>)
           | Inr c' \<Rightarrow> Inr c') = (Inr c :: tool_call res)"
    using assms unfolding PrepareCall_def bindE_Inr_iff by blast
  let ?c = "new_call s cancelled ?x ps"
  have new: "fresh_call s ps ?x ?c" "callProblem ?c = None" "invocations ?c = []" "callPhase ?c = ExecutionUnprepared"
    using fresh_new by (simp_all add: new_call_def)
  consider (failed) e where "c0 = finalPreparation ?c (errorResult (Some (Fault e)))"
    | (admitted) "c0 = prepare_admitted ?c"
    using c0(1) by (auto simp: prepare_call_def bindE_Inr_iff Let_def split: option.splits prod.splits)
  then have "if callStage c0 = ScheduledApproval then awaiting s ps ?x c0
      else prepared s i ps ?x c0 \<and> invocations c0 = []"
  proof cases
    case (failed e)
    then show ?thesis using new by simp
  next
    case admitted
    have "invocations (prepare_admitted ?c) = []"
      using new(3) by (auto simp: prepare_admitted_def ctx_err_def Let_def split: sum.splits)
    then show ?thesis using prepare_admitted_cases [OF new(1-3), of i] admitted by auto
  qed
  then show ?thesis using c0(2) requestApproval_prepared [of s ps ?x c0 i] by (auto split: if_splits)
qed

end
