(* ===== verification/ToolRuns.thy ===== *)
theory ToolRuns
  imports ToolExecutionLaws
begin

text \<open>
  Dispatch, finalization and the runs of a call: which state a dispatch changes, how often it invokes
  the body, and the invariant that joins the stage of a call, its phase and its results.
\<close>

section \<open>What a dispatch changes\<close>

definition args_accepted :: "tool_call \<Rightarrow> bool" where
  "args_accepted c \<longleftrightarrow>
     (\<exists>entry. callEntry c = Some entry \<and> ValidateArguments entry (callArgs (callExecution c)) = Inr ())"

text \<open>A step keeps all that the dispatch does not own.\<close>

definition body_steps :: "nat \<Rightarrow> tool_call \<Rightarrow> tool_call \<Rightarrow> bool" where
  "body_steps n c c' \<longleftrightarrow>
     callPolicies c' = callPolicies c \<and> callEntry c' = callEntry c \<and> callContext c' = callContext c \<and>
     callExecution c' = callExecution c \<and> callPhase c' = callPhase c \<and> callStage c' = callStage c \<and>
     preparedApproval c' = preparedApproval c \<and> preparedResult c' = preparedResult c \<and>
     dispatched c' = dispatched c \<and> settled c' = settled c \<and> callProblem c' = callProblem c \<and>
     published c' = published c \<and> invocations c' = invocations c @ replicate n (callExecution c) \<and>
     (0 < n \<longrightarrow> args_accepted c) \<and> (bodyInvoked c' \<longleftrightarrow> bodyInvoked c \<or> 0 < n)"

lemma body_steps_refl: "body_steps 0 c c"
  by (simp add: body_steps_def)

lemma body_steps_read [simp]: "body_steps n c (c'\<lparr>contextReads := k\<rparr>) = body_steps n c c'"
  by (simp add: body_steps_def)

lemma body_steps_trans: "body_steps m c c' \<Longrightarrow> body_steps n c' c'' \<Longrightarrow> body_steps (m + n) c c''"
  by (auto simp: body_steps_def args_accepted_def replicate_add)

lemma body_steps_fields:
  assumes "body_steps n c c'"
  shows "callPolicies c' = callPolicies c" "callEntry c' = callEntry c" "callExecution c' = callExecution c"
    "callPhase c' = callPhase c" "callStage c' = callStage c" "preparedResult c' = preparedResult c"
    "dispatched c' = dispatched c" "settled c' = settled c" "callProblem c' = callProblem c"
    "published c' = published c" "invocations c' = invocations c @ replicate n (callExecution c)"
    "0 < n \<Longrightarrow> args_accepted c"
  using assms by (simp_all add: body_steps_def)

text \<open>The body is invoked at most once each time the middleware delegates to it.\<close>

lemma executeBody_steps:
  assumes "callPhase c = ExecutionDispatching" "executeBody s b c = (r, c')"
  shows "\<exists>n \<le> 1. body_steps n c c' \<and> (\<forall>e. r = Inl e \<longrightarrow> n = 1 \<and> (\<exists>d. e = Delivery d)) \<and>
    (n = 1 \<longrightarrow> (\<exists>d. r = Inl (Delivery d)) = (\<forall>body. bodies s (length (invocations c)) (callExecution c) \<noteq> Returns body))"
proof -
  let ?x = "callExecution c"
  let ?c = "c\<lparr>contextReads := Suc (contextReads c)\<rparr>"
  have quiet: "body_steps 0 c ?c" by (simp add: body_steps_refl)
  consider (early) out where "(r, c') = (Inr out, ?c)"
    | (called) entry where "callEntry c = Some entry" "ValidateArguments entry (callArgs ?x) = Inr ()"
        "(r, c') = (case invokeBody s ?x (markBodyInvoked ?c) of
                  (Inl e, c) \<Rightarrow> (Inl (Delivery e), c)
                | (Inr body, c) \<Rightarrow>
                    (let c = recordEffects body c in
                     case bodyErr body of
                       Some e \<Rightarrow> (Inr (failure_candidate (errorResult (Some e))), c)
                     | None \<Rightarrow>
                         (case success entry c (bodyValue body) of
                            Inl e \<Rightarrow> (Inr (failure_candidate (errorResult (Some e))), c)
                          | Inr r \<Rightarrow> (Inr (CanonicalSuccess True r), c))))"
    using assms(2) by (auto simp: executeBody_def ctx_err_def Let_def split: if_splits option.splits sum.splits)
  then show ?thesis
  proof cases
    case early
    then show ?thesis using quiet by (intro exI [of _ 0]) simp
  next
    case (called entry)
    define d where "d = ?c\<lparr>bodyInvoked := True, invocations := invocations c @ [?x]\<rparr>"
    have acc: "args_accepted c" using called(1,2) by (auto simp: args_accepted_def)
    have stepped: "body_steps 1 c d"
      using acc by (simp add: body_steps_def d_def)
    have recorded: "body_steps 1 c (recordEffects body d)" for body
      using acc assms(1) by (simp add: body_steps_def d_def recordEffects_def)
    have inv: "invokeBody s ?x (markBodyInvoked ?c) =
        ((case bodies s (length (invocations c)) ?x of Returns b \<Rightarrow> Inr b | Fails e \<Rightarrow> Inl e
          | Panics m \<Rightarrow> Inl (Fault (err ''tools: body delivery panicked; execution completion is unconfirmed''))), d)"
      using assms(1) by (simp add: invokeBody_def markBodyInvoked_def d_def)
    show ?thesis
      using called(3) stepped recorded unfolding inv
      by (intro exI [of _ 1]) (auto simp: Let_def split: answer.splits option.splits sum.splits)
  qed
qed

lemma terminal_steps:
  assumes "callPhase c = ExecutionDispatching" "terminal s b c = (r, c')"
  shows "\<exists>n \<le> 1. body_steps n c c'"
proof (cases b)
  case None
  then show ?thesis using assms(2) body_steps_refl [of c] by (auto simp: terminal_def)
next
  case (Some a)
  then show ?thesis using executeBody_steps [OF assms(1), of s a r c'] assms(2) by (auto simp: terminal_def)
qed

lemma run_middleware_steps:
  "callPhase c = ExecutionDispatching \<Longrightarrow> run_middleware s m c = (r, c') \<Longrightarrow> \<exists>n. body_steps n c c'"
proof (induction m arbitrary: c)
  case (Delegates chain k)
  obtain r1 c1 where 1: "terminal s chain c = (r1, c1)" by fastforce
  from terminal_steps [OF Delegates.prems(1) 1] obtain n where n: "body_steps n c c1" by blast
  have p: "callPhase c1 = ExecutionDispatching" using body_steps_fields(4) [OF n] Delegates.prems(1) by simp
  have "run_middleware s (k r1) c1 = (r, c')" using Delegates.prems(2) 1 by simp
  from Delegates.IH [OF _ p this] obtain n' where "body_steps n' c1 c'" by blast
  with n show ?case using body_steps_trans by blast
qed (use body_steps_refl in auto)

lemma invoke_steps:
  assumes "callPhase c = ExecutionDispatching" "invoke s c = (r, c')"
  shows "\<exists>n. body_steps n c c'"
proof -
  obtain r1 c1 where 1: "ExecuteBody s c = (r1, c1)" by fastforce
  have "\<exists>n. body_steps n c c1"
    using 1 terminal_steps [OF assms(1), of s "Some False" r1 c1] run_middleware_steps [OF assms(1), of s _ r1 c1]
    by (auto simp: ExecuteBody_def split: option.splits)
  then show ?thesis using assms(2) 1
    by (auto simp: invoke_def ctx_err_def Let_def split: sum.splits)
qed

lemma as_delivery_kind: "as_delivery e = Some u \<Longrightarrow> (\<exists>d. u = Delivery d) \<and> as_delivery u = Some u"
  by (induction e rule: as_delivery.induct) auto

text \<open>A dispatch that runs ends in a result or in an unconfirmed delivery.\<close>

lemma Dispatch_runs:
  assumes "callPhase c = ExecutionPreparedForDispatch" "callProblem c = None"
  obtains n c1 r where
    "body_steps n (c\<lparr>callPhase := ExecutionDispatching\<rparr>) c1"
    "Dispatch s c = (None, c1\<lparr>callPhase := ExecutionPreparedForPost, dispatched := Some r\<rparr>)"
  | n c1 d where
    "body_steps n (c\<lparr>callPhase := ExecutionDispatching\<rparr>) c1"
    "Dispatch s c = (Some (Delivery d), c1\<lparr>callPhase := ExecutionPreparedForPost, callProblem := Some (Delivery d)\<rparr>)"
proof -
  let ?c = "c\<lparr>callPhase := ExecutionDispatching\<rparr>"
  obtain r c1 where i: "invoke s ?c = (r, c1)" by fastforce
  obtain n where n: "body_steps n ?c c1" using invoke_steps [OF _ i] by auto
  have p: "callPhase c1 = ExecutionDispatching" using body_steps_fields(4) [OF n] by simp
  show thesis
  proof (cases r)
    case (Inr v)
    then show thesis using that(1) [OF n, of v] i p assms by (simp add: Dispatch_def dispatchBody_def completeDispatch_def)
  next
    case (Inl e)
    show thesis
    proof (cases "as_delivery e")
      case None
      then show thesis using that(1) [OF n, of "errorResult (Some e)"] Inl i p assms
        by (simp add: Dispatch_def dispatchBody_def completeDispatch_def)
    next
      case (Some u)
      then show thesis using that(2) [OF n] Inl i p assms as_delivery_kind [OF Some]
        by (auto simp: Dispatch_def dispatchBody_def completeDispatch_def)
    qed
  qed
qed

lemma Dispatch_refused: "callPhase c \<noteq> ExecutionPreparedForDispatch \<Longrightarrow> snd (Dispatch s c) = c"
  by (auto simp: Dispatch_def dispatchBody_def split: option.splits)

lemma Dispatch_problem: "callProblem c = Some e \<Longrightarrow> Dispatch s c = (Some e, c)"
  by (simp add: Dispatch_def)

lemma Finalize_problem: "callProblem c = Some e \<Longrightarrow> Finalize c = (Some e, c)"
  by (simp add: Finalize_def)

lemma dispatch_invocations:
  assumes "v \<in> set (drop (length (invocations c)) (invocations (snd (Dispatch s c))))"
  shows "v = callExecution c \<and> callPhase c = ExecutionPreparedForDispatch \<and> args_accepted c"
proof (cases "callPhase c = ExecutionPreparedForDispatch \<and> callProblem c = None")
  case True
  then have "callPhase c = ExecutionPreparedForDispatch" "callProblem c = None" by simp_all
  then obtain n c1 where "body_steps n (c\<lparr>callPhase := ExecutionDispatching\<rparr>) c1"
    "invocations (snd (Dispatch s c)) = invocations c1"
    by (cases rule: Dispatch_runs [of c s]) auto
  with assms True body_steps_fields(11,12) [of n "c\<lparr>callPhase := ExecutionDispatching\<rparr>" c1] show ?thesis
    by (cases n) (auto simp: args_accepted_def)
next
  case False
  then have "snd (Dispatch s c) = c" using Dispatch_refused Dispatch_problem by (cases "callProblem c") auto
  with assms show ?thesis by simp
qed

section \<open>Finalization\<close>

definition settled_ok :: "tool_call \<Rightarrow> bool" where
  "settled_ok c \<longleftrightarrow>
     (\<exists>r. settled c = Some r \<and> valid_result r \<and> published c = (if policyResults (callPolicies c) then [r] else []))"

text \<open>What finalization does with a call that has published nothing.\<close>

definition finalized :: "tool_call \<Rightarrow> tool_result \<Rightarrow> tool_call \<Rightarrow> bool" where
  "finalized c r c' \<longleftrightarrow>
     valid_result r \<and> callPhase c' = ExecutionCompleted \<and>
     published c' = (if policyResults (callPolicies c) then [r] else []) \<and> callPolicies c' = callPolicies c \<and>
     callStage c' = callStage c \<and> callProblem c' = callProblem c \<and> invocations c' = invocations c \<and>
     callExecution c' = callExecution c \<and> callEntry c' = callEntry c"

lemma finish_finalizes:
  assumes "callPhase d = ExecutionFinalizing" "published d = []" "finishResult outcome d = (r, d')"
  shows "finalized d r (completeFinalization d')"
  using finishResult_settles [of outcome d] assms by (auto simp: finalized_def completeFinalization_def)

lemma finalized_cong [simp]:
  "finalized (c\<lparr>contextReads := k\<rparr>) r c' = finalized c r c'"
  "finalized (c\<lparr>callPhase := p\<rparr>) r c' = finalized c r c'"
  by (simp_all add: finalized_def)

lemma finalize_call_settles:
  assumes "callPhase c = ExecutionPreparedForPost" "published c = []"
  shows "\<exists>r c'. finalize_call outcome c = (Inr r, c') \<and> finalized c r c'"
proof -
  let ?c = "c\<lparr>callPhase := ExecutionFinalizing\<rparr>"
  define rc where "rc = (case post_result ?c outcome of
      Inl e \<Rightarrow> (errorResult (Some e), ?c)
    | Inr r \<Rightarrow> (let (cancelled, c) = ctx_err ?c in
         (if cancelled \<and> \<not> Failed r then abortedResult (bodyInvoked c) (Some r) else r, c)))"
  have "\<exists>reviewed k. rc = (reviewed, ?c\<lparr>contextReads := k\<rparr>)"
  proof (cases "post_result ?c outcome")
    case (Inl e)
    then show ?thesis unfolding rc_def by (intro exI [of _ "errorResult (Some e)"] exI [of _ "contextReads c"]) simp
  next
    case (Inr r)
    then show ?thesis unfolding rc_def by (auto simp: ctx_err_def)
  qed
  then obtain reviewed k where rc: "rc = (reviewed, ?c\<lparr>contextReads := k\<rparr>)" by blast
  obtain r d where r: "finishResult reviewed (?c\<lparr>contextReads := k\<rparr>) = (r, d)" by fastforce
  have "finalize_call outcome c = (let (reviewed, c) = rc; (final, c) = finishResult reviewed c in
      (Inr final, completeFinalization c))"
    using assms(1) by (simp add: finalize_call_def rc_def Let_def)
  then have "finalize_call outcome c = (Inr r, completeFinalization d)" using rc r by simp
  then show ?thesis using finish_finalizes [OF _ _ r] assms(2) by auto
qed

lemma finish_call_settles:
  assumes "callPhase c = ExecutionPreparedForFinish" "published c = []"
  shows "\<exists>r c'. finish_call outcome c = (r, c') \<and> finalized c r c'"
proof -
  obtain r d where r: "finishResult outcome (c\<lparr>callPhase := ExecutionFinalizing\<rparr>) = (r, d)" by fastforce
  then have "finish_call outcome c = (r, completeFinalization d)" using assms(1) by (simp add: finish_call_def)
  then show ?thesis using finish_finalizes [OF _ _ r] assms(2) by auto
qed

section \<open>Runs of a call\<close>

inductive call_run :: "scheduler \<Rightarrow> tool_call \<Rightarrow> tool_call \<Rightarrow> bool" for s c0 where
  prepared_call: "call_run s c0 c0"
| dispatched_call: "call_run s c0 c \<Longrightarrow> Dispatch s c = (r, c') \<Longrightarrow> call_run s c0 c'"
| finalized_call: "call_run s c0 c \<Longrightarrow> Finalize c = (r, c') \<Longrightarrow> call_run s c0 c'"

text \<open>
  The invariant.  Until it is settled a call has published nothing; a call whose context was nil
  is the one that settles outside the phases.
\<close>

definition unsettled :: "tool_call \<Rightarrow> bool" where
  "unsettled c \<longleftrightarrow> settled c = None \<and> published c = [] \<and>
     (case callStage c of
        ScheduledDispatch \<Rightarrow>
          callPhase c = ExecutionPreparedForDispatch \<and> dispatched c = None \<or>
          callPhase c = ExecutionPreparedForPost \<and> dispatched c \<noteq> None
      | ScheduledPostResult \<Rightarrow> callPhase c = ExecutionPreparedForPost \<and> preparedResult c \<noteq> None
      | ScheduledFinalResult \<Rightarrow>
          callPhase c \<in> {ExecutionPreparedForFinish, ExecutionUnprepared} \<and> preparedResult c \<noteq> None
      | _ \<Rightarrow> False)"

definition call_ok :: "tool_call \<Rightarrow> bool" where
  "call_ok c \<longleftrightarrow>
     callProblem c \<noteq> None \<or> unsettled c \<or> callPhase c = ExecutionCompleted \<and> settled_ok c \<or>
     callPhase c = ExecutionUnprepared \<and> published c = [] \<and> (\<exists>r. settled c = Some r \<and> valid_result r)"

lemma prepared_ok: "prepared s i ps x c \<Longrightarrow> call_ok c"
  by (auto simp: prepared_def call_ok_def unsettled_def staged_def fresh_call_def split: call_stage.splits if_splits)

lemma prepared_unsettled: "prepared s i ps x c \<Longrightarrow> callProblem c = None \<Longrightarrow> unsettled c \<and> callPhase c \<noteq> ExecutionUnprepared"
  by (auto simp: prepared_def unsettled_def staged_def fresh_call_def split: call_stage.splits)

lemma without_context_ok: "call_ok (without_context s x ps)"
  by (simp add: without_context_def new_call_def call_ok_def unsettled_def)

lemma Dispatch_ok:
  assumes "call_ok c" "Dispatch s c = (r, c')"
  shows "call_ok c'"
proof (cases "callPhase c = ExecutionPreparedForDispatch \<and> callProblem c = None")
  case True
  then have u: "unsettled c" using assms(1) by (auto simp: call_ok_def)
  have "callPhase c = ExecutionPreparedForDispatch" "callProblem c = None" using True by simp_all
  then show ?thesis
  proof (cases rule: Dispatch_runs [of c s])
    case (1 n c1 v)
    then show ?thesis using assms(2) u True body_steps_fields [OF 1(1)]
      by (auto simp: call_ok_def unsettled_def split: call_stage.splits)
  next
    case (2 n c1 d)
    then show ?thesis using assms(2) by (auto simp: call_ok_def)
  qed
next
  case False
  then have "snd (Dispatch s c) = c" using Dispatch_refused Dispatch_problem by (cases "callProblem c") auto
  with assms show ?thesis by simp
qed

text \<open>Finalization settles every call whose body has returned.\<close>

lemma Finalize_settles:
  assumes "unsettled c" "callProblem c = None" "callStage c = ScheduledDispatch \<longrightarrow> dispatched c \<noteq> None"
  shows "\<exists>c'. Finalize c = (None, c') \<and> callProblem c' = None \<and> callPolicies c' = callPolicies c \<and>
    (callPhase c \<noteq> ExecutionUnprepared \<and> callPhase c' = ExecutionCompleted \<and> settled_ok c' \<or>
     callPhase c = ExecutionUnprepared \<and> callPhase c' = ExecutionUnprepared \<and> published c' = [] \<and>
       settled c' = Some (errorResult (Some (Fault (err ''tools: execution is not prepared for terminal finalization'')))))"
proof -
  have u: "settled c = None" "published c = []" using assms(1) by (simp_all add: unsettled_def)
  have settle_ok: "\<exists>c'. settle (Inr r, d) = (None, c') \<and> callProblem c' = None \<and> callPolicies c' = callPolicies c \<and>
      callPhase c' = ExecutionCompleted \<and> settled_ok c'" if "finalized c r d" for r d
    using that assms(2) by (auto simp: settle_def settled_ok_def finalized_def)
  consider (body) r where "callStage c = ScheduledDispatch" "dispatched c = Some r" "callPhase c = ExecutionPreparedForPost"
    | (post) r where "callStage c = ScheduledPostResult" "preparedResult c = Some r" "callPhase c = ExecutionPreparedForPost"
    | (finish) r where "callStage c = ScheduledFinalResult" "preparedResult c = Some r" "callPhase c = ExecutionPreparedForFinish"
    | (nil) r where "callStage c = ScheduledFinalResult" "preparedResult c = Some r" "callPhase c = ExecutionUnprepared"
    using assms(1,3) by (auto simp: unsettled_def split: call_stage.splits)
  then show ?thesis
  proof cases
    case (body r)
    obtain v d where "finalize_call r c = (Inr v, d)" "finalized c v d"
      using finalize_call_settles [OF body(3) u(2)] by blast
    then show ?thesis using body settle_ok [of v d] u assms(2) by (simp add: Finalize_def)
  next
    case (post r)
    obtain v d where "finalize_call r c = (Inr v, d)" "finalized c v d"
      using finalize_call_settles [OF post(3) u(2)] by blast
    then show ?thesis using post settle_ok [of v d] u assms(2) by (simp add: Finalize_def)
  next
    case (finish r)
    obtain v d where "finish_call r c = (v, d)" "finalized c v d"
      using finish_call_settles [OF finish(3) u(2)] by blast
    then show ?thesis using finish settle_ok [of v d] u assms(2) by (simp add: Finalize_def)
  next
    case (nil r)
    then show ?thesis using u assms(2) by (simp add: Finalize_def settle_def finish_call_def)
  qed
qed

lemma Finalize_ok:
  assumes "call_ok c" "Finalize c = (r, c')"
  shows "call_ok c'"
proof (cases "callProblem c")
  case (Some e)
  then show ?thesis using assms by (simp add: Finalize_problem)
next
  case None
  show ?thesis
  proof (cases "settled c")
    case (Some v)
    then show ?thesis using assms None by (simp add: Finalize_def)
  next
    case un: None
    then have u: "unsettled c" using assms(1) None by (auto simp: call_ok_def settled_ok_def)
    show ?thesis
    proof (cases "callStage c = ScheduledDispatch \<longrightarrow> dispatched c \<noteq> None")
      case True
      have "valid_result (errorResult (Some (Fault (err ''tools: execution is not prepared for terminal finalization''))))"
        by (rule error_valid) simp
      then show ?thesis using Finalize_settles [OF u None True] assms(2) by (auto simp: call_ok_def)
    next
      case False
      then show ?thesis using assms None un by (simp add: Finalize_def)
    qed
  qed
qed

lemma call_run_ok: "call_run s c0 c \<Longrightarrow> call_ok c0 \<Longrightarrow> call_ok c"
  by (induction rule: call_run.induct) (auto dest: Dispatch_ok Finalize_ok)

lemma call_run_problem: "call_run s c0 c \<Longrightarrow> callProblem c0 = Some e \<Longrightarrow> c = c0"
  by (induction rule: call_run.induct) (auto simp: Dispatch_problem Finalize_problem)

lemma CallResult_settled: "callProblem c = None \<Longrightarrow> settled c = Some r \<Longrightarrow> valid_result r \<Longrightarrow> CallResult c = Inr r"
  by (simp add: CallResult_def valid_result_def faults_def)

text \<open>A settled call stays as it is.\<close>

definition done_with :: "tool_result \<Rightarrow> tool_call \<Rightarrow> bool" where
  "done_with r c \<longleftrightarrow> callProblem c = None \<and> settled c = Some r \<and> callPhase c = ExecutionCompleted"

lemma call_run_done: "call_run s c0 c \<Longrightarrow> done_with r c0 \<Longrightarrow> c = c0"
proof (induction rule: call_run.induct)
  case (dispatched_call c r' c')
  then have "callPhase c \<noteq> ExecutionPreparedForDispatch" by (simp add: done_with_def)
  from Dispatch_refused [OF this, of s] dispatched_call show ?case by simp
next
  case (finalized_call c r' c')
  then show ?case by (auto simp: done_with_def Finalize_def)
qed simp

text \<open>Only the call as it was prepared is ready for dispatch.\<close>

lemma Finalize_phase:
  assumes "call_ok c"
  shows "snd (Finalize c) = c \<or> callPhase (snd (Finalize c)) \<noteq> ExecutionPreparedForDispatch"
proof (cases "callProblem c = None \<and> settled c = None \<and> (callStage c = ScheduledDispatch \<longrightarrow> dispatched c \<noteq> None)")
  case True
  then have "unsettled c" using assms by (auto simp: call_ok_def settled_ok_def)
  then show ?thesis using Finalize_settles [of c] True by auto
next
  case False
  then show ?thesis by (cases "callProblem c"; cases "settled c"; cases "dispatched c") (auto simp: Finalize_def)
qed

lemma call_run_ready:
  "call_run s c0 c \<Longrightarrow> call_ok c0 \<Longrightarrow> c = c0 \<or> callPhase c \<noteq> ExecutionPreparedForDispatch"
proof (induction rule: call_run.induct)
  case (dispatched_call c r c')
  show ?case
  proof (cases "callPhase c = ExecutionPreparedForDispatch \<and> callProblem c = None")
    case True
    then have "callPhase c = ExecutionPreparedForDispatch" "callProblem c = None" by simp_all
    then show ?thesis using dispatched_call(2) by (cases rule: Dispatch_runs [of c s]) auto
  next
    case False
    then have "snd (Dispatch s c) = c" using Dispatch_refused Dispatch_problem by (cases "callProblem c") auto
    then show ?thesis using dispatched_call by auto
  qed
next
  case (finalized_call c r c')
  then show ?case using Finalize_phase [of c] call_run_ok [of s c0 c] by auto
qed simp

text \<open>Without a middleware a dispatch invokes the body at most once, and knows how that ended.\<close>

lemma plain_invoke:
  assumes "callPhase c = ExecutionDispatching" "policyExecution (callPolicies c) = None" "invoke s c = (r, c')"
  shows "\<exists>n \<le> 1. body_steps n c c' \<and>
    (n = 1 \<and> (\<forall>body. bodies s (length (invocations c)) (callExecution c) \<noteq> Returns body) \<longrightarrow>
     (\<exists>d. r = Inl (Delivery d)))"
proof -
  obtain r1 c1 where 1: "executeBody s False c = (r1, c1)" by fastforce
  then have e: "ExecuteBody s c = (r1, c1)" using assms(2) by (simp add: ExecuteBody_def terminal_def)
  from executeBody_steps [OF assms(1) 1] obtain n where n: "n \<le> 1" "body_steps n c c1"
    "n = 1 \<Longrightarrow> (\<exists>d. r1 = Inl (Delivery d)) =
       (\<forall>body. bodies s (length (invocations c)) (callExecution c) \<noteq> Returns body)" by blast
  have "body_steps n c c'" using assms(3) e n(2)
    by (auto simp: invoke_def ctx_err_def Let_def split: sum.splits)
  moreover have "r = Inl (Delivery d)" if "r1 = Inl (Delivery d)" for d
    using assms(3) e that by (simp add: invoke_def)
  ultimately show ?thesis using n by blast
qed

lemma plain_dispatch:
  assumes "callPhase c = ExecutionPreparedForDispatch" "callProblem c = None" "policyExecution (callPolicies c) = None"
    "Dispatch s c = (r, c')"
  shows "length (invocations c') \<le> Suc (length (invocations c)) \<and>
    (invocations c' \<noteq> invocations c \<and>
     (\<forall>body. bodies s (length (invocations c)) (callExecution c) \<noteq> Returns body) \<longrightarrow>
     (\<exists>d. r = Some (Delivery d) \<and> callProblem c' = Some (Delivery d)))"
proof -
  let ?c = "c\<lparr>callPhase := ExecutionDispatching\<rparr>"
  obtain v c1 where i: "invoke s ?c = (v, c1)" by fastforce
  from plain_invoke [OF _ _ i] assms(3) obtain n where n: "n \<le> 1" "body_steps n ?c c1"
    "n = 1 \<and> (\<forall>body. bodies s (length (invocations c)) (callExecution c) \<noteq> Returns body) \<longrightarrow>
     (\<exists>d. v = Inl (Delivery d))" by auto
  have inv: "invocations c1 = invocations c @ replicate n (callExecution c)" using body_steps_fields(11) [OF n(2)] by simp
  have out: "Dispatch s c = (case v of Inr x \<Rightarrow> (None, (completeDispatch c1)\<lparr>dispatched := Some x\<rparr>)
      | Inl e \<Rightarrow> (case as_delivery e of
          Some u \<Rightarrow> (Some u, if as_delivery u \<noteq> None then (completeDispatch c1)\<lparr>callProblem := Some u\<rparr> else completeDispatch c1)
        | None \<Rightarrow> (None, (completeDispatch c1)\<lparr>dispatched := Some (errorResult (Some e))\<rparr>)))"
    using assms(1,2) i by (auto simp: Dispatch_def dispatchBody_def split: sum.splits option.splits)
  have "invocations c' = invocations c1"
    using out assms(4) by (auto simp: completeDispatch_def split: sum.splits option.splits if_splits)
  then show ?thesis using inv n out assms(4) by (cases n) (auto simp: completeDispatch_def)
qed

text \<open>
  When every invocation is confirmed, only a middleware can make a delivery error: one that raises none
  of its own passes an outcome on.
\<close>

primrec forwards :: "middleware \<Rightarrow> bool" where
  "forwards (Replies r) = True"
| "forwards (Raises e) = (as_delivery e = None)"
| "forwards (Crashes m) = True"
| "forwards (Delegates chain k) =
     (\<forall>r. (\<forall>e. r = Inl e \<longrightarrow> as_delivery e = None) \<longrightarrow> forwards (k r))"

lemma confirmed_iff:
  "confirmed s c \<longleftrightarrow> (\<forall>n < length (invocations c). \<exists>b. bodies s n (invocations c ! n) = Returns b)"
proof -
  have "(case a of Returns b \<Rightarrow> True | _ \<Rightarrow> False) = (\<exists>b. a = Returns b)" for a :: "body_result answer"
    by (cases a) auto
  then show ?thesis unfolding confirmed_def list_all_iff by auto
qed

lemma confirmed_earlier:
  assumes "confirmed s c'" "invocations c' = invocations c @ vs"
  shows "confirmed s c \<and> (vs \<noteq> [] \<longrightarrow> (\<exists>b. bodies s (length (invocations c)) (hd vs) = Returns b))"
proof (intro conjI impI)
  show "confirmed s c"
    unfolding confirmed_iff
  proof (intro allI impI)
    fix n assume n: "n < length (invocations c)"
    with assms(2) have "n < length (invocations c')" "invocations c' ! n = invocations c ! n" by (simp_all add: nth_append)
    with assms(1) show "\<exists>b. bodies s n (invocations c ! n) = Returns b" unfolding confirmed_iff by metis
  qed
next
  assume "vs \<noteq> []"
  with assms(2) have "length (invocations c) < length (invocations c')"
    "invocations c' ! length (invocations c) = hd vs" by (auto simp: nth_append hd_conv_nth)
  with assms(1) show "\<exists>b. bodies s (length (invocations c)) (hd vs) = Returns b" unfolding confirmed_iff by metis
qed

lemma terminal_confirmed:
  assumes "callPhase c = ExecutionDispatching" "terminal s b c = (r, c')" "confirmed s c'" "r = Inl e"
  shows "as_delivery e = None"
proof (cases b)
  case None
  then show ?thesis using assms(2,4) by (auto simp: terminal_def)
next
  case (Some a)
  from executeBody_steps [OF assms(1), of s a r c'] Some assms(2) obtain n where n: "body_steps n c c'"
    "\<And>e. r = Inl e \<Longrightarrow> n = 1 \<and> (\<exists>d. e = Delivery d)"
    "n = 1 \<Longrightarrow> (\<exists>d. r = Inl (Delivery d)) =
       (\<forall>body. bodies s (length (invocations c)) (callExecution c) \<noteq> Returns body)"
    by (auto simp: terminal_def)
  have "\<exists>body. bodies s (length (invocations c)) (callExecution c) = Returns body"
    using confirmed_earlier [OF assms(3) body_steps_fields(11) [OF n(1)]] n(2) assms(4) by simp
  then show ?thesis using n(2,3) assms(4) by auto
qed

lemma run_middleware_confirmed:
  assumes "callPhase c = ExecutionDispatching" "run_middleware s m c = (r, c')" "confirmed s c'" "forwards m" "r = Inl e"
  shows "as_delivery e = None"
  using assms
proof (induction m arbitrary: c)
  case (Delegates chain k)
  obtain r1 c1 where 1: "terminal s chain c = (r1, c1)" by fastforce
  from terminal_steps [OF Delegates.prems(1) 1] obtain n where n: "body_steps n c c1" by blast
  have p: "callPhase c1 = ExecutionDispatching" using body_steps_fields(4) [OF n] Delegates.prems(1) by simp
  have 2: "run_middleware s (k r1) c1 = (r, c')" using Delegates.prems(2) 1 by simp
  obtain n' where "body_steps n' c1 c'" using run_middleware_steps [OF p 2] by blast
  from body_steps_fields(11) [OF this] have "confirmed s c1" using confirmed_earlier [OF Delegates.prems(3)] by blast
  then have "forwards (k r1)" using terminal_confirmed [OF Delegates.prems(1) 1] Delegates.prems(4) by simp
  from Delegates.IH [OF _ p 2 Delegates.prems(3) this Delegates.prems(5)] show ?case by blast
qed auto

text \<open>So a confirmed dispatch leaves no problem.\<close>

lemma bindT_Inl_iff: "bindT m f = Inl e \<longleftrightarrow> m = Inl e \<or> (\<exists>x. m = Inr x \<and> f x = Inl e)"
  by (cases m) auto

lemma faults_Inl: "faults r = Inl e \<Longrightarrow> as_delivery e = None"
  by (cases r) (auto simp: faults_def)

lemma output_check_Inl: "output_check n p r = Inl e \<Longrightarrow> as_delivery e = None"
  by (auto simp: output_check_def outputError_def ToolOutputError_def split: sum.splits)

lemma success_Inl: "success entry c v = Inl e \<Longrightarrow> as_delivery e = None"
  by (auto simp: success_def bindT_Inl_iff Let_def dest: output_check_Inl split: if_splits option.splits)

lemma normalize_fault:
  "bindT (normalize c r) (\<lambda>n. faults (prependAdditionalContexts n ms)) = Inl e \<Longrightarrow> as_delivery e = None"
  by (auto simp: bindT_Inl_iff normalize_def normalizeAuthoredSuccess_def ToolNotFoundError_def dest: faults_Inl success_Inl
      split: candidate.splits option.splits if_splits)

lemma invoke_confirmed:
  assumes "callPhase c = ExecutionDispatching" "invoke s c = (r, c')" "confirmed s c'" "r = Inl e"
    "\<And>f. policyExecution (callPolicies c) = Some f \<Longrightarrow> forwards (f (callExecution c))"
  shows "as_delivery e = None"
proof -
  obtain r1 c1 where 1: "ExecuteBody s c = (r1, c1)" by fastforce
  show ?thesis
  proof (cases r1)
    case (Inl e1)
    then have e: "e1 = e" "c1 = c'" using assms(2,4) 1 by (auto simp: invoke_def)
    show ?thesis
      using 1 assms(3,5) e Inl terminal_confirmed [OF assms(1), of s "Some False" r1 c1 e]
        run_middleware_confirmed [OF assms(1), of s _ r1 c1 e]
      by (auto simp: ExecuteBody_def split: option.splits)
  next
    case (Inr x)
    then have "bindT (normalize c1 x) (\<lambda>n. faults (prependAdditionalContexts n (snapshot_contexts c1))) = Inl e"
      using assms(2,4) 1 by (auto simp: invoke_def ctx_err_def Let_def split: sum.splits)
    then show ?thesis by (rule normalize_fault)
  qed
qed

lemma dispatch_confirmed:
  assumes "callPhase c = ExecutionPreparedForDispatch" "callProblem c = None" "confirmed s (snd (Dispatch s c))"
    "\<And>f. policyExecution (callPolicies c) = Some f \<Longrightarrow> forwards (f (callExecution c))"
  shows "callProblem (snd (Dispatch s c)) = None"
proof -
  let ?c = "c\<lparr>callPhase := ExecutionDispatching\<rparr>"
  obtain v c1 where i: "invoke s ?c = (v, c1)" by fastforce
  then obtain n where n: "body_steps n ?c c1" using invoke_steps [OF _ i] by auto
  have "invocations (snd (Dispatch s c)) = invocations c1"
    using i assms(1,2) by (auto simp: Dispatch_def dispatchBody_def completeDispatch_def split: sum.splits option.splits)
  then have ok: "confirmed s c1" using assms(3) by (simp add: confirmed_def)
  have "as_delivery e = None" if "v = Inl e" for e
    using invoke_confirmed [OF _ i ok that] assms(4) by simp
  then show ?thesis
    using i assms(1,2) body_steps_fields(9) [OF n]
    by (auto simp: Dispatch_def dispatchBody_def completeDispatch_def split: sum.splits option.splits)
qed

end
