(* ===== verification/ApprovalLaws.thy ===== *)
theory ApprovalLaws
  imports Approval
begin

text \<open>
  What the audit of an approval guarantees: the write of an audit event is idempotent, and in
  every run of an approval, with errors, retries and other writers in between, the log holds at
  most one question and one answer of its identity, in this order and inside the turn the
  approval began in, and an outcome is returned only when both are there.
\<close>

section \<open>The audit write\<close>

definition wf_audit :: "audit \<Rightarrow> bool" where
  "wf_audit p = (draftType (auditDraft p) = auditType p \<and> payload_id (draftData (auditDraft p)) = Inr (auditID p))"

text \<open>An audit event of a type and an identity.\<close>

definition audit_event :: "string \<Rightarrow> string \<Rightarrow> event \<Rightarrow> bool" where
  "audit_event ty i e = (evType e = ty \<and> payload_id (evData e) = Inr i)"

abbreviation audits :: "string \<Rightarrow> string \<Rightarrow> event list \<Rightarrow> event list" where
  "audits ty i es \<equiv> filter (audit_event ty i) es"

lemma audit_find_None: "audit_find p ty es = Inr None \<Longrightarrow> audits ty (auditID p) es = []"
  by (induction es) (auto simp: audit_event_def bindE_Inr_iff split: if_splits)

lemma audit_find_Some:
  "audit_find p ty es = Inr (Some e) \<Longrightarrow>
   e \<in> set es \<and> turnSeq (auditDecision p) < evSeq e \<and> (\<exists>rest. audits ty (auditID p) es = e # rest)"
  by (induction es) (auto simp: audit_event_def bindE_Inr_iff failIf_Inr split: if_splits)

lemma audit_find_append:
  "audit_find p ty es = Inr (Some e) \<Longrightarrow> audit_find p ty (es @ fs) = Inr (Some e)"
  "audit_find p ty es = Inr None \<Longrightarrow> audit_find p ty (es @ fs) = audit_find p ty fs"
  by (induction es) (auto simp: bindE_Inr_iff failIf_Inr split: if_splits)

lemma audit_commit_Some:
  "audit_commit p (Snapshot l) = Inr (Some r) \<longleftrightarrow>
   headerID (logHeader l) = questionSession (question (auditDecision p)) \<and>
   (\<exists>e. audit_find p (auditType p) (entries l) = Inr (Some e) \<and> ValidateEvent (auditDraft p) e = Inr () \<and>
        r = one_result (headerID (logHeader l)) e)"
  by (auto simp: audit_commit_def bindE_Inr_iff failIf_Inr split: option.splits)

lemma audit_commit_None:
  "audit_commit p (Snapshot l) = Inr None \<longleftrightarrow>
   headerID (logHeader l) = questionSession (question (auditDecision p)) \<and>
   audit_find p (auditType p) (entries l) = Inr None"
  by (auto simp: audit_commit_def bindE_Inr_iff failIf_Inr split: option.splits)

lemma last_boundary_in: "last_boundary es = Some s \<Longrightarrow> \<exists>e \<in> set es. evSeq e = s"
  by (induction es) (auto split: if_splits)

lemma enclosing_turn_less:
  assumes "log_ok l" "enclosing_turn (entries l) = Some s"
  shows "s < int (length (entries l))"
proof -
  have "last_boundary (rev (entries l)) = Some s" using assms(2) by (simp add: enclosing_turn_def)
  from last_boundary_in [OF this] show ?thesis using log_seq_range [OF assms(1)] by auto
qed

lemma audit_build_Inr:
  "audit_build p (Snapshot l) = Inr ds \<Longrightarrow>
   ds = [auditDraft p] \<and> enclosing_turn (entries l) = Some (turnSeq (auditDecision p)) \<and>
   (auditType p = DecidedEventName \<longrightarrow> audits AskedEventName (auditID p) (entries l) \<noteq> [])"
  by (auto simp: audit_build_def bindE_Inr_iff failIf_Inr dest!: audit_find_Some split: option.splits if_splits)

lemma new_audit_event:
  assumes "wf_audit p" "ValidateEvent (auditDraft p) e = Inr ()"
  shows "audit_event (auditType p) (auditID p) e"
  using assms ValidateEvent_copies [OF assms(2)] by (simp add: audit_event_def wf_audit_def)

lemma audit_commits:
  assumes "wf_audit p" "log_ok l" "audit_build p (Snapshot l) = Inr ds" "commitBatch clock l ds = Inr (l', evs)"
  shows "\<exists>e. evs = [e] \<and> entries l' = entries l @ [e] \<and> logHeader l' = logHeader l \<and>
    ValidateEvent (auditDraft p) e = Inr () \<and> evSeq e = int (length (entries l)) \<and>
    audit_find p (auditType p) [e] = Inr (Some e)"
proof -
  obtain e where e: "evs = [e]" "entries l' = entries l @ [e]" "ValidateEvent (auditDraft p) e = Inr ()"
    "evSeq e = int (length (entries l))" "logHeader l' = logHeader l"
    using commitBatch_entries [OF assms(4)] audit_build_Inr [OF assms(3)] by (cases evs) auto
  moreover have "audit_find p (auditType p) [e] = Inr (Some e)"
    using new_audit_event [OF assms(1) e(3)] enclosing_turn_less [OF assms(2)] audit_build_Inr [OF assms(3)] e(4)
    by (auto simp: audit_event_def)
  ultimately show ?thesis by blast
qed

text \<open>The first event of the identity is found, so nothing that follows can hide it.\<close>

interpretation audit_write: stable_write wf_audit audit_build audit_commit "\<lambda>p e. True"
proof unfold_locales
  fix p l r
  assume "log_ok l" "audit_commit p (Snapshot l) = Inr (Some r)"
  then show "own_range l r"
    unfolding audit_commit_Some by (auto dest!: audit_find_Some intro!: one_result_own)
next
  fix p l ds clock l' evs
  assume wf: "wf_audit p" and ok: "log_ok l" and none: "audit_commit p (Snapshot l) = Inr None"
    and build: "audit_build p (Snapshot l) = Inr ds" and commit: "commitBatch clock l ds = Inr (l', evs)"
  obtain e where e: "evs = [e]" "entries l' = entries l @ [e]" "logHeader l' = logHeader l"
    "ValidateEvent (auditDraft p) e = Inr ()" "evSeq e = int (length (entries l))"
    "audit_find p (auditType p) [e] = Inr (Some e)"
    using audit_commits [OF wf ok build commit] by blast
  show "audit_commit p (Snapshot l') = Inr (Some (commit_result l l' evs))"
    using none e audit_find_append(2) commit_result_range [OF commit]
    unfolding audit_commit_Some audit_commit_None by (auto simp: one_result_def)
next
  fix p l es r and l' :: log
  assume "logHeader l' = logHeader l" "entries l' = entries l @ es" "audit_commit p (Snapshot l) = Inr (Some r)"
  then show "audit_commit p (Snapshot l') = Inr (Some r)"
    unfolding audit_commit_Some using audit_find_append(1) by fastforce
qed

section \<open>Decisions\<close>

lemma payload_id_asked: "marshal_asked q = Inr j \<Longrightarrow> payload_id (Doc j) = Inr (questionID q)"
  by (auto simp: marshal_asked_def payload_id_def get_string_def fold_key.simps lower_char_def
      split: option.splits)

lemma payload_id_pair: "payload_id (Doc (JObj [(''id'', JStr i), (''outcome'', v)])) = Inr i"
  by (simp add: payload_id_def get_string_def fold_key.simps lower_char_def)

lemma AskedDraft_wf:
  "AskedDraft d = Inr draft \<Longrightarrow> wf_audit \<lparr>auditDecision = d, auditType = AskedEventName, auditDraft = draft\<rparr>"
  by (auto simp: AskedDraft_def bindE_Inr_iff NewEventDraft_Inr wf_audit_def dest: payload_id_asked)

lemma Resolve_Inr:
  assumes "Resolve d answer cancelled failure = Inr (selected, draft)"
  shows "wf_audit \<lparr>auditDecision = d, auditType = DecidedEventName, auditDraft = draft\<rparr> \<and>
    selected = chosen_outcome d answer cancelled failure \<and>
    draftData draft = Doc (JObj [(''id'', JStr (questionID (question d))), (''outcome'', JStr selected)])"
  using assms
  by (auto simp: Resolve_def Let_def bindE_Inr_iff NewEventDraft_Inr wf_audit_def marshal_decided_def payload_id_pair)

lemma chosen_outcome_valid: "validOutcome (chosen_outcome d answer cancelled failure)"
  by (simp add: chosen_outcome_def validOutcome_def)

lemma chosen_outcome_allowed:
  "chosen_outcome d answer cancelled failure = OutcomeAllowedOnce \<longleftrightarrow>
   \<not> cancelled \<and> decisionPolicy d \<noteq> PolicyNever \<and> failure = None \<and> answer = OutcomeAllowedOnce"
  by (auto simp: chosen_outcome_def validOutcome_def approval_names)

section \<open>Runs of an approval\<close>

text \<open>
  A journal is sound when what it does to the log is one call of \<open>Commit\<close> with the plan, and
  when a receipt it returns is the result of that call.  It may report an error for a call that
  took effect.
\<close>

definition sound_journal :: "journal \<Rightarrow> bool" where
  "sound_journal records \<longleftrightarrow>
     (\<forall>plan l x l'. records plan l = (x, l') \<longrightarrow>
       (\<exists>clock ctx r failure. Commit clock ctx plan l = (l', r, failure) \<and>
          (\<forall>receipt. x = Inr receipt \<longrightarrow> receipt = r \<and> failure = None)))"

definition unrelated :: "string \<Rightarrow> event \<Rightarrow> bool" where
  "unrelated i e = (\<not> audit_event AskedEventName i e \<and> \<not> audit_event DecidedEventName i e)"

inductive approval_run :: "approval_work \<Rightarrow> log \<Rightarrow> approval_work \<Rightarrow> log \<Rightarrow> bool" for w0 l0 where
  begun: "approval_run w0 l0 w0 l0"
| resumed: "approval_run w0 l0 w l \<Longrightarrow> sound_journal records \<Longrightarrow>
    RunApproval cancelled records answers w l = (r, w', l') \<Longrightarrow> approval_run w0 l0 w' l'"
| others: "approval_run w0 l0 w l \<Longrightarrow> Commit clock ctx plan l = (l', r, failure) \<Longrightarrow>
    list_all (unrelated (questionID (question (workDecision w0)))) (drop (length (entries l)) (entries l')) \<Longrightarrow>
    approval_run w0 l0 w l'"

text \<open>What an audit call does to the events of its identity.\<close>

lemma commit_audit_effect:
  assumes "sound_journal records" "log_ok l" "wf_audit p" "p = workPending w"
    "commit_audit records w l = (x, l')"
  shows "log_ok l' \<and>
    (entries l' = entries l \<or>
     (audits (auditType p) (auditID p) (entries l) = [] \<and>
      enclosing_turn (entries l) = Some (turnSeq (auditDecision p)) \<and>
      (\<exists>e. entries l' = entries l @ [e] \<and> ValidateEvent (auditDraft p) e = Inr () \<and>
           evSeq e = int (length (entries l))))) \<and>
    (x = Inr () \<longrightarrow> (\<exists>e \<in> set (entries l'). audit_event (auditType p) (auditID p) e \<and>
       ValidateEvent (auditDraft p) e = Inr ()))"
proof -
  obtain y where y: "records (audit_plan p) l = (y, l')" "x = bindE y (validateReceipt p)"
    using assms(4,5) by (auto simp: commit_audit_def split: prod.splits)
  obtain clock ctx r failure where c: "Commit clock ctx (audit_plan p) l = (l', r, failure)"
    "\<And>receipt. y = Inr receipt \<Longrightarrow> receipt = r \<and> failure = None"
    using assms(1) y(1) unfolding sound_journal_def by metis
  have ok': "log_ok l'" using Commit_ok assms(2) c(1) by blast
  have receipt: "\<exists>e \<in> set (entries l'). audit_event (auditType p) (auditID p) e \<and>
      ValidateEvent (auditDraft p) e = Inr ()"
    if res: "x = Inr ()" and sub: "resultEvents r = [] \<or> set (resultEvents r) \<subseteq> set (entries l')"
  proof -
    obtain v where "y = Inr v" "validateReceipt p v = Inr ()" using res y(2) by (auto simp: bindE_Inr_iff)
    then have "length (resultEvents r) = 1" "ValidateEvent (auditDraft p) (resultEvents r ! 0) = Inr ()"
      using c(2) by (auto simp: validateReceipt_def bindE_Inr_iff failIf_Inr)
    then show ?thesis using sub new_audit_event [OF assms(3)] by (cases "resultEvents r") auto
  qed
  from c(1) show ?thesis
  proof (cases rule: Commit_cases)
    case (failed e)
    then show ?thesis using ok' receipt by (auto simp: commit_result_def)
  next
    case (replayed prev)
    then have "own_range l r" using replay_own_range by blast
    then have "set (resultEvents r) \<subseteq> set (entries l)"
      by (auto simp: own_range_def subslice_def dest: in_set_takeD in_set_dropD)
    then show ?thesis using ok' receipt replayed by auto
  next
    case empty
    then show ?thesis using ok' receipt by (auto simp: commit_result_def)
  next
    case (written ds evs)
    then have f: "audit_commit p (Snapshot l) = Inr None" "audit_build p (Snapshot l) = Inr ds"
      by (simp_all add: audit_plan_def)
    obtain e where e: "evs = [e]" "entries l' = entries l @ [e]" "ValidateEvent (auditDraft p) e = Inr ()"
      "evSeq e = int (length (entries l))"
      using audit_commits [OF assms(3,2) f(2) written(5)] by blast
    have "audits (auditType p) (auditID p) (entries l) = []"
      using f(1) audit_find_None unfolding audit_commit_None by blast
    moreover have "set (resultEvents r) \<subseteq> set (entries l')"
      using e written(6) by (simp add: commit_result_def)
    moreover have "enclosing_turn (entries l) = Some (turnSeq (auditDecision p))"
      using audit_build_Inr [OF f(2)] by blast
    ultimately show ?thesis using ok' receipt e by auto
  qed
qed

text \<open>The invariant: which audit events the log holds in each phase.\<close>

text \<open>
  The question and the answer stand in the turn of the approval: among the events before each of
  them, the last boundary of a turn is the start of this turn.
\<close>

definition in_turn :: "decision \<Rightarrow> event list \<Rightarrow> bool" where
  "in_turn d es \<longleftrightarrow>
     (\<forall>e \<in> set es. \<not> unrelated (questionID (question d)) e \<longrightarrow>
        enclosing_turn (take (nat (evSeq e)) es) = Some (turnSeq d))"

lemma in_turn_append:
  assumes "log_ok l" "in_turn d (entries l)" "list_all (unrelated (questionID (question d))) fs"
  shows "in_turn d (entries l @ fs)"
proof -
  have early: "take (nat (evSeq e)) (entries l @ fs) = take (nat (evSeq e)) (entries l)" if "e \<in> set (entries l)" for e
    using log_seq_range [OF assms(1) that] by (auto simp: nat_le_iff)
  show ?thesis
    using assms(2,3) early by (auto simp: in_turn_def list_all_iff simp del: take_append)
qed

lemma in_turn_audit:
  assumes "log_ok l" "in_turn d (entries l)" "enclosing_turn (entries l) = Some (turnSeq d)"
    "evSeq e = int (length (entries l))"
  shows "in_turn d (entries l @ [e])"
proof -
  have early: "take (nat (evSeq e')) (entries l @ [e]) = take (nat (evSeq e')) (entries l)" if "e' \<in> set (entries l)" for e'
    using log_seq_range [OF assms(1) that] by (auto simp: nat_le_iff)
  have "take (nat (evSeq e)) (entries l @ [e]) = entries l" using assms(4) by simp
  then show ?thesis
    using assms(2,3) early by (auto simp: in_turn_def simp del: take_append)
qed

definition one_valid :: "event_draft \<Rightarrow> event list \<Rightarrow> bool" where
  "one_valid draft es = (\<exists>e. es = [e] \<and> ValidateEvent draft e = Inr ())"

definition asked_audit :: "decision \<Rightarrow> event_draft \<Rightarrow> audit" where
  "asked_audit d draft = \<lparr>auditDecision = d, auditType = AskedEventName, auditDraft = draft\<rparr>"

definition decided_audit :: "decision \<Rightarrow> event_draft \<Rightarrow> audit" where
  "decided_audit d draft = \<lparr>auditDecision = d, auditType = DecidedEventName, auditDraft = draft\<rparr>"

abbreviation questions :: "decision \<Rightarrow> log \<Rightarrow> event list" where
  "questions d l \<equiv> audits AskedEventName (questionID (question d)) (entries l)"

abbreviation answers_of :: "decision \<Rightarrow> log \<Rightarrow> event list" where
  "answers_of d l \<equiv> audits DecidedEventName (questionID (question d)) (entries l)"

definition decided_ok :: "decision \<Rightarrow> event_draft \<Rightarrow> approval_work \<Rightarrow> bool" where
  "decided_ok d asked w \<longleftrightarrow>
     (\<exists>draft. workPending w = decided_audit d draft \<and> wf_audit (decided_audit d draft) \<and>
        validOutcome (workOutcome w) \<and>
        (workOutcome w = OutcomeAllowedOnce \<longrightarrow> decisionPolicy d \<noteq> PolicyNever) \<and>
        draftData draft = Doc (JObj [(''id'', JStr (questionID (question d))), (''outcome'', JStr (workOutcome w))]))"

fun audits_ok :: "approval_phase \<Rightarrow> decision \<Rightarrow> event_draft \<Rightarrow> approval_work \<Rightarrow> log \<Rightarrow> bool" where
  "audits_ok AskedPending d asked w l \<longleftrightarrow>
     workPending w = asked_audit d asked \<and> (questions d l = [] \<or> one_valid asked (questions d l)) \<and>
     answers_of d l = []"
| "audits_ok AnswerPending d asked w l \<longleftrightarrow> one_valid asked (questions d l) \<and> answers_of d l = []"
| "audits_ok DecidedPending d asked w l \<longleftrightarrow>
     decided_ok d asked w \<and> one_valid asked (questions d l) \<and>
     (answers_of d l = [] \<or> one_valid (auditDraft (workPending w)) (answers_of d l)) \<and>
     (\<forall>a \<in> set (questions d l). \<forall>b \<in> set (answers_of d l). evSeq a < evSeq b)"
| "audits_ok ExecutionResolved d asked w l \<longleftrightarrow>
     decided_ok d asked w \<and> one_valid asked (questions d l) \<and>
     one_valid (auditDraft (workPending w)) (answers_of d l) \<and>
     (\<forall>a \<in> set (questions d l). \<forall>b \<in> set (answers_of d l). evSeq a < evSeq b)"

definition approval_inv :: "decision \<Rightarrow> event_draft \<Rightarrow> approval_work \<Rightarrow> log \<Rightarrow> bool" where
  "approval_inv d asked w l \<longleftrightarrow>
     log_ok l \<and> in_turn d (entries l) \<and> workDecision w = d \<and> wf_audit (asked_audit d asked) \<and> audits_ok (workPhase w) d asked w l"

lemma audit_names_differ: "audit_event AskedEventName i e \<Longrightarrow> \<not> audit_event DecidedEventName i e"
  by (auto simp: audit_event_def approval_names)

lemma run_asked_inv:
  assumes "approval_inv d asked w l" "sound_journal records" "run_asked records w l = (x, w', l')"
  shows "approval_inv d asked w' l' \<and> (isOk x \<longrightarrow> workPhase w' \<noteq> AskedPending)"
proof (cases "workPhase w = AskedPending")
  case True
  note inv = assms(1) [unfolded approval_inv_def True audits_ok.simps]
  let ?p = "asked_audit d asked"
  obtain y where y: "commit_audit records w l = (y, l')" "w' = (case y of Inl e \<Rightarrow> w | Inr u \<Rightarrow> w\<lparr>workPhase := AnswerPending\<rparr>)"
    "isOk x = isOk y"
    using assms(3) True by (auto simp: run_asked_def split: prod.splits sum.splits)
  have p: "?p = workPending w" "wf_audit ?p" using inv by simp_all
  from commit_audit_effect [OF assms(2) _ p(2,1) y(1)] inv
  have eff: "log_ok l'"
    "entries l' = entries l \<or> (questions d l = [] \<and> (\<exists>e. entries l' = entries l @ [e] \<and> ValidateEvent asked e = Inr ()))"
    "in_turn d (entries l')"
    "y = Inr () \<longrightarrow> (\<exists>e \<in> set (entries l'). audit_event AskedEventName (questionID (question d)) e)"
    by (auto simp: asked_audit_def intro: in_turn_audit)
  have new: "audit_event AskedEventName (questionID (question d)) e" if "ValidateEvent asked e = Inr ()" for e
    using new_audit_event [OF p(2)] that by (simp add: asked_audit_def)
  have q: "(questions d l' = [] \<or> one_valid asked (questions d l')) \<and> answers_of d l' = []"
    using eff(2) inv new audit_names_differ by (auto simp: one_valid_def)
  moreover have "questions d l' \<noteq> []" if "y = Inr ()" using eff(4) that by (auto simp: filter_empty_conv)
  ultimately show ?thesis
    using y(2,3) eff(1,3) inv True by (cases y) (auto simp: approval_inv_def)
qed (use assms in \<open>auto simp: run_asked_def\<close>)

lemma run_answer_inv:
  assumes "approval_inv d asked w l" "run_answer cancelled answers w = (x, w')"
  shows "approval_inv d asked w' l \<and> (isOk x \<longrightarrow> workPhase w' \<noteq> AnswerPending)"
proof (cases "workPhase w = AnswerPending")
  case True
  note inv = assms(1) [unfolded approval_inv_def True audits_ok.simps]
  have wd: "workDecision w = d" using inv by simp
  define cf where "cf = (if \<not> cancelled 0 \<and> Interactive d \<and> \<not> is_NoAnswerer answers
    then collectAnswer answers (question d) else ([], None))"
  obtain choice failure where cf': "cf = (choice, failure)" by (cases cf)
  have run: "run_answer cancelled answers w = (case Resolve d choice (cancelled 1) failure of
      Inl e \<Rightarrow> (Inl e, w)
    | Inr (selected, draft) \<Rightarrow> (Inr (), w\<lparr>workPending := decided_audit d draft, workOutcome := selected,
        workPhase := DecidedPending\<rparr>))"
    using cf' unfolding cf_def run_answer_def decided_audit_def wd by (simp add: True split del: if_split)
  show ?thesis
  proof (cases "Resolve d choice (cancelled 1) failure")
    case (Inl e)
    with run assms show ?thesis by simp
  next
    case (Inr z)
    obtain selected draft where z: "z = (selected, draft)" by (cases z)
    have r: "wf_audit (decided_audit d draft)" "validOutcome selected"
      "selected = OutcomeAllowedOnce \<longrightarrow> decisionPolicy d \<noteq> PolicyNever"
      "draftData draft = Doc (JObj [(''id'', JStr (questionID (question d))), (''outcome'', JStr selected)])"
      using Resolve_Inr [OF Inr [unfolded z]] chosen_outcome_valid chosen_outcome_allowed
      by (auto simp: decided_audit_def)
    with run assms(2) Inr z inv show ?thesis
      by (auto simp: approval_inv_def decided_ok_def)
  qed
qed (use assms in \<open>auto simp: run_answer_def\<close>)

lemma run_decided_inv:
  assumes "approval_inv d asked w l" "sound_journal records" "run_decided records w l = (x, w', l')"
  shows "approval_inv d asked w' l' \<and> (isOk x \<longrightarrow> workPhase w' \<noteq> DecidedPending)"
proof (cases "workPhase w = DecidedPending")
  case True
  note inv = assms(1) [unfolded approval_inv_def True audits_ok.simps]
  then obtain draft where draft: "workPending w = decided_audit d draft" "wf_audit (decided_audit d draft)"
    unfolding decided_ok_def by blast
  obtain y where y: "commit_audit records w l = (y, l')" "w' = (case y of Inl e \<Rightarrow> w | Inr u \<Rightarrow> w\<lparr>workPhase := ExecutionResolved\<rparr>)"
    "isOk x = isOk y"
    using assms(3) True by (auto simp: run_decided_def split: prod.splits sum.splits)
  from commit_audit_effect [OF assms(2) _ draft(2) draft(1) [symmetric] y(1)] inv
  have eff: "log_ok l'"
    "entries l' = entries l \<or> (answers_of d l = [] \<and>
      (\<exists>e. entries l' = entries l @ [e] \<and> ValidateEvent draft e = Inr () \<and> evSeq e = int (length (entries l))))"
    "in_turn d (entries l')"
    "y = Inr () \<longrightarrow> (\<exists>e \<in> set (entries l'). audit_event DecidedEventName (questionID (question d)) e)"
    by (auto simp: decided_audit_def intro: in_turn_audit)
  have new: "audit_event DecidedEventName (questionID (question d)) e \<and> \<not> audit_event AskedEventName (questionID (question d)) e"
    if "ValidateEvent draft e = Inr ()" for e
    using new_audit_event [OF draft(2)] that audit_names_differ by (auto simp: decided_audit_def)
  have q: "one_valid asked (questions d l') \<and> (answers_of d l' = [] \<or> one_valid draft (answers_of d l')) \<and>
      (\<forall>a \<in> set (questions d l'). \<forall>b \<in> set (answers_of d l'). evSeq a < evSeq b)"
    using eff(2)
  proof
    assume "entries l' = entries l"
    then show ?thesis using inv draft(1) by (simp add: decided_audit_def)
  next
    assume "answers_of d l = [] \<and>
      (\<exists>e. entries l' = entries l @ [e] \<and> ValidateEvent draft e = Inr () \<and> evSeq e = int (length (entries l)))"
    then obtain e where e: "answers_of d l = []" "entries l' = entries l @ [e]" "ValidateEvent draft e = Inr ()"
      "evSeq e = int (length (entries l))" by blast
    then have "questions d l' = questions d l" "answers_of d l' = [e]" using new by simp_all
    then show ?thesis using inv e(3,4) log_seq_range [of l] by (auto simp: one_valid_def)
  qed
  moreover have "answers_of d l' \<noteq> []" if "y = Inr ()" using eff(4) that by (auto simp: filter_empty_conv)
  moreover have "auditDraft (workPending w) = draft" using draft(1) by (simp add: decided_audit_def)
  moreover have "decided_ok d asked (w\<lparr>workPhase := ExecutionResolved\<rparr>) = decided_ok d asked w"
    by (simp add: decided_ok_def)
  ultimately show ?thesis
    using y(2,3) eff(1,3) inv True by (cases y) (auto simp: approval_inv_def)
qed (use assms in \<open>auto simp: run_decided_def\<close>)

lemma RunApproval_inv:
  assumes inv: "approval_inv d asked w l" and sound: "sound_journal records"
    and run: "RunApproval cancelled records answers w l = (r, w', l')"
  shows "approval_inv d asked w' l' \<and> (\<forall>out. r = Inr out \<longrightarrow> workPhase w' = ExecutionResolved \<and> out = workOutcome w')"
proof -
  obtain x1 w1 l1 where 1: "run_asked records w l = (x1, w1, l1)" by (metis prod_cases3)
  obtain x2 w2 where 2: "run_answer cancelled answers w1 = (x2, w2)" by (metis surj_pair)
  obtain x3 w3 l3 where 3: "run_decided records w2 l1 = (x3, w3, l3)" by (metis prod_cases3)
  note i1 = run_asked_inv [OF inv sound 1]
  note i2 = run_answer_inv [OF conjunct1 [OF i1] 2]
  note i3 = run_decided_inv [OF conjunct1 [OF i2] sound 3]
  have stay: "workPhase w2 = workPhase w1 \<or> workPhase w2 = DecidedPending"
    using 2 by (auto simp: run_answer_def Let_def split: if_splits sum.splits prod.splits)
  have stay': "workPhase w3 = workPhase w2 \<or> workPhase w3 = ExecutionResolved"
    using 3 by (auto simp: run_decided_def split: if_splits sum.splits prod.splits)
  have "workPhase w3 = ExecutionResolved" if "isOk x1" "isOk x2" "isOk x3"
    using i1 i2 i3 that stay stay' by (cases "workPhase w3") auto
  then show ?thesis
    using run 1 2 3 i1 i2 i3 by (auto simp: RunApproval_def split: sum.splits)
qed

lemma others_inv:
  assumes "approval_inv d asked w l" "Commit clock ctx plan l = (l', r, failure)"
    "list_all (unrelated (questionID (question d))) (drop (length (entries l)) (entries l'))"
  shows "approval_inv d asked w l'"
proof -
  have "\<exists>es. entries l' = entries l @ es"
    using assms(2) by (cases rule: Commit_cases) (auto simp: commitBatch_Inr)
  then obtain es where es: "entries l' = entries l @ es" "list_all (unrelated (questionID (question d))) es"
    using assms(3) by auto
  then have "questions d l' = questions d l" "answers_of d l' = answers_of d l"
    by (auto simp: unrelated_def list_all_iff filter_empty_conv)
  moreover have "log_ok l'" using Commit_ok assms(1,2) by (auto simp: approval_inv_def)
  moreover have "in_turn d (entries l')"
    unfolding es(1) by (rule in_turn_append) (use assms(1) es(2) in \<open>auto simp: approval_inv_def\<close>)
  ultimately show ?thesis using assms(1) by (cases "workPhase w") (auto simp: approval_inv_def)
qed

text \<open>An approval begins when no event of the log has its fresh identity.\<close>

lemma Begin_inv:
  assumes "Begin defaultPolicy minted input = Inr w" "log_ok l"
    "list_all (unrelated (questionID (question (workDecision w)))) (entries l)"
  shows "approval_inv (workDecision w) (auditDraft (workPending w)) w l"
proof -
  obtain draft where d: "AskedDraft (workDecision w) = Inr draft"
    "w = \<lparr>workDecision = workDecision w, workPhase = AskedPending,
      workPending = asked_audit (workDecision w) draft, workOutcome = []\<rparr>"
    using assms(1) by (auto simp: Begin_def bindE_Inr_iff asked_audit_def)
  have "workPhase w = AskedPending" "workPending w = asked_audit (workDecision w) draft"
    using d(2) by (metis approval_work.select_convs(2), metis approval_work.select_convs(3))
  then show ?thesis
    using assms(2,3) AskedDraft_wf [OF d(1)]
    by (auto simp: approval_inv_def asked_audit_def unrelated_def in_turn_def list_all_iff filter_empty_conv)
qed

lemma approval_run_inv:
  assumes "approval_run w0 l0 w l" "approval_inv (workDecision w0) asked w0 l0"
  shows "approval_inv (workDecision w0) asked w l"
  using assms
proof induction
  case (resumed w l records cancelled answers r w' l')
  then show ?case using RunApproval_inv by blast
next
  case (others w l clock ctx plan l' r failure)
  then show ?case using others_inv by blast
qed

end
