(* ===== verification/ToolTheorems.thy ===== *)
theory ToolTheorems
  imports ToolRuns ApprovalLaws Samples
begin

text \<open>
  The properties of a tool call and of the approval of an operation: which calls reach their body,
  that a call settles or keeps an unconfirmed delivery, that an approval leaves a complete audit,
  and what the schema error of a value reports; each with an instance on a small tool.
\<close>

section \<open>A small tool\<close>

definition small_descriptor :: descriptor where
  "small_descriptor =
     \<lparr>descriptorName = ''ls'', descriptorDescription = ''list'', descriptorParameters = Doc (JObj [(''type'', JStr ''object'')]),
      outputSchema = Doc (JObj []), outputRenderer = Some (\<lambda>a v. Returns [TextBlock ''files'']),
      outputPresentation = None, finalizeContent = None, descriptorTimeout = 0, concurrencyBehavior = None\<rparr>"

definition small_contract :: contract where
  "small_contract = \<lparr>contractDescriptor = small_descriptor, parameterValidator = \<lambda>r. Accepts,
     outputValidator = \<lambda>r. Accepts\<rparr>"

definition small_reply :: "raw \<Rightarrow> body_result" where
  "small_reply v = \<lparr>bodyValue = v, bodyErr = None, bodyContexts = [], bodyConcludes = True\<rparr>"

text \<open>A scheduler whose approval tool allows once, and whose body answers or panics.\<close>

definition small_scheduler :: "bool \<Rightarrow> scheduler" where
  "small_scheduler reliable =
     \<lparr>contracts = [(''ls'', small_contract), (''approval'', small_contract)],
      bodies = (\<lambda>n x. if toolName x = ''approval'' then Returns (small_reply (Doc (JStr ''allowed-once'')))
                 else if reliable then Returns (small_reply (Doc (JStr ''a b''))) else Panics ''lost'')\<rparr>"

definition small_call :: call_input where
  "small_call = \<lparr>inputCall = ''c'', inputRoot = [], inputName = ''ls'', inputArguments = Doc (JObj []),
     inputSession = ''s''\<rparr>"

definition small_policies :: "pre_decision \<Rightarrow> policies" where
  "small_policies d = \<lparr>policyBefore = Some (\<lambda>x. Returns d), policyAfter = None, policyExecution = None,
     policyResults = True, policyGuards = [Some (\<lambda>x. Inr ([], False))]\<rparr>"

definition small_view :: tool_execution where
  "small_view = \<lparr>callId = ''c'', rootCallId = ''c'', toolName = ''ls'', callSession = ''s'', callArgs = Doc (JObj [])\<rparr>"

lemma small_execution: "NewExecution small_call = (small_view, None)"
proof -
  have "TrimSpace ''ls'' = ''ls''" by code_simp
  then show ?thesis by (simp add: NewExecution_def small_call_def small_view_def Clone_def)
qed

text \<open>The call after its preparation: the approval was asked and given.\<close>

definition small_approval :: tool_execution where
  "small_approval = approval_invocation ''u'' small_view
     \<lparr>permissionTool = ''ls'', permissionCall = ''c'', permissionReason = ''why''\<rparr>"

definition small_prepared :: "bool \<Rightarrow> tool_call" where
  "small_prepared reliable =
     (dispatchPreparation (new_call (small_scheduler reliable) (\<lambda>i. False) small_view
        (small_policies (AskDecision ''why''))))\<lparr>invocations := [small_approval], contextReads := 4\<rparr>"

lemmas small_defs = small_scheduler_def small_policies_def small_view_def small_contract_def small_descriptor_def
  small_reply_def

lemma small_prepares:
  "PrepareCall (small_scheduler reliable) (Some (\<lambda>i. False)) ''u'' small_call (small_policies (AskDecision ''why'')) =
     Inr (small_prepared reliable)"
  by (simp add: PrepareCall_def prepare_call_def small_execution prepare_admitted_def new_call_def ctx_err_def
      evaluate_def EvaluateCall_def requestApproval_def small_prepared_def small_approval_def small_defs
      ValidateArguments_def validateSchemaValue_def invokeBody_def approval_answer_def ValidateValue_def faults_def
      applyApproval_def approvalDecision_def OutcomeAllowedOnce_def decisionDenial_def dispatchPreparation_def
      approval_invocation_def)

lemma small_prepared_fields:
  "invocations (small_prepared reliable) = [small_approval]" "callStage (small_prepared reliable) = ScheduledDispatch"
  "callProblem (small_prepared reliable) = None"
  by (simp_all add: small_prepared_def dispatchPreparation_def new_call_def)

lemma small_dispatches:
  "Dispatch (small_scheduler reliable) (small_prepared reliable) =
     (if reliable then
        (None, (small_prepared reliable)\<lparr>callPhase := ExecutionPreparedForPost, bodyInvoked := True, turnConcluded := True,
           invocations := [small_approval, small_view], contextReads := 6,
           dispatched := Some (Succeeded \<lparr>successValue = Doc (JStr ''a b''), successContent = [TextBlock ''files''],
             successMeta = Absent, successContexts = [], successConcludes = True\<rparr>)\<rparr>)
      else
        (let e = Delivery (Fault (err ''tools: body delivery panicked; execution completion is unconfirmed'')) in
         (Some e, (small_prepared reliable)\<lparr>callPhase := ExecutionPreparedForPost, bodyInvoked := True,
            invocations := [small_approval, small_view], contextReads := 5, callProblem := Some e\<rparr>)))"
  by (simp add: Dispatch_def dispatchBody_def invoke_def ExecuteBody_def terminal_def executeBody_def ctx_err_def
      small_prepared_def small_defs new_call_def dispatchPreparation_def ValidateArguments_def validateSchemaValue_def
      invokeBody_def markBodyInvoked_def recordEffects_def success_def output_check_def faults_def Clone_def
      ValidateValue_def CloneContentBlocks_def normalize_def prependAdditionalContexts_def snapshot_contexts_def
      cloneUserMessages_tools_def cloneOptionalJSON_def completeDispatch_def Let_def)

section \<open>Tool calls\<close>

text \<open>
  C12: A tool body runs only with permission.  Whatever a call goes through after its preparation,
  an invocation that a dispatch hands to the invoker is the validated call itself; the call is
  still as it was prepared, scheduled for dispatch, with no result dispatched or settled, nothing published and
  no error; the registration is the one found when it was prepared, and the arguments satisfy its
  compiled schema; every guard let it pass; and the policy allowed it, denied it
  without giving a reason, or asked, in which case the approval tool answered with allowed-once.  It is the
  first invocation of this body, and without a middleware the only one.
\<close>

theorem tool_body_needs_permission:
  assumes "PrepareCall s (Some cancelled) identifier input ps = Inr c" "call_run s c c1"
    "v \<in> set (drop (length (invocations c1)) (invocations (snd (Dispatch s c1))))"
  shows "v = fst (NewExecution input) \<and> c1 = c \<and> callStage c1 = ScheduledDispatch \<and> dispatched c1 = None \<and>
    settled c1 = None \<and> published c1 = [] \<and> callProblem c1 = None \<and> cleared s identifier ps v \<and>
    (\<exists>entry. callEntry c1 = Some entry \<and> map_of (contracts s) (toolName v) = Some entry \<and>
       ValidateArguments entry (callArgs v) = Inr ()) \<and>
    list_all (\<lambda>i. toolName i = ''approval'') (invocations c1) \<and>
    (policyExecution ps = None \<longrightarrow> length (invocations (snd (Dispatch s c1))) \<le> Suc (length (invocations c1)))"
proof -
  let ?x = "fst (NewExecution input)"
  have p: "prepared s identifier ps ?x c" "list_all (\<lambda>i. toolName i = ''approval'') (invocations c)"
    using PrepareCall_prepared [OF assms(1)] by simp_all
  have d: "v = callExecution c1" "callPhase c1 = ExecutionPreparedForDispatch" "args_accepted c1"
    using dispatch_invocations [OF assms(3)] by simp_all
  then have c1: "c1 = c" using call_run_ready [OF assms(2) prepared_ok [OF p(1)]] by simp
  have f: "callPolicies c = ps" "callExecution c = ?x" "callEntry c = map_of (contracts s) (toolName ?x)"
    "cleared s identifier ps ?x" "dispatched c = None" "settled c = None" "published c = []"
    using p(1) d(2) unfolding c1 by (simp_all add: prepared_def fresh_call_def)
  have n: "callProblem c = None" using assms(3) c1 by (cases "callProblem c") (auto simp: Dispatch_problem)
  then have st: "callStage c = ScheduledDispatch"
    using p(1) d(2) unfolding c1 by (auto simp: prepared_def staged_def split: call_stage.splits)
  have "length (invocations (snd (Dispatch s c))) \<le> Suc (length (invocations c))" if "policyExecution ps = None"
    using plain_dispatch [of c s "fst (Dispatch s c)" "snd (Dispatch s c)"] that d(2) f(1) n c1 by simp
  then show ?thesis using d f n st p(2) unfolding c1 by (auto simp: args_accepted_def)
qed

theorem tool_body_needs_permission_witness:
  "length (invocations (snd (Dispatch (small_scheduler True) (small_prepared True)))) = 2 \<and>
   callStage (small_prepared True) = ScheduledDispatch \<and>
   cleared (small_scheduler True) ''u'' (small_policies (AskDecision ''why'')) (fst (NewExecution small_call))"
proof -
  let ?is = "invocations (snd (Dispatch (small_scheduler True) (small_prepared True)))"
  have i: "length (invocations (small_prepared True)) = 1" "length ?is = 2"
    by (simp_all add: small_dispatches small_prepared_fields)
  then have "last ?is \<in> set (drop (length (invocations (small_prepared True))) ?is)"
    by (cases ?is rule: rev_cases) auto
  from tool_body_needs_permission [OF small_prepares prepared_call this]
  have "last ?is = fst (NewExecution small_call)" "callStage (small_prepared True) = ScheduledDispatch"
    "cleared (small_scheduler True) ''u'' (small_policies (AskDecision ''why'')) (last ?is)" by blast+
  with i show ?thesis by metis
qed

text \<open>
  C13: A tool call settles, and never invents a result.  A prepared call goes through the one
  dispatch it asks for, if it asks for one.  When every invocation that was handed to the invoker, of the body and
  of the approval tool, is confirmed (it returned, with a reply or with its error), and the middleware, if
  there is one, raises no delivery error of its own, then no error stays with the call:
  finalizing it returns no error and gives a result that is valid (its copy is itself); the
  observer of the policies is told exactly this result once; and every later read, whatever else is
  called, gives the same result.
\<close>

theorem tool_call_settles:
  assumes "PrepareCall s (Some cancelled) identifier input ps = Inr c"
    "c1 = (if callStage c = ScheduledDispatch then snd (Dispatch s c) else c)" "confirmed s c1"
    "case policyExecution ps of None \<Rightarrow> True | Some f \<Rightarrow> forwards (f (fst (NewExecution input)))"
  shows "callProblem c1 = None \<and>
    (\<exists>r c2. Finalize c1 = (None, c2) \<and> CallResult c2 = Inr r \<and> CloneResult r = Inr r \<and>
       published c2 = (if policyResults ps then [r] else []) \<and> (\<forall>c3. call_run s c2 c3 \<longrightarrow> CallResult c3 = Inr r))"
proof -
  let ?x = "fst (NewExecution input)"
  have p: "prepared s identifier ps ?x c" using PrepareCall_prepared [OF assms(1)] by simp
  then have ps: "callPolicies c = ps" "callExecution c = ?x" by (simp_all add: prepared_def fresh_call_def)
  have finalize: ?thesis
    if u: "unsettled c1" "callProblem c1 = None" "callStage c1 = ScheduledDispatch \<longrightarrow> dispatched c1 \<noteq> None"
      "callPhase c1 \<noteq> ExecutionUnprepared" "callPolicies c1 = ps"
  proof -
    obtain c2 where c2: "Finalize c1 = (None, c2)" "callProblem c2 = None" "callPhase c2 = ExecutionCompleted"
      "settled_ok c2" and pol: "callPolicies c2 = ps"
      using Finalize_settles [OF u(1-3)] u(4,5) by auto
    obtain r where r: "settled c2 = Some r" "valid_result r" "published c2 = (if policyResults ps then [r] else [])"
      using c2(4) pol by (auto simp: settled_ok_def)
    have "c3 = c2" if "call_run s c2 c3" for c3
      using call_run_done [OF that, of r] c2(2,3) r(1) by (simp add: done_with_def)
    then show ?thesis using c2(1) CallResult_settled [OF c2(2) r(1,2)] r(2,3) u(2) by (auto simp: valid_result_def)
  qed
  have none: "callProblem c = None"
  proof (rule ccontr)
    assume "callProblem c \<noteq> None"
    moreover from this have "c1 = c" using assms(2) by (auto simp: Dispatch_problem)
    ultimately show False using p assms(3) by (auto simp: prepared_def)
  qed
  note u = prepared_unsettled [OF p none]
  show ?thesis
  proof (cases "callStage c = ScheduledDispatch")
    case False
    then show ?thesis using finalize u none assms(2) ps(1) by auto
  next
    case True
    then have ph: "callPhase c = ExecutionPreparedForDispatch" using p none by (auto simp: prepared_def staged_def)
    have fwd: "forwards (f (callExecution c))" if "policyExecution (callPolicies c) = Some f" for f
      using assms(4) that ps by simp
    have "confirmed s (snd (Dispatch s c))" using assms(2,3) True by simp
    then have clear: "callProblem (snd (Dispatch s c)) = None" by (rule dispatch_confirmed [OF ph none]) (rule fwd)
    from ph none show ?thesis
    proof (cases rule: Dispatch_runs [of c s])
      case (1 n d r)
      note f = body_steps_fields [OF 1(1)]
      have c1: "c1 = d\<lparr>callPhase := ExecutionPreparedForPost, dispatched := Some r\<rparr>" using 1(2) True assms(2) by simp
      show ?thesis by (rule finalize) (use u True none ps f in \<open>auto simp: c1 unsettled_def\<close>)
    next
      case (2 n d e)
      then show ?thesis using clear by simp
    qed
  qed
qed

theorem tool_call_settles_witness:
  "\<exists>r c2. Finalize (snd (Dispatch (small_scheduler True) (small_prepared True))) = (None, c2) \<and>
     CallResult c2 = Inr r \<and> CloneResult r = Inr r \<and> published c2 = [r] \<and> result_concludes r"
proof -
  let ?c = "snd (Dispatch (small_scheduler True) (small_prepared True))"
  have s: "callStage (small_prepared True) = ScheduledDispatch" by (simp add: small_prepared_fields)
  have e: "(if callStage (small_prepared True) = ScheduledDispatch then ?c else small_prepared True) = ?c"
    using s by simp
  have o: "policyResults (small_policies (AskDecision ''why''))" "policyExecution (small_policies (AskDecision ''why'')) = None"
    by (simp_all add: small_policies_def)
  have k: "confirmed (small_scheduler True) ?c"
    by (simp add: confirmed_iff small_dispatches nth_Cons small_scheduler_def split: nat.splits)
  from tool_call_settles [OF small_prepares [of True] refl, unfolded e, OF k] o
  obtain r c2 where r: "Finalize ?c = (None, c2)" "CallResult c2 = Inr r" "CloneResult r = Inr r" "published c2 = [r]"
    by auto
  moreover have "result_concludes r"
  proof -
    have "result_concludes q" if "CallResult (snd (Finalize ?c)) = Inr q" for q
      using that unfolding small_dispatches
      by (simp add: Finalize_def small_prepared_def dispatchPreparation_def new_call_def finalize_call_def
          post_result_def ReviewResult_def small_defs applyPostDecision_def appendAdditionalContexts_def
          cloneUserMessages_tools_def cloneOptionalJSON_def Clone_def CloneContentBlocks_def faults_def ctx_err_def
          finishResult_def clone_or_error_def finalize_content_def entry_finalizer_def settle_def
          completeFinalization_def CallResult_def Let_def) (auto)
    with r(1,2) show ?thesis by simp
  qed
  ultimately show ?thesis by blast
qed

text \<open>
  C15: An unconfirmed body never has a result.  When, without a middleware, a dispatch invokes the body
  and the invoker reports an error or panics, so that it is unknown whether the body ran, the dispatch
  returns the delivery error, and whatever is called afterwards, every operation returns this
  error and no result is ever given.
\<close>

theorem unconfirmed_body_has_no_result:
  assumes "PrepareCall s (Some cancelled) identifier input ps = Inr c" "policyExecution ps = None"
    "Dispatch s c = (r, c1)" "invocations c1 \<noteq> invocations c"
    "\<forall>body. bodies s (length (invocations c)) (fst (NewExecution input)) \<noteq> Returns body"
  shows "\<exists>d. r = Some (Delivery d) \<and>
    (\<forall>c2. call_run s c1 c2 \<longrightarrow> fst (Dispatch s c2) = Some (Delivery d) \<and> fst (Finalize c2) = Some (Delivery d) \<and>
       CallResult c2 = Inl (Delivery d) \<and> published c2 = [])"
proof -
  have p: "prepared s identifier ps (fst (NewExecution input)) c" using PrepareCall_prepared [OF assms(1)] by simp
  then have f: "callPolicies c = ps" "callExecution c = fst (NewExecution input)" "published c = []"
    by (simp_all add: prepared_def fresh_call_def)
  have ph: "callPhase c = ExecutionPreparedForDispatch" "callProblem c = None"
    using Dispatch_refused [of c s] Dispatch_problem [of c _ s] assms(3,4) by (cases "callProblem c"; auto)+
  obtain d where d: "r = Some (Delivery d)" "callProblem c1 = Some (Delivery d)"
    using plain_dispatch [OF ph _ assms(3)] assms(2,4,5) f by auto
  from ph have "published c1 = []"
  proof (cases rule: Dispatch_runs [of c s])
    case (1 n d r)
    then show ?thesis using assms(3) f(3) body_steps_fields(10) [OF 1(1)] by auto
  next
    case (2 n d e)
    then show ?thesis using assms(3) f(3) body_steps_fields(10) [OF 2(1)] by auto
  qed
  then have "fst (Dispatch s c1) = Some (Delivery d) \<and> fst (Finalize c1) = Some (Delivery d) \<and>
      CallResult c1 = Inl (Delivery d) \<and> published c1 = []"
    using d(2) by (simp add: Dispatch_problem Finalize_problem CallResult_def)
  then show ?thesis using d(1) call_run_problem [OF _ d(2)] by blast
qed

theorem unconfirmed_body_has_no_result_witness:
  "\<exists>d. fst (Dispatch (small_scheduler False) (small_prepared False)) = Some (Delivery d) \<and>
     CallResult (snd (Finalize (snd (Dispatch (small_scheduler False) (small_prepared False))))) = Inl (Delivery d)"
proof -
  let ?c = "small_prepared False"
  let ?d = "Dispatch (small_scheduler False) ?c"
  have i: "length (invocations (snd ?d)) = 2" "length (invocations ?c) = 1"
    by (simp_all add: small_dispatches small_prepared_fields Let_def)
  have n: "\<forall>body. bodies (small_scheduler False) (length (invocations ?c)) (fst (NewExecution small_call)) \<noteq> Returns body"
    by (simp add: small_execution small_defs)
  have m: "policyExecution (small_policies (AskDecision ''why'')) = None" by (simp add: small_policies_def)
  have "invocations (snd ?d) \<noteq> invocations ?c" using i by auto
  from unconfirmed_body_has_no_result [OF small_prepares m surjective_pairing this n]
  obtain d where d: "fst ?d = Some (Delivery d)"
    "\<And>c2. call_run (small_scheduler False) (snd ?d) c2 \<Longrightarrow> CallResult c2 = Inl (Delivery d)" by blast
  have "call_run (small_scheduler False) (snd ?d) (snd (Finalize (snd ?d)))"
    by (rule finalized_call [OF prepared_call surjective_pairing])
  with d show ?thesis by blast
qed

text \<open>
  C16: A denial without a reason is no denial.  A call whose policy answers with a denial that has an
  empty reason, and which no guard denies, is prepared for the dispatch of its body.
\<close>

theorem denial_without_reason_dispatches:
  assumes "policyBefore ps = Some f" "f (fst (NewExecution input)) = Returns (DenyDecision [])"
    "policyGuards ps = []" "snd (NewExecution input) = None" "\<forall>i. \<not> cancelled i"
  shows "\<exists>c. PrepareCall s (Some cancelled) identifier input ps = Inr c \<and> callStage c = ScheduledDispatch \<and>
    callPhase c = ExecutionPreparedForDispatch"
proof -
  obtain x where x: "NewExecution input = (x, None)" using assms(4) by (cases "NewExecution input") auto
  have "evaluate ps x = Inr (Inr [])"
    using assms(1-3) x by (simp add: evaluate_def EvaluateCall_def decisionDenial_def faults_def)
  then show ?thesis
    using x assms(3,5)
    by (simp add: PrepareCall_def prepare_call_def prepare_admitted_def new_call_def ctx_err_def dispatchPreparation_def)
qed

theorem denial_without_reason_dispatches_witness:
  "\<exists>c. PrepareCall (small_scheduler True) (Some (\<lambda>i. False)) ''u'' small_call
        ((small_policies (DenyDecision []))\<lparr>policyGuards := []\<rparr>) = Inr c \<and> callStage c = ScheduledDispatch"
proof -
  have v: "snd (NewExecution small_call) = None" by (simp add: small_execution)
  have "\<exists>c. PrepareCall (small_scheduler True) (Some (\<lambda>i. False)) ''u'' small_call
      ((small_policies (DenyDecision []))\<lparr>policyGuards := []\<rparr>) = Inr c \<and> callStage c = ScheduledDispatch \<and>
      callPhase c = ExecutionPreparedForDispatch"
    by (rule denial_without_reason_dispatches [where f = "\<lambda>x. Returns (DenyDecision [])"])
      (simp_all add: small_policies_def v)
  then show ?thesis by blast
qed

text \<open>
  A call without a context loses its reason.  It is prepared with a final result that says the
  context is nil, but not in the phase that finishing requires, so finalizing it settles a different
  failure, and neither the content finalizer nor the observer sees the call.
\<close>

theorem nil_context_result_is_lost:
  assumes "PrepareCall s None identifier input ps = Inr c"
  shows "preparedResult c = Some (errorResult (Some (Fault (err ''tools: execution context is nil'')))) \<and>
    CallResult (snd (Finalize c)) =
      Inr (errorResult (Some (Fault (err ''tools: execution is not prepared for terminal finalization'')))) \<and>
    published (snd (Finalize c)) = []"
proof -
  let ?e = "Fault (err ''tools: execution is not prepared for terminal finalization'')"
  have c: "c = without_context s (fst (NewExecution input)) ps" using PrepareCall_nil [OF assms] .
  then have u: "unsettled c" "callProblem c = None" "callPhase c = ExecutionUnprepared" "callStage c = ScheduledFinalResult"
    by (simp_all add: without_context_def new_call_def unsettled_def)
  obtain c2 where c2: "Finalize c = (None, c2)" "callProblem c2 = None" "published c2 = []"
    "settled c2 = Some (errorResult (Some ?e))"
    using Finalize_settles [OF u(1,2)] u(3,4) by auto
  have "valid_result (errorResult (Some ?e))" by (rule error_valid) simp
  then show ?thesis
    using c2 CallResult_settled [OF c2(2,4)] by (simp add: c without_context_def)
qed

theorem nil_context_result_is_lost_witness:
  "\<exists>c. PrepareCall (small_scheduler True) None ''u'' small_call (small_policies AllowDecision) = Inr c \<and>
     published (snd (Finalize c)) = [] \<and> policyResults (callPolicies c)"
proof -
  let ?c = "without_context (small_scheduler True) small_view (small_policies AllowDecision)"
  have c: "PrepareCall (small_scheduler True) None ''u'' small_call (small_policies AllowDecision) = Inr ?c"
    by (simp add: PrepareCall_def prepare_call_def small_execution without_context_def small_policies_def)
  have "policyResults (callPolicies ?c)" by (simp add: without_context_def new_call_def small_policies_def)
  with c nil_context_result_is_lost [OF c] show ?thesis by blast
qed

section \<open>Schemas\<close>

text \<open>The failures of a tree, the root first.\<close>

fun all_failures :: "schema_failure \<Rightarrow> schema_failure list" where
  "all_failures (SchemaFailure l t cs) = SchemaFailure l t cs # concat (map all_failures cs)"

lemma foldl_deeper:
  "foldl deeper d cs \<in> insert d (set cs) \<and>
   (\<forall>c \<in> insert d (set cs). length (failureLocation c) \<le> length (failureLocation (foldl deeper d cs)))"
proof (induction cs arbitrary: d)
  case (Cons c cs)
  have "length (failureLocation d) \<le> length (failureLocation (deeper d c))"
    "length (failureLocation c) \<le> length (failureLocation (deeper d c))" "deeper d c \<in> {d, c}"
    by (auto simp: deeper_def)
  with Cons.IH [of "deeper d c"] show ?case by (auto intro: order_trans)
qed simp

text \<open>
  The error of a rejected value names the deepest failure.  Whatever tree of failures the schema
  library returns, the reported failure is one of the tree and no failure of it has a longer
  location.
\<close>

theorem reported_failure_is_deepest:
  "deepestSchemaFailure f \<in> set (all_failures f) \<and>
   list_all (\<lambda>g. length (failureLocation g) \<le> length (failureLocation (deepestSchemaFailure f))) (all_failures f)"
proof (induction f rule: deepestSchemaFailure.induct)
  case (1 l t cs)
  let ?r = "SchemaFailure l t cs"
  let ?d = "foldl deeper ?r (map deepestSchemaFailure cs)"
  note fold = foldl_deeper [of ?r "map deepestSchemaFailure cs"]
  have root: "failureLocation ?r = l" by simp
  have "?d = ?r \<or> (\<exists>c \<in> set cs. ?d = deepestSchemaFailure c)" using fold by auto
  then have "?d \<in> set (all_failures ?r)" using 1 by fastforce
  moreover have "length (failureLocation g) \<le> length (failureLocation ?d)" if g: "g \<in> set (all_failures ?r)" for g
  proof (cases "g = ?r")
    case True
    then show ?thesis using fold by auto
  next
    case False
    then obtain c where c: "c \<in> set cs" "g \<in> set (all_failures c)" using g by auto
    then have "length (failureLocation g) \<le> length (failureLocation (deepestSchemaFailure c))"
      using 1 [OF c(1)] by (auto simp: list_all_iff)
    also have "\<dots> \<le> length (failureLocation ?d)" using fold c(1) by auto
    finally show ?thesis .
  qed
  ultimately show ?case unfolding deepestSchemaFailure.simps list_all_iff by blast
qed

section \<open>Approvals\<close>

definition asking_log :: log where
  "asking_log = fst (Commit (\<lambda>i. 7) live_context (Batch [\<lparr>draftType = ''turn/start'',
     draftData = Doc (JObj [(''turn'', jint 1)]), draftSources = None, draftSurfaceOp = None, draftIgnorable = False\<rparr>])
     (new_log sample_header))"

definition small_request :: approval_request where
  "small_request = \<lparr>approvalSession = ''s'', approvalEvents = entries asking_log, approvalTool = ''ls'',
     approvalCall = Some ''c'', approvalReason = None\<rparr>"

text \<open>A journal that reports what happened, and one that commits and reports an error.\<close>

definition direct_journal :: journal where
  "direct_journal plan l =
     (case Commit (\<lambda>i. 9) live_context plan l of
        (l', r, None) \<Rightarrow> (Inr r, l') | (l', r, Some e) \<Rightarrow> (Inl e, l'))"

definition forgetful_journal :: journal where
  "forgetful_journal plan l = (Inl (err ''lost''), fst (Commit (\<lambda>i. 9) live_context plan l))"

lemma small_journals: "sound_journal direct_journal" "sound_journal forgetful_journal"
proof -
  show "sound_journal direct_journal"
    unfolding sound_journal_def direct_journal_def by (auto split: prod.splits option.splits)
  show "sound_journal forgetful_journal"
    unfolding sound_journal_def forgetful_journal_def by (metis Inl_Inr_False prod.inject surjective_pairing)
qed

definition small_begun :: approval_work where
  "small_begun = projr (Begin PolicyAsk (Inr ''id'') small_request)"

definition small_retried :: "string res \<times> approval_work \<times> log" where
  "small_retried = RunApproval (\<lambda>i. False) forgetful_journal NoAnswerer small_begun asking_log"

definition small_answered :: "string res \<times> approval_work \<times> log" where
  "small_answered = RunApproval (\<lambda>i. False) direct_journal (Answers (\<lambda>q. Inr ''allowed-once''))
     (fst (snd small_retried)) (snd (snd small_retried))"

text \<open>
  C14: An approval is exposed only with its complete audit.  In every run of an approval that begins
  with a fresh identity, with retries after errors (also of calls that took effect) and other
  writers in between, a call that returns an outcome leaves exactly one question and one answer
  of this identity in the log, the answer after the question and with this outcome, each of them
  inside the turn the approval began in: among the events before it, the last start or end of a turn is
  the start of this turn; the outcome is of the closed vocabulary, and allows only if the policy fixed at the beginning asks.
\<close>

theorem approval_audit_is_paired:
  assumes "log_ok l0" "Begin defaultPolicy minted input = Inr w0"
    "list_all (unrelated (questionID (question (workDecision w0)))) (entries l0)"
    "approval_run w0 l0 w l" "sound_journal records"
    "RunApproval cancelled records answers w l = (Inr outcome, w', l')"
  shows "\<exists>a b. audits AskedEventName (questionID (question (workDecision w0))) (entries l') = [a] \<and>
    audits DecidedEventName (questionID (question (workDecision w0))) (entries l') = [b] \<and> evSeq a < evSeq b \<and>
    enclosing_turn (take (nat (evSeq a)) (entries l')) = Some (turnSeq (workDecision w0)) \<and>
    enclosing_turn (take (nat (evSeq b)) (entries l')) = Some (turnSeq (workDecision w0)) \<and>
    evData b = Doc (JObj [(''id'', JStr (questionID (question (workDecision w0)))), (''outcome'', JStr outcome)]) \<and>
    validOutcome outcome \<and> (outcome = OutcomeAllowedOnce \<longrightarrow> decisionPolicy (workDecision w0) = PolicyAsk)"
proof -
  let ?d = "workDecision w0" and ?asked = "auditDraft (workPending w0)"
  have valid: "validPolicy (decisionPolicy ?d)"
    using assms(2) by (auto simp: Begin_def AskedDraft_def validate_decision_def bindE_Inr_iff failIf_Inr)
  have "approval_inv ?d ?asked w l"
    using approval_run_inv [OF assms(4) Begin_inv [OF assms(2,1,3)]] .
  from RunApproval_inv [OF this assms(5,6)]
  have i: "approval_inv ?d ?asked w' l'" "workPhase w' = ExecutionResolved" "outcome = workOutcome w'" by auto
  then have r: "decided_ok ?d ?asked w'" "one_valid ?asked (questions ?d l')"
    "one_valid (auditDraft (workPending w')) (answers_of ?d l')"
    "\<forall>a \<in> set (questions ?d l'). \<forall>b \<in> set (answers_of ?d l'). evSeq a < evSeq b"
    by (simp_all add: approval_inv_def)
  obtain a b where ab: "questions ?d l' = [a]" "answers_of ?d l' = [b]"
    "ValidateEvent (auditDraft (workPending w')) b = Inr ()" using r(2,3) by (auto simp: one_valid_def)
  have "evData b = draftData (auditDraft (workPending w'))" using ValidateEvent_copies [OF ab(3)] by simp
  then have "evData b = Doc (JObj [(''id'', JStr (questionID (question ?d))), (''outcome'', JStr outcome)])"
    using r(1) i(3) by (auto simp: decided_ok_def decided_audit_def)
  moreover have "validOutcome outcome" "outcome = OutcomeAllowedOnce \<longrightarrow> decisionPolicy ?d = PolicyAsk"
    using r(1) i(3) valid by (auto simp: decided_ok_def validPolicy_def)
  moreover have "evSeq a < evSeq b" using r(4) ab(1,2) by simp
  moreover have "a \<in> set (questions ?d l')" "b \<in> set (answers_of ?d l')" using ab(1,2) by simp_all
  then have "a \<in> set (entries l')" "b \<in> set (entries l')" "\<not> unrelated (questionID (question ?d)) a"
    "\<not> unrelated (questionID (question ?d)) b" by (simp_all add: unrelated_def)
  then have "enclosing_turn (take (nat (evSeq a)) (entries l')) = Some (turnSeq ?d)"
    "enclosing_turn (take (nat (evSeq b)) (entries l')) = Some (turnSeq ?d)"
    using i(1) by (auto simp: approval_inv_def in_turn_def)
  ultimately show ?thesis using ab(1,2) by blast
qed

theorem approval_audit_is_paired_witness:
  "\<exists>a b. audits AskedEventName ''id'' (entries (snd (snd small_answered))) = [a] \<and>
     audits DecidedEventName ''id'' (entries (snd (snd small_answered))) = [b] \<and> evSeq a < evSeq b \<and>
     enclosing_turn (take (nat (evSeq b)) (entries (snd (snd small_answered)))) = Some 0 \<and>
     evData b = Doc (JObj [(''id'', JStr ''id''), (''outcome'', JStr ''allowed-once'')])"
proof -
  have ok: "log_ok asking_log" unfolding asking_log_def 
    by (rule Commit_ok [OF new_log_ok surjective_pairing [THEN trans]]) (simp add: prod_eq_iff)
  have c: "isOk (Begin PolicyAsk (Inr ''id'') small_request)"
    "list_all (unrelated (questionID (question (workDecision small_begun)))) (entries asking_log)"
    "questionID (question (workDecision small_begun)) = ''id''" "turnSeq (workDecision small_begun) = 0"
    "fst small_retried = Inl (err ''lost'')" "fst small_answered = Inr ''allowed-once''" by code_simp+
  have b: "Begin PolicyAsk (Inr ''id'') small_request = Inr small_begun"
    using c(1) unfolding small_begun_def by (auto simp: isOk_iff)
  have run: "approval_run small_begun asking_log (fst (snd small_retried)) (snd (snd small_retried))"
    by (rule resumed [OF begun small_journals(2), of "\<lambda>i. False" NoAnswerer _ _ "fst small_retried"])
      (simp add: small_retried_def)
  have "RunApproval (\<lambda>i. False) direct_journal (Answers (\<lambda>q. Inr ''allowed-once'')) (fst (snd small_retried))
      (snd (snd small_retried)) = (Inr ''allowed-once'', fst (snd small_answered), snd (snd small_answered))"
    using c(6) by (simp add: small_answered_def prod_eq_iff)
  from approval_audit_is_paired [OF ok b c(2) run small_journals(1) this] c(3,4) show ?thesis by auto
qed

end
