(* ===== verification/Spec2Isabelle.thy ===== *)
theory Spec2Isabelle
  imports Samples AgentTheorems ToolWrites PromptTheorems RequestTheorems RetryTheorems ToolTheorems
begin

text \<open>
  The core of goren, an agent runtime written in Go: the session log every agent writes to,
  the compaction of its model-visible surface, the prompt and the model requests of a step with
  their retries, and the agent that turns pending messages into turns and steps.  Source paths
  are below \<open>src/\<close>.

  \<^bold>\<open>The parts and how they interact.\<close>  A session is an append-only log of events with a surface,
  the list of the events the model sees.  Writers hand the log a write plan; it builds drafts
  from a snapshot, or finds its own earlier commit, and the log validates and appends them
  atomically.  Everything durable below is such a writer.  A compaction takes a lock with a
  start event, replaces a span of the surface by a checkpoint and releases the lock.  An agent
  keeps its pending messages (the inbox) as a fold of committed splices, and commits the start
  and end of its turns and steps as idempotent facts, confirming each commit against the state
  it was prepared in.  A step assembles its prompt from the registered layers, and asks for one
  model request.  The request runs attempts: an attempt checks the log, commits its header,
  streams chunks, commits each and folds it into an assembler.  A failed attempt goes to the
  retry recovery, which reads the retry facts of the log, waits by the provider's policy and
  commits that the next attempt may start.  The tool calls of the answer form a batch; each goes
  through the scheduler, which may ask for an approval and then runs the body of the tool.

  \<^bold>\<open>Theories.\<close>
  \<^item> Prelude: errors (\<open>goerr\<close>, with a constructor for run time panics), results as sums,
    indexed traversals, Go slices.  Every theory uses its hints.
  \<^item> GoJson: JSON documents, the lossless scanner of \<open>internal/jsonvalue/value.go\<close>, and what
    the code uses of encoding/json: folded field names, strict decoding, scalars.  GoText has
    byte strings, maps and stable sorting, GoFloat the \<open>float64\<close> arithmetic of a policy.
  \<^item> Messages, MessageCodec: \<open>agentmessage/\<close>: content blocks, the three message classes, their
    sources, cloning, encoding and decoding.
  \<^item> SessionTypes, Payloads, SessionSurface, SessionLog: \<open>session/types.go\<close>, \<open>events.go\<close>,
    \<open>surface.go\<close>, \<open>log.go\<close>, \<open>log_commit.go\<close>, \<open>message_projection.go\<close>: header, events, drafts,
    the planned and applied surface transitions, construction from a seed, \<open>Commit\<close> and
    \<open>DeriveMessages\<close>.  SessionLogLaws and SessionHistory hold the invariant of a log, the
    comparison of a batch with single transitions, the cache and reopening.
  \<^item> Writes: write plans and their contract as locales: an idempotent write finds what it
    committed, and a stable one still does after foreign events; a found write is replayed.
  \<^item> CompactionCodec, CompactionLog, CompactionRegion: \<open>compaction/\<close> payloads, the inspection of a
    log that recovers the lock (\<open>invariant.go\<close>), the balanced cuts (\<open>tool_pairing.go\<close>), and
    \<open>compaction/basic/\<close> region, selection and baseline.  CompactionWrites,
    CompactionWriteLaws, CompactionEffects and CompactionOutcome hold the three writes of a
    transaction, their contract and what a committed one does to lock and surface.
  \<^item> TurnEvents: \<open>session/event_types.go\<close>, \<open>turn_end_codec.go\<close>: the boundary events and codecs.
  \<^item> Turns, Steps, ToolBatch: the state machines of \<open>agentloop/internal/turn\<close>, \<open>step\<close> and
    \<open>toolbatch\<close>, with runs as inductive relations and invariants over them.  ToolWrites:
    \<open>agentloop/tool_write.go\<close>, the batches of tool calls and of authored context.
  \<^item> Inbox, InboxLaws, InboxEdits: \<open>agent/inbox.go\<close>: the queues, the durable splice, the fold and
    the prepared edits; what a splice and a committed edit do, and that no message is lost.
  \<^item> BoundaryWrites: \<open>agentloop/turn_start.go\<close>, \<open>turn_end.go\<close>, \<open>end_step.go\<close>: the three facts and
    their interpretation of the write contract.
  \<^item> PromptRender, PromptLayers, PromptAssembly: \<open>systemprompt/\<close>: the interpolation of templates
    and the rendering of sections, the store of registrations with layers and snapshots, merging,
    tool order and the runtime.  PromptRenderLaws, PromptStoreLaws, PromptLaws and PromptSafety
    show that a template means its value, that a store is a list of registrations, how
    definitions merge, and that what layers capture is well formed; PromptTheorems states it.
  \<^item> VisibleContext, VisibleLaws: \<open>agentloop/internal/visiblecontext\<close>: the retained prompt
    context, restored and observed.
  \<^item> ModelStream, ModelStreamLaws: \<open>llm/stream*.go\<close>, \<open>finish_reason.go\<close>, \<open>assembler.go\<close>: chunks and
    their codec, and the assembler, a function of the chunks.  RequestHeader, RequestHeaderLaws:
    \<open>llm/types.go\<close>, \<open>session/request_state.go\<close>, \<open>modelrequest/request_header.go\<close>: the call
    configuration and the durable facts of a request, and when a committed header is recognised.
  \<^item> ModelAttempt, ModelRequest: \<open>agentloop/internal/modelrequest\<close>: one attempt and one request as
    machines that take the result of the operation they asked for.  ModelAttemptLaws,
    ModelAttemptRuns, ModelAttemptTrace and ModelRequestLaws hold their invariants, the runs as
    inductive relations and the measure that bounds them.  ModelWorld puts an attempt beside a log
    and a provider without faults; ModelProgress and ModelAnswer show that it then completes, and
    with what.  RequestTheorems states the properties.
  \<^item> RetryPolicy, RetryRecords, RetryHistory, RetryRecovery: \<open>llm/retry_policy*.go\<close> and
    \<open>llm/retry/\<close>: the policy, the durable facts of a retry, the projection that validates them
    in a log, and the recovery of a failed request.  RetryLaws holds its chain invariant and
    RetryTheorems states the properties.
  \<^item> Approval, ApprovalLaws: \<open>approval/\<close>: policies, decisions, the two audit facts as idempotent
    writes, and the execution that commits the question, asks and commits the answer; its runs
    and their invariant.  GoFormat renders what errors print.
  \<^item> ToolContract, ToolExecution: \<open>tools/\<close> and \<open>tools/execution/\<close>: results, descriptors with their
    compiled schemas, and the scheduler of a call: preparation through policy, guards and
    approval, dispatch of the body through the middleware, finalization.  ToolExecutionLaws and
    ToolRuns show what a prepared call has passed, when an invocation is confirmed, and how it settles; ToolTheorems states it.
  \<^item> AgentState, AgentTurns, AgentRecovery: the operations of \<open>ReactLoopAgent\<close> in
    \<open>agentloop/agent*.go\<close>: one record for its fields, one definition per method.
    AgentLaws and AgentRuns hold its invariant, kept by every operation; AgentLog puts the agent
    beside its log.  AgentRequests: \<open>agentloop/agent_request.go\<close>, the model request the agent owns,
    with the modelled prompt and request in place of the parameters; AgentReach: the agents that
    calls of all these operations reach, and how a retained request fits its step.
    AgentSamples is a run for the witnesses; AgentTheorems states the properties of the agent.
  \<^item> Samples is a session with a compaction for the witnesses; this theory states the
    properties of the session log and of compaction.

  \<^bold>\<open>Conventions.\<close>  A method becomes a function from the receiver to a result and the updated
  receiver; a pointer that may be nil is an option.  An error return is \<open>Inl\<close>; a run time panic
  is \<open>Inl (Panicked _)\<close> and goes through error wrapping unchanged, so a panic that the code does
  not recover stays visible.  Integers are mathematical with the checks the code makes; where a
  64-bit sum or counter can wrap it is written out (\<open>wrap64\<close>, a 64-bit word).  Sequence numbers
  are unbounded: a log holds its events in memory and stays far below their limit.  JSON numbers
  are exact.  A \<open>float64\<close> is the rational it stands for: an operation is exact and then rounded
  to nearest even, product and sum are not fused, and the two zeros are one value.  Loops are
  structural recursions, so every definition is total and needs no fuel; the searches by an
  advancing index (\<open>claim_loop\<close>, the scans of a region, the interpolation) end by a measure.
  The one run with fuel is \<open>run_attempt\<close>: 8 results and two for every chunk are enough, which is
  what \<open>served_attempt_answers\<close> proves.

  \<^bold>\<open>Parameters.\<close>  The clock is a function of the position in the batch; a context is the
  sequence of its causes.  Random identities and the random sample of a retry delay, the
  providers of prompt sections and of routes, the results of a model stream, and the bodies,
  policies, guards, compiled schema validators and middleware of a tool call are arguments.
  For the agent operations the prompt value of a step, its copy function and sections, the identity of a new
  context message and the outcome of a model request are arguments too, of
  any type where the code only keeps them; AgentRequests and AgentReach put the modelled prompt and
  request in their place.  The compaction input is an argument.  A failed operation is seen by the settlement
  of a turn as its cancellation, its model failure and its text (\<open>problem\<close>), which is what the
  code takes from an error chain.

  \<^bold>\<open>Not modelled.\<close>  The callbacks that sequence the agent operations over the services
  interface (AgentReach covers what they do to an agent, in any order, but not the order), and the actors, which perform the operations on a runtime library outside the
  repository; the order of extensions (\<open>agent/middleware\<close>); a middleware that delegates concurrently
  or after it returned (\<open>tools/execution/call_dispatch.go\<close>), since the modelled one delegates one time
  after the other within its call; the tool registry, its owners and the
  tools themselves; subagents;
  the providers, whose streams come over HTTP; SQLite storage and its generated queries;
  the user interface's proxy and the web interface; scanning of JSON bytes, which is the
  standard library's.  These are mostly glue around libraries that are not in the repository.
\<close>

section \<open>The session log\<close>

lemma Commit_parts:
  "Commit clock ctx plan l =
   (fst (Commit clock ctx plan l), fst (snd (Commit clock ctx plan l)), snd (snd (Commit clock ctx plan l)))"
  by simp

lemma Commit_extends:
  assumes "Commit clock ctx plan l = (l', r, failure)"
  shows "\<exists>evs. entries l' = entries l @ evs \<and> logHeader l' = logHeader l \<and> firstLiveSeq l' = firstLiveSeq l \<and>
    (failure \<noteq> None \<longrightarrow> l' = l) \<and> (evs \<noteq> [] \<longrightarrow> r = commit_result l l' evs)"
  using assms
proof (cases rule: Commit_cases)
  case (written ds evs)
  then show ?thesis by (auto simp: commitBatch_Inr)
qed auto

text \<open>
  C1: \<open>Log.Commit\<close> is atomic.  Whatever the plan and the context do, the log after the call
  still satisfies its invariant and keeps its header.  An error leaves the log exactly as it was
  and its result names no event.  A success of a plan that did not find an earlier commit appends
  the events of its result, from the old end of the log to the new one, and nothing else (nothing at
  all when the plan made no draft).  A success of an idempotent plan that found its earlier commit
  appends nothing, and its result is what was found, a nonempty range of the log with exactly the
  events stored there.
\<close>

theorem commit_atomic:
  assumes "log_ok l" "Commit clock ctx plan l = (l', r, failure)"
  shows "log_ok l' \<and> logHeader l' = logHeader l \<and> firstLiveSeq l' = firstLiveSeq l \<and>
    (case failure of
       Some e \<Rightarrow> l' = l \<and> r = commit_result l l []
     | None \<Rightarrow>
         (case plan_finds plan l of
            Inl e \<Rightarrow> False
          | Inr None \<Rightarrow>
              entries l' = entries l @ resultEvents r \<and> r = commit_result l l' (resultEvents r) \<and>
              (resultEvents r = [] \<longrightarrow> l' = l)
          | Inr (Some previous) \<Rightarrow> l' = l \<and> r = previous \<and> own_range l r))"
  using assms(2)
proof (cases rule: Commit_cases)
  case (written ds evs)
  then have "resultEvents r = evs" "evs \<noteq> []" by (auto simp: commit_result_def commitBatch_Inr)
  then show ?thesis using written Commit_ok [OF assms] by (auto simp: commitBatch_Inr)
qed (use assms Commit_ok [OF assms] replay_own_range in \<open>auto simp: commit_result_def\<close>)

theorem commit_atomic_witness:
  "fst (snd (Commit (\<lambda>i. 7) live_context (Batch sample_drafts) (new_log sample_header))) =
     commit_result (new_log sample_header) sample_log (entries sample_log) \<and> length (entries sample_log) = 3"
proof -
  let ?c = "Commit (\<lambda>i. 7) live_context (Batch sample_drafts) (new_log sample_header)"
  have ok: "snd (snd ?c) = None" "length (entries sample_log) = 3" by code_simp+
  from commit_atomic [OF new_log_ok Commit_parts, of "\<lambda>i. 7" live_context "Batch sample_drafts" sample_header] ok
  show ?thesis by (simp add: Batch_def sample_log_def new_log_def)
qed

text \<open>
  C2: A committed fixed batch is exactly the caller's drafts: one event per draft, in order,
  with consecutive sequence numbers from the end of the log, the clock's time, and contents
  that \<open>EventDraft.ValidateEvent\<close> accepts for the draft.
\<close>

theorem batch_committed_exactly:
  assumes "Commit clock ctx (Batch ds) l = (l', r, None)"
  shows "entries l' = entries l @ resultEvents r \<and> length (resultEvents r) = length ds \<and>
    firstSeq r = LogSeq l \<and> nextSeq r = LogSeq l' \<and>
    (\<forall>k < length ds. ValidateEvent (ds ! k) (resultEvents r ! k) = Inr () \<and>
       evSeq (resultEvents r ! k) = LogSeq l + int k \<and> evTime (resultEvents r ! k) = clock k)"
  using assms
proof (cases rule: Commit_cases)
  case (replayed prev)
  then show ?thesis by (simp add: Batch_def)
next
  case empty
  then show ?thesis by (auto simp: Batch_def fixed_build_def split: if_splits)
next
  case (written ds' evs)
  then have ds': "ds' = ds" by (simp add: Batch_def fixed_build_def split: if_splits)
  have "evTime (evs ! k) = clock k" if "k < length ds" for k
    using written(5) that by (auto simp: commitBatch_Inr ds' batch_events_nth draft_event_def)
  with commitBatch_entries [OF written(5)] written(6) show ?thesis
    by (simp add: ds' commit_result_def LogSeq_def Barrier_def)
qed simp

theorem batch_committed_exactly_witness:
  "snd (snd (Commit (\<lambda>i. 7) live_context (Batch sample_drafts) (new_log sample_header))) = None \<and>
   length (entries sample_log) = 3"
proof -
  have ok: "snd (snd (Commit (\<lambda>i. 7) live_context (Batch sample_drafts) (new_log sample_header))) = None"
    by code_simp
  have "Commit (\<lambda>i. 7) live_context (Batch sample_drafts) (new_log sample_header) =
      (sample_log, fst (snd (Commit (\<lambda>i. 7) live_context (Batch sample_drafts) (new_log sample_header))), None)"
    using ok by (simp add: sample_log_def prod_eq_iff)
  from batch_committed_exactly [OF this] ok show ?thesis by (simp add: sample_drafts_def new_log_def)
qed

text \<open>
  C36: The batch loop of \<open>commitBatch\<close> skips copying and re-applying the surface when at most
  one draft can change it.  It agrees, errors included, with the loop that applies every
  transition, and it succeeds exactly when every draft is valid and the surface of the
  longer history exists, which is then the log's new surface.
\<close>

theorem batch_equals_stepwise:
  "commitBatch clock l ds =
     bindE (commit_loop clock (entries l) True (view l) no_transition [] ds) (\<lambda>(planned, single, committed).
     Inr (l\<lparr>entries := entries l @ committed, view := planned\<rparr>, committed)) \<and>
   (commitBatch clock l ds = Inr (l', evs) \<longleftrightarrow>
     evs = batch_events clock (length (entries l)) 0 ds \<and>
     list_all2 (\<lambda>d e. ValidateEvent d e = Inr ()) ds evs \<and>
     (\<exists>v. extend_surface (view l) (entries l) evs = Inr v \<and>
          l' = l\<lparr>entries := entries l @ evs, view := v\<rparr>))"
  using commitBatch_reference commitBatch_Inr by (intro conjI)

text \<open>
  C3: The surface of a log is well formed: its nodes are distinct events of the log, each
  of a surface type, and the 64-bit replacement counter is the number of replacements the
  history holds, so it never wraps.
\<close>

theorem surface_well_formed:
  assumes "log_ok l"
  shows "distinct (nodes (view l)) \<and>
    (\<forall>n \<in> set (nodes (view l)). 0 \<le> n \<and> n < LogSeq l \<and> evType (entries l ! nat n) \<in> set surfaceEventTypes) \<and>
    unat (replaceGeneration (view l)) = replacements (entries l) \<and> replacements (entries l) \<le> 2 ^ 53"
  using log_ok_surface [OF assms] log_ok_generation [OF assms] log_ok_length [OF assms]
    replacements_le [of "entries l"]
  by (auto simp: surface_ok_def LogSeq_def)

theorem surface_well_formed_witness:
  "unat (replaceGeneration (view completed_log)) = replacements (entries completed_log) \<and>
   nodes (view completed_log) = [5, 2]"
  using surface_well_formed [of completed_log] sample_completed by simp

text \<open>
  C5: What an accepted replacement does: it replaces one contiguous span of the surface, in
  place, by its own sequence number, counts one replacement, and cites in
  \<open>sourceEventSeqs\<close> every node it shadows, all of them earlier events.
\<close>

theorem replacement_replaces_span:
  assumes "planSurface v e es ps = Inr tr" "is_replacement e" "0 \<le> evSeq e"
  shows "\<exists>i j so. i \<le> j \<and> j < length (nodes v) \<and>
    nodes (applySurface v tr) = take i (nodes v) @ [evSeq e] @ drop (j + 1) (nodes v) \<and>
    replaceGeneration (applySurface v tr) = replaceGeneration v + 1 \<and>
    evSources e = Some so \<and> set (subslice (nodes v) i (j + 1 - i)) \<subseteq> set so \<and>
    (\<forall>s \<in> set so. 0 \<le> s \<and> s < evSeq e) \<and> distinct so"
  using assms(1)
proof (cases rule: planSurface_cases)
  case (replace sop i j)
  obtain so where "evSources e = Some so" "set (subslice (nodes v) i (j + 1 - i)) \<subseteq> set so"
    "\<forall>s \<in> set so. 0 \<le> s \<and> s < evSeq e" "distinct so"
    using validateProvenance_cites [OF replace(9)] subslice_span(1) [OF replace(4,5)] by blast
  with replace assms(3) show ?thesis
    by (intro exI [of _ i] exI [of _ j] exI [of _ so]) (simp add: applySurface_def nat_add_distrib)
qed (use assms(2) in \<open>auto simp: is_replacement_def\<close>)

definition sample_replace :: event where
  "sample_replace = entries completed_log ! 5"

theorem replacement_replaces_span_witness:
  "\<exists>i j. nodes (applySurface (view started_log)
      (projr (planSurface (view started_log) sample_replace (entries completed_log) []))) =
    take i (nodes (view started_log)) @ [5] @ drop (j + 1) (nodes (view started_log))"
proof -
  have c: "isOk (planSurface (view started_log) sample_replace (entries completed_log) [])"
    "is_replacement sample_replace" "evSeq sample_replace = 5" by code_simp+
  then obtain tr where "planSurface (view started_log) sample_replace (entries completed_log) [] = Inr tr"
    by (auto simp: isOk_iff)
  from replacement_replaces_span [OF this c(2)] c(3) this show ?thesis by auto
qed

text \<open>
  C27: A replaced tool result keeps its message: an accepted replacement of type tool/result
  rewrites exactly one node, which is a tool result of the history, and both payloads have
  the same shape, the payload with its result content removed.
\<close>

theorem tool_result_rewrite_keeps_shape:
  assumes "planSurface v e es ps = Inr tr" "is_replacement e" "evType e = ''tool/result''" "0 \<le> evSeq e"
  shows "\<exists>k original shape. k < length (nodes v) \<and> priorEvent es ps (nodes v ! k) = Some original \<and>
    evType original = ''tool/result'' \<and> toolResultShape (evData original) = Inr shape \<and>
    toolResultShape (evData e) = Inr shape \<and> nodes (applySurface v tr) = (nodes v)[k := evSeq e]"
  using assms(1)
proof (cases rule: planSurface_cases)
  case (replace sop i j)
  from replace(2,3,10) assms(3) obtain original shape where
    o: "length (subslice (nodes v) i (j + 1 - i)) = 1"
      "priorEvent es ps (hd (subslice (nodes v) i (j + 1 - i))) = Some original"
      "evType original = ''tool/result''" "toolResultShape (evData original) = Inr shape"
      "toolResultShape (evData e) = Inr shape"
    by (auto simp: validateToolResultRewrite_def bindE_Inr_iff failIf_Inr split: option.splits)
  have "j = i" using o(1) replace(4,5) by simp
  with o replace assms(4) subslice_span(2) [OF replace(4,5)] show ?thesis
    by (intro exI [of _ i]) (auto simp: applySurface_def nat_add_distrib upd_conv_take_nth_drop)
qed (use assms(2) in \<open>auto simp: is_replacement_def\<close>)

definition tool_text :: "string \<Rightarrow> json" where
  "tool_text t = JObj [(''message'', projr (marshal_message
     \<lparr>idValue = ''r'', roleValue = RoleUser, content = [ToolResultBlock ''call'' [TextBlock t] False True],
      origin = ToolSource ''call''\<rparr>))]"

definition tool_event :: "int \<Rightarrow> string \<Rightarrow> surface_operation \<Rightarrow> int list option \<Rightarrow> event" where
  "tool_event q t op so = \<lparr>evType = ''tool/result'', evSeq = q, evTime = 0, evData = Doc (tool_text t),
     evSources = so, evSurfaceOp = Some op, evIgnorable = False\<rparr>"

theorem tool_result_rewrite_keeps_shape_witness:
  "toolResultShape (Doc (tool_text ''long'')) = toolResultShape (Doc (tool_text ''cut''))"
proof -
  let ?v = "\<lparr>nodes = [0], replaceGeneration = 0\<rparr>" and ?es = "[tool_event 0 ''long'' SurfaceAppend None]"
    and ?e = "tool_event 1 ''cut'' (SurfaceReplace 0 0) (Some [0])"
  have "isOk (planSurface ?v ?e ?es [])" "is_replacement ?e" by code_simp+
  then obtain tr where tr: "planSurface ?v ?e ?es [] = Inr tr" by (auto simp: isOk_iff)
  from tool_result_rewrite_keeps_shape [OF tr \<open>is_replacement ?e\<close>] show ?thesis
    by (auto simp: tool_event_def priorEvent_def)
qed

text \<open>
  C24: \<open>DeriveMessages\<close> returns the projection of the current surface whatever its cache
  holds, errors included, and leaves the cache coherent.
\<close>

theorem derive_is_projection:
  assumes "log_ok l" "cache_ok l" "DeriveMessages l = (l', r)"
  shows "r = bindE (surface_messages (entries l) (nodes (view l))) CloneMessages \<and> cache_ok l' \<and>
    entries l' = entries l \<and> view l' = view l"
  using DeriveMessages_spec [OF assms] by blast

theorem derive_is_projection_witness:
  "snd (DeriveMessages (new_log sample_header)) = Inr []"
proof -
  have "cache_ok (new_log sample_header)" by (simp add: cache_ok_def new_log_def)
  from derive_is_projection [OF new_log_ok this prod.collapse [symmetric]] show ?thesis
    by (simp add: new_log_def empty_surface_def CloneMessages_def)
qed

text \<open>
  The cache of \<open>DeriveMessages\<close> is coherent in every log: construction makes it so and
  a commit keeps it, whether it appends to the surface or replaces part of it.
\<close>

theorem cache_stays_coherent:
  "(newWithClock identifier md seed now clock = Inr l \<longrightarrow> log_ok l \<and> cache_ok l) \<and>
   (log_ok l \<and> cache_ok l \<longrightarrow> cache_ok (fst (Commit clock ctx plan l)))"
  using newWithClock_ok newWithClock_cache Commit_cache prod.collapse by metis

theorem cache_stays_coherent_witness: "cache_ok sample_log"
proof -
  have "cache_ok (new_log sample_header)" by (simp add: cache_ok_def new_log_def)
  with cache_stays_coherent [of "[]" sample_metadata None 0 "\<lambda>i. 7" "new_log sample_header" live_context
      "Batch sample_drafts"]
  show ?thesis by (simp add: sample_log_def)
qed

text \<open>
  C33: A session can be reopened from its own events: \<open>NewLog\<close> accepts the history of any
  log as a seed, rebuilds the same surface, and appends one end-seed marker unless the
  history already ends with one.
\<close>

theorem reopen_keeps_session:
  assumes "log_ok l" "buildHeader identifier md now = Inr h" "isSafeNonNegative (LogSeq l)" "isSafeInteger (clock 0)"
  shows "\<exists>l' marker. newWithClock identifier md (Some (entries l)) now clock = Inr l' \<and>
    entries l' = entries l @ marker \<and> view l' = view l \<and> firstLiveSeq l' = LogSeq l \<and>
    (if entries l \<noteq> [] \<and> evType (last (entries l)) = EndSeedEventName then marker = []
     else length marker = 1 \<and> evType (hd marker) = EndSeedEventName)"
  by (rule reopen [where clock = clock, OF assms])

theorem reopen_keeps_session_witness:
  "\<exists>l'. newWithClock ''s'' sample_metadata (Some (entries completed_log)) 0 (\<lambda>i. 3) = Inr l' \<and>
    nodes (view l') = [5, 2]"
proof -
  have h: "isOk (buildHeader ''s'' sample_metadata 0)" by code_simp
  have "LogSeq completed_log = 7" using sample_completed by (simp add: LogSeq_def)
  then have "isSafeNonNegative (LogSeq completed_log)" "isSafeInteger 3"
    by (simp_all add: isSafeNonNegative_def isSafeInteger_def maxSafeInteger_def)
  with h reopen_keeps_session [of completed_log "''s''" sample_metadata 0 _ "\<lambda>i. 3"] sample_completed
  show ?thesis by (fastforce simp: isOk_iff)
qed

section \<open>The durable lock of a compaction\<close>

lemma Commit_wrote:
  assumes "Commit clock ctx (Idempotent build findCommit) l = (l', r, failure)" "l' \<noteq> l"
  shows "\<exists>ds evs. build (Snapshot l) = Inr ds \<and> commitBatch clock l ds = Inr (l', evs)"
  using assms(1) by (cases rule: Commit_cases) (use assms(2) in auto)

text \<open>
  A committed start takes the lock: a log it was appended to had no open transaction,
  and afterwards the log records this one, opened by the appended event and owned by the
  turn of its lifecycle.  The surface does not change.
\<close>

theorem start_takes_lock:
  assumes "newTransactionStart lifecycle requested = Inr p" "log_ok l"
    "Commit clock ctx (start_plan p) l = (l', r, failure)" "l' \<noteq> l"
  shows "\<exists>st. InspectLog (entries l) = Inr st \<and> attempt st = None \<and>
    InspectLog (entries l') = Inr (st\<lparr>attempt := Some
      \<lparr>attID = startID (tsLifecycle p), attCommand = startCommand (tsLifecycle p), attStart = LogSeq l,
       attTurn = startTurn (tsLifecycle p), attSummarized = False\<rparr>\<rparr>) \<and> view l' = view l"
  using Commit_wrote [OF assms(3,4) [unfolded start_plan_def]]
    start_commit [OF newTransactionStart_wf [OF assms(1)] assms(2)]
  unfolding LogSeq_def by blast

lemma sample_start_made:
  "newTransactionStart (tsLifecycle sample_start) (tsRequested sample_start) = Inr sample_start"
  by code_simp

lemma sample_start_runs:
  "Commit (\<lambda>i. 8) live_context (start_plan sample_start) sample_log =
   (started_log, fst (snd (Commit (\<lambda>i. 8) live_context (start_plan sample_start) sample_log)), None)"
  using sample_started by (simp add: started_log_def prod_eq_iff)

lemma sample_lengths:
  "length (entries sample_log) = 3" "started_log \<noteq> sample_log" "ended_log \<noteq> started_log"
  "completed_log \<noteq> started_log"
proof -
  show l: "length (entries sample_log) = 3" by code_simp
  show "started_log \<noteq> sample_log" "ended_log \<noteq> started_log" "completed_log \<noteq> started_log"
    using l sample_started sample_ended sample_completed by (metis numeral_eq_iff semiring_norm(88,89,90))+
qed

theorem start_takes_lock_witness:
  "\<exists>st a. InspectLog (entries started_log) = Inr st \<and> attempt st = Some a \<and> attID a = ''c'' \<and> attStart a = 3"
proof -
  from start_takes_lock [OF sample_start_made _ sample_start_runs] sample_lengths(1,2)
  obtain st where "InspectLog (entries started_log) = Inr (st\<lparr>attempt := Some
      \<lparr>attID = startID (tsLifecycle sample_start), attCommand = startCommand (tsLifecycle sample_start),
       attStart = 3, attTurn = startTurn (tsLifecycle sample_start), attSummarized = False\<rparr>\<rparr>)"
    by (auto simp: LogSeq_def)
  then show ?thesis by (auto simp: sample_start_def)
qed

text \<open>
  A committed failed end releases the lock of its own transaction and leaves the
  surface alone.
\<close>

theorem failed_end_releases_lock:
  assumes "newTransactionEnd lifecycle cause = Inr p" "log_ok l"
    "Commit clock ctx (end_plan p) l = (l', r, failure)" "l' \<noteq> l"
  shows "\<exists>st a. InspectLog (entries l) = Inr st \<and> attempt st = Some a \<and> attID a = startID (teLifecycle p) \<and>
    InspectLog (entries l') = Inr (st\<lparr>attempt := None\<rparr>) \<and> view l' = view l"
  using Commit_wrote [OF assms(3,4) [unfolded end_plan_def]]
    end_commit [OF newTransactionEnd_wf [OF assms(1)] assms(2)] by blast

theorem failed_end_releases_lock_witness:
  "\<exists>st. InspectLog (entries ended_log) = Inr st \<and> attempt st = None"
proof -
  have p: "newTransactionEnd (tsLifecycle sample_start) (Some ''failed'') = Inr sample_end" by code_simp
  have r: "Commit (\<lambda>i. 9) live_context (end_plan sample_end) started_log =
      (ended_log, fst (snd (Commit (\<lambda>i. 9) live_context (end_plan sample_end) started_log)), None)"
    using sample_ended by (simp add: ended_log_def prod_eq_iff)
  from failed_end_releases_lock [OF p _ r] sample_lengths(3) show ?thesis by fastforce
qed

text \<open>
  C7: What a committed completion does: the open transaction it names is released, and the
  selected span, a balanced span of the surface at commit time, is replaced in place by one
  checkpoint message, the second event of the batch.
\<close>

theorem completion_outcome:
  assumes "newTransactionCompletion start rep = Inr p"
    "\<forall>s. DecodeStart (evData start) = Inr s \<longrightarrow> valid_summary (completion_summary s rep)"
    "list_all canonical_block (content (repCheckpoint rep))" "log_ok l"
    "Commit clock ctx (completion_plan p) l = (l', r, failure)" "l' \<noteq> l"
  shows "\<exists>st a i j. InspectLog (entries l) = Inr st \<and> attempt st = Some a \<and> attStart a = evSeq start \<and>
    InspectLog (entries l') = Inr (st\<lparr>attempt := None\<rparr>) \<and> balanced_span (Snapshot l) i j \<and>
    subslice (nodes (view l)) i (j + 1 - i) = regionSeqs (baseSelected (repBaseline rep)) \<and>
    nodes (view l') = take i (nodes (view l)) @ [LogSeq l + 1] @ drop (j + 1) (nodes (view l))"
proof -
  have wf: "wf_completion p" "tcStartSeq p = evSeq start" "tcSelected p = baseSelected (repBaseline rep)"
    using newTransactionCompletion_wf [OF assms(1)] assms(2) by auto
  have "tcCheckpoint p = repCheckpoint rep"
    using assms(1) by (auto simp: newTransactionCompletion_def bindE_Inr_iff dest: CloneUserMessage_same)
  then have "\<forall>b \<in> set (content (tcCheckpoint p)). canonical_block b"
    using assms(3) by (simp add: list_all_iff)
  from Commit_wrote [OF assms(5,6) [unfolded completion_plan_def]]
    completion_commit [OF wf(1) this assms(4)] wf(2,3)
  show ?thesis by metis
qed

lemma sample_completion_made:
  "newTransactionCompletion (entries started_log ! 3) sample_replacement = Inr sample_completion"
  by code_simp

lemma sample_summary_valid:
  "DecodeStart (evData (entries started_log ! 3)) = Inr s \<Longrightarrow> valid_summary (completion_summary s sample_replacement)"
proof -
  have "DecodeStart (evData (entries started_log ! 3)) = Inr (tsLifecycle sample_start)" by code_simp
  moreover have "valid_summary (completion_summary (tsLifecycle sample_start) sample_replacement)"
    by (simp add: valid_summary_def completion_summary_def sample_start_def sample_replacement_def
        canonical_content_def valid_range_def safe_seqs_def append_nil_def isSafeNonNegative_def
        maxSafeInteger_def valid_turn_def elements_def)
  ultimately show "DecodeStart (evData (entries started_log ! 3)) = Inr s \<Longrightarrow> ?thesis" by simp
qed

lemma sample_completion_runs:
  "Commit (\<lambda>i. 9) live_context (completion_plan sample_completion) started_log =
   (completed_log, fst (snd (Commit (\<lambda>i. 9) live_context (completion_plan sample_completion) started_log)), None)"
  using sample_completed by (simp add: completed_log_def prod_eq_iff)

theorem completion_outcome_witness:
  "\<exists>st. InspectLog (entries completed_log) = Inr st \<and> attempt st = None"
proof -
  have "list_all canonical_block (content (repCheckpoint sample_replacement))"
    by (simp add: sample_replacement_def sample_checkpoint_def)
  from completion_outcome [OF sample_completion_made _ this _ sample_completion_runs]
    sample_summary_valid sample_lengths(4) show ?thesis by fastforce
qed

text \<open>
  C6: The lock excludes: in a log that \<open>InspectLog\<close> accepts, two start events always have
  an event between them that releases the lock.
\<close>

theorem lock_is_exclusive:
  assumes "InspectLog (pre @ s # mid @ t # post) = Inr st" "is_start s" "is_start t"
  shows "\<exists>e \<in> set mid. releases e"
  by (rule lock_exclusive [OF assms])

definition second_start :: transaction_start where
  "second_start = \<lparr>tsLifecycle = \<lparr>startID = ''d'', startCommand = None, startTurn = Some 1\<rparr>,
     tsRequested = \<lparr>rangeStart = 2, rangeEnd = 2\<rparr>\<rparr>"

definition restarted_log :: log where
  "restarted_log = fst (Commit (\<lambda>i. 9) live_context (start_plan second_start) ended_log)"

theorem lock_is_exclusive_witness:
  "releases (entries restarted_log ! 4)"
proof -
  let ?es = "entries restarted_log"
  have "length ?es = 6" by code_simp
  moreover have "isOk (InspectLog ?es)" by code_simp
  moreover have "is_start (?es ! 3)" "is_start (?es ! 5)" by code_simp+
  ultimately have i: "isOk (InspectLog ?es)" "length ?es = 6" "is_start (?es ! 3)" "is_start (?es ! 5)" by blast+
  then obtain a b c x y z where es: "?es = [a, b, c, x, y, z]"
    by (auto simp: numeral_eq_Suc length_Suc_conv)
  with i(1) obtain st where "InspectLog ([a, b, c] @ x # [y] @ z # []) = Inr st" by (auto simp: isOk_iff)
  from lock_is_exclusive [OF this] i(3,4) show ?thesis by (simp add: es)
qed

text \<open>
  Whoever holds the lock belongs to the open turn: an attempt that \<open>InspectLog\<close> reports
  open was opened by a start event of the log, carries the fields of that event, is owned by
  the turn now open (or by none, when none is), and was not orphaned by a reopened session.
\<close>

theorem open_attempt_has_owner:
  assumes "log_ok l" "InspectLog (entries l) = Inr st" "attempt st = Some a"
  shows "\<exists>k s. k < length (entries l) \<and> attStart a = int k \<and> is_start (entries l ! k) \<and>
    DecodeStart (evData (entries l ! k)) = Inr s \<and>
    attID a = startID s \<and> attCommand a = startCommand s \<and> attTurn a = startTurn s \<and>
    attTurn a = openTurn st \<and> attStart a \<notin> set (inheritedOrphanStarts (entries l))"
proof -
  have c: "contiguous (entries l)" using assms(1) by (simp add: log_ok_def)
  obtain pre x post where x: "entries l = pre @ x # post" "started_by a x post"
    using attempt_started assms(2,3) unfolding InspectLog_def by blast
  have "evSeq x = int (length pre)"
    using c x(1) by (auto simp: contiguous_append dest: spec [of _ 0])
  with x open_attempt_owner [OF assms(2) c assms(3)] show ?thesis
    by (auto simp: started_by_def intro!: exI [of _ "length pre"])
qed

theorem open_attempt_has_owner_witness:
  "\<exists>st. InspectLog (entries started_log) = Inr st \<and> openTurn st = Some 1"
proof -
  have c: "isOk (InspectLog (entries started_log))"
    "map_option attTurn (attempt (projr (InspectLog (entries started_log)))) = Some (Some 1)" by code_simp+
  then obtain st a where "InspectLog (entries started_log) = Inr st" "attempt st = Some a" "attTurn a = Some 1"
    by (auto simp: isOk_iff)
  with open_attempt_has_owner [OF sample_logs_ok(2)] show ?thesis by metis
qed

section \<open>Retrying a compaction write\<close>

text \<open>
  A retried start is a no-op: once a start took effect, committing the same proposal
  again, after whatever else was appended since, changes nothing and returns the same
  result, even though the lock may be held or released by then.
\<close>

theorem start_retry_is_noop:
  assumes "newTransactionStart lifecycle requested = Inr p" "log_ok l"
    "Commit clock ctx (start_plan p) l = (l1, r, None)" "firstSeq r < nextSeq r" "live ctx'"
    "log_ok l2" "logHeader l2 = logHeader l1" "entries l2 = entries l1 @ es"
  shows "Commit clock' ctx' (start_plan p) l2 = (l2, r, None)"
  using start_write.retry_after_others [OF newTransactionStart_wf [OF assms(1)] assms(2)] assms(3-8)
  unfolding start_plan_def by (simp add: list_all_iff)

theorem start_retry_is_noop_witness:
  "fst (Commit (\<lambda>i. 20) live_context (start_plan sample_start) completed_log) = completed_log"
proof -
  let ?r = "fst (snd (Commit (\<lambda>i. 8) live_context (start_plan sample_start) sample_log))"
  have "firstSeq ?r < nextSeq ?r" by code_simp
  moreover have "\<exists>es. entries completed_log = entries started_log @ es \<and> logHeader completed_log = logHeader started_log"
    using Commit_extends [OF sample_completion_runs] by blast
  ultimately obtain es where "firstSeq ?r < nextSeq ?r" "entries completed_log = entries started_log @ es"
    "logHeader completed_log = logHeader started_log" by blast
  from start_retry_is_noop [OF sample_start_made _ sample_start_runs this(1) live_context_live _ this(3,2)]
  show ?thesis by simp
qed

text \<open>
  A retried failed end is a no-op, also after the session went on.
\<close>

theorem failed_end_retry_is_noop:
  assumes "newTransactionEnd lifecycle cause = Inr p" "log_ok l"
    "Commit clock ctx (end_plan p) l = (l1, r, None)" "firstSeq r < nextSeq r" "live ctx'"
    "log_ok l2" "logHeader l2 = logHeader l1" "entries l2 = entries l1 @ es"
  shows "Commit clock' ctx' (end_plan p) l2 = (l2, r, None)"
  using end_write.retry_after_others [OF newTransactionEnd_wf [OF assms(1)] assms(2)] assms(3-8)
  unfolding end_plan_def by (simp add: list_all_iff)

theorem failed_end_retry_is_noop_witness:
  "fst (Commit (\<lambda>i. 20) live_context (end_plan sample_end) ended_log) = ended_log"
proof -
  let ?c = "Commit (\<lambda>i. 9) live_context (end_plan sample_end) started_log"
  have p: "newTransactionEnd (tsLifecycle sample_start) (Some ''failed'') = Inr sample_end" by code_simp
  have r: "?c = (ended_log, fst (snd ?c), None)" using sample_ended by (simp add: ended_log_def prod_eq_iff)
  have "firstSeq (fst (snd ?c)) < nextSeq (fst (snd ?c))" by code_simp
  from failed_end_retry_is_noop [OF p _ r this, of live_context ended_log "[]"] show ?thesis by simp
qed

text \<open>
  A retried completion is a no-op, also after the session went on: its batch is found
  by its summary, checked against the drafts and returned as it was committed.
\<close>

theorem completion_retry_is_noop:
  assumes "newTransactionCompletion start rep = Inr p"
    "\<forall>s. DecodeStart (evData start) = Inr s \<longrightarrow> valid_summary (completion_summary s rep)" "log_ok l"
    "Commit clock ctx (completion_plan p) l = (l1, r, None)" "firstSeq r < nextSeq r" "live ctx'"
    "log_ok l2" "logHeader l2 = logHeader l1" "entries l2 = entries l1 @ es"
  shows "Commit clock' ctx' (completion_plan p) l2 = (l2, r, None)"
proof -
  have "wf_completion p" using newTransactionCompletion_wf [OF assms(1)] assms(2) by blast
  from completion_write.retry_after_others [OF this assms(3)] assms(4-9) show ?thesis
    unfolding completion_plan_def by (simp add: list_all_iff)
qed

theorem completion_retry_is_noop_witness:
  "fst (Commit (\<lambda>i. 20) live_context (completion_plan sample_completion) completed_log) = completed_log"
proof -
  let ?r = "fst (snd (Commit (\<lambda>i. 9) live_context (completion_plan sample_completion) started_log))"
  have "firstSeq ?r < nextSeq ?r" by code_simp
  with completion_retry_is_noop [OF sample_completion_made _ _ sample_completion_runs, of live_context completed_log "[]"]
    sample_summary_valid show ?thesis by simp
qed

text \<open>
  Two calls with the same completion append at most one batch, whatever outcome the
  first call reported and whatever the two contexts did.
\<close>

theorem completion_at_most_once:
  assumes "newTransactionCompletion start rep = Inr p"
    "\<forall>s. DecodeStart (evData start) = Inr s \<longrightarrow> valid_summary (completion_summary s rep)" "log_ok l"
    "Commit clock ctx (completion_plan p) l = (l1, r1, failure1)"
    "Commit clock' ctx' (completion_plan p) l1 = (l2, r2, failure2)"
  shows "l2 = l1 \<or> l1 = l"
  using completion_write.at_most_once [OF _ assms(3)] newTransactionCompletion_wf [OF assms(1)] assms(2,4,5)
  unfolding completion_plan_def by blast

theorem completion_at_most_once_witness:
  "fst (Commit (\<lambda>i. 20) (Context (\<lambda>i. Some (err ''gone''))) (completion_plan sample_completion) completed_log) =
   completed_log"
proof -
  obtain l2 r2 f2 where c: "Commit (\<lambda>i. 20) (Context (\<lambda>i. Some (err ''gone''))) (completion_plan sample_completion)
      completed_log = (l2, r2, f2)" by (metis prod.collapse)
  from completion_at_most_once [OF sample_completion_made _ _ sample_completion_runs c] sample_summary_valid
    sample_lengths(4) c show ?thesis by auto
qed

section \<open>What a compaction selects\<close>

text \<open>
  C34: A cut is balanced exactly when the tool calls and results of the nodes before it
  match, and no prefix of the surface ever has more results than calls: the boundaries of
  \<open>BuildToolPairingBoundaries\<close> answer both questions for every node of the surface.
\<close>

theorem cuts_match_pairs:
  assumes "BuildToolPairingBoundaries snap = Inr b" "distinct (nodes (snapSurface snap))"
    "k < length (nodes (snapSurface snap))"
  shows "CutBefore b (nodes (snapSurface snap) ! k) =
      Inr (balance (snapEvents snap) (take k (nodes (snapSurface snap))) = 0) \<and>
    CutAfter b (nodes (snapSurface snap) ! k) =
      Inr (balance (snapEvents snap) (take (Suc k) (nodes (snapSurface snap))) = 0) \<and>
    0 \<le> balance (snapEvents snap) (take k (nodes (snapSurface snap)))"
  using cuts_are_balances [OF assms] boundaries_spec(4) [OF assms(1), of k] assms(3) by simp

lemma sample_nodes: "nodes (view sample_log) = [1, 2]"
  by code_simp

theorem cuts_match_pairs_witness:
  "CutBefore (projr (BuildToolPairingBoundaries (Snapshot sample_log))) 2 = Inr True"
proof -
  have b: "isOk (BuildToolPairingBoundaries (Snapshot sample_log))" by code_simp
  then obtain b where "BuildToolPairingBoundaries (Snapshot sample_log) = Inr b" by (auto simp: isOk_iff)
  from cuts_match_pairs [OF this, of 1] this
  have "CutBefore b 2 = Inr (balance (snapEvents (Snapshot sample_log)) [1] = 0)"
    by (simp add: sample_nodes Snapshot_def)
  moreover have "balance (snapEvents (Snapshot sample_log)) [1] = 0" by code_simp
  ultimately show ?thesis
    using \<open>BuildToolPairingBoundaries (Snapshot sample_log) = Inr b\<close> by simp
qed

text \<open>
  C35: The range \<open>selectRange\<close> chooses is a balanced prefix of the surface that leaves at
  least the retained tokens behind it, and no longer prefix is both; choosing nothing and
  errors aside, the chosen range can be located again in the same snapshot.
\<close>

theorem selection_is_longest:
  assumes "selectRange snap prices retain = Inr (Some r)" "distinct (nodes (snapSurface snap))"
  shows "(\<exists>k. 0 < k \<and> k < length (nodes (snapSurface snap)) \<and> r = span_range snap 0 (k - 1) \<and>
      balanced_span snap 0 (k - 1) \<and> retain \<le> tail_price (pricedNodes prices) k \<and>
      (\<forall>m. k < m \<and> m < length (nodes (snapSurface snap)) \<longrightarrow>
         tail_price (pricedNodes prices) m < retain \<or>
         balance (snapEvents snap) (take m (nodes (snapSurface snap))) \<noteq> 0)) \<and>
    isOk (locateRegion snap r)"
  using selectRange_Some [OF assms] selectRange_locates [OF assms] by (auto simp: isOk_iff)

theorem selection_is_longest_witness:
  "selectRange (Snapshot sample_log) sample_prices 10 = Inr (Some \<lparr>rangeStart = 1, rangeEnd = 1\<rparr>) \<and>
   isOk (locateRegion (Snapshot sample_log) \<lparr>rangeStart = 1, rangeEnd = 1\<rparr>)"
proof -
  have s: "selectRange (Snapshot sample_log) sample_prices 10 = Inr (Some \<lparr>rangeStart = 1, rangeEnd = 1\<rparr>)"
    by code_simp
  moreover have "distinct (nodes (snapSurface (Snapshot sample_log)))"
    by (simp add: Snapshot_def sample_nodes)
  ultimately show ?thesis using selection_is_longest by blast
qed

text \<open>
  The price \<open>captureBaseline\<close> records is the sum of the prices of the span it
  captured, and it is a safe integer although the prices are added in machine integers; the
  span is balanced and the whole surface is recorded for the later stability check.
\<close>

theorem baseline_prices_span:
  assumes "captureBaseline buildInput snap prices requested = Inr source" "distinct (nodes (snapSurface snap))"
  shows "\<exists>i j. balanced_span snap i j \<and> requested = span_range snap i j \<and>
    baseSelected source = span_region snap i j \<and> baseSurface source = nodes (snapSurface snap) \<and>
    baseTokens source = sum_list (map pricedTokens (subslice (pricedNodes prices) i (j + 1 - i))) \<and>
    isSafeNonNegative (baseTokens source)"
  using captureBaseline_Inr [OF assms] by (auto simp: isSafeNonNegative_def maxSafeInteger_def)

theorem baseline_prices_span_witness:
  "\<exists>source. captureBaseline (\<lambda>snap seqs. Inr seqs) (Snapshot sample_log) sample_prices
      \<lparr>rangeStart = 1, rangeEnd = 2\<rparr> = Inr source \<and> isSafeNonNegative (baseTokens source)"
proof -
  have "isOk (captureBaseline (\<lambda>snap seqs. Inr seqs) (Snapshot sample_log) sample_prices
      \<lparr>rangeStart = 1, rangeEnd = 2\<rparr>)" by code_simp
  then obtain source where s: "captureBaseline (\<lambda>snap seqs. Inr seqs) (Snapshot sample_log) sample_prices
      \<lparr>rangeStart = 1, rangeEnd = 2\<rparr> = Inr source" by (auto simp: isOk_iff)
  from baseline_prices_span [OF this] s show ?thesis by (auto simp: Snapshot_def sample_nodes)
qed

section \<open>Durable payloads\<close>

text \<open>
  C38: A message with canonical content survives the wire: \<open>MarshalMessage\<close> encodes it
  losslessly and \<open>DecodeMessage\<close> reads back the same message, of the same class.
\<close>

theorem message_survives_wire:
  assumes "canonical_value v"
  shows "\<exists>j. marshal_message v = Inr j \<and> lossless j \<and> DecodeMessage (Doc j) = Inr (classify v)"
  by (rule message_round_trip [OF assms])

theorem message_survives_wire_witness:
  "DecodeMessage (Doc (projr (marshal_message (user_text ''m1'' ''hello'')))) =
     Inr (classify (user_text ''m1'' ''hello''))"
proof -
  have "canonical_value (user_text ''m1'' ''hello'')"
    by (simp add: canonical_value_def user_text_def)
  from message_survives_wire [OF this] show ?thesis by auto
qed

text \<open>
  The payloads of the transaction events survive the wire: what \<open>DecodeStart\<close>,
  \<open>DecodeEnd\<close> or \<open>DecodePrune\<close> accepts can be encoded again and decodes to the same value,
  and two payloads they can produce with the same encoding are equal.
\<close>

theorem lifecycle_survives_wire:
  "(DecodeStart r = Inr s \<longrightarrow> (\<exists>j. marshal_start s = Inr j \<and> DecodeStart (Doc j) = Inr s)) \<and>
   (DecodeEnd r = Inr e \<longrightarrow> (\<exists>j. marshal_end e = Inr j \<and> DecodeEnd (Doc j) = Inr e)) \<and>
   (DecodePrune r = Inr p \<longrightarrow> (\<exists>j. marshal_prune p = Inr j \<and> DecodePrune (Doc j) = Inr p))"
  using start_codec.re_encode end_codec.re_encode prune_codec.re_encode by blast

theorem lifecycle_survives_wire_witness:
  "\<exists>j. marshal_start (tsLifecycle sample_start) = Inr j \<and> DecodeStart (Doc j) = Inr (tsLifecycle sample_start)"
proof -
  have "DecodeStart (evData (entries started_log ! 3)) = Inr (tsLifecycle sample_start)" by code_simp
  with lifecycle_survives_wire show ?thesis by blast
qed

text \<open>
  A summary payload as the package writes it, with canonical content and usage in
  safe integers, survives the wire unchanged.
\<close>

theorem summary_survives_wire:
  assumes "valid_summary s"
  shows "\<exists>j. marshal_summary s = Inr j \<and> lossless j \<and> DecodeSummary (Doc j) = Inr s"
  by (rule summary_round_trip [OF assms])

theorem summary_survives_wire_witness:
  "isOk (marshal_summary (completion_summary (tsLifecycle sample_start) sample_replacement))"
proof -
  have "DecodeStart (evData (entries started_log ! 3)) = Inr (tsLifecycle sample_start)" by code_simp
  from summary_survives_wire [OF sample_summary_valid [OF this]] show ?thesis by (auto simp: isOk_iff)
qed

text \<open>
  A surface operation survives the wire: what its \<open>MarshalJSON\<close> accepts,
  \<open>UnmarshalJSON\<close> reads back, both kinds included.
\<close>

theorem surface_op_survives_wire:
  assumes "surface_op_json operation = Inr j"
    "opKind operation = ''append'' \<Longrightarrow> opStart operation = 0 \<and> opEnd operation = 0"
  shows "lossless j \<and> surface_op_of_json (Doc j) = Inr operation"
  using surface_op_json_round_trip [OF assms] .

theorem surface_op_survives_wire_witness:
  "surface_op_of_json (Doc (projr (surface_op_json (SurfaceReplace 3 9)))) = Inr (SurfaceReplace 3 9)"
proof -
  have "isOk (surface_op_json (SurfaceReplace 3 9))" by code_simp
  then obtain j where "surface_op_json (SurfaceReplace 3 9) = Inr j" by (auto simp: isOk_iff)
  with surface_op_survives_wire [OF this] show ?thesis by (simp add: SurfaceReplace_def)
qed

section \<open>A null result block\<close>

text \<open>A tool result whose content is one null block, and a replacement of it.\<close>

definition null_result :: "int \<Rightarrow> surface_operation \<Rightarrow> int list option \<Rightarrow> event" where
  "null_result q op so =
     \<lparr>evType = ''tool/result'', evSeq = q, evTime = 0,
      evData = Doc (JObj [(''message'', JObj [(''content'', JArr [JNull])])]),
      evSources = so, evSurfaceOp = Some op, evIgnorable = False\<rparr>"

definition null_seed :: "event list" where
  "null_seed = [null_result 0 SurfaceAppend None, null_result 1 (SurfaceReplace 0 0) (Some [0])]"

definition null_drafts :: "event_draft list" where
  "null_drafts = map (\<lambda>e. \<lparr>draftType = evType e, draftData = evData e, draftSources = evSources e,
     draftSurfaceOp = evSurfaceOp e, draftIgnorable = False\<rparr>) null_seed"

text \<open>
  C40: The shape check of a tool result does not expect a null content block.  Two such
  events, a result and its replacement, are reported as an error by \<open>Log.Commit\<close>, which
  recovers and leaves the log as it was; the same two events as a seed make \<open>NewLog\<close>
  panic, since the seed loop has no recovery.
\<close>

theorem null_block_panics_seed:
  "(\<exists>p. newWithClock ''s'' sample_metadata (Some null_seed) 0 (\<lambda>i. 0) = Inl (Panicked p)) \<and>
   fst (Commit (\<lambda>i. 0) live_context (Batch null_drafts) (new_log sample_header)) = new_log sample_header \<and>
   (\<exists>p. snd (snd (Commit (\<lambda>i. 0) live_context (Batch null_drafts) (new_log sample_header))) =
      Some (Errorf ''session: WritePlan panicked: %v'' [AStr p]))"
proof (intro conjI)
  let ?c = "Commit (\<lambda>i. 0) live_context (Batch null_drafts) (new_log sample_header)"
  have "(case newWithClock ''s'' sample_metadata (Some null_seed) 0 (\<lambda>i. 0) of
      Inl (Panicked p) \<Rightarrow> True | _ \<Rightarrow> False)" by code_simp
  then show "\<exists>p. newWithClock ''s'' sample_metadata (Some null_seed) 0 (\<lambda>i. 0) = Inl (Panicked p)"
    by (auto split: sum.splits goerr.splits)
  have "(case snd (snd ?c) of Some (Errorf f [AStr p]) \<Rightarrow> f = ''session: WritePlan panicked: %v'' | _ \<Rightarrow> False)"
    by code_simp
  then show "\<exists>p. snd (snd ?c) = Some (Errorf ''session: WritePlan panicked: %v'' [AStr p])"
    by (auto split: option.splits goerr.splits list.splits earg.splits)
  then show "fst ?c = new_log sample_header"
    using Commit_extends [OF Commit_parts, of "\<lambda>i. 0" live_context "Batch null_drafts" "new_log sample_header"]
    by auto
qed

end
